(* ===== verification/Prelude.thy ===== *)
theory Prelude
  imports Main
begin

text \<open>
  Shared ground of the development: the exception classes of the program with their
  inheritance (\<open>nano_aural_runtime/errors.py\<close>, \<open>durable/errors.py\<close> and the classes that
  other modules declare), results that may be an exception, operations that thread a state
  and keep the state they have reached when an exception leaves them, and the generic
  state machine whose run lemmas every stateful component instantiates.
\<close>

section \<open>Exceptions\<close>

datatype exc_class =
    BaseException | KeyboardInterrupt | SystemExit
  | Exception | ValueError | TypeError | KeyError | RuntimeError | OSError | FileNotFoundError
  | TimeoutError | UnicodeError
  | NanoAuralRuntimeError | AdapterRegistrationError | AdapterNotFoundError
  | AdapterContractError | SessionStateError | InvocationError | InvocationRejectedError
  | InvocationCancelledError | AdapterExecutionError | WorkerProcessFatal
  | PublicationPlanningError | PublicationMonitorError
  | DurableError | DurableInvariantError | StateTransitionError | IdempotencyConflictError
  | NotFoundError
  | ApplicationError | AccessDenied | AuthenticationFailed | ResourceNotFound | InvalidRequest
  | ArtifactValidationError | ArtifactPublicationError | ArtifactRejectedError
  | MaterializationError | EvidenceDriftError | MaterializationIntegrityError
  | MaterializationMediaError | MaterializationLeaseLostError | WorkspaceCleanupError
  | BuilderRegistryError | WorkerCapabilityError | WorkflowError
  | ControlFoleyCacheInputDrift
  | TimeoutExpired | UniqueViolation | CheckViolation | ForeignKeyViolation | DataError | NumericValueOutOfRange | RaiseException
  | OverflowError
  | SchemaValidationError | GpuPrerequisitesUnavailable | ControlFoleyStageExecutionError
  | ControlFoleyStageContractError | ControlFoleyProfileSealError | VideoWindowError
  | SecretRedactionError | RemoteApiError | RemoteIntegrityError

text \<open>The direct base class of each class, as the \<open>class\<close> statements declare it.\<close>

fun parent :: "exc_class \<Rightarrow> exc_class option" where
  "parent BaseException = None"
| "parent KeyboardInterrupt = Some BaseException"
| "parent SystemExit = Some BaseException"
| "parent Exception = Some BaseException"
| "parent ValueError = Some Exception"
| "parent TypeError = Some Exception"
| "parent KeyError = Some Exception"
| "parent RuntimeError = Some Exception"
| "parent OSError = Some Exception"
| "parent FileNotFoundError = Some OSError"
| "parent TimeoutError = Some OSError"
| "parent UnicodeError = Some ValueError"
| "parent NanoAuralRuntimeError = Some Exception"
| "parent AdapterRegistrationError = Some NanoAuralRuntimeError"
| "parent AdapterNotFoundError = Some NanoAuralRuntimeError"
| "parent AdapterContractError = Some NanoAuralRuntimeError"
| "parent SessionStateError = Some NanoAuralRuntimeError"
| "parent InvocationError = Some NanoAuralRuntimeError"
| "parent InvocationRejectedError = Some InvocationError"
| "parent InvocationCancelledError = Some InvocationError"
| "parent AdapterExecutionError = Some InvocationError"
| "parent WorkerProcessFatal = Some AdapterExecutionError"
| "parent PublicationPlanningError = Some InvocationRejectedError"
| "parent PublicationMonitorError = Some RuntimeError"
| "parent DurableError = Some Exception"
| "parent DurableInvariantError = Some DurableError"
| "parent StateTransitionError = Some DurableInvariantError"
| "parent IdempotencyConflictError = Some DurableInvariantError"
| "parent NotFoundError = Some DurableError"
| "parent ApplicationError = Some Exception"
| "parent AccessDenied = Some ApplicationError"
| "parent AuthenticationFailed = Some ApplicationError"
| "parent ResourceNotFound = Some ApplicationError"
| "parent InvalidRequest = Some ApplicationError"
| "parent ArtifactValidationError = Some ValueError"
| "parent ArtifactPublicationError = Some DurableInvariantError"
| "parent ArtifactRejectedError = Some ArtifactPublicationError"
| "parent MaterializationError = Some DurableError"
| "parent EvidenceDriftError = Some MaterializationError"
| "parent MaterializationIntegrityError = Some MaterializationError"
| "parent MaterializationMediaError = Some MaterializationError"
| "parent MaterializationLeaseLostError = Some MaterializationError"
| "parent WorkspaceCleanupError = Some MaterializationError"
| "parent BuilderRegistryError = Some InvocationRejectedError"
| "parent WorkerCapabilityError = Some InvocationRejectedError"
| "parent WorkflowError = Some ValueError"
| "parent ControlFoleyCacheInputDrift = Some ValueError"
| "parent TimeoutExpired = Some Exception"
| "parent UniqueViolation = Some Exception"
| "parent CheckViolation = Some Exception"
| "parent ForeignKeyViolation = Some Exception"
| "parent DataError = Some Exception"
| "parent NumericValueOutOfRange = Some DataError"
| "parent RaiseException = Some Exception"
| "parent OverflowError = Some Exception"
| "parent SchemaValidationError = Some ValueError"
| "parent GpuPrerequisitesUnavailable = Some RuntimeError"
| "parent ControlFoleyStageExecutionError = Some AdapterExecutionError"
| "parent ControlFoleyStageContractError = Some AdapterExecutionError"
| "parent ControlFoleyProfileSealError = Some ValueError"
| "parent VideoWindowError = Some ValueError"
| "parent SecretRedactionError = Some ValueError"
| "parent RemoteApiError = Some Exception"
| "parent RemoteIntegrityError = Some RemoteApiError"

text \<open>\<open>issubclass\<close>: the class itself or a base of it. No class is more than six levels deep.\<close>

fun subclass_within :: "nat \<Rightarrow> exc_class \<Rightarrow> exc_class \<Rightarrow> bool" where
  "subclass_within 0 c d = (c = d)"
| "subclass_within (Suc n) c d =
     (c = d \<or> (case parent c of None \<Rightarrow> False | Some p \<Rightarrow> subclass_within n p d))"

definition issubclass :: "exc_class \<Rightarrow> exc_class \<Rightarrow> bool" where
  "issubclass c d = subclass_within 6 c d"

lemma issubclass_refl [simp]: "issubclass c c"
  by (simp add: issubclass_def numeral_eq_Suc)

lemma issubclass_step: "parent c = Some p \<Longrightarrow> issubclass c p"
  by (simp add: issubclass_def numeral_eq_Suc)

lemma issubclass_BaseException: "issubclass c BaseException"
  by (cases c) (simp_all add: issubclass_def numeral_eq_Suc)

datatype exc = Exc (exc_class_of: exc_class) (exc_message: string)

definition instance_of :: "exc \<Rightarrow> exc_class \<Rightarrow> bool" where
  "instance_of e c = issubclass (exc_class_of e) c"

definition instance_of_any :: "exc \<Rightarrow> exc_class list \<Rightarrow> bool" where
  "instance_of_any e cs = list_ex (instance_of e) cs"

section \<open>Results\<close>

type_synonym 'a res = "exc + 'a"

definition raise :: "exc_class \<Rightarrow> string \<Rightarrow> 'a res" where
  "raise c m = Inl (Exc c m)"

definition require :: "bool \<Rightarrow> exc_class \<Rightarrow> string \<Rightarrow> unit res" where
  "require b c m = (if b then Inr () else raise c m)"

text \<open>A sequence of checks: the first that raises decides.\<close>

fun checks :: "unit res list \<Rightarrow> unit res" where
  "checks [] = Inr ()"
| "checks (c # cs) = (case c of Inl e \<Rightarrow> Inl e | Inr u \<Rightarrow> checks cs)"

text \<open>\<open>after r k\<close>: go on with \<open>k\<close> when \<open>r\<close> is a value.\<close>

definition after :: "'a res \<Rightarrow> ('a \<Rightarrow> 'b res) \<Rightarrow> 'b res" where
  "after r k = (case r of Inl e \<Rightarrow> Inl e | Inr a \<Rightarrow> k a)"

lemma raise_not_Inr [simp]: "raise c m \<noteq> Inr a"
  by (simp add: raise_def)

lemma raise_eq_iff [simp]: "raise c m = raise c' m' \<longleftrightarrow> c = c' \<and> m = m'"
  by (simp add: raise_def)

lemma require_ok [simp]: "require b c m = Inr () \<longleftrightarrow> b"
  by (simp add: require_def)

lemma require_True [simp]: "require True c m = Inr ()"
  and require_False [simp]: "require False c m = raise c m"
  by (simp_all add: require_def)

lemma require_cases: "require b c m = (if b then Inr () else raise c m)"
  by (simp add: require_def)

lemma checks_ok: "checks cs = Inr () \<longleftrightarrow> (\<forall>c \<in> set cs. c = Inr ())"
  by (induction cs) (auto split: sum.splits)

lemma checks_Cons_ok: "checks (c # cs) = Inr u \<longleftrightarrow> c = Inr () \<and> checks cs = Inr ()"
  by (auto split: sum.splits)

lemmas checks_Cons = checks.simps(2)

declare checks.simps(2) [simp del]

lemma after_Inl [simp]: "after (Inl e) k = Inl e"
  by (simp add: after_def)

lemma after_Inr [simp]: "after (Inr a) k = k a"
  by (simp add: after_def)

lemma after_raise [simp]: "after (raise c m) k = raise c m"
  by (simp add: after_def raise_def)

lemma after_eq_Inr: "after r k = Inr b \<longleftrightarrow> (\<exists>a. r = Inr a \<and> k a = Inr b)"
  by (simp add: after_def split: sum.splits)

section \<open>Operations on a state\<close>

text \<open>
  An operation returns its result together with the state it leaves. When it raises, the
  state is the one the object has been mutated to at that point, as in Python.
\<close>

type_synonym ('s, 'a) sop = "'s \<Rightarrow> 'a res \<times> 's"

definition ok :: "'a \<Rightarrow> 's \<Rightarrow> 'a res \<times> 's" where
  "ok a s = (Inr a, s)"

definition fail :: "exc_class \<Rightarrow> string \<Rightarrow> 's \<Rightarrow> 'a res \<times> 's" where
  "fail c m s = (raise c m, s)"

text \<open>\<open>lift r s k\<close>: a pure lookup that may raise, in the middle of an operation.\<close>

definition lift :: "'a res \<Rightarrow> 's \<Rightarrow> ('a \<Rightarrow> 'b res \<times> 's) \<Rightarrow> 'b res \<times> 's" where
  "lift r s k = (case r of Inl e \<Rightarrow> (Inl e, s) | Inr a \<Rightarrow> k a)"

text \<open>\<open>sbind m k\<close>: a call that changes the state, in the middle of an operation.\<close>

definition sbind :: "('s, 'a) sop \<Rightarrow> ('a \<Rightarrow> ('s, 'b) sop) \<Rightarrow> ('s, 'b) sop" where
  "sbind m k s = (case m s of (Inl e, s') \<Rightarrow> (Inl e, s') | (Inr a, s') \<Rightarrow> k a s')"

lemmas sop_defs = ok_def fail_def lift_def sbind_def

lemma lift_Inl [simp]: "lift (Inl e) s k = (Inl e, s)"
  by (simp add: lift_def)

lemma lift_Inr [simp]: "lift (Inr a) s k = k a"
  by (simp add: lift_def)

lemma lift_raise [simp]: "lift (raise c m) s k = fail c m s"
  by (simp add: lift_def raise_def fail_def)

lemma lift_eq_Inr:
  "lift r s k = (Inr b, s') \<longleftrightarrow> (\<exists>a. r = Inr a \<and> k a = (Inr b, s'))"
  by (simp add: lift_def split: sum.splits)

lemma fail_neq_ok [simp]: "fail c m s \<noteq> (Inr a, s')" "fail c m s \<noteq> ok a s'"
  by (simp_all add: fail_def ok_def)

lemma ok_eq [simp]: "ok a s = (Inr b, s') \<longleftrightarrow> a = b \<and> s = s'"
  by (simp add: ok_def)

lemma fst_ok [simp]: "fst (ok a s) = Inr a"
  and snd_ok [simp]: "snd (ok a s) = s"
  and fst_fail [simp]: "fst (fail c m s) = raise c m"
  and snd_fail [simp]: "snd (fail c m s) = s"
  by (simp_all add: ok_def fail_def)

lemma snd_lift_cases:
  "(\<And>e. r = Inl e \<Longrightarrow> P s) \<Longrightarrow> (\<And>a. r = Inr a \<Longrightarrow> P (snd (k a))) \<Longrightarrow> P (snd (lift r s k))"
  by (simp add: lift_def split: sum.splits)

section \<open>Weakest preconditions\<close>

text \<open>
  \<open>wp X V p\<close>: the outcome \<open>p\<close> of an operation satisfies \<open>V\<close> when it returned and \<open>X\<close> when it
  raised. The equations of \<open>wp_simps\<close> push it through the constructs operations are made of, so
  that a statement about an operation becomes one about its branches.
\<close>

named_theorems wp_simps

definition wp :: "(exc \<Rightarrow> 's \<Rightarrow> bool) \<Rightarrow> ('a \<Rightarrow> 's \<Rightarrow> bool) \<Rightarrow> 'a res \<times> 's \<Rightarrow> bool" where
  "wp X V p = (case p of (Inl e, s) \<Rightarrow> X e s | (Inr a, s) \<Rightarrow> V a s)"

lemma wp_ok [wp_simps]: "wp X V (ok a s) = V a s"
  and wp_fail [wp_simps]: "wp X V (fail c m s) = X (Exc c m) s"
  and wp_Inl [wp_simps]: "wp X V (Inl e, s) = X e s"
  and wp_Inr [wp_simps]: "wp X V (Inr a, s) = V a s"
  by (simp_all add: wp_def ok_def fail_def raise_def)

lemma wp_lift [wp_simps]:
  "wp X V (lift r s k) = ((\<forall>e. r = Inl e \<longrightarrow> X e s) \<and> (\<forall>a. r = Inr a \<longrightarrow> wp X V (k a)))"
  by (simp add: wp_def lift_def split: sum.splits)

lemma wp_sbind [wp_simps]: "wp X V (sbind m k s) = wp X (\<lambda>a t. wp X V (k a t)) (m s)"
  by (simp add: wp_def sbind_def split: sum.splits prod.splits)

lemma wp_if [wp_simps]:
  "wp X V (if b then p else q) = ((b \<longrightarrow> wp X V p) \<and> (\<not> b \<longrightarrow> wp X V q))"
  by simp

lemma wp_case_option [wp_simps]:
  "wp X V (case x of None \<Rightarrow> p | Some y \<Rightarrow> q y) =
     ((x = None \<longrightarrow> wp X V p) \<and> (\<forall>y. x = Some y \<longrightarrow> wp X V (q y)))"
  by (simp split: option.splits)

lemma wp_case_prod [wp_simps]:
  "wp X V (case z of (x, y) \<Rightarrow> p x y) = (\<forall>x y. z = (x, y) \<longrightarrow> wp X V (p x y))"
  by (simp split: prod.splits)

lemma wp_Let [wp_simps]: "wp X V (Let x f) = wp X V (f x)"
  by simp

lemma wp_mono:
  "wp X V p \<Longrightarrow> (\<And>e s. X e s \<Longrightarrow> X' e s) \<Longrightarrow> (\<And>a s. V a s \<Longrightarrow> V' a s) \<Longrightarrow> wp X' V' p"
  by (auto simp: wp_def split: sum.splits prod.splits)

lemma wp_conj: "wp (\<lambda>e s. X e s \<and> X' e s) (\<lambda>a s. V a s \<and> V' a s) p = (wp X V p \<and> wp X' V' p)"
  by (auto simp: wp_def split: sum.splits prod.splits)

lemma wp_state: "wp (\<lambda>e. P) (\<lambda>a. P) p = P (snd p)"
  by (simp add: wp_def split: sum.splits prod.splits)

lemma wp_value: "wp X V p \<Longrightarrow> p = (Inr a, s) \<Longrightarrow> V a s"
  by (simp add: wp_def)

lemma wp_error: "wp X V p \<Longrightarrow> p = (Inl e, s) \<Longrightarrow> X e s"
  by (simp add: wp_def)

section \<open>Runs of a state machine\<close>

text \<open>
  The operations of a component form a machine: \<open>step\<close> executes one, \<open>guard\<close> says
  what the environment promises about it (a drawn identifier is fresh, the clock has not
  gone back). \<open>guarded_run\<close> is the state after a list of operations, \<open>None\<close> when one of
  them breaks the promise.
\<close>

fun guarded_run :: "('o \<Rightarrow> 's \<Rightarrow> 's) \<Rightarrow> ('o \<Rightarrow> 's \<Rightarrow> bool) \<Rightarrow> 'o list \<Rightarrow> 's \<Rightarrow> 's option" where
  "guarded_run step guard [] s = Some s"
| "guarded_run step guard (x # xs) s =
     (if guard x s then guarded_run step guard xs (step x s) else None)"

lemma guarded_run_append:
  "guarded_run step guard (xs @ ys) s =
     (case guarded_run step guard xs s of None \<Rightarrow> None | Some t \<Rightarrow> guarded_run step guard ys t)"
  by (induction xs arbitrary: s) auto

locale guarded_machine =
  fixes step :: "'o \<Rightarrow> 's \<Rightarrow> 's"
    and guard :: "'o \<Rightarrow> 's \<Rightarrow> bool"
    and inv :: "'s \<Rightarrow> bool"
  assumes step_inv: "inv s \<Longrightarrow> guard x s \<Longrightarrow> inv (step x s)"
begin

lemma run_inv: "guarded_run step guard xs s = Some t \<Longrightarrow> inv s \<Longrightarrow> inv t"
proof (induction xs arbitrary: s)
  case Nil
  then show ?case by simp
next
  case (Cons x xs)
  then show ?case by (auto split: if_splits intro: step_inv)
qed

end

text \<open>
  A machine whose steps only move forward in a preorder (a terminal record stays as it is,
  an epoch never decreases): then every run moves forward in it.
\<close>

locale monotone_machine = guarded_machine +
  fixes le :: "'s \<Rightarrow> 's \<Rightarrow> bool"
  assumes le_refl: "le s s"
    and le_trans: "le s t \<Longrightarrow> le t u \<Longrightarrow> le s u"
    and step_le: "inv s \<Longrightarrow> guard x s \<Longrightarrow> le s (step x s)"
begin

lemma run_le: "guarded_run step guard xs s = Some t \<Longrightarrow> inv s \<Longrightarrow> le s t"
proof (induction xs arbitrary: s)
  case Nil
  then show ?case by (simp add: le_refl)
next
  case (Cons x xs)
  then have g: "guard x s" and r: "guarded_run step guard xs (step x s) = Some t"
    by (auto split: if_splits)
  from Cons.prems(2) g have "le s (step x s)" and "inv (step x s)"
    by (auto intro: step_le step_inv)
  then show ?case using Cons.IH [OF r] by (blast intro: le_trans)
qed

end

text \<open>
  Fencing: a token (an attempt, a lease) that has ended never gives authority again, whatever
  operations run. \<open>holds\<close> is the test that the operations make, \<open>ended\<close> the state that decides it.
\<close>

locale fencing = guarded_machine +
  fixes holds :: "'s \<Rightarrow> 'l \<Rightarrow> bool"
    and ended :: "'s \<Rightarrow> 'l \<Rightarrow> bool"
  assumes ended_step: "inv s \<Longrightarrow> guard x s \<Longrightarrow> ended s l \<Longrightarrow> ended (step x s) l"
    and ended_not_holds: "inv s \<Longrightarrow> ended s l \<Longrightarrow> \<not> holds s l"
begin

lemma run_ended: "guarded_run step guard xs s = Some t \<Longrightarrow> inv s \<Longrightarrow> ended s l \<Longrightarrow> ended t l"
proof (induction xs arbitrary: s)
  case Nil
  then show ?case by simp
next
  case (Cons x xs)
  then show ?case by (auto split: if_splits intro: ended_step step_inv)
qed

lemma fenced_forever:
  "guarded_run step guard xs s = Some t \<Longrightarrow> inv s \<Longrightarrow> ended s l \<Longrightarrow> \<not> holds t l"
  using ended_not_holds [OF run_inv run_ended] by simp

end

section \<open>Maps and lists\<close>

lemma ran_map_upd_subset: "x \<in> ran (m(k \<mapsto> v)) \<Longrightarrow> x = v \<or> x \<in> ran m"
  by (auto simp: ran_def split: if_splits)

lemma distinct_length_card_set: "card (set xs) = length xs \<longleftrightarrow> distinct xs"
  by (metis card_distinct distinct_card)

text \<open>\<open>grows R m m'\<close>: no key is lost and every value has moved forward in \<open>R\<close>.\<close>

definition grows :: "('v \<Rightarrow> 'v \<Rightarrow> bool) \<Rightarrow> ('k \<rightharpoonup> 'v) \<Rightarrow> ('k \<rightharpoonup> 'v) \<Rightarrow> bool" where
  "grows R m m' \<longleftrightarrow> (\<forall>k v. m k = Some v \<longrightarrow> (\<exists>v'. m' k = Some v' \<and> R v v'))"

lemma grows_refl [simp]: "(\<And>v. R v v) \<Longrightarrow> grows R m m"
  by (simp add: grows_def)

lemma grows_trans:
  "grows R m m' \<Longrightarrow> grows R m' m'' \<Longrightarrow> (\<And>x y z. R x y \<Longrightarrow> R y z \<Longrightarrow> R x z) \<Longrightarrow> grows R m m''"
  unfolding grows_def by meson

lemma grows_new: "(\<And>v. R v v) \<Longrightarrow> m k = None \<Longrightarrow> grows R m (m(k \<mapsto> v))"
  by (auto simp: grows_def)

lemma grows_upd: "(\<And>v. R v v) \<Longrightarrow> m k = Some v \<Longrightarrow> R v v' \<Longrightarrow> grows R m (m(k \<mapsto> v'))"
  by (auto simp: grows_def)

lemma growsD: "grows R m m' \<Longrightarrow> m k = Some v \<Longrightarrow> \<exists>v'. m' k = Some v' \<and> R v v'"
  by (simp add: grows_def)

lemma checks_Inl_or_Inr: "checks cs = Inr () \<or> (\<exists>e. checks cs = Inl e)"
  by (cases "checks cs") auto

end
