(* ===== verification/PyValues.thy ===== *)
theory PyValues
  imports Prelude "HOL-Library.AList" "HOL-Library.Code_Target_Numeral" Complex_Main
begin

text \<open>
  The Python values and the string operations the program computes with, and the validators
  that several modules repeat: non-empty text, a lowercase SHA-256, sizes, positive integers.
  A string is a list of code points below 256 (\<open>char\<close>); \<open>strip\<close>, \<open>lower\<close> and \<open>casefold\<close>
  are Python's on that range. A finite float is the rational it denotes.
\<close>

section \<open>Values\<close>

datatype pyfloat = FNan | FPosInf | FNegInf | FFin rat

datatype pyval =
    PNone
  | PBool bool
  | PInt int
  | PFloat pyfloat
  | PStr string
  | PBytes string
  | PList "pyval list"
  | PTuple "pyval list"
  | PDict "(pyval \<times> pyval) list"
  | PSet "pyval list"
  | PFrozenset "pyval list"
  | PObject string

text \<open>
  What the program uses of Python that has no closed form here: the shortest round-trip text
  of a finite float, and \<open>str\<close> of a value that is not a string (a mapping key).
\<close>

record pyenv =
  float_repr :: "rat \<Rightarrow> string"
  str_of :: "pyval \<Rightarrow> string"

definition pystr :: "pyenv \<Rightarrow> pyval \<Rightarrow> string" where
  "pystr E v = (case v of PStr s \<Rightarrow> s | _ \<Rightarrow> str_of E v)"

text \<open>\<open>isinstance(v, int)\<close> holds of booleans too; \<open>as_int\<close> is the integer it stands for.\<close>

definition as_int :: "pyval \<Rightarrow> int option" where
  "as_int v = (case v of PInt n \<Rightarrow> Some n | PBool b \<Rightarrow> Some (if b then 1 else 0) | _ \<Rightarrow> None)"

definition is_bool :: "pyval \<Rightarrow> bool" where
  "is_bool v = (case v of PBool _ \<Rightarrow> True | _ \<Rightarrow> False)"

section \<open>Strings\<close>

definition code :: "char \<Rightarrow> nat" where
  "code c = of_char c"

definition is_space :: "char \<Rightarrow> bool" where
  "is_space c = (let n = code c in (9 \<le> n \<and> n \<le> 13) \<or> (28 \<le> n \<and> n \<le> 32) \<or> n = 133 \<or> n = 160)"

definition strip :: "string \<Rightarrow> string" where
  "strip s = rev (dropWhile is_space (rev (dropWhile is_space s)))"

definition lower_char :: "char \<Rightarrow> char" where
  "lower_char c =
     (let n = code c
      in if (65 \<le> n \<and> n \<le> 90) \<or> (192 \<le> n \<and> n \<le> 222 \<and> n \<noteq> 215) then char_of (n + 32) else c)"

definition lower :: "string \<Rightarrow> string" where
  "lower s = map lower_char s"

text \<open>
  \<open>casefold\<close> differs from \<open>lower\<close> on the sharp s, which becomes two letters (and on the micro
  sign, whose image leaves the range; it is kept, as no marker of the program contains it).
\<close>

definition casefold :: "string \<Rightarrow> string" where
  "casefold s = concat (map (\<lambda>c. if code c = 223 then ''ss'' else [lower_char c]) s)"

fun is_prefix :: "string \<Rightarrow> string \<Rightarrow> bool" where
  "is_prefix [] t = True"
| "is_prefix (p # ps) [] = False"
| "is_prefix (p # ps) (c # t) = (p = c \<and> is_prefix ps t)"

definition startswith :: "string \<Rightarrow> string \<Rightarrow> bool" where
  "startswith s p = is_prefix p s"

definition endswith :: "string \<Rightarrow> string \<Rightarrow> bool" where
  "endswith s p = is_prefix (rev p) (rev s)"

text \<open>\<open>p in s\<close> for strings.\<close>

fun contains :: "string \<Rightarrow> string \<Rightarrow> bool" where
  "contains [] p = (p = [])"
| "contains (c # s) p = (is_prefix p (c # s) \<or> contains s p)"

text \<open>\<open>s.split(c)\<close>: always at least one part.\<close>

fun split_on :: "char \<Rightarrow> string \<Rightarrow> string list" where
  "split_on d [] = [[]]"
| "split_on d (c # s) =
     (if c = d then [] # split_on d s
      else (case split_on d s of [] \<Rightarrow> [[c]] | p # ps \<Rightarrow> (c # p) # ps))"

fun join :: "string \<Rightarrow> string list \<Rightarrow> string" where
  "join sep [] = []"
| "join sep [p] = p"
| "join sep (p # q # ps) = p @ sep @ join sep (q # ps)"

text \<open>Decimal text of an integer, \<open>str(n)\<close>.\<close>

definition digit_char :: "nat \<Rightarrow> char" where
  "digit_char d = char_of (if d < 10 then 48 + d else 87 + d)"

fun nat_digits :: "nat \<Rightarrow> string" where
  "nat_digits n = (if n < 10 then [digit_char n] else nat_digits (n div 10) @ [digit_char (n mod 10)])"

declare nat_digits.simps [simp del]

definition str_int :: "int \<Rightarrow> string" where
  "str_int n = (if n < 0 then CHR ''-'' # nat_digits (nat (- n)) else nat_digits (nat n))"

section \<open>The int constructor on text\<close>

text \<open>
  \<open>int(text, base)\<close> for base 10 and 16: white space around the number (the ASCII separators
  28 to 31 excepted), one sign, for base 16 an optional \<open>0x\<close> with one optional underscore,
  then digits with single underscores between them.
\<close>

definition int_space :: "char \<Rightarrow> bool" where
  "int_space c = (let n = code c in (9 \<le> n \<and> n \<le> 13) \<or> n = 32 \<or> n = 133 \<or> n = 160)"

definition int_strip :: "string \<Rightarrow> string" where
  "int_strip s = rev (dropWhile int_space (rev (dropWhile int_space s)))"

definition digit_value :: "char \<Rightarrow> nat option" where
  "digit_value c =
     (let n = code c
      in if 48 \<le> n \<and> n \<le> 57 then Some (n - 48)
         else if 65 \<le> n \<and> n \<le> 90 then Some (n - 55)
         else if 97 \<le> n \<and> n \<le> 122 then Some (n - 87)
         else None)"

fun int_digits :: "nat \<Rightarrow> bool \<Rightarrow> bool \<Rightarrow> nat \<Rightarrow> string \<Rightarrow> nat option" where
  "int_digits b us any acc [] = (if us \<or> \<not> any then None else Some acc)"
| "int_digits b us any acc (c # s) =
     (if c = CHR ''_'' then (if us then None else int_digits b True any acc s)
      else (case digit_value c of
              None \<Rightarrow> None
            | Some d \<Rightarrow> if d < b then int_digits b False True (acc * b + d) s else None))"

definition int_body :: "nat \<Rightarrow> string \<Rightarrow> nat option" where
  "int_body b s =
     (if s \<noteq> [] \<and> hd s = CHR ''_'' then None else int_digits b False False 0 s)"

definition drop_hex_prefix :: "string \<Rightarrow> string" where
  "drop_hex_prefix s =
     (if startswith s ''0x_'' \<or> startswith s ''0X_'' then drop 3 s
      else if startswith s ''0x'' \<or> startswith s ''0X'' then drop 2 s
      else s)"

definition int_signed :: "(string \<Rightarrow> nat option) \<Rightarrow> string \<Rightarrow> int option" where
  "int_signed body s =
     (if startswith s ''+'' then map_option int (body (tl s))
      else if startswith s ''-'' then map_option (\<lambda>n. - int n) (body (tl s))
      else map_option int (body s))"

definition int16 :: "string \<Rightarrow> int option" where
  "int16 s = int_signed (\<lambda>t. int_body 16 (drop_hex_prefix t)) (int_strip s)"

text \<open>Base 10 refuses more than 4300 digits (the interpreter's default limit).\<close>

definition int10 :: "string \<Rightarrow> int option" where
  "int10 s =
     (if length (filter (\<lambda>c. digit_value c \<noteq> None) s) > 4300 then None
      else int_signed (int_body 10) (int_strip s))"

section \<open>The validators the modules repeat\<close>

definition require_text :: "pyval \<Rightarrow> string \<Rightarrow> unit res" where
  "require_text v name =
     (case v of
        PStr s \<Rightarrow> require (strip s \<noteq> []) ValueError (name @ '' must be a non-empty string'')
      | _ \<Rightarrow> raise ValueError (name @ '' must be a non-empty string''))"

definition require_sha256 :: "pyval \<Rightarrow> string \<Rightarrow> unit res" where
  "require_sha256 v name =
     (case v of
        PStr s \<Rightarrow>
          if length s \<noteq> 64
          then raise ValueError (name @ '' must be a 64-character SHA-256 hex string'')
          else if s \<noteq> lower s
          then raise ValueError (name @ '' must be lowercase hexadecimal'')
          else if int16 s = None
          then raise ValueError (name @ '' must be a SHA-256 hex string'')
          else Inr ()
      | _ \<Rightarrow> raise ValueError (name @ '' must be a 64-character SHA-256 hex string''))"

text \<open>The test all those validators make of a digest string.\<close>

definition sha256_text_ok :: "string \<Rightarrow> bool" where
  "sha256_text_ok s \<longleftrightarrow> length s = 64 \<and> s = lower s \<and> int16 s \<noteq> None"

definition hex_lower :: "char \<Rightarrow> bool" where
  "hex_lower c = (let n = code c in (48 \<le> n \<and> n \<le> 57) \<or> (97 \<le> n \<and> n \<le> 102))"

lemma require_text_ok: "require_text (PStr s) name = Inr () \<longleftrightarrow> strip s \<noteq> []"
  by (simp add: require_text_def)

lemma require_sha256_ok: "require_sha256 (PStr s) name = Inr () \<longleftrightarrow> sha256_text_ok s"
  by (auto simp: require_sha256_def sha256_text_ok_def)

section \<open>Facts on strings\<close>

lemma code_digit_char: "d < 16 \<Longrightarrow> code (digit_char d) = (if d < 10 then 48 + d else 87 + d)"
  by (simp add: code_def digit_char_def)

lemma digit_value_digit_char: "d < 16 \<Longrightarrow> digit_value (digit_char d) = Some d"
  by (auto simp: digit_value_def code_digit_char Let_def)

lemma hex_lower_digit_char: "d < 16 \<Longrightarrow> hex_lower (digit_char d)"
  by (auto simp: hex_lower_def code_digit_char Let_def)

lemma code_underscore: "code CHR ''_'' = 95"
  and code_plus: "code CHR ''+'' = 43"
  and code_minus: "code CHR ''-'' = 45"
  and code_x: "code CHR ''x'' = 120"
  and code_X: "code CHR ''X'' = 88"
  by (simp_all add: code_def)

lemma hex_lower_facts:
  assumes "hex_lower c"
  shows "c \<noteq> CHR ''_''" and "c \<noteq> CHR ''+''" and "c \<noteq> CHR ''-''"
    and "c \<noteq> CHR ''x''" and "c \<noteq> CHR ''X''"
    and "\<not> int_space c" and "\<not> is_space c" and "lower_char c = c"
    and "\<exists>d < 16. digit_value c = Some d"
  using assms code_underscore code_plus code_minus code_x code_X
  by (auto simp: hex_lower_def int_space_def is_space_def lower_char_def digit_value_def Let_def)

lemma int_digits_hex:
  "list_all hex_lower s \<Longrightarrow> s \<noteq> [] \<or> any \<Longrightarrow> \<exists>n. int_digits 16 False any acc s = Some n"
proof (induction s arbitrary: any acc)
  case Nil
  then show ?case by simp
next
  case (Cons c s)
  from Cons.prems have c: "hex_lower c" and s: "list_all hex_lower s" by simp_all
  from hex_lower_facts(9) [OF c] obtain d where d: "d < 16" "digit_value c = Some d" by blast
  from Cons.IH [OF s, of True "acc * 16 + d"] d hex_lower_facts(1) [OF c] show ?case by simp
qed

lemma int_strip_hex: "list_all hex_lower s \<Longrightarrow> int_strip s = s"
proof -
  assume a: "list_all hex_lower s"
  have *: "list_all hex_lower t \<Longrightarrow> dropWhile int_space t = t" for t
    by (cases t) (auto simp: hex_lower_facts(6))
  from a have "list_all hex_lower (rev s)" by (simp add: list_all_iff)
  with a * show ?thesis by (simp add: int_strip_def)
qed

text \<open>A digest as \<open>hexdigest\<close> returns it passes the test.\<close>

lemma hex_text_ok:
  assumes "length s = 64" and "list_all hex_lower s"
  shows "sha256_text_ok s"
proof -
  from assms obtain c t where s: "s = c # t" and t: "t \<noteq> []"
    by (cases s; cases "tl s") auto
  then obtain c' u where tu: "t = c' # u" by (cases t) auto
  from assms s tu have hc: "hex_lower c" "hex_lower c'" "list_all hex_lower t" by simp_all
  have dp: "drop_hex_prefix s = s"
    using hex_lower_facts(4,5) [OF hc(2)]
    by (auto simp: drop_hex_prefix_def startswith_def s tu)
  have body: "int_body 16 s = int_digits 16 False False 0 s"
    using hex_lower_facts(1) [OF hc(1)] by (simp add: int_body_def s)
  from int_digits_hex [of s False 0] assms s
  obtain n where n: "int_digits 16 False False 0 s = Some n" by auto
  have sg: "int_signed f s = map_option int (f s)" for f
    using hex_lower_facts(2,3) [OF hc(1)] by (auto simp: int_signed_def startswith_def s)
  have "lower s = s"
    using assms(2) hex_lower_facts(8) by (auto simp: lower_def list_all_iff intro: map_idI)
  then show ?thesis
    using assms(1) n by (simp add: sha256_text_ok_def int16_def int_strip_hex [OF assms(2)] sg dp body)
qed

lemma is_prefix_append: "is_prefix p (p @ s)"
  by (induction p) auto

lemma is_prefix_iff: "is_prefix p s \<longleftrightarrow> (\<exists>t. s = p @ t)"
  by (induction p s rule: is_prefix.induct) auto

lemma startswith_iff: "startswith s p \<longleftrightarrow> (\<exists>t. s = p @ t)"
  by (simp add: startswith_def is_prefix_iff)

lemma split_on_nonempty [simp]: "split_on d s \<noteq> []"
  by (induction s) (auto split: list.splits)

lemma join_split_on: "join [d] (split_on d s) = s"
proof (induction s)
  case Nil
  then show ?case by simp
next
  case (Cons c s)
  then show ?case
    by (cases "split_on d s") (auto, (cases "tl (split_on d s)"; simp)+)
qed

lemma split_on_none: "d \<notin> set a \<Longrightarrow> split_on d a = [a]"
  by (induction a) auto

lemma split_on_app: "d \<notin> set a \<Longrightarrow> split_on d (a @ d # s) = a # split_on d s"
  by (induction a) (auto split: list.splits)

lemma split_on_pieces: "p \<in> set (split_on d s) \<Longrightarrow> d \<notin> set p"
  by (induction s arbitrary: p) (fastforce split: if_splits list.splits)+

text \<open>The characters of a text that \<open>int(text, 16)\<close> reads, and so of one that passes for a digest.\<close>

definition int_char :: "char \<Rightarrow> bool" where
  "int_char c \<longleftrightarrow> int_space c \<or> c \<in> {CHR ''+'', CHR ''-'', CHR ''_''} \<or> digit_value c \<noteq> None"

lemma int_digits_chars: "int_digits b us any acc s = Some n \<Longrightarrow> list_all int_char s"
  by (induction b us any acc s arbitrary: n rule: int_digits.induct)
     (auto simp: int_char_def split: if_splits option.splits)

lemma int_body_chars: "int_body b s = Some n \<Longrightarrow> list_all int_char s"
  by (auto simp: int_body_def split: if_splits dest: int_digits_chars)

lemma int_char_0xX: "int_char CHR ''0''" "int_char CHR ''x''" "int_char CHR ''X''" "int_char CHR ''_''"
  "int_char CHR ''+''" "int_char CHR ''-''"
  by (simp_all add: int_char_def digit_value_def code_def)

lemma drop_hex_prefix_chars: "list_all int_char (drop_hex_prefix s) \<Longrightarrow> list_all int_char s"
  by (auto simp: drop_hex_prefix_def startswith_iff int_char_0xX split: if_splits)

lemma int_signed_chars:
  assumes "int_signed f s = Some n" and "\<And>t m. f t = Some m \<Longrightarrow> list_all int_char t"
  shows "list_all int_char s"
proof (cases s)
  case Nil
  then show ?thesis by simp
next
  case (Cons c t)
  with assms(1) show ?thesis
    by (auto simp: int_signed_def startswith_iff int_char_0xX split: if_splits dest!: assms(2))
qed

lemma dropWhile_chars:
  assumes "\<And>c. P c \<Longrightarrow> Q c" shows "list_all Q (dropWhile P s) \<Longrightarrow> list_all Q s"
  by (induction s) (auto split: if_splits intro: assms)

lemma int_strip_chars: "list_all int_char (int_strip s) \<Longrightarrow> list_all int_char s"
proof -
  have sp: "int_space c \<Longrightarrow> int_char c" for c by (simp add: int_char_def)
  assume "list_all int_char (int_strip s)"
  then have "list_all int_char (dropWhile int_space (rev (dropWhile int_space s)))"
    by (simp add: int_strip_def)
  then have "list_all int_char (rev (dropWhile int_space s))"
    by (rule dropWhile_chars [where P = int_space, rotated]) (rule sp)
  then have "list_all int_char (dropWhile int_space s)" by simp
  then show ?thesis by (rule dropWhile_chars [where P = int_space, rotated]) (rule sp)
qed

lemma sha256_text_chars: "sha256_text_ok h \<Longrightarrow> list_all int_char h"
proof -
  assume "sha256_text_ok h"
  then obtain n where "int16 h = Some n" by (auto simp: sha256_text_ok_def)
  then show ?thesis unfolding int16_def
    by (blast intro: int_strip_chars drop_hex_prefix_chars int_body_chars int_signed_chars)
qed

lemma not_int_char: "\<not> int_char CHR ''/''" "\<not> int_char CHR ''.''" "\<not> int_char CHR 0x5C" "\<not> int_char CHR 0x00"
  by (simp_all add: int_char_def int_space_def digit_value_def code_def Let_def)

lemma contains_single: "contains s [c] \<longleftrightarrow> c \<in> set s"
proof (induction s)
  case Nil
  then show ?case by simp
next
  case (Cons x s)
  then show ?case by (cases s) auto
qed

end
