(* ===== verification/Sha256.thy ===== *)
theory Sha256
  imports PyValues "HOL-Library.Word"
begin

unbundle bit_operations_syntax

text \<open>
  \<open>hashlib.sha256(data).hexdigest()\<close> on bytes (characters below 256), as FIPS 180-4 defines
  it on 32-bit words, and what the program relies on: the digest is 64 lowercase hexadecimal
  digits. \<open>update\<close> called chunk by chunk hashes the concatenation of the chunks, so the
  definitions that stream take the digest of the accumulated bytes.
\<close>

type_synonym u32 = "32 word"

definition rotr :: "nat \<Rightarrow> u32 \<Rightarrow> u32" where
  "rotr n x = (drop_bit n x) OR (push_bit (32 - n) x)"

text \<open>
  The constants are the first 32 bits of the fractional parts of roots of primes: cube roots of
  the first 64 primes for the rounds, square roots of the first eight for the initial state.
  \<open>root_of k n\<close> is the integer \<open>k\<close>-th root, found bit by bit from the top; the roots needed here
  are below \<open>2 ^ 36\<close>.
\<close>

definition root_of :: "nat \<Rightarrow> nat \<Rightarrow> nat" where
  "root_of k n = foldl (\<lambda>r b. if (r + 2 ^ b) ^ k \<le> n then r + 2 ^ b else r) 0 (rev [0..<36])"

definition root_fraction :: "nat \<Rightarrow> nat \<Rightarrow> u32" where
  "root_fraction k p = word_of_nat (root_of k (p * 2 ^ (32 * k)))"

definition primes_below :: "nat \<Rightarrow> nat list" where
  "primes_below m = filter (\<lambda>n. 2 \<le> n \<and> list_all (\<lambda>d. n mod d \<noteq> 0) [2..<n]) [0..<m]"

definition round_constants :: "u32 list" where
  "round_constants = map (root_fraction 3) (primes_below 312)"

datatype hash_state = HS u32 u32 u32 u32 u32 u32 u32 u32

definition initial_state :: hash_state where
  "initial_state =
     (case map (root_fraction 2) (primes_below 20) of
        [a, b, c, d, e, f, g, h] \<Rightarrow> HS a b c d e f g h
      | _ \<Rightarrow> HS 0 0 0 0 0 0 0 0)"

definition be_bytes :: "nat \<Rightarrow> nat \<Rightarrow> nat list" where
  "be_bytes k n = map (\<lambda>i. (n div 256 ^ (k - 1 - i)) mod 256) [0..<k]"

definition padded :: "nat list \<Rightarrow> nat list" where
  "padded m =
     (let l = length m
      in m @ [128] @ replicate ((119 - l mod 64) mod 64) 0 @ be_bytes 8 ((8 * l) mod 2 ^ 64))"

fun to_words :: "nat list \<Rightarrow> u32 list" where
  "to_words (a # b # c # d # r) =
     word_of_nat (((a * 256 + b) * 256 + c) * 256 + d) # to_words r"
| "to_words _ = []"

text \<open>The message schedule, extended at the end; it reads the last sixteen words.\<close>

fun schedule :: "nat \<Rightarrow> u32 list \<Rightarrow> u32 list" where
  "schedule 0 w = w"
| "schedule (Suc k) w =
     (let n = length w;
          w15 = w ! (n - 15); w2 = w ! (n - 2);
          s0 = rotr 7 w15 XOR rotr 18 w15 XOR drop_bit 3 w15;
          s1 = rotr 17 w2 XOR rotr 19 w2 XOR drop_bit 10 w2
      in schedule k (w @ [w ! (n - 16) + s0 + w ! (n - 7) + s1]))"

fun rounds :: "(u32 \<times> u32) list \<Rightarrow> hash_state \<Rightarrow> hash_state" where
  "rounds [] s = s"
| "rounds ((k, w) # r) (HS a b c d e f g h) =
     (let s1 = rotr 6 e XOR rotr 11 e XOR rotr 25 e;
          ch = (e AND f) XOR ((NOT e) AND g);
          t1 = h + s1 + ch + k + w;
          s0 = rotr 2 a XOR rotr 13 a XOR rotr 22 a;
          maj = (a AND b) XOR (a AND c) XOR (b AND c)
      in rounds r (HS (t1 + s0 + maj) a b c (d + t1) e f g))"

fun add_state :: "hash_state \<Rightarrow> hash_state \<Rightarrow> hash_state" where
  "add_state (HS a b c d e f g h) (HS a' b' c' d' e' f' g' h') =
     HS (a + a') (b + b') (c + c') (d + d') (e + e') (f + f') (g + g') (h + h')"

definition compress :: "hash_state \<Rightarrow> u32 list \<Rightarrow> hash_state" where
  "compress s block = add_state s (rounds (zip round_constants (schedule 48 block)) s)"

fun blocks :: "nat \<Rightarrow> hash_state \<Rightarrow> u32 list \<Rightarrow> hash_state" where
  "blocks 0 s ws = s"
| "blocks (Suc n) s ws = blocks n (compress s (take 16 ws)) (drop 16 ws)"

definition word_hex :: "u32 \<Rightarrow> string" where
  "word_hex w = map (\<lambda>i. digit_char (unat w div 16 ^ (7 - i) mod 16)) [0..<8]"

fun state_hex :: "hash_state \<Rightarrow> string" where
  "state_hex (HS a b c d e f g h) =
     word_hex a @ word_hex b @ word_hex c @ word_hex d @ word_hex e @ word_hex f @ word_hex g @ word_hex h"

definition sha256_hex :: "string \<Rightarrow> string" where
  "sha256_hex data =
     (let ws = to_words (padded (map code data))
      in state_hex (blocks (length ws div 16) initial_state ws))"

lemma word_hex_shape: "length (word_hex w) = 8 \<and> list_all hex_lower (word_hex w)"
  by (auto simp: word_hex_def list_all_iff intro: hex_lower_digit_char)

lemma state_hex_shape: "length (state_hex s) = 64 \<and> list_all hex_lower (state_hex s)"
  by (cases s) (auto simp: word_hex_shape)

lemma length_sha256_hex [simp]: "length (sha256_hex m) = 64"
  by (simp add: sha256_hex_def Let_def state_hex_shape)

lemma hex_sha256_hex: "list_all hex_lower (sha256_hex m)"
  by (simp add: sha256_hex_def Let_def state_hex_shape)

text \<open>A computed digest passes the digest test of every module.\<close>

lemma sha256_hex_ok [simp]: "sha256_text_ok (sha256_hex m)"
  by (rule hex_text_ok) (simp_all add: hex_sha256_hex)

end
