(* ===== verification/Json.thy ===== *)
theory Json
  imports Sha256 "HOL-Library.List_Lexorder" "HOL-Library.Char_ord" "HOL-Library.Multiset"
begin

text \<open>
  The JSON side of the durable domain: \<open>_freeze\<close> and \<open>_canonical_json_value\<close> of
  \<open>durable/domain.py\<close> (the former also of \<open>nano_aural_runtime/models.py\<close>) and what the
  program uses of \<open>json.dumps\<close> (sorted keys, compact separators), with UTF-8 encoding.
\<close>

section \<open>Freezing containers\<close>

text \<open>
  A \<open>MappingProxyType\<close> is again a mapping (\<open>PDict\<close>); the comprehension stringifies the keys,
  a later item replacing the value of an equal key.
\<close>

fun freeze :: "pyenv \<Rightarrow> pyval \<Rightarrow> pyval"
  and freeze_list :: "pyenv \<Rightarrow> pyval list \<Rightarrow> pyval list"
  and freeze_items :: "pyenv \<Rightarrow> (pyval \<times> pyval) list \<Rightarrow> (pyval \<times> pyval) list \<Rightarrow> (pyval \<times> pyval) list"
where
  "freeze E (PDict items) = PDict (freeze_items E items [])"
| "freeze E (PList xs) = PTuple (freeze_list E xs)"
| "freeze E (PTuple xs) = PTuple (freeze_list E xs)"
| "freeze E (PSet xs) = PFrozenset (freeze_list E xs)"
| "freeze E v = v"
| "freeze_list E [] = []"
| "freeze_list E (x # xs) = freeze E x # freeze_list E xs"
| "freeze_items E [] acc = acc"
| "freeze_items E ((k, v) # items) acc =
     freeze_items E items (AList.update (PStr (pystr E k)) (freeze E v) acc)"

section \<open>Canonical values\<close>

definition type_name :: "pyval \<Rightarrow> string" where
  "type_name v =
     (case v of PNone \<Rightarrow> ''NoneType'' | PBool _ \<Rightarrow> ''bool'' | PInt _ \<Rightarrow> ''int'' | PFloat _ \<Rightarrow> ''float''
      | PStr _ \<Rightarrow> ''str'' | PBytes _ \<Rightarrow> ''bytes'' | PList _ \<Rightarrow> ''list'' | PTuple _ \<Rightarrow> ''tuple''
      | PDict _ \<Rightarrow> ''dict'' | PSet _ \<Rightarrow> ''set'' | PFrozenset _ \<Rightarrow> ''frozenset'' | PObject n \<Rightarrow> n)"

fun canonical_json_value :: "pyval \<Rightarrow> pyval res"
  and canonical_json_list :: "pyval list \<Rightarrow> pyval list res"
  and canonical_json_items ::
    "(pyval \<times> pyval) list \<Rightarrow> (pyval \<times> pyval) list \<Rightarrow> (pyval \<times> pyval) list res"
where
  "canonical_json_value PNone = Inr PNone"
| "canonical_json_value (PBool b) = Inr (PBool b)"
| "canonical_json_value (PStr s) = Inr (PStr s)"
| "canonical_json_value (PInt n) = Inr (PInt n)"
| "canonical_json_value (PFloat f) =
     (case f of FFin q \<Rightarrow> Inr (PFloat (FFin q))
      | _ \<Rightarrow> raise ValueError ''canonical request cannot contain non-finite floats'')"
| "canonical_json_value (PDict items) = after (canonical_json_items items []) (\<lambda>r. Inr (PDict r))"
| "canonical_json_value (PList xs) = after (canonical_json_list xs) (\<lambda>r. Inr (PList r))"
| "canonical_json_value (PTuple xs) = after (canonical_json_list xs) (\<lambda>r. Inr (PList r))"
| "canonical_json_value v =
     raise TypeError (''canonical request contains unsupported value: '' @ type_name v)"
| "canonical_json_list [] = Inr []"
| "canonical_json_list (x # xs) =
     after (canonical_json_value x) (\<lambda>y. after (canonical_json_list xs) (\<lambda>ys. Inr (y # ys)))"
| "canonical_json_items [] acc = Inr acc"
| "canonical_json_items ((k, v) # items) acc =
     (case k of
        PStr s \<Rightarrow> after (canonical_json_value v)
                    (\<lambda>w. canonical_json_items items (AList.update (PStr s) w acc))
      | _ \<Rightarrow> raise TypeError ''canonical request mapping keys must be strings'')"

section \<open>Serialisation\<close>

definition hex4 :: "nat \<Rightarrow> string" where
  "hex4 n = map (\<lambda>i. digit_char (n div 16 ^ (3 - i) mod 16)) [0..<4]"

definition escape_char :: "char \<Rightarrow> string" where
  "escape_char c =
     (if c = CHR 0x22 then [CHR 0x5C, CHR 0x22]
      else if c = CHR 0x5C then [CHR 0x5C, CHR 0x5C]
      else if c = CHR 0x0A then [CHR 0x5C, CHR ''n'']
      else if c = CHR 0x0D then [CHR 0x5C, CHR ''r'']
      else if c = CHR 0x09 then [CHR 0x5C, CHR ''t'']
      else if c = CHR 0x0C then [CHR 0x5C, CHR ''f'']
      else if c = CHR 0x08 then [CHR 0x5C, CHR ''b'']
      else if code c < 32 then [CHR 0x5C, CHR ''u''] @ hex4 (code c)
      else [c])"

definition json_string :: "string \<Rightarrow> string" where
  "json_string s = [CHR 0x22] @ concat (map escape_char s) @ [CHR 0x22]"

definition key_text :: "pyval \<Rightarrow> string" where
  "key_text v = (case v of PStr s \<Rightarrow> s | _ \<Rightarrow> [])"

text \<open>
  Only canonical values are serialised. The items of a mapping come out in key order whatever
  order they were inserted in: each item is rendered first, the rendered items are sorted by
  their keys.
\<close>

fun json_dumps :: "pyenv \<Rightarrow> pyval \<Rightarrow> string"
  and json_dumps_list :: "pyenv \<Rightarrow> pyval list \<Rightarrow> string list"
  and json_dumps_items :: "pyenv \<Rightarrow> (pyval \<times> pyval) list \<Rightarrow> (string \<times> string) list"
where
  "json_dumps E PNone = ''null''"
| "json_dumps E (PBool b) = (if b then ''true'' else ''false'')"
| "json_dumps E (PInt n) = str_int n"
| "json_dumps E (PFloat f) = (case f of FFin q \<Rightarrow> float_repr E q | _ \<Rightarrow> [])"
| "json_dumps E (PStr s) = json_string s"
| "json_dumps E (PList xs) = ''['' @ join '','' (json_dumps_list E xs) @ '']''"
| "json_dumps E (PDict items) =
     ''{'' @ join '','' (map (\<lambda>(k, t). json_string k @ '':'' @ t)
                          (sort_key fst (json_dumps_items E items))) @ ''}''"
| "json_dumps E v = []"
| "json_dumps_list E [] = []"
| "json_dumps_list E (x # xs) = json_dumps E x # json_dumps_list E xs"
| "json_dumps_items E [] = []"
| "json_dumps_items E ((k, v) # items) = (key_text k, json_dumps E v) # json_dumps_items E items"

definition utf8_char :: "char \<Rightarrow> string" where
  "utf8_char c =
     (let n = code c in if n < 128 then [c] else [char_of (192 + n div 64), char_of (128 + n mod 64)])"

definition utf8 :: "string \<Rightarrow> string" where
  "utf8 s = concat (map utf8_char s)"

section \<open>Freezing is idempotent\<close>

definition str_keys :: "(pyval \<times> pyval) list \<Rightarrow> bool" where
  "str_keys items \<longleftrightarrow> (\<forall>k \<in> fst ` set items. \<exists>s. k = PStr s)"

fun is_str :: "pyval \<Rightarrow> bool" where
  "is_str (PStr s) = True"
| "is_str v = False"

text \<open>A frozen value: no list or set left in it, and every mapping has distinct string keys.\<close>

fun frozen :: "pyval \<Rightarrow> bool"
  and frozen_list :: "pyval list \<Rightarrow> bool"
  and frozen_items :: "(pyval \<times> pyval) list \<Rightarrow> bool"
where
  "frozen (PDict items) = (frozen_items items \<and> distinct (map fst items))"
| "frozen (PTuple xs) = frozen_list xs"
| "frozen (PList xs) = False"
| "frozen (PSet xs) = False"
| "frozen v = True"
| "frozen_list [] = True"
| "frozen_list (x # xs) = (frozen x \<and> frozen_list xs)"
| "frozen_items [] = True"
| "frozen_items ((k, v) # items) = (is_str k \<and> frozen v \<and> frozen_items items)"

lemma frozen_items_update:
  "frozen_items acc \<Longrightarrow> frozen v \<Longrightarrow> frozen_items (AList.update (PStr s) v acc)"
  by (induction acc) (auto split: if_splits)

lemma frozen_freeze_all:
  "frozen (freeze E v)"
  "frozen_list (freeze_list E vs)"
  "frozen_items acc \<Longrightarrow> distinct (map fst acc) \<Longrightarrow>
     frozen_items (freeze_items E items acc) \<and> distinct (map fst (freeze_items E items acc))"
proof (induction E v and E vs and E items acc rule: freeze_freeze_list_freeze_items.induct)
  case (9 E k v items acc)
  then show ?case by (simp add: frozen_items_update distinct_update)
qed simp_all

lemma AList_update_new: "k \<notin> fst ` set acc \<Longrightarrow> AList.update k v acc = acc @ [(k, v)]"
  by (induction acc) auto

lemma freeze_frozen_all:
  "frozen v \<Longrightarrow> freeze E v = v"
  "frozen_list vs \<Longrightarrow> freeze_list E vs = vs"
  "frozen_items items \<Longrightarrow> distinct (map fst (acc @ items)) \<Longrightarrow> freeze_items E items acc = acc @ items"
proof (induction E v and E vs and E items acc rule: freeze_freeze_list_freeze_items.induct)
  case (9 E k v items acc)
  from "9.prems" obtain s where k: "k = PStr s" and v: "frozen v" and items: "frozen_items items"
    by (cases k) auto
  have new: "k \<notin> fst ` set acc" using "9.prems"(2) by auto
  have "freeze_items E items (acc @ [(k, v)]) = (acc @ [(k, v)]) @ items"
    using "9.IH"(2) "9.IH"(1) [OF v] items "9.prems"(2) new
    by (simp add: k pystr_def AList_update_new)
  then show ?case using "9.IH"(1) [OF v] new by (simp add: k pystr_def AList_update_new)
qed simp_all

section \<open>Serialisation does not depend on insertion order\<close>

lemma fst_json_dumps_items: "map fst (json_dumps_items E items) = map (key_text \<circ> fst) items"
  by (induction items) auto

lemma mset_json_dumps_items:
  "mset (json_dumps_items E items) = image_mset (\<lambda>(k, v). (key_text k, json_dumps E v)) (mset items)"
  by (induction items) auto

lemma sort_key_perm:
  assumes "mset xs = mset ys" and "inj_on f (set xs)"
  shows "sort_key f xs = sort_key f ys"
  by (rule sort_key_inj_key_eq) (simp_all add: assms)

lemma json_dumps_perm:
  assumes "mset xs = mset ys" and "distinct (map (key_text \<circ> fst) xs)"
  shows "json_dumps E (PDict xs) = json_dumps E (PDict ys)"
proof -
  have "mset (json_dumps_items E xs) = mset (json_dumps_items E ys)"
    by (simp add: mset_json_dumps_items assms(1))
  moreover have "inj_on fst (set (json_dumps_items E xs))"
    using assms(2) by (metis distinct_map fst_json_dumps_items)
  ultimately have "sort_key fst (json_dumps_items E xs) = sort_key fst (json_dumps_items E ys)"
    by (rule sort_key_perm)
  then show ?thesis by simp
qed

end
