(* ===== verification/Domain.thy ===== *)
theory Domain
  imports Json
begin

text \<open>
  The value objects of the durable domain (\<open>durable/domain.py\<close>): the state enumerations,
  one record per dataclass with its constructor (the checks of \<open>__post_init__\<close> in their
  order), and the canonical request hash. A field's type stands for the \<open>isinstance\<close> test
  on it; the tests that remain are those a typed value can fail.
\<close>

section \<open>Enumerations\<close>

datatype deployment_state = DEP_REGISTERED | DEP_READY | DEP_UNHEALTHY | DEP_RETIRED
datatype blob_state = BLOB_VERIFIED | BLOB_QUARANTINED | BLOB_DELETED
datatype asset_state = ASSET_VERIFIED | ASSET_REJECTED | ASSET_DELETED
datatype job_state = QUEUED | RUNNING | SUCCEEDED | FAILED | CANCELLED
datatype attempt_state =
  ATT_ACTIVE | ATT_SUCCEEDED | ATT_FAILED_TERMINAL | ATT_FAILED_RETRYABLE | ATT_CANCELLED
datatype artifact_state = ART_READY | ART_REJECTED
datatype worker_state = W_READY | W_BUSY | W_UNHEALTHY
datatype event_type =
    JOB_CREATED | ATTEMPT_STARTED | CANCEL_REQUESTED | ATTEMPT_CANCELLED | ATTEMPT_FAILED
  | ATTEMPT_REQUEUED | JOB_SUCCEEDED
datatype asset_kind = KIND_INPUT | KIND_GENERATED
datatype artifact_kind = OUTPUT | MANIFEST

fun artifact_kind_value :: "artifact_kind \<Rightarrow> string" where
  "artifact_kind_value OUTPUT = ''output''"
| "artifact_kind_value MANIFEST = ''manifest''"

lemma inj_artifact_kind_value: "inj artifact_kind_value"
  by (rule injI) (case_tac x; case_tac y; simp)

definition job_terminal :: "job_state \<Rightarrow> bool" where
  "job_terminal s \<longleftrightarrow> s \<in> {SUCCEEDED, FAILED, CANCELLED}"

section \<open>Records\<close>

record deployment_record =
  dep_id :: string
  dep_name :: string
  dep_adapter_id :: string
  dep_fingerprint :: string
  dep_state :: deployment_state
  dep_manifest :: pyval

definition new_DeploymentRecord ::
  "pyenv \<Rightarrow> string \<Rightarrow> string \<Rightarrow> string \<Rightarrow> string \<Rightarrow> deployment_state \<Rightarrow> pyval \<Rightarrow> deployment_record res"
where
  "new_DeploymentRecord E i n a f st m =
     after (checks [require_text (PStr i) ''deployment_id'', require_text (PStr n) ''name'',
                    require_text (PStr a) ''adapter_id'', require_text (PStr f) ''fingerprint''])
       (\<lambda>_. Inr \<lparr>dep_id = i, dep_name = n, dep_adapter_id = a, dep_fingerprint = f,
                  dep_state = st, dep_manifest = freeze E m\<rparr>)"

record blob_record =
  blob_id :: string
  blob_sha256 :: string
  blob_size_bytes :: int
  blob_storage_key :: string
  blob_state :: blob_state
  blob_content_type :: string

definition new_BlobRecord ::
  "string \<Rightarrow> string \<Rightarrow> int \<Rightarrow> string \<Rightarrow> blob_state \<Rightarrow> string \<Rightarrow> blob_record res"
where
  "new_BlobRecord i h n k st ct =
     after (checks [require_text (PStr i) ''blob_id'', require_sha256 (PStr h) ''sha256'',
                    require_text (PStr k) ''storage_key'',
                    require (0 \<le> n) ValueError ''size_bytes must be a non-negative integer''])
       (\<lambda>_. Inr \<lparr>blob_id = i, blob_sha256 = h, blob_size_bytes = n, blob_storage_key = k,
                  blob_state = st, blob_content_type = ct\<rparr>)"

record asset_record =
  asset_id :: string
  asset_blob_id :: string
  asset_namespace_id :: string
  asset_kind :: asset_kind
  asset_state :: asset_state
  asset_metadata :: pyval

definition new_AssetRecord ::
  "pyenv \<Rightarrow> string \<Rightarrow> string \<Rightarrow> string \<Rightarrow> asset_kind \<Rightarrow> asset_state \<Rightarrow> pyval \<Rightarrow> asset_record res"
where
  "new_AssetRecord E i b ns k st m =
     after (checks [require_text (PStr i) ''asset_id'', require_text (PStr b) ''blob_id'',
                    require_text (PStr ns) ''namespace_id''])
       (\<lambda>_. Inr \<lparr>asset_id = i, asset_blob_id = b, asset_namespace_id = ns, asset_kind = k,
                  asset_state = st, asset_metadata = freeze E m\<rparr>)"

record job_input =
  input_role :: string
  input_asset_id :: string

definition new_JobInput :: "string \<Rightarrow> string \<Rightarrow> job_input res" where
  "new_JobInput r a =
     after (checks [require_text (PStr r) ''role'', require_text (PStr a) ''asset_id''])
       (\<lambda>_. Inr \<lparr>input_role = r, input_asset_id = a\<rparr>)"

record job_record =
  job_id :: string
  job_namespace_id :: string
  job_idempotency_key :: string
  job_request_sha256 :: string
  job_request :: pyval
  job_deployment_id :: string
  job_inputs :: "job_input list"
  job_required_kinds :: "artifact_kind list"
  job_state :: job_state
  job_current_attempt_id :: "string option"
  job_winning_attempt_id :: "string option"
  job_cancel_requested :: bool
  job_lease_epoch :: int

definition is_mapping :: "pyval \<Rightarrow> bool" where
  "is_mapping v = (case v of PDict _ \<Rightarrow> True | _ \<Rightarrow> False)"

definition new_JobRecord :: "pyenv \<Rightarrow> job_record \<Rightarrow> job_record res" where
  "new_JobRecord E j =
     after (checks [require_text (PStr (job_id j)) ''job_id'',
                    require_text (PStr (job_namespace_id j)) ''namespace_id'',
                    require_text (PStr (job_idempotency_key j)) ''idempotency_key'',
                    require_text (PStr (job_deployment_id j)) ''deployment_id'',
                    require_sha256 (PStr (job_request_sha256 j)) ''request_sha256'',
                    require (is_mapping (job_request j)) TypeError ''request must be a mapping'',
                    require (card (set (map input_role (job_inputs j))) = length (job_inputs j))
                      ValueError ''job input roles must be unique'',
                    require (job_required_kinds j \<noteq> [])
                      ValueError ''required_artifact_kinds must contain ArtifactKind values'',
                    require (card (set (job_required_kinds j)) = length (job_required_kinds j))
                      ValueError ''required_artifact_kinds must be unique'',
                    require (0 \<le> job_lease_epoch j)
                      ValueError ''lease_epoch must be a non-negative integer''])
       (\<lambda>_. Inr (j\<lparr>job_request := freeze E (job_request j)\<rparr>))"

record attempt_record =
  attempt_id :: string
  attempt_job_id :: string
  attempt_worker_id :: string
  attempt_no :: int
  attempt_lease_epoch :: int
  attempt_state :: attempt_state

definition new_AttemptRecord ::
  "string \<Rightarrow> string \<Rightarrow> string \<Rightarrow> int \<Rightarrow> int \<Rightarrow> attempt_state \<Rightarrow> attempt_record res"
where
  "new_AttemptRecord i j w n e st =
     after (checks [require_text (PStr i) ''attempt_id'', require_text (PStr j) ''job_id'',
                    require_text (PStr w) ''worker_id'',
                    require (1 \<le> n) ValueError ''attempt_no must be a positive integer'',
                    require (1 \<le> e) ValueError ''lease_epoch must be a positive integer''])
       (\<lambda>_. Inr \<lparr>attempt_id = i, attempt_job_id = j, attempt_worker_id = w, attempt_no = n,
                  attempt_lease_epoch = e, attempt_state = st\<rparr>)"

record artifact_record =
  artifact_id :: string
  artifact_job_id :: string
  artifact_attempt_id :: string
  artifact_blob_id :: string
  artifact_kind :: artifact_kind
  artifact_state :: artifact_state
  artifact_metadata :: pyval

definition new_ArtifactRecord ::
  "pyenv \<Rightarrow> string \<Rightarrow> string \<Rightarrow> string \<Rightarrow> string \<Rightarrow> artifact_kind \<Rightarrow> artifact_state \<Rightarrow> pyval \<Rightarrow>
     artifact_record res"
where
  "new_ArtifactRecord E i j a b k st m =
     after (checks [require_text (PStr i) ''artifact_id'', require_text (PStr j) ''job_id'',
                    require_text (PStr a) ''attempt_id'', require_text (PStr b) ''blob_id''])
       (\<lambda>_. Inr \<lparr>artifact_id = i, artifact_job_id = j, artifact_attempt_id = a,
                  artifact_blob_id = b, artifact_kind = k, artifact_state = st,
                  artifact_metadata = freeze E m\<rparr>)"

record worker_record =
  worker_id :: string
  worker_deployment_id :: string
  worker_state :: worker_state

definition new_WorkerRecord :: "string \<Rightarrow> string \<Rightarrow> worker_state \<Rightarrow> worker_record res" where
  "new_WorkerRecord i d st =
     after (checks [require_text (PStr i) ''worker_id'', require_text (PStr d) ''deployment_id''])
       (\<lambda>_. Inr \<lparr>worker_id = i, worker_deployment_id = d, worker_state = st\<rparr>)"

record job_event_record =
  event_id :: string
  event_job_id :: string
  event_type :: event_type
  event_attempt_id :: "string option"
  event_payload :: pyval

definition new_JobEventRecord ::
  "pyenv \<Rightarrow> string \<Rightarrow> string \<Rightarrow> event_type \<Rightarrow> string option \<Rightarrow> pyval \<Rightarrow> job_event_record res"
where
  "new_JobEventRecord E i j t a p =
     after (checks [require_text (PStr i) ''event_id'', require_text (PStr j) ''job_id'',
                    (case a of None \<Rightarrow> Inr () | Some x \<Rightarrow> require_text (PStr x) ''attempt_id'')])
       (\<lambda>_. Inr \<lparr>event_id = i, event_job_id = j, event_type = t, event_attempt_id = a,
                  event_payload = freeze E p\<rparr>)"

section \<open>The canonical request hash\<close>

definition input_value :: "job_input \<Rightarrow> pyval" where
  "input_value i = PDict [(PStr ''role'', PStr (input_role i)),
                          (PStr ''asset_id'', PStr (input_asset_id i))]"

definition sorted_inputs :: "job_input list \<Rightarrow> job_input list" where
  "sorted_inputs xs = sort_key input_role xs"

definition sorted_kinds :: "artifact_kind list \<Rightarrow> artifact_kind list" where
  "sorted_kinds ks = sort_key artifact_kind_value ks"

definition normalized_request ::
  "pyval \<Rightarrow> string option \<Rightarrow> job_input list \<Rightarrow> artifact_kind list \<Rightarrow> pyval res"
where
  "normalized_request request deployment inputs kinds =
     (if \<not> is_mapping request then raise TypeError ''request must be a mapping''
      else after (canonical_json_value request)
        (\<lambda>norm. case deployment of
            None \<Rightarrow> Inr norm
          | Some d \<Rightarrow>
              after (require_text (PStr d) ''deployment_id'')
                (\<lambda>_. Inr (PDict
                  [(PStr ''deployment_id'', PStr d),
                   (PStr ''request'', norm),
                   (PStr ''inputs'', PList (map input_value (sorted_inputs inputs))),
                   (PStr ''required_artifact_kinds'',
                      PList (map PStr (sort (map artifact_kind_value kinds))))]))))"

definition canonical_request_sha256 ::
  "pyenv \<Rightarrow> pyval \<Rightarrow> string option \<Rightarrow> job_input list \<Rightarrow> artifact_kind list \<Rightarrow> string res"
where
  "canonical_request_sha256 E request deployment inputs kinds =
     after (normalized_request request deployment inputs kinds)
       (\<lambda>v. Inr (sha256_hex (utf8 (json_dumps E v))))"

section \<open>What the constructors and the hash guarantee\<close>

lemma new_JobRecord_eq:
  "new_JobRecord E j = Inr r \<longleftrightarrow>
     strip (job_id j) \<noteq> [] \<and> strip (job_namespace_id j) \<noteq> [] \<and> strip (job_idempotency_key j) \<noteq> [] \<and>
     strip (job_deployment_id j) \<noteq> [] \<and> sha256_text_ok (job_request_sha256 j) \<and>
     is_mapping (job_request j) \<and> distinct (map input_role (job_inputs j)) \<and>
     job_required_kinds j \<noteq> [] \<and> distinct (job_required_kinds j) \<and> 0 \<le> job_lease_epoch j \<and>
     r = j\<lparr>job_request := freeze E (job_request j)\<rparr>"
proof -
  have "card (set (map input_role (job_inputs j))) = length (job_inputs j) \<longleftrightarrow>
        distinct (map input_role (job_inputs j))"
    using distinct_length_card_set [of "map input_role (job_inputs j)"] by simp
  then show ?thesis
    by (auto simp: new_JobRecord_def after_eq_Inr checks_Cons_ok require_text_ok require_sha256_ok
        distinct_length_card_set)
qed

lemma new_AttemptRecord_eq:
  "new_AttemptRecord i j w n e st = Inr r \<longleftrightarrow>
     strip i \<noteq> [] \<and> strip j \<noteq> [] \<and> strip w \<noteq> [] \<and> 1 \<le> n \<and> 1 \<le> e \<and>
     r = \<lparr>attempt_id = i, attempt_job_id = j, attempt_worker_id = w, attempt_no = n,
          attempt_lease_epoch = e, attempt_state = st\<rparr>"
  by (auto simp: new_AttemptRecord_def after_eq_Inr checks_Cons_ok require_text_ok)

lemma new_JobEventRecord_eq:
  "new_JobEventRecord E i j t a p = Inr r \<longleftrightarrow>
     strip i \<noteq> [] \<and> strip j \<noteq> [] \<and> (\<forall>x. a = Some x \<longrightarrow> strip x \<noteq> []) \<and>
     r = \<lparr>event_id = i, event_job_id = j, event_type = t, event_attempt_id = a,
          event_payload = freeze E p\<rparr>"
  by (auto simp: new_JobEventRecord_def after_eq_Inr checks_Cons_ok require_text_ok split: option.splits)

lemma canonical_request_sha256_ok:
  "canonical_request_sha256 E r d i k = Inr h \<Longrightarrow> sha256_text_ok h"
  by (auto simp: canonical_request_sha256_def after_eq_Inr)

lemma sorted_inputs_perm:
  "mset xs = mset ys \<Longrightarrow> distinct (map input_role xs) \<Longrightarrow> sorted_inputs xs = sorted_inputs ys"
  unfolding sorted_inputs_def by (rule sort_key_perm) (simp_all add: distinct_map)

lemma set_sorted_inputs [simp]: "set (sorted_inputs xs) = set xs"
  and mset_sorted_inputs [simp]: "mset (sorted_inputs xs) = mset xs"
  and length_sorted_inputs [simp]: "length (sorted_inputs xs) = length xs"
  by (simp_all add: sorted_inputs_def)

lemma set_sorted_kinds [simp]: "set (sorted_kinds xs) = set xs"
  and mset_sorted_kinds [simp]: "mset (sorted_kinds xs) = mset xs"
  and length_sorted_kinds [simp]: "length (sorted_kinds xs) = length xs"
  by (simp_all add: sorted_kinds_def)

lemma distinct_sorted_kinds [simp]: "distinct (sorted_kinds xs) = distinct xs"
  by (simp add: sorted_kinds_def)

lemma distinct_sorted_inputs [simp]:
  "distinct (map input_role (sorted_inputs xs)) = distinct (map input_role xs)"
  by (metis distinct_length_card_set length_map length_sorted_inputs list.set_map set_sorted_inputs)

end
