(* ===== verification/Repository.thy ===== *)
theory Repository
  imports Domain
begin

text \<open>
  \<open>InMemoryDurableRepository\<close> of \<open>durable/repository.py\<close>: one record field per private
  dictionary (an association list where the insertion order is observable), one definition per
  method. \<open>uuid4().hex\<close> is an argument of the operations that draw identifiers.
  \<open>dataclasses.replace\<close> runs the checks of \<open>__post_init__\<close> again; a record that has passed
  them passes them after the updates made here (\<open>replace_job_ok\<close>), so the model updates the
  field.
\<close>

section \<open>State and lookups\<close>

record repo =
  r_deployments :: "string \<rightharpoonup> deployment_record"
  r_blobs :: "string \<rightharpoonup> blob_record"
  r_blob_by_digest :: "string \<rightharpoonup> string"
  r_assets :: "string \<rightharpoonup> asset_record"
  r_jobs :: "string \<rightharpoonup> job_record"
  r_job_by_idempotency :: "string \<times> string \<rightharpoonup> string"
  r_attempts :: "string \<rightharpoonup> attempt_record"
  r_attempts_by_job :: "string \<rightharpoonup> string list"
  r_artifacts :: "(string \<times> artifact_record) list"
  r_artifact_by_attempt_kind :: "string \<times> artifact_kind \<rightharpoonup> string"
  r_workers :: "string \<rightharpoonup> worker_record"
  r_events :: "job_event_record list"

definition empty_repo :: repo where
  "empty_repo = \<lparr>r_deployments = Map.empty, r_blobs = Map.empty, r_blob_by_digest = Map.empty,
     r_assets = Map.empty, r_jobs = Map.empty, r_job_by_idempotency = Map.empty,
     r_attempts = Map.empty, r_attempts_by_job = Map.empty, r_artifacts = [],
     r_artifact_by_attempt_kind = Map.empty, r_workers = Map.empty, r_events = []\<rparr>"

definition mk_id :: "string \<Rightarrow> string \<Rightarrow> string" where
  "mk_id prefix u = prefix @ ''_'' @ u"

definition lookup_or :: "string \<Rightarrow> (string \<rightharpoonup> 'a) \<Rightarrow> string \<Rightarrow> 'a res" where
  "lookup_or what m k = (case m k of None \<Rightarrow> raise NotFoundError (what @ '' not found: '' @ k) | Some v \<Rightarrow> Inr v)"

definition require_deployment :: "repo \<Rightarrow> string \<Rightarrow> deployment_record res" where
  "require_deployment s k = lookup_or ''deployment'' (r_deployments s) k"

definition require_blob :: "repo \<Rightarrow> string \<Rightarrow> blob_record res" where
  "require_blob s k = lookup_or ''blob'' (r_blobs s) k"

definition require_asset :: "repo \<Rightarrow> string \<Rightarrow> asset_record res" where
  "require_asset s k = lookup_or ''asset'' (r_assets s) k"

definition require_job :: "repo \<Rightarrow> string \<Rightarrow> job_record res" where
  "require_job s k = lookup_or ''job'' (r_jobs s) k"

definition require_worker :: "repo \<Rightarrow> string \<Rightarrow> worker_record res" where
  "require_worker s k = lookup_or ''worker'' (r_workers s) k"

definition get_job :: "repo \<Rightarrow> string \<Rightarrow> job_record res" where
  "get_job s k = require_job s k"

definition get_attempt :: "repo \<Rightarrow> string \<Rightarrow> attempt_record res" where
  "get_attempt s k = lookup_or ''attempt'' (r_attempts s) k"

definition list_artifacts :: "repo \<Rightarrow> string \<Rightarrow> artifact_record list res" where
  "list_artifacts s k =
     after (require_job s k)
       (\<lambda>_. Inr (filter (\<lambda>a. artifact_job_id a = k) (map snd (r_artifacts s))))"

section \<open>Operations\<close>

definition add_event ::
  "pyenv \<Rightarrow> string \<Rightarrow> string \<Rightarrow> event_type \<Rightarrow> string option \<Rightarrow> (repo, unit) sop"
where
  "add_event E u j t a s =
     lift (new_JobEventRecord E (mk_id ''event'' u) j t a (PDict [])) s
       (\<lambda>ev. ok () (s\<lparr>r_events := r_events s @ [ev]\<rparr>))"

definition register_deployment :: "deployment_record \<Rightarrow> (repo, deployment_record) sop" where
  "register_deployment d s =
     (if dep_id d \<in> dom (r_deployments s)
      then fail DurableInvariantError ''deployment already exists'' s
      else ok d (s\<lparr>r_deployments := (r_deployments s)(dep_id d \<mapsto> d)\<rparr>))"

definition register_worker :: "worker_record \<Rightarrow> (repo, worker_record) sop" where
  "register_worker w s =
     lift (require_deployment s (worker_deployment_id w)) s (\<lambda>_.
       if worker_id w \<in> dom (r_workers s)
       then fail DurableInvariantError ''worker already exists'' s
       else ok w (s\<lparr>r_workers := (r_workers s)(worker_id w \<mapsto> w)\<rparr>))"

definition register_blob :: "blob_record \<Rightarrow> (repo, blob_record) sop" where
  "register_blob b s =
     (case r_blob_by_digest s (blob_sha256 b) of
        Some existing_id \<Rightarrow>
          (case r_blobs s existing_id of
             None \<Rightarrow> fail KeyError existing_id s
           | Some existing \<Rightarrow>
               if blob_size_bytes existing \<noteq> blob_size_bytes b \<or>
                  blob_storage_key existing \<noteq> blob_storage_key b \<or>
                  blob_state existing \<noteq> blob_state b \<or>
                  blob_content_type existing \<noteq> blob_content_type b
               then fail DurableInvariantError
                      ''SHA-256 identity cannot map to different blob metadata'' s
               else ok existing s)
      | None \<Rightarrow>
          if blob_id b \<in> dom (r_blobs s)
          then fail DurableInvariantError ''blob id already exists'' s
          else ok b (s\<lparr>r_blobs := (r_blobs s)(blob_id b \<mapsto> b),
                        r_blob_by_digest := (r_blob_by_digest s)(blob_sha256 b \<mapsto> blob_id b)\<rparr>))"

definition create_asset :: "asset_record \<Rightarrow> (repo, asset_record) sop" where
  "create_asset a s =
     lift (require_blob s (asset_blob_id a)) s (\<lambda>b.
       if asset_id a \<in> dom (r_assets s)
       then fail DurableInvariantError ''asset already exists'' s
       else if asset_state a = ASSET_VERIFIED \<and> blob_state b \<noteq> BLOB_VERIFIED
       then fail DurableInvariantError ''a VERIFIED asset requires a VERIFIED blob'' s
       else ok a (s\<lparr>r_assets := (r_assets s)(asset_id a \<mapsto> a)\<rparr>))"

fun check_inputs :: "repo \<Rightarrow> string \<Rightarrow> job_input list \<Rightarrow> unit res" where
  "check_inputs s ns [] = Inr ()"
| "check_inputs s ns (i # is) =
     after (require_asset s (input_asset_id i)) (\<lambda>a.
       if asset_namespace_id a \<noteq> ns
       then raise DurableInvariantError ''job input asset belongs to another namespace''
       else if asset_state a \<noteq> ASSET_VERIFIED
       then raise DurableInvariantError ''only VERIFIED assets may enter a job''
       else after (require_blob s (asset_blob_id a)) (\<lambda>b.
         if blob_state b \<noteq> BLOB_VERIFIED
         then raise DurableInvariantError ''only verified blob content may enter a job''
         else check_inputs s ns is))"

definition job_arguments_ok ::
  "string \<Rightarrow> string \<Rightarrow> artifact_kind list \<Rightarrow> unit res"
where
  "job_arguments_ok ns key kinds =
     checks [require (strip ns \<noteq> []) ValueError ''namespace_id must be non-empty'',
             require (strip key \<noteq> []) ValueError ''idempotency_key must be non-empty'',
             require (kinds \<noteq> []) ValueError ''required_artifact_kinds must contain ArtifactKind values'',
             require (card (set kinds) = length kinds) ValueError ''required_artifact_kinds must be unique'']"

definition create_job ::
  "pyenv \<Rightarrow> string \<Rightarrow> string \<Rightarrow> string \<Rightarrow> string \<Rightarrow> pyval \<Rightarrow> string \<Rightarrow> job_input list \<Rightarrow> artifact_kind list
     \<Rightarrow> (repo, job_record) sop"
where
  "create_job E u_job u_event ns key request deployment inputs kinds s =
     lift (job_arguments_ok ns key kinds) s (\<lambda>_.
     let norm_inputs = sorted_inputs inputs; required = sorted_kinds kinds in
     lift (canonical_request_sha256 E request (Some deployment) norm_inputs required) s (\<lambda>hash.
     case r_job_by_idempotency s (ns, key) of
       Some existing_id \<Rightarrow>
         (case r_jobs s existing_id of
            None \<Rightarrow> fail KeyError existing_id s
          | Some existing \<Rightarrow>
              if job_request_sha256 existing \<noteq> hash
              then fail IdempotencyConflictError
                     ''idempotency key was already used for a different request'' s
              else ok existing s)
     | None \<Rightarrow>
         lift (require_deployment s deployment) s (\<lambda>d.
         if dep_state d \<noteq> DEP_READY
         then fail StateTransitionError ''jobs require a READY deployment'' s
         else if card (set (map input_role norm_inputs)) \<noteq> length norm_inputs
         then fail DurableInvariantError ''job input roles must be unique'' s
         else
         lift (check_inputs s ns norm_inputs) s (\<lambda>_.
         lift (new_JobRecord E
             \<lparr>job_id = mk_id ''job'' u_job, job_namespace_id = ns, job_idempotency_key = key,
              job_request_sha256 = hash, job_request = request, job_deployment_id = deployment,
              job_inputs = norm_inputs, job_required_kinds = required, job_state = QUEUED,
              job_current_attempt_id = None, job_winning_attempt_id = None,
              job_cancel_requested = False, job_lease_epoch = 0\<rparr>) s (\<lambda>job.
         sbind
           (add_event E u_event (job_id job) JOB_CREATED None)
           (\<lambda>_. ok job)
           (s\<lparr>r_jobs := (r_jobs s)(job_id job \<mapsto> job),
              r_job_by_idempotency := (r_job_by_idempotency s)((ns, key) \<mapsto> job_id job)\<rparr>))))))"

definition attempts_of :: "repo \<Rightarrow> string \<Rightarrow> string list" where
  "attempts_of s j = (case r_attempts_by_job s j of None \<Rightarrow> [] | Some xs \<Rightarrow> xs)"

definition start_attempt ::
  "pyenv \<Rightarrow> string \<Rightarrow> string \<Rightarrow> string \<Rightarrow> string \<Rightarrow> (repo, attempt_record) sop"
where
  "start_attempt E u_att u_event j w s =
     lift (require_job s j) s (\<lambda>job.
     lift (require_worker s w) s (\<lambda>worker.
     if worker_state worker \<noteq> W_READY
     then fail StateTransitionError ''worker is not READY'' s
     else if worker_deployment_id worker \<noteq> job_deployment_id job
     then fail DurableInvariantError ''worker deployment does not match job deployment'' s
     else if job_state job \<noteq> QUEUED \<or> job_current_attempt_id job \<noteq> None
     then fail StateTransitionError ''only a queued job without an attempt can start'' s
     else if job_cancel_requested job
     then fail StateTransitionError ''cancelled job cannot start'' s
     else
     lift (new_AttemptRecord (mk_id ''attempt'' u_att) j w
             (int (length (attempts_of s j)) + 1) (job_lease_epoch job + 1) ATT_ACTIVE) s (\<lambda>att.
     sbind
       (add_event E u_event j ATTEMPT_STARTED (Some (attempt_id att)))
       (\<lambda>_. ok att)
       (s\<lparr>r_attempts := (r_attempts s)(attempt_id att \<mapsto> att),
          r_attempts_by_job := (r_attempts_by_job s)(j \<mapsto> attempts_of s j @ [attempt_id att]),
          r_jobs := (r_jobs s)(j \<mapsto> job\<lparr>job_state := RUNNING,
             job_current_attempt_id := Some (attempt_id att),
             job_lease_epoch := attempt_lease_epoch att\<rparr>),
          r_workers := (r_workers s)(w \<mapsto> worker\<lparr>worker_state := W_BUSY\<rparr>)\<rparr>))))"

definition request_cancel :: "pyenv \<Rightarrow> string \<Rightarrow> string \<Rightarrow> (repo, job_record) sop" where
  "request_cancel E u_event j s =
     lift (require_job s j) s (\<lambda>job.
       if job_state job = QUEUED then
         (let job' = job\<lparr>job_state := CANCELLED, job_cancel_requested := True\<rparr> in
          sbind (add_event E u_event j CANCEL_REQUESTED None)
            (\<lambda>_ s. ok job' (s\<lparr>r_jobs := (r_jobs s)(j \<mapsto> job')\<rparr>)) s)
       else if job_state job = RUNNING then
         (let job' = job\<lparr>job_cancel_requested := True\<rparr> in
          sbind (add_event E u_event j CANCEL_REQUESTED (job_current_attempt_id job))
            (\<lambda>_ s. ok job' (s\<lparr>r_jobs := (r_jobs s)(j \<mapsto> job')\<rparr>)) s)
       else ok job s)"

definition active_attempt :: "repo \<Rightarrow> string \<Rightarrow> string \<Rightarrow> (job_record \<times> attempt_record) res" where
  "active_attempt s j a =
     after (require_job s j) (\<lambda>job.
     after (get_attempt s a) (\<lambda>att.
       if job_state job \<noteq> RUNNING \<or> job_current_attempt_id job \<noteq> Some a \<or> attempt_job_id att \<noteq> j \<or>
          attempt_state att \<noteq> ATT_ACTIVE \<or> attempt_lease_epoch att \<noteq> job_lease_epoch job
       then raise StateTransitionError ''attempt is not the job's current active attempt''
       else Inr (job, att)))"

text \<open>The worker of a finished attempt becomes READY again.\<close>

definition release_worker :: "string \<Rightarrow> (repo, unit) sop" where
  "release_worker w s =
     lift (require_worker s w) s (\<lambda>worker.
       ok () (s\<lparr>r_workers := (r_workers s)(w \<mapsto> worker\<lparr>worker_state := W_READY\<rparr>)\<rparr>))"

definition cancel_attempt :: "pyenv \<Rightarrow> string \<Rightarrow> string \<Rightarrow> string \<Rightarrow> (repo, job_record) sop" where
  "cancel_attempt E u_event j a s =
     lift (active_attempt s j a) s (\<lambda>(job, att).
     sbind (release_worker (attempt_worker_id att)) (\<lambda>_ s.
       let updated = job\<lparr>job_state := CANCELLED, job_current_attempt_id := None,
                         job_cancel_requested := True\<rparr> in
       sbind (add_event E u_event j ATTEMPT_CANCELLED (Some a)) (\<lambda>_. ok updated)
         (s\<lparr>r_jobs := (r_jobs s)(j \<mapsto> updated)\<rparr>))
       (s\<lparr>r_attempts := (r_attempts s)(a \<mapsto> att\<lparr>attempt_state := ATT_CANCELLED\<rparr>)\<rparr>))"

definition fail_attempt :: "pyenv \<Rightarrow> string \<Rightarrow> string \<Rightarrow> string \<Rightarrow> (repo, job_record) sop" where
  "fail_attempt E u_event j a s =
     lift (active_attempt s j a) s (\<lambda>(job, att).
     sbind (release_worker (attempt_worker_id att)) (\<lambda>_ s.
       let updated = job\<lparr>job_state := FAILED, job_current_attempt_id := None\<rparr> in
       sbind (add_event E u_event j ATTEMPT_FAILED (Some a)) (\<lambda>_. ok updated)
         (s\<lparr>r_jobs := (r_jobs s)(j \<mapsto> updated)\<rparr>))
       (s\<lparr>r_attempts := (r_attempts s)(a \<mapsto> att\<lparr>attempt_state := ATT_FAILED_TERMINAL\<rparr>)\<rparr>))"

definition retry_attempt :: "pyenv \<Rightarrow> string \<Rightarrow> string \<Rightarrow> string \<Rightarrow> (repo, job_record) sop" where
  "retry_attempt E u_event j a s =
     lift (active_attempt s j a) s (\<lambda>(job, att).
     sbind (release_worker (attempt_worker_id att)) (\<lambda>_ s.
       let updated = job\<lparr>job_state := QUEUED, job_current_attempt_id := None\<rparr> in
       sbind (add_event E u_event j ATTEMPT_REQUEUED (Some a)) (\<lambda>_. ok updated)
         (s\<lparr>r_jobs := (r_jobs s)(j \<mapsto> updated)\<rparr>))
       (s\<lparr>r_attempts := (r_attempts s)(a \<mapsto> att\<lparr>attempt_state := ATT_FAILED_RETRYABLE\<rparr>)\<rparr>))"

fun check_artifacts ::
  "repo \<Rightarrow> string \<Rightarrow> string \<Rightarrow> artifact_kind list \<Rightarrow> artifact_record list \<Rightarrow> artifact_kind list res"
where
  "check_artifacts s j a kinds [] = Inr kinds"
| "check_artifacts s j a kinds (x # xs) =
     (if artifact_job_id x \<noteq> j \<or> artifact_attempt_id x \<noteq> a
      then raise DurableInvariantError ''artifact does not belong to active attempt''
      else if artifact_state x \<noteq> ART_READY
      then raise DurableInvariantError ''successful job requires READY artifacts''
      else after (require_blob s (artifact_blob_id x)) (\<lambda>b.
        if blob_state b \<noteq> BLOB_VERIFIED
        then raise DurableInvariantError ''READY artifact requires a VERIFIED blob''
        else if artifact_kind x \<in> set kinds \<or>
                (a, artifact_kind x) \<in> dom (r_artifact_by_attempt_kind s)
        then raise DurableInvariantError ''attempt cannot publish duplicate artifact kinds''
        else check_artifacts s j a (artifact_kind x # kinds) xs))"

fun store_artifacts :: "string \<Rightarrow> artifact_record list \<Rightarrow> (repo, unit) sop" where
  "store_artifacts a [] s = ok () s"
| "store_artifacts a (x # xs) s =
     (if artifact_id x \<in> fst ` set (r_artifacts s)
      then fail DurableInvariantError ''artifact id already exists'' s
      else store_artifacts a xs
        (s\<lparr>r_artifacts := r_artifacts s @ [(artifact_id x, x)],
           r_artifact_by_attempt_kind :=
             (r_artifact_by_attempt_kind s)((a, artifact_kind x) \<mapsto> artifact_id x)\<rparr>))"

definition publish_success ::
  "pyenv \<Rightarrow> string \<Rightarrow> string \<Rightarrow> string \<Rightarrow> artifact_record list \<Rightarrow> (repo, job_record) sop"
where
  "publish_success E u_event j a proposed s =
     lift (active_attempt s j a) s (\<lambda>(job, att).
     if job_cancel_requested job
     then fail StateTransitionError ''cancelled job cannot publish success'' s
     else if proposed = []
     then fail DurableInvariantError ''successful job requires at least one artifact'' s
     else
     lift (check_artifacts s j a [] proposed) s (\<lambda>kinds.
     if \<not> set (job_required_kinds job) \<subseteq> set kinds
     then fail DurableInvariantError ''successful job is missing required READY artifacts'' s
     else
     sbind (store_artifacts a proposed) (\<lambda>_ s.
     sbind (release_worker (attempt_worker_id att)) (\<lambda>_ s.
       let updated = job\<lparr>job_state := SUCCEEDED, job_current_attempt_id := None,
                         job_winning_attempt_id := Some a\<rparr> in
       sbind (add_event E u_event j JOB_SUCCEEDED (Some a)) (\<lambda>_. ok updated)
         (s\<lparr>r_jobs := (r_jobs s)(j \<mapsto> updated)\<rparr>))
       (s\<lparr>r_attempts := (r_attempts s)(a \<mapsto> att\<lparr>attempt_state := ATT_SUCCEEDED\<rparr>)\<rparr>)) s))"

section \<open>The operations as a machine\<close>

datatype repo_op =
    RegisterDeployment deployment_record
  | RegisterWorker worker_record
  | RegisterBlob blob_record
  | CreateAsset asset_record
  | CreateJob string string string string pyval string "job_input list" "artifact_kind list"
  | StartAttempt string string string string
  | RequestCancel string string
  | CancelAttempt string string string
  | FailAttempt string string string
  | RetryAttempt string string string
  | PublishSuccess string string string "artifact_record list"

fun repo_step :: "pyenv \<Rightarrow> repo_op \<Rightarrow> repo \<Rightarrow> repo" where
  "repo_step E (RegisterDeployment d) s = snd (register_deployment d s)"
| "repo_step E (RegisterWorker w) s = snd (register_worker w s)"
| "repo_step E (RegisterBlob b) s = snd (register_blob b s)"
| "repo_step E (CreateAsset a) s = snd (create_asset a s)"
| "repo_step E (CreateJob uj ue ns key req dep ins kinds) s =
     snd (create_job E uj ue ns key req dep ins kinds s)"
| "repo_step E (StartAttempt ua ue j w) s = snd (start_attempt E ua ue j w s)"
| "repo_step E (RequestCancel ue j) s = snd (request_cancel E ue j s)"
| "repo_step E (CancelAttempt ue j a) s = snd (cancel_attempt E ue j a s)"
| "repo_step E (FailAttempt ue j a) s = snd (fail_attempt E ue j a s)"
| "repo_step E (RetryAttempt ue j a) s = snd (retry_attempt E ue j a s)"
| "repo_step E (PublishSuccess ue j a xs) s = snd (publish_success E ue j a xs s)"

text \<open>What \<open>uuid4\<close> promises: a drawn job or attempt identifier is not in use.\<close>

fun fresh_ids :: "repo_op \<Rightarrow> repo \<Rightarrow> bool" where
  "fresh_ids (CreateJob uj ue ns key req dep ins kinds) s = (mk_id ''job'' uj \<notin> dom (r_jobs s))"
| "fresh_ids (StartAttempt ua ue j w) s = (mk_id ''attempt'' ua \<notin> dom (r_attempts s))"
| "fresh_ids _ s = True"

end
