(* ===== verification/RepositoryInv.thy ===== *)
theory RepositoryInv
  imports Repository
begin

text \<open>
  The invariant of the in-memory repository, part by part (each part over the fields it
  speaks about), its preservation by every operation, and the lifecycle facts that follow.
\<close>

section \<open>The invariant\<close>

type_synonym attempt_map = "string \<rightharpoonup> attempt_record"
type_synonym artifact_list = "(string \<times> artifact_record) list"

text \<open>A winning attempt backs every required kind by a READY artifact on a VERIFIED blob.\<close>

definition winner_complete ::
  "artifact_list \<Rightarrow> (string \<rightharpoonup> blob_record) \<Rightarrow> string \<Rightarrow> job_record \<Rightarrow> string \<Rightarrow> bool"
where
  "winner_complete arts blobs i j a \<longleftrightarrow>
     (\<forall>k \<in> set (job_required_kinds j). \<exists>x b. x \<in> snd ` set arts \<and> artifact_job_id x = i \<and>
        artifact_attempt_id x = a \<and> artifact_kind x = k \<and> artifact_state x = ART_READY \<and>
        blobs (artifact_blob_id x) = Some b \<and> blob_state b = BLOB_VERIFIED)"

definition current_of :: "attempt_map \<Rightarrow> string \<Rightarrow> job_record \<Rightarrow> string \<Rightarrow> attempt_state \<Rightarrow> bool" where
  "current_of atts i j a st \<longleftrightarrow>
     (\<exists>att. atts a = Some att \<and> attempt_job_id att = i \<and> attempt_state att = st \<and>
            attempt_lease_epoch att = job_lease_epoch j)"

definition job_shape ::
  "attempt_map \<Rightarrow> artifact_list \<Rightarrow> (string \<rightharpoonup> blob_record) \<Rightarrow> string \<Rightarrow> job_record \<Rightarrow> bool"
where
  "job_shape atts arts blobs i j \<longleftrightarrow>
     (case job_state j of
        QUEUED \<Rightarrow> job_current_attempt_id j = None \<and> job_winning_attempt_id j = None
      | RUNNING \<Rightarrow> job_winning_attempt_id j = None \<and>
                  (\<exists>a. job_current_attempt_id j = Some a \<and> current_of atts i j a ATT_ACTIVE)
      | SUCCEEDED \<Rightarrow> job_current_attempt_id j = None \<and> \<not> job_cancel_requested j \<and>
                  (\<exists>a. job_winning_attempt_id j = Some a \<and> current_of atts i j a ATT_SUCCEEDED \<and>
                       winner_complete arts blobs i j a)
      | FAILED \<Rightarrow> job_current_attempt_id j = None \<and> job_winning_attempt_id j = None
      | CANCELLED \<Rightarrow> job_current_attempt_id j = None \<and> job_winning_attempt_id j = None \<and>
                  job_cancel_requested j)"

definition job_inv where
  "job_inv jobs atts by_job arts blobs \<longleftrightarrow>
     (\<forall>i j. jobs i = Some j \<longrightarrow> job_id j = i \<and> strip i \<noteq> [] \<and>
        job_lease_epoch j = int (length (case by_job i of None \<Rightarrow> [] | Some xs \<Rightarrow> xs)) \<and>
        job_shape atts arts blobs i j) \<and>
     dom by_job \<subseteq> dom jobs"

definition attempt_good where
  "attempt_good jobs by_job a att \<longleftrightarrow> attempt_id att = a \<and> strip a \<noteq> [] \<and>
     (\<exists>j xs. jobs (attempt_job_id att) = Some j \<and> by_job (attempt_job_id att) = Some xs \<and>
        (attempt_state att = ATT_ACTIVE \<longrightarrow> job_state j = RUNNING \<and> job_current_attempt_id j = Some a) \<and>
        1 \<le> attempt_no att \<and> attempt_no att \<le> int (length xs) \<and>
        xs ! nat (attempt_no att - 1) = a \<and> attempt_lease_epoch att = attempt_no att)"

definition attempt_inv where
  "attempt_inv atts jobs by_job \<longleftrightarrow> (\<forall>a att. atts a = Some att \<longrightarrow> attempt_good jobs by_job a att)"

definition worker_inv where
  "worker_inv atts workers \<longleftrightarrow>
     (\<forall>a att. atts a = Some att \<longrightarrow>
        (\<exists>w. workers (attempt_worker_id att) = Some w \<and>
             (attempt_state att = ATT_ACTIVE \<longrightarrow> worker_state w \<noteq> W_READY))) \<and>
     (\<forall>a a' att att'. atts a = Some att \<and> atts a' = Some att' \<and> attempt_state att = ATT_ACTIVE \<and>
        attempt_state att' = ATT_ACTIVE \<and> attempt_worker_id att = attempt_worker_id att' \<longrightarrow> a = a')"

definition index_inv where
  "index_inv jobs index \<longleftrightarrow>
     (\<forall>k i. index k = Some i \<longrightarrow>
        (\<exists>j. jobs i = Some j \<and> (job_namespace_id j, job_idempotency_key j) = k)) \<and>
     (\<forall>i j. jobs i = Some j \<longrightarrow> index (job_namespace_id j, job_idempotency_key j) = Some i)"

definition blob_inv where
  "blob_inv blobs digests \<longleftrightarrow>
     (\<forall>h i. digests h = Some i \<longrightarrow> (\<exists>b. blobs i = Some b \<and> blob_sha256 b = h)) \<and>
     (\<forall>i b. blobs i = Some b \<longrightarrow> blob_id b = i \<and> digests (blob_sha256 b) = Some i)"

definition artifact_inv where
  "artifact_inv arts by_kind atts blobs \<longleftrightarrow>
     distinct (map fst arts) \<and>
     (\<forall>i x. (i, x) \<in> set arts \<longrightarrow> artifact_id x = i \<and> artifact_state x = ART_READY \<and>
        (\<exists>b. blobs (artifact_blob_id x) = Some b \<and> blob_state b = BLOB_VERIFIED) \<and>
        (\<exists>att. atts (artifact_attempt_id x) = Some att \<and> attempt_job_id att = artifact_job_id x) \<and>
        by_kind (artifact_attempt_id x, artifact_kind x) = Some i)"

definition input_inv where
  "input_inv jobs assets blobs \<longleftrightarrow>
     (\<forall>i j inp. jobs i = Some j \<and> inp \<in> set (job_inputs j) \<longrightarrow>
        (\<exists>a b. assets (input_asset_id inp) = Some a \<and> asset_namespace_id a = job_namespace_id j \<and>
               asset_state a = ASSET_VERIFIED \<and> blobs (asset_blob_id a) = Some b \<and>
               blob_state b = BLOB_VERIFIED))"

definition repo_inv :: "repo \<Rightarrow> bool" where
  "repo_inv s \<longleftrightarrow>
     job_inv (r_jobs s) (r_attempts s) (r_attempts_by_job s) (r_artifacts s) (r_blobs s) \<and>
     attempt_inv (r_attempts s) (r_jobs s) (r_attempts_by_job s) \<and>
     worker_inv (r_attempts s) (r_workers s) \<and>
     index_inv (r_jobs s) (r_job_by_idempotency s) \<and>
     blob_inv (r_blobs s) (r_blob_by_digest s) \<and>
     artifact_inv (r_artifacts s) (r_artifact_by_attempt_kind s) (r_attempts s) (r_blobs s) \<and>
     input_inv (r_jobs s) (r_assets s) (r_blobs s)"

lemma repo_inv_empty: "repo_inv empty_repo"
  by (simp add: repo_inv_def empty_repo_def job_inv_def attempt_inv_def worker_inv_def index_inv_def
      blob_inv_def artifact_inv_def input_inv_def)

text \<open>The invariant does not speak of events or deployments.\<close>

lemma repo_inv_frame [simp]:
  "repo_inv (s\<lparr>r_events := e\<rparr>) = repo_inv s"
  "repo_inv (s\<lparr>r_deployments := d\<rparr>) = repo_inv s"
  by (simp_all add: repo_inv_def)

section \<open>Shared facts\<close>

lemma repo_inv_job:
  assumes "repo_inv s" and "r_jobs s i = Some j"
  shows "job_id j = i" and "job_lease_epoch j = int (length (attempts_of s i))"
    and "job_shape (r_attempts s) (r_artifacts s) (r_blobs s) i j" and "strip i \<noteq> []"
  using assms unfolding repo_inv_def job_inv_def attempts_of_def by blast+

lemma repo_inv_attempt:
  "repo_inv s \<Longrightarrow> r_attempts s a = Some att \<Longrightarrow> attempt_good (r_jobs s) (r_attempts_by_job s) a att"
  unfolding repo_inv_def attempt_inv_def by blast

lemma repo_inv_worker:
  "repo_inv s \<Longrightarrow> r_attempts s a = Some att \<Longrightarrow>
   \<exists>w. r_workers s (attempt_worker_id att) = Some w \<and>
       (attempt_state att = ATT_ACTIVE \<longrightarrow> worker_state w \<noteq> W_READY)"
  unfolding repo_inv_def worker_inv_def by blast

lemma repo_inv_worker_unique:
  "repo_inv s \<Longrightarrow> r_attempts s a = Some att \<Longrightarrow> r_attempts s a' = Some att' \<Longrightarrow>
   attempt_state att = ATT_ACTIVE \<Longrightarrow> attempt_state att' = ATT_ACTIVE \<Longrightarrow>
   attempt_worker_id att = attempt_worker_id att' \<Longrightarrow> a = a'"
  unfolding repo_inv_def worker_inv_def by blast

lemma repo_inv_artifact:
  "repo_inv s \<Longrightarrow> (i, x) \<in> set (r_artifacts s) \<Longrightarrow>
   artifact_id x = i \<and> artifact_state x = ART_READY \<and>
   (\<exists>b. r_blobs s (artifact_blob_id x) = Some b \<and> blob_state b = BLOB_VERIFIED) \<and>
   (\<exists>att. r_attempts s (artifact_attempt_id x) = Some att \<and> attempt_job_id att = artifact_job_id x) \<and>
   r_artifact_by_attempt_kind s (artifact_attempt_id x, artifact_kind x) = Some i"
  unfolding repo_inv_def artifact_inv_def by blast

lemma lookup_or_eq: "lookup_or what m k = Inr v \<longleftrightarrow> m k = Some v"
  by (simp add: lookup_or_def split: option.splits)

lemma lookup_or_Inl: "lookup_or what m k = Inl e \<longleftrightarrow> m k = None \<and> e = Exc NotFoundError (what @ '' not found: '' @ k)"
  by (auto simp: lookup_or_def raise_def split: option.splits)

lemmas lookup_eqs =
  require_deployment_def require_blob_def require_asset_def require_job_def require_worker_def
  get_attempt_def get_job_def lookup_or_eq

lemma strip_Cons: "\<not> is_space c \<Longrightarrow> strip (c # s) \<noteq> []"
  by (auto simp: strip_def)

lemma strip_mk_id: "p \<noteq> [] \<Longrightarrow> \<not> is_space (hd p) \<Longrightarrow> strip (mk_id p u) \<noteq> []"
  by (cases p) (auto simp: mk_id_def strip_Cons)

lemma strip_mk_id_prefixes [simp]:
  "strip (mk_id ''event'' u) \<noteq> []" "strip (mk_id ''job'' u) \<noteq> []" "strip (mk_id ''attempt'' u) \<noteq> []"
  by (rule strip_mk_id, simp_all add: is_space_def code_def)+

text \<open>Between named records, an event is always appended.\<close>

definition adds_event :: "string \<Rightarrow> event_type \<Rightarrow> string option \<Rightarrow> repo \<Rightarrow> repo \<Rightarrow> bool" where
  "adds_event j t a s s' \<longleftrightarrow>
     (\<exists>ev. s' = s\<lparr>r_events := r_events s @ [ev]\<rparr> \<and> event_job_id ev = j \<and> event_type ev = t \<and>
           event_attempt_id ev = a)"

lemma wp_add_event:
  assumes "strip j \<noteq> []" and "\<And>x. a = Some x \<Longrightarrow> strip x \<noteq> []"
    and V: "\<And>t'. adds_event j t a s t' \<Longrightarrow> V () t'"
  shows "wp X V (add_event E u j t a s)"
proof -
  have "new_JobEventRecord E (mk_id ''event'' u) j t a (PDict []) =
    Inr \<lparr>event_id = mk_id ''event'' u, event_job_id = j, event_type = t, event_attempt_id = a,
         event_payload = freeze E (PDict [])\<rparr>"
    using assms(1,2) by (simp add: new_JobEventRecord_eq)
  then show ?thesis by (auto simp: add_event_def wp_simps adds_event_def intro!: V exI conjI)
qed

lemma adds_event_inv [simp]: "adds_event j t a s s' \<Longrightarrow> repo_inv s' = repo_inv s"
  by (auto simp: adds_event_def)

section \<open>Registrations\<close>

lemma worker_inv_new: "worker_inv atts ws \<Longrightarrow> i \<notin> dom ws \<Longrightarrow> worker_inv atts (ws(i \<mapsto> w))"
  unfolding worker_inv_def by (metis domI fun_upd_other)

lemma job_inv_new_blob:
  "job_inv jobs atts bj arts blobs \<Longrightarrow> i \<notin> dom blobs \<Longrightarrow> job_inv jobs atts bj arts (blobs(i \<mapsto> b))"
proof -
  assume i: "i \<notin> dom blobs"
  have "winner_complete arts blobs k j a \<Longrightarrow> winner_complete arts (blobs(i \<mapsto> b)) k j a" for k j a
    using i unfolding winner_complete_def by (metis domI fun_upd_other)
  then have "job_shape atts arts blobs k j \<Longrightarrow> job_shape atts arts (blobs(i \<mapsto> b)) k j" for k j
    by (auto simp: job_shape_def split: job_state.splits)
  then show "job_inv jobs atts bj arts blobs \<Longrightarrow> ?thesis" by (simp add: job_inv_def)
qed

lemma blob_inv_new:
  "blob_inv blobs ds \<Longrightarrow> blob_id b \<notin> dom blobs \<Longrightarrow> ds (blob_sha256 b) = None \<Longrightarrow>
   blob_inv (blobs(blob_id b \<mapsto> b)) (ds(blob_sha256 b \<mapsto> blob_id b))"
  unfolding blob_inv_def by (auto simp: domIff) fastforce+

lemma artifact_inv_new_blob:
  "artifact_inv arts bk atts blobs \<Longrightarrow> i \<notin> dom blobs \<Longrightarrow> artifact_inv arts bk atts (blobs(i \<mapsto> b))"
  unfolding artifact_inv_def by (metis domI fun_upd_other)

lemma input_inv_new_blob:
  "input_inv jobs assets blobs \<Longrightarrow> i \<notin> dom blobs \<Longrightarrow> input_inv jobs assets (blobs(i \<mapsto> b))"
  unfolding input_inv_def by (metis domI fun_upd_other)

lemma input_inv_new_asset:
  "input_inv jobs assets blobs \<Longrightarrow> i \<notin> dom assets \<Longrightarrow> input_inv jobs (assets(i \<mapsto> a)) blobs"
  unfolding input_inv_def by (metis domI fun_upd_other)

lemma register_deployment_inv: "repo_inv s \<Longrightarrow> repo_inv (snd (register_deployment d s))"
  by (simp add: register_deployment_def)

lemma register_worker_inv: "repo_inv s \<Longrightarrow> repo_inv (snd (register_worker w s))"
  by (auto simp: register_worker_def lift_def repo_inv_def worker_inv_new split: sum.splits)

lemma register_blob_inv: "repo_inv s \<Longrightarrow> repo_inv (snd (register_blob b s))"
  by (auto simp: register_blob_def repo_inv_def job_inv_new_blob blob_inv_new artifact_inv_new_blob
      input_inv_new_blob split: option.splits)

lemma create_asset_inv: "repo_inv s \<Longrightarrow> repo_inv (snd (create_asset a s))"
  by (auto simp: create_asset_def lift_def repo_inv_def input_inv_new_asset split: sum.splits)

section \<open>Creating a job\<close>

lemma check_inputs_ok:
  "check_inputs s ns is = Inr () \<longleftrightarrow>
     (\<forall>i \<in> set is. \<exists>a b. r_assets s (input_asset_id i) = Some a \<and> asset_namespace_id a = ns \<and>
        asset_state a = ASSET_VERIFIED \<and> r_blobs s (asset_blob_id a) = Some b \<and>
        blob_state b = BLOB_VERIFIED)"
  by (induction "is") (auto simp: after_eq_Inr lookup_eqs)

definition initial_job ::
  "pyenv \<Rightarrow> string \<Rightarrow> string \<Rightarrow> string \<Rightarrow> string \<Rightarrow> pyval \<Rightarrow> string \<Rightarrow> job_input list \<Rightarrow> artifact_kind list
     \<Rightarrow> job_record"
where
  "initial_job E u h ns key req dep ins kinds =
     \<lparr>job_id = mk_id ''job'' u, job_namespace_id = ns, job_idempotency_key = key,
      job_request_sha256 = h, job_request = freeze E req, job_deployment_id = dep,
      job_inputs = sorted_inputs ins, job_required_kinds = sorted_kinds kinds, job_state = QUEUED,
      job_current_attempt_id = None, job_winning_attempt_id = None,
      job_cancel_requested = False, job_lease_epoch = 0\<rparr>"

text \<open>What the operation does: an error and a replay leave the repository, a new job is stored.\<close>

definition job_created where
  "job_created E uj ns key req dep ins kinds s job s' \<longleftrightarrow>
     (\<exists>h d. job = initial_job E uj h ns key req dep ins kinds \<and>
        r_job_by_idempotency s (ns, key) = None \<and>
        canonical_request_sha256 E req (Some dep) (sorted_inputs ins) (sorted_kinds kinds) = Inr h \<and>
        r_deployments s dep = Some d \<and> dep_state d = DEP_READY \<and>
        check_inputs s ns (sorted_inputs ins) = Inr () \<and>
        adds_event (job_id job) JOB_CREATED None
          (s\<lparr>r_jobs := (r_jobs s)(job_id job \<mapsto> job),
             r_job_by_idempotency := (r_job_by_idempotency s)((ns, key) \<mapsto> job_id job)\<rparr>) s')"

lemma create_job_wp:
  "wp (\<lambda>_ t. t = s)
     (\<lambda>job t. (t = s \<and> (\<exists>i. r_job_by_idempotency s (ns, key) = Some i \<and> r_jobs s i = Some job)) \<or>
        job_created E uj ns key req dep ins kinds s job t)
     (create_job E uj ue ns key req dep ins kinds s)"
  unfolding create_job_def
  by (simp add: wp_simps; intro conjI impI allI; (rule wp_add_event)?;
      force simp: wp_simps new_JobRecord_eq initial_job_def job_created_def lookup_eqs)

lemma index_inv_new:
  assumes "index_inv jobs idx" and "i \<notin> dom jobs"
    and "idx (job_namespace_id j, job_idempotency_key j) = None"
  shows "index_inv (jobs(i \<mapsto> j)) (idx((job_namespace_id j, job_idempotency_key j) \<mapsto> i))"
  unfolding index_inv_def
proof (intro conjI allI impI)
  let ?k = "(job_namespace_id j, job_idempotency_key j)"
  fix k l assume a: "(idx(?k \<mapsto> i)) k = Some l"
  show "\<exists>j'. (jobs(i \<mapsto> j)) l = Some j' \<and> (job_namespace_id j', job_idempotency_key j') = k"
  proof (cases "k = ?k")
    case True
    then show ?thesis using a by simp
  next
    case False
    with a have "idx k = Some l" by simp
    with assms(1) obtain j' where "jobs l = Some j'" "(job_namespace_id j', job_idempotency_key j') = k"
      unfolding index_inv_def by blast
    then show ?thesis using assms(2) by (auto simp: domIff)
  qed
next
  fix l j' assume a: "(jobs(i \<mapsto> j)) l = Some j'"
  show "(idx((job_namespace_id j, job_idempotency_key j) \<mapsto> i)) (job_namespace_id j', job_idempotency_key j') = Some l"
  proof (cases "l = i")
    case True
    then show ?thesis using a by simp
  next
    case False
    with a assms(1) have "idx (job_namespace_id j', job_idempotency_key j') = Some l"
      by (simp add: index_inv_def)
    then show ?thesis using assms(3) by auto
  qed
qed

lemma attempt_inv_new_job:
  assumes "attempt_inv atts jobs bj" and "i \<notin> dom jobs"
  shows "attempt_inv atts (jobs(i \<mapsto> j)) bj"
proof -
  have "attempt_good jobs bj a att \<Longrightarrow> attempt_good (jobs(i \<mapsto> j)) bj a att" for a att
    using assms(2) unfolding attempt_good_def by (metis domI fun_upd_other)
  then show ?thesis using assms(1) unfolding attempt_inv_def by blast
qed

lemma create_job_inv:
  assumes inv: "repo_inv s" and fresh: "mk_id ''job'' uj \<notin> dom (r_jobs s)"
  shows "repo_inv (snd (create_job E uj ue ns key req dep ins kinds s))"
proof -
  let ?i = "mk_id ''job'' uj"
  consider "snd (create_job E uj ue ns key req dep ins kinds s) = s"
    | h ev j where "j = initial_job E uj h ns key req dep ins kinds"
      and "r_job_by_idempotency s (ns, key) = None"
      and "check_inputs s ns (sorted_inputs ins) = Inr ()"
      and "snd (create_job E uj ue ns key req dep ins kinds s) =
        s\<lparr>r_jobs := (r_jobs s)(?i \<mapsto> j),
          r_job_by_idempotency := (r_job_by_idempotency s)((ns, key) \<mapsto> ?i), r_events := ev\<rparr>"
    using create_job_wp [of s ns key E uj req dep ins kinds ue]
    by (auto simp: wp_def job_created_def adds_event_def initial_job_def split: prod.splits sum.splits)
  then show ?thesis
  proof cases
    case 1
    then show ?thesis using inv by simp
  next
    case (2 h ev j)
    have bj: "r_attempts_by_job s ?i = None"
      using inv fresh unfolding repo_inv_def job_inv_def by blast
    have "job_inv ((r_jobs s)(?i \<mapsto> j)) (r_attempts s) (r_attempts_by_job s) (r_artifacts s) (r_blobs s)"
      using inv bj unfolding repo_inv_def job_inv_def 2(1)
      by (auto simp: initial_job_def job_shape_def)
    moreover have "attempt_inv (r_attempts s) ((r_jobs s)(?i \<mapsto> j)) (r_attempts_by_job s)"
      using inv fresh by (simp add: repo_inv_def attempt_inv_new_job)
    moreover have "index_inv ((r_jobs s)(?i \<mapsto> j)) ((r_job_by_idempotency s)((ns, key) \<mapsto> ?i))"
      using inv fresh 2(2) index_inv_new [of "r_jobs s" "r_job_by_idempotency s" ?i j]
      by (simp add: repo_inv_def 2(1) initial_job_def)
    moreover have "input_inv ((r_jobs s)(?i \<mapsto> j)) (r_assets s) (r_blobs s)"
      using inv 2(3) unfolding repo_inv_def input_inv_def 2(1) check_inputs_ok
      by (auto simp: initial_job_def)
    ultimately show ?thesis using inv by (simp add: 2(4) repo_inv_def)
  qed
qed

section \<open>Starting an attempt\<close>

definition new_attempt :: "string \<Rightarrow> repo \<Rightarrow> string \<Rightarrow> string \<Rightarrow> job_record \<Rightarrow> attempt_record" where
  "new_attempt u s j w job =
     \<lparr>attempt_id = mk_id ''attempt'' u, attempt_job_id = j, attempt_worker_id = w,
      attempt_no = int (length (attempts_of s j)) + 1, attempt_lease_epoch = job_lease_epoch job + 1,
      attempt_state = ATT_ACTIVE\<rparr>"

definition started :: "string \<Rightarrow> job_record \<Rightarrow> job_record" where
  "started a job = job\<lparr>job_state := RUNNING, job_current_attempt_id := Some a,
                       job_lease_epoch := job_lease_epoch job + 1\<rparr>"

lemma started_simps [simp]:
  "job_id (started a job) = job_id job"
  "job_namespace_id (started a job) = job_namespace_id job"
  "job_idempotency_key (started a job) = job_idempotency_key job"
  "job_inputs (started a job) = job_inputs job"
  "job_state (started a job) = RUNNING"
  "job_current_attempt_id (started a job) = Some a"
  "job_lease_epoch (started a job) = job_lease_epoch job + 1"
  by (simp_all add: started_def)

definition attempt_started where
  "attempt_started ua j w s att s' \<longleftrightarrow>
     (\<exists>job worker. r_jobs s j = Some job \<and> r_workers s w = Some worker \<and>
        worker_state worker = W_READY \<and> worker_deployment_id worker = job_deployment_id job \<and>
        job_state job = QUEUED \<and> job_current_attempt_id job = None \<and> \<not> job_cancel_requested job \<and>
        att = new_attempt ua s j w job \<and>
        adds_event j ATTEMPT_STARTED (Some (attempt_id att))
          (s\<lparr>r_attempts := (r_attempts s)(attempt_id att \<mapsto> att),
             r_attempts_by_job := (r_attempts_by_job s)(j \<mapsto> attempts_of s j @ [attempt_id att]),
             r_jobs := (r_jobs s)(j \<mapsto> started (attempt_id att) job),
             r_workers := (r_workers s)(w \<mapsto> worker\<lparr>worker_state := W_BUSY\<rparr>)\<rparr>) s')"

lemma start_attempt_wp:
  assumes "repo_inv s"
  shows "wp (\<lambda>_ t. t = s) (attempt_started ua j w s) (start_attempt E ua ue j w s)"
  unfolding start_attempt_def
  by (simp add: wp_simps new_AttemptRecord_eq lookup_eqs; intro conjI impI allI;
      (rule wp_add_event)?;
      force simp: wp_simps attempt_started_def new_attempt_def started_def
        dest: repo_inv_job(4) [OF assms])

lemma current_of_fresh:
  "current_of atts i j b st \<Longrightarrow> a \<notin> dom atts \<Longrightarrow> current_of (atts(a \<mapsto> x)) i j b st"
  unfolding current_of_def by (metis domI fun_upd_other)

lemma job_shape_fresh_attempt:
  "job_shape atts arts blobs i j \<Longrightarrow> a \<notin> dom atts \<Longrightarrow> job_shape (atts(a \<mapsto> x)) arts blobs i j"
  by (auto simp: job_shape_def split: job_state.splits intro: current_of_fresh)

lemma index_inv_upd:
  assumes idx: "index_inv jobs idx" and j: "jobs j = Some job"
    and same: "job_namespace_id job' = job_namespace_id job"
      "job_idempotency_key job' = job_idempotency_key job"
  shows "index_inv (jobs(j \<mapsto> job')) idx"
proof -
  have "\<exists>k'. (jobs(j \<mapsto> job')) i = Some k' \<and> (job_namespace_id k', job_idempotency_key k') = k"
    if "idx k = Some i" for k i
  proof -
    from idx that obtain j' where j': "jobs i = Some j'" "(job_namespace_id j', job_idempotency_key j') = k"
      unfolding index_inv_def by blast
    then show ?thesis using j same by (cases "i = j") auto
  qed
  moreover have "idx (job_namespace_id k, job_idempotency_key k) = Some i"
    if "(jobs(j \<mapsto> job')) i = Some k" for i k
    using idx that j same unfolding index_inv_def by (cases "i = j") auto
  ultimately show ?thesis unfolding index_inv_def by blast
qed

lemma start_attempt_inv:
  assumes inv: "repo_inv s" and fresh: "mk_id ''attempt'' ua \<notin> dom (r_attempts s)"
  shows "repo_inv (snd (start_attempt E ua ue j w s))"
proof -
  let ?a = "mk_id ''attempt'' ua"
  consider "snd (start_attempt E ua ue j w s) = s"
    | job worker ev where "r_jobs s j = Some job" "r_workers s w = Some worker"
      "worker_state worker = W_READY" "job_state job = QUEUED"
      "snd (start_attempt E ua ue j w s) =
        s\<lparr>r_attempts := (r_attempts s)(?a \<mapsto> new_attempt ua s j w job),
          r_attempts_by_job := (r_attempts_by_job s)(j \<mapsto> attempts_of s j @ [?a]),
          r_jobs := (r_jobs s)(j \<mapsto> started ?a job),
          r_workers := (r_workers s)(w \<mapsto> worker\<lparr>worker_state := W_BUSY\<rparr>),
          r_events := ev\<rparr>"
    using start_attempt_wp [OF inv, of ua j w E ue]
    by (auto simp: wp_def attempt_started_def adds_event_def new_attempt_def
        split: prod.splits sum.splits)
  then show ?thesis
  proof cases
    case 1
    then show ?thesis using inv by simp
  next
    case (2 job worker ev)
    let ?atts = "(r_attempts s)(?a \<mapsto> new_attempt ua s j w job)"
    let ?jobs = "(r_jobs s)(j \<mapsto> started ?a job)"
    let ?bj = "(r_attempts_by_job s)(j \<mapsto> attempts_of s j @ [?a])"
    have epoch: "job_lease_epoch job = int (length (attempts_of s j))" and id: "job_id job = j"
      and shape: "job_winning_attempt_id job = None"
      using repo_inv_job [OF inv 2(1)] 2(4) by (simp_all add: job_shape_def)
    have new: "job_shape ?atts (r_artifacts s) (r_blobs s) j (started ?a job)"
      using shape by (simp add: job_shape_def started_def current_of_def new_attempt_def)
    have "job_inv ?jobs ?atts ?bj (r_artifacts s) (r_blobs s)"
      using inv fresh 2(1) epoch id new unfolding repo_inv_def job_inv_def
      by (auto simp: job_shape_fresh_attempt)
    moreover have "attempt_inv ?atts ?jobs ?bj"
      unfolding attempt_inv_def
    proof (intro allI impI)
      fix b att assume b: "?atts b = Some att"
      show "attempt_good ?jobs ?bj b att"
      proof (cases "b = ?a")
        case True
        then show ?thesis using b epoch
          by (auto simp: attempt_good_def new_attempt_def started_def nth_append)
      next
        case False
        with b have old: "attempt_good (r_jobs s) (r_attempts_by_job s) b att"
          using inv by (simp add: repo_inv_def attempt_inv_def)
        show ?thesis
        proof (cases "attempt_job_id att = j")
          case True
          then show ?thesis using old 2(1,4)
            by (auto simp: attempt_good_def attempts_of_def nth_append)
        next
          case False
          then show ?thesis using old by (auto simp: attempt_good_def)
        qed
      qed
    qed
    moreover have "worker_inv ?atts ((r_workers s)(w \<mapsto> worker\<lparr>worker_state := W_BUSY\<rparr>))"
    proof -
      have w: "r_attempts s b = Some att \<Longrightarrow> attempt_state att = ATT_ACTIVE \<Longrightarrow> attempt_worker_id att \<noteq> w"
        for b att using repo_inv_worker [OF inv, of b att] 2(2,3) by auto
      show ?thesis
        using inv w unfolding repo_inv_def worker_inv_def
        by (auto simp: new_attempt_def)
    qed
    moreover have "index_inv ?jobs (r_job_by_idempotency s)"
      using inv 2(1) by (simp add: repo_inv_def index_inv_upd)
    moreover have "artifact_inv (r_artifacts s) (r_artifact_by_attempt_kind s) ?atts (r_blobs s)"
      using inv fresh unfolding repo_inv_def artifact_inv_def by (metis domI fun_upd_other)
    moreover have "input_inv ?jobs (r_assets s) (r_blobs s)"
      using inv 2(1) unfolding repo_inv_def input_inv_def by (auto simp: started_def)
    ultimately show ?thesis using inv by (simp add: 2(5) repo_inv_def)
  qed
qed

section \<open>Finishing an attempt\<close>

text \<open>
  Cancelling, failing, requeueing and publishing all end an attempt in the same way: the attempt
  takes a final state, its worker is READY again, the job moves on.
\<close>

definition settle ::
  "string \<Rightarrow> attempt_record \<Rightarrow> attempt_state \<Rightarrow> worker_record \<Rightarrow> string \<Rightarrow> job_record \<Rightarrow> repo \<Rightarrow> repo"
where
  "settle a att st w j job' s =
     s\<lparr>r_attempts := (r_attempts s)(a \<mapsto> att\<lparr>attempt_state := st\<rparr>),
       r_workers := (r_workers s)(attempt_worker_id att \<mapsto> w\<lparr>worker_state := W_READY\<rparr>),
       r_jobs := (r_jobs s)(j \<mapsto> job')\<rparr>"

definition is_active :: "repo \<Rightarrow> string \<Rightarrow> string \<Rightarrow> job_record \<Rightarrow> attempt_record \<Rightarrow> bool" where
  "is_active s j a job att \<longleftrightarrow>
     r_jobs s j = Some job \<and> r_attempts s a = Some att \<and> job_state job = RUNNING \<and>
     job_current_attempt_id job = Some a \<and> attempt_job_id att = j \<and> attempt_state att = ATT_ACTIVE \<and>
     attempt_lease_epoch att = job_lease_epoch job"

lemma active_attempt_eq: "active_attempt s j a = Inr (job, att) \<longleftrightarrow> is_active s j a job att"
  by (auto simp: active_attempt_def is_active_def after_eq_Inr lookup_eqs)

text \<open>What a job may become when its attempt is settled.\<close>

definition settled_job :: "repo \<Rightarrow> string \<Rightarrow> string \<Rightarrow> attempt_state \<Rightarrow> job_record \<Rightarrow> job_record \<Rightarrow> bool" where
  "settled_job s j a st job job' \<longleftrightarrow>
     st \<noteq> ATT_ACTIVE \<and> job_id job' = job_id job \<and> job_namespace_id job' = job_namespace_id job \<and>
     job_idempotency_key job' = job_idempotency_key job \<and> job_inputs job' = job_inputs job \<and>
     job_lease_epoch job' = job_lease_epoch job \<and> job_state job' \<noteq> RUNNING \<and>
     job_current_attempt_id job' = None \<and>
     (case job_state job' of
        SUCCEEDED \<Rightarrow> st = ATT_SUCCEEDED \<and> \<not> job_cancel_requested job' \<and>
          job_winning_attempt_id job' = Some a \<and> winner_complete (r_artifacts s) (r_blobs s) j job' a
      | CANCELLED \<Rightarrow> job_winning_attempt_id job' = None \<and> job_cancel_requested job'
      | _ \<Rightarrow> job_winning_attempt_id job' = None)"

lemma settle_inv:
  assumes inv: "repo_inv s" and act: "is_active s j a job att"
    and w: "r_workers s (attempt_worker_id att) = Some w"
    and job': "settled_job s j a st job job'"
  shows "repo_inv (settle a att st w j job' s)"
proof -
  let ?atts = "(r_attempts s)(a \<mapsto> att\<lparr>attempt_state := st\<rparr>)"
  let ?jobs = "(r_jobs s)(j \<mapsto> job')"
  have j: "r_jobs s j = Some job" and at: "r_attempts s a = Some att"
    and aj: "attempt_job_id att = j" and actv: "attempt_state att = ATT_ACTIVE"
    and ep: "attempt_lease_epoch att = job_lease_epoch job"
    using act by (simp_all add: is_active_def)
  have new: "job_shape ?atts (r_artifacts s) (r_blobs s) j job'"
    using job' aj ep by (auto simp: settled_job_def job_shape_def current_of_def split: job_state.splits)
  have other: "current_of (r_attempts s) i k b st' \<Longrightarrow> i \<noteq> j \<Longrightarrow> current_of ?atts i k b st'" for i k b st'
    using at aj by (auto simp: current_of_def)
  have shapes: "job_shape (r_attempts s) (r_artifacts s) (r_blobs s) i k \<Longrightarrow> i \<noteq> j \<Longrightarrow>
      job_shape ?atts (r_artifacts s) (r_blobs s) i k" for i k
    by (auto simp: job_shape_def split: job_state.splits intro: other)
  have "job_inv ?jobs ?atts (r_attempts_by_job s) (r_artifacts s) (r_blobs s)"
    using inv j job' new unfolding repo_inv_def job_inv_def
    by (auto simp: shapes settled_job_def)
  moreover have "attempt_inv ?atts ?jobs (r_attempts_by_job s)"
    unfolding attempt_inv_def
  proof (intro allI impI)
    fix b bt assume b: "?atts b = Some bt"
    show "attempt_good ?jobs (r_attempts_by_job s) b bt"
    proof (cases "b = a")
      case True
      then show ?thesis using b repo_inv_attempt [OF inv at] aj job'
        by (auto simp: attempt_good_def settled_job_def)
    next
      case False
      with b have old: "attempt_good (r_jobs s) (r_attempts_by_job s) b bt"
        using repo_inv_attempt [OF inv] by simp
      have "attempt_job_id bt = j \<Longrightarrow> attempt_state bt \<noteq> ATT_ACTIVE"
        using old False act by (auto simp: attempt_good_def is_active_def)
      then show ?thesis using old by (auto simp: attempt_good_def)
    qed
  qed
  moreover have "worker_inv ?atts ((r_workers s)(attempt_worker_id att \<mapsto> w\<lparr>worker_state := W_READY\<rparr>))"
  proof -
    have "r_attempts s b = Some bt \<Longrightarrow> attempt_state bt = ATT_ACTIVE \<Longrightarrow> b \<noteq> a \<Longrightarrow>
      attempt_worker_id bt \<noteq> attempt_worker_id att" for b bt
      using repo_inv_worker_unique [OF inv _ at] actv by blast
    then show ?thesis
      using repo_inv_worker [OF inv] repo_inv_worker_unique [OF inv] job'
      unfolding worker_inv_def settled_job_def by auto
  qed
  moreover have "index_inv ?jobs (r_job_by_idempotency s)"
    using inv j job' by (simp add: repo_inv_def index_inv_upd settled_job_def)
  moreover have "artifact_inv (r_artifacts s) (r_artifact_by_attempt_kind s) ?atts (r_blobs s)"
  proof -
    have "r_attempts s b = Some bt \<Longrightarrow> attempt_job_id bt = k \<Longrightarrow>
      \<exists>bt'. ?atts b = Some bt' \<and> attempt_job_id bt' = k" for b bt k
      using at by auto
    then show ?thesis
      using inv unfolding repo_inv_def artifact_inv_def by blast
  qed
  moreover have "input_inv ?jobs (r_assets s) (r_blobs s)"
    using inv j job' unfolding repo_inv_def input_inv_def settled_job_def by auto
  ultimately show ?thesis using inv by (simp add: settle_def repo_inv_def)
qed

end
