(* ===== verification/RepositoryLife.thy ===== *)
theory RepositoryLife
  imports RepositoryInv "HOL-Library.Sublist"
begin

text \<open>
  The operations that end an attempt, publication included, keep the invariant; every operation
  moves the repository forward in \<open>repo_le\<close>. Both facts make the repository an instance of the
  generic machines of the prelude, and the lifecycle properties are facts of that instance.
\<close>

section \<open>Cancellation requests\<close>

definition cancel_recorded where
  "cancel_recorded j s job t \<longleftrightarrow>
     (\<exists>old. r_jobs s j = Some old \<and>
        ((job_terminal (job_state old) \<and> job = old \<and> t = s) \<or>
         (job_state old = QUEUED \<and> job = old\<lparr>job_state := CANCELLED, job_cancel_requested := True\<rparr> \<and>
            adds_event j CANCEL_REQUESTED None (s\<lparr>r_jobs := (r_jobs s)(j \<mapsto> job)\<rparr>) t) \<or>
         (job_state old = RUNNING \<and> job = old\<lparr>job_cancel_requested := True\<rparr> \<and>
            adds_event j CANCEL_REQUESTED (job_current_attempt_id old)
              (s\<lparr>r_jobs := (r_jobs s)(j \<mapsto> job)\<rparr>) t)))"

lemma adds_event_jobs:
  "adds_event j evt a s s' \<Longrightarrow>
   adds_event j evt a (s\<lparr>r_jobs := (r_jobs s)(i \<mapsto> x)\<rparr>) (s'\<lparr>r_jobs := (r_jobs s')(i \<mapsto> x)\<rparr>)"
  unfolding adds_event_def by (elim exE conjE, rule exI) auto

lemma current_attempt_strip:
  assumes "repo_inv s" "r_jobs s j = Some job" "job_state job = RUNNING"
    "job_current_attempt_id job = Some a"
  shows "strip a \<noteq> []"
  using repo_inv_job(3) [OF assms(1,2)] assms repo_inv_attempt [OF assms(1)]
  by (auto simp: job_shape_def current_of_def attempt_good_def)

lemma request_cancel_wp:
  assumes inv: "repo_inv s"
  shows "wp (\<lambda>_ t. t = s \<and> r_jobs s j = None) (cancel_recorded j s) (request_cancel E ue j s)"
proof (cases "r_jobs s j")
  case None
  then show ?thesis by (simp add: request_cancel_def wp_simps lookup_eqs require_job_def lookup_or_Inl)
next
  case (Some old)
  have s: "strip j \<noteq> []" "\<And>a. job_state old = RUNNING \<Longrightarrow> job_current_attempt_id old = Some a \<Longrightarrow> strip a \<noteq> []"
    using repo_inv_job(4) [OF inv Some] current_attempt_strip [OF inv Some] by auto
  show ?thesis
    using Some s
    by (cases "job_state old")
      (auto simp: request_cancel_def require_job_def lookup_or_def wp_simps cancel_recorded_def
        job_terminal_def adds_event_jobs intro!: wp_add_event)
qed

lemma cancelled_job_inv:
  assumes inv: "repo_inv s" and j: "r_jobs s j = Some old"
    and job': "(job_state old = QUEUED \<and> job' = old\<lparr>job_state := CANCELLED, job_cancel_requested := True\<rparr>) \<or>
               (job_state old = RUNNING \<and> job' = old\<lparr>job_cancel_requested := True\<rparr>)"
  shows "repo_inv (s\<lparr>r_jobs := (r_jobs s)(j \<mapsto> job')\<rparr>)"
proof -
  let ?jobs = "(r_jobs s)(j \<mapsto> job')"
  have same: "job_id job' = job_id old" "job_namespace_id job' = job_namespace_id old"
    "job_idempotency_key job' = job_idempotency_key old" "job_inputs job' = job_inputs old"
    "job_lease_epoch job' = job_lease_epoch old"
    "job_current_attempt_id job' = job_current_attempt_id old"
    "job_state old = RUNNING \<Longrightarrow> job_state job' = RUNNING"
    using job' by auto
  have shape: "job_shape (r_attempts s) (r_artifacts s) (r_blobs s) j job'"
    using repo_inv_job(3) [OF inv j] job' by (auto simp: job_shape_def current_of_def)
  have "job_inv ?jobs (r_attempts s) (r_attempts_by_job s) (r_artifacts s) (r_blobs s)"
    using inv j shape same unfolding repo_inv_def job_inv_def by auto
  moreover have "attempt_inv (r_attempts s) ?jobs (r_attempts_by_job s)"
  proof -
    have "attempt_good (r_jobs s) (r_attempts_by_job s) a att \<Longrightarrow>
        attempt_good ?jobs (r_attempts_by_job s) a att" for a att
      using j same unfolding attempt_good_def by (cases "attempt_job_id att = j") auto
    then show ?thesis using inv unfolding repo_inv_def attempt_inv_def by blast
  qed
  moreover have "index_inv ?jobs (r_job_by_idempotency s)"
    using inv j same by (simp add: repo_inv_def index_inv_upd)
  moreover have "input_inv ?jobs (r_assets s) (r_blobs s)"
    using inv j same unfolding repo_inv_def input_inv_def by auto
  ultimately show ?thesis using inv by (simp add: repo_inv_def)
qed

section \<open>Ending an attempt\<close>

definition attempt_settled where
  "attempt_settled st evt f j a s job' t \<longleftrightarrow>
     (\<exists>job att w. is_active s j a job att \<and> r_workers s (attempt_worker_id att) = Some w \<and>
        job' = f job \<and> adds_event j evt (Some a) (settle a att st w j job' s) t)"

lemma active_attempt_names:
  assumes "repo_inv s" and "is_active s j a job att"
  shows "strip j \<noteq> []" "strip a \<noteq> []" "\<exists>w. r_workers s (attempt_worker_id att) = Some w"
  using assms repo_inv_job(4) repo_inv_attempt repo_inv_worker
  by (fastforce simp: is_active_def attempt_good_def)+

lemma active_attempt_Inl: "active_attempt s j a = Inl e \<Longrightarrow> \<not> is_active s j a job att"
  by (metis active_attempt_eq Inl_Inr_False)

text \<open>The three assignments and the event that every one of these methods ends with.\<close>

lemma settle_wp:
  assumes "r_workers s (attempt_worker_id att) = Some w" and "strip j \<noteq> []" and "strip a \<noteq> []"
    and "\<And>t. adds_event j evt (Some a) (settle a att st w j job' s) t \<Longrightarrow> V job' t"
  shows "wp X (\<lambda>_ t. wp X (\<lambda>_. V job') (add_event E ue j evt (Some a) (t\<lparr>r_jobs := (r_jobs t)(j \<mapsto> job')\<rparr>)))
     (release_worker (attempt_worker_id att)
       (s\<lparr>r_attempts := (r_attempts s)(a \<mapsto> att\<lparr>attempt_state := st\<rparr>)\<rparr>))"
  unfolding release_worker_def
  by (simp add: wp_simps require_worker_def lookup_or_def assms(1); rule wp_add_event;
      use assms in \<open>simp add: settle_def\<close>)

lemma settle_wp_V:
  assumes "repo_inv s" and "is_active s j a job att"
  shows "wp X (\<lambda>_ t. wp X (\<lambda>_. attempt_settled st evt f j a s (f job))
            (add_event E ue j evt (Some a) (t\<lparr>r_jobs := (r_jobs t)(j \<mapsto> f job)\<rparr>)))
     (release_worker (attempt_worker_id att)
       (s\<lparr>r_attempts := (r_attempts s)(a \<mapsto> att\<lparr>attempt_state := st\<rparr>)\<rparr>))"
proof -
  obtain w where "r_workers s (attempt_worker_id att) = Some w"
    using active_attempt_names(3) [OF assms] by blast
  then show ?thesis
    using active_attempt_names(1,2) [OF assms] assms(2)
    by (intro settle_wp) (auto simp: attempt_settled_def)
qed

lemma cancel_attempt_wp:
  assumes inv: "repo_inv s"
  shows "wp (\<lambda>_ t. t = s \<and> (\<nexists>job att. is_active s j a job att))
     (attempt_settled ATT_CANCELLED ATTEMPT_CANCELLED
        (\<lambda>job. job\<lparr>job_state := CANCELLED, job_current_attempt_id := None, job_cancel_requested := True\<rparr>)
        j a s)
     (cancel_attempt E ue j a s)"
  unfolding cancel_attempt_def
  by (simp add: wp_simps active_attempt_eq active_attempt_Inl) (blast intro: settle_wp_V [OF inv])

lemma fail_attempt_wp:
  assumes inv: "repo_inv s"
  shows "wp (\<lambda>_ t. t = s \<and> (\<nexists>job att. is_active s j a job att))
     (attempt_settled ATT_FAILED_TERMINAL ATTEMPT_FAILED
        (\<lambda>job. job\<lparr>job_state := FAILED, job_current_attempt_id := None\<rparr>) j a s)
     (fail_attempt E ue j a s)"
  unfolding fail_attempt_def
  by (simp add: wp_simps active_attempt_eq active_attempt_Inl) (blast intro: settle_wp_V [OF inv])

lemma retry_attempt_wp:
  assumes inv: "repo_inv s"
  shows "wp (\<lambda>_ t. t = s \<and> (\<nexists>job att. is_active s j a job att))
     (attempt_settled ATT_FAILED_RETRYABLE ATTEMPT_REQUEUED
        (\<lambda>job. job\<lparr>job_state := QUEUED, job_current_attempt_id := None\<rparr>) j a s)
     (retry_attempt E ue j a s)"
  unfolding retry_attempt_def
  by (simp add: wp_simps active_attempt_eq active_attempt_Inl) (blast intro: settle_wp_V [OF inv])

section \<open>Publication\<close>

definition publishable :: "repo \<Rightarrow> string \<Rightarrow> string \<Rightarrow> artifact_record list \<Rightarrow> bool" where
  "publishable s j a xs \<longleftrightarrow>
     distinct (map artifact_kind xs) \<and>
     (\<forall>x \<in> set xs. artifact_job_id x = j \<and> artifact_attempt_id x = a \<and> artifact_state x = ART_READY \<and>
        (\<exists>b. r_blobs s (artifact_blob_id x) = Some b \<and> blob_state b = BLOB_VERIFIED) \<and>
        r_artifact_by_attempt_kind s (a, artifact_kind x) = None)"

lemma check_artifacts_ok:
  "check_artifacts s j a ks xs = Inr ks' \<longleftrightarrow>
     publishable s j a xs \<and> set ks \<inter> artifact_kind ` set xs = {} \<and> ks' = rev (map artifact_kind xs) @ ks"
proof (induction xs arbitrary: ks)
  case Nil
  then show ?case by (auto simp: publishable_def)
next
  case (Cons x xs)
  then show ?case by (auto simp: publishable_def after_eq_Inr lookup_eqs domIff)
qed

text \<open>The store loop has stored a prefix of the artifacts when it meets a used identifier.\<close>

fun stored :: "string \<Rightarrow> artifact_record list \<Rightarrow> repo \<Rightarrow> repo" where
  "stored a [] s = s"
| "stored a (x # xs) s = stored a xs
     (s\<lparr>r_artifacts := r_artifacts s @ [(artifact_id x, x)],
        r_artifact_by_attempt_kind :=
          (r_artifact_by_attempt_kind s)((a, artifact_kind x) \<mapsto> artifact_id x)\<rparr>)"

definition new_artifact_ids :: "artifact_record list \<Rightarrow> repo \<Rightarrow> bool" where
  "new_artifact_ids xs s \<longleftrightarrow>
     distinct (map artifact_id xs) \<and> artifact_id ` set xs \<inter> fst ` set (r_artifacts s) = {}"

lemma store_artifacts_wp:
  "wp (\<lambda>_ t. \<exists>ys y zs. xs = ys @ y # zs \<and> new_artifact_ids ys s \<and>
             \<not> new_artifact_ids (ys @ [y]) s \<and> t = stored a ys s)
      (\<lambda>_ t. new_artifact_ids xs s \<and> t = stored a xs s)
      (store_artifacts a xs s)"
proof (induction xs arbitrary: s)
  case Nil
  then show ?case by (simp add: wp_simps new_artifact_ids_def)
next
  case (Cons x xs)
  let ?s = "s\<lparr>r_artifacts := r_artifacts s @ [(artifact_id x, x)],
              r_artifact_by_attempt_kind :=
                (r_artifact_by_attempt_kind s)((a, artifact_kind x) \<mapsto> artifact_id x)\<rparr>"
  show ?case
  proof (cases "artifact_id x \<in> fst ` set (r_artifacts s)")
    case True
    then have "\<not> new_artifact_ids ([] @ [x]) s" and "new_artifact_ids [] s"
      and "store_artifacts a (x # xs) s = fail DurableInvariantError ''artifact id already exists'' s"
      by (simp_all add: new_artifact_ids_def)
    then show ?thesis
      by (simp only: wp_fail) (intro exI [of _ "[]"] exI [of _ x] exI [of _ xs], simp)
  next
    case False
    have step: "new_artifact_ids (x # ys) s \<longleftrightarrow> new_artifact_ids ys ?s" for ys
      using False by (auto simp: new_artifact_ids_def)
    have "store_artifacts a (x # xs) s = store_artifacts a xs ?s"
      using False by simp
    then show ?thesis
      using step
      by (simp only:) (rule wp_mono [OF Cons.IH [of ?s]], metis append_Cons stored.simps(2), simp)
  qed
qed

lemma stored_frame [simp]:
  "r_jobs (stored a xs s) = r_jobs s" "r_attempts (stored a xs s) = r_attempts s"
  "r_attempts_by_job (stored a xs s) = r_attempts_by_job s" "r_workers (stored a xs s) = r_workers s"
  "r_blobs (stored a xs s) = r_blobs s" "r_events (stored a xs s) = r_events s"
  "r_assets (stored a xs s) = r_assets s" "r_deployments (stored a xs s) = r_deployments s"
  "r_job_by_idempotency (stored a xs s) = r_job_by_idempotency s"
  "r_blob_by_digest (stored a xs s) = r_blob_by_digest s"
  "r_artifacts (stored a xs s) = r_artifacts s @ map (\<lambda>x. (artifact_id x, x)) xs"
  by (induction xs arbitrary: s) simp_all

lemma stored_is_active [simp]: "is_active (stored a' xs s) j a job att = is_active s j a job att"
  by (simp add: is_active_def)

lemma job_inv_more_artifacts:
  "job_inv jobs atts bj arts blobs \<Longrightarrow> job_inv jobs atts bj (arts @ arts') blobs"
proof -
  have "winner_complete arts blobs k j a \<Longrightarrow> winner_complete (arts @ arts') blobs k j a" for k j a
    unfolding winner_complete_def by (metis UnCI image_Un set_append)
  then have "job_shape atts arts blobs k j \<Longrightarrow> job_shape atts (arts @ arts') blobs k j" for k j
    by (auto simp: job_shape_def split: job_state.splits)
  then show "job_inv jobs atts bj arts blobs \<Longrightarrow> ?thesis" by (simp add: job_inv_def)
qed

lemma stored_inv:
  assumes "repo_inv s" and "publishable s j a xs" and "new_artifact_ids xs s"
    and "r_attempts s a = Some att" and "attempt_job_id att = j"
  shows "repo_inv (stored a xs s)"
  using assms
proof (induction xs arbitrary: s)
  case Nil
  then show ?case by simp
next
  case (Cons x xs)
  let ?s = "s\<lparr>r_artifacts := r_artifacts s @ [(artifact_id x, x)],
              r_artifact_by_attempt_kind :=
                (r_artifact_by_attempt_kind s)((a, artifact_kind x) \<mapsto> artifact_id x)\<rparr>"
  have fresh: "artifact_id x \<notin> fst ` set (r_artifacts s)"
    and ids: "new_artifact_ids xs ?s"
    using Cons.prems(3) by (auto simp: new_artifact_ids_def)
  have x: "artifact_job_id x = j" "artifact_attempt_id x = a" "artifact_state x = ART_READY"
    "\<exists>b. r_blobs s (artifact_blob_id x) = Some b \<and> blob_state b = BLOB_VERIFIED"
    "r_artifact_by_attempt_kind s (a, artifact_kind x) = None"
    using Cons.prems(2) by (auto simp: publishable_def)
  have pub: "publishable ?s j a xs"
    using Cons.prems(2) by (fastforce simp: publishable_def image_iff)
  have "artifact_inv (r_artifacts ?s) (r_artifact_by_attempt_kind ?s) (r_attempts s) (r_blobs s)"
    unfolding artifact_inv_def
  proof (intro conjI allI impI)
    show "distinct (map fst (r_artifacts ?s))"
      using Cons.prems(1) fresh by (simp add: repo_inv_def artifact_inv_def)
  next
    fix i y assume "(i, y) \<in> set (r_artifacts ?s)"
    then consider "(i, y) \<in> set (r_artifacts s)" | "i = artifact_id x" "y = x" by auto
    then have "artifact_id y = i \<and> artifact_state y = ART_READY \<and>
        (\<exists>b. r_blobs s (artifact_blob_id y) = Some b \<and> blob_state b = BLOB_VERIFIED) \<and>
        (\<exists>att. r_attempts s (artifact_attempt_id y) = Some att \<and> attempt_job_id att = artifact_job_id y) \<and>
        r_artifact_by_attempt_kind ?s (artifact_attempt_id y, artifact_kind y) = Some i"
    proof cases
      case 1
      then show ?thesis using repo_inv_artifact [OF Cons.prems(1) 1] x(5) by auto
    next
      case 2
      then show ?thesis using x Cons.prems(4,5) by auto
    qed
    then show "artifact_id y = i" and "artifact_state y = ART_READY"
      and "\<exists>b. r_blobs s (artifact_blob_id y) = Some b \<and> blob_state b = BLOB_VERIFIED"
      and "\<exists>att. r_attempts s (artifact_attempt_id y) = Some att \<and> attempt_job_id att = artifact_job_id y"
      and "r_artifact_by_attempt_kind ?s (artifact_attempt_id y, artifact_kind y) = Some i"
      by blast+
  qed
  then have "repo_inv ?s"
    using Cons.prems(1) by (simp add: repo_inv_def job_inv_more_artifacts)
  then show ?case using Cons.IH [of ?s] pub ids Cons.prems(4,5) by simp
qed

lemma stored_winner:
  assumes "publishable s j a xs" and "set (job_required_kinds job) \<subseteq> artifact_kind ` set xs"
  shows "winner_complete (r_artifacts (stored a xs s)) (r_blobs s) j job a"
proof -
  have "\<exists>x b. x \<in> snd ` set (r_artifacts (stored a xs s)) \<and> artifact_job_id x = j \<and>
      artifact_attempt_id x = a \<and> artifact_kind x = k \<and> artifact_state x = ART_READY \<and>
      r_blobs s (artifact_blob_id x) = Some b \<and> blob_state b = BLOB_VERIFIED"
    if "k \<in> set (job_required_kinds job)" for k
  proof -
    from that assms(2) obtain x where x: "x \<in> set xs" "artifact_kind x = k" by blast
    then have "x \<in> snd ` set (r_artifacts (stored a xs s))" by (force simp: image_Un image_image)
    then show ?thesis using assms(1) x unfolding publishable_def by blast
  qed
  then show ?thesis unfolding winner_complete_def by blast
qed

definition published where
  "published j a xs s job' t \<longleftrightarrow>
     publishable s j a xs \<and> new_artifact_ids xs s \<and> xs \<noteq> [] \<and>
     (\<exists>job. r_jobs s j = Some job \<and> \<not> job_cancel_requested job \<and>
        set (job_required_kinds job) \<subseteq> artifact_kind ` set xs) \<and>
     attempt_settled ATT_SUCCEEDED JOB_SUCCEEDED
       (\<lambda>job. job\<lparr>job_state := SUCCEEDED, job_current_attempt_id := None, job_winning_attempt_id := Some a\<rparr>)
       j a (stored a xs s) job' t"

definition publication_interrupted where
  "publication_interrupted j a xs s t \<longleftrightarrow>
     (\<exists>job att ys y zs. is_active s j a job att \<and> publishable s j a xs \<and> xs = ys @ y # zs \<and>
        new_artifact_ids ys s \<and> \<not> new_artifact_ids (ys @ [y]) s \<and> t = stored a ys s)"

lemma publish_success_wp:
  assumes inv: "repo_inv s"
  shows "wp (\<lambda>_ t. t = s \<or> publication_interrupted j a xs s t) (published j a xs s)
     (publish_success E ue j a xs s)"
proof -
  have settled: "wp (\<lambda>_ t. t = s \<or> publication_interrupted j a xs s t)
      (\<lambda>_ t. wp (\<lambda>_ t. t = s \<or> publication_interrupted j a xs s t) (\<lambda>_. published j a xs s job')
         (add_event E ue j JOB_SUCCEEDED (Some a) (t\<lparr>r_jobs := (r_jobs t)(j \<mapsto> job')\<rparr>)))
      (release_worker (attempt_worker_id att)
        (stored a xs s\<lparr>r_attempts := (r_attempts s)(a \<mapsto> att\<lparr>attempt_state := ATT_SUCCEEDED\<rparr>)\<rparr>))"
    if act: "is_active s j a job att" and cond: "\<not> job_cancel_requested job" "xs \<noteq> []"
      "publishable s j a xs" "set (job_required_kinds job) \<subseteq> artifact_kind ` set xs"
      "new_artifact_ids xs s"
      and job': "job' = job\<lparr>job_state := SUCCEEDED, job_current_attempt_id := None,
                          job_winning_attempt_id := Some a\<rparr>" for job att job'
  proof -
    obtain w where w: "r_workers s (attempt_worker_id att) = Some w"
      using active_attempt_names(3) [OF inv act] by blast
    have j: "r_jobs s j = Some job" using act by (simp add: is_active_def)
    have "published j a xs s job' t"
      if "adds_event j JOB_SUCCEEDED (Some a) (settle a att ATT_SUCCEEDED w j job' (stored a xs s)) t" for t
      unfolding published_def attempt_settled_def
      using that act cond w j job' by auto
    then show ?thesis
      using settle_wp [of "stored a xs s" att w j a JOB_SUCCEEDED ATT_SUCCEEDED job'
          "published j a xs s"] w active_attempt_names(1,2) [OF inv act] by simp
  qed
  show ?thesis
    unfolding publish_success_def
    apply (simp add: wp_simps active_attempt_eq check_artifacts_ok)
    apply (intro conjI impI allI; (elim conjE)?)
    apply (rule wp_mono [OF store_artifacts_wp])
     apply (unfold publication_interrupted_def) []
     apply blast
    apply (elim conjE, hypsubst)
    apply (simp only: stored_frame)
    apply (rule settled; (assumption | rule refl))
    done
qed

section \<open>Every operation keeps the invariant\<close>

lemma attempt_settled_inv:
  assumes inv: "repo_inv s" and set: "attempt_settled st evt f j a s job' t"
    and f: "\<And>job att. is_active s j a job att \<Longrightarrow> settled_job s j a st job (f job)"
  shows "repo_inv t"
proof -
  from set obtain job att w where act: "is_active s j a job att"
    and w: "r_workers s (attempt_worker_id att) = Some w"
    and t: "adds_event j evt (Some a) (settle a att st w j (f job) s) t"
    unfolding attempt_settled_def by blast
  have "repo_inv (settle a att st w j (f job) s)"
    by (rule settle_inv [OF inv act w f [OF act]])
  then show ?thesis using t by simp
qed

lemma active_no_winner:
  "repo_inv s \<Longrightarrow> is_active s j a job att \<Longrightarrow> job_winning_attempt_id job = None"
  using repo_inv_job(3) by (fastforce simp: is_active_def job_shape_def)

lemma settled_wp_inv:
  assumes inv: "repo_inv s" and p: "wp (\<lambda>_ t. t = s \<and> Q) (attempt_settled st evt f j a s) p"
    and f: "\<And>job att. is_active s j a job att \<Longrightarrow> settled_job s j a st job (f job)"
  shows "repo_inv (snd p)"
  using wp_mono [OF p, of "\<lambda>_. repo_inv" "\<lambda>_. repo_inv"] attempt_settled_inv [OF inv _ f] inv
  by (simp add: wp_state)

lemma cancel_attempt_inv:
  assumes "repo_inv s"
  shows "repo_inv (snd (cancel_attempt E ue j a s))"
  by (rule settled_wp_inv [OF assms cancel_attempt_wp [OF assms]])
    (simp add: settled_job_def active_no_winner [OF assms])

lemma fail_attempt_inv:
  assumes "repo_inv s"
  shows "repo_inv (snd (fail_attempt E ue j a s))"
  by (rule settled_wp_inv [OF assms fail_attempt_wp [OF assms]])
    (simp add: settled_job_def active_no_winner [OF assms])

lemma retry_attempt_inv:
  assumes "repo_inv s"
  shows "repo_inv (snd (retry_attempt E ue j a s))"
  by (rule settled_wp_inv [OF assms retry_attempt_wp [OF assms]])
    (simp add: settled_job_def active_no_winner [OF assms])

lemma publishable_append: "publishable s j a (ys @ zs) \<Longrightarrow> publishable s j a ys"
  by (auto simp: publishable_def)

lemma published_inv:
  assumes inv: "repo_inv s" and p: "published j a xs s job' t"
  shows "repo_inv t"
proof -
  obtain job where pub: "publishable s j a xs" "new_artifact_ids xs s"
    and j: "r_jobs s j = Some job" and nc: "\<not> job_cancel_requested job"
    and req: "set (job_required_kinds job) \<subseteq> artifact_kind ` set xs"
    and set: "attempt_settled ATT_SUCCEEDED JOB_SUCCEEDED
       (\<lambda>job. job\<lparr>job_state := SUCCEEDED, job_current_attempt_id := None, job_winning_attempt_id := Some a\<rparr>)
       j a (stored a xs s) job' t"
    using p unfolding published_def by blast
  obtain att where at: "r_attempts s a = Some att" "attempt_job_id att = j"
    using set by (auto simp: attempt_settled_def is_active_def)
  have "repo_inv (stored a xs s)" by (rule stored_inv [OF inv pub at])
  then show ?thesis
    using set by (rule attempt_settled_inv)
      (use stored_winner [OF pub(1) req] j nc in
        \<open>auto simp: settled_job_def is_active_def winner_complete_def\<close>)
qed

lemma publish_success_inv:
  assumes inv: "repo_inv s"
  shows "repo_inv (snd (publish_success E ue j a xs s))"
  unfolding wp_state [symmetric]
proof (rule wp_mono [OF publish_success_wp [OF inv]])
  fix t assume "t = s \<or> publication_interrupted j a xs s t"
  then show "repo_inv t"
    using inv stored_inv [OF inv publishable_append]
    by (auto simp: publication_interrupted_def is_active_def)
qed (rule published_inv [OF inv])

lemma request_cancel_inv:
  assumes inv: "repo_inv s"
  shows "repo_inv (snd (request_cancel E ue j s))"
  unfolding wp_state [symmetric]
proof (rule wp_mono [OF request_cancel_wp [OF inv]])
  fix job t assume "cancel_recorded j s job t"
  then show "repo_inv t"
    unfolding cancel_recorded_def
    by (elim exE conjE disjE) (simp add: inv, (drule adds_event_inv, simp add: cancelled_job_inv [OF inv])+)
qed (simp add: inv)

section \<open>Every operation moves the repository forward\<close>

definition job_le :: "job_record \<Rightarrow> job_record \<Rightarrow> bool" where
  "job_le j j' \<longleftrightarrow>
     job_id j' = job_id j \<and> job_namespace_id j' = job_namespace_id j \<and>
     job_idempotency_key j' = job_idempotency_key j \<and> job_request_sha256 j' = job_request_sha256 j \<and>
     job_request j' = job_request j \<and> job_deployment_id j' = job_deployment_id j \<and>
     job_inputs j' = job_inputs j \<and> job_required_kinds j' = job_required_kinds j \<and>
     job_lease_epoch j \<le> job_lease_epoch j' \<and>
     (job_cancel_requested j \<longrightarrow> job_cancel_requested j') \<and>
     (job_terminal (job_state j) \<longrightarrow> j' = j)"

definition attempt_le :: "attempt_record \<Rightarrow> attempt_record \<Rightarrow> bool" where
  "attempt_le a a' \<longleftrightarrow>
     a' = a\<lparr>attempt_state := attempt_state a'\<rparr> \<and> (attempt_state a \<noteq> ATT_ACTIVE \<longrightarrow> a' = a)"

definition repo_le :: "repo \<Rightarrow> repo \<Rightarrow> bool" where
  "repo_le s t \<longleftrightarrow>
     grows job_le (r_jobs s) (r_jobs t) \<and> grows attempt_le (r_attempts s) (r_attempts t) \<and>
     grows (=) (r_blobs s) (r_blobs t) \<and> grows (=) (r_assets s) (r_assets t) \<and>
     grows (=) (r_deployments s) (r_deployments t) \<and>
     grows (=) (r_job_by_idempotency s) (r_job_by_idempotency t) \<and>
     prefix (r_artifacts s) (r_artifacts t) \<and> prefix (r_events s) (r_events t)"

lemma job_le_refl [simp]: "job_le j j"
  by (simp add: job_le_def)

lemma job_le_trans: "job_le x y \<Longrightarrow> job_le y z \<Longrightarrow> job_le x z"
  unfolding job_le_def by (elim conjE, intro conjI) auto

lemma attempt_le_refl [simp]: "attempt_le a a"
  by (simp add: attempt_le_def)

lemma attempt_le_trans: "attempt_le x y \<Longrightarrow> attempt_le y z \<Longrightarrow> attempt_le x z"
  unfolding attempt_le_def by (cases x; cases y; cases z) auto

lemma repo_le_refl [simp]: "repo_le s s"
  by (simp add: repo_le_def)

lemma repo_le_trans: "repo_le s t \<Longrightarrow> repo_le t u \<Longrightarrow> repo_le s u"
  unfolding repo_le_def
  by (elim conjE, intro conjI; (erule (1) grows_trans | erule (1) prefix_order.trans))
    (blast intro: job_le_trans attempt_le_trans)+

lemma adds_event_le: "adds_event j evt a s t \<Longrightarrow> repo_le s t"
  by (auto simp: adds_event_def repo_le_def)

lemma repo_le_adds: "repo_le s s' \<Longrightarrow> adds_event j evt a s' t \<Longrightarrow> repo_le s t"
  by (blast intro: repo_le_trans adds_event_le)

lemma registrations_le:
  "repo_le s (snd (register_deployment d s))" "repo_le s (snd (register_worker w s))"
  "repo_le s (snd (register_blob b s))" "repo_le s (snd (create_asset a s))"
  unfolding wp_state [symmetric, where P = "repo_le s"]
  by (auto simp: register_deployment_def register_worker_def register_blob_def create_asset_def
      wp_simps repo_le_def domIff intro: grows_new)

lemma create_job_le:
  assumes fresh: "mk_id ''job'' uj \<notin> dom (r_jobs s)"
  shows "repo_le s (snd (create_job E uj ue ns key req dep ins kinds s))"
  unfolding wp_state [symmetric, where P = "repo_le s"]
proof (rule wp_mono [OF create_job_wp])
  fix job t
  assume "(t = s \<and> (\<exists>i. r_job_by_idempotency s (ns, key) = Some i \<and> r_jobs s i = Some job)) \<or>
    job_created E uj ns key req dep ins kinds s job t"
  then consider "t = s" | "job_created E uj ns key req dep ins kinds s job t" by blast
  then show "repo_le s t"
  proof cases
    case 2
    then have id: "job_id job = mk_id ''job'' uj" and none: "r_job_by_idempotency s (ns, key) = None"
      and ev: "adds_event (job_id job) JOB_CREATED None
          (s\<lparr>r_jobs := (r_jobs s)(job_id job \<mapsto> job),
             r_job_by_idempotency := (r_job_by_idempotency s)((ns, key) \<mapsto> job_id job)\<rparr>) t"
      by (auto simp: job_created_def initial_job_def)
    have "repo_le s (s\<lparr>r_jobs := (r_jobs s)(job_id job \<mapsto> job),
             r_job_by_idempotency := (r_job_by_idempotency s)((ns, key) \<mapsto> job_id job)\<rparr>)"
      using fresh none id by (simp add: repo_le_def grows_new domIff)
    then show ?thesis using ev by (rule repo_le_adds)
  qed simp
qed simp

lemma start_attempt_le:
  assumes inv: "repo_inv s" and fresh: "mk_id ''attempt'' ua \<notin> dom (r_attempts s)"
  shows "repo_le s (snd (start_attempt E ua ue j w s))"
  unfolding wp_state [symmetric, where P = "repo_le s"]
proof (rule wp_mono [OF start_attempt_wp [OF inv]])
  fix att t assume "attempt_started ua j w s att t"
  then obtain job worker where job: "r_jobs s j = Some job" "job_state job = QUEUED"
    and att: "att = new_attempt ua s j w job"
    and ev: "adds_event j ATTEMPT_STARTED (Some (attempt_id att))
          (s\<lparr>r_attempts := (r_attempts s)(attempt_id att \<mapsto> att),
             r_attempts_by_job := (r_attempts_by_job s)(j \<mapsto> attempts_of s j @ [attempt_id att]),
             r_jobs := (r_jobs s)(j \<mapsto> started (attempt_id att) job),
             r_workers := (r_workers s)(w \<mapsto> worker\<lparr>worker_state := W_BUSY\<rparr>)\<rparr>) t"
    unfolding attempt_started_def by blast
  have "job_le job (started (attempt_id att) job)"
    using job(2) by (simp add: job_le_def started_def job_terminal_def)
  then show "repo_le s t"
    using fresh job att by (intro repo_le_adds [OF _ ev])
      (simp add: repo_le_def grows_new grows_upd domIff new_attempt_def)
qed simp

lemma settle_le:
  "is_active s j a job att \<Longrightarrow> job_le job job' \<Longrightarrow> repo_le s (settle a att st w j job' s)"
  by (simp add: repo_le_def settle_def is_active_def grows_upd attempt_le_def)

lemma attempt_settled_le:
  "attempt_settled st evt f j a s job' t \<Longrightarrow> (\<And>job. job_state job = RUNNING \<Longrightarrow> job_le job (f job)) \<Longrightarrow>
   repo_le s t"
  unfolding attempt_settled_def
  by (elim exE conjE) (rule repo_le_adds [OF settle_le], auto simp: is_active_def)

lemma settled_wp_le:
  assumes p: "wp (\<lambda>_ t. t = s \<and> Q) (attempt_settled st evt f j a s) p"
    and f: "\<And>job. job_state job = RUNNING \<Longrightarrow> job_le job (f job)"
  shows "repo_le s (snd p)"
  using wp_mono [OF p, of "\<lambda>_. repo_le s" "\<lambda>_. repo_le s"] attempt_settled_le [OF _ f]
  by (simp add: wp_state)

lemma stored_le: "repo_le s (stored a xs s)"
  by (simp add: repo_le_def)

lemma publish_success_le:
  assumes inv: "repo_inv s"
  shows "repo_le s (snd (publish_success E ue j a xs s))"
  unfolding wp_state [symmetric, where P = "repo_le s"]
proof (rule wp_mono [OF publish_success_wp [OF inv]])
  fix job' t assume "published j a xs s job' t"
  then have "repo_le (stored a xs s) t"
    unfolding published_def by (elim conjE attempt_settled_le) (simp add: job_le_def job_terminal_def)
  then show "repo_le s t" by (rule repo_le_trans [OF stored_le])
qed (auto simp: publication_interrupted_def stored_le)

lemma request_cancel_le:
  assumes inv: "repo_inv s"
  shows "repo_le s (snd (request_cancel E ue j s))"
  unfolding wp_state [symmetric, where P = "repo_le s"]
proof (rule wp_mono [OF request_cancel_wp [OF inv]])
  fix job t assume "cancel_recorded j s job t"
  then obtain old where old: "r_jobs s j = Some old" and
    "t = s \<or> (job_le old job \<and> (\<exists>evt a. adds_event j evt a (s\<lparr>r_jobs := (r_jobs s)(j \<mapsto> job)\<rparr>) t))"
    unfolding cancel_recorded_def by (fastforce simp: job_le_def job_terminal_def)
  moreover have "job_le old job \<Longrightarrow> repo_le s (s\<lparr>r_jobs := (r_jobs s)(j \<mapsto> job)\<rparr>)"
    using old by (simp add: repo_le_def grows_upd)
  ultimately show "repo_le s t" by (auto dest: repo_le_adds)
qed simp

section \<open>The repository as a machine\<close>

lemma repo_step_inv: "repo_inv s \<Longrightarrow> fresh_ids x s \<Longrightarrow> repo_inv (repo_step E x s)"
  by (cases x) (simp_all add: register_deployment_inv register_worker_inv register_blob_inv
      create_asset_inv create_job_inv start_attempt_inv request_cancel_inv cancel_attempt_inv
      fail_attempt_inv retry_attempt_inv publish_success_inv)

lemma repo_step_le: "repo_inv s \<Longrightarrow> fresh_ids x s \<Longrightarrow> repo_le s (repo_step E x s)"
  by (cases x) (simp_all add: registrations_le create_job_le start_attempt_le request_cancel_le
      publish_success_le settled_wp_le [OF cancel_attempt_wp] settled_wp_le [OF fail_attempt_wp]
      settled_wp_le [OF retry_attempt_wp] job_le_def job_terminal_def)

interpretation repo_machine: monotone_machine "repo_step E" fresh_ids repo_inv repo_le for E
  by unfold_locales (auto intro: repo_step_inv repo_step_le repo_le_trans)

definition repo_run :: "pyenv \<Rightarrow> repo_op list \<Rightarrow> repo \<Rightarrow> repo option" where
  "repo_run E = guarded_run (repo_step E) fresh_ids"

lemma repo_run_inv: "repo_run E ops empty_repo = Some s \<Longrightarrow> repo_inv s"
  unfolding repo_run_def by (rule repo_machine.run_inv [OF _ repo_inv_empty])

lemma repo_run_le: "repo_run E ops s = Some t \<Longrightarrow> repo_inv s \<Longrightarrow> repo_le s t"
  unfolding repo_run_def by (rule repo_machine.run_le)

end
