(* ===== verification/RepositoryProps.thy ===== *)
theory RepositoryProps
  imports RepositoryLife
begin

text \<open>
  What the in-memory durable repository promises its callers, for every sequence of operations
  from the empty repository (identifiers drawn by \<open>uuid4\<close> being fresh), and the two places
  where it does not keep its promise.
\<close>

section \<open>Example runs\<close>

text \<open>A deployment, a worker, a verified blob and a job that requires one output artifact.\<close>

definition demo_env :: pyenv where
  "demo_env = \<lparr>float_repr = (\<lambda>_. ''0.5''), str_of = (\<lambda>_. ''x'')\<rparr>"

definition demo_artifact :: "string \<Rightarrow> artifact_kind \<Rightarrow> artifact_record" where
  "demo_artifact i k = \<lparr>artifact_id = i, artifact_job_id = ''job_1'', artifact_attempt_id = ''attempt_1'',
     artifact_blob_id = ''b'', artifact_kind = k, artifact_state = ART_READY, artifact_metadata = PDict []\<rparr>"

definition demo_setup :: "repo_op list" where
  "demo_setup =
     [RegisterDeployment \<lparr>dep_id = ''d'', dep_name = ''n'', dep_adapter_id = ''a'', dep_fingerprint = ''f'',
        dep_state = DEP_READY, dep_manifest = PDict []\<rparr>,
      RegisterWorker \<lparr>worker_id = ''w'', worker_deployment_id = ''d'', worker_state = W_READY\<rparr>,
      RegisterBlob \<lparr>blob_id = ''b'', blob_sha256 = replicate 64 CHR ''a'', blob_size_bytes = 1,
        blob_storage_key = ''k'', blob_state = BLOB_VERIFIED, blob_content_type = ''t''\<rparr>,
      CreateJob ''1'' ''1'' ''ns'' ''key'' (PDict []) ''d'' [] [OUTPUT],
      StartAttempt ''1'' ''2'' ''job_1'' ''w'']"

definition demo_publish :: repo_op where
  "demo_publish = PublishSuccess ''3'' ''job_1'' ''attempt_1'' [demo_artifact ''x'' OUTPUT]"

lemma demo_hash:
  "\<exists>h. canonical_request_sha256 demo_env (PDict []) (Some ''d'') [] [OUTPUT] = Inr h \<and>
       (\<forall>n. require_sha256 (PStr h) n = Inr ())"
  by (simp add: require_sha256_ok canonical_request_sha256_def normalized_request_def is_mapping_def
      require_text_def strip_def is_space_def code_def)

lemmas demo_eval =
  repo_run_def demo_setup_def demo_publish_def demo_artifact_def empty_repo_def register_deployment_def
  register_worker_def register_blob_def require_deployment_def require_worker_def require_job_def
  require_blob_def lookup_or_def get_attempt_def create_job_def job_arguments_ok_def checks_Cons
  start_attempt_def new_JobRecord_def new_AttemptRecord_def require_text_def
  strip_def is_space_def code_def mk_id_def add_event_def new_JobEventRecord_def sorted_inputs_def
  sorted_kinds_def is_mapping_def attempts_of_def sop_defs publish_success_def active_attempt_def
  release_worker_def Let_def

lemma demo_running:
  "\<exists>s j att. repo_run demo_env demo_setup empty_repo = Some s \<and>
     is_active s ''job_1'' ''attempt_1'' j att \<and> attempt_worker_id att = ''w'' \<and>
     \<not> job_cancel_requested j \<and> job_required_kinds j = [OUTPUT] \<and> r_artifacts s = [] \<and>
     r_artifact_by_attempt_kind s = Map.empty \<and>
     (\<exists>b. r_blobs s ''b'' = Some b \<and> blob_state b = BLOB_VERIFIED)"
proof -
  obtain h where h: "canonical_request_sha256 demo_env (PDict []) (Some ''d'') [] [OUTPUT] = Inr h"
    and ok: "require_sha256 (PStr h) n = Inr ()" for n using demo_hash by blast
  show ?thesis by (simp add: demo_eval h ok is_active_def)
qed

lemma demo_succeeded:
  "\<exists>s j. repo_run demo_env (demo_setup @ [demo_publish]) empty_repo = Some s \<and>
     r_jobs s ''job_1'' = Some j \<and> job_state j = SUCCEEDED"
proof -
  obtain h where h: "canonical_request_sha256 demo_env (PDict []) (Some ''d'') [] [OUTPUT] = Inr h"
    and ok: "require_sha256 (PStr h) n = Inr ()" for n using demo_hash by blast
  show ?thesis by (simp add: demo_eval h ok)
qed

section \<open>Published jobs\<close>

text \<open>
  C1. Whatever operations have run, a SUCCEEDED job names a winning attempt of its own that has
  SUCCEEDED under the job's last lease epoch, and for every artifact kind the job requires the
  repository holds a READY artifact of that attempt whose blob is VERIFIED.
\<close>

theorem succeeded_job_complete:
  assumes "repo_run E ops empty_repo = Some s" and "r_jobs s i = Some j" and "job_state j = SUCCEEDED"
  shows "\<exists>a att. job_winning_attempt_id j = Some a \<and> r_attempts s a = Some att \<and>
           attempt_job_id att = i \<and> attempt_state att = ATT_SUCCEEDED \<and>
           attempt_lease_epoch att = job_lease_epoch j \<and>
           (\<forall>k \<in> set (job_required_kinds j). \<exists>x b. x \<in> snd ` set (r_artifacts s) \<and>
              artifact_job_id x = i \<and> artifact_attempt_id x = a \<and> artifact_kind x = k \<and>
              artifact_state x = ART_READY \<and> r_blobs s (artifact_blob_id x) = Some b \<and>
              blob_state b = BLOB_VERIFIED)"
  using repo_inv_job(3) [OF repo_run_inv [OF assms(1)] assms(2)] assms(3)
  by (auto simp: job_shape_def current_of_def winner_complete_def)

theorem succeeded_job_complete_witness:
  "\<exists>s j a. repo_run demo_env (demo_setup @ [demo_publish]) empty_repo = Some s \<and>
     r_jobs s ''job_1'' = Some j \<and> job_winning_attempt_id j = Some a"
  using demo_succeeded succeeded_job_complete by blast

text \<open>
  Whatever operations have run, two ACTIVE attempts that share their job or their worker
  are the same attempt.
\<close>

theorem active_attempts_exclusive:
  assumes run: "repo_run E ops empty_repo = Some s"
    and a: "r_attempts s a = Some att" "attempt_state att = ATT_ACTIVE"
    and b: "r_attempts s b = Some att'" "attempt_state att' = ATT_ACTIVE"
    and same: "attempt_job_id att = attempt_job_id att' \<or> attempt_worker_id att = attempt_worker_id att'"
  shows "a = b"
  using same
proof
  assume "attempt_job_id att = attempt_job_id att'"
  then show ?thesis
    using repo_inv_attempt [OF repo_run_inv [OF run] a(1)] repo_inv_attempt [OF repo_run_inv [OF run] b(1)]
      a(2) b(2) by (auto simp: attempt_good_def)
qed (rule repo_inv_worker_unique [OF repo_run_inv [OF run] a(1) b(1) a(2) b(2)])

theorem active_attempts_exclusive_witness:
  "\<exists>s. repo_run demo_env demo_setup empty_repo = Some s \<and>
     {b. \<exists>att. r_attempts s b = Some att \<and> attempt_state att = ATT_ACTIVE \<and> attempt_worker_id att = ''w''}
       = {''attempt_1''}"
proof -
  obtain s j att where s: "repo_run demo_env demo_setup empty_repo = Some s"
    and act: "is_active s ''job_1'' ''attempt_1'' j att" and w: "attempt_worker_id att = ''w''"
    using demo_running by blast
  have "b = ''attempt_1''"
    if "r_attempts s b = Some att'" "attempt_state att' = ATT_ACTIVE" "attempt_worker_id att' = ''w''" for b att'
    using active_attempts_exclusive [OF s that(1,2)] act w that(3) by (auto simp: is_active_def)
  then show ?thesis using s act w by (auto simp: is_active_def)
qed

section \<open>Finished jobs\<close>

text \<open>
  C2. A job that has SUCCEEDED, FAILED or been CANCELLED is the same record after every further
  run, an attempt that has ended likewise, artifacts are only added, and the event log only
  grows at its end.
\<close>

theorem finished_records_frozen:
  assumes "repo_run E ops empty_repo = Some s" and "repo_run E ops' s = Some t"
  shows "(\<forall>i j. r_jobs s i = Some j \<and> job_terminal (job_state j) \<longrightarrow> r_jobs t i = Some j) \<and>
    (\<forall>a att. r_attempts s a = Some att \<and> attempt_state att \<noteq> ATT_ACTIVE \<longrightarrow> r_attempts t a = Some att) \<and>
    prefix (r_artifacts s) (r_artifacts t) \<and> prefix (r_events s) (r_events t)"
proof -
  have "repo_le s t" by (rule repo_run_le [OF assms(2) repo_run_inv [OF assms(1)]])
  then show ?thesis
    unfolding repo_le_def grows_def job_le_def attempt_le_def by (intro conjI; metis)
qed

theorem finished_records_frozen_witness:
  "\<exists>s t j. repo_run demo_env (demo_setup @ [demo_publish]) empty_repo = Some s \<and>
     repo_run demo_env [RequestCancel ''4'' ''job_1'', RetryAttempt ''5'' ''job_1'' ''attempt_1''] s = Some t \<and>
     r_jobs t ''job_1'' = Some j \<and> job_state j = SUCCEEDED"
proof -
  obtain s j where s: "repo_run demo_env (demo_setup @ [demo_publish]) empty_repo = Some s"
    and j: "r_jobs s ''job_1'' = Some j" "job_state j = SUCCEEDED" using demo_succeeded by blast
  obtain t where t: "repo_run demo_env
      [RequestCancel ''4'' ''job_1'', RetryAttempt ''5'' ''job_1'' ''attempt_1''] s = Some t"
    by (simp add: repo_run_def)
  show ?thesis using finished_records_frozen [OF s t] s t j by (auto simp: job_terminal_def)
qed

section \<open>Stale attempts\<close>

lemma active_attempt_error:
  "(\<nexists>job att. is_active s j a job att) \<Longrightarrow> \<exists>e. active_attempt s j a = Inl e \<and> instance_of e DurableError"
  using active_attempt_eq [of s j a]
  by (cases "active_attempt s j a")
    (auto simp: active_attempt_def after_def raise_def require_job_def get_attempt_def lookup_or_def
      instance_of_def issubclass_def numeral_eq_Suc split: sum.splits option.splits if_splits)

text \<open>
  C3. An attempt that is not the RUNNING job's current one - because it was cancelled, requeued
  or replaced by a newer attempt, or never existed - can neither cancel, fail, requeue nor
  publish: each call raises a \<open>DurableError\<close> and changes nothing.
\<close>

theorem stale_attempt_rejected:
  assumes "\<forall>job. r_jobs s j = Some job \<longrightarrow> job_state job \<noteq> RUNNING \<or> job_current_attempt_id job \<noteq> Some a"
  shows "\<exists>e. instance_of e DurableError \<and> cancel_attempt E u j a s = (Inl e, s) \<and>
    fail_attempt E u j a s = (Inl e, s) \<and> retry_attempt E u j a s = (Inl e, s) \<and>
    publish_success E u j a xs s = (Inl e, s)"
proof -
  have "\<nexists>job att. is_active s j a job att" using assms by (auto simp: is_active_def)
  then obtain e where "active_attempt s j a = Inl e" "instance_of e DurableError"
    using active_attempt_error by blast
  then show ?thesis
    by (auto simp: cancel_attempt_def fail_attempt_def retry_attempt_def publish_success_def)
qed

theorem stale_attempt_rejected_witness:
  "\<exists>s e. repo_run demo_env (demo_setup @ [demo_publish]) empty_repo = Some s \<and>
     publish_success demo_env ''4'' ''job_1'' ''attempt_1'' [demo_artifact ''y'' MANIFEST] s = (Inl e, s)"
proof -
  obtain s j where s: "repo_run demo_env (demo_setup @ [demo_publish]) empty_repo = Some s"
    and j: "r_jobs s ''job_1'' = Some j" "job_state j = SUCCEEDED" using demo_succeeded by blast
  then have "\<forall>job. r_jobs s ''job_1'' = Some job \<longrightarrow>
      job_state job \<noteq> RUNNING \<or> job_current_attempt_id job \<noteq> Some ''attempt_1''" by simp
  from stale_attempt_rejected [OF this] s show ?thesis by blast
qed

section \<open>Idempotent creation\<close>

lemma create_job_indexed:
  assumes inv: "repo_inv s" and fresh: "mk_id ''job'' uj \<notin> dom (r_jobs s)"
    and created: "create_job E uj ue ns key req dep ins kinds s = (Inr job, s1)"
  shows "repo_inv s1" "r_job_by_idempotency s1 (ns, key) = Some (job_id job)"
    "r_jobs s1 (job_id job) = Some job"
proof -
  show "repo_inv s1"
    using create_job_inv [OF inv fresh, of E ue ns key req dep ins kinds] created by simp
  have "(s1 = s \<and> (\<exists>i. r_job_by_idempotency s (ns, key) = Some i \<and> r_jobs s i = Some job)) \<or>
      job_created E uj ns key req dep ins kinds s job s1"
    using wp_value [OF create_job_wp created] .
  then show "r_job_by_idempotency s1 (ns, key) = Some (job_id job)" "r_jobs s1 (job_id job) = Some job"
    using repo_inv_job(1) [OF inv] by (auto simp: job_created_def adds_event_def)
qed

text \<open>
  C4. Once a job has been created under a namespace and key, every later \<open>create_job\<close> with that
  key changes nothing: with the same request hash it returns that job as it is by then, with
  another one it raises \<open>IdempotencyConflictError\<close>.
\<close>

theorem create_job_idempotent:
  assumes run: "repo_run E ops empty_repo = Some s" and fresh: "mk_id ''job'' uj \<notin> dom (r_jobs s)"
    and created: "create_job E uj ue ns key req dep ins kinds s = (Inr job, s1)"
    and later: "repo_run E ops' s1 = Some t"
    and args: "job_arguments_ok ns key kinds' = Inr ()"
    and hash: "canonical_request_sha256 E req' (Some dep') (sorted_inputs ins') (sorted_kinds kinds') = Inr h"
  shows "if h = job_request_sha256 job
    then \<exists>job'. create_job E uj' ue' ns key req' dep' ins' kinds' t = (Inr job', t) \<and>
           job_id job' = job_id job \<and> r_jobs t (job_id job) = Some job'
    else create_job E uj' ue' ns key req' dep' ins' kinds' t =
           (raise IdempotencyConflictError ''idempotency key was already used for a different request'', t)"
proof -
  note made = create_job_indexed [OF repo_run_inv [OF run] fresh created]
  have le: "repo_le s1 t" by (rule repo_run_le [OF later made(1)])
  have idx: "r_job_by_idempotency t (ns, key) = Some (job_id job)"
    using le made(2) by (auto simp: repo_le_def grows_def)
  obtain job' where "r_jobs t (job_id job) = Some job'" "job_le job job'"
    using le made(3) by (auto simp: repo_le_def dest: growsD)
  then show ?thesis
    by (simp add: create_job_def args hash idx job_le_def fail_def ok_def)
qed

lemma demo_create:
  assumes "repo_run demo_env (take 3 demo_setup) empty_repo = Some s"
  shows "\<exists>job s1. create_job demo_env ''1'' ''1'' ''ns'' ''key'' (PDict []) ''d'' [] [OUTPUT] s = (Inr job, s1)"
proof -
  obtain h where h: "canonical_request_sha256 demo_env (PDict []) (Some ''d'') [] [OUTPUT] = Inr h"
    and ok: "require_sha256 (PStr h) n = Inr ()" for n using demo_hash by blast
  show ?thesis using assms by (auto simp: demo_eval h ok)
qed

theorem create_job_idempotent_witness:
  "\<exists>s job s1 job' t. create_job demo_env ''1'' ''1'' ''ns'' ''key'' (PDict []) ''d'' [] [OUTPUT] s = (Inr job, s1) \<and>
     repo_run demo_env [RequestCancel ''2'' ''job_1''] s1 = Some t \<and>
     create_job demo_env ''9'' ''9'' ''ns'' ''key'' (PDict []) ''d'' [] [OUTPUT] t = (Inr job', t) \<and>
     job_id job' = job_id job"
proof -
  obtain s where s: "repo_run demo_env (take 3 demo_setup) empty_repo = Some s" "r_jobs s = Map.empty"
    by (simp add: demo_eval)
  obtain job s1 where c: "create_job demo_env ''1'' ''1'' ''ns'' ''key'' (PDict []) ''d'' [] [OUTPUT] s = (Inr job, s1)"
    using demo_create [OF s(1)] by blast
  have "wp (\<lambda>_ _. True) (\<lambda>job _. job_created demo_env ''1'' ''ns'' ''key'' (PDict []) ''d'' [] [OUTPUT] s job s1)
     (create_job demo_env ''1'' ''1'' ''ns'' ''key'' (PDict []) ''d'' [] [OUTPUT] s)"
    using s(2) wp_value [OF create_job_wp c] by (auto simp: c wp_simps)
  then have "\<exists>h. canonical_request_sha256 demo_env (PDict []) (Some ''d'') (sorted_inputs []) (sorted_kinds [OUTPUT])
      = Inr h \<and> job_request_sha256 job = h"
    by (auto simp: c wp_simps job_created_def initial_job_def)
  then have h: "canonical_request_sha256 demo_env (PDict []) (Some ''d'') (sorted_inputs []) (sorted_kinds [OUTPUT])
      = Inr (job_request_sha256 job)" by blast
  obtain t where t: "repo_run demo_env [RequestCancel ''2'' ''job_1''] s1 = Some t"
    by (simp add: repo_run_def)
  have args: "job_arguments_ok ''ns'' ''key'' [OUTPUT] = Inr ()"
    by (simp add: job_arguments_ok_def checks_Cons strip_def is_space_def code_def)
  have "mk_id ''job'' ''1'' \<notin> dom (r_jobs s)" using s(2) by simp
  from create_job_idempotent [OF s(1) this c t args h, of "''9''" "''9''"] show ?thesis using c t by (auto split: if_splits) blast
qed

section \<open>Errors\<close>

text \<open>Whether an operation raises.\<close>

fun repo_raises :: "pyenv \<Rightarrow> repo_op \<Rightarrow> repo \<Rightarrow> bool" where
  "repo_raises E (RegisterDeployment d) s = (\<exists>e. fst (register_deployment d s) = Inl e)"
| "repo_raises E (RegisterWorker w) s = (\<exists>e. fst (register_worker w s) = Inl e)"
| "repo_raises E (RegisterBlob b) s = (\<exists>e. fst (register_blob b s) = Inl e)"
| "repo_raises E (CreateAsset a) s = (\<exists>e. fst (create_asset a s) = Inl e)"
| "repo_raises E (CreateJob uj ue ns key req dep ins kinds) s =
     (\<exists>e. fst (create_job E uj ue ns key req dep ins kinds s) = Inl e)"
| "repo_raises E (StartAttempt ua ue j w) s = (\<exists>e. fst (start_attempt E ua ue j w s) = Inl e)"
| "repo_raises E (RequestCancel ue j) s = (\<exists>e. fst (request_cancel E ue j s) = Inl e)"
| "repo_raises E (CancelAttempt ue j a) s = (\<exists>e. fst (cancel_attempt E ue j a s) = Inl e)"
| "repo_raises E (FailAttempt ue j a) s = (\<exists>e. fst (fail_attempt E ue j a s) = Inl e)"
| "repo_raises E (RetryAttempt ue j a) s = (\<exists>e. fst (retry_attempt E ue j a s) = Inl e)"
| "repo_raises E (PublishSuccess ue j a xs) s = (\<exists>e. fst (publish_success E ue j a xs s) = Inl e)"

lemma wp_raises: "wp X V p \<Longrightarrow> (\<And>e t. X e t \<Longrightarrow> t = s) \<Longrightarrow> \<exists>e. fst p = Inl e \<Longrightarrow> snd p = s"
  by (cases p) (auto simp: wp_def)

lemma registrations_wp:
  "wp (\<lambda>_ t. t = s) (\<lambda>_ _. True) (register_deployment d s)"
  "wp (\<lambda>_ t. t = s) (\<lambda>_ _. True) (register_worker w s)"
  "wp (\<lambda>_ t. t = s) (\<lambda>_ _. True) (register_blob b s)"
  "wp (\<lambda>_ t. t = s) (\<lambda>_ _. True) (create_asset a s)"
  by (simp_all add: register_deployment_def register_worker_def register_blob_def create_asset_def
      wp_simps)

text \<open>
  C5. In every reachable repository an operation that raises has changed nothing; publication
  is the exception: it may have stored a proper prefix of the proposed artifacts, when the next
  one's identifier is already in use.
\<close>

theorem raising_operation_keeps_state:
  assumes run: "repo_run E ops empty_repo = Some s" and raises: "repo_raises E x s"
  shows "repo_step E x s = s \<or>
    (\<exists>u j a ys y zs. x = PublishSuccess u j a (ys @ y # zs) \<and> ys \<noteq> [] \<and> repo_step E x s = stored a ys s \<and>
       (artifact_id y \<in> artifact_id ` set ys \<or> artifact_id y \<in> fst ` set (r_artifacts s)))"
  using raises
proof (cases x)
  case (PublishSuccess u j a xs)
  have "snd (publish_success E u j a xs s) = s \<or> publication_interrupted j a xs s (snd (publish_success E u j a xs s))"
    using publish_success_wp [OF repo_run_inv [OF run], of j a xs E u] raises
    by (cases "publish_success E u j a xs s") (auto simp: wp_def PublishSuccess)
  then show ?thesis
  proof
    assume "publication_interrupted j a xs s (snd (publish_success E u j a xs s))"
    then obtain ys y zs where xs: "xs = ys @ y # zs" "new_artifact_ids ys s" "\<not> new_artifact_ids (ys @ [y]) s"
      and t: "repo_step E x s = stored a ys s"
      unfolding publication_interrupted_def PublishSuccess repo_step.simps by blast
    have "artifact_id y \<in> artifact_id ` set ys \<or> artifact_id y \<in> fst ` set (r_artifacts s)"
      using xs(2,3) unfolding new_artifact_ids_def by auto
    then show ?thesis using t xs(1) PublishSuccess by (cases "ys = []") (simp, blast)
  qed (simp add: PublishSuccess)
qed (auto intro!: disjI1 wp_raises [OF registrations_wp(1)] wp_raises [OF registrations_wp(2)]
    wp_raises [OF registrations_wp(3)] wp_raises [OF registrations_wp(4)] wp_raises [OF create_job_wp]
    wp_raises [OF start_attempt_wp [OF repo_run_inv [OF run]]]
    wp_raises [OF request_cancel_wp [OF repo_run_inv [OF run]]]
    wp_raises [OF cancel_attempt_wp [OF repo_run_inv [OF run]]]
    wp_raises [OF fail_attempt_wp [OF repo_run_inv [OF run]]]
    wp_raises [OF retry_attempt_wp [OF repo_run_inv [OF run]]])

theorem raising_operation_keeps_state_witness:
  "\<exists>s. repo_run demo_env (demo_setup @ [demo_publish]) empty_repo = Some s \<and>
     repo_step demo_env (FailAttempt ''4'' ''job_1'' ''attempt_1'') s = s"
proof -
  obtain s j where s: "repo_run demo_env (demo_setup @ [demo_publish]) empty_repo = Some s"
    and j: "r_jobs s ''job_1'' = Some j" "job_state j = SUCCEEDED" using demo_succeeded by blast
  have "\<nexists>job att. is_active s ''job_1'' ''attempt_1'' job att" using j by (simp add: is_active_def)
  then obtain e where "active_attempt s ''job_1'' ''attempt_1'' = Inl e" using active_attempt_error by blast
  then have "repo_raises demo_env (FailAttempt ''4'' ''job_1'' ''attempt_1'') s"
    by (simp add: fail_attempt_def)
  from raising_operation_keeps_state [OF s this] s show ?thesis by auto
qed

text \<open>
  The exception of C6 is a defect. When two proposed artifacts of different kinds carry the
  same unused identifier, \<open>publish_success\<close> raises after it has stored the first; the attempt is
  still the active one, but the kind it has stored is taken, so that every later publication of
  the attempt that contains it is refused.
\<close>

theorem interrupted_publication_blocks_attempt:
  assumes act: "is_active s j a job att" and nc: "\<not> job_cancel_requested job"
    and pub: "publishable s j a [x, y]" and same: "artifact_id x = artifact_id y"
    and fresh: "artifact_id x \<notin> fst ` set (r_artifacts s)"
    and req: "set (job_required_kinds job) \<subseteq> {artifact_kind x, artifact_kind y}"
  shows "publish_success E u j a [x, y] s =
      (raise DurableInvariantError ''artifact id already exists'', stored a [x] s) \<and>
    is_active (stored a [x] s) j a job att \<and>
    (\<forall>xs v. artifact_kind x \<in> artifact_kind ` set xs \<longrightarrow>
       (\<exists>e. publish_success E v j a xs (stored a [x] s) = (Inl e, stored a [x] s)))"
proof (intro conjI allI impI)
  have "active_attempt s j a = Inr (job, att)" using act by (simp add: active_attempt_eq)
  moreover have "check_artifacts s j a [] [x, y] = Inr [artifact_kind y, artifact_kind x]"
    using pub by (simp add: check_artifacts_ok del: check_artifacts.simps)
  ultimately show "publish_success E u j a [x, y] s =
      (raise DurableInvariantError ''artifact id already exists'', stored a [x] s)"
    using nc same fresh req by (auto simp: publish_success_def sbind_def fail_def raise_def)
  show "is_active (stored a [x] s) j a job att" using act by (simp only: stored_is_active)
  fix xs :: "artifact_record list" and v
  assume k: "artifact_kind x \<in> artifact_kind ` set xs"
  have act': "active_attempt (stored a [x] s) j a = Inr (job, att)"
    using act by (simp only: active_attempt_eq stored_is_active)
  have "\<not> publishable (stored a [x] s) j a xs" using k by (auto simp: publishable_def)
  then have "\<nexists>ks. check_artifacts (stored a [x] s) j a [] xs = Inr ks" by (simp add: check_artifacts_ok)
  then obtain e where "check_artifacts (stored a [x] s) j a [] xs = Inl e"
    by (cases "check_artifacts (stored a [x] s) j a [] xs") auto
  then show "\<exists>e. publish_success E v j a xs (stored a [x] s) = (Inl e, stored a [x] s)"
    using nc k by (auto simp: publish_success_def act' fail_def raise_def simp del: stored.simps)
qed

theorem interrupted_publication_blocks_attempt_witness:
  "\<exists>s e t. repo_run demo_env demo_setup empty_repo = Some s \<and>
     fst (publish_success demo_env ''3'' ''job_1'' ''attempt_1''
            [demo_artifact ''x'' OUTPUT, demo_artifact ''x'' MANIFEST] s) = raise DurableInvariantError ''artifact id already exists'' \<and>
     t = stored ''attempt_1'' [demo_artifact ''x'' OUTPUT] s \<and>
     publish_success demo_env ''4'' ''job_1'' ''attempt_1'' [demo_artifact ''z'' OUTPUT] t = (Inl e, t)"
proof -
  obtain s j att b where s: "repo_run demo_env demo_setup empty_repo = Some s"
    and act: "is_active s ''job_1'' ''attempt_1'' j att" and nc: "\<not> job_cancel_requested j"
    and facts: "job_required_kinds j = [OUTPUT]" "r_artifacts s = []"
      "r_artifact_by_attempt_kind s = Map.empty" "r_blobs s ''b'' = Some b" "blob_state b = BLOB_VERIFIED"
    using demo_running by blast
  have "publishable s ''job_1'' ''attempt_1'' [demo_artifact ''x'' OUTPUT, demo_artifact ''x'' MANIFEST]"
    using facts by (simp add: publishable_def demo_artifact_def)
  from interrupted_publication_blocks_attempt [OF act nc this, of demo_env "''3''"]
  have "fst (publish_success demo_env ''3'' ''job_1'' ''attempt_1''
          [demo_artifact ''x'' OUTPUT, demo_artifact ''x'' MANIFEST] s)
        = raise DurableInvariantError ''artifact id already exists''"
    and "\<exists>e. publish_success demo_env ''4'' ''job_1'' ''attempt_1'' [demo_artifact ''z'' OUTPUT]
          (stored ''attempt_1'' [demo_artifact ''x'' OUTPUT] s)
        = (Inl e, stored ''attempt_1'' [demo_artifact ''x'' OUTPUT] s)"
    using facts(1,2) by (simp_all add: demo_artifact_def)
  then show ?thesis using s by blast
qed

text \<open>
  A cancellation request on a RUNNING job does not survive a requeue: the job is QUEUED again
  with the request still set, every attempt to start it raises \<open>StateTransitionError\<close>, and it
  stays QUEUED until it is cancelled a second time.
\<close>

theorem requeued_cancelled_job_cannot_start:
  assumes inv: "repo_run E ops empty_repo = Some s" and act: "is_active s j a job att"
    and cancel: "job_cancel_requested job"
  shows "\<exists>job' t. retry_attempt E u j a s = (Inr job', t) \<and> job_state job' = QUEUED \<and>
      job_cancel_requested job' \<and> r_jobs t j = Some job' \<and>
      (\<forall>ua ue w. \<exists>e. start_attempt E ua ue j w t = (Inl e, t))"
proof -
  have "\<exists>job' t. retry_attempt E u j a s = (Inr job', t) \<and>
      attempt_settled ATT_FAILED_RETRYABLE ATTEMPT_REQUEUED
        (\<lambda>job. job\<lparr>job_state := QUEUED, job_current_attempt_id := None\<rparr>) j a s job' t"
    using retry_attempt_wp [OF repo_run_inv [OF inv], of j a E u] act
    by (cases "retry_attempt E u j a s") (auto simp: wp_def split: sum.splits)
  then obtain job' t where r: "retry_attempt E u j a s = (Inr job', t)"
    and "job' = job\<lparr>job_state := QUEUED, job_current_attempt_id := None\<rparr>" and j: "r_jobs t j = Some job'"
    using act by (auto simp: attempt_settled_def is_active_def adds_event_def settle_def)
  moreover from this have "\<exists>e. start_attempt E ua ue j w t = (Inl e, t)" for ua ue w
    using cancel by (cases "r_workers t w")
      (auto simp: start_attempt_def require_job_def require_worker_def lookup_or_def fail_def raise_def)
  ultimately show ?thesis using cancel by auto
qed

lemma demo_cancelling:
  "\<exists>s j att. repo_run demo_env (demo_setup @ [RequestCancel ''3'' ''job_1'']) empty_repo = Some s \<and>
     is_active s ''job_1'' ''attempt_1'' j att \<and> job_cancel_requested j"
proof -
  obtain h where h: "canonical_request_sha256 demo_env (PDict []) (Some ''d'') [] [OUTPUT] = Inr h"
    and ok: "require_sha256 (PStr h) n = Inr ()" for n using demo_hash by blast
  show ?thesis by (simp add: demo_eval request_cancel_def h ok is_active_def)
qed

theorem requeued_cancelled_job_cannot_start_witness:
  "\<exists>s job' t e. repo_run demo_env (demo_setup @ [RequestCancel ''3'' ''job_1'']) empty_repo = Some s \<and>
     retry_attempt demo_env ''4'' ''job_1'' ''attempt_1'' s = (Inr job', t) \<and> job_state job' = QUEUED \<and>
     start_attempt demo_env ''5'' ''6'' ''job_1'' ''w'' t = (Inl e, t)"
proof -
  obtain s j att where s: "repo_run demo_env (demo_setup @ [RequestCancel ''3'' ''job_1'']) empty_repo = Some s"
    and act: "is_active s ''job_1'' ''attempt_1'' j att" "job_cancel_requested j" using demo_cancelling by blast
  from requeued_cancelled_job_cannot_start [OF s act, of "''4''"] s show ?thesis by blast
qed

end
