(* ===== verification/DomainProps.thy ===== *)
theory DomainProps
  imports Domain
begin

text \<open>
  Properties of the durable value objects: the request hash does not depend on the order in
  which inputs, kinds and mapping items are given, freezing is idempotent, and the digest check
  of the constructors lets more than hexadecimal digests through.
\<close>

lemma canonical_json_items_eq:
  "distinct (map fst (acc @ items)) \<Longrightarrow>
   canonical_json_items items acc = Inr r \<longleftrightarrow>
     (\<forall>(k, v) \<in> set items. is_str k \<and> (\<exists>w. canonical_json_value v = Inr w)) \<and>
     r = acc @ map (\<lambda>(k, v). (k, projr (canonical_json_value v))) items"
proof (induction items arbitrary: acc r)
  case Nil
  then show ?case by auto
next
  case (Cons kv items)
  obtain k v where kv: "kv = (k, v)" by (cases kv)
  show ?case
  proof (cases "\<exists>s w. k = PStr s \<and> canonical_json_value v = Inr w")
    case True
    then obtain s w where k: "k = PStr s" and w: "canonical_json_value v = Inr w" by blast
    have new: "k \<notin> fst ` set acc" using Cons.prems kv by auto
    show ?thesis
      using Cons.IH [of "acc @ [(k, w)]" r] Cons.prems new
      by (simp add: kv k w AList_update_new)
  next
    case False
    then show ?thesis by (cases k) (auto simp: kv after_eq_Inr)
  qed
qed

text \<open>
  C6. Two requests whose mappings hold the same items, and whose inputs and required kinds are
  the same up to order, have the same hash: a replay that reorders them is the same request.
\<close>

theorem request_hash_order_insensitive:
  assumes items: "mset items = mset items'" "distinct (map fst items)"
    and ins: "mset ins = mset ins'" "distinct (map input_role ins)"
    and kinds: "mset kinds = mset kinds'"
    and hash: "canonical_request_sha256 E (PDict items) (Some d) ins kinds = Inr h"
  shows "canonical_request_sha256 E (PDict items') (Some d) ins' kinds' = Inr h"
proof -
  let ?f = "\<lambda>(k, v). (k, projr (canonical_json_value v))"
  have dist': "distinct (map fst items')"
    using items by (metis mset_eq_imp_distinct_iff mset_map)
  have set': "set items' = set items" using items(1) by (metis set_mset_mset)
  obtain r where r: "canonical_json_items items [] = Inr r"
    using hash by (auto simp: canonical_request_sha256_def normalized_request_def is_mapping_def after_eq_Inr)
  then have good: "\<forall>(k, v) \<in> set items. is_str k \<and> (\<exists>w. canonical_json_value v = Inr w)"
    and r_eq: "r = map ?f items"
    using canonical_json_items_eq [of "[]" items r] items(2) by auto
  then have r': "canonical_json_items items' [] = Inr (map ?f items')"
    using canonical_json_items_eq [of "[]" items'] dist' set' by auto
  have "distinct (map (key_text \<circ> fst) r)"
  proof -
    have "inj_on key_text (fst ` set items)"
    proof (rule inj_onI)
      fix k k' assume "k \<in> fst ` set items" "k' \<in> fst ` set items" "key_text k = key_text k'"
      moreover from this(1,2) good have "is_str k" "is_str k'" by auto
      ultimately show "k = k'" by (auto simp: key_text_def elim!: is_str.elims)
    qed
    then have "distinct (map key_text (map fst items))"
      using items(2) by (simp add: distinct_map comp_inj_on)
    moreover have "map (key_text \<circ> fst) r = map key_text (map fst items)"
      by (simp add: r_eq split_beta comp_def)
    ultimately show ?thesis by simp
  qed
  then have dumps: "json_dumps E (PDict (map ?f items')) = json_dumps E (PDict r)"
    using items(1) by (intro json_dumps_perm [symmetric]) (simp_all add: r_eq)
  have "sorted_inputs ins = sorted_inputs ins'" by (rule sorted_inputs_perm [OF ins])
  moreover have "sort (map artifact_kind_value kinds) = sort (map artifact_kind_value kinds')"
    using kinds by (metis mset_map properties_for_sort mset_sort sorted_sort)
  ultimately show ?thesis
    using hash dumps r r'
    by (simp add: canonical_request_sha256_def normalized_request_def is_mapping_def after_eq_Inr)
qed

theorem request_hash_order_insensitive_witness:
  "\<exists>h. canonical_request_sha256 \<lparr>float_repr = (\<lambda>_. ''0.5''), str_of = (\<lambda>_. [])\<rparr>
        (PDict [(PStr ''b'', PInt 2), (PStr ''a'', PInt 1)]) (Some ''d'')
        [\<lparr>input_role = ''y'', input_asset_id = ''2''\<rparr>, \<lparr>input_role = ''x'', input_asset_id = ''1''\<rparr>]
        [MANIFEST, OUTPUT] = Inr h"
proof -
  let ?E = "\<lparr>float_repr = (\<lambda>_. ''0.5''), str_of = (\<lambda>_. [])\<rparr>"
  let ?i = "\<lparr>input_role = ''x'', input_asset_id = ''1''\<rparr>" and ?j = "\<lparr>input_role = ''y'', input_asset_id = ''2''\<rparr>"
  obtain h where "canonical_request_sha256 ?E (PDict [(PStr ''a'', PInt 1), (PStr ''b'', PInt 2)]) (Some ''d'')
      [?i, ?j] [OUTPUT, MANIFEST] = Inr h"
    by (simp add: canonical_request_sha256_def normalized_request_def is_mapping_def
        require_text_def strip_def is_space_def code_def)
  from request_hash_order_insensitive [OF _ _ _ _ _ this, where items' = "[(PStr ''b'', PInt 2), (PStr ''a'', PInt 1)]"
      and ins' = "[?j, ?i]" and kinds' = "[MANIFEST, OUTPUT]"]
  have "canonical_request_sha256 ?E (PDict [(PStr ''b'', PInt 2), (PStr ''a'', PInt 1)]) (Some ''d'') [?j, ?i]
      [MANIFEST, OUTPUT] = Inr h"
    by (simp add: add_mset_commute)
  then show ?thesis by blast
qed

text \<open>
  Freezing is idempotent: a frozen record passed through its constructor again (as
  \<open>dataclasses.replace\<close> does) keeps its request, manifest, metadata and payload, and what it
  holds contains no mutable list or set and only string keys, each once.
\<close>

theorem freeze_idempotent: "freeze E (freeze E v) = freeze E v \<and> frozen (freeze E v)"
  using freeze_frozen_all(1) [OF frozen_freeze_all(1)] frozen_freeze_all(1) by simp

text \<open>
  Every digest the program computes passes the constructors' check, but so do texts that
  are no hexadecimal digest: \<open>int(value, 16)\<close> also reads a \<open>0x\<close> prefix, underscores between
  digits, a sign and surrounding white space.
\<close>

theorem sha256_check_accepts_non_digests:
  "require_sha256 (PStr (sha256_hex m)) n = Inr () \<and>
   require_sha256 (PStr (''0x'' @ replicate 62 CHR ''a'')) n = Inr () \<and>
   require_sha256 (PStr (''+'' @ replicate 63 CHR ''a'')) n = Inr () \<and>
   require_sha256 (PStr (''a_'' @ replicate 62 CHR ''a'')) n = Inr () \<and>
   require_sha256 (PStr ('' '' @ replicate 62 CHR ''a'' @ [CHR 0x0A])) n = Inr ()"
  by (simp add: require_sha256_ok) (intro conjI; code_simp)

text \<open>A replaced \<open>JobRecord\<close> passes the checks it has passed before.\<close>

lemma replace_job_ok:
  assumes "new_JobRecord E j = Inr r" and "0 \<le> e"
  shows "new_JobRecord E (r\<lparr>job_state := st, job_current_attempt_id := c, job_winning_attempt_id := w,
      job_cancel_requested := b, job_lease_epoch := e\<rparr>) =
    Inr (r\<lparr>job_state := st, job_current_attempt_id := c, job_winning_attempt_id := w,
      job_cancel_requested := b, job_lease_epoch := e\<rparr>)"
proof -
  have "is_mapping (freeze E (job_request j))"
    using assms(1) by (cases "job_request j") (auto simp: new_JobRecord_eq is_mapping_def)
  then show ?thesis
    using assms freeze_frozen_all(1) [OF frozen_freeze_all(1)] by (auto simp: new_JobRecord_eq)
qed

end
