(* ===== verification/RuntimeValues.thy ===== *)
theory RuntimeValues
  imports Json
begin

text \<open>
  The value objects of the runtime core (\<open>nano_aural_runtime/models.py\<close>): descriptors,
  deployments, invocations, artifacts, reports and results with the checks of their
  \<open>__post_init__\<close>, and the cancellation token. \<open>_freeze\<close> and \<open>_non_empty\<close> are the functions
  \<open>freeze\<close> and \<open>require_text\<close> of the durable domain, which the module repeats.
\<close>

section \<open>Descriptors, deployments, invocations\<close>

record model_descriptor =
  md_adapter_id :: string
  md_model_id :: string
  md_version :: string
  md_capabilities :: pyval

definition new_ModelDescriptor ::
  "pyenv \<Rightarrow> pyval \<Rightarrow> pyval \<Rightarrow> pyval \<Rightarrow> pyval \<Rightarrow> model_descriptor res"
where
  "new_ModelDescriptor E a m v c =
     after (checks [require_text a ''adapter_id'', require_text m ''model_id'', require_text v ''version''])
       (\<lambda>_. Inr \<lparr>md_adapter_id = pystr E a, md_model_id = pystr E m, md_version = pystr E v,
                  md_capabilities = freeze E c\<rparr>)"

record model_deployment =
  dpl_id :: string
  dpl_descriptor :: model_descriptor
  dpl_fingerprint :: string
  dpl_configuration :: pyval

definition new_ModelDeployment ::
  "pyenv \<Rightarrow> pyval \<Rightarrow> model_descriptor \<Rightarrow> pyval \<Rightarrow> pyval \<Rightarrow> model_deployment res"
where
  "new_ModelDeployment E i d f c =
     after (checks [require_text i ''deployment_id'', require_text f ''fingerprint''])
       (\<lambda>_. Inr \<lparr>dpl_id = pystr E i, dpl_descriptor = d, dpl_fingerprint = pystr E f,
                  dpl_configuration = freeze E c\<rparr>)"

record model_invocation =
  inv_id :: string
  inv_operation :: string
  inv_inputs :: pyval
  inv_metadata :: pyval

definition new_ModelInvocation :: "pyenv \<Rightarrow> pyval \<Rightarrow> pyval \<Rightarrow> pyval \<Rightarrow> pyval \<Rightarrow> model_invocation res" where
  "new_ModelInvocation E i p ins m =
     after (checks [require_text i ''invocation_id'', require_text p ''operation''])
       (\<lambda>_. Inr \<lparr>inv_id = pystr E i, inv_operation = pystr E p, inv_inputs = freeze E ins,
                  inv_metadata = freeze E m\<rparr>)"

section \<open>Artifacts, reports, results\<close>

record produced_artifact =
  pa_name :: string
  pa_media_type :: string
  pa_content :: string
  pa_metadata :: pyval

definition new_ProducedArtifact :: "pyenv \<Rightarrow> pyval \<Rightarrow> pyval \<Rightarrow> pyval \<Rightarrow> pyval \<Rightarrow> produced_artifact res" where
  "new_ProducedArtifact E n t c m =
     after (checks [require_text n ''name'', require_text t ''media_type'',
                    (case c of PBytes _ \<Rightarrow> Inr () | _ \<Rightarrow> raise TypeError ''content must be bytes'')])
       (\<lambda>_. Inr \<lparr>pa_name = pystr E n, pa_media_type = pystr E t,
                  pa_content = (case c of PBytes b \<Rightarrow> b | _ \<Rightarrow> []), pa_metadata = freeze E m\<rparr>)"

definition numeric :: "pyval \<Rightarrow> bool" where
  "numeric v = (case v of PInt _ \<Rightarrow> True | PFloat _ \<Rightarrow> True | _ \<Rightarrow> False)"

record profile_report =
  prof_metrics :: pyval
  prof_metadata :: pyval

fun check_metrics :: "(pyval \<times> pyval) list \<Rightarrow> unit res" where
  "check_metrics [] = Inr ()"
| "check_metrics ((n, v) # items) =
     after (require_text n ''profile metric name'') (\<lambda>_.
     after (require (numeric v) TypeError ''profile metrics must be numeric'') (\<lambda>_.
       check_metrics items))"

definition new_ProfileReport :: "pyenv \<Rightarrow> (pyval \<times> pyval) list \<Rightarrow> pyval \<Rightarrow> profile_report res" where
  "new_ProfileReport E metrics m =
     after (check_metrics metrics)
       (\<lambda>_. Inr \<lparr>prof_metrics = freeze E (PDict metrics), prof_metadata = freeze E m\<rparr>)"

record cache_report =
  cr_hits :: int
  cr_misses :: int
  cr_bytes_used :: int
  cr_metadata :: pyval

definition counter_ok :: "pyval \<Rightarrow> string \<Rightarrow> unit res" where
  "counter_ok v name =
     require (case v of PInt n \<Rightarrow> 0 \<le> n | _ \<Rightarrow> False) ValueError (name @ '' must be a non-negative integer'')"

definition new_CacheReport :: "pyenv \<Rightarrow> pyval \<Rightarrow> pyval \<Rightarrow> pyval \<Rightarrow> pyval \<Rightarrow> cache_report res" where
  "new_CacheReport E h m b meta =
     after (checks [counter_ok h ''hits'', counter_ok m ''misses'', counter_ok b ''bytes_used''])
       (\<lambda>_. Inr \<lparr>cr_hits = the (as_int h), cr_misses = the (as_int m), cr_bytes_used = the (as_int b),
                  cr_metadata = freeze E meta\<rparr>)"

record invocation_result =
  res_invocation_id :: string
  res_artifacts :: "produced_artifact list"
  res_metadata :: pyval
  res_warnings :: "string list"
  res_profile :: profile_report
  res_cache :: cache_report

definition all_strings :: "pyval list \<Rightarrow> bool" where
  "all_strings ws = list_all (\<lambda>w. case w of PStr _ \<Rightarrow> True | _ \<Rightarrow> False) ws"

definition new_InvocationResult ::
  "pyenv \<Rightarrow> pyval \<Rightarrow> produced_artifact list \<Rightarrow> pyval \<Rightarrow> pyval list \<Rightarrow> profile_report \<Rightarrow> cache_report
     \<Rightarrow> invocation_result res"
where
  "new_InvocationResult E i arts m ws p c =
     after (checks [require_text i ''invocation_id'',
                    require (all_strings ws) TypeError ''warnings must contain strings''])
       (\<lambda>_. Inr \<lparr>res_invocation_id = pystr E i, res_artifacts = arts, res_metadata = freeze E m,
                  res_warnings = map (pystr E) ws, res_profile = p, res_cache = c\<rparr>)"

section \<open>Cancellation\<close>

record cancellation_token =
  tok_set :: bool
  tok_reason :: "string option"

definition new_CancellationToken :: cancellation_token where
  "new_CancellationToken = \<lparr>tok_set = False, tok_reason = None\<rparr>"

definition cancel :: "string option \<Rightarrow> cancellation_token \<Rightarrow> bool \<times> cancellation_token" where
  "cancel reason k = (if tok_set k then (False, k) else (True, \<lparr>tok_set = True, tok_reason = reason\<rparr>))"

definition is_cancelled :: "cancellation_token \<Rightarrow> bool" where
  "is_cancelled k = tok_set k"

definition raise_if_cancelled :: "cancellation_token \<Rightarrow> unit res" where
  "raise_if_cancelled k =
     (if is_cancelled k
      then raise InvocationCancelledError
        (case tok_reason k of
           None \<Rightarrow> ''invocation cancelled''
         | Some r \<Rightarrow> if r = [] then ''invocation cancelled'' else ''invocation cancelled: '' @ r)
      else Inr ())"

record execution_context =
  ctx_request_id :: "string option"
  ctx_token :: cancellation_token
  ctx_metadata :: pyval

definition new_ExecutionContext ::
  "pyenv \<Rightarrow> pyval option \<Rightarrow> cancellation_token \<Rightarrow> pyval \<Rightarrow> execution_context res"
where
  "new_ExecutionContext E r k m =
     after (case r of None \<Rightarrow> Inr () | Some v \<Rightarrow> require_text v ''request_id'')
       (\<lambda>_. Inr \<lparr>ctx_request_id = map_option (pystr E) r, ctx_token = k, ctx_metadata = freeze E m\<rparr>)"

section \<open>Facts\<close>

text \<open>A token is cancelled once: the first reason stays, later calls return \<open>False\<close>.\<close>

lemma cancel_once: "cancel r (snd (cancel q k)) = (False, snd (cancel q k))"
  by (simp add: cancel_def)

lemma raise_if_cancelled_ok: "raise_if_cancelled k = Inr () \<longleftrightarrow> \<not> is_cancelled k"
  by (simp add: raise_if_cancelled_def)

lemma raise_if_cancelled_class:
  "raise_if_cancelled k = Inl e \<Longrightarrow> exc_class_of e = InvocationCancelledError \<and> is_cancelled k"
  by (auto simp: raise_if_cancelled_def raise_def split: option.splits if_splits)

lemma raise_if_cancelled_cases:
  obtains "raise_if_cancelled k = Inr ()" "\<not> is_cancelled k"
  | e where "raise_if_cancelled k = Inl e" "is_cancelled k" "exc_class_of e = InvocationCancelledError"
  using raise_if_cancelled_class [of k] by (cases "raise_if_cancelled k") (auto simp: raise_if_cancelled_ok)

lemma counter_ok_eq: "counter_ok v n = Inr () \<longleftrightarrow> (\<exists>k. v = PInt k \<and> 0 \<le> k)"
  by (simp add: counter_ok_def split: pyval.splits)

end
