(* ===== verification/RuntimeCore.thy ===== *)
theory RuntimeCore
  imports RuntimeValues
begin

text \<open>
  The runtime core: \<open>session.py\<close> (the lifecycle of one model session), \<open>adapters.py\<close> (the
  registry and the two test adapters) and \<open>runtime.py\<close> (load, invoke, unload). An adapter is
  code outside the core: what its methods do is an argument of the operations that call it,
  an \<open>adapter_outcome\<close>. \<open>ModelSession._acquire_invocation\<close> waits for a lock; its waiting is the
  step relation of \<open>RuntimeThreads\<close>, the definitions here are the code before and after it.
\<close>

section \<open>Adapters and their registry\<close>

record adapter =
  ad_object :: string
  ad_implements :: bool
  ad_descriptor :: "model_descriptor option"

type_synonym registry = "(string \<times> adapter) list"

text \<open>
  \<open>ad_implements\<close> is the \<open>isinstance\<close> test against the protocol, \<open>ad_descriptor\<close> is \<open>None\<close> when
  the attribute is no \<open>ModelDescriptor\<close>.
\<close>

definition register_adapter :: "adapter \<Rightarrow> bool \<Rightarrow> (registry, unit) sop" where
  "register_adapter a replacing s =
     (if \<not> ad_implements a
      then fail AdapterRegistrationError ''adapter does not implement AudioModelAdapter'' s
      else case ad_descriptor a of
        None \<Rightarrow> fail AdapterRegistrationError ''adapter descriptor must be a ModelDescriptor'' s
      | Some d \<Rightarrow>
          if md_adapter_id d \<in> fst ` set s \<and> \<not> replacing
          then fail AdapterRegistrationError (''adapter id is already registered: '' @ md_adapter_id d) s
          else ok () (AList.update (md_adapter_id d) a s))"

definition registry_get :: "registry \<Rightarrow> string \<Rightarrow> adapter res" where
  "registry_get s i =
     (case map_of s i of
        None \<Rightarrow> raise AdapterNotFoundError (''no adapter registered: '' @ i)
      | Some a \<Rightarrow> Inr a)"

definition registered_adapter_ids :: "registry \<Rightarrow> string list" where
  "registered_adapter_ids s = sort (map fst s)"

section \<open>Sessions\<close>

datatype session_state = S_UNLOADED | S_LOADING | S_READY | S_RUNNING | S_FAILED | S_UNLOADING

fun session_state_value :: "session_state \<Rightarrow> string" where
  "session_state_value S_UNLOADED = ''unloaded''"
| "session_state_value S_LOADING = ''loading''"
| "session_state_value S_READY = ''ready''"
| "session_state_value S_RUNNING = ''running''"
| "session_state_value S_FAILED = ''failed''"
| "session_state_value S_UNLOADING = ''unloading''"

text \<open>\<open>ses_runtime\<close> is the identity of the runtime the session is bound to.\<close>

record session =
  ses_id :: string
  ses_deployment :: model_deployment
  ses_state :: session_state
  ses_runtime :: "string option"
  ses_adapter :: "adapter option"
  ses_locked :: bool

definition new_ModelSession :: "string \<Rightarrow> model_deployment \<Rightarrow> session" where
  "new_ModelSession u d =
     \<lparr>ses_id = u, ses_deployment = d, ses_state = S_UNLOADED, ses_runtime = None,
      ses_adapter = None, ses_locked = False\<rparr>"

definition bind_session :: "string \<Rightarrow> adapter \<Rightarrow> (session, unit) sop" where
  "bind_session rt a s =
     (if ses_runtime s \<noteq> None then fail SessionStateError ''session is already bound to a runtime'' s
      else ok () (s\<lparr>ses_runtime := Some rt, ses_adapter := Some a\<rparr>))"

definition require_runtime :: "string \<Rightarrow> session \<Rightarrow> adapter res" where
  "require_runtime rt s =
     (case ses_adapter s of
        None \<Rightarrow> raise SessionStateError ''session does not belong to this runtime''
      | Some a \<Rightarrow>
          if ses_runtime s \<noteq> Some rt
          then raise SessionStateError ''session does not belong to this runtime''
          else Inr a)"

definition transition :: "session_state list \<Rightarrow> session_state \<Rightarrow> (session, unit) sop" where
  "transition expected target s =
     (if ses_state s \<notin> set expected
      then fail SessionStateError
        (''cannot transition session from '' @ session_state_value (ses_state s) @ '' to '' @
         session_state_value target @ ''; expected '' @
         join '', '' (sort (map session_state_value expected))) s
      else ok () (s\<lparr>ses_state := target\<rparr>))"

definition begin_loading :: "(session, unit) sop" where
  "begin_loading = transition [S_UNLOADED] S_LOADING"

definition finish_loading :: "(session, unit) sop" where
  "finish_loading = transition [S_LOADING] S_READY"

definition fail_loading :: "(session, unit) sop" where
  "fail_loading = transition [S_LOADING] S_FAILED"

definition begin_unloading :: "(session, unit) sop" where
  "begin_unloading = transition [S_READY, S_FAILED] S_UNLOADING"

definition finish_unloading :: "(session, unit) sop" where
  "finish_unloading = transition [S_UNLOADING] S_UNLOADED"

definition fail_unloading :: "(session, unit) sop" where
  "fail_unloading = transition [S_UNLOADING] S_FAILED"

text \<open>The part of \<open>_acquire_invocation\<close> that holds the execution lock.\<close>

definition acquired_invocation :: "cancellation_token \<Rightarrow> (session, unit) sop" where
  "acquired_invocation k s =
     (case lift (raise_if_cancelled k) s (\<lambda>_. transition [S_READY] S_RUNNING s) of
        (Inl e, s') \<Rightarrow> (Inl e, s'\<lparr>ses_locked := False\<rparr>)
      | (Inr u, s') \<Rightarrow> (Inr u, s'))"

definition finish_invocation :: "bool \<Rightarrow> (session, unit) sop" where
  "finish_invocation failed s =
     (case transition [S_RUNNING] (if failed then S_FAILED else S_READY) s of
        (r, s') \<Rightarrow> (r, s'\<lparr>ses_locked := False\<rparr>))"

section \<open>Invocation\<close>

text \<open>What the adapter's \<open>invoke\<close> does: raise, return a result, or return something else.\<close>

datatype adapter_outcome = Raised exc | Returned invocation_result | ReturnedOther

text \<open>The body of the \<open>try\<close> block, with the token as it is when the adapter is done.\<close>

definition invocation_body ::
  "cancellation_token \<Rightarrow> string \<Rightarrow> adapter_outcome \<Rightarrow> invocation_result res"
where
  "invocation_body k i out =
     (case out of
        Raised e \<Rightarrow> Inl e
      | ReturnedOther \<Rightarrow> after (raise_if_cancelled k)
          (\<lambda>_. raise AdapterContractError ''adapter.invoke must return InvocationResult'')
      | Returned r \<Rightarrow> after (raise_if_cancelled k)
          (\<lambda>_. if res_invocation_id r \<noteq> i
               then raise AdapterContractError ''adapter result invocation_id does not match invocation''
               else Inr r))"

text \<open>The \<open>except\<close> clauses in their order, and the normal end.\<close>

definition settle_invocation ::
  "cancellation_token \<Rightarrow> string \<Rightarrow> adapter_outcome \<Rightarrow> (session, invocation_result) sop"
where
  "settle_invocation k i out s =
     (case invocation_body k i out of
        Inl e \<Rightarrow>
          if instance_of_any e [InvocationCancelledError, InvocationRejectedError]
          then sbind (finish_invocation False) (\<lambda>_ s. (Inl e, s)) s
          else if instance_of_any e [AdapterContractError, AdapterExecutionError]
          then sbind (finish_invocation True) (\<lambda>_ s. (Inl e, s)) s
          else if instance_of e Exception
          then sbind (finish_invocation True)
                 (\<lambda>_. fail AdapterExecutionError ''adapter invocation failed'') s
          else sbind (finish_invocation True) (\<lambda>_ s. (Inl e, s)) s
      | Inr r \<Rightarrow> sbind (finish_invocation False) (\<lambda>_. ok r) s)"

text \<open>
  \<open>Runtime.invoke\<close> when the execution lock is free: the token before the adapter runs and the
  one after it (the caller may cancel meanwhile).
\<close>

definition invoke_uncontended ::
  "string \<Rightarrow> cancellation_token \<Rightarrow> cancellation_token \<Rightarrow> string \<Rightarrow> adapter_outcome
     \<Rightarrow> (session, invocation_result) sop"
where
  "invoke_uncontended rt k k' i out s =
     lift (require_runtime rt s) s (\<lambda>_.
     lift (raise_if_cancelled k) s (\<lambda>_.
     sbind (acquired_invocation k) (\<lambda>_. settle_invocation k' i out) (s\<lparr>ses_locked := True\<rparr>)))"

section \<open>Loading and unloading\<close>

text \<open>
  \<open>Runtime.load\<close>: \<open>out\<close> is what \<open>adapter.load\<close> raises, if anything. The session it has built is
  returned with the result, as the state the object is left in.
\<close>

definition load_session ::
  "string \<Rightarrow> registry \<Rightarrow> string \<Rightarrow> model_deployment \<Rightarrow> exc option \<Rightarrow> (unit res \<times> session) res"
where
  "load_session rt reg u d out =
     after (registry_get reg (md_adapter_id (dpl_descriptor d))) (\<lambda>a.
       if map_option md_adapter_id (ad_descriptor a) \<noteq> Some (md_adapter_id (dpl_descriptor d))
       then raise AdapterContractError ''registered adapter id does not match deployment descriptor''
       else Inr
         (sbind (bind_session rt a) (\<lambda>_.
          sbind begin_loading (\<lambda>_ s.
            case out of
              Some e \<Rightarrow> sbind fail_loading (\<lambda>_ s. (Inl e, s)) s
            | None \<Rightarrow> finish_loading s))
          (new_ModelSession u d)))"

definition unload_session :: "string \<Rightarrow> exc option \<Rightarrow> (session, unit) sop" where
  "unload_session rt out s =
     lift (require_runtime rt s) s (\<lambda>_.
     sbind begin_unloading (\<lambda>_ s.
       case out of
         Some e \<Rightarrow> sbind fail_unloading (\<lambda>_ s. (Inl e, s)) s
       | None \<Rightarrow> finish_unloading s) s)"

section \<open>The test adapters\<close>

definition echo_content :: "pyenv \<Rightarrow> pyval \<Rightarrow> string" where
  "echo_content E ins =
     utf8 (pystr E (case ins of
        PDict items \<Rightarrow> (case map_of items (PStr ''value'') of Some v \<Rightarrow> v | None \<Rightarrow> ins)
      | _ \<Rightarrow> ins))"

definition empty_profile :: profile_report where
  "empty_profile = \<lparr>prof_metrics = PDict [], prof_metadata = PDict []\<rparr>"

definition empty_cache_report :: cache_report where
  "empty_cache_report = \<lparr>cr_hits = 0, cr_misses = 0, cr_bytes_used = 0, cr_metadata = PDict []\<rparr>"

definition single_artifact :: "string \<Rightarrow> string \<Rightarrow> string \<Rightarrow> string \<Rightarrow> invocation_result" where
  "single_artifact i name mt content =
     \<lparr>res_invocation_id = i,
      res_artifacts = [\<lparr>pa_name = name, pa_media_type = mt, pa_content = content, pa_metadata = PDict []\<rparr>],
      res_metadata = PDict [], res_warnings = [], res_profile = empty_profile,
      res_cache = empty_cache_report\<rparr>"

definition echo_invoke :: "pyenv \<Rightarrow> cancellation_token \<Rightarrow> model_invocation \<Rightarrow> adapter_outcome" where
  "echo_invoke E k i =
     (case raise_if_cancelled k of
        Inl e \<Rightarrow> Raised e
      | Inr _ \<Rightarrow> Returned (single_artifact (inv_id i) ''echo.txt'' ''text/plain''
                              (echo_content E (inv_inputs i))))"

text \<open>\<open>FakeAudioAdapter\<close> counts its calls; \<open>factory\<close> is what its result factory does, if it has one.\<close>

record fake_adapter =
  fake_load_calls :: int
  fake_invoke_calls :: int
  fake_unload_calls :: int

definition fake_load :: "fake_adapter \<Rightarrow> fake_adapter" where
  "fake_load a = a\<lparr>fake_load_calls := fake_load_calls a + 1\<rparr>"

definition fake_unload :: "fake_adapter \<Rightarrow> fake_adapter" where
  "fake_unload a = a\<lparr>fake_unload_calls := fake_unload_calls a + 1\<rparr>"

definition fake_invoke ::
  "adapter_outcome option \<Rightarrow> cancellation_token \<Rightarrow> model_invocation \<Rightarrow> fake_adapter
     \<Rightarrow> adapter_outcome \<times> fake_adapter"
where
  "fake_invoke factory k i a =
     (case raise_if_cancelled k of
        Inl e \<Rightarrow> Raised e
      | Inr _ \<Rightarrow> (case factory of
            Some out \<Rightarrow> out
          | None \<Rightarrow> Returned (single_artifact (inv_id i) ''fake.bin'' ''application/octet-stream''
                                 (utf8 (inv_id i)))),
      a\<lparr>fake_invoke_calls := fake_invoke_calls a + 1\<rparr>)"

section \<open>Outcomes of an invocation\<close>

lemma transition_eq:
  "transition xs t s = (if ses_state s \<in> set xs then ok () (s\<lparr>ses_state := t\<rparr>)
     else fail SessionStateError
        (''cannot transition session from '' @ session_state_value (ses_state s) @ '' to '' @
         session_state_value t @ ''; expected '' @ join '', '' (sort (map session_state_value xs))) s)"
  by (simp add: transition_def)

lemma finish_invocation_running:
  "ses_state s = S_RUNNING \<Longrightarrow>
   finish_invocation f s = (Inr (), s\<lparr>ses_state := if f then S_FAILED else S_READY, ses_locked := False\<rparr>)"
  by (simp add: finish_invocation_def transition_def ok_def)

text \<open>Which results leave the session usable.\<close>

definition usable_after :: "invocation_result res \<Rightarrow> bool" where
  "usable_after r =
     (case r of Inr _ \<Rightarrow> True
      | Inl e \<Rightarrow> instance_of_any e [InvocationCancelledError, InvocationRejectedError])"

lemma settle_running:
  assumes "ses_state s = S_RUNNING"
  shows "snd (settle_invocation k i out s) =
      s\<lparr>ses_state := if usable_after (invocation_body k i out) then S_READY else S_FAILED,
        ses_locked := False\<rparr>"
  using assms
  by (auto simp: settle_invocation_def usable_after_def sbind_def finish_invocation_running ok_def
      fail_def split: sum.splits)

lemma settle_result:
  assumes "ses_state s = S_RUNNING"
  shows "fst (settle_invocation k i out s) =
      (case invocation_body k i out of
         Inr r \<Rightarrow> Inr r
       | Inl e \<Rightarrow> if instance_of e Exception \<and> \<not> instance_of_any e [InvocationCancelledError,
                      InvocationRejectedError, AdapterContractError, AdapterExecutionError]
                 then raise AdapterExecutionError ''adapter invocation failed'' else Inl e)"
  using assms
  by (auto simp: settle_invocation_def sbind_def finish_invocation_running ok_def fail_def
      instance_of_any_def split: sum.splits)

lemma acquired_cases:
  obtains (run) "\<not> is_cancelled k" "ses_state s = S_READY"
      "acquired_invocation k s = (Inr (), s\<lparr>ses_state := S_RUNNING\<rparr>)"
  | (refused) e where "is_cancelled k \<or> ses_state s \<noteq> S_READY"
      "acquired_invocation k s = (Inl e, s\<lparr>ses_locked := False\<rparr>)"
proof (cases rule: raise_if_cancelled_cases [of k])
  case 1
  then show thesis
    using run refused by (cases "ses_state s = S_READY")
      (auto simp: acquired_invocation_def transition_def ok_def fail_def raise_def)
next
  case (2 e)
  then show thesis using refused by (auto simp: acquired_invocation_def)
qed

end
