(* ===== verification/RuntimeThreads.thy ===== *)
theory RuntimeThreads
  imports RuntimeCore
begin

text \<open>
  Concurrent callers of one session. Each thread runs \<open>Runtime.invoke\<close>: it is waiting for the
  execution lock, holding it, inside the adapter, or done; another thread may cancel a token or
  unload the session at any moment. A step is what happens between two moments at which the
  code takes or releases a lock, waits, or calls the adapter.
\<close>

section \<open>Threads\<close>

datatype phase = Idle | Waiting | Holding | InAdapter | Done "invocation_result res"

record world =
  w_session :: session
  w_phase :: "nat \<Rightarrow> phase"
  w_token :: "nat \<Rightarrow> cancellation_token"

definition set_phase :: "nat \<Rightarrow> phase \<Rightarrow> world \<Rightarrow> world" where
  "set_phase t p s = s\<lparr>w_phase := (w_phase s)(t := p)\<rparr>"

text \<open>
  \<open>rt\<close> is the runtime, \<open>ids t\<close> the invocation identifier of thread \<open>t\<close>. \<open>poll\<close> is a time-out of
  \<open>acquire(timeout=0.05)\<close> with the token cancelled; a time-out without it waits on.
\<close>

inductive rt_step :: "string \<Rightarrow> (nat \<Rightarrow> string) \<Rightarrow> world \<Rightarrow> world \<Rightarrow> bool" for rt ids where
  enter: "w_phase s t = Idle \<Longrightarrow>
    rt_step rt ids s (set_phase t
      (case after (require_runtime rt (w_session s)) (\<lambda>_. raise_if_cancelled (w_token s t)) of
         Inl e \<Rightarrow> Done (Inl e) | Inr _ \<Rightarrow> Waiting) s)"
| lock: "w_phase s t = Waiting \<Longrightarrow> \<not> ses_locked (w_session s) \<Longrightarrow>
    rt_step rt ids s (set_phase t Holding (s\<lparr>w_session := (w_session s)\<lparr>ses_locked := True\<rparr>\<rparr>))"
| poll: "w_phase s t = Waiting \<Longrightarrow> ses_locked (w_session s) \<Longrightarrow>
    raise_if_cancelled (w_token s t) = Inl e \<Longrightarrow>
    rt_step rt ids s (set_phase t (Done (Inl e)) s)"
| start: "w_phase s t = Holding \<Longrightarrow> acquired_invocation (w_token s t) (w_session s) = (r, ses) \<Longrightarrow>
    rt_step rt ids s (set_phase t (case r of Inl e \<Rightarrow> Done (Inl e) | Inr _ \<Rightarrow> InAdapter)
      (s\<lparr>w_session := ses\<rparr>))"
| finish: "w_phase s t = InAdapter \<Longrightarrow>
    settle_invocation (w_token s t) (ids t) out (w_session s) = (r, ses) \<Longrightarrow>
    rt_step rt ids s (set_phase t (Done r) (s\<lparr>w_session := ses\<rparr>))"
| cancel_token: "rt_step rt ids s (s\<lparr>w_token := (w_token s)(t := snd (cancel reason (w_token s t)))\<rparr>)"
| unload_begin: "begin_unloading (w_session s) = (Inr (), ses) \<Longrightarrow> rt_step rt ids s (s\<lparr>w_session := ses\<rparr>)"
| unload_end: "(if failed then fail_unloading else finish_unloading) (w_session s) = (Inr (), ses) \<Longrightarrow>
    rt_step rt ids s (s\<lparr>w_session := ses\<rparr>)"

text \<open>A session as \<open>Runtime.load\<close> returns it, before any thread has called.\<close>

definition fresh_world :: "session \<Rightarrow> (nat \<Rightarrow> cancellation_token) \<Rightarrow> world" where
  "fresh_world ses toks = \<lparr>w_session = ses, w_phase = (\<lambda>_. Idle), w_token = toks\<rparr>"

inductive rt_reachable :: "string \<Rightarrow> (nat \<Rightarrow> string) \<Rightarrow> world \<Rightarrow> bool" for rt ids where
  init: "ses_state ses = S_READY \<Longrightarrow> \<not> ses_locked ses \<Longrightarrow> rt_reachable rt ids (fresh_world ses toks)"
| step: "rt_reachable rt ids s \<Longrightarrow> rt_step rt ids s s' \<Longrightarrow> rt_reachable rt ids s'"

inductive_cases rt_stepE: "rt_step rt ids s s'"

section \<open>The invariant\<close>

definition holds_lock :: "phase \<Rightarrow> bool" where
  "holds_lock p \<longleftrightarrow> p = Holding \<or> p = InAdapter"

definition world_inv :: "world \<Rightarrow> bool" where
  "world_inv s \<longleftrightarrow>
     (\<forall>t u. holds_lock (w_phase s t) \<longrightarrow> holds_lock (w_phase s u) \<longrightarrow> t = u) \<and>
     (ses_locked (w_session s) \<longleftrightarrow> (\<exists>t. holds_lock (w_phase s t))) \<and>
     (ses_state (w_session s) = S_RUNNING \<longleftrightarrow> (\<exists>t. w_phase s t = InAdapter)) \<and>
     ses_state (w_session s) \<noteq> S_LOADING"

lemma world_inv_init: "ses_state ses = S_READY \<Longrightarrow> \<not> ses_locked ses \<Longrightarrow> world_inv (fresh_world ses toks)"
  by (simp add: world_inv_def fresh_world_def holds_lock_def)

text \<open>
  A step of a thread changes its phase and the session: four facts about the change decide
  whether the invariant survives.
\<close>

lemma world_inv_idle_step:
  assumes "world_inv s" and "\<not> holds_lock (w_phase s t)" and "\<not> holds_lock p"
  shows "world_inv (set_phase t p s)"
proof -
  have "w_phase s t \<noteq> InAdapter" "p \<noteq> InAdapter" using assms(2,3) by (auto simp: holds_lock_def)
  then show ?thesis using assms unfolding world_inv_def set_phase_def by (auto split: if_splits)
qed

lemma world_inv_lock:
  assumes "world_inv s" and "\<not> ses_locked (w_session s)"
  shows "world_inv (set_phase t Holding (s\<lparr>w_session := (w_session s)\<lparr>ses_locked := True\<rparr>\<rparr>))"
proof -
  have none: "\<not> holds_lock (w_phase s u)" for u using assms by (auto simp: world_inv_def)
  then have "w_phase s u \<noteq> InAdapter" for u by (metis holds_lock_def)
  then show ?thesis using assms none by (auto simp: world_inv_def set_phase_def holds_lock_def)
qed

lemma world_inv_release:
  assumes "world_inv s" and "holds_lock (w_phase s t)" and "\<not> holds_lock p"
    and "\<not> ses_locked ses" and "ses_state ses \<noteq> S_RUNNING" and "ses_state ses \<noteq> S_LOADING"
  shows "world_inv (set_phase t p (s\<lparr>w_session := ses\<rparr>))"
proof -
  have "\<not> holds_lock (w_phase s u)" if "u \<noteq> t" for u using assms(1,2) that by (auto simp: world_inv_def)
  then show ?thesis using assms(3-6) by (auto simp: world_inv_def set_phase_def holds_lock_def split: if_splits)
qed

lemma world_inv_start:
  assumes "world_inv s" and "w_phase s t = Holding" and "ses_locked ses" and "ses_state ses = S_RUNNING"
  shows "world_inv (set_phase t InAdapter (s\<lparr>w_session := ses\<rparr>))"
proof -
  have "holds_lock (w_phase s t)" using assms(2) by (simp add: holds_lock_def)
  then have "\<not> holds_lock (w_phase s u)" if "u \<noteq> t" for u using assms(1) that by (auto simp: world_inv_def)
  then show ?thesis using assms(3,4) by (auto simp: world_inv_def set_phase_def holds_lock_def split: if_splits)
qed

lemma holding_not_running:
  assumes "world_inv s" and "w_phase s t = Holding"
  shows "ses_state (w_session s) \<noteq> S_RUNNING" "ses_locked (w_session s)"
proof -
  have "holds_lock (w_phase s t)" using assms(2) by (simp add: holds_lock_def)
  have "w_phase s u \<noteq> InAdapter" for u
  proof
    assume "w_phase s u = InAdapter"
    then have "holds_lock (w_phase s u)" by (simp add: holds_lock_def)
    then have "u = t" using assms(1) \<open>holds_lock (w_phase s t)\<close> unfolding world_inv_def by blast
    then show False using \<open>w_phase s u = InAdapter\<close> assms(2) by simp
  qed
  then show "ses_state (w_session s) \<noteq> S_RUNNING" using assms(1) by (auto simp: world_inv_def)
  show "ses_locked (w_session s)" using assms(1) \<open>holds_lock (w_phase s t)\<close> by (auto simp: world_inv_def)
qed

lemma unload_states:
  "begin_unloading s = (Inr (), s') \<Longrightarrow> ses_state s \<in> {S_READY, S_FAILED} \<and> s' = s\<lparr>ses_state := S_UNLOADING\<rparr>"
  "(if f then fail_unloading else finish_unloading) s = (Inr (), s') \<Longrightarrow>
     ses_state s = S_UNLOADING \<and> s' = s\<lparr>ses_state := if f then S_FAILED else S_UNLOADED\<rparr>"
  by (auto simp: begin_unloading_def fail_unloading_def finish_unloading_def transition_def
      split: if_splits)

lemma rt_step_inv: "rt_step rt ids s s' \<Longrightarrow> world_inv s \<Longrightarrow> world_inv s'"
proof (induction rule: rt_step.induct)
  case (enter s t)
  then show ?case
    by (intro world_inv_idle_step) (auto simp: holds_lock_def split: sum.splits)
next
  case (lock s t)
  then show ?case by (intro world_inv_lock)
next
  case (poll s t e)
  then show ?case by (intro world_inv_idle_step) (auto simp: holds_lock_def)
next
  case (start s t r ses)
  have h: "holds_lock (w_phase s t)" using start(1) by (simp add: holds_lock_def)
  note hold = holding_not_running [OF start(3,1)]
  show ?case
  proof (cases rule: acquired_cases [of "w_token s t" "w_session s"])
    case run
    then show ?thesis using start hold by (auto intro!: world_inv_start)
  next
    case (refused e)
    have "r = Inl e" and "ses = (w_session s)\<lparr>ses_locked := False\<rparr>" using refused(2) start(2) by auto
    moreover have "ses_state (w_session s) \<noteq> S_LOADING" using start(3) by (simp add: world_inv_def)
    ultimately show ?thesis
      using hold by (simp only: sum.case) (rule world_inv_release [OF start(3) h]; simp add: holds_lock_def)
  qed
next
  case (finish s t out r ses)
  have run: "ses_state (w_session s) = S_RUNNING" using finish(1,3) by (auto simp: world_inv_def)
  have "ses = snd (settle_invocation (w_token s t) (ids t) out (w_session s))" using finish(2) by simp
  then show ?case
    using finish(1,3) settle_running [OF run]
    by (auto intro!: world_inv_release simp: holds_lock_def split: if_splits)
next
  case (cancel_token s t reason)
  then show ?case by (simp add: world_inv_def)
next
  case (unload_begin s ses)
  then show ?case using unload_states(1) [OF unload_begin(1)] by (auto simp: world_inv_def)
next
  case (unload_end failed s ses)
  then show ?case using unload_states(2) [OF unload_end(1)] by (auto simp: world_inv_def)
qed

lemma rt_reachable_inv: "rt_reachable rt ids s \<Longrightarrow> world_inv s"
  by (induction rule: rt_reachable.induct) (auto intro: world_inv_init rt_step_inv)

end
