(* ===== verification/RuntimeProps.thy ===== *)
theory RuntimeProps
  imports RuntimeThreads
begin

text \<open>
  What the runtime core promises: serialized execution of the callers of a session, no lost
  execution lock and no deadlock, the state every outcome of an invocation, of a load and of an
  unload leaves the session in.
\<close>

section \<open>Example values\<close>

definition demo_descriptor :: model_descriptor where
  "demo_descriptor = \<lparr>md_adapter_id = ''echo'', md_model_id = ''echo'', md_version = ''1'',
     md_capabilities = PDict []\<rparr>"

definition demo_deployment :: model_deployment where
  "demo_deployment = \<lparr>dpl_id = ''d'', dpl_descriptor = demo_descriptor, dpl_fingerprint = ''f'',
     dpl_configuration = PDict []\<rparr>"

definition demo_adapter :: adapter where
  "demo_adapter = \<lparr>ad_object = ''obj'', ad_implements = True, ad_descriptor = Some demo_descriptor\<rparr>"

definition demo_session :: session where
  "demo_session = \<lparr>ses_id = ''s'', ses_deployment = demo_deployment, ses_state = S_READY,
     ses_runtime = Some ''rt'', ses_adapter = Some demo_adapter, ses_locked = False\<rparr>"

definition demo_result :: invocation_result where
  "demo_result = single_artifact ''i'' ''echo.txt'' ''text/plain'' ''x''"

lemmas demo_values = demo_descriptor_def demo_deployment_def demo_adapter_def demo_session_def

section \<open>Serialized execution\<close>

text \<open>
  C27. In every reachable state of the callers of a session at most one thread is between taking
  and releasing the execution lock; the session is RUNNING exactly while one of them is inside
  the adapter.
\<close>

theorem session_single_flight:
  assumes "rt_reachable rt ids s"
  shows "(\<forall>t u. holds_lock (w_phase s t) \<longrightarrow> holds_lock (w_phase s u) \<longrightarrow> t = u) \<and>
    (ses_state (w_session s) = S_RUNNING \<longleftrightarrow> (\<exists>t. w_phase s t = InAdapter))"
  using rt_reachable_inv [OF assms] by (simp add: world_inv_def)

definition demo_world :: world where
  "demo_world = fresh_world demo_session (\<lambda>_. new_CancellationToken)"

text \<open>Thread 0 is inside the adapter, thread 1 waits for the lock.\<close>

definition demo_busy :: world where
  "demo_busy = \<lparr>w_session = demo_session\<lparr>ses_locked := True, ses_state := S_RUNNING\<rparr>,
     w_phase = (\<lambda>_. Idle)(0 := InAdapter, 1 := Waiting), w_token = (\<lambda>_. new_CancellationToken)\<rparr>"

lemma demo_busy_reachable: "rt_reachable ''rt'' (\<lambda>_. ''i'') demo_busy"
proof -
  let ?R = "rt_reachable ''rt'' (\<lambda>_. ''i'')"
  have ok: "require_runtime ''rt'' demo_session = Inr demo_adapter"
    "raise_if_cancelled new_CancellationToken = Inr ()"
    by (simp_all add: require_runtime_def demo_session_def raise_if_cancelled_def is_cancelled_def
        new_CancellationToken_def)
  have "?R demo_world" unfolding demo_world_def by (rule init) (simp_all add: demo_session_def)
  from step [OF this enter [where t = 0]] have "?R (set_phase 0 Waiting demo_world)"
    by (simp add: demo_world_def fresh_world_def ok)
  from step [OF this enter [where t = 1]] have "?R (set_phase 1 Waiting (set_phase 0 Waiting demo_world))"
    by (simp add: demo_world_def fresh_world_def set_phase_def ok)
  from step [OF this lock [where t = 0]]
  have "?R (set_phase 0 Holding ((set_phase 1 Waiting (set_phase 0 Waiting demo_world))
        \<lparr>w_session := demo_session\<lparr>ses_locked := True\<rparr>\<rparr>))"
    by (simp add: demo_world_def fresh_world_def set_phase_def demo_session_def)
  from step [OF this start [where t = 0 and r = "Inr ()"
        and ses = "demo_session\<lparr>ses_locked := True, ses_state := S_RUNNING\<rparr>"]]
  show ?thesis
    by (simp add: demo_world_def fresh_world_def set_phase_def demo_busy_def acquired_invocation_def ok
        transition_def ok_def fun_upd_twist) (simp add: demo_session_def ok_def)
qed

theorem session_single_flight_witness:
  "ses_state (w_session demo_busy) = S_RUNNING \<and> {t. holds_lock (w_phase demo_busy t)} = {0}"
proof -
  have "holds_lock (w_phase demo_busy 0)" "ses_state (w_session demo_busy) = S_RUNNING"
    by (simp_all add: demo_busy_def holds_lock_def)
  then show ?thesis using session_single_flight [OF demo_busy_reachable] by blast
qed

section \<open>No deadlock, no lost lock\<close>

definition releases :: "string \<Rightarrow> (nat \<Rightarrow> string) \<Rightarrow> nat \<Rightarrow> world \<Rightarrow> world \<Rightarrow> bool" where
  "releases rt ids u s s' \<longleftrightarrow>
     (rt_step rt ids)\<^sup>*\<^sup>* s s' \<and> \<not> ses_locked (w_session s') \<and>
     (\<forall>t. t \<noteq> u \<longrightarrow> w_phase s' t = w_phase s t) \<and> (\<exists>r. w_phase s' u = Done r)"

lemma settle_releases:
  assumes "w_phase s u = InAdapter" and "ses_state (w_session s) = S_RUNNING"
  shows "\<exists>s'. releases rt ids u s s'"
proof -
  obtain r ses where e: "settle_invocation (w_token s u) (ids u) ReturnedOther (w_session s) = (r, ses)"
    by fastforce
  have "ses = snd (settle_invocation (w_token s u) (ids u) ReturnedOther (w_session s))" using e by simp
  then have "\<not> ses_locked ses" by (simp add: settle_running [OF assms(2)])
  moreover have "rt_step rt ids s (set_phase u (Done r) (s\<lparr>w_session := ses\<rparr>))"
    by (rule finish [where ids = ids, OF assms(1) e])
  ultimately have "releases rt ids u s (set_phase u (Done r) (s\<lparr>w_session := ses\<rparr>))"
    by (simp add: releases_def set_phase_def r_into_rtranclp)
  then show ?thesis by blast
qed

lemma holder_releases:
  assumes inv: "world_inv s" and h: "holds_lock (w_phase s u)"
  shows "\<exists>s'. releases rt ids u s s'"
proof (cases "w_phase s u = InAdapter")
  case True
  then show ?thesis using inv by (intro settle_releases) (auto simp: world_inv_def)
next
  case False
  with h have u: "w_phase s u = Holding" by (simp add: holds_lock_def)
  show ?thesis
  proof (cases rule: acquired_cases [of "w_token s u" "w_session s"])
    case run
    let ?s = "set_phase u InAdapter (s\<lparr>w_session := (w_session s)\<lparr>ses_state := S_RUNNING\<rparr>\<rparr>)"
    have "rt_step rt ids s ?s" using start [where rt = rt and ids = ids, OF u run(3)] by simp
    moreover obtain s' where s': "releases rt ids u ?s s'"
      using settle_releases [of ?s u rt ids] by (auto simp: set_phase_def)
    moreover have "w_phase ?s t = w_phase s t" if "t \<noteq> u" for t using that by (simp add: set_phase_def)
    ultimately have "releases rt ids u s s'"
      unfolding releases_def by (metis converse_rtranclp_into_rtranclp)
    then show ?thesis by blast
  next
    case (refused e)
    have "rt_step rt ids s
        (set_phase u (Done (Inl e)) (s\<lparr>w_session := (w_session s)\<lparr>ses_locked := False\<rparr>\<rparr>))"
      using start [where rt = rt and ids = ids, OF u refused(2)] by simp
    then have "releases rt ids u s
        (set_phase u (Done (Inl e)) (s\<lparr>w_session := (w_session s)\<lparr>ses_locked := False\<rparr>\<rparr>))"
      by (simp add: releases_def set_phase_def r_into_rtranclp)
    then show ?thesis by blast
  qed
qed

text \<open>
  No caller waits on a lock that nobody will release: from every reachable state with a
  waiting thread, the steps of the one other thread that holds the lock (if any) lead to a state
  in which the lock is free and the waiting thread can take it.
\<close>

theorem waiting_caller_can_proceed:
  assumes "rt_reachable rt ids s" and "w_phase s t = Waiting"
  shows "\<exists>s' s''. (rt_step rt ids)\<^sup>*\<^sup>* s s' \<and> w_phase s' t = Waiting \<and> \<not> ses_locked (w_session s') \<and>
           rt_step rt ids s' s'' \<and> w_phase s'' t = Holding"
proof -
  have take: "\<exists>s''. rt_step rt ids s' s'' \<and> w_phase s'' t = Holding"
    if "w_phase s' t = Waiting" "\<not> ses_locked (w_session s')" for s'
    using lock [where rt = rt and ids = ids, OF that] by (force simp: set_phase_def)
  show ?thesis
  proof (cases "ses_locked (w_session s)")
    case False
    then show ?thesis using take assms(2) by blast
  next
    case True
    then obtain u where u: "holds_lock (w_phase s u)"
      using rt_reachable_inv [OF assms(1)] by (auto simp: world_inv_def)
    then have "t \<noteq> u" using assms(2) by (auto simp: holds_lock_def)
    then show ?thesis
      using holder_releases [OF rt_reachable_inv [OF assms(1)] u, of rt ids] take assms(2)
      unfolding releases_def by metis
  qed
qed

theorem waiting_caller_can_proceed_witness:
  "\<exists>s' s''. (rt_step ''rt'' (\<lambda>_. ''i''))\<^sup>*\<^sup>* demo_busy s' \<and> rt_step ''rt'' (\<lambda>_. ''i'') s' s'' \<and>
     w_phase s'' 1 = Holding"
  using waiting_caller_can_proceed [OF demo_busy_reachable, of 1] by (auto simp: demo_busy_def)

section \<open>Outcomes\<close>

lemma session_unlock [simp]: "\<not> ses_locked s \<Longrightarrow> s\<lparr>ses_locked := False\<rparr> = s"
  by (cases s) simp

lemma raise_if_cancelled_message: "is_cancelled k \<Longrightarrow> \<exists>m. raise_if_cancelled k = Inl (Exc InvocationCancelledError m)"
  by (auto simp: raise_if_cancelled_def raise_def)

lemma own_errors [simp]:
  "instance_of (Exc InvocationCancelledError m) InvocationCancelledError"
  "instance_of (Exc AdapterContractError m) Exception" "instance_of (Exc AdapterContractError m) AdapterContractError"
  "\<not> instance_of (Exc AdapterContractError m) InvocationCancelledError"
  "\<not> instance_of (Exc AdapterContractError m) InvocationRejectedError"
  "\<not> instance_of (Exc AdapterExecutionError m) InvocationCancelledError"
  "\<not> instance_of (Exc AdapterExecutionError m) InvocationRejectedError"
  by (simp_all add: instance_of_def issubclass_def numeral_eq_Suc)

text \<open>
  C28. What a call of \<open>invoke\<close> that finds the lock free gives, in every case. On a session of this
  runtime that is READY, with a token not cancelled, it returns exactly the adapter's result when that
  carries the invocation's identifier and the token was not cancelled meanwhile; a cancelled token, a
  result for another invocation or no result at all is a cancellation or an \<open>AdapterContractError\<close>; an
  exception of the adapter reaches the caller unchanged when it is one of the runtime's own four or an
  interruption, and as \<open>AdapterExecutionError\<close> otherwise. The session is READY again after a result, a
  cancellation or a rejection, and FAILED after everything else. Every other call is refused with the
  session unchanged. The lock is always released.
\<close>

theorem invoke_outcome:
  assumes "\<not> ses_locked s" and call: "invoke_uncontended rt k k' i out s = (r, s')"
  shows "\<not> ses_locked s' \<and>
    (if ses_runtime s = Some rt \<and> ses_adapter s \<noteq> None \<and> \<not> is_cancelled k \<and> ses_state s = S_READY
     then s' = s\<lparr>ses_state := (case r of Inr _ \<Rightarrow> S_READY | Inl e \<Rightarrow>
            if instance_of e InvocationCancelledError \<or> instance_of e InvocationRejectedError then S_READY else S_FAILED)\<rparr> \<and>
       (case out of
          Returned x \<Rightarrow> if is_cancelled k' then (\<exists>m. r = Inl (Exc InvocationCancelledError m))
            else if res_invocation_id x = i then r = Inr x else (\<exists>m. r = Inl (Exc AdapterContractError m))
        | ReturnedOther \<Rightarrow>
            (\<exists>m. r = Inl (Exc (if is_cancelled k' then InvocationCancelledError else AdapterContractError) m))
        | Raised e \<Rightarrow>
            if instance_of e Exception \<and> \<not> instance_of_any e [InvocationCancelledError,
                InvocationRejectedError, AdapterContractError, AdapterExecutionError]
            then (\<exists>m. r = Inl (Exc AdapterExecutionError m)) else r = Inl e)
     else s' = s \<and> (\<exists>m. r = Inl (Exc (if ses_runtime s = Some rt \<and> ses_adapter s \<noteq> None \<and> is_cancelled k
            then InvocationCancelledError else SessionStateError) m)))"
proof (cases "ses_runtime s = Some rt \<and> ses_adapter s \<noteq> None \<and> \<not> is_cancelled k")
  case False
  then show ?thesis
    using assms raise_if_cancelled_message [of k]
    by (auto simp: invoke_uncontended_def require_runtime_def lift_def fail_def raise_def raise_if_cancelled_ok
        split: option.splits if_splits)
next
  case True
  then have ok: "\<exists>a. require_runtime rt s = Inr a" "raise_if_cancelled k = Inr ()"
    by (auto simp: require_runtime_def raise_if_cancelled_ok)
  show ?thesis
  proof (cases "ses_state s = S_READY")
    case ready: True
    let ?t = "s\<lparr>ses_locked := True, ses_state := S_RUNNING\<rparr>"
    have "invoke_uncontended rt k k' i out s = settle_invocation k' i out ?t"
      using ok ready
      by (auto simp: invoke_uncontended_def acquired_invocation_def transition_def ok_def sbind_def)
    then have r: "r = fst (settle_invocation k' i out ?t)" "s' = snd (settle_invocation k' i out ?t)"
      using call by (metis fst_conv, metis snd_conv)
    have body: "case out of
          Returned x \<Rightarrow> if is_cancelled k' then (\<exists>m. invocation_body k' i out = Inl (Exc InvocationCancelledError m))
            else if res_invocation_id x = i then invocation_body k' i out = Inr x
            else (\<exists>m. invocation_body k' i out = Inl (Exc AdapterContractError m))
        | ReturnedOther \<Rightarrow> (\<exists>m. invocation_body k' i out =
            Inl (Exc (if is_cancelled k' then InvocationCancelledError else AdapterContractError) m))
        | Raised e \<Rightarrow> invocation_body k' i out = Inl e"
      using raise_if_cancelled_message [of k'] raise_if_cancelled_ok [THEN iffD2, of k']
      by (auto simp: invocation_body_def raise_def split: adapter_outcome.splits)
    have t: "ses_state ?t = S_RUNNING" by simp
    have unlock: "s\<lparr>ses_state := x, ses_locked := False\<rparr> = s\<lparr>ses_state := x\<rparr>" for x using assms(1) by (cases s) simp
    show ?thesis
      using body True ready assms(1) unfolding r settle_running [OF t] settle_result [OF t]
      by (auto simp: usable_after_def instance_of_any_def raise_def unlock split: adapter_outcome.splits if_splits)
  next
    case False
    then show ?thesis
      using ok assms True
      by (auto simp: invoke_uncontended_def acquired_invocation_def transition_def fail_def raise_def sbind_def)
  qed
qed

theorem invoke_outcome_witness:
  "\<not> ses_locked demo_session \<and>
   fst (invoke_uncontended ''rt'' new_CancellationToken new_CancellationToken ''i''
      (Returned demo_result) demo_session) = Inr demo_result \<and>
   ses_state (snd (invoke_uncontended ''rt'' new_CancellationToken new_CancellationToken ''i''
      (Raised (Exc ValueError [])) demo_session)) = S_FAILED"
proof -
  have n: "\<not> ses_locked demo_session" by (simp add: demo_session_def)
  note out = invoke_outcome [OF n surjective_pairing, of "''rt''" new_CancellationToken new_CancellationToken "''i''"]
  show ?thesis
    using n out [of "Returned demo_result"] out [of "Raised (Exc ValueError [])"]
    by (auto simp: demo_session_def demo_result_def single_artifact_def is_cancelled_def new_CancellationToken_def
        instance_of_any_def instance_of_def issubclass_def numeral_eq_Suc)
qed

section \<open>Loading and unloading\<close>

text \<open>
  A session is never left LOADING or UNLOADING by its runtime: a load ends READY or, when the
  adapter raised anything at all, FAILED with that exception; an unload of a session that is not
  loading or running ends UNLOADED or FAILED likewise, and is refused without a change otherwise.
\<close>

theorem load_unload_settle:
  "(load_session rt reg u d lout = Inr (r, s) \<longrightarrow>
      ses_runtime s = Some rt \<and> \<not> ses_locked s \<and>
      (case lout of None \<Rightarrow> r = Inr () \<and> ses_state s = S_READY
       | Some e \<Rightarrow> r = Inl e \<and> ses_state s = S_FAILED)) \<and>
   (ses_runtime t = Some rt \<and> ses_adapter t \<noteq> None \<longrightarrow>
      (if ses_state t = S_READY \<or> ses_state t = S_FAILED
       then unload_session rt uout t =
          (case uout of None \<Rightarrow> (Inr (), t\<lparr>ses_state := S_UNLOADED\<rparr>)
           | Some e \<Rightarrow> (Inl e, t\<lparr>ses_state := S_FAILED\<rparr>))
       else \<exists>e. unload_session rt uout t = (Inl e, t) \<and> exc_class_of e = SessionStateError))"
  by (auto simp: load_session_def unload_session_def after_eq_Inr new_ModelSession_def bind_session_def
      begin_loading_def finish_loading_def fail_loading_def begin_unloading_def finish_unloading_def
      fail_unloading_def transition_def sbind_def ok_def fail_def raise_def require_runtime_def
      split: option.splits if_splits)

theorem load_unload_settle_witness:
  "ses_state (snd (unload_session ''rt'' None demo_session)) = S_UNLOADED"
  using load_unload_settle [of "''rt''" "[]" "[]" demo_deployment None _ _ demo_session None]
  by (simp add: demo_session_def)

end
