(* ===== verification/Tables.thy ===== *)
theory Tables
  imports Prelude "HOL-Library.AList"
begin

text \<open>
  Tables of the PostgreSQL repositories as lists of rows in insertion order, the effect of an
  \<open>UPDATE ... WHERE id = k\<close> on them, and transactions: a statement that raises inside
  \<open>with connection.transaction()\<close> takes the whole block back.
\<close>

type_synonym 'r table = "(string \<times> 'r) list"

definition set_row :: "string \<Rightarrow> ('r \<Rightarrow> 'r) \<Rightarrow> 'r table \<Rightarrow> 'r table" where
  "set_row k f t = map (\<lambda>(i, r). (i, if i = k then f r else r)) t"

definition add_row :: "string \<Rightarrow> 'r \<Rightarrow> 'r table \<Rightarrow> 'r table" where
  "add_row k r t = t @ [(k, r)]"

definition transaction :: "('s, 'a) sop \<Rightarrow> ('s, 'a) sop" where
  "transaction m s = (case m s of (Inl e, _) \<Rightarrow> (Inl e, s) | (Inr a, s') \<Rightarrow> (Inr a, s'))"

lemma wp_transaction [wp_simps]: "wp X V (transaction m s) = wp (\<lambda>e _. X e s) V (m s)"
  by (simp add: wp_def transaction_def split: sum.splits prod.splits)

text \<open>A transaction that raises changes nothing.\<close>

lemma transaction_error: "transaction m s = (Inl e, t) \<Longrightarrow> t = s"
  by (auto simp: transaction_def split: sum.splits prod.splits)

lemma map_of_set_row: "map_of (set_row k f t) = (map_of t)(k := map_option f (map_of t k))"
  unfolding set_row_def by (induction t) (auto simp: fun_eq_iff)

lemma map_of_set_row_Some:
  "map_of t k = Some r \<Longrightarrow> map_of (set_row k f t) = (map_of t)(k \<mapsto> f r)"
  by (simp add: map_of_set_row)

lemma fst_set_row [simp]: "map fst (set_row k f t) = map fst t"
  by (simp add: set_row_def case_prod_beta comp_def)

lemma fst_image_set_row [simp]: "fst ` set (set_row k f t) = fst ` set t"
  by (metis fst_set_row list.set_map)

lemma map_of_add_row:
  assumes "k \<notin> fst ` set t"
  shows "map_of (add_row k r t) = (map_of t)(k \<mapsto> r)"
proof -
  have "map_of t k = None" using assms by (simp add: map_of_eq_None_iff)
  then show ?thesis by (auto simp: add_row_def map_add_def fun_eq_iff split: option.splits)
qed

lemma dom_table: "map_of t k = None \<longleftrightarrow> k \<notin> fst ` set t"
  by (simp add: map_of_eq_None_iff)

lemma distinct_add_row: "distinct (map fst (add_row k r t)) \<longleftrightarrow> distinct (map fst t) \<and> k \<notin> fst ` set t"
  by (auto simp: add_row_def)

end
