(* ===== verification/LeaseQueue.thy ===== *)
theory LeaseQueue
  imports Domain Tables "HOL-Library.Product_Lexorder"
begin

text \<open>
  \<open>PostgresLeaseQueue\<close> of \<open>durable/queue.py\<close>: claim, fence, heartbeat, cancellation, failure and
  recovery of worker leases over the tables \<open>workers\<close>, \<open>jobs\<close>, \<open>job_inputs\<close>, \<open>job_attempts\<close>,
  \<open>job_events\<close>, \<open>assets\<close>, \<open>blobs\<close> and \<open>model_deployments\<close>. An operation is one transaction. The
  server's clock is an argument: every reading of \<open>clock_timestamp()\<close> that can differ has its own
  parameter, in microseconds. Rows that other transactions hold locked (\<open>SKIP LOCKED\<close>) are an
  argument too. The defining queries become one look-up each.
\<close>

section \<open>Rows\<close>

record q_worker =
  qw_deployment :: string
  qw_state :: worker_state
  qw_heartbeat :: "int option"

record q_job =
  qj_namespace :: string
  qj_key :: string
  qj_sha256 :: string
  qj_request :: pyval
  qj_deployment :: string
  qj_kinds :: "artifact_kind list"
  qj_inputs :: "job_input list"
  qj_state :: job_state
  qj_epoch :: int
  qj_current :: "string option"
  qj_winning :: "string option"
  qj_cancel :: "int option"
  qj_retry :: "int option"
  qj_created :: int

record q_attempt =
  qa_job :: string
  qa_worker :: string
  qa_no :: int
  qa_epoch :: int
  qa_state :: attempt_state
  qa_heartbeat :: "int option"
  qa_expires :: "int option"
  qa_finished :: "int option"
  qa_reason :: "string option"

record q_event =
  qe_job :: string
  qe_attempt :: "string option"
  qe_type :: string

record q_db =
  q_workers :: "q_worker table"
  q_jobs :: "q_job table"
  q_attempts :: "q_attempt table"
  q_events :: "q_event list"
  q_assets :: "string \<rightharpoonup> asset_record"
  q_blobs :: "string \<rightharpoonup> blob_record"
  q_deployments :: "string \<rightharpoonup> deployment_record"

record lease =
  l_job :: string
  l_attempt :: string
  l_worker :: string
  l_epoch :: int
  l_expires :: int

record row_locks =
  lk_worker :: "string \<Rightarrow> bool"
  lk_job :: "string \<Rightarrow> bool"
  lk_attempt :: "string \<Rightarrow> bool"

definition no_locks :: row_locks where
  "no_locks = \<lparr>lk_worker = (\<lambda>_. False), lk_job = (\<lambda>_. False), lk_attempt = (\<lambda>_. False)\<rparr>"

definition positive_int :: "int \<Rightarrow> string \<Rightarrow> unit res" where
  "positive_int n name = require (1 \<le> n) ValueError (name @ '' must be a positive integer'')"

definition seconds :: "int \<Rightarrow> int" where
  "seconds n = n * 1000000"

definition q_event_add :: "string \<Rightarrow> string option \<Rightarrow> string \<Rightarrow> q_db \<Rightarrow> q_db" where
  "q_event_add j a ty db = db\<lparr>q_events := q_events db @ [\<lparr>qe_job = j, qe_attempt = a, qe_type = ty\<rparr>]\<rparr>"

section \<open>The fence\<close>

definition lost :: "'a res" where
  "lost = raise StateTransitionError ''lease is no longer current''"

definition unexpired :: "int \<Rightarrow> q_attempt \<Rightarrow> bool" where
  "unexpired t a = (case qa_expires a of None \<Rightarrow> False | Some x \<Rightarrow> t < x)"

text \<open>
  The join that the fenced queries repeat: the attempt is the active, current one of a RUNNING
  job under the lease's epoch, and its worker is BUSY.
\<close>

definition lease_row :: "q_db \<Rightarrow> lease \<Rightarrow> (q_attempt \<times> q_job) option" where
  "lease_row db l =
     (case map_of (q_attempts db) (l_attempt l) of None \<Rightarrow> None | Some a \<Rightarrow>
      case map_of (q_jobs db) (l_job l) of None \<Rightarrow> None | Some j \<Rightarrow>
      case map_of (q_workers db) (l_worker l) of None \<Rightarrow> None | Some w \<Rightarrow>
        if qa_job a = l_job l \<and> qa_worker a = l_worker l \<and> qa_epoch a = l_epoch l \<and>
           qa_state a = ATT_ACTIVE \<and> qj_state j = RUNNING \<and> qj_current j = Some (l_attempt l) \<and>
           qj_epoch j = qa_epoch a \<and> qw_state w = W_BUSY
        then Some (a, j) else None)"

definition assert_current :: "int \<Rightarrow> lease \<Rightarrow> q_db \<Rightarrow> unit res" where
  "assert_current t l db =
     (case lease_row db l of
        None \<Rightarrow> lost
      | Some (a, j) \<Rightarrow> if unexpired t a \<and> qj_cancel j = None then Inr () else lost)"

definition lock_current :: "row_locks \<Rightarrow> int \<Rightarrow> bool \<Rightarrow> lease \<Rightarrow> q_db \<Rightarrow> q_attempt res" where
  "lock_current K t require_unexpired l db =
     (case map_of (q_workers db) (l_worker l) of None \<Rightarrow> lost | Some w \<Rightarrow>
      if qw_state w \<noteq> W_BUSY \<or> lk_worker K (l_worker l) then lost else
      case map_of (q_jobs db) (l_job l) of None \<Rightarrow> lost | Some j \<Rightarrow>
      if qj_state j \<noteq> RUNNING \<or> lk_job K (l_job l) then lost else
      case lease_row db l of None \<Rightarrow> lost | Some (a, j) \<Rightarrow>
      if (require_unexpired \<and> \<not> unexpired t a) \<or> lk_attempt K (l_attempt l) then lost else Inr a)"

definition cancellation_requested :: "int \<Rightarrow> lease \<Rightarrow> q_db \<Rightarrow> bool res" where
  "cancellation_requested t l db =
     (case map_of (q_jobs db) (l_job l) of None \<Rightarrow> lost | Some j \<Rightarrow>
      case map_of (q_attempts db) (l_attempt l) of None \<Rightarrow> lost | Some a \<Rightarrow>
      case map_of (q_workers db) (l_worker l) of None \<Rightarrow> lost | Some w \<Rightarrow>
        if qj_current j = Some (l_attempt l) \<and> qa_worker a = l_worker l \<and> qa_epoch a = l_epoch l \<and>
           qj_epoch j = qa_epoch a \<and> qj_state j = RUNNING \<and> qa_state a = ATT_ACTIVE \<and> qw_state w = W_BUSY \<and>
           unexpired t a
        then Inr (qj_cancel j \<noteq> None) else lost)"

section \<open>Claiming\<close>

definition claimable :: "row_locks \<Rightarrow> int \<Rightarrow> string \<Rightarrow> string \<times> q_job \<Rightarrow> bool" where
  "claimable K t dep = (\<lambda>(i, j).
     qj_state j = QUEUED \<and> qj_cancel j = None \<and> qj_deployment j = dep \<and>
     (case qj_retry j of None \<Rightarrow> True | Some x \<Rightarrow> x \<le> t) \<and> \<not> lk_job K i)"

definition next_attempt_no :: "string \<Rightarrow> q_attempt table \<Rightarrow> int" where
  "next_attempt_no j atts =
     foldr max (map (qa_no \<circ> snd) (filter (\<lambda>(_, a). qa_job a = j) atts)) 0 + 1"

definition claim_next ::
  "row_locks \<Rightarrow> int \<Rightarrow> int \<Rightarrow> string \<Rightarrow> string \<Rightarrow> int \<Rightarrow> (q_db, lease option) sop"
where
  "claim_next K t t' u w secs s =
     lift (positive_int secs ''lease_seconds'') s (\<lambda>_.
     case map_of (q_workers s) w of None \<Rightarrow> ok None s | Some worker \<Rightarrow>
     if qw_state worker \<noteq> W_READY \<or> lk_worker K w then ok None s else
     case sort_key (\<lambda>(i, j). (qj_created j, i))
            (filter (claimable K t (qw_deployment worker)) (q_jobs s)) of
       [] \<Rightarrow> ok None s
     | (j, job) # _ \<Rightarrow>
         (let epoch = qj_epoch job + 1; expires = t' + seconds secs in
          ok (Some \<lparr>l_job = j, l_attempt = u, l_worker = w, l_epoch = epoch, l_expires = expires\<rparr>)
            (q_event_add j (Some u) ''attempt_started''
              (s\<lparr>q_attempts := add_row u
                   \<lparr>qa_job = j, qa_worker = w, qa_no = next_attempt_no j (q_attempts s), qa_epoch = epoch,
                    qa_state = ATT_ACTIVE, qa_heartbeat = Some t', qa_expires = Some expires,
                    qa_finished = None, qa_reason = None\<rparr> (q_attempts s),
                 q_jobs := set_row j (\<lambda>r. r\<lparr>qj_state := RUNNING, qj_current := Some u,
                   qj_epoch := epoch, qj_retry := None\<rparr>) (q_jobs s),
                 q_workers := set_row w (\<lambda>r. r\<lparr>qw_state := W_BUSY, qw_heartbeat := Some t'\<rparr>)
                   (q_workers s)\<rparr>))))"

section \<open>Heartbeats and cancellation\<close>

definition heartbeat :: "int \<Rightarrow> int \<Rightarrow> lease \<Rightarrow> int \<Rightarrow> (q_db, lease) sop" where
  "heartbeat t t' l secs s =
     lift (positive_int secs ''lease_seconds'') s (\<lambda>_.
     lift (lock_current no_locks t True l s) s (\<lambda>_.
     lift (assert_current t' l s) s (\<lambda>_.
       ok (l\<lparr>l_expires := t' + seconds secs\<rparr>)
         (s\<lparr>q_attempts := set_row (l_attempt l)
              (\<lambda>a. a\<lparr>qa_heartbeat := Some t', qa_expires := Some (t' + seconds secs)\<rparr>) (q_attempts s),
            q_workers := set_row (l_worker l)
              (\<lambda>w. if qw_state w = W_BUSY then w\<lparr>qw_heartbeat := Some t'\<rparr> else w) (q_workers s)\<rparr>))))"

definition q_request_cancel :: "int \<Rightarrow> string \<Rightarrow> (q_db, bool) sop" where
  "q_request_cancel t j s =
     (case map_of (q_jobs s) j of None \<Rightarrow> ok False s | Some job \<Rightarrow>
      if qj_state job \<notin> {QUEUED, RUNNING} then ok False s
      else if qj_cancel job \<noteq> None then ok False s
      else ok True
        (q_event_add j (qj_current job) ''cancel_requested''
          (s\<lparr>q_jobs := set_row j (\<lambda>r. r\<lparr>qj_state := if qj_state r = QUEUED then CANCELLED else qj_state r,
                                        qj_cancel := Some t\<rparr>) (q_jobs s)\<rparr>)))"

section \<open>The end of a lease\<close>

definition terminal_state :: "bool \<Rightarrow> int \<Rightarrow> int \<Rightarrow> attempt_state" where
  "terminal_state cancelled no max_attempts =
     (if cancelled then ATT_CANCELLED
      else if max_attempts \<le> no then ATT_FAILED_TERMINAL else ATT_FAILED_RETRYABLE)"

fun job_state_after :: "attempt_state \<Rightarrow> job_state" where
  "job_state_after ATT_CANCELLED = CANCELLED"
| "job_state_after ATT_FAILED_TERMINAL = FAILED"
| "job_state_after _ = QUEUED"

fun end_event :: "attempt_state \<Rightarrow> string" where
  "end_event ATT_CANCELLED = ''attempt_cancelled''"
| "end_event ATT_FAILED_TERMINAL = ''attempt_failed''"
| "end_event _ = ''attempt_requeued''"

text \<open>The updates that \<open>_finish_lease\<close> and \<open>reap_expired\<close> share.\<close>

definition end_lease :: "attempt_state \<Rightarrow> string \<Rightarrow> int \<Rightarrow> int \<Rightarrow> lease \<Rightarrow> q_db \<Rightarrow> q_db" where
  "end_lease st reason delay t l s =
     q_event_add (l_job l) (Some (l_attempt l)) (end_event st)
      (s\<lparr>q_attempts := set_row (l_attempt l)
           (\<lambda>a. a\<lparr>qa_state := st, qa_finished := Some t, qa_heartbeat := None, qa_expires := None,
                  qa_reason := Some reason\<rparr>) (q_attempts s),
         q_workers := set_row (l_worker l) (\<lambda>w. w\<lparr>qw_state := W_READY\<rparr>) (q_workers s),
         q_jobs := set_row (l_job l)
           (\<lambda>j. if qj_current j = Some (l_attempt l)
                then (if job_state_after st = QUEUED
                      then j\<lparr>qj_state := QUEUED, qj_current := None, qj_retry := Some (t + seconds delay)\<rparr>
                      else j\<lparr>qj_state := job_state_after st, qj_current := None\<rparr>)
                else j) (q_jobs s)\<rparr>)"

definition finish_lease :: "row_locks \<Rightarrow> int \<Rightarrow> int \<Rightarrow> lease \<Rightarrow> bool \<Rightarrow> int \<Rightarrow> int \<Rightarrow> (q_db, unit) sop" where
  "finish_lease K t t' l cancelled delay max_attempts s =
     lift (lock_current K t True l s) s (\<lambda>a.
     case map_of (q_jobs s) (l_job l) of None \<Rightarrow> fail TypeError [] s | Some j \<Rightarrow>
     let requested = qj_cancel j \<noteq> None in
     if cancelled \<and> \<not> requested then fail StateTransitionError ''cancellation was not requested'' s
     else
       (let st = terminal_state (cancelled \<or> requested) (qa_no a) max_attempts in
        ok () (end_lease st (if st = ATT_CANCELLED then ''cancelled'' else ''worker_failure'') delay t' l s)))"

definition cancel_current :: "row_locks \<Rightarrow> int \<Rightarrow> int \<Rightarrow> lease \<Rightarrow> (q_db, unit) sop" where
  "cancel_current K t t' l = finish_lease K t t' l True 0 1"

definition fail_retryable :: "row_locks \<Rightarrow> int \<Rightarrow> int \<Rightarrow> lease \<Rightarrow> int \<Rightarrow> int \<Rightarrow> (q_db, unit) sop" where
  "fail_retryable K t t' l delay max_attempts s =
     lift (positive_int delay ''retry_delay_seconds'') s (\<lambda>_.
     lift (positive_int max_attempts ''max_attempts'') s (\<lambda>_.
       finish_lease K t t' l False delay max_attempts s))"

section \<open>Recovery\<close>

definition expired :: "int \<Rightarrow> q_attempt \<Rightarrow> bool" where
  "expired t a = (case qa_expires a of None \<Rightarrow> False | Some x \<Rightarrow> x \<le> t)"

definition reap_candidates :: "int \<Rightarrow> int \<Rightarrow> q_db \<Rightarrow> (string \<times> q_attempt) list" where
  "reap_candidates t limit s =
     take (nat limit) (sort_key (\<lambda>(_, a). the (qa_expires a))
       (filter (\<lambda>(i, a). qa_state a = ATT_ACTIVE \<and> expired t a \<and>
                  (case map_of (q_jobs s) (qa_job a) of None \<Rightarrow> False | Some j \<Rightarrow> qj_current j = Some i))
          (q_attempts s)))"

definition lease_of :: "string \<Rightarrow> q_attempt \<Rightarrow> lease" where
  "lease_of i a = \<lparr>l_job = qa_job a, l_attempt = i, l_worker = qa_worker a, l_epoch = qa_epoch a, l_expires = 0\<rparr>"

definition reap_one :: "row_locks \<Rightarrow> int \<Rightarrow> int \<Rightarrow> int \<Rightarrow> string \<times> q_attempt \<Rightarrow> nat \<times> q_db \<Rightarrow> nat \<times> q_db" where
  "reap_one K t delay max_attempts row = (\<lambda>(n, s).
     let l = lease_of (fst row) (snd row) in
     case lock_current K t False l s of
       Inl e \<Rightarrow> (n, s)
     | Inr a \<Rightarrow>
         if \<not> expired t a then (n, s)
         else (case map_of (q_jobs s) (l_job l) of None \<Rightarrow> (n, s) | Some j \<Rightarrow>
           (Suc n, end_lease (terminal_state (qj_cancel j \<noteq> None) (qa_no a) max_attempts)
                     ''lease_expired'' delay t l s)))"

definition reap_expired :: "row_locks \<Rightarrow> int \<Rightarrow> int \<Rightarrow> int \<Rightarrow> int \<Rightarrow> int \<Rightarrow> (q_db, nat) sop" where
  "reap_expired K t t' limit delay max_attempts s =
     lift (positive_int limit ''limit'') s (\<lambda>_.
     lift (positive_int delay ''retry_delay_seconds'') s (\<lambda>_.
     lift (positive_int max_attempts ''max_attempts'') s (\<lambda>_.
       (case fold (reap_one K t' delay max_attempts) (reap_candidates t limit s) (0, s) of
          (n, s') \<Rightarrow> ok n s'))))"

section \<open>Fenced reads\<close>

text \<open>One row of the input query: the job input with its asset and blob, both VERIFIED.\<close>

definition input_row :: "q_db \<Rightarrow> string \<Rightarrow> job_input \<Rightarrow> (job_input \<times> asset_record \<times> blob_record) option" where
  "input_row s ns i =
     (case q_assets s (input_asset_id i) of None \<Rightarrow> None | Some a \<Rightarrow>
      case q_blobs s (asset_blob_id a) of None \<Rightarrow> None | Some b \<Rightarrow>
        if asset_namespace_id a = ns \<and> asset_state a = ASSET_VERIFIED \<and> blob_state b = BLOB_VERIFIED
        then Some (i, a, b) else None)"

definition leased_job :: "lease \<Rightarrow> q_job \<Rightarrow> job_input list \<Rightarrow> job_record" where
  "leased_job l j ins =
     \<lparr>job_id = l_job l, job_namespace_id = qj_namespace j, job_idempotency_key = qj_key j,
      job_request_sha256 = qj_sha256 j, job_request = qj_request j, job_deployment_id = qj_deployment j,
      job_inputs = ins, job_required_kinds = qj_kinds j, job_state = RUNNING,
      job_current_attempt_id = Some (l_attempt l), job_winning_attempt_id = None,
      job_cancel_requested = False, job_lease_epoch = qj_epoch j\<rparr>"

fun evidence_list ::
  "pyenv \<Rightarrow> string \<Rightarrow> (job_input \<times> asset_record \<times> blob_record) list
     \<Rightarrow> (string \<times> asset_record \<times> blob_record) list res"
where
  "evidence_list E ns [] = Inr []"
| "evidence_list E ns ((i, a, b) # rows) =
     after (new_AssetRecord E (input_asset_id i) (asset_blob_id a) ns (asset_kind a) ASSET_VERIFIED
              (asset_metadata a)) (\<lambda>asset.
     after (new_BlobRecord (asset_blob_id a) (blob_sha256 b) (blob_size_bytes b) (blob_storage_key b)
              BLOB_VERIFIED (blob_content_type b)) (\<lambda>blob.
     after (evidence_list E ns rows) (\<lambda>rest. Inr ((input_role i, asset, blob) # rest))))"

definition load_verified_input_evidence ::
  "pyenv \<Rightarrow> row_locks \<Rightarrow> int \<Rightarrow> int \<Rightarrow> lease \<Rightarrow> q_db
     \<Rightarrow> (job_record \<times> attempt_record \<times> (string \<times> asset_record \<times> blob_record) list) res"
where
  "load_verified_input_evidence E K t t' l s =
     after (lock_current K t True l s) (\<lambda>a.
     case map_of (q_jobs s) (l_job l) of None \<Rightarrow> raise StateTransitionError ''current lease disappeared'' | Some j \<Rightarrow>
     let rows = List.map_filter (input_row s (qj_namespace j)) (sorted_inputs (qj_inputs j)) in
     if length rows \<noteq> length (qj_inputs j)
     then raise StateTransitionError ''job inputs are not all verified canonical assets''
     else
       after (new_JobRecord E (leased_job l j (map fst rows))) (\<lambda>job.
       after (new_AttemptRecord (l_attempt l) (l_job l) (l_worker l) (qa_no a) (l_epoch l) ATT_ACTIVE) (\<lambda>att.
       after (evidence_list E (qj_namespace j) rows) (\<lambda>ev.
       after (assert_current t' l s) (\<lambda>_. Inr (job, att, ev))))))"

definition load_ready_deployment ::
  "pyenv \<Rightarrow> row_locks \<Rightarrow> int \<Rightarrow> int \<Rightarrow> lease \<Rightarrow> q_db \<Rightarrow> deployment_record res"
where
  "load_ready_deployment E K t t' l s =
     after (lock_current K t True l s) (\<lambda>_.
     case map_of (q_jobs s) (l_job l) of None \<Rightarrow> lost | Some j \<Rightarrow>
     case map_of (q_workers s) (l_worker l) of None \<Rightarrow> lost | Some w \<Rightarrow>
     case q_deployments s (qj_deployment j) of
       None \<Rightarrow> raise StateTransitionError ''worker/job deployment is not READY and identical''
     | Some d \<Rightarrow>
         if qw_deployment w \<noteq> qj_deployment j \<or> dep_state d \<noteq> DEP_READY
         then raise StateTransitionError ''worker/job deployment is not READY and identical''
         else after (assert_current t' l s) (\<lambda>_.
           new_DeploymentRecord E (dep_id d) (dep_name d) (dep_adapter_id d) (dep_fingerprint d)
             DEP_READY (dep_manifest d)))"

end
