(* ===== verification/LeaseInv.thy ===== *)
theory LeaseInv
  imports LeaseQueue
begin

text \<open>
  The invariant of the lease tables, its preservation by every queue operation, and the order
  in which the operations move the tables forward. The invariant contains the constraints that
  the schema declares (one active attempt per job and per worker, unique attempt numbers, the
  lease shape, the epoch of the current attempt), so no statement of the queue violates them.
\<close>

section \<open>The invariant\<close>

definition qjob_ok :: "(string \<rightharpoonup> q_attempt) \<Rightarrow> string \<Rightarrow> q_job \<Rightarrow> bool" where
  "qjob_ok A i j \<longleftrightarrow>
     (case qj_state j of
        RUNNING \<Rightarrow> \<exists>a att. qj_current j = Some a \<and> A a = Some att \<and> qa_job att = i \<and>
                     qa_state att = ATT_ACTIVE \<and> qa_epoch att = qj_epoch j
      | QUEUED \<Rightarrow> qj_current j = None \<and> qj_cancel j = None
      | CANCELLED \<Rightarrow> qj_current j = None \<and> qj_cancel j \<noteq> None
      | _ \<Rightarrow> qj_current j = None)"

definition qatt_ok :: "(string \<rightharpoonup> q_job) \<Rightarrow> (string \<rightharpoonup> q_worker) \<Rightarrow> string \<Rightarrow> q_attempt \<Rightarrow> bool" where
  "qatt_ok J W a att \<longleftrightarrow>
     1 \<le> qa_no att \<and> qa_epoch att = qa_no att \<and>
     (\<exists>j. J (qa_job att) = Some j \<and> qa_epoch att \<le> qj_epoch j \<and>
        (if qa_state att = ATT_ACTIVE
         then qj_state j = RUNNING \<and> qj_current j = Some a \<and>
              (\<exists>w. W (qa_worker att) = Some w \<and> qw_state w = W_BUSY) \<and>
              (\<exists>h x. qa_heartbeat att = Some h \<and> qa_expires att = Some x \<and> h < x) \<and> qa_finished att = None
         else qa_heartbeat att = None \<and> qa_expires att = None \<and> qa_finished att \<noteq> None))"

definition jobs_ok where "jobs_ok J A \<longleftrightarrow> (\<forall>i j. J i = Some j \<longrightarrow> qjob_ok A i j)"

definition atts_ok where "atts_ok J W A \<longleftrightarrow> (\<forall>a att. A a = Some att \<longrightarrow> qatt_ok J W a att)"

definition one_per_worker :: "(string \<rightharpoonup> q_attempt) \<Rightarrow> bool" where
  "one_per_worker A \<longleftrightarrow>
     (\<forall>a b x y. A a = Some x \<and> A b = Some y \<and> qa_state x = ATT_ACTIVE \<and> qa_state y = ATT_ACTIVE \<and>
        qa_worker x = qa_worker y \<longrightarrow> a = b)"

definition numbers_unique :: "(string \<rightharpoonup> q_attempt) \<Rightarrow> bool" where
  "numbers_unique A \<longleftrightarrow>
     (\<forall>a b x y. A a = Some x \<and> A b = Some y \<and> qa_job x = qa_job y \<and> qa_no x = qa_no y \<longrightarrow> a = b)"

definition epochs_ok where
  "epochs_ok J atts \<longleftrightarrow> (\<forall>i j. J i = Some j \<longrightarrow> next_attempt_no i atts = qj_epoch j + 1)"

definition keys_ok :: "q_db \<Rightarrow> bool" where
  "keys_ok s \<longleftrightarrow> distinct (map fst (q_jobs s)) \<and> distinct (map fst (q_attempts s)) \<and>
     distinct (map fst (q_workers s))"

definition q_inv :: "q_db \<Rightarrow> bool" where
  "q_inv s \<longleftrightarrow>
     jobs_ok (map_of (q_jobs s)) (map_of (q_attempts s)) \<and>
     atts_ok (map_of (q_jobs s)) (map_of (q_workers s)) (map_of (q_attempts s)) \<and>
     one_per_worker (map_of (q_attempts s)) \<and> numbers_unique (map_of (q_attempts s)) \<and>
     epochs_ok (map_of (q_jobs s)) (q_attempts s) \<and> keys_ok s"

definition empty_queue :: q_db where
  "empty_queue = \<lparr>q_workers = [], q_jobs = [], q_attempts = [], q_events = [], q_assets = Map.empty,
     q_blobs = Map.empty, q_deployments = Map.empty\<rparr>"

lemma q_inv_empty: "q_inv empty_queue"
  by (simp add: q_inv_def empty_queue_def jobs_ok_def atts_ok_def one_per_worker_def numbers_unique_def
      epochs_ok_def keys_ok_def)

lemma q_event_frame [simp]:
  "q_jobs (q_event_add j a ty s) = q_jobs s" "q_attempts (q_event_add j a ty s) = q_attempts s"
  "q_workers (q_event_add j a ty s) = q_workers s"
  "q_inv (q_event_add j a ty s) = q_inv s"
  by (simp_all add: q_event_add_def q_inv_def keys_ok_def)

lemma qjob_ok_frame:
  assumes "qjob_ok A i k" and "\<And>b att. A b = Some att \<Longrightarrow> qa_job att = i \<Longrightarrow> A' b = Some att"
  shows "qjob_ok A' i k"
proof (cases "qj_state k = RUNNING")
  case True
  then obtain a att where "qj_current k = Some a" "A a = Some att" "qa_job att = i"
      "qa_state att = ATT_ACTIVE" "qa_epoch att = qj_epoch k"
    using assms(1) by (auto simp: qjob_ok_def)
  then show ?thesis using True assms(2) by (auto simp: qjob_ok_def)
next
  case False
  then show ?thesis using assms(1) by (cases "qj_state k") (auto simp: qjob_ok_def)
qed

lemma q_job: "q_inv s \<Longrightarrow> map_of (q_jobs s) i = Some j \<Longrightarrow> qjob_ok (map_of (q_attempts s)) i j"
  by (simp add: q_inv_def jobs_ok_def)

lemma q_att: "q_inv s \<Longrightarrow> map_of (q_attempts s) a = Some att \<Longrightarrow>
    qatt_ok (map_of (q_jobs s)) (map_of (q_workers s)) a att"
  by (simp add: q_inv_def atts_ok_def)

lemma one_per_workerD:
  "one_per_worker A \<Longrightarrow> A a = Some x \<Longrightarrow> A b = Some y \<Longrightarrow> qa_state x = ATT_ACTIVE \<Longrightarrow>
   qa_state y = ATT_ACTIVE \<Longrightarrow> qa_worker x = qa_worker y \<Longrightarrow> a = b"
  unfolding one_per_worker_def by simp

lemma numbers_uniqueD:
  "numbers_unique A \<Longrightarrow> A a = Some x \<Longrightarrow> A b = Some y \<Longrightarrow> qa_job x = qa_job y \<Longrightarrow>
   qa_no x = qa_no y \<Longrightarrow> a = b"
  unfolding numbers_unique_def by simp

lemma q_worker_unique:
  "q_inv s \<Longrightarrow> map_of (q_attempts s) a = Some x \<Longrightarrow> map_of (q_attempts s) b = Some y \<Longrightarrow>
   qa_state x = ATT_ACTIVE \<Longrightarrow> qa_state y = ATT_ACTIVE \<Longrightarrow> qa_worker x = qa_worker y \<Longrightarrow> a = b"
  by (rule one_per_workerD [of "map_of (q_attempts s)" a x b y]) (simp_all add: q_inv_def)

lemma next_attempt_no_set_row:
  assumes "\<And>r. qa_no (f r) = qa_no r \<and> qa_job (f r) = qa_job r"
  shows "next_attempt_no i (set_row k f t) = next_attempt_no i t"
proof -
  have f: "qa_no (f r) = qa_no r" "qa_job (f r) = qa_job r" for r using assms by blast+
  have "map (qa_no \<circ> snd) (filter (\<lambda>(_, a). qa_job a = i) (set_row k f t)) =
      map (qa_no \<circ> snd) (filter (\<lambda>(_, a). qa_job a = i) t)"
  proof (induction t)
    case (Cons p t)
    then show ?case by (cases p; cases "fst p = k") (simp_all add: set_row_def f)
  qed (simp add: set_row_def)
  then show ?thesis by (simp add: next_attempt_no_def)
qed

lemma foldr_max_init: "foldr max xs (max x (y::int)) = max x (foldr max xs y)"
  by (induction xs) (simp_all add: max.left_commute)

lemma foldr_max_nonneg: "0 \<le> foldr max xs (0::int)"
  by (induction xs) auto

lemma foldr_max_ge: "x \<in> set xs \<Longrightarrow> x \<le> foldr max xs (0::int)"
  by (induction xs) auto

lemma next_attempt_no_add_row:
  "next_attempt_no i (add_row k a t) =
     (if qa_job a = i then max (qa_no a + 1) (next_attempt_no i t) else next_attempt_no i t)"
  by (simp add: next_attempt_no_def add_row_def foldr_max_init max_add_distrib_left)

lemma next_attempt_no_pos: "1 \<le> next_attempt_no i t"
  by (simp add: next_attempt_no_def foldr_max_nonneg)

lemma next_attempt_no_above:
  "map_of t a = Some att \<Longrightarrow> qa_job att = i \<Longrightarrow> qa_no att < next_attempt_no i t"
  unfolding next_attempt_no_def
  by (rule zle_add1_eq_le [THEN iffD2], rule foldr_max_ge) (force dest: map_of_SomeD)

lemma lease_row_eq:
  "lease_row s l = Some (a, j) \<longleftrightarrow>
     map_of (q_attempts s) (l_attempt l) = Some a \<and> map_of (q_jobs s) (l_job l) = Some j \<and>
     (\<exists>w. map_of (q_workers s) (l_worker l) = Some w \<and> qw_state w = W_BUSY) \<and>
     qa_job a = l_job l \<and> qa_worker a = l_worker l \<and> qa_epoch a = l_epoch l \<and>
     qa_state a = ATT_ACTIVE \<and> qj_state j = RUNNING \<and> qj_current j = Some (l_attempt l) \<and>
     qj_epoch j = qa_epoch a"
  unfolding lease_row_def by (auto split: option.splits if_splits)

lemma lock_current_Inr:
  "lock_current K t ru l s = Inr a \<Longrightarrow> \<exists>j. lease_row s l = Some (a, j) \<and> (ru \<longrightarrow> unexpired t a)"
  by (auto simp: lock_current_def lost_def split: option.splits if_splits)

lemma lock_current_Inl:
  "lock_current K t ru l s = Inl e \<Longrightarrow> exc_class_of e = StateTransitionError"
  by (auto simp: lock_current_def lost_def raise_def split: option.splits if_splits)

section \<open>The end of a lease\<close>

lemma end_lease_tables:
  "map_of (q_attempts (end_lease st reason d t l s)) = (map_of (q_attempts s))
     (l_attempt l := map_option (\<lambda>a. a\<lparr>qa_state := st, qa_finished := Some t, qa_heartbeat := None,
        qa_expires := None, qa_reason := Some reason\<rparr>) (map_of (q_attempts s) (l_attempt l)))"
  "map_of (q_workers (end_lease st reason d t l s)) = (map_of (q_workers s))
     (l_worker l := map_option (\<lambda>w. w\<lparr>qw_state := W_READY\<rparr>) (map_of (q_workers s) (l_worker l)))"
  by (simp_all add: end_lease_def map_of_set_row)

definition ended_job :: "attempt_state \<Rightarrow> int \<Rightarrow> int \<Rightarrow> q_job \<Rightarrow> q_job" where
  "ended_job st d t j =
     (if job_state_after st = QUEUED
      then j\<lparr>qj_state := QUEUED, qj_current := None, qj_retry := Some (t + seconds d)\<rparr>
      else j\<lparr>qj_state := job_state_after st, qj_current := None\<rparr>)"

lemma end_lease_job:
  "lease_row s l = Some (a, j) \<Longrightarrow>
   map_of (q_jobs (end_lease st reason d t l s)) = (map_of (q_jobs s))(l_job l \<mapsto> ended_job st d t j)"
  by (simp add: end_lease_def map_of_set_row lease_row_eq ended_job_def)

text \<open>Which ends the queue produces: cancelled exactly when a cancellation was requested.\<close>

definition end_ok :: "q_job \<Rightarrow> attempt_state \<Rightarrow> bool" where
  "end_ok j st \<longleftrightarrow> st \<in> {ATT_CANCELLED, ATT_FAILED_TERMINAL, ATT_FAILED_RETRYABLE} \<and>
     (st = ATT_CANCELLED \<longleftrightarrow> qj_cancel j \<noteq> None)"

lemma terminal_state_ok: "end_ok j (terminal_state (qj_cancel j \<noteq> None) no m)"
  by (simp add: end_ok_def terminal_state_def)

lemma ended_job_simps [simp]:
  "qj_epoch (ended_job st d t j) = qj_epoch j" "qj_current (ended_job st d t j) = None"
  "qj_state (ended_job st d t j) = job_state_after st" "qj_cancel (ended_job st d t j) = qj_cancel j"
  by (auto simp: ended_job_def)

lemma job_state_after_ended: "end_ok j st \<Longrightarrow> job_state_after st \<in> {CANCELLED, FAILED, QUEUED}"
  by (auto simp: end_ok_def)

text \<open>
  However a lease ends: the attempt is closed with its evidence, the job is not running any more, the
  worker is READY.
\<close>

definition lease_closed :: "lease \<Rightarrow> q_attempt \<Rightarrow> q_job \<Rightarrow> q_db \<Rightarrow> q_db \<Rightarrow> bool" where
  "lease_closed l a' j' s s' \<longleftrightarrow>
     map_of (q_attempts s') = (map_of (q_attempts s))(l_attempt l \<mapsto> a') \<and>
     map_of (q_jobs s') = (map_of (q_jobs s))(l_job l \<mapsto> j') \<and>
     map_of (q_workers s') = (map_of (q_workers s))
       (l_worker l := map_option (\<lambda>w. w\<lparr>qw_state := W_READY\<rparr>) (map_of (q_workers s) (l_worker l))) \<and>
     (\<forall>i. next_attempt_no i (q_attempts s') = next_attempt_no i (q_attempts s)) \<and>
     (keys_ok s \<longrightarrow> keys_ok s')"

definition closed_attempt :: "q_attempt \<Rightarrow> q_attempt \<Rightarrow> bool" where
  "closed_attempt a a' \<longleftrightarrow> qa_job a' = qa_job a \<and> qa_no a' = qa_no a \<and> qa_worker a' = qa_worker a \<and>
     qa_epoch a' = qa_epoch a \<and> qa_state a' \<noteq> ATT_ACTIVE \<and> qa_heartbeat a' = None \<and> qa_expires a' = None \<and>
     qa_finished a' \<noteq> None"

definition closed_job :: "q_job \<Rightarrow> q_job \<Rightarrow> bool" where
  "closed_job j j' \<longleftrightarrow> qj_epoch j' = qj_epoch j \<and> (\<forall>A i. qjob_ok A i j')"

lemma closed_lease_inv:
  assumes inv: "q_inv s" and row: "lease_row s l = Some (a, j)" and c: "lease_closed l a' j' s s'"
    and a': "closed_attempt a a'" and j': "closed_job j j'"
  shows "q_inv s'"
proof -
  let ?A = "map_of (q_attempts s)" and ?J = "map_of (q_jobs s)" and ?W = "map_of (q_workers s)"
  let ?A' = "?A(l_attempt l \<mapsto> a')" and ?J' = "?J(l_job l \<mapsto> j')"
  obtain w where a: "?A (l_attempt l) = Some a" and j: "?J (l_job l) = Some j"
    and w: "?W (l_worker l) = Some w" and ids: "qa_job a = l_job l" "qa_worker a = l_worker l"
      "qa_state a = ATT_ACTIVE" "qj_state j = RUNNING" "qj_current j = Some (l_attempt l)"
    using row by (auto simp: lease_row_eq)
  let ?W' = "?W(l_worker l \<mapsto> w\<lparr>qw_state := W_READY\<rparr>)"
  have tabs: "map_of (q_attempts s') = ?A'" "map_of (q_jobs s') = ?J'" "map_of (q_workers s') = ?W'"
    using c w by (simp_all add: lease_closed_def)
  note ca = a' [unfolded closed_attempt_def]
  have "jobs_ok ?J' ?A'"
    unfolding jobs_ok_def
  proof (intro allI impI)
    fix i k assume k: "?J' i = Some k"
    show "qjob_ok ?A' i k"
    proof (cases "i = l_job l")
      case True
      then show ?thesis using k j' by (simp add: closed_job_def)
    next
      case False
      then have old: "qjob_ok ?A i k" using k q_job [OF inv] by simp
      have "?A b = Some att \<Longrightarrow> qa_job att = i \<Longrightarrow> ?A' b = Some att" for b att
        using False a ids(1) by auto
      then show ?thesis by (rule qjob_ok_frame [OF old])
    qed
  qed
  moreover have "atts_ok ?J' ?W' ?A'"
    unfolding atts_ok_def
  proof (intro allI impI)
    fix b att assume b: "?A' b = Some att"
    show "qatt_ok ?J' ?W' b att"
    proof (cases "b = l_attempt l")
      case True
      then show ?thesis using b q_att [OF inv a] ids(1) j ca j' by (auto simp: qatt_ok_def closed_job_def)
    next
      case False
      then have bA: "?A b = Some att" using b by simp
      have old: "qatt_ok ?J ?W b att" by (rule q_att [OF inv bA])
      have "qa_state att = ATT_ACTIVE \<Longrightarrow> qa_job att \<noteq> l_job l"
        using old j ids False by (auto simp: qatt_ok_def)
      moreover have "qa_state att = ATT_ACTIVE \<Longrightarrow> qa_worker att \<noteq> l_worker l"
        using q_worker_unique [OF inv bA a] ids False by auto
      ultimately show ?thesis using old j j' by (auto simp: qatt_ok_def closed_job_def)
    qed
  qed
  moreover have "one_per_worker ?A'"
    using inv ca unfolding q_inv_def one_per_worker_def by (auto split: if_splits)
  moreover have "numbers_unique ?A'"
    using inv a ca unfolding q_inv_def numbers_unique_def by (auto split: if_splits)
  moreover have "epochs_ok ?J' (q_attempts s')" "keys_ok s'"
    using inv j j' c unfolding q_inv_def epochs_ok_def lease_closed_def closed_job_def by auto
  ultimately show ?thesis by (simp add: q_inv_def tabs)
qed

lemma end_lease_inv:
  assumes inv: "q_inv s" and row: "lease_row s l = Some (a, j)" and st: "end_ok j st"
  shows "q_inv (end_lease st reason d t l s)"
proof (rule closed_lease_inv [OF inv row])
  let ?a = "a\<lparr>qa_state := st, qa_finished := Some t, qa_heartbeat := None, qa_expires := None,
              qa_reason := Some reason\<rparr>"
  have "map_of (q_attempts s) (l_attempt l) = Some a" using row by (simp add: lease_row_eq)
  then show "lease_closed l ?a (ended_job st d t j) s (end_lease st reason d t l s)"
    by (simp add: lease_closed_def end_lease_tables end_lease_job [OF row])
       (simp add: end_lease_def next_attempt_no_set_row keys_ok_def)
  show "closed_attempt a ?a" using st by (auto simp: closed_attempt_def end_ok_def)
  show "closed_job j (ended_job st d t j)" using st by (auto simp: closed_job_def qjob_ok_def end_ok_def)
qed

end
