(* ===== verification/LeaseLife.thy ===== *)
theory LeaseLife
  imports LeaseInv
begin

text \<open>
  What each queue operation does, that it keeps the invariant of the lease tables and moves them
  forward, and the queue as a machine. A lease that has ended is fenced forever.
\<close>

section \<open>Claiming\<close>

definition claimed where
  "claimed K t t' u w secs s l s' \<longleftrightarrow>
     (\<exists>worker job. map_of (q_workers s) w = Some worker \<and> qw_state worker = W_READY \<and>
        (l_job l, job) \<in> set (q_jobs s) \<and> claimable K t (qw_deployment worker) (l_job l, job) \<and>
        (\<forall>(i, j) \<in> set (q_jobs s). claimable K t (qw_deployment worker) (i, j) \<longrightarrow>
           (qj_created job, l_job l) \<le> (qj_created j, i)) \<and>
        l_attempt l = u \<and> l_worker l = w \<and> l_epoch l = qj_epoch job + 1 \<and>
        l_expires l = t' + seconds secs \<and> 1 \<le> secs \<and>
        s' = q_event_add (l_job l) (Some u) ''attempt_started''
          (s\<lparr>q_attempts := add_row u
               \<lparr>qa_job = l_job l, qa_worker = w, qa_no = next_attempt_no (l_job l) (q_attempts s),
                qa_epoch = l_epoch l, qa_state = ATT_ACTIVE, qa_heartbeat = Some t',
                qa_expires = Some (l_expires l), qa_finished = None, qa_reason = None\<rparr> (q_attempts s),
             q_jobs := set_row (l_job l) (\<lambda>r. r\<lparr>qj_state := RUNNING, qj_current := Some u,
               qj_epoch := l_epoch l, qj_retry := None\<rparr>) (q_jobs s),
             q_workers := set_row w (\<lambda>r. r\<lparr>qw_state := W_BUSY, qw_heartbeat := Some t'\<rparr>) (q_workers s)\<rparr>))"

lemma sort_key_head:
  assumes "sort_key f xs = y # ys"
  shows "y \<in> set xs" "\<forall>x \<in> set xs. f y \<le> f x"
proof -
  have "set xs = set (y # ys)" using assms by (metis set_sort)
  moreover have "sorted (map f (y # ys))" using assms by (metis sorted_sort_key)
  ultimately show "y \<in> set xs" "\<forall>x \<in> set xs. f y \<le> f x" by auto
qed

lemma claim_next_wp:
  "wp (\<lambda>_ s'. s' = s)
     (\<lambda>r s'. case r of None \<Rightarrow> s' = s | Some l \<Rightarrow> claimed K t t' u w secs s l s')
     (claim_next K t t' u w secs s)"
proof (cases "1 \<le> secs \<and> (\<exists>worker. map_of (q_workers s) w = Some worker \<and> qw_state worker = W_READY \<and>
    \<not> lk_worker K w)")
  case False
  then show ?thesis
    by (auto simp: claim_next_def wp_simps positive_int_def require_def)
next
  case True
  then obtain worker where w: "map_of (q_workers s) w = Some worker" "qw_state worker = W_READY"
    "\<not> lk_worker K w" and secs: "1 \<le> secs" by blast
  let ?key = "\<lambda>(i, j). (qj_created j, i)"
  let ?jobs = "filter (claimable K t (qw_deployment worker)) (q_jobs s)"
  show ?thesis
  proof (cases "sort_key ?key ?jobs")
    case Nil
    then show ?thesis using w secs
      by (simp add: claim_next_def wp_simps positive_int_def require_def)
  next
    case (Cons p ps)
    obtain i job where p: "p = (i, job)" by (cases p)
    have "(i, job) \<in> set ?jobs" "\<forall>x \<in> set ?jobs. ?key (i, job) \<le> ?key x"
      using sort_key_head [OF Cons] unfolding p by blast+
    then show ?thesis using w secs Cons p
      by (auto simp: claim_next_def wp_simps positive_int_def require_def claimed_def Let_def)
  qed
qed

lemma claimed_inv:
  assumes inv: "q_inv s" and c: "claimed K t t' u w secs s l s'" and fresh: "u \<notin> fst ` set (q_attempts s)"
  shows "q_inv s'"
proof -
  let ?A = "map_of (q_attempts s)" and ?J = "map_of (q_jobs s)" and ?W = "map_of (q_workers s)"
  obtain worker job where w: "?W w = Some worker" "qw_state worker = W_READY"
    and mem: "(l_job l, job) \<in> set (q_jobs s)" and qd: "qj_state job = QUEUED"
    and l: "l_epoch l = qj_epoch job + 1" "l_expires l = t' + seconds secs" "1 \<le> secs"
    and s': "s' = q_event_add (l_job l) (Some u) ''attempt_started''
          (s\<lparr>q_attempts := add_row u
               \<lparr>qa_job = l_job l, qa_worker = w, qa_no = next_attempt_no (l_job l) (q_attempts s),
                qa_epoch = l_epoch l, qa_state = ATT_ACTIVE, qa_heartbeat = Some t',
                qa_expires = Some (l_expires l), qa_finished = None, qa_reason = None\<rparr> (q_attempts s),
             q_jobs := set_row (l_job l) (\<lambda>r. r\<lparr>qj_state := RUNNING, qj_current := Some u,
               qj_epoch := l_epoch l, qj_retry := None\<rparr>) (q_jobs s),
             q_workers := set_row w (\<lambda>r. r\<lparr>qw_state := W_BUSY, qw_heartbeat := Some t'\<rparr>) (q_workers s)\<rparr>)"
    using c unfolding claimed_def claimable_def by auto
  have keys: "keys_ok s" using inv by (simp add: q_inv_def)
  have j: "?J (l_job l) = Some job" using mem keys by (simp add: keys_ok_def)
  have no: "next_attempt_no (l_job l) (q_attempts s) = l_epoch l"
    using inv j l(1) by (simp add: q_inv_def epochs_ok_def)
  let ?a = "\<lparr>qa_job = l_job l, qa_worker = w, qa_no = l_epoch l, qa_epoch = l_epoch l,
      qa_state = ATT_ACTIVE, qa_heartbeat = Some t', qa_expires = Some (l_expires l),
      qa_finished = None, qa_reason = None\<rparr>"
  let ?j = "job\<lparr>qj_state := RUNNING, qj_current := Some u, qj_epoch := l_epoch l, qj_retry := None\<rparr>"
  let ?A' = "?A(u \<mapsto> ?a)" and ?J' = "?J(l_job l \<mapsto> ?j)"
  let ?W' = "?W(w \<mapsto> worker\<lparr>qw_state := W_BUSY, qw_heartbeat := Some t'\<rparr>)"
  have tabs: "map_of (q_attempts s') = ?A'" "map_of (q_jobs s') = ?J'" "map_of (q_workers s') = ?W'"
    using fresh by (simp_all add: s' no map_of_add_row map_of_set_row j w)
  have u: "?A u = None" using fresh by (simp add: dom_table)
  have noact: "qa_job att \<noteq> l_job l \<and> qa_worker att \<noteq> w"
    if "?A b = Some att" "qa_state att = ATT_ACTIVE" for b att
    using q_att [OF inv that(1)] that(2) j qd w by (auto simp: qatt_ok_def)
  have "jobs_ok ?J' ?A'"
    unfolding jobs_ok_def
  proof (intro allI impI)
    fix i k assume k: "?J' i = Some k"
    show "qjob_ok ?A' i k"
    proof (cases "i = l_job l")
      case True
      then show ?thesis using k by (auto simp: qjob_ok_def)
    next
      case False
      then have "qjob_ok ?A i k" using k q_job [OF inv] by simp
      then show ?thesis by (rule qjob_ok_frame) (use u in auto)
    qed
  qed
  moreover have "atts_ok ?J' ?W' ?A'"
    unfolding atts_ok_def
  proof (intro allI impI)
    fix b att assume b: "?A' b = Some att"
    show "qatt_ok ?J' ?W' b att"
    proof (cases "b = u")
      case True
      then show ?thesis
        using b l no next_attempt_no_pos [of "l_job l" "q_attempts s"]
        by (auto simp: qatt_ok_def seconds_def)
    next
      case False
      then have bA: "?A b = Some att" using b by simp
      show ?thesis
      proof (cases "qa_state att = ATT_ACTIVE")
        case True
        then show ?thesis using q_att [OF inv bA] noact [OF bA True] by (auto simp: qatt_ok_def)
      next
        case inactive: False
        then show ?thesis using q_att [OF inv bA] j l(1) by (auto simp: qatt_ok_def)
      qed
    qed
  qed
  moreover have "one_per_worker ?A'"
    unfolding one_per_worker_def
  proof (intro allI impI, elim conjE)
    fix a b x y
    assume "?A' a = Some x" "?A' b = Some y" "qa_state x = ATT_ACTIVE" "qa_state y = ATT_ACTIVE"
      "qa_worker x = qa_worker y"
    then show "a = b"
      using q_worker_unique [OF inv, of a x b y] by (cases "a = u"; cases "b = u") (auto dest: noact)
  qed
  moreover have "numbers_unique ?A'"
    unfolding numbers_unique_def
  proof (intro allI impI, elim conjE)
    fix a b x y
    assume ab: "?A' a = Some x" "?A' b = Some y" "qa_job x = qa_job y" "qa_no x = qa_no y"
    have below: "qa_no z < l_epoch l" if "?A c = Some z" "qa_job z = l_job l" for c z
      using next_attempt_no_above [OF that] no by simp
    have "numbers_unique ?A" using inv by (simp add: q_inv_def)
    then show "a = b"
      using ab numbers_uniqueD [of ?A a x b y] by (cases "a = u"; cases "b = u") (auto dest: below)
  qed
  moreover have "epochs_ok ?J' (q_attempts s')"
  proof -
    have "next_attempt_no i (q_attempts s') = (if i = l_job l then l_epoch l + 1 else next_attempt_no i (q_attempts s))" for i
      using no by (simp add: s' next_attempt_no_add_row)
    then show ?thesis using inv unfolding q_inv_def epochs_ok_def by simp
  qed
  moreover have "keys_ok s'"
    using keys fresh by (simp add: keys_ok_def s' distinct_add_row)
  ultimately show ?thesis by (simp add: q_inv_def tabs)
qed

section \<open>Heartbeats\<close>

lemma qjob_ok_touch:
  assumes "qjob_ok A i k"
    and "\<And>b att. A b = Some att \<Longrightarrow> \<exists>att'. A' b = Some att' \<and> qa_job att' = qa_job att \<and>
           qa_state att' = qa_state att \<and> qa_epoch att' = qa_epoch att"
  shows "qjob_ok A' i k"
proof (cases "qj_state k = RUNNING")
  case True
  then obtain a att where "qj_current k = Some a" "A a = Some att" "qa_job att = i"
      "qa_state att = ATT_ACTIVE" "qa_epoch att = qj_epoch k"
    using assms(1) by (auto simp: qjob_ok_def)
  then show ?thesis using True assms(2) [of a att] by (auto simp: qjob_ok_def)
next
  case False
  then show ?thesis using assms(1) by (cases "qj_state k") (auto simp: qjob_ok_def)
qed

definition beaten :: "int \<Rightarrow> lease \<Rightarrow> int \<Rightarrow> q_db \<Rightarrow> q_db" where
  "beaten t' l secs s =
     s\<lparr>q_attempts := set_row (l_attempt l)
              (\<lambda>a. a\<lparr>qa_heartbeat := Some t', qa_expires := Some (t' + seconds secs)\<rparr>) (q_attempts s),
            q_workers := set_row (l_worker l)
              (\<lambda>w. if qw_state w = W_BUSY then w\<lparr>qw_heartbeat := Some t'\<rparr> else w) (q_workers s)\<rparr>"

lemma assert_current_eq:
  "assert_current t l s = Inr () \<longleftrightarrow>
     (\<exists>a j. lease_row s l = Some (a, j) \<and> unexpired t a \<and> qj_cancel j = None)"
  by (auto simp: assert_current_def lost_def split: option.splits)

lemma heartbeat_wp:
  "wp (\<lambda>_ s'. s' = s)
     (\<lambda>l' s'. l' = l\<lparr>l_expires := t' + seconds secs\<rparr> \<and> s' = beaten t' l secs s \<and> 1 \<le> secs \<and>
        (\<exists>a j. lease_row s l = Some (a, j) \<and> unexpired t a \<and> unexpired t' a \<and> qj_cancel j = None))
     (heartbeat t t' l secs s)"
  unfolding heartbeat_def
  by (simp add: wp_simps assert_current_eq positive_int_def beaten_def)
    (fastforce dest: lock_current_Inr)

lemma beaten_inv:
  assumes inv: "q_inv s" and row: "lease_row s l = Some (a, j)" and secs: "1 \<le> secs"
  shows "q_inv (beaten t' l secs s)"
proof -
  let ?A = "map_of (q_attempts s)" and ?J = "map_of (q_jobs s)" and ?W = "map_of (q_workers s)"
  let ?a = "a\<lparr>qa_heartbeat := Some t', qa_expires := Some (t' + seconds secs)\<rparr>"
  obtain w where a: "?A (l_attempt l) = Some a" and w: "?W (l_worker l) = Some w" "qw_state w = W_BUSY"
    and act: "qa_state a = ATT_ACTIVE"
    using row by (auto simp: lease_row_eq)
  let ?A' = "?A(l_attempt l \<mapsto> ?a)" and ?W' = "?W(l_worker l \<mapsto> w\<lparr>qw_heartbeat := Some t'\<rparr>)"
  let ?s = "beaten t' l secs s"
  have tabs: "map_of (q_attempts ?s) = ?A'" "map_of (q_jobs ?s) = ?J" "map_of (q_workers ?s) = ?W'"
    by (simp_all add: beaten_def map_of_set_row a w)
  have old: "\<exists>z. ?A c = Some z \<and> qa_job z = qa_job x \<and> qa_no z = qa_no x \<and>
      qa_worker z = qa_worker x \<and> qa_state z = qa_state x" if "?A' c = Some x" for c x
    using that a by (auto split: if_splits)
  have "jobs_ok ?J ?A'"
    unfolding jobs_ok_def
  proof (intro allI impI)
    fix i k assume "?J i = Some k"
    from q_job [OF inv this] show "qjob_ok ?A' i k"
      by (rule qjob_ok_touch) (use a in auto)
  qed
  moreover have "atts_ok ?J ?W' ?A'"
    unfolding atts_ok_def
  proof (intro allI impI)
    fix b att assume b: "?A' b = Some att"
    show "qatt_ok ?J ?W' b att"
    proof (cases "b = l_attempt l")
      case True
      then show ?thesis using b q_att [OF inv a] act secs w by (auto simp: qatt_ok_def seconds_def)
    next
      case False
      then show ?thesis using b q_att [OF inv, of b att] w by (auto simp: qatt_ok_def)
    qed
  qed
  moreover have "one_per_worker ?A'"
    unfolding one_per_worker_def
  proof (intro allI impI, elim conjE)
    fix c b x y
    assume xy: "?A' c = Some x" "?A' b = Some y" "qa_state x = ATT_ACTIVE" "qa_state y = ATT_ACTIVE"
      "qa_worker x = qa_worker y"
    obtain x' where x': "?A c = Some x'" "qa_state x' = qa_state x" "qa_worker x' = qa_worker x"
      using old [OF xy(1)] by blast
    obtain y' where y': "?A b = Some y'" "qa_state y' = qa_state y" "qa_worker y' = qa_worker y"
      using old [OF xy(2)] by blast
    show "c = b" by (rule q_worker_unique [OF inv x'(1) y'(1)]) (simp_all add: x' y' xy)
  qed
  moreover have "numbers_unique ?A'"
  proof -
    have num: "numbers_unique ?A" using inv by (simp add: q_inv_def)
    show ?thesis
      unfolding numbers_unique_def
    proof (intro allI impI, elim conjE)
      fix c b x y
      assume xy: "?A' c = Some x" "?A' b = Some y" "qa_job x = qa_job y" "qa_no x = qa_no y"
      obtain x' where x': "?A c = Some x'" "qa_job x' = qa_job x" "qa_no x' = qa_no x"
        using old [OF xy(1)] by blast
      obtain y' where y': "?A b = Some y'" "qa_job y' = qa_job y" "qa_no y' = qa_no y"
        using old [OF xy(2)] by blast
      show "c = b" by (rule numbers_uniqueD [OF num x'(1) y'(1)]) (simp_all add: x' y' xy)
    qed
  qed
  moreover have "epochs_ok ?J (q_attempts ?s)"
    using inv by (simp add: q_inv_def epochs_ok_def beaten_def next_attempt_no_set_row)
  moreover have "keys_ok ?s" using inv by (simp add: q_inv_def keys_ok_def beaten_def)
  ultimately show ?thesis by (simp add: q_inv_def tabs)
qed

section \<open>Cancellation, failure, recovery\<close>

definition cancel_marked :: "int \<Rightarrow> string \<Rightarrow> q_job \<Rightarrow> q_db \<Rightarrow> q_db" where
  "cancel_marked t j job s =
     q_event_add j (qj_current job) ''cancel_requested''
       (s\<lparr>q_jobs := set_row j (\<lambda>r. r\<lparr>qj_state := if qj_state r = QUEUED then CANCELLED else qj_state r,
                                     qj_cancel := Some t\<rparr>) (q_jobs s)\<rparr>)"

lemma q_request_cancel_eq:
  "q_request_cancel t j s =
     (case map_of (q_jobs s) j of
        Some job \<Rightarrow> if qj_state job \<in> {QUEUED, RUNNING} \<and> qj_cancel job = None
                    then (Inr True, cancel_marked t j job s) else (Inr False, s)
      | None \<Rightarrow> (Inr False, s))"
  by (auto simp: q_request_cancel_def ok_def cancel_marked_def split: option.splits)

lemma cancel_marked_inv:
  assumes inv: "q_inv s" and j: "map_of (q_jobs s) j = Some job" "qj_state job \<in> {QUEUED, RUNNING}"
  shows "q_inv (cancel_marked t j job s)"
proof -
  let ?A = "map_of (q_attempts s)" and ?J = "map_of (q_jobs s)" and ?W = "map_of (q_workers s)"
  let ?j = "job\<lparr>qj_state := if qj_state job = QUEUED then CANCELLED else qj_state job, qj_cancel := Some t\<rparr>"
  let ?J' = "?J(j \<mapsto> ?j)" and ?s = "cancel_marked t j job s"
  have tabs: "map_of (q_attempts ?s) = ?A" "map_of (q_jobs ?s) = ?J'" "map_of (q_workers ?s) = ?W"
    by (simp_all add: cancel_marked_def map_of_set_row j)
  have "qjob_ok ?A j ?j"
    using q_job [OF inv j(1)] j(2) by (auto simp: qjob_ok_def)
  then have "jobs_ok ?J' ?A" using q_job [OF inv] by (auto simp: jobs_ok_def split: if_splits)
  moreover have "atts_ok ?J' ?W ?A"
    unfolding atts_ok_def
  proof (intro allI impI)
    fix b att assume "?A b = Some att"
    from q_att [OF inv this] show "qatt_ok ?J' ?W b att"
      using j by (cases "qa_job att = j") (auto simp: qatt_ok_def)
  qed
  moreover have "epochs_ok ?J' (q_attempts ?s)"
    using inv j(1) by (auto simp: q_inv_def epochs_ok_def cancel_marked_def)
  moreover have "keys_ok ?s" using inv by (simp add: q_inv_def keys_ok_def cancel_marked_def)
  ultimately show ?thesis using inv by (simp add: q_inv_def tabs)
qed

definition lease_ended where
  "lease_ended l s s' \<longleftrightarrow>
     (\<exists>a j st reason d t. lease_row s l = Some (a, j) \<and> end_ok j st \<and> s' = end_lease st reason d t l s)"

lemma lease_endedI:
  "lease_row s l = Some (a, j) \<Longrightarrow> end_ok j st \<Longrightarrow> lease_ended l s (end_lease st reason d t l s)"
  by (auto simp: lease_ended_def)

lemma finish_lease_wp:
  "wp (\<lambda>e s'. s' = s \<and> exc_class_of e = StateTransitionError) (\<lambda>_ s'. lease_ended l s s')
     (finish_lease K t t' l cancelled d m s)"
proof (cases "lock_current K t True l s")
  case (Inl e)
  then show ?thesis by (simp add: finish_lease_def wp_simps lock_current_Inl)
next
  case (Inr a)
  then obtain j where row: "lease_row s l = Some (a, j)" by (auto dest: lock_current_Inr)
  have j: "map_of (q_jobs s) (l_job l) = Some j" using row by (simp add: lease_row_eq)
  let ?st = "terminal_state (cancelled \<or> qj_cancel j \<noteq> None) (qa_no a) m"
  have "end_ok j ?st" if "\<not> (cancelled \<and> qj_cancel j = None)"
    using that by (auto simp: end_ok_def terminal_state_def)
  then show ?thesis
    using lease_endedI [OF row, of ?st]
    by (cases "cancelled \<and> qj_cancel j = None")
      (auto simp: finish_lease_def fail_def raise_def wp_simps Inr j Let_def)
qed

lemma fail_retryable_wp:
  "wp (\<lambda>_ s'. s' = s) (\<lambda>_ s'. lease_ended l s s') (fail_retryable K t t' l d m s)"
  unfolding fail_retryable_def
  by (simp add: wp_simps) (auto intro: wp_mono [OF finish_lease_wp])

lemma cancel_current_wp:
  "wp (\<lambda>_ s'. s' = s) (\<lambda>_ s'. lease_ended l s s') (cancel_current K t t' l s)"
  unfolding cancel_current_def by (auto intro: wp_mono [OF finish_lease_wp])

lemma lease_ended_inv: "lease_ended l s s' \<Longrightarrow> q_inv s \<Longrightarrow> q_inv s'"
  by (auto simp: lease_ended_def end_lease_inv)

lemma reap_one_cases:
  "snd (reap_one K t d m row (n, s)) = s \<or>
   lease_ended (lease_of (fst row) (snd row)) s (snd (reap_one K t d m row (n, s)))"
proof (cases "lock_current K t False (lease_of (fst row) (snd row)) s")
  case (Inl e)
  then show ?thesis by (simp add: reap_one_def Let_def)
next
  case (Inr a)
  then obtain j where r: "lease_row s (lease_of (fst row) (snd row)) = Some (a, j)"
    by (auto dest: lock_current_Inr)
  then have "map_of (q_jobs s) (l_job (lease_of (fst row) (snd row))) = Some j" by (simp add: lease_row_eq)
  then show ?thesis
    using r terminal_state_ok [of j "qa_no a" m]
    by (auto simp: reap_one_def Let_def Inr lease_ended_def)
qed

text \<open>Whatever holds between two states that differ by the end of one lease holds for a whole reap.\<close>

lemma reap_expired_steps:
  assumes refl: "\<And>s. R s s" and trans: "\<And>s t u. R s t \<Longrightarrow> R t u \<Longrightarrow> R s u"
    and step: "\<And>l s s'. P s \<Longrightarrow> lease_ended l s s' \<Longrightarrow> P s' \<and> R s s'" and P: "P s"
  shows "P (snd (reap_expired K t t' limit d m s)) \<and> R s (snd (reap_expired K t t' limit d m s))"
proof -
  have fold: "P s' \<Longrightarrow> P (snd (fold (reap_one K t' d m) rows (n, s'))) \<and>
      R s' (snd (fold (reap_one K t' d m) rows (n, s')))" for rows n s'
  proof (induction rows arbitrary: n s')
    case Nil
    then show ?case by (simp add: refl)
  next
    case (Cons row rows)
    obtain k u where u: "reap_one K t' d m row (n, s') = (k, u)" by fastforce
    then have "P u \<and> R s' u"
      using reap_one_cases [of K t' d m row n s'] step [OF Cons.prems] Cons.prems refl by auto
    then show ?case using Cons.IH [of u k] trans by (auto simp: u)
  qed
  show ?thesis
    using P fold [OF P, of "reap_candidates t limit s" 0] refl
    unfolding reap_expired_def lift_def
    by (auto simp: ok_def split: sum.splits prod.splits)
qed

section \<open>The queue as a machine\<close>

datatype q_op =
    QWorker string q_worker
  | QJob string q_job
  | QClaim row_locks int int string string int
  | QHeartbeat int int lease int
  | QCancel int string
  | QCancelCurrent row_locks int int lease
  | QFail row_locks int int lease int int
  | QReap row_locks int int int int int

fun q_step :: "q_op \<Rightarrow> q_db \<Rightarrow> q_db" where
  "q_step (QWorker w r) s = s\<lparr>q_workers := add_row w r (q_workers s)\<rparr>"
| "q_step (QJob j r) s = s\<lparr>q_jobs := add_row j r (q_jobs s)\<rparr>"
| "q_step (QClaim K t t' u w secs) s = snd (claim_next K t t' u w secs s)"
| "q_step (QHeartbeat t t' l secs) s = snd (heartbeat t t' l secs s)"
| "q_step (QCancel t j) s = snd (q_request_cancel t j s)"
| "q_step (QCancelCurrent K t t' l) s = snd (cancel_current K t t' l s)"
| "q_step (QFail K t t' l d m) s = snd (fail_retryable K t t' l d m s)"
| "q_step (QReap K t t' limit d m) s = snd (reap_expired K t t' limit d m s)"

text \<open>
  What the rest of the system promises: identifiers are fresh, a registered worker is READY and
  a created job is QUEUED without attempts. Nothing is promised about the clock.
\<close>

fun q_guard :: "q_op \<Rightarrow> q_db \<Rightarrow> bool" where
  "q_guard (QWorker w r) s = (w \<notin> fst ` set (q_workers s) \<and> qw_state r = W_READY)"
| "q_guard (QJob j r) s =
     (j \<notin> fst ` set (q_jobs s) \<and> qj_state r = QUEUED \<and> qj_epoch r = 0 \<and> qj_current r = None \<and>
      qj_cancel r = None \<and> qj_winning r = None)"
| "q_guard (QClaim K t t' u w secs) s = (u \<notin> fst ` set (q_attempts s))"
| "q_guard _ s = True"

lemma q_worker_inv:
  assumes inv: "q_inv s" and fresh: "w \<notin> fst ` set (q_workers s)"
  shows "q_inv (s\<lparr>q_workers := add_row w r (q_workers s)\<rparr>)"
proof -
  have "map_of (q_workers s) w = None" using fresh by (simp add: dom_table)
  then have "qatt_ok J (map_of (q_workers s)) a att \<Longrightarrow> qatt_ok J ((map_of (q_workers s))(w \<mapsto> r)) a att" for J a att
    by (auto simp: qatt_ok_def)
  then show ?thesis
    using inv fresh by (simp add: q_inv_def atts_ok_def keys_ok_def map_of_add_row distinct_add_row)
qed

lemma q_job_inv:
  assumes inv: "q_inv s" and g: "q_guard (QJob j r) s"
  shows "q_inv (s\<lparr>q_jobs := add_row j r (q_jobs s)\<rparr>)"
proof -
  let ?A = "map_of (q_attempts s)" and ?J = "map_of (q_jobs s)"
  have none: "?J j = None" using g by (simp add: dom_table)
  have noatt: "qa_job att \<noteq> j" if "?A a = Some att" for a att
    using q_att [OF inv that] none by (auto simp: qatt_ok_def)
  have "filter (\<lambda>(_, a). qa_job a = j) (q_attempts s) = []"
    using noatt inv by (force simp: filter_empty_conv q_inv_def keys_ok_def dest: map_of_is_SomeI)
  then have "next_attempt_no j (q_attempts s) = 1" by (simp add: next_attempt_no_def)
  then have "epochs_ok (?J(j \<mapsto> r)) (q_attempts s)"
    using inv g by (auto simp: q_inv_def epochs_ok_def)
  moreover have "jobs_ok (?J(j \<mapsto> r)) ?A"
    using inv g by (auto simp: q_inv_def jobs_ok_def qjob_ok_def)
  moreover have "atts_ok (?J(j \<mapsto> r)) (map_of (q_workers s)) ?A"
    unfolding atts_ok_def
  proof (intro allI impI)
    fix a att assume "?A a = Some att"
    from q_att [OF inv this] noatt [OF this]
    show "qatt_ok (?J(j \<mapsto> r)) (map_of (q_workers s)) a att" by (auto simp: qatt_ok_def)
  qed
  ultimately show ?thesis
    using inv g by (simp add: q_inv_def keys_ok_def map_of_add_row distinct_add_row)
qed

lemma q_step_inv: "q_inv s \<Longrightarrow> q_guard x s \<Longrightarrow> q_inv (q_step x s)"
proof (cases x)
  case (QClaim K t t' u w secs)
  assume "q_inv s" "q_guard x s"
  then show ?thesis
    unfolding QClaim q_step.simps wp_state [symmetric, where P = q_inv]
    by (intro wp_mono [OF claim_next_wp]) (auto intro: claimed_inv split: option.splits)
next
  case (QHeartbeat t t' l secs)
  assume "q_inv s"
  then show ?thesis
    unfolding QHeartbeat q_step.simps wp_state [symmetric, where P = q_inv]
    by (intro wp_mono [OF heartbeat_wp]) (auto intro: beaten_inv)
next
  case (QCancel t j)
  assume "q_inv s"
  then show ?thesis
    by (auto simp: QCancel q_request_cancel_eq cancel_marked_inv split: option.splits)
next
  case (QCancelCurrent K t t' l)
  assume "q_inv s"
  then show ?thesis
    unfolding QCancelCurrent q_step.simps wp_state [symmetric, where P = q_inv]
    by (intro wp_mono [OF cancel_current_wp]) (auto intro: lease_ended_inv)
next
  case (QFail K t t' l d m)
  assume "q_inv s"
  then show ?thesis
    unfolding QFail q_step.simps wp_state [symmetric, where P = q_inv]
    by (intro wp_mono [OF fail_retryable_wp]) (auto intro: lease_ended_inv)
next
  case (QReap K t t' limit d m)
  assume "q_inv s"
  then show ?thesis
    using reap_expired_steps [of "\<lambda>_ _. True" q_inv s] by (simp add: QReap lease_ended_inv)
qed (simp_all add: q_worker_inv q_job_inv del: q_guard.simps(2))

section \<open>Forward movement\<close>

definition qjob_le :: "q_job \<Rightarrow> q_job \<Rightarrow> bool" where
  "qjob_le j j' \<longleftrightarrow>
     qj_epoch j \<le> qj_epoch j' \<and> (qj_cancel j \<noteq> None \<longrightarrow> qj_cancel j' = qj_cancel j) \<and>
     (qj_state j \<notin> {QUEUED, RUNNING} \<longrightarrow> j' = j) \<and>
     (qj_cancel j \<noteq> None \<longrightarrow> qj_state j' \<in> {qj_state j, CANCELLED})"

definition qatt_le :: "q_attempt \<Rightarrow> q_attempt \<Rightarrow> bool" where
  "qatt_le a a' \<longleftrightarrow>
     qa_job a' = qa_job a \<and> qa_worker a' = qa_worker a \<and> qa_no a' = qa_no a \<and> qa_epoch a' = qa_epoch a \<and>
     (qa_state a \<noteq> ATT_ACTIVE \<longrightarrow> a' = a)"

definition q_le :: "q_db \<Rightarrow> q_db \<Rightarrow> bool" where
  "q_le s t \<longleftrightarrow> grows qjob_le (map_of (q_jobs s)) (map_of (q_jobs t)) \<and>
     grows qatt_le (map_of (q_attempts s)) (map_of (q_attempts t))"

lemma qjob_le_refl [simp]: "qjob_le j j" and qatt_le_refl [simp]: "qatt_le a a"
  by (simp_all add: qjob_le_def qatt_le_def)

lemma qjob_le_trans: "qjob_le x y \<Longrightarrow> qjob_le y z \<Longrightarrow> qjob_le x z"
  unfolding qjob_le_def by (elim conjE, intro conjI) auto

lemma qatt_le_trans: "qatt_le x y \<Longrightarrow> qatt_le y z \<Longrightarrow> qatt_le x z"
  unfolding qatt_le_def by auto

lemma q_le_refl [simp]: "q_le s s"
  by (simp add: q_le_def)

lemma q_le_trans: "q_le s t \<Longrightarrow> q_le t u \<Longrightarrow> q_le s u"
  unfolding q_le_def by (blast intro: grows_trans qjob_le_trans qatt_le_trans)

lemma claimed_le:
  assumes inv: "q_inv s" and c: "claimed K t t' u w secs s l s'" and fresh: "u \<notin> fst ` set (q_attempts s)"
  shows "q_le s s'"
proof -
  obtain job where mem: "(l_job l, job) \<in> set (q_jobs s)" and qd: "qj_state job = QUEUED" "qj_cancel job = None"
    and l: "l_epoch l = qj_epoch job + 1"
    using c unfolding claimed_def claimable_def by auto
  have j: "map_of (q_jobs s) (l_job l) = Some job" using mem inv by (simp add: q_inv_def keys_ok_def)
  obtain a where A: "map_of (q_attempts s') = (map_of (q_attempts s))(u \<mapsto> a)"
    and J: "map_of (q_jobs s') = (map_of (q_jobs s))(l_job l \<mapsto>
      job\<lparr>qj_state := RUNNING, qj_current := Some u, qj_epoch := l_epoch l, qj_retry := None\<rparr>)"
    using c fresh j by (auto simp: claimed_def map_of_add_row map_of_set_row)
  have "map_of (q_attempts s) u = None" using fresh by (simp add: dom_table)
  then have "grows qatt_le (map_of (q_attempts s)) (map_of (q_attempts s'))"
    unfolding A by (intro grows_new) simp_all
  moreover have "grows qjob_le (map_of (q_jobs s)) (map_of (q_jobs s'))"
    unfolding J using j qd l by (intro grows_upd [where v = job]) (simp_all add: qjob_le_def)
  ultimately show ?thesis by (simp add: q_le_def)
qed

lemma lease_ended_le: "q_inv s \<Longrightarrow> lease_ended l s s' \<Longrightarrow> q_le s s'"
proof -
  assume inv: "q_inv s" and "lease_ended l s s'"
  then obtain a j st reason d t where row: "lease_row s l = Some (a, j)" and ok: "end_ok j st"
    and s': "s' = end_lease st reason d t l s" unfolding lease_ended_def by blast
  have "qjob_le j (ended_job st d t j)"
    using row ok by (auto simp: qjob_le_def lease_row_eq end_ok_def)
  then show ?thesis
    using row by (auto simp: s' q_le_def end_lease_job [OF row] end_lease_tables lease_row_eq qatt_le_def
        intro!: grows_upd)
qed

lemma q_step_le: "q_inv s \<Longrightarrow> q_guard x s \<Longrightarrow> q_le s (q_step x s)"
proof (cases x)
  case (QClaim K t t' u w secs)
  assume "q_inv s" "q_guard x s"
  then show ?thesis
    unfolding QClaim q_step.simps wp_state [symmetric, where P = "q_le s"]
    by (intro wp_mono [OF claim_next_wp]) (auto intro: claimed_le split: option.splits)
next
  case (QHeartbeat t t' l secs)
  have "q_le s (beaten t' l secs s)" if "lease_row s l = Some (a, j)" for a j
    using that by (auto simp: beaten_def q_le_def lease_row_eq map_of_set_row qatt_le_def intro!: grows_upd)
  then show ?thesis
    unfolding QHeartbeat q_step.simps wp_state [symmetric, where P = "q_le s"]
    by (intro wp_mono [OF heartbeat_wp]) auto
next
  case (QCancel t j)
  have "q_le s (cancel_marked t j job s)"
    if "map_of (q_jobs s) j = Some job" "qj_state job \<in> {QUEUED, RUNNING}" "qj_cancel job = None" for job
    using that by (auto simp: cancel_marked_def q_le_def map_of_set_row qjob_le_def intro!: grows_upd)
  then show ?thesis by (auto simp: QCancel q_request_cancel_eq split: option.splits)
next
  case (QCancelCurrent K t t' l)
  assume "q_inv s"
  then show ?thesis
    unfolding QCancelCurrent q_step.simps wp_state [symmetric, where P = "q_le s"]
    by (intro wp_mono [OF cancel_current_wp]) (auto intro: lease_ended_le)
next
  case (QFail K t t' l d m)
  assume "q_inv s"
  then show ?thesis
    unfolding QFail q_step.simps wp_state [symmetric, where P = "q_le s"]
    by (intro wp_mono [OF fail_retryable_wp]) (auto intro: lease_ended_le)
next
  case (QReap K t t' limit d m)
  assume "q_inv s"
  then show ?thesis
    using reap_expired_steps [of q_le q_inv s]
    by (simp add: QReap lease_ended_inv lease_ended_le) (meson q_le_trans)
qed (auto simp: q_le_def map_of_add_row dom_table intro!: grows_new)

text \<open>A lease holds when the fence finds its row; it has ended when its attempt is no longer active.\<close>

definition lease_holds :: "q_db \<Rightarrow> lease \<Rightarrow> bool" where
  "lease_holds s l \<longleftrightarrow> lease_row s l \<noteq> None"

definition lease_over :: "q_db \<Rightarrow> lease \<Rightarrow> bool" where
  "lease_over s l \<longleftrightarrow>
     (\<exists>a. map_of (q_attempts s) (l_attempt l) = Some a \<and> qa_state a \<noteq> ATT_ACTIVE)"

lemma lease_over_step: "q_inv s \<Longrightarrow> q_guard x s \<Longrightarrow> lease_over s l \<Longrightarrow> lease_over (q_step x s) l"
  using q_step_le [of s x] by (fastforce simp: lease_over_def q_le_def qatt_le_def grows_def)

lemma lease_over_not_holds: "lease_over s l \<Longrightarrow> \<not> lease_holds s l"
  by (auto simp: lease_over_def lease_holds_def lease_row_eq)

interpretation queue_machine: monotone_machine q_step q_guard q_inv q_le
  by unfold_locales (auto intro: q_step_inv q_step_le q_le_trans)

interpretation queue_fence: fencing q_step q_guard q_inv lease_holds lease_over
  by unfold_locales (auto intro: lease_over_step dest: lease_over_not_holds)

definition q_run :: "q_op list \<Rightarrow> q_db \<Rightarrow> q_db option" where
  "q_run = guarded_run q_step q_guard"

lemma q_run_inv: "q_run ops empty_queue = Some s \<Longrightarrow> q_inv s"
  unfolding q_run_def by (rule queue_machine.run_inv [OF _ q_inv_empty])

lemma q_run_inv_from: "q_run ops s = Some t \<Longrightarrow> q_inv s \<Longrightarrow> q_inv t"
  unfolding q_run_def by (rule queue_machine.run_inv)

lemma q_run_le: "q_run ops s = Some t \<Longrightarrow> q_inv s \<Longrightarrow> q_le s t"
  unfolding q_run_def by (rule queue_machine.run_le)

lemma q_run_fenced: "q_run ops s = Some t \<Longrightarrow> q_inv s \<Longrightarrow> lease_over s l \<Longrightarrow> \<not> lease_holds t l"
  unfolding q_run_def by (rule queue_fence.fenced_forever)

end
