(* ===== verification/LeaseProps.thy ===== *)
theory LeaseProps
  imports LeaseLife
begin

text \<open>
  What the lease queue promises: exclusive leases, fencing of lost and expired leases, fair
  claiming, cancellation that is never lost, bounded retries, recovery of every expired lease,
  and that no statement violates the constraints of the schema.
\<close>

section \<open>Example runs\<close>

definition demo_qjob :: q_job where
  "demo_qjob = \<lparr>qj_namespace = ''ns'', qj_key = ''k'', qj_sha256 = replicate 64 CHR ''a'', qj_request = PDict [],
     qj_deployment = ''d'', qj_kinds = [OUTPUT], qj_inputs = [], qj_state = QUEUED, qj_epoch = 0,
     qj_current = None, qj_winning = None, qj_cancel = None, qj_retry = None, qj_created = 5\<rparr>"

definition demo_qworker :: q_worker where
  "demo_qworker = \<lparr>qw_deployment = ''d'', qw_state = W_READY, qw_heartbeat = None\<rparr>"

text \<open>One worker, one job, claimed at time 100 for one second.\<close>

definition demo_claim :: "q_op list" where
  "demo_claim = [QWorker ''w'' demo_qworker, QJob ''j'' demo_qjob, QClaim no_locks 100 100 ''a'' ''w'' 1]"

definition demo_lease :: lease where
  "demo_lease = \<lparr>l_job = ''j'', l_attempt = ''a'', l_worker = ''w'', l_epoch = 1, l_expires = 1000100\<rparr>"

lemmas demo_queue_eval =
  demo_claim_def demo_lease_def demo_qjob_def demo_qworker_def q_run_def empty_queue_def add_row_def set_row_def
  claim_next_def positive_int_def no_locks_def claimable_def next_attempt_no_def seconds_def
  q_event_add_def ok_def lease_row_def finish_lease_def fail_retryable_def cancel_current_def
  lock_current_def unexpired_def terminal_state_def end_lease_def Let_def q_request_cancel_def

lemma demo_claimed:
  "\<exists>s a j. q_run demo_claim empty_queue = Some s \<and> lease_row s demo_lease = Some (a, j) \<and>
     qa_no a = 1 \<and> qa_expires a = Some 1000100 \<and> qj_cancel j = None"
  by (simp add: demo_queue_eval)

lemma demo_failed:
  "\<exists>s. q_run (demo_claim @ [QFail no_locks 200 200 demo_lease 1 3]) empty_queue = Some s \<and> lease_over s demo_lease"
  by (simp add: demo_queue_eval lease_over_def)

section \<open>Exclusive leases\<close>

text \<open>
  C7. Whatever operations have run, two leases that the fence accepts and that share their job or
  their worker are the same lease: the same attempt under the same epoch.
\<close>

theorem leases_exclusive:
  assumes run: "q_run ops empty_queue = Some s" and l: "lease_holds s l" and m: "lease_holds s m"
    and same: "l_job l = l_job m \<or> l_worker l = l_worker m"
  shows "l_attempt l = l_attempt m \<and> l_job l = l_job m \<and> l_worker l = l_worker m \<and> l_epoch l = l_epoch m"
proof -
  obtain a j b k where a: "lease_row s l = Some (a, j)" and b: "lease_row s m = Some (b, k)"
    using l m by (auto simp: lease_holds_def)
  have "l_attempt l = l_attempt m"
    using same
  proof
    assume "l_job l = l_job m"
    then show ?thesis using a b by (auto simp: lease_row_eq)
  next
    assume w: "l_worker l = l_worker m"
    show ?thesis
      by (rule q_worker_unique [OF q_run_inv [OF run], of "l_attempt l" a "l_attempt m" b])
        (use a b w in \<open>simp_all add: lease_row_eq\<close>)
  qed
  moreover have "map_of (q_attempts s) (l_attempt l) = Some a" "map_of (q_attempts s) (l_attempt m) = Some b"
    "qa_job a = l_job l" "qa_worker a = l_worker l" "qa_epoch a = l_epoch l"
    "qa_job b = l_job m" "qa_worker b = l_worker m" "qa_epoch b = l_epoch m"
    using a b by (simp_all add: lease_row_eq)
  ultimately show ?thesis by simp
qed

theorem leases_exclusive_witness:
  "\<exists>s. q_run demo_claim empty_queue = Some s \<and>
     {l_attempt m |m. lease_holds s m \<and> l_worker m = ''w''} = {''a''}"
proof -
  obtain s a j where s: "q_run demo_claim empty_queue = Some s" "lease_row s demo_lease = Some (a, j)"
    using demo_claimed by blast
  have h: "lease_holds s demo_lease" using s by (simp add: lease_holds_def)
  have "l_attempt m = ''a''" if "lease_holds s m" "l_worker m = ''w''" for m
    using leases_exclusive [OF s(1) that(1) h] that(2) by (simp add: demo_lease_def)
  moreover have "l_attempt demo_lease = ''a''" "l_worker demo_lease = ''w''" by (simp_all add: demo_lease_def)
  ultimately have "{l_attempt m |m. lease_holds s m \<and> l_worker m = ''w''} = {''a''}"
    using h by (auto intro: exI [of _ demo_lease])
  then show ?thesis using s(1) by blast
qed

section \<open>Fencing\<close>

text \<open>The query of \<open>cancellation_requested\<close> does not ask for the attempt's job: its being the current one gives that.\<close>

lemma cancellation_requested_lost:
  assumes inv: "q_inv s" and row: "lease_row s l = None"
  shows "cancellation_requested t l s = lost"
proof -
  have "qa_job a = l_job l" if "map_of (q_jobs s) (l_job l) = Some j" "qj_state j = RUNNING"
    "qj_current j = Some (l_attempt l)" "map_of (q_attempts s) (l_attempt l) = Some a" for a j
    using q_job [OF inv that(1)] that by (auto simp: qjob_ok_def)
  then show ?thesis
    using row by (auto simp: cancellation_requested_def lease_row_def split: option.splits if_splits)
qed

lemma lost_operations:
  assumes inv: "q_inv s" and "lease_row s l = None" and "1 \<le> secs" and "1 \<le> d" and "1 \<le> m"
  shows "assert_current t l s = lost \<and> cancellation_requested t l s = lost \<and>
    heartbeat t t' l secs s = (lost, s) \<and> cancel_current K t t' l s = (lost, s) \<and>
    fail_retryable K t t' l d m s = (lost, s) \<and> load_verified_input_evidence E K t t' l s = lost \<and>
    load_ready_deployment E K t t' l s = lost"
proof -
  have "lock_current K t ru l s = lost" for K t ru
    using assms(2) by (auto simp: lock_current_def split: option.splits)
  then show ?thesis
    using assms(2-) cancellation_requested_lost [OF assms(1,2)]
    by (simp add: assert_current_def heartbeat_def cancel_current_def
        fail_retryable_def finish_lease_def load_verified_input_evidence_def load_ready_deployment_def
        positive_int_def lost_def raise_def)
qed

text \<open>
  C8. Once a lease's attempt has ended - finished by its worker, cancelled or reaped - no later
  run makes it current again: every fenced operation with it raises \<open>lease is no longer current\<close>
  and changes nothing.
\<close>

theorem ended_lease_fenced:
  assumes "q_run ops empty_queue = Some s" and "lease_over s l" and "q_run ops' s = Some t"
    and "1 \<le> secs" and "1 \<le> d" and "1 \<le> m"
  shows "assert_current u l t = lost \<and> cancellation_requested u l t = lost \<and>
    heartbeat u u' l secs t = (lost, t) \<and> cancel_current K u u' l t = (lost, t) \<and>
    fail_retryable K u u' l d m t = (lost, t) \<and> load_verified_input_evidence E K u u' l t = lost \<and>
    load_ready_deployment E K u u' l t = lost"
proof -
  have "lease_row t l = None"
    using q_run_fenced [OF assms(3) q_run_inv [OF assms(1)] assms(2)] unfolding lease_holds_def by blast
  then show ?thesis using assms(4-6) by (rule lost_operations [OF q_run_inv_from [OF assms(3) q_run_inv [OF assms(1)]]])
qed

theorem ended_lease_fenced_witness:
  "\<exists>s t. q_run (demo_claim @ [QFail no_locks 200 200 demo_lease 1 3]) empty_queue = Some s \<and>
     q_run [QClaim no_locks 2000000 2000000 ''b'' ''w'' 1] s = Some t \<and>
     heartbeat 2000001 2000002 demo_lease 1 t = (lost, t)"
proof -
  obtain s where s: "q_run (demo_claim @ [QFail no_locks 200 200 demo_lease 1 3]) empty_queue = Some s"
    "lease_over s demo_lease" using demo_failed by blast
  have "''b'' \<notin> fst ` set (q_attempts s)" using s(1) by (auto simp: demo_queue_eval)
  then obtain t where t: "q_run [QClaim no_locks 2000000 2000000 ''b'' ''w'' 1] s = Some t"
    by (simp add: q_run_def)
  then show ?thesis using ended_lease_fenced [OF s t, of 1 1 1] s(1) t by simp
qed

text \<open>
  C9. A lease that has expired by the database clock is dead for its worker at once, before any
  reaper has run: it can be neither renewed nor used to finish, read or publish.
\<close>

theorem expired_lease_rejected:
  assumes "map_of (q_attempts s) (l_attempt l) = Some a" and "qa_expires a = Some x" and "x \<le> t"
    and "1 \<le> secs" and "1 \<le> d" and "1 \<le> m"
  shows "assert_current t l s = lost \<and> heartbeat t t' l secs s = (lost, s) \<and>
    cancel_current K t t' l s = (lost, s) \<and> fail_retryable K t t' l d m s = (lost, s) \<and>
    load_verified_input_evidence E K t t' l s = lost"
proof -
  have row: "b = a" if "lease_row s l = Some (b, j)" for b j
    using that assms(1) by (simp add: lease_row_eq)
  have "\<not> unexpired t a" using assms(2,3) by (simp add: unexpired_def)
  then have "lock_current K t True l s = lost" "assert_current t l s = lost" for K
    using row by (auto simp: lock_current_def assert_current_def split: option.splits)
  then show ?thesis
    using assms(4-6)
    by (simp add: heartbeat_def cancel_current_def fail_retryable_def finish_lease_def
        load_verified_input_evidence_def positive_int_def lost_def raise_def)
qed

theorem expired_lease_rejected_witness:
  "\<exists>s. q_run demo_claim empty_queue = Some s \<and> heartbeat 1000100 1000100 demo_lease 1 s = (lost, s)"
proof -
  obtain s a j where s: "q_run demo_claim empty_queue = Some s" "lease_row s demo_lease = Some (a, j)"
    "qa_expires a = Some 1000100" using demo_claimed by blast
  then have "map_of (q_attempts s) (l_attempt demo_lease) = Some a" by (simp add: lease_row_eq)
  from expired_lease_rejected [OF this s(3), of 1000100 1 1 1] s(1) show ?thesis by simp
qed

section \<open>Claiming\<close>

text \<open>
  C10. A successful claim takes, among the unlocked QUEUED jobs of the worker's deployment that are
  due and not cancelled, the oldest one (the smallest identifier among equally old ones), for a
  READY worker, under an epoch greater than that of every attempt the job has ever had; the new
  lease is current until it expires.
\<close>

theorem claim_takes_oldest:
  assumes run: "q_run ops empty_queue = Some s" and fresh: "u \<notin> fst ` set (q_attempts s)"
    and claim: "claim_next K t t' u w secs s = (Inr (Some l), s')"
  shows "\<exists>worker job. map_of (q_workers s) w = Some worker \<and> qw_state worker = W_READY \<and>
      map_of (q_jobs s) (l_job l) = Some job \<and> claimable K t (qw_deployment worker) (l_job l, job) \<and>
      (\<forall>i j. map_of (q_jobs s) i = Some j \<and> claimable K t (qw_deployment worker) (i, j) \<longrightarrow>
         qj_created job < qj_created j \<or> (qj_created job = qj_created j \<and> l_job l \<le> i)) \<and>
      (\<forall>a att. map_of (q_attempts s) a = Some att \<and> qa_job att = l_job l \<longrightarrow> qa_epoch att < l_epoch l) \<and>
      lease_holds s' l \<and> assert_current t' l s' = Inr ()"
proof -
  have inv: "q_inv s" by (rule q_run_inv [OF run])
  have c: "claimed K t t' u w secs s l s'" using wp_value [OF claim_next_wp claim] by simp
  then obtain worker job where w: "map_of (q_workers s) w = Some worker" "qw_state worker = W_READY"
    and mem: "(l_job l, job) \<in> set (q_jobs s)" and cl: "claimable K t (qw_deployment worker) (l_job l, job)"
    and least: "\<forall>(i, j) \<in> set (q_jobs s). claimable K t (qw_deployment worker) (i, j) \<longrightarrow>
           (qj_created job, l_job l) \<le> (qj_created j, i)"
    and ep: "l_epoch l = qj_epoch job + 1"
    unfolding claimed_def by blast
  have j: "map_of (q_jobs s) (l_job l) = Some job" using mem inv by (simp add: q_inv_def keys_ok_def)
  have "qa_epoch att < l_epoch l" if "map_of (q_attempts s) a = Some att" "qa_job att = l_job l" for a att
    using q_att [OF inv that(1)] that(2) j ep by (auto simp: qatt_ok_def)
  moreover have "qj_created job < qj_created k \<or> (qj_created job = qj_created k \<and> l_job l \<le> i)"
    if "map_of (q_jobs s) i = Some k" "claimable K t (qw_deployment worker) (i, k)" for i k
    using least that map_of_SomeD [OF that(1)] by (fastforce simp: less_eq_prod_def)
  moreover have "lease_holds s' l \<and> assert_current t' l s' = Inr ()"
    using c fresh j w cl
    by (auto simp: claimed_def lease_holds_def lease_row_def map_of_add_row map_of_set_row
        assert_current_def unexpired_def seconds_def claimable_def)
  ultimately show ?thesis using w j cl by blast
qed

theorem claim_takes_oldest_witness:
  "\<exists>s s' l. q_run (take 2 demo_claim) empty_queue = Some s \<and>
     claim_next no_locks 100 100 ''a'' ''w'' 1 s = (Inr (Some l), s') \<and> lease_holds s' l"
proof -
  obtain s where s: "q_run (take 2 demo_claim) empty_queue = Some s" "q_attempts s = []"
    "\<exists>l s'. claim_next no_locks 100 100 ''a'' ''w'' 1 s = (Inr (Some l), s')"
    by (simp add: demo_queue_eval)
  then obtain l s' where "claim_next no_locks 100 100 ''a'' ''w'' 1 s = (Inr (Some l), s')" by blast
  from claim_takes_oldest [OF s(1) _ this] this s(1,2) show ?thesis by auto
qed

section \<open>Cancellation\<close>

text \<open>
  C11. A cancellation is recorded once and never lost: whatever runs after it, the job keeps the
  first request's time, a QUEUED job is CANCELLED at once, a RUNNING one is still RUNNING or has
  ended CANCELLED, and no lease on it is current for publication any more.
\<close>

theorem cancellation_kept:
  assumes run: "q_run ops empty_queue = Some s" and c: "q_request_cancel t j s = (Inr True, s')"
    and later: "q_run ops' s' = Some s''"
  shows "\<exists>job job'. map_of (q_jobs s) j = Some job \<and> map_of (q_jobs s'') j = Some job' \<and>
      qj_cancel job' = Some t \<and>
      (if qj_state job = QUEUED then qj_state job' = CANCELLED else qj_state job' \<in> {RUNNING, CANCELLED}) \<and>
      q_request_cancel t' j s'' = (Inr False, s'') \<and>
      (l_job l = j \<longrightarrow> assert_current u l s'' = lost)"
proof -
  obtain job where job: "map_of (q_jobs s) j = Some job" "qj_state job \<in> {QUEUED, RUNNING}" "qj_cancel job = None"
    and s': "s' = cancel_marked t j job s"
    using c by (auto simp: q_request_cancel_eq split: option.splits if_splits)
  let ?j = "job\<lparr>qj_state := if qj_state job = QUEUED then CANCELLED else qj_state job, qj_cancel := Some t\<rparr>"
  have inv: "q_inv s'" unfolding s' by (rule cancel_marked_inv [OF q_run_inv [OF run] job(1,2)])
  have "map_of (q_jobs s') j = Some ?j" by (simp add: s' cancel_marked_def map_of_set_row job)
  then obtain job' where job': "map_of (q_jobs s'') j = Some job'" and le: "qjob_le ?j job'"
    using q_run_le [OF later inv] by (auto simp: q_le_def dest: growsD)
  have c': "qj_cancel job' = Some t" and st: "if qj_state job = QUEUED then qj_state job' = CANCELLED
      else qj_state job' \<in> {RUNNING, CANCELLED}"
    using le job(2) by (auto simp: qjob_le_def split: if_splits)
  have "q_request_cancel t' j s'' = (Inr False, s'')" by (simp add: q_request_cancel_eq job' c')
  moreover have "l_job l = j \<longrightarrow> assert_current u l s'' = lost"
    using job' c' by (auto simp: assert_current_def lease_row_def split: option.splits)
  ultimately show ?thesis using job job' c' st by blast
qed

theorem cancellation_kept_witness:
  "\<exists>s s' s'' job'. q_run demo_claim empty_queue = Some s \<and> q_request_cancel 150 ''j'' s = (Inr True, s') \<and>
     q_run [QFail no_locks 200 200 demo_lease 1 3] s' = Some s'' \<and>
     map_of (q_jobs s'') ''j'' = Some job' \<and> qj_cancel job' = Some 150"
proof -
  obtain s s' where s: "q_run demo_claim empty_queue = Some s" "q_request_cancel 150 ''j'' s = (Inr True, s')"
    by (simp add: demo_queue_eval)
  obtain s'' where t: "q_run [QFail no_locks 200 200 demo_lease 1 3] s' = Some s''" by (simp add: q_run_def)
  show ?thesis using cancellation_kept [OF s t] s t by blast
qed

section \<open>Retries\<close>

text \<open>
  A retryable failure of a current lease ends the attempt and frees the worker; the job is
  CANCELLED if that was requested, FAILED when the attempt's number has reached the maximum, and
  otherwise QUEUED again, not to be claimed before the delay has passed.
\<close>

theorem retry_is_bounded:
  assumes row: "lease_row s l = Some (a, j)" and x: "unexpired t a" and d: "1 \<le> d" and m: "1 \<le> m"
  shows "\<exists>s' a' j'. fail_retryable no_locks t t' l d m s = (Inr (), s') \<and>
      map_of (q_attempts s') (l_attempt l) = Some a' \<and> map_of (q_jobs s') (l_job l) = Some j' \<and>
      (\<exists>w. map_of (q_workers s') (l_worker l) = Some w \<and> qw_state w = W_READY) \<and> qj_current j' = None \<and>
      (if qj_cancel j \<noteq> None then qa_state a' = ATT_CANCELLED \<and> qj_state j' = CANCELLED
       else if m \<le> qa_no a then qa_state a' = ATT_FAILED_TERMINAL \<and> qj_state j' = FAILED
       else qa_state a' = ATT_FAILED_RETRYABLE \<and> qj_state j' = QUEUED \<and>
            qj_retry j' = Some (t' + seconds d) \<and>
            (\<forall>u K. claimable K u (qj_deployment j) (l_job l, j') \<longrightarrow> t' + seconds d \<le> u))"
proof -
  obtain w where w: "map_of (q_workers s) (l_worker l) = Some w" "qw_state w = W_BUSY"
    and rows: "map_of (q_attempts s) (l_attempt l) = Some a" "map_of (q_jobs s) (l_job l) = Some j"
      "qj_state j = RUNNING"
    using row by (auto simp: lease_row_eq)
  have lock: "lock_current no_locks t True l s = Inr a"
    using row w rows x by (simp add: lock_current_def no_locks_def)
  let ?st = "terminal_state (qj_cancel j \<noteq> None) (qa_no a) m"
  let ?s = "end_lease ?st (if ?st = ATT_CANCELLED then ''cancelled'' else ''worker_failure'') d t' l s"
  have r: "fail_retryable no_locks t t' l d m s = (Inr (), ?s)"
    using d m by (simp add: fail_retryable_def positive_int_def finish_lease_def lock rows ok_def Let_def)
  have "map_of (q_jobs ?s) (l_job l) = Some (ended_job ?st d t' j)"
    by (simp add: end_lease_job [OF row])
  then show ?thesis
    using r rows w
    by (auto simp: end_lease_tables terminal_state_def ended_job_def claimable_def)
qed

theorem retry_is_bounded_witness:
  "\<exists>s a j s'. q_run demo_claim empty_queue = Some s \<and> lease_row s demo_lease = Some (a, j) \<and>
     fail_retryable no_locks 200 200 demo_lease 1 1 s = (Inr (), s') \<and>
     (\<exists>j'. map_of (q_jobs s') ''j'' = Some j' \<and> qj_state j' = FAILED)"
proof -
  obtain s a j where s: "q_run demo_claim empty_queue = Some s" "lease_row s demo_lease = Some (a, j)"
    "qa_no a = 1" "qa_expires a = Some 1000100" "qj_cancel j = None" using demo_claimed by blast
  have "unexpired 200 a" using s(4) by (simp add: unexpired_def)
  moreover have "l_job demo_lease = ''j''" by (simp add: demo_lease_def)
  ultimately show ?thesis
    using retry_is_bounded [OF s(2), of 200 1 1 200] s(1,2,3,5) by auto
qed

section \<open>Recovery\<close>

lemma reap_one_active:
  assumes inv: "q_inv s" and i: "map_of (q_attempts s) i = Some a" and act: "qa_state a = ATT_ACTIVE"
    and x: "expired t a"
  shows "\<exists>s' a'. reap_one no_locks t d m (i, a) (n, s) = (Suc n, s') \<and> q_inv s' \<and>
      map_of (q_attempts s') = (map_of (q_attempts s))(i \<mapsto> a') \<and> qa_state a' \<noteq> ATT_ACTIVE"
proof -
  let ?l = "lease_of i a"
  obtain j w where j: "map_of (q_jobs s) (qa_job a) = Some j" "qj_state j = RUNNING" "qj_current j = Some i"
    and w: "map_of (q_workers s) (qa_worker a) = Some w" "qw_state w = W_BUSY"
    using q_att [OF inv i] act by (auto simp: qatt_ok_def)
  moreover have "qj_epoch j = qa_epoch a" using q_job [OF inv j(1)] j i by (auto simp: qjob_ok_def)
  ultimately have row: "lease_row s ?l = Some (a, j)" using i act by (simp add: lease_row_eq lease_of_def)
  have lock: "lock_current no_locks t False ?l s = Inr a"
    using row j w by (simp add: lock_current_def no_locks_def lease_of_def)
  let ?st = "terminal_state (qj_cancel j \<noteq> None) (qa_no a) m"
  let ?s = "end_lease ?st ''lease_expired'' d t ?l s"
  have "reap_one no_locks t d m (i, a) (n, s) = (Suc n, ?s)"
    using x j(1) by (simp add: reap_one_def Let_def lock) (simp add: lease_of_def)
  moreover have "q_inv ?s" by (rule end_lease_inv [OF inv row terminal_state_ok])
  moreover have "l_attempt ?l = i" by (simp add: lease_of_def)
  then have "map_of (q_attempts ?s) = (map_of (q_attempts s))(i \<mapsto> a\<lparr>qa_state := ?st, qa_finished := Some t,
      qa_heartbeat := None, qa_expires := None, qa_reason := Some ''lease_expired''\<rparr>)"
    by (simp add: end_lease_tables i)
  ultimately show ?thesis by (force simp: terminal_state_def)
qed

lemma reap_fold:
  assumes "q_inv s" and "distinct (map fst rows)"
    and "\<forall>(i, a) \<in> set rows. map_of (q_attempts s) i = Some a \<and> qa_state a = ATT_ACTIVE \<and> expired t a"
  shows "\<exists>s'. fold (reap_one no_locks t d m) rows (n, s) = (n + length rows, s') \<and>
      (\<forall>b. b \<notin> fst ` set rows \<longrightarrow> map_of (q_attempts s') b = map_of (q_attempts s) b) \<and>
      (\<forall>b \<in> fst ` set rows. \<exists>x. map_of (q_attempts s') b = Some x \<and> qa_state x \<noteq> ATT_ACTIVE)"
  using assms
proof (induction rows arbitrary: n s)
  case Nil
  then show ?case by simp
next
  case (Cons row rows)
  obtain i a where row: "row = (i, a)" by (cases row)
  obtain s1 a' where one: "reap_one no_locks t d m (i, a) (n, s) = (Suc n, s1)" "q_inv s1"
    and A: "map_of (q_attempts s1) = (map_of (q_attempts s))(i \<mapsto> a')" "qa_state a' \<noteq> ATT_ACTIVE"
    using reap_one_active [OF Cons.prems(1), of i a t d m n] Cons.prems(3) row by auto
  have fresh: "i \<notin> fst ` set rows" using Cons.prems(2) row by simp
  have "map_of (q_attempts s1) k = map_of (q_attempts s) k" if "k \<in> fst ` set rows" for k
    using that fresh by (auto simp: A)
  then have "\<forall>(k, b) \<in> set rows. map_of (q_attempts s1) k = Some b \<and> qa_state b = ATT_ACTIVE \<and> expired t b"
    using Cons.prems(3) by force
  from Cons.IH [OF one(2) _ this, of "Suc n"] Cons.prems(2)
  obtain s' where "fold (reap_one no_locks t d m) rows (Suc n, s1) = (Suc n + length rows, s')"
    "\<forall>b. b \<notin> fst ` set rows \<longrightarrow> map_of (q_attempts s') b = map_of (q_attempts s1) b"
    "\<forall>b \<in> fst ` set rows. \<exists>x. map_of (q_attempts s') b = Some x \<and> qa_state x \<noteq> ATT_ACTIVE"
    by auto
  then show ?case using fresh A one(1) by (auto simp: row)
qed

lemma reap_candidates_all:
  assumes inv: "q_inv s" and lim: "int (length (q_attempts s)) \<le> limit"
  shows "set (reap_candidates t limit s) = {p \<in> set (q_attempts s). case p of (i, a) \<Rightarrow> expired t a}"
    and "length (reap_candidates t limit s) = length (filter (\<lambda>(_, a). expired t a) (q_attempts s))"
    and "distinct (map fst (reap_candidates t limit s))"
    and "\<forall>(i, a) \<in> set (reap_candidates t limit s). map_of (q_attempts s) i = Some a \<and> qa_state a = ATT_ACTIVE \<and> expired t a"
proof -
  let ?x = "\<lambda>(i, a). expired t a"
  let ?P = "\<lambda>(i, a). qa_state a = ATT_ACTIVE \<and> expired t a \<and>
      (case map_of (q_jobs s) (qa_job a) of None \<Rightarrow> False | Some j \<Rightarrow> qj_current j = Some i)"
  let ?rows = "reap_candidates t limit s"
  have row: "map_of (q_attempts s) i = Some a" if "(i, a) \<in> set (q_attempts s)" for i a
    using that inv by (simp add: q_inv_def keys_ok_def)
  have act: "qa_state a = ATT_ACTIVE" if "(i, a) \<in> set (q_attempts s)" "expired t a" for i a
    using q_att [OF inv row [OF that(1)]] that(2) by (auto simp: qatt_ok_def expired_def split: if_splits)
  have "?P (i, a)" if "(i, a) \<in> set (q_attempts s)" "expired t a" for i a
    using q_att [OF inv row [OF that(1)]] act [OF that] that(2) by (auto simp: qatt_ok_def)
  then have "?P p = ?x p" if "p \<in> set (q_attempts s)" for p
    using that by (cases p) blast
  then have filt: "filter ?P (q_attempts s) = filter ?x (q_attempts s)" by (rule filter_cong [OF refl])
  have "length (filter ?x (q_attempts s)) \<le> length (q_attempts s)" by (rule length_filter_le)
  then have "length (filter ?x (q_attempts s)) \<le> nat limit" using lim by linarith
  then have cand: "?rows = sort_key (\<lambda>(_, a). the (qa_expires a)) (filter ?x (q_attempts s))"
    unfolding reap_candidates_def filt by simp
  show mem: "set ?rows = {p \<in> set (q_attempts s). ?x p}" and "length ?rows = length (filter ?x (q_attempts s))"
    unfolding cand by simp_all
  have "distinct (map fst (filter ?x (q_attempts s)))"
    using inv by (simp add: q_inv_def keys_ok_def distinct_map_filter)
  moreover have "mset (map fst ?rows) = mset (map fst (filter ?x (q_attempts s)))"
    unfolding cand by simp
  ultimately show "distinct (map fst ?rows)" by (metis mset_eq_imp_distinct_iff)
  show "\<forall>(i, a) \<in> set ?rows. map_of (q_attempts s) i = Some a \<and> qa_state a = ATT_ACTIVE \<and> expired t a"
    unfolding mem using row act by auto
qed

text \<open>
  C12. After a crash every expired lease is recovered: one pass of the reaper with a limit that
  covers them, while nobody holds the rows, ends every attempt that has expired and returns their
  number; attempts that have not expired are untouched.
\<close>

theorem reap_recovers_all:
  assumes run: "q_run ops empty_queue = Some s" and lim: "int (length (q_attempts s)) \<le> limit"
    and pos: "1 \<le> limit" "1 \<le> d" "1 \<le> m"
  shows "\<exists>s'. reap_expired no_locks t t limit d m s =
        (Inr (length (filter (\<lambda>(_, a). expired t a) (q_attempts s))), s') \<and>
      (\<forall>b x. map_of (q_attempts s') b = Some x \<longrightarrow> \<not> expired t x) \<and>
      (\<forall>b x. map_of (q_attempts s) b = Some x \<and> \<not> expired t x \<longrightarrow> map_of (q_attempts s') b = Some x)"
proof -
  have inv: "q_inv s" by (rule q_run_inv [OF run])
  let ?x = "\<lambda>(i, a). expired t a"
  let ?rows = "reap_candidates t limit s"
  note mem = reap_candidates_all(1,2) [OF inv lim, of t]
  have row: "map_of (q_attempts s) i = Some a" if "(i, a) \<in> set (q_attempts s)" for i a
    using that inv by (simp add: q_inv_def keys_ok_def)
  from reap_fold [OF inv reap_candidates_all(3,4) [OF inv lim], of t d m 0] obtain s' where
    f: "fold (reap_one no_locks t d m) ?rows (0, s) = (length ?rows, s')"
    and out: "\<forall>b. b \<notin> fst ` set ?rows \<longrightarrow> map_of (q_attempts s') b = map_of (q_attempts s) b"
    and dn: "\<forall>b \<in> fst ` set ?rows. \<exists>x. map_of (q_attempts s') b = Some x \<and> qa_state x \<noteq> ATT_ACTIVE"
    by auto
  have r: "reap_expired no_locks t t limit d m s = (Inr (length (filter ?x (q_attempts s))), s')"
    using pos f mem(2) by (simp add: reap_expired_def positive_int_def ok_def)
  have inv': "q_inv s'"
    using reap_expired_steps [of "\<lambda>_ _. True" q_inv s no_locks t t limit d m] inv r by (simp add: lease_ended_inv)
  have "\<not> expired t x" if x: "map_of (q_attempts s') b = Some x" for b x
  proof (cases "b \<in> fst ` set ?rows")
    case True
    then have "qa_state x \<noteq> ATT_ACTIVE" using dn x by auto
    then show ?thesis using q_att [OF inv' x] by (auto simp: qatt_ok_def expired_def)
  next
    case False
    then have "map_of (q_attempts s) b = Some x" using out x by simp
    then have "(b, x) \<in> set (q_attempts s)" by (rule map_of_SomeD)
    then show ?thesis using False unfolding mem by force
  qed
  moreover have "map_of (q_attempts s') b = Some x" if "map_of (q_attempts s) b = Some x" "\<not> expired t x" for b x
  proof -
    have "b \<notin> fst ` set ?rows" unfolding mem using that row by force
    then show ?thesis using out that by simp
  qed
  ultimately show ?thesis using r by blast
qed

theorem reap_recovers_all_witness:
  "\<exists>s s'. q_run demo_claim empty_queue = Some s \<and>
     reap_expired no_locks 2000000 2000000 10 1 3 s = (Inr 1, s')"
proof -
  obtain s where s: "q_run demo_claim empty_queue = Some s" "length (q_attempts s) = 1"
    "length (filter (\<lambda>(_, a). expired 2000000 a) (q_attempts s)) = 1"
    by (simp add: demo_queue_eval expired_def)
  from reap_recovers_all [OF s(1), of 10 1 3 2000000] s show ?thesis by auto
qed

section \<open>The constraints of the schema\<close>

text \<open>
  No sequence of queue operations violates a constraint that the schema puts on attempts and
  jobs: attempt numbers are unique per job, a job and a worker have at most one ACTIVE attempt, an
  ACTIVE attempt has a heartbeat before its expiry and an ended one neither, and a RUNNING job's
  current attempt is ACTIVE under the job's epoch.
\<close>

theorem schema_constraints_hold:
  assumes run: "q_run ops empty_queue = Some s"
    and a: "map_of (q_attempts s) a = Some x" and b: "map_of (q_attempts s) b = Some y"
  shows "(qa_job x = qa_job y \<and> qa_no x = qa_no y \<longrightarrow> a = b) \<and>
    (qa_state x = ATT_ACTIVE \<and> qa_state y = ATT_ACTIVE \<and>
       (qa_job x = qa_job y \<or> qa_worker x = qa_worker y) \<longrightarrow> a = b) \<and>
    (if qa_state x = ATT_ACTIVE
     then \<exists>h e. qa_heartbeat x = Some h \<and> qa_expires x = Some e \<and> h < e \<and> qa_finished x = None
     else qa_heartbeat x = None \<and> qa_expires x = None \<and> qa_finished x \<noteq> None) \<and>
    (\<forall>i j. map_of (q_jobs s) i = Some j \<and> qj_state j = RUNNING \<longrightarrow>
       (\<exists>c z. qj_current j = Some c \<and> map_of (q_attempts s) c = Some z \<and> qa_state z = ATT_ACTIVE \<and>
              qa_epoch z = qj_epoch j))"
proof (intro conjI)
  have inv: "q_inv s" by (rule q_run_inv [OF run])
  note xa = q_att [OF inv a] and yb = q_att [OF inv b]
  have "numbers_unique (map_of (q_attempts s))" using inv by (simp add: q_inv_def)
  then show "qa_job x = qa_job y \<and> qa_no x = qa_no y \<longrightarrow> a = b"
    using numbers_uniqueD [of _ a x b y] a b by simp
  have "a = b" if "qa_state x = ATT_ACTIVE" "qa_state y = ATT_ACTIVE" "qa_job x = qa_job y"
    using xa yb that by (auto simp: qatt_ok_def)
  then show "qa_state x = ATT_ACTIVE \<and> qa_state y = ATT_ACTIVE \<and>
       (qa_job x = qa_job y \<or> qa_worker x = qa_worker y) \<longrightarrow> a = b"
    using q_worker_unique [OF inv a b] by blast
  show "if qa_state x = ATT_ACTIVE
     then \<exists>h e. qa_heartbeat x = Some h \<and> qa_expires x = Some e \<and> h < e \<and> qa_finished x = None
     else qa_heartbeat x = None \<and> qa_expires x = None \<and> qa_finished x \<noteq> None"
    using xa by (auto simp: qatt_ok_def split: if_splits)
  show "\<forall>i j. map_of (q_jobs s) i = Some j \<and> qj_state j = RUNNING \<longrightarrow>
       (\<exists>c z. qj_current j = Some c \<and> map_of (q_attempts s) c = Some z \<and> qa_state z = ATT_ACTIVE \<and>
              qa_epoch z = qj_epoch j)"
    using q_job [OF inv] by (fastforce simp: qjob_ok_def)
qed

theorem schema_constraints_hold_witness:
  "\<exists>s a. q_run demo_claim empty_queue = Some s \<and> map_of (q_attempts s) ''a'' = Some a \<and>
     (\<exists>h e. qa_heartbeat a = Some h \<and> qa_expires a = Some e \<and> h < e)"
proof -
  obtain s a j where s: "q_run demo_claim empty_queue = Some s" "lease_row s demo_lease = Some (a, j)"
    using demo_claimed by blast
  then have a: "map_of (q_attempts s) ''a'' = Some a" "qa_state a = ATT_ACTIVE"
    by (simp_all add: lease_row_eq) (simp add: demo_lease_def)
  show ?thesis using schema_constraints_hold [OF s(1) a(1) a(1)] a s(1) by auto
qed

end
