(* ===== verification/PyNumbers.thy ===== *)
theory PyNumbers
  imports PyValues
begin

text \<open>
  Numbers and equality of Python values: conversion to floats, the chains of tests joined by \<open>or\<close>
  that the constructors are made of, look-ups in mappings, and \<open>==\<close>. A mapping is the list of its
  items; its keys are pairwise different.
\<close>

section \<open>Numbers\<close>

text \<open>
  \<open>float(n)\<close> rounds an integer to the nearest float or raises \<open>OverflowError\<close>; the sum of two
  finite floats is rounded, and may be infinite.
\<close>

record float_env =
  fl_of_int :: "int \<Rightarrow> rat res"
  fl_add :: "rat \<Rightarrow> rat \<Rightarrow> pyfloat"

definition float_of :: "float_env \<Rightarrow> pyval \<Rightarrow> pyfloat res" where
  "float_of F v =
     (case v of
        PInt n \<Rightarrow> after (fl_of_int F n) (\<lambda>q. Inr (FFin q))
      | PBool b \<Rightarrow> Inr (FFin (if b then 1 else 0))
      | PFloat f \<Rightarrow> Inr f
      | _ \<Rightarrow> raise TypeError ''must be real number'')"

definition finite_float :: "pyfloat \<Rightarrow> bool" where
  "finite_float f = (case f of FFin q \<Rightarrow> True | _ \<Rightarrow> False)"

text \<open>\<open>math.isfinite\<close> converts first, so that a huge integer raises.\<close>

definition isfinite :: "float_env \<Rightarrow> pyval \<Rightarrow> bool res" where
  "isfinite F v = after (float_of F v) (\<lambda>f. Inr (finite_float f))"

text \<open>Comparison with a number is exact, whatever the two types.\<close>

definition num_value :: "pyval \<Rightarrow> rat" where
  "num_value v =
     (case v of PInt n \<Rightarrow> of_int n | PBool b \<Rightarrow> (if b then 1 else 0) | PFloat (FFin q) \<Rightarrow> q | _ \<Rightarrow> 0)"

definition int_or_float :: "pyval \<Rightarrow> bool" where
  "int_or_float v = (case v of PInt _ \<Rightarrow> True | PFloat _ \<Rightarrow> True | _ \<Rightarrow> False)"

text \<open>\<open>a or b or c\<close>: left to right up to the first that holds or raises.\<close>

fun any_of :: "bool res list \<Rightarrow> bool res" where
  "any_of [] = Inr False"
| "any_of (c # cs) = after c (\<lambda>b. if b then Inr True else any_of cs)"

definition reject_if :: "bool res \<Rightarrow> exc_class \<Rightarrow> string \<Rightarrow> unit res" where
  "reject_if r c m = after r (\<lambda>b. if b then raise c m else Inr ())"

text \<open>The test for a finite number that passes \<open>bad\<close> (a comparison with zero).\<close>

definition bad_number :: "float_env \<Rightarrow> pyval \<Rightarrow> (rat \<Rightarrow> bool) \<Rightarrow> bool res list" where
  "bad_number F v bad =
     [Inr (\<not> int_or_float v), after (isfinite F v) (\<lambda>b. Inr (\<not> b)), Inr (bad (num_value v))]"

section \<open>Mappings and equality\<close>

definition dget :: "(pyval \<times> pyval) list \<Rightarrow> string \<Rightarrow> pyval" where
  "dget items k = (case map_of items (PStr k) of Some v \<Rightarrow> v | None \<Rightarrow> PNone)"

definition same_keys :: "(pyval \<times> pyval) list \<Rightarrow> string list \<Rightarrow> bool" where
  "same_keys items keys = (set (map fst items) = set (map PStr keys))"

definition numeric_value :: "pyval \<Rightarrow> bool" where
  "numeric_value v = (case v of PInt _ \<Rightarrow> True | PBool _ \<Rightarrow> True | PFloat f \<Rightarrow> finite_float f | _ \<Rightarrow> False)"

text \<open>\<open>a == b\<close>: numbers by value, mappings whatever the order of their items.\<close>

fun py_eq :: "pyval \<Rightarrow> pyval \<Rightarrow> bool"
  and py_eq_list :: "pyval list \<Rightarrow> pyval list \<Rightarrow> bool"
  and py_eq_items :: "(pyval \<times> pyval) list \<Rightarrow> (pyval \<times> pyval) list \<Rightarrow> bool"
where
  "py_eq (PDict xs) v =
     (case v of PDict ys \<Rightarrow> length xs = length ys \<and> py_eq_items xs ys | _ \<Rightarrow> False)"
| "py_eq (PList xs) v = (case v of PList ys \<Rightarrow> py_eq_list xs ys | _ \<Rightarrow> False)"
| "py_eq (PTuple xs) v = (case v of PTuple ys \<Rightarrow> py_eq_list xs ys | _ \<Rightarrow> False)"
| "py_eq (PFloat FNan) v = False"
| "py_eq v w =
     (if numeric_value v \<and> numeric_value w then num_value v = num_value w else v = w)"
| "py_eq_list [] ys = (ys = [])"
| "py_eq_list (x # xs) ys = (case ys of [] \<Rightarrow> False | y # ys' \<Rightarrow> py_eq x y \<and> py_eq_list xs ys')"
| "py_eq_items [] ys = True"
| "py_eq_items ((k, v) # xs) ys =
     ((case map_of ys k of None \<Rightarrow> False | Some w \<Rightarrow> py_eq v w) \<and> py_eq_items xs ys)"

end
