(* ===== verification/Storage.thy ===== *)
theory Storage
  imports Sha256
begin

text \<open>
  The content-addressed blob stores: \<open>LocalBlobStore\<close> of \<open>durable/storage.py\<close> over the part of
  the file system it owns, and \<open>InMemoryS3CompatibleCanonical\<close> and \<open>MultipartUploadBuffer\<close> of
  \<open>durable/upload_transports.py\<close>. Bytes are lists of characters, an iterable of chunks the list
  of them. What another process links under the name between the look and the \<open>os.link\<close> is an
  argument (\<open>rival\<close>) of the two writers.
\<close>

section \<open>Keys\<close>

record blob_object =
  obj_sha256 :: string
  obj_size_bytes :: int
  obj_storage_key :: string

definition key_of :: "string \<Rightarrow> string" where
  "key_of h = ''blobs/sha256/'' @ take 2 h @ ''/'' @ take 2 (drop 2 h) @ ''/'' @ h"

definition canonical_key :: "string \<Rightarrow> string res" where
  "canonical_key h =
     (if length h \<noteq> 64 \<or> h \<noteq> lower h
      then raise ValueError ''sha256 must be a lowercase 64-character hex digest''
      else if int16 h = None then raise ValueError ''sha256 must be lowercase hexadecimal''
      else Inr (key_of h))"

definition key_error :: "'a res" where
  "key_error = raise ValueError ''storage_key must be an exact canonical key''"

definition parse_key :: "string \<Rightarrow> (string \<times> string \<times> string) res" where
  "parse_key k =
     (if k = [] \<or> contains k [CHR 0x00] \<or> contains k [CHR 0x5C] \<or> startswith k ''/'' then key_error
      else let parts = split_on (CHR ''/'') k in
        if length parts \<noteq> 5 \<or> take 2 parts \<noteq> [''blobs'', ''sha256''] \<or>
           list_ex (\<lambda>p. p \<in> {[], ''.'', ''..''}) parts
        then key_error
        else let digest = parts ! 4 in
          after (canonical_key digest)
            (\<lambda>ck. if k \<noteq> ck \<or> parts ! 2 \<noteq> take 2 digest \<or> parts ! 3 \<noteq> take 2 (drop 2 digest)
                   then key_error else Inr (parts ! 2, parts ! 3, digest)))"

section \<open>The local store\<close>

datatype dir_entry = RegularFile string | SymbolicLink | Directory

record local_store =
  ls_dirs :: "(string \<times> string) set"
  ls_files :: "string \<times> string \<times> string \<rightharpoonup> dir_entry"

definition parent_fd :: "string \<Rightarrow> bool \<Rightarrow> (local_store, string \<times> string \<times> string) sop" where
  "parent_fd k create s =
     lift (parse_key k) s (\<lambda>(a, b, d).
       if create then ok (a, b, d) (s\<lparr>ls_dirs := insert (a, b) (ls_dirs s)\<rparr>)
       else if (a, b) \<in> ls_dirs s then ok (a, b, d) s
       else fail FileNotFoundError a s)"

definition read_existing :: "local_store \<Rightarrow> string \<times> string \<times> string \<Rightarrow> string res" where
  "read_existing s p =
     (case ls_files s p of
        None \<Rightarrow> raise FileNotFoundError (snd (snd p))
      | Some SymbolicLink \<Rightarrow> raise OSError (snd (snd p))
      | Some Directory \<Rightarrow> raise RuntimeError ''canonical blob is not a regular file''
      | Some (RegularFile x) \<Rightarrow> Inr x)"

definition set_entry :: "string \<times> string \<times> string \<Rightarrow> dir_entry \<Rightarrow> local_store \<Rightarrow> local_store" where
  "set_entry p e s = s\<lparr>ls_files := (ls_files s)(p \<mapsto> e)\<rparr>"

definition unexpected_bytes :: "local_store \<Rightarrow> 'a res \<times> local_store" where
  "unexpected_bytes s = fail RuntimeError ''immutable blob path contains unexpected bytes'' s"

definition put_immutable :: "dir_entry option \<Rightarrow> string \<Rightarrow> (local_store, blob_object) sop" where
  "put_immutable rival data s =
     (let digest = sha256_hex data;
          obj = (\<lambda>key. \<lparr>obj_sha256 = digest, obj_size_bytes = int (length data), obj_storage_key = key\<rparr>)
      in lift (canonical_key digest) s (\<lambda>key.
           sbind (parent_fd key True) (\<lambda>p s1.
             case read_existing s1 p of
               Inr existing \<Rightarrow> if existing \<noteq> data then unexpected_bytes s1 else ok (obj key) s1
             | Inl e \<Rightarrow>
                 if \<not> instance_of e FileNotFoundError then (Inl e, s1)
                 else (case rival of
                         None \<Rightarrow> ok (obj key) (set_entry p (RegularFile data) s1)
                       | Some r \<Rightarrow> let s2 = set_entry p r s1 in
                           lift (read_existing s2 p) s2 (\<lambda>existing.
                             if existing \<noteq> data then unexpected_bytes s2 else ok (obj key) s2))) s))"

text \<open>
  \<open>put_stream\<close> compares size and digest of what it finds instead of the bytes; it opens without
  the regular-file test, so a directory is an \<open>IsADirectoryError\<close>.
\<close>

definition same_digest :: "local_store \<Rightarrow> string \<times> string \<times> string \<Rightarrow> string \<Rightarrow> bool res" where
  "same_digest s p data =
     (case ls_files s p of
        None \<Rightarrow> raise FileNotFoundError (snd (snd p))
      | Some (RegularFile x) \<Rightarrow> Inr (length x = length data \<and> sha256_hex x = sha256_hex data)
      | Some _ \<Rightarrow> raise OSError (snd (snd p)))"

definition put_stream :: "dir_entry option \<Rightarrow> string list \<Rightarrow> (local_store, blob_object) sop" where
  "put_stream rival chunks s =
     (let data = concat chunks; digest = sha256_hex data;
          obj = (\<lambda>key. \<lparr>obj_sha256 = digest, obj_size_bytes = int (length data), obj_storage_key = key\<rparr>)
      in lift (canonical_key digest) s (\<lambda>key.
           sbind (parent_fd key True) (\<lambda>p s1.
             case same_digest s1 p data of
               Inr same \<Rightarrow> if \<not> same then unexpected_bytes s1 else ok (obj key) s1
             | Inl e \<Rightarrow>
                 if \<not> instance_of e FileNotFoundError then (Inl e, s1)
                 else (case rival of
                         None \<Rightarrow> ok (obj key) (set_entry p (RegularFile data) s1)
                       | Some r \<Rightarrow> let s2 = set_entry p r s1 in
                           lift (same_digest s2 p data) s2 (\<lambda>same.
                             if \<not> same then unexpected_bytes s2 else ok (obj key) s2))) s))"

definition store_open_reader :: "string \<Rightarrow> (local_store, string) sop" where
  "store_open_reader k =
     sbind (parent_fd k False) (\<lambda>p s. lift (read_existing s p) s (\<lambda>x. ok x s))"

definition store_stat :: "string \<Rightarrow> (local_store, blob_object) sop" where
  "store_stat k =
     sbind (parent_fd k False) (\<lambda>p s.
       lift (read_existing s p) s (\<lambda>data.
         lift (canonical_key (sha256_hex data)) s (\<lambda>ck.
           if k \<noteq> ck then fail RuntimeError ''stored blob does not match its canonical key'' s
           else ok \<lparr>obj_sha256 = sha256_hex data, obj_size_bytes = int (length data), obj_storage_key = k\<rparr> s)))"

definition store_delete :: "string \<Rightarrow> (local_store, unit) sop" where
  "store_delete k =
     sbind (parent_fd k False) (\<lambda>p s.
       case ls_files s p of
         None \<Rightarrow> ok () s
       | Some (RegularFile x) \<Rightarrow> ok () (s\<lparr>ls_files := (ls_files s)(p := None)\<rparr>)
       | Some _ \<Rightarrow> fail RuntimeError ''canonical blob is not a regular file'' s)"

section \<open>The in-memory canonical store\<close>

type_synonym mem_store = "string \<rightharpoonup> string"

definition mem_validate_key :: "string \<Rightarrow> unit res" where
  "mem_validate_key k =
     (let parts = split_on (CHR ''/'') k in
      if length parts \<noteq> 5 then key_error
      else after (canonical_key (last parts)) (\<lambda>ck. if k \<noteq> ck then key_error else Inr ()))"

definition mem_put_stream :: "string list \<Rightarrow> (mem_store, blob_object) sop" where
  "mem_put_stream chunks s =
     (let data = concat chunks; digest = sha256_hex data in
      lift (canonical_key digest) s (\<lambda>key.
        let s1 = (if s key = None then s(key \<mapsto> data) else s) in
        if s1 key \<noteq> Some data
        then fail RuntimeError ''immutable blob path contains unexpected bytes'' s1
        else ok \<lparr>obj_sha256 = digest, obj_size_bytes = int (length data), obj_storage_key = key\<rparr> s1))"

definition mem_lookup :: "string \<Rightarrow> (mem_store, string) sop" where
  "mem_lookup k s =
     lift (mem_validate_key k) s (\<lambda>_.
       case s k of None \<Rightarrow> fail KeyError k s | Some x \<Rightarrow> ok x s)"

definition mem_open_reader :: "string \<Rightarrow> (mem_store, string) sop" where
  "mem_open_reader k = mem_lookup k"

definition mem_stat :: "string \<Rightarrow> (mem_store, blob_object) sop" where
  "mem_stat k =
     sbind (mem_lookup k) (\<lambda>data s.
       lift (canonical_key (sha256_hex data)) s (\<lambda>ck.
         if k \<noteq> ck then fail RuntimeError ''stored blob does not match its canonical key'' s
         else ok \<lparr>obj_sha256 = sha256_hex data, obj_size_bytes = int (length data), obj_storage_key = k\<rparr> s))"

section \<open>Multipart assembly\<close>

datatype multipart_state = MP_OPEN | MP_COMPLETED | MP_ABORTED

record multipart_buffer =
  mp_parts :: "int \<rightharpoonup> string"
  mp_numbers :: "int list"
  mp_state :: multipart_state

definition new_multipart :: multipart_buffer where
  "new_multipart = \<lparr>mp_parts = Map.empty, mp_numbers = [], mp_state = MP_OPEN\<rparr>"

definition mp_terminal :: "multipart_buffer \<Rightarrow> 'a res \<times> multipart_buffer" where
  "mp_terminal s = fail StateTransitionError ''multipart upload is terminal'' s"

definition put_part :: "pyval \<Rightarrow> pyval \<Rightarrow> (multipart_buffer, unit) sop" where
  "put_part number content s =
     (if mp_state s \<noteq> MP_OPEN then mp_terminal s
      else case number of
        PInt n \<Rightarrow>
          if n < 1 then fail ValueError ''part_number must be a positive integer'' s
          else (case content of
            PBytes c \<Rightarrow>
              (case mp_parts s n of
                 None \<Rightarrow> ok () (s\<lparr>mp_parts := (mp_parts s)(n \<mapsto> c), mp_numbers := mp_numbers s @ [n]\<rparr>)
               | Some old \<Rightarrow>
                   if old \<noteq> c then fail StateTransitionError ''multipart part conflicts with prior content'' s
                   else ok () s)
          | _ \<Rightarrow> fail TypeError ''multipart part must be bytes'' s)
      | _ \<Rightarrow> fail ValueError ''part_number must be a positive integer'' s)"

definition mp_complete :: "(multipart_buffer, string list) sop" where
  "mp_complete s =
     (if mp_state s \<noteq> MP_OPEN then mp_terminal s
      else if mp_numbers s = [] \<or> sort (mp_numbers s) \<noteq> map int [1..<length (mp_numbers s) + 1]
      then fail StateTransitionError ''multipart upload has missing part numbers'' s
      else ok (map (\<lambda>n. the (mp_parts s (int n))) [1..<length (mp_numbers s) + 1])
             (s\<lparr>mp_state := MP_COMPLETED\<rparr>))"

definition mp_abort :: "(multipart_buffer, unit) sop" where
  "mp_abort s =
     (if mp_state s \<noteq> MP_OPEN then mp_terminal s
      else ok () (s\<lparr>mp_parts := Map.empty, mp_numbers := [], mp_state := MP_ABORTED\<rparr>))"

end
