(* ===== verification/Publication.thy ===== *)
theory Publication
  imports LeaseQueue PyNumbers Storage
begin

text \<open>
  \<open>PostgresPublicationRepository\<close> of \<open>durable/publication.py\<close> over the tables of the lease queue, the
  ledger \<open>artifact_publications\<close>, \<open>blobs\<close> and \<open>artifacts\<close>. The triggers and checks of the ledger
  (migration 0004) decide outcomes (the grace period of a stale publication is in them alone), so
  they are part of every statement on it; they raise \<open>RaiseException\<close> and \<open>CheckViolation\<close>. The
  UPDATEs with which finalization ends an attempt and its job run under the triggers, checks and
  unique indexes of migrations 0001, 0003 and 0004 on those tables, and its commit under the deferred
  ones. An operation is one
  transaction; every statement that reads the server's clock has its own reading. Identifiers are
  the canonical texts of UUIDs.
\<close>

section \<open>Values\<close>

datatype publication_state =
  PUB_RESERVED | PUB_OBJECT_WRITTEN | PUB_VALIDATED | PUB_FINALIZED | PUB_REJECTED | PUB_ABANDONED

definition pub_terminal :: "publication_state \<Rightarrow> bool" where
  "pub_terminal st = (st \<in> {PUB_FINALIZED, PUB_REJECTED, PUB_ABANDONED})"

definition opt_sha256 :: "string option \<Rightarrow> string \<Rightarrow> unit res" where
  "opt_sha256 v name =
     (case v of None \<Rightarrow> Inr () | Some h \<Rightarrow>
        checks [require (length h = 64 \<and> h = lower h) ValueError (name @ '' must be a lowercase full SHA-256''),
                require (int16 h \<noteq> None) ValueError (name @ '' must be hexadecimal'')])"

definition opt_size :: "int option \<Rightarrow> string \<Rightarrow> unit res" where
  "opt_size v name =
     require (case v of None \<Rightarrow> True | Some n \<Rightarrow> 0 \<le> n) ValueError (name @ '' must be a non-negative integer'')"

definition positive_size :: "int \<Rightarrow> string \<Rightarrow> unit res" where
  "positive_size n name = require (1 \<le> n) ValueError (name @ '' must be a positive integer'')"

definition within_max :: "int option \<Rightarrow> int \<Rightarrow> bool" where
  "within_max v m = (case v of None \<Rightarrow> True | Some n \<Rightarrow> n \<le> m)"

record publication_spec =
  ps_kind :: artifact_kind
  ps_content_type :: string
  ps_max_size :: int
  ps_expected_sha256 :: "string option"
  ps_expected_size :: "int option"
  ps_metadata :: pyval

definition new_PublicationSpec :: "publication_spec \<Rightarrow> publication_spec res" where
  "new_PublicationSpec p =
     after (checks [require_text (PStr (ps_content_type p)) ''content_type'',
                    positive_size (ps_max_size p) ''max_size_bytes'',
                    opt_sha256 (ps_expected_sha256 p) ''expected_sha256'',
                    opt_size (ps_expected_size p) ''expected_size_bytes'',
                    require (within_max (ps_expected_size p) (ps_max_size p))
                      ValueError ''expected_size_bytes exceeds max_size_bytes'',
                    require (is_mapping (ps_metadata p)) TypeError ''metadata must be a mapping''])
       (\<lambda>_. Inr p)"

text \<open>
  \<open>PublicationRecord\<close>, and the row of the ledger it is read from: \<open>terminal_at\<close> stays in the row.
\<close>

record publication =
  pb_id :: string
  pb_job :: string
  pb_attempt :: string
  pb_worker :: string
  pb_epoch :: int
  pb_kind :: artifact_kind
  pb_content_type :: string
  pb_max_size :: int
  pb_state :: publication_state
  pb_version :: int
  pb_expected_sha256 :: "string option"
  pb_expected_size :: "int option"
  pb_object_key :: "string option"
  pb_observed_sha256 :: "string option"
  pb_observed_size :: "int option"
  pb_observed_content_type :: "string option"
  pb_blob :: "string option"
  pb_metadata :: pyval
  pb_validator_metadata :: "pyval option"
  pb_created_at :: int
  pb_updated_at :: int
  pb_reason :: "string option"
  pb_deleted_at :: "int option"
  pb_stale_since :: "int option"

record pub_row = publication +
  pr_terminal_at :: "int option"

definition new_PublicationRecord :: "publication \<Rightarrow> publication res" where
  "new_PublicationRecord p =
     after (checks [require_text (PStr (pb_id p)) ''publication_id'', require_text (PStr (pb_job p)) ''job_id'',
                    require_text (PStr (pb_attempt p)) ''attempt_id'', require_text (PStr (pb_worker p)) ''worker_id'',
                    require_text (PStr (pb_content_type p)) ''content_type'',
                    positive_size (pb_max_size p) ''max_size_bytes'',
                    require (1 \<le> pb_epoch p) ValueError ''lease_epoch must be positive'',
                    require (0 \<le> pb_version p) ValueError ''version must be non-negative'',
                    opt_sha256 (pb_expected_sha256 p) ''expected_sha256'',
                    opt_sha256 (pb_observed_sha256 p) ''observed_sha256'',
                    opt_size (pb_expected_size p) ''expected_size_bytes'',
                    require (within_max (pb_expected_size p) (pb_max_size p))
                      ValueError ''expected_size_bytes exceeds max_size_bytes'',
                    opt_size (pb_observed_size p) ''observed_size_bytes''])
       (\<lambda>_. Inr p)"

text \<open>A NULL \<open>validator_metadata\<close> is read as the empty mapping.\<close>

definition record_of :: "pub_row \<Rightarrow> publication" where
  "record_of r = (publication.truncate r)\<lparr>pb_validator_metadata :=
     Some (case pb_validator_metadata r of None \<Rightarrow> PDict [] | Some v \<Rightarrow> v)\<rparr>"

definition from_row :: "pub_row \<Rightarrow> publication res" where
  "from_row r = new_PublicationRecord (record_of r)"

definition attempt_object_key :: "'a publication_scheme \<Rightarrow> string" where
  "attempt_object_key p =
     ''attempts/'' @ pb_job p @ ''/'' @ pb_attempt p @ ''/epoch-'' @ str_int (pb_epoch p) @ ''/'' @
     artifact_kind_value (pb_kind p) @ ''/'' @ pb_id p"

record visible_artifact =
  va_id :: string
  va_publication :: string
  va_job :: string
  va_attempt :: string
  va_kind :: artifact_kind
  va_blob :: string
  va_sha256 :: string
  va_size :: int
  va_storage_key :: string
  va_content_type :: string
  va_metadata :: pyval

definition new_VisibleArtifact :: "visible_artifact \<Rightarrow> visible_artifact res" where
  "new_VisibleArtifact v =
     after (checks [require_text (PStr (va_id v)) ''artifact_id'',
                    require_text (PStr (va_publication v)) ''publication_id'',
                    require_text (PStr (va_job v)) ''job_id'', require_text (PStr (va_attempt v)) ''attempt_id'',
                    require_text (PStr (va_blob v)) ''blob_id'', require_text (PStr (va_storage_key v)) ''storage_key'',
                    require_text (PStr (va_content_type v)) ''content_type'',
                    opt_sha256 (Some (va_sha256 v)) ''sha256'', opt_size (Some (va_size v)) ''size_bytes''])
       (\<lambda>_. Inr v)"

section \<open>Tables\<close>

text \<open>Every artifact of the table is READY.\<close>

record pub_artifact =
  pa_job :: string
  pa_attempt :: string
  pa_blob :: string
  pa_kind :: artifact_kind
  pa_metadata :: pyval
  pa_publication :: string

record pub_db =
  pd_queue :: q_db
  pd_publications :: "pub_row table"
  pd_blobs :: "blob_record list"
  pd_artifacts :: "pub_artifact table"

text \<open>The fence of every worker-originated mutation, and the same question as the triggers put it.\<close>

definition lock_lease :: "int \<Rightarrow> lease \<Rightarrow> pub_db \<Rightarrow> artifact_kind list res" where
  "lock_lease t l s =
     (case map_of (q_workers (pd_queue s)) (l_worker l) of None \<Rightarrow> lost | Some w \<Rightarrow>
      if qw_state w \<noteq> W_BUSY then lost else
      case map_of (q_jobs (pd_queue s)) (l_job l) of None \<Rightarrow> lost | Some j \<Rightarrow>
      if qj_state j \<noteq> RUNNING \<or> qj_current j \<noteq> Some (l_attempt l) \<or> qj_epoch j \<noteq> l_epoch l \<or>
         qj_cancel j \<noteq> None then lost else
      case map_of (q_attempts (pd_queue s)) (l_attempt l) of None \<Rightarrow> lost | Some a \<Rightarrow>
      if qa_job a \<noteq> l_job l \<or> qa_worker a \<noteq> l_worker l \<or> qa_epoch a \<noteq> l_epoch l \<or>
         qa_state a \<noteq> ATT_ACTIVE \<or> \<not> unexpired t a then lost else Inr (qj_kinds j))"

definition lease_of_publication :: "'a publication_scheme \<Rightarrow> lease" where
  "lease_of_publication p =
     \<lparr>l_job = pb_job p, l_attempt = pb_attempt p, l_worker = pb_worker p, l_epoch = pb_epoch p, l_expires = 0\<rparr>"

definition publication_current :: "int \<Rightarrow> q_db \<Rightarrow> 'a publication_scheme \<Rightarrow> bool" where
  "publication_current t q p = (assert_current t (lease_of_publication p) q = Inr ())"

section \<open>Triggers and checks of the ledger\<close>

definition grace :: int where
  "grace = seconds 300"

definition trigger_error :: "string \<Rightarrow> 'a res" where
  "trigger_error m = raise RaiseException m"

text \<open>\<open>ensure_publication_current_lease\<close>; \<open>old\<close> is \<open>None\<close> on INSERT. It runs first.\<close>

definition lease_guard :: "int \<Rightarrow> pub_db \<Rightarrow> pub_row option \<Rightarrow> pub_row \<Rightarrow> pub_row res" where
  "lease_guard t s old new =
     (let current = publication_current t (pd_queue s) new in
      if (case old of None \<Rightarrow> False | Some r \<Rightarrow>
            pub_terminal (pb_state r) \<and> pb_deleted_at r = None \<and> pb_deleted_at new \<noteq> None)
      then Inr new
      else if (case old of None \<Rightarrow> False | Some r \<Rightarrow>
            pb_state new = pb_state r \<and> pb_stale_since r = None \<and> pb_stale_since new \<noteq> None)
      then (if current then trigger_error ''current publication cannot begin stale grace''
            else Inr (new\<lparr>pb_stale_since := Some t\<rparr>))
      else if pb_state new = PUB_ABANDONED
      then (case old of None \<Rightarrow> trigger_error ''ABANDONED requires a stale publication past DB-clock grace''
            | Some r \<Rightarrow>
               if current \<or> (case pb_stale_since r of None \<Rightarrow> True | Some x \<Rightarrow> t < x + grace)
               then trigger_error ''ABANDONED requires a stale publication past DB-clock grace''
               else Inr (new\<lparr>pb_stale_since := pb_stale_since r\<rparr>))
      else if \<not> current then trigger_error ''publication requires current unexpired uncancelled lease''
      else Inr new)"

definition same_identity_row :: "pub_row \<Rightarrow> pub_row \<Rightarrow> bool" where
  "same_identity_row o' n \<longleftrightarrow>
     pb_id n = pb_id o' \<and> pb_job n = pb_job o' \<and> pb_attempt n = pb_attempt o' \<and> pb_worker n = pb_worker o' \<and>
     pb_epoch n = pb_epoch o' \<and> pb_kind n = pb_kind o' \<and> pb_expected_sha256 n = pb_expected_sha256 o' \<and>
     pb_expected_size n = pb_expected_size o' \<and> pb_content_type n = pb_content_type o' \<and>
     pb_max_size n = pb_max_size o' \<and> pb_metadata n = pb_metadata o' \<and> pb_created_at n = pb_created_at o'"

definition same_evidence :: "pub_row \<Rightarrow> pub_row \<Rightarrow> bool" where
  "same_evidence o' n \<longleftrightarrow>
     pb_object_key n = pb_object_key o' \<and> pb_observed_sha256 n = pb_observed_sha256 o' \<and>
     pb_observed_size n = pb_observed_size o' \<and> pb_observed_content_type n = pb_observed_content_type o' \<and>
     pb_validator_metadata n = pb_validator_metadata o' \<and> pb_blob n = pb_blob o' \<and> pb_reason n = pb_reason o' \<and>
     pr_terminal_at n = pr_terminal_at o'"

definition transition_allowed :: "publication_state \<Rightarrow> publication_state \<Rightarrow> bool" where
  "transition_allowed a b \<longleftrightarrow>
     (a = PUB_RESERVED \<and> b \<in> {PUB_OBJECT_WRITTEN, PUB_REJECTED, PUB_ABANDONED}) \<or>
     (a = PUB_OBJECT_WRITTEN \<and> b \<in> {PUB_VALIDATED, PUB_REJECTED, PUB_ABANDONED}) \<or>
     (a = PUB_VALIDATED \<and> b \<in> {PUB_FINALIZED, PUB_REJECTED, PUB_ABANDONED})"

text \<open>\<open>ensure_publication_identity_and_transition\<close>, on INSERT and on UPDATE.\<close>

definition insert_guard :: "int \<Rightarrow> pub_row \<Rightarrow> pub_row res" where
  "insert_guard t new =
     (if pb_state new \<noteq> PUB_RESERVED \<or> pb_version new \<noteq> 0
      then trigger_error ''publication must begin RESERVED at version zero''
      else Inr (new\<lparr>pb_created_at := t, pb_updated_at := t, pr_terminal_at := None, pb_deleted_at := None,
                     pb_stale_since := None\<rparr>))"

definition transition_guard :: "int \<Rightarrow> pub_row \<Rightarrow> pub_row \<Rightarrow> pub_row res" where
  "transition_guard t old new =
     (if \<not> same_identity_row old new then trigger_error ''publication identity is immutable''
      else if pub_terminal (pb_state old)
      then (if pb_state new = pb_state old \<and> pb_version new = pb_version old + 1 \<and>
               pb_deleted_at old = None \<and> pb_deleted_at new \<noteq> None \<and> same_evidence old new \<and>
               pb_stale_since new = pb_stale_since old
            then Inr (new\<lparr>pb_deleted_at := Some t, pb_updated_at := t\<rparr>)
            else trigger_error ''terminal publication is immutable except cleanup evidence'')
      else if pb_state new = pb_state old \<and> pb_version new = pb_version old + 1 \<and>
              pb_stale_since old = None \<and> pb_stale_since new \<noteq> None \<and> same_evidence old new \<and>
              pb_deleted_at new = None
      then Inr (new\<lparr>pb_updated_at := t\<rparr>)
      else if pb_deleted_at new \<noteq> None
      then trigger_error ''attempt object cleanup requires an already-terminal publication''
      else if pb_version new \<noteq> pb_version old + 1 \<or> \<not> transition_allowed (pb_state old) (pb_state new)
      then trigger_error ''invalid publication state/version transition''
      else if pb_object_key old \<noteq> None \<and> pb_object_key new \<noteq> pb_object_key old
      then trigger_error ''publication object identity is immutable''
      else if pb_observed_sha256 old \<noteq> None \<and>
              (pb_observed_sha256 new \<noteq> pb_observed_sha256 old \<or> pb_observed_size new \<noteq> pb_observed_size old)
      then trigger_error ''publication observed identity is immutable''
      else if pb_blob old \<noteq> None \<and> pb_blob new \<noteq> pb_blob old
      then trigger_error ''publication canonical blob is immutable''
      else if pb_observed_content_type old \<noteq> None \<and>
              (pb_observed_content_type new \<noteq> pb_observed_content_type old \<or>
               pb_validator_metadata new \<noteq> pb_validator_metadata old)
      then trigger_error ''publication validation evidence is immutable''
      else if \<not> pub_terminal (pb_state new) \<and> pr_terminal_at new \<noteq> None
      then trigger_error ''nonterminal publication cannot have terminal_at''
      else if pb_state new \<noteq> PUB_ABANDONED \<and> pb_stale_since new \<noteq> pb_stale_since old
      then trigger_error ''stale_since is DB-owned abandonment evidence''
      else Inr (new\<lparr>pb_updated_at := t,
             pr_terminal_at := if pub_terminal (pb_state new) then Some t else pr_terminal_at new\<rparr>))"

text \<open>\<open>ensure_publication_validated_blob\<close>.\<close>

definition blob_matches :: "pub_row \<Rightarrow> blob_record \<Rightarrow> bool" where
  "blob_matches r b \<longleftrightarrow>
     pb_blob r = Some (blob_id b) \<and> blob_state b = BLOB_VERIFIED \<and>
     pb_observed_sha256 r = Some (blob_sha256 b) \<and> pb_observed_size r = Some (blob_size_bytes b) \<and>
     pb_observed_content_type r = Some (blob_content_type b) \<and>
     blob_storage_key b = key_of (blob_sha256 b)"

definition blob_guard :: "pub_db \<Rightarrow> pub_row \<Rightarrow> unit res" where
  "blob_guard s r =
     (if pb_state r \<in> {PUB_VALIDATED, PUB_FINALIZED} \<and> \<not> list_ex (blob_matches r) (pd_blobs s)
      then trigger_error ''VALIDATED publication requires matching canonical VERIFIED blob'' else Inr ())"

text \<open>The CHECK constraints of the table; \<open>trim\<close> of SQL removes spaces only.\<close>

definition sql_blank :: "string \<Rightarrow> bool" where
  "sql_blank s = list_all (\<lambda>c. c = CHR '' '') s"

definition sql_sha256 :: "string \<Rightarrow> bool" where
  "sql_sha256 h = (length h = 64 \<and> list_all hex_lower h)"

definition agree :: "'a option \<Rightarrow> 'a option \<Rightarrow> bool" where
  "agree x y = (x = None \<or> y = None \<or> x = y)"

definition state_shape :: "pub_row \<Rightarrow> bool" where
  "state_shape r \<longleftrightarrow>
     (let written = pb_object_key r \<noteq> None \<and> pb_observed_sha256 r \<noteq> None \<and> pb_observed_size r \<noteq> None;
          validated = pb_observed_content_type r \<noteq> None \<and> pb_validator_metadata r \<noteq> None \<and> pb_blob r \<noteq> None;
          unvalidated = pb_observed_content_type r = None \<and> pb_validator_metadata r = None \<and> pb_blob r = None;
          ended = pr_terminal_at r \<noteq> None; reason = pb_reason r;
          reasoned = (case reason of None \<Rightarrow> False | Some m \<Rightarrow> \<not> sql_blank m)
      in case pb_state r of
        PUB_RESERVED \<Rightarrow> pb_object_key r = None \<and> pb_observed_sha256 r = None \<and> pb_observed_size r = None \<and>
          unvalidated \<and> \<not> ended \<and> reason = None
      | PUB_OBJECT_WRITTEN \<Rightarrow> written \<and> unvalidated \<and> \<not> ended \<and> reason = None
      | PUB_VALIDATED \<Rightarrow> written \<and> validated \<and> \<not> ended \<and> reason = None
      | PUB_FINALIZED \<Rightarrow> written \<and> validated \<and> ended \<and> reason = None \<and> pb_stale_since r = None
      | PUB_REJECTED \<Rightarrow> ended \<and> pb_stale_since r = None \<and> reasoned
      | PUB_ABANDONED \<Rightarrow> ended \<and> pb_stale_since r \<noteq> None \<and> reasoned)"

definition row_check :: "pub_row \<Rightarrow> unit res" where
  "row_check r =
     require (0 < pb_epoch r \<and> (\<forall>h \<in> set_option (pb_expected_sha256 r). sql_sha256 h) \<and>
        (\<forall>n \<in> set_option (pb_expected_size r). 0 \<le> n) \<and> \<not> sql_blank (pb_content_type r) \<and>
        0 < pb_max_size r \<and> (\<forall>h \<in> set_option (pb_observed_sha256 r). sql_sha256 h) \<and>
        (\<forall>n \<in> set_option (pb_observed_size r). 0 \<le> n) \<and> 0 \<le> pb_version r \<and>
        agree (pb_expected_sha256 r) (pb_observed_sha256 r) \<and> agree (pb_expected_size r) (pb_observed_size r) \<and>
        within_max (pb_expected_size r) (pb_max_size r) \<and> within_max (pb_observed_size r) (pb_max_size r) \<and>
        agree (pb_observed_content_type r) (Some (pb_content_type r)) \<and>
        (pb_deleted_at r = None \<or> pub_terminal (pb_state r)) \<and>
        agree (pb_object_key r) (Some (attempt_object_key r)) \<and> state_shape r)
       CheckViolation ''artifact_publications''"

text \<open>A parameter outside \<open>BIGINT\<close> is refused before anything else.\<close>

definition bigint :: "int \<Rightarrow> bool" where
  "bigint n \<longleftrightarrow> - (2 ^ 63) \<le> n \<and> n < 2 ^ 63"

definition bigints :: "int option list \<Rightarrow> unit res" where
  "bigints ns = require (list_all (\<lambda>n. case n of None \<Rightarrow> True | Some i \<Rightarrow> bigint i) ns)
     NumericValueOutOfRange ''bigint out of range''"

section \<open>Statements\<close>

definition insert_publication :: "int \<Rightarrow> pub_row \<Rightarrow> (pub_db, bool) sop" where
  "insert_publication t r s =
     lift (bigints [Some (pb_max_size r), pb_expected_size r]) s (\<lambda>_.
     lift (lease_guard t s None r) s (\<lambda>r1.
     lift (insert_guard t r1) s (\<lambda>r2.
     lift (blob_guard s r2) s (\<lambda>_.
     lift (row_check r2) s (\<lambda>_.
       if list_ex (\<lambda>(i, x). pb_attempt x = pb_attempt r \<and> pb_kind x = pb_kind r) (pd_publications s) then ok False s
       else if pb_id r \<in> set (map fst (pd_publications s)) then fail UniqueViolation ''artifact_publications'' s
       else ok True (s\<lparr>pd_publications := add_row (pb_id r) r2 (pd_publications s)\<rparr>))))))"

text \<open>\<open>UPDATE ... WHERE id = i AND cond\<close>: whether a row was changed.\<close>

definition update_publication ::
  "int \<Rightarrow> string \<Rightarrow> (pub_row \<Rightarrow> bool) \<Rightarrow> (pub_row \<Rightarrow> pub_row) \<Rightarrow> (pub_db, bool) sop"
where
  "update_publication t i cond f s =
     (case map_of (pd_publications s) i of None \<Rightarrow> ok False s | Some old \<Rightarrow>
      if \<not> cond old then ok False s else
      lift (lease_guard t s (Some old) (f old)) s (\<lambda>r1.
      lift (transition_guard t old r1) s (\<lambda>r2.
      lift (blob_guard s r2) s (\<lambda>_.
      lift (row_check r2) s (\<lambda>_.
        ok True (s\<lparr>pd_publications := set_row i (\<lambda>_. r2) (pd_publications s)\<rparr>))))))"

definition must :: "(pub_db, bool) sop \<Rightarrow> exc_class \<Rightarrow> string \<Rightarrow> (pub_db, unit) sop" where
  "must m c msg = sbind m (\<lambda>b s. if b then ok () s else fail c msg s)"

definition not_found :: "string \<Rightarrow> 's \<Rightarrow> 'a res \<times> 's" where
  "not_found i s = fail NotFoundError (''publication not found: '' @ i) s"

definition select_record :: "string \<Rightarrow> (pub_db, publication) sop" where
  "select_record i s =
     (case map_of (pd_publications s) i of None \<Rightarrow> not_found i s
      | Some r \<Rightarrow> lift (from_row r) s (\<lambda>p. ok p s))"

fun records_of :: "pub_row list \<Rightarrow> publication list res" where
  "records_of [] = Inr []"
| "records_of (r # rs) = after (from_row r) (\<lambda>p. after (records_of rs) (\<lambda>ps. Inr (p # ps)))"

text \<open>
  \<open>INSERT INTO blobs ... ON CONFLICT DO NOTHING\<close>, whichever constraint conflicts, and the row with
  that digest when it did; the lease queue sees the same table.
\<close>

definition insert_blob :: "blob_record \<Rightarrow> (pub_db, blob_record option) sop" where
  "insert_blob b s =
     lift (bigints [Some (blob_size_bytes b)]) s (\<lambda>_.
     lift (require (sql_sha256 (blob_sha256 b) \<and> 0 \<le> blob_size_bytes b) CheckViolation ''blobs'') s (\<lambda>_.
       if list_ex (\<lambda>x. blob_id x = blob_id b \<or> blob_sha256 x = blob_sha256 b \<or>
                       blob_storage_key x = blob_storage_key b) (pd_blobs s)
       then ok (find (\<lambda>x. blob_sha256 x = blob_sha256 b) (pd_blobs s)) s
       else ok (Some b) (s\<lparr>pd_blobs := pd_blobs s @ [b],
              pd_queue := (pd_queue s)\<lparr>q_blobs := (q_blobs (pd_queue s))(blob_id b \<mapsto> b)\<rparr>\<rparr>)))"

definition same_blob_row :: "blob_record \<Rightarrow> blob_record \<Rightarrow> bool" where
  "same_blob_row x b \<longleftrightarrow>
     blob_size_bytes x = blob_size_bytes b \<and> blob_storage_key x = blob_storage_key b \<and>
     blob_content_type x = blob_content_type b \<and> blob_state x = BLOB_VERIFIED"

section \<open>Operations of a worker\<close>

definition pub_get :: "string \<Rightarrow> (pub_db, publication) sop" where
  "pub_get i = select_record i"

definition matches_spec :: "publication \<Rightarrow> lease \<Rightarrow> publication_spec \<Rightarrow> bool" where
  "matches_spec p l sp \<longleftrightarrow>
     pb_job p = l_job l \<and> pb_attempt p = l_attempt l \<and> pb_worker p = l_worker l \<and> pb_epoch p = l_epoch l \<and>
     pb_kind p = ps_kind sp \<and> pb_content_type p = ps_content_type sp \<and> pb_max_size p = ps_max_size sp \<and>
     pb_expected_sha256 p = ps_expected_sha256 sp \<and> pb_expected_size p = ps_expected_size sp \<and>
     py_eq (pb_metadata p) (ps_metadata sp)"

definition reserved_row :: "string \<Rightarrow> lease \<Rightarrow> publication_spec \<Rightarrow> pyval \<Rightarrow> pub_row" where
  "reserved_row u l sp m =
     \<lparr>pb_id = u, pb_job = l_job l, pb_attempt = l_attempt l, pb_worker = l_worker l, pb_epoch = l_epoch l,
      pb_kind = ps_kind sp, pb_content_type = ps_content_type sp, pb_max_size = ps_max_size sp,
      pb_state = PUB_RESERVED, pb_version = 0, pb_expected_sha256 = ps_expected_sha256 sp,
      pb_expected_size = ps_expected_size sp, pb_object_key = None, pb_observed_sha256 = None,
      pb_observed_size = None, pb_observed_content_type = None, pb_blob = None, pb_metadata = m,
      pb_validator_metadata = None, pb_created_at = 0, pb_updated_at = 0, pb_reason = None,
      pb_deleted_at = None, pb_stale_since = None, pr_terminal_at = None\<rparr>"

text \<open>
  \<open>jsonb m\<close> is what comes back from a JSONB column that \<open>json.dumps(m)\<close> was written to, or the
  \<open>TypeError\<close> of \<open>json.dumps\<close>.
\<close>

definition reserve ::
  "(pyval \<Rightarrow> pyval res) \<Rightarrow> int \<Rightarrow> int \<Rightarrow> string \<Rightarrow> lease \<Rightarrow> publication_spec \<Rightarrow> (pub_db, publication) sop"
where
  "reserve jsonb t t' u l sp = transaction (\<lambda>s.
     lift (lock_lease t l s) s (\<lambda>_.
     lift (jsonb (ps_metadata sp)) s (\<lambda>m.
     sbind (insert_publication t' (reserved_row u l sp m)) (\<lambda>inserted s.
       if inserted then select_record u s
       else case find (\<lambda>(i, r). pb_attempt r = l_attempt l \<and> pb_kind r = ps_kind sp) (pd_publications s) of
         None \<Rightarrow> fail StateTransitionError ''publication reservation disappeared'' s
       | Some (i, r) \<Rightarrow>
           lift (from_row r) s (\<lambda>p.
             if \<not> matches_spec p l sp
             then fail StateTransitionError ''publication kind was reserved with other identity'' s
             else ok p s)) s)))"

text \<open>A fenced statement on one publication starts by locking the lease and the row.\<close>

definition lock_publication :: "lease \<Rightarrow> string \<Rightarrow> (pub_db, publication) sop" where
  "lock_publication l i =
     sbind (select_record i) (\<lambda>p s.
       if (pb_job p, pb_attempt p, pb_worker p, pb_epoch p) \<noteq> (l_job l, l_attempt l, l_worker l, l_epoch l)
       then fail StateTransitionError ''publication is owned by another lease'' s
       else ok p s)"

definition fenced_publication ::
  "int \<Rightarrow> lease \<Rightarrow> string \<Rightarrow> (publication \<Rightarrow> (pub_db, 'a) sop) \<Rightarrow> (pub_db, 'a) sop"
where
  "fenced_publication t l i k s = lift (lock_lease t l s) s (\<lambda>_. sbind (lock_publication l i) k s)"

definition record_object ::
  "int \<Rightarrow> int \<Rightarrow> lease \<Rightarrow> string \<Rightarrow> int \<Rightarrow> string \<Rightarrow> int \<Rightarrow> (pub_db, publication) sop"
where
  "record_object t t' l i v h n s =
     lift (opt_sha256 (Some h) ''observed_sha256'') s (\<lambda>_.
     lift (opt_size (Some n) ''observed_size_bytes'') s (\<lambda>_.
     transaction (fenced_publication t l i (\<lambda>p s.
       if pb_state p \<noteq> PUB_RESERVED \<or> pb_version p \<noteq> v
       then fail StateTransitionError ''publication object CAS lost'' s
       else if n > pb_max_size p
       then fail DurableInvariantError ''publication object exceeds sealed size limit'' s
       else lift (bigints [Some n]) s (\<lambda>_.
         sbind (must (update_publication t' i (\<lambda>r. pb_state r = PUB_RESERVED \<and> pb_version r = v)
                  (\<lambda>r. r\<lparr>pb_state := PUB_OBJECT_WRITTEN, pb_version := pb_version r + 1,
                         pb_object_key := Some (attempt_object_key p), pb_observed_sha256 := Some h,
                         pb_observed_size := Some n, pb_updated_at := t'\<rparr>))
                StateTransitionError ''publication object CAS lost'')
           (\<lambda>_. select_record i) s))) s))"

definition record_validated ::
  "(pyval \<Rightarrow> pyval res) \<Rightarrow> int \<Rightarrow> int \<Rightarrow> lease \<Rightarrow> string \<Rightarrow> int \<Rightarrow> blob_record \<Rightarrow> pyval \<Rightarrow> (pub_db, publication) sop"
where
  "record_validated jsonb t t' l i v b vm s =
     lift (require (blob_state b = BLOB_VERIFIED) DurableInvariantError
             ''validated publication requires a VERIFIED blob'') s (\<lambda>_.
     lift (canonical_key (blob_sha256 b)) s (\<lambda>ck.
     lift (require (blob_storage_key b = ck) DurableInvariantError
             ''validated publication blob key is not canonical'') s (\<lambda>_.
     lift (require (is_mapping vm) TypeError ''validator_metadata must be a mapping'') s (\<lambda>_.
     transaction (fenced_publication t l i (\<lambda>p s.
       if pb_state p \<noteq> PUB_OBJECT_WRITTEN \<or> pb_version p \<noteq> v
       then fail StateTransitionError ''publication validation CAS lost'' s
       else if pb_observed_sha256 p \<noteq> Some (blob_sha256 b) \<or> pb_observed_size p \<noteq> Some (blob_size_bytes b) \<or>
               pb_content_type p \<noteq> blob_content_type b
       then fail DurableInvariantError ''validated blob differs from recorded object evidence'' s
       else sbind (insert_blob b) (\<lambda>found s.
         case found of
           None \<Rightarrow> fail DurableInvariantError ''canonical SHA maps to conflicting blob metadata'' s
         | Some x \<Rightarrow>
             if \<not> same_blob_row x b
             then fail DurableInvariantError ''canonical SHA maps to conflicting blob metadata'' s
             else lift (jsonb vm) s (\<lambda>m.
               sbind (must (update_publication t' i (\<lambda>r. pb_state r = PUB_OBJECT_WRITTEN \<and> pb_version r = v)
                        (\<lambda>r. r\<lparr>pb_state := PUB_VALIDATED, pb_version := pb_version r + 1,
                               pb_blob := Some (blob_id x), pb_observed_content_type := Some (blob_content_type b),
                               pb_validator_metadata := Some m, pb_updated_at := t'\<rparr>))
                      StateTransitionError ''publication validation CAS lost'')
                 (\<lambda>_. select_record i) s)) s)) s))))"

definition pub_open :: "pub_row \<Rightarrow> bool" where
  "pub_open r = (pb_state r \<in> {PUB_RESERVED, PUB_OBJECT_WRITTEN, PUB_VALIDATED})"

definition terminalize ::
  "int \<Rightarrow> int \<Rightarrow> lease \<Rightarrow> string \<Rightarrow> int \<Rightarrow> publication_state \<Rightarrow> string \<Rightarrow> (pub_db, publication) sop"
where
  "terminalize t t' l i v st reason s =
     lift (require_text (PStr reason) ''reason'') s (\<lambda>_.
     transaction (fenced_publication t l i (\<lambda>p s.
       if pb_version p \<noteq> v \<or> pub_terminal (pb_state p)
       then fail StateTransitionError ''publication terminal CAS lost'' s
       else sbind (must (update_publication t' i (\<lambda>r. pb_version r = v \<and> pub_open r)
                     (\<lambda>r. r\<lparr>pb_state := st, pb_version := pb_version r + 1, pb_reason := Some reason,
                            pr_terminal_at := Some t', pb_updated_at := t'\<rparr>))
                   StateTransitionError ''publication terminal CAS lost'')
              (\<lambda>_. select_record i) s)) s)"

definition pub_reject :: "int \<Rightarrow> int \<Rightarrow> lease \<Rightarrow> string \<Rightarrow> int \<Rightarrow> string \<Rightarrow> (pub_db, publication) sop" where
  "pub_reject t t' l i v reason = terminalize t t' l i v PUB_REJECTED reason"

section \<open>Abandoning\<close>

text \<open>
  The first call starts the grace period, commits, and raises all the same (\<open>Inl\<close> here); a call
  after the period abandons.
\<close>

definition abandon_body :: "int \<Rightarrow> int \<Rightarrow> string \<Rightarrow> int \<Rightarrow> string \<Rightarrow> (pub_db, publication option) sop" where
  "abandon_body t t' i v reason =
     sbind (select_record i) (\<lambda>p s.
       if pb_version p \<noteq> v \<or> pub_terminal (pb_state p)
       then fail StateTransitionError ''publication abandon CAS lost'' s
       else case pb_stale_since p of
         None \<Rightarrow>
           sbind (must (update_publication t' i (\<lambda>r. pb_version r = v \<and> pb_stale_since r = None \<and> pub_open r)
                    (\<lambda>r. r\<lparr>pb_version := pb_version r + 1, pb_stale_since := Some t', pb_updated_at := t'\<rparr>))
                  StateTransitionError ''publication stale grace CAS lost'')
             (\<lambda>_. sbind (select_record i) (\<lambda>_. ok None)) s
       | Some x \<Rightarrow>
           if t < x + grace then fail StateTransitionError ''publication stale grace has not elapsed'' s
           else sbind (must (update_publication t' i (\<lambda>r. pb_version r = v \<and> pub_open r)
                         (\<lambda>r. r\<lparr>pb_state := PUB_ABANDONED, pb_version := pb_version r + 1,
                                pb_reason := Some reason, pr_terminal_at := Some t', pb_updated_at := t'\<rparr>))
                       StateTransitionError ''publication abandon CAS lost'')
                  (\<lambda>_. sbind (select_record i) (\<lambda>p. ok (Some p))) s)"

definition pub_abandon :: "int \<Rightarrow> int \<Rightarrow> string \<Rightarrow> int \<Rightarrow> string \<Rightarrow> (pub_db, publication) sop" where
  "pub_abandon t t' i v reason s =
     lift (require_text (PStr reason) ''reason'') s (\<lambda>_.
     sbind (transaction (abandon_body t t' i v reason)) (\<lambda>r s.
       case r of None \<Rightarrow> fail StateTransitionError ''publication stale grace has started'' s
       | Some p \<Rightarrow> ok p s) s)"

section \<open>The visible winner\<close>

text \<open>The row of the join, where its conditions hold.\<close>

definition visible_row :: "pub_db \<Rightarrow> string \<Rightarrow> q_job \<Rightarrow> string \<times> pub_artifact \<Rightarrow> visible_artifact option" where
  "visible_row s j job = (\<lambda>(i, a).
     case map_of (pd_publications s) (pa_publication a) of None \<Rightarrow> None | Some p \<Rightarrow>
     case find (\<lambda>b. blob_id b = pa_blob a) (pd_blobs s) of None \<Rightarrow> None | Some b \<Rightarrow>
       if pa_job a = j \<and> qj_winning job = Some (pa_attempt a) \<and> qj_state job = SUCCEEDED \<and>
          pb_state p = PUB_FINALIZED \<and> pb_job p = j \<and> qj_winning job = Some (pb_attempt p) \<and>
          pb_blob p = Some (pa_blob a) \<and> blob_state b = BLOB_VERIFIED
       then Some \<lparr>va_id = i, va_publication = pa_publication a, va_job = pa_job a, va_attempt = pa_attempt a,
                  va_kind = pa_kind a, va_blob = blob_id b, va_sha256 = blob_sha256 b,
                  va_size = blob_size_bytes b, va_storage_key = blob_storage_key b,
                  va_content_type = blob_content_type b, va_metadata = pa_metadata a\<rparr>
       else None)"

fun visible_of :: "visible_artifact list \<Rightarrow> visible_artifact list res" where
  "visible_of [] = Inr []"
| "visible_of (v # vs) = after (new_VisibleArtifact v) (\<lambda>x. after (visible_of vs) (\<lambda>xs. Inr (x # xs)))"

definition visible_rows :: "pub_db \<Rightarrow> string \<Rightarrow> string option \<Rightarrow> visible_artifact list" where
  "visible_rows s j ns =
     (case map_of (q_jobs (pd_queue s)) j of None \<Rightarrow> [] | Some job \<Rightarrow>
        if (case ns of None \<Rightarrow> True | Some n \<Rightarrow> qj_namespace job = n)
        then sort_key (artifact_kind_value \<circ> va_kind) (List.map_filter (visible_row s j job) (pd_artifacts s))
        else [])"

definition visible_winner :: "string \<Rightarrow> string option \<Rightarrow> (pub_db, visible_artifact list) sop" where
  "visible_winner j ns s = lift (visible_of (visible_rows s j ns)) s (\<lambda>vs. ok vs s)"

section \<open>Triggers and checks of the attempts and the jobs\<close>

text \<open>
  An UPDATE of \<open>job_attempts\<close>: the row triggers in the order of their names
  (\<open>attempt_identity_immutable\<close>, \<open>attempts_lease_shape_guard\<close>, \<open>attempts_terminal_immutable\<close>,
  \<open>winning_attempt_of_succeeded_job_immutable\<close>), the checks, the partial unique indexes.
\<close>

definition attempt_shape :: "q_attempt \<Rightarrow> bool" where
  "attempt_shape a \<longleftrightarrow> 0 < qa_no a \<and> 0 < qa_epoch a \<and>
     (if qa_state a = ATT_ACTIVE
      then (case (qa_heartbeat a, qa_expires a) of (Some h, Some x) \<Rightarrow> h < x | _ \<Rightarrow> False) \<and> qa_finished a = None
      else qa_heartbeat a = None \<and> qa_expires a = None \<and> qa_finished a \<noteq> None)"

definition attempt_update_guard :: "q_db \<Rightarrow> string \<Rightarrow> q_attempt \<Rightarrow> q_attempt \<Rightarrow> unit res" where
  "attempt_update_guard q i old new = checks
     [require (qa_job new = qa_job old \<and> qa_worker new = qa_worker old \<and> qa_no new = qa_no old \<and> qa_epoch new = qa_epoch old)
        RaiseException ''attempt identity and epoch are immutable'',
      require (qa_state new \<noteq> ATT_ACTIVE \<or> qa_heartbeat new \<noteq> None \<and> qa_expires new \<noteq> None \<and> qa_finished new = None)
        RaiseException ''ACTIVE attempt requires heartbeat and expiry but no finished_at'',
      require (qa_state new = ATT_ACTIVE \<or> qa_heartbeat new = None \<and> qa_expires new = None)
        RaiseException ''terminal attempt must clear lease fields'',
      require (qa_state new \<noteq> ATT_ACTIVE \<or> qa_finished new = None)
        RaiseException ''ACTIVE attempt cannot have finished_at'',
      require (qa_state new = ATT_ACTIVE \<or> qa_finished new \<noteq> None)
        RaiseException ''terminal attempt requires finished_at'',
      require (qa_state old = ATT_ACTIVE \<or> new = old) RaiseException ''terminal attempt is immutable'',
      require (\<not> list_ex (\<lambda>(k, j). qj_winning j = Some i \<and> qj_state j = SUCCEEDED) (q_jobs q))
        RaiseException ''winning attempt of SUCCEEDED job is immutable'',
      require (attempt_shape new) CheckViolation ''job_attempts'',
      require (qa_state new \<noteq> ATT_ACTIVE \<or> \<not> list_ex (\<lambda>(k, a). k \<noteq> i \<and> qa_state a = ATT_ACTIVE \<and>
          (qa_job a = qa_job new \<or> qa_worker a = qa_worker new)) (q_attempts q))
        UniqueViolation ''job_attempts'']"

text \<open>
  An UPDATE of \<open>jobs\<close> that writes neither its epoch nor a column with a check of its own:
  \<open>job_semantics_and_terminal_state_immutable\<close>, \<open>jobs_lifecycle_shape_guard\<close>,
  \<open>jobs_succeeded_requires_ready_artifacts\<close>.
\<close>

definition verified_blob :: "pub_db \<Rightarrow> string \<Rightarrow> bool" where
  "verified_blob s i = list_ex (\<lambda>b. blob_id b = i \<and> blob_state b = BLOB_VERIFIED) (pd_blobs s)"

definition success_artifacts :: "pub_db \<Rightarrow> string \<Rightarrow> q_job \<Rightarrow> bool" where
  "success_artifacts s i j \<longleftrightarrow> qj_current j = None \<and> qj_cancel j = None \<and>
     (case qj_winning j of None \<Rightarrow> False | Some w \<Rightarrow>
        list_ex (\<lambda>(k, a). k = w \<and> qa_job a = i \<and> qa_state a = ATT_SUCCEEDED \<and> qa_epoch a = qj_epoch j)
          (q_attempts (pd_queue s)) \<and>
        list_all (\<lambda>kind. list_ex (\<lambda>(u, a). pa_job a = i \<and> pa_attempt a = w \<and> pa_kind a = kind \<and>
          verified_blob s (pa_blob a)) (pd_artifacts s)) (qj_kinds j))"

definition job_update_guard :: "pub_db \<Rightarrow> string \<Rightarrow> q_job \<Rightarrow> q_job \<Rightarrow> unit res" where
  "job_update_guard s i old new = checks
     [require (qj_namespace new = qj_namespace old \<and> qj_key new = qj_key old \<and> qj_sha256 new = qj_sha256 old \<and>
        qj_request new = qj_request old \<and> qj_deployment new = qj_deployment old \<and> qj_kinds new = qj_kinds old)
        RaiseException ''job request semantics are immutable'',
      require (qj_state old \<notin> {SUCCEEDED, FAILED, CANCELLED} \<or> new = old) RaiseException ''terminal jobs are immutable'',
      require (qj_state new \<noteq> QUEUED \<or> qj_current new = None \<and> qj_winning new = None)
        RaiseException ''QUEUED job cannot have current or winning attempt'',
      require (qj_state new \<noteq> RUNNING \<or> qj_current new \<noteq> None \<and> qj_winning new = None)
        RaiseException ''RUNNING job requires current attempt and no winner'',
      require (qj_state new \<notin> {FAILED, CANCELLED} \<or> qj_current new = None \<and> qj_winning new = None)
        RaiseException ''terminal non-success job cannot have current or winning attempt'',
      require (qj_state new \<noteq> SUCCEEDED \<or> success_artifacts s i new)
        RaiseException ''SUCCEEDED requires all READY verified artifacts from winning attempt'']"

section \<open>Constraints checked at commit\<close>

text \<open>
  The deferred triggers and keys, each for one row. \<open>commit_finalization\<close> asks them for the rows that a
  finalization writes; that they hold of every row of every reachable state is proved.
\<close>

definition ready_artifact_for :: "pub_db \<Rightarrow> string \<Rightarrow> pub_row \<Rightarrow> string \<times> pub_artifact \<Rightarrow> bool" where
  "ready_artifact_for s i p = (\<lambda>(u, a). pa_publication a = i \<and> pa_job a = pb_job p \<and> pa_attempt a = pb_attempt p \<and>
     pa_kind a = pb_kind p \<and> Some (pa_blob a) = pb_blob p \<and>
     list_ex (\<lambda>b. blob_id b = pa_blob a \<and> blob_state b = BLOB_VERIFIED) (pd_blobs s))"

text \<open>\<open>ensure_publication_artifact_proof\<close>, for a row of the ledger and for an artifact.\<close>

definition publication_proved :: "pub_db \<Rightarrow> string \<times> pub_row \<Rightarrow> bool" where
  "publication_proved s = (\<lambda>(i, p). pb_state p = PUB_FINALIZED \<longrightarrow> list_ex (ready_artifact_for s i p) (pd_artifacts s))"

definition artifact_proved :: "pub_db \<Rightarrow> pub_artifact \<Rightarrow> bool" where
  "artifact_proved s a = list_ex (\<lambda>(i, p). i = pa_publication a \<and> pb_state p = PUB_FINALIZED \<and> pb_job p = pa_job a \<and>
     pb_attempt p = pa_attempt a \<and> pb_kind p = pa_kind a \<and> pb_blob p = Some (pa_blob a)) (pd_publications s)"

definition artifact_proof :: "pub_db \<Rightarrow> bool" where
  "artifact_proof s \<longleftrightarrow>
     list_all (publication_proved s) (pd_publications s) \<and> list_all (\<lambda>(u, a). artifact_proved s a) (pd_artifacts s)"

text \<open>\<open>ensure_succeeded_publication_proof\<close>.\<close>

definition success_proved :: "pub_db \<Rightarrow> string \<times> q_job \<Rightarrow> bool" where
  "success_proved s = (\<lambda>(i, j). qj_state j = SUCCEEDED \<longrightarrow>
     (let kinds = map (pb_kind \<circ> snd) (filter (\<lambda>(k, p). pb_job p = i \<and> Some (pb_attempt p) = qj_winning j \<and>
            pb_state p = PUB_FINALIZED) (pd_publications s))
      in set kinds = set (qj_kinds j) \<and>
         length (filter (\<lambda>e. qe_job e = i \<and> qe_attempt e = qj_winning j \<and> qe_type e = ''job_succeeded'')
           (q_events (pd_queue s))) = 1))"

definition succeeded_proof :: "pub_db \<Rightarrow> bool" where
  "succeeded_proof s = list_all (success_proved s) (q_jobs (pd_queue s))"

text \<open>\<open>ensure_job_attempt_linkage\<close> and \<open>ensure_current_attempt_lease_epoch\<close>.\<close>

definition attempt_of :: "q_db \<Rightarrow> string \<Rightarrow> string option \<Rightarrow> (q_attempt \<Rightarrow> bool) \<Rightarrow> bool" where
  "attempt_of q i x P = list_ex (\<lambda>(k, a). x = Some k \<and> qa_job a = i \<and> P a) (q_attempts q)"

definition linked :: "q_db \<Rightarrow> string \<times> q_job \<Rightarrow> bool" where
  "linked q = (\<lambda>(i, j).
     (qj_state j = RUNNING \<longrightarrow> attempt_of q i (qj_current j) (\<lambda>a. qa_state a = ATT_ACTIVE)) \<and>
     list_all (\<lambda>(k, a). qa_job a = i \<and> qa_state a = ATT_ACTIVE \<longrightarrow> qj_state j = RUNNING \<and> qj_current j = Some k)
       (q_attempts q) \<and>
     (qj_current j \<noteq> None \<longrightarrow> attempt_of q i (qj_current j) (\<lambda>a. qa_state a = ATT_ACTIVE)) \<and>
     (qj_winning j \<noteq> None \<longrightarrow> attempt_of q i (qj_winning j) (\<lambda>a. qa_state a = ATT_SUCCEEDED)))"

definition epoch_current :: "q_db \<Rightarrow> string \<times> q_job \<Rightarrow> bool" where
  "epoch_current q = (\<lambda>(i, j). qj_state j = RUNNING \<longrightarrow>
     list_ex (\<lambda>(k, a). qj_current j = Some k \<and> qa_state a = ATT_ACTIVE \<and> qa_epoch a = qj_epoch j) (q_attempts q))"

text \<open>The commit of a finalization of the publications \<open>ids\<close> for job \<open>i\<close> and attempt \<open>w\<close>.\<close>

definition commit_finalization :: "string \<Rightarrow> string \<Rightarrow> string list \<Rightarrow> pub_db \<Rightarrow> unit res" where
  "commit_finalization i w ids s =
     (let job = filter (\<lambda>(k, j). k = i) (q_jobs (pd_queue s)) in checks
     [require (attempt_of (pd_queue s) i (Some w) (\<lambda>_. True)) ForeignKeyViolation ''job_attempts'',
      require (list_all (publication_proved s) (filter (\<lambda>(k, p). k \<in> set ids) (pd_publications s)))
        RaiseException ''FINALIZED publication requires matching READY artifact'',
      require (list_all (\<lambda>(u, a). artifact_proved s a) (filter (\<lambda>(u, a). pa_publication a \<in> set ids) (pd_artifacts s)))
        RaiseException ''artifact requires matching FINALIZED publication'',
      require (list_all (linked (pd_queue s)) job) RaiseException ''jobs and attempts are not linked'',
      require (list_all (epoch_current (pd_queue s)) job)
        RaiseException ''RUNNING job current attempt must have matching lease epoch'',
      require (list_all (success_proved s) job)
        RaiseException ''SUCCEEDED requires exact FINALIZED publications and one success event''])"

text \<open>The keys of the ledger: primary, unique and foreign.\<close>

definition ledger_keys :: "pub_db \<Rightarrow> bool" where
  "ledger_keys s \<longleftrightarrow>
     distinct (map fst (pd_publications s)) \<and>
     distinct (map (\<lambda>(i, p). (pb_attempt p, pb_kind p)) (pd_publications s)) \<and>
     list_all (\<lambda>(i, p). list_ex (\<lambda>(k, a). k = pb_attempt p \<and> qa_job a = pb_job p) (q_attempts (pd_queue s))) (pd_publications s) \<and>
     distinct (map (pa_publication \<circ> snd) (pd_artifacts s)) \<and>
     distinct (map (\<lambda>(u, a). (pa_attempt a, pa_kind a)) (pd_artifacts s))"

section \<open>Finalization\<close>

text \<open>An INSERT into \<open>artifacts\<close> with its triggers and unique constraints.\<close>

definition insert_artifact :: "string \<Rightarrow> pub_artifact \<Rightarrow> (pub_db, unit) sop" where
  "insert_artifact u a s =
     (if \<not> list_ex (\<lambda>b. blob_id b = pa_blob a \<and> blob_state b = BLOB_VERIFIED) (pd_blobs s)
      then fail RaiseException ''READY artifact requires a VERIFIED blob'' s
      else if (case map_of (q_jobs (pd_queue s)) (pa_job a) of None \<Rightarrow> False | Some j \<Rightarrow> qj_state j = SUCCEEDED)
      then fail RaiseException ''artifacts of SUCCEEDED job are immutable'' s
      else if list_ex (\<lambda>(i, x). i = u \<or> pa_publication x = pa_publication a \<or>
                        pa_attempt x = pa_attempt a \<and> pa_kind x = pa_kind a) (pd_artifacts s)
      then fail UniqueViolation ''artifacts'' s
      else ok () (s\<lparr>pd_artifacts := add_row u a (pd_artifacts s)\<rparr>))"

text \<open>The loop over the locked publications; \<open>us\<close> are the drawn identifiers, \<open>clk n\<close> the clock of the n-th UPDATE.\<close>

fun finalize_rows ::
  "(pyval \<Rightarrow> pyval res) \<Rightarrow> (nat \<Rightarrow> int) \<Rightarrow> nat \<Rightarrow> (nat \<Rightarrow> string) \<Rightarrow> lease \<Rightarrow> publication list \<Rightarrow> (pub_db, unit) sop"
where
  "finalize_rows jsonb clk n us l [] = ok ()"
| "finalize_rows jsonb clk n us l (p # ps) = (\<lambda>s.
     lift (jsonb (pb_metadata p)) s (\<lambda>m.
     sbind (insert_artifact (us n) \<lparr>pa_job = l_job l, pa_attempt = l_attempt l, pa_blob = the (pb_blob p),
              pa_kind = pb_kind p, pa_metadata = m, pa_publication = pb_id p\<rparr>) (\<lambda>_.
     sbind (must (update_publication (clk n) (pb_id p) (\<lambda>r. pb_state r = PUB_VALIDATED \<and> pb_version r = pb_version p)
              (\<lambda>r. r\<lparr>pb_state := PUB_FINALIZED, pb_version := pb_version r + 1,
                     pr_terminal_at := Some (clk n), pb_updated_at := clk n\<rparr>))
            StateTransitionError ''publication finalization CAS lost'')
       (\<lambda>_. finalize_rows jsonb clk (Suc n) us l ps)) s))"

text \<open>The attempt and the job succeed: the three UPDATEs and the event, in their order.\<close>

definition won_attempt :: "int \<Rightarrow> q_attempt \<Rightarrow> q_attempt" where
  "won_attempt t a = a\<lparr>qa_state := ATT_SUCCEEDED, qa_finished := Some t, qa_heartbeat := None, qa_expires := None\<rparr>"

definition succeed_attempt :: "int \<Rightarrow> lease \<Rightarrow> (pub_db, bool) sop" where
  "succeed_attempt t l s =
     (if assert_current t l (pd_queue s) = Inr ()
      then case map_of (q_attempts (pd_queue s)) (l_attempt l) of None \<Rightarrow> ok False s | Some a \<Rightarrow>
           lift (attempt_update_guard (pd_queue s) (l_attempt l) a (won_attempt t a)) s (\<lambda>_.
             ok True (s\<lparr>pd_queue := (pd_queue s)\<lparr>q_attempts :=
               set_row (l_attempt l) (won_attempt t) (q_attempts (pd_queue s))\<rparr>\<rparr>))
      else ok False s)"

definition release_winner :: "lease \<Rightarrow> (pub_db, unit) sop" where
  "release_winner l s =
     (if list_ex (\<lambda>e. qe_job e = l_job l \<and> qe_type e = ''job_succeeded'') (q_events (pd_queue s))
      then fail UniqueViolation ''one_job_succeeded_event_per_job'' s
      else ok () (s\<lparr>pd_queue := q_event_add (l_job l) (Some (l_attempt l)) ''job_succeeded''
        ((pd_queue s)\<lparr>q_workers := set_row (l_worker l) (\<lambda>w. w\<lparr>qw_state := W_READY\<rparr>) (q_workers (pd_queue s))\<rparr>)\<rparr>))"

definition won_job :: "lease \<Rightarrow> q_job \<Rightarrow> q_job" where
  "won_job l j = j\<lparr>qj_state := SUCCEEDED, qj_current := None, qj_winning := Some (l_attempt l)\<rparr>"

definition succeed_job :: "lease \<Rightarrow> (pub_db, bool) sop" where
  "succeed_job l s =
     (case map_of (q_jobs (pd_queue s)) (l_job l) of None \<Rightarrow> ok False s | Some j \<Rightarrow>
        if qj_state j = RUNNING \<and> qj_current j = Some (l_attempt l) \<and> qj_epoch j = l_epoch l \<and> qj_cancel j = None
        then lift (job_update_guard s (l_job l) j (won_job l j)) s (\<lambda>_.
             ok True (s\<lparr>pd_queue := (pd_queue s)\<lparr>q_jobs := set_row (l_job l) (won_job l) (q_jobs (pd_queue s))\<rparr>\<rparr>))
        else ok False s)"

definition succeed :: "int \<Rightarrow> lease \<Rightarrow> (pub_db, unit) sop" where
  "succeed t l = sbind (must (succeed_attempt t l) StateTransitionError ''winner lease expired before finalization'') (\<lambda>_.
     sbind (release_winner l) (\<lambda>_. must (succeed_job l) StateTransitionError ''job winner CAS lost''))"

definition requested_rows :: "string list \<Rightarrow> pub_db \<Rightarrow> pub_row list" where
  "requested_rows ids s =
     map snd (sort_key fst (filter (\<lambda>(i, r). i \<in> set ids) (pd_publications s)))"

definition stale_or_unvalidated :: "lease \<Rightarrow> publication list \<Rightarrow> publication \<Rightarrow> bool" where
  "stale_or_unvalidated l req p \<longleftrightarrow>
     pb_job p \<noteq> l_job l \<or> pb_attempt p \<noteq> l_attempt l \<or> pb_worker p \<noteq> l_worker l \<or> pb_epoch p \<noteq> l_epoch l \<or>
     pb_state p \<noteq> PUB_VALIDATED \<or> map_of (map (\<lambda>q. (pb_id q, pb_version q)) req) (pb_id p) \<noteq> Some (pb_version p)"

definition blobs_verified :: "publication list \<Rightarrow> pub_db \<Rightarrow> bool" where
  "blobs_verified ps s \<longleftrightarrow>
     (\<forall>p \<in> set ps. list_ex (\<lambda>b. pb_blob p = Some (blob_id b) \<and> blob_state b = BLOB_VERIFIED) (pd_blobs s))"

definition finalize_body ::
  "(pyval \<Rightarrow> pyval res) \<Rightarrow> int \<Rightarrow> int \<Rightarrow> (nat \<Rightarrow> int) \<Rightarrow> int \<Rightarrow> (nat \<Rightarrow> string) \<Rightarrow> lease \<Rightarrow> publication list
     \<Rightarrow> (pub_db, unit) sop"
where
  "finalize_body jsonb t t2 clk t' us l req s =
     lift (lock_lease t l s) s (\<lambda>required.
     lift (case map_of (q_attempts (pd_queue s)) (l_attempt l) of None \<Rightarrow> lost
           | Some a \<Rightarrow> if unexpired t2 a then Inr () else lost) s (\<lambda>_.
     lift (records_of (requested_rows (map pb_id req) s)) s (\<lambda>current.
       if length current \<noteq> length req
       then fail StateTransitionError ''publication set is incomplete'' s
       else if list_ex (stale_or_unvalidated l req) current
       then fail StateTransitionError ''publication set is stale or not validated'' s
       else if set (map pb_kind current) \<noteq> set required \<or> length current \<noteq> length required
       then fail DurableInvariantError ''finalization requires the exact required artifact kinds'' s
       else if \<not> blobs_verified current s
       then fail DurableInvariantError ''finalization requires VERIFIED canonical blobs'' s
       else sbind (finalize_rows jsonb clk 0 us l current) (\<lambda>_. succeed t' l) s)))"

definition pub_finalize ::
  "(pyval \<Rightarrow> pyval res) \<Rightarrow> int \<Rightarrow> int \<Rightarrow> (nat \<Rightarrow> int) \<Rightarrow> int \<Rightarrow> (nat \<Rightarrow> string) \<Rightarrow> lease \<Rightarrow> publication list
     \<Rightarrow> (pub_db, visible_artifact list) sop"
where
  "pub_finalize jsonb t t2 clk t' us l req s =
     (if req = [] then fail ValueError ''publications must not be empty'' s
      else if \<not> distinct (map pb_id req) then fail ValueError ''publication ids must be unique'' s
      else sbind (transaction (sbind (finalize_body jsonb t t2 clk t' us l req) (\<lambda>_ s.
             lift (commit_finalization (l_job l) (l_attempt l) (map pb_id req) s) s (\<lambda>_. ok () s))))
           (\<lambda>_. visible_winner (l_job l) None) s)"

section \<open>Cleanup\<close>

definition limit_ok :: "int \<Rightarrow> unit res" where
  "limit_ok n = require (1 \<le> n) ValueError ''limit must be positive''"

definition cleanup_candidates :: "int \<Rightarrow> int \<Rightarrow> pub_db \<Rightarrow> publication list res" where
  "cleanup_candidates before limit s =
     after (limit_ok limit) (\<lambda>_.
       records_of (map snd (take (nat limit) (sort_key (\<lambda>(i, r). (the (pr_terminal_at r), i))
         (filter (\<lambda>(i, r). pub_terminal (pb_state r) \<and> pb_deleted_at r = None \<and>
              (case pr_terminal_at r of None \<Rightarrow> False | Some x \<Rightarrow> x < before)) (pd_publications s))))))"

definition record_cleanup :: "int \<Rightarrow> string \<Rightarrow> int \<Rightarrow> (pub_db, publication) sop" where
  "record_cleanup t i v = transaction (
     sbind (select_record i) (\<lambda>p s.
       if pb_version p \<noteq> v \<or> \<not> pub_terminal (pb_state p) \<or> pb_deleted_at p \<noteq> None
       then fail StateTransitionError ''publication cleanup CAS lost'' s
       else sbind (must (update_publication t i
                     (\<lambda>r. pb_version r = v \<and> pb_deleted_at r = None \<and> pub_terminal (pb_state r))
                     (\<lambda>r. r\<lparr>pb_version := pb_version r + 1, pb_deleted_at := Some t, pb_updated_at := t\<rparr>))
                   StateTransitionError ''publication cleanup CAS lost'')
              (\<lambda>_. select_record i) s))"

definition known_attempt_keys :: "string list \<Rightarrow> pub_db \<Rightarrow> string list res" where
  "known_attempt_keys keys s =
     (if keys = [] then Inr []
      else if \<not> list_all (\<lambda>k. k \<noteq> []) keys then raise ValueError ''keys must be non-empty strings''
      else Inr (sort (filter (\<lambda>k. k \<in> set keys) (List.map_filter (pb_object_key \<circ> snd) (pd_publications s)))))"

text \<open>The outer joins: a missing job counts as a job with another current attempt.\<close>

definition orphaned :: "pub_db \<Rightarrow> pub_row \<Rightarrow> bool" where
  "orphaned s r \<longleftrightarrow>
     pb_state r \<in> {PUB_REJECTED, PUB_ABANDONED} \<or>
     (case map_of (q_jobs (pd_queue s)) (pb_job r) of None \<Rightarrow> True
      | Some j \<Rightarrow> qj_state j \<noteq> RUNNING \<or> qj_current j \<noteq> Some (pb_attempt r)) \<or>
     (case map_of (q_attempts (pd_queue s)) (pb_attempt r) of None \<Rightarrow> False
      | Some a \<Rightarrow> qa_state a \<noteq> ATT_ACTIVE \<or> qa_epoch a \<noteq> pb_epoch r)"

definition orphan_keys_before :: "int \<Rightarrow> int \<Rightarrow> pub_db \<Rightarrow> string list res" where
  "orphan_keys_before before limit s =
     after (limit_ok limit) (\<lambda>_.
       Inr (map (the \<circ> pb_object_key \<circ> snd) (take (nat limit) (sort_key (\<lambda>(i, r). (pb_updated_at r, i))
         (filter (\<lambda>(i, r). pb_object_key r \<noteq> None \<and> pb_updated_at r < before \<and> pb_state r \<noteq> PUB_FINALIZED \<and>
              orphaned s r) (pd_publications s))))))"

end
