(* ===== verification/PublicationInv.thy ===== *)
theory PublicationInv
  imports Publication LeaseLife
begin

text \<open>
  The ledger of publications: what its triggers and checks let a statement do, the forward order of
  its rows, and the invariant that ties rows, blobs, artifacts and succeeded jobs together.
\<close>

section \<open>The forward order of a row\<close>

text \<open>Evidence that is there stays as it is.\<close>

definition kept :: "('r \<Rightarrow> 'a option) \<Rightarrow> 'r \<Rightarrow> 'r \<Rightarrow> bool" where
  "kept f r r' \<longleftrightarrow> (f r \<noteq> None \<longrightarrow> f r' = f r)"

lemma kept_refl [simp]: "kept f r r"
  and kept_trans: "kept f x y \<Longrightarrow> kept f y z \<Longrightarrow> kept f x z"
  by (auto simp: kept_def)

definition observed :: "pub_row \<Rightarrow> (string \<times> int option) option" where
  "observed r = map_option (\<lambda>h. (h, pb_observed_size r)) (pb_observed_sha256 r)"

definition validation :: "pub_row \<Rightarrow> (string \<times> pyval option) option" where
  "validation r = map_option (\<lambda>c. (c, pb_validator_metadata r)) (pb_observed_content_type r)"

fun state_rank :: "publication_state \<Rightarrow> nat" where
  "state_rank PUB_RESERVED = 0"
| "state_rank PUB_OBJECT_WRITTEN = 1"
| "state_rank PUB_VALIDATED = 2"
| "state_rank _ = 3"

definition pub_le :: "pub_row \<Rightarrow> pub_row \<Rightarrow> bool" where
  "pub_le r r' \<longleftrightarrow>
     same_identity_row r r' \<and> (pb_version r < pb_version r' \<or> r' = r) \<and>
     state_rank (pb_state r) \<le> state_rank (pb_state r') \<and>
     (pub_terminal (pb_state r) \<longrightarrow> pb_state r' = pb_state r \<and> same_evidence r r') \<and>
     kept pb_object_key r r' \<and> kept observed r r' \<and> kept pb_blob r r' \<and> kept validation r r' \<and>
     kept pb_stale_since r r' \<and> (pb_deleted_at r \<noteq> None \<longrightarrow> pub_terminal (pb_state r) \<longrightarrow> r' = r)"

lemma same_identity_row_refl [simp]: "same_identity_row r r"
  and same_evidence_refl [simp]: "same_evidence r r"
  by (simp_all add: same_identity_row_def same_evidence_def)

lemma pub_le_refl [simp]: "pub_le r r"
  by (simp add: pub_le_def)

lemma same_identity_row_trans: "same_identity_row x y \<Longrightarrow> same_identity_row y z \<Longrightarrow> same_identity_row x z"
  by (simp add: same_identity_row_def)

lemma same_evidence_trans: "same_evidence x y \<Longrightarrow> same_evidence y z \<Longrightarrow> same_evidence x z"
  by (simp add: same_evidence_def)

lemma pub_le_trans: "pub_le x y \<Longrightarrow> pub_le y z \<Longrightarrow> pub_le x z"
  unfolding pub_le_def
  by (elim conjE, intro conjI; (blast intro: same_identity_row_trans same_evidence_trans kept_trans | fastforce intro: same_evidence_trans))

section \<open>What a statement may do\<close>

text \<open>The row that the triggers and checks make of an UPDATE, if they let it pass.\<close>

definition guarded_row :: "int \<Rightarrow> pub_db \<Rightarrow> pub_row \<Rightarrow> pub_row \<Rightarrow> pub_row \<Rightarrow> bool" where
  "guarded_row t s old new r \<longleftrightarrow>
     (\<exists>r1. lease_guard t s (Some old) new = Inr r1 \<and> transition_guard t old r1 = Inr r) \<and>
     blob_guard s r = Inr () \<and> row_check r = Inr ()"

lemma trigger_error_not_Inr [simp]: "trigger_error m \<noteq> Inr x"
  by (simp add: trigger_error_def)

text \<open>Nothing but the three bookkeeping columns differs from what was asked.\<close>

lemma lease_guard_old:
  "lease_guard t s (Some old) new = Inr r1 \<Longrightarrow>
     \<exists>x. r1 = new\<lparr>pb_stale_since := x\<rparr> \<and> (pb_stale_since new = None \<longrightarrow> pb_state new \<noteq> PUB_ABANDONED \<longrightarrow> x = None)"
  unfolding lease_guard_def Let_def
  by (auto split: if_splits option.splits intro: exI [of _ "pb_stale_since new"])

text \<open>The three kinds of UPDATE that pass: cleanup evidence, the start of the grace period, a transition.\<close>

lemma transition_guard_cases:
  assumes "transition_guard t old new = Inr r"
  obtains (cleanup) "same_identity_row old new" "pub_terminal (pb_state old)" "pb_state new = pb_state old"
      "pb_version new = pb_version old + 1" "pb_deleted_at old = None" "same_evidence old new"
      "pb_stale_since new = pb_stale_since old" "r = new\<lparr>pb_deleted_at := Some t, pb_updated_at := t\<rparr>"
  | (stale) "same_identity_row old new" "\<not> pub_terminal (pb_state old)" "pb_state new = pb_state old"
      "pb_version new = pb_version old + 1" "pb_stale_since old = None" "pb_stale_since new \<noteq> None"
      "same_evidence old new" "pb_deleted_at new = None" "r = new\<lparr>pb_updated_at := t\<rparr>"
  | (move) "same_identity_row old new" "\<not> pub_terminal (pb_state old)" "pb_deleted_at new = None"
      "pb_version new = pb_version old + 1" "transition_allowed (pb_state old) (pb_state new)"
      "pb_object_key old \<noteq> None \<longrightarrow> pb_object_key new = pb_object_key old"
      "pb_observed_sha256 old \<noteq> None \<longrightarrow> pb_observed_sha256 new = pb_observed_sha256 old \<and>
         pb_observed_size new = pb_observed_size old"
      "pb_blob old \<noteq> None \<longrightarrow> pb_blob new = pb_blob old"
      "pb_observed_content_type old \<noteq> None \<longrightarrow> pb_observed_content_type new = pb_observed_content_type old \<and>
         pb_validator_metadata new = pb_validator_metadata old"
      "pb_state new \<noteq> PUB_ABANDONED \<longrightarrow> pb_stale_since new = pb_stale_since old"
      "r = new\<lparr>pb_updated_at := t,
         pr_terminal_at := if pub_terminal (pb_state new) then Some t else pr_terminal_at new\<rparr>"
proof -
  note a = assms [unfolded transition_guard_def]
  have id: "same_identity_row old new" using a by (simp split: if_splits)
  note a = a [simplified id, simplified]
  show ?thesis
  proof (cases "pub_terminal (pb_state old)")
    case True
    with a show ?thesis by (auto split: if_splits intro: cleanup [OF id True])
  next
    case False
    show ?thesis
    proof (cases "pb_state new = pb_state old \<and> pb_version new = pb_version old + 1 \<and>
        pb_stale_since old = None \<and> pb_stale_since new \<noteq> None \<and> same_evidence old new \<and> pb_deleted_at new = None")
      case True
      with a False show ?thesis by (intro stale [OF id False]) simp_all
    next
      case no: False
      note a = a [unfolded if_not_P [OF False] if_not_P [OF no]]
      show ?thesis
        by (rule move [OF id False]) (use a in \<open>auto split: if_splits\<close>)
    qed
  qed
qed

lemma lease_guard_abandon:
  assumes "lease_guard t s (Some old) new = Inr r1" "pb_state new = PUB_ABANDONED" "\<not> pub_terminal (pb_state old)"
  shows "pb_stale_since r1 = pb_stale_since old \<and> \<not> publication_current t (pd_queue s) new \<and>
    (\<exists>x. pb_stale_since old = Some x \<and> x + grace \<le> t)"
  using assms unfolding lease_guard_def Let_def
  by (auto simp: pub_terminal_def split: if_splits option.splits)

lemma lease_guard_keeps:
  assumes "lease_guard t s (Some old) new = Inr r1"
  shows "\<exists>x. r1 = new\<lparr>pb_stale_since := x\<rparr>"
  using lease_guard_old [OF assms] by blast

lemma same_identity_row_updates [simp]:
  "same_identity_row a (r\<lparr>pb_deleted_at := d\<rparr>) = same_identity_row a r"
  "same_identity_row a (r\<lparr>pb_updated_at := u\<rparr>) = same_identity_row a r"
  "same_identity_row a (r\<lparr>pb_stale_since := x\<rparr>) = same_identity_row a r"
  "same_identity_row a (r\<lparr>pr_terminal_at := e\<rparr>) = same_identity_row a r"
  by (simp_all add: same_identity_row_def)

lemma same_evidence_updates [simp]:
  "same_evidence a (r\<lparr>pb_deleted_at := d\<rparr>) = same_evidence a r"
  "same_evidence a (r\<lparr>pb_updated_at := u\<rparr>) = same_evidence a r"
  "same_evidence a (r\<lparr>pb_stale_since := x\<rparr>) = same_evidence a r"
  by (simp_all add: same_evidence_def)

lemma transition_allowed_rank: "transition_allowed a b \<Longrightarrow> \<not> pub_terminal a \<and> state_rank a < state_rank b"
  by (auto simp: transition_allowed_def pub_terminal_def)

lemma guarded_row_le:
  assumes "guarded_row t s old new r"
  shows "pub_le old r" "pb_version r = pb_version old + 1"
proof -
  obtain r1 where lg: "lease_guard t s (Some old) new = Inr r1" and tg: "transition_guard t old r1 = Inr r"
    using assms by (auto simp: guarded_row_def)
  from lease_guard_keeps [OF lg] obtain x where r1: "r1 = new\<lparr>pb_stale_since := x\<rparr>" by blast
  from tg have "pub_le old r \<and> pb_version r = pb_version old + 1"
  proof (cases rule: transition_guard_cases)
    case cleanup
    then show ?thesis by (simp add: pub_le_def same_evidence_def kept_def observed_def validation_def)
  next
    case stale
    then show ?thesis by (simp add: pub_le_def same_evidence_def kept_def observed_def validation_def)
  next
    case move
    have "pb_stale_since r1 = pb_stale_since old"
      using move(2,10) lease_guard_abandon [OF lg] r1 by (cases "pb_state r1 = PUB_ABANDONED") auto
    moreover have "\<not> pub_terminal (pb_state old) \<and> state_rank (pb_state old) < state_rank (pb_state r1)"
      by (rule transition_allowed_rank [OF move(5)])
    ultimately show ?thesis using move by (auto simp: pub_le_def kept_def observed_def validation_def)
  qed
  then show "pub_le old r" "pb_version r = pb_version old + 1" by blast+
qed

section \<open>The invariant\<close>

text \<open>The row is well formed, its evidence is in \<open>blobs\<close>, and it belongs to one attempt for ever.\<close>

definition row_ok :: "blob_record list \<Rightarrow> (string \<rightharpoonup> q_attempt) \<Rightarrow> string \<Rightarrow> pub_row \<Rightarrow> bool" where
  "row_ok B A i r \<longleftrightarrow>
     pb_id r = i \<and> strip i \<noteq> [] \<and> strip (pb_job r) \<noteq> [] \<and> strip (pb_attempt r) \<noteq> [] \<and>
     strip (pb_worker r) \<noteq> [] \<and> strip (pb_content_type r) \<noteq> [] \<and> row_check r = Inr () \<and>
     (pb_state r \<in> {PUB_VALIDATED, PUB_FINALIZED} \<longrightarrow> (\<exists>b \<in> set B. blob_matches r b)) \<and>
     (\<exists>a. A (pb_attempt r) = Some a \<and> qa_job a = pb_job r \<and> qa_worker a = pb_worker r \<and> qa_epoch a = pb_epoch r)"

definition rows_ok :: "blob_record list \<Rightarrow> (string \<rightharpoonup> q_attempt) \<Rightarrow> pub_row table \<Rightarrow> bool" where
  "rows_ok B A P \<longleftrightarrow> distinct (map fst P) \<and> (\<forall>i r. map_of P i = Some r \<longrightarrow> row_ok B A i r) \<and>
     (\<forall>i k x y. map_of P i = Some x \<and> map_of P k = Some y \<and> pb_attempt x = pb_attempt y \<and>
        pb_kind x = pb_kind y \<longrightarrow> i = k)"

definition blobs_ok :: "blob_record list \<Rightarrow> bool" where
  "blobs_ok B \<longleftrightarrow> distinct (map blob_id B) \<and> distinct (map blob_sha256 B) \<and> distinct (map blob_storage_key B) \<and>
     (\<forall>b \<in> set B. strip (blob_id b) \<noteq> [])"

text \<open>Artifacts and FINALIZED publications correspond to each other one to one.\<close>

definition proves :: "pub_artifact \<Rightarrow> pub_row \<Rightarrow> bool" where
  "proves a r \<longleftrightarrow> pb_state r = PUB_FINALIZED \<and> pb_job r = pa_job a \<and> pb_attempt r = pa_attempt a \<and>
     pb_kind r = pa_kind a \<and> pb_blob r = Some (pa_blob a)"

definition artifacts_ok :: "pub_row table \<Rightarrow> pub_artifact table \<Rightarrow> bool" where
  "artifacts_ok P T \<longleftrightarrow> distinct (map fst T) \<and> distinct (map (pa_publication \<circ> snd) T) \<and>
     (\<forall>(u, a) \<in> set T. strip u \<noteq> [] \<and> (\<exists>r. map_of P (pa_publication a) = Some r \<and> proves a r)) \<and>
     (\<forall>i r. map_of P i = Some r \<and> pb_state r = PUB_FINALIZED \<longrightarrow> i \<in> (pa_publication \<circ> snd) ` set T)"

definition success_attempts :: "string \<Rightarrow> q_event list \<Rightarrow> string option list" where
  "success_attempts j es = map qe_attempt (filter (\<lambda>e. qe_job e = j \<and> qe_type e = ''job_succeeded'') es)"

definition finalized_kinds :: "pub_row table \<Rightarrow> string \<Rightarrow> artifact_kind set" where
  "finalized_kinds P a =
     {pb_kind r | r. r \<in> snd ` set P \<and> pb_state r = PUB_FINALIZED \<and> pb_attempt r = a}"

text \<open>A succeeded job has one winning attempt, whose FINALIZED publications are exactly the required kinds.\<close>

definition winner_ok :: "(string \<rightharpoonup> q_attempt) \<Rightarrow> pub_row table \<Rightarrow> q_event list \<Rightarrow> string \<Rightarrow> q_job \<Rightarrow> bool" where
  "winner_ok A P es i j \<longleftrightarrow>
     (if qj_state j = SUCCEEDED
      then (\<exists>a att. qj_winning j = Some a \<and> A a = Some att \<and> qa_job att = i \<and> qa_state att = ATT_SUCCEEDED \<and>
              qa_epoch att = qj_epoch j \<and> finalized_kinds P a = set (qj_kinds j)) \<and> success_attempts i es = [qj_winning j]
      else qj_winning j = None \<and> success_attempts i es = [])"

text \<open>\<open>X\<close> are the attempts that are just being finalized.\<close>

definition winners_ok :: "string set \<Rightarrow> q_db \<Rightarrow> pub_row table \<Rightarrow> bool" where
  "winners_ok X q P \<longleftrightarrow>
     (\<forall>i r. map_of P i = Some r \<and> pb_state r = PUB_FINALIZED \<and> pb_attempt r \<notin> X \<longrightarrow>
        (\<exists>j. map_of (q_jobs q) (pb_job r) = Some j \<and> qj_state j = SUCCEEDED \<and> qj_winning j = Some (pb_attempt r))) \<and>
     (\<forall>i j. map_of (q_jobs q) i = Some j \<longrightarrow> winner_ok (map_of (q_attempts q)) P (q_events q) i j)"

definition names_ok :: "q_db \<Rightarrow> bool" where
  "names_ok q \<longleftrightarrow> (\<forall>i \<in> fst ` set (q_jobs q) \<union> fst ` set (q_attempts q) \<union> fst ` set (q_workers q). strip i \<noteq> []) \<and>
     (\<forall>j \<in> snd ` set (q_jobs q). qj_kinds j \<noteq> [] \<and> distinct (qj_kinds j)) \<and>
     (\<forall>e \<in> set (q_events q). qe_type e = ''job_succeeded'' \<longrightarrow> qe_job e \<in> fst ` set (q_jobs q))"

definition p_inv_except :: "string set \<Rightarrow> pub_db \<Rightarrow> bool" where
  "p_inv_except X s \<longleftrightarrow>
     q_inv (pd_queue s) \<and> names_ok (pd_queue s) \<and>
     rows_ok (pd_blobs s) (map_of (q_attempts (pd_queue s))) (pd_publications s) \<and> blobs_ok (pd_blobs s) \<and>
     artifacts_ok (pd_publications s) (pd_artifacts s) \<and> winners_ok X (pd_queue s) (pd_publications s)"

abbreviation p_inv :: "pub_db \<Rightarrow> bool" where
  "p_inv \<equiv> p_inv_except {}"

definition empty_pub_db :: pub_db where
  "empty_pub_db = \<lparr>pd_queue = empty_queue, pd_publications = [], pd_blobs = [], pd_artifacts = []\<rparr>"

lemma p_inv_empty: "p_inv empty_pub_db"
  by (simp add: p_inv_except_def empty_pub_db_def q_inv_empty)
     (simp add: names_ok_def rows_ok_def blobs_ok_def artifacts_ok_def winners_ok_def empty_queue_def)

lemma p_invD:
  assumes "p_inv_except X s"
  shows "q_inv (pd_queue s)" "names_ok (pd_queue s)"
    "rows_ok (pd_blobs s) (map_of (q_attempts (pd_queue s))) (pd_publications s)" "blobs_ok (pd_blobs s)"
    "artifacts_ok (pd_publications s) (pd_artifacts s)" "winners_ok X (pd_queue s) (pd_publications s)"
  using assms by (simp_all add: p_inv_except_def)

lemma p_row:
  "p_inv_except X s \<Longrightarrow> map_of (pd_publications s) i = Some r \<Longrightarrow>
     row_ok (pd_blobs s) (map_of (q_attempts (pd_queue s))) i r"
  by (simp add: p_inv_except_def rows_ok_def)

section \<open>Reading a row\<close>

lemma sql_sha256_ok: "sql_sha256 h \<Longrightarrow> sha256_text_ok h"
  by (simp add: sql_sha256_def hex_text_ok)

lemma opt_sha256_ok: "opt_sha256 v name = Inr () \<longleftrightarrow> (\<forall>h. v = Some h \<longrightarrow> sha256_text_ok h)"
  by (auto simp: opt_sha256_def sha256_text_ok_def checks_Cons_ok split: option.splits)

lemma opt_size_ok: "opt_size v name = Inr () \<longleftrightarrow> (\<forall>n. v = Some n \<longrightarrow> 0 \<le> n)"
  by (auto simp: opt_size_def split: option.splits)

lemma positive_size_ok: "positive_size n name = Inr () \<longleftrightarrow> 1 \<le> n"
  by (simp add: positive_size_def)

lemma record_of_simps [simp]:
  "pb_id (record_of r) = pb_id r" "pb_job (record_of r) = pb_job r" "pb_attempt (record_of r) = pb_attempt r"
  "pb_worker (record_of r) = pb_worker r" "pb_epoch (record_of r) = pb_epoch r" "pb_kind (record_of r) = pb_kind r"
  "pb_content_type (record_of r) = pb_content_type r" "pb_max_size (record_of r) = pb_max_size r"
  "pb_state (record_of r) = pb_state r" "pb_version (record_of r) = pb_version r"
  "pb_expected_sha256 (record_of r) = pb_expected_sha256 r" "pb_expected_size (record_of r) = pb_expected_size r"
  "pb_object_key (record_of r) = pb_object_key r" "pb_observed_sha256 (record_of r) = pb_observed_sha256 r"
  "pb_observed_size (record_of r) = pb_observed_size r" "pb_blob (record_of r) = pb_blob r"
  "pb_observed_content_type (record_of r) = pb_observed_content_type r"
  "pb_metadata (record_of r) = pb_metadata r" "pb_stale_since (record_of r) = pb_stale_since r"
  "pb_deleted_at (record_of r) = pb_deleted_at r" "pb_reason (record_of r) = pb_reason r"
  "attempt_object_key (record_of r) = attempt_object_key r"
  by (simp_all add: record_of_def publication.truncate_def attempt_object_key_def)

lemma from_row_Inr: "from_row r = Inr p \<Longrightarrow> p = record_of r"
  by (auto simp: from_row_def new_PublicationRecord_def after_eq_Inr)

lemma from_row_ok: "row_ok B A i r \<Longrightarrow> from_row r = Inr (record_of r)"
  by (auto simp: from_row_def new_PublicationRecord_def after_eq_Inr checks_Cons_ok require_text_ok
      positive_size_ok opt_sha256_ok opt_size_ok row_ok_def row_check_def intro: sql_sha256_ok)

lemma select_record_eq:
  assumes "p_inv_except X s"
  shows "select_record i s = (case map_of (pd_publications s) i of None \<Rightarrow> not_found i s | Some r \<Rightarrow> ok (record_of r) s)"
  by (auto simp: select_record_def from_row_ok [OF p_row [OF assms]] split: option.splits)

lemma records_of_ok:
  "(\<And>r. r \<in> set rs \<Longrightarrow> from_row r = Inr (record_of r)) \<Longrightarrow> records_of rs = Inr (map record_of rs)"
  by (induction rs) simp_all

section \<open>Preservation\<close>

text \<open>One row of the ledger moves on; it is FINALIZED afterwards only if it was before.\<close>

definition row_moved :: "string \<Rightarrow> pub_row \<Rightarrow> pub_row \<Rightarrow> pub_db \<Rightarrow> pub_db \<Rightarrow> bool" where
  "row_moved i old r s s' \<longleftrightarrow> map_of (pd_publications s) i = Some old \<and>
     (\<exists>t new. guarded_row t s old new r) \<and>
     s' = s\<lparr>pd_publications := set_row i (\<lambda>_. r) (pd_publications s)\<rparr>"

definition only_trigger :: "'a res \<Rightarrow> bool" where
  "only_trigger r \<longleftrightarrow> (\<forall>e. r = Inl e \<longrightarrow> exc_class_of e = RaiseException)"

lemma only_trigger_error: "only_trigger (trigger_error m)"
  and only_trigger_Inr: "only_trigger (Inr z)"
  and only_trigger_if: "only_trigger x \<Longrightarrow> only_trigger y \<Longrightarrow> only_trigger (if b then x else y)"
  and only_trigger_option: "only_trigger x \<Longrightarrow> (\<And>v. only_trigger (f v)) \<Longrightarrow>
    only_trigger (case w of None \<Rightarrow> x | Some v \<Rightarrow> f v)"
  by (auto simp: only_trigger_def trigger_error_def raise_def split: option.splits)

lemmas only_trigger_rules = only_trigger_error only_trigger_Inr only_trigger_if only_trigger_option

lemma only_triggerD: "only_trigger r \<Longrightarrow> r = Inl e \<Longrightarrow> exc_class_of e = RaiseException"
  by (simp add: only_trigger_def)

lemma lease_guard_only_trigger: "only_trigger (lease_guard t s old new)"
  unfolding lease_guard_def Let_def by (intro only_trigger_rules)

lemma transition_guard_only_trigger: "only_trigger (transition_guard t old new)"
  unfolding transition_guard_def by (intro only_trigger_rules)

lemma blob_guard_only_trigger: "only_trigger (blob_guard s r)"
  unfolding blob_guard_def by (intro only_trigger_rules)

lemma update_publication_wp:
  "wp (\<lambda>e s'. s' = s \<and> exc_class_of e \<in> {RaiseException, CheckViolation})
     (\<lambda>b s'. if b then \<exists>old r. cond old \<and> map_of (pd_publications s) i = Some old \<and>
                     guarded_row t s old (f old) r \<and>
                     s' = s\<lparr>pd_publications := set_row i (\<lambda>_. r) (pd_publications s)\<rparr>
              else s' = s \<and> \<not> (\<exists>old. map_of (pd_publications s) i = Some old \<and> cond old))
     (update_publication t i cond f s)"
proof -
  have c: "exc_class_of e = CheckViolation" if "row_check r = Inl e" for e r
    using that unfolding row_check_def require_def raise_def by (auto split: if_splits)
  show ?thesis
    unfolding update_publication_def
    by (simp add: wp_simps guarded_row_def)
       (auto dest: c only_triggerD [OF lease_guard_only_trigger] only_triggerD [OF transition_guard_only_trigger]
          only_triggerD [OF blob_guard_only_trigger])
qed

lemma guarded_identity:
  assumes "guarded_row t s old new r" shows "same_identity_row old r"
  using guarded_row_le(1) [OF assms] by (simp add: pub_le_def)

lemma blob_guard_ok:
  "blob_guard s r = Inr () \<longleftrightarrow>
     (pb_state r \<in> {PUB_VALIDATED, PUB_FINALIZED} \<longrightarrow> (\<exists>b \<in> set (pd_blobs s). blob_matches r b))"
  by (simp add: blob_guard_def list_ex_iff)

lemma guarded_row_ok:
  assumes "row_ok (pd_blobs s) A i old" and "guarded_row t s old new r"
  shows "row_ok (pd_blobs s) A i r"
proof -
  have "blob_guard s r = Inr ()" "row_check r = Inr ()" using assms(2) by (simp_all add: guarded_row_def)
  with assms(1) guarded_identity [OF assms(2)] show ?thesis
    unfolding row_ok_def same_identity_row_def blob_guard_ok by simp
qed

lemma rows_ok_move:
  assumes "rows_ok B A P" and "map_of P i = Some old" and "row_ok B A i r" and "same_identity_row old r"
  shows "rows_ok B A (set_row i (\<lambda>_. r) P)"
proof -
  have m: "map_of (set_row i (\<lambda>_. r) P) = (map_of P)(i \<mapsto> r)" using assms(2) by (simp add: map_of_set_row)
  have old: "\<exists>z. map_of P c = Some z \<and> pb_attempt z = pb_attempt w \<and> pb_kind z = pb_kind w"
    if "((map_of P)(i \<mapsto> r)) c = Some w" for c w
    using that assms(2,4) by (cases "c = i") (simp_all add: same_identity_row_def)
  have "\<forall>k x. ((map_of P)(i \<mapsto> r)) k = Some x \<longrightarrow> row_ok B A k x"
    using assms(1,3) by (simp add: rows_ok_def)
  moreover have "c = k" if "((map_of P)(i \<mapsto> r)) c = Some x" "((map_of P)(i \<mapsto> r)) k = Some y"
      "pb_attempt x = pb_attempt y" "pb_kind x = pb_kind y" for c k x y
  proof -
    note h = that
    obtain z where z: "map_of P c = Some z" "pb_attempt z = pb_attempt x" "pb_kind z = pb_kind x"
      using old [OF h(1)] by blast
    obtain w where w: "map_of P k = Some w" "pb_attempt w = pb_attempt y" "pb_kind w = pb_kind y"
      using old [OF h(2)] by blast
    have "pb_attempt z = pb_attempt w" "pb_kind z = pb_kind w" using z w h by simp_all
    with z(1) w(1) show ?thesis using assms(1) unfolding rows_ok_def by blast
  qed
  ultimately show ?thesis using assms(1) unfolding rows_ok_def m fst_set_row by blast
qed

lemma finalized_kinds_map:
  "distinct (map fst P) \<Longrightarrow>
   finalized_kinds P a = {pb_kind r | i r. map_of P i = Some r \<and> pb_state r = PUB_FINALIZED \<and> pb_attempt r = a}"
  unfolding finalized_kinds_def by (force intro: map_of_is_SomeI dest: map_of_SomeD)

lemma finalized_kinds_set_row:
  assumes "distinct (map fst P)" "map_of P i = Some old" "same_identity_row old r"
    and "pb_state r = PUB_FINALIZED \<longleftrightarrow> pb_state old = PUB_FINALIZED"
  shows "finalized_kinds (set_row i (\<lambda>_. r) P) a = finalized_kinds P a"
proof -
  have m: "map_of (set_row i (\<lambda>_. r) P) = (map_of P)(i \<mapsto> r)" using assms(2) by (simp add: map_of_set_row)
  have eq: "pb_kind r = pb_kind old" "pb_attempt r = pb_attempt old" using assms(3) by (simp_all add: same_identity_row_def)
  have d: "distinct (map fst (set_row i (\<lambda>_. r) P))" using assms(1) by simp
  show ?thesis
    unfolding finalized_kinds_map [OF assms(1)] finalized_kinds_map [OF d] m
  proof (intro set_eqI iffI; elim CollectE exE conjE)
    fix k c x assume *: "k = pb_kind x" "((map_of P)(i \<mapsto> r)) c = Some x" "pb_state x = PUB_FINALIZED" "pb_attempt x = a"
    show "k \<in> {pb_kind r |i r. map_of P i = Some r \<and> pb_state r = PUB_FINALIZED \<and> pb_attempt r = a}"
    proof (cases "c = i")
      case True
      then have "x = r" using * by simp
      then show ?thesis using * assms(2,4) eq by (intro CollectI exI [of _ i] exI [of _ old]) simp
    next
      case False
      then show ?thesis using * by (intro CollectI exI [of _ c] exI [of _ x]) simp
    qed
  next
    fix k c x assume *: "k = pb_kind x" "map_of P c = Some x" "pb_state x = PUB_FINALIZED" "pb_attempt x = a"
    show "k \<in> {pb_kind ra |ia ra. ((map_of P)(i \<mapsto> r)) ia = Some ra \<and> pb_state ra = PUB_FINALIZED \<and> pb_attempt ra = a}"
    proof (cases "c = i")
      case True
      then have "x = old" using * assms(2) by simp
      then show ?thesis using * assms(4) eq by (intro CollectI exI [of _ i] exI [of _ r]) simp
    next
      case False
      then show ?thesis using * by (intro CollectI exI [of _ c] exI [of _ x]) simp
    qed
  qed
qed

lemma row_moved_inv:
  assumes inv: "p_inv_except X s" and m: "row_moved i old r s s'"
    and fin: "pb_state r = PUB_FINALIZED \<longleftrightarrow> pb_state old = PUB_FINALIZED"
  shows "p_inv_except X s'"
proof -
  let ?P = "pd_publications s" and ?q = "pd_queue s"
  obtain t new where old: "map_of ?P i = Some old" and g: "guarded_row t s old new r"
    and s': "s' = s\<lparr>pd_publications := set_row i (\<lambda>_. r) ?P\<rparr>"
    using m by (auto simp: row_moved_def)
  note I = p_invD [OF inv]
  have d: "distinct (map fst ?P)" using I(3) by (simp add: rows_ok_def)
  have id: "same_identity_row old r" by (rule guarded_identity [OF g])
  have P: "map_of (set_row i (\<lambda>_. r) ?P) = (map_of ?P)(i \<mapsto> r)" using old by (simp add: map_of_set_row)
  have k: "kept pb_blob old r" using guarded_row_le(1) [OF g] by (simp add: pub_le_def)
  have "rows_ok (pd_blobs s) (map_of (q_attempts ?q)) (set_row i (\<lambda>_. r) ?P)"
    using I(3) old by (rule rows_ok_move) (use guarded_row_ok [OF p_row [OF inv old] g] id in simp_all)
  moreover have "artifacts_ok (set_row i (\<lambda>_. r) ?P) (pd_artifacts s)"
  proof -
    have "proves a r" if "proves a old" for a
      using that id fin k by (auto simp: proves_def same_identity_row_def kept_def)
    then show ?thesis using I(5) old fin unfolding artifacts_ok_def P by (fastforce split: if_splits)
  qed
  moreover have "winners_ok X ?q (set_row i (\<lambda>_. r) ?P)"
  proof -
    have "winner_ok A (set_row i (\<lambda>_. r) ?P) es k j = winner_ok A ?P es k j" for A es k j
      by (simp add: winner_ok_def finalized_kinds_set_row [OF d old id fin])
    then show ?thesis
      using I(6) old fin id unfolding winners_ok_def P by (auto simp: same_identity_row_def split: if_splits)
  qed
  ultimately show ?thesis using I by (simp add: p_inv_except_def s')
qed

text \<open>A new row, RESERVED.\<close>

definition row_added :: "string \<Rightarrow> pub_row \<Rightarrow> pub_db \<Rightarrow> pub_db \<Rightarrow> bool" where
  "row_added i r s s' \<longleftrightarrow> i \<notin> fst ` set (pd_publications s) \<and> pb_state r = PUB_RESERVED \<and>
     row_ok (pd_blobs s) (map_of (q_attempts (pd_queue s))) i r \<and>
     (\<forall>(k, x) \<in> set (pd_publications s). \<not> (pb_attempt x = pb_attempt r \<and> pb_kind x = pb_kind r)) \<and>
     s' = s\<lparr>pd_publications := add_row i r (pd_publications s)\<rparr>"

lemma finalized_kinds_add_row:
  "pb_state r \<noteq> PUB_FINALIZED \<Longrightarrow> finalized_kinds (add_row i r P) a = finalized_kinds P a"
  by (auto simp: finalized_kinds_def add_row_def)

lemma row_added_inv:
  assumes inv: "p_inv_except X s" and m: "row_added i r s s'"
  shows "p_inv_except X s'"
proof -
  let ?P = "pd_publications s" and ?q = "pd_queue s"
  have i: "i \<notin> fst ` set ?P" and st: "pb_state r = PUB_RESERVED"
    and ok: "row_ok (pd_blobs s) (map_of (q_attempts ?q)) i r"
    and new: "\<forall>(k, x) \<in> set ?P. \<not> (pb_attempt x = pb_attempt r \<and> pb_kind x = pb_kind r)"
    and s': "s' = s\<lparr>pd_publications := add_row i r ?P\<rparr>"
    using m by (auto simp: row_added_def)
  note I = p_invD [OF inv]
  have P: "map_of (add_row i r ?P) = (map_of ?P)(i \<mapsto> r)" by (rule map_of_add_row [OF i])
  have none: "map_of ?P i = None" using i by (simp add: dom_table)
  have new: "\<not> (pb_attempt x = pb_attempt r \<and> pb_kind x = pb_kind r)" if "map_of ?P k = Some x" for k x
    using new map_of_SomeD [OF that] by auto
  have "rows_ok (pd_blobs s) (map_of (q_attempts ?q)) (add_row i r ?P)"
    unfolding rows_ok_def P
  proof (intro conjI allI impI)
    show "distinct (map fst (add_row i r ?P))" using I(3) i by (simp add: rows_ok_def distinct_add_row)
    show "row_ok (pd_blobs s) (map_of (q_attempts ?q)) k x" if "((map_of ?P)(i \<mapsto> r)) k = Some x" for k x
      using that ok I(3) by (simp add: rows_ok_def split: if_splits)
    fix k c x y
    assume h: "((map_of ?P)(i \<mapsto> r)) k = Some x \<and> ((map_of ?P)(i \<mapsto> r)) c = Some y \<and>
      pb_attempt x = pb_attempt y \<and> pb_kind x = pb_kind y"
    show "k = c"
    proof (cases "k = i \<or> c = i")
      case True
      then show ?thesis using h new [of k x] new [of c y] by (auto split: if_splits)
    next
      case False
      then show ?thesis using h I(3) unfolding rows_ok_def by (metis fun_upd_other)
    qed
  qed
  moreover have "artifacts_ok (add_row i r ?P) (pd_artifacts s)"
    unfolding artifacts_ok_def P
  proof (intro conjI)
    show "\<forall>(u, a) \<in> set (pd_artifacts s). strip u \<noteq> [] \<and>
        (\<exists>ra. ((map_of ?P)(i \<mapsto> r)) (pa_publication a) = Some ra \<and> proves a ra)"
      using I(5) none unfolding artifacts_ok_def by fastforce
    show "\<forall>ia ra. ((map_of ?P)(i \<mapsto> r)) ia = Some ra \<and> pb_state ra = PUB_FINALIZED \<longrightarrow>
        ia \<in> (pa_publication \<circ> snd) ` set (pd_artifacts s)"
      using I(5) st unfolding artifacts_ok_def by simp
  qed (use I(5) in \<open>simp_all add: artifacts_ok_def\<close>)
  moreover have "winners_ok X ?q (add_row i r ?P)"
  proof -
    have "winner_ok A (add_row i r ?P) es k j = winner_ok A ?P es k j" for A es k j
      using st by (simp add: winner_ok_def finalized_kinds_add_row)
    then show ?thesis using I(6) st unfolding winners_ok_def P by simp blast
  qed
  ultimately show ?thesis using I by (simp add: p_inv_except_def s')
qed

text \<open>A new blob, which the queue sees as well.\<close>

definition blob_added :: "blob_record \<Rightarrow> pub_db \<Rightarrow> pub_db \<Rightarrow> bool" where
  "blob_added b s s' \<longleftrightarrow> blobs_ok (pd_blobs s @ [b]) \<and>
     s' = s\<lparr>pd_blobs := pd_blobs s @ [b],
            pd_queue := (pd_queue s)\<lparr>q_blobs := (q_blobs (pd_queue s))(blob_id b \<mapsto> b)\<rparr>\<rparr>"

lemma blobs_frame [simp]:
  "q_inv (q\<lparr>q_blobs := B\<rparr>) = q_inv q" "names_ok (q\<lparr>q_blobs := B\<rparr>) = names_ok q"
  "winners_ok X (q\<lparr>q_blobs := B\<rparr>) P = winners_ok X q P"
  by (simp_all add: q_inv_def keys_ok_def names_ok_def winners_ok_def)

lemma row_ok_more_blobs: "row_ok B A i r \<Longrightarrow> set B \<subseteq> set B' \<Longrightarrow> row_ok B' A i r"
  unfolding row_ok_def by blast

lemma rows_ok_more_blobs: "rows_ok B A P \<Longrightarrow> set B \<subseteq> set B' \<Longrightarrow> rows_ok B' A P"
  unfolding rows_ok_def by (meson row_ok_more_blobs)

lemma blob_added_inv:
  assumes "p_inv_except X s" and "blob_added b s s'"
  shows "p_inv_except X s'"
proof -
  have "rows_ok (pd_blobs s @ [b]) (map_of (q_attempts (pd_queue s))) (pd_publications s)"
    by (rule rows_ok_more_blobs [OF p_invD(3) [OF assms(1)]]) auto
  with assms show ?thesis by (simp add: p_inv_except_def blob_added_def)
qed

end
