(* ===== verification/PublicationLife.thy ===== *)
theory PublicationLife
  imports PublicationInv
begin

text \<open>
  The operations of the publication repository and of the lease queue on the shared tables: each
  keeps the invariant and moves the tables forward.
\<close>

section \<open>The lease queue leaves publications alone\<close>

definition success_log :: "q_event list \<Rightarrow> q_event list" where
  "success_log es = filter (\<lambda>e. qe_type e = ''job_succeeded'') es"

lemma success_attempts_log: "success_attempts j es = map qe_attempt (filter (\<lambda>e. qe_job e = j) (success_log es))"
  by (simp add: success_attempts_def success_log_def conj_commute)

definition quiet_job :: "q_job option \<Rightarrow> q_job \<Rightarrow> bool" where
  "quiet_job x j' \<longleftrightarrow> (case x of None \<Rightarrow> qj_state j' \<noteq> SUCCEEDED \<and> qj_winning j' = None
     | Some j \<Rightarrow> if qj_state j = SUCCEEDED then j' = j
                 else qj_state j' \<noteq> SUCCEEDED \<and> qj_winning j' = qj_winning j)"

definition q_quiet :: "q_db \<Rightarrow> q_db \<Rightarrow> bool" where
  "q_quiet s t \<longleftrightarrow> fst ` set (q_jobs s) \<subseteq> fst ` set (q_jobs t) \<and>
     (\<forall>i j'. map_of (q_jobs t) i = Some j' \<longrightarrow> quiet_job (map_of (q_jobs s) i) j') \<and>
     success_log (q_events t) = success_log (q_events s)"

lemma quiet_job_same [simp]: "quiet_job (Some j) j"
  by (simp add: quiet_job_def)

lemma q_quiet_refl [simp]: "q_quiet s s"
  by (simp add: q_quiet_def)

lemma q_quietD: "q_quiet s t \<Longrightarrow> map_of (q_jobs t) i = Some j \<Longrightarrow> quiet_job (map_of (q_jobs s) i) j"
  by (simp add: q_quiet_def)

lemma quiet_job_trans: "quiet_job x k \<Longrightarrow> quiet_job (Some k) j \<Longrightarrow> quiet_job x j"
  unfolding quiet_job_def by (simp split: option.splits if_splits)

lemma q_quiet_trans:
  assumes "q_quiet s t" "q_quiet t u" shows "q_quiet s u"
proof -
  have "quiet_job (map_of (q_jobs s) i) j" if j: "map_of (q_jobs u) i = Some j" for i j
  proof (cases "map_of (q_jobs t) i")
    case None
    have "fst ` set (q_jobs s) \<subseteq> fst ` set (q_jobs t)" using assms(1) by (simp add: q_quiet_def)
    then have "map_of (q_jobs s) i = None"
      using None unfolding dom_table by (rule contra_subsetD)
    with q_quietD [OF assms(2) j] None show ?thesis by simp
  next
    case (Some k)
    show ?thesis
      by (rule quiet_job_trans [OF q_quietD [OF assms(1) Some]]) (use q_quietD [OF assms(2) j] Some in simp)
  qed
  moreover have "fst ` set (q_jobs s) \<subseteq> fst ` set (q_jobs t)" "fst ` set (q_jobs t) \<subseteq> fst ` set (q_jobs u)"
      "success_log (q_events u) = success_log (q_events s)"
    using assms by (simp_all add: q_quiet_def)
  ultimately show ?thesis unfolding q_quiet_def by (blast intro: subset_trans)
qed

lemma q_quiet_upd:
  assumes "map_of (q_jobs t) = (map_of (q_jobs s))(i \<mapsto> j')" and "quiet_job (map_of (q_jobs s) i) j'"
    and "success_log (q_events t) = success_log (q_events s)"
  shows "q_quiet s t"
proof -
  have "dom (map_of (q_jobs s)) \<subseteq> dom (map_of (q_jobs t))" unfolding assms(1) by auto
  then have "fst ` set (q_jobs s) \<subseteq> fst ` set (q_jobs t)" by (simp add: dom_map_of_conv_image_fst)
  moreover have "quiet_job (map_of (q_jobs s) k) j" if "map_of (q_jobs t) k = Some j" for k j
    using that assms(2) unfolding assms(1) by (cases "k = i") simp_all
  ultimately show ?thesis using assms(3) by (simp add: q_quiet_def)
qed

lemma success_log_event [simp]:
  "success_log (q_events (q_event_add j a ty s)) =
     (if ty = ''job_succeeded'' then success_log (q_events s) @ [\<lparr>qe_job = j, qe_attempt = a, qe_type = ty\<rparr>]
      else success_log (q_events s))"
  by (simp add: success_log_def q_event_add_def)

lemma lease_ended_quiet: "lease_ended l s s' \<Longrightarrow> q_quiet s s'"
proof -
  assume "lease_ended l s s'"
  then obtain a j st reason d t where row: "lease_row s l = Some (a, j)" and ok: "end_ok j st"
    and s': "s' = end_lease st reason d t l s" unfolding lease_ended_def by blast
  have "end_event st \<noteq> ''job_succeeded''" by (cases st) simp_all
  then have ev: "success_log (q_events s') = success_log (q_events s)"
    unfolding s' end_lease_def by simp
  have j: "map_of (q_jobs s) (l_job l) = Some j" "qj_state j = RUNNING" using row by (simp_all add: lease_row_eq)
  show ?thesis
    by (rule q_quiet_upd [OF end_lease_job [OF row, of st reason d t, folded s'] _ ev])
       (use j job_state_after_ended [OF ok] in \<open>auto simp: quiet_job_def ended_job_def\<close>)
qed

lemma q_step_quiet:
  assumes "q_inv s" and "q_guard x s"
  shows "q_quiet s (q_step x s)"
proof (cases x)
  case (QJob j r)
  then have "map_of (q_jobs s) j = None" "map_of (q_jobs (q_step x s)) = (map_of (q_jobs s))(j \<mapsto> r)"
    using assms(2) by (simp_all add: dom_table map_of_add_row)
  with assms(2) QJob show ?thesis by (intro q_quiet_upd) (auto simp: quiet_job_def)
next
  case (QClaim K t t' u w secs)
  have "q_quiet s s'" if c: "claimed K t t' u w secs s l s'" for l s'
  proof -
    obtain job where mem: "(l_job l, job) \<in> set (q_jobs s)" and qd: "qj_state job = QUEUED"
      using c unfolding claimed_def claimable_def by auto
    have j: "map_of (q_jobs s) (l_job l) = Some job" using mem assms(1) by (simp add: q_inv_def keys_ok_def)
    then have J: "map_of (q_jobs s') = (map_of (q_jobs s))(l_job l \<mapsto>
        job\<lparr>qj_state := RUNNING, qj_current := Some u, qj_epoch := l_epoch l, qj_retry := None\<rparr>)"
      and ev: "success_log (q_events s') = success_log (q_events s)"
      using c by (auto simp: claimed_def map_of_set_row)
    show ?thesis by (rule q_quiet_upd [OF J _ ev]) (use j qd in \<open>simp add: quiet_job_def\<close>)
  qed
  then show ?thesis
    unfolding QClaim q_step.simps wp_state [symmetric, where P = "q_quiet s"]
    by (intro wp_mono [OF claim_next_wp]) (auto split: option.splits)
next
  case (QHeartbeat t t' l secs)
  have "q_quiet s (beaten t' l secs s)" by (simp add: q_quiet_def beaten_def)
  then show ?thesis
    unfolding QHeartbeat q_step.simps wp_state [symmetric, where P = "q_quiet s"]
    by (intro wp_mono [OF heartbeat_wp]) auto
next
  case (QCancel t j)
  have "q_quiet s (cancel_marked t j job s)"
    if "map_of (q_jobs s) j = Some job" "qj_state job \<in> {QUEUED, RUNNING}" for job
    unfolding cancel_marked_def
    by (rule q_quiet_upd [where i = j and j' = "job\<lparr>qj_state := if qj_state job = QUEUED then CANCELLED else qj_state job, qj_cancel := Some t\<rparr>"])
       (use that in \<open>auto simp: quiet_job_def map_of_set_row\<close>)
  then show ?thesis by (auto simp: QCancel q_request_cancel_eq split: option.splits)
next
  case (QCancelCurrent K t t' l)
  show ?thesis
    unfolding QCancelCurrent q_step.simps wp_state [symmetric, where P = "q_quiet s"]
    by (intro wp_mono [OF cancel_current_wp]) (auto intro: lease_ended_quiet)
next
  case (QFail K t t' l d m)
  show ?thesis
    unfolding QFail q_step.simps wp_state [symmetric, where P = "q_quiet s"]
    by (intro wp_mono [OF fail_retryable_wp]) (auto intro: lease_ended_quiet)
next
  case (QReap K t t' limit d m)
  show ?thesis
    using reap_expired_steps [of q_quiet "\<lambda>_. True" s K t t' limit d m]
    by (simp add: QReap lease_ended_quiet) (meson q_quiet_trans)
qed (simp add: q_quiet_def)

text \<open>Names and required kinds.\<close>

definition same_names :: "q_db \<Rightarrow> q_db \<Rightarrow> bool" where
  "same_names s t \<longleftrightarrow> map fst (q_jobs t) = map fst (q_jobs s) \<and> map fst (q_attempts t) = map fst (q_attempts s) \<and>
     map fst (q_workers t) = map fst (q_workers s) \<and>
     map (qj_kinds \<circ> snd) (q_jobs t) = map (qj_kinds \<circ> snd) (q_jobs s)"

lemma same_names_refl [simp]: "same_names s s"
  and same_names_trans: "same_names s t \<Longrightarrow> same_names t u \<Longrightarrow> same_names s u"
  by (simp_all add: same_names_def)

lemma map_snd_set_row: "(\<And>r. f (g r) = f r) \<Longrightarrow> map (f \<circ> snd) (set_row k g t) = map (f \<circ> snd) t"
  by (simp add: set_row_def case_prod_beta)

lemma same_names_event [simp]: "same_names s (q_event_add j a ty t) = same_names s t"
  by (simp add: same_names_def)

lemma lease_ended_names: "lease_ended l s s' \<Longrightarrow> same_names s s'"
proof -
  assume "lease_ended l s s'"
  then obtain st reason d t where s': "s' = end_lease st reason d t l s" unfolding lease_ended_def by blast
  show ?thesis unfolding s' end_lease_def by (simp add: same_names_def map_snd_set_row)
qed

definition names_hold :: "q_db \<Rightarrow> bool" where
  "names_hold q \<longleftrightarrow> (\<forall>i \<in> set (map fst (q_jobs q)) \<union> set (map fst (q_attempts q)) \<union> set (map fst (q_workers q)). strip i \<noteq> []) \<and>
     (\<forall>ks \<in> set (map (qj_kinds \<circ> snd) (q_jobs q)). ks \<noteq> [] \<and> distinct ks)"

lemma names_ok_eq:
  "names_ok q \<longleftrightarrow> names_hold q \<and> (\<forall>e \<in> set (success_log (q_events q)). qe_job e \<in> fst ` set (q_jobs q))"
  by (auto simp: names_ok_def names_hold_def success_log_def)

lemma same_names_hold: "same_names s t \<Longrightarrow> names_hold t = names_hold s"
  unfolding same_names_def names_hold_def by simp

text \<open>What the environment promises of a queue operation: names are not blank, the required kinds valid.\<close>

fun named_op :: "q_op \<Rightarrow> bool" where
  "named_op (QWorker w r) = (strip w \<noteq> [])"
| "named_op (QJob j r) = (strip j \<noteq> [] \<and> qj_kinds r \<noteq> [] \<and> distinct (qj_kinds r))"
| "named_op (QClaim K t t' u w secs) = (strip u \<noteq> [])"
| "named_op _ = True"

lemma claimed_names:
  assumes "claimed K t t' u w secs s l s'" shows "names_hold s \<Longrightarrow> strip u \<noteq> [] \<Longrightarrow> names_hold s'"
proof -
  have "map fst (q_jobs s') = map fst (q_jobs s)" "map fst (q_workers s') = map fst (q_workers s)"
    "map fst (q_attempts s') = map fst (q_attempts s) @ [u]"
    "map (qj_kinds \<circ> snd) (q_jobs s') = map (qj_kinds \<circ> snd) (q_jobs s)"
    using assms unfolding claimed_def by (auto simp: map_snd_set_row add_row_def)
  then show "names_hold s \<Longrightarrow> strip u \<noteq> [] \<Longrightarrow> names_hold s'" by (auto simp: names_hold_def)
qed

lemma q_step_names:
  assumes "names_hold s" and "named_op x"
  shows "names_hold (q_step x s)"
proof (cases x)
  case (QClaim K t t' u w secs)
  with assms show ?thesis
    unfolding QClaim q_step.simps wp_state [symmetric, where P = names_hold]
    by (intro wp_mono [OF claim_next_wp]) (auto split: option.splits intro: claimed_names)
next
  case (QHeartbeat t t' l secs)
  have "same_names s (beaten t' l secs s)" by (simp add: same_names_def beaten_def)
  with assms show ?thesis
    unfolding QHeartbeat q_step.simps wp_state [symmetric, where P = names_hold]
    by (intro wp_mono [OF heartbeat_wp]) (auto simp: same_names_hold)
next
  case (QCancel t j)
  have "same_names s (cancel_marked t j job s)" for job
    unfolding cancel_marked_def same_names_event by (simp add: same_names_def map_snd_set_row)
  then have "names_hold (cancel_marked t j job s)" for job using same_names_hold assms(1) by blast
  with assms show ?thesis
    by (auto simp: QCancel q_request_cancel_eq split: option.splits)
next
  case (QCancelCurrent K t t' l)
  from assms show ?thesis
    unfolding QCancelCurrent q_step.simps wp_state [symmetric, where P = names_hold]
    by (intro wp_mono [OF cancel_current_wp]) (auto dest: lease_ended_names simp: same_names_hold)
next
  case (QFail K t t' l d m)
  from assms show ?thesis
    unfolding QFail q_step.simps wp_state [symmetric, where P = names_hold]
    by (intro wp_mono [OF fail_retryable_wp]) (auto dest: lease_ended_names simp: same_names_hold)
next
  case (QReap K t t' limit d m)
  have "same_names s (q_step x s)"
    using reap_expired_steps [of same_names "\<lambda>_. True" s K t t' limit d m]
    by (simp add: QReap lease_ended_names) (meson same_names_trans)
  with assms show ?thesis by (simp add: same_names_hold)
qed (use assms in \<open>auto simp: names_hold_def add_row_def\<close>)

section \<open>The forward order of the tables\<close>

definition extends :: "'a list \<Rightarrow> 'a list \<Rightarrow> bool" where
  "extends xs ys \<longleftrightarrow> (\<exists>zs. ys = xs @ zs)"

lemma extends_refl [simp]: "extends xs xs"
  and extends_append [simp]: "extends xs (xs @ zs)"
  and extends_trans: "extends xs ys \<Longrightarrow> extends ys zs \<Longrightarrow> extends xs zs"
  by (auto simp: extends_def)

definition p_le :: "pub_db \<Rightarrow> pub_db \<Rightarrow> bool" where
  "p_le s t \<longleftrightarrow> q_le (pd_queue s) (pd_queue t) \<and>
     grows pub_le (map_of (pd_publications s)) (map_of (pd_publications t)) \<and>
     extends (pd_blobs s) (pd_blobs t) \<and> extends (pd_artifacts s) (pd_artifacts t)"

lemma p_le_refl [simp]: "p_le s s"
  by (simp add: p_le_def)

lemma p_le_trans: "p_le s t \<Longrightarrow> p_le t u \<Longrightarrow> p_le s u"
  unfolding p_le_def by (blast intro: q_le_trans grows_trans pub_le_trans extends_trans)

lemma row_moved_le: "row_moved i old r s s' \<Longrightarrow> p_le s s'"
  unfolding row_moved_def p_le_def
  by (auto simp: map_of_set_row intro!: grows_upd dest: guarded_row_le(1))

lemma row_added_le: "row_added i r s s' \<Longrightarrow> p_le s s'"
  unfolding row_added_def p_le_def by (auto simp: map_of_add_row dom_table intro!: grows_new)

lemma blob_added_le: "blob_added b s s' \<Longrightarrow> p_le s s'"
  unfolding blob_added_def p_le_def by (auto simp: q_le_def)

section \<open>A queue operation on the shared tables\<close>

lemma winners_finalizedD:
  "winners_ok X q P \<Longrightarrow> map_of P i = Some r \<Longrightarrow> pb_state r = PUB_FINALIZED \<Longrightarrow> pb_attempt r \<notin> X \<Longrightarrow>
     \<exists>j. map_of (q_jobs q) (pb_job r) = Some j \<and> qj_state j = SUCCEEDED \<and> qj_winning j = Some (pb_attempt r)"
  by (simp add: winners_ok_def)

lemma winners_jobD:
  "winners_ok X q P \<Longrightarrow> map_of (q_jobs q) i = Some j \<Longrightarrow> winner_ok (map_of (q_attempts q)) P (q_events q) i j"
  by (simp add: winners_ok_def)

lemma q_le_job: "q_le q t \<Longrightarrow> map_of (q_jobs q) i = Some j \<Longrightarrow> \<exists>j'. map_of (q_jobs t) i = Some j' \<and> qjob_le j j'"
  and q_le_attempt: "q_le q t \<Longrightarrow> map_of (q_attempts q) a = Some x \<Longrightarrow>
    \<exists>x'. map_of (q_attempts t) a = Some x' \<and> qatt_le x x'"
  unfolding q_le_def by (auto dest: growsD)

lemma row_ok_attempts:
  assumes "row_ok B A i r"
    and "\<And>k a. A k = Some a \<Longrightarrow> \<exists>a'. A' k = Some a' \<and> qa_job a' = qa_job a \<and> qa_worker a' = qa_worker a \<and> qa_epoch a' = qa_epoch a"
  shows "row_ok B A' i r"
proof -
  obtain a where a: "A (pb_attempt r) = Some a" "qa_job a = pb_job r" "qa_worker a = pb_worker r" "qa_epoch a = pb_epoch r"
    using assms(1) by (auto simp: row_ok_def)
  obtain a' where "A' (pb_attempt r) = Some a'" "qa_job a' = pb_job r" "qa_worker a' = pb_worker r" "qa_epoch a' = pb_epoch r"
    using assms(2) [OF a(1)] a by auto
  with assms(1) show ?thesis by (simp add: row_ok_def)
qed

lemma rows_ok_attempts:
  assumes "rows_ok B A P"
    and "\<And>k a. A k = Some a \<Longrightarrow> \<exists>a'. A' k = Some a' \<and> qa_job a' = qa_job a \<and> qa_worker a' = qa_worker a \<and> qa_epoch a' = qa_epoch a"
  shows "rows_ok B A' P"
proof -
  have "row_ok B A i r \<Longrightarrow> row_ok B A' i r" for i r by (erule row_ok_attempts) (rule assms(2))
  with assms(1) show ?thesis unfolding rows_ok_def by blast
qed

lemma queue_step_inv:
  assumes inv: "p_inv_except X s" and g: "q_guard x (pd_queue s)" and n: "named_op x"
  shows "p_inv_except X (s\<lparr>pd_queue := q_step x (pd_queue s)\<rparr>)" (is "p_inv_except X (s\<lparr>pd_queue := ?t\<rparr>)")
proof -
  let ?q = "pd_queue s" and ?P = "pd_publications s"
  note I = p_invD [OF inv]
  have le: "q_le ?q ?t" by (rule q_step_le [OF I(1) g])
  have quiet: "q_quiet ?q ?t" by (rule q_step_quiet [OF I(1) g])
  then have jobs: "fst ` set (q_jobs ?q) \<subseteq> fst ` set (q_jobs ?t)" and log: "success_log (q_events ?t) = success_log (q_events ?q)"
    by (simp_all add: q_quiet_def)
  have ev: "success_attempts i (q_events ?t) = success_attempts i (q_events ?q)" for i
    by (simp add: success_attempts_log log)
  have "names_ok ?t"
  proof -
    have "names_hold ?q" "\<forall>e \<in> set (success_log (q_events ?q)). qe_job e \<in> fst ` set (q_jobs ?q)"
      using I(2) unfolding names_ok_eq by simp_all
    then show ?thesis
      using q_step_names [OF _ n] unfolding names_ok_eq log by (simp add: subsetD [OF jobs])
  qed
  moreover have "rows_ok (pd_blobs s) (map_of (q_attempts ?t)) ?P"
  proof (rule rows_ok_attempts [OF I(3)])
    fix k a assume "map_of (q_attempts ?q) k = Some a"
    from q_le_attempt [OF le this] obtain a' where "map_of (q_attempts ?t) k = Some a'" "qatt_le a a'" by blast
    then show "\<exists>a'. map_of (q_attempts ?t) k = Some a' \<and> qa_job a' = qa_job a \<and> qa_worker a' = qa_worker a \<and>
        qa_epoch a' = qa_epoch a" by (simp add: qatt_le_def)
  qed
  moreover have "winners_ok X ?t ?P"
    unfolding winners_ok_def
  proof (intro conjI allI impI)
    fix i r assume "map_of ?P i = Some r \<and> pb_state r = PUB_FINALIZED \<and> pb_attempt r \<notin> X"
    then obtain j where j: "map_of (q_jobs ?q) (pb_job r) = Some j" "qj_state j = SUCCEEDED" "qj_winning j = Some (pb_attempt r)"
      using winners_finalizedD [OF I(6)] by metis
    obtain j' where "map_of (q_jobs ?t) (pb_job r) = Some j'" "qjob_le j j'" using q_le_job [OF le j(1)] by metis
    with j show "\<exists>j. map_of (q_jobs ?t) (pb_job r) = Some j \<and> qj_state j = SUCCEEDED \<and> qj_winning j = Some (pb_attempt r)"
      by (simp add: qjob_le_def)
  next
    fix i j' assume j': "map_of (q_jobs ?t) i = Some j'"
    from q_quietD [OF quiet j'] have q: "quiet_job (map_of (q_jobs ?q) i) j'" .
    show "winner_ok (map_of (q_attempts ?t)) ?P (q_events ?t) i j'"
    proof (cases "map_of (q_jobs ?q) i")
      case None
      have "success_attempts i (q_events ?q) = []"
        using I(2) None unfolding names_ok_eq dom_table success_attempts_log by (auto simp: filter_empty_conv)
      then show ?thesis using q None by (simp add: winner_ok_def quiet_job_def ev)
    next
      case (Some j)
      then have w: "winner_ok (map_of (q_attempts ?q)) ?P (q_events ?q) i j" by (rule winners_jobD [OF I(6)])
      show ?thesis
      proof (cases "qj_state j = SUCCEEDED")
        case True
        then have j'j: "j' = j" using q Some by (simp add: quiet_job_def)
        from w True obtain a att where a: "qj_winning j = Some a" "map_of (q_attempts ?q) a = Some att" "qa_job att = i"
            "qa_state att = ATT_SUCCEEDED" "qa_epoch att = qj_epoch j" "finalized_kinds ?P a = set (qj_kinds j)"
            "success_attempts i (q_events ?q) = [qj_winning j]" by (auto simp: winner_ok_def)
        have "map_of (q_attempts ?t) a = Some att" using q_le_attempt [OF le a(2)] a(4) by (auto simp: qatt_le_def)
        with a True show ?thesis by (simp add: winner_ok_def j'j ev)
      next
        case False
        then show ?thesis using w q Some by (simp add: winner_ok_def quiet_job_def ev)
      qed
    qed
  qed
  ultimately show ?thesis using I q_step_inv [OF I(1) g] by (simp add: p_inv_except_def)
qed

lemma queue_step_le:
  "p_inv_except X s \<Longrightarrow> q_guard x (pd_queue s) \<Longrightarrow> p_le s (s\<lparr>pd_queue := q_step x (pd_queue s)\<rparr>)"
  by (simp add: p_le_def p_inv_except_def q_step_le)

end
