(* ===== verification/PublicationOps.thy ===== *)
theory PublicationOps
  imports PublicationLife
begin

text \<open>
  What each operation of the publication repository does, on every branch: the fence, the compare
  and swap on state and version, the single change to the tables, and nothing at all when it raises
  (but for the start of a grace period).
\<close>

section \<open>The fence\<close>

lemma lock_lease_eq:
  "lock_lease t l s = Inr ks \<longleftrightarrow>
     (\<exists>a j. lease_row (pd_queue s) l = Some (a, j) \<and> unexpired t a \<and> qj_cancel j = None \<and> ks = qj_kinds j)"
proof (cases "\<exists>w j a. map_of (q_workers (pd_queue s)) (l_worker l) = Some w \<and>
    map_of (q_jobs (pd_queue s)) (l_job l) = Some j \<and> map_of (q_attempts (pd_queue s)) (l_attempt l) = Some a")
  case True
  then obtain w j a where *: "map_of (q_workers (pd_queue s)) (l_worker l) = Some w"
    "map_of (q_jobs (pd_queue s)) (l_job l) = Some j" "map_of (q_attempts (pd_queue s)) (l_attempt l) = Some a" by blast
  let ?ok = "qw_state w = W_BUSY \<and> qj_state j = RUNNING \<and> qj_current j = Some (l_attempt l) \<and> qj_epoch j = l_epoch l \<and>
    qj_cancel j = None \<and> qa_job a = l_job l \<and> qa_worker a = l_worker l \<and> qa_epoch a = l_epoch l \<and> qa_state a = ATT_ACTIVE"
  have "lock_lease t l s = Inr ks \<longleftrightarrow> ?ok \<and> unexpired t a \<and> ks = qj_kinds j"
    by (simp add: lock_lease_def * lost_def) metis
  then show ?thesis by (auto simp: lease_row_eq *)
next
  case False
  then have "lock_lease t l s \<noteq> Inr ks" by (auto simp: lock_lease_def lost_def split: option.splits if_splits)
  with False show ?thesis by (auto simp: lease_row_eq)
qed

lemma lost_error: "lost = Inl e \<Longrightarrow> exc_class_of e = StateTransitionError"
  by (auto simp: lost_def raise_def)

lemma lock_lease_error: "lock_lease t l s = Inl e \<Longrightarrow> exc_class_of e = StateTransitionError"
  unfolding lock_lease_def by (auto dest: lost_error split: option.splits if_splits)

lemma lock_lease_current: "lock_lease t l s = Inr ks \<Longrightarrow> assert_current t l (pd_queue s) = Inr ()"
  by (auto simp: lock_lease_eq assert_current_eq)

lemma lease_row_names:
  assumes "names_ok q" and "lease_row q l = Some (a, j)"
  shows "strip (l_job l) \<noteq> [] \<and> strip (l_attempt l) \<noteq> [] \<and> strip (l_worker l) \<noteq> []"
proof -
  from assms(2) obtain w where "map_of (q_attempts q) (l_attempt l) = Some a" "map_of (q_jobs q) (l_job l) = Some j"
    "map_of (q_workers q) (l_worker l) = Some w" by (auto simp: lease_row_eq)
  then have "l_attempt l \<in> fst ` set (q_attempts q)" "l_job l \<in> fst ` set (q_jobs q)" "l_worker l \<in> fst ` set (q_workers q)"
    by (metis fst_conv image_eqI map_of_SomeD)+
  with assms(1) show ?thesis unfolding names_ok_def by blast
qed

section \<open>Changes of the ledger\<close>

text \<open>The changes an operation other than finalization makes: none, a new row, a moved row, a blob and a moved row.\<close>

definition moved_quietly :: "string \<Rightarrow> pub_row \<Rightarrow> pub_row \<Rightarrow> pub_db \<Rightarrow> pub_db \<Rightarrow> bool" where
  "moved_quietly i old r s s' \<longleftrightarrow> row_moved i old r s s' \<and> (pb_state r = PUB_FINALIZED \<longleftrightarrow> pb_state old = PUB_FINALIZED)"

definition ledger_step :: "pub_db \<Rightarrow> pub_db \<Rightarrow> bool" where
  "ledger_step s s' \<longleftrightarrow> s' = s \<or> (\<exists>i r. row_added i r s s') \<or> (\<exists>i old r. moved_quietly i old r s s') \<or>
     (\<exists>b s1 i old r. blob_added b s s1 \<and> moved_quietly i old r s1 s')"

lemma ledger_step_refl [simp]: "ledger_step s s"
  by (simp add: ledger_step_def)

lemma moved_quietly_inv: "p_inv_except X s \<Longrightarrow> moved_quietly i old r s s' \<Longrightarrow> p_inv_except X s'"
  unfolding moved_quietly_def by (blast intro: row_moved_inv)

lemma ledger_step_inv: "p_inv_except X s \<Longrightarrow> ledger_step s s' \<Longrightarrow> p_inv_except X s'"
  unfolding ledger_step_def by (blast intro: row_added_inv blob_added_inv moved_quietly_inv)

lemma ledger_step_le: "ledger_step s s' \<Longrightarrow> p_le s s'"
  unfolding ledger_step_def moved_quietly_def
  by (blast intro: row_added_le row_moved_le blob_added_le p_le_refl p_le_trans)

text \<open>A statement that has to change its row, inside an operation that then reads it back.\<close>

lemma must_update_wp:
  assumes "\<And>old r s'. cond old \<Longrightarrow> map_of (pd_publications s) i = Some old \<Longrightarrow> guarded_row t s old (f old) r \<Longrightarrow>
      s' = s\<lparr>pd_publications := set_row i (\<lambda>_. r) (pd_publications s)\<rparr> \<Longrightarrow> W () s'"
    and "\<And>e. X e s"
  shows "wp X W (must (update_publication t i cond f) c m s)"
  unfolding must_def wp_sbind
  by (rule wp_mono [OF update_publication_wp]) (auto simp: wp_simps assms split: if_splits)

lemma read_back_wp:
  assumes "map_of (pd_publications s) i = Some old" "s' = s\<lparr>pd_publications := set_row i (\<lambda>_. r) (pd_publications s)\<rparr>"
    and "V (record_of r) s'" and "\<And>e. X e s'"
  shows "wp X V (select_record i s')"
  using assms by (auto simp: select_record_def map_of_set_row wp_simps dest: from_row_Inr)

lemma guarded_fields:
  assumes "guarded_row t s old new r"
  shows "\<exists>x d u e. r = new\<lparr>pb_stale_since := x, pb_deleted_at := d, pb_updated_at := u, pr_terminal_at := e\<rparr>"
proof -
  obtain r1 where lg: "lease_guard t s (Some old) new = Inr r1" and tg: "transition_guard t old r1 = Inr r"
    using assms by (auto simp: guarded_row_def)
  from lease_guard_keeps [OF lg] obtain x where r1: "r1 = new\<lparr>pb_stale_since := x\<rparr>" by blast
  from tg show ?thesis
  proof (cases rule: transition_guard_cases)
    case cleanup
    then show ?thesis unfolding r1 by (intro exI [of _ x] exI [of _ "Some t"] exI [of _ t] exI [of _ "pr_terminal_at new"]) simp
  next
    case stale
    then show ?thesis unfolding r1 by (intro exI [of _ x] exI [of _ "pb_deleted_at new"] exI [of _ t] exI [of _ "pr_terminal_at new"]) simp
  next
    case move
    then show ?thesis unfolding r1
      by (intro exI [of _ x] exI [of _ "pb_deleted_at new"] exI [of _ t]
          exI [of _ "if pub_terminal (pb_state new) then Some t else pr_terminal_at new"]) simp
  qed
qed

lemma guarded_same:
  assumes "guarded_row t s old new r"
  shows "pb_state r = pb_state new" "pb_version r = pb_version new" "pb_object_key r = pb_object_key new"
    "pb_observed_sha256 r = pb_observed_sha256 new" "pb_observed_size r = pb_observed_size new"
    "pb_observed_content_type r = pb_observed_content_type new" "pb_blob r = pb_blob new"
    "pb_validator_metadata r = pb_validator_metadata new" "pb_reason r = pb_reason new"
  using guarded_fields [OF assms] by (elim exE; simp)+

lemma row_movedI:
  "map_of (pd_publications s) i = Some old \<Longrightarrow> guarded_row t s old new r \<Longrightarrow>
   s' = s\<lparr>pd_publications := set_row i (\<lambda>_. r) (pd_publications s)\<rparr> \<Longrightarrow> row_moved i old r s s'"
  unfolding row_moved_def by blast

definition owned_by :: "lease \<Rightarrow> 'a publication_scheme \<Rightarrow> bool" where
  "owned_by l r \<longleftrightarrow> pb_job r = l_job l \<and> pb_attempt r = l_attempt l \<and> pb_worker r = l_worker l \<and> pb_epoch r = l_epoch l"

lemma owned_by_record [simp]: "owned_by l (record_of r) = owned_by l r"
  by (simp add: owned_by_def)

lemma lock_publication_wp:
  assumes "p_inv_except X s"
  shows "wp (\<lambda>e s'. s' = s) (\<lambda>p s'. s' = s \<and> (\<exists>r. map_of (pd_publications s) i = Some r \<and> owned_by l r \<and> p = record_of r))
      (lock_publication l i s)"
  unfolding lock_publication_def
  by (cases "map_of (pd_publications s) i")
     (simp_all add: wp_simps select_record_eq [OF assms] not_found_def owned_by_def)

lemma fenced_publication_wp:
  assumes "p_inv_except X s"
    and "\<And>ks r. lock_lease t l s = Inr ks \<Longrightarrow> map_of (pd_publications s) i = Some r \<Longrightarrow> owned_by l r \<Longrightarrow>
           wp (\<lambda>e s'. True) V (k (record_of r) s)"
  shows "wp (\<lambda>e s'. True) V (fenced_publication t l i k s)"
  unfolding fenced_publication_def wp_lift wp_sbind
proof (intro conjI allI impI)
  fix ks assume ks: "lock_lease t l s = Inr ks"
  show "wp (\<lambda>e s'. True) (\<lambda>p s'. wp (\<lambda>e s'. True) V (k p s')) (lock_publication l i s)"
    by (rule wp_mono [OF lock_publication_wp [OF assms(1)]]) (auto intro: assms(2) [OF ks])
qed simp

lemma wp_transaction_keep: "wp (\<lambda>e s'. True) V (m s) \<Longrightarrow> wp (\<lambda>e s'. s' = s) V (transaction m s)"
  unfolding wp_transaction by (erule wp_mono) simp_all

text \<open>What a fenced compare-and-swap on one publication does: the lease is current, owns the row, the version fits.\<close>

definition cas_moved ::
  "int \<Rightarrow> lease \<Rightarrow> string \<Rightarrow> int \<Rightarrow> pub_row \<Rightarrow> pub_row \<Rightarrow> pub_db \<Rightarrow> pub_db \<Rightarrow> publication \<Rightarrow> bool"
where
  "cas_moved t l i v old r s s' p \<longleftrightarrow>
     (\<exists>ks. lock_lease t l s = Inr ks) \<and> owned_by l old \<and> pb_version old = v \<and>
     moved_quietly i old r s s' \<and> p = record_of r"

lemma record_object_wp:
  assumes "p_inv_except X s"
  shows "wp (\<lambda>e s'. s' = s)
     (\<lambda>p s'. \<exists>old r. cas_moved t l i v old r s s' p \<and> pb_state old = PUB_RESERVED \<and> pb_state r = PUB_OBJECT_WRITTEN \<and>
        pb_object_key r = Some (attempt_object_key old) \<and> pb_observed_sha256 r = Some h \<and> pb_observed_size r = Some n)
     (record_object t t' l i v h n s)"
  unfolding record_object_def wp_lift
  apply (intro conjI allI impI; (simp; fail)?)
  apply (rule wp_transaction_keep)
  apply (rule fenced_publication_wp [OF assms])
  apply (simp add: wp_simps, intro impI conjI allI)
  apply (rule must_update_wp)
   apply (rule read_back_wp, assumption, assumption)
  subgoal for ks r old r' s'
    by (rule exI [of _ old], rule exI [of _ r'])
       (auto simp: cas_moved_def moved_quietly_def guarded_same intro: row_movedI)
  by simp_all

lemma pub_reject_wp:
  assumes "p_inv_except X s"
  shows "wp (\<lambda>e s'. s' = s)
     (\<lambda>p s'. \<exists>old r. cas_moved t l i v old r s s' p \<and> pub_open old \<and> pb_state r = PUB_REJECTED \<and>
        pb_reason r = Some reason)
     (pub_reject t t' l i v reason s)"
  unfolding pub_reject_def terminalize_def wp_lift
  apply (intro conjI allI impI; (simp; fail)?)
  apply (rule wp_transaction_keep)
  apply (rule fenced_publication_wp [OF assms])
  apply (simp add: wp_simps, intro impI conjI allI)
  apply (rule must_update_wp)
   apply (rule read_back_wp, assumption, assumption)
  subgoal for ks r old r' s'
    by (rule exI [of _ old], rule exI [of _ r'])
       (auto simp: cas_moved_def moved_quietly_def guarded_same pub_open_def intro: row_movedI)
  by simp_all

lemma record_cleanup_wp:
  assumes "p_inv_except X s"
  shows "wp (\<lambda>e s'. s' = s)
     (\<lambda>p s'. \<exists>old r. moved_quietly i old r s s' \<and> p = record_of r \<and> pub_terminal (pb_state old) \<and>
        pb_deleted_at old = None \<and> pb_version old = v \<and> pb_state r = pb_state old)
     (record_cleanup t i v s)"
  unfolding record_cleanup_def
  apply (rule wp_transaction_keep)
  apply (simp add: wp_simps select_record_eq [OF assms] not_found_def split: option.splits, intro impI conjI allI)
  apply (rule must_update_wp)
   apply (rule read_back_wp, assumption, assumption)
  subgoal for r old r' s'
    by (rule exI [of _ old], rule exI [of _ r'])
       (auto simp: moved_quietly_def guarded_same intro: row_movedI)
  by simp_all

text \<open>
  Abandoning: a call that returns has found the grace period over and the lease not current; a call
  that raises may have started the period.
\<close>

lemma guarded_stale_since: "guarded_row t s old new r \<Longrightarrow> lease_guard t s (Some old) new = Inr r1 \<Longrightarrow> pb_stale_since r = pb_stale_since r1"
proof -
  assume "guarded_row t s old new r" "lease_guard t s (Some old) new = Inr r1"
  then have "transition_guard t old r1 = Inr r" by (auto simp: guarded_row_def)
  then show ?thesis by (cases rule: transition_guard_cases) simp_all
qed

lemma guarded_stale:
  assumes "guarded_row t s old new r" "pb_state new = pb_state old" "pb_stale_since old = None"
    "pb_stale_since new \<noteq> None" "\<not> pub_terminal (pb_state old)"
  shows "pb_stale_since r = Some t \<and> \<not> publication_current t (pd_queue s) new"
proof -
  obtain r1 where lg: "lease_guard t s (Some old) new = Inr r1"
    using assms(1) by (auto simp: guarded_row_def)
  from lg assms(2-) have "r1 = new\<lparr>pb_stale_since := Some t\<rparr> \<and> \<not> publication_current t (pd_queue s) new"
    by (simp add: lease_guard_def Let_def split: if_splits)
  with guarded_stale_since [OF assms(1) lg] show ?thesis by simp
qed

lemma guarded_abandon:
  assumes "guarded_row t s old new r" "pb_state new = PUB_ABANDONED" "\<not> pub_terminal (pb_state old)"
  shows "\<not> publication_current t (pd_queue s) new \<and>
    (\<exists>x. pb_stale_since old = Some x \<and> x + grace \<le> t \<and> pb_stale_since r = Some x)"
proof -
  obtain r1 where lg: "lease_guard t s (Some old) new = Inr r1"
    using assms(1) by (auto simp: guarded_row_def)
  from lease_guard_abandon [OF lg assms(2,3)] guarded_stale_since [OF assms(1) lg] show ?thesis by auto
qed

lemma publication_current_owned:
  "pb_job r = pb_job r' \<Longrightarrow> pb_attempt r = pb_attempt r' \<Longrightarrow> pb_worker r = pb_worker r' \<Longrightarrow> pb_epoch r = pb_epoch r' \<Longrightarrow>
   publication_current t q r = publication_current t q r'"
  by (simp add: publication_current_def lease_of_publication_def)

definition stale_marked :: "int \<Rightarrow> string \<Rightarrow> int \<Rightarrow> pub_row \<Rightarrow> pub_row \<Rightarrow> pub_db \<Rightarrow> pub_db \<Rightarrow> bool" where
  "stale_marked t i v old r s s' \<longleftrightarrow> moved_quietly i old r s s' \<and> pub_open old \<and> pb_version old = v \<and>
     pb_stale_since old = None \<and> pb_stale_since r = Some t \<and> pb_state r = pb_state old \<and>
     \<not> publication_current t (pd_queue s) old"

definition abandoned_row :: "int \<Rightarrow> string \<Rightarrow> int \<Rightarrow> string \<Rightarrow> pub_row \<Rightarrow> pub_row \<Rightarrow> pub_db \<Rightarrow> pub_db \<Rightarrow> bool" where
  "abandoned_row t i v reason old r s s' \<longleftrightarrow> moved_quietly i old r s s' \<and> pub_open old \<and> pb_version old = v \<and>
     pb_state r = PUB_ABANDONED \<and> pb_reason r = Some reason \<and>
     (\<exists>x. pb_stale_since old = Some x \<and> x + grace \<le> t) \<and> \<not> publication_current t (pd_queue s) old"

lemma pub_open_not_terminal: "pub_open r \<longleftrightarrow> \<not> pub_terminal (pb_state r)"
  by (cases "pb_state r") (simp_all add: pub_open_def pub_terminal_def)

lemma stale_markedI:
  assumes "pb_version old = v \<and> pb_stale_since old = None \<and> pub_open old" "map_of (pd_publications s) i = Some old"
    "guarded_row t s old (old\<lparr>pb_version := pb_version old + 1, pb_stale_since := Some t, pb_updated_at := t\<rparr>) r"
    "s' = s\<lparr>pd_publications := set_row i (\<lambda>_. r) (pd_publications s)\<rparr>"
  shows "stale_marked t i v old r s s'"
proof -
  let ?new = "old\<lparr>pb_version := pb_version old + 1, pb_stale_since := Some t, pb_updated_at := t\<rparr>"
  have "publication_current t (pd_queue s) ?new = publication_current t (pd_queue s) old"
    by (rule publication_current_owned) simp_all
  moreover have "pb_stale_since r = Some t \<and> \<not> publication_current t (pd_queue s) ?new"
    by (rule guarded_stale [OF assms(3)]) (use assms(1) in \<open>simp_all add: pub_open_not_terminal\<close>)
  moreover have "row_moved i old r s s'" by (rule row_movedI [OF assms(2,3,4)])
  ultimately show ?thesis
    using assms(1) guarded_same(1) [OF assms(3)] by (simp add: stale_marked_def moved_quietly_def)
qed

lemma abandoned_rowI:
  assumes "pb_version old = v \<and> pub_open old" "map_of (pd_publications s) i = Some old"
    "guarded_row t s old (old\<lparr>pb_state := PUB_ABANDONED, pb_version := pb_version old + 1, pb_reason := Some reason,
       pr_terminal_at := Some t, pb_updated_at := t\<rparr>) r"
    "s' = s\<lparr>pd_publications := set_row i (\<lambda>_. r) (pd_publications s)\<rparr>"
  shows "abandoned_row t i v reason old r s s'"
proof -
  let ?new = "old\<lparr>pb_state := PUB_ABANDONED, pb_version := pb_version old + 1, pb_reason := Some reason,
       pr_terminal_at := Some t, pb_updated_at := t\<rparr>"
  have "publication_current t (pd_queue s) ?new = publication_current t (pd_queue s) old"
    by (rule publication_current_owned) simp_all
  moreover have "\<not> publication_current t (pd_queue s) ?new \<and>
    (\<exists>x. pb_stale_since old = Some x \<and> x + grace \<le> t \<and> pb_stale_since r = Some x)"
    by (rule guarded_abandon [OF assms(3)]) (use assms(1) in \<open>simp_all add: pub_open_not_terminal\<close>)
  moreover have "row_moved i old r s s'" by (rule row_movedI [OF assms(2,3,4)])
  moreover have "pb_state old \<noteq> PUB_FINALIZED" using assms(1) by (auto simp: pub_open_def)
  ultimately show ?thesis
    using assms(1) guarded_same(1,9) [OF assms(3)] by (auto simp: abandoned_row_def moved_quietly_def)
qed

lemma abandon_body_wp:
  assumes "p_inv_except X s"
  shows "wp (\<lambda>e s'. True)
     (\<lambda>p s'. case p of None \<Rightarrow> \<exists>old r. stale_marked t' i v old r s s'
             | Some q \<Rightarrow> \<exists>old r. abandoned_row t' i v reason old r s s' \<and> q = record_of r)
     (abandon_body t t' i v reason s)"
  unfolding abandon_body_def
  apply (simp add: wp_simps select_record_eq [OF assms] not_found_def split: option.splits, intro impI conjI allI)
   apply (rule must_update_wp)
    apply (rule read_back_wp, assumption, assumption)
     apply (blast intro: stale_markedI)
    apply simp
   apply simp
  apply (rule must_update_wp)
   apply (rule read_back_wp, assumption, assumption)
    apply (blast intro: abandoned_rowI)
   apply simp
  apply simp
  done

lemma pub_abandon_wp:
  assumes "p_inv_except X s"
  shows "wp (\<lambda>e s'. s' = s \<or> (\<exists>old r. stale_marked t' i v old r s s'))
     (\<lambda>p s'. \<exists>old r. abandoned_row t' i v reason old r s s' \<and> p = record_of r)
     (pub_abandon t t' i v reason s)"
  unfolding pub_abandon_def wp_lift wp_sbind
  apply (intro conjI allI impI; (simp; fail)?)
  apply (simp only: wp_transaction)
  apply (rule wp_mono [OF abandon_body_wp [OF assms]])
  apply (auto simp: wp_simps split: option.splits)
  done

text \<open>Reserving: one publication per attempt and kind, whoever asks again gets the same.\<close>

definition inserted_row :: "int \<Rightarrow> pub_row \<Rightarrow> pub_row" where
  "inserted_row t r = r\<lparr>pb_created_at := t, pb_updated_at := t, pr_terminal_at := None, pb_deleted_at := None,
     pb_stale_since := None\<rparr>"

lemma insert_publication_wp:
  "wp (\<lambda>e s'. s' = s)
     (\<lambda>b s'. if b then pb_state r = PUB_RESERVED \<and> row_check (inserted_row t r) = Inr () \<and>
                  publication_current t (pd_queue s) r \<and>
                  (\<forall>(k, x) \<in> set (pd_publications s). \<not> (pb_attempt x = pb_attempt r \<and> pb_kind x = pb_kind r)) \<and>
                  pb_id r \<notin> fst ` set (pd_publications s) \<and>
                  s' = s\<lparr>pd_publications := add_row (pb_id r) (inserted_row t r) (pd_publications s)\<rparr>
             else s' = s)
     (insert_publication t r s)"
  unfolding insert_publication_def
  by (simp add: wp_simps) (auto simp: lease_guard_def insert_guard_def inserted_row_def list_ex_iff Let_def split: if_splits)

lemma reserved_row_simps [simp]:
  "pb_id (reserved_row u l sp m) = u" "pb_job (reserved_row u l sp m) = l_job l"
  "pb_attempt (reserved_row u l sp m) = l_attempt l" "pb_worker (reserved_row u l sp m) = l_worker l"
  "pb_epoch (reserved_row u l sp m) = l_epoch l" "pb_kind (reserved_row u l sp m) = ps_kind sp"
  "pb_content_type (reserved_row u l sp m) = ps_content_type sp" "pb_metadata (reserved_row u l sp m) = m"
  "pb_state (reserved_row u l sp m) = PUB_RESERVED"
  by (simp_all add: reserved_row_def)

lemma inserted_row_simps [simp]:
  "pb_id (inserted_row t r) = pb_id r" "pb_job (inserted_row t r) = pb_job r"
  "pb_attempt (inserted_row t r) = pb_attempt r" "pb_worker (inserted_row t r) = pb_worker r"
  "pb_epoch (inserted_row t r) = pb_epoch r" "pb_kind (inserted_row t r) = pb_kind r"
  "pb_content_type (inserted_row t r) = pb_content_type r" "pb_state (inserted_row t r) = pb_state r"
  by (simp_all add: inserted_row_def)

lemma reserved_row_added:
  assumes inv: "p_inv_except X s" and ks: "lock_lease t l s = Inr ks" and u: "strip u \<noteq> []"
    and sp: "new_PublicationSpec sp = Inr sp" and check: "row_check (inserted_row t' (reserved_row u l sp m)) = Inr ()"
    and new: "\<forall>(k, x) \<in> set (pd_publications s). \<not> (pb_attempt x = l_attempt l \<and> pb_kind x = ps_kind sp)"
      "u \<notin> fst ` set (pd_publications s)"
  shows "row_added u (inserted_row t' (reserved_row u l sp m)) s
    (s\<lparr>pd_publications := add_row u (inserted_row t' (reserved_row u l sp m)) (pd_publications s)\<rparr>)"
proof -
  obtain a j where row: "lease_row (pd_queue s) l = Some (a, j)" using ks by (auto simp: lock_lease_eq)
  have "strip (ps_content_type sp) \<noteq> []"
    using sp by (simp add: new_PublicationSpec_def after_eq_Inr checks_Cons_ok require_text_ok)
  moreover have "map_of (q_attempts (pd_queue s)) (l_attempt l) = Some a \<and> qa_job a = l_job l \<and>
      qa_worker a = l_worker l \<and> qa_epoch a = l_epoch l" using row by (auto simp: lease_row_eq)
  ultimately show ?thesis
    using lease_row_names [OF p_invD(2) [OF inv] row] u check new by (simp add: row_added_def row_ok_def)
qed

lemma reserve_new_wp:
  "row_added u r s s' \<Longrightarrow> V (record_of r) s' \<Longrightarrow> wp (\<lambda>e s'. True) V (select_record u s')"
  by (auto simp: row_added_def map_of_add_row select_record_def wp_simps dest: from_row_Inr)

lemma reserve_replay_wp:
  assumes "p_inv_except X s"
    and V: "\<And>i r. map_of (pd_publications s) i = Some r \<Longrightarrow> matches_spec (record_of r) l sp \<Longrightarrow> V (record_of r) s"
  shows "wp (\<lambda>e s'. True) V
    (case find (\<lambda>(i, r). pb_attempt r = l_attempt l \<and> pb_kind r = ps_kind sp) (pd_publications s) of
       None \<Rightarrow> fail StateTransitionError ''publication reservation disappeared'' s
     | Some (i, r) \<Rightarrow> lift (from_row r) s
         (\<lambda>p. if \<not> matches_spec p l sp
              then fail StateTransitionError ''publication kind was reserved with other identity'' s
              else ok p s))"
proof (cases "find (\<lambda>(i, r). pb_attempt r = l_attempt l \<and> pb_kind r = ps_kind sp) (pd_publications s)")
  case (Some z)
  obtain i r where z: "z = (i, r)" by (cases z)
  have "z \<in> set (pd_publications s)" using Some by (auto simp: find_Some_iff in_set_conv_nth)
  then have "map_of (pd_publications s) i = Some r"
    using p_invD(3) [OF assms(1)] z by (simp add: rows_ok_def)
  with Some z show ?thesis by (auto simp: wp_simps intro: V dest!: from_row_Inr)
qed (simp add: wp_simps)

lemma reserve_wp:
  assumes inv: "p_inv_except X s" and u: "strip u \<noteq> []" and sp: "new_PublicationSpec sp = Inr sp"
  shows "wp (\<lambda>e s'. s' = s)
     (\<lambda>p s'. (\<exists>ks. lock_lease t l s = Inr ks) \<and>
        ((\<exists>m r. jsonb (ps_metadata sp) = Inr m \<and> r = inserted_row t' (reserved_row u l sp m) \<and>
            row_added u r s s' \<and> p = record_of r) \<or>
         (s' = s \<and> matches_spec p l sp \<and> (\<exists>i r. map_of (pd_publications s) i = Some r \<and> p = record_of r))))
     (reserve jsonb t t' u l sp s)"
  unfolding reserve_def
  apply (rule wp_transaction_keep, unfold wp_lift wp_sbind, intro conjI allI impI TrueI)
  subgoal premises h for ks m
  proof (rule wp_mono [OF insert_publication_wp], simp, goal_cases)
    case (1 b s')
    show ?case
    proof (cases b)
      case True
      with 1 have added: "row_added u (inserted_row t' (reserved_row u l sp m)) s s'"
        using reserved_row_added [OF inv h(1) u sp, of t' m] by simp
      show ?thesis using True h added by (auto intro!: reserve_new_wp [OF added])
    next
      case False
      with 1 have "s' = s" by simp
      with False h show ?thesis by (auto intro!: reserve_replay_wp [OF inv])
    qed
  qed
  done

text \<open>Validating: the canonical blob is registered or found again, and the row points to it.\<close>

definition blob_registered :: "blob_record \<Rightarrow> pub_db \<Rightarrow> pub_db \<Rightarrow> bool" where
  "blob_registered b s s' \<longleftrightarrow> s' = s \<or> blob_added b s s'"

lemma blob_registered_rows: "blob_registered b s s' \<Longrightarrow> pd_publications s' = pd_publications s"
  by (auto simp: blob_registered_def blob_added_def)

lemma insert_blob_wp:
  assumes "p_inv_except X s" and "strip (blob_id b) \<noteq> []"
  shows "wp (\<lambda>e s'. s' = s)
     (\<lambda>x s'. blob_registered b s s' \<and> (\<forall>y. x = Some y \<longrightarrow> y \<in> set (pd_blobs s') \<and> blob_sha256 y = blob_sha256 b))
     (insert_blob b s)"
proof -
  have "x \<in> set B" "P x" if "find P B = Some x" for P and B :: "blob_record list" and x
    using that by (auto simp: find_Some_iff in_set_conv_nth)
  then show ?thesis
    unfolding insert_blob_def
    using assms(2) p_invD(4) [OF assms(1)]
    by (simp add: wp_simps) (auto simp: blob_registered_def blob_added_def blobs_ok_def list_ex_iff)
qed

definition validated_with :: "blob_record \<Rightarrow> blob_record \<Rightarrow> pub_row \<Rightarrow> pub_row \<Rightarrow> bool" where
  "validated_with b x old r \<longleftrightarrow> pb_state old = PUB_OBJECT_WRITTEN \<and> pb_state r = PUB_VALIDATED \<and>
     pb_observed_sha256 old = Some (blob_sha256 b) \<and> pb_observed_size old = Some (blob_size_bytes b) \<and>
     pb_content_type old = blob_content_type b \<and> pb_blob r = Some (blob_id x) \<and>
     blob_sha256 x = blob_sha256 b \<and> same_blob_row x b"

lemma record_validated_wp:
  assumes inv: "p_inv_except X s" and b: "strip (blob_id b) \<noteq> []"
  shows "wp (\<lambda>e s'. s' = s)
     (\<lambda>p s'. \<exists>s1 x old r. blob_registered b s s1 \<and> x \<in> set (pd_blobs s1) \<and> (\<exists>ks. lock_lease t l s = Inr ks) \<and>
        owned_by l old \<and> pb_version old = v \<and> moved_quietly i old r s1 s' \<and> p = record_of r \<and> validated_with b x old r)
     (record_validated jsonb t t' l i v b vm s)"
  unfolding record_validated_def wp_lift
  apply (intro conjI allI impI; (simp; fail)?)
  apply (rule wp_transaction_keep)
  apply (rule fenced_publication_wp [OF inv])
  apply (simp only: wp_if wp_simps, intro conjI impI TrueI)
  apply (rule wp_mono [OF insert_blob_wp [OF inv b]], simp)
  apply (intro conjI impI allI; (simp; fail)?)
  apply (rule must_update_wp)
   apply (rule read_back_wp, assumption, assumption)
    subgoal premises h for c1 ck c2 c3 ks r0 y s1 x m old r s'
    proof -
      have reg: "blob_registered b s s1" and x: "x \<in> set (pd_blobs s1) \<and> blob_sha256 x = blob_sha256 b"
        using h(10,11) by simp_all
      have "r0 = old" using h(6,15) blob_registered_rows [OF reg] by simp
      moreover have "row_moved i old r s1 s'" by (rule row_movedI [OF h(15-17)])
      ultimately show ?thesis
        using h(5,7,8,9,12,14) reg x guarded_same(1,7) [OF h(16)]
        by (intro exI [of _ s1] exI [of _ x] exI [of _ old] exI [of _ r])
          (simp add: validated_with_def moved_quietly_def)
    qed
  by simp_all

end
