(* ===== verification/PublicationFinal.thy ===== *)
theory PublicationFinal
  imports PublicationOps
begin

text \<open>
  Finalization: the loop over the locked publications, the success of attempt and job, and what a
  reader of the winner sees. A call that returns has finalized the exact required kinds and made
  their artifacts the job's result; a call that raises has changed nothing.
\<close>

section \<open>One publication becomes an artifact\<close>

lemma guarded_row_frame [simp]: "guarded_row t (s\<lparr>pd_artifacts := T\<rparr>) old new r = guarded_row t s old new r"
  by (simp add: guarded_row_def lease_guard_def blob_guard_def)

definition row_finalized ::
  "string \<Rightarrow> string \<Rightarrow> pub_artifact \<Rightarrow> pub_row \<Rightarrow> pub_row \<Rightarrow> pub_db \<Rightarrow> pub_db \<Rightarrow> bool"
where
  "row_finalized i u a old r s s' \<longleftrightarrow>
     map_of (pd_publications s) i = Some old \<and> (\<exists>t new. guarded_row t s old new r) \<and>
     pa_publication a = i \<and> proves a r \<and> strip u \<noteq> [] \<and> u \<notin> fst ` set (pd_artifacts s) \<and>
     i \<notin> (pa_publication \<circ> snd) ` set (pd_artifacts s) \<and>
     s' = s\<lparr>pd_artifacts := add_row u a (pd_artifacts s),
            pd_publications := set_row i (\<lambda>_. r) (pd_publications s)\<rparr>"

lemma row_finalized_le: "row_finalized i u a old r s s' \<Longrightarrow> p_le s s'"
  unfolding row_finalized_def p_le_def
  by (auto simp: map_of_set_row add_row_def intro!: grows_upd dest: guarded_row_le(1))

lemma finalized_kinds_other:
  assumes "distinct (map fst P)" "map_of P i = Some old" "same_identity_row old r" "a \<noteq> pb_attempt old"
  shows "finalized_kinds (set_row i (\<lambda>_. r) P) a = finalized_kinds P a"
proof -
  have m: "map_of (set_row i (\<lambda>_. r) P) = (map_of P)(i \<mapsto> r)" using assms(2) by (simp add: map_of_set_row)
  have d: "distinct (map fst (set_row i (\<lambda>_. r) P))" using assms(1) by simp
  have r: "pb_attempt r \<noteq> a" using assms(3,4) by (simp add: same_identity_row_def)
  have "\<And>k x. ((map_of P)(i \<mapsto> r)) k = Some x \<and> pb_attempt x = a \<longleftrightarrow> map_of P k = Some x \<and> pb_attempt x = a"
    using r assms(2,4) by (auto split: if_splits)
  then show ?thesis
    unfolding finalized_kinds_map [OF assms(1)] finalized_kinds_map [OF d] m by blast
qed

text \<open>The attempt of a running lease has won no job.\<close>

lemma running_not_winner:
  assumes inv: "p_inv_except X s" and row: "lease_row (pd_queue s) l = Some (a, j)"
    and k: "map_of (q_jobs (pd_queue s)) i = Some k" "qj_state k = SUCCEEDED"
  shows "qj_winning k \<noteq> Some (l_attempt l)"
  using winners_jobD [OF p_invD(6) [OF inv] k(1)] k row
  by (auto simp: winner_ok_def lease_row_eq)

lemma artifacts_ok_finalized:
  assumes ok: "artifacts_ok P T" and old: "map_of P i = Some old" and id: "same_identity_row old r"
    and k: "kept pb_blob old r" and a: "pa_publication a = i" "proves a r" "strip u \<noteq> []"
    and new: "u \<notin> fst ` set T" "i \<notin> (pa_publication \<circ> snd) ` set T"
  shows "artifacts_ok (set_row i (\<lambda>_. r) P) (add_row u a T)"
  unfolding artifacts_ok_def
proof (intro conjI)
  have m: "map_of (set_row i (\<lambda>_. r) P) = (map_of P)(i \<mapsto> r)" using old by (simp add: map_of_set_row)
  show "distinct (map fst (add_row u a T))" using ok new(1) by (simp add: artifacts_ok_def distinct_add_row)
  show "distinct (map (pa_publication \<circ> snd) (add_row u a T))"
    using ok new(2) a(1) by (auto simp: artifacts_ok_def add_row_def)
  have other: "pa_publication b \<noteq> i" if "(v, b) \<in> set T" for v b using new(2) that by force
  show "\<forall>(v, b) \<in> set (add_row u a T). strip v \<noteq> [] \<and>
      (\<exists>ra. map_of (set_row i (\<lambda>_. r) P) (pa_publication b) = Some ra \<and> proves b ra)"
  proof (intro ballI, clarify)
    fix v b assume "(v, b) \<in> set (add_row u a T)"
    then consider "v = u" "b = a" | "(v, b) \<in> set T" by (auto simp: add_row_def)
    then show "strip v \<noteq> [] \<and> (\<exists>ra. map_of (set_row i (\<lambda>_. r) P) (pa_publication b) = Some ra \<and> proves b ra)"
    proof cases
      case 1
      then show ?thesis using a by (simp add: m)
    next
      case 2
      then have "strip v \<noteq> [] \<and> (\<exists>ra. map_of P (pa_publication b) = Some ra \<and> proves b ra)"
        using ok unfolding artifacts_ok_def by blast
      then show ?thesis using other [OF 2] by (simp add: m)
    qed
  qed
  show "\<forall>k x. map_of (set_row i (\<lambda>_. r) P) k = Some x \<and> pb_state x = PUB_FINALIZED \<longrightarrow>
      k \<in> (pa_publication \<circ> snd) ` set (add_row u a T)"
  proof (intro allI impI, elim conjE)
    fix k x assume x: "map_of (set_row i (\<lambda>_. r) P) k = Some x" "pb_state x = PUB_FINALIZED"
    show "k \<in> (pa_publication \<circ> snd) ` set (add_row u a T)"
    proof (cases "k = i")
      case True
      then show ?thesis using a(1) by (simp add: add_row_def)
    next
      case False
      then have "k \<in> (pa_publication \<circ> snd) ` set T" using x ok by (simp add: m artifacts_ok_def)
      then show ?thesis by (simp add: add_row_def)
    qed
  qed
qed

lemma row_finalized_inv:
  assumes inv: "p_inv_except X s" and f: "row_finalized i u a old r s s'" and X: "pb_attempt old \<in> X"
    and no: "\<And>k j. map_of (q_jobs (pd_queue s)) k = Some j \<Longrightarrow> qj_state j = SUCCEEDED \<Longrightarrow> qj_winning j \<noteq> Some (pb_attempt old)"
  shows "p_inv_except X s'"
proof -
  let ?P = "pd_publications s" and ?q = "pd_queue s"
  obtain t new where old: "map_of ?P i = Some old" and g: "guarded_row t s old new r"
    and a: "pa_publication a = i" "proves a r" "strip u \<noteq> []"
    and fresh: "u \<notin> fst ` set (pd_artifacts s)" "i \<notin> (pa_publication \<circ> snd) ` set (pd_artifacts s)"
    and s': "s' = s\<lparr>pd_artifacts := add_row u a (pd_artifacts s), pd_publications := set_row i (\<lambda>_. r) ?P\<rparr>"
    using f by (auto simp: row_finalized_def)
  note I = p_invD [OF inv]
  have d: "distinct (map fst ?P)" using I(3) by (simp add: rows_ok_def)
  have id: "same_identity_row old r" by (rule guarded_identity [OF g])
  have P: "map_of (set_row i (\<lambda>_. r) ?P) = (map_of ?P)(i \<mapsto> r)" using old by (simp add: map_of_set_row)
  have k: "kept pb_blob old r" using guarded_row_le(1) [OF g] by (simp add: pub_le_def)
  have "rows_ok (pd_blobs s) (map_of (q_attempts ?q)) (set_row i (\<lambda>_. r) ?P)"
    using I(3) old by (rule rows_ok_move) (use guarded_row_ok [OF p_row [OF inv old] g] id in simp_all)
  moreover have "artifacts_ok (set_row i (\<lambda>_. r) ?P) (add_row u a (pd_artifacts s))"
    by (rule artifacts_ok_finalized [OF I(5) old id k a fresh])
  moreover have "winners_ok X ?q (set_row i (\<lambda>_. r) ?P)"
    unfolding winners_ok_def
  proof (intro conjI allI impI; (elim conjE)?)
    fix c x assume x: "map_of (set_row i (\<lambda>_. r) ?P) c = Some x" "pb_state x = PUB_FINALIZED" "pb_attempt x \<notin> X"
    have "c \<noteq> i" using x X id by (auto simp: P same_identity_row_def)
    then have "map_of ?P c = Some x" using x(1) by (simp add: P)
    then show "\<exists>j. map_of (q_jobs ?q) (pb_job x) = Some j \<and> qj_state j = SUCCEEDED \<and> qj_winning j = Some (pb_attempt x)"
      by (rule winners_finalizedD [OF I(6) _ x(2,3)])
  next
    fix c j assume j: "map_of (q_jobs ?q) c = Some j"
    have w: "winner_ok (map_of (q_attempts ?q)) ?P (q_events ?q) c j" by (rule winners_jobD [OF I(6) j])
    show "winner_ok (map_of (q_attempts ?q)) (set_row i (\<lambda>_. r) ?P) (q_events ?q) c j"
    proof (cases "qj_state j = SUCCEEDED")
      case True
      then show ?thesis
        using w no [OF j True] by (auto simp: winner_ok_def finalized_kinds_other [OF d old id])
    next
      case False
      then show ?thesis using w by (simp add: winner_ok_def)
    qed
  qed
  ultimately show ?thesis using I by (simp add: p_inv_except_def s')
qed

section \<open>The loop\<close>

lemma insert_artifact_wp:
  "wp (\<lambda>e s'. True)
     (\<lambda>_ s'. u \<notin> fst ` set (pd_artifacts s) \<and> pa_publication a \<notin> (pa_publication \<circ> snd) ` set (pd_artifacts s) \<and>
        s' = s\<lparr>pd_artifacts := add_row u a (pd_artifacts s)\<rparr>)
     (insert_artifact u a s)"
  by (simp add: insert_artifact_def wp_simps) (force simp: list_ex_iff)

text \<open>What finalization has locked: the record it will finalize is the row it finds.\<close>

definition locked_row :: "lease \<Rightarrow> pub_db \<Rightarrow> publication \<Rightarrow> bool" where
  "locked_row l s p \<longleftrightarrow> (\<exists>r. map_of (pd_publications s) (pb_id p) = Some r \<and> p = record_of r \<and> owned_by l r \<and>
     pb_state r = PUB_VALIDATED)"

definition rows_finalized :: "string set \<Rightarrow> pub_db \<Rightarrow> pub_db \<Rightarrow> bool" where
  "rows_finalized ids s s' \<longleftrightarrow> pd_queue s' = pd_queue s \<and> p_le s s' \<and>
     (\<forall>k. k \<notin> ids \<longrightarrow> map_of (pd_publications s') k = map_of (pd_publications s) k) \<and>
     (\<forall>k \<in> ids. \<exists>r. map_of (pd_publications s') k = Some r \<and> pb_state r = PUB_FINALIZED)"

lemma rows_finalized_empty [simp]: "rows_finalized {} s s"
  by (simp add: rows_finalized_def)

lemma rows_finalized_step:
  assumes f: "row_finalized i u a old r s s1" and more: "rows_finalized ids s1 s'" and i: "i \<notin> ids"
  shows "rows_finalized (insert i ids) s s'"
proof -
  have P: "map_of (pd_publications s1) = (map_of (pd_publications s))(i \<mapsto> r)" "pd_queue s1 = pd_queue s"
    "pb_state r = PUB_FINALIZED"
    using f by (auto simp: row_finalized_def map_of_set_row proves_def)
  have "p_le s s'" using row_finalized_le [OF f] more by (auto simp: rows_finalized_def intro: p_le_trans)
  then show ?thesis using more i P by (simp add: rows_finalized_def)
qed

lemma locked_row_other:
  assumes "row_finalized i u a old r s s1" and "locked_row l s p" and "pb_id p \<noteq> i"
  shows "locked_row l s1 p"
  using assms by (auto simp: row_finalized_def locked_row_def map_of_set_row)

lemma row_finalizedI:
  assumes "locked_row l s p" and "strip u \<noteq> []"
    and "u \<notin> fst ` set (pd_artifacts s)" "pb_id p \<notin> (pa_publication \<circ> snd) ` set (pd_artifacts s)"
    and a: "a = \<lparr>pa_job = l_job l, pa_attempt = l_attempt l, pa_blob = the (pb_blob p), pa_kind = pb_kind p,
       pa_metadata = m, pa_publication = pb_id p\<rparr>"
    and old: "map_of (pd_publications s) (pb_id p) = Some old"
    and g: "guarded_row t s old (old\<lparr>pb_state := PUB_FINALIZED, pb_version := pb_version old + 1,
       pr_terminal_at := Some t, pb_updated_at := t\<rparr>) r"
    and s': "s' = s\<lparr>pd_artifacts := add_row u a (pd_artifacts s),
       pd_publications := set_row (pb_id p) (\<lambda>_. r) (pd_publications s)\<rparr>"
  shows "row_finalized (pb_id p) u a old r s s' \<and> owned_by l old"
proof -
  have p: "p = record_of old" "owned_by l old" using assms(1) old by (auto simp: locked_row_def)
  have fin: "pb_state r = PUB_FINALIZED" "pb_blob r = pb_blob old" using guarded_same(1,7) [OF g] by simp_all
  have "blob_guard s r = Inr ()" using g by (simp add: guarded_row_def)
  then obtain b where "pb_blob r = Some b" using fin by (auto simp: blob_guard_ok blob_matches_def)
  moreover have "same_identity_row old r" by (rule guarded_identity [OF g])
  ultimately have "proves a r" using p fin by (simp add: a proves_def same_identity_row_def owned_by_def)
  then show ?thesis using assms(2-4) old g p(2) by (auto simp: row_finalized_def s' a)
qed

lemma finalize_rows_wp:
  assumes "p_inv_except {l_attempt l} s" and "lease_row (pd_queue s) l = Some (a, j)"
    and "\<And>k. n \<le> k \<Longrightarrow> k < n + length ps \<Longrightarrow> strip (us k) \<noteq> []" and "distinct (map pb_id ps)" and "\<And>p. p \<in> set ps \<Longrightarrow> locked_row l s p"
  shows "wp (\<lambda>e s'. True) (\<lambda>_ s'. p_inv_except {l_attempt l} s' \<and> rows_finalized (pb_id ` set ps) s s')
     (finalize_rows jsonb clk n us l ps s)"
  using assms
proof (induction ps arbitrary: n s)
  case Nil
  then show ?case by (simp add: wp_simps)
next
  case (Cons p ps)
  let ?V = "\<lambda>_ s'. p_inv_except {l_attempt l} s' \<and> rows_finalized (pb_id ` set (p # ps)) s s'"
  have rest: "wp (\<lambda>e s'. True) ?V (finalize_rows jsonb clk (Suc n) us l ps s1)"
    if f: "row_finalized (pb_id p) u c old r s s1" "owned_by l old" for u c old r s1
  proof (rule wp_mono [OF Cons.IH])
    show "p_inv_except {l_attempt l} s1"
      by (rule row_finalized_inv [OF Cons.prems(1) f(1)])
         (use f(2) running_not_winner [OF Cons.prems(1,2)] in \<open>simp_all add: owned_by_def\<close>)
    show "lease_row (pd_queue s1) l = Some (a, j)" using f(1) Cons.prems(2) by (auto simp: row_finalized_def)
    show "distinct (map pb_id ps)" using Cons.prems(4) by simp
    show "locked_row l s1 x" if "x \<in> set ps" for x
    proof (rule locked_row_other [OF f(1)])
      have "pb_id x \<in> pb_id ` set ps" using that by blast
      then show "pb_id x \<noteq> pb_id p" using Cons.prems(4) by auto
    qed (use Cons.prems(5) that in simp)
    show "?V y t" if "p_inv_except {l_attempt l} t \<and> rows_finalized (pb_id ` set ps) s1 t" for y t
      using that rows_finalized_step [OF f(1)] Cons.prems(4) by auto
  qed (use Cons.prems(3) in simp_all)
  have u: "strip (us n) \<noteq> []" using Cons.prems(3) [of n] by simp
  have lr: "locked_row l s p" using Cons.prems(5) by simp
  show ?case
    apply (simp only: finalize_rows.simps wp_lift wp_sbind, intro conjI allI impI TrueI)
    subgoal for m
      apply (rule wp_mono [OF insert_artifact_wp], simp)
      subgoal premises h for x s1
        apply (rule must_update_wp)
        subgoal premises w for old r s'
        proof -
          have s1: "s1 = s\<lparr>pd_artifacts := pd_artifacts s1\<rparr>" using h(2) by simp
          have old: "map_of (pd_publications s) (pb_id p) = Some old" using w(2) h(2) by simp
          have g: "guarded_row (clk n) s old (old\<lparr>pb_state := PUB_FINALIZED, pb_version := pb_version old + 1,
              pr_terminal_at := Some (clk n), pb_updated_at := clk n\<rparr>) r"
            using w(3) by (subst (asm) s1) (simp only: guarded_row_frame)
          have f: "row_finalized (pb_id p) (us n) \<lparr>pa_job = l_job l, pa_attempt = l_attempt l,
              pa_blob = the (pb_blob p), pa_kind = pb_kind p, pa_metadata = m, pa_publication = pb_id p\<rparr> old r s s' \<and>
              owned_by l old"
            by (rule row_finalizedI [OF lr u _ _ refl old g, where m = m]) (use h(2) w(4) in simp_all)
          show ?thesis using rest [OF conjunct1 [OF f] conjunct2 [OF f]] by simp
        qed
        by simp
      done
    done
qed

section \<open>Attempt and job succeed\<close>

definition won :: "int \<Rightarrow> lease \<Rightarrow> q_db \<Rightarrow> q_db" where
  "won t l q = (q_event_add (l_job l) (Some (l_attempt l)) ''job_succeeded''
     (q\<lparr>q_attempts := set_row (l_attempt l) (won_attempt t) (q_attempts q),
        q_workers := set_row (l_worker l) (\<lambda>w. w\<lparr>qw_state := W_READY\<rparr>) (q_workers q)\<rparr>))
     \<lparr>q_jobs := set_row (l_job l) (won_job l) (q_jobs q)\<rparr>"

lemma succeed_wp:
  "wp (\<lambda>e s'. True) (\<lambda>_ s'. s' = s\<lparr>pd_queue := won t l (pd_queue s)\<rparr> \<and>
       (\<exists>a j. lease_row (pd_queue s) l = Some (a, j) \<and> qj_cancel j = None)) (succeed t l s)"
  unfolding succeed_def must_def succeed_attempt_def succeed_job_def release_winner_def
  by (simp add: wp_simps) (auto simp: assert_current_eq won_def q_event_add_def)

lemma won_tables:
  assumes "lease_row q l = Some (a, j)"
  shows "map_of (q_attempts (won t l q)) = (map_of (q_attempts q))(l_attempt l \<mapsto> won_attempt t a)"
    "map_of (q_jobs (won t l q)) = (map_of (q_jobs q))(l_job l \<mapsto> won_job l j)"
    "map_of (q_workers (won t l q)) = (map_of (q_workers q))
       (l_worker l := map_option (\<lambda>w. w\<lparr>qw_state := W_READY\<rparr>) (map_of (q_workers q) (l_worker l)))"
    "q_events (won t l q) = q_events q @ [\<lparr>qe_job = l_job l, qe_attempt = Some (l_attempt l), qe_type = ''job_succeeded''\<rparr>]"
  using assms by (simp_all add: won_def map_of_set_row lease_row_eq) (simp add: q_event_add_def)

lemma won_inv:
  assumes "q_inv q" and row: "lease_row q l = Some (a, j)"
  shows "q_inv (won t l q)"
proof (rule closed_lease_inv [OF assms])
  show "lease_closed l (won_attempt t a) (won_job l j) q (won t l q)"
    by (simp add: lease_closed_def won_tables [OF row])
       (simp add: won_def next_attempt_no_set_row won_attempt_def keys_ok_def)
qed (simp_all add: closed_attempt_def closed_job_def won_attempt_def won_job_def qjob_ok_def)

lemma won_le:
  assumes "lease_row q l = Some (a, j)" "qj_cancel j = None"
  shows "q_le q (won t l q)"
  unfolding q_le_def won_tables [OF assms(1)]
proof (intro conjI grows_upd)
  show "map_of (q_jobs q) (l_job l) = Some j" "map_of (q_attempts q) (l_attempt l) = Some a"
    "qatt_le a (won_attempt t a)" "qjob_le j (won_job l j)"
    using assms by (simp_all add: lease_row_eq qatt_le_def won_attempt_def qjob_le_def won_job_def)
qed simp_all

lemma won_names:
  assumes "names_ok q" and row: "lease_row q l = Some (a, j)" shows "names_ok (won t l q)"
proof -
  have "same_names q (won t l q)"
    by (simp add: won_def same_names_def won_job_def map_snd_set_row)
  moreover have "l_job l \<in> fst ` set (q_jobs q)"
  proof -
    have "map_of (q_jobs q) (l_job l) = Some j" using row by (simp add: lease_row_eq)
    from map_of_SomeD [OF this] show ?thesis by (rule image_eqI [rotated]) simp
  qed
  moreover have "fst ` set (q_jobs (won t l q)) = fst ` set (q_jobs q)" by (simp add: won_def fst_set_row)
  ultimately show ?thesis
    using assms(1) unfolding names_ok_eq by (simp add: same_names_hold won_tables [OF row] success_log_def)
qed

lemma success_attempts_won:
  "success_attempts i (es @ [\<lparr>qe_job = k, qe_attempt = x, qe_type = ''job_succeeded''\<rparr>]) =
     success_attempts i es @ (if i = k then [x] else [])"
  by (simp add: success_attempts_def)

lemma won_winners:
  assumes inv: "p_inv_except {l_attempt l} s" and row: "lease_row (pd_queue s) l = Some (a, j)"
    and kinds: "finalized_kinds (pd_publications s) (l_attempt l) = set (qj_kinds j)"
  shows "winners_ok {} (won t l (pd_queue s)) (pd_publications s)"
  unfolding winners_ok_def
proof (intro conjI allI impI; (elim conjE)?)
  let ?q = "pd_queue s" and ?P = "pd_publications s"
  note I = p_invD [OF inv]
  have a: "map_of (q_attempts ?q) (l_attempt l) = Some a" "qa_job a = l_job l" "qa_epoch a = qj_epoch j"
    and j: "map_of (q_jobs ?q) (l_job l) = Some j" "qj_state j = RUNNING" using row by (auto simp: lease_row_eq)
  fix i r assume r: "map_of ?P i = Some r" "pb_state r = PUB_FINALIZED"
  show "\<exists>k. map_of (q_jobs (won t l ?q)) (pb_job r) = Some k \<and> qj_state k = SUCCEEDED \<and> qj_winning k = Some (pb_attempt r)"
  proof (cases "pb_attempt r = l_attempt l")
    case True
    then have "pb_job r = l_job l" using p_row [OF inv r(1)] a by (simp add: row_ok_def)
    then show ?thesis using True by (simp add: won_tables [OF row] won_job_def)
  next
    case False
    then obtain k where "map_of (q_jobs ?q) (pb_job r) = Some k" "qj_state k = SUCCEEDED" "qj_winning k = Some (pb_attempt r)"
      using winners_finalizedD [OF I(6) r] by auto
    then show ?thesis using j by (auto simp: won_tables [OF row])
  qed
next
  let ?q = "pd_queue s" and ?P = "pd_publications s"
  have a: "map_of (q_attempts ?q) (l_attempt l) = Some a" "qa_job a = l_job l" "qa_epoch a = qj_epoch j"
    and j: "map_of (q_jobs ?q) (l_job l) = Some j" "qj_state j = RUNNING" using row by (auto simp: lease_row_eq)
  fix i k assume k: "map_of (q_jobs (won t l ?q)) i = Some k"
  show "winner_ok (map_of (q_attempts (won t l ?q))) ?P (q_events (won t l ?q)) i k"
  proof (cases "i = l_job l")
    case True
    then have "k = won_job l j" using k by (simp add: won_tables [OF row])
    moreover have "success_attempts (l_job l) (q_events ?q) = []"
      using winners_jobD [OF p_invD(6) [OF inv] j(1)] j(2) by (simp add: winner_ok_def)
    ultimately show ?thesis
      using True a kinds
      by (simp add: winner_ok_def won_job_def won_tables [OF row] won_attempt_def success_attempts_won)
  next
    case False
    then have "map_of (q_jobs ?q) i = Some k" using k by (simp add: won_tables [OF row])
    then have w: "winner_ok (map_of (q_attempts ?q)) ?P (q_events ?q) i k"
      and no: "qj_state k = SUCCEEDED \<Longrightarrow> qj_winning k \<noteq> Some (l_attempt l)"
      using winners_jobD [OF p_invD(6) [OF inv]] running_not_winner [OF inv row] by blast+
    have ev: "success_attempts i (q_events (won t l ?q)) = success_attempts i (q_events ?q)"
      using False by (simp add: won_tables [OF row] success_attempts_won)
    show ?thesis
    proof (cases "qj_state k = SUCCEEDED")
      case True
      then obtain b where b: "qj_winning k = Some b" "b \<noteq> l_attempt l" using w no by (auto simp: winner_ok_def)
      with w True show ?thesis unfolding winner_ok_def ev won_tables(1) [OF row] by simp
    next
      case False
      with w show ?thesis unfolding winner_ok_def ev by simp
    qed
  qed
qed

lemma won_p_inv:
  assumes inv: "p_inv_except {l_attempt l} s" and row: "lease_row (pd_queue s) l = Some (a, j)"
    and kinds: "finalized_kinds (pd_publications s) (l_attempt l) = set (qj_kinds j)"
  shows "p_inv (s\<lparr>pd_queue := won t l (pd_queue s)\<rparr>)"
proof -
  note I = p_invD [OF inv]
  have "rows_ok (pd_blobs s) (map_of (q_attempts (won t l (pd_queue s)))) (pd_publications s)"
    by (rule rows_ok_attempts [OF I(3)])
       (use row in \<open>auto simp: won_tables [OF row] won_attempt_def lease_row_eq\<close>)
  then show ?thesis
    using I won_inv [OF I(1) row] won_names [OF I(2) row] won_winners [OF inv row kinds]
    by (simp add: p_inv_except_def)
qed

section \<open>The whole of finalization\<close>

lemma requested_rows_facts:
  assumes inv: "p_inv_except X s"
  shows "set (requested_rows ids s) = {r. \<exists>i \<in> set ids. map_of (pd_publications s) i = Some r}"
    "distinct (map pb_id (requested_rows ids s))"
    "records_of (requested_rows ids s) = Inr (map record_of (requested_rows ids s))"
proof -
  let ?xs = "sort_key fst (filter (\<lambda>(i, r). i \<in> set ids) (pd_publications s))"
  have d: "distinct (map fst (pd_publications s))" using p_invD(3) [OF inv] by (simp add: rows_ok_def)
  have mem: "(i, r) \<in> set ?xs \<longleftrightarrow> i \<in> set ids \<and> map_of (pd_publications s) i = Some r" for i r
    using d by auto
  show set: "set (requested_rows ids s) = {r. \<exists>i \<in> set ids. map_of (pd_publications s) i = Some r}"
    unfolding requested_rows_def using d by force
  have key: "pb_id r = i" if "(i, r) \<in> set ?xs" for i r
    using that p_row [OF inv, of i r] unfolding mem by (simp add: row_ok_def)
  have "map pb_id (requested_rows ids s) = map fst ?xs"
    unfolding requested_rows_def using key by (auto simp del: set_sort)
  moreover have "distinct (map fst ?xs)"
    using d unfolding distinct_map by (auto intro: inj_on_subset)
  ultimately show "distinct (map pb_id (requested_rows ids s))" by simp
  show "records_of (requested_rows ids s) = Inr (map record_of (requested_rows ids s))"
    by (rule records_of_ok) (use p_row [OF inv] from_row_ok in \<open>force simp: set\<close>)
qed

definition request_ready :: "lease \<Rightarrow> pub_db \<Rightarrow> publication \<Rightarrow> bool" where
  "request_ready l s q \<longleftrightarrow> (\<exists>r. map_of (pd_publications s) (pb_id q) = Some r \<and> pb_state r = PUB_VALIDATED \<and>
     pb_version r = pb_version q \<and> owned_by l r)"

definition requested_kinds :: "pub_db \<Rightarrow> publication list \<Rightarrow> artifact_kind set" where
  "requested_kinds s req = {k. \<exists>q \<in> set req. \<exists>r. map_of (pd_publications s) (pb_id q) = Some r \<and> pb_kind r = k}"

text \<open>What a finalization that does not raise has found and done.\<close>

definition finalized_by :: "int \<Rightarrow> int \<Rightarrow> lease \<Rightarrow> publication list \<Rightarrow> pub_db \<Rightarrow> pub_db \<Rightarrow> bool" where
  "finalized_by t t' l req s s' \<longleftrightarrow>
     (\<exists>a j. lease_row (pd_queue s) l = Some (a, j) \<and> unexpired t a \<and> qj_cancel j = None \<and>
        (\<forall>q \<in> set req. request_ready l s q) \<and> requested_kinds s req = set (qj_kinds j) \<and>
        length req = length (qj_kinds j) \<and>
        (\<forall>k. k \<notin> pb_id ` set req \<longrightarrow> map_of (pd_publications s') k = map_of (pd_publications s) k) \<and>
        (\<forall>k \<in> pb_id ` set req. \<exists>r. map_of (pd_publications s') k = Some r \<and> pb_state r = PUB_FINALIZED) \<and>
        pd_queue s' = won t' l (pd_queue s)) \<and> p_inv s' \<and> p_le s s'"

lemma finalized_kinds_after:
  assumes inv: "p_inv s" and inv1: "p_inv_except X s1" and row: "lease_row (pd_queue s) l = Some (a, j)"
    and f: "rows_finalized ids s s1" and own: "\<And>k. k \<in> ids \<Longrightarrow> \<exists>r. map_of (pd_publications s) k = Some r \<and> owned_by l r"
  shows "finalized_kinds (pd_publications s1) (l_attempt l) =
    {k. \<exists>i \<in> ids. \<exists>r. map_of (pd_publications s) i = Some r \<and> pb_kind r = k}"
proof -
  let ?P = "map_of (pd_publications s)" and ?P' = "map_of (pd_publications s1)"
  have d: "distinct (map fst (pd_publications s1))" using p_invD(3) [OF inv1] by (simp add: rows_ok_def)
  have none: "pb_attempt r \<noteq> l_attempt l" if r: "?P i = Some r" "pb_state r = PUB_FINALIZED" for i r
  proof
    assume eq: "pb_attempt r = l_attempt l"
    obtain k where "map_of (q_jobs (pd_queue s)) (pb_job r) = Some k" "qj_state k = SUCCEEDED" "qj_winning k = Some (pb_attempt r)"
      using winners_finalizedD [OF p_invD(6) [OF inv] r] by auto
    with running_not_winner [OF inv row] eq show False by metis
  qed
  have grown: "\<exists>r'. ?P' i = Some r' \<and> same_identity_row r r'" if "?P i = Some r" for i r
    using f that unfolding rows_finalized_def p_le_def grows_def pub_le_def by blast
  show ?thesis
    unfolding finalized_kinds_map [OF d]
  proof (intro set_eqI iffI; elim CollectE exE conjE bexE)
    fix k i r assume h: "k = pb_kind r" "?P' i = Some r" "pb_state r = PUB_FINALIZED" "pb_attempt r = l_attempt l"
    have i: "i \<in> ids"
    proof (rule ccontr)
      assume "i \<notin> ids"
      then have "?P i = Some r" using f h(2) by (simp add: rows_finalized_def)
      with none h(3,4) show False by blast
    qed
    obtain r0 where r0: "?P i = Some r0" using own [OF i] by blast
    with grown [OF r0] h(1,2) have "pb_kind r0 = k" by (auto simp: same_identity_row_def)
    with i r0 show "k \<in> {k. \<exists>i \<in> ids. \<exists>r. ?P i = Some r \<and> pb_kind r = k}" by blast
  next
    fix k i r assume h: "i \<in> ids" "?P i = Some r" "pb_kind r = k"
    obtain r' where r': "?P' i = Some r'" "same_identity_row r r'" using grown [OF h(2)] by blast
    moreover have "pb_state r' = PUB_FINALIZED" using f h(1) r'(1) by (auto simp: rows_finalized_def)
    moreover have "owned_by l r" using own [OF h(1)] h(2) by auto
    ultimately show "k \<in> {pb_kind r |i r. ?P' i = Some r \<and> pb_state r = PUB_FINALIZED \<and> pb_attempt r = l_attempt l}"
      using h(3) by (intro CollectI exI [of _ i] exI [of _ r']) (simp add: same_identity_row_def owned_by_def)
  qed
qed

lemma ready_set:
  assumes inv: "p_inv_except X s" and d: "distinct (map pb_id req)"
    and rows: "rows = requested_rows (map pb_id req) s" and len: "length rows = length req"
    and ok: "\<not> list_ex (stale_or_unvalidated l req) (map record_of rows)"
  shows "pb_id ` set rows = pb_id ` set req" and "\<And>q. q \<in> set req \<Longrightarrow> request_ready l s q"
    and "pb_kind ` set rows = requested_kinds s req" and "\<And>r. r \<in> set rows \<Longrightarrow> locked_row l s (record_of r)"
proof -
  note R = requested_rows_facts [OF inv, of "map pb_id req", folded rows]
  have id: "pb_id r = i" if "map_of (pd_publications s) i = Some r" for i r
    using p_row [OF inv that] by (simp add: row_ok_def)
  have sub: "pb_id ` set rows \<subseteq> pb_id ` set req" unfolding R(1) by (auto simp: id)
  have "card (pb_id ` set rows) = card (pb_id ` set req)"
    using R(2) d len distinct_card [of "map pb_id rows"] distinct_card [of "map pb_id req"] by simp
  then show ids: "pb_id ` set rows = pb_id ` set req" using sub by (simp add: card_subset_eq)
  have good: "map_of (pd_publications s) (pb_id r) = Some r \<and> pb_state r = PUB_VALIDATED \<and> owned_by l r \<and>
      map_of (map (\<lambda>q. (pb_id q, pb_version q)) req) (pb_id r) = Some (pb_version r)" if r: "r \<in> set rows" for r
  proof -
    have "map_of (pd_publications s) (pb_id r) = Some r" using r id unfolding R(1) by auto
    moreover have "\<not> stale_or_unvalidated l req (record_of r)" using ok r by (auto simp: list_ex_iff)
    ultimately show ?thesis by (auto simp: stale_or_unvalidated_def owned_by_def)
  qed
  have v: "map_of (map (\<lambda>q. (pb_id q, pb_version q)) req) (pb_id q) = Some (pb_version q)" if "q \<in> set req" for q
  proof -
    have "distinct (map fst (map (\<lambda>q. (pb_id q, pb_version q)) req))" using d by (simp add: comp_def)
    then show ?thesis using that by (intro map_of_is_SomeI) auto
  qed
  have found: "\<exists>r \<in> set rows. pb_id r = pb_id q" if "q \<in> set req" for q using ids that by (metis image_iff)
  show "request_ready l s q" if q: "q \<in> set req" for q
  proof -
    obtain r where "r \<in> set rows" "pb_id r = pb_id q" using found [OF q] by blast
    with good [of r] v [OF q] show ?thesis by (auto simp: request_ready_def)
  qed
  show "pb_kind ` set rows = requested_kinds s req"
    unfolding requested_kinds_def R(1) by (auto simp: image_iff)
  show "locked_row l s (record_of r)" if "r \<in> set rows" for r
    using good [OF that] by (auto simp: locked_row_def)
qed

lemma finalize_body_wp:
  assumes inv: "p_inv s" and d: "distinct (map pb_id req)" and us: "\<And>n. n < length req \<Longrightarrow> strip (us n) \<noteq> []"
  shows "wp (\<lambda>e s'. True) (\<lambda>_ s'. finalized_by t t' l req s s') (finalize_body jsonb t t2 clk t' us l req s)"
  unfolding finalize_body_def requested_rows_facts(3) [OF inv]
  apply (simp only: wp_lift, intro conjI allI impI TrueI)
  subgoal premises h for ks x current
  proof -
    let ?rows = "requested_rows (map pb_id req) s"
    have cur: "current = map record_of ?rows" using h(3) by simp
    obtain a j where row: "lease_row (pd_queue s) l = Some (a, j)" and ok: "unexpired t a" "qj_cancel j = None" "ks = qj_kinds j"
      using h(1) by (auto simp: lock_lease_eq)
    have inv': "p_inv_except {l_attempt l} s" using inv by (auto simp: p_inv_except_def winners_ok_def)
    let ?V = "\<lambda>_::unit. finalized_by t t' l req s"
    have main: "wp (\<lambda>e s'. True) ?V
        (sbind (finalize_rows jsonb clk 0 us l current) (\<lambda>_.
            succeed t' l) s)"
      if len: "length current = length req" and st: "\<not> list_ex (stale_or_unvalidated l req) current"
        and k: "set (map pb_kind current) = set ks" "length current = length ks"
    proof -
      note R = ready_set [OF inv d refl len [unfolded cur length_map] st [unfolded cur]]
      have own: "\<exists>r. map_of (pd_publications s) i = Some r \<and> owned_by l r" if "i \<in> pb_id ` set req" for i
        using that R(2) by (auto simp: request_ready_def)
      have kinds: "requested_kinds s req = set (qj_kinds j)" using R(3) k(1) ok(3) by (simp add: cur image_image)
      have ids: "pb_id ` set current = pb_id ` set req" using R(1) by (simp add: cur image_image)
      have step: "finalized_by t t' l req s (s1\<lparr>pd_queue := won t' l (pd_queue s1)\<rparr>)"
        if i1: "p_inv_except {l_attempt l} s1" and f: "rows_finalized (pb_id ` set req) s s1" for s1
      proof -
        have q: "pd_queue s1 = pd_queue s" using f by (simp add: rows_finalized_def)
        have "finalized_kinds (pd_publications s1) (l_attempt l) = set (qj_kinds j)"
          using finalized_kinds_after [OF inv i1 row f own] kinds by (simp add: requested_kinds_def)
        then have "p_inv (s1\<lparr>pd_queue := won t' l (pd_queue s1)\<rparr>)"
          using won_p_inv [OF i1, of a j] row q by simp
        moreover have "p_le s (s1\<lparr>pd_queue := won t' l (pd_queue s1)\<rparr>)"
          using f won_le [OF row ok(2)] by (simp add: rows_finalized_def p_le_def q)
        ultimately show ?thesis
          using f row ok R(2) kinds len k(2) by (simp add: finalized_by_def rows_finalized_def q)
      qed
      have tail: "wp (\<lambda>e s'. True) ?V (succeed t' l s1)"
        if "p_inv_except {l_attempt l} s1" "rows_finalized (pb_id ` set req) s s1" for s1
        by (rule wp_mono [OF succeed_wp]) (use step [OF that] in auto)
      have d': "distinct (map pb_id current)"
        using requested_rows_facts(2) [OF inv, of "map pb_id req"] by (simp add: cur comp_def)
      show ?thesis
        unfolding wp_sbind
        apply (rule wp_mono [OF finalize_rows_wp [OF inv' row _ d']])
        subgoal for k using us len by simp
        subgoal for p using R(4) by (auto simp: cur)
        subgoal by simp
        subgoal for y s1
          using tail [of s1] unfolding ids by simp
        done
    qed
    show ?thesis
      by (simp only: wp_if wp_fail, intro conjI impI TrueI main) auto
  qed
  done

section \<open>The winner\<close>

lemma key_of_not_blank: "strip (key_of h) \<noteq> []"
  by (simp add: strip_def key_of_def is_space_def code_def dropWhile_eq_Nil_conv)

lemma find_unique:
  assumes "x \<in> set xs" "distinct (map f xs)" shows "find (\<lambda>y. f y = f x) xs = Some x"
  using assms by (induction xs) auto

lemma artifact_facts:
  assumes inv: "p_inv_except X s" and a: "(i, a) \<in> set (pd_artifacts s)"
  obtains p b where "map_of (pd_publications s) (pa_publication a) = Some p" "proves a p" "strip i \<noteq> []"
    "row_ok (pd_blobs s) (map_of (q_attempts (pd_queue s))) (pa_publication a) p"
    "b \<in> set (pd_blobs s)" "blob_id b = pa_blob a" "blob_matches p b" "strip (blob_id b) \<noteq> []"
    "find (\<lambda>b. blob_id b = pa_blob a) (pd_blobs s) = Some b"
proof -
  note I = p_invD [OF inv]
  have "strip i \<noteq> [] \<and> (\<exists>r. map_of (pd_publications s) (pa_publication a) = Some r \<and> proves a r)"
    using I(5) a unfolding artifacts_ok_def by blast
  then obtain p where i: "strip i \<noteq> []" and p: "map_of (pd_publications s) (pa_publication a) = Some p" "proves a p" by blast
  have row: "row_ok (pd_blobs s) (map_of (q_attempts (pd_queue s))) (pa_publication a) p" by (rule p_row [OF inv p(1)])
  then obtain b where b: "b \<in> set (pd_blobs s)" "blob_matches p b" using p(2) by (auto simp: row_ok_def proves_def)
  have id: "blob_id b = pa_blob a" using b(2) p(2) by (simp add: blob_matches_def proves_def)
  have "strip (blob_id b) \<noteq> []" "find (\<lambda>y. blob_id y = pa_blob a) (pd_blobs s) = Some b"
    using I(4) b(1) find_unique [OF b(1), of blob_id, unfolded id] by (simp_all add: blobs_ok_def)
  with i p row b id that show thesis by blast
qed

text \<open>Which artifacts a reader sees: those of the winning attempt of a succeeded job.\<close>

definition winning :: "string \<Rightarrow> q_job \<Rightarrow> pub_artifact \<Rightarrow> bool" where
  "winning j job a \<longleftrightarrow> pa_job a = j \<and> qj_winning job = Some (pa_attempt a) \<and> qj_state job = SUCCEEDED"

lemma visible_row_eq:
  assumes inv: "p_inv_except X s" and a: "(i, a) \<in> set (pd_artifacts s)"
  shows "visible_row s j job (i, a) = None \<longleftrightarrow> \<not> winning j job a"
    and "visible_row s j job (i, a) = Some v \<Longrightarrow> new_VisibleArtifact v = Inr v \<and> va_id v = i \<and>
      va_publication v = pa_publication a \<and> va_job v = j \<and> va_attempt v = pa_attempt a \<and> va_kind v = pa_kind a \<and>
      va_storage_key v = key_of (va_sha256 v)"
proof -
  from artifact_facts [OF assms] obtain p b where
    p: "map_of (pd_publications s) (pa_publication a) = Some p" "proves a p" and i: "strip i \<noteq> []"
    and row: "row_ok (pd_blobs s) (map_of (q_attempts (pd_queue s))) (pa_publication a) p"
    and b: "blob_id b = pa_blob a" "blob_matches p b" "strip (blob_id b) \<noteq> []"
    and f: "find (\<lambda>b. blob_id b = pa_blob a) (pd_blobs s) = Some b" by metis
  have pv: "pb_state p = PUB_FINALIZED" "pb_job p = pa_job a" "pb_attempt p = pa_attempt a" "pb_blob p = Some (pa_blob a)"
    using p(2) by (simp_all add: proves_def)
  have bv: "blob_state b = BLOB_VERIFIED" "pb_observed_sha256 p = Some (blob_sha256 b)"
    "pb_observed_size p = Some (blob_size_bytes b)" "pb_observed_content_type p = Some (blob_content_type b)"
    "blob_storage_key b = key_of (blob_sha256 b)" using b(2) by (simp_all add: blob_matches_def)
  show "visible_row s j job (i, a) = None \<longleftrightarrow> \<not> winning j job a"
    using pv bv(1) by (auto simp: visible_row_def p f winning_def)
  assume v: "visible_row s j job (i, a) = Some v"
  have names: "strip (pa_publication a) \<noteq> []" "strip (pb_job p) \<noteq> []" "strip (pb_attempt p) \<noteq> []"
    "strip (pb_content_type p) \<noteq> []" "row_check p = Inr ()" using row by (simp_all add: row_ok_def)
  have "sql_sha256 (blob_sha256 b)" "0 \<le> blob_size_bytes b" "blob_content_type b = pb_content_type p"
    using names(5) bv by (simp_all add: row_check_def agree_def)
  then show "new_VisibleArtifact v = Inr v \<and> va_id v = i \<and>
      va_publication v = pa_publication a \<and> va_job v = j \<and> va_attempt v = pa_attempt a \<and> va_kind v = pa_kind a \<and>
      va_storage_key v = key_of (va_sha256 v)"
    using v names i b pv bv
    by (auto simp: visible_row_def p f new_VisibleArtifact_def after_eq_Inr checks_Cons_ok require_text_ok
        opt_sha256_ok opt_size_ok sql_sha256_ok key_of_not_blank split: if_splits)
qed

lemma visible_of_ok: "(\<And>v. v \<in> set vs \<Longrightarrow> new_VisibleArtifact v = Inr v) \<Longrightarrow> visible_of vs = Inr vs"
  by (induction vs) simp_all

lemma visible_rows_eq:
  assumes inv: "p_inv_except X s" and job: "map_of (q_jobs (pd_queue s)) j = Some job"
    and ns: "case ns of None \<Rightarrow> True | Some n \<Rightarrow> qj_namespace job = n"
  shows "set (visible_rows s j ns) = {v. \<exists>i a. (i, a) \<in> set (pd_artifacts s) \<and> visible_row s j job (i, a) = Some v}"
    "distinct (map va_id (visible_rows s j ns))"
    "sorted (map (artifact_kind_value \<circ> va_kind) (visible_rows s j ns))"
proof -
  let ?f = "visible_row s j job" and ?T = "pd_artifacts s"
  have v: "visible_rows s j ns = sort_key (artifact_kind_value \<circ> va_kind) (List.map_filter ?f ?T)"
    using job ns by (simp add: visible_rows_def split: option.splits)
  show "set (visible_rows s j ns) = {v. \<exists>i a. (i, a) \<in> set ?T \<and> ?f (i, a) = Some v}"
    unfolding v by (force simp: List.map_filter_def)
  show "sorted (map (artifact_kind_value \<circ> va_kind) (visible_rows s j ns))" unfolding v by (rule sorted_sort_key)
  have id: "va_id (the (?f x)) = fst x" if x: "x \<in> set ?T" "?f x \<noteq> None" for x
  proof -
    obtain i a where ia: "x = (i, a)" by (cases x)
    obtain v where "?f (i, a) = Some v" using x(2) ia by auto
    from visible_row_eq(2) [OF inv _ this] x(1) ia this show ?thesis by simp
  qed
  have "map va_id (List.map_filter ?f ?T) = map fst (filter (\<lambda>x. ?f x \<noteq> None) ?T)"
    unfolding List.map_filter_def using id by (auto simp: comp_def)
  moreover have "distinct (map fst ?T)" using p_invD(5) [OF inv] by (simp add: artifacts_ok_def)
  ultimately have "distinct (map va_id (List.map_filter ?f ?T))" by (simp add: distinct_map_filter)
  then show "distinct (map va_id (visible_rows s j ns))" unfolding v distinct_map by simp
qed

lemma visible_winner_eq:
  assumes inv: "p_inv_except X s"
  shows "visible_winner j ns s = (Inr (visible_rows s j ns), s)"
proof -
  have "new_VisibleArtifact v = Inr v" if v: "v \<in> set (visible_rows s j ns)" for v
  proof -
    obtain job where job: "map_of (q_jobs (pd_queue s)) j = Some job"
      using v by (cases "map_of (q_jobs (pd_queue s)) j") (simp_all add: visible_rows_def)
    have ns: "case ns of None \<Rightarrow> True | Some n \<Rightarrow> qj_namespace job = n"
      by (rule ccontr) (use v job in \<open>simp add: visible_rows_def\<close>)
    show ?thesis using v visible_row_eq(2) [OF inv] unfolding visible_rows_eq(1) [OF inv job ns] by blast
  qed
  then show ?thesis by (simp add: visible_winner_def visible_of_ok lift_def ok_def)
qed

lemma pub_finalize_all_or_nothing:
  assumes inv: "p_inv s" and us: "\<And>n. n < length req \<Longrightarrow> strip (us n) \<noteq> []"
  shows "wp (\<lambda>e s'. s' = s) (\<lambda>vs s'. finalized_by t t' l req s s' \<and> vs = visible_rows s' (l_job l) None)
     (pub_finalize jsonb t t2 clk t' us l req s)"
  unfolding pub_finalize_def
  apply (simp only: wp_if wp_fail wp_sbind wp_transaction, intro conjI impI refl)
  apply (rule wp_mono [OF finalize_body_wp [OF inv _ us]])
    apply (simp_all add: finalized_by_def)
  apply (elim conjE)
  apply (simp add: visible_winner_eq wp_simps)
  done

lemma visible_winner_kinds:
  assumes inv: "p_inv s" and job: "map_of (q_jobs (pd_queue s)) j = Some job"
    and ns: "case ns of None \<Rightarrow> True | Some n \<Rightarrow> qj_namespace job = n" and won: "qj_state job = SUCCEEDED"
  shows "va_kind ` set (visible_rows s j ns) = set (qj_kinds job)" "distinct (map va_kind (visible_rows s j ns))"
proof -
  note I = p_invD [OF inv] and V = visible_rows_eq [OF inv job ns]
  obtain w att where w: "qj_winning job = Some w" and att: "map_of (q_attempts (pd_queue s)) w = Some att" "qa_job att = j"
    and kinds: "finalized_kinds (pd_publications s) w = set (qj_kinds job)"
    using winners_jobD [OF I(6) job] won by (auto simp: winner_ok_def)
  have d: "distinct (map fst (pd_publications s))" using I(3) by (simp add: rows_ok_def)
  have seen: "\<exists>i a p. (i, a) \<in> set (pd_artifacts s) \<and> winning j job a \<and>
      va_id v = i \<and> va_kind v = pa_kind a \<and> map_of (pd_publications s) (pa_publication a) = Some p \<and> proves a p"
    if v: "v \<in> set (visible_rows s j ns)" for v
  proof -
    obtain i a where a: "(i, a) \<in> set (pd_artifacts s)" "visible_row s j job (i, a) = Some v" using v unfolding V(1) by blast
    from artifact_facts [OF inv a(1)] obtain p where "map_of (pd_publications s) (pa_publication a) = Some p" "proves a p" by metis
    moreover have "winning j job a" using visible_row_eq(1) [OF inv a(1), of j job] a(2) by simp
    ultimately show ?thesis using a(1) visible_row_eq(2) [OF inv a] by blast
  qed
  show "va_kind ` set (visible_rows s j ns) = set (qj_kinds job)"
    unfolding kinds [symmetric] finalized_kinds_map [OF d]
  proof (intro set_eqI iffI)
    fix k assume "k \<in> va_kind ` set (visible_rows s j ns)"
    then show "k \<in> {pb_kind r |i r. map_of (pd_publications s) i = Some r \<and> pb_state r = PUB_FINALIZED \<and> pb_attempt r = w}"
      using seen w by (force simp: winning_def proves_def)
  next
    fix k assume "k \<in> {pb_kind r |i r. map_of (pd_publications s) i = Some r \<and> pb_state r = PUB_FINALIZED \<and> pb_attempt r = w}"
    then obtain i r where r: "k = pb_kind r" "map_of (pd_publications s) i = Some r" "pb_state r = PUB_FINALIZED" "pb_attempt r = w"
      by blast
    then have "i \<in> (pa_publication \<circ> snd) ` set (pd_artifacts s)" using I(5) unfolding artifacts_ok_def by blast
    then obtain u a where a: "(u, a) \<in> set (pd_artifacts s)" "pa_publication a = i" by auto
    from artifact_facts [OF inv a(1)] obtain p where "map_of (pd_publications s) (pa_publication a) = Some p" "proves a p" by metis
    then have pr: "proves a r" using r(2) a(2) by simp
    have "pb_job r = j" using p_row [OF inv r(2)] r(4) att by (simp add: row_ok_def)
    then have "winning j job a" using pr r(4) w won by (simp add: winning_def proves_def)
    then obtain v where v: "visible_row s j job (u, a) = Some v" using visible_row_eq(1) [OF inv a(1), of j job] by auto
    then have "va_kind v = k" using visible_row_eq(2) [OF inv a(1) v] pr r(1) by (simp add: proves_def)
    moreover have "v \<in> set (visible_rows s j ns)" unfolding V(1) using a(1) v by blast
    ultimately show "k \<in> va_kind ` set (visible_rows s j ns)" by blast
  qed
  have "va_id v = va_id v'"
    if v: "v \<in> set (visible_rows s j ns)" "v' \<in> set (visible_rows s j ns)" "va_kind v = va_kind v'" for v v'
  proof -
    obtain i a p where a: "(i, a) \<in> set (pd_artifacts s)" "winning j job a" "va_id v = i" "va_kind v = pa_kind a"
      "map_of (pd_publications s) (pa_publication a) = Some p" "proves a p" using seen [OF v(1)] by blast
    obtain i' a' p' where a': "(i', a') \<in> set (pd_artifacts s)" "winning j job a'" "va_id v' = i'" "va_kind v' = pa_kind a'"
      "map_of (pd_publications s) (pa_publication a') = Some p'" "proves a' p'" using seen [OF v(2)] by blast
    have "pb_attempt p = pb_attempt p'" "pb_kind p = pb_kind p'"
      using a a' v(3) by (simp_all add: winning_def proves_def)
    then have "pa_publication a = pa_publication a'"
      using a(5) a'(5) I(3) unfolding rows_ok_def by blast
    moreover have inj: "inj_on (pa_publication \<circ> snd) (set (pd_artifacts s))"
      using I(5) by (simp add: artifacts_ok_def distinct_map)
    ultimately have "(i, a) = (i', a')" by (intro inj_onD [OF inj _ a(1) a'(1)]) simp
    then show ?thesis using a(3) a'(3) by simp
  qed
  moreover have "distinct (visible_rows s j ns)" "inj_on va_id (set (visible_rows s j ns))"
    using V(2) by (simp_all add: distinct_map)
  ultimately show "distinct (map va_kind (visible_rows s j ns))"
    unfolding distinct_map by (auto intro!: inj_onI dest: inj_onD)
qed

lemma visible_winner_none:
  assumes inv: "p_inv_except X s" and job: "map_of (q_jobs (pd_queue s)) j = Some job" and won: "qj_state job \<noteq> SUCCEEDED"
  shows "visible_rows s j ns = []"
proof -
  have "List.map_filter (visible_row s j job) (pd_artifacts s) = []"
    using visible_row_eq(1) [OF inv] won by (auto simp: List.map_filter_def filter_empty_conv winning_def)
  then show ?thesis using job by (simp add: visible_rows_def)
qed

end
