(* ===== verification/PublicationMachine.thy ===== *)
theory PublicationMachine
  imports PublicationFinal
begin

text \<open>
  The publication repository and the lease queue as one machine on the shared tables: every
  operation, whether it returns or raises, keeps the invariant and moves the tables forward. An
  attempt that has ended is fenced out of the ledger for ever.
\<close>

section \<open>Steps\<close>

datatype pub_op =
    PQueue q_op
  | PBlob blob_record
  | PReserve "pyval \<Rightarrow> pyval res" int int string lease publication_spec
  | PRecordObject int int lease string int string int
  | PRecordValidated "pyval \<Rightarrow> pyval res" int int lease string int blob_record pyval
  | PReject int int lease string int string
  | PAbandon int int string int string
  | PFinalize "pyval \<Rightarrow> pyval res" int int "nat \<Rightarrow> int" int "nat \<Rightarrow> string" lease "publication list"
  | PCleanup int string int

fun p_step :: "pub_op \<Rightarrow> pub_db \<Rightarrow> pub_db" where
  "p_step (PQueue x) s = s\<lparr>pd_queue := q_step x (pd_queue s)\<rparr>"
| "p_step (PBlob b) s = snd (insert_blob b s)"
| "p_step (PReserve f t t' u l sp) s = snd (reserve f t t' u l sp s)"
| "p_step (PRecordObject t t' l i v h n) s = snd (record_object t t' l i v h n s)"
| "p_step (PRecordValidated f t t' l i v b m) s = snd (record_validated f t t' l i v b m s)"
| "p_step (PReject t t' l i v reason) s = snd (pub_reject t t' l i v reason s)"
| "p_step (PAbandon t t' i v reason) s = snd (pub_abandon t t' i v reason s)"
| "p_step (PFinalize f t t2 clk t' us l req) s = snd (pub_finalize f t t2 clk t' us l req s)"
| "p_step (PCleanup t i v) s = snd (record_cleanup t i v s)"

text \<open>
  What the environment promises: identifiers are drawn as UUIDs and not blank, a specification has
  passed its constructor. Nothing is promised about the clock or about what a caller asks for.
\<close>

fun p_guard :: "pub_op \<Rightarrow> pub_db \<Rightarrow> bool" where
  "p_guard (PQueue x) s = (q_guard x (pd_queue s) \<and> named_op x)"
| "p_guard (PBlob b) s = (strip (blob_id b) \<noteq> [])"
| "p_guard (PReserve f t t' u l sp) s = (strip u \<noteq> [] \<and> new_PublicationSpec sp = Inr sp)"
| "p_guard (PRecordValidated f t t' l i v b m) s = (strip (blob_id b) \<noteq> [])"
| "p_guard (PFinalize f t t2 clk t' us l req) s = list_all (\<lambda>n. strip (us n) \<noteq> []) [0..<length req]"
| "p_guard _ s = True"

section \<open>One step\<close>

lemma blob_registered_step: "blob_registered b s s1 \<Longrightarrow> moved_quietly i old r s1 s' \<Longrightarrow> ledger_step s s'"
  unfolding blob_registered_def ledger_step_def by blast

lemma wp_ledger:
  assumes "wp X V p" and "\<And>e s'. X e s' \<Longrightarrow> ledger_step s s'" and "\<And>a s'. V a s' \<Longrightarrow> ledger_step s s'"
  shows "ledger_step s (snd p)"
  unfolding wp_state [symmetric, where P = "ledger_step s"] by (rule wp_mono [OF assms])

lemma moved_ledger: "moved_quietly i old r s s' \<Longrightarrow> ledger_step s s'"
  unfolding ledger_step_def by blast

lemma ledger_steps:
  assumes inv: "p_inv s"
  shows "ledger_step s (snd (record_object t t' l i v h n s))"
    and "ledger_step s (snd (pub_reject t t' l i v reason s))"
    and "ledger_step s (snd (pub_abandon t t' i v reason s))"
    and "ledger_step s (snd (record_cleanup t i v s))"
    and "strip u \<noteq> [] \<Longrightarrow> new_PublicationSpec sp = Inr sp \<Longrightarrow> ledger_step s (snd (reserve f t t' u l sp s))"
    and "strip (blob_id b) \<noteq> [] \<Longrightarrow> ledger_step s (snd (record_validated f t t' l i v b m s))"
proof -
  show "ledger_step s (snd (record_object t t' l i v h n s))"
    by (rule wp_ledger [OF record_object_wp [OF inv]]) (auto simp: cas_moved_def intro: moved_ledger)
  show "ledger_step s (snd (pub_reject t t' l i v reason s))"
    by (rule wp_ledger [OF pub_reject_wp [OF inv]]) (auto simp: cas_moved_def intro: moved_ledger)
  show "ledger_step s (snd (pub_abandon t t' i v reason s))"
    by (rule wp_ledger [OF pub_abandon_wp [OF inv]])
       (auto simp: stale_marked_def abandoned_row_def intro: moved_ledger)
  show "ledger_step s (snd (record_cleanup t i v s))"
    by (rule wp_ledger [OF record_cleanup_wp [OF inv]]) (auto intro: moved_ledger)
  show "ledger_step s (snd (reserve f t t' u l sp s))" if "strip u \<noteq> []" "new_PublicationSpec sp = Inr sp"
    by (rule wp_ledger [OF reserve_wp [OF inv that]]) (auto simp: ledger_step_def)
  show "ledger_step s (snd (record_validated f t t' l i v b m s))" if "strip (blob_id b) \<noteq> []"
    by (rule wp_ledger [OF record_validated_wp [OF inv that]]) (auto intro: blob_registered_step)
qed

lemma insert_blob_registered:
  assumes "p_inv_except X s" "strip (blob_id b) \<noteq> []" shows "blob_registered b s (snd (insert_blob b s))"
  unfolding wp_state [symmetric, where P = "blob_registered b s"]
  by (rule wp_mono [OF insert_blob_wp [OF assms]]) (simp_all add: blob_registered_def)

lemma p_step_sound:
  assumes inv: "p_inv s" and g: "p_guard x s"
  shows "p_inv (p_step x s) \<and> p_le s (p_step x s)"
proof -
  have L: "p_inv s' \<and> p_le s s'" if "ledger_step s s'" for s'
    using ledger_step_inv [OF inv that] ledger_step_le [OF that] by blast
  show ?thesis
  proof (cases x)
    case (PQueue y)
    then show ?thesis using g queue_step_inv [OF inv] queue_step_le [OF inv] by simp
  next
    case (PBlob b)
    then show ?thesis
      using insert_blob_registered [OF inv, of b] g
      by (auto simp: blob_registered_def inv intro: blob_added_inv [OF inv] blob_added_le)
  next
    case (PFinalize f t t2 clk t' us l req)
    then have "\<And>n. n < length req \<Longrightarrow> strip (us n) \<noteq> []" using g by (simp add: list_all_iff)
    from pub_finalize_all_or_nothing [OF inv this]
    have "wp (\<lambda>e s'. p_inv s' \<and> p_le s s') (\<lambda>_ s'. p_inv s' \<and> p_le s s') (pub_finalize f t t2 clk t' us l req s)"
      by (rule wp_mono) (simp_all add: finalized_by_def inv)
    then show ?thesis unfolding wp_state [where P = "\<lambda>s'. p_inv s' \<and> p_le s s'"] by (simp add: PFinalize)
  qed (use g in \<open>simp_all add: L ledger_steps [OF inv]\<close>)
qed

section \<open>Runs\<close>

interpretation pub_machine: monotone_machine p_step p_guard p_inv p_le
  by unfold_locales (auto simp: p_step_sound intro: p_le_trans)

definition p_lease_holds :: "pub_db \<Rightarrow> lease \<Rightarrow> bool" where
  "p_lease_holds s l = lease_holds (pd_queue s) l"

definition p_lease_over :: "pub_db \<Rightarrow> lease \<Rightarrow> bool" where
  "p_lease_over s l = lease_over (pd_queue s) l"

lemma p_lease_over_le: "p_le s t \<Longrightarrow> p_lease_over s l \<Longrightarrow> p_lease_over t l"
  by (fastforce simp: p_lease_over_def lease_over_def p_le_def q_le_def qatt_le_def grows_def)

interpretation pub_fence: fencing p_step p_guard p_inv p_lease_holds p_lease_over
proof
  fix s x l assume "p_inv s" "p_guard x s" "p_lease_over s l"
  then show "p_lease_over (p_step x s) l" using p_step_sound p_lease_over_le by blast
qed (simp add: p_lease_over_def p_lease_holds_def lease_over_not_holds)

definition p_run :: "pub_op list \<Rightarrow> pub_db \<Rightarrow> pub_db option" where
  "p_run = guarded_run p_step p_guard"

lemma p_run_inv: "p_run ops empty_pub_db = Some s \<Longrightarrow> p_inv s"
  unfolding p_run_def by (rule pub_machine.run_inv [OF _ p_inv_empty])

lemma p_run_inv': "p_run ops s = Some t \<Longrightarrow> p_inv s \<Longrightarrow> p_inv t"
  unfolding p_run_def by (rule pub_machine.run_inv)

lemma p_run_le: "p_run ops s = Some t \<Longrightarrow> p_inv s \<Longrightarrow> p_le s t"
  unfolding p_run_def by (rule pub_machine.run_le)

lemma p_run_over: "p_run ops s = Some t \<Longrightarrow> p_inv s \<Longrightarrow> p_lease_over s l \<Longrightarrow> p_lease_over t l"
  unfolding p_run_def by (rule pub_fence.run_ended)

lemma p_run_fenced: "p_run ops s = Some t \<Longrightarrow> p_inv s \<Longrightarrow> p_lease_over s l \<Longrightarrow> \<not> p_lease_holds t l"
  unfolding p_run_def by (rule pub_fence.fenced_forever)

lemma lock_lease_holds: "lock_lease t l s = Inr ks \<Longrightarrow> p_lease_holds s l"
  by (auto simp: lock_lease_eq p_lease_holds_def lease_holds_def)

end
