(* ===== verification/PublicationReturn.thy ===== *)
theory PublicationReturn
  imports PublicationMachine
begin

text \<open>
  When finalization returns: the lease stays current, the requested rows are VALIDATED at the given
  versions with exactly the required kinds, none is stale, and the drawn identifiers are new. Then the
  triggers, checks and unique indexes of the ledger, the artifacts, the attempts, the events and the
  jobs accept every statement, and the deferred ones accept the commit. Reserving again returns the row
  that is there.
\<close>

section \<open>One publication\<close>

lemma finalize_row_passes:
  assumes row: "row_ok (pd_blobs s) A i old" and old: "pb_state old = PUB_VALIDATED" "pb_stale_since old = None"
    and current: "publication_current t (pd_queue s) old"
    and new: "new = old\<lparr>pb_state := PUB_FINALIZED, pb_version := pb_version old + 1, pr_terminal_at := Some t,
      pb_updated_at := t\<rparr>"
  shows "guarded_row t s old new new"
proof -
  have del: "pb_deleted_at old = None" using row old by (auto simp: row_ok_def row_check_def pub_terminal_def)
  have "publication_current t (pd_queue s) new = publication_current t (pd_queue s) old"
    by (rule publication_current_owned) (simp_all add: new)
  then have lg: "lease_guard t s (Some old) new = Inr new"
    using current old by (simp add: lease_guard_def new pub_terminal_def Let_def)
  have tg: "transition_guard t old new = Inr new"
    using old del by (simp add: transition_guard_def new pub_terminal_def same_identity_row_def transition_allowed_def)
  obtain b where b: "b \<in> set (pd_blobs s)" "blob_matches old b" using row old by (auto simp: row_ok_def)
  then have "blob_guard s new = Inr ()" by (auto simp: blob_guard_ok blob_matches_def new)
  moreover have "attempt_object_key new = attempt_object_key old" by (simp add: attempt_object_key_def new)
  then have "row_check new = Inr ()"
    using row old del by (simp add: row_ok_def row_check_def new state_shape_def Let_def pub_terminal_def)
  ultimately show ?thesis using lg tg by (auto simp: guarded_row_def)
qed

lemma update_publication_eq:
  assumes "map_of (pd_publications s) i = Some old" "cond old" "guarded_row t s old (f old) r"
  shows "update_publication t i cond f s = (Inr True, s\<lparr>pd_publications := set_row i (\<lambda>_. r) (pd_publications s)\<rparr>)"
  using assms by (auto simp: update_publication_def guarded_row_def lift_def ok_def)

lemma insert_artifact_eq:
  assumes inv: "p_inv_except X s" and row: "lease_row (pd_queue s) l = Some (a, j)" and p: "locked_row l s p"
    and u: "u \<notin> fst ` set (pd_artifacts s)"
    and c: "c = \<lparr>pa_job = l_job l, pa_attempt = l_attempt l, pa_blob = the (pb_blob p), pa_kind = pb_kind p,
       pa_metadata = m, pa_publication = pb_id p\<rparr>"
  shows "insert_artifact u c s = (Inr (), s\<lparr>pd_artifacts := add_row u c (pd_artifacts s)\<rparr>)"
proof -
  obtain r where r: "map_of (pd_publications s) (pb_id p) = Some r" "p = record_of r" "owned_by l r" "pb_state r = PUB_VALIDATED"
    using p by (auto simp: locked_row_def)
  obtain b where "b \<in> set (pd_blobs s)" "blob_matches r b" using p_row [OF inv r(1)] r(4) by (auto simp: row_ok_def)
  then have blob: "list_ex (\<lambda>b. blob_id b = pa_blob c \<and> blob_state b = BLOB_VERIFIED) (pd_blobs s)"
    using r(2) by (auto simp: list_ex_iff blob_matches_def c)
  have "map_of (q_jobs (pd_queue s)) (pa_job c) = Some j" "qj_state j = RUNNING" using row by (simp_all add: lease_row_eq c)
  moreover have "\<not> (x = u \<or> pa_publication z = pa_publication c \<or> pa_attempt z = pa_attempt c \<and> pa_kind z = pa_kind c)"
    if z: "(x, z) \<in> set (pd_artifacts s)" for x z
  proof -
    from artifact_facts [OF inv z] obtain q where q: "map_of (pd_publications s) (pa_publication z) = Some q" "proves z q" by metis
    have "pa_publication z \<noteq> pb_id p" using q r by (auto simp: proves_def)
    moreover have "pa_publication z = pb_id p" if "pa_attempt z = l_attempt l" "pa_kind z = pb_kind p"
    proof -
      have "pb_attempt q = pb_attempt r" "pb_kind q = pb_kind r"
        using q(2) r(2,3) that by (simp_all add: proves_def owned_by_def)
      then show ?thesis using p_invD(3) [OF inv] q(1) r(1) unfolding rows_ok_def by blast
    qed
    ultimately show ?thesis using u z by (force simp: c)
  qed
  then have "\<not> list_ex (\<lambda>(i, x). i = u \<or> pa_publication x = pa_publication c \<or>
       pa_attempt x = pa_attempt c \<and> pa_kind x = pa_kind c) (pd_artifacts s)"
    by (auto simp: list_ex_iff)
  ultimately show ?thesis using blob by (simp add: insert_artifact_def ok_def)
qed

section \<open>All of them\<close>

definition returns :: "'a res \<times> 's \<Rightarrow> bool" where
  "returns p = wp (\<lambda>_ _. False) (\<lambda>_ _. True) p"

lemma returns_eq: "returns p \<longleftrightarrow> (\<exists>a s. p = (Inr a, s))"
  by (cases p; cases "fst p") (auto simp: returns_def wp_def)

lemma returns_ok [simp]: "returns (ok a s)"
  by (simp add: returns_def wp_simps)

lemma returns_lift: "r = Inr a \<Longrightarrow> returns (k a) \<Longrightarrow> returns (lift r s k)"
  by (simp add: lift_def)

lemma returns_sbind: "m s = (Inr a, s') \<Longrightarrow> returns (k a s') \<Longrightarrow> returns (sbind m k s)"
  by (simp add: sbind_def)

lemma returns_sbind_wp:
  assumes "returns (m s)" "wp X V (m s)" "\<And>a s'. V a s' \<Longrightarrow> returns (k a s')"
  shows "returns (sbind m k s)"
proof -
  obtain a s' where "m s = (Inr a, s')" using assms(1) by (auto simp: returns_eq)
  then show ?thesis using assms(2,3) by (auto simp: returns_sbind wp_def)
qed

lemma finalize_rows_returns:
  assumes "p_inv_except {l_attempt l} s" and "lease_row (pd_queue s) l = Some (a, j)"
    and "\<And>k. n \<le> k \<Longrightarrow> k < n + length ps \<Longrightarrow>
      strip (us k) \<noteq> [] \<and> us k \<notin> fst ` set (pd_artifacts s) \<and> assert_current (clk k) l (pd_queue s) = Inr ()"
    and "inj_on us {n..<n + length ps}" and "distinct (map pb_id ps)"
    and "\<And>p. p \<in> set ps \<Longrightarrow> locked_row l s p \<and> pb_stale_since p = None \<and> (\<exists>m. jsonb (pb_metadata p) = Inr m)"
  shows "returns (finalize_rows jsonb clk n us l ps s)"
  using assms
proof (induction ps arbitrary: n s)
  case (Cons p ps)
  obtain old where old: "map_of (pd_publications s) (pb_id p) = Some old" "p = record_of old" "owned_by l old"
      "pb_state old = PUB_VALIDATED" and st: "pb_stale_since old = None"
    using Cons.prems(6) [of p] by (auto simp: locked_row_def)
  obtain m where m: "jsonb (pb_metadata p) = Inr m" using Cons.prems(6) [of p] by auto
  have lr: "locked_row l s p" using Cons.prems(6) by simp
  have u: "strip (us n) \<noteq> []" "us n \<notin> fst ` set (pd_artifacts s)" "assert_current (clk n) l (pd_queue s) = Inr ()"
    using Cons.prems(3) [of n] by simp_all
  let ?c = "\<lparr>pa_job = l_job l, pa_attempt = l_attempt l, pa_blob = the (pb_blob p), pa_kind = pb_kind p,
       pa_metadata = m, pa_publication = pb_id p\<rparr>"
  let ?r = "old\<lparr>pb_state := PUB_FINALIZED, pb_version := pb_version old + 1, pr_terminal_at := Some (clk n),
       pb_updated_at := clk n\<rparr>"
  let ?s1 = "s\<lparr>pd_artifacts := add_row (us n) ?c (pd_artifacts s)\<rparr>"
  let ?s2 = "s\<lparr>pd_artifacts := add_row (us n) ?c (pd_artifacts s),
       pd_publications := set_row (pb_id p) (\<lambda>_. ?r) (pd_publications s)\<rparr>"
  have "publication_current (clk n) (pd_queue s) old"
    using u(3) old(3) by (simp add: publication_current_def lease_of_publication_def owned_by_def assert_current_eq lease_row_eq)
  then have g: "guarded_row (clk n) s old ?r ?r" by (rule finalize_row_passes [OF p_row [OF Cons.prems(1) old(1)] old(4) st _ refl])
  have new: "pb_id p \<notin> (pa_publication \<circ> snd) ` set (pd_artifacts s)"
  proof
    assume "pb_id p \<in> (pa_publication \<circ> snd) ` set (pd_artifacts s)"
    then obtain x z where z: "(x, z) \<in> set (pd_artifacts s)" "pa_publication z = pb_id p" by auto
    from artifact_facts [OF Cons.prems(1) z(1)] obtain q where "map_of (pd_publications s) (pa_publication z) = Some q" "proves z q" by metis
    then show False using z(2) old by (simp add: proves_def)
  qed
  have f: "row_finalized (pb_id p) (us n) ?c old ?r s ?s2 \<and> owned_by l old"
    by (rule row_finalizedI [OF lr u(1,2) new refl old(1) g refl])
  have "returns (finalize_rows jsonb clk (Suc n) us l ps ?s2)"
  proof (rule Cons.IH)
    show "p_inv_except {l_attempt l} ?s2"
      by (rule row_finalized_inv [OF Cons.prems(1) conjunct1 [OF f]])
         (use f running_not_winner [OF Cons.prems(1,2)] in \<open>simp_all add: owned_by_def\<close>)
    show "lease_row (pd_queue ?s2) l = Some (a, j)" using Cons.prems(2) by simp
    show "strip (us k) \<noteq> [] \<and> us k \<notin> fst ` set (pd_artifacts ?s2) \<and> assert_current (clk k) l (pd_queue ?s2) = Inr ()"
      if k: "Suc n \<le> k" "k < Suc n + length ps" for k
    proof -
      have "us k \<noteq> us n" using inj_onD [OF Cons.prems(4), of k n] k by auto
      then show ?thesis using Cons.prems(3) [of k] k by (simp add: add_row_def)
    qed
    show "inj_on us {Suc n..<Suc n + length ps}" by (rule inj_on_subset [OF Cons.prems(4)]) auto
    show "distinct (map pb_id ps)" using Cons.prems(5) by simp
    show "locked_row l ?s2 x \<and> pb_stale_since x = None \<and> (\<exists>m. jsonb (pb_metadata x) = Inr m)" if x: "x \<in> set ps" for x
    proof -
      have "pb_id x \<in> pb_id ` set ps" using x by blast
      then have "pb_id x \<noteq> pb_id p" using Cons.prems(5) by auto
      then show ?thesis using locked_row_other [OF conjunct1 [OF f]] Cons.prems(6) x by simp
    qed
  qed
  moreover have "must (update_publication (clk n) (pb_id p) (\<lambda>r. pb_state r = PUB_VALIDATED \<and> pb_version r = pb_version p)
              (\<lambda>r. r\<lparr>pb_state := PUB_FINALIZED, pb_version := pb_version r + 1,
                     pr_terminal_at := Some (clk n), pb_updated_at := clk n\<rparr>)) c w ?s1 = (Inr (), ?s2)" for c w
    using update_publication_eq [of ?s1 "pb_id p" old] old g
    by (simp add: must_def sbind_def ok_def)
  ultimately show ?case
    using insert_artifact_eq [OF Cons.prems(1,2) lr u(2) refl]
    by (auto intro!: returns_lift [OF m] returns_sbind)
qed simp

section \<open>Finalization returns\<close>

text \<open>What the caller has to bring: the requested rows, the clock readings and the drawn identifiers.\<close>

definition finalize_ready ::
  "(pyval \<Rightarrow> pyval res) \<Rightarrow> int \<Rightarrow> int \<Rightarrow> (nat \<Rightarrow> int) \<Rightarrow> int \<Rightarrow> (nat \<Rightarrow> string) \<Rightarrow> lease \<Rightarrow> publication list
     \<Rightarrow> pub_db \<Rightarrow> bool"
where
  "finalize_ready jsonb t t2 clk t' us l req s \<longleftrightarrow>
     req \<noteq> [] \<and> distinct (map pb_id req) \<and>
     (\<forall>q \<in> set req. request_ready l s q \<and>
        (\<forall>r. map_of (pd_publications s) (pb_id q) = Some r \<longrightarrow>
           pb_stale_since r = None \<and> (\<exists>m. jsonb (pb_metadata r) = Inr m))) \<and>
     (\<exists>j. map_of (q_jobs (pd_queue s)) (l_job l) = Some j \<and> requested_kinds s req = set (qj_kinds j) \<and>
        length req = length (qj_kinds j)) \<and>
     (\<forall>x \<in> {t, t2, t'} \<union> clk ` {..<length req}. assert_current x l (pd_queue s) = Inr ()) \<and>
     inj_on us {..<length req} \<and>
     (\<forall>k < length req. strip (us k) \<noteq> [] \<and> us k \<notin> fst ` set (pd_artifacts s))"

lemma requested_all:
  assumes inv: "p_inv_except X s" and d: "distinct (map pb_id req)"
    and ready: "\<forall>q \<in> set req. request_ready l s q" and rows: "rows = requested_rows (map pb_id req) s"
  shows "pb_id ` set rows = pb_id ` set req" "length rows = length req"
    "\<not> list_ex (stale_or_unvalidated l req) (map record_of rows)"
proof -
  note R = requested_rows_facts [OF inv, of "map pb_id req", folded rows]
  have id: "pb_id r = i" if "map_of (pd_publications s) i = Some r" for i r
    using p_row [OF inv that] by (simp add: row_ok_def)
  show ids: "pb_id ` set rows = pb_id ` set req"
  proof
    show "pb_id ` set rows \<subseteq> pb_id ` set req" unfolding R(1) by (auto simp: id)
    show "pb_id ` set req \<subseteq> pb_id ` set rows"
    proof
      fix i assume "i \<in> pb_id ` set req"
      then obtain q where q: "q \<in> set req" "i = pb_id q" by blast
      then obtain r where "map_of (pd_publications s) i = Some r" using ready by (auto simp: request_ready_def)
      then have "r \<in> set rows" "pb_id r = i" using q id unfolding R(1) by auto
      then show "i \<in> pb_id ` set rows" by blast
    qed
  qed
  have "card (pb_id ` set rows) = length rows" "card (pb_id ` set req) = length req"
    using R(2) d distinct_card [of "map pb_id rows"] distinct_card [of "map pb_id req"] by simp_all
  then show "length rows = length req" using ids by simp
  have "\<not> stale_or_unvalidated l req (record_of r)" if r: "r \<in> set rows" for r
  proof -
    obtain q where q: "q \<in> set req" "pb_id q = pb_id r" using ids r by (metis image_iff)
    have "map_of (pd_publications s) (pb_id r) = Some r" using r id unfolding R(1) by auto
    then have "pb_state r = PUB_VALIDATED \<and> pb_version r = pb_version q \<and> owned_by l r"
      using ready q by (auto simp: request_ready_def)
    moreover have "map_of (map (\<lambda>q. (pb_id q, pb_version q)) req) (pb_id r) = Some (pb_version q)"
    proof -
      have "distinct (map fst (map (\<lambda>q. (pb_id q, pb_version q)) req))" using d by (simp add: comp_def)
      then show ?thesis using q by (intro map_of_is_SomeI) force+
    qed
    ultimately show ?thesis by (simp add: stale_or_unvalidated_def owned_by_def)
  qed
  then show "\<not> list_ex (stale_or_unvalidated l req) (map record_of rows)" by (auto simp: list_ex_iff)
qed

section \<open>The triggers of the attempt and the job\<close>

lemma attempt_guard_passes:
  assumes inv: "p_inv_except X s" and row: "lease_row (pd_queue s) l = Some (a, j)"
  shows "attempt_update_guard (pd_queue s) (l_attempt l) a (won_attempt t a) = Inr ()"
proof -
  have a: "map_of (q_attempts (pd_queue s)) (l_attempt l) = Some a" "qa_state a = ATT_ACTIVE" using row by (auto simp: lease_row_eq)
  have "1 \<le> qa_no a \<and> qa_epoch a = qa_no a" using q_att [OF p_invD(1) [OF inv] a(1)] by (simp add: qatt_ok_def)
  moreover have "\<not> list_ex (\<lambda>(k, j). qj_winning j = Some (l_attempt l) \<and> qj_state j = SUCCEEDED) (q_jobs (pd_queue s))"
  proof -
    have "distinct (map fst (q_jobs (pd_queue s)))" using p_invD(1) [OF inv] by (simp add: q_inv_def keys_ok_def)
    then show ?thesis using running_not_winner [OF inv row] by (auto simp: list_ex_iff)
  qed
  ultimately show ?thesis
    using a by (simp add: attempt_update_guard_def checks_Cons_ok won_attempt_def attempt_shape_def)
qed

lemma list_ex_pair: "list_ex (\<lambda>(k, a). P k a) xs \<longleftrightarrow> (\<exists>k a. (k, a) \<in> set xs \<and> P k a)"
  and list_all_pair: "list_all (\<lambda>(k, a). P k a) xs \<longleftrightarrow> (\<forall>k a. (k, a) \<in> set xs \<longrightarrow> P k a)"
  by (auto simp: list_ex_iff list_all_iff)

lemma job_guard_passes:
  assumes inv: "p_inv_except X s" and row: "lease_row (pd_queue s) l = Some (a, j)" and cancel: "qj_cancel j = None"
    and kinds: "finalized_kinds (pd_publications s) (l_attempt l) = set (qj_kinds j)"
    and s2: "pd_artifacts s2 = pd_artifacts s" "pd_blobs s2 = pd_blobs s"
      "map_of (q_attempts (pd_queue s2)) (l_attempt l) = Some (won_attempt t a)"
  shows "job_update_guard s2 (l_job l) j (won_job l j) = Inr ()"
proof -
  have a: "map_of (q_attempts (pd_queue s)) (l_attempt l) = Some a" "qa_job a = l_job l" "qa_epoch a = qj_epoch j"
    and j: "qj_state j = RUNNING" using row by (auto simp: lease_row_eq)
  have d: "distinct (map fst (pd_publications s))" using p_invD(3) [OF inv] by (simp add: rows_ok_def)
  have "\<exists>u x. (u, x) \<in> set (pd_artifacts s) \<and> pa_job x = l_job l \<and> pa_attempt x = l_attempt l \<and> pa_kind x = k \<and>
      verified_blob s (pa_blob x)" if k: "k \<in> set (qj_kinds j)" for k
  proof -
    obtain i r where r: "map_of (pd_publications s) i = Some r" "pb_state r = PUB_FINALIZED" "pb_attempt r = l_attempt l" "pb_kind r = k"
      using k unfolding kinds [symmetric] finalized_kinds_map [OF d] by blast
    then have "i \<in> (pa_publication \<circ> snd) ` set (pd_artifacts s)" using p_invD(5) [OF inv] unfolding artifacts_ok_def by blast
    then obtain u x where x: "(u, x) \<in> set (pd_artifacts s)" "pa_publication x = i" by auto
    from artifact_facts [OF inv x(1)] obtain p b where p: "map_of (pd_publications s) (pa_publication x) = Some p" "proves x p"
      and b: "b \<in> set (pd_blobs s)" "blob_id b = pa_blob x" "blob_matches p b" by metis
    have "pb_job r = l_job l" using p_row [OF inv r(1)] r(3) a by (simp add: row_ok_def)
    moreover have "verified_blob s (pa_blob x)" using b by (auto simp: verified_blob_def list_ex_iff blob_matches_def)
    ultimately show ?thesis using x p r by (auto simp: proves_def)
  qed
  moreover have won: "\<exists>b. (l_attempt l, b) \<in> set (q_attempts (pd_queue s2)) \<and> qa_job b = l_job l \<and>
      qa_state b = ATT_SUCCEEDED \<and> qa_epoch b = qj_epoch j"
    using map_of_SomeD [OF s2(3)] a(2,3) by (intro exI [of _ "won_attempt t a"]) (simp add: won_attempt_def)
  ultimately have "success_artifacts s2 (l_job l) (won_job l j)"
    using won cancel
    by (simp add: success_artifacts_def won_job_def s2(1,2) verified_blob_def list_all_iff list_ex_pair)
  then show ?thesis using j by (simp add: job_update_guard_def checks_Cons_ok won_job_def)
qed

lemma succeed_returns:
  assumes inv: "p_inv_except {l_attempt l} s" and row: "lease_row (pd_queue s) l = Some (a, j)"
    and cur: "assert_current t l (pd_queue s) = Inr ()"
    and kinds: "finalized_kinds (pd_publications s) (l_attempt l) = set (qj_kinds j)"
  shows "returns (succeed t l s)"
proof -
  let ?q = "pd_queue s"
  let ?q1 = "?q\<lparr>q_attempts := set_row (l_attempt l) (won_attempt t) (q_attempts ?q)\<rparr>"
  let ?q2 = "q_event_add (l_job l) (Some (l_attempt l)) ''job_succeeded''
    (?q1\<lparr>q_workers := set_row (l_worker l) (\<lambda>w. w\<lparr>qw_state := W_READY\<rparr>) (q_workers ?q)\<rparr>)"
  have a: "map_of (q_attempts ?q) (l_attempt l) = Some a" and j: "map_of (q_jobs ?q) (l_job l) = Some j" "qj_state j = RUNNING"
    "qj_current j = Some (l_attempt l)" "qj_epoch j = l_epoch l" using row by (auto simp: lease_row_eq)
  have cancel: "qj_cancel j = None" using cur row by (auto simp: assert_current_eq)
  have "must (succeed_attempt t l) c m s = (Inr (), s\<lparr>pd_queue := ?q1\<rparr>)" for c m
    using cur a attempt_guard_passes [OF inv row] by (simp add: must_def succeed_attempt_def lift_def sbind_def ok_def)
  moreover have "success_attempts (l_job l) (q_events ?q) = []"
    using winners_jobD [OF p_invD(6) [OF inv] j(1)] j(2) by (simp add: winner_ok_def)
  then have "\<not> list_ex (\<lambda>e. qe_job e = l_job l \<and> qe_type e = ''job_succeeded'') (q_events ?q)"
    by (auto simp: success_attempts_def list_ex_iff filter_empty_conv)
  then have "release_winner l (s\<lparr>pd_queue := ?q1\<rparr>) = (Inr (), s\<lparr>pd_queue := ?q2\<rparr>)"
    by (simp add: release_winner_def ok_def)
  moreover have "job_update_guard (s\<lparr>pd_queue := ?q2\<rparr>) (l_job l) j (won_job l j) = Inr ()"
    by (rule job_guard_passes [OF inv row cancel kinds]) (simp_all add: q_event_add_def map_of_set_row a)
  then have "returns (must (succeed_job l) c m (s\<lparr>pd_queue := ?q2\<rparr>))" for c m
    using j cancel by (simp add: must_def succeed_job_def lift_def sbind_def ok_def returns_eq)
  ultimately show ?thesis
    unfolding succeed_def by (simp add: returns_sbind)
qed

section \<open>The constraints at commit\<close>

lemma artifact_proof_holds:
  assumes inv: "p_inv s" shows "artifact_proof s"
proof -
  have d: "distinct (map fst (pd_publications s))" using p_invD(3) [OF inv] by (simp add: rows_ok_def)
  have "list_ex (ready_artifact_for s i p) (pd_artifacts s)"
    if p: "(i, p) \<in> set (pd_publications s)" "pb_state p = PUB_FINALIZED" for i p
  proof -
    have i: "map_of (pd_publications s) i = Some p" using d p(1) by simp
    then have "i \<in> (pa_publication \<circ> snd) ` set (pd_artifacts s)" using p_invD(5) [OF inv] p(2) unfolding artifacts_ok_def by blast
    then obtain u a where a: "(u, a) \<in> set (pd_artifacts s)" "pa_publication a = i" by auto
    from artifact_facts [OF inv a(1)] obtain q b where "map_of (pd_publications s) (pa_publication a) = Some q" "proves a q"
      and b: "b \<in> set (pd_blobs s)" "blob_id b = pa_blob a" "blob_matches q b" by metis
    then have "proves a p" "blob_state b = BLOB_VERIFIED" using a(2) i by (simp_all add: blob_matches_def)
    then have "ready_artifact_for s i p (u, a)" using a b by (auto simp: ready_artifact_for_def proves_def list_ex_iff)
    then show ?thesis using a(1) by (auto simp: list_ex_iff)
  qed
  moreover have "list_ex (\<lambda>(i, p). i = pa_publication a \<and> pb_state p = PUB_FINALIZED \<and> pb_job p = pa_job a \<and>
        pb_attempt p = pa_attempt a \<and> pb_kind p = pa_kind a \<and> pb_blob p = Some (pa_blob a)) (pd_publications s)"
    if a: "(u, a) \<in> set (pd_artifacts s)" for u a
  proof -
    from artifact_facts [OF inv a] obtain q where "map_of (pd_publications s) (pa_publication a) = Some q" "proves a q" by metis
    then show ?thesis by (force simp: list_ex_iff proves_def dest: map_of_SomeD)
  qed
  ultimately show ?thesis by (auto simp: artifact_proof_def publication_proved_def artifact_proved_def list_all_iff)
qed

lemma succeeded_proof_holds:
  assumes inv: "p_inv s" shows "succeeded_proof s"
proof -
  have d: "distinct (map fst (pd_publications s))" and dj: "distinct (map fst (q_jobs (pd_queue s)))"
    using p_invD(1,3) [OF inv] by (simp_all add: rows_ok_def q_inv_def keys_ok_def)
  have "set (map (pb_kind \<circ> snd) (filter (\<lambda>(k, p). pb_job p = i \<and> Some (pb_attempt p) = qj_winning j \<and>
           pb_state p = PUB_FINALIZED) (pd_publications s))) = set (qj_kinds j) \<and>
        length (filter (\<lambda>e. qe_job e = i \<and> qe_attempt e = qj_winning j \<and> qe_type e = ''job_succeeded'') (q_events (pd_queue s))) = 1"
    if j: "(i, j) \<in> set (q_jobs (pd_queue s))" "qj_state j = SUCCEEDED" for i j
  proof -
    have ij: "map_of (q_jobs (pd_queue s)) i = Some j" using dj j(1) by simp
    obtain w att where w: "qj_winning j = Some w" "map_of (q_attempts (pd_queue s)) w = Some att" "qa_job att = i"
      and kinds: "finalized_kinds (pd_publications s) w = set (qj_kinds j)"
      and ev: "success_attempts i (q_events (pd_queue s)) = [qj_winning j]"
      using winners_jobD [OF p_invD(6) [OF inv] ij] j(2) by (auto simp: winner_ok_def)
    have job: "pb_job p = i" if p: "(k, p) \<in> set (pd_publications s)" "pb_attempt p = w" for k p
    proof -
      have "map_of (pd_publications s) k = Some p" using d p(1) by simp
      from p_row [OF inv this] show ?thesis using p(2) w by (simp add: row_ok_def)
    qed
    have "set (map (pb_kind \<circ> snd) (filter (\<lambda>(k, p). pb_job p = i \<and> Some (pb_attempt p) = qj_winning j \<and>
           pb_state p = PUB_FINALIZED) (pd_publications s))) = finalized_kinds (pd_publications s) w"
    proof -
      have "filter (\<lambda>(k, p). pb_job p = i \<and> Some (pb_attempt p) = qj_winning j \<and> pb_state p = PUB_FINALIZED) (pd_publications s) =
          filter (\<lambda>(k, p). pb_attempt p = w \<and> pb_state p = PUB_FINALIZED) (pd_publications s)"
        using job w(1) by (intro filter_cong) auto
      then show ?thesis
        by (intro set_eqI) (simp add: finalized_kinds_def image_iff Bex_def split_paired_Ex, blast)
    qed
    moreover obtain e where e: "filter (\<lambda>e. qe_job e = i \<and> qe_type e = ''job_succeeded'') (q_events (pd_queue s)) = [e]"
        "qe_attempt e = qj_winning j"
      using ev by (auto simp: success_attempts_def map_eq_Cons_conv)
    have "filter (\<lambda>e. qe_job e = i \<and> qe_attempt e = qj_winning j \<and> qe_type e = ''job_succeeded'') (q_events (pd_queue s)) =
        filter (\<lambda>e. qe_attempt e = qj_winning j) [e]"
      unfolding e(1) [symmetric] filter_filter by (rule arg_cong2 [where f = filter]) auto
    then have "length (filter (\<lambda>e. qe_job e = i \<and> qe_attempt e = qj_winning j \<and> qe_type e = ''job_succeeded'') (q_events (pd_queue s))) = 1"
      using e(2) by simp
    ultimately show ?thesis using kinds by simp
  qed
  then show ?thesis by (fastforce simp: succeeded_proof_def success_proved_def list_all_iff Let_def)
qed

lemma linked_holds:
  assumes inv: "p_inv s" and j: "(i, j) \<in> set (q_jobs (pd_queue s))"
  shows "linked (pd_queue s) (i, j)" "epoch_current (pd_queue s) (i, j)"
proof -
  let ?q = "pd_queue s"
  note Q = p_invD(1) [OF inv]
  have keys: "distinct (map fst (q_jobs ?q))" "distinct (map fst (q_attempts ?q))" using Q by (simp_all add: q_inv_def keys_ok_def)
  have ij: "map_of (q_jobs ?q) i = Some j" using keys(1) j by simp
  have active: "\<exists>c a. qj_current j = Some c \<and> (c, a) \<in> set (q_attempts ?q) \<and> qa_job a = i \<and> qa_state a = ATT_ACTIVE \<and> qa_epoch a = qj_epoch j"
    if "qj_state j = RUNNING"
    using q_job [OF Q ij] that map_of_SomeD by (fastforce simp: qjob_ok_def)
  moreover have "qj_state j = RUNNING" if "qj_current j \<noteq> None"
    using q_job [OF Q ij] that by (cases "qj_state j") (auto simp: qjob_ok_def)
  moreover have "qj_state j = RUNNING \<and> qj_current j = Some k"
    if "(k, a) \<in> set (q_attempts ?q)" "qa_job a = i" "qa_state a = ATT_ACTIVE" for k a
    using q_att [OF Q, of k a] that keys(2) ij by (simp add: qatt_ok_def)
  moreover have "\<exists>w a. qj_winning j = Some w \<and> (w, a) \<in> set (q_attempts ?q) \<and> qa_job a = i \<and> qa_state a = ATT_SUCCEEDED"
    if "qj_winning j \<noteq> None"
    using winners_jobD [OF p_invD(6) [OF inv] ij] that map_of_SomeD by (fastforce simp: winner_ok_def split: if_splits)
  ultimately show "linked ?q (i, j)" "epoch_current ?q (i, j)"
    by (simp_all add: linked_def epoch_current_def attempt_of_def list_ex_pair list_all_pair) metis+
qed

lemma commit_finalization_passes:
  assumes inv: "p_inv s" and w: "map_of (q_attempts (pd_queue s)) w = Some a" "qa_job a = i"
  shows "commit_finalization i w ids s = Inr ()"
proof -
  have "attempt_of (pd_queue s) i (Some w) (\<lambda>_. True)" using map_of_SomeD [OF w(1)] w(2) by (force simp: attempt_of_def list_ex_iff)
  moreover have "list_all (linked (pd_queue s)) (q_jobs (pd_queue s))" "list_all (epoch_current (pd_queue s)) (q_jobs (pd_queue s))"
    using linked_holds [OF inv] by (auto simp: list_all_iff)
  ultimately show ?thesis
    using artifact_proof_holds [OF inv] succeeded_proof_holds [OF inv]
    by (simp add: commit_finalization_def checks_Cons_ok artifact_proof_def succeeded_proof_def list_all_iff Let_def)
qed

section \<open>The whole transaction\<close>

lemma finalize_body_returns:
  assumes inv: "p_inv s" and ready: "finalize_ready jsonb t t2 clk t' us l req s"
  shows "returns (finalize_body jsonb t t2 clk t' us l req s)"
proof -
  note F = ready [unfolded finalize_ready_def]
  have inv': "p_inv_except {l_attempt l} s" using inv by (auto simp: p_inv_except_def winners_ok_def)
  obtain a j where row: "lease_row (pd_queue s) l = Some (a, j)" and ok: "unexpired t a" "qj_cancel j = None" "unexpired t2 a"
    using F by (auto simp: assert_current_eq)
  have lock: "lock_lease t l s = Inr (qj_kinds j)" using row ok by (auto simp: lock_lease_eq)
  have tab: "map_of (q_attempts (pd_queue s)) (l_attempt l) = Some a" "map_of (q_jobs (pd_queue s)) (l_job l) = Some j"
    using row by (simp_all add: lease_row_eq)
  let ?rows = "requested_rows (map pb_id req) s"
  have d: "distinct (map pb_id req)" and rr: "\<forall>q \<in> set req. request_ready l s q" using F by auto
  note R = requested_all [OF inv d rr refl]
  note S = ready_set [OF inv d refl R(2,3)]
  have kinds: "pb_kind ` set ?rows = set (qj_kinds j)" "length req = length (qj_kinds j)" using S(3) F tab by auto
  have id: "map_of (pd_publications s) (pb_id r) = Some r" if "r \<in> set ?rows" for r
    using S(4) [OF that] that p_row [OF inv] unfolding requested_rows_facts(1) [OF inv] by (auto simp: row_ok_def)
  have blobs: "blobs_verified (map record_of ?rows) s"
  proof -
    have "\<exists>b \<in> set (pd_blobs s). pb_blob r = Some (blob_id b) \<and> blob_state b = BLOB_VERIFIED" if r: "r \<in> set ?rows" for r
      using p_row [OF inv id [OF r]] S(4) [OF r] id [OF r] by (auto simp: row_ok_def locked_row_def blob_matches_def)
    then show ?thesis by (auto simp: blobs_verified_def list_ex_iff)
  qed
  have d': "distinct (map pb_id (map record_of ?rows))"
    using requested_rows_facts(2) [OF inv, of "map pb_id req"] by (simp add: comp_def)
  have each: "locked_row l s p \<and> pb_stale_since p = None \<and> (\<exists>m. jsonb (pb_metadata p) = Inr m)"
    if p: "p \<in> set (map record_of ?rows)" for p
  proof -
    obtain r where r: "r \<in> set ?rows" "p = record_of r" using p by auto
    then obtain q where "q \<in> set req" "pb_id q = pb_id r" using S(1) by (metis image_iff)
    then show ?thesis using F S(4) [OF r(1)] id [OF r(1)] r(2) by auto
  qed
  have fresh: "strip (us k) \<noteq> [] \<and> us k \<notin> fst ` set (pd_artifacts s) \<and> assert_current (clk k) l (pd_queue s) = Inr ()"
    if "0 \<le> k" "k < 0 + length (map record_of ?rows)" for k
  proof -
    have "k < length req" using that R(2) by simp
    moreover have "\<forall>x \<in> {t, t2, t'} \<union> clk ` {..<length req}. assert_current x l (pd_queue s) = Inr ()" using F by blast
    ultimately show ?thesis using F by blast
  qed
  have inj: "inj_on us {0..<0 + length (map record_of ?rows)}" using F R(2) by (simp add: lessThan_atLeast0)
  have strips: "strip (us k) \<noteq> []" if "0 \<le> k" "k < 0 + length (map record_of ?rows)" for k using fresh [OF that] by simp
  have own: "\<exists>r. map_of (pd_publications s) i = Some r \<and> owned_by l r" if "i \<in> pb_id ` set req" for i
    using that rr by (auto simp: request_ready_def)
  have need: "{k. \<exists>i \<in> pb_id ` set req. \<exists>r. map_of (pd_publications s) i = Some r \<and> pb_kind r = k} = set (qj_kinds j)"
    using F tab by (auto simp: requested_kinds_def)
  have main: "returns (sbind (finalize_rows jsonb clk 0 us l (map record_of ?rows)) (\<lambda>_. succeed t' l) s)"
  proof (rule returns_sbind_wp)
    show "returns (finalize_rows jsonb clk 0 us l (map record_of ?rows) s)"
      by (rule finalize_rows_returns [OF inv' row fresh inj d' each])
    show "wp (\<lambda>e s'. True) (\<lambda>_ s'. p_inv_except {l_attempt l} s' \<and> rows_finalized (pb_id ` set (map record_of ?rows)) s s')
        (finalize_rows jsonb clk 0 us l (map record_of ?rows) s)"
      by (rule finalize_rows_wp [OF inv' row strips d' conjunct1 [OF each]])
    fix x s1
    assume s1: "p_inv_except {l_attempt l} s1 \<and> rows_finalized (pb_id ` set (map record_of ?rows)) s s1"
    then have q: "pd_queue s1 = pd_queue s" and f: "rows_finalized (pb_id ` set req) s s1"
      using S(1) by (simp_all add: rows_finalized_def image_image)
    have "finalized_kinds (pd_publications s1) (l_attempt l) = set (qj_kinds j)"
      using finalized_kinds_after [OF inv conjunct1 [OF s1] row f own] need by simp
    then show "returns (succeed t' l s1)"
      using F s1 row q by (intro succeed_returns) simp_all
  qed
  show ?thesis
    unfolding finalize_body_def
    by (rule returns_lift [OF lock], simp add: tab ok lift_def requested_rows_facts(3) [OF inv] R kinds image_image blobs main)
qed

lemma pub_finalize_returns:
  assumes inv: "p_inv s" and ready: "finalize_ready jsonb t t2 clk t' us l req s"
  shows "returns (pub_finalize jsonb t t2 clk t' us l req s)"
proof -
  obtain s' where b: "finalize_body jsonb t t2 clk t' us l req s = (Inr (), s')"
    using finalize_body_returns [OF assms] by (auto simp: returns_eq)
  have us: "\<And>k. k < length req \<Longrightarrow> strip (us k) \<noteq> []" and d: "distinct (map pb_id req)" and ne: "req \<noteq> []"
    using ready by (simp_all add: finalize_ready_def)
  have "wp (\<lambda>e s'. True) (\<lambda>_ s'. finalized_by t t' l req s s') (finalize_body jsonb t t2 clk t' us l req s)"
    by (rule finalize_body_wp [OF inv d]) (rule us)
  from wp_value [OF this b] have fin: "finalized_by t t' l req s s'" .
  then have inv': "p_inv s'" by (simp add: finalized_by_def)
  obtain a j where row: "lease_row (pd_queue s) l = Some (a, j)" and q: "pd_queue s' = won t' l (pd_queue s)"
    using fin by (auto simp: finalized_by_def)
  have "map_of (q_attempts (pd_queue s')) (l_attempt l) = Some (won_attempt t' a)" "qa_job (won_attempt t' a) = l_job l"
    using row by (simp_all add: q won_tables [OF row] won_attempt_def lease_row_eq)
  then have "commit_finalization (l_job l) (l_attempt l) (map pb_id req) s' = Inr ()"
    by (rule commit_finalization_passes [OF inv'])
  then show ?thesis
    using b d ne inv' by (simp add: pub_finalize_def transaction_def returns_eq sbind_def lift_def ok_def visible_winner_eq)
qed

section \<open>Reserving again\<close>

lemma insert_publication_conflict:
  assumes "bigints [Some (pb_max_size r), pb_expected_size r] = Inr ()" "row_check (inserted_row t r) = Inr ()"
    and "publication_current t (pd_queue s) r" "pb_state r = PUB_RESERVED" "pb_version r = 0"
    and "(i, x) \<in> set (pd_publications s)" "pb_attempt x = pb_attempt r" "pb_kind x = pb_kind r"
  shows "insert_publication t r s = (Inr False, s)"
proof -
  have "blob_guard s (inserted_row t r) = Inr ()" using assms(4) by (simp add: blob_guard_ok)
  then have "insert_publication t r s =
      (if list_ex (\<lambda>(i, x). pb_attempt x = pb_attempt r \<and> pb_kind x = pb_kind r) (pd_publications s) then ok False s
       else if pb_id r \<in> set (map fst (pd_publications s)) then fail UniqueViolation ''artifact_publications'' s
       else ok True (s\<lparr>pd_publications := add_row (pb_id r) (inserted_row t r) (pd_publications s)\<rparr>))"
    using assms(1-5)
    by (simp add: insert_publication_def lift_def lease_guard_def insert_guard_def inserted_row_def [symmetric])
  moreover have "list_ex (\<lambda>(i, x). pb_attempt x = pb_attempt r \<and> pb_kind x = pb_kind r) (pd_publications s)"
    using assms(6-8) by (force simp: list_ex_iff)
  ultimately show ?thesis by (simp add: ok_def)
qed

lemma reserve_again:
  assumes inv: "p_inv s" and row: "map_of (pd_publications s) i = Some r" and ms: "matches_spec (record_of r) l sp"
    and cur: "assert_current c l (pd_queue s) = Inr ()" "assert_current c' l (pd_queue s) = Inr ()"
    and m: "jsonb (ps_metadata sp) = Inr m" "bigints [Some (ps_max_size sp), ps_expected_size sp] = Inr ()"
      "row_check (inserted_row c' (reserved_row u l sp m)) = Inr ()"
  shows "reserve jsonb c c' u l sp s = (Inr (record_of r), s)"
proof -
  have mem: "(i, r) \<in> set (pd_publications s)" by (rule map_of_SomeD [OF row])
  have key: "pb_attempt r = l_attempt l" "pb_kind r = ps_kind sp" using ms by (simp_all add: matches_spec_def)
  have "publication_current c' (pd_queue s) (reserved_row u l sp m)"
    using cur(2) by (simp add: publication_current_def lease_of_publication_def assert_current_eq lease_row_eq)
  then have ins: "insert_publication c' (reserved_row u l sp m) s = (Inr False, s)"
    using m key by (intro insert_publication_conflict [OF _ _ _ _ _ mem]) (simp_all add: reserved_row_def)
  have "find (\<lambda>(i, r). pb_attempt r = l_attempt l \<and> pb_kind r = ps_kind sp) (pd_publications s) \<noteq> None"
    using mem key by (auto simp: find_None_iff)
  then obtain k x where f: "find (\<lambda>(i, r). pb_attempt r = l_attempt l \<and> pb_kind r = ps_kind sp) (pd_publications s) = Some (k, x)"
    by auto
  have kx: "(k, x) \<in> set (pd_publications s)" "pb_attempt x = l_attempt l" "pb_kind x = ps_kind sp"
    using f by (auto simp: find_Some_iff in_set_conv_nth)
  then have kr: "map_of (pd_publications s) k = Some x" using p_invD(3) [OF inv] by (simp add: rows_ok_def)
  then have "k = i" using row kx key p_invD(3) [OF inv] unfolding rows_ok_def by metis
  then have x: "x = r" using kr row by simp
  obtain ks where "lock_lease c l s = Inr ks" using cur(1) by (auto simp: lock_lease_eq assert_current_eq)
  then show ?thesis
    using m(1) ins f x ms from_row_ok [OF p_row [OF inv row]]
    by (simp add: reserve_def transaction_def lift_def sbind_def ok_def)
qed

end
