(* ===== verification/PublicationProps.thy ===== *)
theory PublicationProps
  imports PublicationReturn
begin

text \<open>
  What the publication ledger promises: a reader sees nothing or exactly the required artifacts of one
  winning attempt, and never anything else later; finalization is all or nothing; rows never go back;
  a lost lease publishes nothing; abandoning waits for the grace period.
\<close>

section \<open>An example\<close>

definition demo_psha :: string where
  "demo_psha = replicate 64 CHR ''a''"

definition demo_pjob :: q_job where
  "demo_pjob = \<lparr>qj_namespace = ''ns'', qj_key = ''k'', qj_sha256 = demo_psha, qj_request = PDict [],
     qj_deployment = ''d'', qj_kinds = [OUTPUT], qj_inputs = [], qj_state = QUEUED, qj_epoch = 0,
     qj_current = None, qj_winning = None, qj_cancel = None, qj_retry = None, qj_created = 5\<rparr>"

definition demo_please :: lease where
  "demo_please = \<lparr>l_job = ''j'', l_attempt = ''a'', l_worker = ''w'', l_epoch = 1, l_expires = 1000100\<rparr>"

definition demo_spec :: publication_spec where
  "demo_spec = \<lparr>ps_kind = OUTPUT, ps_content_type = ''audio/wav'', ps_max_size = 10, ps_expected_sha256 = None,
     ps_expected_size = None, ps_metadata = PDict []\<rparr>"

definition demo_blob :: blob_record where
  "demo_blob = \<lparr>blob_id = ''b'', blob_sha256 = demo_psha, blob_size_bytes = 3, blob_storage_key = key_of demo_psha,
     blob_state = BLOB_VERIFIED, blob_content_type = ''audio/wav''\<rparr>"

definition demo_claimed_ops :: "pub_op list" where
  "demo_claimed_ops = [PQueue (QWorker ''w'' \<lparr>qw_deployment = ''d'', qw_state = W_READY, qw_heartbeat = None\<rparr>),
     PQueue (QJob ''j'' demo_pjob), PQueue (QClaim no_locks 100 100 ''a'' ''w'' 1)]"

definition demo_reserved_ops :: "pub_op list" where
  "demo_reserved_ops = demo_claimed_ops @ [PReserve Inr 200 200 ''p'' demo_please demo_spec]"

definition demo_validated_ops :: "pub_op list" where
  "demo_validated_ops = demo_reserved_ops @
     [PRecordObject 300 300 demo_please ''p'' 0 demo_psha 3,
      PRecordValidated Inr 400 400 demo_please ''p'' 1 demo_blob (PDict [])]"

definition demo_prequest :: publication where
  "demo_prequest = record_of ((reserved_row ''p'' demo_please demo_spec (PDict []))\<lparr>pb_version := 2\<rparr>)"

definition demo_finalized_ops :: "pub_op list" where
  "demo_finalized_ops = demo_validated_ops @
     [PFinalize Inr 500 500 (\<lambda>_. 500) 500 (\<lambda>_. ''u'') demo_please [demo_prequest]]"

definition demo_db :: "pub_op list \<Rightarrow> pub_db" where
  "demo_db ops = the (p_run ops empty_pub_db)"

lemma demo_runs:
  "p_run demo_reserved_ops empty_pub_db = Some (demo_db demo_reserved_ops)"
  "p_run demo_validated_ops empty_pub_db = Some (demo_db demo_validated_ops)"
  "p_run demo_finalized_ops empty_pub_db = Some (demo_db demo_finalized_ops)"
proof -
  have "\<not> Option.is_none (p_run demo_reserved_ops empty_pub_db)"
    "\<not> Option.is_none (p_run demo_validated_ops empty_pub_db)"
    "\<not> Option.is_none (p_run demo_finalized_ops empty_pub_db)" by code_simp+
  then show "p_run demo_reserved_ops empty_pub_db = Some (demo_db demo_reserved_ops)"
    "p_run demo_validated_ops empty_pub_db = Some (demo_db demo_validated_ops)"
    "p_run demo_finalized_ops empty_pub_db = Some (demo_db demo_finalized_ops)"
    by (simp_all add: demo_db_def Option.is_none_def)
qed

lemma demo_job:
  "map_of (q_jobs (pd_queue (demo_db demo_finalized_ops))) ''j'' =
     Some (the (map_of (q_jobs (pd_queue (demo_db demo_finalized_ops))) ''j''))"
  "qj_state (the (map_of (q_jobs (pd_queue (demo_db demo_finalized_ops))) ''j'')) = SUCCEEDED"
  "qj_kinds (the (map_of (q_jobs (pd_queue (demo_db demo_finalized_ops))) ''j'')) = [OUTPUT]"
proof -
  have "\<not> Option.is_none (map_of (q_jobs (pd_queue (demo_db demo_finalized_ops))) ''j'')" by code_simp
  then show "map_of (q_jobs (pd_queue (demo_db demo_finalized_ops))) ''j'' =
     Some (the (map_of (q_jobs (pd_queue (demo_db demo_finalized_ops))) ''j''))" by (simp add: Option.is_none_def)
qed code_simp+

section \<open>What a reader sees\<close>

text \<open>
  C13. After any run of the queue and the repository, a reader of a SUCCEEDED job sees exactly one
  artifact per required kind, all of its winning attempt and under the key of their digest, and the
  job has one success event. Of any other job the reader sees nothing and no publication is FINALIZED.
\<close>

theorem winner_matches_job:
  assumes run: "p_run ops empty_pub_db = Some s" and job: "map_of (q_jobs (pd_queue s)) j = Some job"
  shows "\<exists>vs. visible_winner j None s = (Inr vs, s) \<and>
    (if qj_state job = SUCCEEDED
     then set (map va_kind vs) = set (qj_kinds job) \<and> distinct (map va_kind vs) \<and>
          (\<forall>v \<in> set vs. va_job v = j \<and> qj_winning job = Some (va_attempt v) \<and> va_storage_key v = key_of (va_sha256 v)) \<and>
          success_attempts j (q_events (pd_queue s)) = [qj_winning job]
     else vs = [] \<and> success_attempts j (q_events (pd_queue s)) = [] \<and>
          (\<forall>i r. map_of (pd_publications s) i = Some r \<and> pb_job r = j \<longrightarrow> pb_state r \<noteq> PUB_FINALIZED))"
proof -
  have inv: "p_inv s" by (rule p_run_inv [OF run])
  have w: "winner_ok (map_of (q_attempts (pd_queue s))) (pd_publications s) (q_events (pd_queue s)) j job"
    by (rule winners_jobD [OF p_invD(6) [OF inv] job])
  note V = visible_rows_eq [OF inv job, of None, simplified]
  have vs: "va_job v = j \<and> qj_winning job = Some (va_attempt v) \<and> va_storage_key v = key_of (va_sha256 v)"
    if v: "v \<in> set (visible_rows s j None)" for v
  proof -
    obtain i a where a: "(i, a) \<in> set (pd_artifacts s)" "visible_row s j job (i, a) = Some v"
      using v unfolding V(1) by blast
    moreover have "winning j job a" using visible_row_eq(1) [OF inv a(1), of j job] a(2) by simp
    ultimately show ?thesis using visible_row_eq(2) [OF inv a] by (simp add: winning_def)
  qed
  have out: "visible_winner j None s = (Inr (visible_rows s j None), s)" by (rule visible_winner_eq [OF inv])
  show ?thesis
  proof (cases "qj_state job = SUCCEEDED")
    case True
    then show ?thesis
      using visible_winner_kinds [OF inv job, of None] vs w out by (intro exI [of _ "visible_rows s j None"]) (simp add: winner_ok_def)
  next
    case False
    moreover have "pb_state r \<noteq> PUB_FINALIZED" if "map_of (pd_publications s) i = Some r" "pb_job r = j" for i r
      using winners_finalizedD [OF p_invD(6) [OF inv] that(1)] that(2) job False by auto
    ultimately show ?thesis using visible_winner_none [OF inv job] w out by (simp add: winner_ok_def) blast
  qed
qed

theorem winner_matches_job_witness:
  "\<exists>vs. visible_winner ''j'' None (demo_db demo_finalized_ops) = (Inr vs, demo_db demo_finalized_ops) \<and>
     set (map va_kind vs) = {OUTPUT}"
  using winner_matches_job [OF demo_runs(3) demo_job(1)] by (auto simp: demo_job(2,3))

lemma distinct_by_key:
  assumes "distinct (map fst T)"
    and "\<And>i k x y. (i, x) \<in> set T \<Longrightarrow> (k, y) \<in> set T \<Longrightarrow> f (i, x) = f (k, y) \<Longrightarrow> i = k"
  shows "distinct (map f T)"
proof -
  have "inj_on f (set T)"
  proof (rule inj_onI)
    fix p q assume h: "p \<in> set T" "q \<in> set T" "f p = f q"
    obtain i x k y where pq: "p = (i, x)" "q = (k, y)" by (cases p, cases q)
    have "i = k" using assms(2) h pq by blast
    then show "p = q" using assms(1) h pq by (auto dest: eq_key_imp_eq_value)
  qed
  moreover have "distinct T" using assms(1) by (simp add: distinct_map)
  ultimately show ?thesis by (simp add: distinct_map)
qed

lemma ledger_keys_hold:
  assumes inv: "p_inv s" shows "ledger_keys s"
proof -
  note R = p_invD(3) [OF inv] and A = p_invD(5) [OF inv]
  have d: "distinct (map fst (pd_publications s))" using R by (simp add: rows_ok_def)
  have "distinct (map (\<lambda>(i, p). (pb_attempt p, pb_kind p)) (pd_publications s))"
  proof (rule distinct_by_key [OF d])
    fix i k x y assume h: "(i, x) \<in> set (pd_publications s)" "(k, y) \<in> set (pd_publications s)"
      "(case (i, x) of (i, p) \<Rightarrow> (pb_attempt p, pb_kind p)) = (case (k, y) of (i, p) \<Rightarrow> (pb_attempt p, pb_kind p))"
    have "map_of (pd_publications s) i = Some x" "map_of (pd_publications s) k = Some y" using d h by simp_all
    moreover have "pb_attempt x = pb_attempt y" "pb_kind x = pb_kind y" using h(3) by simp_all
    ultimately show "i = k" using R unfolding rows_ok_def by blast
  qed
  moreover have "list_ex (\<lambda>(k, a). k = pb_attempt p \<and> qa_job a = pb_job p) (q_attempts (pd_queue s))"
    if p: "(i, p) \<in> set (pd_publications s)" for i p
  proof -
    have "map_of (pd_publications s) i = Some p" using d p by simp
    from p_row [OF inv this] obtain a where "map_of (q_attempts (pd_queue s)) (pb_attempt p) = Some a" "qa_job a = pb_job p"
      by (auto simp: row_ok_def)
    then show ?thesis by (force simp: list_ex_iff dest: map_of_SomeD)
  qed
  moreover have "distinct (map (\<lambda>(u, a). (pa_attempt a, pa_kind a)) (pd_artifacts s))"
  proof (rule distinct_by_key)
    show "distinct (map fst (pd_artifacts s))" using A by (simp add: artifacts_ok_def)
    fix i k x y assume h: "(i, x) \<in> set (pd_artifacts s)" "(k, y) \<in> set (pd_artifacts s)"
      "(case (i, x) of (i, p) \<Rightarrow> (pa_attempt p, pa_kind p)) = (case (k, y) of (i, p) \<Rightarrow> (pa_attempt p, pa_kind p))"
    from artifact_facts [OF inv h(1)] obtain p where p: "map_of (pd_publications s) (pa_publication x) = Some p" "proves x p" by metis
    from artifact_facts [OF inv h(2)] obtain q where q: "map_of (pd_publications s) (pa_publication y) = Some q" "proves y q" by metis
    have "pb_attempt p = pb_attempt q" "pb_kind p = pb_kind q" using p(2) q(2) h(3) by (simp_all add: proves_def)
    then have "pa_publication x = pa_publication y" using R p(1) q(1) unfolding rows_ok_def by blast
    moreover have inj: "inj_on (pa_publication \<circ> snd) (set (pd_artifacts s))" using A by (simp add: artifacts_ok_def distinct_map)
    ultimately have "(i, x) = (k, y)" by (intro inj_onD [OF inj _ h(1,2)]) simp
    then show "i = k" by simp
  qed
  ultimately show ?thesis using d A by (auto simp: ledger_keys_def artifacts_ok_def list_all_iff)
qed

text \<open>
  C17. No commit is refused: in every reachable state the deferred triggers of the schema (a FINALIZED
  publication and its READY artifact prove each other, a SUCCEEDED job has the FINALIZED publications
  of exactly its required kinds and one success event) and the keys of the ledger hold.
\<close>

theorem commit_never_refused:
  assumes "p_run ops empty_pub_db = Some s"
  shows "artifact_proof s \<and> succeeded_proof s \<and> ledger_keys s"
  using p_run_inv [OF assms] by (simp add: artifact_proof_holds succeeded_proof_holds ledger_keys_hold)

theorem commit_never_refused_witness: "succeeded_proof (demo_db demo_finalized_ops)"
  using commit_never_refused [OF demo_runs(3)] by simp

lemma map_filter_same: "(\<And>x. x \<in> set xs \<Longrightarrow> f x = g x) \<Longrightarrow> List.map_filter f xs = List.map_filter g xs"
  by (induction xs) (auto simp: List.map_filter_def)

text \<open>The row, the blob and the job that a visible artifact is read from stay as they are.\<close>

lemma visible_row_later:
  assumes inv: "p_inv s" and le: "p_le s t" and job: "map_of (q_jobs (pd_queue s)) j = Some job"
    and x: "x \<in> set (pd_artifacts s)"
  shows "visible_row t j job x = visible_row s j job x"
proof -
  obtain i a where ia: "x = (i, a)" by (cases x)
  from artifact_facts [OF inv, of i a] x ia obtain p b where
    p: "map_of (pd_publications s) (pa_publication a) = Some p" "proves a p"
    and f: "find (\<lambda>b. blob_id b = pa_blob a) (pd_blobs s) = Some b" by metis
  obtain p' where p': "map_of (pd_publications t) (pa_publication a) = Some p'" "pub_le p p'"
    using le p(1) unfolding p_le_def grows_def by blast
  have "pb_state p' = pb_state p" "pb_job p' = pb_job p" "pb_attempt p' = pb_attempt p" "pb_blob p' = pb_blob p"
    using p(2) p'(2) by (simp_all add: pub_le_def proves_def pub_terminal_def same_evidence_def same_identity_row_def)
  moreover have "find (\<lambda>b. blob_id b = pa_blob a) (pd_blobs t) = Some b"
  proof -
    obtain zs where "pd_blobs t = pd_blobs s @ zs" using le by (auto simp: p_le_def extends_def)
    moreover have "find P (xs @ zs) = find P xs" if "find P xs \<noteq> None" for P and xs :: "blob_record list"
      using that by (induction xs) auto
    ultimately show ?thesis using f by simp
  qed
  ultimately show ?thesis by (simp add: visible_row_def ia p p' f)
qed

lemma later_artifacts_hidden:
  assumes inv: "p_inv s" and inv': "p_inv t" and job: "map_of (q_jobs (pd_queue s)) j = Some job"
    and job': "map_of (q_jobs (pd_queue t)) j = Some job" and won: "qj_state job = SUCCEEDED" and le: "p_le s t"
    and zs: "pd_artifacts t = pd_artifacts s @ zs" and x: "(i, a) \<in> set zs"
  shows "visible_row t j job (i, a) = None"
proof (rule ccontr)
  assume "visible_row t j job (i, a) \<noteq> None"
  then obtain v where v: "visible_row t j job (i, a) = Some v" by blast
  have a: "(i, a) \<in> set (pd_artifacts t)" using x zs by simp
  note S = visible_rows_eq(1) [OF inv job, of None, simplified] and T = visible_rows_eq(1) [OF inv' job', of None, simplified]
  have vT: "v \<in> set (visible_rows t j None)" unfolding T using a v by blast
  have "va_kind v \<in> set (qj_kinds job)"
    using visible_winner_kinds(1) [OF inv' job', of None] won vT by auto
  then obtain w where w: "w \<in> set (visible_rows s j None)" "va_kind w = va_kind v"
    using visible_winner_kinds(1) [OF inv job, of None] won by (metis image_iff option.simps(4))
  obtain k b where b: "(k, b) \<in> set (pd_artifacts s)" "visible_row s j job (k, b) = Some w" using w(1) unfolding S by blast
  have bT: "(k, b) \<in> set (pd_artifacts t)" using b(1) zs by simp
  have wT: "visible_row t j job (k, b) = Some w" using visible_row_later [OF inv le job b(1)] b(2) by simp
  then have wT': "w \<in> set (visible_rows t j None)" unfolding T using bT by blast
  have "inj_on va_kind (set (visible_rows t j None))"
    using visible_winner_kinds(2) [OF inv' job', of None] won by (simp add: distinct_map)
  then have "w = v" by (rule inj_onD [OF _ w(2) wT' vT])
  then have "k = i" using visible_row_eq(2) [OF inv' bT wT] visible_row_eq(2) [OF inv' a v] by simp
  moreover have "distinct (map fst (pd_artifacts t))" using p_invD(5) [OF inv'] by (simp add: artifacts_ok_def)
  ultimately show False using b(1) x zs by force
qed

text \<open>
  C16. What readers see of a SUCCEEDED job never changes again, whatever leases, reservations, late
  publications, rejections, abandonments or cleanups follow.
\<close>

theorem winner_is_final:
  assumes run: "p_run ops empty_pub_db = Some s" and job: "map_of (q_jobs (pd_queue s)) j = Some job"
    and won: "qj_state job = SUCCEEDED" and later: "p_run ops' s = Some t"
  shows "map_of (q_jobs (pd_queue t)) j = Some job \<and> visible_winner j ns t = (fst (visible_winner j ns s), t)"
proof -
  have inv: "p_inv s" by (rule p_run_inv [OF run])
  have inv': "p_inv t" and le: "p_le s t" using p_run_inv' [OF later inv] p_run_le [OF later inv] by simp_all
  obtain job' where job': "map_of (q_jobs (pd_queue t)) j = Some job'" "qjob_le job job'"
    using q_le_job [of "pd_queue s" "pd_queue t"] le job unfolding p_le_def by blast
  then have same: "map_of (q_jobs (pd_queue t)) j = Some job" using won by (simp add: qjob_le_def)
  obtain zs where zs: "pd_artifacts t = pd_artifacts s @ zs" using le by (auto simp: p_le_def extends_def)
  have "List.map_filter (visible_row t j job) zs = []"
    using later_artifacts_hidden [OF inv inv' job same won le zs] by (auto simp: List.map_filter_def filter_empty_conv)
  moreover have "List.map_filter (visible_row t j job) (pd_artifacts s) = List.map_filter (visible_row s j job) (pd_artifacts s)"
    by (rule map_filter_same) (rule visible_row_later [OF inv le job])
  ultimately have "List.map_filter (visible_row t j job) (pd_artifacts t) = List.map_filter (visible_row s j job) (pd_artifacts s)"
    by (simp add: zs List.map_filter_def)
  then have "visible_rows t j ns = visible_rows s j ns" by (simp add: visible_rows_def job same)
  then show ?thesis using same by (simp add: visible_winner_eq [OF inv] visible_winner_eq [OF inv'])
qed

theorem winner_is_final_witness:
  "\<exists>t. p_run [PQueue (QWorker ''w2'' \<lparr>qw_deployment = ''d'', qw_state = W_READY, qw_heartbeat = None\<rparr>),
        PCleanup 600 ''p'' 3] (demo_db demo_finalized_ops) = Some t \<and>
     fst (visible_winner ''j'' None t) = fst (visible_winner ''j'' None (demo_db demo_finalized_ops))"
proof -
  let ?ops = "[PQueue (QWorker ''w2'' \<lparr>qw_deployment = ''d'', qw_state = W_READY, qw_heartbeat = None\<rparr>), PCleanup 600 ''p'' 3]"
  have "\<not> Option.is_none (p_run ?ops (demo_db demo_finalized_ops))" by code_simp
  then obtain t where t: "p_run ?ops (demo_db demo_finalized_ops) = Some t" by (auto simp: Option.is_none_def)
  then show ?thesis using winner_is_final [OF demo_runs(3) demo_job(1,2) t, of None] by auto
qed

section \<open>Finalization\<close>

text \<open>
  C14. Finalization is all or nothing. A call that raises has changed nothing. A call that returns had a
  current lease and VALIDATED rows of it at the requested versions, one per required kind and no others;
  it has made exactly these rows FINALIZED, the job SUCCEEDED with this attempt as its winner, and
  it returns what readers see.
\<close>

theorem finalize_all_or_nothing:
  assumes run: "p_run ops empty_pub_db = Some s" and us: "\<And>n. n < length req \<Longrightarrow> strip (us n) \<noteq> []"
  shows "case pub_finalize jsonb t t2 clk t' us l req s of
      (Inl e, s') \<Rightarrow> s' = s
    | (Inr vs, s') \<Rightarrow>
        (\<exists>a j. lease_row (pd_queue s) l = Some (a, j) \<and> unexpired t a \<and> qj_cancel j = None \<and>
           (\<forall>q \<in> set req. request_ready l s q) \<and> requested_kinds s req = set (qj_kinds j) \<and>
           map_of (q_jobs (pd_queue s')) (l_job l) =
             Some (j\<lparr>qj_state := SUCCEEDED, qj_current := None, qj_winning := Some (l_attempt l)\<rparr>) \<and>
           set (map va_kind vs) = set (qj_kinds j)) \<and>
        (\<forall>k \<in> pb_id ` set req. \<exists>r. map_of (pd_publications s') k = Some r \<and> pb_state r = PUB_FINALIZED) \<and>
        (\<forall>k. k \<notin> pb_id ` set req \<longrightarrow> map_of (pd_publications s') k = map_of (pd_publications s) k) \<and>
        visible_winner (l_job l) None s' = (Inr vs, s')"
proof -
  have inv: "p_inv s" by (rule p_run_inv [OF run])
  obtain x s' where p: "pub_finalize jsonb t t2 clk t' us l req s = (x, s')" by (cases "pub_finalize jsonb t t2 clk t' us l req s")
  have wp: "wp (\<lambda>e s'. s' = s) (\<lambda>vs s'. finalized_by t t' l req s s' \<and> vs = visible_rows s' (l_job l) None) (x, s')"
    unfolding p [symmetric] by (rule pub_finalize_all_or_nothing [OF inv]) (rule us)
  show ?thesis
  proof (cases x)
    case (Inl e)
    then show ?thesis using wp by (simp add: p wp_simps)
  next
    case (Inr vs)
    then have f: "finalized_by t t' l req s s'" and vs: "vs = visible_rows s' (l_job l) None" using wp by (simp_all add: wp_simps)
    then have inv': "p_inv s'" by (simp add: finalized_by_def)
    obtain a j where a: "lease_row (pd_queue s) l = Some (a, j)" "unexpired t a" "qj_cancel j = None"
      "\<forall>q \<in> set req. request_ready l s q" "requested_kinds s req = set (qj_kinds j)"
      and P: "\<forall>k. k \<notin> pb_id ` set req \<longrightarrow> map_of (pd_publications s') k = map_of (pd_publications s) k"
        "\<forall>k \<in> pb_id ` set req. \<exists>r. map_of (pd_publications s') k = Some r \<and> pb_state r = PUB_FINALIZED"
      and q: "pd_queue s' = won t' l (pd_queue s)" using f unfolding finalized_by_def by blast
    have j: "map_of (q_jobs (pd_queue s')) (l_job l) = Some (won_job l j)" by (simp add: q won_tables [OF a(1)])
    have "set (map va_kind vs) = set (qj_kinds j)"
      using visible_winner_kinds(1) [OF inv' j, of None] by (simp add: vs won_job_def)
    moreover have "map_of (q_jobs (pd_queue s')) (l_job l) =
        Some (j\<lparr>qj_state := SUCCEEDED, qj_current := None, qj_winning := Some (l_attempt l)\<rparr>)"
      using j by (simp add: won_job_def)
    moreover have "visible_winner (l_job l) None s' = (Inr vs, s')" by (simp add: visible_winner_eq [OF inv'] vs)
    ultimately show ?thesis using a P unfolding p Inr by simp
  qed
qed

theorem finalize_all_or_nothing_witness:
  "case pub_finalize Inr 500 500 (\<lambda>_. 500) 500 (\<lambda>_. ''u'') demo_please [demo_prequest] (demo_db demo_validated_ops) of
      (Inl e, s') \<Rightarrow> False
    | (Inr vs, s') \<Rightarrow> visible_winner ''j'' None s' = (Inr vs, s')"
proof -
  let ?p = "pub_finalize Inr 500 500 (\<lambda>_. 500) 500 (\<lambda>_. ''u'') demo_please [demo_prequest] (demo_db demo_validated_ops)"
  have "strip ''u'' \<noteq> []" by code_simp
  note * = finalize_all_or_nothing [OF demo_runs(2), where req = "[demo_prequest]" and us = "\<lambda>_. ''u''" and jsonb = Inr and t = 500
      and ?t2.0 = 500 and clk = "\<lambda>_. 500" and t' = 500 and l = demo_please, OF this]
  have ok: "case fst ?p of Inl e \<Rightarrow> False | Inr vs \<Rightarrow> True" by code_simp
  have j: "l_job demo_please = ''j''" by (simp add: demo_please_def)
  obtain x s' where p: "?p = (x, s')" by (cases ?p)
  with ok obtain vs where "x = Inr vs" by (cases x) simp_all
  with * p j show ?thesis by simp
qed

text \<open>
  C15. Finalization returns: when the lease is current at every reading of the clock, the requested rows
  are VALIDATED, not stale, and of exactly the required kinds, and the drawn identifiers are new, every
  statement passes the triggers, checks and unique indexes of its table - artifacts, ledger, attempts
  (lease shape, terminal immutability), events and jobs (lifecycle shape, artifacts of the winner) -
  and the commit passes the deferred ones.
\<close>

theorem finalize_succeeds:
  assumes run: "p_run ops empty_pub_db = Some s" and ready: "finalize_ready jsonb t t2 clk t' us l req s"
  shows "\<exists>vs s'. pub_finalize jsonb t t2 clk t' us l req s = (Inr vs, s')"
  using pub_finalize_returns [OF p_run_inv [OF run] ready] by (simp add: returns_eq)

theorem finalize_succeeds_witness:
  "\<exists>vs s'. pub_finalize Inr 500 500 (\<lambda>_. 500) 500 (\<lambda>_. ''u'') demo_please [demo_prequest] (demo_db demo_validated_ops) = (Inr vs, s')"
proof (rule finalize_succeeds [OF demo_runs(2)])
  let ?s = "demo_db demo_validated_ops"
  have row: "case map_of (pd_publications ?s) ''p'' of None \<Rightarrow> False | Some r \<Rightarrow>
      pb_state r = PUB_VALIDATED \<and> pb_version r = 2 \<and> pb_job r = ''j'' \<and> pb_attempt r = ''a'' \<and> pb_worker r = ''w'' \<and>
      pb_epoch r = 1 \<and> pb_stale_since r = None \<and> pb_kind r = OUTPUT" by code_simp
  have job: "case map_of (q_jobs (pd_queue ?s)) ''j'' of None \<Rightarrow> False | Some j \<Rightarrow> qj_kinds j = [OUTPUT]" by code_simp
  have cur: "assert_current 500 demo_please (pd_queue ?s) = Inr ()" by code_simp
  have u: "strip ''u'' \<noteq> [] \<and> ''u'' \<notin> set (map fst (pd_artifacts ?s))" by code_simp
  have req: "pb_id demo_prequest = ''p''" "pb_version demo_prequest = 2" by code_simp+
  have l: "l_job demo_please = ''j''" "l_attempt demo_please = ''a''" "l_worker demo_please = ''w''" "l_epoch demo_please = 1"
    by (simp_all add: demo_please_def)
  show "finalize_ready Inr 500 500 (\<lambda>_. 500) 500 (\<lambda>_. ''u'') demo_please [demo_prequest] ?s"
    using row job cur u
    by (auto simp: finalize_ready_def request_ready_def requested_kinds_def owned_by_def req l inj_on_def split: option.splits)
qed

section \<open>Abandoning\<close>

text \<open>
  C18. A publication is abandoned only when its grace period of five minutes is over by the clock of the
  database and its lease is not current; the start of the period is recorded once, by a call that
  raises, and only while the lease is not current. No other row changes.
\<close>

theorem abandon_waits_for_grace:
  assumes run: "p_run ops empty_pub_db = Some s"
  shows "case pub_abandon t t' i v reason s of
      (Inl e, s') \<Rightarrow> s' = s \<or>
        (\<exists>old r. map_of (pd_publications s) i = Some old \<and> pb_stale_since old = None \<and> \<not> pub_terminal (pb_state old) \<and>
           \<not> publication_current t' (pd_queue s) old \<and> pb_stale_since r = Some t' \<and> pb_state r = pb_state old \<and>
           s' = s\<lparr>pd_publications := set_row i (\<lambda>_. r) (pd_publications s)\<rparr>)
    | (Inr p, s') \<Rightarrow>
        (\<exists>old r x. map_of (pd_publications s) i = Some old \<and> pb_version old = v \<and> \<not> pub_terminal (pb_state old) \<and>
           pb_stale_since old = Some x \<and> x + seconds 300 \<le> t' \<and> \<not> publication_current t' (pd_queue s) old \<and>
           pb_state r = PUB_ABANDONED \<and> pb_reason r = Some reason \<and> p = record_of r \<and>
           s' = s\<lparr>pd_publications := set_row i (\<lambda>_. r) (pd_publications s)\<rparr>)"
proof -
  have inv: "p_inv s" by (rule p_run_inv [OF run])
  obtain x s' where p: "pub_abandon t t' i v reason s = (x, s')" by (cases "pub_abandon t t' i v reason s")
  note wp = pub_abandon_wp [OF inv, of t' i v reason t, unfolded p]
  show ?thesis
  proof (cases x)
    case (Inl e)
    then have "s' = s \<or> (\<exists>old r. stale_marked t' i v old r s s')" using wp by (simp add: wp_simps)
    then show ?thesis
      unfolding p Inl by (auto simp: stale_marked_def moved_quietly_def row_moved_def pub_open_not_terminal)
  next
    case (Inr q)
    then obtain old r where "abandoned_row t' i v reason old r s s'" "q = record_of r" using wp by (auto simp: wp_simps)
    then show ?thesis
      unfolding p Inr
      by (auto simp: abandoned_row_def moved_quietly_def row_moved_def pub_open_not_terminal grace_def intro!: exI [of _ old] exI [of _ r])
  qed
qed

definition demo_stale_ops :: "pub_op list" where
  "demo_stale_ops = demo_reserved_ops @ [PAbandon 2000000 2000000 ''p'' 0 ''lost'']"

lemma demo_stale_run: "p_run demo_stale_ops empty_pub_db = Some (demo_db demo_stale_ops)"
proof -
  have "\<not> Option.is_none (p_run demo_stale_ops empty_pub_db)" by code_simp
  then show ?thesis by (simp add: demo_db_def Option.is_none_def)
qed

theorem abandon_waits_for_grace_witness:
  "\<exists>q s'. pub_abandon 302000000 302000000 ''p'' 1 ''lost'' (demo_db demo_stale_ops) = (Inr q, s') \<and>
     (\<exists>old x. map_of (pd_publications (demo_db demo_stale_ops)) ''p'' = Some old \<and>
        pb_stale_since old = Some x \<and> x + seconds 300 \<le> 302000000)"
proof -
  let ?p = "pub_abandon 302000000 302000000 ''p'' 1 ''lost'' (demo_db demo_stale_ops)"
  have ok: "case fst ?p of Inl e \<Rightarrow> False | Inr vs \<Rightarrow> True" by code_simp
  obtain x s' where p: "?p = (x, s')" by (cases ?p)
  with ok obtain q where "x = Inr q" by (cases x) simp_all
  with abandon_waits_for_grace [OF demo_stale_run, where t = 302000000 and t' = 302000000 and i = "''p''" and v = 1
      and reason = "''lost''"] p show ?thesis by auto
qed

section \<open>Leases that are lost\<close>

text \<open>
  C19. Once the attempt of a lease has ended, no later run lets it reserve, record an object, validate,
  reject or finalize: each call raises and leaves every table as it was.
\<close>

theorem lost_lease_publishes_nothing:
  assumes run: "p_run ops empty_pub_db = Some s" and over: "p_lease_over s l" and later: "p_run ops' s = Some t"
  shows "(\<exists>e. reserve jsonb c c' u l sp t = (Inl e, t)) \<and> (\<exists>e. record_object c c' l i v h n t = (Inl e, t)) \<and>
    (\<exists>e. record_validated jsonb c c' l i v b m t = (Inl e, t)) \<and> (\<exists>e. pub_reject c c' l i v reason t = (Inl e, t)) \<and>
    (\<exists>e. pub_finalize jsonb c c2 clk c' us l req t = (Inl e, t))"
proof -
  have "\<not> p_lease_holds t l" by (rule p_run_fenced [OF later p_run_inv [OF run] over])
  then obtain e where e: "lock_lease c l t = Inl e"
    using lock_lease_holds [of c l t] by (cases "lock_lease c l t") auto
  show ?thesis
    by (auto simp: reserve_def record_object_def record_validated_def pub_reject_def terminalize_def pub_finalize_def
        finalize_body_def fenced_publication_def transaction_def lift_def sbind_def fail_def raise_def e split: sum.splits)
qed

definition demo_over_ops :: "pub_op list" where
  "demo_over_ops = demo_reserved_ops @ [PQueue (QFail no_locks 300 300 demo_please 1 3)]"

theorem lost_lease_publishes_nothing_witness:
  "\<exists>e. record_object 400 400 demo_please ''p'' 0 demo_psha 3 (demo_db demo_over_ops) = (Inl e, demo_db demo_over_ops)"
proof -
  have "\<not> Option.is_none (p_run demo_over_ops empty_pub_db)" by code_simp
  then have run: "p_run demo_over_ops empty_pub_db = Some (demo_db demo_over_ops)"
    by (simp add: demo_db_def Option.is_none_def)
  have "case map_of (q_attempts (pd_queue (demo_db demo_over_ops))) (l_attempt demo_please) of
      None \<Rightarrow> False | Some a \<Rightarrow> qa_state a \<noteq> ATT_ACTIVE" by code_simp
  then have over: "p_lease_over (demo_db demo_over_ops) demo_please"
    by (auto simp: p_lease_over_def lease_over_def split: option.splits)
  have "p_run [] (demo_db demo_over_ops) = Some (demo_db demo_over_ops)" by (simp add: p_run_def)
  from lost_lease_publishes_nothing [OF run over this] show ?thesis by blast
qed

section \<open>The life of a row\<close>

text \<open>
  C20. Over every run a publication keeps its identity and everything once recorded about its object,
  its blob, its validation and the start of its grace period; its version grows with every change,
  its state never goes back, and once FINALIZED, REJECTED or ABANDONED it stays so with all its evidence.
\<close>

theorem publications_never_regress:
  assumes run: "p_run ops empty_pub_db = Some s" and later: "p_run ops' s = Some t"
    and row: "map_of (pd_publications s) i = Some r"
  shows "\<exists>r'. map_of (pd_publications t) i = Some r' \<and> same_identity_row r r' \<and>
    (r' = r \<or> pb_version r < pb_version r') \<and> state_rank (pb_state r) \<le> state_rank (pb_state r') \<and>
    (pb_object_key r \<noteq> None \<longrightarrow> pb_object_key r' = pb_object_key r) \<and>
    (pb_observed_sha256 r \<noteq> None \<longrightarrow> pb_observed_sha256 r' = pb_observed_sha256 r \<and> pb_observed_size r' = pb_observed_size r) \<and>
    (pb_blob r \<noteq> None \<longrightarrow> pb_blob r' = pb_blob r) \<and>
    (pb_stale_since r \<noteq> None \<longrightarrow> pb_stale_since r' = pb_stale_since r) \<and>
    (pub_terminal (pb_state r) \<longrightarrow> pb_state r' = pb_state r \<and> same_evidence r r')"
proof -
  have "p_le s t" by (rule p_run_le [OF later p_run_inv [OF run]])
  then obtain r' where r': "map_of (pd_publications t) i = Some r'" "pub_le r r'"
    using row unfolding p_le_def grows_def by blast
  then have "observed r \<noteq> None \<longrightarrow> observed r' = observed r" by (simp add: pub_le_def kept_def)
  then have "pb_observed_sha256 r \<noteq> None \<longrightarrow> pb_observed_sha256 r' = pb_observed_sha256 r \<and> pb_observed_size r' = pb_observed_size r"
    by (auto simp: observed_def)
  with r' show ?thesis by (auto simp: pub_le_def kept_def intro!: exI [of _ r'])
qed

theorem publications_never_regress_witness:
  "\<exists>r'. map_of (pd_publications (demo_db demo_validated_ops)) ''p'' = Some r' \<and> pb_version r' \<ge> 0 \<and>
     same_identity_row (the (map_of (pd_publications (demo_db demo_reserved_ops)) ''p'')) r'"
proof -
  let ?r = "map_of (pd_publications (demo_db demo_reserved_ops)) ''p''"
  let ?ops = "drop 4 demo_validated_ops"
  have "p_run (demo_reserved_ops @ ?ops) empty_pub_db = Some (demo_db demo_validated_ops)"
    using demo_runs(2) by (simp add: demo_validated_ops_def demo_reserved_ops_def demo_claimed_ops_def)
  then have later: "p_run ?ops (demo_db demo_reserved_ops) = Some (demo_db demo_validated_ops)"
    using demo_runs(1) by (simp add: p_run_def guarded_run_append)
  have "case ?r of None \<Rightarrow> False | Some r \<Rightarrow> pb_version r = 0" by code_simp
  then obtain r where r: "?r = Some r" "pb_version r = 0" by (auto split: option.splits)
  from publications_never_regress [OF demo_runs(1) later r(1)] r show ?thesis by auto
qed

section \<open>Reserving again\<close>

lemma insert_publication_checks:
  "insert_publication t r s = (Inr b, s') \<Longrightarrow>
     bigints [Some (pb_max_size r), pb_expected_size r] = Inr () \<and> row_check (inserted_row t r) = Inr ()"
  by (auto simp: insert_publication_def lift_def insert_guard_def lease_guard_def inserted_row_def Let_def
      split: sum.splits if_splits)

lemma reserve_checks:
  assumes "reserve jsonb t t' u l sp s = (Inr p, s')"
  shows "\<exists>m. jsonb (ps_metadata sp) = Inr m \<and> bigints [Some (ps_max_size sp), ps_expected_size sp] = Inr () \<and>
    row_check (inserted_row t' (reserved_row u l sp m)) = Inr ()"
proof -
  obtain m where m: "jsonb (ps_metadata sp) = Inr m" and "\<exists>b s1. insert_publication t' (reserved_row u l sp m) s = (Inr b, s1)"
    using assms by (auto simp: reserve_def transaction_def lift_def sbind_def split: sum.splits prod.splits)
  then obtain b s1 where "insert_publication t' (reserved_row u l sp m) s = (Inr b, s1)" by blast
  from insert_publication_checks [OF this] show ?thesis using m by (auto simp: reserved_row_def)
qed

lemma row_check_reserved:
  "row_check (inserted_row t (reserved_row u l sp m)) = row_check (inserted_row t' (reserved_row u' l sp m))"
  by (simp add: row_check_def reserved_row_def inserted_row_def agree_def state_shape_def)

text \<open>
  Reserving is idempotent: after a reservation, and whatever has happened since, a call with the
  same lease and specification returns the same publication and changes nothing, as long as the lease
  is current and the metadata have come back from their column as they were.
\<close>

theorem reserve_idempotent:
  assumes run: "p_run ops empty_pub_db = Some s" and u: "strip u \<noteq> []" and sp: "new_PublicationSpec sp = Inr sp"
    and first: "reserve jsonb t t' u l sp s = (Inr p, s1)" and meta: "py_eq (pb_metadata p) (ps_metadata sp)"
    and later: "p_run ops' s1 = Some s2"
    and cur: "assert_current c l (pd_queue s2) = Inr ()" "assert_current c' l (pd_queue s2) = Inr ()"
  shows "\<exists>p'. reserve jsonb c c' u' l sp s2 = (Inr p', s2) \<and> pb_id p' = pb_id p \<and> matches_spec p' l sp"
proof -
  have inv: "p_inv s" by (rule p_run_inv [OF run])
  have inv1: "p_inv s1" using p_step_sound [OF inv, of "PReserve jsonb t t' u l sp"] u sp first by simp
  have inv2: "p_inv s2" and le: "p_le s1 s2" using p_run_inv' [OF later inv1] p_run_le [OF later inv1] by simp_all
  obtain m where m: "jsonb (ps_metadata sp) = Inr m" "bigints [Some (ps_max_size sp), ps_expected_size sp] = Inr ()"
    "row_check (inserted_row t' (reserved_row u l sp m)) = Inr ()" using reserve_checks [OF first] by blast
  have "\<exists>i r. map_of (pd_publications s1) i = Some r \<and> p = record_of r \<and> matches_spec p l sp"
    using wp_value [OF reserve_wp [OF inv u sp] first]
  proof (elim conjE disjE exE)
    fix m' r assume r: "r = inserted_row t' (reserved_row u l sp m')" "row_added u r s s1" "p = record_of r"
    then have "map_of (pd_publications s1) u = Some r" by (simp add: row_added_def map_of_add_row)
    moreover have "matches_spec p l sp" using r meta by (simp add: matches_spec_def inserted_row_def reserved_row_def)
    ultimately show ?thesis using r(3) by blast
  qed blast
  then obtain i r where r: "map_of (pd_publications s1) i = Some r" "p = record_of r" "matches_spec p l sp" by blast
  obtain r2 where r2: "map_of (pd_publications s2) i = Some r2" "pub_le r r2"
    using le r(1) unfolding p_le_def grows_def by blast
  have id: "same_identity_row r r2" using r2(2) by (simp add: pub_le_def)
  have ms: "matches_spec (record_of r2) l sp" "pb_id (record_of r2) = pb_id p"
    using r(2,3) id by (simp_all add: matches_spec_def same_identity_row_def)
  have "row_check (inserted_row c' (reserved_row u' l sp m)) = Inr ()"
    using m(3) row_check_reserved [of c' u' l sp m t' u] by simp
  then have "reserve jsonb c c' u' l sp s2 = (Inr (record_of r2), s2)"
    by (rule reserve_again [where jsonb = jsonb and m = m, OF inv2 r2(1) ms(1) cur m(1,2)])
  then show ?thesis using ms by blast
qed

theorem reserve_idempotent_witness:
  "\<exists>p'. reserve Inr 300 300 ''q'' demo_please demo_spec (demo_db demo_reserved_ops) = (Inr p', demo_db demo_reserved_ops)"
proof -
  have "\<not> Option.is_none (p_run demo_claimed_ops empty_pub_db)" by code_simp
  then have run: "p_run demo_claimed_ops empty_pub_db = Some (demo_db demo_claimed_ops)"
    by (simp add: demo_db_def Option.is_none_def)
  have u: "strip ''p'' \<noteq> []" by code_simp
  have sp: "new_PublicationSpec demo_spec = Inr demo_spec" by code_simp
  have ok: "case reserve Inr 200 200 ''p'' demo_please demo_spec (demo_db demo_claimed_ops) of
      (Inl e, s) \<Rightarrow> False | (Inr p, s) \<Rightarrow> py_eq (pb_metadata p) (ps_metadata demo_spec)" by code_simp
  obtain x s1 where x: "reserve Inr 200 200 ''p'' demo_please demo_spec (demo_db demo_claimed_ops) = (x, s1)" by fastforce
  with ok obtain p where p: "x = Inr p" "py_eq (pb_metadata p) (ps_metadata demo_spec)" by (cases x) auto
  have "p_run (demo_claimed_ops @ [PReserve Inr 200 200 ''p'' demo_please demo_spec]) empty_pub_db = Some (demo_db demo_reserved_ops)"
    using demo_runs(1) by (simp add: demo_reserved_ops_def)
  then have s1: "s1 = demo_db demo_reserved_ops" using run x u sp by (simp add: p_run_def guarded_run_append)
  have cur: "assert_current 300 demo_please (pd_queue (demo_db demo_reserved_ops)) = Inr ()" by code_simp
  have "p_run [] (demo_db demo_reserved_ops) = Some (demo_db demo_reserved_ops)" by (simp add: p_run_def)
  from reserve_idempotent [OF run u sp x [unfolded p(1) s1] p(2) this cur cur] show ?thesis by blast
qed

end
