(* ===== verification/Uuid.thy ===== *)
theory Uuid
  imports PyValues
begin

text \<open>
  What the upload side uses of Python's \<open>uuid.UUID\<close>: the constructor on a text (prefixes,
  braces and hyphens are dropped, 32 characters have to remain, \<open>int(_, 16)\<close> reads them) and
  \<open>str\<close>, the canonical lowercase form.
\<close>

function remove_all :: "string \<Rightarrow> string \<Rightarrow> string" where
  "remove_all p [] = []"
| "remove_all p (c # s) =
     (if p \<noteq> [] \<and> is_prefix p (c # s) then remove_all p (drop (length p) (c # s))
      else c # remove_all p s)"
  by pat_completeness auto
termination by (relation "measure (\<lambda>(p, s). length s)") auto

definition strip_braces :: "string \<Rightarrow> string" where
  "strip_braces s =
     (let b = (\<lambda>c. c = CHR 0x7B \<or> c = CHR 0x7D)
      in rev (dropWhile b (rev (dropWhile b s))))"

definition uuid_hex :: "string \<Rightarrow> string" where
  "uuid_hex s = filter (\<lambda>c. c \<noteq> CHR ''-'') (strip_braces (remove_all ''uuid:'' (remove_all ''urn:'' s)))"

definition uuid_parse :: "string \<Rightarrow> int res" where
  "uuid_parse s =
     (let h = uuid_hex s in
      if length h \<noteq> 32 then raise ValueError ''badly formed hexadecimal UUID string''
      else case int16 h of
        None \<Rightarrow> raise ValueError (''invalid literal for int() with base 16: '' @ h)
      | Some n \<Rightarrow> if 0 \<le> n \<and> n < 2 ^ 128 then Inr n
                  else raise ValueError ''int is out of range (need a 128-bit value)'')"

text \<open>The 32 hexadecimal digits, most significant first.\<close>

fun hex_digits :: "nat \<Rightarrow> nat \<Rightarrow> string" where
  "hex_digits 0 n = []"
| "hex_digits (Suc w) n = hex_digits w (n div 16) @ [digit_char (n mod 16)]"

definition uuid_str :: "int \<Rightarrow> string" where
  "uuid_str n =
     (let h = hex_digits 32 (nat n)
      in take 8 h @ ''-'' @ take 4 (drop 8 h) @ ''-'' @ take 4 (drop 12 h) @ ''-'' @
         take 4 (drop 16 h) @ ''-'' @ drop 20 h)"

text \<open>\<open>str(UUID(s))\<close>.\<close>

definition uuid_canonical :: "string \<Rightarrow> string res" where
  "uuid_canonical s = after (uuid_parse s) (\<lambda>n. Inr (uuid_str n))"

section \<open>The canonical form is a normal form\<close>

lemma length_hex_digits [simp]: "length (hex_digits w n) = w"
  by (induction w arbitrary: n) auto

lemma hex_digits_lower: "list_all hex_lower (hex_digits w n)"
  by (induction w arbitrary: n) (simp_all add: hex_lower_digit_char)

lemma int_digits_hex_digits:
  assumes "n < 16 ^ w"
  shows "w > 0 \<or> any \<Longrightarrow> int_digits 16 False any acc (hex_digits w n @ s) =
           (if w = 0 then int_digits 16 False any acc s else int_digits 16 False True (acc * 16 ^ w + n) s)"
  using assms
proof (induction w arbitrary: n s any)
  case 0
  then show ?case by simp
next
  case (Suc w)
  have d: "n mod 16 < 16" and n: "n div 16 < 16 ^ w"
    using Suc.prems(2) by (auto simp: less_mult_imp_div_less mult.commute)
  have c: "digit_char (n mod 16) \<noteq> CHR ''_''"
    using hex_lower_facts(1) [OF hex_lower_digit_char [OF d]] by simp
  show ?case
  proof (cases "w = 0")
    case True
    then show ?thesis using Suc.prems d c digit_value_digit_char [OF d] by simp
  next
    case False
    have "int_digits 16 False any acc (hex_digits w (n div 16) @ (digit_char (n mod 16) # s)) =
        int_digits 16 False True (acc * 16 ^ w + n div 16) (digit_char (n mod 16) # s)"
      using Suc.IH [OF _ n, of any "digit_char (n mod 16) # s"] False by simp
    then show ?thesis using d c digit_value_digit_char [OF d]
      by (simp add: algebra_simps) 
  qed
qed

lemma remove_all_id:
  "c \<in> set p \<Longrightarrow> c \<notin> set s \<Longrightarrow> remove_all p s = s"
proof (induction p s rule: remove_all.induct)
  case (2 p x s)
  have "\<not> is_prefix p (x # s)"
  proof
    assume "is_prefix p (x # s)"
    then obtain t where "x # s = p @ t" by (auto simp: is_prefix_iff)
    then have "set p \<subseteq> set (x # s)" by simp
    then show False using 2 by blast
  qed
  then show ?case using 2 by simp
qed simp

lemma dropWhile_id: "\<forall>c \<in> set s. \<not> P c \<Longrightarrow> dropWhile P s = s"
  by (cases s) auto

lemma uuid_hex_str: "uuid_hex (uuid_str n) = hex_digits 32 (nat n)"
proof -
  let ?h = "hex_digits 32 (nat n)"
  have lower: "c \<in> set ?h \<Longrightarrow> hex_lower c" for c
    using hex_digits_lower [of 32 "nat n"] by (simp add: list_all_iff)
  have no: "c \<notin> set ?h" if "\<not> hex_lower c" for c using lower that by blast
  have sub: "set (take a (drop b ?h)) \<subseteq> set ?h" "set (drop b ?h) \<subseteq> set ?h" for a b
    by (meson order_trans set_drop_subset set_take_subset) (simp add: set_drop_subset)
  have chars: "set (uuid_str n) \<subseteq> insert CHR ''-'' (set ?h)"
    by (auto simp: uuid_str_def Let_def dest: in_set_takeD in_set_dropD)
  have "\<not> hex_lower CHR '':''" "\<not> hex_lower CHR ''-''" "\<not> hex_lower CHR 0x7B" "\<not> hex_lower CHR 0x7D"
    by (simp_all add: hex_lower_def code_def)
  note no = this [THEN no]
  have "CHR '':'' \<notin> set (uuid_str n)" using chars no by auto
  then have r: "remove_all ''urn:'' (uuid_str n) = uuid_str n" "remove_all ''uuid:'' (uuid_str n) = uuid_str n"
    by (auto intro: remove_all_id [where c = "CHR '':''"])
  have "\<forall>c \<in> set (uuid_str n). \<not> (c = CHR 0x7B \<or> c = CHR 0x7D)" using chars no by auto
  then have b: "strip_braces (uuid_str n) = uuid_str n"
    by (simp add: strip_braces_def dropWhile_id)
  have keep: "filter (\<lambda>c. c \<noteq> CHR ''-'') xs = xs" if "set xs \<subseteq> set ?h" for xs
    using that no by (auto simp: filter_id_conv)
  have "filter (\<lambda>c. c \<noteq> CHR ''-'') (uuid_str n) =
      take 8 ?h @ take 4 (drop 8 ?h) @ take 4 (drop 12 ?h) @ take 4 (drop 16 ?h) @ drop 20 ?h"
    using sub set_take_subset [of 8 ?h] by (simp add: uuid_str_def Let_def keep)
  also have "\<dots> = ?h"
  proof -
    have t: "take a (drop b ?h) @ drop (a + b) ?h = drop b ?h" for a b
      by (metis append_take_drop_id drop_drop)
    show ?thesis using t [of 4 16] t [of 4 12] t [of 4 8] t [of 8 0] by simp
  qed
  finally show ?thesis by (simp add: uuid_hex_def r b)
qed

lemma int16_hex:
  assumes "n < 16 ^ w" and "1 < w"
  shows "int16 (hex_digits w n) = Some (int n)"
proof -
  let ?h = "hex_digits w n"
  have low: "list_all hex_lower ?h" by (rule hex_digits_lower)
  obtain c c' t where h: "?h = c # c' # t"
    using assms(2) length_hex_digits [of w n] by (cases ?h; cases "tl ?h") auto
  then have hc: "hex_lower c" "hex_lower c'" using low by simp_all
  have "drop_hex_prefix ?h = ?h"
    using hex_lower_facts(4,5) [OF hc(2)] by (auto simp: drop_hex_prefix_def startswith_def h)
  moreover have "int_body 16 ?h = int_digits 16 False False 0 ?h"
    using hex_lower_facts(1) [OF hc(1)] by (simp add: int_body_def h)
  moreover have "int_signed f ?h = map_option int (f ?h)" for f
    using hex_lower_facts(2,3) [OF hc(1)] by (auto simp: int_signed_def startswith_def h)
  moreover have "int_digits 16 False False 0 ?h = Some n"
    using int_digits_hex_digits [OF assms(1), of False 0 "[]"] assms(2) by simp
  ultimately show ?thesis by (simp add: int16_def int_strip_hex [OF low])
qed

lemma uuid_parse_str: "0 \<le> n \<Longrightarrow> n < 2 ^ 128 \<Longrightarrow> uuid_parse (uuid_str n) = Inr n"
proof -
  assume n: "0 \<le> n" "n < 2 ^ 128"
  then have "nat n < 16 ^ 32" by (simp add: nat_less_iff)
  from int16_hex [OF this] n show ?thesis by (simp add: uuid_parse_def uuid_hex_str Let_def)
qed

text \<open>The form without hyphens (\<open>uuid4().hex\<close>) denotes the same identifier.\<close>

lemma uuid_hex_hex: "uuid_hex (hex_digits 32 m) = hex_digits 32 m"
proof -
  let ?h = "hex_digits 32 m"
  have no: "c \<notin> set ?h" if "\<not> hex_lower c" for c
    using hex_digits_lower [of 32 m] that by (auto simp: list_all_iff)
  have "\<not> hex_lower CHR '':''" "\<not> hex_lower CHR ''-''" "\<not> hex_lower CHR 0x7B" "\<not> hex_lower CHR 0x7D"
    by (simp_all add: hex_lower_def code_def)
  note no = this [THEN no]
  have r: "remove_all ''urn:'' ?h = ?h" "remove_all ''uuid:'' ?h = ?h"
    using no(1) by (auto intro: remove_all_id [where c = "CHR '':''"])
  have "\<forall>c \<in> set ?h. \<not> (c = CHR 0x7B \<or> c = CHR 0x7D)" using no by auto
  then have b: "strip_braces ?h = ?h" by (simp add: strip_braces_def dropWhile_id)
  have "filter (\<lambda>c. c \<noteq> CHR ''-'') ?h = ?h" using no by (auto simp: filter_id_conv)
  then show ?thesis by (simp add: uuid_hex_def r b)
qed

lemma uuid_canonical_hex:
  assumes "0 \<le> n" and "n < 2 ^ 128"
  shows "uuid_canonical (hex_digits 32 (nat n)) = Inr (uuid_str n)"
proof -
  have "nat n < 16 ^ 32" using assms by (simp add: nat_less_iff)
  from int16_hex [OF this] assms show ?thesis
    by (simp add: uuid_canonical_def uuid_parse_def uuid_hex_hex Let_def)
qed

lemma uuid_parse_range: "uuid_parse s = Inr n \<Longrightarrow> 0 \<le> n \<and> n < 2 ^ 128"
  by (auto simp: uuid_parse_def Let_def split: if_splits option.splits)

lemma uuid_canonical_idem: "uuid_canonical s = Inr u \<Longrightarrow> uuid_canonical u = Inr u"
  using uuid_parse_range uuid_parse_str by (auto simp: uuid_canonical_def after_eq_Inr) 

lemma uuid_str_inj: "0 \<le> m \<Longrightarrow> m < 2 ^ 128 \<Longrightarrow> 0 \<le> n \<Longrightarrow> n < 2 ^ 128 \<Longrightarrow> uuid_str m = uuid_str n \<Longrightarrow> m = n"
  by (metis uuid_parse_str sum.inject(2))

lemma uuid_chars: "uuid_canonical s = Inr u \<Longrightarrow> c \<in> set u \<Longrightarrow> hex_lower c \<or> c = CHR ''-''"
proof -
  assume "uuid_canonical s = Inr u" and c: "c \<in> set u"
  then obtain n where "u = uuid_str n" by (auto simp: uuid_canonical_def after_eq_Inr)
  with c have "c = CHR ''-'' \<or> c \<in> set (hex_digits 32 (nat n))"
    by (auto simp: uuid_str_def Let_def dest: in_set_takeD in_set_dropD)
  then show ?thesis using hex_digits_lower [of 32 "nat n"] by (auto simp: list_all_iff)
qed

end
