(* ===== verification/Uploads.thy ===== *)
theory Uploads
  imports Uuid Storage Domain Tables
begin

text \<open>
  The verified-upload side of \<open>durable/uploads.py\<close>: the session record and its checks, media
  information, both staging stores, the in-memory upload repository, and \<open>UploadVerifier\<close> over any
  repository, staging store, canonical store and media probe. Times are instants; a clock
  reading is an argument of the operation that makes it, as are drawn identifiers.
\<close>

section \<open>Sessions\<close>

datatype upload_mode = SINGLE | MULTIPART
datatype upload_state =
  U_INITIATED | U_UPLOADED | U_VERIFYING | U_VERIFIED | U_REJECTED | U_EXPIRED

datatype datetime = NaiveTime int | AwareTime int

fun instant :: "datetime \<Rightarrow> int" where
  "instant (NaiveTime t) = t"
| "instant (AwareTime t) = t"

fun is_aware :: "datetime \<Rightarrow> bool" where
  "is_aware (NaiveTime t) = False"
| "is_aware (AwareTime t) = True"

record upload_session =
  us_session_id :: string
  us_namespace_id :: string
  us_mode :: upload_mode
  us_expected_size_bytes :: int
  us_staging_key :: string
  us_expires_at :: datetime
  us_expected_sha256 :: "string option"
  us_state :: upload_state
  us_version :: int
  us_verified_blob_id :: "string option"
  us_verified_asset_id :: "string option"
  us_rejection_reason :: "string option"

definition upload_sha256 :: "string \<Rightarrow> unit res" where
  "upload_sha256 s = require (sha256_text_ok s) ValueError ''sha256 must be lowercase 64-character hexadecimal''"

definition new_UploadSession :: "upload_session \<Rightarrow> upload_session res" where
  "new_UploadSession u =
     after (uuid_canonical (us_session_id u)) (\<lambda>cid.
     after (checks
       [require (strip (us_namespace_id u) \<noteq> []) ValueError ''namespace_id must be non-empty'',
        require (0 \<le> us_expected_size_bytes u) ValueError ''expected_size_bytes must be non-negative'',
        require (us_staging_key u = ''staging/'' @ cid) ValueError
          ''staging_key must exactly bind the upload session UUID'',
        require (is_aware (us_expires_at u)) ValueError ''expires_at must be timezone-aware'',
        (case us_expected_sha256 u of None \<Rightarrow> Inr () | Some h \<Rightarrow> upload_sha256 h),
        require (0 \<le> us_version u) ValueError ''version must be non-negative'',
        (let verified = (us_state u = U_VERIFIED);
             b = us_verified_blob_id u; a = us_verified_asset_id u in
         checks
           [require (verified = (b \<noteq> None \<and> a \<noteq> None)) ValueError
              ''verified pointer shape does not match state'',
            require (verified \<or> (b = None \<and> a = None)) ValueError
              ''non-verified session cannot have verified pointers'']),
        (if us_state u = U_REJECTED
         then require (us_rejection_reason u \<noteq> None \<and> us_rejection_reason u \<noteq> Some [])
                ValueError ''rejected session requires a reason''
         else require (us_rejection_reason u = None)
                ValueError ''only a rejected session may have a rejection reason'')])
       (\<lambda>_. Inr u))"

section \<open>Media information and the command probe\<close>

record media_info =
  mi_media_type :: string
  mi_duration_seconds :: pyval

definition positive_finite :: "pyval \<Rightarrow> bool" where
  "positive_finite v =
     (case v of PInt n \<Rightarrow> 0 < n | PFloat (FFin q) \<Rightarrow> 0 < q | _ \<Rightarrow> False)"

definition new_MediaInfo :: "string \<Rightarrow> pyval \<Rightarrow> media_info res" where
  "new_MediaInfo t d =
     after (checks [require (t \<noteq> []) ValueError ''media_type must be non-empty'',
                    require (positive_finite d) ValueError ''duration_seconds must be finite and positive''])
       (\<lambda>_. Inr \<lparr>mi_media_type = t, mi_duration_seconds = d\<rparr>)"

text \<open>
  \<open>CommandMediaProbe.probe_path\<close> after the process has run: \<open>run\<close> is the outcome of
  \<open>_run_limited\<close> (the decoded and parsed standard output and the exit code), \<open>to_float\<close> is
  \<open>float(_)\<close> on a JSON value.
\<close>

definition allowed_media_types :: "string list" where
  "allowed_media_types = [''audio/wav'', ''audio/mpeg'', ''audio/flac'', ''video/mp4'']"

definition probe_run_caught :: "exc \<Rightarrow> bool" where
  "probe_run_caught e = instance_of_any e [OSError, TimeoutExpired, TimeoutError]"

definition invalid_metadata :: "'a res" where
  "invalid_metadata = raise ValueError ''media probe returned invalid metadata''"

definition probe_path ::
  "(pyval \<Rightarrow> pyfloat res) \<Rightarrow> (pyval res \<times> int) res \<Rightarrow> media_info res"
where
  "probe_path to_float run =
     (case run of
        Inl e \<Rightarrow> if probe_run_caught e then raise ValueError ''media probe failed'' else Inl e
      | Inr (parsed, returncode) \<Rightarrow>
          if returncode \<noteq> 0 then raise ValueError ''media probe rejected staged object''
          else (case parsed of
            Inl e \<Rightarrow> if instance_of_any e [KeyError, TypeError, ValueError] then invalid_metadata else Inl e
          | Inr payload \<Rightarrow>
              (case payload of
                 PDict items \<Rightarrow>
                   if set (map fst items) \<noteq> {PStr ''media_type'', PStr ''duration_seconds''} then invalid_metadata
                   else (case (map_of items (PStr ''media_type''), map_of items (PStr ''duration_seconds'')) of
                     (Some (PStr t), Some d) \<Rightarrow>
                       if is_bool d then invalid_metadata
                       else (case to_float d of
                         Inl e \<Rightarrow> if instance_of_any e [KeyError, TypeError, ValueError] then invalid_metadata else Inl e
                       | Inr f \<Rightarrow>
                           if t \<notin> set allowed_media_types \<or> \<not> positive_finite (PFloat f)
                           then raise ValueError ''media probe returned invalid media''
                           else new_MediaInfo t (PFloat f))
                   | _ \<Rightarrow> invalid_metadata)
               | _ \<Rightarrow> invalid_metadata)))"

section \<open>Staging stores\<close>

definition staging_key_for :: "string \<Rightarrow> string res" where
  "staging_key_for sid = after (uuid_canonical sid) (\<lambda>u. Inr (''staging/'' @ u))"

definition staging_key_error :: "'a res" where
  "staging_key_error = raise ValueError ''invalid staging key''"

definition immutable_staged :: "'s \<Rightarrow> 'a res \<times> 's" where
  "immutable_staged s = fail StateTransitionError ''staged object is already immutable'' s"

text \<open>\<open>InMemoryS3CompatibleStaging\<close>; \<open>md5\<close> is \<open>hashlib.md5(_).hexdigest()\<close>.\<close>

record mem_staging =
  ms_objects :: "string \<rightharpoonup> string"
  ms_etags :: "string \<rightharpoonup> string"

definition ms_validate_key :: "string \<Rightarrow> unit res" where
  "ms_validate_key k =
     (let parts = split_on (CHR ''/'') k in
      if length parts \<noteq> 2 \<or> parts ! 0 \<noteq> ''staging'' then staging_key_error
      else after (staging_key_for (parts ! 1)) (\<lambda>ck. if k \<noteq> ck then staging_key_error else Inr ()))"

definition ms_write_stream :: "(string \<Rightarrow> string) \<Rightarrow> string \<Rightarrow> string list \<Rightarrow> (mem_staging, string) sop" where
  "ms_write_stream md5 sid chunks s =
     lift (staging_key_for sid) s (\<lambda>key.
       let data = concat chunks in
       if ms_objects s key \<noteq> None then immutable_staged s
       else ok key (s\<lparr>ms_objects := (ms_objects s)(key \<mapsto> data),
                     ms_etags := (ms_etags s)(key \<mapsto> md5 data @ ''-2'')\<rparr>))"

definition ms_multipart_etag :: "string \<Rightarrow> (mem_staging, string) sop" where
  "ms_multipart_etag k s = (case ms_etags s k of None \<Rightarrow> fail KeyError k s | Some e \<Rightarrow> ok e s)"

definition ms_open_reader :: "string \<Rightarrow> (mem_staging, string) sop" where
  "ms_open_reader k s =
     lift (ms_validate_key k) s (\<lambda>_.
       case ms_objects s k of None \<Rightarrow> fail KeyError k s | Some x \<Rightarrow> ok x s)"

definition ms_delete :: "string \<Rightarrow> (mem_staging, unit) sop" where
  "ms_delete k s =
     lift (ms_validate_key k) s (\<lambda>_.
       ok () (s\<lparr>ms_objects := (ms_objects s)(k := None), ms_etags := (ms_etags s)(k := None)\<rparr>))"

definition ms_exists :: "string \<Rightarrow> (mem_staging, bool) sop" where
  "ms_exists k s = lift (ms_validate_key k) s (\<lambda>_. ok (ms_objects s k \<noteq> None) s)"

text \<open>
  \<open>LocalStagingBlobStore\<close>: one directory, whose entries only this class and its rivals make. A
  rival may link the name between the write of the temporary file and the \<open>os.link\<close>.
\<close>

record local_staging =
  lst_dir :: bool
  lst_files :: "string \<rightharpoonup> dir_entry"

definition lst_name :: "string \<Rightarrow> string res" where
  "lst_name k =
     (if contains k [CHR 0x5C] \<or> contains k [CHR 0x00] \<or> startswith k ''/'' then staging_key_error
      else let parts = split_on (CHR ''/'') k in
        if length parts \<noteq> 2 \<or> parts ! 0 \<noteq> ''staging'' \<or> parts ! 1 \<in> {[], ''.'', ''..''} then staging_key_error
        else after (staging_key_for (parts ! 1))
          (\<lambda>ck. if k \<noteq> ck then staging_key_error else Inr (parts ! 1)))"

definition lst_write_stream :: "dir_entry option \<Rightarrow> string \<Rightarrow> string list \<Rightarrow> (local_staging, string) sop" where
  "lst_write_stream rival sid chunks s =
     lift (uuid_canonical sid) s (\<lambda>name.
       let s1 = s\<lparr>lst_dir := True\<rparr>;
           s2 = (case (lst_files s1 name, rival) of
                   (None, Some r) \<Rightarrow> s1\<lparr>lst_files := (lst_files s1)(name \<mapsto> r)\<rparr>
                 | _ \<Rightarrow> s1) in
       if lst_files s2 name \<noteq> None then immutable_staged s2
       else ok (''staging/'' @ name) (s2\<lparr>lst_files := (lst_files s2)(name \<mapsto> RegularFile (concat chunks))\<rparr>))"

definition lst_open_dir :: "(local_staging, unit) sop" where
  "lst_open_dir s = (if lst_dir s then ok () s else fail FileNotFoundError ''staging'' s)"

text \<open>
  Where the disk fails: the read of a staged object, its removal (before the effect of
  \<open>os.unlink\<close>, or in the \<open>os.fsync\<close> after it), and the write of the canonical object.
\<close>

datatype io_fault = Fails_before string | Fails_after string

record disk_faults =
  df_read :: "string \<Rightarrow> string option"
  df_delete :: "string \<Rightarrow> io_fault option"
  df_put :: "io_fault option"

definition no_faults :: disk_faults where
  "no_faults = \<lparr>df_read = (\<lambda>_. None), df_delete = (\<lambda>_. None), df_put = None\<rparr>"

definition lst_open_reader :: "disk_faults \<Rightarrow> string \<Rightarrow> (local_staging, string) sop" where
  "lst_open_reader F k =
     sbind lst_open_dir (\<lambda>_ s.
       lift (lst_name k) s (\<lambda>name.
         case lst_files s name of
           None \<Rightarrow> fail FileNotFoundError name s
         | Some SymbolicLink \<Rightarrow> fail OSError name s
         | Some Directory \<Rightarrow> fail RuntimeError ''staged object is not a regular file'' s
         | Some (RegularFile x) \<Rightarrow>
             (case df_read F k of Some m \<Rightarrow> fail OSError m s | None \<Rightarrow> ok x s)))"

definition lst_delete :: "disk_faults \<Rightarrow> string \<Rightarrow> (local_staging, unit) sop" where
  "lst_delete F k =
     sbind lst_open_dir (\<lambda>_ s.
       lift (lst_name k) s (\<lambda>name.
         case lst_files s name of
           None \<Rightarrow> ok () s
         | Some Directory \<Rightarrow> fail OSError name s
         | Some _ \<Rightarrow>
             (let removed = s\<lparr>lst_files := (lst_files s)(name := None)\<rparr> in
              case df_delete F k of
                Some (Fails_before m) \<Rightarrow> fail OSError m s
              | Some (Fails_after m) \<Rightarrow> fail OSError m removed
              | None \<Rightarrow> ok () removed)))"

definition lst_exists :: "disk_faults \<Rightarrow> string \<Rightarrow> (local_staging, bool) sop" where
  "lst_exists F k s =
     (case lst_open_reader F k s of
        (Inr _, t) \<Rightarrow> ok True t
      | (Inl e, t) \<Rightarrow> if instance_of e FileNotFoundError then ok False t else (Inl e, t))"

end
