(* ===== verification/UploadRepos.thy ===== *)
theory UploadRepos
  imports Uploads "HOL-Library.Product_Lexorder"
begin

text \<open>
  The two upload repositories: \<open>InMemoryUploadRepository\<close> of \<open>durable/uploads.py\<close> and
  \<open>PostgresUploadRepository\<close> of \<open>durable/postgres_uploads.py\<close>. A row of \<open>upload_sessions\<close> is the
  session with its two time columns. The unique keys of the schema, its CHECK constraints and its
  triggers (\<open>migrations/0001_durable_foundation.sql\<close> and \<open>0002_verified_uploads.sql\<close>) are part of
  the statements they guard. Identifiers reach the database in canonical text form.
\<close>

section \<open>The in-memory repository\<close>

record mem_uploads =
  mu_sessions :: "upload_session table"
  mu_blobs :: "string \<rightharpoonup> blob_record"

definition empty_mem_uploads :: mem_uploads where
  "empty_mem_uploads = \<lparr>mu_sessions = [], mu_blobs = Map.empty\<rparr>"

definition upload_not_found :: "string \<Rightarrow> 's \<Rightarrow> 'a res \<times> 's" where
  "upload_not_found sid s = fail NotFoundError (''upload session not found: '' @ sid) s"

definition cas_rejected :: "'s \<Rightarrow> 'a res \<times> 's" where
  "cas_rejected s = fail StateTransitionError ''upload session CAS rejected'' s"

definition mu_create_session :: "upload_session \<Rightarrow> (mem_uploads, upload_session) sop" where
  "mu_create_session u s =
     (if us_state u \<noteq> U_INITIATED \<or> us_version u \<noteq> 0
      then fail StateTransitionError ''upload session must begin initiated at version zero'' s
      else if map_of (mu_sessions s) (us_session_id u) \<noteq> None
      then fail DurableInvariantError ''upload session already exists'' s
      else ok u (s\<lparr>mu_sessions := add_row (us_session_id u) u (mu_sessions s)\<rparr>))"

definition mu_get_session :: "string \<Rightarrow> (mem_uploads, upload_session) sop" where
  "mu_get_session sid s =
     (case map_of (mu_sessions s) sid of None \<Rightarrow> upload_not_found sid s | Some u \<Rightarrow> ok u s)"

definition mu_put :: "string \<Rightarrow> upload_session \<Rightarrow> mem_uploads \<Rightarrow> mem_uploads" where
  "mu_put sid u s = s\<lparr>mu_sessions := set_row sid (\<lambda>_. u) (mu_sessions s)\<rparr>"

text \<open>The compare-and-swap test of every transition: version, state, and not yet expired.\<close>

definition cas_ok :: "int \<Rightarrow> int \<Rightarrow> upload_state \<Rightarrow> upload_session \<Rightarrow> bool" where
  "cas_ok now v st u \<longleftrightarrow> us_version u = v \<and> us_state u = st \<and> now < instant (us_expires_at u)"

definition mu_transition ::
  "int \<Rightarrow> string \<Rightarrow> int \<Rightarrow> upload_state \<Rightarrow> upload_state \<Rightarrow> (mem_uploads, upload_session) sop"
where
  "mu_transition now sid v before target =
     sbind (mu_get_session sid) (\<lambda>u s.
       if \<not> cas_ok now v before u then cas_rejected s
       else lift (new_UploadSession (u\<lparr>us_state := target, us_version := us_version u + 1\<rparr>)) s
         (\<lambda>u'. ok u' (mu_put sid u' s)))"

definition mu_mark_uploaded :: "int \<Rightarrow> string \<Rightarrow> int \<Rightarrow> (mem_uploads, upload_session) sop" where
  "mu_mark_uploaded now sid v = mu_transition now sid v U_INITIATED U_UPLOADED"

definition mu_claim_verification :: "int \<Rightarrow> string \<Rightarrow> int \<Rightarrow> (mem_uploads, upload_session) sop" where
  "mu_claim_verification now sid v = mu_transition now sid v U_UPLOADED U_VERIFYING"

definition mu_reject :: "int \<Rightarrow> string \<Rightarrow> int \<Rightarrow> string \<Rightarrow> (mem_uploads, upload_session) sop" where
  "mu_reject now sid v reason =
     sbind (mu_get_session sid) (\<lambda>u s.
       if \<not> cas_ok now v U_VERIFYING u then cas_rejected s
       else lift (new_UploadSession (u\<lparr>us_state := U_REJECTED, us_version := us_version u + 1,
                                       us_rejection_reason := Some reason\<rparr>)) s
         (\<lambda>u'. ok u' (mu_put sid u' s)))"

definition same_blob :: "blob_record \<Rightarrow> blob_record \<Rightarrow> bool" where
  "same_blob a b \<longleftrightarrow> blob_size_bytes a = blob_size_bytes b \<and> blob_storage_key a = blob_storage_key b \<and>
     blob_state a = blob_state b \<and> blob_content_type a = blob_content_type b"

definition verified_session :: "string \<Rightarrow> string \<Rightarrow> upload_session \<Rightarrow> upload_session" where
  "verified_session b a u = u\<lparr>us_state := U_VERIFIED, us_version := us_version u + 1,
     us_verified_blob_id := Some b, us_verified_asset_id := Some a\<rparr>"

definition mu_finalize_verified ::
  "int \<Rightarrow> string \<Rightarrow> int \<Rightarrow> blob_record \<Rightarrow> asset_record \<Rightarrow> (mem_uploads, upload_session) sop"
where
  "mu_finalize_verified now sid v blob asset =
     sbind (mu_get_session sid) (\<lambda>u s.
       if \<not> cas_ok now v U_VERIFYING u then cas_rejected s
       else if asset_namespace_id asset \<noteq> us_namespace_id u \<or> asset_blob_id asset \<noteq> blob_id blob
       then fail DurableInvariantError ''verified asset does not match upload session'' s
       else (let finish = (\<lambda>canonical s1.
                lift (new_UploadSession (verified_session (blob_id canonical) (asset_id asset) u)) s1
                  (\<lambda>u'. ok u' (mu_put sid u' s1))) in
         case mu_blobs s (blob_sha256 blob) of
           None \<Rightarrow> finish blob (s\<lparr>mu_blobs := (mu_blobs s)(blob_sha256 blob \<mapsto> blob)\<rparr>)
         | Some canonical \<Rightarrow>
             if \<not> same_blob canonical blob
             then fail DurableInvariantError ''canonical blob digest has different metadata'' s
             else finish canonical s))"

definition open_states :: "upload_state set" where
  "open_states = {U_INITIATED, U_UPLOADED, U_VERIFYING}"

definition terminal_states :: "upload_state set" where
  "terminal_states = {U_VERIFIED, U_REJECTED, U_EXPIRED}"

definition overdue :: "int \<Rightarrow> upload_session \<Rightarrow> bool" where
  "overdue now u \<longleftrightarrow> us_state u \<in> open_states \<and> instant (us_expires_at u) < now"

definition expired_session :: "upload_session \<Rightarrow> upload_session" where
  "expired_session u = u\<lparr>us_state := U_EXPIRED, us_version := us_version u + 1\<rparr>"

fun mu_expire_loop ::
  "int \<Rightarrow> (string \<times> upload_session) list \<Rightarrow> upload_session list \<Rightarrow> (mem_uploads, upload_session list) sop"
where
  "mu_expire_loop now [] acc s = ok acc s"
| "mu_expire_loop now ((k, u) # rest) acc s =
     (if overdue now u
      then lift (new_UploadSession (expired_session u)) s
             (\<lambda>u'. mu_expire_loop now rest (acc @ [u']) (mu_put k u' s))
      else mu_expire_loop now rest acc s)"

definition mu_expire_before :: "int \<Rightarrow> (mem_uploads, upload_session list) sop" where
  "mu_expire_before now s = mu_expire_loop now (mu_sessions s) [] s"

definition mu_terminal_staging_candidates :: "(mem_uploads, upload_session list) sop" where
  "mu_terminal_staging_candidates s =
     ok (filter (\<lambda>u. us_state u \<in> terminal_states) (map snd (mu_sessions s))) s"

section \<open>The PostgreSQL repository\<close>

record pg_upload =
  pu_session :: upload_session
  pu_verification_started_at :: "int option"
  pu_finalized_at :: "int option"

record pg_uploads =
  pg_rows :: "pg_upload table"
  pg_blobs :: "blob_record list"
  pg_assets :: "asset_record list"
  pg_cleanups :: "string list"

definition empty_pg_uploads :: pg_uploads where
  "empty_pg_uploads = \<lparr>pg_rows = [], pg_blobs = [], pg_assets = [], pg_cleanups = []\<rparr>"

text \<open>
  The pattern \<open>^[0-9a-f]{64}$\<close>, the range of a \<open>BIGINT\<close>, and the texts PostgreSQL can store, which
  have no NUL.
\<close>

definition hex_64 :: "string \<Rightarrow> bool" where
  "hex_64 h \<longleftrightarrow> length h = 64 \<and> list_all hex_lower h"

definition bigint :: "int \<Rightarrow> bool" where
  "bigint n \<longleftrightarrow> - (2 ^ 63) \<le> n \<and> n < 2 ^ 63"

definition storable :: "string \<Rightarrow> bool" where
  "storable t \<longleftrightarrow> CHR 0x00 \<notin> set t"

text \<open>
  The CHECK constraints an inserted session has to pass, \<open>created\<close> being its \<open>created_at\<close>; the
  pattern of \<open>staging_key\<close> describes the canonical texts of UUIDs.
\<close>

definition session_checks :: "int \<Rightarrow> upload_session \<Rightarrow> bool" where
  "session_checks created u \<longleftrightarrow>
     list_ex (\<lambda>c. c \<noteq> CHR '' '') (us_namespace_id u) \<and> 0 \<le> us_expected_size_bytes u \<and>
     (case us_expected_sha256 u of None \<Rightarrow> True | Some h \<Rightarrow> hex_64 h) \<and>
     startswith (us_staging_key u) ''staging/'' \<and>
     uuid_canonical (drop 8 (us_staging_key u)) = Inr (drop 8 (us_staging_key u)) \<and>
     0 \<le> us_version u \<and> created < instant (us_expires_at u)"

text \<open>
  \<open>INSERT INTO upload_sessions\<close> at the database time \<open>now\<close>: the conversion of the values, the insert
  trigger, the constraints, then the keys.
\<close>

definition pg_create_session :: "int \<Rightarrow> upload_session \<Rightarrow> (pg_uploads, upload_session) sop" where
  "pg_create_session now u = transaction (\<lambda>s.
     if \<not> storable (us_namespace_id u) then fail DataError ''namespace_id'' s
     else if \<not> bigint (us_expected_size_bytes u) then fail NumericValueOutOfRange ''upload_sessions'' s
     else if us_state u \<noteq> U_INITIATED \<or> us_version u \<noteq> 0
     then fail RaiseException ''upload session must begin INITIATED at version zero'' s
     else if \<not> session_checks now u then fail CheckViolation ''upload_sessions'' s
     else if map_of (pg_rows s) (us_session_id u) \<noteq> None \<or>
       list_ex (\<lambda>(k, r). us_staging_key (pu_session r) = us_staging_key u) (pg_rows s)
     then fail UniqueViolation ''upload_sessions'' s
     else ok u (s\<lparr>pg_rows := add_row (us_session_id u)
                   \<lparr>pu_session = u, pu_verification_started_at = None, pu_finalized_at = None\<rparr> (pg_rows s)\<rparr>))"

definition pg_get_session :: "string \<Rightarrow> (pg_uploads, upload_session) sop" where
  "pg_get_session sid s =
     (case map_of (pg_rows s) sid of
        None \<Rightarrow> upload_not_found sid s
      | Some r \<Rightarrow> lift (new_UploadSession (pu_session r)) s (\<lambda>u. ok u s))"

text \<open>
  The update triggers of \<open>upload_sessions\<close>, in the order of their names, and the CHECK constraints
  on the columns an update may write. \<open>clock_timestamp()\<close> in a trigger reads the clock of its
  statement.
\<close>

definition upload_identity_kept :: "pg_upload \<Rightarrow> pg_upload \<Rightarrow> bool" where
  "upload_identity_kept old new \<longleftrightarrow>
     (let u = pu_session old; v = pu_session new in
      us_namespace_id v = us_namespace_id u \<and> us_mode v = us_mode u \<and>
      us_expected_size_bytes v = us_expected_size_bytes u \<and> us_expected_sha256 v = us_expected_sha256 u \<and>
      us_staging_key v = us_staging_key u \<and> us_expires_at v = us_expires_at u)"

definition upload_transition_allowed :: "pg_upload \<Rightarrow> pg_upload \<Rightarrow> bool" where
  "upload_transition_allowed old new \<longleftrightarrow>
     (let a = us_state (pu_session old); b = us_state (pu_session new) in
      us_version (pu_session new) = us_version (pu_session old) + 1 \<and>
      (a = U_INITIATED \<and> b \<in> {U_UPLOADED, U_EXPIRED} \<or>
       a = U_UPLOADED \<and> b \<in> {U_VERIFYING, U_EXPIRED} \<or>
       a = U_VERIFYING \<and> b = U_VERIFYING \<and>
         (case (pu_verification_started_at new, pu_verification_started_at old) of
            (Some t, Some t0) \<Rightarrow> t0 < t
          | _ \<Rightarrow> False) \<or>
       a = U_VERIFYING \<and> b \<in> {U_VERIFIED, U_REJECTED, U_EXPIRED}))"

definition upload_asset_verified :: "pg_uploads \<Rightarrow> upload_session \<Rightarrow> bool" where
  "upload_asset_verified s u \<longleftrightarrow>
     list_ex (\<lambda>a. us_verified_asset_id u = Some (asset_id a) \<and> us_verified_blob_id u = Some (asset_blob_id a) \<and>
         asset_namespace_id a = us_namespace_id u \<and> asset_state a = ASSET_VERIFIED \<and>
         list_ex (\<lambda>b. blob_id b = asset_blob_id a \<and> blob_state b = BLOB_VERIFIED) (pg_blobs s))
       (pg_assets s)"

definition upload_row_checks :: "pg_upload \<Rightarrow> bool" where
  "upload_row_checks r \<longleftrightarrow>
     (let u = pu_session r; st = us_state u; b = us_verified_blob_id u; a = us_verified_asset_id u in
      0 \<le> us_version u \<and>
      (st = U_VERIFIED \<longleftrightarrow> b \<noteq> None \<and> a \<noteq> None) \<and> (st = U_VERIFIED \<or> b = None \<and> a = None) \<and>
      (st = U_REJECTED \<longleftrightarrow> us_rejection_reason u \<noteq> None) \<and>
      (st \<in> {U_VERIFIED, U_REJECTED, U_EXPIRED} \<longleftrightarrow> pu_finalized_at r \<noteq> None) \<and>
      (st \<in> {U_INITIATED, U_UPLOADED} \<longrightarrow> pu_verification_started_at r = None) \<and>
      (st = U_VERIFYING \<longrightarrow> pu_verification_started_at r \<noteq> None))"

definition upload_update_guard :: "int \<Rightarrow> pg_uploads \<Rightarrow> pg_upload \<Rightarrow> pg_upload \<Rightarrow> unit res" where
  "upload_update_guard now s old new =
     (let u = pu_session old; v = pu_session new in
      if \<not> upload_identity_kept old new then raise RaiseException ''upload identity is immutable''
      else if us_state v \<in> {U_VERIFIED, U_REJECTED, U_EXPIRED} \<and> pu_finalized_at new = None
      then raise RaiseException ''terminal upload requires finalized_at''
      else if \<not> upload_transition_allowed old new
      then raise RaiseException ''invalid upload state/version transition''
      else if us_state v \<noteq> U_EXPIRED \<and> instant (us_expires_at u) \<le> now
      then raise RaiseException ''expired upload session cannot advance''
      else if us_state v = U_VERIFIED \<and> \<not> upload_asset_verified s v
      then raise RaiseException ''VERIFIED upload requires namespace VERIFIED asset and blob''
      else if us_state u \<in> {U_VERIFIED, U_REJECTED, U_EXPIRED} \<and> new \<noteq> old
      then raise RaiseException ''terminal upload session is immutable''
      else if \<not> upload_row_checks new then raise CheckViolation ''upload_sessions''
      else Inr ())"

text \<open>
  \<open>UPDATE upload_sessions SET ... WHERE id = sid AND test RETURNING id\<close>, with the error raised
  when no row came back.
\<close>

definition pg_update ::
  "int \<Rightarrow> string \<Rightarrow> (pg_upload \<Rightarrow> bool) \<Rightarrow> (pg_upload \<Rightarrow> pg_upload) \<Rightarrow> string \<Rightarrow> (pg_uploads, unit) sop"
where
  "pg_update now sid test f message s =
     (case map_of (pg_rows s) sid of
        None \<Rightarrow> fail StateTransitionError message s
      | Some r \<Rightarrow>
          if test r
          then lift (upload_update_guard now s r (f r)) s
                 (\<lambda>_. ok () (s\<lparr>pg_rows := set_row sid f (pg_rows s)\<rparr>))
          else fail StateTransitionError message s)"

definition on_session :: "(upload_session \<Rightarrow> upload_session) \<Rightarrow> pg_upload \<Rightarrow> pg_upload" where
  "on_session f r = r\<lparr>pu_session := f (pu_session r)\<rparr>"

definition moved :: "upload_state \<Rightarrow> upload_session \<Rightarrow> upload_session" where
  "moved st u = u\<lparr>us_state := st, us_version := us_version u + 1\<rparr>"

definition pg_cas_state ::
  "int \<Rightarrow> string \<Rightarrow> int \<Rightarrow> upload_state \<Rightarrow> upload_state \<Rightarrow> (pg_uploads, upload_session) sop"
where
  "pg_cas_state now sid v before target =
     sbind (transaction (pg_update now sid (\<lambda>r. cas_ok now v before (pu_session r))
              (on_session (moved target)) ''upload session CAS rejected''))
       (\<lambda>_. pg_get_session sid)"

definition pg_mark_uploaded :: "int \<Rightarrow> string \<Rightarrow> int \<Rightarrow> (pg_uploads, upload_session) sop" where
  "pg_mark_uploaded now sid v = pg_cas_state now sid v U_INITIATED U_UPLOADED"

definition pg_claim_verification :: "int \<Rightarrow> string \<Rightarrow> int \<Rightarrow> (pg_uploads, upload_session) sop" where
  "pg_claim_verification now sid v =
     sbind (transaction (pg_update now sid (\<lambda>r. cas_ok now v U_UPLOADED (pu_session r))
              (\<lambda>r. (on_session (moved U_VERIFYING) r)\<lparr>pu_verification_started_at := Some now\<rparr>)
              ''upload session CAS rejected''))
       (\<lambda>_. pg_get_session sid)"

definition pg_reclaim_verification :: "int \<Rightarrow> string \<Rightarrow> int \<Rightarrow> int \<Rightarrow> (pg_uploads, upload_session) sop" where
  "pg_reclaim_verification now sid v stale_before =
     sbind (transaction (pg_update now sid
              (\<lambda>r. cas_ok now v U_VERIFYING (pu_session r) \<and>
                   (case pu_verification_started_at r of None \<Rightarrow> False | Some t \<Rightarrow> t < stale_before))
              (\<lambda>r. (on_session (moved U_VERIFYING) r)\<lparr>pu_verification_started_at := Some now\<rparr>)
              ''verification reclaim CAS rejected''))
       (\<lambda>_. pg_get_session sid)"

definition pg_reject :: "int \<Rightarrow> string \<Rightarrow> int \<Rightarrow> string \<Rightarrow> (pg_uploads, upload_session) sop" where
  "pg_reject now sid v reason s =
     (if reason = [] then fail ValueError ''rejection reason must be non-empty'' s
      else if \<not> storable reason then fail DataError ''rejection_reason'' s
      else sbind (transaction (pg_update now sid (\<lambda>r. cas_ok now v U_VERIFYING (pu_session r))
              (\<lambda>r. (on_session (\<lambda>u. (moved U_REJECTED u)\<lparr>us_rejection_reason := Some reason\<rparr>) r)
                     \<lparr>pu_finalized_at := Some now\<rparr>)
              ''upload session CAS rejected''))
       (\<lambda>_. pg_get_session sid) s)"

text \<open>
  \<open>INSERT INTO blobs ... ON CONFLICT (sha256) DO NOTHING\<close>, then the row with that digest; the
  constraints are tested before the conflict. An asset in state VERIFIED needs a VERIFIED blob.
\<close>

definition blob_checks :: "blob_record \<Rightarrow> bool" where
  "blob_checks b \<longleftrightarrow> hex_64 (blob_sha256 b) \<and> 0 \<le> blob_size_bytes b"

definition pg_insert_blob :: "blob_record \<Rightarrow> (pg_uploads, blob_record) sop" where
  "pg_insert_blob blob s =
     (if \<not> (storable (blob_storage_key blob) \<and> storable (blob_content_type blob)) then fail DataError ''blobs'' s
      else if \<not> bigint (blob_size_bytes blob) then fail NumericValueOutOfRange ''blobs'' s
      else if \<not> blob_checks blob then fail CheckViolation ''blobs'' s
      else case find (\<lambda>b. blob_sha256 b = blob_sha256 blob) (pg_blobs s) of
        Some b \<Rightarrow> ok b s
      | None \<Rightarrow>
          if list_ex (\<lambda>b. blob_id b = blob_id blob \<or> blob_storage_key b = blob_storage_key blob) (pg_blobs s)
          then fail UniqueViolation ''blobs'' s
          else ok blob (s\<lparr>pg_blobs := pg_blobs s @ [blob]\<rparr>))"

text \<open>
  \<open>json.dumps(dict(asset.metadata))\<close> takes the frozen mapping apart only at its first level: a
  mapping inside it is a \<open>MappingProxyType\<close>, which is no JSON value; nor is a set. \<open>jsonb\<close> refuses
  what JSON does not have (NaN, the infinities) and NUL.
\<close>

fun dumpable :: "pyval \<Rightarrow> bool" where
  "dumpable PNone = True"
| "dumpable (PBool b) = True"
| "dumpable (PInt n) = True"
| "dumpable (PFloat f) = True"
| "dumpable (PStr t) = True"
| "dumpable (PTuple vs) = list_all dumpable vs"
| "dumpable v = False"

fun jsonb_value :: "pyval \<Rightarrow> bool" where
  "jsonb_value (PFloat f) = (case f of FFin q \<Rightarrow> True | _ \<Rightarrow> False)"
| "jsonb_value (PStr t) = storable t"
| "jsonb_value (PTuple vs) = list_all jsonb_value vs"
| "jsonb_value v = True"

definition metadata_dumps :: "pyval \<Rightarrow> unit res" where
  "metadata_dumps m =
     (case m of
        PDict items \<Rightarrow>
          if \<not> list_all (\<lambda>(k, v). dumpable v) items then raise TypeError ''not JSON serializable''
          else if \<not> list_all (\<lambda>(k, v). jsonb_value k \<and> jsonb_value v) items then raise DataError ''jsonb''
          else Inr ()
      | _ \<Rightarrow> raise TypeError ''metadata'')"

definition pg_insert_asset :: "asset_record \<Rightarrow> (pg_uploads, unit) sop" where
  "pg_insert_asset a s =
     lift (metadata_dumps (asset_metadata a)) s (\<lambda>_.
       if asset_state a = ASSET_VERIFIED \<and>
         \<not> list_ex (\<lambda>b. blob_id b = asset_blob_id a \<and> blob_state b = BLOB_VERIFIED) (pg_blobs s)
       then fail RaiseException ''a VERIFIED asset requires a VERIFIED blob'' s
       else if list_ex (\<lambda>x. asset_id x = asset_id a) (pg_assets s) then fail UniqueViolation ''assets'' s
       else ok () (s\<lparr>pg_assets := pg_assets s @ [a]\<rparr>))"

definition pg_finalize_verified ::
  "int \<Rightarrow> string \<Rightarrow> int \<Rightarrow> blob_record \<Rightarrow> asset_record \<Rightarrow> (pg_uploads, upload_session) sop"
where
  "pg_finalize_verified now sid v blob asset =
     sbind (transaction (
       sbind (pg_get_session sid) (\<lambda>u s.
         if us_version u \<noteq> v \<or> us_state u \<noteq> U_VERIFYING then cas_rejected s
         else if asset_blob_id asset \<noteq> blob_id blob \<or> asset_namespace_id asset \<noteq> us_namespace_id u
         then fail StateTransitionError ''verified asset does not match upload session'' s
         else sbind (pg_insert_blob blob) (\<lambda>canonical s1.
           if \<not> same_blob canonical blob
           then fail IdempotencyConflictError ''canonical blob digest has different metadata'' s1
           else sbind (pg_insert_asset (asset\<lparr>asset_blob_id := blob_id canonical\<rparr>)) (\<lambda>_.
             pg_update now sid (\<lambda>r. cas_ok now v U_VERIFYING (pu_session r))
               (\<lambda>r. (on_session (verified_session (blob_id canonical) (asset_id asset)) r)\<lparr>pu_finalized_at := Some now\<rparr>)
               ''upload session CAS rejected'') s1) s)))
       (\<lambda>_. pg_get_session sid)"

fun pg_get_all :: "string list \<Rightarrow> (pg_uploads, upload_session list) sop" where
  "pg_get_all [] = ok []"
| "pg_get_all (k # ks) = sbind (pg_get_session k) (\<lambda>u. sbind (pg_get_all ks) (\<lambda>us. ok (u # us)))"

definition expire_row :: "int \<Rightarrow> pg_upload \<Rightarrow> pg_upload" where
  "expire_row now r = (on_session expired_session r)\<lparr>pu_finalized_at := Some now\<rparr>"

definition expire_keys :: "int \<Rightarrow> string set \<Rightarrow> pg_uploads \<Rightarrow> pg_uploads" where
  "expire_keys now ks s =
     s\<lparr>pg_rows := map (\<lambda>(k, r). (k, if k \<in> ks then expire_row now r else r)) (pg_rows s)\<rparr>"

definition overdue_keys :: "int \<Rightarrow> pg_uploads \<Rightarrow> string list" where
  "overdue_keys now s = map fst (filter (\<lambda>(k, r). overdue now (pu_session r)) (pg_rows s))"

text \<open>One \<open>UPDATE\<close> of the rows \<open>ks\<close>: a trigger that refuses one of them aborts the statement.\<close>

definition pg_expire_rows :: "int \<Rightarrow> string list \<Rightarrow> (pg_uploads, unit) sop" where
  "pg_expire_rows now ks s =
     (if list_all (\<lambda>(k, r). k \<in> set ks \<longrightarrow> upload_update_guard now s r (expire_row now r) = Inr ()) (pg_rows s)
      then ok () (expire_keys now (set ks) s)
      else fail RaiseException ''upload_sessions'' s)"

text \<open>The argument of \<open>expire_before\<close> is ignored: \<open>now\<close> is the reading of the database clock.\<close>

definition pg_expire_before :: "int \<Rightarrow> (pg_uploads, upload_session list) sop" where
  "pg_expire_before now s =
     (let ks = overdue_keys now s in sbind (transaction (pg_expire_rows now ks)) (\<lambda>_. pg_get_all ks) s)"

definition positive_limit :: "pyval \<Rightarrow> int res" where
  "positive_limit v =
     (case v of
        PInt n \<Rightarrow> if n < 1 then raise ValueError ''limit must be positive'' else Inr n
      | _ \<Rightarrow> raise ValueError ''limit must be positive'')"

text \<open>\<open>ORDER BY expires_at, id FOR UPDATE SKIP LOCKED LIMIT n\<close>; \<open>locked\<close>: rows others hold.\<close>

definition expire_batch_keys :: "int \<Rightarrow> string set \<Rightarrow> nat \<Rightarrow> pg_uploads \<Rightarrow> string list" where
  "expire_batch_keys now locked n s =
     take n (map fst (sort_key (\<lambda>(k, r). (instant (us_expires_at (pu_session r)), k))
       (filter (\<lambda>(k, r). overdue now (pu_session r) \<and> k \<notin> locked) (pg_rows s))))"

definition pg_expire_batch :: "int \<Rightarrow> string set \<Rightarrow> pyval \<Rightarrow> (pg_uploads, upload_session list) sop" where
  "pg_expire_batch now locked limit s =
     lift (positive_limit limit) s (\<lambda>n.
       let ks = expire_batch_keys now locked (nat n) s in
       sbind (transaction (pg_expire_rows now ks)) (\<lambda>_. pg_get_all ks) s)"

definition cleanup_order :: "string \<times> pg_upload \<Rightarrow> (int \<times> int) \<times> string" where
  "cleanup_order = (\<lambda>(k, r). (case pu_finalized_at r of None \<Rightarrow> (1, 0) | Some t \<Rightarrow> (0, t), k))"

definition cleanup_keys :: "pg_uploads \<Rightarrow> string list" where
  "cleanup_keys s =
     map fst (sort_key cleanup_order
       (filter (\<lambda>(k, r). us_state (pu_session r) \<in> terminal_states \<and> k \<notin> set (pg_cleanups s)) (pg_rows s)))"

definition pg_terminal_staging_candidates :: "pyval \<Rightarrow> (pg_uploads, upload_session list) sop" where
  "pg_terminal_staging_candidates limit s =
     (case limit of
        PNone \<Rightarrow> pg_get_all (cleanup_keys s) s
      | _ \<Rightarrow> lift (positive_limit limit) s (\<lambda>n. pg_get_all (take (nat n) (cleanup_keys s)) s))"

definition pg_record_staging_cleanup :: "string \<Rightarrow> (pg_uploads, bool) sop" where
  "pg_record_staging_cleanup sid = transaction (\<lambda>s.
     case map_of (pg_rows s) sid of
       None \<Rightarrow> ok False s
     | Some r \<Rightarrow>
         if us_state (pu_session r) \<in> terminal_states \<and> sid \<notin> set (pg_cleanups s)
         then ok True (s\<lparr>pg_cleanups := pg_cleanups s @ [sid]\<rparr>)
         else ok False s)"

end
