(* ===== verification/UploadVerify.thy ===== *)
theory UploadVerify
  imports UploadRepos
begin

text \<open>
  \<open>UploadVerifier\<close> of \<open>durable/uploads.py\<close>. Its collaborators are the protocols of the module, as
  records of operations: an upload repository, a staging store, the canonical store's
  \<open>put_stream\<close> and a media probe. The world is the state of the three stores.
\<close>

section \<open>Collaborators\<close>

record 'r upload_repository =
  ur_get :: "string \<Rightarrow> ('r, upload_session) sop"
  ur_claim :: "int \<Rightarrow> string \<Rightarrow> int \<Rightarrow> ('r, upload_session) sop"
  ur_reject :: "int \<Rightarrow> string \<Rightarrow> int \<Rightarrow> string \<Rightarrow> ('r, upload_session) sop"
  ur_finalize :: "int \<Rightarrow> string \<Rightarrow> int \<Rightarrow> blob_record \<Rightarrow> asset_record \<Rightarrow> ('r, upload_session) sop"
  ur_expire :: "int \<Rightarrow> ('r, upload_session list) sop"
  ur_candidates :: "('r, upload_session list) sop"

record 'g staging_store =
  st_open :: "string \<Rightarrow> ('g, string) sop"
  st_delete :: "string \<Rightarrow> ('g, unit) sop"
  st_exists :: "string \<Rightarrow> ('g, bool) sop"

definition mem_repository :: "mem_uploads upload_repository" where
  "mem_repository = \<lparr>ur_get = mu_get_session, ur_claim = mu_claim_verification, ur_reject = mu_reject,
     ur_finalize = mu_finalize_verified, ur_expire = mu_expire_before,
     ur_candidates = mu_terminal_staging_candidates\<rparr>"

definition pg_repository :: "pg_uploads upload_repository" where
  "pg_repository = \<lparr>ur_get = pg_get_session, ur_claim = pg_claim_verification, ur_reject = pg_reject,
     ur_finalize = pg_finalize_verified, ur_expire = pg_expire_before,
     ur_candidates = pg_terminal_staging_candidates PNone\<rparr>"

definition mem_staging_store :: "mem_staging staging_store" where
  "mem_staging_store = \<lparr>st_open = ms_open_reader, st_delete = ms_delete, st_exists = ms_exists\<rparr>"

definition local_staging_store :: "disk_faults \<Rightarrow> local_staging staging_store" where
  "local_staging_store F = \<lparr>st_open = lst_open_reader F, st_delete = lst_delete F, st_exists = lst_exists F\<rparr>"

text \<open>The local canonical store on a disk that may fail before or after the object is linked.\<close>

definition disk_put :: "disk_faults \<Rightarrow> string list \<Rightarrow> (local_store, blob_object) sop" where
  "disk_put F cs s =
     (case df_put F of
        None \<Rightarrow> put_stream None cs s
      | Some (Fails_before m) \<Rightarrow> fail OSError m s
      | Some (Fails_after m) \<Rightarrow> sbind (put_stream None cs) (\<lambda>_. fail OSError m) s)"

record ('r, 'g, 'c) upload_world =
  uw_repo :: 'r
  uw_staging :: 'g
  uw_canonical :: 'c

definition on_repo :: "('r, 'a) sop \<Rightarrow> (('r, 'g, 'c) upload_world, 'a) sop" where
  "on_repo m w = (case m (uw_repo w) of (r, s) \<Rightarrow> (r, w\<lparr>uw_repo := s\<rparr>))"

definition on_staging :: "('g, 'a) sop \<Rightarrow> (('r, 'g, 'c) upload_world, 'a) sop" where
  "on_staging m w = (case m (uw_staging w) of (r, s) \<Rightarrow> (r, w\<lparr>uw_staging := s\<rparr>))"

definition on_canonical :: "('c, 'a) sop \<Rightarrow> (('r, 'g, 'c) upload_world, 'a) sop" where
  "on_canonical m w = (case m (uw_canonical w) of (r, s) \<Rightarrow> (r, w\<lparr>uw_canonical := s\<rparr>))"

section \<open>Reading a stream in pieces\<close>

definition mebibyte :: nat where
  "mebibyte = 1024 * 1024"

text \<open>\<open>iter(lambda: source.read(n), b"")\<close>: the pieces a stream is read in.\<close>

function pieces :: "nat \<Rightarrow> string \<Rightarrow> string list" where
  "pieces n s = (if s = [] \<or> n = 0 then [] else take n s # pieces n (drop n s))"
  by pat_completeness auto
termination by (relation "measure (\<lambda>(n, s). length s)") auto

declare pieces.simps [simp del]

text \<open>
  The verification loop: size and snapshot so far; \<open>None\<close> when the declared or the configured
  size is exceeded, which ends the read at that piece.
\<close>

fun scan :: "int \<Rightarrow> int \<Rightarrow> string list \<Rightarrow> string \<Rightarrow> string option" where
  "scan expected limit [] snapshot = Some snapshot"
| "scan expected limit (c # cs) snapshot =
     (let size = int (length snapshot) + int (length c) in
      if size > expected \<or> size > limit then None
      else scan expected limit cs (snapshot @ c))"

section \<open>The verifier\<close>

definition new_max_upload_bytes :: "pyval \<Rightarrow> int res" where
  "new_max_upload_bytes v =
     (case v of
        PInt n \<Rightarrow> if n < 1 then raise ValueError ''max_upload_bytes must be a positive integer'' else Inr n
      | _ \<Rightarrow> raise ValueError ''max_upload_bytes must be a positive integer'')"

record ('r, 'g, 'c) verifier =
  uv_repository :: "'r upload_repository"
  uv_staging :: "'g staging_store"
  uv_put_stream :: "string list \<Rightarrow> ('c, blob_object) sop"
  uv_probe :: "string \<Rightarrow> media_info res"
  uv_max_upload_bytes :: int

text \<open>Clock readings of the claim and of the last transition, and the two drawn identifiers.\<close>

record upload_draws =
  ud_claim_time :: int
  ud_final_time :: int
  ud_blob_id :: string
  ud_asset_id :: string

definition reject_staged ::
  "('r, 'g, 'c) verifier \<Rightarrow> int \<Rightarrow> upload_session \<Rightarrow> string \<Rightarrow> int \<Rightarrow> string \<Rightarrow>
     (('r, 'g, 'c) upload_world, upload_session) sop"
where
  "reject_staged V now session sid v reason =
     sbind (on_repo (ur_reject (uv_repository V) now sid v reason)) (\<lambda>rejected.
     sbind (on_staging (st_delete (uv_staging V) (us_staging_key session))) (\<lambda>_. ok rejected))"

definition probe_rejected :: "exc \<Rightarrow> bool" where
  "probe_rejected e = instance_of_any e [OSError, ValueError, TimeoutExpired, RuntimeError]"

definition promote ::
  "pyenv \<Rightarrow> ('r, 'g, 'c) verifier \<Rightarrow> upload_draws \<Rightarrow> upload_session \<Rightarrow> string \<Rightarrow> int \<Rightarrow> string \<Rightarrow> media_info \<Rightarrow>
     (('r, 'g, 'c) upload_world, upload_session) sop"
where
  "promote E V d session sid v snapshot info =
     sbind (on_canonical (uv_put_stream V (pieces mebibyte snapshot))) (\<lambda>obj w.
     lift (new_BlobRecord (ud_blob_id d) (obj_sha256 obj) (obj_size_bytes obj) (obj_storage_key obj)
             BLOB_VERIFIED (mi_media_type info)) w (\<lambda>blob.
     lift (new_AssetRecord E (ud_asset_id d) (blob_id blob) (us_namespace_id session) KIND_INPUT ASSET_VERIFIED
             (PDict [(PStr ''media_type'', PStr (mi_media_type info)),
                     (PStr ''duration_seconds'', mi_duration_seconds info)])) w (\<lambda>asset.
     sbind (on_repo (ur_finalize (uv_repository V) (ud_final_time d) sid v blob asset)) (\<lambda>verified.
     sbind (on_staging (st_delete (uv_staging V) (us_staging_key session))) (\<lambda>_. ok verified)) w)))"

definition digest_mismatch :: "upload_session \<Rightarrow> string \<Rightarrow> bool" where
  "digest_mismatch session snapshot \<longleftrightarrow>
     int (length snapshot) \<noteq> us_expected_size_bytes session \<or>
     (case us_expected_sha256 session of
        None \<Rightarrow> False
      | Some h \<Rightarrow> h \<noteq> [] \<and> sha256_hex snapshot \<noteq> h)"

text \<open>\<open>finalize\<close> from the size check on, for a session in verification.\<close>

definition verify_session ::
  "pyenv \<Rightarrow> ('r, 'g, 'c) verifier \<Rightarrow> upload_draws \<Rightarrow> upload_session \<Rightarrow> string \<Rightarrow> int \<Rightarrow>
     (('r, 'g, 'c) upload_world, upload_session) sop"
where
  "verify_session E V d session sid v w =
     (let reject = reject_staged V (ud_final_time d) session sid v in
      if us_expected_size_bytes session > uv_max_upload_bytes V then reject ''size_limit_exceeded'' w
      else sbind (on_staging (st_open (uv_staging V) (us_staging_key session))) (\<lambda>data w.
        case scan (us_expected_size_bytes session) (uv_max_upload_bytes V) (pieces mebibyte data) [] of
          None \<Rightarrow> reject ''size_limit_exceeded'' w
        | Some snapshot \<Rightarrow>
            if digest_mismatch session snapshot then reject ''size_or_sha256_mismatch'' w
            else (case uv_probe V snapshot of
              Inl e \<Rightarrow> if probe_rejected e then reject ''media_probe_failed'' w else (Inl e, w)
            | Inr info \<Rightarrow> promote E V d session sid v snapshot info w)) w)"

definition finalize ::
  "pyenv \<Rightarrow> ('r, 'g, 'c) verifier \<Rightarrow> upload_draws \<Rightarrow> string \<Rightarrow> int \<Rightarrow>
     (('r, 'g, 'c) upload_world, upload_session) sop"
where
  "finalize E V d sid expected_version =
     sbind (on_repo (ur_get (uv_repository V) sid)) (\<lambda>found w.
       if us_version found \<noteq> expected_version
       then fail StateTransitionError ''upload session is not the requested version'' w
       else if us_state found = U_UPLOADED
       then sbind (on_repo (ur_claim (uv_repository V) (ud_claim_time d) sid expected_version))
              (\<lambda>session. verify_session E V d session sid (us_version session)) w
       else if us_state found \<noteq> U_VERIFYING
       then fail StateTransitionError ''upload session is not available for verification'' w
       else verify_session E V d found sid expected_version w)"

fun sweep ::
  "('r, 'g, 'c) verifier \<Rightarrow> upload_session list \<Rightarrow> nat \<Rightarrow> (('r, 'g, 'c) upload_world, nat) sop"
where
  "sweep V [] n = ok n"
| "sweep V (u # us) n =
     sbind (on_staging (st_exists (uv_staging V) (us_staging_key u))) (\<lambda>there.
       if there
       then sbind (on_staging (st_delete (uv_staging V) (us_staging_key u))) (\<lambda>_. sweep V us (n + 1))
       else sweep V us n)"

definition janitor :: "('r, 'g, 'c) verifier \<Rightarrow> int \<Rightarrow> (('r, 'g, 'c) upload_world, nat) sop" where
  "janitor V now =
     sbind (on_repo (ur_expire (uv_repository V) now)) (\<lambda>_.
     sbind (on_repo (ur_candidates (uv_repository V))) (\<lambda>us. sweep V us 0))"

section \<open>Reading in pieces reads the whole\<close>

lemma concat_pieces: "0 < n \<Longrightarrow> concat (pieces n s) = s"
proof (induction n s rule: pieces.induct)
  case (1 n s)
  then show ?case by (subst pieces.simps) auto
qed

lemma scan_pieces:
  "scan e l cs snap =
     (if cs \<noteq> [] \<and> (int (length (snap @ concat cs)) > e \<or> int (length (snap @ concat cs)) > l)
      then None else Some (snap @ concat cs))"
proof (induction cs arbitrary: snap)
  case Nil
  then show ?case by simp
next
  case (Cons c cs)
  from Cons.IH [of "snap @ c"] show ?case by (cases "cs = []") (auto simp: Let_def)
qed

lemma pieces_Nil: "pieces n s = [] \<longleftrightarrow> s = [] \<or> n = 0"
  by (subst pieces.simps) auto

text \<open>The early exit of the loop decides as the size of the whole object would.\<close>

lemma scan_whole:
  assumes "0 \<le> e" and "0 \<le> l"
  shows "scan e l (pieces mebibyte s) [] = (if int (length s) > e \<or> int (length s) > l then None else Some s)"
proof -
  have "0 < mebibyte" by (simp add: mebibyte_def)
  then have "concat (pieces mebibyte s) = s" by (rule concat_pieces)
  moreover have "pieces mebibyte s = [] \<longleftrightarrow> s = []" using \<open>0 < mebibyte\<close> by (simp add: pieces_Nil)
  ultimately show ?thesis using assms by (auto simp: scan_pieces)
qed

lemma wp_on_repo [wp_simps]:
    "wp X V (on_repo m w) = wp (\<lambda>e s. X e (w\<lparr>uw_repo := s\<rparr>)) (\<lambda>a s. V a (w\<lparr>uw_repo := s\<rparr>)) (m (uw_repo w))"
  and wp_on_staging [wp_simps]:
    "wp X V (on_staging n w) = wp (\<lambda>e s. X e (w\<lparr>uw_staging := s\<rparr>)) (\<lambda>a s. V a (w\<lparr>uw_staging := s\<rparr>)) (n (uw_staging w))"
  and wp_on_canonical [wp_simps]:
    "wp X V (on_canonical c w) = wp (\<lambda>e s. X e (w\<lparr>uw_canonical := s\<rparr>)) (\<lambda>a s. V a (w\<lparr>uw_canonical := s\<rparr>)) (c (uw_canonical w))"
  by (simp_all add: wp_def on_repo_def on_staging_def on_canonical_def split: prod.splits sum.splits)

end
