(* ===== verification/ArtifactValidation.thy ===== *)
theory ArtifactValidation
  imports UploadVerify PyNumbers
begin

text \<open>
  \<open>StreamingMediaArtifactValidator\<close> of \<open>durable/artifact_validation.py\<close>: the specification, the
  bounded read of the object in pieces of one mebibyte with its progress calls, the comparison with the
  expected evidence and the media probe. A reader yields bytes; the progress hook is an operation of
  the caller's world, so what it does and raises is part of the run.
\<close>

section \<open>Values\<close>

datatype validation_phase = VP_STREAM | VP_BEFORE_PROBE | VP_AFTER_PROBE

definition artifact_media_types :: "string list" where
  "artifact_media_types = [''audio/flac'', ''audio/mpeg'', ''audio/wav'', ''video/mp4'']"

definition media_type_check :: "string \<Rightarrow> unit res" where
  "media_type_check t =
     require (t \<in> set artifact_media_types) ValueError ''content_type is not an allowed audio/video type''"

definition lowercase_sha256 :: "string \<Rightarrow> unit res" where
  "lowercase_sha256 h =
     checks [require (length h = 64 \<and> h = lower h) ValueError ''sha256 must be lowercase 64-character hexadecimal'',
             require (int16 h \<noteq> None) ValueError ''sha256 must be lowercase 64-character hexadecimal'']"

record validation_spec =
  vs_content_type :: string
  vs_max_size :: int
  vs_expected_sha256 :: "string option"
  vs_expected_size :: "int option"

definition new_ValidationSpec :: "validation_spec \<Rightarrow> validation_spec res" where
  "new_ValidationSpec p =
     after (checks [media_type_check (vs_content_type p),
                    require (1 \<le> vs_max_size p) ValueError ''max_size_bytes must be a positive integer'',
                    require (case vs_expected_size p of None \<Rightarrow> True | Some n \<Rightarrow> 0 \<le> n)
                      ValueError ''expected_size_bytes must be a non-negative integer'',
                    require (case vs_expected_size p of None \<Rightarrow> True | Some n \<Rightarrow> n \<le> vs_max_size p)
                      ValueError ''expected_size_bytes exceeds the validator limit'',
                    (case vs_expected_sha256 p of None \<Rightarrow> Inr () | Some h \<Rightarrow> lowercase_sha256 h)])
       (\<lambda>_. Inr p)"

record validated_artifact =
  vd_sha256 :: string
  vd_size :: int
  vd_content_type :: string
  vd_duration :: pyval
  vd_metadata :: pyval

definition new_ValidatedArtifact :: "float_env \<Rightarrow> validated_artifact \<Rightarrow> validated_artifact res" where
  "new_ValidatedArtifact F v =
     after (checks [lowercase_sha256 (vd_sha256 v),
                    require (1 \<le> vd_size v) ValueError ''validated artifact must not be empty'',
                    media_type_check (vd_content_type v),
                    reject_if (any_of (bad_number F (vd_duration v) (\<lambda>q. q \<le> 0)))
                      ValueError ''duration_seconds must be positive''])
       (\<lambda>_. Inr v)"

section \<open>The validator\<close>

type_synonym 'w progress = "validation_phase \<Rightarrow> int \<Rightarrow> ('w, unit) sop"

definition validation_error :: "string \<Rightarrow> 'w \<Rightarrow> 'a res \<times> 'w" where
  "validation_error m w = fail ArtifactValidationError m w"

fun scan_artifact :: "'w progress \<Rightarrow> validation_spec \<Rightarrow> string list \<Rightarrow> string \<Rightarrow> ('w, string) sop" where
  "scan_artifact progress p [] snapshot w = ok snapshot w"
| "scan_artifact progress p (c # cs) snapshot w =
     (let size = int (length snapshot) + int (length c) in
      if size > vs_max_size p then validation_error ''artifact exceeds configured size limit'' w
      else if (case vs_expected_size p of None \<Rightarrow> False | Some n \<Rightarrow> size > n)
      then validation_error ''artifact size differs from expected evidence'' w
      else sbind (progress VP_STREAM size) (\<lambda>_. scan_artifact progress p cs (snapshot @ c)) w)"

definition probe_fails_artifact :: "exc \<Rightarrow> bool" where
  "probe_fails_artifact e = instance_of_any e [OSError, RuntimeError, ValueError]"

definition artifact_from :: "string \<Rightarrow> media_info \<Rightarrow> validated_artifact" where
  "artifact_from data m =
     \<lparr>vd_sha256 = sha256_hex data, vd_size = int (length data), vd_content_type = mi_media_type m,
      vd_duration = mi_duration_seconds m,
      vd_metadata = PDict [(PStr ''media_type'', PStr (mi_media_type m)),
                           (PStr ''duration_seconds'', mi_duration_seconds m)]\<rparr>"

definition validate_artifact ::
  "float_env \<Rightarrow> (string \<Rightarrow> media_info res) \<Rightarrow> 'w progress \<Rightarrow> validation_spec \<Rightarrow> string \<Rightarrow> ('w, validated_artifact) sop"
where
  "validate_artifact F probe progress p stream =
     sbind (scan_artifact progress p (pieces mebibyte stream) []) (\<lambda>data w.
       let size = int (length data) in
       if size < 1 then validation_error ''artifact is empty'' w
       else if (case vs_expected_size p of None \<Rightarrow> False | Some n \<Rightarrow> size \<noteq> n)
       then validation_error ''artifact size differs from expected evidence'' w
       else if (case vs_expected_sha256 p of None \<Rightarrow> False | Some h \<Rightarrow> sha256_hex data \<noteq> h)
       then validation_error ''artifact SHA-256 differs from expected evidence'' w
       else sbind (progress VP_BEFORE_PROBE size) (\<lambda>_ w.
         case probe data of
           Inl e \<Rightarrow> if probe_fails_artifact e then validation_error ''artifact media validation failed'' w else (Inl e, w)
         | Inr m \<Rightarrow>
             sbind (progress VP_AFTER_PROBE size) (\<lambda>_ w.
               if mi_media_type m \<noteq> vs_content_type p
               then validation_error ''artifact content type differs from probed media'' w
               else lift (new_ValidatedArtifact F (artifact_from data m)) w (\<lambda>v. ok v w)) w) w)"

section \<open>What it accepts\<close>

lemma lowercase_sha256_ok: "lowercase_sha256 h = Inr () \<longleftrightarrow> sha256_text_ok h"
  by (auto simp: lowercase_sha256_def sha256_text_ok_def checks_Cons_ok)

text \<open>The read is within the bounds, whatever the progress calls do.\<close>

definition within_spec :: "validation_spec \<Rightarrow> int \<Rightarrow> bool" where
  "within_spec p n \<longleftrightarrow> n \<le> vs_max_size p \<and> (case vs_expected_size p of None \<Rightarrow> True | Some m \<Rightarrow> n \<le> m)"

lemma scan_artifact_wp:
  assumes "\<And>ph n w. P w \<Longrightarrow> wp (\<lambda>_. P) (\<lambda>_. P) (progress ph n w)"
  shows "P w \<Longrightarrow> wp (\<lambda>_. P) (\<lambda>data w'. P w' \<and> data = snap @ concat cs \<and>
      (cs \<noteq> [] \<longrightarrow> within_spec p (int (length data)))) (scan_artifact progress p cs snap w)"
proof (induction cs arbitrary: snap w)
  case (Cons c cs)
  have "wp (\<lambda>_. P) (\<lambda>data w'. P w' \<and> data = snap @ concat (c # cs) \<and> within_spec p (int (length data)))
      (scan_artifact progress p cs (snap @ c) w')" if w': "P w'" "within_spec p (int (length snap) + int (length c))" for w'
  proof (rule wp_mono [OF Cons.IH [OF w'(1), of "snap @ c"]])
    fix data w1 assume h: "P w1 \<and> data = (snap @ c) @ concat cs \<and> (cs \<noteq> [] \<longrightarrow> within_spec p (int (length data)))"
    then have "within_spec p (int (length data))" using w'(2) by (cases "cs = []") auto
    then show "P w1 \<and> data = snap @ concat (c # cs) \<and> within_spec p (int (length data))" using h by simp
  qed
  note next_piece = this
  let ?size = "int (length snap) + int (length c)"
  show ?case
  proof (cases "within_spec p ?size")
    case True
    then have e: "scan_artifact progress p (c # cs) snap w =
        sbind (progress VP_STREAM ?size) (\<lambda>_. scan_artifact progress p cs (snap @ c)) w"
      by (auto simp: within_spec_def Let_def split: option.splits)
    show ?thesis
      unfolding e wp_sbind
    proof (rule wp_mono [OF assms [OF Cons.prems]], assumption, goal_cases)
      case (1 a t)
      show ?case by (rule wp_mono [OF next_piece [OF 1 True]]) simp_all
    qed
  next
    case False
    then have "\<exists>m. scan_artifact progress p (c # cs) snap w = fail ArtifactValidationError m w"
      by (cases "vs_max_size p < ?size") (auto simp: within_spec_def Let_def validation_error_def split: option.splits)
    then obtain m where e: "scan_artifact progress p (c # cs) snap w = fail ArtifactValidationError m w" ..
    show ?thesis unfolding e wp_fail by (rule Cons.prems)
  qed
qed (simp add: wp_simps)

lemma scan_artifact_reads:
  "(\<And>ph n. progress ph n = ok ()) \<Longrightarrow> within_spec p (int (length snap) + int (length (concat cs))) \<Longrightarrow>
     scan_artifact progress p cs snap w = ok (snap @ concat cs) w"
proof (induction cs arbitrary: snap w)
  case (Cons c cs)
  have "within_spec p (int (length snap) + int (length c))" using Cons.prems(2) by (auto simp: within_spec_def split: option.splits)
  then show ?case using Cons.IH [of "snap @ c" w] Cons.prems
    by (auto simp: Let_def within_spec_def sbind_def ok_def add.assoc split: option.splits)
qed simp

text \<open>Without a hook the outcome is decided by the bytes, the specification and the probe.\<close>

definition acceptable :: "float_env \<Rightarrow> validation_spec \<Rightarrow> string \<Rightarrow> media_info \<Rightarrow> bool" where
  "acceptable F p data m \<longleftrightarrow>
     data \<noteq> [] \<and> int (length data) \<le> vs_max_size p \<and> vs_expected_size p \<in> {None, Some (int (length data))} \<and>
     vs_expected_sha256 p \<in> {None, Some (sha256_hex data)} \<and> mi_media_type m = vs_content_type p \<and>
     mi_media_type m \<in> set artifact_media_types \<and>
     any_of (bad_number F (mi_duration_seconds m) (\<lambda>q. q \<le> 0)) = Inr False"

lemma new_ValidatedArtifact_from:
  "data \<noteq> [] \<Longrightarrow> new_ValidatedArtifact F (artifact_from data m) = Inr v \<longleftrightarrow>
     v = artifact_from data m \<and> mi_media_type m \<in> set artifact_media_types \<and>
     any_of (bad_number F (mi_duration_seconds m) (\<lambda>q. q \<le> 0)) = Inr False"
  by (auto simp: new_ValidatedArtifact_def after_eq_Inr checks_Cons_ok artifact_from_def lowercase_sha256_ok
      media_type_check_def reject_if_def Suc_le_eq split: if_splits)

definition no_progress :: "'w progress" where
  "no_progress ph n = ok ()"

lemma validate_artifact_eq:
  assumes p: "new_ValidationSpec p = Inr p"
  shows "fst (validate_artifact F probe no_progress p x w) = Inr v \<longleftrightarrow>
     (\<exists>m. probe x = Inr m \<and> acceptable F p x m \<and> v = artifact_from x m)"
proof -
  have whole: "concat (pieces mebibyte x) = x" by (rule concat_pieces) (simp add: mebibyte_def)
  have np: "no_progress ph n = ok ()" for ph n by (simp add: no_progress_def)
  have scan: "scan_artifact no_progress p (pieces mebibyte x) [] w = ok x w" if "within_spec p (int (length x))"
    using scan_artifact_reads [of no_progress p "[]" "pieces mebibyte x" w] that by (simp add: whole np)
  show ?thesis
  proof (cases "x = [] \<or> \<not> within_spec p (int (length x))")
    case True
    then have "\<not> acceptable F p x m" for m by (auto simp: acceptable_def within_spec_def split: option.splits)
    moreover have "fst (validate_artifact F probe no_progress p x w) \<noteq> Inr v"
    proof
      assume r: "fst (validate_artifact F probe no_progress p x w) = Inr v"
      have "wp (\<lambda>_ _. True) (\<lambda>data _. data = x \<and> (pieces mebibyte x \<noteq> [] \<longrightarrow> within_spec p (int (length data))))
          (scan_artifact no_progress p (pieces mebibyte x) [] w)"
        using scan_artifact_wp [where P = "\<lambda>_. True" and progress = no_progress and snap = "[]" and cs = "pieces mebibyte x"]
        by (simp add: np wp_simps whole)
      moreover have "pieces mebibyte x \<noteq> []" if "x \<noteq> []" using that by (simp add: pieces.simps mebibyte_def)
      ultimately show False using r True
        by (cases "scan_artifact no_progress p (pieces mebibyte x) [] w")
           (auto simp: validate_artifact_def sbind_def wp_def validation_error_def fail_def raise_def Let_def
              split: sum.splits if_splits)
    qed
    ultimately show ?thesis by blast
  next
    case False
    then have x: "x \<noteq> []" "within_spec p (int (length x))" by simp_all
    have max: "int (length x) \<le> vs_max_size p" using x(2) by (simp add: within_spec_def)
    show ?thesis
    proof (cases "probe x")
      case (Inl e)
      then show ?thesis using x
        by (auto simp: validate_artifact_def sbind_def scan ok_def validation_error_def fail_def np Let_def)
    next
      case (Inr m)
      note media = Inr and accepted = new_ValidatedArtifact_from [OF x(1), of F m]
      note defs = validate_artifact_def sbind_def scan ok_def validation_error_def fail_def np Let_def
      show ?thesis
      proof (cases "new_ValidatedArtifact F (artifact_from x m)")
        case (Inl e)
        then have "\<not> acceptable F p x m" using accepted [of "artifact_from x m"] by (auto simp: acceptable_def)
        then show ?thesis using x Inl media by (auto simp: defs)
      next
        case (Inr y)
        then have "y = artifact_from x m" "mi_media_type m \<in> set artifact_media_types"
          "any_of (bad_number F (mi_duration_seconds m) (\<lambda>q. q \<le> 0)) = Inr False" using accepted [of y] by simp_all
        then show ?thesis using x max Inr media by (auto simp: defs acceptable_def split: option.splits)
      qed
    qed
  qed
qed

end
