(* ===== verification/AttemptStore.thy ===== *)
theory AttemptStore
  imports Storage Uuid Domain
begin

text \<open>
  The attempt-object stores of \<open>durable/artifact_storage.py\<close>: keys, the local store over the part of
  the file system it owns (directories, objects with their modification times, the inventory journal
  and its cursors) and the in-memory S3 double. An iterable of chunks is the list of what it yields
  and the exception it may end with. What another process links under the name between the look and
  the \<open>os.link\<close>, the clock readings and a short write to the journal come with the call. Times are
  integers, so every time is aware; only the store itself makes the directories above its objects.
\<close>

section \<open>Keys\<close>

definition attempt_key_text :: "string \<Rightarrow> string \<Rightarrow> int \<Rightarrow> artifact_kind \<Rightarrow> string \<Rightarrow> string" where
  "attempt_key_text job attempt epoch kind publication =
     ''attempts/'' @ job @ ''/'' @ attempt @ ''/epoch-'' @ str_int epoch @ ''/'' @
     artifact_kind_value kind @ ''/'' @ publication"

text \<open>Python refuses to write an integer of more than 4300 digits.\<close>

definition attempt_key :: "string \<Rightarrow> string \<Rightarrow> int \<Rightarrow> artifact_kind \<Rightarrow> string \<Rightarrow> string res" where
  "attempt_key j a epoch kind p =
     after (uuid_canonical j) (\<lambda>job.
     after (uuid_canonical a) (\<lambda>attempt.
     after (uuid_canonical p) (\<lambda>publication.
       if epoch < 1 then raise ValueError ''lease_epoch must be a positive integer''
       else if length (str_int epoch) > 4300 then raise ValueError ''Exceeds the limit for integer string conversion''
       else Inr (attempt_key_text job attempt epoch kind publication))))"

definition attempt_key_error :: "'a res" where
  "attempt_key_error = raise ValueError ''storage_key must be an exact attempt key''"

definition kind_of_value :: "string \<Rightarrow> artifact_kind option" where
  "kind_of_value v = find (\<lambda>k. artifact_kind_value k = v) [OUTPUT, MANIFEST]"

type_synonym attempt_names = "string \<times> string \<times> int \<times> artifact_kind \<times> string"

text \<open>The body of the \<open>try\<close>: \<open>None\<close> where it raises \<open>ValueError\<close>.\<close>

definition key_fields :: "string list \<Rightarrow> attempt_names option" where
  "key_fields parts =
     (case (uuid_canonical (parts ! 1), uuid_canonical (parts ! 2), uuid_canonical (parts ! 5)) of
        (Inr job, Inr attempt, Inr publication) \<Rightarrow>
          if \<not> startswith (parts ! 3) ''epoch-'' then None
          else (case int10 (drop 6 (parts ! 3)) of
                  None \<Rightarrow> None
                | Some epoch \<Rightarrow>
                    if epoch < 1 \<or> drop 6 (parts ! 3) \<noteq> str_int epoch then None
                    else map_option (\<lambda>kind. (job, attempt, epoch, kind, publication)) (kind_of_value (parts ! 4)))
      | _ \<Rightarrow> None)"

definition parse_attempt_key :: "string \<Rightarrow> attempt_names res" where
  "parse_attempt_key k =
     (if k = [] \<or> contains k [CHR 0x00] \<or> contains k [CHR 0x5C] \<or> startswith k ''/'' then attempt_key_error
      else let parts = split_on (CHR ''/'') k in
        if length parts \<noteq> 6 \<or> parts ! 0 \<noteq> ''attempts'' \<or> list_ex (\<lambda>p. p \<in> {[], ''.'', ''..''}) parts
        then attempt_key_error
        else (case key_fields parts of
                None \<Rightarrow> attempt_key_error
              | Some (job, attempt, epoch, kind, publication) \<Rightarrow>
                  after (attempt_key job attempt epoch kind publication) (\<lambda>expected.
                    if k \<noteq> expected then attempt_key_error else Inr (job, attempt, epoch, kind, publication))))"

section \<open>Objects and pages\<close>

record attempt_object =
  ao_storage_key :: string
  ao_size_bytes :: int
  ao_sha256 :: string
  ao_created_at :: int
  ao_transport_etag :: "string option"

definition attempt_sha256 :: "string \<Rightarrow> unit res" where
  "attempt_sha256 h = require (sha256_text_ok h) ValueError ''sha256 must be lowercase 64-character hexadecimal''"

definition new_AttemptObject :: "attempt_object \<Rightarrow> attempt_object res" where
  "new_AttemptObject x =
     after (parse_attempt_key (ao_storage_key x)) (\<lambda>_.
     after (checks [require (0 \<le> ao_size_bytes x) ValueError ''size_bytes must be non-negative'',
                    attempt_sha256 (ao_sha256 x),
                    require (ao_transport_etag x \<noteq> Some []) ValueError ''transport_etag must be non-empty when supplied''])
       (\<lambda>_. Inr x))"

definition object_for :: "string \<Rightarrow> string \<Rightarrow> int \<Rightarrow> string option \<Rightarrow> attempt_object" where
  "object_for k data t etag =
     \<lparr>ao_storage_key = k, ao_size_bytes = int (length data), ao_sha256 = sha256_hex data, ao_created_at = t,
      ao_transport_etag = etag\<rparr>"

record inventory_page =
  ip_objects :: "attempt_object list"
  ip_scanned :: int
  ip_next :: int
  ip_wrapped :: bool

definition new_InventoryPage :: "inventory_page \<Rightarrow> inventory_page res" where
  "new_InventoryPage p =
     after (checks [require (0 \<le> ip_scanned p \<and> 0 \<le> ip_next p) ValueError ''inventory page counters must be non-negative'',
                    require (int (length (ip_objects p)) \<le> ip_scanned p)
                      ValueError ''inventory page cannot contain more objects than scanned entries''])
       (\<lambda>_. Inr p)"

definition attempt_limit :: "int \<Rightarrow> unit res" where
  "attempt_limit n = require (1 \<le> n) ValueError ''limit must be positive''"

definition scan_id_ok :: "string \<Rightarrow> unit res" where
  "scan_id_ok i = require (i \<noteq> [] \<and> list_all (\<lambda>c. c \<in> set ''abcdefghijklmnopqrstuvwxyz_'') i)
     ValueError ''scan_id must contain only lowercase letters and underscores''"

type_synonym chunk_stream = "pyval list \<times> exc option"

fun consume :: "pyval list \<Rightarrow> exc option \<Rightarrow> string res" where
  "consume [] e = (case e of None \<Rightarrow> Inr [] | Some x \<Rightarrow> Inl x)"
| "consume (c # cs) e =
     (case c of
        PBytes b \<Rightarrow> after (consume cs e) (\<lambda>r. Inr (b @ r))
      | _ \<Rightarrow> raise TypeError ''attempt object chunks must be bytes'')"

text \<open>What a call to \<open>put_stream\<close> meets: clock, modification time, rival, bytes of the journal entry written.\<close>

record put_env =
  pe_created :: int
  pe_mtime :: int
  pe_rival :: "(dir_entry \<times> int) option"
  pe_short :: "nat option"

section \<open>The local store\<close>

record local_attempts =
  la_dirs :: "string list set"
  la_files :: "string list \<rightharpoonup> dir_entry \<times> int"
  la_journal :: "dir_entry option"
  la_cursors :: "string \<rightharpoonup> dir_entry"

definition empty_attempts :: local_attempts where
  "empty_attempts = \<lparr>la_dirs = {}, la_files = Map.empty, la_journal = None, la_cursors = Map.empty\<rparr>"

text \<open>\<open>_components\<close> without the file name, and the directories above them.\<close>

definition parents :: "string list \<Rightarrow> string list list" where
  "parents parts = map (\<lambda>n. take n parts) [1..<length parts]"

definition components :: "string \<Rightarrow> string list res" where
  "components k = after (parse_attempt_key k) (\<lambda>_. Inr (split_on (CHR ''/'') k))"

definition open_parent :: "string list \<Rightarrow> bool \<Rightarrow> (local_attempts, unit) sop" where
  "open_parent parts create s =
     (if create then ok () (s\<lparr>la_dirs := la_dirs s \<union> set (parents parts)\<rparr>)
      else (case find (\<lambda>p. p \<notin> la_dirs s) (parents parts) of
              None \<Rightarrow> ok () s
            | Some p \<Rightarrow> fail FileNotFoundError (last p) s))"

text \<open>\<open>os.open(name, O_RDONLY | O_NOFOLLOW)\<close> with the test for a regular file.\<close>

definition read_object :: "local_attempts \<Rightarrow> string list \<Rightarrow> (string \<times> int) res" where
  "read_object s parts =
     (case la_files s parts of
        None \<Rightarrow> raise FileNotFoundError (last parts)
      | Some (SymbolicLink, t) \<Rightarrow> raise OSError (last parts)
      | Some (Directory, t) \<Rightarrow> raise RuntimeError ''attempt object is not a regular file''
      | Some (RegularFile x, t) \<Rightarrow> Inr (x, t))"

definition stat_open :: "local_attempts \<Rightarrow> string list \<Rightarrow> string \<Rightarrow> attempt_object res" where
  "stat_open s parts k = after (read_object s parts) (\<lambda>(x, t). new_AttemptObject (object_for k x t None))"

definition max_line :: nat where
  "max_line = 512"

definition newline :: char where
  "newline = CHR 0x0A"

definition append_journal :: "string \<Rightarrow> nat option \<Rightarrow> (local_attempts, unit) sop" where
  "append_journal payload short s =
     (case la_journal s of
        Some SymbolicLink \<Rightarrow> fail OSError ''.attempt-inventory-v1'' s
      | Some Directory \<Rightarrow> fail OSError ''.attempt-inventory-v1'' s
      | j \<Rightarrow>
         (let old = (case j of Some (RegularFile x) \<Rightarrow> x | _ \<Rightarrow> []) in
          case short of
            None \<Rightarrow> ok () (s\<lparr>la_journal := Some (RegularFile (old @ payload))\<rparr>)
          | Some n \<Rightarrow>
             (let s' = s\<lparr>la_journal := Some (RegularFile (old @ take n payload))\<rparr> in
              if n < length payload then fail OSError ''short attempt inventory write'' s' else ok () s')))"

definition record_inventory :: "string \<Rightarrow> nat option \<Rightarrow> (local_attempts, unit) sop" where
  "record_inventory k short s =
     (if length (k @ [newline]) > max_line
      then fail ValueError ''attempt key exceeds inventory record bound'' s
      else append_journal (k @ [newline]) short s)"

definition different_bytes :: "'s \<Rightarrow> 'a res \<times> 's" where
  "different_bytes s = fail StateTransitionError ''attempt object key already contains different bytes'' s"

definition lat_put_stream :: "put_env \<Rightarrow> string \<Rightarrow> chunk_stream \<Rightarrow> (local_attempts, attempt_object) sop" where
  "lat_put_stream e k st s =
     lift (components k) s (\<lambda>parts.
     sbind (record_inventory k (pe_short e)) (\<lambda>_.
     sbind (open_parent parts True) (\<lambda>_ s.
       lift (consume (fst st) (snd st)) s (\<lambda>data.
         let s1 = (case (la_files s parts, pe_rival e) of
                     (None, Some r) \<Rightarrow> s\<lparr>la_files := (la_files s)(parts \<mapsto> r)\<rparr>
                   | _ \<Rightarrow> s)
         in if la_files s1 parts = None
            then lift (new_AttemptObject (object_for k data (pe_created e) None))
                   (s1\<lparr>la_files := (la_files s1)(parts \<mapsto> (RegularFile data, pe_mtime e))\<rparr>)
                   (\<lambda>x. ok x (s1\<lparr>la_files := (la_files s1)(parts \<mapsto> (RegularFile data, pe_mtime e))\<rparr>))
            else lift (stat_open s1 parts k) s1 (\<lambda>existing.
                   if ao_sha256 existing \<noteq> sha256_hex data \<or> ao_size_bytes existing \<noteq> int (length data)
                   then different_bytes s1 else ok existing s1)))) s)"

definition lat_open_reader :: "string \<Rightarrow> (local_attempts, string) sop" where
  "lat_open_reader k s =
     lift (components k) s (\<lambda>parts.
     sbind (open_parent parts False) (\<lambda>_ s. lift (read_object s parts) s (\<lambda>(x, t). ok x s)) s)"

definition lat_stat :: "string \<Rightarrow> (local_attempts, attempt_object) sop" where
  "lat_stat k s =
     lift (components k) s (\<lambda>parts.
     sbind (open_parent parts False) (\<lambda>_ s. lift (stat_open s parts k) s (\<lambda>x. ok x s)) s)"

definition lat_delete :: "string \<Rightarrow> (local_attempts, unit) sop" where
  "lat_delete k s =
     lift (components k) s (\<lambda>parts.
     sbind (open_parent parts False) (\<lambda>_ s.
       case la_files s parts of
         None \<Rightarrow> ok () s
       | Some (RegularFile x, t) \<Rightarrow> ok () (s\<lparr>la_files := (la_files s)(parts := None)\<rparr>)
       | Some _ \<Rightarrow> fail RuntimeError ''attempt object is not a regular file'' s) s)"

section \<open>The inventory of the local store\<close>

text \<open>\<open>os.stat(_, follow_symlinks=False)\<close> looks at the entry, not at its content.\<close>

definition lat_created_at :: "string \<Rightarrow> (local_attempts, int) sop" where
  "lat_created_at k s =
     lift (components k) s (\<lambda>parts.
     sbind (open_parent parts False) (\<lambda>_ s.
       case la_files s parts of
         None \<Rightarrow> fail FileNotFoundError (last parts) s
       | Some (RegularFile x, t) \<Rightarrow> ok t s
       | Some _ \<Rightarrow> fail RuntimeError ''attempt object is not a regular file'' s) s)"

text \<open>\<open>source.readline(n)\<close>.\<close>

definition readline :: "nat \<Rightarrow> string \<Rightarrow> string" where
  "readline n s =
     (let l = takeWhile (\<lambda>c. c \<noteq> newline) s
      in take n (if length l < length s then l @ [newline] else l))"

text \<open>
  One line of the journal: the objects it adds to the page and the keys seen. The exceptions of the
  \<open>try\<close> block skip the line.
\<close>

definition inventory_entry ::
  "local_attempts \<Rightarrow> int \<Rightarrow> string \<Rightarrow> string list \<Rightarrow> attempt_object list \<times> string list"
where
  "inventory_entry s cutoff k seen =
     (if \<not> list_all (\<lambda>c. code c < 128) k then ([], seen)
      else case parse_attempt_key k of
        Inl _ \<Rightarrow> ([], seen)
      | Inr _ \<Rightarrow>
          if k \<in> set seen then ([], seen)
          else ((case fst (lat_created_at k s) of
                   Inl _ \<Rightarrow> []
                 | Inr t \<Rightarrow>
                     if t \<ge> cutoff then []
                     else (case fst (lat_stat k s) of
                             Inl _ \<Rightarrow> []
                           | Inr x \<Rightarrow> if ao_created_at x < cutoff then [x] else [])), k # seen))"

fun scan_lines ::
  "local_attempts \<Rightarrow> int \<Rightarrow> string \<Rightarrow> nat \<Rightarrow> nat \<Rightarrow> string list \<Rightarrow> (attempt_object list \<times> nat \<times> nat \<times> bool) res"
where
  "scan_lines s cutoff content 0 pos seen = Inr ([], 0, pos, False)"
| "scan_lines s cutoff content (Suc n) pos seen =
     (let line = readline (max_line + 1) (drop pos content) in
      if line = [] then Inr ([], 0, 0, True)
      else if length line > max_line \<or> last line \<noteq> newline
      then raise RuntimeError ''attempt inventory contains an invalid record''
      else let (found, seen') = inventory_entry s cutoff (butlast line) seen in
        after (scan_lines s cutoff content n (pos + length line) seen')
          (\<lambda>(objects, scanned, next, wrapped). Inr (found @ objects, Suc scanned, next, wrapped)))"

definition inventory_page_from :: "local_attempts \<Rightarrow> int \<Rightarrow> nat \<Rightarrow> nat \<Rightarrow> inventory_page res" where
  "inventory_page_from s cutoff limit cursor =
     (case la_journal s of
        None \<Rightarrow> new_InventoryPage \<lparr>ip_objects = [], ip_scanned = 0, ip_next = 0, ip_wrapped = True\<rparr>
      | Some SymbolicLink \<Rightarrow> raise OSError ''.attempt-inventory-v1''
      | Some Directory \<Rightarrow> raise RuntimeError ''attempt inventory is not a regular file''
      | Some (RegularFile content) \<Rightarrow>
          after (scan_lines s cutoff content limit cursor [])
            (\<lambda>(objects, scanned, next, wrapped).
               new_InventoryPage \<lparr>ip_objects = objects, ip_scanned = int scanned, ip_next = int next,
                                  ip_wrapped = wrapped\<rparr>))"

definition read_cursor :: "string \<Rightarrow> local_attempts \<Rightarrow> nat res" where
  "read_cursor scan_id s =
     (case la_cursors s scan_id of
        None \<Rightarrow> Inr 0
      | Some SymbolicLink \<Rightarrow> raise OSError scan_id
      | Some Directory \<Rightarrow> raise RuntimeError ''attempt inventory cursor is not a regular file''
      | Some (RegularFile x) \<Rightarrow>
          if x = [] \<or> length x > 64 \<or> \<not> list_all (\<lambda>c. 48 \<le> code c \<and> code c \<le> 57) x
          then raise RuntimeError ''attempt inventory cursor is invalid''
          else (case int10 x of None \<Rightarrow> raise ValueError ''invalid literal for int() with base 10''
                | Some n \<Rightarrow> Inr (nat n)))"

definition write_cursor :: "string \<Rightarrow> int \<Rightarrow> (local_attempts, unit) sop" where
  "write_cursor scan_id n s =
     (case la_cursors s scan_id of
        Some Directory \<Rightarrow> fail OSError scan_id s
      | _ \<Rightarrow> ok () (s\<lparr>la_cursors := (la_cursors s)(scan_id \<mapsto> RegularFile (str_int n))\<rparr>))"

definition lat_inventory_page_before :: "int \<Rightarrow> int \<Rightarrow> string \<Rightarrow> (local_attempts, inventory_page) sop" where
  "lat_inventory_page_before cutoff limit scan_id s =
     lift (attempt_limit limit) s (\<lambda>_.
     lift (scan_id_ok scan_id) s (\<lambda>_.
     lift (read_cursor scan_id s) s (\<lambda>cursor.
     lift (inventory_page_from s cutoff (nat limit) cursor) s (\<lambda>page.
     sbind (write_cursor scan_id (ip_next page)) (\<lambda>_. ok page) s))))"

lemma scan_lines_progress:
  "scan_lines s cutoff content n pos seen = Inr (xs, m, next, w) \<Longrightarrow>
     (w \<longrightarrow> next = 0 \<and> m < n) \<and> (\<not> w \<longrightarrow> m = n \<and> pos + n \<le> next \<and> (0 < n \<longrightarrow> next \<le> length content) \<and> (n = 0 \<longrightarrow> next = pos)) \<and>
     length xs \<le> m"
proof (induction n arbitrary: pos seen xs m "next" w)
  case 0
  then show ?case by simp
next
  case (Suc n)
  let ?line = "readline (max_line + 1) (drop pos content)"
  show ?case
  proof (cases "?line = []")
    case True
    then show ?thesis using Suc.prems by simp
  next
    case False
    obtain found seen' where e: "inventory_entry s cutoff (butlast ?line) seen = (found, seen')" by fastforce
    have len: "length found \<le> 1" using e by (auto simp: inventory_entry_def split: if_splits sum.splits)
    have pos: "pos + length ?line \<le> length content" "0 < length ?line"
    proof -
      show "0 < length ?line" using False by simp
      have "length ?line \<le> length (drop pos content)"
        using length_takeWhile_le [of "\<lambda>c. c \<noteq> newline" "drop pos content"] by (auto simp: readline_def Let_def)
      moreover have "pos < length content" using False by (cases "pos < length content") (auto simp: readline_def)
      ultimately show "pos + length ?line \<le> length content" by simp
    qed
    obtain ys k where r: "scan_lines s cutoff content n (pos + length ?line) seen' = Inr (ys, k, next, w)"
      "xs = found @ ys" "m = Suc k"
      using Suc.prems False e by (auto simp: Let_def after_eq_Inr split: if_splits)
    define L where "L = length ?line"
    have L: "pos + L \<le> length content" "0 < L" using pos by (simp_all add: L_def)
    from Suc.IH [OF r(1), folded L_def] show ?thesis using r(2,3) len L by (cases n) auto
  qed
qed

text \<open>The loop of \<open>list_before\<close>; a page that does not wrap ends behind the cursor it began at.\<close>

function list_pages ::
  "local_attempts \<Rightarrow> int \<Rightarrow> nat \<Rightarrow> (string \<times> attempt_object) list \<Rightarrow> (string \<times> attempt_object) list res"
where
  "list_pages s cutoff cursor found =
     (case inventory_page_from s cutoff 100 cursor of
        Inl e \<Rightarrow> Inl e
      | Inr page \<Rightarrow>
         (let found' = fold (\<lambda>x. AList.update (ao_storage_key x) x) (ip_objects page) found
          in if ip_wrapped page then Inr found' else list_pages s cutoff (nat (ip_next page)) found'))"
  by pat_completeness auto
termination
proof (relation "measure (\<lambda>(s, cutoff, cursor, found).
    case la_journal s of Some (RegularFile x) \<Rightarrow> Suc (length x) - cursor | _ \<Rightarrow> 0)", goal_cases)
  case 1
  then show ?case by simp
next
  case (2 s cutoff cursor found page found')
  then obtain content xs m "next" where c: "la_journal s = Some (RegularFile content)"
    and r: "scan_lines s cutoff content 100 cursor [] = Inr (xs, m, next, False)" and n: "ip_next page = int next"
    by (auto simp: inventory_page_from_def new_InventoryPage_def after_eq_Inr split: option.splits dir_entry.splits)
  from scan_lines_progress [OF r] show ?case using c n by simp arith
qed

declare list_pages.simps [simp del]

definition lat_list_before :: "int \<Rightarrow> (local_attempts, attempt_object list) sop" where
  "lat_list_before cutoff s =
     lift (list_pages s cutoff 0 []) s (\<lambda>found. ok (map (the \<circ> map_of found) (sort (map fst found))) s)"

section \<open>The in-memory double\<close>

type_synonym stored_object = "string \<times> int \<times> string"

record mem_attempts =
  ma_objects :: "(string \<times> stored_object) list"
  ma_inventory :: "string list"
  ma_cursors :: "string \<rightharpoonup> nat"

definition empty_mem_attempts :: mem_attempts where
  "empty_mem_attempts = \<lparr>ma_objects = [], ma_inventory = [], ma_cursors = Map.empty\<rparr>"

definition mem_object :: "string \<Rightarrow> stored_object \<Rightarrow> attempt_object res" where
  "mem_object k = (\<lambda>(data, t, etag). new_AttemptObject (object_for k data t (Some etag)))"

text \<open>\<open>etag\<close> is the injected factory.\<close>

definition mat_put_stream ::
  "(string \<Rightarrow> string \<Rightarrow> pyval res) \<Rightarrow> put_env \<Rightarrow> string \<Rightarrow> chunk_stream \<Rightarrow> (mem_attempts, attempt_object) sop"
where
  "mat_put_stream etag e k st s =
     lift (parse_attempt_key k) s (\<lambda>_.
     lift (consume (fst st) (snd st)) s (\<lambda>data.
       let s1 = s\<lparr>ma_inventory := ma_inventory s @ [k]\<rparr> in
       case map_of (ma_objects s1) k of
         Some old \<Rightarrow> if fst old \<noteq> data then different_bytes s1 else lift (mem_object k old) s1 (\<lambda>x. ok x s1)
       | None \<Rightarrow>
           lift (etag k data) s1 (\<lambda>tag.
             case tag of
               PStr g \<Rightarrow>
                 if g = [] then fail ValueError ''etag factory must return a non-empty string'' s1
                 else let s2 = s1\<lparr>ma_objects := ma_objects s1 @ [(k, data, pe_created e, g)]\<rparr>
                      in lift (mem_object k (data, pe_created e, g)) s2 (\<lambda>x. ok x s2)
             | _ \<Rightarrow> fail ValueError ''etag factory must return a non-empty string'' s1)))"

definition mat_open_reader :: "string \<Rightarrow> (mem_attempts, string) sop" where
  "mat_open_reader k s =
     lift (parse_attempt_key k) s (\<lambda>_.
       case map_of (ma_objects s) k of None \<Rightarrow> fail KeyError k s | Some old \<Rightarrow> ok (fst old) s)"

definition mat_stat :: "string \<Rightarrow> (mem_attempts, attempt_object) sop" where
  "mat_stat k s =
     lift (parse_attempt_key k) s (\<lambda>_.
       case map_of (ma_objects s) k of
         None \<Rightarrow> fail KeyError k s
       | Some old \<Rightarrow> lift (mem_object k old) s (\<lambda>x. ok x s))"

definition mat_delete :: "string \<Rightarrow> (mem_attempts, unit) sop" where
  "mat_delete k s =
     lift (parse_attempt_key k) s (\<lambda>_. ok () (s\<lparr>ma_objects := AList.delete k (ma_objects s)\<rparr>))"

fun mem_objects :: "(string \<times> stored_object) list \<Rightarrow> attempt_object list res" where
  "mem_objects [] = Inr []"
| "mem_objects ((k, v) # xs) = after (mem_object k v) (\<lambda>x. after (mem_objects xs) (\<lambda>ys. Inr (x # ys)))"

definition mat_list_before :: "int \<Rightarrow> (mem_attempts, attempt_object list) sop" where
  "mat_list_before cutoff s =
     lift (mem_objects (filter (\<lambda>(k, d, t, g). t < cutoff) (ma_objects s))) s
       (\<lambda>xs. ok (sort_key ao_storage_key xs) s)"

text \<open>\<open>remdups\<close> keeps last occurrences, a \<open>seen\<close> set the first ones.\<close>

definition first_keys :: "string list \<Rightarrow> string list" where
  "first_keys ks = rev (remdups (rev ks))"

definition mat_inventory_page_before :: "int \<Rightarrow> int \<Rightarrow> string \<Rightarrow> (mem_attempts, inventory_page) sop" where
  "mat_inventory_page_before cutoff limit scan_id s =
     lift (attempt_limit limit) s (\<lambda>_.
     lift (scan_id_ok scan_id) s (\<lambda>_.
       let cursor = (case ma_cursors s scan_id of None \<Rightarrow> 0 | Some n \<Rightarrow> n);
           keys = take (nat limit) (drop cursor (ma_inventory s));
           end_cursor = cursor + length keys;
           wrapped = (end_cursor \<ge> length (ma_inventory s));
           next_cursor = (if wrapped then 0 else end_cursor);
           s1 = s\<lparr>ma_cursors := (ma_cursors s)(scan_id \<mapsto> next_cursor)\<rparr>;
           old = List.map_filter (\<lambda>k. case map_of (ma_objects s) k of
                   None \<Rightarrow> None | Some (d, t, g) \<Rightarrow> if t < cutoff then Some (k, d, t, g) else None) (first_keys keys)
       in lift (mem_objects old) s1 (\<lambda>objects.
            lift (new_InventoryPage \<lparr>ip_objects = objects, ip_scanned = int (length keys),
                    ip_next = int next_cursor, ip_wrapped = wrapped\<rparr>) s1 (\<lambda>page. ok page s1))))"

end
