(* ===== verification/StorageProps.thy ===== *)
theory StorageProps
  imports Storage
begin

text \<open>
  What the blob stores promise: keys name one place inside the store, a stored object is never
  replaced by other bytes, and what is read back has the digest and size of what was written.
  The contract is the locale \<open>blob_store\<close>; both stores are interpreted in it.
\<close>

section \<open>Keys\<close>

lemma canonical_key_eq:
  "canonical_key h = Inr k \<longleftrightarrow>
     sha256_text_ok h \<and> k = key_of h"
  by (auto simp: canonical_key_def sha256_text_ok_def)

lemma canonical_key_sha256 [simp]:
  "canonical_key (sha256_hex d) = Inr (key_of (sha256_hex d))"
  by (simp add: canonical_key_eq)

lemma sha256_text_avoids:
  assumes "sha256_text_ok h" and "\<not> int_char c"
  shows "c \<notin> set h"
  using sha256_text_chars [OF assms(1)] assms(2) by (auto simp: list_all_iff)

lemma split_canonical_key:
  assumes "sha256_text_ok h"
  shows "split_on CHR ''/'' (key_of h) =
           [''blobs'', ''sha256'', take 2 h, take 2 (drop 2 h), h]"
proof -
  have n: "CHR ''/'' \<notin> set h" by (rule sha256_text_avoids [OF assms not_int_char(1)])
  have n2: "CHR ''/'' \<notin> set (take 2 h)" "CHR ''/'' \<notin> set (take 2 (drop 2 h))"
    using n by (meson in_set_takeD in_set_dropD)+
  have b: "CHR ''/'' \<notin> set ''blobs''" "CHR ''/'' \<notin> set ''sha256''" by simp_all
  have "key_of h =
     ''blobs'' @ CHR ''/'' # ''sha256'' @ CHR ''/'' # take 2 h @ CHR ''/'' # take 2 (drop 2 h) @ CHR ''/'' # h"
    by (simp add: key_of_def)
  then show ?thesis
    by (simp only: split_on_app [OF b(1)] split_on_app [OF b(2)] split_on_app [OF n2(1)]
        split_on_app [OF n2(2)] split_on_none [OF n])
qed

lemma key_error_eq [simp]: "key_error \<noteq> Inr x" "Inr x \<noteq> key_error"
  by (simp_all add: key_error_def raise_def)

lemma after_no_value: "(\<And>a. r = Inr a \<Longrightarrow> k a \<noteq> Inr b) \<Longrightarrow> after r k \<noteq> Inr b"
  by (auto simp: after_eq_Inr)

lemma parse_key_sound: "parse_key k = Inr (a, b, d) \<Longrightarrow>
  canonical_key d = Inr k \<and> a = take 2 d \<and> b = take 2 (drop 2 d)"
  by (auto simp: parse_key_def Let_def after_eq_Inr split: if_splits)

lemma parse_canonical_key:
  assumes "canonical_key d = Inr k"
  shows "parse_key k = Inr (take 2 d, take 2 (drop 2 d), d)"
proof -
  have ok: "sha256_text_ok d"
    and k: "k = key_of d"
    using assms by (auto simp: canonical_key_eq)
  have len: "length d = 64" using ok by (simp add: sha256_text_ok_def)
  have dot: "CHR ''.'' \<notin> set d" "CHR 0x5C \<notin> set d" "CHR 0x00 \<notin> set d"
    by (rule sha256_text_avoids [OF ok], rule not_int_char)+
  have sub: "set (take 2 d) \<subseteq> set d" "set (take 2 (drop 2 d)) \<subseteq> set d"
    by (simp add: set_take_subset, meson order_trans set_drop_subset set_take_subset)
  have free: "p \<notin> {[], ''.'', ''..''}" if "p \<in> {take 2 d, take 2 (drop 2 d), d}" for p
  proof -
    have "p \<noteq> []" and "set p \<subseteq> set d" using that len sub by auto
    then show ?thesis using dot(1) by auto
  qed
  have clean: "\<not> contains k [CHR 0x00]" "\<not> contains k [CHR 0x5C]"
    using dot sub by (auto simp: contains_single k key_of_def)
  have "\<not> startswith k ''/''" "k \<noteq> []" by (auto simp: k key_of_def startswith_iff)
  then show ?thesis
    using clean free assms split_canonical_key [OF ok, folded k] len
    by (simp add: parse_key_def Let_def)
qed

lemma mem_validate_key_eq: "mem_validate_key k = Inr () \<longleftrightarrow> (\<exists>d. canonical_key d = Inr k)"
proof
  assume "mem_validate_key k = Inr ()"
  then show "\<exists>d. canonical_key d = Inr k"
    by (auto simp: mem_validate_key_def Let_def after_eq_Inr split: if_splits)
next
  assume "\<exists>d. canonical_key d = Inr k"
  then obtain d where d: "canonical_key d = Inr k" by blast
  then have "split_on CHR ''/'' k = [''blobs'', ''sha256'', take 2 d, take 2 (drop 2 d), d]"
    using split_canonical_key by (auto simp: canonical_key_eq)
  with d show "mem_validate_key k = Inr ()" by (simp add: mem_validate_key_def)
qed

lemma parse_key_eq:
  "parse_key k = Inr (a, b, d) \<longleftrightarrow> canonical_key d = Inr k \<and> a = take 2 d \<and> b = take 2 (drop 2 d)"
  using parse_key_sound parse_canonical_key by blast

lemma canonical_key_parts:
  assumes "canonical_key d = Inr k" and "p \<in> {take 2 d, take 2 (drop 2 d), d}"
  shows "p \<notin> {[], ''.'', ''..''} \<and> CHR ''/'' \<notin> set p \<and> CHR 0x00 \<notin> set p"
proof -
  have ok: "sha256_text_ok d" using assms(1) by (simp add: canonical_key_eq)
  have avoid: "CHR ''/'' \<notin> set d" "CHR ''.'' \<notin> set d" "CHR 0x00 \<notin> set d"
    by (rule sha256_text_avoids [OF ok], rule not_int_char)+
  have "length d = 64" using ok by (simp add: sha256_text_ok_def)
  then have "p \<noteq> []" using assms(2) by auto
  moreover have "set p \<subseteq> set d"
    using assms(2) by (auto dest: in_set_takeD in_set_dropD)
  ultimately show ?thesis using avoid by auto
qed

section \<open>The contract\<close>

definition describes :: "blob_object \<Rightarrow> string \<Rightarrow> bool" where
  "describes obj data \<longleftrightarrow>
     obj_sha256 obj = sha256_hex data \<and> obj_size_bytes obj = int (length data) \<and>
     canonical_key (sha256_hex data) = Inr (obj_storage_key obj)"

locale blob_store =
  fixes put :: "'e \<Rightarrow> string list \<Rightarrow> ('s, blob_object) sop"
    and opn :: "string \<Rightarrow> ('s, string) sop"
    and stat :: "string \<Rightarrow> ('s, blob_object) sop"
    and env_ok :: "'e \<Rightarrow> string list \<Rightarrow> bool"
    and inv :: "'s \<Rightarrow> bool"
    and held :: "'s \<Rightarrow> string \<Rightarrow> string option"
  assumes put_inv: "inv s \<Longrightarrow> env_ok e cs \<Longrightarrow> inv (snd (put e cs s))"
    and put_keeps: "inv s \<Longrightarrow> env_ok e cs \<Longrightarrow> held s k = Some x \<Longrightarrow> held (snd (put e cs s)) k = Some x"
    and put_describes: "inv s \<Longrightarrow> env_ok e cs \<Longrightarrow> put e cs s = (Inr obj, t) \<Longrightarrow> describes obj (concat cs)"
    and put_holds: "inv s \<Longrightarrow> env_ok e cs \<Longrightarrow> put e cs s = (Inr obj, t) \<Longrightarrow> \<exists>x. held t (obj_storage_key obj) = Some x"
    and put_error: "inv s \<Longrightarrow> env_ok e cs \<Longrightarrow> put e cs s = (Inl err, t) \<Longrightarrow>
        \<exists>k x. held t k = Some x \<and> sha256_hex x = sha256_hex (concat cs) \<and> x \<noteq> concat cs"
    and held_addressed: "inv s \<Longrightarrow> held s k = Some x \<Longrightarrow> canonical_key (sha256_hex x) = Inr k"
    and opn_held: "inv s \<Longrightarrow> held s k = Some x \<Longrightarrow> opn k s = (Inr x, s)"
    and opn_missing: "inv s \<Longrightarrow> held s k = None \<Longrightarrow> \<exists>err. opn k s = (Inl err, s)"
    and stat_held: "inv s \<Longrightarrow> held s k = Some x \<Longrightarrow>
        stat k s = (Inr \<lparr>obj_sha256 = sha256_hex x, obj_size_bytes = int (length x), obj_storage_key = k\<rparr>, s)"
begin

text \<open>A written object is read back with the digest it was written under.\<close>

lemma put_opn:
  assumes "inv s" and "env_ok e cs" and "put e cs s = (Inr obj, t)"
  shows "\<exists>x. opn (obj_storage_key obj) t = (Inr x, t) \<and> sha256_hex x = sha256_hex (concat cs)"
proof -
  have t: "inv t" using put_inv [OF assms(1,2)] assms(3) by simp
  obtain x where x: "held t (obj_storage_key obj) = Some x" using put_holds [OF assms] by blast
  have "canonical_key (sha256_hex x) = Inr (obj_storage_key obj)" by (rule held_addressed [OF t x])
  moreover have "canonical_key (sha256_hex (concat cs)) = Inr (obj_storage_key obj)"
    using put_describes [OF assms] by (simp add: describes_def)
  ultimately have "parse_key (obj_storage_key obj) = Inr (take 2 (sha256_hex x), take 2 (drop 2 (sha256_hex x)), sha256_hex x)"
    and "parse_key (obj_storage_key obj) =
      Inr (take 2 (sha256_hex (concat cs)), take 2 (drop 2 (sha256_hex (concat cs))), sha256_hex (concat cs))"
    by (simp_all add: parse_key_eq)
  then have "sha256_hex x = sha256_hex (concat cs)" by simp
  then show ?thesis using opn_held [OF t x] by blast
qed

text \<open>
  Unless a collision of the digest has been stored, writing succeeds and reading returns the bytes.
\<close>

lemma put_opn_exact:
  assumes "inv s" and "env_ok e cs"
  shows "(\<exists>obj t. put e cs s = (Inr obj, t) \<and> describes obj (concat cs) \<and>
      opn (obj_storage_key obj) t = (Inr (concat cs), t) \<and> stat (obj_storage_key obj) t = (Inr obj, t)) \<or>
    (\<exists>k x. held (snd (put e cs s)) k = Some x \<and> sha256_hex x = sha256_hex (concat cs) \<and> x \<noteq> concat cs)"
proof -
  obtain r t where r: "put e cs s = (r, t)" by fastforce
  show ?thesis
  proof (cases r)
    case (Inl err)
    then show ?thesis using put_error [OF assms(1,2)] r by auto
  next
    case (Inr obj)
    then have p: "put e cs s = (Inr obj, t)" using r by simp
    have t: "inv t" using put_inv [OF assms(1,2)] p by simp
    have d: "describes obj (concat cs)" by (rule put_describes [OF assms(1,2) p])
    obtain x where x: "held t (obj_storage_key obj) = Some x" using put_holds [OF assms(1,2) p] by blast
    obtain y where "opn (obj_storage_key obj) t = (Inr y, t)" "sha256_hex y = sha256_hex (concat cs)"
      using put_opn [OF assms(1,2) p] by blast
    then have sha: "sha256_hex x = sha256_hex (concat cs)" using opn_held [OF t x] by simp
    show ?thesis
    proof (cases "x = concat cs")
      case True
      then show ?thesis using p d opn_held [OF t x] stat_held [OF t x]
        by (cases obj) (auto simp: describes_def)
    next
      case False
      then show ?thesis using sha x p by auto
    qed
  qed
qed

lemma put_wp:
  assumes "inv s" and "env_ok e cs"
  shows "wp (\<lambda>_. inv) (\<lambda>obj t. inv t \<and> describes obj (concat cs) \<and>
      (\<exists>x. held t (obj_storage_key obj) = Some x \<and> sha256_hex x = sha256_hex (concat cs))) (put e cs s)"
proof -
  obtain r t where r: "put e cs s = (r, t)" by fastforce
  have t: "inv t" using put_inv [OF assms] r by simp
  show ?thesis
  proof (cases r)
    case (Inl err)
    then show ?thesis using r t by (simp add: wp_simps)
  next
    case (Inr obj)
    then have p: "put e cs s = (Inr obj, t)" using r by simp
    obtain x where x: "held t (obj_storage_key obj) = Some x" using put_holds [OF assms p] by blast
    then have "sha256_hex x = sha256_hex (concat cs)" using put_opn [OF assms p] opn_held [OF t x] by auto
    then show ?thesis using put_describes [OF assms p] p t x by (auto simp: wp_simps)
  qed
qed

end

section \<open>The local store meets the contract\<close>

definition held_at :: "local_store \<Rightarrow> string \<Rightarrow> string option" where
  "held_at s k =
     (case parse_key k of
        Inl _ \<Rightarrow> None
      | Inr p \<Rightarrow> (case ls_files s p of Some (RegularFile x) \<Rightarrow> Some x | _ \<Rightarrow> None))"

definition local_inv :: "local_store \<Rightarrow> bool" where
  "local_inv s \<longleftrightarrow>
     (\<forall>p e. ls_files s p = Some e \<longrightarrow>
        (\<exists>x. e = RegularFile x \<and> p = (take 2 (sha256_hex x), take 2 (drop 2 (sha256_hex x)), sha256_hex x) \<and>
             (fst p, fst (snd p)) \<in> ls_dirs s))"

text \<open>A rival writer is another process that stores content under the same key.\<close>

definition rival_ok :: "dir_entry option \<Rightarrow> string list \<Rightarrow> bool" where
  "rival_ok rival cs \<longleftrightarrow>
     rival = None \<or> (\<exists>x. rival = Some (RegularFile x) \<and> sha256_hex x = sha256_hex (concat cs))"

abbreviation place :: "string \<Rightarrow> string \<times> string \<times> string" where
  "place h \<equiv> (take 2 h, take 2 (drop 2 h), h)"

abbreviation object_of :: "string \<Rightarrow> blob_object" where
  "object_of data \<equiv> \<lparr>obj_sha256 = sha256_hex data, obj_size_bytes = int (length data),
     obj_storage_key = key_of (sha256_hex data)\<rparr>"

lemma parse_key_sha256 [simp]: "parse_key (key_of (sha256_hex d)) = Inr (place (sha256_hex d))"
  using parse_canonical_key [OF canonical_key_sha256] by simp

lemma local_invD:
  "local_inv s \<Longrightarrow> ls_files s p = Some e \<Longrightarrow>
     \<exists>x. e = RegularFile x \<and> p = place (sha256_hex x) \<and>
         (take 2 (sha256_hex x), take 2 (drop 2 (sha256_hex x))) \<in> ls_dirs s"
  unfolding local_inv_def by fastforce

lemma local_inv_dir: "local_inv s \<Longrightarrow> local_inv (s\<lparr>ls_dirs := insert d (ls_dirs s)\<rparr>)"
  unfolding local_inv_def by simp blast

lemma local_inv_set:
  assumes "local_inv s" and "(take 2 (sha256_hex x), take 2 (drop 2 (sha256_hex x))) \<in> ls_dirs s"
  shows "local_inv (set_entry (place (sha256_hex x)) (RegularFile x) s)"
  using assms unfolding local_inv_def set_entry_def by auto

lemma held_at_dir [simp]: "held_at (s\<lparr>ls_dirs := d\<rparr>) k = held_at s k"
  by (simp add: held_at_def split: sum.split)

lemma held_at_key: "canonical_key h = Inr k \<Longrightarrow>
  held_at s k = (case ls_files s (place h) of Some (RegularFile x) \<Rightarrow> Some x | _ \<Rightarrow> None)"
  by (simp add: held_at_def parse_canonical_key)

lemma held_at_Some:
  "held_at s k = Some x \<longleftrightarrow> (\<exists>h. canonical_key h = Inr k \<and> ls_files s (place h) = Some (RegularFile x))"
proof
  assume "held_at s k = Some x"
  then obtain p where p: "parse_key k = Inr p" and f: "ls_files s p = Some (RegularFile x)"
    by (auto simp: held_at_def split: sum.splits option.splits dir_entry.splits)
  obtain a b d where pd: "p = (a, b, d)" by (cases p)
  with p have "canonical_key d = Inr k \<and> p = place d" by (auto simp: parse_key_eq)
  with f show "\<exists>h. canonical_key h = Inr k \<and> ls_files s (place h) = Some (RegularFile x)" by blast
qed (auto simp: held_at_key)

lemma held_at_set:
  assumes "ls_files s p = None" and "held_at s k = Some x"
  shows "held_at (set_entry p e s) k = Some x"
  using assms by (auto simp: held_at_Some set_entry_def)

text \<open>
  The outcome of both writers. The directory is made, then one of three things happens: the file
  was there with an acceptable content, it is stored now (by this writer or by a rival), or the
  call raises because other bytes are under the name.
\<close>

definition put_outcome ::
  "local_store \<Rightarrow> string \<Rightarrow> local_store \<Rightarrow> blob_object res \<Rightarrow> bool"
where
  "put_outcome s data t r \<longleftrightarrow>
     (let h = sha256_hex data; s1 = s\<lparr>ls_dirs := insert (take 2 h, take 2 (drop 2 h)) (ls_dirs s)\<rparr>
      in \<exists>x. sha256_hex x = h \<and>
           ((ls_files s (place h) = Some (RegularFile x) \<and> t = s1) \<or>
            (ls_files s (place h) = None \<and> t = set_entry (place h) (RegularFile x) s1)) \<and>
           (r = Inr (object_of data) \<or> (\<exists>e. r = Inl e) \<and> x \<noteq> data))"

lemma put_outcomeE:
  assumes "put_outcome s data t r"
  obtains x where "sha256_hex x = sha256_hex data"
    and "ls_files t (place (sha256_hex data)) = Some (RegularFile x)"
    and "r = Inr (object_of data) \<or> (\<exists>e. r = Inl e) \<and> x \<noteq> data"
  using assms by (auto simp: put_outcome_def Let_def set_entry_def)

lemma put_outcome_inv:
  assumes "put_outcome s data t r" and "local_inv s"
  shows "local_inv t"
proof -
  let ?h = "sha256_hex data"
  let ?s = "s\<lparr>ls_dirs := insert (take 2 ?h, take 2 (drop 2 ?h)) (ls_dirs s)\<rparr>"
  obtain x where x: "sha256_hex x = ?h"
    and t: "t = ?s \<or> t = set_entry (place ?h) (RegularFile x) ?s"
    using assms(1) by (auto simp: put_outcome_def Let_def)
  have inv: "local_inv ?s" by (rule local_inv_dir [OF assms(2)])
  have "local_inv (set_entry (place (sha256_hex x)) (RegularFile x) ?s)"
    by (rule local_inv_set [OF inv]) (simp add: x)
  then show ?thesis using t inv by (auto simp: x)
qed

lemma put_outcome_held:
  assumes "put_outcome s data t r" and "held_at s k = Some x"
  shows "held_at t k = Some x"
  using assms by (auto simp: put_outcome_def Let_def intro!: held_at_set)

lemma instance_of_missing [simp]: "instance_of (Exc FileNotFoundError m) FileNotFoundError"
  by (simp add: instance_of_def)

lemma raise_Inl: "raise c m = Inl (Exc c m)"
  by (simp add: raise_def)

lemma put_immutable_outcome:
  assumes "local_inv s" and "rival_ok rival [data]"
  shows "put_outcome s data (snd (put_immutable rival data s)) (fst (put_immutable rival data s))"
proof (cases "ls_files s (place (sha256_hex data))")
  case None
  then show ?thesis using assms(2)
    by (auto simp: put_immutable_def put_outcome_def Let_def parent_fd_def sbind_def ok_def lift_def
        read_existing_def set_entry_def rival_ok_def raise_Inl unexpected_bytes_def fail_def
        split: option.splits)
next
  case (Some e)
  then obtain x where "e = RegularFile x" "sha256_hex x = sha256_hex data"
    using local_invD [OF assms(1) Some] by auto
  then show ?thesis using Some
    by (auto simp: put_immutable_def put_outcome_def Let_def parent_fd_def sbind_def ok_def lift_def
        read_existing_def raise_Inl unexpected_bytes_def fail_def)
qed

lemma put_stream_outcome:
  assumes "local_inv s" and "rival_ok rival cs"
  shows "put_outcome s (concat cs) (snd (put_stream rival cs s)) (fst (put_stream rival cs s))"
proof (cases "ls_files s (place (sha256_hex (concat cs)))")
  case None
  then show ?thesis using assms(2)
    by (auto simp: put_stream_def put_outcome_def Let_def parent_fd_def sbind_def ok_def lift_def
        same_digest_def set_entry_def rival_ok_def raise_Inl unexpected_bytes_def fail_def
        split: option.splits)
next
  case (Some e)
  then obtain x where "e = RegularFile x" "sha256_hex x = sha256_hex (concat cs)"
    using local_invD [OF assms(1) Some] by auto
  then show ?thesis using Some
    by (auto simp: put_stream_def put_outcome_def Let_def parent_fd_def sbind_def ok_def lift_def
        same_digest_def raise_Inl unexpected_bytes_def fail_def)
qed

lemma local_held_addressed:
  assumes "local_inv s" and "held_at s k = Some x"
  shows "canonical_key (sha256_hex x) = Inr k" and "parse_key k = Inr (place (sha256_hex x))"
    and "ls_files s (place (sha256_hex x)) = Some (RegularFile x)"
    and "(take 2 (sha256_hex x), take 2 (drop 2 (sha256_hex x))) \<in> ls_dirs s"
proof -
  from assms(2) obtain h where h: "canonical_key h = Inr k" "ls_files s (place h) = Some (RegularFile x)"
    by (auto simp: held_at_Some)
  from local_invD [OF assms(1) h(2)] have "h = sha256_hex x"
    and d: "(take 2 (sha256_hex x), take 2 (drop 2 (sha256_hex x))) \<in> ls_dirs s" by auto
  with h show "canonical_key (sha256_hex x) = Inr k" "ls_files s (place (sha256_hex x)) = Some (RegularFile x)"
    "parse_key k = Inr (place (sha256_hex x))"
    by (simp_all add: parse_canonical_key)
  show "(take 2 (sha256_hex x), take 2 (drop 2 (sha256_hex x))) \<in> ls_dirs s" by (rule d)
qed

lemma local_open_held:
  assumes "local_inv s" and "held_at s k = Some x"
  shows "store_open_reader k s = (Inr x, s)"
  using local_held_addressed [OF assms]
  by (simp add: store_open_reader_def sbind_def parent_fd_def ok_def read_existing_def)

lemma local_stat_held:
  assumes "local_inv s" and "held_at s k = Some x"
  shows "store_stat k s =
    (Inr \<lparr>obj_sha256 = sha256_hex x, obj_size_bytes = int (length x), obj_storage_key = k\<rparr>, s)"
  using local_held_addressed [OF assms]
  by (simp add: store_stat_def sbind_def parent_fd_def ok_def read_existing_def)

lemma local_open_missing:
  assumes "local_inv s" and "held_at s k = None"
  shows "\<exists>e. store_open_reader k s = (Inl e, s)"
proof (cases "parse_key k")
  case (Inl e)
  then show ?thesis by (simp add: store_open_reader_def sbind_def parent_fd_def)
next
  case (Inr p)
  have "ls_files s p = None"
  proof (rule ccontr)
    assume "ls_files s p \<noteq> None"
    then obtain x where "ls_files s p = Some (RegularFile x)" using local_invD [OF assms(1)] by blast
    then show False using assms(2) Inr by (simp add: held_at_def)
  qed
  then show ?thesis using Inr
    by (cases p) (auto simp: store_open_reader_def sbind_def parent_fd_def ok_def read_existing_def raise_Inl fail_def)
qed

interpretation local_store: blob_store put_stream store_open_reader store_stat rival_ok local_inv held_at
proof
  fix s e cs k x obj t err
  assume inv: "local_inv s"
  show "held_at s k = Some x \<Longrightarrow> canonical_key (sha256_hex x) = Inr k"
    by (rule local_held_addressed(1) [OF inv])
  show "held_at s k = Some x \<Longrightarrow> store_open_reader k s = (Inr x, s)"
    by (rule local_open_held [OF inv])
  show "held_at s k = None \<Longrightarrow> \<exists>err. store_open_reader k s = (Inl err, s)"
    by (rule local_open_missing [OF inv])
  show "held_at s k = Some x \<Longrightarrow> store_stat k s =
      (Inr \<lparr>obj_sha256 = sha256_hex x, obj_size_bytes = int (length x), obj_storage_key = k\<rparr>, s)"
    by (rule local_stat_held [OF inv])
  assume env: "rival_ok e cs"
  note out = put_stream_outcome [OF inv env]
  show "local_inv (snd (put_stream e cs s))" by (rule put_outcome_inv [OF out inv])
  show "held_at s k = Some x \<Longrightarrow> held_at (snd (put_stream e cs s)) k = Some x"
    by (rule put_outcome_held [OF out])
  { assume r: "put_stream e cs s = (Inr obj, t)"
    show "describes obj (concat cs)"
      using out r by (auto simp: describes_def elim: put_outcomeE)
    show "\<exists>x. held_at t (obj_storage_key obj) = Some x"
      using out r by (auto simp: held_at_key [OF canonical_key_sha256] elim!: put_outcomeE) }
  assume r: "put_stream e cs s = (Inl err, t)"
  obtain x where "sha256_hex x = sha256_hex (concat cs)"
    "ls_files t (place (sha256_hex (concat cs))) = Some (RegularFile x)" "x \<noteq> concat cs"
    using out r by (auto elim: put_outcomeE)
  then have "held_at t (key_of (sha256_hex (concat cs))) = Some x"
    by (simp add: held_at_key [OF canonical_key_sha256])
  then show "\<exists>k x. held_at t k = Some x \<and> sha256_hex x = sha256_hex (concat cs) \<and> x \<noteq> concat cs"
    using \<open>sha256_hex x = sha256_hex (concat cs)\<close> \<open>x \<noteq> concat cs\<close> by blast
qed

section \<open>The in-memory store meets it too\<close>

definition mem_inv :: "mem_store \<Rightarrow> bool" where
  "mem_inv s \<longleftrightarrow> (\<forall>k x. s k = Some x \<longrightarrow> canonical_key (sha256_hex x) = Inr k)"

lemma mem_invD: "mem_inv s \<Longrightarrow> s k = Some x \<Longrightarrow> canonical_key (sha256_hex x) = Inr k"
  by (simp add: mem_inv_def)

lemma mem_put_stream_eq:
  "mem_put_stream cs s =
     (let k = key_of (sha256_hex (concat cs)) in
      case s k of
        None \<Rightarrow> (Inr (object_of (concat cs)), s(k \<mapsto> concat cs))
      | Some x \<Rightarrow> (if x = concat cs then Inr (object_of (concat cs))
                   else raise RuntimeError ''immutable blob path contains unexpected bytes'', s))"
  by (auto simp: mem_put_stream_def Let_def ok_def fail_def split: option.splits)

lemma mem_lookup_held: "mem_inv s \<Longrightarrow> s k = Some x \<Longrightarrow> mem_lookup k s = (Inr x, s)"
proof -
  assume "mem_inv s" and x: "s k = Some x"
  then have "mem_validate_key k = Inr ()" using mem_invD mem_validate_key_eq by blast
  then show ?thesis using x by (simp add: mem_lookup_def ok_def)
qed

interpretation mem_store: blob_store "\<lambda>(_::unit). mem_put_stream" mem_open_reader mem_stat "\<lambda>_ _. True" mem_inv "\<lambda>s. s"
proof
  fix s cs k x obj t err
  assume inv: "mem_inv s"
  show "s k = Some x \<Longrightarrow> canonical_key (sha256_hex x) = Inr k" by (rule mem_invD [OF inv])
  show "s k = Some x \<Longrightarrow> mem_open_reader k s = (Inr x, s)"
    by (simp add: mem_open_reader_def mem_lookup_held inv)
  show "s k = None \<Longrightarrow> \<exists>err. mem_open_reader k s = (Inl err, s)"
    by (auto simp: mem_open_reader_def mem_lookup_def lift_def fail_def raise_Inl split: sum.splits)
  show "s k = Some x \<Longrightarrow> mem_stat k s =
      (Inr \<lparr>obj_sha256 = sha256_hex x, obj_size_bytes = int (length x), obj_storage_key = k\<rparr>, s)"
    using mem_invD [OF inv] by (simp add: mem_stat_def sbind_def mem_lookup_held inv ok_def)
  show "mem_inv (snd (mem_put_stream cs s))"
    using inv by (auto simp: mem_put_stream_eq mem_inv_def Let_def split: option.splits)
  show "s k = Some x \<Longrightarrow> snd (mem_put_stream cs s) k = Some x"
    by (auto simp: mem_put_stream_eq Let_def split: option.splits)
  show "mem_put_stream cs s = (Inr obj, t) \<Longrightarrow> describes obj (concat cs)"
    by (auto simp: mem_put_stream_eq Let_def describes_def split: option.splits if_splits)
  show "mem_put_stream cs s = (Inr obj, t) \<Longrightarrow> \<exists>x. t (obj_storage_key obj) = Some x"
    by (auto simp: mem_put_stream_eq Let_def split: option.splits if_splits)
  assume r: "mem_put_stream cs s = (Inl err, t)"
  then obtain y where y: "s (key_of (sha256_hex (concat cs))) = Some y" "y \<noteq> concat cs" "t = s"
    by (auto simp: mem_put_stream_eq Let_def split: option.splits if_splits)
  then have "canonical_key (sha256_hex y) = canonical_key (sha256_hex (concat cs))"
    using mem_invD [OF inv y(1)] by simp
  then have "place (sha256_hex y) = place (sha256_hex (concat cs))"
    by (metis parse_key_sha256 canonical_key_sha256 sum.inject(2))
  then show "\<exists>k x. t k = Some x \<and> sha256_hex x = sha256_hex (concat cs) \<and> x \<noteq> concat cs"
    using y by blast
qed

section \<open>Runs of the local store\<close>

datatype store_op =
    S_put_immutable "dir_entry option" string
  | S_put_stream "dir_entry option" "string list"
  | S_delete string

fun store_step :: "store_op \<Rightarrow> local_store \<Rightarrow> local_store" where
  "store_step (S_put_immutable r d) s = snd (put_immutable r d s)"
| "store_step (S_put_stream r cs) s = snd (put_stream r cs s)"
| "store_step (S_delete k) s = snd (store_delete k s)"

fun store_guard :: "store_op \<Rightarrow> local_store \<Rightarrow> bool" where
  "store_guard (S_put_immutable r d) s = rival_ok r [d]"
| "store_guard (S_put_stream r cs) s = rival_ok r cs"
| "store_guard (S_delete k) s = True"

definition empty_store :: local_store where
  "empty_store = \<lparr>ls_dirs = {}, ls_files = Map.empty\<rparr>"

lemma store_delete_shape:
  "snd (store_delete k s) = s \<or> (\<exists>p. parse_key k = Inr p \<and> snd (store_delete k s) = s\<lparr>ls_files := (ls_files s)(p := None)\<rparr>)"
  by (auto simp: store_delete_def sbind_def parent_fd_def lift_def ok_def fail_def
      split: sum.splits option.splits dir_entry.splits)

lemma local_inv_delete: "local_inv s \<Longrightarrow> local_inv (snd (store_delete k s))"
  using store_delete_shape [of k s] by (auto simp: local_inv_def split: if_splits)

interpretation store_machine: guarded_machine store_step store_guard local_inv
proof
  fix s x
  assume inv: "local_inv s" and g: "store_guard x s"
  show "local_inv (store_step x s)"
  proof (cases x)
    case (S_put_immutable r d)
    then show ?thesis using g put_outcome_inv [OF put_immutable_outcome [OF inv] inv] by simp
  next
    case (S_put_stream r cs)
    then show ?thesis using g put_outcome_inv [OF put_stream_outcome [OF inv] inv] by simp
  next
    case (S_delete k)
    then show ?thesis using local_inv_delete [OF inv] by simp
  qed
qed

fun write_guard :: "store_op \<Rightarrow> local_store \<Rightarrow> bool" where
  "write_guard (S_delete k) s = False"
| "write_guard x s = store_guard x s"

definition keeps_held :: "local_store \<Rightarrow> local_store \<Rightarrow> bool" where
  "keeps_held s t \<longleftrightarrow> (\<forall>k x. held_at s k = Some x \<longrightarrow> held_at t k = Some x)"

interpretation write_machine: monotone_machine store_step write_guard local_inv keeps_held
proof
  fix s t u x
  show "keeps_held s s" by (simp add: keeps_held_def)
  show "keeps_held s t \<Longrightarrow> keeps_held t u \<Longrightarrow> keeps_held s u" by (simp add: keeps_held_def)
  assume inv: "local_inv s" and g: "write_guard x s"
  show "local_inv (store_step x s)" using g store_machine.step_inv [OF inv, of x] by (cases x) simp_all
  show "keeps_held s (store_step x s)"
  proof (cases x)
    case (S_put_immutable r d)
    then show ?thesis using g put_outcome_held [OF put_immutable_outcome [OF inv]]
      by (simp add: keeps_held_def)
  next
    case (S_put_stream r cs)
    then show ?thesis using g put_outcome_held [OF put_stream_outcome [OF inv]]
      by (simp add: keeps_held_def)
  next
    case (S_delete k)
    then show ?thesis using g by simp
  qed
qed

lemma local_inv_empty: "local_inv empty_store"
  by (simp add: local_inv_def empty_store_def)

section \<open>Properties\<close>

text \<open>
  C29. A storage key passes the check of the local store exactly when it passes the check of the
  in-memory store, which is when it is the canonical key of a digest; every path component it
  yields is a plain name (no separator, no dot path), and different keys name different places.
\<close>

theorem storage_keys_exact:
  "(parse_key k = Inr (a, b, d) \<longleftrightarrow>
      canonical_key d = Inr k \<and> a = take 2 d \<and> b = take 2 (drop 2 d)) \<and>
   ((\<exists>p. parse_key k = Inr p) \<longleftrightarrow> mem_validate_key k = Inr ()) \<and>
   (parse_key k = Inr (a, b, d) \<and> p \<in> {a, b, d} \<longrightarrow>
      p \<notin> {[], ''.'', ''..''} \<and> CHR ''/'' \<notin> set p \<and> CHR 0x00 \<notin> set p) \<and>
   (parse_key k = Inr q \<and> parse_key k' = Inr q \<longrightarrow> k = k')"
proof (intro conjI impI)
  show "parse_key k = Inr (a, b, d) \<longleftrightarrow>
      canonical_key d = Inr k \<and> a = take 2 d \<and> b = take 2 (drop 2 d)"
    by (rule parse_key_eq)
  show "(\<exists>p. parse_key k = Inr p) \<longleftrightarrow> mem_validate_key k = Inr ()"
    by (simp add: mem_validate_key_eq split_paired_Ex parse_key_eq)
  assume a: "parse_key k = Inr (a, b, d) \<and> p \<in> {a, b, d}"
  then have c: "canonical_key d = Inr k" and p: "p \<in> {take 2 d, take 2 (drop 2 d), d}"
    by (auto simp: parse_key_eq)
  show "p \<notin> {[], ''.'', ''..''}" "CHR ''/'' \<notin> set p" "CHR 0x00 \<notin> set p"
    using canonical_key_parts [OF c p] by blast+
next
  assume "parse_key k = Inr q \<and> parse_key k' = Inr q"
  then show "k = k'" by (cases q) (auto simp: parse_key_eq)
qed

theorem storage_keys_exact_witness:
  "let h = replicate 64 CHR ''a''; k = key_of h in
     parse_key k = Inr (''aa'', ''aa'', h) \<and> h \<notin> {[], ''.'', ''..''} \<and> CHR ''/'' \<notin> set h"
proof -
  let ?h = "replicate 64 CHR ''a''"
  have "sha256_text_ok ?h" by (rule hex_text_ok) (simp_all add: list_all_iff hex_lower_def code_def)
  then have "canonical_key ?h = Inr (key_of ?h) \<and> ''aa'' = take 2 ?h \<and> ''aa'' = take 2 (drop 2 ?h)"
    by (simp add: canonical_key_eq numeral_eq_Suc)
  then show ?thesis using storage_keys_exact [of "key_of ?h" "''aa''" "''aa''" ?h ?h] by simp
qed

text \<open>
  C30. Both stores return what was written, whatever a rival writer does meanwhile. A successful
  \<open>put_stream\<close> describes the concatenated chunks (digest, size, canonical key) and opening its key
  returns bytes with this digest. Writing succeeds, opening returns exactly the bytes and \<open>stat\<close> the
  same object, unless the store ends up holding other bytes with the same SHA-256.
\<close>

theorem blob_round_trip:
  assumes "local_inv s" and "rival_ok rival cs" and "mem_inv m"
  shows "(put_stream rival cs s = (Inr obj, t) \<longrightarrow> describes obj (concat cs) \<and>
            (\<exists>x. store_open_reader (obj_storage_key obj) t = (Inr x, t) \<and>
                 sha256_hex x = sha256_hex (concat cs))) \<and>
         (mem_put_stream cs m = (Inr obj, n) \<longrightarrow> describes obj (concat cs) \<and>
            (\<exists>x. mem_open_reader (obj_storage_key obj) n = (Inr x, n) \<and>
                 sha256_hex x = sha256_hex (concat cs))) \<and>
         ((\<exists>obj t. put_stream rival cs s = (Inr obj, t) \<and> describes obj (concat cs) \<and>
             store_open_reader (obj_storage_key obj) t = (Inr (concat cs), t) \<and>
             store_stat (obj_storage_key obj) t = (Inr obj, t)) \<or>
          (\<exists>k x. held_at (snd (put_stream rival cs s)) k = Some x \<and>
             sha256_hex x = sha256_hex (concat cs) \<and> x \<noteq> concat cs)) \<and>
         ((\<exists>obj n. mem_put_stream cs m = (Inr obj, n) \<and> describes obj (concat cs) \<and>
             mem_open_reader (obj_storage_key obj) n = (Inr (concat cs), n) \<and>
             mem_stat (obj_storage_key obj) n = (Inr obj, n)) \<or>
          (\<exists>k x. snd (mem_put_stream cs m) k = Some x \<and>
             sha256_hex x = sha256_hex (concat cs) \<and> x \<noteq> concat cs))"
  using local_store.put_describes [OF assms(1,2)] local_store.put_opn [OF assms(1,2)]
    local_store.put_opn_exact [OF assms(1,2)]
    mem_store.put_describes [OF assms(3) TrueI] mem_store.put_opn [OF assms(3) TrueI]
    mem_store.put_opn_exact [OF assms(3) TrueI]
  by blast

theorem blob_round_trip_witness:
  "\<exists>x. store_open_reader (key_of (sha256_hex ''abc'')) (snd (put_stream None [''a'', ''bc''] empty_store)) =
          (Inr x, snd (put_stream None [''a'', ''bc''] empty_store)) \<and> sha256_hex x = sha256_hex ''abc''"
proof -
  have "rival_ok None [''a'', ''bc'']" by (simp add: rival_ok_def)
  moreover have "mem_inv Map.empty" by (simp add: mem_inv_def)
  moreover obtain t where "put_stream None [''a'', ''bc''] empty_store = (Inr (object_of ''abc''), t)"
    by (simp add: put_stream_def Let_def sbind_def parent_fd_def ok_def same_digest_def raise_Inl
        empty_store_def)
  ultimately show ?thesis
    using blob_round_trip [OF local_inv_empty, of None "[''a'', ''bc'']" Map.empty "object_of ''abc''" t]
    by simp
qed

text \<open>
  C31. Stored content never changes. After any sequence of writes and deletions by this process
  and its rivals from an empty store, every object that can be opened has the digest its key
  names; and any further sequence of writes, whatever they contain, leaves its bytes alone.
\<close>

theorem stored_content_immutable:
  assumes "guarded_run store_step store_guard ops empty_store = Some s"
    and "store_open_reader k s = (Inr x, s)"
  shows "canonical_key (sha256_hex x) = Inr k \<and>
         (guarded_run store_step write_guard ws s = Some t \<longrightarrow> store_open_reader k t = (Inr x, t))"
proof -
  have inv: "local_inv s" by (rule store_machine.run_inv [OF assms(1) local_inv_empty])
  have held: "held_at s k = Some x"
    using local_open_missing [OF inv, of k] local_open_held [OF inv, of k] assms(2)
    by (cases "held_at s k") auto
  have "store_open_reader k t = (Inr x, t)" if run: "guarded_run store_step write_guard ws s = Some t"
  proof (rule local_open_held)
    show "local_inv t" by (rule write_machine.run_inv [OF run inv])
    show "held_at t k = Some x"
      using write_machine.run_le [OF run inv] held by (simp add: keeps_held_def)
  qed
  then show ?thesis using local_held_addressed(1) [OF inv held] by blast
qed

theorem stored_content_immutable_witness:
  "let s = store_step (S_put_stream None [''abc'']) empty_store;
       k = key_of (sha256_hex ''abc'')
   in store_open_reader k (store_step (S_put_immutable None ''abc'') s) =
        (Inr ''abc'', store_step (S_put_immutable None ''abc'') s)"
proof -
  let ?s = "store_step (S_put_stream None [''abc'']) empty_store"
  have run: "guarded_run store_step store_guard [S_put_stream None [''abc'']] empty_store = Some ?s"
    by (simp add: rival_ok_def)
  have "snd (put_stream None [''abc''] empty_store) =
      \<lparr>ls_dirs = {(take 2 (sha256_hex ''abc''), take 2 (drop 2 (sha256_hex ''abc'')))},
       ls_files = [place (sha256_hex ''abc'') \<mapsto> RegularFile ''abc'']\<rparr>"
    by (simp add: put_stream_def Let_def sbind_def parent_fd_def ok_def same_digest_def raise_Inl
        empty_store_def set_entry_def)
  then have open1: "store_open_reader (key_of (sha256_hex ''abc'')) ?s = (Inr ''abc'', ?s)"
    by (simp add: store_open_reader_def sbind_def parent_fd_def ok_def read_existing_def)
  have run2: "guarded_run store_step write_guard [S_put_immutable None ''abc''] ?s =
      Some (store_step (S_put_immutable None ''abc'') ?s)"
    by (simp add: rival_ok_def)
  from stored_content_immutable [OF run open1, THEN conjunct2, rule_format, OF run2]
  show ?thesis unfolding Let_def .
qed

text \<open>
  A missing object is a \<open>FileNotFoundError\<close> of the local store and a \<open>KeyError\<close> of the in-memory
  double, so code that handles the first is not exercised by the second.
\<close>

theorem missing_object_errors_differ:
  "canonical_key h = Inr k \<Longrightarrow> ls_files s (place h) = None \<Longrightarrow> m k = None \<Longrightarrow>
     exc_class_of (projl (fst (store_open_reader k s))) = FileNotFoundError \<and>
     exc_class_of (projl (fst (mem_open_reader k m))) = KeyError \<and>
     \<not> issubclass KeyError FileNotFoundError \<and> \<not> issubclass KeyError OSError"
proof -
  assume a: "canonical_key h = Inr k" "ls_files s (place h) = None" "m k = None"
  have "exc_class_of (projl (fst (store_open_reader k s))) = FileNotFoundError"
    using a by (simp add: store_open_reader_def sbind_def parent_fd_def parse_canonical_key
        ok_def fail_def read_existing_def raise_Inl)
  moreover have "exc_class_of (projl (fst (mem_open_reader k m))) = KeyError"
    using a(1,3) mem_validate_key_eq [of k]
    by (auto simp: mem_open_reader_def mem_lookup_def fail_def raise_Inl)
  ultimately show ?thesis by (simp add: issubclass_def numeral_eq_Suc)
qed

theorem missing_object_errors_differ_witness:
  "let k = key_of (sha256_hex ''abc'') in
     exc_class_of (projl (fst (store_open_reader k empty_store))) = FileNotFoundError \<and>
     exc_class_of (projl (fst (mem_open_reader k Map.empty))) = KeyError"
  using missing_object_errors_differ [OF canonical_key_sha256, of empty_store "''abc''" Map.empty]
  by (simp add: empty_store_def)

section \<open>Multipart assembly\<close>

fun put_parts :: "(int \<times> string) list \<Rightarrow> (multipart_buffer, unit) sop" where
  "put_parts [] = ok ()"
| "put_parts ((n, c) # ps) = sbind (put_part (PInt n) (PBytes c)) (\<lambda>_. put_parts ps)"

definition mp_inv :: "multipart_buffer \<Rightarrow> bool" where
  "mp_inv s \<longleftrightarrow> distinct (mp_numbers s) \<and> set (mp_numbers s) = dom (mp_parts s)"

lemma put_part_wp:
  assumes "mp_inv s"
  shows "wp (\<lambda>_ t. t = s)
    (\<lambda>_ t. mp_inv t \<and> mp_state s = MP_OPEN \<and> mp_state t = MP_OPEN \<and> 1 \<le> n \<and>
       mp_parts t = (mp_parts s)(n \<mapsto> c) \<and> mp_parts s n \<in> {None, Some c})
    (put_part (PInt n) (PBytes c) s)"
proof -
  have "(mp_parts s)(n \<mapsto> c) = mp_parts s" if "mp_parts s n = Some c" using that by auto
  then show ?thesis using assms
    by (auto simp: put_part_def mp_terminal_def wp_simps mp_inv_def)
qed

lemma put_parts_agree:
  assumes "mp_inv s"
  shows "put_parts ps s = (Inr (), t) \<Longrightarrow>
     mp_inv t \<and> (mp_state t = MP_OPEN \<or> t = s) \<and> mp_parts s \<subseteq>\<^sub>m mp_parts t \<and>
     (\<forall>(n, c) \<in> set ps. mp_parts t n = Some c) \<and> dom (mp_parts t) = dom (mp_parts s) \<union> fst ` set ps"
  using assms
proof (induction ps arbitrary: s)
  case Nil
  then show ?case by simp
next
  case (Cons p ps)
  obtain n c where p: "p = (n, c)" by fastforce
  obtain r u where r: "put_part (PInt n) (PBytes c) s = (r, u)" by fastforce
  with Cons.prems(1) p have ru: "r = Inr ()" and rest: "put_parts ps u = (Inr (), t)"
    by (auto simp: sbind_def split: sum.splits)
  have u: "mp_inv u" "mp_state u = MP_OPEN" "mp_parts u = (mp_parts s)(n \<mapsto> c)"
    "mp_parts s n \<in> {None, Some c}"
    using wp_value [OF put_part_wp [OF Cons.prems(2)] r [unfolded ru]] by blast+
  have t: "mp_inv t" "mp_state t = MP_OPEN \<or> t = u" "mp_parts u \<subseteq>\<^sub>m mp_parts t"
    "\<forall>(n, c) \<in> set ps. mp_parts t n = Some c" "dom (mp_parts t) = dom (mp_parts u) \<union> fst ` set ps"
    using Cons.IH [OF rest u(1)] by blast+
  have "mp_parts t n = Some c" using t(3) u(3) by (force simp: map_le_def)
  moreover have "mp_parts s \<subseteq>\<^sub>m mp_parts u" using u(3,4) by (auto simp: map_le_def)
  ultimately show ?case using t u p by (auto intro: map_le_trans)
qed

lemma mp_complete_eq:
  "mp_complete s = (Inr chunks, t) \<longleftrightarrow>
     mp_state s = MP_OPEN \<and> mp_numbers s \<noteq> [] \<and>
     sort (mp_numbers s) = map int [1..<length (mp_numbers s) + 1] \<and>
     chunks = map (\<lambda>n. the (mp_parts s (int n))) [1..<length (mp_numbers s) + 1] \<and>
     t = s\<lparr>mp_state := MP_COMPLETED\<rparr>"
  by (auto simp: mp_complete_def mp_terminal_def fail_def raise_def)

lemma sorted_numbers_iff:
  assumes "distinct xs"
  shows "sort xs = map int [1..<length xs + 1] \<longleftrightarrow> (\<exists>n. set xs = int ` {1..n})"
proof
  assume "sort xs = map int [1..<length xs + 1]"
  then have "set (sort xs) = set (map int [1..<length xs + 1])" by simp
  then show "\<exists>n. set xs = int ` {1..n}"
    by (metis set_sort set_map atLeastLessThanSuc_atLeastAtMost set_upt Suc_eq_plus1)
next
  assume "\<exists>n. set xs = int ` {1..n}"
  then obtain n where n: "set xs = int ` {1..n}" by blast
  have "length xs = n" using distinct_card [OF assms] n card_image [of int "{1..n}"] by simp
  have "sorted (map int [1..<n + 1])"
    by (simp add: sorted_map sorted_wrt_mono_rel [of _ "(<)"] del: upt_Suc)
  moreover have "distinct (map int [1..<n + 1])" by (simp add: distinct_map)
  moreover have "set (map int [1..<n + 1]) = set xs" using n by (auto simp: atLeastLessThanSuc_atLeastAtMost)
  ultimately show "sort xs = map int [1..<length xs + 1]"
    using sorted_list_of_set.idem_if_sorted_distinct [of "map int [1..<n + 1]"] assms \<open>length xs = n\<close>
    by (metis sorted_list_of_set_sort_remdups distinct_remdups_id)
qed

text \<open>
  A completed multipart upload is the parts in number order, whatever order they came in
  and however often a part was repeated: when the calls that stored the parts have succeeded,
  \<open>complete\<close> succeeds exactly when the numbers are 1 to some n, it returns the content given for
  1, 2, ..., n, and afterwards the buffer accepts nothing more.
\<close>

theorem multipart_assembly:
  assumes "put_parts ps new_multipart = (Inr (), s)"
  shows "((\<exists>chunks t. mp_complete s = (Inr chunks, t)) \<longleftrightarrow> (\<exists>n \<ge> 1. fst ` set ps = int ` {1..n})) \<and>
         (mp_complete s = (Inr chunks, t) \<longrightarrow>
            fst ` set ps = int ` {1..length chunks} \<and>
            (\<forall>(i, c) \<in> set ps. chunks ! (nat i - 1) = c) \<and>
            put_part (PInt i) (PBytes c) t = fail StateTransitionError ''multipart upload is terminal'' t \<and>
            mp_complete t = fail StateTransitionError ''multipart upload is terminal'' t)"
proof -
  have "mp_inv new_multipart" by (simp add: mp_inv_def new_multipart_def)
  from put_parts_agree [OF this assms]
  have inv: "mp_inv s" and opn: "mp_state s = MP_OPEN"
    and parts: "\<forall>(n, c) \<in> set ps. mp_parts s n = Some c" and dom: "dom (mp_parts s) = fst ` set ps"
    by (auto simp: new_multipart_def)
  have d: "distinct (mp_numbers s)" and numbers: "set (mp_numbers s) = fst ` set ps"
    using inv dom by (simp_all add: mp_inv_def)
  have ne: "(mp_numbers s \<noteq> [] \<and> (\<exists>n. set (mp_numbers s) = int ` {1..n})) =
      (\<exists>n \<ge> 1. fst ` set ps = int ` {1..n})"
  proof -
    have "n \<noteq> 0" if "mp_numbers s \<noteq> []" "set (mp_numbers s) = int ` {1..n}" for n
      using that by (intro notI) simp
    moreover have "mp_numbers s \<noteq> []" if "set (mp_numbers s) = int ` {1..n}" "1 \<le> n" for n
      using that by (intro notI) simp
    ultimately show ?thesis unfolding numbers [symmetric] by (metis One_nat_def Suc_leI neq0_conv)
  qed
  have first: "(\<exists>chunks t. mp_complete s = (Inr chunks, t)) \<longleftrightarrow> (\<exists>n \<ge> 1. fst ` set ps = int ` {1..n})"
    unfolding mp_complete_eq using opn ne sorted_numbers_iff [OF d] by auto
  { assume c: "mp_complete s = (Inr chunks, t)"
    let ?n = "length (mp_numbers s)"
    have t: "mp_state t = MP_COMPLETED" and chunks: "chunks = map (\<lambda>n. the (mp_parts s (int n))) [1..<?n + 1]"
      and srt: "sort (mp_numbers s) = map int [1..<?n + 1]"
      using c by (simp_all add: mp_complete_eq)
    have "set (sort (mp_numbers s)) = int ` {1..?n}" unfolding srt
      by (simp add: atLeastLessThanSuc_atLeastAtMost del: upt_Suc)
    then have nums: "fst ` set ps = int ` {1..?n}" using numbers by simp
    have "chunks ! (nat i - 1) = c" if "(i, c) \<in> set ps" for i c
    proof -
      have "i \<in> int ` {1..?n}" using that nums by (metis fst_conv image_eqI)
      then obtain m where m: "i = int m" "1 \<le> m" "m \<le> ?n" by auto
      have "[1..<?n + 1] ! (m - 1) = m" using m by (simp del: upt_Suc)
      then have "chunks ! (m - 1) = the (mp_parts s (int m))" using m chunks by (simp del: upt_Suc)
      then show ?thesis using parts that m by auto
    qed
    then have "fst ` set ps = int ` {1..length chunks}" "\<forall>(i, c) \<in> set ps. chunks ! (nat i - 1) = c"
      using nums chunks by auto
    moreover have "put_part (PInt i) (PBytes c) t = fail StateTransitionError ''multipart upload is terminal'' t"
      "mp_complete t = fail StateTransitionError ''multipart upload is terminal'' t"
      using t by (simp_all add: put_part_def mp_complete_def mp_terminal_def)
    ultimately have "fst ` set ps = int ` {1..length chunks} \<and>
        (\<forall>(i, c) \<in> set ps. chunks ! (nat i - 1) = c) \<and>
        put_part (PInt i) (PBytes c) t = fail StateTransitionError ''multipart upload is terminal'' t \<and>
        mp_complete t = fail StateTransitionError ''multipart upload is terminal'' t" by blast }
  then show ?thesis using first by blast
qed

theorem multipart_assembly_witness:
  "fst (mp_complete (snd (put_parts [(2, ''b''), (1, ''a''), (2, ''b'')] new_multipart))) = Inr [''a'', ''b''] \<and>
   (\<exists>n \<ge> 1. fst ` set [(2 :: int, ''b''), (1, ''a''), (2, ''b'')] = int ` {1..n})"
proof -
  let ?s = "snd (put_parts [(2, ''b''), (1, ''a''), (2, ''b'')] new_multipart)"
  have s: "put_parts [(2, ''b''), (1, ''a''), (2, ''b'')] new_multipart = (Inr (), ?s)"
    by (simp add: sbind_def put_part_def new_multipart_def ok_def)
  have "mp_complete ?s = (Inr [''a'', ''b''], ?s\<lparr>mp_state := MP_COMPLETED\<rparr>)"
    by (simp add: sbind_def put_part_def new_multipart_def ok_def mp_complete_def numeral_eq_Suc)
  then show ?thesis using multipart_assembly [OF s] by (metis fst_conv)
qed

end
