(* ===== verification/AttemptContract.thy ===== *)
theory AttemptContract
  imports AttemptStore StorageProps
begin

text \<open>
  Keys of attempt objects are a normal form, and the contract of the two stores: the locale
  \<open>attempt_store\<close>, in which both are interpreted. What a store holds under a key is \<open>held\<close>, what its
  inventory knows is \<open>indexed\<close>.
\<close>

section \<open>Decimal texts\<close>

lemma nat_digits_chars: "c \<in> set (nat_digits n) \<Longrightarrow> \<exists>d < 10. c = digit_char d"
proof (induction n rule: nat_digits.induct)
  case (1 n)
  then show ?case by (subst (asm) (2) nat_digits.simps) (auto split: if_splits intro: exI [of _ "n mod 10"])
qed

lemma nat_digits_nonempty [simp]: "nat_digits n \<noteq> []"
  by (subst nat_digits.simps) simp

lemma int_digits_nat_digits:
  "int_digits 10 False any acc (nat_digits n @ s) =
     int_digits 10 False True (acc * 10 ^ length (nat_digits n) + n) s"
proof (induction n arbitrary: s any rule: nat_digits.induct)
  case (1 n)
  have c: "digit_char d \<noteq> CHR ''_''" if "d < 10" for d
    using hex_lower_facts(1) [OF hex_lower_digit_char [of d]] that by simp
  show ?case
  proof (cases "n < 10")
    case True
    then show ?thesis using c [OF True] digit_value_digit_char [of n] by (simp add: nat_digits.simps [of n])
  next
    case False
    have "n mod 10 < 10" by simp
    then show ?thesis using False 1 [OF False] c [of "n mod 10"] digit_value_digit_char [of "n mod 10"]
      by (simp add: nat_digits.simps [of n] algebra_simps)
  qed
qed

lemma str_int_lower: "0 \<le> n \<Longrightarrow> list_all hex_lower (str_int n)"
  using hex_lower_digit_char by (fastforce simp: str_int_def list_all_iff dest: nat_digits_chars)

lemma int10_str_int:
  assumes "0 \<le> n" and "length (str_int n) \<le> 4300"
  shows "int10 (str_int n) = Some n"
proof -
  let ?s = "str_int n"
  have low: "list_all hex_lower ?s" by (rule str_int_lower [OF assms(1)])
  have s: "?s = nat_digits (nat n)" using assms(1) by (simp add: str_int_def)
  obtain c t where ct: "?s = c # t" using nat_digits_nonempty [of "nat n"] by (cases ?s) (simp_all add: s)
  then have c: "hex_lower c" using low by simp
  have "length (filter (\<lambda>c. digit_value c \<noteq> None) ?s) \<le> length ?s" by simp
  then have "\<not> length (filter (\<lambda>c. digit_value c \<noteq> None) ?s) > 4300" using assms(2) by linarith
  moreover have "int_signed f ?s = map_option int (f ?s)" for f
    using hex_lower_facts(2,3) [OF c] by (auto simp: int_signed_def startswith_def ct)
  moreover have "int_body 10 ?s = int_digits 10 False False 0 ?s"
    using hex_lower_facts(1) [OF c] by (simp add: int_body_def ct)
  moreover have "int_digits 10 False False 0 ?s = Some (nat n)"
    using int_digits_nat_digits [of False 0 "nat n" "[]"] by (simp add: s)
  ultimately show ?thesis using assms(1) by (simp add: int10_def int_strip_hex [OF low])
qed

section \<open>Keys\<close>

lemma attempt_key_error_eq [simp]: "attempt_key_error \<noteq> Inr x" "Inr x \<noteq> attempt_key_error"
  by (simp_all add: attempt_key_error_def raise_def)

lemma kind_of_value_eq: "kind_of_value v = Some k \<longleftrightarrow> v = artifact_kind_value k"
  by (cases k) (auto simp: kind_of_value_def)

definition names_exact :: "attempt_names \<Rightarrow> bool" where
  "names_exact = (\<lambda>(job, attempt, epoch, kind, publication).
     uuid_canonical job = Inr job \<and> uuid_canonical attempt = Inr attempt \<and>
     uuid_canonical publication = Inr publication \<and> 1 \<le> epoch \<and> length (str_int epoch) \<le> 4300)"

definition key_of_names :: "attempt_names \<Rightarrow> string" where
  "key_of_names = (\<lambda>(job, attempt, epoch, kind, publication). attempt_key_text job attempt epoch kind publication)"

lemma attempt_key_eq:
  "attempt_key j a e kd p = Inr k \<longleftrightarrow>
     (\<exists>j' a' p'. uuid_canonical j = Inr j' \<and> uuid_canonical a = Inr a' \<and> uuid_canonical p = Inr p' \<and>
        names_exact (j', a', e, kd, p') \<and> k = key_of_names (j', a', e, kd, p'))"
  by (auto simp: attempt_key_def after_eq_Inr names_exact_def key_of_names_def dest: uuid_canonical_idem)

lemma uuid_canonical_avoids:
  assumes "uuid_canonical u = Inr u" and "\<not> hex_lower c" and "c \<noteq> CHR ''-''"
  shows "c \<notin> set u"
  using uuid_chars [OF assms(1)] assms(2,3) by blast

lemma uuid_canonical_nonempty: "uuid_canonical s = Inr u \<Longrightarrow> u \<noteq> []"
  by (auto simp: uuid_canonical_def after_eq_Inr uuid_str_def Let_def)

lemma not_hex_lower: "\<not> hex_lower CHR ''/''" "\<not> hex_lower CHR ''.''" "\<not> hex_lower CHR 0x00" "\<not> hex_lower CHR 0x5C"
  "\<not> hex_lower CHR 0x0A"
  by (simp_all add: hex_lower_def code_def)

lemma artifact_kind_value_chars: "set (artifact_kind_value kd) \<subseteq> set ''outputmanifest''"
  by (cases kd) auto

definition key_parts :: "attempt_names \<Rightarrow> string list" where
  "key_parts = (\<lambda>(job, attempt, epoch, kind, publication).
     [''attempts'', job, attempt, ''epoch-'' @ str_int epoch, artifact_kind_value kind, publication])"

lemma key_parts_avoid:
  assumes "names_exact n" and "p \<in> set (key_parts n)" and "c \<in> {CHR ''/'', CHR ''.'', CHR 0x00, CHR 0x5C, CHR 0x0A}"
  shows "c \<notin> set p"
proof -
  obtain job attempt epoch kind publication where n: "n = (job, attempt, epoch, kind, publication)" by (cases n)
  have c: "\<not> hex_lower c" "c \<noteq> CHR ''-''" using assms(3) not_hex_lower by auto
  have u: "uuid_canonical job = Inr job" "uuid_canonical attempt = Inr attempt"
    "uuid_canonical publication = Inr publication" "0 \<le> epoch"
    using assms(1) by (simp_all add: n names_exact_def)
  note U = uuid_canonical_avoids [OF u(1) c] uuid_canonical_avoids [OF u(2) c] uuid_canonical_avoids [OF u(3) c]
  have "c \<notin> set (str_int epoch)" using str_int_lower [OF u(4)] c(1) by (auto simp: list_all_iff)
  moreover have "c \<notin> set (artifact_kind_value kind)" using artifact_kind_value_chars [of kind] assms(3) by auto
  moreover have "c \<notin> set ''attempts''" "c \<notin> set ''epoch-''" using assms(3) by auto
  ultimately show ?thesis using assms(2) U by (auto simp: n key_parts_def)
qed

lemma key_of_names_split:
  assumes "names_exact n"
  shows "split_on CHR ''/'' (key_of_names n) = key_parts n"
proof -
  obtain job attempt epoch kind publication where n: "n = (job, attempt, epoch, kind, publication)" by (cases n)
  have f: "CHR ''/'' \<notin> set p" if "p \<in> set (key_parts n)" for p using key_parts_avoid [OF assms that] by simp
  have F: "CHR ''/'' \<notin> set ''attempts''" "CHR ''/'' \<notin> set job" "CHR ''/'' \<notin> set attempt"
    "CHR ''/'' \<notin> set (''epoch-'' @ str_int epoch)" "CHR ''/'' \<notin> set (artifact_kind_value kind)"
    "CHR ''/'' \<notin> set publication"
    by (rule f, simp add: n key_parts_def)+
  have "key_of_names n = ''attempts'' @ CHR ''/'' # job @ CHR ''/'' # attempt @ CHR ''/'' # (''epoch-'' @ str_int epoch) @
      CHR ''/'' # artifact_kind_value kind @ CHR ''/'' # publication"
    by (simp add: n key_of_names_def attempt_key_text_def)
  also have "split_on CHR ''/'' \<dots> = key_parts n"
    by (simp only: split_on_app [OF F(1)] split_on_app [OF F(2)] split_on_app [OF F(3)] split_on_app [OF F(4)]
        split_on_app [OF F(5)] split_on_none [OF F(6)] n key_parts_def prod.case)
  finally show ?thesis .
qed

lemma key_fields_parts: "names_exact n \<Longrightarrow> key_fields (key_parts n) = Some n"
  by (cases n) (auto simp: key_parts_def key_fields_def names_exact_def startswith_iff int10_str_int kind_of_value_eq)

lemma key_fieldsD:
  "key_fields parts = Some n \<Longrightarrow> length (str_int (fst (snd (snd n)))) \<le> 4300 \<Longrightarrow> names_exact n"
  by (auto simp: key_fields_def names_exact_def split: sum.splits if_splits option.splits dest: uuid_canonical_idem)

lemma parse_attempt_key_sound:
  assumes "parse_attempt_key k = Inr n" shows "names_exact n \<and> k = key_of_names n"
proof -
  obtain job attempt epoch kind publication where n: "n = (job, attempt, epoch, kind, publication)" by (cases n)
  have f: "key_fields (split_on CHR ''/'' k) = Some n" and a: "attempt_key job attempt epoch kind publication = Inr k"
    using assms by (auto simp: parse_attempt_key_def Let_def after_eq_Inr n split: if_splits option.splits)
  have c: "uuid_canonical job = Inr job" "uuid_canonical attempt = Inr attempt" "uuid_canonical publication = Inr publication"
    using f by (auto simp: n key_fields_def split: sum.splits if_splits option.splits dest: uuid_canonical_idem)
  then show ?thesis using a by (simp add: attempt_key_eq n)
qed

lemma parse_attempt_key_names:
  assumes "names_exact n" shows "parse_attempt_key (key_of_names n) = Inr n"
proof -
  obtain job attempt epoch kind publication where n: "n = (job, attempt, epoch, kind, publication)" by (cases n)
  have u: "uuid_canonical job = Inr job" "uuid_canonical attempt = Inr attempt"
    "uuid_canonical publication = Inr publication" using assms by (simp_all add: n names_exact_def)
  have a: "attempt_key job attempt epoch kind publication = Inr (key_of_names n)"
    using assms u by (simp add: attempt_key_eq n)
  have join: "set (key_of_names n) \<subseteq> insert CHR ''/'' (\<Union>p \<in> set (key_parts n). set p)"
    by (auto simp: n key_of_names_def attempt_key_text_def key_parts_def)
  have "CHR 0x00 \<notin> set (key_of_names n)" "CHR 0x5C \<notin> set (key_of_names n)"
    using join key_parts_avoid [OF assms] by fastforce+
  then have clean: "\<not> contains (key_of_names n) [CHR 0x00]" "\<not> contains (key_of_names n) [CHR 0x5C]"
    by (simp_all add: contains_single)
  have start: "\<not> startswith (key_of_names n) ''/''" "key_of_names n \<noteq> []"
    by (auto simp: n key_of_names_def attempt_key_text_def startswith_iff)
  have plain: "\<not> list_ex (\<lambda>p. p \<in> {[], ''.'', ''..''}) (key_parts n)"
  proof -
    have "p \<notin> {[], ''.'', ''..''}" if p: "p \<in> set (key_parts n)" for p
    proof -
      have "CHR ''.'' \<notin> set p" using key_parts_avoid [OF assms p] by simp
      moreover have "p \<noteq> []"
        using p uuid_canonical_nonempty [OF u(1)] uuid_canonical_nonempty [OF u(2)] uuid_canonical_nonempty [OF u(3)]
        by (cases kind) (auto simp: n key_parts_def)
      ultimately show ?thesis by auto
    qed
    then show ?thesis by (auto simp: list_ex_iff)
  qed
  have len: "length (key_parts n) = 6" "key_parts n ! 0 = ''attempts''" by (simp_all add: n key_parts_def)
  show ?thesis
    using clean start plain len key_fields_parts [OF assms] a
    by (simp add: parse_attempt_key_def key_of_names_split [OF assms] Let_def, simp add: n)
qed

lemma parse_attempt_key_eq: "parse_attempt_key k = Inr n \<longleftrightarrow> names_exact n \<and> k = key_of_names n"
  using parse_attempt_key_sound parse_attempt_key_names by blast

section \<open>The contract\<close>

text \<open>What a page over the index entries \<open>ks\<close> shows of the objects a store holds.\<close>

definition page_shows ::
  "(string \<Rightarrow> (string \<times> int) option) \<Rightarrow> int \<Rightarrow> string list \<Rightarrow> inventory_page \<Rightarrow> bool"
where
  "page_shows h cutoff ks p \<longleftrightarrow>
     ip_scanned p = int (length ks) \<and> distinct (map ao_storage_key (ip_objects p)) \<and>
     ao_storage_key ` set (ip_objects p) = {k \<in> set ks. \<exists>d t. h k = Some (d, t) \<and> t < cutoff} \<and>
     (\<forall>x \<in> set (ip_objects p). \<forall>d t. h (ao_storage_key x) = Some (d, t) \<longrightarrow>
        (\<exists>g. x = object_for (ao_storage_key x) d t g))"

text \<open>The cursor moves over the index by the limit and starts again at its end.\<close>

definition cursor_moves :: "nat \<Rightarrow> nat \<Rightarrow> nat \<Rightarrow> nat \<Rightarrow> bool" where
  "cursor_moves len limit pos pos' \<longleftrightarrow>
     (pos + limit < len \<longrightarrow> pos' = pos + limit) \<and> (len \<le> pos + limit \<longrightarrow> pos' \<in> {0, len}) \<and> (len \<le> pos \<longrightarrow> pos' = 0)"

definition missing :: "exc \<Rightarrow> bool" where
  "missing e = instance_of_any e [FileNotFoundError, KeyError]"

text \<open>Successive pages of one scan; nothing else touches the store in between.\<close>

fun scan_pages :: "('s, inventory_page) sop \<Rightarrow> nat \<Rightarrow> 's \<Rightarrow> inventory_page list" where
  "scan_pages page 0 s = []"
| "scan_pages page (Suc n) s =
     (case page s of (Inl _, t) \<Rightarrow> scan_pages page n t | (Inr p, t) \<Rightarrow> p # scan_pages page n t)"

locale attempt_store =
  fixes put :: "put_env \<Rightarrow> string \<Rightarrow> chunk_stream \<Rightarrow> ('s, attempt_object) sop"
    and opn :: "string \<Rightarrow> ('s, string) sop"
    and stat :: "string \<Rightarrow> ('s, attempt_object) sop"
    and delete :: "string \<Rightarrow> ('s, unit) sop"
    and page :: "int \<Rightarrow> int \<Rightarrow> string \<Rightarrow> ('s, inventory_page) sop"
    and guard :: "put_env \<Rightarrow> string \<Rightarrow> 's \<Rightarrow> bool"
    and inv :: "'s \<Rightarrow> bool"
    and held :: "'s \<Rightarrow> string \<Rightarrow> (string \<times> int) option"
    and index :: "'s \<Rightarrow> string list"
    and pos :: "'s \<Rightarrow> string \<Rightarrow> nat"
  assumes put_inv: "inv s \<Longrightarrow> guard e k s \<Longrightarrow> inv (snd (put e k st s))"
    and put_held: "inv s \<Longrightarrow> guard e k s \<Longrightarrow> k' \<noteq> k \<or> held s k' \<noteq> None \<Longrightarrow> held (snd (put e k st s)) k' = held s k'"
    and put_describes: "inv s \<Longrightarrow> guard e k s \<Longrightarrow> put e k st s = (Inr x, t) \<Longrightarrow>
        \<exists>d b c. consume (fst st) (snd st) = Inr d \<and> held t k = Some (b, c) \<and> sha256_hex b = sha256_hex d \<and>
          length b = length d \<and> ao_storage_key x = k \<and> ao_sha256 x = sha256_hex d \<and> ao_size_bytes x = int (length d)"
    and put_raises: "inv s \<Longrightarrow> guard e k s \<Longrightarrow> parse_attempt_key k = Inr n \<Longrightarrow> put e k st s = (Inl err, t) \<Longrightarrow>
        consume (fst st) (snd st) = Inl err \<or> exc_class_of err = StateTransitionError"
    and put_index: "inv s \<Longrightarrow> guard e k s \<Longrightarrow> \<exists>ks. index (snd (put e k st s)) = index s @ ks"
    and put_pos: "inv s \<Longrightarrow> guard e k s \<Longrightarrow> pos (snd (put e k st s)) = pos s"
    and pos_bound: "inv s \<Longrightarrow> pos s i \<le> length (index s)"
    and held_index: "inv s \<Longrightarrow> held s k \<noteq> None \<Longrightarrow> k \<in> set (index s)"
    and held_key: "inv s \<Longrightarrow> held s k \<noteq> None \<Longrightarrow> \<exists>n. parse_attempt_key k = Inr n"
    and opn_held: "inv s \<Longrightarrow> held s k = Some (b, c) \<Longrightarrow> opn k s = (Inr b, s)"
    and opn_missing: "inv s \<Longrightarrow> held s k = None \<Longrightarrow> parse_attempt_key k = Inr n \<Longrightarrow> \<exists>err. opn k s = (Inl err, s) \<and> missing err"
    and stat_held: "inv s \<Longrightarrow> held s k = Some (b, c) \<Longrightarrow> \<exists>g. stat k s = (Inr (object_for k b c g), s)"
    and stat_missing: "inv s \<Longrightarrow> held s k = None \<Longrightarrow> parse_attempt_key k = Inr n \<Longrightarrow> \<exists>err. stat k s = (Inl err, s) \<and> missing err"
    and delete_inv: "inv s \<Longrightarrow> inv (snd (delete k s))"
    and delete_held: "inv s \<Longrightarrow> held (snd (delete k s)) = (held s)(k := None)"
    and delete_index: "inv s \<Longrightarrow> index (snd (delete k s)) = index s"
    and delete_pos: "inv s \<Longrightarrow> pos (snd (delete k s)) = pos s"
    and delete_returns: "inv s \<Longrightarrow> held s k \<noteq> None \<Longrightarrow> fst (delete k s) = Inr ()"
    and page_inv: "inv s \<Longrightarrow> inv (snd (page cutoff limit i s))"
    and page_held: "inv s \<Longrightarrow> held (snd (page cutoff limit i s)) = held s"
    and page_index: "inv s \<Longrightarrow> index (snd (page cutoff limit i s)) = index s"
    and page_other: "inv s \<Longrightarrow> i' \<noteq> i \<Longrightarrow> pos (snd (page cutoff limit i s)) i' = pos s i'"
    and page_shown: "inv s \<Longrightarrow> 1 \<le> limit \<Longrightarrow> scan_id_ok i = Inr () \<Longrightarrow>
        \<exists>p. fst (page cutoff limit i s) = Inr p \<and>
          page_shows (held s) cutoff (take (nat limit) (drop (pos s i) (index s))) p \<and>
          cursor_moves (length (index s)) (nat limit) (pos s i) (pos (snd (page cutoff limit i s)) i)"
begin

text \<open>An object that has been written is what is read, until it is deleted.\<close>

lemma put_opn:
  assumes "inv s" and "guard e k s" and "put e k st s = (Inr x, t)"
  shows "\<exists>b. opn k t = (Inr b, t) \<and> sha256_hex b = ao_sha256 x \<and> int (length b) = ao_size_bytes x"
proof -
  have "inv t" using put_inv [OF assms(1,2), of st] assms(3) by simp
  with put_describes [OF assms] show ?thesis using opn_held by metis
qed

text \<open>Every old object is shown on one of the next pages, wherever the cursor stands.\<close>

lemma pages_from:
  assumes "inv s" and "1 \<le> limit" and "scan_id_ok i = Inr ()" and "pos s i \<le> j" and "j < length (index s)"
    and "index s ! j = k" and "held s k = Some (d, c)" and "c < cutoff" and "j - pos s i < n"
  shows "\<exists>p \<in> set (scan_pages (page cutoff limit i) n s). k \<in> ao_storage_key ` set (ip_objects p)"
  using assms(1,4,5,6,7,9)
proof (induction n arbitrary: s)
  case (Suc n)
  obtain r t where pg: "page cutoff limit i s = (r, t)" by fastforce
  obtain p where p: "r = Inr p" "page_shows (held s) cutoff (take (nat limit) (drop (pos s i) (index s))) p"
      "cursor_moves (length (index s)) (nat limit) (pos s i) (pos t i)"
    using page_shown [OF Suc.prems(1) assms(2,3), of cutoff] pg by auto
  show ?case
  proof (cases "j < pos s i + nat limit")
    case True
    let ?ks = "take (nat limit) (drop (pos s i) (index s))"
    have "?ks ! (j - pos s i) = k" "j - pos s i < length ?ks" using True Suc.prems by auto
    then have "k \<in> set ?ks" by (metis nth_mem)
    then have "k \<in> ao_storage_key ` set (ip_objects p)" using p(2) Suc.prems(5) assms(8) by (auto simp: page_shows_def)
    then show ?thesis by (simp add: pg p(1))
  next
    case False
    then have "pos t i = pos s i + nat limit" using p(3) Suc.prems(3) by (simp add: cursor_moves_def)
    moreover have "inv t" "held t = held s" "index t = index s"
      using page_inv [OF Suc.prems(1)] page_held [OF Suc.prems(1)] page_index [OF Suc.prems(1)] pg by (metis snd_conv)+
    ultimately have "\<exists>p \<in> set (scan_pages (page cutoff limit i) n t). k \<in> ao_storage_key ` set (ip_objects p)"
      using Suc.prems False assms(2) by (intro Suc.IH) auto
    then show ?thesis by (auto simp: pg split: sum.splits)
  qed
qed simp

lemma pages_wrap:
  assumes "inv s" and "1 \<le> limit" and "scan_id_ok i = Inr ()" and "k \<in> set (index s)"
    and "held s k = Some (d, c)" and "c < cutoff"
    and "2 * length (index s) + 2 \<le> n + pos s i"
  shows "\<exists>p \<in> set (scan_pages (page cutoff limit i) n s). k \<in> ao_storage_key ` set (ip_objects p)"
  using assms(1,4,5,7)
proof (induction n arbitrary: s)
  case 0
  then show ?case using pos_bound [OF 0(1), of i] by simp
next
  case (Suc n)
  obtain j where j: "j < length (index s)" "index s ! j = k" using Suc.prems(2) by (auto simp: in_set_conv_nth)
  show ?case
  proof (cases "pos s i \<le> j")
    case True
    then show ?thesis using Suc.prems j assms(2,3,6) by (intro pages_from [where j = j]) auto
  next
    case False
    obtain r t where pg: "page cutoff limit i s = (r, t)" by fastforce
    have m: "cursor_moves (length (index s)) (nat limit) (pos s i) (pos t i)"
      using page_shown [OF Suc.prems(1) assms(2,3), of cutoff] pg by auto
    have t: "inv t" "held t = held s" "index t = index s"
      using page_inv [OF Suc.prems(1)] page_held [OF Suc.prems(1)] page_index [OF Suc.prems(1)] pg by (metis snd_conv)+
    have "\<exists>p \<in> set (scan_pages (page cutoff limit i) n t). k \<in> ao_storage_key ` set (ip_objects p)"
    proof (cases "pos t i = 0")
      case True
      have "j < n" using Suc.prems(4) pos_bound [OF Suc.prems(1), of i] j(1) by linarith
      then show ?thesis using t True j Suc.prems assms(2,3,6) by (intro pages_from [where j = j]) auto
    next
      case False
      then have "pos s i < pos t i" "pos t i \<le> length (index s)"
        using m assms(2) pos_bound [OF t(1), of i] t(3) by (auto simp: cursor_moves_def not_le)
      then show ?thesis using t Suc.prems by (intro Suc.IH) auto
    qed
    then show ?thesis by (auto simp: pg split: sum.splits)
  qed
qed

end

end
