(* ===== verification/AttemptLocal.thy ===== *)
theory AttemptLocal
  imports AttemptContract
begin

text \<open>
  The local attempt store meets the contract: every object is a regular file under an exact key that
  the journal names, the journal is a sequence of such keys, the cursors stand between two of them.
\<close>

section \<open>Lines of keys\<close>

definition exact_key :: "string \<Rightarrow> bool" where
  "exact_key k \<longleftrightarrow> (\<exists>n. names_exact n \<and> k = key_of_names n)"

lemma exact_key_parse: "exact_key k \<longleftrightarrow> (\<exists>n. parse_attempt_key k = Inr n)"
  by (auto simp: exact_key_def parse_attempt_key_eq)

lemma exact_key_chars:
  assumes "exact_key k" shows "newline \<notin> set k" and "list_all (\<lambda>c. code c < 128) k"
proof -
  obtain n where n: "names_exact n" "k = key_of_names n" using assms by (auto simp: exact_key_def)
  have sub: "set k \<subseteq> insert CHR ''/'' (\<Union>p \<in> set (key_parts n). set p)"
    by (cases n) (auto simp: n(2) key_of_names_def attempt_key_text_def key_parts_def)
  have "newline \<notin> set p" if "p \<in> set (key_parts n)" for p using key_parts_avoid [OF n(1) that] by (simp add: newline_def)
  then show "newline \<notin> set k" using sub by (auto simp: newline_def)
  obtain job attempt epoch kind publication where nn: "n = (job, attempt, epoch, kind, publication)" by (cases n)
  have u: "uuid_canonical job = Inr job" "uuid_canonical attempt = Inr attempt"
    "uuid_canonical publication = Inr publication" "0 \<le> epoch"
    using n(1) by (simp_all add: nn names_exact_def)
  have low: "hex_lower c \<Longrightarrow> code c < 128" for c by (auto simp: hex_lower_def Let_def)
  have uu: "code c < 128" if "c \<in> set x" "uuid_canonical x = Inr x" for c x
    using uuid_chars [OF that(2,1)] low code_minus by auto
  have ee: "code c < 128" if "c \<in> set (str_int epoch)" for c
    using str_int_lower [OF u(4)] that low by (auto simp: list_all_iff)
  have kk: "code c < 128" if "c \<in> set (artifact_kind_value kind)" for c
    using that artifact_kind_value_chars [of kind] by (auto simp: code_def)
  have "code c < 128" if "p \<in> set (key_parts n)" "c \<in> set p" for p c
    using that u uu ee kk by (auto simp: nn key_parts_def) (auto simp: code_def)
  moreover have "code CHR ''/'' < 128" by (simp add: code_def)
  ultimately show "list_all (\<lambda>c. code c < 128) k" using sub by (fastforce simp: list_all_iff)
qed

definition lines :: "string list \<Rightarrow> string" where
  "lines ks = concat (map (\<lambda>k. k @ [newline]) ks)"

definition offset :: "string list \<Rightarrow> nat \<Rightarrow> nat" where
  "offset ks m = length (lines (take m ks))"

lemma lines_simps [simp]: "lines [] = []" "lines (k # ks) = k @ newline # lines ks" "lines (xs @ ys) = lines xs @ lines ys"
  by (simp_all add: lines_def)

lemma split_lines: "\<forall>k \<in> set ks. newline \<notin> set k \<Longrightarrow> split_on newline (lines ks) = ks @ [[]]"
  by (induction ks) (simp_all add: split_on_app)

lemma drop_offset: "m \<le> length ks \<Longrightarrow> drop (offset ks m) (lines ks) = lines (drop m ks)"
  by (metis append_eq_conv_conj append_take_drop_id lines_simps(3) offset_def)

lemma offset_append: "m \<le> length ks \<Longrightarrow> offset (ks @ ks') m = offset ks m"
  by (simp add: offset_def)

lemma offset_0 [simp]: "offset ks 0 = 0"
  by (simp add: offset_def)

lemma offset_Suc: "m < length ks \<Longrightarrow> offset ks (Suc m) = offset ks m + Suc (length (ks ! m))"
  by (simp add: offset_def take_Suc_conv_app_nth)

lemma offset_length: "offset ks (length ks) = length (lines ks)"
  by (simp add: offset_def)

lemma offset_le: "offset ks m \<le> length (lines ks)"
  by (metis append_take_drop_id le_add1 length_append lines_simps(3) offset_def)

lemma offset_inj:
  assumes "offset ks m = offset ks m'" and "m \<le> length ks" and "m' \<le> length ks" shows "m = m'"
proof -
  have step: "offset ks m < offset ks m'" if "m < m'" "m' \<le> length ks" for m m'
    using that
  proof (induction m')
    case (Suc j)
    then show ?case using offset_Suc [of j ks] by (cases "m = j") auto
  qed simp
  show ?thesis using step [of m m'] step [of m' m] assms by (metis less_irrefl nat_neq_iff)
qed

section \<open>The invariant\<close>

definition journal_text :: "local_attempts \<Rightarrow> string" where
  "journal_text s = (case la_journal s of Some (RegularFile x) \<Rightarrow> x | _ \<Rightarrow> [])"

definition journal_keys :: "local_attempts \<Rightarrow> string list" where
  "journal_keys s = butlast (split_on newline (journal_text s))"

definition lat_held :: "local_attempts \<Rightarrow> string \<Rightarrow> (string \<times> int) option" where
  "lat_held s k =
     (case parse_attempt_key k of
        Inl _ \<Rightarrow> None
      | Inr n \<Rightarrow> (case la_files s (split_on CHR ''/'' k) of Some (RegularFile x, t) \<Rightarrow> Some (x, t) | _ \<Rightarrow> None))"

text \<open>A cursor counts the lines before it.\<close>

definition lat_pos :: "local_attempts \<Rightarrow> string \<Rightarrow> nat" where
  "lat_pos s i =
     (case la_cursors s i of
        Some (RegularFile x) \<Rightarrow> length (filter (\<lambda>c. c = newline) (take (nat (the (int10 x))) (journal_text s)))
      | _ \<Rightarrow> 0)"

lemma local_frames [simp]:
  "journal_text (s\<lparr>la_files := f\<rparr>) = journal_text s" "journal_text (s\<lparr>la_cursors := c\<rparr>) = journal_text s"
  "lat_pos (s\<lparr>la_files := f\<rparr>) = lat_pos s" "lat_held (s\<lparr>la_cursors := c\<rparr>) = lat_held s"
  by (auto simp: fun_eq_iff journal_text_def lat_pos_def lat_held_def split: option.split dir_entry.split sum.split)

definition lat_ok :: "string list \<Rightarrow> local_attempts \<Rightarrow> bool" where
  "lat_ok ks s \<longleftrightarrow>
     (la_journal s = Some (RegularFile (lines ks)) \<or> la_journal s = None \<and> ks = []) \<and>
     (\<forall>k \<in> set ks. exact_key k \<and> length k < max_line) \<and>
     (\<forall>p e. la_files s p = Some e \<longrightarrow>
        (\<exists>k \<in> set ks. \<exists>x t. e = (RegularFile x, t) \<and> p = split_on CHR ''/'' k \<and> set (parents p) \<subseteq> la_dirs s)) \<and>
     (\<forall>i e. la_cursors s i = Some e \<longrightarrow> (\<exists>m \<le> length ks. e = RegularFile (str_int (int (offset ks m))))) \<and>
     length (lines ks) < 10 ^ 64"

definition lat_inv :: "local_attempts \<Rightarrow> bool" where
  "lat_inv s = lat_ok (journal_keys s) s"

lemma lat_okD:
  assumes "lat_ok ks s"
  shows "la_journal s = Some (RegularFile (lines ks)) \<or> la_journal s = None \<and> ks = []"
    and "\<And>k. k \<in> set ks \<Longrightarrow> exact_key k \<and> length k < max_line"
    and "\<And>p e. la_files s p = Some e \<Longrightarrow>
        \<exists>k \<in> set ks. \<exists>x t. e = (RegularFile x, t) \<and> p = split_on CHR ''/'' k \<and> set (parents p) \<subseteq> la_dirs s"
    and "\<And>i e. la_cursors s i = Some e \<Longrightarrow> \<exists>m \<le> length ks. e = RegularFile (str_int (int (offset ks m)))"
    and "length (lines ks) < 10 ^ 64"
  using assms unfolding lat_ok_def by blast+

lemma lat_ok_keys: assumes "lat_ok ks s" shows "journal_text s = lines ks" and "journal_keys s = ks"
proof -
  show t: "journal_text s = lines ks" using lat_okD(1) [OF assms] by (auto simp: journal_text_def)
  have "\<forall>k \<in> set ks. newline \<notin> set k" using lat_okD(2) [OF assms] exact_key_chars(1) by blast
  then show "journal_keys s = ks" by (simp add: journal_keys_def t split_lines)
qed

lemma lat_okI: "lat_ok ks s \<Longrightarrow> lat_inv s"
  using lat_ok_keys(2) by (simp add: lat_inv_def)

lemma nat_digits_length: "n < 10 ^ m \<Longrightarrow> 0 < m \<Longrightarrow> length (nat_digits n) \<le> m"
proof (induction n arbitrary: m rule: nat_digits.induct)
  case (1 n)
  show ?case
  proof (cases "n < 10")
    case True
    then show ?thesis using 1(3) by (simp add: nat_digits.simps [of n])
  next
    case False
    then obtain m' where m: "m = Suc m'" "0 < m'" using 1(2,3) by (cases m; cases "m - 1") auto
    then have "n div 10 < 10 ^ m'" using 1(2) by (simp add: less_mult_imp_div_less mult.commute)
    then show ?thesis using 1(1) [OF False _ m(2)] False m by (simp add: nat_digits.simps [of n])
  qed
qed

text \<open>A cursor that has been written is read back.\<close>

lemma cursor_text:
  assumes "n < 10 ^ 64"
  shows "str_int (int n) \<noteq> []" and "length (str_int (int n)) \<le> 64" and "int10 (str_int (int n)) = Some (int n)"
    and "list_all (\<lambda>c. 48 \<le> code c \<and> code c \<le> 57) (str_int (int n))"
proof -
  show "str_int (int n) \<noteq> []" by (simp add: str_int_def)
  show l: "length (str_int (int n)) \<le> 64" using nat_digits_length [of n 64] assms by (simp add: str_int_def)
  show "int10 (str_int (int n)) = Some (int n)" using l by (intro int10_str_int) auto
  show "list_all (\<lambda>c. 48 \<le> code c \<and> code c \<le> 57) (str_int (int n))"
    using nat_digits_chars by (fastforce simp: str_int_def list_all_iff code_digit_char)
qed

lemma read_cursor_eq:
  assumes "lat_ok ks s"
  shows "lat_pos s i \<le> length ks" and "read_cursor i s = Inr (offset ks (lat_pos s i))"
proof -
  have free: "\<forall>k \<in> set ks. newline \<notin> set k" using lat_okD(2) [OF assms] exact_key_chars(1) by blast
  have count: "length (filter (\<lambda>c. c = newline) (lines xs)) = length xs" if "\<forall>k \<in> set xs. newline \<notin> set k" for xs
    using that by (induction xs) (auto simp: filter_empty_conv)
  have "lat_pos s i \<le> length ks \<and> read_cursor i s = Inr (offset ks (lat_pos s i))"
  proof (cases "la_cursors s i")
    case None
    then show ?thesis by (simp add: lat_pos_def read_cursor_def)
  next
    case (Some e)
    then obtain m where m: "m \<le> length ks" "e = RegularFile (str_int (int (offset ks m)))" using lat_okD(4) [OF assms] by blast
    have "offset ks m < 10 ^ 64" using offset_le [of ks m] lat_okD(5) [OF assms] by linarith
    note C = cursor_text [OF this]
    have "take (offset ks m) (lines ks) = lines (take m ks)"
      by (metis append_eq_conv_conj append_take_drop_id lines_simps(3) offset_def)
    moreover have "\<forall>k \<in> set (take m ks). newline \<notin> set k" using free by (meson in_set_takeD)
    ultimately have "lat_pos s i = m"
      using count [of "take m ks"] m(1) C(3) by (simp add: lat_pos_def Some m(2) lat_ok_keys(1) [OF assms])
    then show ?thesis using m C by (auto simp: read_cursor_def Some not_less)
  qed
  then show "lat_pos s i \<le> length ks" "read_cursor i s = Inr (offset ks (lat_pos s i))" by blast+
qed

section \<open>Operations on objects\<close>

definition file_at :: "local_attempts \<Rightarrow> string \<Rightarrow> (dir_entry \<times> int) option" where
  "file_at s k = la_files s (split_on CHR ''/'' k)"

definition put_file :: "string \<Rightarrow> dir_entry \<times> int \<Rightarrow> local_attempts \<Rightarrow> local_attempts" where
  "put_file k e s = s\<lparr>la_files := (la_files s)(split_on CHR ''/'' k \<mapsto> e)\<rparr>"

lemma split_inj: "split_on d k = split_on d k' \<longleftrightarrow> k = k'"
  by (metis join_split_on)

lemma file_at_put_file: "file_at (put_file k e s) k' = (if k' = k then Some e else file_at s k')"
  by (auto simp: file_at_def put_file_def split_inj)

lemma components_eq: "exact_key k \<Longrightarrow> components k = Inr (split_on CHR ''/'' k)"
  by (auto simp: exact_key_parse components_def)

lemma components_bad: "\<not> exact_key k \<Longrightarrow> \<exists>err. components k = Inl err"
  by (cases "parse_attempt_key k") (auto simp: exact_key_parse components_def)

lemma lat_held_eq: "lat_held s k =
    (if exact_key k then (case file_at s k of Some (RegularFile x, t) \<Rightarrow> Some (x, t) | _ \<Rightarrow> None) else None)"
  by (auto simp: lat_held_def exact_key_parse file_at_def split: sum.splits)

lemma lat_held_Some:
  assumes "lat_ok ks s" and "lat_held s k = Some (x, t)"
  shows "exact_key k" and "file_at s k = Some (RegularFile x, t)" and "k \<in> set ks"
    and "set (parents (split_on CHR ''/'' k)) \<subseteq> la_dirs s"
proof -
  show e: "exact_key k" and f: "file_at s k = Some (RegularFile x, t)"
    using assms(2) by (auto simp: lat_held_eq split: if_splits option.splits dir_entry.splits)
  from lat_okD(3) [OF assms(1) f [unfolded file_at_def]]
  show "k \<in> set ks" "set (parents (split_on CHR ''/'' k)) \<subseteq> la_dirs s" by (auto simp: split_inj)
qed

lemma lat_held_None:
  assumes "lat_ok ks s" and "lat_held s k = None" and "exact_key k" shows "file_at s k = None"
proof (rule ccontr)
  assume "file_at s k \<noteq> None"
  then obtain e where e: "file_at s k = Some e" by blast
  from lat_okD(3) [OF assms(1) e [unfolded file_at_def]] show False using assms(2,3) e by (auto simp: lat_held_eq)
qed

lemma open_parent_eq:
  "open_parent parts False s = ok () s \<or> (\<exists>m. open_parent parts False s = fail FileNotFoundError m s)"
  "set (parents parts) \<subseteq> la_dirs s \<Longrightarrow> open_parent parts False s = ok () s"
  by (auto simp: open_parent_def find_None_iff split: option.splits)

lemma lat_ok_file:
  assumes "lat_ok ks s" and "k \<in> set ks" and "set (parents (split_on CHR ''/'' k)) \<subseteq> la_dirs s"
  shows "lat_ok ks (put_file k (RegularFile x, t) s)"
  using assms unfolding lat_ok_def put_file_def by (auto split: if_splits)

text \<open>The state in which the stream is consumed: the key is in the journal, the directories exist.\<close>

definition announced :: "string \<Rightarrow> local_attempts \<Rightarrow> local_attempts" where
  "announced k s = s\<lparr>la_journal := Some (RegularFile (journal_text s @ k @ [newline])),
     la_dirs := la_dirs s \<union> set (parents (split_on CHR ''/'' k))\<rparr>"

lemma announced_ok:
  assumes ok: "lat_ok ks s" and k: "exact_key k" "length k < max_line" and len: "length (journal_text s) + max_line < 10 ^ 64"
  shows "lat_ok (ks @ [k]) (announced k s)" and "file_at (announced k s) = file_at s"
    and "lat_pos (announced k s) = lat_pos s"
proof -
  note D = lat_okD [OF ok] and T = lat_ok_keys(1) [OF ok]
  have cur: "\<exists>m \<le> Suc (length ks). e = RegularFile (str_int (int (offset (ks @ [k]) m)))"
    if c: "la_cursors s i = Some e" for i e
  proof -
    obtain m where "m \<le> length ks" "e = RegularFile (str_int (int (offset ks m)))" using D(4) [OF c] by blast
    then show ?thesis by (intro exI [of _ m]) (simp add: offset_append)
  qed
  have files: "\<exists>k' \<in> set (ks @ [k]). \<exists>x t. e = (RegularFile x, t) \<and> p = split_on CHR ''/'' k' \<and>
      set (parents p) \<subseteq> la_dirs (announced k s)" if f: "la_files s p = Some e" for p e
  proof -
    from D(3) [OF f] obtain k' x t where "k' \<in> set ks" "e = (RegularFile x, t)" "p = split_on CHR ''/'' k'"
      "set (parents p) \<subseteq> la_dirs s" by blast
    then show ?thesis by (intro bexI [of _ k'] exI [of _ x] exI [of _ t]) (auto simp: announced_def)
  qed
  show a: "lat_ok (ks @ [k]) (announced k s)"
    unfolding lat_ok_def
  proof (intro conjI allI impI ballI)
    show "la_journal (announced k s) = Some (RegularFile (lines (ks @ [k]))) \<or> la_journal (announced k s) = None \<and> ks @ [k] = []"
      by (simp add: announced_def T)
    show "exact_key k'" "length k' < max_line" if "k' \<in> set (ks @ [k])" for k' using that D(2) k by auto
    show "\<exists>m \<le> length (ks @ [k]). e = RegularFile (str_int (int (offset (ks @ [k]) m)))"
      if "la_cursors (announced k s) i = Some e" for i e
      using cur [of i e] that by (simp add: announced_def)
    have "length (lines (ks @ [k])) = length (journal_text s) + Suc (length k)" by (simp add: T)
    then show "length (lines (ks @ [k])) < 10 ^ 64" using len k(2) by simp
  qed (use files in \<open>simp add: announced_def\<close>)
  show "file_at (announced k s) = file_at s" by (simp add: announced_def file_at_def fun_eq_iff)
  show "lat_pos (announced k s) = lat_pos s"
  proof
    fix i
    show "lat_pos (announced k s) i = lat_pos s i"
    proof (cases "la_cursors s i")
      case None
      then show ?thesis by (simp add: lat_pos_def announced_def)
    next
      case (Some e)
      have "read_cursor i (announced k s) = read_cursor i s" by (simp add: read_cursor_def announced_def)
      then have "offset (ks @ [k]) (lat_pos (announced k s) i) = offset ks (lat_pos s i)"
        using read_cursor_eq(2) [OF ok, of i] read_cursor_eq(2) [OF a, of i] by simp
      then have "offset (ks @ [k]) (lat_pos (announced k s) i) = offset (ks @ [k]) (lat_pos s i)"
        using read_cursor_eq(1) [OF ok, of i] by (simp add: offset_append)
      then show ?thesis
        using read_cursor_eq(1) [OF ok, of i] read_cursor_eq(1) [OF a, of i]
          offset_inj [of "ks @ [k]" "lat_pos (announced k s) i" "lat_pos s i"] by simp
    qed
  qed
qed

definition lat_guard :: "put_env \<Rightarrow> string \<Rightarrow> local_attempts \<Rightarrow> bool" where
  "lat_guard e k s \<longleftrightarrow>
     pe_short e = None \<and> (case pe_rival e of None \<Rightarrow> True | Some (f, t) \<Rightarrow> (\<exists>x. f = RegularFile x)) \<and>
     length k < max_line \<and> length (journal_text s) + max_line < 10 ^ 64"

lemma new_AttemptObject_for:
  "exact_key k \<Longrightarrow> g \<noteq> Some [] \<Longrightarrow> new_AttemptObject (object_for k x t g) = Inr (object_for k x t g)"
  by (auto simp: exact_key_parse new_AttemptObject_def object_for_def attempt_sha256_def checks_Cons sha256_hex_ok)

text \<open>\<open>put_stream\<close> on every branch: \<open>entry\<close> is what the name holds at the time of the link.\<close>

definition entry_at_link :: "put_env \<Rightarrow> string \<Rightarrow> local_attempts \<Rightarrow> (dir_entry \<times> int) option" where
  "entry_at_link e k s = (case file_at s k of None \<Rightarrow> pe_rival e | Some f \<Rightarrow> Some f)"

lemma put_file_same: "file_at s k = Some f \<Longrightarrow> put_file k f s = s"
  by (simp add: put_file_def file_at_def fun_upd_idem)

lemma lat_put_eq:
  assumes ok: "lat_ok ks s" and k: "exact_key k" and g: "lat_guard e k s"
  shows "lat_put_stream e k st s =
    (case consume (fst st) (snd st) of
       Inl err \<Rightarrow> (Inl err, announced k s)
     | Inr d \<Rightarrow>
        (case entry_at_link e k s of
           None \<Rightarrow> ok (object_for k d (pe_created e) None) (put_file k (RegularFile d, pe_mtime e) (announced k s))
         | Some f \<Rightarrow>
             let s' = put_file k f (announced k s) in
             lift (stat_open s' (split_on CHR ''/'' k) k) s' (\<lambda>x.
               if ao_sha256 x \<noteq> sha256_hex d \<or> ao_size_bytes x \<noteq> int (length d) then different_bytes s' else ok x s')))"
proof -
  let ?parts = "split_on CHR ''/'' k"
  have j: "la_journal s = None \<or> (\<exists>x. la_journal s = Some (RegularFile x))" using lat_okD(1) [OF ok] by blast
  have rec: "record_inventory k (pe_short e) s =
      ok () (s\<lparr>la_journal := Some (RegularFile (journal_text s @ k @ [newline]))\<rparr>)"
    using j g by (auto simp: record_inventory_def append_journal_def journal_text_def lat_guard_def Let_def)
  have ann: "open_parent ?parts True (s\<lparr>la_journal := Some (RegularFile (journal_text s @ k @ [newline]))\<rparr>) =
      ok () (announced k s)"
    by (simp add: open_parent_def announced_def)
  have f: "la_files (announced k s) ?parts = file_at s k" by (simp add: announced_def file_at_def)
  show ?thesis
  proof (cases "consume (fst st) (snd st)")
    case (Inl err)
    then show ?thesis by (simp add: lat_put_stream_def components_eq [OF k] sbind_def rec ann ok_def)
  next
    case (Inr d)
    show ?thesis
    proof (cases "file_at s k")
      case (Some e')
      have "put_file k e' (announced k s) = announced k s"
        using Some by (intro put_file_same) (simp add: file_at_def announced_def)
      then show ?thesis using Inr Some f
        by (simp add: lat_put_stream_def components_eq [OF k] sbind_def rec ann ok_def entry_at_link_def Let_def
            cong: if_cong option.case_cong)
    next
      case None
      then show ?thesis using Inr f
        by (cases "pe_rival e")
           (simp_all add: lat_put_stream_def components_eq [OF k] sbind_def rec ann ok_def entry_at_link_def Let_def
              put_file_def new_AttemptObject_for [OF k] cong: if_cong option.case_cong)
    qed
  qed
qed

lemma file_at_plain:
  assumes "lat_ok ks s" and "file_at s k = Some f" shows "\<exists>x t. f = (RegularFile x, t)"
  using lat_okD(3) [OF assms(1) assms(2) [unfolded file_at_def]] by blast

lemma stat_open_put_file:
  "exact_key k \<Longrightarrow> stat_open (put_file k (RegularFile x, t) s) (split_on CHR ''/'' k) k = Inr (object_for k x t None)"
  by (simp add: stat_open_def read_object_def put_file_def new_AttemptObject_for)

text \<open>What \<open>put_stream\<close> leaves: the journal names the key, and the object is there once a stream has been read.\<close>

lemma lat_put_cases:
  assumes ok: "lat_ok ks s" and k: "exact_key k" and g: "lat_guard e k s"
  obtains (broken) err where "consume (fst st) (snd st) = Inl err" "lat_put_stream e k st s = (Inl err, announced k s)"
  | (stored) d x t r where "consume (fst st) (snd st) = Inr d" "file_at s k \<in> {None, Some (RegularFile x, t)}"
      "lat_put_stream e k st s = (r, put_file k (RegularFile x, t) (announced k s))"
      "case r of Inl err \<Rightarrow> exc_class_of err = StateTransitionError
       | Inr obj \<Rightarrow> sha256_hex x = sha256_hex d \<and> length x = length d \<and> ao_storage_key obj = k \<and>
           ao_sha256 obj = sha256_hex d \<and> ao_size_bytes obj = int (length d)"
proof (cases "consume (fst st) (snd st)")
  case (Inl err)
  then show ?thesis using broken lat_put_eq [OF ok k g] by simp
next
  case (Inr d)
  show ?thesis
  proof (cases "entry_at_link e k s")
    case None
    then have "file_at s k = None" by (simp add: entry_at_link_def split: option.splits)
    then show ?thesis using Inr None lat_put_eq [OF ok k g, of st] stored [OF Inr, of d "pe_mtime e"]
      by (simp add: object_for_def ok_def)
  next
    case (Some f)
    have "\<exists>x t. f = (RegularFile x, t)"
      using Some file_at_plain [OF ok] g by (auto simp: entry_at_link_def lat_guard_def split: option.splits)
    then obtain x t where f: "f = (RegularFile x, t)" by blast
    have at: "file_at s k \<in> {None, Some (RegularFile x, t)}"
      using Some f by (auto simp: entry_at_link_def split: option.splits)
    show ?thesis
      using Inr Some f lat_put_eq [OF ok k g, of st] stored [OF Inr at]
      by (auto simp: Let_def stat_open_put_file [OF k] object_for_def different_bytes_def fail_def ok_def raise_def
          split: if_splits)
  qed
qed

lemma lat_put_bad: "\<not> exact_key k \<Longrightarrow> \<exists>err. lat_put_stream e k st s = (Inl err, s)"
  using components_bad by (fastforce simp: lat_put_stream_def)

lemma lat_read_ops:
  assumes ok: "lat_ok ks s" and h: "lat_held s k = Some (x, t)"
  shows "lat_open_reader k s = (Inr x, s)" and "lat_stat k s = (Inr (object_for k x t None), s)"
    and "lat_created_at k s = (Inr t, s)"
    and "lat_delete k s = (Inr (), s\<lparr>la_files := (la_files s)(split_on CHR ''/'' k := None)\<rparr>)"
proof -
  note H = lat_held_Some [OF ok h]
  have p: "open_parent (split_on CHR ''/'' k) False s = ok () s" by (rule open_parent_eq(2) [OF H(4)])
  have r: "read_object s (split_on CHR ''/'' k) = Inr (x, t)" using H(2) by (simp add: read_object_def file_at_def)
  show "lat_open_reader k s = (Inr x, s)"
    by (simp add: lat_open_reader_def components_eq [OF H(1)] sbind_def p ok_def r)
  show "lat_stat k s = (Inr (object_for k x t None), s)"
    by (simp add: lat_stat_def components_eq [OF H(1)] sbind_def p ok_def stat_open_def r new_AttemptObject_for [OF H(1)])
  show "lat_created_at k s = (Inr t, s)" "lat_delete k s = (Inr (), s\<lparr>la_files := (la_files s)(split_on CHR ''/'' k := None)\<rparr>)"
    using H(2) by (simp_all add: lat_created_at_def lat_delete_def components_eq [OF H(1)] sbind_def p ok_def file_at_def)
qed

lemma missing_FileNotFound: "missing (Exc FileNotFoundError m)" "missing (Exc KeyError m)"
  by (simp_all add: missing_def instance_of_any_def instance_of_def)

lemma lat_read_missing:
  assumes ok: "lat_ok ks s" and h: "lat_held s k = None"
  shows "\<exists>err. lat_open_reader k s = (Inl err, s) \<and> (exact_key k \<longrightarrow> missing err)"
    and "\<exists>err. lat_stat k s = (Inl err, s) \<and> (exact_key k \<longrightarrow> missing err)"
    and "\<exists>err. lat_created_at k s = (Inl err, s)" and "snd (lat_delete k s) = s"
proof -
  have main: "(\<exists>err. lat_open_reader k s = (Inl err, s) \<and> missing err) \<and> (\<exists>err. lat_stat k s = (Inl err, s) \<and> missing err) \<and>
      (\<exists>err. lat_created_at k s = (Inl err, s)) \<and> snd (lat_delete k s) = s" if k: "exact_key k"
  proof -
    have f: "la_files s (split_on CHR ''/'' k) = None" using lat_held_None [OF ok h k] by (simp add: file_at_def)
    from open_parent_eq(1) [of "split_on CHR ''/'' k" s] f show ?thesis
      by (auto simp: lat_open_reader_def lat_stat_def lat_created_at_def lat_delete_def components_eq [OF k] sbind_def ok_def
          fail_def raise_def stat_open_def read_object_def missing_FileNotFound)
  qed
  have bad: "(\<exists>err. lat_open_reader k s = (Inl err, s)) \<and> (\<exists>err. lat_stat k s = (Inl err, s)) \<and>
      (\<exists>err. lat_created_at k s = (Inl err, s)) \<and> snd (lat_delete k s) = s" if "\<not> exact_key k"
    using components_bad [OF that] by (auto simp: lat_open_reader_def lat_stat_def lat_created_at_def lat_delete_def)
  show "\<exists>err. lat_open_reader k s = (Inl err, s) \<and> (exact_key k \<longrightarrow> missing err)"
    "\<exists>err. lat_stat k s = (Inl err, s) \<and> (exact_key k \<longrightarrow> missing err)"
    "\<exists>err. lat_created_at k s = (Inl err, s)" "snd (lat_delete k s) = s"
    using main bad by (cases "exact_key k"; blast)+
qed

end
