(* ===== verification/AttemptScan.thy ===== *)
theory AttemptScan
  imports AttemptLocal
begin

text \<open>
  The scans of the local inventory: a page shows the held objects of the next journal entries, its
  cursor is kept between two entries, and the store is interpreted in the contract.
\<close>

section \<open>One line\<close>

lemma readline_line:
  "newline \<notin> set k \<Longrightarrow> length k < n \<Longrightarrow> readline n (k @ newline # rest) = k @ [newline]"
proof -
  assume k: "newline \<notin> set k" "length k < n"
  then have "takeWhile (\<lambda>c. c \<noteq> newline) k = k" by (auto simp: takeWhile_eq_all_conv)
  then show ?thesis using k by (simp add: readline_def Let_def takeWhile_tail)
qed

lemma readline_nil [simp]: "readline n [] = []"
  by (simp add: readline_def)

definition old_object :: "local_attempts \<Rightarrow> int \<Rightarrow> string \<Rightarrow> attempt_object list" where
  "old_object s cutoff k =
     (case lat_held s k of None \<Rightarrow> [] | Some (x, t) \<Rightarrow> if t < cutoff then [object_for k x t None] else [])"

lemma inventory_entry_eq:
  assumes ok: "lat_ok ks s" and k: "exact_key k"
  shows "inventory_entry s cutoff k seen = (if k \<in> set seen then ([], seen) else (old_object s cutoff k, k # seen))"
proof -
  obtain n where n: "parse_attempt_key k = Inr n" using k by (auto simp: exact_key_parse)
  show ?thesis
  proof (cases "lat_held s k")
    case None
    then show ?thesis using lat_read_missing(3) [OF ok None] exact_key_chars(2) [OF k] n
      by (auto simp: inventory_entry_def old_object_def)
  next
    case (Some h)
    obtain x t where h: "h = (x, t)" by (cases h)
    show ?thesis using lat_read_ops(2,3) [OF ok Some [unfolded h]] exact_key_chars(2) [OF k] n Some
      by (auto simp: inventory_entry_def old_object_def h object_for_def)
  qed
qed

section \<open>Several lines\<close>

definition shows_old :: "local_attempts \<Rightarrow> int \<Rightarrow> string set \<Rightarrow> attempt_object list \<Rightarrow> bool" where
  "shows_old s cutoff K xs \<longleftrightarrow>
     distinct (map ao_storage_key xs) \<and>
     ao_storage_key ` set xs = {k \<in> K. \<exists>d t. lat_held s k = Some (d, t) \<and> t < cutoff} \<and>
     (\<forall>x \<in> set xs. \<forall>d t. lat_held s (ao_storage_key x) = Some (d, t) \<longrightarrow> x = object_for (ao_storage_key x) d t None)"

lemma shows_old_Cons:
  assumes "shows_old s cutoff (K - insert k S) xs"
  shows "k \<notin> S \<Longrightarrow> shows_old s cutoff (insert k K - S) (old_object s cutoff k @ xs)"
proof -
  assume k: "k \<notin> S"
  show ?thesis
  proof (cases "\<exists>d t. lat_held s k = Some (d, t) \<and> t < cutoff")
    case True
    then obtain d t where h: "lat_held s k = Some (d, t)" "t < cutoff" by blast
    have "old_object s cutoff k = [object_for k d t None]" using h by (simp add: old_object_def)
    then show ?thesis using assms h k unfolding shows_old_def by (auto simp: object_for_def)
  next
    case False
    then have "old_object s cutoff k = []" by (auto simp: old_object_def split: option.splits)
    then show ?thesis using assms False k unfolding shows_old_def by auto
  qed
qed

lemma scan_lines_eq:
  assumes ok: "lat_ok ks s"
  shows "m \<le> length ks \<Longrightarrow>
    \<exists>xs. scan_lines s cutoff (lines ks) n (offset ks m) seen =
      Inr (xs, min n (length ks - m), if length ks < m + n then 0 else offset ks (m + n), length ks < m + n) \<and>
      shows_old s cutoff (set (take n (drop m ks)) - set seen) xs"
proof (induction n arbitrary: m seen)
  case 0
  then show ?case by (simp add: shows_old_def)
next
  case (Suc n)
  show ?case
  proof (cases "m = length ks")
    case True
    then show ?thesis by (simp add: drop_offset shows_old_def)
  next
    case False
    then have m: "m < length ks" using Suc.prems by simp
    define k where "k = ks ! m"
    have k: "exact_key k" "length k < max_line" using lat_okD(2) [OF ok] m by (simp_all add: k_def)
    have nl: "newline \<notin> set k" by (rule exact_key_chars(1) [OF k(1)])
    have d: "drop m ks = k # drop (Suc m) ks" using m by (simp add: k_def Cons_nth_drop_Suc)
    then have line: "readline (Suc max_line) (drop (offset ks m) (lines ks)) = k @ [newline]"
      using readline_line [OF nl, of "Suc max_line"] k(2) m by (simp add: drop_offset)
    have nxt: "Suc (offset ks m + length k) = offset ks (Suc m)" using offset_Suc [OF m] by (simp add: k_def)
    let ?seen = "if k \<in> set seen then seen else k # seen"
    let ?found = "if k \<in> set seen then [] else old_object s cutoff k"
    from Suc.IH [of "Suc m" ?seen] m obtain ys where ys:
      "scan_lines s cutoff (lines ks) n (offset ks (Suc m)) ?seen =
        Inr (ys, min n (length ks - Suc m), if length ks < Suc m + n then 0 else offset ks (Suc m + n), length ks < Suc m + n)"
      "shows_old s cutoff (set (take n (drop (Suc m) ks)) - set ?seen) ys" by auto
    have "inventory_entry s cutoff k seen = (?found, ?seen)" by (simp add: inventory_entry_eq [OF ok k(1)])
    then have "scan_lines s cutoff (lines ks) (Suc n) (offset ks m) seen =
        Inr (?found @ ys, Suc (min n (length ks - Suc m)),
          if length ks < Suc m + n then 0 else offset ks (Suc m + n), length ks < Suc m + n)"
      using k(2) ys(1) by (cases "k \<in> set seen") (simp_all add: line nxt)
    moreover have "shows_old s cutoff (set (take (Suc n) (drop m ks)) - set seen) (?found @ ys)"
    proof (cases "k \<in> set seen")
      case True
      then have "set (take (Suc n) (drop m ks)) - set seen = set (take n (drop (Suc m) ks)) - set seen" by (auto simp: d)
      then show ?thesis using ys(2) True by simp
    next
      case False
      then show ?thesis using shows_old_Cons [of s cutoff "set (take n (drop (Suc m) ks))" k "set seen" ys] ys(2)
        by (simp add: d)
    qed
    ultimately show ?thesis using m by (intro exI [of _ "?found @ ys"]) (simp add: Suc_diff_Suc)
  qed
qed

section \<open>Pages\<close>

lemma shows_old_page:
  assumes "shows_old s cutoff (set ks) xs" and "ip_objects p = xs" and "ip_scanned p = int (length ks)"
  shows "page_shows (lat_held s) cutoff ks p"
  using assms by (simp add: page_shows_def shows_old_def) blast

lemma inventory_page_from_eq:
  assumes ok: "lat_ok ks s" and m: "m \<le> length ks" and n: "0 < n"
  shows "\<exists>p. inventory_page_from s cutoff n (offset ks m) = Inr p \<and>
    ip_wrapped p = (length ks < m + n) \<and> ip_next p = int (if length ks < m + n then 0 else offset ks (m + n)) \<and>
    ip_scanned p = int (length (take n (drop m ks))) \<and> shows_old s cutoff (set (take n (drop m ks))) (ip_objects p)"
proof (cases "la_journal s")
  case None
  then have "ks = []" using lat_okD(1) [OF ok] by simp
  then show ?thesis using n m None
    by (simp add: inventory_page_from_def new_InventoryPage_def checks_Cons shows_old_def)
next
  case (Some j)
  then have j: "la_journal s = Some (RegularFile (lines ks))" using lat_okD(1) [OF ok] by simp
  obtain xs where xs: "scan_lines s cutoff (lines ks) n (offset ks m) [] =
      Inr (xs, min n (length ks - m), if length ks < m + n then 0 else offset ks (m + n), length ks < m + n)"
    "shows_old s cutoff (set (take n (drop m ks))) xs"
    using scan_lines_eq [OF ok m, of cutoff n "[]"] by auto
  have "length xs \<le> min n (length ks - m)" using scan_lines_progress [OF xs(1)] by blast
  then show ?thesis using xs by (simp add: inventory_page_from_def j new_InventoryPage_def checks_Cons)
qed

definition with_cursor :: "string \<Rightarrow> nat \<Rightarrow> local_attempts \<Rightarrow> local_attempts" where
  "with_cursor i n s = s\<lparr>la_cursors := (la_cursors s)(i \<mapsto> RegularFile (str_int (int n)))\<rparr>"

lemma with_cursor_ok:
  assumes ok: "lat_ok ks s" and m: "m \<le> length ks"
  shows "lat_ok ks (with_cursor i (offset ks m) s)" and "lat_pos (with_cursor i (offset ks m) s) i = m"
    and "i' \<noteq> i \<Longrightarrow> lat_pos (with_cursor i (offset ks m) s) i' = lat_pos s i'"
    and "lat_held (with_cursor i (offset ks m) s) = lat_held s"
proof -
  let ?s = "with_cursor i (offset ks m) s"
  have jt: "journal_text ?s = journal_text s" by (simp add: with_cursor_def journal_text_def)
  show ok': "lat_ok ks ?s" using ok m unfolding lat_ok_def with_cursor_def by auto
  have "offset ks m < 10 ^ 64" using offset_le [of ks m] lat_okD(5) [OF ok] by linarith
  note C = cursor_text [OF this]
  have "read_cursor i ?s = Inr (offset ks m)" using C by (auto simp: read_cursor_def with_cursor_def not_less)
  then have "offset ks (lat_pos ?s i) = offset ks m" using read_cursor_eq(2) [OF ok', of i] by simp
  then show "lat_pos ?s i = m" by (rule offset_inj [OF _ read_cursor_eq(1) [OF ok'] m])
  show "lat_pos ?s i' = lat_pos s i'" if i': "i' \<noteq> i"
  proof -
    have "la_cursors ?s i' = la_cursors s i'" using i' by (simp add: with_cursor_def)
    then show ?thesis unfolding lat_pos_def jt by simp
  qed
  show "lat_held ?s = lat_held s" by (simp add: with_cursor_def)
qed

lemma lat_page_eq:
  assumes ok: "lat_ok ks s" and n: "1 \<le> limit" and i: "scan_id_ok i = Inr ()"
  shows "\<exists>p m. lat_inventory_page_before cutoff limit i s = (Inr p, with_cursor i (offset ks m) s) \<and> m \<le> length ks \<and>
    m = (if length ks < lat_pos s i + nat limit then 0 else lat_pos s i + nat limit) \<and>
    page_shows (lat_held s) cutoff (take (nat limit) (drop (lat_pos s i) ks)) p"
proof -
  let ?m = "if length ks < lat_pos s i + nat limit then 0 else lat_pos s i + nat limit"
  have l: "0 < nat limit" using n by simp
  from inventory_page_from_eq [OF ok read_cursor_eq(1) [OF ok, of i] l, of cutoff] obtain p where
    p: "inventory_page_from s cutoff (nat limit) (offset ks (lat_pos s i)) = Inr p" "ip_next p = int (offset ks ?m)"
      "ip_scanned p = int (length (take (nat limit) (drop (lat_pos s i) ks)))"
      "shows_old s cutoff (set (take (nat limit) (drop (lat_pos s i) ks))) (ip_objects p)" by (auto split: if_splits)
  have w: "write_cursor i (ip_next p) s = ok () (with_cursor i (offset ks ?m) s)"
    using lat_okD(4) [OF ok, of i]
    by (auto simp: write_cursor_def with_cursor_def p(2) split: option.split dir_entry.split)
  have "lat_inventory_page_before cutoff limit i s = (Inr p, with_cursor i (offset ks ?m) s)"
    using n i by (simp add: lat_inventory_page_before_def attempt_limit_def read_cursor_eq(2) [OF ok] p(1) sbind_def w ok_def)
  then show ?thesis using shows_old_page [OF p(4) refl p(3)] by (intro exI [of _ p] exI [of _ ?m]) simp
qed

lemma lat_page_bad:
  assumes "\<not> (1 \<le> limit \<and> scan_id_ok i = Inr ())"
  shows "snd (lat_inventory_page_before cutoff limit i s) = s"
proof (cases "1 \<le> limit")
  case True
  then obtain err where "scan_id_ok i = Inl err" using assms by (cases "scan_id_ok i") auto
  then show ?thesis using True by (simp add: lat_inventory_page_before_def attempt_limit_def)
qed (simp add: lat_inventory_page_before_def attempt_limit_def)

section \<open>The contract holds\<close>

lemma lat_held_put_file:
  "exact_key k \<Longrightarrow> lat_held (put_file k (RegularFile x, t) s) k' = (if k' = k then Some (x, t) else lat_held s k')"
  by (simp add: lat_held_eq file_at_put_file)

lemma announced_held: "lat_held (announced k s) = lat_held s"
  by (simp add: fun_eq_iff lat_held_eq file_at_def announced_def)

lemma lat_pos_put_file: "lat_pos (put_file k e s) = lat_pos s"
  by (simp add: put_file_def)

text \<open>Everything a put leaves behind.\<close>

lemma lat_put_effect:
  fixes st assumes ok: "lat_ok ks s" and g: "lat_guard e k s"
  defines "s' \<equiv> snd (lat_put_stream e k st s)"
  shows "lat_ok (ks @ (if exact_key k then [k] else [])) s'" and "lat_pos s' = lat_pos s"
    and "k' \<noteq> k \<or> lat_held s k' \<noteq> None \<Longrightarrow> lat_held s' k' = lat_held s k'"
proof -
  have all: "lat_ok (ks @ (if exact_key k then [k] else [])) s' \<and> lat_pos s' = lat_pos s \<and>
    (\<forall>k'. k' \<noteq> k \<or> lat_held s k' \<noteq> None \<longrightarrow> lat_held s' k' = lat_held s k')"
  proof (cases "exact_key k")
    case False
    then show ?thesis using lat_put_bad [OF False, of e st s] ok by (auto simp: s'_def)
  next
    case True
    have A: "lat_ok (ks @ [k]) (announced k s)" "lat_pos (announced k s) = lat_pos s"
      using announced_ok [OF ok True] g by (simp_all add: lat_guard_def)
    show ?thesis
    proof (cases rule: lat_put_cases [where st = st, OF ok True g, case_names broken stored])
      case (broken err)
      then show ?thesis using A announced_held True by (simp add: s'_def)
    next
      case (stored d x t r)
      have s': "s' = put_file k (RegularFile x, t) (announced k s)" using stored(3) by (simp add: s'_def)
      have "lat_ok (ks @ [k]) s'" unfolding s' by (rule lat_ok_file [OF A(1)]) (auto simp: announced_def)
      moreover have held: "lat_held s k \<noteq> None \<Longrightarrow> lat_held s k = Some (x, t)"
        using stored(2) True by (auto simp: lat_held_eq)
      have "lat_held s' k' = lat_held s k'" if "k' \<noteq> k \<or> lat_held s k' \<noteq> None" for k'
        using that held by (auto simp: s' lat_held_put_file [OF True] announced_held)
      ultimately show ?thesis using True A(2) by (simp add: s' lat_pos_put_file)
    qed
  qed
  then show "lat_ok (ks @ (if exact_key k then [k] else [])) s'" "lat_pos s' = lat_pos s"
    "k' \<noteq> k \<or> lat_held s k' \<noteq> None \<Longrightarrow> lat_held s' k' = lat_held s k'" by blast+
qed

lemma lat_delete_effect:
  assumes ok: "lat_ok ks s"
  shows "lat_ok ks (snd (lat_delete k s))" and "lat_held (snd (lat_delete k s)) = (lat_held s)(k := None)"
    and "lat_pos (snd (lat_delete k s)) = lat_pos s"
proof -
  have all: "lat_ok ks (snd (lat_delete k s)) \<and> lat_held (snd (lat_delete k s)) = (lat_held s)(k := None) \<and>
    lat_pos (snd (lat_delete k s)) = lat_pos s"
  proof (cases "lat_held s k")
    case None
    then show ?thesis using lat_read_missing(4) [OF ok None] ok by (auto simp: fun_eq_iff)
  next
    case (Some h)
    obtain x t where h: "h = (x, t)" by (cases h)
    let ?s = "s\<lparr>la_files := (la_files s)(split_on CHR ''/'' k := None)\<rparr>"
    have d: "snd (lat_delete k s) = ?s" using lat_read_ops(4) [OF ok Some [unfolded h]] by simp
    have "lat_ok ks ?s" using ok unfolding lat_ok_def by (auto split: if_splits)
    moreover have "lat_held ?s k' = ((lat_held s)(k := None)) k'" for k'
      by (auto simp: lat_held_eq file_at_def split_inj)
    moreover have "lat_pos ?s = lat_pos s" by simp
    ultimately show ?thesis using d by (auto simp: fun_eq_iff)
  qed
  then show "lat_ok ks (snd (lat_delete k s))" "lat_held (snd (lat_delete k s)) = (lat_held s)(k := None)"
    "lat_pos (snd (lat_delete k s)) = lat_pos s" by blast+
qed

lemma lat_page_effect:
  assumes ok: "lat_ok ks s"
  shows "lat_ok ks (snd (lat_inventory_page_before c l i s))"
    and "lat_held (snd (lat_inventory_page_before c l i s)) = lat_held s"
    and "i' \<noteq> i \<Longrightarrow> lat_pos (snd (lat_inventory_page_before c l i s)) i' = lat_pos s i'"
proof -
  have "lat_ok ks (snd (lat_inventory_page_before c l i s)) \<and>
    lat_held (snd (lat_inventory_page_before c l i s)) = lat_held s \<and>
    (i' \<noteq> i \<longrightarrow> lat_pos (snd (lat_inventory_page_before c l i s)) i' = lat_pos s i')"
  proof (cases "1 \<le> l \<and> scan_id_ok i = Inr ()")
    case True
    then obtain p m where p: "lat_inventory_page_before c l i s = (Inr p, with_cursor i (offset ks m) s)" "m \<le> length ks"
      using lat_page_eq [OF ok] by blast
    then show ?thesis using with_cursor_ok [OF ok p(2)] by simp
  qed (simp add: lat_page_bad ok)
  then show "lat_ok ks (snd (lat_inventory_page_before c l i s))"
    "lat_held (snd (lat_inventory_page_before c l i s)) = lat_held s"
    "i' \<noteq> i \<Longrightarrow> lat_pos (snd (lat_inventory_page_before c l i s)) i' = lat_pos s i'" by blast+
qed

interpretation local_attempts: attempt_store lat_put_stream lat_open_reader lat_stat lat_delete
  lat_inventory_page_before lat_guard lat_inv lat_held journal_keys lat_pos
proof
  fix s t :: local_attempts and e k k' st x n err b c cutoff limit i i'
  assume "lat_inv s"
  then have ok: "lat_ok (journal_keys s) s" by (simp add: lat_inv_def)
  show "lat_pos s i \<le> length (journal_keys s)" by (rule read_cursor_eq(1) [OF ok])
  show "lat_inv (snd (lat_delete k s))" by (rule lat_okI [OF lat_delete_effect(1) [OF ok]])
  show "lat_held (snd (lat_delete k s)) = (lat_held s)(k := None)" by (rule lat_delete_effect(2) [OF ok])
  show "lat_pos (snd (lat_delete k s)) = lat_pos s" by (rule lat_delete_effect(3) [OF ok])
  show "journal_keys (snd (lat_delete k s)) = journal_keys s" by (rule lat_ok_keys(2) [OF lat_delete_effect(1) [OF ok]])
  show "lat_inv (snd (lat_inventory_page_before cutoff limit i s))" by (rule lat_okI [OF lat_page_effect(1) [OF ok]])
  show "lat_held (snd (lat_inventory_page_before cutoff limit i s)) = lat_held s" by (rule lat_page_effect(2) [OF ok])
  show "journal_keys (snd (lat_inventory_page_before cutoff limit i s)) = journal_keys s"
    by (rule lat_ok_keys(2) [OF lat_page_effect(1) [OF ok]])
  show "lat_pos (snd (lat_inventory_page_before cutoff limit i s)) i' = lat_pos s i'" if "i' \<noteq> i"
    by (rule lat_page_effect(3) [OF ok that])
  show "k \<in> set (journal_keys s)" "\<exists>n. parse_attempt_key k = Inr n" if h: "lat_held s k \<noteq> None"
  proof -
    obtain y u where "lat_held s k = Some (y, u)" using h by auto
    from lat_held_Some [OF ok this] show "k \<in> set (journal_keys s)" "\<exists>n. parse_attempt_key k = Inr n"
      by (simp_all add: exact_key_parse)
  qed
  show "fst (lat_delete k s) = Inr ()" if h: "lat_held s k \<noteq> None"
  proof -
    obtain y u where "lat_held s k = Some (y, u)" using h by auto
    from lat_read_ops(4) [OF ok this] show ?thesis by simp
  qed
  show "lat_open_reader k s = (Inr b, s)" "\<exists>g. lat_stat k s = (Inr (object_for k b c g), s)"
    if "lat_held s k = Some (b, c)" using lat_read_ops(1,2) [OF ok that] by auto
  show "\<exists>err. lat_open_reader k s = (Inl err, s) \<and> missing err" "\<exists>err. lat_stat k s = (Inl err, s) \<and> missing err"
    if "lat_held s k = None" "parse_attempt_key k = Inr n"
  proof -
    have "exact_key k" using that(2) exact_key_parse by blast
    then show "\<exists>err. lat_open_reader k s = (Inl err, s) \<and> missing err" "\<exists>err. lat_stat k s = (Inl err, s) \<and> missing err"
      using lat_read_missing(1,2) [OF ok that(1)] by auto
  qed
  show "\<exists>p. fst (lat_inventory_page_before cutoff limit i s) = Inr p \<and>
      page_shows (lat_held s) cutoff (take (nat limit) (drop (lat_pos s i) (journal_keys s))) p \<and>
      cursor_moves (length (journal_keys s)) (nat limit) (lat_pos s i) (lat_pos (snd (lat_inventory_page_before cutoff limit i s)) i)"
    if h: "1 \<le> limit" "scan_id_ok i = Inr ()"
  proof -
    from lat_page_eq [OF ok h, of cutoff] obtain p m where
      p: "lat_inventory_page_before cutoff limit i s = (Inr p, with_cursor i (offset (journal_keys s) m) s)"
        "m \<le> length (journal_keys s)"
        "m = (if length (journal_keys s) < lat_pos s i + nat limit then 0 else lat_pos s i + nat limit)"
        "page_shows (lat_held s) cutoff (take (nat limit) (drop (lat_pos s i) (journal_keys s))) p" by blast
    have "lat_pos (snd (lat_inventory_page_before cutoff limit i s)) i = m" using with_cursor_ok(2) [OF ok p(2)] p(1) by simp
    moreover have "cursor_moves (length (journal_keys s)) (nat limit) (lat_pos s i) m"
      using p(3) h(1) by (auto simp: cursor_moves_def)
    ultimately show ?thesis using p(1,4) by simp
  qed
  assume g: "lat_guard e k s"
  note P = lat_put_effect [where st = st, OF ok g]
  show "lat_inv (snd (lat_put_stream e k st s))" by (rule lat_okI [OF P(1)])
  show "lat_pos (snd (lat_put_stream e k st s)) = lat_pos s" by (rule P(2))
  show "\<exists>ks. journal_keys (snd (lat_put_stream e k st s)) = journal_keys s @ ks" using lat_ok_keys(2) [OF P(1)] by blast
  show "lat_held (snd (lat_put_stream e k st s)) k' = lat_held s k'" if "k' \<noteq> k \<or> lat_held s k' \<noteq> None"
    by (rule P(3) [OF that])
  show "\<exists>d b c. consume (fst st) (snd st) = Inr d \<and> lat_held t k = Some (b, c) \<and> sha256_hex b = sha256_hex d \<and>
          length b = length d \<and> ao_storage_key x = k \<and> ao_sha256 x = sha256_hex d \<and> ao_size_bytes x = int (length d)"
    if p: "lat_put_stream e k st s = (Inr x, t)"
  proof -
    have k: "exact_key k" using lat_put_bad [of k e st s] p by auto
    show ?thesis
    proof (cases rule: lat_put_cases [where st = st, OF ok k g, case_names broken stored])
      case (stored d y u r)
      then show ?thesis using p lat_held_put_file [OF k, of y u "announced k s" k] by auto
    qed (use p in simp)
  qed
  show "consume (fst st) (snd st) = Inl err \<or> exc_class_of err = StateTransitionError"
    if "parse_attempt_key k = Inr n" and p: "lat_put_stream e k st s = (Inl err, t)"
  proof -
    have k: "exact_key k" using that(1) exact_key_parse by blast
    show ?thesis by (cases rule: lat_put_cases [where st = st, OF ok k g]) (use p in auto)
  qed
qed

end
