(* ===== verification/AttemptMem.thy ===== *)
theory AttemptMem
  imports AttemptScan
begin

text \<open>
  The in-memory S3 double meets the same contract, and the two stores agree: after the same calls they
  hold the same objects, and the journal scan of the local \<open>list_before\<close> finds what the double reads
  off its table.
\<close>

section \<open>The double\<close>

definition mat_held :: "mem_attempts \<Rightarrow> string \<Rightarrow> (string \<times> int) option" where
  "mat_held s k = map_option (\<lambda>(d, t, g). (d, t)) (map_of (ma_objects s) k)"

definition mat_pos :: "mem_attempts \<Rightarrow> string \<Rightarrow> nat" where
  "mat_pos s i = (case ma_cursors s i of None \<Rightarrow> 0 | Some n \<Rightarrow> n)"

definition mat_inv :: "mem_attempts \<Rightarrow> bool" where
  "mat_inv s \<longleftrightarrow>
     distinct (map fst (ma_objects s)) \<and>
     (\<forall>(k, d, t, g) \<in> set (ma_objects s). exact_key k \<and> k \<in> set (ma_inventory s) \<and> g \<noteq> []) \<and>
     (\<forall>i. mat_pos s i \<le> length (ma_inventory s))"

text \<open>The injected factory returns a non-empty text.\<close>

definition etag_ok :: "(string \<Rightarrow> string \<Rightarrow> pyval res) \<Rightarrow> string \<Rightarrow> bool" where
  "etag_ok etag k \<longleftrightarrow> (\<forall>d. \<exists>g. etag k d = Inr (PStr g) \<and> g \<noteq> [])"

definition mat_guard :: "(string \<Rightarrow> string \<Rightarrow> pyval res) \<Rightarrow> put_env \<Rightarrow> string \<Rightarrow> mem_attempts \<Rightarrow> bool" where
  "mat_guard etag e k s = etag_ok etag k"

lemma mat_invD:
  assumes "mat_inv s"
  shows "distinct (map fst (ma_objects s))"
    and "(k, d, t, g) \<in> set (ma_objects s) \<Longrightarrow> exact_key k \<and> k \<in> set (ma_inventory s) \<and> g \<noteq> []"
    and "mat_pos s i \<le> length (ma_inventory s)"
  using assms unfolding mat_inv_def by (blast, fastforce, blast)

lemma mat_held_Some:
  assumes "mat_inv s" and "mat_held s k = Some (d, t)"
  obtains g where "map_of (ma_objects s) k = Some (d, t, g)" "exact_key k" "k \<in> set (ma_inventory s)" "g \<noteq> []"
proof -
  obtain g where g: "map_of (ma_objects s) k = Some (d, t, g)" using assms(2) by (auto simp: mat_held_def)
  from mat_invD(2) [OF assms(1) map_of_SomeD [OF g]] that [OF g] show ?thesis by blast
qed

lemma mat_held_None: "mat_held s k = None \<longleftrightarrow> map_of (ma_objects s) k = None"
  by (simp add: mat_held_def)

lemma mem_object_eq: "exact_key k \<Longrightarrow> g \<noteq> [] \<Longrightarrow> mem_object k (d, t, g) = Inr (object_for k d t (Some g))"
  by (simp add: mem_object_def new_AttemptObject_for)

lemma mem_objects_eq:
  "\<forall>(k, d, t, g) \<in> set xs. exact_key k \<and> g \<noteq> [] \<Longrightarrow>
     mem_objects xs = Inr (map (\<lambda>(k, d, t, g). object_for k d t (Some g)) xs)"
  by (induction xs rule: mem_objects.induct) (auto simp: mem_object_eq)

lemma mat_read_ops:
  assumes "mat_inv s" and "mat_held s k = Some (d, t)"
  shows "mat_open_reader k s = (Inr d, s)" and "\<exists>g. mat_stat k s = (Inr (object_for k d t g), s)"
    and "fst (mat_delete k s) = Inr ()"
proof -
  obtain g n where "map_of (ma_objects s) k = Some (d, t, g)" "g \<noteq> []" "exact_key k" "parse_attempt_key k = Inr n"
    using mat_held_Some [OF assms] exact_key_parse by metis
  then show "mat_open_reader k s = (Inr d, s)" "\<exists>g. mat_stat k s = (Inr (object_for k d t g), s)"
    "fst (mat_delete k s) = Inr ()"
    by (auto simp: mat_open_reader_def mat_stat_def mat_delete_def mem_object_eq ok_def)
qed

lemma mat_read_missing:
  assumes "mat_held s k = None"
  shows "\<exists>err. mat_open_reader k s = (Inl err, s) \<and> (exact_key k \<longrightarrow> missing err)"
    and "\<exists>err. mat_stat k s = (Inl err, s) \<and> (exact_key k \<longrightarrow> missing err)"
  using assms
  by (cases "parse_attempt_key k";
      force simp: exact_key_parse mat_open_reader_def mat_stat_def mat_held_None fail_def raise_def missing_FileNotFound)+

lemma mat_delete_effect:
  assumes inv: "mat_inv s"
  shows "mat_inv (snd (mat_delete k s))" and "mat_held (snd (mat_delete k s)) = (mat_held s)(k := None)"
    and "ma_inventory (snd (mat_delete k s)) = ma_inventory s" and "mat_pos (snd (mat_delete k s)) = mat_pos s"
proof -
  let ?s = "s\<lparr>ma_objects := AList.delete k (ma_objects s)\<rparr>"
  have pos: "mat_pos ?s = mat_pos s" by (simp add: fun_eq_iff mat_pos_def)
  have d: "mat_inv ?s" "mat_held ?s = (mat_held s)(k := None)"
  proof -
    have "set (AList.delete k (ma_objects s)) \<subseteq> set (ma_objects s)" by (auto simp: AList.delete_eq)
    then show "mat_inv ?s" using inv pos unfolding mat_inv_def by (auto simp: distinct_delete) 
    show "mat_held ?s = (mat_held s)(k := None)" by (simp add: fun_eq_iff mat_held_def delete_conv')
  qed
  show "mat_inv (snd (mat_delete k s))" "mat_held (snd (mat_delete k s)) = (mat_held s)(k := None)"
    "ma_inventory (snd (mat_delete k s)) = ma_inventory s" "mat_pos (snd (mat_delete k s)) = mat_pos s"
  proof -
    have "(\<exists>n. parse_attempt_key k = Inr n) \<or> (\<exists>err. parse_attempt_key k = Inl err \<and> mat_held s k = None)"
    proof (cases "parse_attempt_key k")
      case (Inl err)
      then have "mat_held s k = None" using mat_held_Some [OF inv, of k]
        by (cases "mat_held s k") (auto simp: exact_key_parse)
      then show ?thesis using Inl by blast
    qed blast
    then show "mat_inv (snd (mat_delete k s))" "mat_held (snd (mat_delete k s)) = (mat_held s)(k := None)"
      "ma_inventory (snd (mat_delete k s)) = ma_inventory s" "mat_pos (snd (mat_delete k s)) = mat_pos s"
      using d pos inv by (auto simp: mat_delete_def)
  qed
qed

section \<open>Writing\<close>

definition noted :: "string \<Rightarrow> mem_attempts \<Rightarrow> mem_attempts" where
  "noted k s = s\<lparr>ma_inventory := ma_inventory s @ [k]\<rparr>"

lemma noted_frames [simp]:
  "ma_objects (noted k s) = ma_objects s" "ma_inventory (noted k s) = ma_inventory s @ [k]"
  "mat_held (noted k s) = mat_held s" "mat_pos (noted k s) = mat_pos s"
  by (simp_all add: fun_eq_iff noted_def mat_held_def mat_pos_def)

lemma noted_inv: "mat_inv s \<Longrightarrow> mat_inv (noted k s)"
  unfolding mat_inv_def by (auto intro: le_SucI)

lemma mat_put_cases:
  assumes inv: "mat_inv s" and g: "mat_guard etag e k s"
  obtains (bad) err where "\<not> exact_key k" "mat_put_stream etag e k st s = (Inl err, s)"
  | (broken) err where "exact_key k" "consume (fst st) (snd st) = Inl err" "mat_put_stream etag e k st s = (Inl err, s)"
  | (present) d x t r where "exact_key k" "consume (fst st) (snd st) = Inr d" "mat_held s k = Some (x, t)"
      "mat_put_stream etag e k st s = (r, noted k s)"
      "if x = d then \<exists>y. r = Inr (object_for k d t y) else \<exists>m. r = raise StateTransitionError m"
  | (stored) d y where "exact_key k" "consume (fst st) (snd st) = Inr d" "mat_held s k = None" "y \<noteq> []"
      "mat_put_stream etag e k st s = (Inr (object_for k d (pe_created e) (Some y)),
         (noted k s)\<lparr>ma_objects := ma_objects s @ [(k, d, pe_created e, y)]\<rparr>)"
proof (cases "parse_attempt_key k")
  case (Inl err)
  then show ?thesis using bad by (auto simp: exact_key_parse mat_put_stream_def)
next
  case (Inr n)
  then have k: "exact_key k" using exact_key_parse by blast
  show ?thesis
  proof (cases "consume (fst st) (snd st)")
    case (Inl err)
    then show ?thesis using broken [OF k] Inr by (simp add: mat_put_stream_def)
  next
    case (Inr d)
    show ?thesis
    proof (cases "mat_held s k")
      case None
      obtain y where y: "etag k d = Inr (PStr y)" "y \<noteq> []" using g by (auto simp: mat_guard_def etag_ok_def)
      then show ?thesis using stored [OF k Inr None y(2)] \<open>parse_attempt_key k = Inr n\<close> Inr None
        by (simp add: mat_put_stream_def noted_def mat_held_None Let_def mem_object_eq [OF k y(2)] ok_def)
    next
      case (Some h)
      obtain x t where h: "h = (x, t)" by (cases h)
      obtain y where y: "map_of (ma_objects s) k = Some (x, t, y)" "y \<noteq> []" using mat_held_Some [OF inv Some [unfolded h]] by blast
      show ?thesis using present [OF k Inr Some [unfolded h]] \<open>parse_attempt_key k = Inr n\<close> Inr y
        by (cases "x = d")
           (auto simp: mat_put_stream_def noted_def Let_def mem_object_eq [OF k y(2)] ok_def different_bytes_def fail_def)
    qed
  qed
qed

lemma mat_put_effect:
  fixes st assumes inv: "mat_inv s" and g: "mat_guard etag e k s"
  defines "s' \<equiv> snd (mat_put_stream etag e k st s)"
  shows "mat_inv s'" and "mat_pos s' = mat_pos s" and "\<exists>ks. ma_inventory s' = ma_inventory s @ ks"
    and "mat_held s' = mat_held s \<or> mat_held s k = None \<and> (\<exists>h. mat_held s' = (mat_held s)(k \<mapsto> h))"
proof -
  have "mat_inv s' \<and> mat_pos s' = mat_pos s \<and> (\<exists>ks. ma_inventory s' = ma_inventory s @ ks) \<and>
    (mat_held s' = mat_held s \<or> mat_held s k = None \<and> (\<exists>h. mat_held s' = (mat_held s)(k \<mapsto> h)))"
  proof (cases rule: mat_put_cases [where st = st, OF inv g, case_names bad broken present stored])
    case (stored d y)
    let ?s = "(noted k s)\<lparr>ma_objects := ma_objects s @ [(k, d, pe_created e, y)]\<rparr>"
    have n: "map_of (ma_objects s) k = None" using stored(3) by (simp add: mat_held_None)
    then have k: "k \<notin> fst ` set (ma_objects s)" by (simp add: map_of_eq_None_iff)
    have pos: "mat_pos ?s = mat_pos s" by (simp add: fun_eq_iff mat_pos_def noted_def)
    have "mat_inv ?s" using inv k stored(1,4) pos unfolding mat_inv_def by (auto intro: le_SucI)
    moreover have "mat_held ?s = (mat_held s)(k \<mapsto> (d, pe_created e))"
      using n by (auto simp: fun_eq_iff mat_held_def map_add_def split: option.splits)
    ultimately show ?thesis using stored(3,5) pos by (simp add: s'_def) blast
  qed (use inv noted_inv in \<open>auto simp: s'_def\<close>)
  then show "mat_inv s'" "mat_pos s' = mat_pos s" "\<exists>ks. ma_inventory s' = ma_inventory s @ ks"
    "mat_held s' = mat_held s \<or> mat_held s k = None \<and> (\<exists>h. mat_held s' = (mat_held s)(k \<mapsto> h))" by blast+
qed

section \<open>Pages\<close>

lemma first_keys_facts: "distinct (first_keys ks)" "set (first_keys ks) = set ks" "length (first_keys ks) \<le> length ks"
  by (simp_all add: first_keys_def) (metis length_remdups_leq length_rev)

definition old_entry :: "mem_attempts \<Rightarrow> int \<Rightarrow> string \<Rightarrow> (string \<times> stored_object) option" where
  "old_entry s cutoff k =
     (case map_of (ma_objects s) k of None \<Rightarrow> None | Some (d, t, g) \<Rightarrow> if t < cutoff then Some (k, d, t, g) else None)"

lemma old_entries:
  fixes cutoff assumes inv: "mat_inv s" and ks: "distinct ks"
  defines "old \<equiv> List.map_filter (old_entry s cutoff) ks"
  shows "\<forall>(k, d, t, g) \<in> set old. exact_key k \<and> g \<noteq> []"
    and "distinct (map fst old)" and "length old \<le> length ks"
    and "set old = {(k, v). k \<in> set ks \<and> map_of (ma_objects s) k = Some v \<and> fst (snd v) < cutoff}"
proof -
  have e: "old_entry s cutoff k = Some y \<longleftrightarrow> (\<exists>v. y = (k, v) \<and> map_of (ma_objects s) k = Some v \<and> fst (snd v) < cutoff)" for k y
    by (auto simp: old_entry_def split: option.splits)
  show s: "set old = {(k, v). k \<in> set ks \<and> map_of (ma_objects s) k = Some v \<and> fst (snd v) < cutoff}"
  proof -
    have "y \<in> set old \<longleftrightarrow> (\<exists>k \<in> set ks. old_entry s cutoff k = Some y)" for y
      unfolding old_def by (induction ks) (auto simp: map_filter_simps split: option.splits)
    then show ?thesis by (auto simp: e)
  qed
  show "\<forall>(k, d, t, g) \<in> set old. exact_key k \<and> g \<noteq> []"
    unfolding s using mat_invD(2) [OF inv, OF map_of_SomeD] by fastforce
  have "map fst (List.map_filter (old_entry s cutoff) xs) = filter (\<lambda>k. old_entry s cutoff k \<noteq> None) xs" for xs
    by (induction xs) (auto simp: map_filter_simps old_entry_def split: option.splits)
  then have "map fst old = filter (\<lambda>k. old_entry s cutoff k \<noteq> None) ks" by (simp add: old_def)
  then show "distinct (map fst old)" using ks by simp
  show "length old \<le> length ks" unfolding old_def map_filter_def by simp
qed

lemma mat_page_eq:
  assumes inv: "mat_inv s" and l: "1 \<le> limit" and i: "scan_id_ok i = Inr ()"
  defines "keys \<equiv> take (nat limit) (drop (mat_pos s i) (ma_inventory s))"
  shows "\<exists>p. mat_inventory_page_before cutoff limit i s =
      (Inr p, s\<lparr>ma_cursors := (ma_cursors s)(i \<mapsto>
        if length (ma_inventory s) \<le> mat_pos s i + length keys then 0 else mat_pos s i + length keys)\<rparr>) \<and>
    page_shows (mat_held s) cutoff keys p"
proof -
  define old where "old = List.map_filter (old_entry s cutoff) (first_keys keys)"
  note O = old_entries [OF inv first_keys_facts(1), of cutoff keys, folded old_def]
  define objects where "objects = map (\<lambda>(k, d, t, g). object_for k d t (Some g)) old"
  have ob: "mem_objects old = Inr objects" unfolding objects_def by (rule mem_objects_eq [OF O(1)])
  have key: "map ao_storage_key objects = map fst old" by (auto simp: objects_def object_for_def)
  define p where "p = \<lparr>ip_objects = objects, ip_scanned = int (length keys),
     ip_next = int (if length (ma_inventory s) \<le> mat_pos s i + length keys then 0 else mat_pos s i + length keys),
     ip_wrapped = (mat_pos s i + length keys \<ge> length (ma_inventory s))\<rparr>"
  have "length objects \<le> length keys" using O(3) first_keys_facts(3) [of keys] by (simp add: objects_def)
  then have page: "new_InventoryPage p = Inr p" by (simp add: new_InventoryPage_def checks_Cons p_def)
  have out: "mat_inventory_page_before cutoff limit i s =
      (Inr p, s\<lparr>ma_cursors := (ma_cursors s)(i \<mapsto>
        if length (ma_inventory s) \<le> mat_pos s i + length keys then 0 else mat_pos s i + length keys)\<rparr>)"
    using l i ob page unfolding old_def old_entry_def p_def keys_def mat_pos_def
    by (simp add: mat_inventory_page_before_def attempt_limit_def Let_def ok_def)
  have "ao_storage_key ` set objects = fst ` set old" using arg_cong [OF key, of set] by simp
  also have "\<dots> = {k \<in> set keys. \<exists>d t. mat_held s k = Some (d, t) \<and> t < cutoff}"
    unfolding O(4) first_keys_facts(2) by (force simp: mat_held_def image_iff)
  finally have img: "ao_storage_key ` set objects = {k \<in> set keys. \<exists>d t. mat_held s k = Some (d, t) \<and> t < cutoff}" .
  have ex: "\<exists>g. x = object_for (ao_storage_key x) d t g"
    if x: "x \<in> set objects" "mat_held s (ao_storage_key x) = Some (d, t)" for x d t
  proof -
    obtain k d' t' g where y: "(k, d', t', g) \<in> set old" "x = object_for k d' t' (Some g)"
      using x(1) by (auto simp: objects_def)
    then have "map_of (ma_objects s) k = Some (d', t', g)" using O(4) by auto
    then show ?thesis using x(2) y(2) by (auto simp: object_for_def mat_held_def)
  qed
  have "page_shows (mat_held s) cutoff keys p"
    unfolding page_shows_def using img ex O(2) key by (simp add: p_def)
  then show ?thesis using out by blast
qed

lemma mat_page_effect:
  fixes cutoff limit i assumes inv: "mat_inv s"
  defines "s' \<equiv> snd (mat_inventory_page_before cutoff limit i s)"
  shows "mat_inv s'" and "mat_held s' = mat_held s" and "ma_inventory s' = ma_inventory s"
    and "i' \<noteq> i \<Longrightarrow> mat_pos s' i' = mat_pos s i'"
proof -
  have "s' = s \<or> (\<exists>n \<le> length (ma_inventory s). s' = s\<lparr>ma_cursors := (ma_cursors s)(i \<mapsto> n)\<rparr>)"
  proof (cases "1 \<le> limit \<and> scan_id_ok i = Inr ()")
    case True
    let ?stop = "mat_pos s i + length (take (nat limit) (drop (mat_pos s i) (ma_inventory s)))"
    let ?n = "if length (ma_inventory s) \<le> ?stop then 0 else ?stop"
    have "s' = s\<lparr>ma_cursors := (ma_cursors s)(i \<mapsto> ?n)\<rparr>"
      using mat_page_eq [OF inv conjunct1 [OF True] conjunct2 [OF True], of cutoff] by (auto simp: s'_def)
    moreover have "?n \<le> length (ma_inventory s)" by (auto simp: min_def)
    ultimately show ?thesis by blast
  next
    case False
    show ?thesis
    proof (cases "1 \<le> limit")
      case True
      then obtain err where "scan_id_ok i = Inl err" using False by (cases "scan_id_ok i") auto
      then show ?thesis using True by (simp add: s'_def mat_inventory_page_before_def attempt_limit_def)
    qed (simp add: s'_def mat_inventory_page_before_def attempt_limit_def)
  qed
  then obtain c where s': "s' = s\<lparr>ma_cursors := c\<rparr>" "\<forall>j. c j = ma_cursors s j \<or> j = i \<and> (\<exists>n \<le> length (ma_inventory s). c j = Some n)"
  proof (elim disjE exE conjE)
    assume "s' = s"
    then show thesis by (intro that [of "ma_cursors s"]) simp_all
  qed (use that in auto)
  have pos: "mat_pos s' j = mat_pos s j \<or> j = i \<and> mat_pos s' j \<le> length (ma_inventory s)" for j
    using s'(2) by (auto simp: mat_pos_def s'(1) dest!: spec [where x = j])
  have "mat_pos s' j \<le> length (ma_inventory s)" for j using pos [of j] mat_invD(3) [OF inv, of j] by auto
  then show "mat_inv s'" using inv unfolding mat_inv_def by (simp add: s'(1))
  show "mat_held s' = mat_held s" "ma_inventory s' = ma_inventory s" by (simp_all add: s'(1) mat_held_def fun_eq_iff)
  show "mat_pos s' i' = mat_pos s i'" if "i' \<noteq> i" using pos [of i'] that by blast
qed

interpretation mem_attempts: attempt_store "mat_put_stream etag" mat_open_reader mat_stat mat_delete
  mat_inventory_page_before "mat_guard etag" mat_inv mat_held ma_inventory mat_pos for etag
proof
  fix s t :: mem_attempts and e k k' st x n err b c cutoff limit i i'
  assume inv: "mat_inv s"
  note D = mat_delete_effect [OF inv, of k] and P = mat_page_effect [OF inv, where cutoff = cutoff and limit = limit and i = i]
  show "mat_pos s i \<le> length (ma_inventory s)" by (rule mat_invD(3) [OF inv])
  show "mat_inv (snd (mat_delete k s))" "mat_held (snd (mat_delete k s)) = (mat_held s)(k := None)"
    "ma_inventory (snd (mat_delete k s)) = ma_inventory s" "mat_pos (snd (mat_delete k s)) = mat_pos s" by (rule D)+
  show "mat_inv (snd (mat_inventory_page_before cutoff limit i s))"
    "mat_held (snd (mat_inventory_page_before cutoff limit i s)) = mat_held s"
    "ma_inventory (snd (mat_inventory_page_before cutoff limit i s)) = ma_inventory s" by (rule P)+
  show "mat_pos (snd (mat_inventory_page_before cutoff limit i s)) i' = mat_pos s i'" if "i' \<noteq> i" by (rule P(4) [OF that])
  show "k \<in> set (ma_inventory s)" "\<exists>n. parse_attempt_key k = Inr n" "fst (mat_delete k s) = Inr ()"
    if h: "mat_held s k \<noteq> None"
  proof -
    obtain y u where y: "mat_held s k = Some (y, u)" using h by auto
    from mat_held_Some [OF inv this] show "k \<in> set (ma_inventory s)" "\<exists>n. parse_attempt_key k = Inr n"
      using exact_key_parse by blast+
    show "fst (mat_delete k s) = Inr ()" by (rule mat_read_ops(3) [OF inv y])
  qed
  show "mat_open_reader k s = (Inr b, s)" "\<exists>g. mat_stat k s = (Inr (object_for k b c g), s)"
    if "mat_held s k = Some (b, c)" by (rule mat_read_ops [OF inv that])+
  show "\<exists>err. mat_open_reader k s = (Inl err, s) \<and> missing err" "\<exists>err. mat_stat k s = (Inl err, s) \<and> missing err"
    if "mat_held s k = None" "parse_attempt_key k = Inr n"
  proof -
    have "exact_key k" using that(2) exact_key_parse by blast
    then show "\<exists>err. mat_open_reader k s = (Inl err, s) \<and> missing err" "\<exists>err. mat_stat k s = (Inl err, s) \<and> missing err"
      using mat_read_missing [OF that(1)] by auto
  qed
  show "\<exists>p. fst (mat_inventory_page_before cutoff limit i s) = Inr p \<and>
      page_shows (mat_held s) cutoff (take (nat limit) (drop (mat_pos s i) (ma_inventory s))) p \<and>
      cursor_moves (length (ma_inventory s)) (nat limit) (mat_pos s i) (mat_pos (snd (mat_inventory_page_before cutoff limit i s)) i)"
    if h: "1 \<le> limit" "scan_id_ok i = Inr ()"
    using mat_page_eq [OF inv h, of cutoff] mat_invD(3) [OF inv, of i]
    by (auto simp: cursor_moves_def mat_pos_def)
next
  fix etag and s t :: mem_attempts and e k k' st x n err
  assume inv: "mat_inv s" and g: "mat_guard etag e k s"
  note P = mat_put_effect [where st = st, OF inv g]
  show "mat_inv (snd (mat_put_stream etag e k st s))" "mat_pos (snd (mat_put_stream etag e k st s)) = mat_pos s"
    "\<exists>ks. ma_inventory (snd (mat_put_stream etag e k st s)) = ma_inventory s @ ks" by (rule P)+
  show "mat_held (snd (mat_put_stream etag e k st s)) k' = mat_held s k'" if "k' \<noteq> k \<or> mat_held s k' \<noteq> None"
    using P(4) that by auto
  note cases = mat_put_cases [where st = st, OF inv g, case_names bad broken present stored]
  show "\<exists>d b c. consume (fst st) (snd st) = Inr d \<and> mat_held t k = Some (b, c) \<and> sha256_hex b = sha256_hex d \<and>
          length b = length d \<and> ao_storage_key x = k \<and> ao_sha256 x = sha256_hex d \<and> ao_size_bytes x = int (length d)"
    if p: "mat_put_stream etag e k st s = (Inr x, t)"
  proof (cases rule: cases)
    case (present d y u r)
    then show ?thesis using p by (auto simp: object_for_def raise_def split: if_splits)
  next
    case (stored d y)
    then show ?thesis using p by (auto simp: object_for_def mat_held_def mat_held_None map_add_def)
  qed (use p in auto)
  show "consume (fst st) (snd st) = Inl err \<or> exc_class_of err = StateTransitionError"
    if "parse_attempt_key k = Inr n" and p: "mat_put_stream etag e k st s = (Inl err, t)"
  proof -
    have k: "exact_key k" using that(1) exact_key_parse by blast
    show ?thesis by (cases rule: cases) (use p k in \<open>auto simp: raise_def split: if_splits\<close>)
  qed
qed

end
