(* ===== verification/AttemptList.thy ===== *)
theory AttemptList
  imports AttemptMem
begin

text \<open>
  \<open>list_before\<close> of both stores: the paged scan of the journal and the walk over the table give the
  objects older than the cutoff, sorted by key. The two stores as machines, and the relation between
  them: the same objects under the same keys.
\<close>

section \<open>The paged scan\<close>

definition old_view :: "(string \<Rightarrow> (string \<times> int) option) \<Rightarrow> int \<Rightarrow> string \<Rightarrow> attempt_object option" where
  "old_view h cutoff k =
     (case h k of None \<Rightarrow> None | Some (d, t) \<Rightarrow> if t < cutoff then Some (object_for k d t None) else None)"

lemma old_view_key: "old_view h c k = Some x \<Longrightarrow> ao_storage_key x = k"
  by (auto simp: old_view_def object_for_def split: option.splits if_splits)

definition found_in :: "local_attempts \<Rightarrow> int \<Rightarrow> string set \<Rightarrow> (string \<times> attempt_object) list \<Rightarrow> bool" where
  "found_in s cutoff K found \<longleftrightarrow>
     distinct (map fst found) \<and> (\<forall>k. map_of found k = (if k \<in> K then old_view (lat_held s) cutoff k else None))"

lemma fold_update:
  assumes "distinct (map ao_storage_key xs)"
  shows "map_of (fold (\<lambda>x. AList.update (ao_storage_key x) x) xs found) k =
     (case find (\<lambda>x. ao_storage_key x = k) xs of Some x \<Rightarrow> Some x | None \<Rightarrow> map_of found k)"
    and "distinct (map fst found) \<Longrightarrow> distinct (map fst (fold (\<lambda>x. AList.update (ao_storage_key x) x) xs found))"
  using assms
proof (induction xs arbitrary: found)
  case (Cons x xs)
  { case 1
    have "find (\<lambda>y. ao_storage_key y = ao_storage_key x) xs = None" using 1 by (simp add: find_None_iff) (metis imageI)
    then show ?case using 1 Cons.IH(1) by (auto simp: update_conv' split: option.split) }
  { case 2
    then show ?case using Cons.IH(2) by (simp add: distinct_update) }
qed simp_all

lemma shows_old_view:
  assumes "shows_old s cutoff K xs"
  shows "find (\<lambda>x. ao_storage_key x = k) xs = (if k \<in> K then old_view (lat_held s) cutoff k else None)"
proof (cases "find (\<lambda>x. ao_storage_key x = k) xs")
  case None
  then have "k \<notin> ao_storage_key ` set xs" by (auto simp: find_None_iff)
  then show ?thesis using None assms by (auto simp: shows_old_def old_view_def split: option.split)
next
  case (Some x)
  then have x: "x \<in> set xs" "ao_storage_key x = k" by (auto simp: find_Some_iff)
  then have "k \<in> ao_storage_key ` set xs" by blast
  then obtain d t where "k \<in> K" "lat_held s k = Some (d, t)" "t < cutoff" using assms by (auto simp: shows_old_def)
  moreover have "x = object_for k d t None" using assms x calculation by (auto simp: shows_old_def)
  ultimately show ?thesis using Some by (simp add: old_view_def)
qed

lemma found_in_page:
  assumes "found_in s cutoff K found" and "shows_old s cutoff K' xs"
  shows "found_in s cutoff (K \<union> K') (fold (\<lambda>x. AList.update (ao_storage_key x) x) xs found)"
proof -
  have d: "distinct (map ao_storage_key xs)" using assms(2) by (simp add: shows_old_def)
  have "map_of (fold (\<lambda>x. AList.update (ao_storage_key x) x) xs found) k =
      (if k \<in> K \<union> K' then old_view (lat_held s) cutoff k else None)" for k
    unfolding fold_update(1) [OF d] shows_old_view [OF assms(2)]
    using assms(1) by (auto simp: found_in_def split: option.split)
  then show ?thesis using fold_update(2) [OF d] assms(1) by (simp add: found_in_def)
qed

lemma list_pages_eq:
  assumes ok: "lat_ok ks s"
  shows "m \<le> length ks \<Longrightarrow> found_in s cutoff (set (take m ks)) found \<Longrightarrow>
    \<exists>found'. list_pages s cutoff (offset ks m) found = Inr found' \<and> found_in s cutoff (set ks) found'"
proof (induction "length ks - m" arbitrary: m found rule: less_induct)
  case less
  let ?K = "set (take 100 (drop m ks))"
  from inventory_page_from_eq [OF ok less.prems(1), of 100 cutoff] obtain p where
    p: "inventory_page_from s cutoff 100 (offset ks m) = Inr p" "ip_wrapped p = (length ks < m + 100)"
      "ip_next p = int (if length ks < m + 100 then 0 else offset ks (m + 100))" "shows_old s cutoff ?K (ip_objects p)"
    by auto
  let ?found = "fold (\<lambda>x. AList.update (ao_storage_key x) x) (ip_objects p) found"
  have K: "set (take (m + 100) ks) = set (take m ks) \<union> ?K" by (simp add: take_add)
  have f: "found_in s cutoff (set (take (m + 100) ks)) ?found" unfolding K by (rule found_in_page [OF less.prems(2) p(4)])
  show ?case
  proof (cases "length ks < m + 100")
    case True
    then have "list_pages s cutoff (offset ks m) found = Inr ?found" using p by (simp add: list_pages.simps)
    then show ?thesis using f True by simp
  next
    case False
    then have "list_pages s cutoff (offset ks m) found = list_pages s cutoff (offset ks (m + 100)) ?found"
      using p by (subst list_pages.simps) simp
    then show ?thesis using less.hyps [OF _ _ f] False by simp
  qed
qed

lemma sort_by_key:
  assumes "distinct ks" and "set ks = K" shows "sort ks = sorted_list_of_set K"
  using assms sorted_list_of_set_sort_remdups by (metis distinct_remdups_id)

lemma lat_list_eq:
  assumes ok: "lat_ok ks s"
  shows "lat_list_before cutoff s =
    (Inr (map (the \<circ> old_view (lat_held s) cutoff) (sorted_list_of_set {k. old_view (lat_held s) cutoff k \<noteq> None})), s)"
proof -
  have "found_in s cutoff (set (take 0 ks)) []" by (simp add: found_in_def)
  from list_pages_eq [OF ok _ this] obtain found where
    f: "list_pages s cutoff 0 [] = Inr found" "found_in s cutoff (set ks) found" by auto
  have "k \<in> set ks" if "old_view (lat_held s) cutoff k = Some x" for k x
    using that lat_held_Some(3) [OF ok, of k] by (auto simp: old_view_def split: option.splits)
  then have v: "map_of found k = old_view (lat_held s) cutoff k" for k
    using f(2) by (cases "old_view (lat_held s) cutoff k") (auto simp: found_in_def)
  have "fst ` set found = {k. old_view (lat_held s) cutoff k \<noteq> None}"
    unfolding v [symmetric] by (auto simp: map_of_eq_None_iff)
  then have "sort (map fst found) = sorted_list_of_set {k. old_view (lat_held s) cutoff k \<noteq> None}"
    using f(2) by (intro sort_by_key) (simp_all add: found_in_def)
  moreover have "map_of found = old_view (lat_held s) cutoff" using v by blast
  ultimately show ?thesis using f(1) by (simp add: lat_list_before_def ok_def)
qed

section \<open>The table\<close>

definition without_etag :: "attempt_object \<Rightarrow> attempt_object" where
  "without_etag x = x\<lparr>ao_transport_etag := None\<rparr>"

lemma mat_list_eq:
  assumes inv: "mat_inv s"
  shows "\<exists>xs. mat_list_before cutoff s = (Inr xs, s) \<and>
    map without_etag xs = map (the \<circ> old_view (mat_held s) cutoff) (sorted_list_of_set {k. old_view (mat_held s) cutoff k \<noteq> None})"
proof -
  define old where "old = filter (\<lambda>(k, d, t, g). t < cutoff) (ma_objects s)"
  define objects where "objects = map (\<lambda>(k, d, t, g). object_for k d t (Some g)) old"
  have "\<forall>(k, d, t, g) \<in> set old. exact_key k \<and> g \<noteq> []" using mat_invD(2) [OF inv] by (fastforce simp: old_def)
  then have ob: "mem_objects old = Inr objects" unfolding objects_def by (rule mem_objects_eq)
  have key: "map ao_storage_key objects = map fst old" by (auto simp: objects_def object_for_def)
  have d: "distinct (map fst old)" using mat_invD(1) [OF inv] by (simp add: old_def distinct_map_filter)
  have held: "mat_held s k = Some (x, t) \<longleftrightarrow> (\<exists>g. (k, x, t, g) \<in> set (ma_objects s))" for k x t
    using mat_invD(1) [OF inv] by (auto simp: mat_held_def dest: map_of_SomeD)
  have view: "old_view (mat_held s) cutoff k = Some y \<longleftrightarrow> (\<exists>x \<in> set objects. ao_storage_key x = k \<and> without_etag x = y)" for k y
  proof -
    have "old_view (mat_held s) cutoff k = Some y \<longleftrightarrow>
        (\<exists>x t. mat_held s k = Some (x, t) \<and> t < cutoff \<and> y = object_for k x t None)"
      by (auto simp: old_view_def split: option.splits)
    also have "\<dots> \<longleftrightarrow> (\<exists>x t g. (k, x, t, g) \<in> set old \<and> y = object_for k x t None)" unfolding held by (auto simp: old_def)
    also have "\<dots> \<longleftrightarrow> (\<exists>x \<in> set objects. ao_storage_key x = k \<and> without_etag x = y)"
    proof
      assume "\<exists>x t g. (k, x, t, g) \<in> set old \<and> y = object_for k x t None"
      then obtain x t g where o: "(k, x, t, g) \<in> set old" "y = object_for k x t None" by blast
      then have "object_for k x t (Some g) \<in> set objects" by (force simp: objects_def)
      moreover have "ao_storage_key (object_for k x t (Some g)) = k" "without_etag (object_for k x t (Some g)) = y"
        using o(2) by (simp_all add: object_for_def without_etag_def)
      ultimately show "\<exists>x \<in> set objects. ao_storage_key x = k \<and> without_etag x = y" by blast
    next
      assume "\<exists>x \<in> set objects. ao_storage_key x = k \<and> without_etag x = y"
      then obtain x where "x \<in> set objects" "ao_storage_key x = k" "without_etag x = y" by blast
      then obtain d t g where "(k, d, t, g) \<in> set old" "y = object_for k d t None"
        by (auto simp: objects_def object_for_def without_etag_def)
      then show "\<exists>x t g. (k, x, t, g) \<in> set old \<and> y = object_for k x t None" by blast
    qed
    finally show ?thesis .
  qed
  let ?xs = "sort_key ao_storage_key objects"
  have dk: "distinct (map ao_storage_key objects)" using d key by simp
  have "map ao_storage_key ?xs = sort (map ao_storage_key objects)"
    by (rule sorted_distinct_set_unique) (use dk in \<open>simp_all add: distinct_map\<close>)
  also have "\<dots> = sorted_list_of_set {k. old_view (mat_held s) cutoff k \<noteq> None}"
  proof (rule sort_by_key [OF dk])
    have "old_view (mat_held s) cutoff k \<noteq> None \<longleftrightarrow> k \<in> ao_storage_key ` set objects" for k
      unfolding not_None_eq view by blast
    then show "set (map ao_storage_key objects) = {k. old_view (mat_held s) cutoff k \<noteq> None}" by auto
  qed
  finally have keys: "map ao_storage_key ?xs = sorted_list_of_set {k. old_view (mat_held s) cutoff k \<noteq> None}" .
  have "without_etag x = the (old_view (mat_held s) cutoff (ao_storage_key x))" if "x \<in> set objects" for x
    using view [of "ao_storage_key x" "without_etag x"] that by auto
  then have "map without_etag ?xs = map (the \<circ> old_view (mat_held s) cutoff) (map ao_storage_key ?xs)" by simp
  moreover have "mat_list_before cutoff s = (Inr ?xs, s)"
    using ob by (simp add: mat_list_before_def old_def ok_def)
  ultimately show ?thesis unfolding keys by blast
qed

section \<open>Both stores as machines\<close>

datatype attempt_op =
    AT_Put put_env string chunk_stream
  | AT_Delete string
  | AT_Page int int string

fun lat_step :: "attempt_op \<Rightarrow> local_attempts \<Rightarrow> local_attempts" where
  "lat_step (AT_Put e k st) s = snd (lat_put_stream e k st s)"
| "lat_step (AT_Delete k) s = snd (lat_delete k s)"
| "lat_step (AT_Page cutoff limit i) s = snd (lat_inventory_page_before cutoff limit i s)"

fun lat_step_guard :: "attempt_op \<Rightarrow> local_attempts \<Rightarrow> bool" where
  "lat_step_guard (AT_Put e k st) s = lat_guard e k s"
| "lat_step_guard x s = True"

fun mat_step :: "(string \<Rightarrow> string \<Rightarrow> pyval res) \<Rightarrow> attempt_op \<Rightarrow> mem_attempts \<Rightarrow> mem_attempts" where
  "mat_step etag (AT_Put e k st) s = snd (mat_put_stream etag e k st s)"
| "mat_step etag (AT_Delete k) s = snd (mat_delete k s)"
| "mat_step etag (AT_Page cutoff limit i) s = snd (mat_inventory_page_before cutoff limit i s)"

definition lat_run :: "attempt_op list \<Rightarrow> local_attempts \<Rightarrow> local_attempts option" where
  "lat_run = guarded_run lat_step lat_step_guard"

definition mat_run :: "(string \<Rightarrow> string \<Rightarrow> pyval res) \<Rightarrow> attempt_op list \<Rightarrow> mem_attempts \<Rightarrow> mem_attempts" where
  "mat_run etag ops s = fold (mat_step etag) ops s"

interpretation local_machine: guarded_machine lat_step lat_step_guard lat_inv
proof
  fix x s assume s: "lat_inv s" "lat_step_guard x s"
  then show "lat_inv (lat_step x s)"
    by (cases x) (simp_all add: local_attempts.put_inv local_attempts.delete_inv local_attempts.page_inv)
qed

lemma lat_inv_empty: "lat_inv empty_attempts"
  by (rule lat_okI [where ks = "[]"]) (simp add: lat_ok_def empty_attempts_def)

lemma mat_inv_empty: "mat_inv empty_mem_attempts"
  by (simp add: mat_inv_def empty_mem_attempts_def mat_pos_def)

lemma lat_run_inv: "lat_run ops s = Some t \<Longrightarrow> lat_inv s \<Longrightarrow> lat_inv t"
  unfolding lat_run_def by (rule local_machine.run_inv)

text \<open>No other process interferes, and a file's modification time is the reading of the clock.\<close>

fun undisturbed :: "attempt_op \<Rightarrow> bool" where
  "undisturbed (AT_Put e k st) = (pe_rival e = None \<and> pe_mtime e = pe_created e)"
| "undisturbed x = True"

lemma lat_held_put:
  assumes inv: "lat_inv s" and g: "lat_guard e k s" and u: "undisturbed (AT_Put e k st)"
  shows "lat_held (snd (lat_put_stream e k st s)) =
    (case consume (fst st) (snd st) of Inl _ \<Rightarrow> lat_held s
     | Inr d \<Rightarrow> if exact_key k \<and> lat_held s k = None then (lat_held s)(k \<mapsto> (d, pe_created e)) else lat_held s)"
proof -
  have ok: "lat_ok (journal_keys s) s" using inv by (simp add: lat_inv_def)
  show ?thesis
  proof (cases "exact_key k")
    case False
    then show ?thesis using lat_put_bad [OF False, of e st s] by (auto split: sum.split)
  next
    case True
    show ?thesis
    proof (cases "consume (fst st) (snd st)")
      case (Inl err)
      then show ?thesis by (simp add: lat_put_eq [OF ok True g] announced_held)
    next
      case (Inr d)
      show ?thesis
      proof (cases "file_at s k")
        case None
        then have "lat_held s k = None" "entry_at_link e k s = None" using u by (simp_all add: lat_held_eq entry_at_link_def)
        then show ?thesis using Inr True u
          by (simp add: lat_put_eq [OF ok True g] fun_eq_iff lat_held_put_file [OF True] announced_held)
      next
        case (Some f)
        then obtain x t where f: "f = (RegularFile x, t)" using file_at_plain [OF ok] by blast
        then have "lat_held s k = Some (x, t)" using Some True by (simp add: lat_held_eq)
        moreover have "snd (lat_put_stream e k st s) = put_file k f (announced k s)"
          using Inr Some f by (simp add: lat_put_eq [OF ok True g] entry_at_link_def Let_def stat_open_put_file [OF True]
              different_bytes_def fail_def ok_def)
        ultimately show ?thesis using Inr f by (auto simp: fun_eq_iff lat_held_put_file [OF True] announced_held)
      qed
    qed
  qed
qed

lemma mat_held_put:
  assumes inv: "mat_inv s" and g: "mat_guard etag e k s"
  shows "mat_held (snd (mat_put_stream etag e k st s)) =
    (case consume (fst st) (snd st) of Inl _ \<Rightarrow> mat_held s
     | Inr d \<Rightarrow> if exact_key k \<and> mat_held s k = None then (mat_held s)(k \<mapsto> (d, pe_created e)) else mat_held s)"
proof (cases rule: mat_put_cases [where st = st, OF inv g, case_names bad broken present stored])
  case (stored d y)
  then show ?thesis by (auto simp: fun_eq_iff mat_held_def map_add_def split: option.splits)
qed (auto split: sum.split)

lemma runs_agree:
  assumes "lat_run ops L = Some L'" and "lat_inv L" and "mat_inv M" and "lat_held L = mat_held M"
    and "list_all undisturbed ops" and "\<forall>k. etag_ok etag k"
  shows "lat_held L' = mat_held (mat_run etag ops M) \<and> mat_inv (mat_run etag ops M)"
  using assms(1-5)
proof (induction ops arbitrary: L M)
  case Nil
  then show ?case by (simp add: lat_run_def mat_run_def)
next
  case (Cons x ops)
  have g: "lat_step_guard x L" and r: "lat_run ops (lat_step x L) = Some L'"
    using Cons.prems(1) by (auto simp: lat_run_def split: if_splits)
  have i: "lat_inv (lat_step x L)" by (rule local_machine.step_inv [OF Cons.prems(2) g])
  have mg: "mat_guard etag e k M" for e k using assms(6) by (simp add: mat_guard_def)
  have "lat_held (lat_step x L) = mat_held (mat_step etag x M) \<and> mat_inv (mat_step etag x M)"
  proof (cases x)
    case (AT_Put e k st)
    then show ?thesis
      using lat_held_put [OF Cons.prems(2), of e k st] mat_held_put [OF Cons.prems(3) mg, of e k st]
        mem_attempts.put_inv [OF Cons.prems(3) mg] g Cons.prems(4,5) by (auto split: sum.split)
  next
    case (AT_Delete k)
    then show ?thesis using Cons.prems local_attempts.delete_held mem_attempts.delete_held mem_attempts.delete_inv by simp
  next
    case (AT_Page c l i)
    then show ?thesis using Cons.prems local_attempts.page_held mem_attempts.page_held mem_attempts.page_inv by simp
  qed
  then show ?case using Cons.IH [OF r i] Cons.prems(5) by (simp add: mat_run_def)
qed

end
