(* ===== verification/PublicationService.thy ===== *)
theory PublicationService
  imports ArtifactValidation AttemptList PublicationMachine StorageProps
begin

text \<open>
  \<open>ArtifactPublicationService\<close> and \<open>ArtifactOrphanSweeper\<close> of \<open>durable/artifact_publication.py\<close>: the
  calls they make to the ledger, to an attempt store and to a canonical store, in their order. The
  world is the state of the three and a counter of the calls to the ledger and the hooks. Before its
  n-th call other processes may have committed any operations on the ledger (\<open>sv_others n\<close>). The hooks
  are arbitrary: they return or raise. An iterable of chunks is consumed before the store that reads it
  acts; the two touch different parts of the world.
\<close>

section \<open>Collaborators\<close>

record 'a attempt_service =
  as_put :: "put_env \<Rightarrow> string \<Rightarrow> chunk_stream \<Rightarrow> ('a, attempt_object) sop"
  as_open :: "string \<Rightarrow> ('a, string) sop"
  as_stat :: "string \<Rightarrow> ('a, attempt_object) sop"
  as_delete :: "string \<Rightarrow> ('a, unit) sop"
  as_page :: "int \<Rightarrow> int \<Rightarrow> string \<Rightarrow> ('a, inventory_page) sop"

record 'c canonical_service =
  cn_put :: "dir_entry option \<Rightarrow> string list \<Rightarrow> ('c, blob_object) sop"
  cn_open :: "string \<Rightarrow> ('c, string) sop"

definition local_attempt_service :: "local_attempts attempt_service" where
  "local_attempt_service = \<lparr>as_put = lat_put_stream, as_open = lat_open_reader, as_stat = lat_stat,
     as_delete = lat_delete, as_page = lat_inventory_page_before\<rparr>"

definition mem_attempt_service :: "(string \<Rightarrow> string \<Rightarrow> pyval res) \<Rightarrow> mem_attempts attempt_service" where
  "mem_attempt_service etag = \<lparr>as_put = mat_put_stream etag, as_open = mat_open_reader, as_stat = mat_stat,
     as_delete = mat_delete, as_page = mat_inventory_page_before\<rparr>"

text \<open>A process that races to the same key can have put there only an object with the same digest.\<close>

definition same_digest_rival :: "string list \<Rightarrow> dir_entry option \<Rightarrow> dir_entry option" where
  "same_digest_rival cs e =
     (case e of Some (RegularFile x) \<Rightarrow> if sha256_hex x = sha256_hex (concat cs) then e else None | _ \<Rightarrow> None)"

definition local_canonical_service :: "local_store canonical_service" where
  "local_canonical_service = \<lparr>cn_put = (\<lambda>e cs. put_stream (same_digest_rival cs e) cs), cn_open = store_open_reader\<rparr>"

definition mem_canonical_service :: "mem_store canonical_service" where
  "mem_canonical_service = \<lparr>cn_put = (\<lambda>_. mem_put_stream), cn_open = mem_open_reader\<rparr>"

text \<open>
  What a run meets, by the number of the call: readings of the database clock, drawn identifiers, the
  operations other processes have committed, hooks that raise, the environment of a store's write.
\<close>

record ('a, 'c) publish_service =
  sv_attempts :: "'a attempt_service"
  sv_canonical :: "'c canonical_service"
  sv_probe :: "string \<Rightarrow> media_info res"
  sv_floats :: float_env
  sv_jsonb :: "pyval \<Rightarrow> pyval res"
  sv_clock :: "nat \<Rightarrow> nat \<Rightarrow> int"
  sv_uuid :: "nat \<Rightarrow> nat \<Rightarrow> int"
  sv_others :: "nat \<Rightarrow> pub_op list"
  sv_fault :: "nat \<Rightarrow> exc option"
  sv_progress :: "nat \<Rightarrow> exc option"
  sv_put_env :: "nat \<Rightarrow> put_env"
  sv_rival :: "nat \<Rightarrow> dir_entry option"

record ('a, 'c) publish_world =
  pw_db :: pub_db
  pw_attempts :: 'a
  pw_canonical :: 'c
  pw_tick :: nat

text \<open>A list of operations that breaks what the environment promises is not one that is committed.\<close>

definition db_before :: "('a, 'c) publish_service \<Rightarrow> ('a, 'c) publish_world \<Rightarrow> pub_db" where
  "db_before V w = (case p_run (sv_others V (pw_tick w)) (pw_db w) of None \<Rightarrow> pw_db w | Some s \<Rightarrow> s)"

definition on_ledger ::
  "('a, 'c) publish_service \<Rightarrow> (nat \<Rightarrow> (pub_db, 'r) sop) \<Rightarrow> (('a, 'c) publish_world, 'r) sop"
where
  "on_ledger V m w =
     (case m (pw_tick w) (db_before V w) of (r, s) \<Rightarrow> (r, w\<lparr>pw_db := s, pw_tick := Suc (pw_tick w)\<rparr>))"

definition on_attempts :: "('a, 'r) sop \<Rightarrow> (('a, 'c) publish_world, 'r) sop" where
  "on_attempts m w = (case m (pw_attempts w) of (r, s) \<Rightarrow> (r, w\<lparr>pw_attempts := s\<rparr>))"

definition on_canonical_store :: "('c, 'r) sop \<Rightarrow> (('a, 'c) publish_world, 'r) sop" where
  "on_canonical_store m w = (case m (pw_canonical w) of (r, s) \<Rightarrow> (r, w\<lparr>pw_canonical := s\<rparr>))"

definition run_hook :: "(nat \<Rightarrow> exc option) \<Rightarrow> (('a, 'c) publish_world, unit) sop" where
  "run_hook h w =
     ((case h (pw_tick w) of None \<Rightarrow> Inr () | Some e \<Rightarrow> Inl e), w\<lparr>pw_tick := Suc (pw_tick w)\<rparr>)"

text \<open>\<open>try: m except <test>: h\<close>.\<close>

definition handle :: "(exc \<Rightarrow> bool) \<Rightarrow> (exc \<Rightarrow> ('s, 'r) sop) \<Rightarrow> ('s, 'r) sop \<Rightarrow> ('s, 'r) sop" where
  "handle test h m s = (case m s of (Inl e, t) \<Rightarrow> if test e then h e t else (Inl e, t) | r \<Rightarrow> r)"

definition reraise :: "exc \<Rightarrow> ('s, 'r) sop" where
  "reraise e s = (Inl e, s)"

section \<open>The lease fence and the checkpoints\<close>

definition assert_lease :: "('a, 'c) publish_service \<Rightarrow> lease \<Rightarrow> (('a, 'c) publish_world, unit) sop" where
  "assert_lease V l = on_ledger V (\<lambda>n s. (assert_current (sv_clock V n 0) l (pd_queue s), s))"

definition service_fault :: "('a, 'c) publish_service \<Rightarrow> (('a, 'c) publish_world, unit) sop" where
  "service_fault V = run_hook (sv_fault V)"

definition service_checkpoint :: "('a, 'c) publish_service \<Rightarrow> lease \<Rightarrow> (('a, 'c) publish_world, unit) sop" where
  "service_checkpoint V l = sbind (assert_lease V l) (\<lambda>_. run_hook (sv_progress V))"

definition validation_checkpoint :: "('a, 'c) publish_service \<Rightarrow> lease \<Rightarrow> ('a, 'c) publish_world progress" where
  "validation_checkpoint V l ph n = service_checkpoint V l"

section \<open>Candidates\<close>

record publication_candidate =
  pc_kind :: artifact_kind
  pc_content_type :: string
  pc_chunks :: chunk_stream
  pc_max_size :: int
  pc_expected_sha256 :: "string option"
  pc_expected_size :: "int option"
  pc_metadata :: "(pyval \<times> pyval) list"

definition new_PublicationCandidate :: "publication_candidate \<Rightarrow> publication_candidate res" where
  "new_PublicationCandidate c =
     after (checks [require (pc_content_type c \<noteq> []) ValueError ''content_type must be non-empty'',
                    require (1 \<le> pc_max_size c) ValueError ''max_size_bytes must be a positive integer'',
                    require (case pc_expected_size c of None \<Rightarrow> True | Some n \<Rightarrow> 0 \<le> n \<and> n \<le> pc_max_size c)
                      ValueError ''expected_size_bytes must fit the configured limit'',
                    (case pc_expected_sha256 c of None \<Rightarrow> Inr () | Some h \<Rightarrow> lowercase_sha256 h)])
       (\<lambda>_. after (new_ValidationSpec \<lparr>vs_content_type = pc_content_type c, vs_max_size = pc_max_size c,
                     vs_expected_sha256 = pc_expected_sha256 c, vs_expected_size = pc_expected_size c\<rparr>)
              (\<lambda>_. Inr c))"

definition spec_of_candidate :: "publication_candidate \<Rightarrow> publication_spec" where
  "spec_of_candidate c = \<lparr>ps_kind = pc_kind c, ps_content_type = pc_content_type c, ps_max_size = pc_max_size c,
     ps_expected_sha256 = pc_expected_sha256 c, ps_expected_size = pc_expected_size c, ps_metadata = PDict (pc_metadata c)\<rparr>"

definition match_expected :: "publication_candidate \<Rightarrow> int \<Rightarrow> attempt_object \<Rightarrow> unit res" where
  "match_expected c mx x =
     checks [require (case pc_expected_sha256 c of None \<Rightarrow> True | Some h \<Rightarrow> ao_sha256 x = h)
               ArtifactRejectedError ''attempt object SHA-256 differs from declared evidence'',
             require (case pc_expected_size c of None \<Rightarrow> True | Some n \<Rightarrow> ao_size_bytes x = n)
               ArtifactRejectedError ''attempt object size differs from declared evidence'',
             require (ao_size_bytes x \<le> mx) ArtifactRejectedError ''attempt object exceeds configured size limit'']"

text \<open>\<open>_bounded_candidate_chunks\<close>: what the generator yields, how it ends, and what its checkpoints did.\<close>

fun bounded_chunks ::
  "('a, 'c) publish_service \<Rightarrow> lease \<Rightarrow> int \<Rightarrow> int option \<Rightarrow> pyval list \<Rightarrow> exc option \<Rightarrow> int \<Rightarrow>
     ('a, 'c) publish_world \<Rightarrow> chunk_stream \<times> ('a, 'c) publish_world"
where
  "bounded_chunks V l mx expected [] e before w = (([], e), w)"
| "bounded_chunks V l mx expected (c # cs) e before w =
     (case c of
        PBytes b \<Rightarrow>
          let so_far = before + int (length b) in
          if so_far > mx \<or> (case expected of None \<Rightarrow> False | Some n \<Rightarrow> so_far > n)
          then (([], Some (Exc ArtifactRejectedError ''publication candidate exceeds its size bound'')), w)
          else (case service_checkpoint V l w of
                  (Inl x, w') \<Rightarrow> (([], Some x), w')
                | (Inr _, w') \<Rightarrow>
                    (case bounded_chunks V l mx expected cs e so_far w' of ((ys, x), w2) \<Rightarrow> ((c # ys, x), w2)))
      | _ \<Rightarrow> (([], Some (Exc TypeError ''publication candidate chunks must be bytes'')), w))"

text \<open>\<open>_iter_chunks\<close> over the pieces of a reader.\<close>

fun iter_chunks ::
  "('a, 'c) publish_service \<Rightarrow> lease \<Rightarrow> int \<Rightarrow> string list \<Rightarrow> int \<Rightarrow> (('a, 'c) publish_world, string list) sop"
where
  "iter_chunks V l expected [] before =
     (if before \<noteq> expected then fail ArtifactRejectedError ''artifact ended before its validated size'' else ok [])"
| "iter_chunks V l expected (c # cs) before =
     (let so_far = before + int (length c) in
      if so_far > expected then fail ArtifactRejectedError ''artifact changed beyond its validated size''
      else sbind (service_checkpoint V l) (\<lambda>_. sbind (iter_chunks V l expected cs so_far) (\<lambda>ys. ok (c # ys))))"

section \<open>Advancing one candidate\<close>

definition is_rejected :: "exc \<Rightarrow> bool" where
  "is_rejected e = instance_of e ArtifactRejectedError"

definition reject_current ::
  "('a, 'c) publish_service \<Rightarrow> lease \<Rightarrow> publication \<Rightarrow> string \<Rightarrow> (('a, 'c) publish_world, publication) sop"
where
  "reject_current V l p reason =
     on_ledger V (\<lambda>n. pub_reject (sv_clock V n 0) (sv_clock V n 1) l (pb_id p) (pb_version p) reason)"

text \<open>The branch for a RESERVED publication.\<close>

definition write_attempt ::
  "('a, 'c) publish_service \<Rightarrow> lease \<Rightarrow> publication_candidate \<Rightarrow> publication \<Rightarrow> string \<Rightarrow>
     (('a, 'c) publish_world, publication) sop"
where
  "write_attempt V l c p key =
     sbind (assert_lease V l) (\<lambda>_.
     sbind (handle is_rejected (\<lambda>e. sbind (reject_current V l p ''object_size_limit'') (\<lambda>_. reraise e))
              (\<lambda>w. case bounded_chunks V l (pb_max_size p) (pc_expected_size c) (fst (pc_chunks c)) (snd (pc_chunks c)) 0 w of
                 (st, w') \<Rightarrow> on_attempts (as_put (sv_attempts V) (sv_put_env V (pw_tick w')) key st) w')) (\<lambda>x.
     sbind (assert_lease V l) (\<lambda>_.
     sbind (handle is_rejected (\<lambda>e. sbind (reject_current V l p ''object_evidence_mismatch'') (\<lambda>_. reraise e))
              (\<lambda>w. (match_expected c (pb_max_size p) x, w))) (\<lambda>_.
     sbind (service_fault V) (\<lambda>_.
     sbind (on_ledger V (\<lambda>n. record_object (sv_clock V n 0) (sv_clock V n 1) l (pb_id p) (pb_version p)
              (ao_sha256 x) (ao_size_bytes x))) (\<lambda>p'.
     sbind (service_fault V) (\<lambda>_. ok p')))))))"

definition validation_failed ::
  "('a, 'c) publish_service \<Rightarrow> lease \<Rightarrow> publication \<Rightarrow> exc \<Rightarrow> (('a, 'c) publish_world, validated_artifact) sop"
where
  "validation_failed V l p e =
     (if missing e
      then sbind (reject_current V l p ''attempt_object_missing'')
             (\<lambda>_. fail ArtifactPublicationError ''attempt object is unavailable'')
      else if instance_of e ArtifactValidationError
      then sbind (reject_current V l p ''artifact_validation_failed'')
             (\<lambda>_. fail ArtifactRejectedError ''attempt object failed validation'')
      else if is_rejected e
      then sbind (reject_current V l p ''object_evidence_drift'') (\<lambda>_. reraise e)
      else reraise e)"

definition validate_object ::
  "('a, 'c) publish_service \<Rightarrow> lease \<Rightarrow> publication_candidate \<Rightarrow> publication \<Rightarrow> string \<Rightarrow>
     (('a, 'c) publish_world, validated_artifact) sop"
where
  "validate_object V l c p key =
     handle (\<lambda>_. True) (validation_failed V l p)
       (sbind (on_attempts (as_open (sv_attempts V) key)) (\<lambda>x w.
          lift (new_ValidationSpec \<lparr>vs_content_type = pc_content_type c, vs_max_size = pb_max_size p,
                  vs_expected_sha256 = pb_observed_sha256 p, vs_expected_size = pb_observed_size p\<rparr>) w (\<lambda>spec.
            validate_artifact (sv_floats V) (sv_probe V) (validation_checkpoint V l) spec x w)))"

definition promote_object ::
  "('a, 'c) publish_service \<Rightarrow> lease \<Rightarrow> publication \<Rightarrow> string \<Rightarrow> validated_artifact \<Rightarrow>
     (('a, 'c) publish_world, blob_object) sop"
where
  "promote_object V l p key v =
     sbind (handle is_rejected
              (\<lambda>e. sbind (reject_current V l p ''attempt_object_changed_after_validation'') (\<lambda>_. reraise e))
              (sbind (on_attempts (as_open (sv_attempts V) key)) (\<lambda>x.
               sbind (iter_chunks V l (vd_size v) (pieces mebibyte x) 0) (\<lambda>cs w.
                 on_canonical_store (cn_put (sv_canonical V) (sv_rival V (pw_tick w)) cs) w)))) (\<lambda>obj.
       if obj_sha256 obj \<noteq> vd_sha256 v \<or> obj_size_bytes obj \<noteq> vd_size v
       then sbind (reject_current V l p ''canonical_promotion_mismatch'')
              (\<lambda>_. fail ArtifactRejectedError ''canonical promotion changed artifact identity'')
       else ok obj)"

definition validate_and_promote ::
  "('a, 'c) publish_service \<Rightarrow> lease \<Rightarrow> publication_candidate \<Rightarrow> publication \<Rightarrow> string \<Rightarrow>
     (('a, 'c) publish_world, publication) sop"
where
  "validate_and_promote V l c p key =
     (if pb_object_key p \<noteq> Some key
      then fail ArtifactPublicationError ''ledger attempt key differs from server identity''
      else
        sbind (assert_lease V l) (\<lambda>_.
        sbind (validate_object V l c p key) (\<lambda>v.
        sbind (assert_lease V l) (\<lambda>_.
        sbind (service_fault V) (\<lambda>_.
        sbind (promote_object V l p key v) (\<lambda>obj.
        sbind (service_fault V) (\<lambda>_.
        sbind (assert_lease V l) (\<lambda>_ w.
          lift (new_BlobRecord (uuid_str (sv_uuid V (pw_tick w) 0)) (obj_sha256 obj) (obj_size_bytes obj)
                  (obj_storage_key obj) BLOB_VERIFIED (vd_content_type v)) w (\<lambda>b.
          sbind (on_ledger V (\<lambda>n. record_validated (sv_jsonb V) (sv_clock V n 0) (sv_clock V n 1) l (pb_id p)
                   (pb_version p) b (vd_metadata v))) (\<lambda>p'.
          sbind (service_fault V) (\<lambda>_. ok p')) w)))))))))"

definition verify_canonical ::
  "('a, 'c) publish_service \<Rightarrow> lease \<Rightarrow> publication \<Rightarrow> (('a, 'c) publish_world, unit) sop"
where
  "verify_canonical V l p =
     (case (pb_observed_sha256 p, pb_observed_size p) of
        (Some h, Some n) \<Rightarrow> (\<lambda>w.
          lift (canonical_key h) w (\<lambda>key.
            sbind (handle missing (\<lambda>_. fail ArtifactPublicationError ''validated canonical object is unavailable'')
                     (sbind (on_canonical_store (cn_open (sv_canonical V) key)) (\<lambda>x.
                        iter_chunks V l n (pieces mebibyte x) 0))) (\<lambda>cs.
              if sha256_hex (concat cs) \<noteq> h \<or> int (length (concat cs)) \<noteq> n
              then fail ArtifactPublicationError ''validated canonical object differs from ledger''
              else ok ()) w))
      | _ \<Rightarrow> fail ArtifactPublicationError ''validated publication lacks content evidence'')"

definition finish_advance ::
  "('a, 'c) publish_service \<Rightarrow> lease \<Rightarrow> publication \<Rightarrow> (('a, 'c) publish_world, publication) sop"
where
  "finish_advance V l p =
     (if pb_state p = PUB_VALIDATED then sbind (verify_canonical V l p) (\<lambda>_. ok p)
      else if pb_state p = PUB_FINALIZED
      then fail ArtifactPublicationError ''publication already finalized; read the visible winner instead''
      else fail ArtifactPublicationError ''publication is terminal or cannot resume from its current state'')"

definition publication_key :: "'p publication_scheme \<Rightarrow> string res" where
  "publication_key p = attempt_key (pb_job p) (pb_attempt p) (pb_epoch p) (pb_kind p) (pb_id p)"

definition advance ::
  "('a, 'c) publish_service \<Rightarrow> lease \<Rightarrow> publication_candidate \<Rightarrow> (('a, 'c) publish_world, publication) sop"
where
  "advance V l c w =
     lift (new_PublicationSpec (spec_of_candidate c)) w (\<lambda>spec.
     sbind (on_ledger V (\<lambda>n. reserve (sv_jsonb V) (sv_clock V n 0) (sv_clock V n 1) (uuid_str (sv_uuid V n 0)) l spec)) (\<lambda>p w.
     lift (publication_key p) w (\<lambda>key.
     sbind (if pb_state p = PUB_RESERVED then write_attempt V l c p key else ok p) (\<lambda>p.
     sbind (if pb_state p = PUB_OBJECT_WRITTEN then validate_and_promote V l c p key else ok p) (\<lambda>p.
       finish_advance V l p)) w)) w)"

section \<open>Publishing\<close>

fun advance_all ::
  "('a, 'c) publish_service \<Rightarrow> lease \<Rightarrow> publication_candidate list \<Rightarrow> (('a, 'c) publish_world, publication list) sop"
where
  "advance_all V l [] = ok []"
| "advance_all V l (c # cs) = sbind (advance V l c) (\<lambda>p. sbind (advance_all V l cs) (\<lambda>ps. ok (p # ps)))"

definition get_publication :: "('a, 'c) publish_service \<Rightarrow> string \<Rightarrow> (('a, 'c) publish_world, publication) sop" where
  "get_publication V i = on_ledger V (\<lambda>n. pub_get i)"

fun finalize_faults ::
  "('a, 'c) publish_service \<Rightarrow> publication list \<Rightarrow> (('a, 'c) publish_world, unit) sop"
where
  "finalize_faults V [] = ok ()"
| "finalize_faults V (p # ps) =
     sbind (get_publication V (pb_id p)) (\<lambda>_. sbind (service_fault V) (\<lambda>_. finalize_faults V ps))"

definition checked_key :: "'p publication_scheme \<Rightarrow> string res" where
  "checked_key p = after (publication_key p) (\<lambda>derived.
     if pb_object_key p \<notin> {None, Some derived}
     then raise ArtifactPublicationError ''ledger attempt key differs from server identity''
     else Inr derived)"

definition cleanup_row ::
  "('a, 'c) publish_service \<Rightarrow> 'p publication_scheme \<Rightarrow> (('a, 'c) publish_world, publication) sop"
where
  "cleanup_row V p = on_ledger V (\<lambda>n. record_cleanup (sv_clock V n 0) (pb_id p) (pb_version p))"

definition cleanup_caught :: "exc \<Rightarrow> bool" where
  "cleanup_caught e = instance_of_any e [OSError, RuntimeError, DurableInvariantError, NotFoundError]"

fun cleanup_best_effort ::
  "('a, 'c) publish_service \<Rightarrow> publication list \<Rightarrow> (('a, 'c) publish_world, unit) sop"
where
  "cleanup_best_effort V [] = ok ()"
| "cleanup_best_effort V (p # ps) =
     sbind (handle cleanup_caught (\<lambda>_. ok ())
       (sbind (get_publication V (pb_id p)) (\<lambda>current w.
          lift (checked_key current) w (\<lambda>key.
          sbind (on_attempts (as_delete (sv_attempts V) key)) (\<lambda>_.
          sbind (cleanup_row V current) (\<lambda>_. ok ())) w))))
       (\<lambda>_. cleanup_best_effort V ps)"

definition publish ::
  "('a, 'c) publish_service \<Rightarrow> lease \<Rightarrow> publication_candidate list \<Rightarrow> (('a, 'c) publish_world, visible_artifact list) sop"
where
  "publish V l requested =
     (if requested = [] then fail ValueError ''publication candidates must not be empty''
      else if \<not> distinct (map pc_kind requested) then fail ValueError ''publication candidate kinds must be unique''
      else
        sbind (advance_all V l requested) (\<lambda>records.
        sbind (service_checkpoint V l) (\<lambda>_.
        sbind (on_ledger V (\<lambda>n. pub_finalize (sv_jsonb V) (sv_clock V n 0) (sv_clock V n 1)
                 (\<lambda>k. sv_clock V n (3 + k)) (sv_clock V n 2) (\<lambda>k. uuid_str (sv_uuid V n k)) l records)) (\<lambda>visible.
        sbind (finalize_faults V records) (\<lambda>_.
        sbind (cleanup_best_effort V records) (\<lambda>_. ok visible))))))"

section \<open>The sweeper\<close>

definition delete_record ::
  "('a, 'c) publish_service \<Rightarrow> 'p publication_scheme \<Rightarrow> (('a, 'c) publish_world, bool) sop"
where
  "delete_record V p w =
     lift (checked_key p) w (\<lambda>key.
     sbind (handle missing (\<lambda>_. ok False) (sbind (on_attempts (as_stat (sv_attempts V) key)) (\<lambda>_. ok True))) (\<lambda>existed.
     sbind (on_attempts (as_delete (sv_attempts V) key)) (\<lambda>_.
     sbind (cleanup_row V p) (\<lambda>_. ok existed))) w)"

definition is_transition :: "exc \<Rightarrow> bool" where
  "is_transition e = instance_of e StateTransitionError"

text \<open>The counters of the sweep: objects cleaned and publications seen.\<close>

type_synonym swept = "nat \<times> string list"

definition note_seen :: "string \<Rightarrow> swept \<Rightarrow> swept" where
  "note_seen i z = (fst z, List.insert i (snd z))"

definition note_cleaned :: "bool \<Rightarrow> swept \<Rightarrow> swept" where
  "note_cleaned b z = (if b then Suc (fst z) else fst z, snd z)"

fun sweep_terminal ::
  "('a, 'c) publish_service \<Rightarrow> publication list \<Rightarrow> swept \<Rightarrow> (('a, 'c) publish_world, swept) sop"
where
  "sweep_terminal V [] z = ok z"
| "sweep_terminal V (p # ps) z =
     sbind (handle is_transition (\<lambda>_. ok (note_seen (pb_id p) z))
              (sbind (delete_record V p) (\<lambda>b. ok (note_cleaned b (note_seen (pb_id p) z)))))
       (sweep_terminal V ps)"

definition abandon_open ::
  "('a, 'c) publish_service \<Rightarrow> string \<Rightarrow> publication \<Rightarrow> (('a, 'c) publish_world, publication) sop"
where
  "abandon_open V reason p =
     (if pub_terminal (pb_state p) then ok p
      else on_ledger V (\<lambda>n. pub_abandon (sv_clock V n 0) (sv_clock V n 1) (pb_id p) (pb_version p) reason))"

text \<open>One key of the ledger; the publication counts as seen once its row has been read.\<close>

definition sweep_orphan ::
  "('a, 'c) publish_service \<Rightarrow> string \<Rightarrow> swept \<Rightarrow> (('a, 'c) publish_world, swept) sop"
where
  "sweep_orphan V key z w =
     lift (parse_attempt_key key) w (\<lambda>(_, _, _, _, i).
       if i \<in> set (snd z) then ok z w
       else
         sbind (handle (\<lambda>e. instance_of_any e [NotFoundError, StateTransitionError]) (\<lambda>_. ok None)
                  (sbind (get_publication V i) (\<lambda>p. ok (Some p)))) (\<lambda>found.
           case found of
             None \<Rightarrow> ok z
           | Some p \<Rightarrow>
               handle (\<lambda>e. instance_of_any e [NotFoundError, StateTransitionError]) (\<lambda>_. ok (note_seen i z)) (\<lambda>w.
                 lift (checked_key p) w (\<lambda>k.
                   if k \<noteq> key then fail ArtifactPublicationError ''orphan key does not match publication identity'' w
                   else sbind (abandon_open V ''orphan_sweep'' p) (\<lambda>p'.
                        sbind (delete_record V p') (\<lambda>b. ok (note_cleaned b (note_seen i z)))) w))) w)"

fun sweep_orphans ::
  "('a, 'c) publish_service \<Rightarrow> nat \<Rightarrow> string list \<Rightarrow> swept \<Rightarrow> (('a, 'c) publish_world, swept) sop"
where
  "sweep_orphans V limit [] z = ok z"
| "sweep_orphans V limit (k # ks) z =
     (if length (snd z) \<ge> limit then ok z else sbind (sweep_orphan V k z) (sweep_orphans V limit ks))"

definition sweep_object ::
  "('a, 'c) publish_service \<Rightarrow> string \<Rightarrow> swept \<Rightarrow> (('a, 'c) publish_world, swept) sop"
where
  "sweep_object V key z w =
     lift (parse_attempt_key key) w (\<lambda>(_, _, _, _, i).
       if i \<in> set (snd z) then ok z w
       else
         sbind (handle (\<lambda>e. instance_of e NotFoundError) (\<lambda>_. ok None)
                  (sbind (get_publication V i) (\<lambda>p. ok (Some p)))) (\<lambda>found.
           case found of
             None \<Rightarrow> sbind (on_attempts (as_delete (sv_attempts V) key)) (\<lambda>_. ok (note_cleaned True (note_seen i z)))
           | Some p \<Rightarrow> (\<lambda>w.
               lift (checked_key p) w (\<lambda>k.
                 if k \<noteq> key then fail ArtifactPublicationError ''inventoried key differs from ledger identity'' w
                 else handle is_transition (\<lambda>_. ok (note_seen i z))
                        (sbind (abandon_open V ''orphan_inventory_sweep'' p) (\<lambda>p'.
                         sbind (delete_record V p') (\<lambda>b. ok (note_cleaned b (note_seen i z))))) w))) w)"

fun sweep_inventory ::
  "('a, 'c) publish_service \<Rightarrow> nat \<Rightarrow> string list \<Rightarrow> string list \<Rightarrow> swept \<Rightarrow> (('a, 'c) publish_world, swept) sop"
where
  "sweep_inventory V limit known [] z = ok z"
| "sweep_inventory V limit known (k # ks) z =
     (if length (snd z) \<ge> limit then ok z
      else if k \<in> set known then sweep_inventory V limit known ks z
      else sbind (sweep_object V k z) (sweep_inventory V limit known ks))"

definition lookup_ledger ::
  "('a, 'c) publish_service \<Rightarrow> (pub_db \<Rightarrow> 'r res) \<Rightarrow> (('a, 'c) publish_world, 'r) sop"
where
  "lookup_ledger V f = on_ledger V (\<lambda>n s. (f s, s))"

definition run_sweep ::
  "('a, 'c) publish_service \<Rightarrow> int \<Rightarrow> int \<Rightarrow> (('a, 'c) publish_world, nat) sop"
where
  "run_sweep V before limit =
     (if limit < 1 then fail ValueError ''limit must be positive''
      else
        sbind (lookup_ledger V (cleanup_candidates before limit)) (\<lambda>rows.
        sbind (sweep_terminal V rows (0, [])) (\<lambda>z.
        sbind (let remaining = limit - int (length (snd z)) in
               if remaining \<le> 0 then ok [] else lookup_ledger V (orphan_keys_before before remaining)) (\<lambda>keys.
        sbind (sweep_orphans V (nat limit) keys z) (\<lambda>z.
          let remaining = limit - int (length (snd z)) in
          if remaining \<le> 0 then ok (fst z)
          else
            sbind (on_attempts (as_page (sv_attempts V) before remaining ''orphan_sweep'')) (\<lambda>page.
            sbind (lookup_ledger V (known_attempt_keys (map ao_storage_key (ip_objects page)))) (\<lambda>known.
            sbind (sweep_inventory V (nat limit) known (map ao_storage_key (ip_objects page)) z) (\<lambda>z. ok (fst z)))))))))"

end
