(* ===== verification/ServiceSteps.thy ===== *)
theory ServiceSteps
  imports PublicationService
begin

text \<open>
  What the publication service and the sweeper can do to their world: they act on it through a few
  calls only. A predicate that every such call keeps is kept by \<open>publish\<close> and \<open>run_sweep\<close>; the locales
  \<open>stable_publish\<close> and \<open>stable_sweep\<close> state this once. The sweeper deletes an object only when no
  publication of the ledger that is not terminal has its key.
\<close>

section \<open>Programs over calls\<close>

definition preserves :: "('s \<Rightarrow> bool) \<Rightarrow> ('s, 'r) sop \<Rightarrow> bool" where
  "preserves P m \<longleftrightarrow> (\<forall>w. P w \<longrightarrow> P (snd (m w)))"

named_theorems keeps_intros

lemma keepsI: "(\<And>w. P w \<Longrightarrow> P (snd (m w))) \<Longrightarrow> preserves P m"
  by (simp add: preserves_def)

lemma keepsD: "preserves P m \<Longrightarrow> P w \<Longrightarrow> P (snd (m w))"
  by (simp add: preserves_def)

lemma keeps_basic [keeps_intros]: "preserves P (ok a)" "preserves P (fail c m)" "preserves P (reraise e)"
  "preserves P (Pair r)"
  by (simp_all add: preserves_def reraise_def)

lemma keeps_sbind [keeps_intros]:
  "preserves P m \<Longrightarrow> (\<And>a. preserves P (k a)) \<Longrightarrow> preserves P (sbind m k)"
  by (auto simp: preserves_def sbind_def split: prod.splits sum.splits)

lemma keeps_lift [keeps_intros]:
  "(\<And>a. r = Inr a \<Longrightarrow> preserves P (k a)) \<Longrightarrow> preserves P (\<lambda>w. lift r w (\<lambda>a. k a w))"
  by (auto simp: preserves_def lift_def split: sum.splits)

lemma keeps_handle [keeps_intros]:
  "preserves P m \<Longrightarrow> (\<And>e. test e \<Longrightarrow> preserves P (h e)) \<Longrightarrow> preserves P (handle test h m)"
  by (auto simp: preserves_def handle_def split: prod.splits sum.splits)

lemma keeps_if [keeps_intros]:
  "(b \<Longrightarrow> preserves P m) \<Longrightarrow> (\<not> b \<Longrightarrow> preserves P m') \<Longrightarrow> preserves P (if b then m else m')"
  by simp

lemma keeps_option [keeps_intros]:
  "(x = None \<Longrightarrow> preserves P m) \<Longrightarrow> (\<And>y. x = Some y \<Longrightarrow> preserves P (k y)) \<Longrightarrow> preserves P (case x of None \<Rightarrow> m | Some y \<Rightarrow> k y)"
  by (simp split: option.split)

lemma keeps_pointwise [keeps_intros]:
  "(b \<Longrightarrow> preserves P m) \<Longrightarrow> (\<not> b \<Longrightarrow> preserves P m') \<Longrightarrow> preserves P (\<lambda>w. if b then m w else m' w)"
  "(\<And>e. z = Inl e \<Longrightarrow> preserves P (f e)) \<Longrightarrow> (\<And>a. z = Inr a \<Longrightarrow> preserves P (g a)) \<Longrightarrow>
     preserves P (\<lambda>w. case z of Inl e \<Rightarrow> f e w | Inr a \<Rightarrow> g a w)"
  by (simp_all add: preserves_def split: sum.split)

lemma wp_handle: "wp X Y (handle t h m s) = wp (\<lambda>e s'. if t e then wp X Y (h e s') else X e s') Y (m s)"
  by (auto simp: wp_def handle_def split: prod.splits sum.splits)

section \<open>Operations on the ledger\<close>

text \<open>Names drawn as UUIDs are not blank.\<close>

lemma digit_not_space: "d < 16 \<Longrightarrow> \<not> is_space (digit_char d)"
  using hex_lower_facts(7) [OF hex_lower_digit_char] by simp

lemma strip_nonblank: "c \<in> set s \<Longrightarrow> \<not> is_space c \<Longrightarrow> strip s \<noteq> []"
proof
  assume c: "c \<in> set s" "\<not> is_space c" and "strip s = []"
  then have "dropWhile is_space (rev (dropWhile is_space s)) = []" by (simp add: strip_def)
  then have "\<forall>x \<in> set (dropWhile is_space s). is_space x" by (simp add: dropWhile_eq_Nil_conv)
  moreover have "c \<in> set (dropWhile is_space s)" using c
    by (metis (no_types) Un_iff set_append set_takeWhileD takeWhile_dropWhile_id)
  ultimately show False using c(2) by blast
qed

lemma uuid_str_not_blank: "strip (uuid_str n) \<noteq> []"
proof -
  have "uuid_str n \<noteq> []" by (simp add: uuid_str_def Let_def)
  moreover have "hd (hex_digits 32 (nat n)) \<in> set (uuid_str n)"
  proof -
    have "take 8 (hex_digits 32 (nat n)) \<noteq> []" by (metis length_hex_digits length_0_conv take_eq_Nil zero_neq_numeral)
    then have "hd (take 8 (hex_digits 32 (nat n))) \<in> set (take 8 (hex_digits 32 (nat n)))" by (rule hd_in_set)
    then show ?thesis by (simp add: uuid_str_def Let_def hd_take)
  qed
  moreover have "hex_lower (hd (hex_digits 32 (nat n)))"
  proof -
    have "hex_digits 32 (nat n) \<noteq> []" by (metis length_hex_digits list.size(3) zero_neq_numeral)
    then show ?thesis using hex_digits_lower [of 32 "nat n"] by (metis list_all_iff hd_in_set)
  qed
  ultimately show ?thesis using hex_lower_facts(7) strip_nonblank by metis
qed

text \<open>A call that is a sequence of operations of the ledger, whatever its state.\<close>

definition ledger_call :: "(nat \<Rightarrow> (pub_db, 'r) sop) \<Rightarrow> bool" where
  "ledger_call m \<longleftrightarrow> (\<forall>n s. \<exists>ops. p_run ops s = Some (snd (m n s)))"

lemma p_run_one: "p_guard x s \<Longrightarrow> p_run [x] s = Some (p_step x s)"
  by (simp add: p_run_def)

lemma p_run_append: "p_run xs s = Some t \<Longrightarrow> p_run ys t = Some u \<Longrightarrow> p_run (xs @ ys) s = Some u"
  by (simp add: p_run_def guarded_run_append)

lemma ledger_callI: "(\<And>n s. p_guard (x n) s \<and> snd (m n s) = p_step (x n) s) \<Longrightarrow> ledger_call m"
  unfolding ledger_call_def using p_run_one by metis

lemma ledger_call_read: "(\<And>n s. snd (m n s) = s) \<Longrightarrow> ledger_call m"
  unfolding ledger_call_def by (metis guarded_run.simps(1) p_run_def)

lemma new_BlobRecord_id: "new_BlobRecord i h n k st ct = Inr b \<Longrightarrow> strip (blob_id b) \<noteq> []"
  by (auto simp: new_BlobRecord_def after_eq_Inr checks_Cons_ok require_text_ok)

lemma new_PublicationSpec_same: "new_PublicationSpec p = Inr q \<Longrightarrow> q = p"
  by (auto simp: new_PublicationSpec_def after_eq_Inr)

lemma ledger_calls:
  "ledger_call (\<lambda>n. pub_reject (f n) (g n) l i v reason)"
  "ledger_call (\<lambda>n. record_object (f n) (g n) l i v h z)"
  "ledger_call (\<lambda>n. record_cleanup (f n) i v)"
  "ledger_call (\<lambda>n. pub_abandon (f n) (g n) i v reason)"
  "ledger_call (\<lambda>n. pub_get i)"
  "ledger_call (\<lambda>n s. (r n s, s))"
  "new_PublicationSpec sp = Inr sp \<Longrightarrow> ledger_call (\<lambda>n. reserve jsonb (f n) (g n) (uuid_str (u n)) l sp)"
  "strip (blob_id b) \<noteq> [] \<Longrightarrow> ledger_call (\<lambda>n. record_validated jsonb (f n) (g n) l i v b vm)"
  "ledger_call (\<lambda>n. pub_finalize jsonb (f n) (g n) (ck n) (h' n) (\<lambda>k. uuid_str (us n k)) l req)"
proof -
  show "ledger_call (\<lambda>n. pub_reject (f n) (g n) l i v reason)"
    by (rule ledger_callI [where x = "\<lambda>n. PReject (f n) (g n) l i v reason"]) simp
  show "ledger_call (\<lambda>n. record_object (f n) (g n) l i v h z)"
    by (rule ledger_callI [where x = "\<lambda>n. PRecordObject (f n) (g n) l i v h z"]) simp
  show "ledger_call (\<lambda>n. record_cleanup (f n) i v)" by (rule ledger_callI [where x = "\<lambda>n. PCleanup (f n) i v"]) simp
  show "ledger_call (\<lambda>n. pub_abandon (f n) (g n) i v reason)"
    by (rule ledger_callI [where x = "\<lambda>n. PAbandon (f n) (g n) i v reason"]) simp
  show "ledger_call (\<lambda>n. pub_get i)"
    by (rule ledger_call_read) (auto simp: pub_get_def select_record_def not_found_def lift_def split: option.split sum.split)
  show "ledger_call (\<lambda>n s. (r n s, s))" by (rule ledger_call_read) simp
  show "new_PublicationSpec sp = Inr sp \<Longrightarrow> ledger_call (\<lambda>n. reserve jsonb (f n) (g n) (uuid_str (u n)) l sp)"
    by (rule ledger_callI [where x = "\<lambda>n. PReserve jsonb (f n) (g n) (uuid_str (u n)) l sp"]) (simp add: uuid_str_not_blank)
  show "strip (blob_id b) \<noteq> [] \<Longrightarrow> ledger_call (\<lambda>n. record_validated jsonb (f n) (g n) l i v b vm)"
    by (rule ledger_callI [where x = "\<lambda>n. PRecordValidated jsonb (f n) (g n) l i v b vm"]) simp
  show "ledger_call (\<lambda>n. pub_finalize jsonb (f n) (g n) (ck n) (h' n) (\<lambda>k. uuid_str (us n k)) l req)"
    by (rule ledger_callI [where x = "\<lambda>n. PFinalize jsonb (f n) (g n) (ck n) (h' n) (\<lambda>k. uuid_str (us n k)) l req"])
       (simp add: uuid_str_not_blank list_all_iff)
qed

lemma on_ledger_run:
  assumes "ledger_call m"
  shows "\<exists>ops. p_run ops (pw_db w) = Some (pw_db (snd (on_ledger V m w)))"
    and "\<exists>s. snd (on_ledger V m w) = w\<lparr>pw_db := s, pw_tick := Suc (pw_tick w)\<rparr>"
proof -
  obtain xs where xs: "p_run xs (pw_db w) = Some (db_before V w)"
  proof (cases "p_run (sv_others V (pw_tick w)) (pw_db w)")
    case None
    then have "p_run [] (pw_db w) = Some (db_before V w)" by (simp add: db_before_def p_run_def)
    then show ?thesis by (rule that)
  next
    case (Some s)
    then show ?thesis using that by (simp add: db_before_def)
  qed
  obtain ys where "p_run ys (db_before V w) = Some (snd (m (pw_tick w) (db_before V w)))"
    using assms by (auto simp: ledger_call_def)
  from p_run_append [OF xs this] show "\<exists>ops. p_run ops (pw_db w) = Some (pw_db (snd (on_ledger V m w)))"
    by (auto simp: on_ledger_def split: prod.split)
  show "\<exists>s. snd (on_ledger V m w) = w\<lparr>pw_db := s, pw_tick := Suc (pw_tick w)\<rparr>"
    by (auto simp: on_ledger_def split: prod.split)
qed

lemma on_ledger_wp:
  "wp X Y (m (pw_tick w) (db_before V w)) \<Longrightarrow> wp (\<lambda>e w'. X e (pw_db w')) (\<lambda>a w'. Y a (pw_db w')) (on_ledger V m w)"
  by (auto simp: wp_def on_ledger_def split: prod.splits sum.splits)

lemma db_before_inv: "p_inv (pw_db w) \<Longrightarrow> p_inv (db_before V w)"
  by (auto simp: db_before_def split: option.split dest: p_run_inv')

section \<open>Stable predicates\<close>

text \<open>
  \<open>stable_calls\<close>: kept by the ledger, the hooks and the reads of the attempt store; \<open>stable_publish\<close>:
  by the writes of the publisher and its deletions too.
\<close>

locale stable_calls =
  fixes V :: "('a, 'c) publish_service" and P :: "('a, 'c) publish_world \<Rightarrow> bool"
  assumes ledger: "P w \<Longrightarrow> p_run ops (pw_db w) = Some s \<Longrightarrow> P (w\<lparr>pw_db := s, pw_tick := n\<rparr>)"
    and attempt_open: "P w \<Longrightarrow> P (w\<lparr>pw_attempts := snd (as_open (sv_attempts V) k (pw_attempts w))\<rparr>)"
    and attempt_stat: "P w \<Longrightarrow> P (w\<lparr>pw_attempts := snd (as_stat (sv_attempts V) k (pw_attempts w))\<rparr>)"
    and attempt_page: "P w \<Longrightarrow> P (w\<lparr>pw_attempts := snd (as_page (sv_attempts V) before limit i (pw_attempts w))\<rparr>)"
begin

lemma on_ledger_keeps [keeps_intros]: "ledger_call m \<Longrightarrow> preserves P (on_ledger V m)"
proof (rule keepsI)
  fix w assume m: "ledger_call m" and w: "P w"
  obtain ops where ops: "p_run ops (pw_db w) = Some (pw_db (snd (on_ledger V m w)))" using on_ledger_run(1) [OF m] by blast
  obtain s where s: "snd (on_ledger V m w) = w\<lparr>pw_db := s, pw_tick := Suc (pw_tick w)\<rparr>" using on_ledger_run(2) [OF m] by blast
  show "P (snd (on_ledger V m w))" unfolding s by (rule ledger [OF w]) (use ops s in simp)
qed

lemma run_hook_keeps [keeps_intros]: "preserves P (run_hook h)"
proof (rule keepsI)
  fix w assume w: "P w"
  have "p_run [] (pw_db w) = Some (pw_db w)" by (simp add: p_run_def)
  from ledger [OF w this, of "Suc (pw_tick w)"] show "P (snd (run_hook h w))" by (simp add: run_hook_def)
qed

lemma on_attempts_keeps: "(\<And>w. P w \<Longrightarrow> P (w\<lparr>pw_attempts := snd (m (pw_attempts w))\<rparr>)) \<Longrightarrow> preserves P (on_attempts m)"
  by (rule keepsI) (simp add: on_attempts_def case_prod_beta)

lemma attempt_reads_keep [keeps_intros]:
  "preserves P (on_attempts (as_open (sv_attempts V) k))" "preserves P (on_attempts (as_stat (sv_attempts V) k))"
  "preserves P (on_attempts (as_page (sv_attempts V) before limit i))"
  by (intro on_attempts_keeps attempt_open attempt_stat attempt_page; assumption)+

lemma fence_keeps [keeps_intros]:
  "preserves P (assert_lease V l)" "preserves P (service_fault V)" "preserves P (service_checkpoint V l)"
  "preserves P (validation_checkpoint V l ph n)" "preserves P (reject_current V l p reason)" "preserves P (get_publication V i)"
  "preserves P (cleanup_row V p')" "preserves P (lookup_ledger V f)" "preserves P (abandon_open V r p)"
  unfolding assert_lease_def service_fault_def service_checkpoint_def validation_checkpoint_def reject_current_def
    get_publication_def cleanup_row_def lookup_ledger_def abandon_open_def
  by (intro keeps_intros ledger_calls)+

lemma validate_artifact_keeps:
  assumes pr: "\<And>ph n. preserves P (progress ph n)" shows "preserves P (validate_artifact F probe progress p x)"
proof -
  have scan: "preserves P (scan_artifact progress p cs snap)" for cs snap
  proof (induction cs arbitrary: snap)
    case Nil
    then show ?case by (simp add: preserves_def)
  next
    case (Cons c cs)
    show ?case unfolding scan_artifact.simps Let_def validation_error_def by (intro keeps_intros pr Cons.IH)
  qed
  show ?thesis
    unfolding validate_artifact_def validation_error_def Let_def by (intro keeps_intros scan pr)
qed

lemma iter_chunks_keeps: "preserves P (iter_chunks V l n cs m)"
proof (induction cs arbitrary: m)
  case Nil
  then show ?case by (auto intro: keeps_intros)
next
  case (Cons c cs)
  show ?case unfolding iter_chunks.simps Let_def by (intro keeps_intros Cons.IH)
qed

lemma bounded_chunks_keeps: "P w \<Longrightarrow> P (snd (bounded_chunks V l mx ex cs e n w))"
proof (induction cs arbitrary: n w)
  case (Cons c cs)
  have "P (snd (service_checkpoint V l w))" by (rule keepsD [OF fence_keeps(3) Cons.prems])
  then show ?case using Cons.prems Cons.IH
    by (cases c; cases "service_checkpoint V l w")
       (auto simp: Let_def case_prod_beta split: sum.split)
qed simp

lemma validate_object_keeps [keeps_intros]: "preserves P (validate_object V l c p key)"
  unfolding validate_object_def validation_failed_def
  by (intro keeps_intros validate_artifact_keeps)

lemma verify_canonical_keeps:
  assumes "\<And>k. preserves P (on_canonical_store (cn_open (sv_canonical V) k))" shows "preserves P (verify_canonical V l p)"
  unfolding verify_canonical_def
  by (cases "pb_observed_sha256 p"; cases "pb_observed_size p") (auto intro!: keeps_intros assms iter_chunks_keeps)

end

locale stable_publish = stable_calls +
  assumes attempt_put: "P w \<Longrightarrow> P (w\<lparr>pw_attempts := snd (as_put (sv_attempts V) e k st (pw_attempts w))\<rparr>)"
    and attempt_delete: "P w \<Longrightarrow> P (w\<lparr>pw_attempts := snd (as_delete (sv_attempts V) k (pw_attempts w))\<rparr>)"
    and canonical_put: "P w \<Longrightarrow> P (w\<lparr>pw_canonical := snd (cn_put (sv_canonical V) (sv_rival V n) cs (pw_canonical w))\<rparr>)"
    and canonical_open: "P w \<Longrightarrow> P (w\<lparr>pw_canonical := snd (cn_open (sv_canonical V) k (pw_canonical w))\<rparr>)"
begin

lemma store_calls_keep [keeps_intros]:
  "preserves P (on_attempts (as_put (sv_attempts V) e k st))" "preserves P (on_attempts (as_delete (sv_attempts V) k))"
  "preserves P (on_canonical_store (cn_put (sv_canonical V) (sv_rival V n) cs))"
  "preserves P (on_canonical_store (cn_open (sv_canonical V) k))"
  by (auto intro!: on_attempts_keeps attempt_put attempt_delete)
     (auto simp: preserves_def on_canonical_store_def case_prod_beta canonical_put canonical_open)

lemma bounded_put_keeps [keeps_intros]:
  "preserves P (\<lambda>w. case bounded_chunks V l mx ex cs e n w of
     (st, w') \<Rightarrow> on_attempts (as_put (sv_attempts V) (sv_put_env V (pw_tick w')) key st) w')"
proof (rule keepsI)
  fix w assume "P w"
  then have "P (snd (bounded_chunks V l mx ex cs e n w))" by (rule bounded_chunks_keeps)
  from keepsD [OF store_calls_keep(1) this] show "P (snd (case bounded_chunks V l mx ex cs e n w of
    (st, w') \<Rightarrow> on_attempts (as_put (sv_attempts V) (sv_put_env V (pw_tick w')) key st) w'))"
    by (simp add: case_prod_beta)
qed

lemma write_attempt_keeps [keeps_intros]: "preserves P (write_attempt V l c p key)"
  unfolding write_attempt_def by (intro keeps_intros ledger_calls)

lemma promote_object_keeps [keeps_intros]: "preserves P (promote_object V l p key v)"
proof -
  have "preserves P (\<lambda>w. on_canonical_store (cn_put (sv_canonical V) (sv_rival V (pw_tick w)) cs) w)" for cs
    by (rule keepsI) (use keepsD [OF store_calls_keep(3)] in simp)
  note put = this
  show ?thesis unfolding promote_object_def by (intro keeps_intros put iter_chunks_keeps)
qed

lemma validate_and_promote_keeps [keeps_intros]: "preserves P (validate_and_promote V l c p key)"
  unfolding validate_and_promote_def
proof (intro keeps_intros)
  fix v obj
  show "preserves P (\<lambda>w. lift (new_BlobRecord (uuid_str (sv_uuid V (pw_tick w) 0)) (obj_sha256 obj) (obj_size_bytes obj)
      (obj_storage_key obj) BLOB_VERIFIED (vd_content_type v)) w (\<lambda>b.
      sbind (on_ledger V (\<lambda>n. record_validated (sv_jsonb V) (sv_clock V n 0) (sv_clock V n 1) l (pb_id p)
        (pb_version p) b (vd_metadata v))) (\<lambda>p'. sbind (service_fault V) (\<lambda>_. ok p')) w))"
    (is "preserves P (\<lambda>w. lift (?mk w) w (\<lambda>b. ?go b w))")
  proof (rule keepsI)
    fix w assume w: "P w"
    show "P (snd (lift (?mk w) w (\<lambda>b. ?go b w)))"
    proof (cases "?mk w")
      case (Inr b)
      have "preserves P (?go b)"
        by (intro keeps_intros ledger_calls new_BlobRecord_id [OF Inr])
      from keepsD [OF this w] show ?thesis by (simp add: Inr lift_def)
    qed (use w in \<open>simp add: lift_def\<close>)
  qed
qed

lemma advance_keeps: "preserves P (advance V l c)"
proof -
  have "preserves P (finish_advance V l p)" for p
    unfolding finish_advance_def by (intro keeps_intros verify_canonical_keeps)
  note finish = this
  show ?thesis unfolding advance_def
    by (intro keeps_intros finish ledger_calls) (metis new_PublicationSpec_same)
qed

lemma after_finalize_keeps [keeps_intros]:
  "preserves P (finalize_faults V ps)" "preserves P (cleanup_best_effort V ps)"
  by (induction ps) (auto intro!: keeps_intros)

lemma publish_keeps: "preserves P (publish V l requested)"
proof -
  have "preserves P (advance_all V l cs)" for cs
    by (induction cs) (auto intro!: keeps_intros advance_keeps)
  note all = this
  show ?thesis unfolding publish_def by (intro keeps_intros all ledger_calls)
qed

end

end
