(* ===== verification/ServiceSweep.thy ===== *)
theory ServiceSweep
  imports ServiceSteps
begin

text \<open>
  The sweeper deletes an object only when no publication of the ledger that is open has its key: it
  deletes for rows that are terminal, and for keys whose publication the ledger does not know.
\<close>

section \<open>Keys and rows\<close>

text \<open>The identifiers of the rows are UUIDs in their normal form, as PostgreSQL renders them.\<close>

definition canonical_rows :: "pub_db \<Rightarrow> bool" where
  "canonical_rows s \<longleftrightarrow> (\<forall>i \<in> fst ` set (pd_publications s). uuid_canonical i = Inr i)"

definition dead_key :: "pub_db \<Rightarrow> string \<Rightarrow> bool" where
  "dead_key s k \<longleftrightarrow> (canonical_rows s \<longrightarrow>
     (\<forall>i r. map_of (pd_publications s) i = Some r \<and> pub_open r \<longrightarrow> publication_key r \<noteq> Inr k))"

definition settled :: "publication \<Rightarrow> pub_db \<Rightarrow> bool" where
  "settled p s \<longleftrightarrow> (\<exists>r. map_of (pd_publications s) (pb_id p) = Some r \<and> pub_terminal (pb_state r) \<and>
     publication_key r = publication_key p)"

definition row_record :: "string \<Rightarrow> publication \<Rightarrow> pub_db \<Rightarrow> bool" where
  "row_record i p s \<longleftrightarrow> (\<exists>r. map_of (pd_publications s) i = Some r \<and> p = record_of r)"

lemma publication_key_record [simp]: "publication_key (record_of r) = publication_key r"
  by (simp add: publication_key_def)

lemma publication_key_id:
  "publication_key p = Inr k \<Longrightarrow> \<exists>j a e kd i. parse_attempt_key k = Inr (j, a, e, kd, i) \<and> uuid_canonical (pb_id p) = Inr i"
  by (auto simp: publication_key_def attempt_key_eq parse_attempt_key_names)

lemma canonical_rowsD: "canonical_rows s \<Longrightarrow> map_of (pd_publications s) i = Some r \<Longrightarrow> uuid_canonical i = Inr i"
  by (force simp: canonical_rows_def dest: map_of_SomeD)

lemma same_identity_key: "same_identity_row r r' \<Longrightarrow> pb_id r = pb_id r' \<Longrightarrow> publication_key r' = publication_key r"
  by (simp add: same_identity_row_def publication_key_def)

text \<open>An open row with the key would be the row of the identifier in the key.\<close>

lemma dead_keyI:
  assumes inv: "p_inv s" and k: "parse_attempt_key k = Inr (j, a, e, kd, i)"
    and "\<And>r. map_of (pd_publications s) i = Some r \<Longrightarrow> pub_terminal (pb_state r)"
  shows "dead_key s k"
  unfolding dead_key_def
proof (intro impI allI notI)
  fix i' r assume c: "canonical_rows s" and r: "map_of (pd_publications s) i' = Some r \<and> pub_open r"
    and key: "publication_key r = Inr k"
  have "pb_id r = i'" using p_row [OF inv] r by (auto simp: row_ok_def)
  moreover have "uuid_canonical (pb_id r) = Inr i" using publication_key_id [OF key] k by auto
  ultimately have "i' = i" using canonical_rowsD [OF c] r by simp
  then show False using assms(3) r by (auto simp: pub_open_not_terminal)
qed

lemma settled_dead: 
  assumes inv: "p_inv s" and p: "settled p s" and k: "publication_key p = Inr k" shows "dead_key s k"
  unfolding dead_key_def
proof (intro impI)
  assume c: "canonical_rows s"
  obtain r where r: "map_of (pd_publications s) (pb_id p) = Some r" "pub_terminal (pb_state r)"
    using p by (auto simp: settled_def)
  obtain j a e kd i where i: "parse_attempt_key k = Inr (j, a, e, kd, i)" "uuid_canonical (pb_id p) = Inr i"
    using publication_key_id [OF k] by blast
  have "pb_id p = i" using canonical_rowsD [OF c r(1)] i(2) by simp
  then have "dead_key s k" using r by (intro dead_keyI [OF inv i(1)]) simp
  with c show "\<forall>i r. map_of (pd_publications s) i = Some r \<and> pub_open r \<longrightarrow> publication_key r \<noteq> Inr k"
    by (simp add: dead_key_def)
qed

lemma settled_run: 
  assumes run: "p_run ops s = Some t" and inv: "p_inv s" and p: "settled p s" shows "settled p t"
proof -
  obtain r where r: "map_of (pd_publications s) (pb_id p) = Some r" "pub_terminal (pb_state r)"
    "publication_key r = publication_key p" using p by (auto simp: settled_def)
  have "grows pub_le (map_of (pd_publications s)) (map_of (pd_publications t))"
    using p_run_le [OF run inv] by (simp add: p_le_def)
  from growsD [OF this r(1)] obtain r' where r': "map_of (pd_publications t) (pb_id p) = Some r'" "pub_le r r'" by blast
  have "pb_id r = pb_id r'"
    using p_row [OF inv r(1)] p_row [OF p_run_inv' [OF run inv] r'(1)] by (simp add: row_ok_def)
  then show ?thesis using r r' by (auto simp: settled_def pub_le_def same_identity_key)
qed

lemma row_record_settled:
  "p_inv s \<Longrightarrow> row_record i p s \<Longrightarrow> pub_terminal (pb_state p) \<Longrightarrow> settled p s"
  by (force simp: row_record_def settled_def row_ok_def dest: p_row)

section \<open>Predicates that the sweeper keeps\<close>

locale stable_sweep = stable_calls +
  assumes delete_dead: "P w \<Longrightarrow> dead_key (pw_db w) k \<Longrightarrow>
    P (w\<lparr>pw_attempts := snd (as_delete (sv_attempts V) k (pw_attempts w))\<rparr>)"
begin

lemma delete_record_keeps:
  assumes w: "P w" and inv: "p_inv (pw_db w)" and p: "settled p (pw_db w)"
  shows "P (snd (delete_record V p w))"
proof (cases "checked_key p")
  case (Inr key)
  then have key: "publication_key p = Inr key" by (auto simp: checked_key_def after_eq_Inr split: if_splits)
  let ?Q = "\<lambda>w. P w \<and> dead_key (pw_db w) key"
  have stat: "preserves ?Q (handle missing (\<lambda>_. ok False) (sbind (on_attempts (as_stat (sv_attempts V) key)) (\<lambda>_. ok True)))"
    by (intro keeps_intros) (auto simp: preserves_def on_attempts_def case_prod_beta attempt_stat)
  have delete: "P (snd (sbind (on_attempts (as_delete (sv_attempts V) key)) (\<lambda>_. sbind (cleanup_row V p) (\<lambda>_. ok b)) w'))"
    if "?Q w'" for w' and b :: bool
  proof -
    have "P (snd (on_attempts (as_delete (sv_attempts V) key) w'))"
      using that delete_dead by (simp add: on_attempts_def case_prod_beta)
    moreover have "preserves P (sbind (cleanup_row V p) (\<lambda>_. ok b))" by (intro keeps_intros)
    ultimately show ?thesis
      by (auto simp: sbind_def preserves_def split: prod.splits sum.splits)
  qed
  have "?Q (snd (handle missing (\<lambda>_. ok False) (sbind (on_attempts (as_stat (sv_attempts V) key)) (\<lambda>_. ok True)) w))"
    by (rule keepsD [OF stat]) (use w settled_dead [OF inv p key] in simp)
  then show ?thesis using delete
    by (auto simp: delete_record_def Inr lift_def sbind_def [of "handle _ _ _"] split: prod.splits sum.splits)
qed (use w in \<open>simp add: delete_record_def lift_def\<close>)

end

text \<open>The same with what is known of the ledger on the way.\<close>

definition swept_past ::
  "(('a, 'c) publish_world \<Rightarrow> bool) \<Rightarrow> publication set \<Rightarrow> ('a, 'c) publish_world \<Rightarrow> bool"
where
  "swept_past P S w \<longleftrightarrow> P w \<and> p_inv (pw_db w) \<and> (\<forall>p \<in> S. settled p (pw_db w))"

context stable_sweep begin

lemma stable_past: "stable_sweep V (swept_past P S)"
proof unfold_locales
  fix w ops s n assume w: "swept_past P S w" and run: "p_run ops (pw_db w) = Some s"
  then show "swept_past P S (w\<lparr>pw_db := s, pw_tick := n\<rparr>)"
    using ledger [OF _ run] p_run_inv' [OF run] settled_run [OF run] by (auto simp: swept_past_def)
qed (auto simp: swept_past_def attempt_open attempt_stat attempt_page delete_dead)

lemmas past_calls = stable_calls.fence_keeps [OF stable_sweep.axioms(1) [OF stable_past]]
  stable_calls.attempt_reads_keep [OF stable_sweep.axioms(1) [OF stable_past]]
  stable_calls.on_ledger_keeps [OF stable_sweep.axioms(1) [OF stable_past]]

lemma delete_past: "p \<in> S \<Longrightarrow> preserves (swept_past P S) (delete_record V p)"
  by (rule keepsI, rule stable_sweep.delete_record_keeps [OF stable_past]) (simp_all add: swept_past_def)

lemma sweep_terminal_past: "set ps \<subseteq> S \<Longrightarrow> preserves (swept_past P S) (sweep_terminal V ps z)"
proof (induction ps arbitrary: z)
  case (Cons p ps)
  then show ?case by (auto intro!: keeps_intros delete_past)
qed (auto intro: keeps_intros)

text \<open>A row that has been read is dealt with: terminal it is settled, open it is abandoned first.\<close>

lemma get_publication_wp:
  assumes w: "swept_past P S w"
  shows "wp (\<lambda>e w'. swept_past P S w' \<and> map_of (pd_publications (pw_db w')) i = None)
      (\<lambda>p w'. swept_past P S w' \<and> row_record i p (pw_db w')) (get_publication V i w)"
  unfolding wp_conj
proof
  show "wp (\<lambda>_. swept_past P S) (\<lambda>_. swept_past P S) (get_publication V i w)"
    unfolding wp_state by (rule keepsD [OF past_calls(6) w])
  have "p_inv (db_before V w)" using w by (simp add: swept_past_def db_before_inv)
  from select_record_eq [OF this, of i]
  show "wp (\<lambda>e w'. map_of (pd_publications (pw_db w')) i = None) (\<lambda>p w'. row_record i p (pw_db w')) (get_publication V i w)"
    unfolding get_publication_def
    by (intro on_ledger_wp) (auto simp: pub_get_def row_record_def not_found_def wp_simps split: option.splits)
qed

lemma abandon_open_wp:
  assumes w: "swept_past P S w" and p: "row_record i p (pw_db w)"
  shows "wp (\<lambda>_. swept_past P S) (\<lambda>q. swept_past P (insert q S)) (abandon_open V reason p w)"
proof (cases "pub_terminal (pb_state p)")
  case True
  then show ?thesis using w row_record_settled [OF _ p] by (simp add: abandon_open_def swept_past_def wp_simps)
next
  case False
  let ?m = "\<lambda>n. pub_abandon (sv_clock V n 0) (sv_clock V n 1) (pb_id p) (pb_version p) reason"
  have inv: "p_inv (db_before V w)" using w by (simp add: swept_past_def db_before_inv)
  have row: "settled q s'" if "abandoned_row t' j v reason' old r (db_before V w) s'" "q = record_of r" "p_inv s'" for q s' t' j v reason' old r
  proof -
    have "map_of (pd_publications s') j = Some r" "pb_state r = PUB_ABANDONED"
      using that(1) by (auto simp: abandoned_row_def moved_quietly_def row_moved_def map_of_set_row)
    then show ?thesis using that(2,3) row_record_settled [of s' j q] by (auto simp: row_record_def pub_terminal_def)
  qed
  have "wp (\<lambda>_ _. True) (\<lambda>q s'. p_inv s' \<longrightarrow> settled q s') (?m (pw_tick w) (db_before V w))"
    by (rule wp_mono [OF pub_abandon_wp [OF inv]]) (auto intro: row)
  from on_ledger_wp [where m = ?m, OF this]
  have "wp (\<lambda>_ _. True) (\<lambda>q w'. p_inv (pw_db w') \<longrightarrow> settled q (pw_db w')) (on_ledger V ?m w)" .
  moreover have "wp (\<lambda>_. swept_past P S) (\<lambda>_. swept_past P S) (on_ledger V ?m w)"
    unfolding wp_state by (rule keepsD [OF past_calls(13) w]) (rule ledger_calls)
  ultimately have "wp (\<lambda>e w'. swept_past P S w' \<and> True)
      (\<lambda>q w'. swept_past P S w' \<and> (p_inv (pw_db w') \<longrightarrow> settled q (pw_db w'))) (on_ledger V ?m w)"
    unfolding wp_conj by simp
  then show ?thesis
    unfolding abandon_open_def using False by (simp, elim wp_mono) (auto simp: swept_past_def)
qed

lemma settle_and_delete:
  assumes w: "swept_past P S w" and p: "row_record i p (pw_db w)"
  shows "swept_past P S (snd (sbind (abandon_open V reason p) (\<lambda>q. sbind (delete_record V q) (\<lambda>b. ok (f b))) w))"
proof -
  have "wp (\<lambda>_. swept_past P S) (\<lambda>_. swept_past P S) (sbind (delete_record V q) (\<lambda>b. ok (f b)) w')"
    if "swept_past P (insert q S) w'" for q w'
  proof -
    have "preserves (swept_past P (insert q S)) (sbind (delete_record V q) (\<lambda>b. ok (f b)))"
      by (intro keeps_intros delete_past) simp
    from keepsD [OF this that] show ?thesis unfolding wp_state by (simp add: swept_past_def)
  qed
  then show ?thesis unfolding wp_state [symmetric, where P = "swept_past P S"] wp_sbind
    by (intro wp_mono [OF abandon_open_wp [OF w p]])
qed

lemma look_up_wp:
  assumes w: "swept_past P S w"
  shows "wp (\<lambda>_. swept_past P S)
      (\<lambda>found w'. swept_past P S w' \<and> (case found of None \<Rightarrow> map_of (pd_publications (pw_db w')) i = None
         | Some p \<Rightarrow> row_record i p (pw_db w')))
      (handle caught (\<lambda>_. ok None) (sbind (get_publication V i) (\<lambda>p. ok (Some p))) w)"
  unfolding wp_handle wp_sbind by (rule wp_mono [OF get_publication_wp [OF w]]) (simp_all add: wp_simps)

lemma sweep_orphan_past: "preserves (swept_past P S) (sweep_orphan V key z)"
proof (rule keepsI)
  fix w assume w: "swept_past P S w"
  show "swept_past P S (snd (sweep_orphan V key z w))"
  proof (cases "parse_attempt_key key")
    case (Inr n)
    obtain j a e kd i where n: "n = (j, a, e, kd, i)" by (cases n)
    have found: "swept_past P S (snd (handle (\<lambda>e. instance_of_any e [NotFoundError, StateTransitionError]) (\<lambda>_. ok (note_seen i z)) (\<lambda>w.
        lift (checked_key p) w (\<lambda>k.
          if k \<noteq> key then fail ArtifactPublicationError ''orphan key does not match publication identity'' w
          else sbind (abandon_open V ''orphan_sweep'' p) (\<lambda>p'.
               sbind (delete_record V p') (\<lambda>b. ok (note_cleaned b (note_seen i z)))) w)) w'))"
      if "swept_past P S w'" "row_record i p (pw_db w')" for p w'
      unfolding wp_state [symmetric, where P = "swept_past P S"] wp_handle wp_lift wp_if
      by (intro conjI allI impI; (simp add: wp_simps that; fail)?)
         (rule wp_mono [OF settle_and_delete [OF that, folded wp_state]]; simp add: wp_simps)
    show ?thesis
      unfolding sweep_orphan_def Inr n wp_state [symmetric, where P = "swept_past P S"] wp_lift prod.case wp_if wp_sbind
      by (auto simp: wp_simps w intro!: wp_mono [OF look_up_wp [OF w]] split: option.splits)
         (simp add: wp_state found)
  qed (use w in \<open>simp add: sweep_orphan_def lift_def\<close>)
qed

lemma delete_unknown:
  assumes w: "swept_past P S w" and key: "parse_attempt_key key = Inr (j, a, e, kd, i)"
    and unknown: "map_of (pd_publications (pw_db w)) i = None"
  shows "swept_past P S (snd (sbind (on_attempts (as_delete (sv_attempts V) key)) (\<lambda>_. ok x) w))"
proof -
  have "dead_key (pw_db w) key"
    by (rule dead_keyI [OF _ key]) (use w unknown in \<open>simp_all add: swept_past_def\<close>)
  from stable_sweep.delete_dead [OF stable_past w this] show ?thesis
    by (auto simp: sbind_def on_attempts_def split: prod.splits sum.splits)
qed

lemma sweep_object_past: "preserves (swept_past P S) (sweep_object V key z)"
proof (rule keepsI)
  fix w assume w: "swept_past P S w"
  show "swept_past P S (snd (sweep_object V key z w))"
  proof (cases "parse_attempt_key key")
    case (Inr n)
    obtain j a e kd i where n: "n = (j, a, e, kd, i)" by (cases n)
    have found: "swept_past P S (snd (lift (checked_key p) w' (\<lambda>k.
          if k \<noteq> key then fail ArtifactPublicationError ''inventoried key differs from ledger identity'' w'
          else handle is_transition (\<lambda>_. ok (note_seen i z))
                 (sbind (abandon_open V ''orphan_inventory_sweep'' p) (\<lambda>p'.
                  sbind (delete_record V p') (\<lambda>b. ok (note_cleaned b (note_seen i z))))) w')))"
      if "swept_past P S w'" "row_record i p (pw_db w')" for p w'
      unfolding wp_state [symmetric, where P = "swept_past P S"] wp_lift wp_if wp_handle
      by (intro conjI allI impI; (simp add: wp_simps that; fail)?)
         (rule wp_mono [OF settle_and_delete [OF that, folded wp_state]]; simp add: wp_simps)
    show ?thesis
    proof (cases "i \<in> set (snd z)")
      case False
      show ?thesis
        unfolding sweep_object_def Inr n lift_Inr prod.case if_not_P [OF False]
          wp_state [symmetric, where P = "swept_past P S"] wp_sbind
      proof (rule wp_mono [OF look_up_wp [OF w]], assumption, goal_cases)
        case (1 y w')
        then show ?case using delete_unknown [OF _ Inr [unfolded n], of S w'] found [of w']
          by (cases y) (simp_all add: wp_state)
      qed
    qed (use w in \<open>simp add: sweep_object_def Inr n lift_def ok_def\<close>)
  qed (use w in \<open>simp add: sweep_object_def lift_def\<close>)
qed

lemma candidates_settled:
  assumes inv: "p_inv s" and ps: "cleanup_candidates before limit s = Inr ps" and p: "p \<in> set ps"
  shows "settled p s"
proof -
  have "rs \<subseteq> snd ` set (pd_publications s) \<Longrightarrow> records_of xs = Inr qs \<Longrightarrow> set xs \<subseteq> rs \<Longrightarrow> set qs \<subseteq> record_of ` set xs" for rs xs qs
    by (induction xs arbitrary: qs) (auto simp: after_eq_Inr dest!: from_row_Inr)
  then have recs: "records_of xs = Inr qs \<Longrightarrow> set xs \<subseteq> snd ` set (pd_publications s) \<Longrightarrow> set qs \<subseteq> record_of ` set xs" for xs qs
    by blast
  let ?open = "\<lambda>(i, r). pub_terminal (pb_state r) \<and> pb_deleted_at r = None \<and>
      (case pr_terminal_at r of None \<Rightarrow> False | Some x \<Rightarrow> x < before)"
  let ?xs = "take (nat limit) (sort_key (\<lambda>(i, r). (the (pr_terminal_at r), i)) (filter ?open (pd_publications s)))"
  have sub: "set ?xs \<subseteq> {x \<in> set (pd_publications s). ?open x}" by (auto dest!: in_set_takeD)
  have "records_of (map snd ?xs) = Inr ps" using ps by (auto simp: cleanup_candidates_def after_eq_Inr)
  from recs [OF this] have "set ps \<subseteq> record_of ` snd ` set ?xs" using sub by auto
  then obtain i r where r: "(i, r) \<in> set ?xs" "p = record_of r" using p by force
  then have "(i, r) \<in> set (pd_publications s)" "pub_terminal (pb_state r)" using sub by auto
  moreover have "distinct (map fst (pd_publications s))" using p_invD(3) [OF inv] by (simp add: rows_ok_def)
  ultimately show ?thesis by (intro row_record_settled [OF inv]) (auto simp: row_record_def r(2))
qed

lemma sweep_past: "preserves (swept_past P {}) (run_sweep V before limit)"
proof -
  have orphans: "preserves (swept_past P S) (sweep_orphans V n ks z)" for n ks z S
    by (induction ks arbitrary: z) (auto intro!: keeps_intros sweep_orphan_past)
  have inventory: "preserves (swept_past P S) (sweep_inventory V n known ks z)" for n known ks z S
    by (induction ks arbitrary: z) (auto intro!: keeps_intros sweep_object_past)
  define rest where "rest = (\<lambda>rows. sbind (sweep_terminal V rows (0, [])) (\<lambda>z.
        sbind (let remaining = limit - int (length (snd z)) in
               if remaining \<le> 0 then ok [] else lookup_ledger V (orphan_keys_before before remaining)) (\<lambda>keys.
        sbind (sweep_orphans V (nat limit) keys z) (\<lambda>z.
          let remaining = limit - int (length (snd z)) in
          if remaining \<le> 0 then ok (fst z)
          else
            sbind (on_attempts (as_page (sv_attempts V) before remaining ''orphan_sweep'')) (\<lambda>page.
            sbind (lookup_ledger V (known_attempt_keys (map ao_storage_key (ip_objects page)))) (\<lambda>known.
            sbind (sweep_inventory V (nat limit) known (map ao_storage_key (ip_objects page)) z) (\<lambda>z. ok (fst z))))))))"
  have rest: "preserves (swept_past P (set rows)) (rest rows)" for rows
    unfolding rest_def Let_def
    by (intro keeps_intros orphans inventory past_calls sweep_terminal_past subset_refl)
  have find: "wp (\<lambda>_. swept_past P {}) (\<lambda>rows. swept_past P (set rows)) (lookup_ledger V (cleanup_candidates before limit) w)"
    if w: "swept_past P {} w" for w
  proof -
    let ?m = "\<lambda>(n::nat) s. (cleanup_candidates before limit s, s)"
    have "p_inv (db_before V w)" using w by (simp add: swept_past_def db_before_inv)
    then have "wp (\<lambda>_ _. True) (\<lambda>rows w'. \<forall>p \<in> set rows. settled p (pw_db w')) (on_ledger V ?m w)"
      by (intro on_ledger_wp [where m = ?m])
         (cases "cleanup_candidates before limit (db_before V w)"; simp add: wp_simps candidates_settled)
    moreover have "wp (\<lambda>_. swept_past P {}) (\<lambda>_. swept_past P {}) (on_ledger V ?m w)"
      unfolding wp_state by (rule keepsD [OF past_calls(13) w]) (rule ledger_calls)
    ultimately have "wp (\<lambda>_ w'. True \<and> swept_past P {} w') (\<lambda>rows w'. (\<forall>p \<in> set rows. settled p (pw_db w')) \<and> swept_past P {} w')
        (on_ledger V ?m w)" unfolding wp_conj by simp
    then show ?thesis unfolding lookup_ledger_def by (rule wp_mono) (auto simp: swept_past_def)
  qed
  show ?thesis
  proof (rule keepsI)
    fix w assume w: "swept_past P {} w"
    have "wp (\<lambda>_. swept_past P {}) (\<lambda>_. swept_past P {}) (rest rows w')" if "swept_past P (set rows) w'" for rows w'
      using keepsD [OF rest that] unfolding wp_state by (simp add: swept_past_def)
    then show "swept_past P {} (snd (run_sweep V before limit w))"
      unfolding wp_state [symmetric, where P = "swept_past P {}"]
      unfolding run_sweep_def rest_def [symmetric] wp_if wp_sbind
      by (auto simp: wp_simps w intro!: wp_mono [OF find [OF w]])
  qed
qed

lemma sweep_keeps: "P w \<Longrightarrow> p_inv (pw_db w) \<Longrightarrow> P (snd (run_sweep V before limit w))"
  using keepsD [OF sweep_past, of w] by (simp add: swept_past_def)

end

section \<open>The object of an open publication\<close>

text \<open>While the row of the object's publication is open, the object is held.\<close>

definition spared ::
  "('a \<Rightarrow> bool) \<Rightarrow> ('a \<Rightarrow> string \<Rightarrow> (string \<times> int) option) \<Rightarrow> string \<Rightarrow> string \<Rightarrow> string \<times> int \<Rightarrow> ('a, 'c) publish_world \<Rightarrow> bool"
where
  "spared ok_store held i k h w \<longleftrightarrow> ok_store (pw_attempts w) \<and> p_inv (pw_db w) \<and>
     (\<exists>r. map_of (pd_publications (pw_db w)) i = Some r \<and> publication_key r = Inr k \<and>
        (canonical_rows (pw_db w) \<and> pub_open r \<longrightarrow> held (pw_attempts w) k = Some h))"

lemma row_later:
  assumes run: "p_run ops s = Some t" and inv: "p_inv s" and r: "map_of (pd_publications s) i = Some r"
  shows "\<exists>r'. map_of (pd_publications t) i = Some r' \<and> publication_key r' = publication_key r \<and> (pub_open r' \<longrightarrow> pub_open r)"
proof -
  have "grows pub_le (map_of (pd_publications s)) (map_of (pd_publications t))"
    using p_run_le [OF run inv] by (simp add: p_le_def)
  from growsD [OF this r] obtain r' where r': "map_of (pd_publications t) i = Some r'" "pub_le r r'" by blast
  have "pb_id r = pb_id r'" using p_row [OF inv r] p_row [OF p_run_inv' [OF run inv] r'(1)] by (simp add: row_ok_def)
  then show ?thesis using r' by (auto simp: pub_le_def same_identity_key pub_open_not_terminal)
qed

lemma canonical_earlier:
  assumes run: "p_run ops s = Some t" and inv: "p_inv s" and t: "canonical_rows t" shows "canonical_rows s"
  unfolding canonical_rows_def
proof
  fix i assume "i \<in> fst ` set (pd_publications s)"
  then obtain r where "map_of (pd_publications s) i = Some r" by (auto simp: dom_map_of_conv_image_fst [symmetric])
  from row_later [OF run inv this] canonical_rowsD [OF t] show "uuid_canonical i = Inr i" by blast
qed

context attempt_store begin

lemma stable_spared:
  fixes V :: "('s, 'c) publish_service"
  assumes V: "as_open (sv_attempts V) = opn" "as_stat (sv_attempts V) = stat" "as_delete (sv_attempts V) = delete"
    "as_page (sv_attempts V) = page"
    and reads: "\<And>k s. inv s \<Longrightarrow> snd (opn k s) = s" "\<And>k s. inv s \<Longrightarrow> snd (stat k s) = s"
  shows "stable_sweep V (spared inv held i k h)"
proof
  fix w :: "('s, 'c) publish_world" and ops s n assume w: "spared inv held i k h w" and run: "p_run ops (pw_db w) = Some s"
  then obtain r where r: "map_of (pd_publications (pw_db w)) i = Some r" "publication_key r = Inr k" "p_inv (pw_db w)"
    "canonical_rows (pw_db w) \<and> pub_open r \<longrightarrow> held (pw_attempts w) k = Some h" "inv (pw_attempts w)"
    by (auto simp: spared_def)
  show "spared inv held i k h (w\<lparr>pw_db := s, pw_tick := n\<rparr>)"
    using row_later [OF run r(3,1)] canonical_earlier [OF run r(3)] p_run_inv' [OF run r(3)] r
    by (auto simp: spared_def)
next
  fix w :: "('s, 'c) publish_world" and k' assume w: "spared inv held i k h w"
  then have s: "inv (pw_attempts w)" by (simp add: spared_def)
  show "spared inv held i k h (w\<lparr>pw_attempts := snd (as_open (sv_attempts V) k' (pw_attempts w))\<rparr>)"
    "spared inv held i k h (w\<lparr>pw_attempts := snd (as_stat (sv_attempts V) k' (pw_attempts w))\<rparr>)"
    using w by (simp_all add: V reads [OF s])
next
  fix w :: "('s, 'c) publish_world" and before limit i' assume w: "spared inv held i k h w"
  then show "spared inv held i k h (w\<lparr>pw_attempts := snd (as_page (sv_attempts V) before limit i' (pw_attempts w))\<rparr>)"
    by (auto simp: spared_def V page_inv page_held)
next
  fix w :: "('s, 'c) publish_world" and k' assume w: "spared inv held i k h w" and dead: "dead_key (pw_db w) k'"
  then show "spared inv held i k h (w\<lparr>pw_attempts := snd (as_delete (sv_attempts V) k' (pw_attempts w))\<rparr>)"
    by (fastforce simp: spared_def V delete_inv delete_held dead_key_def)
qed

end

end
