(* ===== verification/ServicePublish.thy ===== *)
theory ServicePublish
  imports ServiceSteps
begin

text \<open>
  What \<open>publish\<close> returns: a record that \<open>_advance\<close> hands on is VALIDATED and its bytes have been read
  from the canonical store; the ledger, the store and the record stay so until the call returns. The
  locale \<open>canonical_store\<close> is what the service relies on; both stores are interpreted in it.
\<close>

section \<open>The canonical store\<close>

locale canonical_store =
  fixes C :: "'c canonical_service" and inv :: "'c \<Rightarrow> bool" and held :: "'c \<Rightarrow> string \<Rightarrow> string option"
  assumes put_inv: "inv s \<Longrightarrow> inv (snd (cn_put C e cs s))"
    and put_keeps: "inv s \<Longrightarrow> held s k = Some x \<Longrightarrow> held (snd (cn_put C e cs s)) k = Some x"
    and open_state: "inv s \<Longrightarrow> snd (cn_open C k s) = s"
    and open_held: "inv s \<Longrightarrow> fst (cn_open C k s) = Inr x \<longleftrightarrow> held s k = Some x"

lemma same_digest_rival_ok: "rival_ok (same_digest_rival cs e) cs"
  by (auto simp: same_digest_rival_def rival_ok_def split: option.split dir_entry.split)

interpretation local_canonical: canonical_store local_canonical_service local_inv held_at
proof
  fix s :: local_store and e cs k x
  assume inv: "local_inv s"
  show "local_inv (snd (cn_put local_canonical_service e cs s))"
    using local_store.put_inv [OF inv same_digest_rival_ok] by (simp add: local_canonical_service_def)
  show "held_at (snd (cn_put local_canonical_service e cs s)) k = Some x" if "held_at s k = Some x"
    using local_store.put_keeps [OF inv same_digest_rival_ok that] by (simp add: local_canonical_service_def)
  have "(\<exists>x. held_at s k = Some x \<and> store_open_reader k s = (Inr x, s)) \<or>
      (\<exists>err. held_at s k = None \<and> store_open_reader k s = (Inl err, s))"
    using local_store.opn_held [OF inv] local_store.opn_missing [OF inv] by (cases "held_at s k") auto
  then show "snd (cn_open local_canonical_service k s) = s"
    "fst (cn_open local_canonical_service k s) = Inr x \<longleftrightarrow> held_at s k = Some x"
    by (auto simp: local_canonical_service_def)
qed

interpretation mem_canonical: canonical_store mem_canonical_service mem_inv "\<lambda>s. s"
proof
  fix s :: mem_store and e :: "dir_entry option" and cs k x
  assume inv: "mem_inv s"
  show "mem_inv (snd (cn_put mem_canonical_service e cs s))"
    using mem_store.put_inv [OF inv] by (simp add: mem_canonical_service_def)
  show "snd (cn_put mem_canonical_service e cs s) k = Some x" if "s k = Some x"
    using mem_store.put_keeps [OF inv _ that] by (simp add: mem_canonical_service_def)
  have "(\<exists>x. s k = Some x \<and> mem_open_reader k s = (Inr x, s)) \<or> (\<exists>err. s k = None \<and> mem_open_reader k s = (Inl err, s))"
    using mem_store.opn_held [OF inv] mem_store.opn_missing [OF inv] by (cases "s k") auto
  then show "snd (cn_open mem_canonical_service k s) = s"
    "fst (cn_open mem_canonical_service k s) = Inr x \<longleftrightarrow> s k = Some x"
    by (auto simp: mem_canonical_service_def)
qed

section \<open>What is known of a record\<close>

definition known_as :: "publication \<Rightarrow> pub_db \<Rightarrow> bool" where
  "known_as p s \<longleftrightarrow> (\<exists>r. map_of (pd_publications s) (pb_id p) = Some r \<and> pb_kind r = pb_kind p \<and>
     (\<forall>h n. pb_observed_sha256 p = Some h \<and> pb_observed_size p = Some n \<longrightarrow>
        pb_observed_sha256 r = Some h \<and> pb_observed_size r = Some n))"

definition stored :: "publication \<Rightarrow> (string \<Rightarrow> string option) \<Rightarrow> bool" where
  "stored p m \<longleftrightarrow> (\<exists>h n x. pb_observed_sha256 p = Some h \<and> pb_observed_size p = Some n \<and> m (key_of h) = Some x \<and>
     sha256_hex x = h \<and> int (length x) = n)"

lemma stored_mono: "stored p m \<Longrightarrow> m \<subseteq>\<^sub>m m' \<Longrightarrow> stored p m'"
  unfolding stored_def map_le_def by (metis domI)

lemma known_as_le:
  assumes "known_as p s" and "p_le s t" shows "known_as p t"
proof -
  obtain r where r: "map_of (pd_publications s) (pb_id p) = Some r" "pb_kind r = pb_kind p"
    "\<forall>h n. pb_observed_sha256 p = Some h \<and> pb_observed_size p = Some n \<longrightarrow>
        pb_observed_sha256 r = Some h \<and> pb_observed_size r = Some n" using assms(1) by (auto simp: known_as_def)
  have "grows pub_le (map_of (pd_publications s)) (map_of (pd_publications t))" using assms(2) by (simp add: p_le_def)
  from growsD [OF this r(1)] obtain r' where r': "map_of (pd_publications t) (pb_id p) = Some r'" "pub_le r r'" by blast
  then have "pb_kind r' = pb_kind r" "kept observed r r'" by (simp_all add: pub_le_def same_identity_row_def)
  then show ?thesis using r r'(1) by (auto simp: known_as_def kept_def observed_def)
qed

lemma known_as_run: "p_run ops s = Some t \<Longrightarrow> p_inv s \<Longrightarrow> known_as p s \<Longrightarrow> known_as p t"
  using known_as_le p_run_le by blast

lemma known_record:
  assumes "p_inv s" and "map_of (pd_publications s) i = Some r"
  shows "known_as (record_of r) s" "pb_id (record_of r) = i"
  using assms p_row [OF assms] by (auto simp: known_as_def row_ok_def)

lemma known_moved:
  assumes inv: "p_inv s'" and m: "moved_quietly i old r s s'" and p: "known_as p s" "i = pb_id p"
  shows "known_as (record_of r) s' \<and> pb_id (record_of r) = pb_id p \<and> pb_kind (record_of r) = pb_kind p"
proof -
  have "map_of (pd_publications s) i = Some old" "map_of (pd_publications s') i = Some r"
    using m by (auto simp: moved_quietly_def row_moved_def map_of_set_row)
  moreover from this have "pb_kind r = pb_kind old"
    using m guarded_row_le(1) by (fastforce simp: moved_quietly_def row_moved_def pub_le_def same_identity_row_def)
  ultimately show ?thesis using known_record [OF inv] p by (auto simp: known_as_def)
qed

text \<open>A record read back after a step of the publication \<open>p\<close>.\<close>

definition next_record :: "publication \<Rightarrow> publication \<Rightarrow> pub_db \<Rightarrow> bool" where
  "next_record p q s \<longleftrightarrow> known_as q s \<and> pb_id q = pb_id p \<and> pb_kind q = pb_kind p"

lemma next_moved:
  "p_inv s' \<Longrightarrow> moved_quietly (pb_id p) old r s s' \<Longrightarrow> known_as p s \<Longrightarrow> next_record p (record_of r) s'"
  using known_moved [of s' "pb_id p" old r s p] by (simp add: next_record_def)

lemma known_frame: "pd_publications s' = pd_publications s \<Longrightarrow> known_as p s' = known_as p s"
  by (simp add: known_as_def)

section \<open>Going on\<close>

definition going_on ::
  "('c \<Rightarrow> bool) \<Rightarrow> ('c \<Rightarrow> string \<Rightarrow> string option) \<Rightarrow> publication set \<Rightarrow> (string \<Rightarrow> string option) \<Rightarrow>
     ('a, 'c) publish_world \<Rightarrow> bool"
where
  "going_on ok_store held S m w \<longleftrightarrow> p_inv (pw_db w) \<and> ok_store (pw_canonical w) \<and> m \<subseteq>\<^sub>m held (pw_canonical w) \<and>
     (\<forall>p \<in> S. known_as p (pw_db w))"

context canonical_store begin

lemma stable_going_on:
  fixes V :: "('a, 'c) publish_service"
  assumes V: "sv_canonical V = C"
  shows "stable_publish V (going_on inv held S m)"
proof
  fix w :: "('a, 'c) publish_world" and ops s n assume w: "going_on inv held S m w" and run: "p_run ops (pw_db w) = Some s"
  then show "going_on inv held S m (w\<lparr>pw_db := s, pw_tick := n\<rparr>)"
    using p_run_inv' [OF run] known_as_run [OF run] by (simp add: going_on_def)
next
  fix w :: "('a, 'c) publish_world" and cs k n assume w: "going_on inv held S m w"
  then show "going_on inv held S m (w\<lparr>pw_canonical := snd (cn_put (sv_canonical V) (sv_rival V n) cs (pw_canonical w))\<rparr>)"
    "going_on inv held S m (w\<lparr>pw_canonical := snd (cn_open (sv_canonical V) k (pw_canonical w))\<rparr>)"
    using put_inv put_keeps open_state by (auto simp: going_on_def V map_le_def dom_def)
qed (simp_all add: going_on_def)

text \<open>A call that keeps the world going, and then the rest.\<close>

lemma going_pass:
  assumes "preserves Q m" and "Q w" and "\<And>a w'. Q w' \<Longrightarrow> wp (\<lambda>_ _. True) Y (k a w')"
  shows "wp (\<lambda>_ _. True) Y (sbind m k w)"
proof -
  have "wp (\<lambda>_. Q) (\<lambda>_. Q) (m w)" unfolding wp_state by (rule keepsD [OF assms(1,2)])
  then show ?thesis unfolding wp_sbind by (rule wp_mono) (simp_all add: assms(3))
qed

lemma ledger_pass:
  fixes V :: "('a, 'c) publish_service"
  assumes V: "sv_canonical V = C" and w: "going_on inv held S m w" and call: "ledger_call f"
    and step: "\<And>n s. p_inv s \<Longrightarrow> (\<And>p. p \<in> S \<Longrightarrow> known_as p s) \<Longrightarrow> wp (\<lambda>_ _. True) (\<lambda>a s'. p_inv s' \<longrightarrow> good a s') (f n s)"
    and rest: "\<And>a w'. going_on inv held S m w' \<Longrightarrow> good a (pw_db w') \<Longrightarrow> wp (\<lambda>_ _. True) Y (k a w')"
  shows "wp (\<lambda>_ _. True) Y (sbind (on_ledger V f) k w)"
proof -
  let ?s = "db_before V w"
  have inv: "p_inv ?s" and known: "\<And>p. p \<in> S \<Longrightarrow> known_as p ?s"
    using w by (auto simp: going_on_def db_before_inv db_before_def split: option.split dest: known_as_run p_run_inv')
  have "wp (\<lambda>_ _. True) (\<lambda>a w'. p_inv (pw_db w') \<longrightarrow> good a (pw_db w')) (on_ledger V f w)"
    by (rule on_ledger_wp) (rule step [OF inv known])
  moreover have "wp (\<lambda>_. going_on inv held S m) (\<lambda>_. going_on inv held S m) (on_ledger V f w)"
    unfolding wp_state
    by (rule keepsD [OF stable_calls.on_ledger_keeps [OF stable_publish.axioms(1) [OF stable_going_on [OF V]] call] w])
  ultimately have "wp (\<lambda>_ w'. True \<and> going_on inv held S m w')
      (\<lambda>a w'. (p_inv (pw_db w') \<longrightarrow> good a (pw_db w')) \<and> going_on inv held S m w') (on_ledger V f w)"
    unfolding wp_conj by simp
  then show ?thesis unfolding wp_sbind by (rule wp_mono) (auto simp: going_on_def intro!: rest)
qed

lemmas going_calls =
  stable_calls.fence_keeps [OF stable_publish.axioms(1) [OF stable_going_on]]
  stable_calls.on_ledger_keeps [OF stable_publish.axioms(1) [OF stable_going_on]]
  stable_calls.validate_object_keeps [OF stable_publish.axioms(1) [OF stable_going_on]]
  stable_publish.bounded_put_keeps [OF stable_going_on]
  stable_publish.promote_object_keeps [OF stable_going_on]
  stable_publish.after_finalize_keeps [OF stable_going_on]

lemma write_attempt_wp:
  fixes V :: "('a, 'c) publish_service"
  assumes V: "sv_canonical V = C" and w: "going_on inv held S m w" and p: "p \<in> S"
  shows "wp (\<lambda>_ _. True) (\<lambda>q w'. going_on inv held (insert q S) m w' \<and> pb_id q = pb_id p \<and> pb_kind q = pb_kind p)
    (write_attempt V l c p key w)"
proof -
  let ?Y = "\<lambda>q (w' :: ('a, 'c) publish_world). going_on inv held (insert q S) m w' \<and> pb_id q = pb_id p \<and> pb_kind q = pb_kind p"
  have rest: "wp (\<lambda>_ _. True) ?Y (sbind (on_ledger V (\<lambda>n. record_object (sv_clock V n 0) (sv_clock V n 1) l (pb_id p)
      (pb_version p) (ao_sha256 x) (ao_size_bytes x))) (\<lambda>p'. sbind (service_fault V) (\<lambda>_. ok p')) w')"
    if w': "going_on inv held S m w'" for x w'
  proof (rule ledger_pass [OF V w', where good = "next_record p"])
    fix q and w1 :: "('a, 'c) publish_world" assume w1: "going_on inv held S m w1" and q: "next_record p q (pw_db w1)"
    then have "going_on inv held (insert q S) m w1" by (simp add: going_on_def next_record_def)
    then show "wp (\<lambda>_ _. True) ?Y (sbind (service_fault V) (\<lambda>_. ok q) w1)"
      by (rule going_pass [OF going_calls(2) [OF V]]) (use q in \<open>simp add: wp_ok next_record_def\<close>)
  next
    fix n s assume inv: "p_inv s" and known: "\<And>p. p \<in> S \<Longrightarrow> known_as p s"
    show "wp (\<lambda>_ _. True) (\<lambda>q s'. p_inv s' \<longrightarrow> next_record p q s') (record_object (sv_clock V n 0) (sv_clock V n 1) l
        (pb_id p) (pb_version p) (ao_sha256 x) (ao_size_bytes x) s)"
      by (rule wp_mono [OF record_object_wp [OF inv]]) (auto simp: cas_moved_def known p intro: next_moved)
  qed (rule ledger_calls)
  show ?thesis
    unfolding write_attempt_def
    by ((rule rest, assumption) | rule w | assumption | rule going_pass [where Q = "going_on inv held S m"]
        | rule keeps_intros going_calls V ledger_calls)+
qed

lemma validate_and_promote_wp:
  fixes V :: "('a, 'c) publish_service"
  assumes V: "sv_canonical V = C" and w: "going_on inv held S m w" and p: "p \<in> S"
  shows "wp (\<lambda>_ _. True) (\<lambda>q w'. going_on inv held (insert q S) m w' \<and> pb_id q = pb_id p \<and> pb_kind q = pb_kind p)
    (validate_and_promote V l c p key w)"
proof -
  let ?Y = "\<lambda>q (w' :: ('a, 'c) publish_world). going_on inv held (insert q S) m w' \<and> pb_id q = pb_id p \<and> pb_kind q = pb_kind p"
  let ?go = "\<lambda>b v. sbind (on_ledger V (\<lambda>n. record_validated (sv_jsonb V) (sv_clock V n 0) (sv_clock V n 1) l (pb_id p)
      (pb_version p) b (vd_metadata v))) (\<lambda>p'. sbind (service_fault V) (\<lambda>_. ok p'))"
  have go: "wp (\<lambda>_ _. True) ?Y (?go b v w')" if w': "going_on inv held S m w'" and b: "strip (blob_id b) \<noteq> []" for v b w'
  proof (rule ledger_pass [OF V w', where good = "next_record p"])
    fix q and w1 :: "('a, 'c) publish_world" assume w1: "going_on inv held S m w1" and q: "next_record p q (pw_db w1)"
    then have "going_on inv held (insert q S) m w1" by (simp add: going_on_def next_record_def)
    then show "wp (\<lambda>_ _. True) ?Y (sbind (service_fault V) (\<lambda>_. ok q) w1)"
      by (rule going_pass [OF going_calls(2) [OF V]]) (use q in \<open>simp add: wp_ok next_record_def\<close>)
  next
    fix n s assume inv: "p_inv s" and known: "\<And>p. p \<in> S \<Longrightarrow> known_as p s"
    show "wp (\<lambda>_ _. True) (\<lambda>q s'. p_inv s' \<longrightarrow> next_record p q s') (record_validated (sv_jsonb V) (sv_clock V n 0)
        (sv_clock V n 1) l (pb_id p) (pb_version p) b (vd_metadata v) s)"
    proof (rule wp_mono [OF record_validated_wp [OF inv b]])
      fix q s' assume h: "\<exists>s1 x old r. blob_registered b s s1 \<and> x \<in> set (pd_blobs s1) \<and>
        (\<exists>ks. lock_lease (sv_clock V n 0) l s = Inr ks) \<and> owned_by l old \<and> pb_version old = pb_version p \<and>
        moved_quietly (pb_id p) old r s1 s' \<and> q = record_of r \<and> validated_with b x old r"
      then obtain s1 old r where "blob_registered b s s1" "moved_quietly (pb_id p) old r s1 s'" "q = record_of r" by blast
      then show "p_inv s' \<longrightarrow> next_record p q s'"
        using known_frame [OF blob_registered_rows] known [OF p] by (auto intro: next_moved)
    qed simp
  qed (rule ledger_calls b)+
  have rest: "wp (\<lambda>_ _. True) ?Y (lift (new_BlobRecord (uuid_str (sv_uuid V (pw_tick w') 0)) h n k st ct) w' (\<lambda>b. ?go b v w'))"
    if "going_on inv held S m w'" for w' h n k st ct v
    unfolding wp_lift by (intro conjI allI impI TrueI go [OF that] new_BlobRecord_id)
  have steps: "wp (\<lambda>_ _. True) ?Y (validate_and_promote V l c p key w)" if "pb_object_key p = Some key"
    unfolding validate_and_promote_def if_not_P [OF not_not [THEN iffD2, OF that]]
    by ((rule rest, assumption) | rule w | assumption | rule going_pass [where Q = "going_on inv held S m"]
        | rule keeps_intros going_calls V ledger_calls)+
  show ?thesis
  proof (cases "pb_object_key p = Some key")
    case False
    then show ?thesis by (simp add: validate_and_promote_def wp_fail)
  qed (rule steps)
qed

lemma iter_chunks_all:
  "iter_chunks V l n cs k w = (Inr ys, w') \<Longrightarrow> ys = cs"
proof (induction cs arbitrary: k w ys)
  case (Cons c cs)
  then show ?case
    by (auto simp: Let_def sbind_def fail_def raise_def ok_def split: if_splits prod.splits sum.splits)
qed (simp add: fail_def raise_def ok_def split: if_splits)

lemmas going_iter = stable_calls.iter_chunks_keeps [OF stable_publish.axioms(1) [OF stable_going_on]]

lemma verify_canonical_wp:
  fixes V :: "('a, 'c) publish_service"
  assumes V: "sv_canonical V = C" and w: "going_on inv held S m w"
  shows "wp (\<lambda>_ _. True) (\<lambda>_ w'. going_on inv held S m w' \<and> stored p (held (pw_canonical w'))) (verify_canonical V l p w)"
proof (cases "pb_observed_sha256 p")
  case (Some h)
  note h = Some
  show ?thesis
  proof (cases "pb_observed_size p")
    case (Some n)
    note n = Some
    have ok: "inv (pw_canonical w)" using w by (simp add: going_on_def)
    let ?read = "\<lambda>key. sbind (on_canonical_store (cn_open (sv_canonical V) key)) (\<lambda>x. iter_chunks V l n (pieces mebibyte x) 0)"
    have read: "wp (\<lambda>_ _. True) (\<lambda>cs w'. going_on inv held S m w' \<and> held (pw_canonical w') key = Some (concat cs)) (?read key w)" for key
    proof (cases "cn_open C key (pw_canonical w)")
      case (Pair r s)
      have s: "s = pw_canonical w" using open_state [OF ok, of key] Pair by simp
      show ?thesis
      proof (cases r)
        case (Inr x)
        have x: "held (pw_canonical w) key = Some x" using open_held [OF ok, of key x] Pair Inr by simp
        have go: "going_on inv held S (held (pw_canonical w)) w" using w by (simp add: going_on_def)
        have "wp (\<lambda>_ _. True) (\<lambda>cs w'. cs = pieces mebibyte x \<and> going_on inv held S (held (pw_canonical w)) w')
            (iter_chunks V l n (pieces mebibyte x) 0 w)"
          using keepsD [OF going_iter [OF V] go, of l n "pieces mebibyte x" 0]
          by (auto simp: wp_def dest: iter_chunks_all split: prod.split sum.split)
        then have "wp (\<lambda>_ _. True) (\<lambda>cs w'. going_on inv held S m w' \<and> held (pw_canonical w') key = Some (concat cs))
            (iter_chunks V l n (pieces mebibyte x) 0 w)"
        proof (rule wp_mono, simp)
          fix cs w' assume a: "cs = pieces mebibyte x \<and> going_on inv held S (held (pw_canonical w)) w'"
          moreover have "concat (pieces mebibyte x) = x" by (rule concat_pieces) (simp add: mebibyte_def)
          moreover have "m \<subseteq>\<^sub>m held (pw_canonical w)" using w by (simp add: going_on_def)
          ultimately show "going_on inv held S m w' \<and> held (pw_canonical w') key = Some (concat cs)"
            using x by (auto simp: going_on_def map_le_def dom_def intro: map_le_trans)
        qed
        then show ?thesis using Pair s Inr by (simp add: wp_sbind on_canonical_store_def V wp_Inr)
      qed (use Pair in \<open>simp add: wp_sbind on_canonical_store_def V wp_Inl\<close>)
    qed
    have "verify_canonical V l p w = lift (canonical_key h) w (\<lambda>key.
        sbind (handle missing (\<lambda>_. fail ArtifactPublicationError ''validated canonical object is unavailable'') (?read key)) (\<lambda>cs.
          if sha256_hex (concat cs) \<noteq> h \<or> int (length (concat cs)) \<noteq> n
          then fail ArtifactPublicationError ''validated canonical object differs from ledger'' else ok ()) w)"
      by (simp add: verify_canonical_def h n)
    then show ?thesis
      by (auto simp: wp_lift wp_sbind [where m = "handle t q r" for t q r] wp_handle wp_fail wp_ok canonical_key_eq stored_def h n
          intro!: wp_mono [OF read])
  qed (simp add: verify_canonical_def h wp_fail)
qed (simp add: verify_canonical_def wp_fail)

lemma reserve_known:
  fixes V :: "('a, 'c) publish_service"
  assumes V: "sv_canonical V = C" and w: "going_on inv held S m w" and sp: "new_PublicationSpec spec = Inr spec"
    and rest: "\<And>p w'. going_on inv held (insert p S) m w' \<Longrightarrow> pb_kind p = ps_kind spec \<Longrightarrow> wp (\<lambda>_ _. True) Y (k p w')"
  shows "wp (\<lambda>_ _. True) Y (sbind (on_ledger V (\<lambda>n. reserve (sv_jsonb V) (sv_clock V n 0) (sv_clock V n 1)
      (uuid_str (sv_uuid V n 0)) l spec)) k w)"
proof (rule ledger_pass [OF V w, where good = "\<lambda>p s. known_as p s \<and> pb_kind p = ps_kind spec"])
  fix n s assume inv: "p_inv s"
  have "known_as (record_of r) s' \<and> pb_kind (record_of r) = ps_kind spec"
    if "row_added u r s s'" "r = inserted_row t' (reserved_row u l spec md)" "p_inv s'" for u r t' md s'
    using that known_record [of s' u r] by (auto simp: row_added_def map_of_add_row reserved_row_simps)
  moreover have "known_as p s' \<and> pb_kind p = ps_kind spec"
    if "s' = s" "matches_spec p l spec" "map_of (pd_publications s) i = Some r" "p = record_of r" for p s' i r
    using that known_record [OF inv] by (auto simp: matches_spec_def)
  ultimately show "wp (\<lambda>_ _. True) (\<lambda>p s'. p_inv s' \<longrightarrow> known_as p s' \<and> pb_kind p = ps_kind spec)
      (reserve (sv_jsonb V) (sv_clock V n 0) (sv_clock V n 1) (uuid_str (sv_uuid V n 0)) l spec s)"
    by (intro wp_mono [OF reserve_wp [OF inv uuid_str_not_blank sp]]) blast+
next
  fix p and w' :: "('a, 'c) publish_world" assume "going_on inv held S m w'" "known_as p (pw_db w') \<and> pb_kind p = ps_kind spec"
  then show "wp (\<lambda>_ _. True) Y (k p w')" by (intro rest) (simp_all add: going_on_def)
qed (rule ledger_calls sp)+

lemma advance_wp:
  fixes V :: "('a, 'c) publish_service"
  assumes V: "sv_canonical V = C" and w: "going_on inv held S m w"
  shows "wp (\<lambda>_ _. True) (\<lambda>p w'. going_on inv held (insert p S) m w' \<and> stored p (held (pw_canonical w')) \<and> pb_kind p = pc_kind c)
    (advance V l c w)"
proof -
  let ?Y = "\<lambda>p (w' :: ('a, 'c) publish_world). going_on inv held (insert p S) m w' \<and> stored p (held (pw_canonical w')) \<and>
      pb_kind p = pc_kind c"
  have less: "going_on inv held T m w'" if "going_on inv held T' m w'" "T \<subseteq> T'" for T T' and w' :: "('a, 'c) publish_world"
    using that by (auto simp: going_on_def)
  have last: "wp (\<lambda>_ _. True) ?Y (finish_advance V l p w')"
    if w': "going_on inv held (insert p S) m w'" and k: "pb_kind p = pc_kind c" for p w'
    unfolding finish_advance_def
    using k by (auto simp: wp_sbind wp_fail wp_ok intro!: wp_mono [OF verify_canonical_wp [OF V w']])
  have second: "wp (\<lambda>_ _. True) ?Y (sbind (if pb_state p = PUB_OBJECT_WRITTEN then validate_and_promote V l c p key else ok p)
      (finish_advance V l) w')"
    if w': "going_on inv held (insert p S) m w'" and k: "pb_kind p = pc_kind c" for p w' key
  proof (cases "pb_state p = PUB_OBJECT_WRITTEN")
    case True
    have "wp (\<lambda>_ _. True) (\<lambda>q w1. wp (\<lambda>_ _. True) ?Y (finish_advance V l q w1)) (validate_and_promote V l c p key w')"
      by (rule wp_mono [OF validate_and_promote_wp [OF V w']]) (auto intro: last less simp: k)
    then show ?thesis by (simp add: True wp_sbind)
  qed (use last [OF w' k] in \<open>simp add: wp_sbind wp_ok\<close>)
  have first: "wp (\<lambda>_ _. True) ?Y (sbind (if pb_state p = PUB_RESERVED then write_attempt V l c p key else ok p) (\<lambda>p.
      sbind (if pb_state p = PUB_OBJECT_WRITTEN then validate_and_promote V l c p key else ok p) (finish_advance V l)) w')"
    if w': "going_on inv held (insert p S) m w'" and k: "pb_kind p = pc_kind c" for p w' key
  proof (cases "pb_state p = PUB_RESERVED")
    case True
    have "wp (\<lambda>_ _. True) (\<lambda>q w1. wp (\<lambda>_ _. True) ?Y (sbind (if pb_state q = PUB_OBJECT_WRITTEN
        then validate_and_promote V l c q key else ok q) (finish_advance V l) w1)) (write_attempt V l c p key w')"
      by (rule wp_mono [OF write_attempt_wp [OF V w']], simp_all only: insertI1, rule second) (auto intro: less simp: k)
    then show ?thesis by (simp add: True wp_sbind [where m = "write_attempt V l c p key"])
  qed (use second [OF w' k] in \<open>simp add: wp_sbind wp_ok\<close>)
  show ?thesis
  proof (cases "new_PublicationSpec (spec_of_candidate c)")
    case (Inr spec)
    then have spec: "spec = spec_of_candidate c" using new_PublicationSpec_same by blast
    show ?thesis unfolding advance_def Inr lift_Inr
      by (rule reserve_known [OF V w]) (use Inr spec in \<open>simp_all add: wp_lift first spec_of_candidate_def\<close>)
  qed (simp add: advance_def wp_Inl)
qed

lemma advance_all_wp:
  fixes V :: "('a, 'c) publish_service"
  assumes V: "sv_canonical V = C"
  shows "going_on inv held S m w \<Longrightarrow> wp (\<lambda>_ _. True) (\<lambda>ps w'. going_on inv held (S \<union> set ps) m w' \<and>
      (\<forall>p \<in> set ps. stored p (held (pw_canonical w'))) \<and> map pb_kind ps = map pc_kind cs) (advance_all V l cs w)"
proof (induction cs arbitrary: S m w)
  case Nil
  then show ?case by (simp add: wp_ok)
next
  case (Cons c cs)
  show ?case unfolding advance_all.simps wp_sbind
  proof (rule wp_mono [OF advance_wp [OF V Cons.prems]], simp, goal_cases)
    case (1 p w1)
    let ?m = "held (pw_canonical w1)"
    have "going_on inv held (insert p S) ?m w1" and m: "m \<subseteq>\<^sub>m ?m" using 1 by (simp_all add: going_on_def)
    from Cons.IH [OF this(1)] show ?case
    proof (rule wp_mono, simp, goal_cases)
      case (1 ps w2)
      then have "?m \<subseteq>\<^sub>m held (pw_canonical w2)" by (simp add: going_on_def)
      then have "stored p (held (pw_canonical w2))" "m \<subseteq>\<^sub>m held (pw_canonical w2)"
        using \<open>going_on inv held (insert p S) m w1 \<and> stored p ?m \<and> pb_kind p = pc_kind c\<close> m
        by (auto intro: stored_mono map_le_trans)
      then show ?case using 1 \<open>going_on inv held (insert p S) m w1 \<and> stored p ?m \<and> pb_kind p = pc_kind c\<close>
        by (simp add: wp_ok going_on_def)
    qed
  qed
qed

end

section \<open>Finalization\<close>

text \<open>What a reader sees after a finalization are the requested publications, with what they have observed.\<close>

lemma finalized_visible:
  assumes inv: "p_inv s" and f: "finalized_by t t' l req s s'" and v: "v \<in> set (visible_rows s' (l_job l) None)"
  shows "\<exists>q \<in> set req. \<exists>r. map_of (pd_publications s') (pb_id q) = Some r \<and>
    pb_observed_sha256 r = Some (va_sha256 v) \<and> pb_observed_size r = Some (va_size v) \<and> va_storage_key v = key_of (va_sha256 v)"
proof -
  obtain a j where row: "lease_row (pd_queue s) l = Some (a, j)" and q: "pd_queue s' = won t' l (pd_queue s)" and inv': "p_inv s'"
    and other: "\<And>k. k \<notin> pb_id ` set req \<Longrightarrow> map_of (pd_publications s') k = map_of (pd_publications s) k"
    using f by (auto simp: finalized_by_def)
  have job: "map_of (q_jobs (pd_queue s')) (l_job l) = Some (won_job l j)" by (simp add: q won_tables [OF row])
  obtain i x where x: "(i, x) \<in> set (pd_artifacts s')" "visible_row s' (l_job l) (won_job l j) (i, x) = Some v"
    using v visible_rows_eq(1) [OF inv' job, of None] by auto
  note V = visible_row_eq [OF inv' x(1), of "l_job l" "won_job l j"]
  have win: "winning (l_job l) (won_job l j) x" using V(1) x(2) by simp
  obtain p b where p: "map_of (pd_publications s') (pa_publication x) = Some p" "proves x p" "blob_matches p b"
    "find (\<lambda>b. blob_id b = pa_blob x) (pd_blobs s') = Some b"
    using artifact_facts [OF inv' x(1)] by metis
  have "pa_publication x \<in> pb_id ` set req"
  proof (rule ccontr)
    assume "pa_publication x \<notin> pb_id ` set req"
    then have r: "map_of (pd_publications s) (pa_publication x) = Some p" using other p(1) by simp
    have "pb_state p = PUB_FINALIZED" "pb_attempt p = l_attempt l"
      using p(2) win by (simp_all add: proves_def winning_def won_job_def)
    from winners_finalizedD [OF p_invD(6) [OF inv] r this(1)] running_not_winner [OF inv row] this(2)
    show False by auto
  qed
  moreover have "pb_observed_sha256 p = Some (va_sha256 v)" "pb_observed_size p = Some (va_size v)"
    using p x(2) by (auto simp: visible_row_def blob_matches_def split: if_splits)
  ultimately show ?thesis using p(1) V(2) x(2) by force
qed

lemma finalized_kinds_visible:
  assumes inv: "p_inv s" and f: "finalized_by t t' l req s s'"
  shows "va_kind ` set (visible_rows s' (l_job l) None) = requested_kinds s req"
proof -
  obtain a j where row: "lease_row (pd_queue s) l = Some (a, j)" and q: "pd_queue s' = won t' l (pd_queue s)" and inv': "p_inv s'"
    and kinds: "requested_kinds s req = set (qj_kinds j)" using f by (auto simp: finalized_by_def)
  have job: "map_of (q_jobs (pd_queue s')) (l_job l) = Some (won_job l j)" by (simp add: q won_tables [OF row])
  show ?thesis using visible_winner_kinds(1) [OF inv' job, of None] kinds by (simp add: won_job_def)
qed

section \<open>Publishing\<close>

context canonical_store begin

lemma publish_wp:
  fixes V :: "('a, 'c) publish_service"
  assumes V: "sv_canonical V = C" and w: "p_inv (pw_db w)" "inv (pw_canonical w)"
  shows "wp (\<lambda>_ _. True) (\<lambda>vs w'. va_kind ` set vs = pc_kind ` set cs \<and> inv (pw_canonical w') \<and>
      (\<forall>v \<in> set vs. \<exists>x. held (pw_canonical w') (va_storage_key v) = Some x \<and> sha256_hex x = va_sha256 v \<and>
        int (length x) = va_size v)) (publish V l cs w)"
proof -
  define Y where "Y (vs :: visible_artifact list) (w' :: ('a, 'c) publish_world) \<longleftrightarrow> va_kind ` set vs = pc_kind ` set cs \<and> inv (pw_canonical w') \<and>
      (\<forall>v \<in> set vs. \<exists>x. held (pw_canonical w') (va_storage_key v) = Some x \<and> sha256_hex x = va_sha256 v \<and>
        int (length x) = va_size v)" for vs w'
  have last: "wp (\<lambda>_ _. True) Y (sbind (finalize_faults V ps) (\<lambda>_. sbind (cleanup_best_effort V ps) (\<lambda>_. ok vs)) w')"
    if w': "inv (pw_canonical w')" "p_inv (pw_db w')" and Y: "Y vs w'" for ps vs w'
  proof -
    have go: "going_on inv held {} (held (pw_canonical w')) w'" using w' by (simp add: going_on_def)
    have "Y vs w1" if "going_on inv held {} (held (pw_canonical w')) w1" for w1
      using that Y unfolding Y_def going_on_def map_le_def by (metis domI)
    then show ?thesis
      by (intro going_pass [where Q = "going_on inv held {} (held (pw_canonical w'))"] going_calls V go)
         (simp_all only: wp_ok)
  qed
  let ?fin = "\<lambda>ps. on_ledger V (\<lambda>n. pub_finalize (sv_jsonb V) (sv_clock V n 0) (sv_clock V n 1)
      (\<lambda>k. sv_clock V n (3 + k)) (sv_clock V n 2) (\<lambda>k. uuid_str (sv_uuid V n k)) l ps)"
  have fin: "wp (\<lambda>_ _. True) Y (sbind (?fin ps) (\<lambda>visible. sbind (finalize_faults V ps) (\<lambda>_.
      sbind (cleanup_best_effort V ps) (\<lambda>_. ok visible))) w')"
    if w': "going_on inv held (set ps) m w'" and st: "\<forall>p \<in> set ps. stored p m" and k: "map pb_kind ps = map pc_kind cs" for ps m w'
  proof (rule ledger_pass [OF V w', where good = "\<lambda>vs s'. va_kind ` set vs = pc_kind ` set cs \<and>
      (\<forall>v \<in> set vs. \<exists>x. m (va_storage_key v) = Some x \<and> sha256_hex x = va_sha256 v \<and> int (length x) = va_size v)"])
    fix vs :: "visible_artifact list" and w1 :: "('a, 'c) publish_world"
    assume w1: "going_on inv held (set ps) m w1" and g: "va_kind ` set vs = pc_kind ` set cs \<and>
      (\<forall>v \<in> set vs. \<exists>x. m (va_storage_key v) = Some x \<and> sha256_hex x = va_sha256 v \<and> int (length x) = va_size v)"
    have "Y vs w1" using w1 g unfolding Y_def going_on_def map_le_def by (metis domI)
    then show "wp (\<lambda>_ _. True) Y (sbind (finalize_faults V ps) (\<lambda>_. sbind (cleanup_best_effort V ps) (\<lambda>_. ok vs)) w1)"
      using w1 by (intro last) (simp_all add: going_on_def)
  next
    fix n s assume inv: "p_inv s" and known: "\<And>p. p \<in> set ps \<Longrightarrow> known_as p s"
    let ?us = "\<lambda>k. uuid_str (sv_uuid V n k)"
    have us: "strip (?us k) \<noteq> []" for k by (rule uuid_str_not_blank)
    show "wp (\<lambda>_ _. True) (\<lambda>vs s'. p_inv s' \<longrightarrow> va_kind ` set vs = pc_kind ` set cs \<and>
        (\<forall>v \<in> set vs. \<exists>x. m (va_storage_key v) = Some x \<and> sha256_hex x = va_sha256 v \<and> int (length x) = va_size v))
      (pub_finalize (sv_jsonb V) (sv_clock V n 0) (sv_clock V n 1) (\<lambda>k. sv_clock V n (3 + k)) (sv_clock V n 2) ?us l ps s)"
    proof (rule wp_mono [OF pub_finalize_all_or_nothing [OF inv us]], simp, intro impI conjI ballI)
      fix vs s' assume h: "finalized_by (sv_clock V n 0) (sv_clock V n 2) l ps s s' \<and> vs = visible_rows s' (l_job l) None"
      have "requested_kinds s ps = pb_kind ` set ps"
        using known by (fastforce simp: requested_kinds_def known_as_def)
      also have "\<dots> = pc_kind ` set cs" using arg_cong [OF k, of set] by simp
      finally show "va_kind ` set vs = pc_kind ` set cs" using finalized_kinds_visible [OF inv] h by blast
      fix v assume "v \<in> set vs"
      then obtain q r where q: "q \<in> set ps" "map_of (pd_publications s') (pb_id q) = Some r"
        "pb_observed_sha256 r = Some (va_sha256 v)" "pb_observed_size r = Some (va_size v)" "va_storage_key v = key_of (va_sha256 v)"
        using finalized_visible [OF inv] h by blast
      have "known_as q s'" using known_as_le [OF known [OF q(1)]] h by (simp add: finalized_by_def)
      then show "\<exists>x. m (va_storage_key v) = Some x \<and> sha256_hex x = va_sha256 v \<and> int (length x) = va_size v"
        using q st by (fastforce simp: known_as_def stored_def)
    qed
  qed (rule ledger_calls)
  have all: "wp (\<lambda>_ _. True) Y (sbind (advance_all V l cs) (\<lambda>records. sbind (service_checkpoint V l) (\<lambda>_.
      sbind (?fin records) (\<lambda>visible. sbind (finalize_faults V records) (\<lambda>_. sbind (cleanup_best_effort V records) (\<lambda>_. ok visible))))) w)"
    unfolding wp_sbind [where m = "advance_all V l cs"]
  proof (rule wp_mono [OF advance_all_wp [OF V, where S = "{}" and m = Map.empty]], goal_cases)
    case (3 ps w1)
    then have "going_on inv held (set ps) (held (pw_canonical w1)) w1" by (simp add: going_on_def)
    then show ?case
      by (rule going_pass [OF going_calls(3) [OF V]]) (rule fin, assumption, (use 3 in blast)+)
  qed (use w in \<open>simp_all add: going_on_def\<close>)
  have "wp (\<lambda>_ _. True) Y (publish V l cs w)"
    unfolding publish_def using all by (simp add: wp_fail)
  then show ?thesis unfolding Y_def .
qed

end

end
