(* ===== verification/AttemptProps.thy ===== *)
theory AttemptProps
  imports AttemptList
begin

text \<open>
  What the attempt stores promise: the two implementations agree, every object that is older than the
  cutoff is shown by one of the next pages of a scan, objects keep their bytes until they are deleted,
  and a torn journal entry hides the object that is announced after it.
\<close>

section \<open>An example\<close>

definition demo_job_uuid :: string where
  "demo_job_uuid = uuid_str 1"

definition demo_attempt_key :: string where
  "demo_attempt_key = key_of_names (demo_job_uuid, uuid_str 2, 1, OUTPUT, uuid_str 3)"

definition demo_put_env :: put_env where
  "demo_put_env = \<lparr>pe_created = 3, pe_mtime = 3, pe_rival = None, pe_short = None\<rparr>"

definition demo_chunks :: chunk_stream where
  "demo_chunks = ([PBytes ''ab'', PBytes ''c''], None)"

definition demo_attempt_ops :: "attempt_op list" where
  "demo_attempt_ops = [AT_Put demo_put_env demo_attempt_key demo_chunks]"

definition demo_etag :: "string \<Rightarrow> string \<Rightarrow> pyval res" where
  "demo_etag k d = Inr (PStr ''x-2'')"

definition demo_attempts :: local_attempts where
  "demo_attempts = snd (lat_put_stream demo_put_env demo_attempt_key demo_chunks empty_attempts)"

lemma demo_exact: "exact_key demo_attempt_key" and demo_key_length: "length demo_attempt_key < max_line"
proof -
  have "uuid_canonical (uuid_str n) = Inr (uuid_str n)" if "0 \<le> n" "n < 2 ^ 128" for n
    using uuid_parse_str [OF that] by (simp add: uuid_canonical_def)
  then have "names_exact (demo_job_uuid, uuid_str 2, 1, OUTPUT, uuid_str 3)"
    by (simp add: names_exact_def demo_job_uuid_def str_int_def nat_digits.simps)
  then show "exact_key demo_attempt_key" unfolding exact_key_def demo_attempt_key_def by blast
  have "length (uuid_str n) = 36" for n by (simp add: uuid_str_def Let_def)
  then show "length demo_attempt_key < max_line"
    by (simp add: demo_attempt_key_def demo_job_uuid_def key_of_names_def attempt_key_text_def str_int_def
        nat_digits.simps max_line_def)
qed

lemma demo_guard: "lat_guard demo_put_env demo_attempt_key empty_attempts"
  using demo_key_length
  by (simp add: lat_guard_def demo_put_env_def journal_text_def empty_attempts_def max_line_def)

lemma demo_attempt_run: "lat_run demo_attempt_ops empty_attempts = Some demo_attempts"
  using demo_guard by (simp add: lat_run_def demo_attempt_ops_def demo_attempts_def)

lemma demo_object_held: "lat_held demo_attempts demo_attempt_key = Some (''abc'', 3)"
proof -
  have "lat_held empty_attempts = Map.empty"
    by (simp add: fun_eq_iff lat_held_eq file_at_def empty_attempts_def)
  then show ?thesis
    using lat_held_put [OF lat_inv_empty demo_guard, of demo_chunks] demo_exact
    by (simp add: demo_attempts_def demo_put_env_def demo_chunks_def)
qed

section \<open>Properties\<close>

lemma created_at_held:
  assumes "lat_inv s" and "fst (lat_created_at k s) = Inr t" shows "\<exists>d. lat_held s k = Some (d, t)"
proof -
  have ok: "lat_ok (journal_keys s) s" using assms(1) by (simp add: lat_inv_def)
  show ?thesis
  proof (cases "lat_held s k")
    case None
    then show ?thesis using lat_read_missing(3) [OF ok None] assms(2) by auto
  next
    case (Some h)
    then show ?thesis using lat_read_ops(3) [OF ok, of k "fst h" "snd h"] assms(2) by (cases h) auto
  qed
qed

text \<open>
  C24. The local store and the in-memory double are equivalent: after the same sequence of writes,
  deletions and scans, without interference, both return the same bytes for the same keys, and the
  paged journal scan of the local \<open>list_before\<close> returns, in the same order, what the double reads
  off its table, transport tags apart.
\<close>

theorem attempt_stores_agree:
  assumes run: "lat_run ops empty_attempts = Some L" and quiet: "list_all undisturbed ops"
    and etag: "\<forall>k. etag_ok etag k"
  shows "(\<exists>xs. mat_list_before cutoff (mat_run etag ops empty_mem_attempts) = (Inr xs, mat_run etag ops empty_mem_attempts) \<and>
            lat_list_before cutoff L = (Inr (map without_etag xs), L)) \<and>
         (fst (lat_open_reader k L) = Inr d \<longleftrightarrow> fst (mat_open_reader k (mat_run etag ops empty_mem_attempts)) = Inr d)"
proof -
  let ?M = "mat_run etag ops empty_mem_attempts"
  have start: "lat_held empty_attempts = mat_held empty_mem_attempts"
    by (simp add: fun_eq_iff lat_held_eq file_at_def empty_attempts_def mat_held_def empty_mem_attempts_def)
  note agree = runs_agree [OF run lat_inv_empty mat_inv_empty start quiet etag]
  have L: "lat_inv L" by (rule lat_run_inv [OF run lat_inv_empty])
  have M: "mat_inv ?M" and held: "lat_held L = mat_held ?M" using agree by simp_all
  have ok: "lat_ok (journal_keys L) L" using L by (simp add: lat_inv_def)
  have "fst (lat_open_reader k L) = Inr d \<longleftrightarrow> (\<exists>t. lat_held L k = Some (d, t))"
    using lat_read_ops(1) [OF ok, of k] lat_read_missing(1) [OF ok, of k] by (cases "lat_held L k") fastforce+
  moreover have "fst (mat_open_reader k ?M) = Inr d \<longleftrightarrow> (\<exists>t. mat_held ?M k = Some (d, t))"
    using mat_read_ops(1) [OF M, of k] mat_read_missing(1) [of ?M k] by (cases "mat_held ?M k") fastforce+
  ultimately show ?thesis using mat_list_eq [OF M, of cutoff] lat_list_eq [OF ok, of cutoff] held by auto
qed

theorem attempt_stores_agree_witness:
  "fst (lat_open_reader demo_attempt_key demo_attempts) = Inr ''abc'' \<and>
   fst (mat_open_reader demo_attempt_key (mat_run demo_etag demo_attempt_ops empty_mem_attempts)) = Inr ''abc''"
proof -
  have inv: "lat_inv demo_attempts" by (rule lat_run_inv [OF demo_attempt_run lat_inv_empty])
  have "fst (lat_open_reader demo_attempt_key demo_attempts) = Inr ''abc''"
    using lat_read_ops(1) [OF _ demo_object_held] inv by (simp add: lat_inv_def)
  moreover have "list_all undisturbed demo_attempt_ops" "\<forall>k. etag_ok demo_etag k"
    by (simp_all add: demo_attempt_ops_def demo_put_env_def etag_ok_def demo_etag_def)
  ultimately show ?thesis using attempt_stores_agree [OF demo_attempt_run, of demo_etag 0 demo_attempt_key "''abc''"]
    by simp
qed

text \<open>
  C25. The inventory scan is fair: wherever its cursor stands, one of the next 2n+2 pages shows any
  given object older than the cutoff (n entries in the journal), and no page covers more than the
  limit. The store may have been used by rivals in any way before.
\<close>

theorem inventory_scan_fair:
  assumes run: "lat_run ops empty_attempts = Some s" and old: "fst (lat_created_at k s) = Inr t" "t < cutoff"
    and limit: "1 \<le> limit" "scan_id_ok i = Inr ()"
  shows "(\<exists>p \<in> set (scan_pages (lat_inventory_page_before cutoff limit i) (2 * length (journal_keys s) + 2) s).
      \<exists>x \<in> set (ip_objects p). ao_storage_key x = k \<and> ao_created_at x = t) \<and>
    (\<forall>n. \<forall>p \<in> set (scan_pages (lat_inventory_page_before cutoff limit i) n s). ip_scanned p \<le> limit)"
proof -
  have inv: "lat_inv s" by (rule lat_run_inv [OF run lat_inv_empty])
  obtain d where h: "lat_held s k = Some (d, t)" using created_at_held [OF inv old(1)] by blast
  have k: "k \<in> set (journal_keys s)" using local_attempts.held_index [OF inv, of k] h by simp
  have shown: "ip_scanned p \<le> limit \<and> (\<forall>x \<in> set (ip_objects p). \<forall>d t. lat_held s' (ao_storage_key x) = Some (d, t) \<longrightarrow> ao_created_at x = t)"
    if "p \<in> set (scan_pages (lat_inventory_page_before cutoff limit i) n s')" "lat_inv s'" "lat_held s' = lat_held s" for p n s'
    using that
  proof (induction n arbitrary: s')
    case (Suc n)
    obtain q where q: "fst (lat_inventory_page_before cutoff limit i s') = Inr q"
      "page_shows (lat_held s') cutoff (take (nat limit) (drop (lat_pos s' i) (journal_keys s'))) q"
      using local_attempts.page_shown [OF Suc.prems(2) limit] by blast
    have "ip_scanned q \<le> limit" using q(2) limit(1) by (simp add: page_shows_def)
    moreover have "\<forall>x \<in> set (ip_objects q). \<forall>d t. lat_held s' (ao_storage_key x) = Some (d, t) \<longrightarrow> ao_created_at x = t"
      using q(2) unfolding page_shows_def by (metis attempt_object.select_convs(4) object_for_def)
    moreover obtain s1 where s1: "lat_inventory_page_before cutoff limit i s' = (Inr q, s1)"
      using q(1) by (cases "lat_inventory_page_before cutoff limit i s'") auto
    moreover have "lat_inv s1" "lat_held s1 = lat_held s'"
      using local_attempts.page_inv [OF Suc.prems(2), of cutoff limit i] local_attempts.page_held [OF Suc.prems(2), of cutoff limit i] s1
      by simp_all
    ultimately show ?case using Suc.prems Suc.IH [of s1] by auto
  qed simp
  have bounded: "ip_scanned p \<le> limit" if "p \<in> set (scan_pages (lat_inventory_page_before cutoff limit i) n s)" for p n
    using shown [OF that inv refl] by simp
  define n where "n = 2 * length (journal_keys s) + 2"
  obtain p where p: "p \<in> set (scan_pages (lat_inventory_page_before cutoff limit i) n s)"
    "k \<in> ao_storage_key ` set (ip_objects p)"
    using local_attempts.pages_wrap [OF inv limit k h old(2), of n] by (auto simp: n_def)
  then obtain x where x: "x \<in> set (ip_objects p)" "ao_storage_key x = k" by blast
  then have "ao_created_at x = t" using shown [OF p(1) inv refl] h by blast
  then have "\<exists>p \<in> set (scan_pages (lat_inventory_page_before cutoff limit i) (2 * length (journal_keys s) + 2) s).
      \<exists>x \<in> set (ip_objects p). ao_storage_key x = k \<and> ao_created_at x = t"
    using p(1) x unfolding n_def by blast
  then show ?thesis using bounded by blast
qed

theorem inventory_scan_fair_witness:
  "\<exists>p \<in> set (scan_pages (lat_inventory_page_before 10 1 ''scan'') (2 * length (journal_keys demo_attempts) + 2) demo_attempts).
      \<exists>x \<in> set (ip_objects p). ao_storage_key x = demo_attempt_key \<and> ao_created_at x = 3"
proof (rule inventory_scan_fair [OF demo_attempt_run, THEN conjunct1])
  have "lat_ok (journal_keys demo_attempts) demo_attempts"
    using lat_run_inv [OF demo_attempt_run lat_inv_empty] by (simp add: lat_inv_def)
  from lat_read_ops(3) [OF this demo_object_held] show "fst (lat_created_at demo_attempt_key demo_attempts) = Inr 3" by simp
qed (simp_all add: scan_id_ok_def)

text \<open>Objects keep their bytes and times until they are deleted, whatever rivals write.\<close>

theorem attempt_objects_immutable:
  assumes "lat_run ops s = Some t" and "lat_inv s" and "lat_held s k = Some h" and "AT_Delete k \<notin> set ops"
  shows "lat_held t k = Some h"
  using assms
proof (induction ops arbitrary: s)
  case Nil
  then show ?case by (simp add: lat_run_def)
next
  case (Cons x ops)
  have g: "lat_step_guard x s" and r: "lat_run ops (lat_step x s) = Some t"
    using Cons.prems(1) by (auto simp: lat_run_def split: if_splits)
  have "lat_held (lat_step x s) k = Some h"
  proof (cases x)
    case (AT_Put e k' st)
    then show ?thesis using local_attempts.put_held [OF Cons.prems(2), of e k' k st] g Cons.prems(3) by simp
  next
    case (AT_Delete k')
    then show ?thesis using local_attempts.delete_held [OF Cons.prems(2)] Cons.prems(3,4) by auto
  next
    case (AT_Page c l i)
    then show ?thesis using local_attempts.page_held [OF Cons.prems(2)] Cons.prems(3) by simp
  qed
  then show ?case using Cons.IH [OF r local_machine.step_inv [OF Cons.prems(2) g]] Cons.prems(4) by simp
qed

section \<open>A torn journal entry\<close>

text \<open>
  \<open>put_stream\<close> writes the key before the object so that no crash leaves an unindexed object. A short
  write of that entry (a full disk) raises, but leaves the fragment in the journal, and the next
  entry is appended to it: the object written after it is held and no scan shows it.
\<close>

definition torn_env :: put_env where
  "torn_env = demo_put_env\<lparr>pe_short := Some 5\<rparr>"

definition torn_attempts :: local_attempts where
  "torn_attempts = snd (lat_put_stream demo_put_env demo_attempt_key demo_chunks
     (snd (lat_put_stream torn_env demo_attempt_key demo_chunks empty_attempts)))"

lemma torn_steps:
  "snd (lat_put_stream torn_env demo_attempt_key demo_chunks empty_attempts) =
     empty_attempts\<lparr>la_journal := Some (RegularFile ''attem'')\<rparr>"
  "torn_attempts = put_file demo_attempt_key (RegularFile ''abc'', 3)
     (announced demo_attempt_key (empty_attempts\<lparr>la_journal := Some (RegularFile ''attem'')\<rparr>))"
proof -
  have len: "length (demo_attempt_key @ [newline]) \<le> max_line" using demo_key_length by simp
  have "take 5 (demo_attempt_key @ [newline]) = ''attem''" and l: "5 < length (demo_attempt_key @ [newline])"
    by (simp_all add: demo_attempt_key_def key_of_names_def attempt_key_text_def)
  then have t: "take 5 (demo_attempt_key @ [newline]) = ''attem''" by simp
  have rec: "record_inventory demo_attempt_key (Some 5) empty_attempts =
      fail OSError ''short attempt inventory write'' (empty_attempts\<lparr>la_journal := Some (RegularFile ''attem'')\<rparr>)"
    using len l t by (simp add: record_inventory_def append_journal_def empty_attempts_def Let_def del: take_append)
  show s: "snd (lat_put_stream torn_env demo_attempt_key demo_chunks empty_attempts) =
     empty_attempts\<lparr>la_journal := Some (RegularFile ''attem'')\<rparr>"
    by (simp add: lat_put_stream_def components_eq [OF demo_exact] sbind_def torn_env_def rec fail_def raise_def)
  show "torn_attempts = put_file demo_attempt_key (RegularFile ''abc'', 3)
     (announced demo_attempt_key (empty_attempts\<lparr>la_journal := Some (RegularFile ''attem'')\<rparr>))"
    using len unfolding torn_attempts_def s
    by (simp add: lat_put_stream_def components_eq [OF demo_exact] sbind_def demo_put_env_def record_inventory_def
        append_journal_def open_parent_def announced_def journal_text_def demo_chunks_def empty_attempts_def Let_def
        put_file_def new_AttemptObject_for [OF demo_exact] ok_def)
qed

theorem torn_journal_hides_object:
  "fst (lat_open_reader demo_attempt_key torn_attempts) = Inr ''abc''"
  "fst (lat_list_before 10 torn_attempts) = Inr []"
proof -
  let ?s = "torn_attempts"
  have f: "la_files ?s (split_on CHR ''/'' demo_attempt_key) = Some (RegularFile ''abc'', 3)"
    and dirs: "set (parents (split_on CHR ''/'' demo_attempt_key)) \<subseteq> la_dirs ?s"
    and j: "la_journal ?s = Some (RegularFile ((''attem'' @ demo_attempt_key) @ newline # []))"
    by (simp_all add: torn_steps(2) put_file_def announced_def journal_text_def)
  show "fst (lat_open_reader demo_attempt_key ?s) = Inr ''abc''"
    by (simp add: lat_open_reader_def components_eq [OF demo_exact] sbind_def open_parent_eq(2) [OF dirs] ok_def read_object_def f)
  have nl: "newline \<notin> set (''attem'' @ demo_attempt_key)"
    using exact_key_chars(1) [OF demo_exact] by (auto simp: newline_def)
  have "length (uuid_str n) = 36" for n by (simp add: uuid_str_def Let_def)
  then have len: "length (''attem'' @ demo_attempt_key) < max_line"
    by (simp add: demo_attempt_key_def demo_job_uuid_def key_of_names_def attempt_key_text_def str_int_def
        nat_digits.simps max_line_def)
  have bad: "\<not> exact_key (''attem'' @ demo_attempt_key)"
  proof
    assume "exact_key (''attem'' @ demo_attempt_key)"
    then obtain n where "''attem'' @ demo_attempt_key = key_of_names n" by (auto simp: exact_key_def)
    then show False by (cases n) (simp add: demo_attempt_key_def key_of_names_def attempt_key_text_def)
  qed
  then obtain err where err: "parse_attempt_key (''attem'' @ demo_attempt_key) = Inl err"
    using exact_key_parse by (cases "parse_attempt_key (''attem'' @ demo_attempt_key)") auto
  have line: "readline (Suc max_line) (''attem'' @ demo_attempt_key @ [newline]) = ''attem'' @ demo_attempt_key @ [newline]"
    using readline_line [OF nl, of "Suc max_line" "[]"] len by simp
  have entry: "inventory_entry ?s 10 (''attem'' @ demo_attempt_key) [] = ([], [])"
    by (simp add: inventory_entry_def err del: append.simps)
  have "scan_lines ?s 10 (''attem'' @ demo_attempt_key @ [newline]) 100 0 [] = Inr ([], 1, 0, True)"
    using line len entry by (simp add: numeral_eq_Suc)
  then show "fst (lat_list_before 10 ?s) = Inr []"
    using j by (simp add: lat_list_before_def list_pages.simps [of ?s] inventory_page_from_def new_InventoryPage_def
        checks_Cons ok_def)
qed

end
