(* ===== verification/ServiceProps.thy ===== *)
theory ServiceProps
  imports ServiceSweep ServicePublish PublicationReturn AttemptProps
begin

text \<open>
  What the artifact service promises: it acts on the ledger only through the operations of the
  repository, what it returns is in the canonical store, the sweeper spares the objects of open
  publications, and the validator accepts exactly what its specification says.
\<close>

section \<open>An example\<close>

lemma sbind_run: "m w = (Inr a, w') \<Longrightarrow> sbind m k w = k a w'"
  by (simp add: sbind_def)

lemma digit_chars: "digit_char 0 = CHR ''0''" "digit_char (Suc 0) = CHR ''1''" "digit_char 2 = CHR ''2''" "digit_char 3 = CHR ''3''"
  by code_simp+

lemma hex_digits_zero: "hex_digits w 0 = replicate w CHR ''0''"
  by (induction w) (simp_all add: digit_chars replicate_append_same)

lemma uuid_str_digit:
  assumes "n < 16" shows "uuid_str (int n) = ''00000000-0000-0000-0000-00000000000'' @ [digit_char n]"
proof -
  have "hex_digits 32 n = replicate 31 CHR ''0'' @ [digit_char n]"
    using hex_digits.simps(2) [of 31 n] assms hex_digits_zero [of 31] by simp
  then have e: "uuid_str (int n) = replicate 8 CHR ''0'' @ ''-'' @ replicate 4 CHR ''0'' @ ''-'' @ replicate 4 CHR ''0'' @ ''-'' @
      replicate 4 CHR ''0'' @ ''-'' @ replicate 11 CHR ''0'' @ [digit_char n]"
    by (simp add: uuid_str_def Let_def)
  have "replicate 8 CHR ''0'' = ''00000000''" "replicate 4 CHR ''0'' = ''0000''" "replicate 11 CHR ''0'' = ''00000000000''"
    by code_simp+
  then show ?thesis unfolding e by simp
qed

definition demo_uuid :: "nat \<Rightarrow> string" where
  "demo_uuid n = ''00000000-0000-0000-0000-00000000000'' @ [digit_char n]"

lemma demo_uuid_canonical: "n < 16 \<Longrightarrow> uuid_canonical (demo_uuid n) = Inr (demo_uuid n)"
  using uuid_parse_str [of "int n"] uuid_str_digit [of n] by (simp add: uuid_canonical_def demo_uuid_def)

definition demo_slease :: lease where
  "demo_slease = \<lparr>l_job = demo_uuid 1, l_attempt = demo_uuid 2, l_worker = ''w'', l_epoch = 1, l_expires = 1000100\<rparr>"

definition demo_sops :: "pub_op list" where
  "demo_sops = [PQueue (QWorker ''w'' \<lparr>qw_deployment = ''d'', qw_state = W_READY, qw_heartbeat = None\<rparr>),
     PQueue (QJob (demo_uuid 1) \<lparr>qj_namespace = ''ns'', qj_key = ''k'', qj_sha256 = replicate 64 CHR ''a'', qj_request = PDict [],
       qj_deployment = ''d'', qj_kinds = [OUTPUT], qj_inputs = [], qj_state = QUEUED, qj_epoch = 0,
       qj_current = None, qj_winning = None, qj_cancel = None, qj_retry = None, qj_created = 5\<rparr>),
     PQueue (QClaim no_locks 100 100 (demo_uuid 2) ''w'' 1)]"

definition demo_candidate :: publication_candidate where
  "demo_candidate = \<lparr>pc_kind = OUTPUT, pc_content_type = ''audio/wav'', pc_chunks = ([PBytes ''abc''], None),
     pc_max_size = 10, pc_expected_sha256 = None, pc_expected_size = None, pc_metadata = []\<rparr>"

definition demo_sdb :: pub_db where
  "demo_sdb = the (p_run demo_sops empty_pub_db)"

text \<open>A publication that an interrupted call has left VALIDATED.\<close>

definition demo_srow :: pub_row where
  "demo_srow = (inserted_row 200 (reserved_row (demo_uuid 3) demo_slease (spec_of_candidate demo_candidate) (PDict [])))
     \<lparr>pb_state := PUB_VALIDATED, pb_version := 2, pb_blob := Some ''b'', pb_observed_sha256 := Some (sha256_hex ''abc''),
      pb_observed_size := Some 3, pb_observed_content_type := Some ''audio/wav'', pb_validator_metadata := Some (PDict []),
      pb_object_key := Some (attempt_object_key (reserved_row (demo_uuid 3) demo_slease (spec_of_candidate demo_candidate) (PDict [])))\<rparr>"

definition demo_sblob :: blob_record where
  "demo_sblob = \<lparr>blob_id = ''b'', blob_sha256 = sha256_hex ''abc'', blob_size_bytes = 3,
     blob_storage_key = key_of (sha256_hex ''abc''), blob_state = BLOB_VERIFIED, blob_content_type = ''audio/wav''\<rparr>"

definition demo_validated :: pub_db where
  "demo_validated = demo_sdb\<lparr>pd_publications := [(demo_uuid 3, demo_srow)], pd_blobs := [demo_sblob]\<rparr>"

lemma demo_srun: "p_run demo_sops empty_pub_db = Some demo_sdb"
proof -
  have "\<not> Option.is_none (p_run demo_sops empty_pub_db)" by code_simp
  then show ?thesis by (simp add: demo_sdb_def Option.is_none_def)
qed

lemma demo_queue:
  "map_of (q_attempts (pd_queue demo_sdb)) (demo_uuid 2) = Some (the (map_of (q_attempts (pd_queue demo_sdb)) (demo_uuid 2)))"
  "qa_job (the (map_of (q_attempts (pd_queue demo_sdb)) (demo_uuid 2))) = demo_uuid 1"
  "qa_worker (the (map_of (q_attempts (pd_queue demo_sdb)) (demo_uuid 2))) = ''w''"
  "qa_epoch (the (map_of (q_attempts (pd_queue demo_sdb)) (demo_uuid 2))) = 1"
  "map (\<lambda>(i, j). (i, qj_state j, qj_kinds j)) (q_jobs (pd_queue demo_sdb)) = [(demo_uuid 1, RUNNING, [OUTPUT])]"
  "assert_current 500 demo_slease (pd_queue demo_sdb) = Inr ()"
  "pd_artifacts demo_sdb = []"
proof -
  have "\<not> Option.is_none (map_of (q_attempts (pd_queue demo_sdb)) (demo_uuid 2))" by code_simp
  then show "map_of (q_attempts (pd_queue demo_sdb)) (demo_uuid 2) = Some (the (map_of (q_attempts (pd_queue demo_sdb)) (demo_uuid 2)))"
    by (simp add: Option.is_none_def)
qed code_simp+

lemma demo_srow_simps [simp]:
  "pb_id demo_srow = demo_uuid 3" "pb_job demo_srow = demo_uuid 1" "pb_attempt demo_srow = demo_uuid 2"
  "pb_worker demo_srow = ''w''" "pb_epoch demo_srow = 1" "pb_kind demo_srow = OUTPUT" "pb_state demo_srow = PUB_VALIDATED"
  "pb_version demo_srow = 2" "pb_observed_sha256 demo_srow = Some (sha256_hex ''abc'')" "pb_observed_size demo_srow = Some 3"
  "pb_content_type demo_srow = ''audio/wav''" "pb_stale_since demo_srow = None" "pb_metadata demo_srow = PDict []"
  "pb_updated_at demo_srow = 200" "pb_expected_sha256 demo_srow = None" "pb_expected_size demo_srow = None" "pb_max_size demo_srow = 10"
  "pb_observed_content_type demo_srow = Some ''audio/wav''" "pb_deleted_at demo_srow = None" "pb_reason demo_srow = None"
  "pr_terminal_at demo_srow = None" "pb_blob demo_srow = Some ''b''" "pb_validator_metadata demo_srow = Some (PDict [])"
  "pb_object_key demo_srow = Some (attempt_object_key demo_srow)"
  by (simp_all add: attempt_object_key_def demo_srow_def demo_slease_def demo_candidate_def spec_of_candidate_def inserted_row_def reserved_row_def)

lemma demo_srow_ok:
  "row_ok [demo_sblob] (map_of (q_attempts (pd_queue demo_sdb))) (demo_uuid 3) demo_srow"
proof -
  have strips: "strip (demo_uuid 1) \<noteq> []" "strip (demo_uuid 2) \<noteq> []" "strip (demo_uuid 3) \<noteq> []" "strip ''w'' \<noteq> []"
    "strip ''audio/wav'' \<noteq> []" "\<not> sql_blank ''audio/wav''" by code_simp+
  have "sql_sha256 (sha256_hex ''abc'')" by (simp add: sql_sha256_def hex_sha256_hex)
  then have "row_check demo_srow = Inr ()"
    unfolding row_check_def using strips(6) by (simp add: agree_def state_shape_def within_max_def)
  moreover have "blob_matches demo_srow demo_sblob" by (simp add: blob_matches_def demo_sblob_def)
  moreover have "\<exists>a. map_of (q_attempts (pd_queue demo_sdb)) (demo_uuid 2) = Some a \<and> qa_job a = demo_uuid 1 \<and>
      qa_worker a = ''w'' \<and> qa_epoch a = 1" using demo_queue(1-4) by metis
  ultimately show ?thesis using strips by (simp add: row_ok_def)
qed

lemma demo_jobs:
  assumes "map_of (q_jobs (pd_queue demo_sdb)) i = Some j" shows "i = demo_uuid 1 \<and> qj_state j = RUNNING \<and> qj_kinds j = [OUTPUT]"
proof -
  have "(i, qj_state j, qj_kinds j) \<in> set (map (\<lambda>(i, j). (i, qj_state j, qj_kinds j)) (q_jobs (pd_queue demo_sdb)))"
    using map_of_SomeD [OF assms] by force
  then show ?thesis unfolding demo_queue(5) by simp
qed

lemma demo_validated_inv: "p_inv demo_validated"
proof -
  note I = p_invD [OF p_run_inv [OF demo_srun]]
  have "strip ''b'' \<noteq> []" by code_simp
  then have "rows_ok [demo_sblob] (map_of (q_attempts (pd_queue demo_sdb))) [(demo_uuid 3, demo_srow)]" "blobs_ok [demo_sblob]"
    using demo_srow_ok by (simp_all add: rows_ok_def blobs_ok_def demo_sblob_def)
  moreover have "artifacts_ok [(demo_uuid 3, demo_srow)] []" by (simp add: artifacts_ok_def)
  moreover have "winner_ok (map_of (q_attempts (pd_queue demo_sdb))) [(demo_uuid 3, demo_srow)] (q_events (pd_queue demo_sdb)) i j"
    if "map_of (q_jobs (pd_queue demo_sdb)) i = Some j" for i j
    using winners_jobD [OF I(6) that] demo_jobs [OF that] by (simp add: winner_ok_def)
  ultimately show ?thesis
    using I(1,2) by (simp add: p_inv_except_def demo_validated_def demo_queue(7) winners_ok_def)
qed

definition demo_sstore :: local_store where
  "demo_sstore = snd (put_stream None [''abc''] empty_store)"

text \<open>The attempt store is out of order: the cleanup fails and is tolerated.\<close>

definition demo_service :: "(local_attempts, local_store) publish_service" where
  "demo_service = \<lparr>sv_attempts = local_attempt_service\<lparr>as_delete := \<lambda>_. fail OSError ''disk''\<rparr>,
     sv_canonical = local_canonical_service, sv_probe = (\<lambda>_. raise ValueError ''unused''), sv_floats = \<lparr>fl_of_int = (\<lambda>n. Inr (of_int n)), fl_add = (\<lambda>a b. FFin (a + b))\<rparr>,
     sv_jsonb = Inr, sv_clock = (\<lambda>_ _. 500), sv_uuid = (\<lambda>_ n. int n), sv_others = (\<lambda>_. []), sv_fault = (\<lambda>_. None),
     sv_progress = (\<lambda>_. None), 
     sv_put_env = (\<lambda>_. \<lparr>pe_created = 3, pe_mtime = 3, pe_rival = None, pe_short = None\<rparr>), sv_rival = (\<lambda>_. None)\<rparr>"

definition demo_sworld :: "(local_attempts, local_store) publish_world" where
  "demo_sworld = \<lparr>pw_db = demo_validated, pw_attempts = empty_attempts, pw_canonical = demo_sstore, pw_tick = 0\<rparr>"

lemma demo_sstore_facts: "local_inv demo_sstore" "store_open_reader (key_of (sha256_hex ''abc'')) demo_sstore = (Inr ''abc'', demo_sstore)"
proof -
  have e: "demo_sstore = \<lparr>ls_dirs = {(take 2 (sha256_hex ''abc''), take 2 (drop 2 (sha256_hex ''abc'')))},
       ls_files = [place (sha256_hex ''abc'') \<mapsto> RegularFile ''abc'']\<rparr>"
    by (simp add: demo_sstore_def put_stream_def Let_def sbind_def parent_fd_def ok_def same_digest_def raise_Inl
        empty_store_def set_entry_def)
  show "store_open_reader (key_of (sha256_hex ''abc'')) demo_sstore = (Inr ''abc'', demo_sstore)"
    unfolding e by (simp add: store_open_reader_def sbind_def parent_fd_def ok_def read_existing_def)
  show "local_inv demo_sstore"
    unfolding demo_sstore_def by (rule local_store.put_inv) (simp_all add: rival_ok_def local_inv_empty)
qed

section \<open>Publishing\<close>

text \<open>
  C21. What \<open>publish\<close> returns is durable: when a call returns, whatever other processes do to the ledger
  between its steps and whatever its hooks raise, the artifacts it returns are exactly of the requested
  kinds, and the bytes of each are in the canonical store under its key, with its size and digest.
\<close>

theorem published_bytes_durable:
  assumes V: "sv_canonical V = local_canonical_service"
    and w: "p_inv (pw_db w)" "local_inv (pw_canonical w)" and out: "publish V l cs w = (Inr vs, w')"
  shows "va_kind ` set vs = pc_kind ` set cs \<and>
    (\<forall>v \<in> set vs. \<exists>x. store_open_reader (va_storage_key v) (pw_canonical w') = (Inr x, pw_canonical w') \<and>
      sha256_hex x = va_sha256 v \<and> int (length x) = va_size v)"
proof -
  note R = wp_value [OF local_canonical.publish_wp [OF V w] out]
  have "\<exists>x. store_open_reader (va_storage_key v) (pw_canonical w') = (Inr x, pw_canonical w') \<and>
      sha256_hex x = va_sha256 v \<and> int (length x) = va_size v" if "v \<in> set vs" for v
    using R that local_store.opn_held by blast
  then show ?thesis using R by blast
qed

lemma demo_new_spec: "new_PublicationSpec (spec_of_candidate demo_candidate) = Inr (spec_of_candidate demo_candidate)"
  by code_simp

lemma demo_calls:
  assumes "pw_db w = s" and "pd_queue s = pd_queue demo_sdb"
  shows "service_checkpoint demo_service demo_slease w = (Inr (), w\<lparr>pw_tick := pw_tick w + 2\<rparr>)"
    and "on_ledger demo_service m w = (fst (m (pw_tick w) s), w\<lparr>pw_db := snd (m (pw_tick w) s), pw_tick := Suc (pw_tick w)\<rparr>)"
proof -
  have b: "db_before demo_service w = s" using assms by (simp add: db_before_def demo_service_def p_run_def)
  then show "on_ledger demo_service m w = (fst (m (pw_tick w) s), w\<lparr>pw_db := snd (m (pw_tick w) s), pw_tick := Suc (pw_tick w)\<rparr>)"
    by (simp add: on_ledger_def case_prod_beta)
  have "sv_clock demo_service n k = 500" "sv_progress demo_service n = None" for n k by (simp_all add: demo_service_def)
  then show "service_checkpoint demo_service demo_slease w = (Inr (), w\<lparr>pw_tick := pw_tick w + 2\<rparr>)"
    using b assms demo_queue(6)
    by (simp add: service_checkpoint_def sbind_def assert_lease_def on_ledger_def run_hook_def)
qed

lemma demo_advance:
  "\<exists>n. advance demo_service demo_slease demo_candidate demo_sworld = (Inr (record_of demo_srow), demo_sworld\<lparr>pw_tick := n\<rparr>)"
proof -
  have row: "map_of (pd_publications demo_validated) (demo_uuid 3) = Some demo_srow" by (simp add: demo_validated_def)
  have q: "pd_queue demo_validated = pd_queue demo_sdb" by (simp add: demo_validated_def)
  have cur: "assert_current 500 demo_slease (pd_queue demo_validated) = Inr ()" using demo_queue(6) q by simp
  have jsonb: "sv_jsonb demo_service (ps_metadata (spec_of_candidate demo_candidate)) = Inr (PDict [])"
    by (simp add: demo_service_def spec_of_candidate_def demo_candidate_def)
  have big: "bigints [Some (ps_max_size (spec_of_candidate demo_candidate)), ps_expected_size (spec_of_candidate demo_candidate)] = Inr ()"
    by code_simp
  have chk: "row_check (inserted_row 500 (reserved_row u demo_slease (spec_of_candidate demo_candidate) (PDict []))) = Inr ()" for u
  proof -
    have "row_check (inserted_row 500 (reserved_row ''p'' demo_slease (spec_of_candidate demo_candidate) (PDict []))) = Inr ()" by code_simp
    then show ?thesis by (simp add: row_check_def reserved_row_def inserted_row_def agree_def state_shape_def)
  qed
  have ms: "matches_spec (record_of demo_srow) demo_slease (spec_of_candidate demo_candidate)"
  proof -
    have "py_eq (PDict []) (PDict [])" by code_simp
    then show ?thesis by (simp add: matches_spec_def demo_slease_def spec_of_candidate_def demo_candidate_def)
  qed
  have res: "reserve (sv_jsonb demo_service) 500 500 u demo_slease (spec_of_candidate demo_candidate) demo_validated =
      (Inr (record_of demo_srow), demo_validated)" for u
    by (rule reserve_again [where jsonb = "sv_jsonb demo_service", OF demo_validated_inv row ms cur cur jsonb big chk])
  obtain key where key: "publication_key (record_of demo_srow) = Inr key"
    using demo_uuid_canonical [of 1] demo_uuid_canonical [of 2] demo_uuid_canonical [of 3]
    by (simp add: publication_key_def attempt_key_def str_int_def nat_digits.simps)
  let ?w = "\<lambda>n. demo_sworld\<lparr>pw_tick := n\<rparr>"
  have db: "pw_db (?w n) = demo_validated" for n by (simp add: demo_sworld_def)
  have w: "demo_sworld\<lparr>pw_db := demo_validated, pw_tick := n\<rparr> = ?w n" for n by (simp add: demo_sworld_def)
  have clock: "sv_clock demo_service n k = 500" for n k by (simp add: demo_service_def)
  have first: "on_ledger demo_service (\<lambda>n. reserve (sv_jsonb demo_service) (sv_clock demo_service n 0) (sv_clock demo_service n 1)
      (uuid_str (sv_uuid demo_service n 0)) demo_slease (spec_of_candidate demo_candidate)) demo_sworld = (Inr (record_of demo_srow), ?w 1)"
    by (subst demo_calls(2) [where s = demo_validated]) (simp_all add: q clock res w, simp_all add: demo_sworld_def)
  have chunks: "pieces mebibyte ''abc'' = [''abc'']" by (simp add: pieces.simps mebibyte_def)
  have opn: "on_canonical_store (cn_open (sv_canonical demo_service) (key_of (sha256_hex ''abc''))) (?w 1) = (Inr ''abc'', ?w 1)"
    using demo_sstore_facts(2) by (simp add: on_canonical_store_def demo_service_def local_canonical_service_def demo_sworld_def)
  have read: "iter_chunks demo_service demo_slease 3 (pieces mebibyte ''abc'') 0 (?w 1) = (Inr [''abc''], ?w 3)"
    using demo_calls(1) [OF db q, of 1] by (simp add: chunks sbind_def ok_def)
  have "verify_canonical demo_service demo_slease (record_of demo_srow) (?w 1) = (Inr (), ?w 3)"
    by (simp add: verify_canonical_def sbind_def handle_def opn [unfolded One_nat_def] read [unfolded One_nat_def] ok_def)
  then have last: "finish_advance demo_service demo_slease (record_of demo_srow) (?w 1) = (Inr (record_of demo_srow), ?w 3)"
    by (simp add: finish_advance_def sbind_def ok_def del: One_nat_def)
  show ?thesis
    unfolding advance_def demo_new_spec lift_Inr sbind_def first
    by (auto simp: key [unfolded publication_key_record] ok_def last [unfolded One_nat_def])
qed

text \<open>The rest of the call: finalization returns, and the failing cleanup is caught.\<close>

lemma demo_sfinalize:
  assumes "pw_db w = demo_validated"
  shows "\<exists>vs s r. on_ledger demo_service (\<lambda>n. pub_finalize (sv_jsonb demo_service) (sv_clock demo_service n 0) (sv_clock demo_service n 1)
      (\<lambda>k. sv_clock demo_service n (3 + k)) (sv_clock demo_service n 2) (\<lambda>k. uuid_str (sv_uuid demo_service n k)) demo_slease
      [record_of demo_srow]) w = (Inr vs, w\<lparr>pw_db := s, pw_tick := Suc (pw_tick w)\<rparr>) \<and> p_inv s \<and>
      map_of (pd_publications s) (demo_uuid 3) = Some r \<and> same_identity_row demo_srow r"
proof -
  let ?req = "[record_of demo_srow]" and ?us = "\<lambda>k. uuid_str (int k)"
  have q: "pd_queue demo_validated = pd_queue demo_sdb" by (simp add: demo_validated_def)
  have row: "map_of (pd_publications demo_validated) (demo_uuid 3) = Some demo_srow" by (simp add: demo_validated_def)
  have us: "strip (?us k) \<noteq> []" for k by (rule uuid_str_not_blank)
  obtain j where j: "map_of (q_jobs (pd_queue demo_sdb)) (demo_uuid 1) = Some j"
  proof -
    have "\<not> Option.is_none (map_of (q_jobs (pd_queue demo_sdb)) (demo_uuid 1))" by code_simp
    then show ?thesis using that by (auto simp: Option.is_none_def)
  qed
  have "finalize_ready Inr 500 500 (\<lambda>_. 500) 500 ?us demo_slease ?req demo_validated"
    unfolding finalize_ready_def
    using row j demo_jobs [OF j] demo_queue(6) us [of 0]
    by (auto simp: inj_on_def q request_ready_def requested_kinds_def owned_by_def demo_slease_def demo_validated_def demo_queue(7))
  from pub_finalize_returns [OF demo_validated_inv this]
  obtain vs s where f: "pub_finalize Inr 500 500 (\<lambda>_. 500) 500 ?us demo_slease ?req demo_validated = (Inr vs, s)"
    by (auto simp: returns_eq)
  have fin: "finalized_by 500 500 demo_slease ?req demo_validated s"
    using wp_value [OF pub_finalize_all_or_nothing [OF demo_validated_inv us] f] by simp
  then have inv: "p_inv s" and "p_le demo_validated s" unfolding finalized_by_def by blast+
  then have "grows pub_le (map_of (pd_publications demo_validated)) (map_of (pd_publications s))" by (simp add: p_le_def)
  from growsD [OF this row] obtain r where r: "map_of (pd_publications s) (demo_uuid 3) = Some r" "pub_le demo_srow r" by blast
  have "sv_jsonb demo_service = Inr" "sv_clock demo_service n k = 500" "sv_uuid demo_service n k = int k" for n k
    by (simp_all add: demo_service_def)
  then have "on_ledger demo_service (\<lambda>n. pub_finalize (sv_jsonb demo_service) (sv_clock demo_service n 0) (sv_clock demo_service n 1)
      (\<lambda>k. sv_clock demo_service n (3 + k)) (sv_clock demo_service n 2) (\<lambda>k. uuid_str (sv_uuid demo_service n k)) demo_slease
      [record_of demo_srow]) w = (Inr vs, w\<lparr>pw_db := s, pw_tick := Suc (pw_tick w)\<rparr>)"
    by (subst demo_calls(2) [OF assms q]) (simp add: f)
  with inv r show ?thesis unfolding pub_le_def by blast
qed

lemma demo_cleanup:
  assumes inv: "p_inv (pw_db w)" and row: "map_of (pd_publications (pw_db w)) (demo_uuid 3) = Some r" "same_identity_row demo_srow r"
  shows "\<exists>w'. sbind (finalize_faults demo_service [record_of demo_srow]) (\<lambda>_.
      sbind (cleanup_best_effort demo_service [record_of demo_srow]) (\<lambda>_. ok vs)) w = (Inr vs, w')"
proof -
  have before: "db_before demo_service w' = pw_db w'" for w' by (simp add: db_before_def demo_service_def p_run_def)
  have get: "get_publication demo_service (demo_uuid 3) w' = (Inr (record_of r), w'\<lparr>pw_tick := Suc (pw_tick w')\<rparr>)"
    if "pw_db w' = pw_db w" for w'
    using that row(1) by (simp add: get_publication_def on_ledger_def before pub_get_def select_record_eq [OF inv] ok_def)
  have fault: "service_fault demo_service w' = (Inr (), w'\<lparr>pw_tick := Suc (pw_tick w')\<rparr>)" for w'
    by (simp add: service_fault_def run_hook_def demo_service_def)
  have "pb_id r = demo_uuid 3" using p_row [OF inv row(1)] by (simp add: row_ok_def)
  then have "publication_key r = publication_key demo_srow" using same_identity_key [OF row(2)] by simp
  moreover obtain key where "publication_key demo_srow = Inr key"
    using demo_uuid_canonical [of 1] demo_uuid_canonical [of 2] demo_uuid_canonical [of 3]
    by (simp add: publication_key_def attempt_key_def str_int_def nat_digits.simps)
  ultimately have key: "publication_key r = Inr key" by simp
  have caught: "cleanup_caught (Exc OSError m)" "cleanup_caught (Exc ArtifactPublicationError m)" for m
    by (simp_all add: cleanup_caught_def instance_of_any_def instance_of_def issubclass_def numeral_eq_Suc)
  have "on_attempts (as_delete (sv_attempts demo_service) k) w' = (Inl (Exc OSError ''disk''), w')"
    for k and w' :: "(local_attempts, local_store) publish_world"
    by (simp add: on_attempts_def demo_service_def local_attempt_service_def fail_def raise_def)
  then show ?thesis
    by (simp add: sbind_def get fault ok_def handle_def lift_def checked_key_def key caught raise_def)
qed

theorem published_bytes_durable_witness:
  "\<exists>vs w'. publish demo_service demo_slease [demo_candidate] demo_sworld = (Inr vs, w') \<and> va_kind ` set vs = {OUTPUT} \<and>
     (\<forall>v \<in> set vs. \<exists>x. store_open_reader (va_storage_key v) (pw_canonical w') = (Inr x, pw_canonical w') \<and>
        sha256_hex x = va_sha256 v)"
proof -
  obtain n where adv: "advance demo_service demo_slease demo_candidate demo_sworld = (Inr (record_of demo_srow), demo_sworld\<lparr>pw_tick := n\<rparr>)"
    using demo_advance by blast
  let ?w = "demo_sworld\<lparr>pw_tick := n + 2\<rparr>"
  have all: "advance_all demo_service demo_slease [demo_candidate] demo_sworld = (Inr [record_of demo_srow], demo_sworld\<lparr>pw_tick := n\<rparr>)"
    by (simp add: sbind_def adv ok_def)
  have check: "service_checkpoint demo_service demo_slease (demo_sworld\<lparr>pw_tick := n\<rparr>) = (Inr (), ?w)"
    by (subst demo_calls(1) [where s = demo_validated]) (simp_all add: demo_sworld_def demo_validated_def)
  have db: "pw_db ?w = demo_validated" by (simp add: demo_sworld_def)
  obtain vs s r where fin: "on_ledger demo_service (\<lambda>n. pub_finalize (sv_jsonb demo_service) (sv_clock demo_service n 0) (sv_clock demo_service n 1)
      (\<lambda>k. sv_clock demo_service n (3 + k)) (sv_clock demo_service n 2) (\<lambda>k. uuid_str (sv_uuid demo_service n k)) demo_slease
      [record_of demo_srow]) ?w = (Inr vs, ?w\<lparr>pw_db := s, pw_tick := Suc (pw_tick ?w)\<rparr>)" and s: "p_inv s"
      "map_of (pd_publications s) (demo_uuid 3) = Some r" "same_identity_row demo_srow r"
    using demo_sfinalize [OF db] by blast
  let ?w1 = "?w\<lparr>pw_db := s, pw_tick := Suc (pw_tick ?w)\<rparr>"
  obtain w' where rest: "sbind (finalize_faults demo_service [record_of demo_srow]) (\<lambda>_.
      sbind (cleanup_best_effort demo_service [record_of demo_srow]) (\<lambda>_. ok vs)) ?w1 = (Inr vs, w')"
    using demo_cleanup [of ?w1 r vs] s by auto
  have some: "[demo_candidate] \<noteq> []" "distinct (map pc_kind [demo_candidate])" by simp_all
  have out: "publish demo_service demo_slease [demo_candidate] demo_sworld = (Inr vs, w')"
    unfolding publish_def if_not_P [OF some(1)] if_not_P [OF not_not [THEN iffD2, OF some(2)]]
      sbind_run [where m = "advance_all demo_service demo_slease [demo_candidate]", OF all]
      sbind_run [where m = "service_checkpoint demo_service demo_slease", OF check]
      sbind_run [where m = "on_ledger demo_service f" for f, OF fin] rest ..
  have V: "sv_canonical demo_service = local_canonical_service" by (simp add: demo_service_def)
  have w: "p_inv (pw_db demo_sworld)" "local_inv (pw_canonical demo_sworld)"
    using demo_validated_inv demo_sstore_facts(1) by (simp_all add: demo_sworld_def)
  show ?thesis using published_bytes_durable [OF V w out] out by (auto simp: demo_candidate_def)
qed

section \<open>The ledger\<close>





section \<open>The sweeper\<close>

lemma lat_reads_state:
  assumes "lat_inv s" shows "snd (lat_open_reader k s) = s" "snd (lat_stat k s) = s"
proof -
  have ok: "lat_ok (journal_keys s) s" using assms by (simp add: lat_inv_def)
  have "snd (lat_open_reader k s) = s \<and> snd (lat_stat k s) = s"
  proof (cases "lat_held s k")
    case None
    then show ?thesis using lat_read_missing(1,2) [OF ok None] by auto
  next
    case (Some h)
    then show ?thesis using lat_read_ops(1,2) [OF ok, of k "fst h" "snd h"] by simp
  qed
  then show "snd (lat_open_reader k s) = s" "snd (lat_stat k s) = s" by simp_all
qed

lemma lat_open_held: "lat_inv s \<Longrightarrow> fst (lat_open_reader k s) = Inr x \<longleftrightarrow> (\<exists>c. lat_held s k = Some (x, c))"
  using lat_read_ops(1) [of "journal_keys s" s k] lat_read_missing(1) [of "journal_keys s" s k]
  by (cases "lat_held s k") (fastforce simp: lat_inv_def)+

text \<open>
  C23. The sweeper is safe: the object of a publication that was in the ledger before the sweep and is
  still open after it has kept its bytes, whatever others did to the ledger in between.
\<close>

theorem sweep_spares_open_objects:
  assumes V: "sv_attempts V = local_attempt_service" and w: "p_inv (pw_db w)" "lat_inv (pw_attempts w)"
    and row: "map_of (pd_publications (pw_db w)) i = Some r" "publication_key r = Inr k"
    and obj: "fst (lat_open_reader k (pw_attempts w)) = Inr x"
    and out: "run_sweep V before limit w = (res, w')"
    and still: "map_of (pd_publications (pw_db w')) i = Some r'" "pub_open r'" "canonical_rows (pw_db w')"
  shows "fst (lat_open_reader k (pw_attempts w')) = Inr x"
proof -
  obtain c where h: "lat_held (pw_attempts w) k = Some (x, c)" using obj lat_open_held [OF w(2)] by blast
  have stable: "stable_sweep V (spared lat_inv lat_held i k (x, c))"
    by (rule local_attempts.stable_spared) (simp_all add: V local_attempt_service_def lat_reads_state)
  have "spared lat_inv lat_held i k (x, c) w" using w row h by (simp add: spared_def)
  from stable_sweep.sweep_keeps [OF stable this w(1), of before limit] out
  have "spared lat_inv lat_held i k (x, c) w'" by simp
  then have "lat_inv (pw_attempts w')" "lat_held (pw_attempts w') k = Some (x, c)" using still by (auto simp: spared_def)
  then show ?thesis using lat_open_held by blast
qed

definition demo_sweeper :: "(local_attempts, local_store) publish_service" where
  "demo_sweeper = demo_service\<lparr>sv_attempts := local_attempt_service\<rparr>"

definition demo_swept :: "(local_attempts, local_store) publish_world" where
  "demo_swept = demo_sworld\<lparr>pw_attempts := demo_attempts\<rparr>"

lemma demo_keys: "demo_uuid 1 = uuid_str 1" "demo_uuid 2 = uuid_str 2" "demo_uuid 3 = uuid_str 3"
  using uuid_str_digit [of 1] uuid_str_digit [of 2] uuid_str_digit [of 3] by (simp_all add: demo_uuid_def)

lemma demo_skey: "publication_key demo_srow = Inr demo_attempt_key" "pb_object_key demo_srow = Some demo_attempt_key"
  using demo_uuid_canonical [of 1] demo_uuid_canonical [of 2] demo_uuid_canonical [of 3]
  by (simp_all add: publication_key_def attempt_key_def str_int_def nat_digits.simps demo_attempt_key_def demo_job_uuid_def
      key_of_names_def attempt_key_text_def attempt_object_key_def demo_keys [unfolded One_nat_def] demo_keys)

lemma demo_slookup:
  "pw_db w = demo_validated \<Longrightarrow> lookup_ledger demo_sweeper f w = (f demo_validated, w\<lparr>pw_tick := Suc (pw_tick w)\<rparr>)"
  by (cases w) (simp add: lookup_ledger_def on_ledger_def db_before_def demo_sweeper_def demo_service_def p_run_def)

text \<open>The sweep sees the object in the inventory, finds it known to the ledger, and leaves everything.\<close>

lemma demo_sweep: "\<exists>r w'. run_sweep demo_sweeper 10 5 demo_swept = (r, w') \<and> pw_db w' = demo_validated"
proof -
  have none: "cleanup_candidates 10 5 demo_validated = Inr []" "orphan_keys_before 10 5 demo_validated = Inr []"
    by (simp_all add: cleanup_candidates_def orphan_keys_before_def demo_validated_def limit_ok_def pub_terminal_def)
  have inv: "lat_inv demo_attempts" by (rule lat_run_inv [OF demo_attempt_run lat_inv_empty])
  obtain page where page: "fst (lat_inventory_page_before 10 5 ''orphan_sweep'' demo_attempts) = Inr page"
    "page_shows (lat_held demo_attempts) 10 (take (nat 5) (drop (lat_pos demo_attempts ''orphan_sweep'') (journal_keys demo_attempts))) page"
    using local_attempts.page_shown [OF inv, of 5 "''orphan_sweep''" 10] by (auto simp: scan_id_ok_def)
  define keys where "keys = map ao_storage_key (ip_objects page)"
  have "lat_held demo_attempts = [demo_attempt_key \<mapsto> (''abc'', 3)]"
  proof -
    have "lat_held empty_attempts = Map.empty"
      by (simp add: fun_eq_iff lat_held_eq file_at_def empty_attempts_def)
    then show ?thesis
      using lat_held_put [OF lat_inv_empty demo_guard, of demo_chunks] demo_exact
      by (simp add: demo_attempts_def demo_put_env_def demo_chunks_def)
  qed
  then have keys: "set keys \<subseteq> {demo_attempt_key}" using page(2) by (auto simp: page_shows_def keys_def split: if_splits)
  have ne: "demo_attempt_key \<noteq> []" by (simp add: demo_attempt_key_def key_of_names_def attempt_key_text_def)
  have known: "\<exists>ks. known_attempt_keys keys demo_validated = Inr ks \<and> set keys \<subseteq> set ks"
    using keys ne demo_skey(2) by (cases keys) (auto simp: known_attempt_keys_def list_all_iff demo_validated_def List.map_filter_def)
  have idle: "sweep_inventory demo_sweeper n ks keys z w = (Inr z, w)" if "set keys \<subseteq> set ks" for n ks z w
    using that by (induction keys) (auto simp: ok_def)
  obtain t where scan: "on_attempts (as_page (sv_attempts demo_sweeper) 10 5 ''orphan_sweep'') w = (Inr page, w\<lparr>pw_attempts := t\<rparr>)"
    if "pw_attempts w = demo_attempts" for w :: "(local_attempts, local_store) publish_world"
    using page(1) by (cases "lat_inventory_page_before 10 5 ''orphan_sweep'' demo_attempts")
      (auto simp: on_attempts_def demo_sweeper_def local_attempt_service_def)
  obtain ks where ks: "known_attempt_keys keys demo_validated = Inr ks" "set keys \<subseteq> set ks" using known by blast
  have w: "pw_db demo_swept = demo_validated" "pw_attempts demo_swept = demo_attempts"
    by (simp_all add: demo_swept_def demo_sworld_def)
  show ?thesis
    unfolding run_sweep_def
    by (simp add: sbind_def demo_slookup none ok_def scan w keys_def [symmetric] ks idle)
qed

theorem sweep_spares_open_objects_witness:
  "fst (lat_open_reader demo_attempt_key (pw_attempts (snd (run_sweep demo_sweeper 10 5 demo_swept)))) = Inr ''abc''"
proof -
  obtain r w' where out: "run_sweep demo_sweeper 10 5 demo_swept = (r, w')" and db: "pw_db w' = demo_validated"
    using demo_sweep by blast
  have inv: "lat_inv demo_attempts" by (rule lat_run_inv [OF demo_attempt_run lat_inv_empty])
  have obj: "fst (lat_open_reader demo_attempt_key demo_attempts) = Inr ''abc''" using lat_open_held [OF inv] demo_object_held by blast
  have row: "map_of (pd_publications demo_validated) (demo_uuid 3) = Some demo_srow" by (simp add: demo_validated_def)
  have "canonical_rows demo_validated" using demo_uuid_canonical [of 3] by (simp add: canonical_rows_def demo_validated_def)
  moreover have "pub_open demo_srow" by (simp add: pub_open_def)
  ultimately have "fst (lat_open_reader demo_attempt_key (pw_attempts w')) = Inr ''abc''"
    using sweep_spares_open_objects [OF _ _ _ _ demo_skey(1) _ out, of "demo_uuid 3" "''abc''" demo_srow] demo_validated_inv inv obj row
    by (simp add: db demo_sweeper_def demo_swept_def demo_sworld_def)
  then show ?thesis by (simp add: out)
qed

section \<open>Validation\<close>

text \<open>
  C26. The validator decides its specification: without a hook that raises it accepts an object exactly
  when the object is not empty, within the limit, of the expected size and digest, and the probe finds
  one of the known media types, the expected one, of positive finite duration; and it returns what the
  bytes and the probe say.
\<close>

theorem validator_decides:
  assumes "new_ValidationSpec p = Inr p"
  shows "fst (validate_artifact F probe no_progress p x w) = Inr v \<longleftrightarrow>
     (\<exists>m. probe x = Inr m \<and> acceptable F p x m \<and> v = artifact_from x m)"
  by (rule validate_artifact_eq [OF assms])

definition demo_media :: media_info where
  "demo_media = \<lparr>mi_media_type = ''audio/wav'', mi_duration_seconds = PInt 2\<rparr>"

definition demo_vspec :: validation_spec where
  "demo_vspec = \<lparr>vs_content_type = ''audio/wav'', vs_max_size = 10, vs_expected_sha256 = None, vs_expected_size = Some 3\<rparr>"

theorem validator_decides_witness:
  "fst (validate_artifact (sv_floats demo_service) (\<lambda>_. Inr demo_media) no_progress demo_vspec ''abc'' ()) =
     Inr (artifact_from ''abc'' demo_media) \<and>
   fst (validate_artifact (sv_floats demo_service) (\<lambda>_. Inr demo_media) no_progress demo_vspec ''ab'' ()) \<noteq>
     Inr (artifact_from ''ab'' demo_media)"
proof -
  have p: "new_ValidationSpec demo_vspec = Inr demo_vspec" by code_simp
  have "any_of (bad_number (sv_floats demo_service) (mi_duration_seconds demo_media) (\<lambda>q. q \<le> 0)) = Inr False"
    "mi_media_type demo_media \<in> set artifact_media_types" by code_simp+
  then have "acceptable (sv_floats demo_service) demo_vspec ''abc'' demo_media"
    "\<not> acceptable (sv_floats demo_service) demo_vspec ''ab'' demo_media"
    by (simp_all add: acceptable_def demo_vspec_def demo_media_def)
  then show ?thesis by (simp add: validator_decides [OF p])
qed

end
