(* ===== verification/UploadLife.thy ===== *)
theory UploadLife
  imports UploadRepos
begin

text \<open>
  The life of upload sessions: valid sessions and what the transitions make of them, the
  invariant and the forward order of the in-memory repository, and the compare-and-swap fence.
\<close>

section \<open>Valid sessions\<close>

definition valid_session :: "upload_session \<Rightarrow> bool" where
  "valid_session u \<longleftrightarrow>
     (\<exists>c. uuid_canonical (us_session_id u) = Inr c \<and> us_staging_key u = ''staging/'' @ c) \<and>
     strip (us_namespace_id u) \<noteq> [] \<and> 0 \<le> us_expected_size_bytes u \<and> is_aware (us_expires_at u) \<and>
     (\<forall>h. us_expected_sha256 u = Some h \<longrightarrow> sha256_text_ok h) \<and> 0 \<le> us_version u \<and>
     (us_state u = U_VERIFIED \<longleftrightarrow> us_verified_blob_id u \<noteq> None \<and> us_verified_asset_id u \<noteq> None) \<and>
     (us_state u \<noteq> U_VERIFIED \<longrightarrow> us_verified_blob_id u = None \<and> us_verified_asset_id u = None) \<and>
     (us_state u = U_REJECTED \<longrightarrow> (\<exists>r. us_rejection_reason u = Some r \<and> r \<noteq> [])) \<and>
     (us_state u \<noteq> U_REJECTED \<longrightarrow> us_rejection_reason u = None)"

lemma new_UploadSession_eq: "new_UploadSession u = Inr v \<longleftrightarrow> valid_session u \<and> v = u"
  unfolding new_UploadSession_def valid_session_def after_eq_Inr checks_Cons_ok Let_def upload_sha256_def
  by (auto split: option.splits if_splits simp: checks_Cons_ok)

lemma new_UploadSession_ok: "valid_session u \<Longrightarrow> new_UploadSession u = Inr u"
  by (simp add: new_UploadSession_eq)

lemma new_UploadSession_Inl: "new_UploadSession u = Inl e \<Longrightarrow> \<not> valid_session u"
  using new_UploadSession_ok by fastforce

text \<open>What a session keeps for life.\<close>

definition same_identity :: "upload_session \<Rightarrow> upload_session \<Rightarrow> bool" where
  "same_identity u u' \<longleftrightarrow>
     us_session_id u' = us_session_id u \<and> us_namespace_id u' = us_namespace_id u \<and>
     us_mode u' = us_mode u \<and> us_expected_size_bytes u' = us_expected_size_bytes u \<and>
     us_staging_key u' = us_staging_key u \<and> us_expires_at u' = us_expires_at u \<and>
     us_expected_sha256 u' = us_expected_sha256 u"

fun upload_rank :: "upload_state \<Rightarrow> nat" where
  "upload_rank U_INITIATED = 0"
| "upload_rank U_UPLOADED = 1"
| "upload_rank U_VERIFYING = 2"
| "upload_rank _ = 3"

lemma open_states_iff: "st \<in> open_states \<longleftrightarrow> upload_rank st < 3"
  and terminal_states_iff: "st \<in> terminal_states \<longleftrightarrow> upload_rank st = 3"
  by (cases st; simp add: open_states_def terminal_states_def)+

lemma open_not_terminal: "st \<in> open_states \<longleftrightarrow> st \<notin> terminal_states"
  by (cases st) (simp_all add: open_states_def terminal_states_def)

text \<open>One transition: from an open state, upwards, with the next version.\<close>

definition advances :: "upload_session \<Rightarrow> upload_session \<Rightarrow> bool" where
  "advances u u' \<longleftrightarrow>
     us_state u \<in> open_states \<and> upload_rank (us_state u) \<le> upload_rank (us_state u') \<and>
     us_version u' = us_version u + 1 \<and> same_identity u u'"

definition session_le :: "upload_session \<Rightarrow> upload_session \<Rightarrow> bool" where
  "session_le u u' \<longleftrightarrow>
     u' = u \<or> (us_state u \<in> open_states \<and> upload_rank (us_state u) \<le> upload_rank (us_state u') \<and>
               us_version u < us_version u' \<and> same_identity u u')"

lemma session_le_refl [simp]: "session_le u u"
  by (simp add: session_le_def)

lemma same_identity_trans: "same_identity u v \<Longrightarrow> same_identity v w \<Longrightarrow> same_identity u w"
  by (simp add: same_identity_def)

lemma session_le_trans: "session_le u v \<Longrightarrow> session_le v w \<Longrightarrow> session_le u w"
proof -
  assume a: "session_le u v" and b: "session_le v w"
  show "session_le u w"
  proof (cases "v = u \<or> w = v")
    case True
    then show ?thesis using a b by auto
  next
    case False
    then have uv: "us_state u \<in> open_states" "upload_rank (us_state u) \<le> upload_rank (us_state v)"
        "us_version u < us_version v" "same_identity u v"
      and vw: "upload_rank (us_state v) \<le> upload_rank (us_state w)"
        "us_version v < us_version w" "same_identity v w"
      using a b by (simp_all add: session_le_def)
    have "upload_rank (us_state u) \<le> upload_rank (us_state w)" by (rule le_trans [OF uv(2) vw(1)])
    moreover have "us_version u < us_version w" using uv(3) vw(2) by simp
    moreover have "same_identity u w" by (rule same_identity_trans [OF uv(4) vw(3)])
    ultimately show ?thesis using uv(1) by (simp add: session_le_def)
  qed
qed

lemma advances_le: "advances u u' \<Longrightarrow> session_le u u'"
  by (simp add: advances_def session_le_def)

lemma valid_moved:
  "valid_session u \<Longrightarrow> us_state u \<in> open_states \<Longrightarrow> st \<in> {U_UPLOADED, U_VERIFYING, U_EXPIRED} \<Longrightarrow>
     valid_session (moved st u)"
proof -
  assume v: "valid_session u" and s: "us_state u \<in> open_states" and t: "st \<in> {U_UPLOADED, U_VERIFYING, U_EXPIRED}"
  have s': "us_state u \<noteq> U_VERIFIED" "us_state u \<noteq> U_REJECTED" using s by (auto simp: open_states_def)
  have t': "st \<noteq> U_VERIFIED" "st \<noteq> U_REJECTED" using t by auto
  show ?thesis using v s' t' by (simp add: valid_session_def moved_def)
qed

lemma advances_moved:
  "us_state u \<in> open_states \<Longrightarrow> upload_rank (us_state u) \<le> upload_rank st \<Longrightarrow> advances u (moved st u)"
  by (simp add: advances_def moved_def same_identity_def)

lemma expired_moved: "expired_session u = moved U_EXPIRED u"
  by (simp add: expired_session_def moved_def)

lemma valid_rejected:
  "valid_session u \<Longrightarrow> us_state u = U_VERIFYING \<Longrightarrow> r \<noteq> [] \<Longrightarrow>
     valid_session ((moved U_REJECTED u)\<lparr>us_rejection_reason := Some r\<rparr>)"
  by (simp add: valid_session_def moved_def)

lemma not_valid_rejected: "\<not> valid_session ((moved U_REJECTED u)\<lparr>us_rejection_reason := Some []\<rparr>)"
  by (simp add: valid_session_def moved_def)

lemma advances_rejected:
  "us_state u = U_VERIFYING \<Longrightarrow> advances u ((moved U_REJECTED u)\<lparr>us_rejection_reason := r\<rparr>)"
  by (simp add: advances_def moved_def same_identity_def open_states_def)

lemma valid_verified:
  "valid_session u \<Longrightarrow> us_state u = U_VERIFYING \<Longrightarrow> valid_session (verified_session b a u)"
  by (simp add: valid_session_def verified_session_def)

lemma advances_verified: "us_state u = U_VERIFYING \<Longrightarrow> advances u (verified_session b a u)"
  by (simp add: advances_def verified_session_def same_identity_def open_states_def)

section \<open>The invariant of the in-memory repository\<close>

abbreviation mu_lookup :: "mem_uploads \<Rightarrow> string \<rightharpoonup> upload_session" where
  "mu_lookup s \<equiv> map_of (mu_sessions s)"

definition blob_known :: "mem_uploads \<Rightarrow> upload_session \<Rightarrow> bool" where
  "blob_known s u \<longleftrightarrow>
     (\<forall>b. us_verified_blob_id u = Some b \<longrightarrow> (\<exists>h blob. mu_blobs s h = Some blob \<and> blob_id blob = b))"

definition mu_inv :: "mem_uploads \<Rightarrow> bool" where
  "mu_inv s \<longleftrightarrow>
     distinct (map fst (mu_sessions s)) \<and>
     (\<forall>k u. mu_lookup s k = Some u \<longrightarrow> us_session_id u = k \<and> valid_session u \<and> blob_known s u) \<and>
     (\<forall>h b. mu_blobs s h = Some b \<longrightarrow> blob_sha256 b = h)"

lemma mu_invD:
  "mu_inv s \<Longrightarrow> mu_lookup s k = Some u \<Longrightarrow> us_session_id u = k \<and> valid_session u \<and> blob_known s u"
  by (simp add: mu_inv_def)

lemma mu_inv_distinct: "mu_inv s \<Longrightarrow> distinct (map fst (mu_sessions s))"
  by (simp add: mu_inv_def)

lemma mu_inv_empty: "mu_inv empty_mem_uploads"
  by (simp add: mu_inv_def empty_mem_uploads_def)

lemma mu_lookup_put: "mu_lookup (mu_put k u s) = (mu_lookup s)(k := map_option (\<lambda>_. u) (mu_lookup s k))"
  by (simp add: mu_put_def map_of_set_row)

lemma mu_blobs_put [simp]: "mu_blobs (mu_put k u s) = mu_blobs s"
  by (simp add: mu_put_def)

lemma blob_known_grows: "blob_known s u \<Longrightarrow> mu_blobs s \<subseteq>\<^sub>m mu_blobs t \<Longrightarrow> blob_known t u"
  unfolding blob_known_def map_le_def by (metis domI)

text \<open>The step every successful operation on an existing session makes.\<close>

definition mu_moves :: "string \<Rightarrow> upload_session \<Rightarrow> upload_session \<Rightarrow> mem_uploads \<Rightarrow> mem_uploads \<Rightarrow> bool" where
  "mu_moves sid u u' s t \<longleftrightarrow>
     mu_lookup s sid = Some u \<and> advances u u' \<and> valid_session u' \<and>
     (\<exists>s1. t = mu_put sid u' s1 \<and> mu_sessions s1 = mu_sessions s \<and> mu_blobs s \<subseteq>\<^sub>m mu_blobs s1 \<and>
        (\<forall>h b. mu_blobs s1 h = Some b \<longrightarrow> blob_sha256 b = h) \<and> blob_known s1 u')"

lemma mu_moves_lookup: "mu_moves sid u u' s t \<Longrightarrow> mu_lookup t = (mu_lookup s)(sid \<mapsto> u')"
  by (auto simp: mu_moves_def mu_lookup_put)

lemma mu_moves_inv:
  assumes "mu_moves sid u u' s t" and "mu_inv s"
  shows "mu_inv t"
proof -
  obtain s1 where t: "t = mu_put sid u' s1" and s1: "mu_sessions s1 = mu_sessions s"
    and grow: "mu_blobs s \<subseteq>\<^sub>m mu_blobs s1" and keys: "\<forall>h b. mu_blobs s1 h = Some b \<longrightarrow> blob_sha256 b = h"
    and known: "blob_known s1 u'" and u: "mu_lookup s sid = Some u" and adv: "advances u u'" and v: "valid_session u'"
    using assms(1) by (auto simp: mu_moves_def)
  have d: "distinct (map fst (mu_sessions t))"
    using mu_inv_distinct [OF assms(2)] by (simp add: t mu_put_def s1)
  have "us_session_id w = k \<and> valid_session w \<and> blob_known t w" if w: "mu_lookup t k = Some w" for k w
  proof (cases "k = sid")
    case True
    then have "w = u'" using w u by (simp add: mu_moves_lookup [OF assms(1)])
    then show ?thesis
      using True known v adv mu_invD [OF assms(2) u]
      by (simp add: blob_known_def t advances_def same_identity_def)
  next
    case False
    then have "mu_lookup s k = Some w" using w by (simp add: mu_moves_lookup [OF assms(1)])
    from mu_invD [OF assms(2) this] blob_known_grows [of s w t] grow show ?thesis by (simp add: t)
  qed
  then show ?thesis using d keys by (simp add: mu_inv_def t)
qed

definition mu_le :: "mem_uploads \<Rightarrow> mem_uploads \<Rightarrow> bool" where
  "mu_le s t \<longleftrightarrow> grows session_le (mu_lookup s) (mu_lookup t) \<and> mu_blobs s \<subseteq>\<^sub>m mu_blobs t"

lemma mu_le_refl: "mu_le s s"
  by (simp add: mu_le_def)

lemma mu_le_trans: "mu_le s t \<Longrightarrow> mu_le t u \<Longrightarrow> mu_le s u"
  unfolding mu_le_def using session_le_trans by (blast intro: grows_trans map_le_trans)

lemma mu_moves_le: "mu_moves sid u u' s t \<Longrightarrow> mu_le s t"
proof -
  assume m: "mu_moves sid u u' s t"
  then have "grows session_le (mu_lookup s) (mu_lookup t)"
    unfolding mu_moves_lookup [OF m]
    by (intro grows_upd [where v = u]) (auto simp: mu_moves_def advances_le)
  then show ?thesis using m by (auto simp: mu_le_def mu_moves_def)
qed

section \<open>The operations\<close>

lemma mu_get_wp:
  "wp (\<lambda>_ t. t = s) (\<lambda>u t. t = s \<and> mu_lookup s sid = Some u) (mu_get_session sid s)"
  by (simp add: mu_get_session_def upload_not_found_def wp_simps)

lemma mu_moves_same_blobs:
  "mu_inv s \<Longrightarrow> mu_lookup s sid = Some u \<Longrightarrow> advances u u' \<Longrightarrow> valid_session u' \<Longrightarrow>
     us_verified_blob_id u' = None \<Longrightarrow> mu_moves sid u u' s (mu_put sid u' s)"
  unfolding mu_moves_def by (auto simp: blob_known_def mu_inv_def)

lemma mu_transition_wp:
  assumes "mu_inv s" and "before \<in> open_states" and "target \<in> {U_UPLOADED, U_VERIFYING}"
    and "upload_rank before \<le> upload_rank target"
  shows "wp (\<lambda>_ t. t = s)
     (\<lambda>u' t. \<exists>u. mu_moves sid u u' s t \<and> cas_ok now v before u \<and> u' = moved target u)
     (mu_transition now sid v before target s)"
proof -
  have step: "new_UploadSession (moved target u) = Inr (moved target u) \<and>
      mu_moves sid u (moved target u) s (mu_put sid (moved target u) s)"
    if "mu_lookup s sid = Some u" "cas_ok now v before u" for u
  proof -
    have st: "us_state u = before" using that(2) by (simp add: cas_ok_def)
    have "valid_session (moved target u)"
      using mu_invD [OF assms(1) that(1)] st assms(2,3) by (intro valid_moved) auto
    moreover have "advances u (moved target u)" using st assms(2,4) by (intro advances_moved) auto
    ultimately show ?thesis using assms(3)
      by (auto simp: new_UploadSession_eq intro!: mu_moves_same_blobs [OF assms(1) that(1)])
        (auto simp: moved_def valid_session_def)
  qed
  show ?thesis unfolding mu_transition_def moved_def [symmetric]
    using step by (fastforce simp: mu_get_session_def upload_not_found_def cas_rejected_def wp_simps)
qed

lemma mu_reject_wp:
  assumes "mu_inv s"
  shows "wp (\<lambda>_ t. t = s)
     (\<lambda>u' t. \<exists>u. mu_moves sid u u' s t \<and> cas_ok now v U_VERIFYING u \<and> reason \<noteq> [] \<and>
        u' = (moved U_REJECTED u)\<lparr>us_rejection_reason := Some reason\<rparr>)
     (mu_reject now sid v reason s)"
proof -
  let ?r = "\<lambda>u. (moved U_REJECTED u)\<lparr>us_rejection_reason := Some reason\<rparr>"
  have eq: "u\<lparr>us_state := U_REJECTED, us_version := us_version u + 1, us_rejection_reason := Some reason\<rparr> = ?r u" for u
    by (simp add: moved_def)
  have step: "mu_moves sid u (?r u) s (mu_put sid (?r u) s) \<and> reason \<noteq> []"
    if "mu_lookup s sid = Some u" "cas_ok now v U_VERIFYING u" "new_UploadSession (?r u) = Inr u'" for u u'
  proof -
    have v: "valid_session (?r u)" using that(3) by (simp add: new_UploadSession_eq)
    then have "reason \<noteq> []" using not_valid_rejected by metis
    moreover have "us_verified_blob_id (?r u) = None" using v by (simp add: valid_session_def moved_def)
    ultimately show ?thesis
      using mu_moves_same_blobs [OF assms that(1) advances_rejected v] that(2) by (simp add: cas_ok_def)
  qed
  show ?thesis unfolding mu_reject_def eq
    using step by (fastforce simp: mu_get_session_def upload_not_found_def cas_rejected_def wp_simps new_UploadSession_eq)
qed

lemma mu_finalize_wp:
  assumes "mu_inv s"
  shows "wp (\<lambda>_ t. t = s)
     (\<lambda>u' t. \<exists>u canonical. mu_moves sid u u' s t \<and> cas_ok now v U_VERIFYING u \<and>
        asset_namespace_id asset = us_namespace_id u \<and> asset_blob_id asset = blob_id blob \<and>
        mu_blobs t (blob_sha256 blob) = Some canonical \<and> same_blob canonical blob \<and>
        (mu_blobs s (blob_sha256 blob) = None \<longrightarrow> canonical = blob) \<and>
        u' = verified_session (blob_id canonical) (asset_id asset) u)
     (mu_finalize_verified now sid v blob asset s)"
proof (cases "mu_lookup s sid")
  case None
  then show ?thesis by (simp add: mu_finalize_verified_def mu_get_session_def upload_not_found_def wp_simps)
next
  case (Some u)
  show ?thesis
  proof (cases "cas_ok now v U_VERIFYING u \<and> asset_namespace_id asset = us_namespace_id u \<and>
      asset_blob_id asset = blob_id blob")
    case False
    then show ?thesis using Some
      by (auto simp: mu_finalize_verified_def mu_get_session_def cas_rejected_def wp_simps)
  next
    case True
    then have st: "us_state u = U_VERIFYING" by (simp add: cas_ok_def)
    let ?u = "\<lambda>c. verified_session (blob_id c) (asset_id asset) u"
    have v: "valid_session (?u c)" for c using mu_invD [OF assms Some] st by (simp add: valid_verified)
    have moves: "mu_moves sid u (?u c) s (mu_put sid (?u c) s1)"
      if "mu_sessions s1 = mu_sessions s" "mu_blobs s1 = (mu_blobs s)(blob_sha256 c \<mapsto> c)"
        "mu_blobs s \<subseteq>\<^sub>m mu_blobs s1" for c s1
    proof -
      have "\<forall>h b. mu_blobs s1 h = Some b \<longrightarrow> blob_sha256 b = h"
        using assms that(2) by (simp add: mu_inv_def)
      moreover have "blob_known s1 (?u c)" using that(2) by (auto simp: blob_known_def verified_session_def)
      ultimately show ?thesis using Some advances_verified [OF st] v that unfolding mu_moves_def by blast
    qed
    show ?thesis
    proof (cases "mu_blobs s (blob_sha256 blob)")
      case None
      let ?s1 = "s\<lparr>mu_blobs := (mu_blobs s)(blob_sha256 blob \<mapsto> blob)\<rparr>"
      have "mu_moves sid u (?u blob) s (mu_put sid (?u blob) ?s1)"
        by (rule moves) (use None in \<open>auto simp: map_le_def\<close>)
      then show ?thesis using True Some None
        by (auto simp: mu_finalize_verified_def mu_get_session_def wp_simps new_UploadSession_ok [OF v] same_blob_def)
    next
      case c: (Some c)
      have "blob_sha256 c = blob_sha256 blob" using assms c by (simp add: mu_inv_def)
      then have "mu_moves sid u (?u c) s (mu_put sid (?u c) s)"
        by (intro moves) (use c in \<open>auto simp: map_le_def\<close>)
      then show ?thesis using True Some c
        by (auto simp: mu_finalize_verified_def mu_get_session_def wp_simps new_UploadSession_ok [OF v])
    qed
  qed
qed

lemma set_row_at:
  assumes "distinct (map fst (pre @ (k, r) # rest))"
  shows "set_row k f (pre @ (k, r) # rest) = pre @ (k, f r) # rest"
proof -
  have "set_row k f t = t" if "k \<notin> fst ` set t" for t
    using that by (induction t) (auto simp: set_row_def)
  then show ?thesis using assms by (auto simp: set_row_def)
qed

definition expire_if :: "int \<Rightarrow> upload_session \<Rightarrow> upload_session" where
  "expire_if now u = (if overdue now u then expired_session u else u)"

lemma valid_expired: "valid_session u \<Longrightarrow> overdue now u \<Longrightarrow> valid_session (expired_session u)"
  by (auto simp: expired_moved overdue_def intro: valid_moved)

lemma mu_expire_loop_eq:
  "mu_sessions s = pre @ rest \<Longrightarrow> distinct (map fst (pre @ rest)) \<Longrightarrow>
   \<forall>u \<in> snd ` set rest. valid_session u \<Longrightarrow>
   mu_expire_loop now rest acc s =
     (Inr (acc @ map expired_session (filter (overdue now) (map snd rest))),
      s\<lparr>mu_sessions := pre @ map (\<lambda>(k, u). (k, expire_if now u)) rest\<rparr>)"
proof (induction rest arbitrary: s pre acc)
  case Nil
  then show ?case by (simp add: ok_def)
next
  case (Cons x rest)
  obtain k u where x: "x = (k, u)" by fastforce
  have v: "valid_session u" using Cons.prems(3) x by simp
  show ?case
  proof (cases "overdue now u")
    case True
    let ?s = "mu_put k (expired_session u) s"
    have s: "mu_sessions ?s = (pre @ [(k, expired_session u)]) @ rest"
      using Cons.prems(1,2) x by (simp add: mu_put_def set_row_at)
    have "mu_expire_loop now rest (acc @ [expired_session u]) ?s =
        (Inr ((acc @ [expired_session u]) @ map expired_session (filter (overdue now) (map snd rest))),
         ?s\<lparr>mu_sessions := (pre @ [(k, expired_session u)]) @ map (\<lambda>(k, u). (k, expire_if now u)) rest\<rparr>)"
      by (rule Cons.IH [OF s]) (use Cons.prems(2,3) x in auto)
    then show ?thesis using True x new_UploadSession_ok [OF valid_expired [OF v True]]
      by (simp add: expire_if_def mu_put_def)
  next
    case False
    have s: "mu_sessions s = (pre @ [(k, u)]) @ rest" using Cons.prems(1) x by simp
    show ?thesis using Cons.IH [OF s, of acc] Cons.prems(2,3) False x by (simp add: expire_if_def)
  qed
qed

lemma mu_values_valid: "mu_inv s \<Longrightarrow> \<forall>u \<in> snd ` set (mu_sessions s). valid_session u"
  using mu_invD mu_inv_distinct by (fastforce simp: map_of_eq_Some_iff)

lemma mu_expire_eq:
  assumes "mu_inv s"
  shows "mu_expire_before now s =
     (Inr (map expired_session (filter (overdue now) (map snd (mu_sessions s)))),
      s\<lparr>mu_sessions := map (\<lambda>(k, u). (k, expire_if now u)) (mu_sessions s)\<rparr>)"
  using mu_expire_loop_eq [of s "[]" "mu_sessions s" now "[]"] mu_inv_distinct [OF assms] mu_values_valid [OF assms]
  by (simp add: mu_expire_before_def)

lemma map_of_map_values: "map_of (map (\<lambda>(k, u). (k, f u)) t) = map_option f \<circ> map_of t"
  by (rule ext) (simp add: map_of_map comp_def)

lemma mu_expire_keeps:
  assumes "mu_inv s"
  shows "mu_inv (snd (mu_expire_before now s))" and "mu_le s (snd (mu_expire_before now s))"
proof -
  let ?t = "snd (mu_expire_before now s)"
  have look: "mu_lookup ?t = map_option (expire_if now) \<circ> mu_lookup s"
    by (simp add: mu_expire_eq [OF assms] map_of_map_values)
  have blobs: "mu_blobs ?t = mu_blobs s" by (simp add: mu_expire_eq [OF assms])
  have d: "distinct (map fst (mu_sessions ?t))"
    using mu_inv_distinct [OF assms] by (simp add: mu_expire_eq [OF assms] case_prod_beta comp_def)
  have u: "us_session_id (expire_if now u) = k \<and> valid_session (expire_if now u) \<and> blob_known ?t (expire_if now u)"
    if "mu_lookup s k = Some u" for k u
  proof -
    have known: "blob_known ?t w" if "us_verified_blob_id w = us_verified_blob_id u" for w
      using mu_invD [OF assms \<open>mu_lookup s k = Some u\<close>] that by (simp add: blob_known_def blobs)
    show ?thesis using mu_invD [OF assms that] valid_expired known
      by (simp add: expire_if_def) (simp add: expired_session_def)
  qed
  then show "mu_inv ?t" using d assms unfolding mu_inv_def look blobs by auto
  have "session_le u (expire_if now u)" for u
    by (auto simp: expire_if_def expired_moved overdue_def open_states_iff intro!: advances_le advances_moved)
  then show "mu_le s ?t" by (auto simp: mu_le_def grows_def look blobs)
qed

section \<open>Runs\<close>

datatype upload_op =
    Up_create int upload_session
  | Up_mark int string int
  | Up_claim int string int
  | Up_reject int string int string
  | Up_finalize int string int blob_record asset_record
  | Up_expire int

fun single :: "upload_session res \<times> 's \<Rightarrow> upload_session list res \<times> 's" where
  "single (Inl e, s) = (Inl e, s)"
| "single (Inr u, s) = (Inr [u], s)"

fun mu_do :: "upload_op \<Rightarrow> (mem_uploads, upload_session list) sop" where
  "mu_do (Up_create now u) s = single (mu_create_session u s)"
| "mu_do (Up_mark now k v) s = single (mu_mark_uploaded now k v s)"
| "mu_do (Up_claim now k v) s = single (mu_claim_verification now k v s)"
| "mu_do (Up_reject now k v r) s = single (mu_reject now k v r s)"
| "mu_do (Up_finalize now k v b a) s = single (mu_finalize_verified now k v b a s)"
| "mu_do (Up_expire now) s = mu_expire_before now s"

text \<open>A session object has passed its own checks when it reaches the repository.\<close>

fun constructed :: "upload_op \<Rightarrow> bool" where
  "constructed (Up_create now u) = (new_UploadSession u = Inr u)"
| "constructed _ = True"

lemma snd_single [simp]: "snd (single p) = snd p"
  by (cases p rule: single.cases) simp_all

lemma mu_move_keeps:
  assumes "mu_inv s" and "wp (\<lambda>_ t. t = s) (\<lambda>u' t. \<exists>u. mu_moves sid u u' s t \<and> P u u' t) p"
  shows "mu_inv (snd p) \<and> mu_le s (snd p)"
proof -
  have "wp (\<lambda>_ t. mu_inv t \<and> mu_le s t) (\<lambda>_ t. mu_inv t \<and> mu_le s t) p"
    by (rule wp_mono [OF assms(2)]) (auto simp: assms(1) mu_le_refl dest: mu_moves_inv [OF _ assms(1)] mu_moves_le)
  then show ?thesis by (simp add: wp_state)
qed

lemma mu_create_eq:
  "mu_create_session u s =
     (if us_state u = U_INITIATED \<and> us_version u = 0 \<and> mu_lookup s (us_session_id u) = None
      then (Inr u, s\<lparr>mu_sessions := add_row (us_session_id u) u (mu_sessions s)\<rparr>)
      else (fst (mu_create_session u s), s))"
  by (simp add: mu_create_session_def ok_def fail_def)

lemma mu_create_keeps:
  assumes "mu_inv s" and "valid_session u"
  shows "mu_inv (snd (mu_create_session u s)) \<and> mu_le s (snd (mu_create_session u s))"
proof (cases "us_state u = U_INITIATED \<and> us_version u = 0 \<and> mu_lookup s (us_session_id u) = None")
  case False
  then have "snd (mu_create_session u s) = s" by (subst mu_create_eq) auto
  then show ?thesis using assms(1) by (simp add: mu_le_refl)
next
  case True
  let ?t = "s\<lparr>mu_sessions := add_row (us_session_id u) u (mu_sessions s)\<rparr>"
  have new: "us_session_id u \<notin> fst ` set (mu_sessions s)" using True by (simp add: dom_table)
  have look: "mu_lookup ?t = (mu_lookup s)(us_session_id u \<mapsto> u)" by (simp add: map_of_add_row [OF new])
  have known: "blob_known ?t w" if "blob_known s w" for w using that by (simp add: blob_known_def)
  have "blob_known ?t u" using assms(2) True by (simp add: blob_known_def valid_session_def)
  then have "mu_inv ?t"
    using assms new known mu_invD [OF assms(1)] unfolding mu_inv_def look by (simp add: distinct_add_row)
  moreover have "grows session_le (mu_lookup s) (mu_lookup ?t)"
    unfolding look by (rule grows_new) (use True in auto)
  then have "mu_le s ?t" by (simp add: mu_le_def)
  moreover have "snd (mu_create_session u s) = ?t" using True by (subst mu_create_eq) simp
  ultimately show ?thesis by simp
qed

lemma mu_do_keeps:
  assumes "mu_inv s" and "constructed x"
  shows "mu_inv (snd (mu_do x s)) \<and> mu_le s (snd (mu_do x s))"
proof (cases x)
  case (Up_create now u)
  then show ?thesis using assms mu_create_keeps by (simp add: new_UploadSession_eq)
next
  case (Up_mark now k v)
  then show ?thesis using mu_move_keeps [OF assms(1) mu_transition_wp [OF assms(1)]]
    by (simp add: mu_mark_uploaded_def open_states_def)
next
  case (Up_claim now k v)
  then show ?thesis using mu_move_keeps [OF assms(1) mu_transition_wp [OF assms(1)]]
    by (simp add: mu_claim_verification_def open_states_def)
next
  case (Up_reject now k v r)
  then show ?thesis using mu_move_keeps [OF assms(1) mu_reject_wp [OF assms(1)]] by simp
next
  case (Up_finalize now k v b a)
  have "wp (\<lambda>_ t. t = s) (\<lambda>u' t. \<exists>u. mu_moves k u u' s t \<and> True) (mu_finalize_verified now k v b a s)"
    by (rule wp_mono [OF mu_finalize_wp [OF assms(1)]]) auto
  from mu_move_keeps [OF assms(1) this] show ?thesis using Up_finalize by simp
next
  case (Up_expire now)
  then show ?thesis using mu_expire_keeps [OF assms(1)] by simp
qed

interpretation upload_machine: monotone_machine "\<lambda>x s. snd (mu_do x s)" "\<lambda>x s. constructed x" mu_inv mu_le
  by unfold_locales (use mu_do_keeps mu_le_refl mu_le_trans in blast)+

text \<open>
  A caller holds a session through the version it has seen; a session that has moved on ends that
  hold for ever.
\<close>

definition version_held :: "mem_uploads \<Rightarrow> string \<times> int \<Rightarrow> bool" where
  "version_held s h \<longleftrightarrow> (\<exists>u. mu_lookup s (fst h) = Some u \<and> us_version u = snd h)"

definition version_over :: "mem_uploads \<Rightarrow> string \<times> int \<Rightarrow> bool" where
  "version_over s h \<longleftrightarrow> (\<exists>u. mu_lookup s (fst h) = Some u \<and> snd h < us_version u)"

lemma version_over_le: "mu_le s t \<Longrightarrow> version_over s h \<Longrightarrow> version_over t h"
  unfolding mu_le_def version_over_def by (force simp: session_le_def dest: growsD)

interpretation upload_fence: fencing "\<lambda>x s. snd (mu_do x s)" "\<lambda>x s. constructed x" mu_inv version_held version_over
proof
  fix s x l
  assume "mu_inv s"
  show "constructed x \<Longrightarrow> version_over s l \<Longrightarrow> version_over (snd (mu_do x s)) l"
    using mu_do_keeps [OF \<open>mu_inv s\<close>] version_over_le by blast
  show "version_over s l \<Longrightarrow> \<not> version_held s l"
    by (auto simp: version_over_def version_held_def)
qed

end
