(* ===== verification/UploadRefine.thy ===== *)
theory UploadRefine
  imports UploadLife
begin

text \<open>
  \<open>PostgresUploadRepository\<close> refines \<open>InMemoryUploadRepository\<close>: forget the time columns, read the
  blob rows as the map by digest, and every operation of the protocol that the schema takes has the
  same value, or fails as well, and leaves the corresponding state. The update triggers and CHECK
  constraints refuse no transition of a well-formed row.
\<close>

section \<open>Abstraction\<close>

definition session_rows :: "pg_upload table \<Rightarrow> upload_session table" where
  "session_rows t = map (\<lambda>(k, r). (k, pu_session r)) t"

definition blob_map :: "blob_record list \<Rightarrow> string \<rightharpoonup> blob_record" where
  "blob_map bs h = find (\<lambda>b. blob_sha256 b = h) bs"

definition upload_abs :: "pg_uploads \<Rightarrow> mem_uploads" where
  "upload_abs s = \<lparr>mu_sessions = session_rows (pg_rows s), mu_blobs = blob_map (pg_blobs s)\<rparr>"

text \<open>The CHECK constraints of \<open>upload_sessions\<close> on the two time columns.\<close>

definition times_ok :: "pg_upload \<Rightarrow> bool" where
  "times_ok r \<longleftrightarrow>
     (us_state (pu_session r) \<in> terminal_states \<longleftrightarrow> pu_finalized_at r \<noteq> None) \<and>
     (us_state (pu_session r) \<in> {U_INITIATED, U_UPLOADED} \<longrightarrow> pu_verification_started_at r = None) \<and>
     (us_state (pu_session r) = U_VERIFYING \<longrightarrow> pu_verification_started_at r \<noteq> None)"

text \<open>The foreign keys and the trigger condition of a VERIFIED row.\<close>

definition verified_row_ok :: "pg_uploads \<Rightarrow> upload_session \<Rightarrow> bool" where
  "verified_row_ok s u \<longleftrightarrow>
     (us_state u = U_VERIFIED \<longrightarrow>
        (\<exists>a b. us_verified_asset_id u = Some (asset_id a) \<and> us_verified_blob_id u = Some (blob_id b) \<and>
           a \<in> set (pg_assets s) \<and> b \<in> set (pg_blobs s) \<and> asset_blob_id a = blob_id b \<and>
           asset_namespace_id a = us_namespace_id u))"

definition pg_inv :: "pg_uploads \<Rightarrow> bool" where
  "pg_inv s \<longleftrightarrow> mu_inv (upload_abs s) \<and>
     (\<forall>k r. map_of (pg_rows s) k = Some r \<longrightarrow>
        uuid_canonical k = Inr k \<and> times_ok r \<and> verified_row_ok s (pu_session r))"

definition refines :: "'a res \<times> pg_uploads \<Rightarrow> 'a res \<times> mem_uploads \<Rightarrow> bool" where
  "refines p q \<longleftrightarrow> upload_abs (snd p) = snd q \<and>
     (case fst p of Inl _ \<Rightarrow> (\<exists>e. fst q = Inl e) | Inr x \<Rightarrow> fst q = Inr x)"

lemma session_rows_lookup: "map_of (session_rows t) = map_option pu_session \<circ> map_of t"
  by (simp add: session_rows_def map_of_map_values)

lemma fst_session_rows [simp]: "map fst (session_rows t) = map fst t" "fst ` set (session_rows t) = fst ` set t"
  by (simp_all add: session_rows_def case_prod_beta comp_def image_image)

lemma abs_lookup: "mu_lookup (upload_abs s) k = map_option pu_session (map_of (pg_rows s) k)"
  by (simp add: upload_abs_def session_rows_lookup)

lemma abs_blobs: "mu_blobs (upload_abs s) = blob_map (pg_blobs s)"
  by (simp add: upload_abs_def)

lemma pg_invD:
  assumes "pg_inv s" and "map_of (pg_rows s) k = Some r"
  shows "us_session_id (pu_session r) = k" and "valid_session (pu_session r)" and "uuid_canonical k = Inr k"
    and "times_ok r" and "verified_row_ok s (pu_session r)"
proof -
  have "mu_lookup (upload_abs s) k = Some (pu_session r)" using assms(2) by (simp add: abs_lookup)
  from mu_invD [OF _ this] assms(1) show "us_session_id (pu_session r) = k" "valid_session (pu_session r)"
    by (simp_all add: pg_inv_def)
  show "uuid_canonical k = Inr k" "times_ok r" "verified_row_ok s (pu_session r)"
    using assms by (simp_all add: pg_inv_def)
qed

lemma pg_inv_abs: "pg_inv s \<Longrightarrow> mu_inv (upload_abs s)"
  by (simp add: pg_inv_def)

lemma pg_inv_distinct: "pg_inv s \<Longrightarrow> distinct (map fst (pg_rows s))"
  using mu_inv_distinct [OF pg_inv_abs] by (simp add: upload_abs_def)

lemma session_rows_set_row:
  assumes "distinct (map fst t)" and "map_of t k = Some r"
  shows "session_rows (set_row k f t) = set_row k (\<lambda>_. pu_session (f r)) (session_rows t)"
proof -
  have "r' = r" if "(k, r') \<in> set t" for r' using assms that by (metis map_of_is_SomeI option.inject)
  then show ?thesis by (auto simp: session_rows_def set_row_def)
qed

definition set_pg_row :: "string \<Rightarrow> (pg_upload \<Rightarrow> pg_upload) \<Rightarrow> pg_uploads \<Rightarrow> pg_uploads" where
  "set_pg_row k f s = s\<lparr>pg_rows := set_row k f (pg_rows s)\<rparr>"

lemma abs_set_row:
  assumes "distinct (map fst (pg_rows s))" and "map_of (pg_rows s) k = Some r"
  shows "upload_abs (set_pg_row k f s) = mu_put k (pu_session (f r)) (upload_abs s)"
  using session_rows_set_row [OF assms] by (simp add: upload_abs_def mu_put_def set_pg_row_def)

lemma lookup_set_row: "map_of (pg_rows s) k = Some r \<Longrightarrow>
  map_of (pg_rows (set_pg_row k f s)) = (map_of (pg_rows s))(k \<mapsto> f r)"
  by (simp add: set_pg_row_def map_of_set_row_Some)

section \<open>Updates of one row\<close>

text \<open>An update guarded by its test, read back: the common shape of the transitions.\<close>

lemma pg_update_get_eq:
  "sbind (transaction (pg_update now sid test f message)) (\<lambda>_. pg_get_session sid) s =
     (case map_of (pg_rows s) sid of
        None \<Rightarrow> fail StateTransitionError message s
      | Some r \<Rightarrow>
          if test r
          then lift (upload_update_guard now s r (f r)) s (\<lambda>_.
            lift (new_UploadSession (pu_session (f r))) (set_pg_row sid f s) (\<lambda>u. ok u (set_pg_row sid f s)))
          else fail StateTransitionError message s)"
  by (auto simp: sbind_def transaction_def pg_update_def pg_get_session_def fail_def ok_def raise_def lift_def
      set_pg_row_def map_of_set_row_Some split: option.split sum.split)

text \<open>The CHECK constraints on the columns an update writes hold of every well-formed row.\<close>

lemma row_checks: "valid_session (pu_session r) \<Longrightarrow> times_ok r \<Longrightarrow> upload_row_checks r"
  by (cases "us_state (pu_session r)")
     (simp_all add: upload_row_checks_def valid_session_def times_ok_def terminal_states_def Let_def, blast)

lemma update_guard_passes:
  assumes "valid_session (pu_session new)" and "times_ok new"
    and "same_identity (pu_session old) (pu_session new)" and "upload_transition_allowed old new"
    and "us_state (pu_session old) \<in> open_states"
    and "us_state (pu_session new) = U_EXPIRED \<or> now < instant (us_expires_at (pu_session old))"
    and "us_state (pu_session new) = U_VERIFIED \<Longrightarrow> upload_asset_verified s (pu_session new)"
  shows "upload_update_guard now s old new = Inr ()"
proof -
  have "upload_identity_kept old new" using assms(3) by (simp add: upload_identity_kept_def same_identity_def Let_def)
  moreover have "\<not> (us_state (pu_session new) \<in> {U_VERIFIED, U_REJECTED, U_EXPIRED} \<and> pu_finalized_at new = None)"
    using assms(2) unfolding times_ok_def terminal_states_def by blast
  moreover have "\<not> (us_state (pu_session new) \<noteq> U_EXPIRED \<and> instant (us_expires_at (pu_session old)) \<le> now)"
    using assms(6) by force
  moreover have "\<not> (us_state (pu_session new) = U_VERIFIED \<and> \<not> upload_asset_verified s (pu_session new))"
    using assms(7) by blast
  moreover have "\<not> (us_state (pu_session old) \<in> {U_VERIFIED, U_REJECTED, U_EXPIRED} \<and> new \<noteq> old)"
    using assms(5) by (auto simp: open_states_def)
  ultimately show ?thesis
    using assms(4) row_checks [OF assms(1,2)]
    by (simp only: upload_update_guard_def Let_def not_not if_True if_False not_True_eq_False not_False_eq_True)
qed

lemma pg_set_row_inv:
  assumes "pg_inv s" and "map_of (pg_rows s) sid = Some r"
    and "mu_moves sid (pu_session r) (pu_session (f r)) (upload_abs s) (upload_abs (set_pg_row sid f s))"
    and "times_ok (f r)" and "us_state (pu_session (f r)) \<noteq> U_VERIFIED"
  shows "pg_inv (set_pg_row sid f s)"
proof -
  have "mu_inv (upload_abs (set_pg_row sid f s))"
    using mu_moves_inv [OF assms(3) pg_inv_abs [OF assms(1)]] .
  moreover have "uuid_canonical k = Inr k \<and> times_ok r' \<and> verified_row_ok (set_pg_row sid f s) (pu_session r')"
    if "map_of (pg_rows (set_pg_row sid f s)) k = Some r'" for k r'
  proof (cases "k = sid")
    case True
    then have "r' = f r" using that by (simp add: lookup_set_row [OF assms(2)])
    then show ?thesis using True assms(4,5) pg_invD(3) [OF assms(1,2)] by (simp add: verified_row_ok_def)
  next
    case False
    then have "map_of (pg_rows s) k = Some r'" using that by (simp add: lookup_set_row [OF assms(2)])
    then show ?thesis using pg_invD [OF assms(1)] by (simp add: verified_row_ok_def set_pg_row_def)
  qed
  ultimately show ?thesis by (simp add: pg_inv_def)
qed

text \<open>
  A transition of both repositories under one compare-and-swap test: \<open>f\<close> on the row, \<open>g\<close> on the
  session, which the memory repository accepts when it is valid again.
\<close>

definition mem_move ::
  "int \<Rightarrow> int \<Rightarrow> upload_state \<Rightarrow> (upload_session \<Rightarrow> upload_session) \<Rightarrow> string \<Rightarrow> (mem_uploads, upload_session) sop"
where
  "mem_move now v st g sid =
     sbind (mu_get_session sid) (\<lambda>u s.
       if \<not> cas_ok now v st u then cas_rejected s
       else lift (new_UploadSession (g u)) s (\<lambda>u'. ok u' (mu_put sid u' s)))"

lemma mem_move_eq:
  "mem_move now v st g sid s =
     (case mu_lookup s sid of
        None \<Rightarrow> upload_not_found sid s
      | Some u \<Rightarrow>
          if \<not> cas_ok now v st u then cas_rejected s
          else lift (new_UploadSession (g u)) s (\<lambda>u'. ok u' (mu_put sid u' s)))"
  by (simp add: mem_move_def sbind_def mu_get_session_def upload_not_found_def fail_def raise_def ok_def
      split: option.splits)

lemma mem_moves:
  "mu_transition now sid v before target = mem_move now v before (moved target) sid"
  "mu_reject now sid v reason =
     mem_move now v U_VERIFYING (\<lambda>u. (moved U_REJECTED u)\<lparr>us_rejection_reason := Some reason\<rparr>) sid"
  by (simp_all only: mu_transition_def mu_reject_def mem_move_def moved_def)

lemma valid_unverified: "valid_session u \<Longrightarrow> us_state u \<noteq> U_VERIFIED \<Longrightarrow> us_verified_blob_id u = None"
  by (simp add: valid_session_def)

lemma refines_errors: "upload_abs s = t \<Longrightarrow> refines (fail c m s) (fail c' m' t)"
  by (simp add: refines_def raise_def)

lemma pg_move_refines:
  assumes inv: "pg_inv s"
    and sess: "\<And>r. pu_session (f r) = g (pu_session r)"
    and good: "\<And>u. valid_session u \<Longrightarrow> us_state u = st \<Longrightarrow>
        valid_session (g u) \<and> advances u (g u) \<and> us_state (g u) \<noteq> U_VERIFIED"
    and times: "\<And>r. times_ok r \<Longrightarrow> us_state (pu_session r) = st \<Longrightarrow>
        times_ok (f r) \<and> upload_transition_allowed r (f r)"
    and st: "st \<in> open_states"
  shows "refines (sbind (transaction (pg_update now sid (\<lambda>r. cas_ok now v st (pu_session r)) f m)) (\<lambda>_. pg_get_session sid) s)
           (mem_move now v st g sid (upload_abs s)) \<and>
         pg_inv (snd (sbind (transaction (pg_update now sid (\<lambda>r. cas_ok now v st (pu_session r)) f m)) (\<lambda>_. pg_get_session sid) s))"
proof (cases "map_of (pg_rows s) sid")
  case None
  then show ?thesis using inv
    by (simp add: pg_update_get_eq mem_move_eq abs_lookup upload_not_found_def refines_errors)
next
  case (Some r)
  show ?thesis
  proof (cases "cas_ok now v st (pu_session r)")
    case False
    then show ?thesis using inv Some
      by (simp add: pg_update_get_eq mem_move_eq abs_lookup cas_rejected_def refines_errors)
  next
    case True
    then have state: "us_state (pu_session r) = st" by (simp add: cas_ok_def)
    note g = good [OF pg_invD(2) [OF inv Some] state]
    have pass: "upload_update_guard now s r (f r) = Inr ()"
      by (rule update_guard_passes)
         (use g times [OF pg_invD(4) [OF inv Some] state] True state st in
           \<open>auto simp: sess advances_def cas_ok_def\<close>)
    have abs: "upload_abs (set_pg_row sid f s) = mu_put sid (g (pu_session r)) (upload_abs s)"
      using abs_set_row [OF pg_inv_distinct [OF inv] Some] by (simp add: sess)
    have look: "mu_lookup (upload_abs s) sid = Some (pu_session r)" using Some by (simp add: abs_lookup)
    have none: "us_verified_blob_id (g (pu_session r)) = None" using g valid_unverified by blast
    have "mu_moves sid (pu_session r) (pu_session (f r)) (upload_abs s) (upload_abs (set_pg_row sid f s))"
      unfolding abs sess by (rule mu_moves_same_blobs [OF pg_inv_abs [OF inv] look _ _ none]) (use g in blast)+
    from pg_set_row_inv [OF inv Some this conjunct1 [OF times [OF pg_invD(4) [OF inv Some] state]]] g
    have "pg_inv (set_pg_row sid f s)" by (simp add: sess)
    moreover have "sbind (transaction (pg_update now sid (\<lambda>r. cas_ok now v st (pu_session r)) f m)) (\<lambda>_. pg_get_session sid) s =
        (Inr (g (pu_session r)), set_pg_row sid f s)"
      unfolding pg_update_get_eq using Some True g pass by (simp add: sess new_UploadSession_ok ok_def)
    moreover have "mem_move now v st g sid (upload_abs s) =
        (Inr (g (pu_session r)), mu_put sid (g (pu_session r)) (upload_abs s))"
      unfolding mem_move_eq using Some True g by (simp add: abs_lookup new_UploadSession_ok ok_def)
    ultimately show ?thesis using abs by (simp add: refines_def)
  qed
qed

section \<open>The operations of the protocol\<close>

lemma pg_mark_refines:
  assumes "pg_inv s"
  shows "refines (pg_mark_uploaded now sid v s) (mu_mark_uploaded now sid v (upload_abs s)) \<and>
         pg_inv (snd (pg_mark_uploaded now sid v s))"
  unfolding pg_mark_uploaded_def pg_cas_state_def mu_mark_uploaded_def mem_moves
  by (rule pg_move_refines [OF assms])
     (auto simp: on_session_def times_ok_def moved_def [of U_UPLOADED] terminal_states_def open_states_def
        valid_moved [unfolded moved_def] advances_def same_identity_def upload_transition_allowed_def)

lemma pg_claim_refines:
  assumes "pg_inv s"
  shows "refines (pg_claim_verification now sid v s) (mu_claim_verification now sid v (upload_abs s)) \<and>
         pg_inv (snd (pg_claim_verification now sid v s))"
  unfolding pg_claim_verification_def mu_claim_verification_def mem_moves
  by (rule pg_move_refines [OF assms])
     (auto simp: on_session_def times_ok_def moved_def [of U_VERIFYING] terminal_states_def open_states_def
        valid_moved [unfolded moved_def] advances_def same_identity_def upload_transition_allowed_def)

lemma pg_reject_refines:
  assumes "pg_inv s" and plain: "storable reason"
  shows "refines (pg_reject now sid v reason s) (mu_reject now sid v reason (upload_abs s)) \<and>
         pg_inv (snd (pg_reject now sid v reason s))"
proof (cases "reason = []")
  case True
  have "\<exists>e. mu_reject now sid v reason (upload_abs s) = (Inl e, upload_abs s)"
    using mu_reject_wp [OF pg_inv_abs [OF assms(1)], where now = now and sid = sid and v = v and reason = reason] True
    by (cases "mu_reject now sid v reason (upload_abs s)"; cases "fst (mu_reject now sid v reason (upload_abs s))")
       (auto simp: wp_def)
  then show ?thesis using True assms by (auto simp: pg_reject_def refines_def fail_def raise_def)
next
  case False
  have st: "us_state ((moved U_REJECTED u)\<lparr>us_rejection_reason := Some reason\<rparr>) = U_REJECTED"
    "us_version ((moved U_REJECTED u)\<lparr>us_rejection_reason := Some reason\<rparr>) = us_version u + 1" for u
    by (simp_all add: moved_def)
  have "pg_reject now sid v reason s =
      sbind (transaction (pg_update now sid (\<lambda>r. cas_ok now v U_VERIFYING (pu_session r))
              (\<lambda>r. (on_session (\<lambda>u. (moved U_REJECTED u)\<lparr>us_rejection_reason := Some reason\<rparr>) r)
                     \<lparr>pu_finalized_at := Some now\<rparr>)
              ''upload session CAS rejected''))
       (\<lambda>_. pg_get_session sid) s"
    using False plain by (simp add: pg_reject_def)
  then show ?thesis unfolding mem_moves
    by (simp only:) (rule pg_move_refines [OF assms(1)],
      auto simp: on_session_def st times_ok_def terminal_states_def False valid_rejected advances_rejected
        upload_transition_allowed_def open_states_def)
qed

lemma get_all_eq:
  "\<forall>k \<in> set ks. \<exists>r. map_of (pg_rows s) k = Some r \<and> valid_session (pu_session r) \<Longrightarrow>
     pg_get_all ks s = (Inr (map (\<lambda>k. pu_session (the (map_of (pg_rows s) k))) ks), s)"
  by (induction ks) (auto simp: ok_def sbind_def pg_get_session_def new_UploadSession_ok)

text \<open>
  What the schema demands of a session beyond its own checks: a digest in plain hexadecimal
  (Python's \<open>int(h, 16)\<close> also reads a sign, a prefix and separators), an expiry in the future, values
  in the range of their columns.
\<close>

definition creatable :: "int \<Rightarrow> upload_session \<Rightarrow> bool" where
  "creatable now u \<longleftrightarrow>
     storable (us_namespace_id u) \<and> us_expected_size_bytes u < 2 ^ 63 \<and>
     (\<forall>h. us_expected_sha256 u = Some h \<longrightarrow> hex_64 h) \<and> now < instant (us_expires_at u)"

lemma strip_char:
  assumes "strip t \<noteq> []"
  shows "list_ex (\<lambda>c. c \<noteq> CHR '' '') t"
proof (rule ccontr)
  assume "\<not> list_ex (\<lambda>c. c \<noteq> CHR '' '') t"
  then have t: "\<forall>c \<in> set t. c = CHR '' ''" by (simp add: list_ex_iff)
  have blank: "is_space CHR '' ''" by (simp add: is_space_def code_def)
  have "\<forall>c \<in> set t. is_space c"
  proof
    fix c assume "c \<in> set t"
    then have "c = CHR '' ''" using t by (simp only:)
    then show "is_space c" by (simp only: blank)
  qed
  then have "dropWhile is_space t = []" by (simp only: dropWhile_eq_Nil_conv)
  then have "strip t = []" by (simp only: strip_def rev.simps dropWhile.simps)
  then show False using assms by contradiction
qed

lemma creatable_checks:
  assumes "valid_session u"
  shows "session_checks now u \<and> storable (us_namespace_id u) \<and> bigint (us_expected_size_bytes u) \<longleftrightarrow> creatable now u"
proof -
  obtain c where "uuid_canonical (us_session_id u) = Inr c" "us_staging_key u = ''staging/'' @ c"
    using assms by (auto simp: valid_session_def)
  then have key: "startswith (us_staging_key u) ''staging/''" "drop 8 (us_staging_key u) = c" "uuid_canonical c = Inr c"
    using uuid_canonical_idem by (simp_all add: startswith_iff)
  have u: "list_ex (\<lambda>c. c \<noteq> CHR '' '') (us_namespace_id u)" "0 \<le> us_expected_size_bytes u" "0 \<le> us_version u"
    using assms by (simp_all add: strip_char valid_session_def)
  have sha: "(case us_expected_sha256 u of None \<Rightarrow> True | Some h \<Rightarrow> hex_64 h) \<longleftrightarrow>
      (\<forall>h. us_expected_sha256 u = Some h \<longrightarrow> hex_64 h)" by (simp split: option.split)
  have "bigint (us_expected_size_bytes u) \<longleftrightarrow> us_expected_size_bytes u < 2 ^ 63" using u(2) by (simp add: bigint_def)
  then show ?thesis unfolding session_checks_def creatable_def sha using key u by auto
qed

lemma pg_create_refused:
  assumes "valid_session u" and "\<not> creatable now u"
  shows "\<exists>e. pg_create_session now u s = (Inl e, s)"
  using creatable_checks [OF assms(1), of now] assms(2)
  by (auto simp: pg_create_session_def transaction_def fail_def raise_def)

lemma pg_create_refines:
  assumes inv: "pg_inv s" and u: "valid_session u" "uuid_canonical (us_session_id u) = Inr (us_session_id u)"
    and fit: "creatable now u"
  shows "refines (pg_create_session now u s) (mu_create_session u (upload_abs s)) \<and>
         pg_inv (snd (pg_create_session now u s))"
proof (cases "us_state u = U_INITIATED \<and> us_version u = 0 \<and> map_of (pg_rows s) (us_session_id u) = None")
  case False
  then show ?thesis using inv creatable_checks [OF u(1), of now] fit
    by (auto simp: pg_create_session_def mu_create_session_def transaction_def fail_def raise_def refines_def abs_lookup)
next
  case True
  let ?r = "\<lparr>pu_session = u, pu_verification_started_at = None, pu_finalized_at = None\<rparr>"
  let ?t = "s\<lparr>pg_rows := add_row (us_session_id u) ?r (pg_rows s)\<rparr>"
  have key: "us_staging_key u = ''staging/'' @ us_session_id u" using u by (auto simp: valid_session_def)
  have "us_staging_key (pu_session r) \<noteq> us_staging_key u" if "(k, r) \<in> set (pg_rows s)" for k r
  proof
    have r: "map_of (pg_rows s) k = Some r" using that pg_inv_distinct [OF inv] by simp
    assume "us_staging_key (pu_session r) = us_staging_key u"
    moreover have "us_staging_key (pu_session r) = ''staging/'' @ k"
      using pg_invD(1-3) [OF inv r] by (auto simp: valid_session_def)
    ultimately show False using key r True by simp
  qed
  then have p: "pg_create_session now u s = (Inr u, ?t)"
    using True creatable_checks [OF u(1), of now] fit by (auto simp: pg_create_session_def transaction_def ok_def list_ex_iff)
  have m: "mu_create_session u (upload_abs s) = (Inr u, upload_abs ?t)"
  proof -
    have "mu_lookup (upload_abs s) (us_session_id u) = None" using True by (simp add: abs_lookup)
    then have "mu_create_session u (upload_abs s) =
        (Inr u, (upload_abs s)\<lparr>mu_sessions := add_row (us_session_id u) u (mu_sessions (upload_abs s))\<rparr>)"
      using True by (subst mu_create_eq) simp
    then show ?thesis by (simp add: upload_abs_def session_rows_def add_row_def)
  qed
  have "mu_inv (upload_abs ?t)" using mu_create_keeps [OF pg_inv_abs [OF inv] u(1)] m by simp
  moreover have "uuid_canonical k = Inr k \<and> times_ok r \<and> verified_row_ok ?t (pu_session r)"
    if "map_of (pg_rows ?t) k = Some r" for k r
  proof (cases "k = us_session_id u")
    case eq: True
    have "r = ?r" using that True eq by (simp add: map_of_add_row dom_table)
    then show ?thesis using u(2) eq True by (simp add: times_ok_def verified_row_ok_def terminal_states_def)
  next
    case False
    then have "map_of (pg_rows s) k = Some r" using that True by (simp add: map_of_add_row dom_table)
    then show ?thesis using pg_invD [OF inv] by (simp add: verified_row_ok_def)
  qed
  ultimately show ?thesis by (simp add: p m refines_def pg_inv_def)
qed

text \<open>Expiry sets the same rows: every overdue one.\<close>

lemma overdue_keys_rows:
  assumes "distinct (map fst (pg_rows s))" and "(k, r) \<in> set (pg_rows s)"
  shows "k \<in> set (overdue_keys now s) \<longleftrightarrow> overdue now (pu_session r)"
proof -
  have "r' = r" if "(k, r') \<in> set (pg_rows s)" for r'
    using assms that by (metis map_of_is_SomeI option.inject)
  then have "(\<exists>r'. (k, r') \<in> set (pg_rows s) \<and> overdue now (pu_session r')) \<longleftrightarrow> overdue now (pu_session r)"
    using assms(2) by metis
  then show ?thesis by (auto simp: overdue_keys_def image_iff Bex_def)
qed

lemma lookup_expire_keys:
  "map_of (pg_rows (expire_keys now ks s)) k =
     map_option (\<lambda>r. if k \<in> ks then expire_row now r else r) (map_of (pg_rows s) k)"
proof -
  have "map_of (map (\<lambda>(k, r). (k, if k \<in> ks then expire_row now r else r)) t) k =
      map_option (\<lambda>r. if k \<in> ks then expire_row now r else r) (map_of t k)" for t
    by (induction t) auto
  then show ?thesis by (simp add: expire_keys_def)
qed

lemma times_expired: "times_ok r \<Longrightarrow> times_ok (expire_row now r)"
  by (simp add: times_ok_def expire_row_def on_session_def expired_session_def terminal_states_def)

lemma expire_row_session: "pu_session (expire_row now r) = expired_session (pu_session r)"
  by (simp add: expire_row_def on_session_def)

lemma pg_expire_refines:
  assumes inv: "pg_inv s"
  shows "refines (pg_expire_before now s) (mu_expire_before now (upload_abs s)) \<and> pg_inv (snd (pg_expire_before now s))"
proof -
  let ?ks = "overdue_keys now s" and ?t = "expire_keys now (set (overdue_keys now s)) s"
  note d = pg_inv_distinct [OF inv]
  have row: "r' = r" if "(k, r') \<in> set (pg_rows s)" "map_of (pg_rows s) k = Some r" for k r r'
    using d that by (metis map_of_is_SomeI option.inject)
  have abs: "upload_abs ?t = snd (mu_expire_before now (upload_abs s))"
    unfolding mu_expire_eq [OF pg_inv_abs [OF inv]]
    by (simp add: upload_abs_def session_rows_def expire_keys_def expire_if_def expire_row_session
        overdue_keys_rows [OF d] case_prod_beta)
      (auto simp: overdue_keys_rows [OF d] expire_row_session)
  have over: "\<exists>r. map_of (pg_rows s) k = Some r \<and> overdue now (pu_session r)" if "k \<in> set ?ks" for k
    using that d by (auto simp: overdue_keys_def)
  have get: "map_of (pg_rows ?t) k = Some (expire_row now r)" "valid_session (pu_session (expire_row now r))"
    if "k \<in> set ?ks" "map_of (pg_rows s) k = Some r" for k r
    using that over [OF that(1)] pg_invD(2) [OF inv that(2)]
    by (auto simp: lookup_expire_keys expire_row_session intro: valid_expired)
  have pass: "list_all (\<lambda>(k, r). k \<in> set ?ks \<longrightarrow> upload_update_guard now s r (expire_row now r) = Inr ()) (pg_rows s)"
    unfolding list_all_iff
  proof clarify
    fix k r assume k: "(k, r) \<in> set (pg_rows s)" "k \<in> set ?ks"
    then have r: "map_of (pg_rows s) k = Some r" using d by simp
    then have o: "us_state (pu_session r) \<in> open_states" using over [OF k(2)] by (auto simp: overdue_def)
    have "upload_transition_allowed r (expire_row now r)"
      using o by (auto simp: upload_transition_allowed_def expire_row_session expired_session_def open_states_def Let_def)
    then show "upload_update_guard now s r (expire_row now r) = Inr ()"
      using get(2) [OF k(2) r] times_expired [OF pg_invD(4) [OF inv r], of now] o
      by (intro update_guard_passes) (auto simp: expire_row_session expired_session_def same_identity_def)
  qed
  have "pg_get_all ?ks ?t = (Inr (map (\<lambda>k. pu_session (the (map_of (pg_rows ?t) k))) ?ks), ?t)"
    by (rule get_all_eq) (use over get in blast)
  moreover have "map (\<lambda>k. pu_session (the (map_of (pg_rows ?t) k))) ?ks =
      map expired_session (filter (overdue now) (map snd (session_rows (pg_rows s))))"
  proof -
    have "map (\<lambda>k. pu_session (the (map_of (pg_rows ?t) k))) ?ks =
        map (\<lambda>k. expired_session (pu_session (the (map_of (pg_rows s) k)))) ?ks"
    proof (rule map_cong [OF refl])
      fix k assume "k \<in> set ?ks"
      then show "pu_session (the (map_of (pg_rows ?t) k)) = expired_session (pu_session (the (map_of (pg_rows s) k)))"
        using over [of k] get(1) [of k] by (auto simp: expire_row_session)
    qed
    also have "\<dots> = map (\<lambda>(k, r). expired_session (pu_session r)) (filter (\<lambda>(k, r). overdue now (pu_session r)) (pg_rows s))"
      unfolding overdue_keys_def using d by (auto intro!: map_cong)
    also have "\<dots> = map expired_session (filter (overdue now) (map snd (session_rows (pg_rows s))))"
      by (simp add: session_rows_def filter_map comp_def case_prod_unfold)
    finally show ?thesis .
  qed
  ultimately have p: "pg_expire_before now s =
      (Inr (map expired_session (filter (overdue now) (map snd (mu_sessions (upload_abs s))))), ?t)"
    using pass by (simp add: pg_expire_before_def pg_expire_rows_def transaction_def sbind_def ok_def Let_def upload_abs_def)
  have "mu_inv (upload_abs ?t)" unfolding abs by (rule mu_expire_keeps [OF pg_inv_abs [OF inv]])
  moreover have "uuid_canonical k = Inr k \<and> times_ok r' \<and> verified_row_ok ?t (pu_session r')"
    if r': "map_of (pg_rows ?t) k = Some r'" for k r'
  proof -
    obtain r where r: "map_of (pg_rows s) k = Some r"
      and e: "r' = (if k \<in> set ?ks then expire_row now r else r)"
      using r' by (auto simp: lookup_expire_keys)
    then show ?thesis using pg_invD(3-5) [OF inv r] times_expired [of r now]
      by (auto simp: verified_row_ok_def expire_keys_def expire_row_session expired_session_def)
  qed
  ultimately have "pg_inv ?t" by (simp add: pg_inv_def)
  then show ?thesis using p abs by (simp add: refines_def mu_expire_eq [OF pg_inv_abs [OF inv]])
qed

end
