(* ===== verification/UploadRefine2.thy ===== *)
theory UploadRefine2
  imports UploadRefine
begin

text \<open>Finalisation under the refinement, the operations that only PostgreSQL has, and runs.\<close>

section \<open>Finalisation\<close>

text \<open>The drawn identifiers are new, and a storage key belongs to one digest.\<close>

definition fresh_records :: "pg_uploads \<Rightarrow> blob_record \<Rightarrow> asset_record \<Rightarrow> bool" where
  "fresh_records s blob asset \<longleftrightarrow>
     (\<forall>b \<in> set (pg_blobs s). blob_sha256 b \<noteq> blob_sha256 blob \<longrightarrow>
        blob_id b \<noteq> blob_id blob \<and> blob_storage_key b \<noteq> blob_storage_key blob) \<and>
     (\<forall>a \<in> set (pg_assets s). asset_id a \<noteq> asset_id asset)"

definition blobs_with :: "blob_record \<Rightarrow> blob_record list \<Rightarrow> blob_record list" where
  "blobs_with b bs = (if blob_map bs (blob_sha256 b) = None then bs @ [b] else bs)"

definition canonical_blob :: "blob_record \<Rightarrow> blob_record list \<Rightarrow> blob_record" where
  "canonical_blob b bs = (case blob_map bs (blob_sha256 b) of None \<Rightarrow> b | Some c \<Rightarrow> c)"

lemma blob_map_None: "blob_map bs h = None \<longleftrightarrow> (\<forall>b \<in> set bs. blob_sha256 b \<noteq> h)"
  by (auto simp: blob_map_def find_None_iff)

lemma blob_map_Some: "blob_map bs h = Some b \<Longrightarrow> b \<in> set bs \<and> blob_sha256 b = h"
  by (auto simp: blob_map_def find_Some_iff)

lemma blob_map_append: "blob_map (bs @ cs) h = (case blob_map bs h of None \<Rightarrow> blob_map cs h | Some b \<Rightarrow> Some b)"
  unfolding blob_map_def by (induction bs) auto

lemma blob_map_with: "blob_map (blobs_with b bs) = (blob_map bs)(blob_sha256 b \<mapsto> canonical_blob b bs)"
proof
  fix h
  show "blob_map (blobs_with b bs) h = ((blob_map bs)(blob_sha256 b \<mapsto> canonical_blob b bs)) h"
  proof (cases "h = blob_sha256 b")
    case True
    then show ?thesis
      by (auto simp: blobs_with_def canonical_blob_def blob_map_append split: option.splits)
         (simp add: blob_map_def)
  next
    case False
    then show ?thesis
      by (auto simp: blobs_with_def blob_map_append split: option.splits) (simp_all add: blob_map_def)
  qed
qed

lemma canonical_blob_in: "canonical_blob b bs \<in> set (blobs_with b bs)"
  using blob_map_Some by (auto simp: canonical_blob_def blobs_with_def split: option.splits)

text \<open>The records the schema takes: a VERIFIED blob and asset whose values fit their columns.\<close>

definition finalizable :: "blob_record \<Rightarrow> asset_record \<Rightarrow> bool" where
  "finalizable blob asset \<longleftrightarrow>
     storable (blob_storage_key blob) \<and> storable (blob_content_type blob) \<and> hex_64 (blob_sha256 blob) \<and>
     0 \<le> blob_size_bytes blob \<and> blob_size_bytes blob < 2 ^ 63 \<and>
     blob_state blob = BLOB_VERIFIED \<and> asset_state asset = ASSET_VERIFIED \<and>
     metadata_dumps (asset_metadata asset) = Inr ()"

lemma pg_insert_blob_eq:
  assumes "fresh_records s blob asset" and "finalizable blob asset"
  shows "pg_insert_blob blob s =
    (Inr (canonical_blob blob (pg_blobs s)), s\<lparr>pg_blobs := blobs_with blob (pg_blobs s)\<rparr>)"
proof (cases "blob_map (pg_blobs s) (blob_sha256 blob)")
  case None
  then have "\<not> list_ex (\<lambda>b. blob_id b = blob_id blob \<or> blob_storage_key b = blob_storage_key blob) (pg_blobs s)"
    using assms by (auto simp: blob_map_None fresh_records_def list_ex_iff)
  then show ?thesis using None assms(2)
    by (simp add: pg_insert_blob_def blob_map_def canonical_blob_def blobs_with_def ok_def finalizable_def
        blob_checks_def bigint_def)
next
  case (Some c)
  then show ?thesis using assms(2)
    by (simp add: pg_insert_blob_def blob_map_def canonical_blob_def blobs_with_def ok_def finalizable_def
        blob_checks_def bigint_def)
qed

definition finalized_row :: "int \<Rightarrow> string \<Rightarrow> string \<Rightarrow> pg_upload \<Rightarrow> pg_upload" where
  "finalized_row now b a r = (on_session (verified_session b a) r)\<lparr>pu_finalized_at := Some now\<rparr>"

definition promoted :: "int \<Rightarrow> string \<Rightarrow> blob_record \<Rightarrow> asset_record \<Rightarrow> pg_uploads \<Rightarrow> pg_uploads" where
  "promoted now sid blob asset s =
     (let c = canonical_blob blob (pg_blobs s) in
      set_pg_row sid (finalized_row now (blob_id c) (asset_id asset))
        (s\<lparr>pg_blobs := blobs_with blob (pg_blobs s),
           pg_assets := pg_assets s @ [asset\<lparr>asset_blob_id := blob_id c\<rparr>]\<rparr>))"

definition accepted :: "int \<Rightarrow> int \<Rightarrow> blob_record \<Rightarrow> asset_record \<Rightarrow> blob_record list \<Rightarrow> upload_session \<Rightarrow> bool" where
  "accepted now v blob asset bs u \<longleftrightarrow>
     cas_ok now v U_VERIFYING u \<and> asset_namespace_id asset = us_namespace_id u \<and>
     asset_blob_id asset = blob_id blob \<and> same_blob (canonical_blob blob bs) blob"

text \<open>The update triggers let the session become VERIFIED once its blob and asset are inserted.\<close>

lemma verified_guard_passes:
  assumes inv: "pg_inv s" and r: "map_of (pg_rows s) sid = Some r"
    and acc: "accepted now v blob asset (pg_blobs s) (pu_session r)"
    and b: "blob_state blob = BLOB_VERIFIED" and a: "asset_state asset = ASSET_VERIFIED"
  shows "upload_update_guard now
     (s\<lparr>pg_blobs := blobs_with blob (pg_blobs s),
        pg_assets := pg_assets s @ [asset\<lparr>asset_blob_id := blob_id (canonical_blob blob (pg_blobs s))\<rparr>]\<rparr>)
     r (finalized_row now (blob_id (canonical_blob blob (pg_blobs s))) (asset_id asset) r) = Inr ()"
proof (rule update_guard_passes)
  let ?c = "canonical_blob blob (pg_blobs s)" and ?u = "pu_session r"
  let ?new = "finalized_row now (blob_id ?c) (asset_id asset) r"
  have sess: "pu_session ?new = verified_session (blob_id ?c) (asset_id asset) ?u"
    by (simp add: finalized_row_def on_session_def)
  have cas: "cas_ok now v U_VERIFYING ?u" using acc by (simp add: accepted_def)
  then have st: "us_state ?u = U_VERIFYING" by (simp add: cas_ok_def)
  show "valid_session (pu_session ?new)" unfolding sess by (rule valid_verified [OF pg_invD(2) [OF inv r] st])
  show "times_ok ?new"
    by (simp add: times_ok_def sess verified_session_def terminal_states_def) (simp add: finalized_row_def)
  show "same_identity ?u (pu_session ?new)" by (simp add: sess verified_session_def same_identity_def)
  show "upload_transition_allowed r ?new" using st
    by (simp add: upload_transition_allowed_def sess verified_session_def)
  show "us_state ?u \<in> open_states" using st by (simp add: open_states_def)
  show "us_state (pu_session ?new) = U_EXPIRED \<or> now < instant (us_expires_at ?u)" using cas by (simp add: cas_ok_def)
  have "blob_state ?c = BLOB_VERIFIED" using acc b by (simp add: accepted_def same_blob_def)
  then have "list_ex (\<lambda>b. blob_id b = blob_id ?c \<and> blob_state b = BLOB_VERIFIED) (blobs_with blob (pg_blobs s))"
    using canonical_blob_in unfolding list_ex_iff by blast
  then show "upload_asset_verified (s\<lparr>pg_blobs := blobs_with blob (pg_blobs s),
      pg_assets := pg_assets s @ [asset\<lparr>asset_blob_id := blob_id ?c\<rparr>]\<rparr>) (pu_session ?new)"
    using acc a by (simp add: upload_asset_verified_def sess verified_session_def accepted_def)
qed

lemma pg_finalize_eq:
  assumes inv: "pg_inv s" and fresh: "fresh_records s blob asset" and r: "map_of (pg_rows s) sid = Some r"
    and fit: "finalizable blob asset"
  shows "if accepted now v blob asset (pg_blobs s) (pu_session r)
     then pg_finalize_verified now sid v blob asset s =
       (Inr (verified_session (blob_id (canonical_blob blob (pg_blobs s))) (asset_id asset) (pu_session r)),
        promoted now sid blob asset s)
     else \<exists>e. pg_finalize_verified now sid v blob asset s = (Inl e, s)"
proof -
  let ?u = "pu_session r" and ?c = "canonical_blob blob (pg_blobs s)"
  let ?s1 = "s\<lparr>pg_blobs := blobs_with blob (pg_blobs s)\<rparr>"
  let ?a = "asset\<lparr>asset_blob_id := blob_id ?c\<rparr>"
  have v: "valid_session ?u" by (rule pg_invD(2) [OF inv r])
  have new: "\<not> list_ex (\<lambda>x. asset_id x = asset_id ?a) (pg_assets s)"
    using fresh by (auto simp: fresh_records_def list_ex_iff)
  have a: "pg_insert_asset ?a ?s1 = (Inr (), ?s1\<lparr>pg_assets := pg_assets s @ [?a]\<rparr>)" if "same_blob ?c blob"
  proof -
    have "blob_state ?c = BLOB_VERIFIED" using that fit by (simp add: same_blob_def finalizable_def)
    then have "list_ex (\<lambda>b. blob_id b = blob_id ?c \<and> blob_state b = BLOB_VERIFIED) (blobs_with blob (pg_blobs s))"
      using canonical_blob_in unfolding list_ex_iff by blast
    then show ?thesis using new fit by (simp add: pg_insert_asset_def ok_def finalizable_def)
  qed
  have get: "pg_get_session sid s = (Inr ?u, s)"
    using r v by (simp add: pg_get_session_def new_UploadSession_ok ok_def)
  have guard: "upload_update_guard now (?s1\<lparr>pg_assets := pg_assets s @ [?a]\<rparr>) r
      (finalized_row now (blob_id ?c) (asset_id asset) r) = Inr ()"
    if "accepted now v blob asset (pg_blobs s) ?u"
    using verified_guard_passes [OF inv r that] fit by (simp add: finalizable_def)
  have upd: "pg_update now sid (\<lambda>r. cas_ok now v U_VERIFYING (pu_session r))
      (\<lambda>r. (on_session (verified_session (blob_id ?c) (asset_id asset)) r)\<lparr>pu_finalized_at := Some now\<rparr>) m
      (?s1\<lparr>pg_assets := pg_assets s @ [?a]\<rparr>) =
    (if accepted now v blob asset (pg_blobs s) ?u then (Inr (), promoted now sid blob asset s)
     else fail StateTransitionError m (?s1\<lparr>pg_assets := pg_assets s @ [?a]\<rparr>))"
    if "same_blob ?c blob" "asset_blob_id asset = blob_id blob" "asset_namespace_id asset = us_namespace_id ?u" for m
    using r that guard
    by (auto simp: pg_update_def ok_def promoted_def set_pg_row_def finalized_row_def [abs_def] Let_def accepted_def)
  have get2: "pg_get_session sid (promoted now sid blob asset s) =
      (Inr (verified_session (blob_id ?c) (asset_id asset) ?u), promoted now sid blob asset s)"
    if "us_state ?u = U_VERIFYING"
    using r valid_verified [OF v that]
    by (simp add: pg_get_session_def promoted_def Let_def lookup_set_row finalized_row_def on_session_def
        new_UploadSession_ok ok_def)
  note simps = pg_finalize_verified_def transaction_def get pg_insert_blob_eq [OF fresh fit] a upd
  show ?thesis
  proof (cases "accepted now v blob asset (pg_blobs s) ?u")
    case True
    then have "same_blob ?c blob" "asset_blob_id asset = blob_id blob" "asset_namespace_id asset = us_namespace_id ?u"
      by (simp_all add: accepted_def)
    moreover have "us_version ?u = v" "us_state ?u = U_VERIFYING" using True by (simp_all add: accepted_def cas_ok_def)
    ultimately show ?thesis using get2 True by (simp add: simps sbind_def)
  next
    case False
    then show ?thesis
      by (auto simp: simps sbind_def cas_rejected_def fail_def raise_def)
  qed
qed

lemma mem_finalize_eq:
  assumes inv: "mu_inv s" and u: "mu_lookup s sid = Some u" and bs: "mu_blobs s = blob_map bs"
  shows "if accepted now v blob asset bs u
     then mu_finalize_verified now sid v blob asset s =
       (Inr (verified_session (blob_id (canonical_blob blob bs)) (asset_id asset) u),
        mu_put sid (verified_session (blob_id (canonical_blob blob bs)) (asset_id asset) u)
          (s\<lparr>mu_blobs := blob_map (blobs_with blob bs)\<rparr>))
     else \<exists>e. mu_finalize_verified now sid v blob asset s = (Inl e, s)"
proof (cases "accepted now v blob asset bs u")
  case False
  then show ?thesis using u
    by (auto simp: mu_finalize_verified_def sbind_def mu_get_session_def ok_def accepted_def bs
        canonical_blob_def same_blob_def cas_rejected_def fail_def raise_def split: option.splits)
next
  case True
  then have st: "us_state u = U_VERIFYING" by (simp add: accepted_def cas_ok_def)
  have v: "new_UploadSession (verified_session b a u) = Inr (verified_session b a u)" for a b
    using mu_invD [OF inv u] st by (simp add: new_UploadSession_ok valid_verified)
  show ?thesis
  proof (cases "blob_map bs (blob_sha256 blob)")
    case None
    then show ?thesis using True u
      by (simp add: mu_finalize_verified_def sbind_def mu_get_session_def ok_def accepted_def bs v
          blob_map_with canonical_blob_def)
  next
    case (Some c)
    have "blob_map (blobs_with blob bs) = blob_map bs" using Some
      by (simp add: blobs_with_def)
    then have "s\<lparr>mu_blobs := blob_map (blobs_with blob bs)\<rparr> = s" by (simp add: bs [symmetric])
    then show ?thesis using True u Some
      by (simp add: mu_finalize_verified_def sbind_def mu_get_session_def ok_def accepted_def bs v
          canonical_blob_def)
  qed
qed

lemma promoted_abs:
  assumes "pg_inv s" and "map_of (pg_rows s) sid = Some r"
  shows "upload_abs (promoted now sid blob asset s) =
    mu_put sid (verified_session (blob_id (canonical_blob blob (pg_blobs s))) (asset_id asset) (pu_session r))
      ((upload_abs s)\<lparr>mu_blobs := blob_map (blobs_with blob (pg_blobs s))\<rparr>)"
  using session_rows_set_row [OF pg_inv_distinct [OF assms(1)] assms(2)]
  by (simp add: promoted_def Let_def upload_abs_def set_pg_row_def mu_put_def finalized_row_def on_session_def)

lemma promoted_inv:
  assumes inv: "pg_inv s" and r: "map_of (pg_rows s) sid = Some r"
    and acc: "accepted now v blob asset (pg_blobs s) (pu_session r)"
  shows "pg_inv (promoted now sid blob asset s)"
proof -
  let ?c = "canonical_blob blob (pg_blobs s)" and ?t = "promoted now sid blob asset s"
  let ?a = "asset\<lparr>asset_blob_id := blob_id ?c\<rparr>"
  have look: "mu_lookup (upload_abs s) sid = Some (pu_session r)" using r by (simp add: abs_lookup)
  have "mu_finalize_verified now sid v blob asset (upload_abs s) =
      (Inr (verified_session (blob_id ?c) (asset_id asset) (pu_session r)), upload_abs ?t)"
    using mem_finalize_eq [OF pg_inv_abs [OF inv] look abs_blobs, of now v blob asset] acc
    by (simp add: promoted_abs [OF inv r])
  then have "mu_inv (upload_abs ?t)"
    using mu_do_keeps [OF pg_inv_abs [OF inv], of "Up_finalize now sid v blob asset"] by simp
  moreover have "uuid_canonical k = Inr k \<and> times_ok r' \<and> verified_row_ok ?t (pu_session r')"
    if r': "map_of (pg_rows ?t) k = Some r'" for k r'
  proof -
    have sets: "set (pg_assets s) \<subseteq> set (pg_assets ?t)" "set (pg_blobs s) \<subseteq> set (pg_blobs ?t)"
      "?a \<in> set (pg_assets ?t)" "?c \<in> set (pg_blobs ?t)"
      using canonical_blob_in [of blob "pg_blobs s"]
      by (auto simp: promoted_def Let_def set_pg_row_def blobs_with_def)
    show ?thesis
    proof (cases "k = sid")
      case True
      then have e: "r' = finalized_row now (blob_id ?c) (asset_id asset) r"
        using r' r by (simp add: promoted_def Let_def lookup_set_row)
      have times: "times_ok r'"
        by (simp add: e times_ok_def finalized_row_def on_session_def verified_session_def terminal_states_def)
      have "verified_row_ok ?t (pu_session r')"
        unfolding verified_row_ok_def
        using sets(3,4) acc
        by (intro impI exI [of _ ?a] exI [of _ ?c])
           (simp add: e finalized_row_def on_session_def verified_session_def accepted_def)
      then show ?thesis using True times pg_invD(3) [OF inv r] by simp
    next
      case False
      then have o: "map_of (pg_rows s) k = Some r'"
        using r' r by (simp add: promoted_def Let_def lookup_set_row)
      have "verified_row_ok ?t (pu_session r')"
        using pg_invD(5) [OF inv o] sets unfolding verified_row_ok_def by blast
      then show ?thesis using pg_invD(3,4) [OF inv o] by simp
    qed
  qed
  ultimately show ?thesis by (simp add: pg_inv_def)
qed

lemma pg_finalize_refines:
  assumes inv: "pg_inv s" and fresh: "fresh_records s blob asset" and fit: "finalizable blob asset"
  shows "refines (pg_finalize_verified now sid v blob asset s) (mu_finalize_verified now sid v blob asset (upload_abs s)) \<and>
         pg_inv (snd (pg_finalize_verified now sid v blob asset s))"
proof (cases "map_of (pg_rows s) sid")
  case None
  then show ?thesis using inv
    by (simp add: pg_finalize_verified_def mu_finalize_verified_def sbind_def transaction_def pg_get_session_def
        mu_get_session_def abs_lookup upload_not_found_def fail_def raise_def refines_def)
next
  case (Some r)
  have look: "mu_lookup (upload_abs s) sid = Some (pu_session r)" using Some by (simp add: abs_lookup)
  note p = pg_finalize_eq [OF inv fresh Some fit, of now v]
  note m = mem_finalize_eq [OF pg_inv_abs [OF inv] look abs_blobs, of now v blob asset]
  show ?thesis
  proof (cases "accepted now v blob asset (pg_blobs s) (pu_session r)")
    case True
    then show ?thesis using p m promoted_inv [OF inv Some True]
      by (simp add: refines_def promoted_abs [OF inv Some])
  next
    case False
    then show ?thesis using p m inv by (auto simp: refines_def)
  qed
qed

text \<open>A PostgreSQL finalisation that returns has inserted what the memory repository would hold.\<close>

lemma pg_insert_blob_wp:
  "wp (\<lambda>_ _. True)
     (\<lambda>c t. c = canonical_blob blob (pg_blobs s) \<and> t = s\<lparr>pg_blobs := blobs_with blob (pg_blobs s)\<rparr>)
     (pg_insert_blob blob s)"
proof (cases "blob_map (pg_blobs s) (blob_sha256 blob)")
  case None
  then show ?thesis
    by (simp add: pg_insert_blob_def blob_map_def canonical_blob_def blobs_with_def wp_simps)
next
  case (Some c)
  then show ?thesis
    by (simp add: pg_insert_blob_def blob_map_def canonical_blob_def blobs_with_def wp_simps)
qed

lemma pg_finalize_wp:
  assumes inv: "pg_inv s"
  shows "wp (\<lambda>_ t. t = s)
     (\<lambda>u' t. \<exists>r. map_of (pg_rows s) sid = Some r \<and> accepted now v blob asset (pg_blobs s) (pu_session r) \<and>
        t = promoted now sid blob asset s \<and>
        u' = verified_session (blob_id (canonical_blob blob (pg_blobs s))) (asset_id asset) (pu_session r))
     (pg_finalize_verified now sid v blob asset s)"
proof (cases "map_of (pg_rows s) sid")
  case None
  then show ?thesis
    by (simp add: pg_finalize_verified_def pg_get_session_def upload_not_found_def wp_simps)
next
  case (Some r)
  let ?u = "pu_session r" and ?c = "canonical_blob blob (pg_blobs s)"
  let ?s1 = "s\<lparr>pg_blobs := blobs_with blob (pg_blobs s)\<rparr>"
  let ?a = "asset\<lparr>asset_blob_id := blob_id ?c\<rparr>"
  let ?V = "\<lambda>u' t. \<exists>r. map_of (pg_rows s) sid = Some r \<and> accepted now v blob asset (pg_blobs s) (pu_session r) \<and>
      t = promoted now sid blob asset s \<and>
      u' = verified_session (blob_id ?c) (asset_id asset) (pu_session r)"
  have v: "valid_session ?u" by (rule pg_invD(2) [OF inv Some])
  have get: "pg_get_session sid s = (Inr ?u, s)"
    using Some v by (simp add: pg_get_session_def new_UploadSession_ok ok_def)
  show ?thesis
  proof (cases "us_version ?u = v \<and> us_state ?u = U_VERIFYING \<and> asset_blob_id asset = blob_id blob \<and>
      asset_namespace_id asset = us_namespace_id ?u")
    case False
    then show ?thesis
      by (auto simp: pg_finalize_verified_def wp_simps get cas_rejected_def)
  next
    case ok: True
    have get2: "pg_get_session sid (promoted now sid blob asset s) =
        (Inr (verified_session (blob_id ?c) (asset_id asset) ?u), promoted now sid blob asset s)"
      using Some valid_verified [OF v] ok
      by (simp add: pg_get_session_def promoted_def Let_def lookup_set_row finalized_row_def on_session_def
          new_UploadSession_ok ok_def)
    have upd: "wp (\<lambda>_ _. True) (\<lambda>_ t. t = promoted now sid blob asset s \<and> cas_ok now v U_VERIFYING ?u)
      (pg_update now sid (\<lambda>r. cas_ok now v U_VERIFYING (pu_session r))
        (\<lambda>r. (on_session (verified_session (blob_id ?c) (asset_id asset)) r)\<lparr>pu_finalized_at := Some now\<rparr>) m
        (?s1\<lparr>pg_assets := pg_assets s @ [?a]\<rparr>))" for m
      using Some
      by (simp add: pg_update_def wp_simps promoted_def set_pg_row_def finalized_row_def [abs_def] Let_def)
    have rest: "wp (\<lambda>_ _. True)
        (\<lambda>_ t. wp (\<lambda>_ t. t = s) ?V (pg_get_session sid t))
        (if \<not> same_blob ?c blob then fail IdempotencyConflictError ''canonical blob digest has different metadata'' ?s1
         else sbind (pg_insert_asset ?a) (\<lambda>_. pg_update now sid (\<lambda>r. cas_ok now v U_VERIFYING (pu_session r))
           (\<lambda>r. (on_session (verified_session (blob_id ?c) (asset_id asset)) r)\<lparr>pu_finalized_at := Some now\<rparr>)
           ''upload session CAS rejected'') ?s1)"
      using ok Some get2
      by (simp add: wp_simps pg_insert_asset_def accepted_def, intro impI wp_mono [OF upd]) (auto simp: wp_simps)
    show ?thesis
      unfolding pg_finalize_verified_def wp_sbind wp_transaction
      using ok by (simp add: get wp_simps del: wp_sbind)
        (subst wp_sbind, rule wp_mono [OF pg_insert_blob_wp], simp, erule conjE, hypsubst, rule rest)
  qed
qed

section \<open>Runs of the protocol\<close>

fun pg_do :: "upload_op \<Rightarrow> (pg_uploads, upload_session list) sop" where
  "pg_do (Up_create now u) s = single (pg_create_session now u s)"
| "pg_do (Up_mark now k v) s = single (pg_mark_uploaded now k v s)"
| "pg_do (Up_claim now k v) s = single (pg_claim_verification now k v s)"
| "pg_do (Up_reject now k v r) s = single (pg_reject now k v r s)"
| "pg_do (Up_finalize now k v b a) s = single (pg_finalize_verified now k v b a s)"
| "pg_do (Up_expire now) s = pg_expire_before now s"

text \<open>Sessions have passed their checks under a canonical identifier; drawn identifiers are new.\<close>

fun pg_guard :: "upload_op \<Rightarrow> pg_uploads \<Rightarrow> bool" where
  "pg_guard (Up_create now u) s =
     (new_UploadSession u = Inr u \<and> uuid_canonical (us_session_id u) = Inr (us_session_id u))"
| "pg_guard (Up_finalize now k v b a) s = fresh_records s b a"
| "pg_guard _ s = True"

text \<open>
  What the schema takes and the in-memory repository does not ask for: creation before the expiry
  with a plain digest, VERIFIED records, values that fit their columns.
\<close>

fun schema_takes :: "upload_op \<Rightarrow> bool" where
  "schema_takes (Up_create now u) = creatable now u"
| "schema_takes (Up_reject now k v r) = storable r"
| "schema_takes (Up_finalize now k v b a) = finalizable b a"
| "schema_takes _ = True"

lemma refines_single: "refines p q \<Longrightarrow> refines (single p) (single q)"
  by (cases p rule: single.cases; cases q rule: single.cases) (auto simp: refines_def)

lemma pg_do_refines:
  assumes "pg_inv s" and "pg_guard x s" and "schema_takes x"
  shows "refines (pg_do x s) (mu_do x (upload_abs s)) \<and> pg_inv (snd (pg_do x s))"
proof (cases x)
  case (Up_create now u)
  then show ?thesis using pg_create_refines [OF assms(1)] assms(2,3)
    by (simp add: new_UploadSession_eq refines_single)
next
  case (Up_mark now k v)
  then show ?thesis using pg_mark_refines [OF assms(1), of now k v] by (simp add: refines_single)
next
  case (Up_claim now k v)
  then show ?thesis using pg_claim_refines [OF assms(1), of now k v] by (simp add: refines_single)
next
  case (Up_reject now k v r)
  then show ?thesis using pg_reject_refines [OF assms(1), of r now k v] assms(3) by (simp add: refines_single)
next
  case (Up_finalize now k v b a)
  then show ?thesis using pg_finalize_refines [OF assms(1), of b a now k v] assms(2,3) by (simp add: refines_single)
next
  case (Up_expire now)
  then show ?thesis using pg_expire_refines [OF assms(1), of now] by simp
qed

text \<open>A raising operation of the memory repository changes nothing.\<close>

lemma mu_do_error:
  assumes "mu_inv s" and "fst (mu_do x s) = Inl e"
  shows "snd (mu_do x s) = s"
proof -
  have single: "fst (single p) = Inl e \<Longrightarrow> wp (\<lambda>_ t. t = s) V p \<Longrightarrow> snd (single p) = s" for p V
    by (cases p rule: single.cases) (simp_all add: wp_simps)
  have create: "wp (\<lambda>_ t. t = s) (\<lambda>_ _. True) (mu_create_session u s)" for u
    by (simp add: mu_create_session_def wp_simps)
  show ?thesis
  proof (cases x)
    case (Up_mark now k v)
    then show ?thesis using assms single [OF _ mu_transition_wp [OF assms(1)]]
      by (simp add: mu_mark_uploaded_def open_states_def)
  next
    case (Up_claim now k v)
    then show ?thesis using assms single [OF _ mu_transition_wp [OF assms(1)]]
      by (simp add: mu_claim_verification_def open_states_def)
  next
    case (Up_expire now)
    then show ?thesis using assms by (simp add: mu_expire_eq)
  qed (use assms single [OF _ create] single [OF _ mu_reject_wp [OF assms(1)]]
      single [OF _ mu_finalize_wp [OF assms(1)]] in simp_all)
qed

text \<open>An operation on the tables and the same one on the memory repository.\<close>

definition agrees :: "upload_op \<Rightarrow> pg_uploads \<Rightarrow> bool" where
  "agrees x s \<longleftrightarrow> pg_inv (snd (pg_do x s)) \<and>
     (case fst (pg_do x s) of
        Inr us \<Rightarrow> mu_do x (upload_abs s) = (Inr us, upload_abs (snd (pg_do x s)))
      | Inl _ \<Rightarrow> upload_abs (snd (pg_do x s)) = upload_abs s \<and>
          (schema_takes x \<longrightarrow> (\<exists>e. mu_do x (upload_abs s) = (Inl e, upload_abs s))))"

lemma refused_agrees: "pg_do x s = (Inl e, s) \<Longrightarrow> pg_inv s \<Longrightarrow> \<not> schema_takes x \<Longrightarrow> agrees x s"
  by (simp add: agrees_def)

lemma pg_do_agrees:
  assumes inv: "pg_inv s" and guard: "pg_guard x s"
  shows "agrees x s"
proof (cases "schema_takes x")
  case True
  note r = pg_do_refines [OF inv guard True]
  show ?thesis
  proof (cases "fst (pg_do x s)")
    case (Inl e)
    then obtain e' where e': "fst (mu_do x (upload_abs s)) = Inl e'" using r by (auto simp: refines_def)
    then have "mu_do x (upload_abs s) = (Inl e', upload_abs s)"
      using mu_do_error [OF pg_inv_abs [OF inv] e'] by (metis prod.collapse)
    then show ?thesis using r Inl by (simp add: agrees_def refines_def)
  next
    case (Inr us)
    then have "mu_do x (upload_abs s) = (Inr us, upload_abs (snd (pg_do x s)))"
      using r by (simp add: refines_def prod_eq_iff)
    then show ?thesis using r Inr by (simp add: agrees_def)
  qed
next
  case False
  show ?thesis
  proof (cases x)
    case (Up_create now u)
    then have "valid_session u" using guard by (simp add: new_UploadSession_eq)
    then obtain e where "pg_create_session now u s = (Inl e, s)" using pg_create_refused [of u now s] False Up_create by auto
    then show ?thesis using Up_create False inv by (intro refused_agrees [of _ _ e]) simp_all
  next
    case (Up_reject now k v r)
    then have "pg_reject now k v r s = (Inl (Exc DataError ''rejection_reason''), s)"
      using False by (auto simp: pg_reject_def fail_def raise_def storable_def)
    then show ?thesis using Up_reject False inv by (intro refused_agrees) simp_all
  next
    case (Up_finalize now k v b a)
    note fin = pg_finalize_wp [OF inv, where now = now and sid = k and v = v and blob = b and asset = a]
    show ?thesis
    proof (cases "fst (pg_finalize_verified now k v b a s)")
      case (Inl e)
      then have "pg_finalize_verified now k v b a s = (Inl e, s)"
        using wp_error [OF fin] by (metis prod.collapse)
      then show ?thesis using Up_finalize False inv by (intro refused_agrees) simp_all
    next
      case (Inr u)
      then have p: "pg_finalize_verified now k v b a s = (Inr u, snd (pg_finalize_verified now k v b a s))"
        by (metis prod.collapse)
      from wp_value [OF fin p] obtain r where r: "map_of (pg_rows s) k = Some r"
        "accepted now v b a (pg_blobs s) (pu_session r)"
        "snd (pg_finalize_verified now k v b a s) = promoted now k b a s"
        "u = verified_session (blob_id (canonical_blob b (pg_blobs s))) (asset_id a) (pu_session r)" by blast
      have "mu_lookup (upload_abs s) k = Some (pu_session r)" using r(1) by (simp add: abs_lookup)
      from mem_finalize_eq [OF pg_inv_abs [OF inv] this abs_blobs, of now v b a] r(2)
      have "mu_finalize_verified now k v b a (upload_abs s) = (Inr u, upload_abs (promoted now k b a s))"
        by (simp add: r(4) promoted_abs [OF inv r(1)])
      then show ?thesis using Up_finalize p r(3) promoted_inv [OF inv r(1,2)] by (simp add: agrees_def)
    qed
  qed (use False in simp_all)
qed

lemma pg_guard_constructed: "pg_guard x s \<Longrightarrow> constructed x"
  by (cases x) auto

definition pg_le :: "pg_uploads \<Rightarrow> pg_uploads \<Rightarrow> bool" where
  "pg_le s t \<longleftrightarrow> mu_le (upload_abs s) (upload_abs t)"

interpretation pg_upload_machine: monotone_machine "\<lambda>x s. snd (pg_do x s)" pg_guard pg_inv pg_le
proof
  fix s t u x
  show "pg_le s s" by (simp add: pg_le_def mu_le_refl)
  show "pg_le s t \<Longrightarrow> pg_le t u \<Longrightarrow> pg_le s u" unfolding pg_le_def by (rule mu_le_trans)
  assume a: "pg_inv s" "pg_guard x s"
  show "pg_inv (snd (pg_do x s))" using pg_do_agrees [OF a] by (simp add: agrees_def)
  show "pg_le s (snd (pg_do x s))"
    using pg_do_agrees [OF a] mu_do_keeps [OF pg_inv_abs [OF a(1)] pg_guard_constructed [OF a(2)]]
    by (auto simp: pg_le_def agrees_def mu_le_refl split: sum.splits)
qed

text \<open>The operations of a run that returned.\<close>

fun returned_ops :: "upload_op list \<Rightarrow> pg_uploads \<Rightarrow> upload_op list" where
  "returned_ops [] s = []"
| "returned_ops (x # xs) s =
     (case fst (pg_do x s) of Inr _ \<Rightarrow> [x] | Inl _ \<Rightarrow> []) @ returned_ops xs (snd (pg_do x s))"

lemma pg_run_refines:
  "guarded_run (\<lambda>x s. snd (pg_do x s)) pg_guard xs s = Some t \<Longrightarrow> pg_inv s \<Longrightarrow>
     guarded_run (\<lambda>x s. snd (mu_do x s)) (\<lambda>x s. constructed x) (returned_ops xs s) (upload_abs s) = Some (upload_abs t)"
proof (induction xs arbitrary: s)
  case Nil
  then show ?case by simp
next
  case (Cons x xs)
  then have g: "pg_guard x s" and run: "guarded_run (\<lambda>x s. snd (pg_do x s)) pg_guard xs (snd (pg_do x s)) = Some t"
    by (auto split: if_splits)
  note a = pg_do_agrees [OF Cons.prems(2) g, unfolded agrees_def]
  show ?case using Cons.IH [OF run conjunct1 [OF a]] a pg_guard_constructed [OF g]
    by (auto split: sum.splits)
qed

lemma pg_inv_empty: "pg_inv empty_pg_uploads"
  by (simp add: pg_inv_def empty_pg_uploads_def upload_abs_def session_rows_def mu_inv_def blob_map_def)

lemma upload_abs_empty: "upload_abs empty_pg_uploads = empty_mem_uploads"
  by (simp add: upload_abs_def empty_pg_uploads_def empty_mem_uploads_def session_rows_def blob_map_def fun_eq_iff)

end
