(* ===== verification/UploadContract.thy ===== *)
theory UploadContract
  imports UploadVerify UploadRefine2 StorageProps
begin

text \<open>
  What \<open>UploadVerifier\<close> relies on, as locales: the repository's compare-and-swap transitions, the
  staging store and the canonical store. A \<open>faulty\<close> staging store may also fail with an \<open>OSError\<close>. The verifier is correct in the sum of them; the
  repositories and stores of the program are interpreted in them.
\<close>

section \<open>The contracts\<close>

locale repo_contract =
  fixes R :: "'r upload_repository"
    and sessions :: "'r \<Rightarrow> string \<Rightarrow> upload_session option"
    and blobs :: "'r \<Rightarrow> string \<Rightarrow> blob_record option"
    and cleaned :: "'r \<Rightarrow> string \<Rightarrow> bool"
    and rinv :: "'r \<Rightarrow> bool"
  assumes session_valid: "rinv s \<Longrightarrow> sessions s k = Some u \<Longrightarrow> valid_session u"
    and get_wp: "rinv s \<Longrightarrow> wp (\<lambda>_ t. t = s) (\<lambda>u t. t = s \<and> sessions s k = Some u) (ur_get R k s)"
    and claim_wp: "rinv s \<Longrightarrow> wp (\<lambda>_ t. rinv t \<and> sessions t = sessions s)
        (\<lambda>u' t. rinv t \<and> (\<exists>u. sessions s k = Some u \<and> cas_ok now v U_UPLOADED u \<and> u' = moved U_VERIFYING u \<and>
           sessions t = (sessions s)(k \<mapsto> u')))
        (ur_claim R now k v s)"
    and reject_wp: "rinv s \<Longrightarrow> wp (\<lambda>_ t. rinv t \<and> sessions t = sessions s)
        (\<lambda>u' t. rinv t \<and> (\<exists>u. sessions s k = Some u \<and> cas_ok now v U_VERIFYING u \<and>
           u' = (moved U_REJECTED u)\<lparr>us_rejection_reason := Some reason\<rparr> \<and> sessions t = (sessions s)(k \<mapsto> u')))
        (ur_reject R now k v reason s)"
    and finalize_wp: "rinv s \<Longrightarrow> wp (\<lambda>_ t. rinv t \<and> sessions t = sessions s)
        (\<lambda>u' t. rinv t \<and> (\<exists>u c. sessions s k = Some u \<and> cas_ok now v U_VERIFYING u \<and>
           blobs t (blob_sha256 blob) = Some c \<and> same_blob c blob \<and>
           u' = verified_session (blob_id c) (asset_id asset) u \<and> sessions t = (sessions s)(k \<mapsto> u')))
        (ur_finalize R now k v blob asset s)"
    and expire_wp: "rinv s \<Longrightarrow> wp (\<lambda>_ _. False)
        (\<lambda>_ t. rinv t \<and> sessions t = (\<lambda>k. map_option (expire_if now) (sessions s k)) \<and> cleaned t = cleaned s)
        (ur_expire R now s)"
    and candidates_wp: "rinv s \<Longrightarrow> wp (\<lambda>_ _. False)
        (\<lambda>us t. t = s \<and> set us = {u. \<exists>k. sessions s k = Some u \<and> us_state u \<in> terminal_states \<and> \<not> cleaned s k})
        (ur_candidates R s)"

definition staging_key_ok :: "string \<Rightarrow> bool" where
  "staging_key_ok k \<longleftrightarrow> (\<exists>c. uuid_canonical c = Inr c \<and> k = ''staging/'' @ c)"

locale staging_contract =
  fixes S :: "'g staging_store"
    and staged :: "'g \<Rightarrow> string \<Rightarrow> string option"
    and sinv :: "'g \<Rightarrow> bool"
    and faulty :: bool
  assumes open_wp: "sinv s \<Longrightarrow> wp (\<lambda>_ t. t = s) (\<lambda>x t. t = s \<and> staged s k = Some x) (st_open S k s)"
    and delete_wp: "sinv s \<Longrightarrow> wp (\<lambda>e t. sinv t \<and> (staged t = staged s \<or> staged t = (staged s)(k := None)) \<and>
           (staged s k = None \<or> faulty \<and> instance_of e OSError))
        (\<lambda>_ t. sinv t \<and> staged t = (staged s)(k := None)) (st_delete S k s)"
    and exists_wp: "sinv s \<Longrightarrow> staging_key_ok k \<Longrightarrow>
        wp (\<lambda>e t. t = s \<and> faulty \<and> instance_of e OSError) (\<lambda>b t. t = s \<and> (b \<longleftrightarrow> staged s k \<noteq> None)) (st_exists S k s)"

locale put_contract =
  fixes put :: "string list \<Rightarrow> ('c, blob_object) sop"
    and held :: "'c \<Rightarrow> string \<Rightarrow> string option"
    and cinv :: "'c \<Rightarrow> bool"
  assumes put_wp: "cinv s \<Longrightarrow> wp (\<lambda>_ t. cinv t)
        (\<lambda>obj t. cinv t \<and> describes obj (concat cs) \<and>
           (\<exists>x. held t (obj_storage_key obj) = Some x \<and> sha256_hex x = sha256_hex (concat cs)))
        (put cs s)"

section \<open>The verifier in these contracts\<close>

definition approves :: "('r, 'g, 'c) verifier \<Rightarrow> upload_session \<Rightarrow> string \<Rightarrow> media_info \<Rightarrow> bool" where
  "approves V u x info \<longleftrightarrow>
     int (length x) = us_expected_size_bytes u \<and> int (length x) \<le> uv_max_upload_bytes V \<and>
     (\<forall>h. us_expected_sha256 u = Some h \<longrightarrow> sha256_hex x = h) \<and> uv_probe V x = Inr info"

text \<open>When and why a session is rejected; \<open>sx\<close> is what is staged under its key.\<close>

definition refuses :: "('r, 'g, 'c) verifier \<Rightarrow> upload_session \<Rightarrow> string option \<Rightarrow> string \<Rightarrow> bool" where
  "refuses V u sx reason \<longleftrightarrow>
     (reason = ''size_limit_exceeded'' \<and>
        (us_expected_size_bytes u > uv_max_upload_bytes V \<or>
         (\<exists>x. sx = Some x \<and> (int (length x) > us_expected_size_bytes u \<or> int (length x) > uv_max_upload_bytes V)))) \<or>
     (reason = ''size_or_sha256_mismatch'' \<and>
        (\<exists>x. sx = Some x \<and> (int (length x) < us_expected_size_bytes u \<or>
                              (\<exists>h. us_expected_sha256 u = Some h \<and> sha256_hex x \<noteq> h)))) \<or>
     (reason = ''media_probe_failed'' \<and> (\<exists>x e. sx = Some x \<and> uv_probe V x = Inl e \<and> probe_rejected e))"


locale upload_verifier =
  repo_contract "uv_repository V" sessions blobs cleaned rinv +
  staging_contract "uv_staging V" staged sinv faulty +
  put_contract "uv_put_stream V" held cinv
  for V :: "('r, 'g, 'c) verifier" and sessions blobs cleaned rinv staged sinv faulty held cinv
begin

definition wok :: "('r, 'g, 'c) upload_world \<Rightarrow> bool" where
  "wok w \<longleftrightarrow> rinv (uw_repo w) \<and> sinv (uw_staging w) \<and> cinv (uw_canonical w)"

text \<open>The state in which the verdict \<open>u'\<close> is recorded, and nothing else in the repository changed.\<close>

definition recorded :: "string \<Rightarrow> upload_session \<Rightarrow>
    ('r, 'g, 'c) upload_world \<Rightarrow> ('r, 'g, 'c) upload_world \<Rightarrow> bool" where
  "recorded sid u' w t \<longleftrightarrow> wok t \<and> sessions (uw_repo t) = (sessions (uw_repo w))(sid \<mapsto> u')"

text \<open>What the repository and the canonical store hold for verified bytes.\<close>

definition published :: "upload_session \<Rightarrow> ('r, 'g, 'c) upload_world \<Rightarrow> string \<Rightarrow> media_info \<Rightarrow> bool" where
  "published u' t x info \<longleftrightarrow>
     (\<exists>c. blobs (uw_repo t) (sha256_hex x) = Some c \<and> us_verified_blob_id u' = Some (blob_id c) \<and>
        blob_size_bytes c = int (length x) \<and> canonical_key (sha256_hex x) = Inr (blob_storage_key c) \<and>
        blob_state c = BLOB_VERIFIED \<and> blob_content_type c = mi_media_type info \<and>
        (\<exists>y. held (uw_canonical t) (blob_storage_key c) = Some y \<and> sha256_hex y = sha256_hex x))"

text \<open>The verdict \<open>u'\<close> on \<open>u\<close> is right.\<close>

definition judged :: "upload_session \<Rightarrow> string \<Rightarrow> upload_session \<Rightarrow>
    ('r, 'g, 'c) upload_world \<Rightarrow> ('r, 'g, 'c) upload_world \<Rightarrow> bool" where
  "judged u aid u' w t \<longleftrightarrow> same_identity u u' \<and>
     ((us_state u' = U_VERIFIED \<and> us_verified_asset_id u' = Some aid \<and>
         (\<exists>x info. staged (uw_staging w) (us_staging_key u) = Some x \<and> approves V u x info \<and> published u' t x info)) \<or>
      (us_state u' = U_REJECTED \<and> uw_canonical t = uw_canonical w \<and>
         (\<exists>reason. us_rejection_reason u' = Some reason \<and>
            refuses V u (staged (uw_staging w) (us_staging_key u)) reason)))"

definition decided :: "string \<Rightarrow> upload_session \<Rightarrow> string \<Rightarrow> upload_session \<Rightarrow>
    ('r, 'g, 'c) upload_world \<Rightarrow> ('r, 'g, 'c) upload_world \<Rightarrow> bool" where
  "decided sid u aid u' w t \<longleftrightarrow> recorded sid u' w t \<and> judged u aid u' w t \<and>
     staged (uw_staging t) = (staged (uw_staging w))(us_staging_key u := None)"

text \<open>
  The state when the call raises. Either there is no verdict yet, the session is at most claimed
  and everything staged is still there; or the verdict was recorded, and the removal of the staged
  object failed, which takes a faulty store unless there was none.
\<close>

definition undecided :: "string \<Rightarrow> ('r, 'g, 'c) upload_world \<Rightarrow> ('r, 'g, 'c) upload_world \<Rightarrow> bool" where
  "undecided sid w t \<longleftrightarrow> wok t \<and> staged (uw_staging t) = staged (uw_staging w) \<and>
     (sessions (uw_repo t) = sessions (uw_repo w) \<or>
      (\<exists>u. sessions (uw_repo w) sid = Some u \<and> us_state u = U_UPLOADED \<and>
         sessions (uw_repo t) = (sessions (uw_repo w))(sid \<mapsto> moved U_VERIFYING u)))"

definition unremoved :: "string \<Rightarrow> upload_session \<Rightarrow> string \<Rightarrow> upload_session \<Rightarrow> exc \<Rightarrow>
    ('r, 'g, 'c) upload_world \<Rightarrow> ('r, 'g, 'c) upload_world \<Rightarrow> bool" where
  "unremoved sid u aid u' e w t \<longleftrightarrow> recorded sid u' w t \<and> judged u aid u' w t \<and>
     (staged (uw_staging t) = staged (uw_staging w) \<or>
      staged (uw_staging t) = (staged (uw_staging w))(us_staging_key u := None)) \<and>
     (staged (uw_staging w) (us_staging_key u) = None \<or> faulty \<and> instance_of e OSError)"

definition aborted :: "string \<Rightarrow> string \<Rightarrow> exc \<Rightarrow> ('r, 'g, 'c) upload_world \<Rightarrow> ('r, 'g, 'c) upload_world \<Rightarrow> bool" where
  "aborted sid aid e w t \<longleftrightarrow> undecided sid w t \<or>
     (\<exists>u u'. sessions (uw_repo w) sid = Some u \<and> unremoved sid u aid u' e w t)"

text \<open>The last step of both verdicts: what is staged is deleted once the verdict is recorded.\<close>

lemma remove_staged_wp:
  assumes sess: "sessions (uw_repo w) sid = Some u" and same: "uw_staging w1 = uw_staging w"
    and rec: "\<And>s. sinv s \<Longrightarrow> recorded sid u' w (w1\<lparr>uw_staging := s\<rparr>)"
    and jud: "\<And>s. judged u aid u' w (w1\<lparr>uw_staging := s\<rparr>)" and g: "sinv (uw_staging w)"
  shows "wp (\<lambda>e t. aborted sid aid e w t) (\<lambda>x t. x = u' \<and> decided sid u aid u' w t)
    (sbind (on_staging (st_delete (uv_staging V) (us_staging_key u))) (\<lambda>_. ok u') w1)"
  unfolding wp_sbind wp_on_staging same
proof (rule wp_mono [OF delete_wp [OF g]])
  fix e s
  assume "sinv s \<and> (staged s = staged (uw_staging w) \<or> staged s = (staged (uw_staging w))(us_staging_key u := None)) \<and>
    (staged (uw_staging w) (us_staging_key u) = None \<or> faulty \<and> instance_of e OSError)"
  then have "unremoved sid u aid u' e w (w1\<lparr>uw_staging := s\<rparr>)" using rec [of s] jud by (simp add: unremoved_def)
  then show "aborted sid aid e w (w1\<lparr>uw_staging := s\<rparr>)" using sess by (auto simp: aborted_def)
next
  fix a s
  assume "sinv s \<and> staged s = (staged (uw_staging w))(us_staging_key u := None)"
  then show "wp (\<lambda>e. aborted sid aid e w) (\<lambda>x t. x = u' \<and> decided sid u aid u' w t) (ok u' (w1\<lparr>uw_staging := s\<rparr>))"
    using rec [of s] jud by (simp add: wp_simps decided_def)
qed

lemma undecided_aborted: "undecided sid w t \<Longrightarrow> aborted sid aid e w t"
  by (simp add: aborted_def)

lemma reject_staged_wp:
  assumes w: "wok w" and sess: "sessions (uw_repo w) sid = Some u"
    and why: "refuses V u (staged (uw_staging w) (us_staging_key u)) reason"
  shows "wp (\<lambda>e t. aborted sid aid e w t) (\<lambda>u' t. decided sid u aid u' w t) (reject_staged V now u sid v reason w)"
proof -
  have r: "rinv (uw_repo w)" and g: "sinv (uw_staging w)" and c: "cinv (uw_canonical w)"
    using w by (simp_all add: wok_def)
  show ?thesis unfolding reject_staged_def
  proof (subst wp_sbind, subst wp_on_repo, rule wp_mono [OF reject_wp [OF r]])
    fix e s assume "rinv s \<and> sessions s = sessions (uw_repo w)"
    then show "aborted sid aid e w (w\<lparr>uw_repo := s\<rparr>)"
      using w by (intro undecided_aborted) (simp add: undecided_def wok_def)
  next
    fix u' s
    assume "rinv s \<and> (\<exists>x. sessions (uw_repo w) sid = Some x \<and> cas_ok now v U_VERIFYING x \<and>
        u' = (moved U_REJECTED x)\<lparr>us_rejection_reason := Some reason\<rparr> \<and> sessions s = (sessions (uw_repo w))(sid \<mapsto> u'))"
    then have s: "rinv s" "u' = (moved U_REJECTED u)\<lparr>us_rejection_reason := Some reason\<rparr>"
      "sessions s = (sessions (uw_repo w))(sid \<mapsto> u')" using sess by auto
    have jud: "judged u aid u' w (w\<lparr>uw_repo := s, uw_staging := x\<rparr>)" for x
      using why by (simp add: judged_def s(2) moved_def same_identity_def)
    have rec: "recorded sid u' w (w\<lparr>uw_repo := s, uw_staging := x\<rparr>)" if "sinv x" for x
      using that s c by (simp add: recorded_def wok_def)
    show "wp (\<lambda>e. aborted sid aid e w) (\<lambda>u' t. decided sid u aid u' w t)
        (sbind (on_staging (st_delete (uv_staging V) (us_staging_key u))) (\<lambda>_. ok u') (w\<lparr>uw_repo := s\<rparr>))"
      by (rule wp_mono [OF remove_staged_wp [OF sess _ rec jud g]]) simp_all
  qed
qed

lemma promote_wp:
  assumes w: "wok w" and sess: "sessions (uw_repo w) sid = Some u"
    and x: "staged (uw_staging w) (us_staging_key u) = Some x" and good: "approves V u x info"
  shows "wp (\<lambda>e t. aborted sid (ud_asset_id d) e w t) (\<lambda>u' t. decided sid u (ud_asset_id d) u' w t)
    (promote E V d u sid v x info w)"
proof -
  have r: "rinv (uw_repo w)" and g: "sinv (uw_staging w)" and c: "cinv (uw_canonical w)"
    using w by (simp_all add: wok_def)
  have whole: "concat (pieces mebibyte x) = x" by (rule concat_pieces) (simp add: mebibyte_def)
  let ?A = "\<lambda>e t. aborted sid (ud_asset_id d) e w t"
  let ?D = "\<lambda>u' t. decided sid u (ud_asset_id d) u' w t"
  show ?thesis unfolding promote_def
  proof (subst wp_sbind, subst wp_on_canonical, rule wp_mono [OF put_wp [OF c]])
    fix e s assume "cinv s"
    then show "?A e (w\<lparr>uw_canonical := s\<rparr>)"
      using r g by (intro undecided_aborted) (simp add: undecided_def wok_def)
  next
    fix obj s
    assume "cinv s \<and> describes obj (concat (pieces mebibyte x)) \<and>
      (\<exists>y. held s (obj_storage_key obj) = Some y \<and> sha256_hex y = sha256_hex (concat (pieces mebibyte x)))"
    then have s: "cinv s" and obj: "describes obj x"
      and y: "\<exists>y. held s (obj_storage_key obj) = Some y \<and> sha256_hex y = sha256_hex x"
      by (simp_all add: whole)
    let ?w = "w\<lparr>uw_canonical := s\<rparr>"
    have ab: "?A e ?w" for e using r g s by (intro undecided_aborted) (simp add: undecided_def wok_def)
    have step: "wp ?A ?D
        (sbind (on_repo (ur_finalize (uv_repository V) (ud_final_time d) sid v blob asset)) (\<lambda>verified.
         sbind (on_staging (st_delete (uv_staging V) (us_staging_key u))) (\<lambda>_. ok verified)) ?w)"
      if blob: "blob = \<lparr>blob_id = ud_blob_id d, blob_sha256 = obj_sha256 obj, blob_size_bytes = obj_size_bytes obj,
           blob_storage_key = obj_storage_key obj, blob_state = BLOB_VERIFIED, blob_content_type = mi_media_type info\<rparr>"
        and asset: "asset_id asset = ud_asset_id d" for blob asset
    proof (subst wp_sbind, subst wp_on_repo, simp, rule wp_mono [OF finalize_wp [OF r]])
      fix e t assume "rinv t \<and> sessions t = sessions (uw_repo w)"
      then show "?A e (w\<lparr>uw_canonical := s, uw_repo := t\<rparr>)"
        using s g by (intro undecided_aborted) (simp add: undecided_def wok_def)
    next
      fix u' t
      assume "rinv t \<and> (\<exists>a c. sessions (uw_repo w) sid = Some a \<and> cas_ok (ud_final_time d) v U_VERIFYING a \<and>
        blobs t (blob_sha256 blob) = Some c \<and> same_blob c blob \<and>
        u' = verified_session (blob_id c) (asset_id asset) a \<and> sessions t = (sessions (uw_repo w))(sid \<mapsto> u'))"
      then obtain c where t: "rinv t" "blobs t (blob_sha256 blob) = Some c" "same_blob c blob"
        "u' = verified_session (blob_id c) (asset_id asset) u" "sessions t = (sessions (uw_repo w))(sid \<mapsto> u')"
        using sess by auto
      have pub: "published u' (w\<lparr>uw_canonical := s, uw_repo := t, uw_staging := z\<rparr>) x info" for z
        using t(2-4) obj y by (auto simp: published_def blob describes_def same_blob_def verified_session_def)
      have jud: "judged u (ud_asset_id d) u' w (w\<lparr>uw_canonical := s, uw_repo := t, uw_staging := z\<rparr>)" for z
        using pub x good by (auto simp: judged_def t(4) verified_session_def same_identity_def asset)
      have rec: "recorded sid u' w (w\<lparr>uw_canonical := s, uw_repo := t, uw_staging := z\<rparr>)" if "sinv z" for z
        using that t(1,5) s by (simp add: recorded_def wok_def)
      show "wp ?A ?D (sbind (on_staging (st_delete (uv_staging V) (us_staging_key u))) (\<lambda>_. ok u')
          (w\<lparr>uw_canonical := s, uw_repo := t\<rparr>))"
        by (rule wp_mono [OF remove_staged_wp [OF sess _ rec jud g]]) simp_all
    qed
    show "wp ?A ?D
        (lift (new_BlobRecord (ud_blob_id d) (obj_sha256 obj) (obj_size_bytes obj) (obj_storage_key obj)
             BLOB_VERIFIED (mi_media_type info)) ?w (\<lambda>blob.
         lift (new_AssetRecord E (ud_asset_id d) (blob_id blob) (us_namespace_id u) KIND_INPUT ASSET_VERIFIED
             (PDict [(PStr ''media_type'', PStr (mi_media_type info)),
                     (PStr ''duration_seconds'', mi_duration_seconds info)])) ?w (\<lambda>asset.
         sbind (on_repo (ur_finalize (uv_repository V) (ud_final_time d) sid v blob asset)) (\<lambda>verified.
         sbind (on_staging (st_delete (uv_staging V) (us_staging_key u))) (\<lambda>_. ok verified)) ?w)))"
      unfolding wp_lift using ab
      by (auto simp: new_BlobRecord_def new_AssetRecord_def after_eq_Inr intro!: step)
  qed
qed

lemma verify_session_wp:
  assumes w: "wok w" and sess: "sessions (uw_repo w) sid = Some u"
  shows "wp (\<lambda>e t. aborted sid (ud_asset_id d) e w t) (\<lambda>u' t. decided sid u (ud_asset_id d) u' w t)
    (verify_session E V d u sid v w)"
proof -
  let ?V = "\<lambda>u' t. decided sid u (ud_asset_id d) u' w t"
  have u: "valid_session u" using w by (intro session_valid [OF _ sess]) (simp add: wok_def)
  then have size: "0 \<le> us_expected_size_bytes u" by (simp add: valid_session_def)
  have ab: "aborted sid (ud_asset_id d) e w w" for e using w by (simp add: aborted_def undecided_def)
  note reject = reject_staged_wp [OF w sess]
  show ?thesis
  proof (cases "us_expected_size_bytes u > uv_max_upload_bytes V")
    case True
    then show ?thesis by (simp add: verify_session_def Let_def reject refuses_def)
  next
    case False
    then have limit: "0 \<le> uv_max_upload_bytes V" using size by simp
    show ?thesis unfolding verify_session_def Let_def if_not_P [OF False] wp_sbind wp_on_staging
    proof (rule wp_mono [OF open_wp])
      show "sinv (uw_staging w)" using w by (simp add: wok_def)
    next
      fix e s assume "s = uw_staging w"
      then show "aborted sid (ud_asset_id d) e w (w\<lparr>uw_staging := s\<rparr>)" using ab by simp
    next
      fix x s assume "s = uw_staging w \<and> staged (uw_staging w) (us_staging_key u) = Some x"
      then have s: "w\<lparr>uw_staging := s\<rparr> = w" and x: "staged (uw_staging w) (us_staging_key u) = Some x" by simp_all
      show "wp (\<lambda>e. aborted sid (ud_asset_id d) e w) ?V
        (case scan (us_expected_size_bytes u) (uv_max_upload_bytes V) (pieces mebibyte x) [] of
           None \<Rightarrow> reject_staged V (ud_final_time d) u sid v ''size_limit_exceeded'' (w\<lparr>uw_staging := s\<rparr>)
         | Some snapshot \<Rightarrow>
             if digest_mismatch u snapshot
             then reject_staged V (ud_final_time d) u sid v ''size_or_sha256_mismatch'' (w\<lparr>uw_staging := s\<rparr>)
             else case uv_probe V snapshot of
                 Inl e \<Rightarrow> if probe_rejected e
                    then reject_staged V (ud_final_time d) u sid v ''media_probe_failed'' (w\<lparr>uw_staging := s\<rparr>)
                    else (Inl e, w\<lparr>uw_staging := s\<rparr>)
               | Inr info \<Rightarrow> promote E V d u sid v snapshot info (w\<lparr>uw_staging := s\<rparr>))"
      proof (cases "int (length x) > us_expected_size_bytes u \<or> int (length x) > uv_max_upload_bytes V")
        case True
        then have "refuses V u (staged (uw_staging w) (us_staging_key u)) ''size_limit_exceeded''"
          by (simp add: refuses_def x)
        then show ?thesis using True by (simp add: scan_whole [OF size limit] s reject)
      next
        case small: False
        have sc: "scan (us_expected_size_bytes u) (uv_max_upload_bytes V) (pieces mebibyte x) [] = Some x"
          using small by (simp add: scan_whole [OF size limit])
        have mm: "digest_mismatch u x \<longleftrightarrow> int (length x) < us_expected_size_bytes u \<or>
            (\<exists>h. us_expected_sha256 u = Some h \<and> sha256_hex x \<noteq> h)"
          using small u by (auto simp: digest_mismatch_def valid_session_def sha256_text_ok_def split: option.splits)
        show ?thesis
        proof (cases "digest_mismatch u x")
          case True
          then have "refuses V u (staged (uw_staging w) (us_staging_key u)) ''size_or_sha256_mismatch''"
            using mm by (simp add: refuses_def x)
          then show ?thesis using True by (simp add: sc s reject)
        next
          case ok: False
          show ?thesis
          proof (cases "uv_probe V x")
            case (Inl e)
            then have "probe_rejected e \<Longrightarrow> refuses V u (staged (uw_staging w) (us_staging_key u)) ''media_probe_failed''"
              by (simp add: refuses_def x)
            then show ?thesis using ok Inl ab by (simp add: sc s reject wp_simps)
          next
            case (Inr info)
            have "approves V u x info" using small ok mm Inr by (auto simp: approves_def)
            then have "wp (\<lambda>e t. aborted sid (ud_asset_id d) e w t) ?V (promote E V d u sid v x info w)"
              by (rule promote_wp [OF w sess x])
            then show ?thesis using ok Inr by (simp add: sc s)
          qed
        qed
      qed
    qed
  qed
qed

lemma judged_claim:
  "judged (moved U_VERIFYING u) aid u' w1 t \<Longrightarrow> uw_staging w1 = uw_staging w \<Longrightarrow> uw_canonical w1 = uw_canonical w \<Longrightarrow>
   judged u aid u' w t"
  by (simp add: judged_def moved_def same_identity_def approves_def refuses_def)

lemma recorded_claim:
  "recorded sid u' w1 t \<Longrightarrow> sessions (uw_repo w1) = (sessions (uw_repo w))(sid \<mapsto> x) \<Longrightarrow> recorded sid u' w t"
  by (simp add: recorded_def)

lemma aborted_claim:
  assumes "aborted sid aid e w1 t" and "sessions (uw_repo w) sid = Some u" and "us_state u = U_UPLOADED"
    and "sessions (uw_repo w1) = (sessions (uw_repo w))(sid \<mapsto> moved U_VERIFYING u)"
    and "uw_staging w1 = uw_staging w" and "uw_canonical w1 = uw_canonical w"
  shows "aborted sid aid e w t"
proof -
  have "us_state (moved U_VERIFYING u) = U_VERIFYING" "us_staging_key (moved U_VERIFYING u) = us_staging_key u"
    by (simp_all add: moved_def)
  then have "undecided sid w1 t \<Longrightarrow> undecided sid w t"
    and "unremoved sid (moved U_VERIFYING u) aid u' e w1 t \<Longrightarrow> unremoved sid u aid u' e w t" for u'
    using assms(2-6) judged_claim [of u aid u' w1 t w] recorded_claim [OF _ assms(4), of u' t]
    by (auto simp: undecided_def unremoved_def)
  then show ?thesis using assms(1,2,4) by (auto simp: aborted_def)
qed

lemma decided_claim:
  assumes "decided sid (moved U_VERIFYING u) aid u' w1 t"
    and "sessions (uw_repo w1) = (sessions (uw_repo w))(sid \<mapsto> moved U_VERIFYING u)"
    and "uw_staging w1 = uw_staging w" and "uw_canonical w1 = uw_canonical w"
  shows "decided sid u aid u' w t"
  using assms judged_claim [of u aid u' w1 t w] recorded_claim [of sid u' w1 t w]
  by (auto simp: decided_def moved_def)

theorem finalize_decides:
  assumes w: "wok w"
  shows "wp (\<lambda>e t. aborted sid (ud_asset_id d) e w t)
    (\<lambda>u' t. \<exists>u. sessions (uw_repo w) sid = Some u \<and> us_version u = v \<and> us_state u \<in> {U_UPLOADED, U_VERIFYING} \<and>
       decided sid u (ud_asset_id d) u' w t)
    (finalize E V d sid v w)"
proof -
  have r: "rinv (uw_repo w)" using w by (simp add: wok_def)
  let ?A = "\<lambda>e t. aborted sid (ud_asset_id d) e w t"
  have ab: "?A e w" for e using w by (simp add: aborted_def undecided_def)
  show ?thesis unfolding finalize_def wp_sbind wp_on_repo
  proof (rule wp_mono [OF get_wp [OF r]])
    fix e s assume "s = uw_repo w"
    then show "?A e (w\<lparr>uw_repo := s\<rparr>)" using ab by simp
  next
    fix u s assume "s = uw_repo w \<and> sessions (uw_repo w) sid = Some u"
    then have s: "w\<lparr>uw_repo := s\<rparr> = w" and sess: "sessions (uw_repo w) sid = Some u" by simp_all
    let ?V = "\<lambda>u' t. \<exists>u. sessions (uw_repo w) sid = Some u \<and> us_version u = v \<and>
        us_state u \<in> {U_UPLOADED, U_VERIFYING} \<and> decided sid u (ud_asset_id d) u' w t"
    have claim: "wp ?A ?V
        (sbind (on_repo (ur_claim (uv_repository V) (ud_claim_time d) sid v))
           (\<lambda>session. verify_session E V d session sid (us_version session)) w)"
      unfolding wp_sbind wp_on_repo
    proof (rule wp_mono [OF claim_wp [OF r]])
      fix e s assume "rinv s \<and> sessions s = sessions (uw_repo w)"
      then show "?A e (w\<lparr>uw_repo := s\<rparr>)"
        using w by (intro undecided_aborted) (simp add: undecided_def wok_def)
    next
      fix u1 s
      assume "rinv s \<and> (\<exists>u. sessions (uw_repo w) sid = Some u \<and> cas_ok (ud_claim_time d) v U_UPLOADED u \<and>
        u1 = moved U_VERIFYING u \<and> sessions s = (sessions (uw_repo w))(sid \<mapsto> u1))"
      then have c: "rinv s" "cas_ok (ud_claim_time d) v U_UPLOADED u" "u1 = moved U_VERIFYING u"
        "sessions s = (sessions (uw_repo w))(sid \<mapsto> u1)" using sess by auto
      let ?w = "w\<lparr>uw_repo := s\<rparr>"
      have st: "us_state u = U_UPLOADED" "us_version u = v" using c(2) by (simp_all add: cas_ok_def)
      have "wok ?w" using w c(1) by (simp add: wok_def)
      moreover have "sessions (uw_repo ?w) sid = Some u1" using c(4) by simp
      ultimately show "wp ?A ?V (verify_session E V d u1 sid (us_version u1) ?w)"
      proof (intro wp_mono [OF verify_session_wp])
        fix e t assume "aborted sid (ud_asset_id d) e ?w t"
        then show "?A e t" by (rule aborted_claim [OF _ sess st(1)]) (simp_all add: c)
      next
        fix u' t assume "decided sid u1 (ud_asset_id d) u' ?w t"
        then have "decided sid u (ud_asset_id d) u' w t" unfolding c(3) by (rule decided_claim) (simp_all add: c)
        then show "?V u' t" using sess st by blast
      qed
    qed
    have direct: "wp ?A ?V (verify_session E V d u sid v w)"
      if "us_version u = v" "us_state u = U_VERIFYING"
      by (rule wp_mono [OF verify_session_wp [OF w sess]]) (use sess that in auto)
    show "wp ?A ?V
       (if us_version u \<noteq> v
        then fail StateTransitionError ''upload session is not the requested version'' (w\<lparr>uw_repo := s\<rparr>)
        else if us_state u = U_UPLOADED
        then sbind (on_repo (ur_claim (uv_repository V) (ud_claim_time d) sid v))
               (\<lambda>session. verify_session E V d session sid (us_version session)) (w\<lparr>uw_repo := s\<rparr>)
        else if us_state u \<noteq> U_VERIFYING
        then fail StateTransitionError ''upload session is not available for verification'' (w\<lparr>uw_repo := s\<rparr>)
        else verify_session E V d u sid v (w\<lparr>uw_repo := s\<rparr>))"
      unfolding s using claim direct ab by (simp add: wp_simps)
  qed
qed

text \<open>
  The janitor's sweep removes exactly the listed objects and counts those that were there; a fault
  ends it with some of them removed.
\<close>

definition cut_short :: "string set \<Rightarrow> exc \<Rightarrow> ('r, 'g, 'c) upload_world \<Rightarrow> ('r, 'g, 'c) upload_world \<Rightarrow> bool" where
  "cut_short K e w t \<longleftrightarrow> faulty \<and> instance_of e OSError \<and> wok t \<and> uw_repo t = uw_repo w \<and>
     (\<forall>k. staged (uw_staging t) k = staged (uw_staging w) k \<or> k \<in> K \<and> staged (uw_staging t) k = None)"

lemma cut_short_step:
  assumes "cut_short K e w1 t" and "uw_repo w1 = uw_repo w" and "K \<subseteq> L" and "k \<in> L"
    and "staged (uw_staging w1) = staged (uw_staging w) \<or> staged (uw_staging w1) = (staged (uw_staging w))(k := None)"
  shows "cut_short L e w t"
proof -
  have "staged (uw_staging t) l = staged (uw_staging w) l \<or> l \<in> L \<and> staged (uw_staging t) l = None" for l
  proof -
    have "staged (uw_staging w1) l = staged (uw_staging w) l \<or> l \<in> L \<and> staged (uw_staging w1) l = None"
      using assms(4,5) by (cases "l = k") auto
    moreover have "staged (uw_staging t) l = staged (uw_staging w1) l \<or> l \<in> L \<and> staged (uw_staging t) l = None"
      using assms(1,3) unfolding cut_short_def by blast
    ultimately show ?thesis by metis
  qed
  then show ?thesis using assms(1,2) unfolding cut_short_def by simp
qed

lemma sweep_wp:
  assumes "wok w" and "\<forall>u \<in> set us. staging_key_ok (us_staging_key u)"
  shows "wp (\<lambda>e t. cut_short (us_staging_key ` set us) e w t)
    (\<lambda>n t. wok t \<and> uw_repo t = uw_repo w \<and> uw_canonical t = uw_canonical w \<and>
       staged (uw_staging t) = (\<lambda>k. if k \<in> us_staging_key ` set us then None else staged (uw_staging w) k) \<and>
       n = m + card {k \<in> us_staging_key ` set us. staged (uw_staging w) k \<noteq> None})
    (sweep V us m w)"
  using assms
proof (induction us arbitrary: w m)
  case Nil
  then show ?case by (simp add: wp_simps)
next
  case (Cons u us)
  let ?k = "us_staging_key u" and ?K = "us_staging_key ` set us"
  have g: "sinv (uw_staging w)" using Cons.prems(1) by (simp add: wok_def)
  have key: "staging_key_ok ?k" using Cons.prems(2) by simp
  let ?V = "\<lambda>n t. wok t \<and> uw_repo t = uw_repo w \<and> uw_canonical t = uw_canonical w \<and>
       staged (uw_staging t) = (\<lambda>k. if k \<in> us_staging_key ` set (u # us) then None else staged (uw_staging w) k) \<and>
       n = m + card {k \<in> us_staging_key ` set (u # us). staged (uw_staging w) k \<noteq> None}"
  let ?X = "\<lambda>e t. cut_short (us_staging_key ` set (u # us)) e w t"
  have gone: "wp ?X ?V (sweep V us m w)" if none: "staged (uw_staging w) ?k = None"
  proof (rule wp_mono [OF Cons.IH [OF Cons.prems(1)]])
    show "cut_short ?K e w t \<Longrightarrow> ?X e t" for e t by (erule cut_short_step [where k = ?k]) auto
    show "\<forall>u \<in> set us. staging_key_ok (us_staging_key u)" using Cons.prems(2) by simp
    have "{k \<in> us_staging_key ` set (u # us). staged (uw_staging w) k \<noteq> None} = {k \<in> ?K. staged (uw_staging w) k \<noteq> None}"
      using none by auto
    moreover have "(\<lambda>k. if k \<in> us_staging_key ` set (u # us) then None else staged (uw_staging w) k) =
        (\<lambda>k. if k \<in> ?K then None else staged (uw_staging w) k)"
      using none by (auto simp: fun_eq_iff)
    ultimately show "wok t \<and> uw_repo t = uw_repo w \<and> uw_canonical t = uw_canonical w \<and>
        staged (uw_staging t) = (\<lambda>k. if k \<in> ?K then None else staged (uw_staging w) k) \<and>
        n = m + card {k \<in> ?K. staged (uw_staging w) k \<noteq> None} \<Longrightarrow> ?V n t" for n t by simp
  qed
  have there: "wp ?X ?V
      (sbind (on_staging (st_delete (uv_staging V) ?k)) (\<lambda>_. sweep V us (m + 1)) w)"
    if some: "staged (uw_staging w) ?k \<noteq> None"
    unfolding wp_sbind wp_on_staging
  proof (rule wp_mono [OF delete_wp [OF g]])
    fix e s
    assume "sinv s \<and> (staged s = staged (uw_staging w) \<or> staged s = (staged (uw_staging w))(?k := None)) \<and>
      (staged (uw_staging w) ?k = None \<or> faulty \<and> instance_of e OSError)"
    then show "?X e (w\<lparr>uw_staging := s\<rparr>)" unfolding cut_short_def using some Cons.prems(1) by (auto simp: wok_def)
  next
    fix a s assume s: "sinv s \<and> staged s = (staged (uw_staging w))(?k := None)"
    let ?w = "w\<lparr>uw_staging := s\<rparr>"
    have ok: "wok ?w" using Cons.prems(1) s by (simp add: wok_def)
    have st: "staged (uw_staging ?w) = (staged (uw_staging w))(?k := None)" using s by simp
    have split: "{k \<in> us_staging_key ` set (u # us). staged (uw_staging w) k \<noteq> None} =
        insert ?k {k \<in> ?K. staged (uw_staging ?w) k \<noteq> None}"
      unfolding st using some by (auto split: if_splits)
    have "?k \<notin> {k \<in> ?K. staged (uw_staging ?w) k \<noteq> None}" unfolding st by simp
    moreover have "finite {k \<in> ?K. staged (uw_staging ?w) k \<noteq> None}" by simp
    ultimately have card: "card {k \<in> us_staging_key ` set (u # us). staged (uw_staging w) k \<noteq> None} =
        Suc (card {k \<in> ?K. staged (uw_staging ?w) k \<noteq> None})"
      unfolding split by (rule card_insert_disjoint [rotated])
    show "wp ?X ?V (sweep V us (m + 1) ?w)"
    proof (rule wp_mono [OF Cons.IH [OF ok]])
      show "cut_short ?K e ?w t \<Longrightarrow> ?X e t" for e t
        by (erule cut_short_step [where k = ?k]) (use st in auto)
      show "\<forall>u \<in> set us. staging_key_ok (us_staging_key u)" using Cons.prems(2) by simp
      have "(\<lambda>k. if k \<in> us_staging_key ` set (u # us) then None else staged (uw_staging w) k) =
          (\<lambda>k. if k \<in> ?K then None else staged (uw_staging ?w) k)"
        unfolding st by (auto simp: fun_eq_iff)
      then show "wok t \<and> uw_repo t = uw_repo ?w \<and> uw_canonical t = uw_canonical ?w \<and>
          staged (uw_staging t) = (\<lambda>k. if k \<in> ?K then None else staged (uw_staging ?w) k) \<and>
          n = m + 1 + card {k \<in> ?K. staged (uw_staging ?w) k \<noteq> None} \<Longrightarrow> ?V n t" for n t
        using card by simp
    qed
  qed
  show ?case unfolding sweep.simps wp_sbind wp_on_staging
    by (rule wp_mono [OF exists_wp [OF g key]])
       (unfold cut_short_def, use gone there Cons.prems(1) in \<open>auto simp: wp_sbind wp_on_staging wok_def cut_short_def\<close>)
qed

text \<open>The staging keys of the sessions that have ended and have no recorded cleanup.\<close>

definition ended_keys :: "'r \<Rightarrow> 'r \<Rightarrow> string set" where
  "ended_keys r s = {us_staging_key u |u. \<exists>k. sessions s k = Some u \<and> us_state u \<in> terminal_states \<and> \<not> cleaned r k}"

theorem janitor_sweeps:
  assumes w: "wok w"
  shows "wp (\<lambda>e t. wok t \<and> sessions (uw_repo t) = (\<lambda>k. map_option (expire_if now) (sessions (uw_repo w) k)) \<and>
       faulty \<and> instance_of e OSError \<and>
       (\<forall>k. staged (uw_staging t) k = staged (uw_staging w) k \<or>
          k \<in> ended_keys (uw_repo w) (uw_repo t) \<and> staged (uw_staging t) k = None))
    (\<lambda>n t. wok t \<and> sessions (uw_repo t) = (\<lambda>k. map_option (expire_if now) (sessions (uw_repo w) k)) \<and>
       (let K = ended_keys (uw_repo w) (uw_repo t)
        in staged (uw_staging t) = (\<lambda>k. if k \<in> K then None else staged (uw_staging w) k) \<and>
           n = card {k \<in> K. staged (uw_staging w) k \<noteq> None}))
    (janitor V now w)"
proof -
  have r: "rinv (uw_repo w)" using w by (simp add: wok_def)
  let ?X = "\<lambda>e t. wok t \<and> sessions (uw_repo t) = (\<lambda>k. map_option (expire_if now) (sessions (uw_repo w) k)) \<and>
       faulty \<and> instance_of e OSError \<and>
       (\<forall>k. staged (uw_staging t) k = staged (uw_staging w) k \<or>
          k \<in> ended_keys (uw_repo w) (uw_repo t) \<and> staged (uw_staging t) k = None)"
  let ?V = "\<lambda>n t. wok t \<and> sessions (uw_repo t) = (\<lambda>k. map_option (expire_if now) (sessions (uw_repo w) k)) \<and>
       (let K = ended_keys (uw_repo w) (uw_repo t)
        in staged (uw_staging t) = (\<lambda>k. if k \<in> K then None else staged (uw_staging w) k) \<and>
           n = card {k \<in> K. staged (uw_staging w) k \<noteq> None})"
  show ?thesis unfolding janitor_def
  proof (subst wp_sbind, subst wp_on_repo, rule wp_mono [OF expire_wp [OF r]])
    fix us s
    assume s: "rinv s \<and> sessions s = (\<lambda>k. map_option (expire_if now) (sessions (uw_repo w) k)) \<and> cleaned s = cleaned (uw_repo w)"
    let ?w = "w\<lparr>uw_repo := s\<rparr>"
    have ok: "wok ?w" using w s by (simp add: wok_def)
    show "wp ?X ?V (sbind (on_repo (ur_candidates (uv_repository V))) (\<lambda>us. sweep V us 0) ?w)"
    proof (subst wp_sbind, subst wp_on_repo, rule wp_mono [OF candidates_wp])
      show "rinv (uw_repo ?w)" using s by simp
    next
      fix us' s'
      assume "s' = uw_repo ?w \<and> set us' = {u. \<exists>k. sessions (uw_repo ?w) k = Some u \<and>
          us_state u \<in> terminal_states \<and> \<not> cleaned (uw_repo ?w) k}"
      then have c: "s' = s" "set us' = {u. \<exists>k. sessions s k = Some u \<and> us_state u \<in> terminal_states \<and> \<not> cleaned s k}"
        by simp_all
      have keys: "us_staging_key ` set us' = ended_keys (uw_repo w) s"
        using c s by (auto simp: ended_keys_def)
      have "\<forall>u \<in> set us'. staging_key_ok (us_staging_key u)"
      proof
        fix u assume "u \<in> set us'"
        then obtain k where "sessions s k = Some u" using c by blast
        then have "valid_session u" using s session_valid by blast
        then show "staging_key_ok (us_staging_key u)"
          using uuid_canonical_idem by (auto simp: valid_session_def staging_key_ok_def)
      qed
      note sweep = sweep_wp [OF ok this, of 0, unfolded keys]
      show "wp ?X ?V (sweep V us' 0 (?w\<lparr>uw_repo := s'\<rparr>))"
        unfolding c(1) upload_world.update_convs [symmetric]
        by (simp, rule wp_mono [OF sweep]) (use s in \<open>simp_all add: cut_short_def Let_def cong: if_cong\<close>)
    qed simp
  qed simp
qed

end

end
