(* ===== verification/UploadContract2.thy ===== *)
theory UploadContract2
  imports UploadContract
begin

text \<open>The repositories and stores of the program meet the contracts of the verifier.\<close>

section \<open>Repositories\<close>

lemma wp_refines:
  assumes "refines p q" and "wp X V q"
  shows "wp (\<lambda>e t. \<exists>e. X e (upload_abs t)) (\<lambda>a t. V a (upload_abs t)) p"
  using assms by (cases p; cases q; cases "fst p"; cases "fst q") (auto simp: refines_def wp_def)

lemma valid_lookup: "mu_inv s \<Longrightarrow> mu_lookup s k = Some u \<Longrightarrow> valid_session u"
  using mu_invD by blast

lemma mu_claim_wp:
  "mu_inv s \<Longrightarrow> wp (\<lambda>_ t. t = s)
     (\<lambda>u' t. mu_inv t \<and> (\<exists>u. mu_lookup s k = Some u \<and> cas_ok now v U_UPLOADED u \<and> u' = moved U_VERIFYING u \<and>
        mu_lookup t = (mu_lookup s)(k \<mapsto> u')))
     (mu_claim_verification now k v s)"
  unfolding mu_claim_verification_def
  by (rule wp_mono [OF mu_transition_wp])
     (auto simp: open_states_def mu_moves_lookup mu_moves_inv, auto simp: mu_moves_def)

lemma mu_reject_contract:
  "mu_inv s \<Longrightarrow> wp (\<lambda>_ t. t = s)
     (\<lambda>u' t. mu_inv t \<and> (\<exists>u. mu_lookup s k = Some u \<and> cas_ok now v U_VERIFYING u \<and>
        u' = (moved U_REJECTED u)\<lparr>us_rejection_reason := Some reason\<rparr> \<and> mu_lookup t = (mu_lookup s)(k \<mapsto> u')))
     (mu_reject now k v reason s)"
  by (rule wp_mono [OF mu_reject_wp])
     (auto simp: mu_moves_lookup mu_moves_inv, auto simp: mu_moves_def)

lemma mu_finalize_contract:
  "mu_inv s \<Longrightarrow> wp (\<lambda>_ t. t = s)
     (\<lambda>u' t. mu_inv t \<and> (\<exists>u c. mu_lookup s k = Some u \<and> cas_ok now v U_VERIFYING u \<and>
        mu_blobs t (blob_sha256 blob) = Some c \<and> same_blob c blob \<and>
        u' = verified_session (blob_id c) (asset_id asset) u \<and> mu_lookup t = (mu_lookup s)(k \<mapsto> u')))
     (mu_finalize_verified now k v blob asset s)"
proof (rule wp_mono [OF mu_finalize_wp], assumption, assumption)
  fix u' t
  assume inv: "mu_inv s" and "\<exists>u canonical. mu_moves k u u' s t \<and> cas_ok now v U_VERIFYING u \<and>
      asset_namespace_id asset = us_namespace_id u \<and> asset_blob_id asset = blob_id blob \<and>
      mu_blobs t (blob_sha256 blob) = Some canonical \<and> same_blob canonical blob \<and>
      (mu_blobs s (blob_sha256 blob) = None \<longrightarrow> canonical = blob) \<and>
      u' = verified_session (blob_id canonical) (asset_id asset) u"
  then obtain u c where m: "mu_moves k u u' s t" and u: "cas_ok now v U_VERIFYING u"
    "mu_blobs t (blob_sha256 blob) = Some c" "same_blob c blob" "u' = verified_session (blob_id c) (asset_id asset) u"
    by blast
  have "mu_lookup s k = Some u" using m by (simp add: mu_moves_def)
  with u mu_moves_inv [OF m inv] mu_moves_lookup [OF m]
  show "mu_inv t \<and> (\<exists>u c. mu_lookup s k = Some u \<and> cas_ok now v U_VERIFYING u \<and>
        mu_blobs t (blob_sha256 blob) = Some c \<and> same_blob c blob \<and>
        u' = verified_session (blob_id c) (asset_id asset) u \<and> mu_lookup t = (mu_lookup s)(k \<mapsto> u'))"
    by blast
qed

lemma mu_expire_lookup:
  "mu_inv s \<Longrightarrow> mu_lookup (snd (mu_expire_before now s)) = (\<lambda>k. map_option (expire_if now) (mu_lookup s k))"
  by (simp add: mu_expire_eq map_of_map_values comp_def)

lemma mu_terminal_candidates:
  assumes "mu_inv s"
  shows "set (filter (\<lambda>u. us_state u \<in> terminal_states) (map snd (mu_sessions s))) =
    {u. \<exists>k. mu_lookup s k = Some u \<and> us_state u \<in> terminal_states}"
  using mu_inv_distinct [OF assms] by (force simp: map_of_eq_Some_iff)

interpretation mem_repo: repo_contract mem_repository mu_lookup mu_blobs "\<lambda>_ _. False" mu_inv
proof
  fix s k u now v reason blob asset
  assume inv: "mu_inv s"
  show "mu_lookup s k = Some u \<Longrightarrow> valid_session u" by (rule valid_lookup [OF inv])
  show "wp (\<lambda>_ t. t = s) (\<lambda>u t. t = s \<and> mu_lookup s k = Some u) (ur_get mem_repository k s)"
    by (simp add: mem_repository_def mu_get_wp)
  show "wp (\<lambda>_ t. mu_inv t \<and> mu_lookup t = mu_lookup s)
      (\<lambda>u' t. mu_inv t \<and> (\<exists>u. mu_lookup s k = Some u \<and> cas_ok now v U_UPLOADED u \<and> u' = moved U_VERIFYING u \<and>
         mu_lookup t = (mu_lookup s)(k \<mapsto> u'))) (ur_claim mem_repository now k v s)"
    unfolding mem_repository_def by (simp, rule wp_mono [OF mu_claim_wp [OF inv]]) (use inv in auto)
  show "wp (\<lambda>_ t. mu_inv t \<and> mu_lookup t = mu_lookup s)
      (\<lambda>u' t. mu_inv t \<and> (\<exists>u. mu_lookup s k = Some u \<and> cas_ok now v U_VERIFYING u \<and>
         u' = (moved U_REJECTED u)\<lparr>us_rejection_reason := Some reason\<rparr> \<and> mu_lookup t = (mu_lookup s)(k \<mapsto> u')))
      (ur_reject mem_repository now k v reason s)"
    unfolding mem_repository_def by (simp, rule wp_mono [OF mu_reject_contract [OF inv]]) (use inv in auto)
  show "wp (\<lambda>_ t. mu_inv t \<and> mu_lookup t = mu_lookup s)
      (\<lambda>u' t. mu_inv t \<and> (\<exists>u c. mu_lookup s k = Some u \<and> cas_ok now v U_VERIFYING u \<and>
         mu_blobs t (blob_sha256 blob) = Some c \<and> same_blob c blob \<and>
         u' = verified_session (blob_id c) (asset_id asset) u \<and> mu_lookup t = (mu_lookup s)(k \<mapsto> u')))
      (ur_finalize mem_repository now k v blob asset s)"
    unfolding mem_repository_def by (simp, rule wp_mono [OF mu_finalize_contract [OF inv]]) (use inv in auto)
  have "wp (\<lambda>_ _. False) (\<lambda>_ t. t = snd (mu_expire_before now s)) (mu_expire_before now s)"
    by (simp add: mu_expire_eq [OF inv] wp_simps)
  then show "wp (\<lambda>_ _. False)
      (\<lambda>_ t. mu_inv t \<and> mu_lookup t = (\<lambda>k. map_option (expire_if now) (mu_lookup s k)) \<and> (\<lambda>_. False) = (\<lambda>_. False))
      (ur_expire mem_repository now s)"
    unfolding mem_repository_def
    by simp (rule wp_mono, assumption, use mu_expire_lookup [OF inv] mu_expire_keeps [OF inv] in auto)
  show "wp (\<lambda>_ _. False)
      (\<lambda>us t. t = s \<and> set us = {u. \<exists>k. mu_lookup s k = Some u \<and> us_state u \<in> terminal_states \<and> \<not> False})
      (ur_candidates mem_repository s)"
    using mu_terminal_candidates [OF inv]
    by (simp add: mem_repository_def mu_terminal_staging_candidates_def wp_simps)
qed

lemma pg_refined_wp:
  assumes "refines p q \<and> pg_inv (snd p)" and "wp (\<lambda>_ t. t = upload_abs s) V q"
  shows "wp (\<lambda>_ t. pg_inv t \<and> mu_lookup (upload_abs t) = mu_lookup (upload_abs s))
     (\<lambda>u t. pg_inv t \<and> V u (upload_abs t)) p"
proof -
  have "wp (\<lambda>_. pg_inv) (\<lambda>_. pg_inv) p" using assms(1) by (simp add: wp_state)
  moreover have "wp (\<lambda>_ t. upload_abs t = upload_abs s) (\<lambda>u t. V u (upload_abs t)) p"
    using wp_refines [OF conjunct1 [OF assms(1)] assms(2)] by simp
  ultimately have "wp (\<lambda>_ t. pg_inv t \<and> upload_abs t = upload_abs s) (\<lambda>u t. pg_inv t \<and> V u (upload_abs t)) p"
    by (simp add: wp_conj)
  then show ?thesis by (rule wp_mono) auto
qed

lemma pg_promoted_lookup:
  "pg_inv s \<Longrightarrow> map_of (pg_rows s) sid = Some r \<Longrightarrow>
   mu_lookup (upload_abs (promoted now sid blob asset s)) = (mu_lookup (upload_abs s))
     (sid \<mapsto> verified_session (blob_id (canonical_blob blob (pg_blobs s))) (asset_id asset) (pu_session r))"
  by (simp add: promoted_abs mu_lookup_put) (simp add: upload_abs_def session_rows_lookup)

lemma pg_candidates_eq:
  assumes inv: "pg_inv s"
  shows "\<exists>us. pg_terminal_staging_candidates PNone s = (Inr us, s) \<and>
    set us = {u. \<exists>k. mu_lookup (upload_abs s) k = Some u \<and> us_state u \<in> terminal_states \<and> k \<notin> set (pg_cleanups s)}"
proof -
  note d = pg_inv_distinct [OF inv]
  have keys: "k \<in> set (cleanup_keys s) \<longleftrightarrow>
      (\<exists>r. map_of (pg_rows s) k = Some r \<and> us_state (pu_session r) \<in> terminal_states \<and> k \<notin> set (pg_cleanups s))" for k
    using d by (force simp: cleanup_keys_def)
  have "pg_get_all (cleanup_keys s) s =
      (Inr (map (\<lambda>k. pu_session (the (map_of (pg_rows s) k))) (cleanup_keys s)), s)"
    by (rule get_all_eq) (use keys pg_invD(2) [OF inv] in blast)
  moreover have "set (map (\<lambda>k. pu_session (the (map_of (pg_rows s) k))) (cleanup_keys s)) =
      {u. \<exists>k. mu_lookup (upload_abs s) k = Some u \<and> us_state u \<in> terminal_states \<and> k \<notin> set (pg_cleanups s)}"
    using keys by (force simp: abs_lookup)
  ultimately show ?thesis by (auto simp: pg_terminal_staging_candidates_def)
qed

lemma pg_expire_cleanups: "pg_cleanups (snd (pg_expire_before now s)) = pg_cleanups s"
proof -
  have "snd (pg_get_all ks t) = t" for ks t
  proof (induction ks)
    case (Cons k ks)
    have "snd (pg_get_session k t) = t"
      by (auto simp: pg_get_session_def upload_not_found_def lift_def split: option.splits sum.splits)
    then show ?case using Cons by (auto simp: sbind_def split: sum.splits prod.splits)
  qed simp
  then show ?thesis
    by (simp add: pg_expire_before_def pg_expire_rows_def transaction_def sbind_def Let_def expire_keys_def ok_def fail_def raise_def)
qed

interpretation pg_repo: repo_contract pg_repository "\<lambda>s. mu_lookup (upload_abs s)" "\<lambda>s. blob_map (pg_blobs s)"
  "\<lambda>s k. k \<in> set (pg_cleanups s)" pg_inv
proof
  fix s k u now v reason blob asset
  assume inv: "pg_inv s"
  note m = pg_inv_abs [OF inv]
  show "mu_lookup (upload_abs s) k = Some u \<Longrightarrow> valid_session u" by (rule valid_lookup [OF m])
  show "wp (\<lambda>_ t. t = s) (\<lambda>u t. t = s \<and> mu_lookup (upload_abs s) k = Some u) (ur_get pg_repository k s)"
    by (auto simp: pg_repository_def pg_get_session_def upload_not_found_def wp_simps abs_lookup new_UploadSession_eq)
  show "wp (\<lambda>_ t. pg_inv t \<and> mu_lookup (upload_abs t) = mu_lookup (upload_abs s))
      (\<lambda>u' t. pg_inv t \<and> (\<exists>u. mu_lookup (upload_abs s) k = Some u \<and> cas_ok now v U_UPLOADED u \<and>
         u' = moved U_VERIFYING u \<and> mu_lookup (upload_abs t) = (mu_lookup (upload_abs s))(k \<mapsto> u')))
      (ur_claim pg_repository now k v s)"
    unfolding pg_repository_def
    by (simp, rule wp_mono [OF pg_refined_wp [OF pg_claim_refines [OF inv] mu_claim_wp [OF m]]]) auto
  show "wp (\<lambda>_ t. pg_inv t \<and> mu_lookup (upload_abs t) = mu_lookup (upload_abs s))
      (\<lambda>u' t. pg_inv t \<and> (\<exists>u. mu_lookup (upload_abs s) k = Some u \<and> cas_ok now v U_VERIFYING u \<and>
         u' = (moved U_REJECTED u)\<lparr>us_rejection_reason := Some reason\<rparr> \<and>
         mu_lookup (upload_abs t) = (mu_lookup (upload_abs s))(k \<mapsto> u')))
      (ur_reject pg_repository now k v reason s)"
  proof (cases "storable reason")
    case True
    then show ?thesis unfolding pg_repository_def
      by (simp, intro wp_mono [OF pg_refined_wp [OF pg_reject_refines [OF inv True] mu_reject_contract [OF m]]]) auto
  next
    case False
    then show ?thesis using inv by (auto simp: pg_repository_def pg_reject_def wp_simps)
  qed
  show "wp (\<lambda>_ t. pg_inv t \<and> mu_lookup (upload_abs t) = mu_lookup (upload_abs s))
      (\<lambda>u' t. pg_inv t \<and> (\<exists>u c. mu_lookup (upload_abs s) k = Some u \<and> cas_ok now v U_VERIFYING u \<and>
         blob_map (pg_blobs t) (blob_sha256 blob) = Some c \<and> same_blob c blob \<and>
         u' = verified_session (blob_id c) (asset_id asset) u \<and>
         mu_lookup (upload_abs t) = (mu_lookup (upload_abs s))(k \<mapsto> u')))
      (ur_finalize pg_repository now k v blob asset s)"
    unfolding pg_repository_def upload_repository.simps
  proof (rule wp_mono [OF pg_finalize_wp [OF inv]])
    fix u' t
    assume "\<exists>r. map_of (pg_rows s) k = Some r \<and> accepted now v blob asset (pg_blobs s) (pu_session r) \<and>
      t = promoted now k blob asset s \<and>
      u' = verified_session (blob_id (canonical_blob blob (pg_blobs s))) (asset_id asset) (pu_session r)"
    then obtain r where r: "map_of (pg_rows s) k = Some r"
      and acc: "accepted now v blob asset (pg_blobs s) (pu_session r)" and t: "t = promoted now k blob asset s"
      and u': "u' = verified_session (blob_id (canonical_blob blob (pg_blobs s))) (asset_id asset) (pu_session r)"
      by blast
    have "blob_map (pg_blobs t) (blob_sha256 blob) = Some (canonical_blob blob (pg_blobs s))"
      by (simp add: t promoted_def Let_def set_pg_row_def blob_map_with)
    moreover have "mu_lookup (upload_abs s) k = Some (pu_session r)" using r by (simp add: abs_lookup)
    moreover have "pg_inv t" unfolding t by (rule promoted_inv [OF inv r acc])
    moreover have "mu_lookup (upload_abs t) = (mu_lookup (upload_abs s))(k \<mapsto> u')"
      unfolding t u' by (rule pg_promoted_lookup [OF inv r])
    ultimately show "pg_inv t \<and> (\<exists>u c. mu_lookup (upload_abs s) k = Some u \<and> cas_ok now v U_VERIFYING u \<and>
         blob_map (pg_blobs t) (blob_sha256 blob) = Some c \<and> same_blob c blob \<and>
         u' = verified_session (blob_id c) (asset_id asset) u \<and>
         mu_lookup (upload_abs t) = (mu_lookup (upload_abs s))(k \<mapsto> u'))"
      using acc u' unfolding accepted_def by blast
  qed (use inv in simp)
  have e: "refines (pg_expire_before now s) (mu_expire_before now (upload_abs s))" "pg_inv (snd (pg_expire_before now s))"
    using pg_expire_refines [OF inv] by simp_all
  then have "\<exists>us. fst (pg_expire_before now s) = Inr us"
    by (cases "fst (pg_expire_before now s)") (auto simp: refines_def mu_expire_eq [OF m])
  then have "wp (\<lambda>_ _. False) (\<lambda>_ t. t = snd (pg_expire_before now s)) (pg_expire_before now s)"
    by (cases "pg_expire_before now s") (auto simp: wp_simps)
  then show "wp (\<lambda>_ _. False)
      (\<lambda>_ t. pg_inv t \<and> mu_lookup (upload_abs t) = (\<lambda>k. map_option (expire_if now) (mu_lookup (upload_abs s) k)) \<and>
         (\<lambda>k. k \<in> set (pg_cleanups t)) = (\<lambda>k. k \<in> set (pg_cleanups s)))
      (ur_expire pg_repository now s)"
    unfolding pg_repository_def
    by simp (rule wp_mono, assumption,
      use e mu_expire_lookup [OF m] pg_expire_cleanups [of now s] in \<open>auto simp: refines_def\<close>)
  show "wp (\<lambda>_ _. False)
      (\<lambda>us t. t = s \<and> set us = {u. \<exists>k. mu_lookup (upload_abs s) k = Some u \<and> us_state u \<in> terminal_states \<and>
         k \<notin> set (pg_cleanups s)})
      (ur_candidates pg_repository s)"
    using pg_candidates_eq [OF inv] by (auto simp: pg_repository_def wp_simps)
qed

section \<open>Staging stores\<close>

definition ms_inv :: "mem_staging \<Rightarrow> bool" where
  "ms_inv s \<longleftrightarrow> (\<forall>k x. ms_objects s k = Some x \<longrightarrow> ms_validate_key k = Inr ())"

lemma staging_split:
  assumes "uuid_canonical c = Inr c"
  shows "split_on CHR ''/'' (''staging/'' @ c) = [''staging'', c]"
proof -
  have "\<not> hex_lower CHR ''/''" by (simp add: hex_lower_def code_def)
  then have "CHR ''/'' \<notin> set c" using uuid_chars [OF assms] by blast
  then have "split_on CHR ''/'' (''staging'' @ CHR ''/'' # c) = [''staging'', c]"
    by (subst split_on_app) (simp_all add: split_on_none)
  then show ?thesis by simp
qed

lemma ms_validate_key_eq: "ms_validate_key k = Inr () \<longleftrightarrow> staging_key_ok k"
proof
  assume "ms_validate_key k = Inr ()"
  then obtain s c where "uuid_canonical s = Inr c" "k = ''staging/'' @ c"
    by (auto simp: ms_validate_key_def Let_def staging_key_error_def staging_key_for_def after_eq_Inr split: if_splits)
  then show "staging_key_ok k" using uuid_canonical_idem by (auto simp: staging_key_ok_def)
next
  assume "staging_key_ok k"
  then obtain c where "uuid_canonical c = Inr c" "k = ''staging/'' @ c" by (auto simp: staging_key_ok_def)
  then show "ms_validate_key k = Inr ()"
    using staging_split by (simp add: ms_validate_key_def staging_key_for_def)
qed

interpretation mem_stage: staging_contract mem_staging_store ms_objects ms_inv False
proof
  fix s k
  assume inv: "ms_inv s"
  show "wp (\<lambda>_ t. t = s) (\<lambda>x t. t = s \<and> ms_objects s k = Some x) (st_open mem_staging_store k s)"
    by (simp add: mem_staging_store_def ms_open_reader_def wp_simps)
  show "wp (\<lambda>e t. ms_inv t \<and> (ms_objects t = ms_objects s \<or> ms_objects t = (ms_objects s)(k := None)) \<and>
        (ms_objects s k = None \<or> False \<and> instance_of e OSError))
      (\<lambda>_ t. ms_inv t \<and> ms_objects t = (ms_objects s)(k := None)) (st_delete mem_staging_store k s)"
    using inv by (auto simp: mem_staging_store_def ms_delete_def wp_simps ms_inv_def)
  show "staging_key_ok k \<Longrightarrow> wp (\<lambda>e t. t = s \<and> False \<and> instance_of e OSError)
      (\<lambda>b t. t = s \<and> (b \<longleftrightarrow> ms_objects s k \<noteq> None)) (st_exists mem_staging_store k s)"
    by (auto simp: mem_staging_store_def ms_exists_def wp_simps ms_validate_key_eq [symmetric])
qed

text \<open>The local staging directory holds regular files only, under session names.\<close>

definition lst_held :: "local_staging \<Rightarrow> string \<Rightarrow> string option" where
  "lst_held s k =
     (case lst_name k of
        Inl _ \<Rightarrow> None
      | Inr n \<Rightarrow> (case lst_files s n of Some (RegularFile x) \<Rightarrow> Some x | _ \<Rightarrow> None))"

definition lst_inv :: "local_staging \<Rightarrow> bool" where
  "lst_inv s \<longleftrightarrow> (\<forall>n e. lst_files s n = Some e \<longrightarrow> lst_dir s \<and> (\<exists>x. e = RegularFile x))"

lemma lst_invD: "lst_inv s \<Longrightarrow> lst_files s n = Some e \<Longrightarrow> lst_dir s \<and> (\<exists>x. e = RegularFile x)"
  by (simp add: lst_inv_def)

lemma lst_name_eq: "lst_name k = Inr n \<longleftrightarrow> uuid_canonical n = Inr n \<and> k = ''staging/'' @ n"
proof
  assume a: "lst_name k = Inr n"
  define p where p: "p = split_on CHR ''/'' k ! 1"
  have "after (staging_key_for p) (\<lambda>ck. if k \<noteq> ck then staging_key_error else Inr p) = Inr n"
    unfolding p using a by (simp add: lst_name_def Let_def staging_key_error_def split: if_splits)
  then obtain ck where ck: "staging_key_for p = Inr ck" "(if k \<noteq> ck then staging_key_error else Inr p) = Inr n"
    by (auto simp: after_eq_Inr)
  obtain c where c: "uuid_canonical p = Inr c" "ck = ''staging/'' @ c"
    using ck(1) unfolding staging_key_for_def after_eq_Inr by blast
  have k: "k = ''staging/'' @ c" and n: "p = n"
    using ck(2) c(2) by (simp_all add: staging_key_error_def split: if_splits)
  have "p = c" unfolding p k using staging_split [OF uuid_canonical_idem [OF c(1)]] by simp
  then show "uuid_canonical n = Inr n \<and> k = ''staging/'' @ n" using c k n by simp
next
  assume a: "uuid_canonical n = Inr n \<and> k = ''staging/'' @ n"
  then have chars: "c \<in> set n \<Longrightarrow> hex_lower c \<or> c = CHR ''-''" for c using uuid_chars by blast
  have "\<not> hex_lower CHR 0x5C" "\<not> hex_lower CHR 0x00" "\<not> hex_lower CHR ''.''" by (simp_all add: hex_lower_def code_def)
  then have free: "CHR 0x5C \<notin> set n" "CHR 0x00 \<notin> set n" "CHR ''.'' \<notin> set n" using chars by blast+
  have "n \<noteq> []" using a by (auto simp: uuid_canonical_def after_eq_Inr uuid_parse_def uuid_hex_def strip_braces_def)
  then show "lst_name k = Inr n"
    using a free staging_split [of n]
    by (auto simp: lst_name_def Let_def contains_single startswith_iff staging_key_for_def)
qed

lemma lst_held_Some: "lst_held s k = Some x \<longleftrightarrow> (\<exists>n. lst_name k = Inr n \<and> lst_files s n = Some (RegularFile x))"
  by (auto simp: lst_held_def split: sum.splits option.splits dir_entry.splits)

lemma lst_held_None:
  assumes "lst_inv s" and "lst_name k = Inr n"
  shows "lst_held s k = None \<longleftrightarrow> lst_files s n = None"
  using assms lst_invD by (fastforce simp: lst_held_def split: option.splits dir_entry.splits)

lemma lst_held_delete:
  assumes "lst_name k = Inr n"
  shows "lst_held (s\<lparr>lst_files := (lst_files s)(n := None)\<rparr>) = (lst_held s)(k := None)"
proof
  fix k'
  show "lst_held (s\<lparr>lst_files := (lst_files s)(n := None)\<rparr>) k' = ((lst_held s)(k := None)) k'"
  proof (cases "lst_name k'")
    case (Inl e)
    then show ?thesis using assms by (auto simp: lst_held_def)
  next
    case (Inr n')
    have "n' = n \<longleftrightarrow> k' = k" using Inr assms by (auto simp: lst_name_eq)
    then show ?thesis using Inr by (auto simp: lst_held_def)
  qed
qed

text \<open>The removal of a regular file under the name a key stands for.\<close>

lemma lst_delete_file:
  assumes "lst_inv s" and "lst_name k = Inr n" and "lst_files s n \<noteq> None"
  shows "lst_delete F k s =
    (let t = s\<lparr>lst_files := (lst_files s)(n := None)\<rparr> in
     case df_delete F k of
       Some (Fails_before m) \<Rightarrow> fail OSError m s | Some (Fails_after m) \<Rightarrow> fail OSError m t | None \<Rightarrow> ok () t)"
  using assms lst_invD [OF assms(1), of n]
  by (auto simp: lst_delete_def lst_open_dir_def sbind_def ok_def lift_def Let_def)

lemma lst_delete_wp:
  assumes inv: "lst_inv s"
  shows "wp (\<lambda>e t. lst_inv t \<and> (lst_held t = lst_held s \<or> lst_held t = (lst_held s)(k := None)) \<and>
      (lst_held s k = None \<or> F \<noteq> no_faults \<and> instance_of e OSError))
    (\<lambda>_ t. lst_inv t \<and> lst_held t = (lst_held s)(k := None)) (lst_delete F k s)"
proof (cases "lst_held s k")
  case None
  have keep: "lst_held s = (lst_held s)(k := None)" using None by (metis fun_upd_idem)
  show ?thesis
  proof (cases "lst_name k")
    case (Inl e)
    then show ?thesis using None inv by (simp add: lst_delete_def lst_open_dir_def wp_simps)
  next
    case (Inr n)
    then have "lst_files s n = None" using lst_held_None [OF inv Inr] None by simp
    then show ?thesis using None Inr inv keep by (simp add: lst_delete_def lst_open_dir_def wp_simps)
  qed
next
  case (Some x)
  then obtain n where n: "lst_name k = Inr n" "lst_files s n = Some (RegularFile x)" by (auto simp: lst_held_Some)
  let ?t = "s\<lparr>lst_files := (lst_files s)(n := None)\<rparr>"
  have t: "lst_inv ?t" "lst_held ?t = (lst_held s)(k := None)"
    using inv lst_held_delete [OF n(1), of s] by (simp_all add: lst_inv_def)
  have "lst_delete F k s = (case df_delete F k of
      Some (Fails_before m) \<Rightarrow> fail OSError m s | Some (Fails_after m) \<Rightarrow> fail OSError m ?t | None \<Rightarrow> ok () ?t)"
    using lst_delete_file [OF inv n(1), of F] n(2) by (simp add: Let_def)
  moreover have "F \<noteq> no_faults" if "df_delete F k = Some f" for f using that by (auto simp: no_faults_def)
  moreover have "instance_of (Exc OSError m) OSError" for m by (simp add: instance_of_def issubclass_def numeral_eq_Suc)
  ultimately show ?thesis using t inv by (auto simp: wp_simps split: option.splits io_fault.splits)
qed

lemma lst_exists_wp:
  assumes inv: "lst_inv s" and n: "lst_name k = Inr n"
  shows "wp (\<lambda>e t. t = s \<and> F \<noteq> no_faults \<and> instance_of e OSError) (\<lambda>b t. t = s \<and> (b \<longleftrightarrow> lst_held s k \<noteq> None))
    (lst_exists F k s)"
proof (cases "lst_files s n")
  case None
  have "instance_of (Exc FileNotFoundError m) FileNotFoundError" for m by simp
  then show ?thesis using None lst_held_None [OF inv n] n
    by (simp add: lst_exists_def lst_open_reader_def lst_open_dir_def sbind_def ok_def fail_def raise_def wp_simps)
next
  case (Some e)
  then obtain x where e: "e = RegularFile x" and dir: "lst_dir s" using lst_invD [OF inv] by blast
  have held: "lst_held s k \<noteq> None" using lst_held_None [OF inv n] Some by simp
  have i: "instance_of (Exc OSError m) OSError" "\<not> instance_of (Exc OSError m) FileNotFoundError" for m
    by (simp_all add: instance_of_def issubclass_def numeral_eq_Suc)
  have "F \<noteq> no_faults" if "df_read F k = Some m" for m using that by (auto simp: no_faults_def)
  then show ?thesis using Some e dir n held i
    by (cases "df_read F k")
       (simp_all add: lst_exists_def lst_open_reader_def lst_open_dir_def sbind_def ok_def fail_def raise_def wp_simps)
qed

interpretation local_stage: staging_contract "local_staging_store F" lst_held lst_inv "F \<noteq> no_faults" for F
proof
  fix s k
  assume inv: "lst_inv s"
  show "wp (\<lambda>_ t. t = s) (\<lambda>x t. t = s \<and> lst_held s k = Some x) (st_open (local_staging_store F) k s)"
    by (auto simp: local_staging_store_def lst_open_reader_def lst_open_dir_def wp_simps lst_held_def
        split: option.splits dir_entry.splits)
  show "wp (\<lambda>e t. lst_inv t \<and> (lst_held t = lst_held s \<or> lst_held t = (lst_held s)(k := None)) \<and>
        (lst_held s k = None \<or> F \<noteq> no_faults \<and> instance_of e OSError))
      (\<lambda>_ t. lst_inv t \<and> lst_held t = (lst_held s)(k := None)) (st_delete (local_staging_store F) k s)"
    using lst_delete_wp [OF inv] by (simp add: local_staging_store_def)
  assume "staging_key_ok k"
  then obtain n where "lst_name k = Inr n" by (auto simp: staging_key_ok_def lst_name_eq)
  from lst_exists_wp [OF inv this]
  show "wp (\<lambda>e t. t = s \<and> F \<noteq> no_faults \<and> instance_of e OSError) (\<lambda>b t. t = s \<and> (b \<longleftrightarrow> lst_held s k \<noteq> None))
      (st_exists (local_staging_store F) k s)"
    by (simp add: local_staging_store_def)
qed

section \<open>Canonical stores and verifiers\<close>

interpretation mem_put: put_contract mem_put_stream "\<lambda>s. s" mem_inv
  using mem_store.put_wp [OF _ TrueI] by unfold_locales

interpretation local_put: put_contract "disk_put F" held_at local_inv for F
proof
  fix s cs
  assume inv: "local_inv s"
  have put: "wp (\<lambda>_ t. local_inv t)
      (\<lambda>obj t. local_inv t \<and> describes obj (concat cs) \<and>
         (\<exists>x. held_at t (obj_storage_key obj) = Some x \<and> sha256_hex x = sha256_hex (concat cs)))
      (put_stream None cs s)"
    by (rule local_store.put_wp [OF inv]) (simp add: rival_ok_def)
  show "wp (\<lambda>_ t. local_inv t)
      (\<lambda>obj t. local_inv t \<and> describes obj (concat cs) \<and>
         (\<exists>x. held_at t (obj_storage_key obj) = Some x \<and> sha256_hex x = sha256_hex (concat cs)))
      (disk_put F cs s)"
  proof (cases "df_put F")
    case None
    then show ?thesis using put by (simp add: disk_put_def)
  next
    case (Some f)
    have "wp (\<lambda>_ t. local_inv t) (\<lambda>_ t. local_inv t) (put_stream None cs s)" by (rule wp_mono [OF put]) simp_all
    then show ?thesis using Some inv by (cases f) (simp_all add: disk_put_def wp_simps)
  qed
qed

text \<open>The service's verifier over PostgreSQL and local disks, and the one of doubles.\<close>

definition service_verifier ::
  "disk_faults \<Rightarrow> (string \<Rightarrow> media_info res) \<Rightarrow> int \<Rightarrow> (pg_uploads, local_staging, local_store) verifier"
where
  "service_verifier F probe limit = \<lparr>uv_repository = pg_repository, uv_staging = local_staging_store F,
     uv_put_stream = disk_put F, uv_probe = probe, uv_max_upload_bytes = limit\<rparr>"

definition double_verifier :: "(string \<Rightarrow> media_info res) \<Rightarrow> int \<Rightarrow> (mem_uploads, mem_staging, mem_store) verifier" where
  "double_verifier probe limit = \<lparr>uv_repository = mem_repository, uv_staging = mem_staging_store,
     uv_put_stream = mem_put_stream, uv_probe = probe, uv_max_upload_bytes = limit\<rparr>"

interpretation service: upload_verifier "service_verifier F probe limit" "\<lambda>s. mu_lookup (upload_abs s)"
  "\<lambda>s. blob_map (pg_blobs s)" "\<lambda>s k. k \<in> set (pg_cleanups s)" pg_inv lst_held lst_inv "F \<noteq> no_faults" held_at local_inv
  for F probe limit
  unfolding service_verifier_def
  by (rule upload_verifier.intro, unfold verifier.simps)
     (rule pg_repo.repo_contract_axioms, rule local_stage.staging_contract_axioms, rule local_put.put_contract_axioms)

interpretation double: upload_verifier "double_verifier probe limit" mu_lookup mu_blobs "\<lambda>_ _. False" mu_inv
  ms_objects ms_inv False "\<lambda>s. s" mem_inv
  for probe limit
  unfolding double_verifier_def
  by (rule upload_verifier.intro, unfold verifier.simps)
     (rule mem_repo.repo_contract_axioms, rule mem_stage.staging_contract_axioms, rule mem_put.put_contract_axioms)

end
