(* ===== verification/UploadProps.thy ===== *)
theory UploadProps
  imports UploadContract2
begin

text \<open>The properties of verified uploads, with their witnesses.\<close>

section \<open>Witness material\<close>

definition demo_session :: "string \<Rightarrow> int \<Rightarrow> upload_session" where
  "demo_session sid expires = \<lparr>us_session_id = sid, us_namespace_id = ''ns'', us_mode = SINGLE,
     us_expected_size_bytes = 3, us_staging_key = ''staging/'' @ uuid_str 7, us_expires_at = AwareTime expires,
     us_expected_sha256 = None, us_state = U_INITIATED, us_version = 0, us_verified_blob_id = None,
     us_verified_asset_id = None, us_rejection_reason = None\<rparr>"

abbreviation demo_id :: string where
  "demo_id \<equiv> uuid_str 7"

lemma demo_id_canonical: "uuid_canonical demo_id = Inr demo_id"
  by (simp add: uuid_canonical_def uuid_parse_str)

lemma demo_valid: "uuid_canonical sid = Inr demo_id \<Longrightarrow> valid_session (demo_session sid t)"
  by (simp add: valid_session_def demo_session_def strip_def is_space_def code_def)

lemma demo_new: "new_UploadSession (demo_session demo_id t) = Inr (demo_session demo_id t)"
  by (rule new_UploadSession_ok, rule demo_valid, rule demo_id_canonical)

section \<open>Two implementations of one repository\<close>

text \<open>
  C34. \<open>PostgresUploadRepository\<close> refines \<open>InMemoryUploadRepository\<close>. After any run of protocol
  operations with fresh identifiers, the tables (without their time columns) are exactly what
  the in-memory repository holds after those of the operations that returned. The next operation,
  when PostgreSQL returns, returns the same sessions in memory and leaves the corresponding state;
  when PostgreSQL raises, sessions and blobs are as before, and the in-memory repository raises as
  well, unless the schema is stricter: a session created at or after its expiry, a digest that is
  not plain hexadecimal, records that are not VERIFIED, values that no column can hold. In
  particular no update trigger or CHECK constraint ever refuses what the in-memory repository does.
\<close>

theorem pg_uploads_refine_memory:
  assumes "guarded_run (\<lambda>x s. snd (pg_do x s)) pg_guard xs empty_pg_uploads = Some s" and "pg_guard x s"
  shows "guarded_run (\<lambda>x s. snd (mu_do x s)) (\<lambda>x s. constructed x) (returned_ops xs empty_pg_uploads) empty_mem_uploads =
           Some (upload_abs s) \<and>
         (case fst (pg_do x s) of
            Inr us \<Rightarrow> mu_do x (upload_abs s) = (Inr us, upload_abs (snd (pg_do x s)))
          | Inl _ \<Rightarrow> upload_abs (snd (pg_do x s)) = upload_abs s \<and>
              (schema_takes x \<longrightarrow> (\<exists>e. mu_do x (upload_abs s) = (Inl e, upload_abs s))))"
proof -
  have inv: "pg_inv s" by (rule pg_upload_machine.run_inv [OF assms(1) pg_inv_empty])
  from pg_do_agrees [OF this assms(2)] pg_run_refines [OF assms(1) pg_inv_empty]
  show ?thesis by (simp add: agrees_def upload_abs_empty)
qed

lemma demo_creatable: "now < t \<Longrightarrow> creatable now (demo_session sid t)"
  by (simp add: creatable_def demo_session_def storable_def)

lemma demo_created:
  "pg_create_session 0 (demo_session demo_id 9) empty_pg_uploads =
     (Inr (demo_session demo_id 9), empty_pg_uploads\<lparr>pg_rows :=
        [(demo_id, \<lparr>pu_session = demo_session demo_id 9, pu_verification_started_at = None, pu_finalized_at = None\<rparr>)]\<rparr>)"
  using creatable_checks [OF demo_valid [OF demo_id_canonical], of 0 9] demo_creatable [of 0 9 demo_id]
  by (simp add: pg_create_session_def transaction_def empty_pg_uploads_def add_row_def ok_def)
    (simp add: demo_session_def)

theorem pg_uploads_refine_memory_witness:
  "\<exists>us. fst (pg_do (Up_mark 0 demo_id 0) (snd (pg_do (Up_create 0 (demo_session demo_id 9)) empty_pg_uploads))) = Inr us \<and>
        fst (mu_do (Up_mark 0 demo_id 0) (snd (mu_do (Up_create 0 (demo_session demo_id 9)) empty_mem_uploads))) = Inr us"
proof -
  let ?u = "demo_session demo_id 9"
  let ?s = "snd (pg_do (Up_create 0 ?u) empty_pg_uploads)"
  have run: "guarded_run (\<lambda>x s. snd (pg_do x s)) pg_guard [Up_create 0 ?u] empty_pg_uploads = Some ?s"
    using demo_id_canonical demo_new [of 9] by (simp add: demo_session_def)
  have g: "pg_guard (Up_mark 0 demo_id 0) ?s" by simp
  have ops: "returned_ops [Up_create 0 ?u] empty_pg_uploads = [Up_create 0 ?u]" by (simp add: demo_created)
  note claim = pg_uploads_refine_memory [OF run g, unfolded ops]
  have abs: "upload_abs ?s = snd (mu_do (Up_create 0 ?u) empty_mem_uploads)"
    using claim demo_new [of 9] by simp
  have "fst (mu_do (Up_mark 0 demo_id 0) (upload_abs ?s)) = Inr [moved U_UPLOADED ?u]"
  proof -
    have "mu_lookup (upload_abs ?s) demo_id = Some ?u" by (simp add: demo_created abs_lookup)
    moreover have "valid_session (moved U_UPLOADED ?u)"
      by (rule valid_moved [OF demo_valid [OF demo_id_canonical]]) (simp_all add: demo_session_def open_states_def)
    moreover have "cas_ok 0 0 U_INITIATED ?u" by (simp add: cas_ok_def demo_session_def)
    ultimately show ?thesis by (simp add: mu_mark_uploaded_def mem_moves mem_move_eq new_UploadSession_ok ok_def)
  qed
  then have "fst (pg_do (Up_mark 0 demo_id 0) ?s) = Inr [moved U_UPLOADED ?u]"
    using claim by (auto split: sum.splits)
  then show ?thesis using \<open>fst (mu_do (Up_mark 0 demo_id 0) (upload_abs ?s)) = Inr [moved U_UPLOADED ?u]\<close>
    unfolding abs by blast
qed

section \<open>Sessions only move forward\<close>

text \<open>
  Over every later run an upload session stays, keeps its identity (namespace, staging key,
  expected size and digest, expiry), never goes back in state or version, and once VERIFIED,
  REJECTED or EXPIRED is never changed again; a VERIFIED session names a registered blob.
\<close>

theorem upload_sessions_settle:
  assumes "guarded_run (\<lambda>x s. snd (mu_do x s)) (\<lambda>x s. constructed x) xs empty_mem_uploads = Some s"
    and "guarded_run (\<lambda>x s. snd (mu_do x s)) (\<lambda>x s. constructed x) ys s = Some t"
    and "mu_lookup s k = Some u"
  shows "\<exists>u'. mu_lookup t k = Some u' \<and> same_identity u u' \<and> us_version u \<le> us_version u' \<and>
           upload_rank (us_state u) \<le> upload_rank (us_state u') \<and>
           (us_state u \<in> terminal_states \<longrightarrow> u' = u) \<and>
           (\<forall>b. us_verified_blob_id u' = Some b \<longrightarrow> (\<exists>h blob. mu_blobs t h = Some blob \<and> blob_id blob = b))"
proof -
  have inv: "mu_inv s" by (rule upload_machine.run_inv [OF assms(1) mu_inv_empty])
  have t: "mu_inv t" by (rule upload_machine.run_inv [OF assms(2) inv])
  have "grows session_le (mu_lookup s) (mu_lookup t)"
    using upload_machine.run_le [OF assms(2) inv] by (simp add: mu_le_def)
  from growsD [OF this assms(3)] obtain u' where u': "mu_lookup t k = Some u'" and le: "session_le u u'" by blast
  have "blob_known t u'" using mu_invD [OF t u'] by simp
  moreover have "same_identity u u' \<and> us_version u \<le> us_version u' \<and> upload_rank (us_state u) \<le> upload_rank (us_state u')"
    using le unfolding session_le_def by (elim disjE) (simp_all add: same_identity_def)
  moreover have "us_state u \<in> terminal_states \<longrightarrow> u' = u"
    using le by (auto simp: session_le_def open_not_terminal)
  ultimately show ?thesis using u' by (simp add: blob_known_def)
qed

theorem upload_sessions_settle_witness:
  "\<exists>u'. mu_lookup (snd (mu_do (Up_expire 10) (snd (mu_do (Up_create 0 (demo_session demo_id 9)) empty_mem_uploads)))) demo_id = Some u' \<and>
        same_identity (demo_session demo_id 9) u'"
proof -
  let ?u = "demo_session demo_id 9"
  let ?s = "snd (mu_do (Up_create 0 ?u) empty_mem_uploads)"
  have r1: "guarded_run (\<lambda>x s. snd (mu_do x s)) (\<lambda>x s. constructed x) [Up_create 0 ?u] empty_mem_uploads = Some ?s"
    using demo_new [of 9] by simp
  have r2: "guarded_run (\<lambda>x s. snd (mu_do x s)) (\<lambda>x s. constructed x) [Up_expire 10] ?s = Some (snd (mu_do (Up_expire 10) ?s))"
    by simp
  have "mu_lookup ?s demo_id = Some ?u"
    by (simp add: mu_create_session_def demo_session_def empty_mem_uploads_def add_row_def ok_def)
  from upload_sessions_settle [OF r1 r2 this] show ?thesis by blast
qed

text \<open>
  A compare-and-swap under a version that has passed is refused for ever: whatever has run
  since, every transition that names an older version raises and changes nothing, so of two
  verifiers holding the same version at most one succeeds.
\<close>

theorem stale_upload_version_refused:
  assumes "guarded_run (\<lambda>x s. snd (mu_do x s)) (\<lambda>x s. constructed x) xs empty_mem_uploads = Some s"
    and "mu_lookup s k = Some u" and "v < us_version u"
    and "guarded_run (\<lambda>x s. snd (mu_do x s)) (\<lambda>x s. constructed x) ys s = Some t"
    and "x \<in> {Up_mark now k v, Up_claim now k v, Up_reject now k v reason, Up_finalize now k v blob asset}"
  shows "mu_do x t = fail StateTransitionError ''upload session CAS rejected'' t"
proof -
  have inv: "mu_inv s" by (rule upload_machine.run_inv [OF assms(1) mu_inv_empty])
  have "version_over s (k, v)" using assms(2,3) by (simp add: version_over_def)
  then have over: "version_over t (k, v)" by (rule upload_fence.run_ended [OF assms(4) inv])
  then have "\<not> version_held t (k, v)"
    using upload_fence.ended_not_holds [OF upload_machine.run_inv [OF assms(4) inv]] by blast
  moreover obtain u' where u': "mu_lookup t k = Some u'" using over by (auto simp: version_over_def)
  ultimately have "us_version u' \<noteq> v" by (simp add: version_held_def)
  then have "\<not> cas_ok now v st u'" for now st by (simp add: cas_ok_def)
  then show ?thesis using assms(5) u'
    by (auto simp: mu_mark_uploaded_def mu_claim_verification_def mem_moves mem_move_eq
        mu_finalize_verified_def sbind_def mu_get_session_def ok_def cas_rejected_def fail_def raise_def)
qed

theorem stale_upload_version_refused_witness:
  "let s = snd (mu_do (Up_expire 10) (snd (mu_do (Up_create 0 (demo_session demo_id 9)) empty_mem_uploads)))
   in mu_do (Up_mark 0 demo_id 0) s = fail StateTransitionError ''upload session CAS rejected'' s"
proof -
  let ?u = "demo_session demo_id 9"
  let ?s = "snd (mu_do (Up_expire 10) (snd (mu_do (Up_create 0 ?u) empty_mem_uploads)))"
  have r: "guarded_run (\<lambda>x s. snd (mu_do x s)) (\<lambda>x s. constructed x) [Up_create 0 ?u, Up_expire 10] empty_mem_uploads = Some ?s"
    using demo_new [of 9] by simp
  have c: "mu_inv (snd (mu_do (Up_create 0 ?u) empty_mem_uploads))"
    using mu_do_keeps [OF mu_inv_empty, of "Up_create 0 ?u"] demo_new [of 9] by simp
  have "mu_lookup (snd (mu_do (Up_create 0 ?u) empty_mem_uploads)) demo_id = Some ?u"
    by (simp add: mu_create_session_def demo_session_def empty_mem_uploads_def add_row_def ok_def)
  then have l: "mu_lookup ?s demo_id = Some (expire_if 10 ?u)"
    using mu_expire_lookup [OF c, of 10] by simp
  have "(0::int) < us_version (expire_if 10 ?u)"
    by (simp add: expire_if_def overdue_def demo_session_def open_states_def expired_session_def)
  from stale_upload_version_refused [OF r l this, of "[]" ?s "Up_mark 0 demo_id 0" 0]
  show ?thesis by (simp add: Let_def)
qed

section \<open>Verification\<close>

lemma not_overdue_expire_if: "\<not> overdue now (expire_if now u)"
  by (cases "overdue now u") (simp_all add: expire_if_def, simp add: overdue_def expired_session_def open_states_def)

text \<open>A world with one UPLOADED session and one staged object, one byte too long.\<close>

definition demo_uploaded :: upload_session where
  "demo_uploaded = moved U_UPLOADED (demo_session demo_id 9)"

definition demo_world :: "(pg_uploads, local_staging, local_store) upload_world" where
  "demo_world = \<lparr>
     uw_repo = \<lparr>pg_rows = [(demo_id, \<lparr>pu_session = demo_uploaded, pu_verification_started_at = None, pu_finalized_at = None\<rparr>)],
       pg_blobs = [], pg_assets = [], pg_cleanups = []\<rparr>,
     uw_staging = \<lparr>lst_dir = True, lst_files = [demo_id \<mapsto> RegularFile ''abcd'']\<rparr>,
     uw_canonical = empty_store\<rparr>"

lemma demo_uploaded_facts:
  "valid_session demo_uploaded" "us_state demo_uploaded = U_UPLOADED" "us_version demo_uploaded = 1"
  "us_session_id demo_uploaded = demo_id" "us_staging_key demo_uploaded = ''staging/'' @ demo_id"
  "us_expected_size_bytes demo_uploaded = 3" "us_expires_at demo_uploaded = AwareTime 9"
  "us_verified_blob_id demo_uploaded = None"
  unfolding demo_uploaded_def
  by (rule valid_moved [OF demo_valid [OF demo_id_canonical]])
     (simp_all add: demo_session_def open_states_def moved_def)

lemma demo_world_ok:
  "pg_inv (uw_repo demo_world)" "lst_inv (uw_staging demo_world)" "local_inv (uw_canonical demo_world)"
  using demo_uploaded_facts demo_id_canonical
  by (simp_all add: demo_world_def pg_inv_def mu_inv_def upload_abs_def session_rows_def blob_map_def
      times_ok_def terminal_states_def verified_row_ok_def blob_known_def lst_inv_def local_inv_empty)

lemma demo_lookup: "mu_lookup (upload_abs (uw_repo demo_world)) demo_id = Some demo_uploaded"
  by (simp add: demo_world_def upload_abs_def session_rows_def)


definition upload_env :: pyenv where
  "upload_env = \<lparr>float_repr = (\<lambda>_. ''0.5''), str_of = (\<lambda>_. ''x'')\<rparr>"

definition demo_draws :: upload_draws where
  "demo_draws = \<lparr>ud_claim_time = 1, ud_final_time = 2, ud_blob_id = ''b'', ud_asset_id = ''a''\<rparr>"

text \<open>Its finalisation rejects it, up to the removal of what is staged.\<close>

lemma demo_finalize:
  assumes "df_read F = (\<lambda>_. None)"
  shows "\<exists>u' s. us_state u' = U_REJECTED \<and>
     finalize E (service_verifier F probe 10) demo_draws demo_id 1 demo_world =
       (case lst_delete F (''staging/'' @ demo_id) (uw_staging demo_world) of
          (Inl e, g) \<Rightarrow> (Inl e, demo_world\<lparr>uw_repo := s, uw_staging := g\<rparr>)
        | (Inr _, g) \<Rightarrow> (Inr u', demo_world\<lparr>uw_repo := s, uw_staging := g\<rparr>))"
proof -
  let ?R = "\<lambda>f. set_pg_row demo_id f (uw_repo demo_world)"
  let ?c = "\<lambda>r. (on_session (moved U_VERIFYING) r)\<lparr>pu_verification_started_at := Some 1\<rparr>"
  let ?row = "\<lparr>pu_session = demo_uploaded, pu_verification_started_at = None, pu_finalized_at = None\<rparr>"
  let ?u1 = "moved U_VERIFYING demo_uploaded"
  let ?u2 = "(moved U_REJECTED ?u1)\<lparr>us_rejection_reason := Some ''size_limit_exceeded''\<rparr>"
  have row: "map_of (pg_rows (uw_repo demo_world)) demo_id = Some ?row" by (simp add: demo_world_def)
  have v1: "valid_session ?u1" using demo_uploaded_facts by (intro valid_moved) (simp_all add: open_states_def)
  have s1: "us_state ?u1 = U_VERIFYING" "us_version ?u1 = 2" "us_expires_at ?u1 = AwareTime 9"
    "us_expected_size_bytes ?u1 = 3" "us_staging_key ?u1 = ''staging/'' @ demo_id"
    using demo_uploaded_facts by (simp_all add: moved_def)
  have v2: "valid_session ?u2" by (rule valid_rejected [OF v1 s1(1)]) simp
  have get: "pg_get_session demo_id (uw_repo demo_world) = (Inr demo_uploaded, uw_repo demo_world)"
    using row demo_uploaded_facts(1) by (simp add: pg_get_session_def new_UploadSession_ok ok_def)
  have pass: "upload_update_guard now s r r' = Inr ()"
    if "valid_session (pu_session r')" "times_ok r'" "same_identity (pu_session r) (pu_session r')"
      "upload_transition_allowed r r'" "us_state (pu_session r) \<in> open_states"
      "now < instant (us_expires_at (pu_session r))" "us_state (pu_session r') \<noteq> U_VERIFIED" for now s r r'
    using that by (intro update_guard_passes) simp_all
  have p1: "upload_update_guard 1 (uw_repo demo_world) ?row (?c ?row) = Inr ()"
    using demo_uploaded_facts v1
    by (intro pass) (simp_all add: on_session_def times_ok_def terminal_states_def same_identity_def moved_def
      upload_transition_allowed_def open_states_def)
  have claim: "pg_claim_verification 1 demo_id 1 (uw_repo demo_world) = (Inr ?u1, ?R ?c)"
    using row demo_uploaded_facts v1 p1
    by (simp add: pg_claim_verification_def pg_update_get_eq cas_ok_def on_session_def new_UploadSession_ok ok_def)
  have row1: "map_of (pg_rows (?R ?c)) demo_id = Some (?c ?row)" using lookup_set_row [OF row] by simp
  let ?f = "\<lambda>r. (on_session (\<lambda>u. (moved U_REJECTED u)\<lparr>us_rejection_reason := Some ''size_limit_exceeded''\<rparr>) r)
                     \<lparr>pu_finalized_at := Some 2\<rparr>"
  have p2: "upload_update_guard 2 (?R ?c) (?c ?row) (?f (?c ?row)) = Inr ()"
    using s1 v2
    by (intro pass) (simp_all add: on_session_def times_ok_def terminal_states_def same_identity_def moved_def
      upload_transition_allowed_def open_states_def)
  have rej: "\<exists>s. pg_reject 2 demo_id 2 ''size_limit_exceeded'' (?R ?c) = (Inr ?u2, s)"
    unfolding pg_reject_def using row1 s1 v2 p2
    by (simp add: pg_update_get_eq cas_ok_def on_session_def new_UploadSession_ok ok_def storable_def)
  have name: "lst_name (''staging/'' @ demo_id) = Inr demo_id" by (simp only: lst_name_eq demo_id_canonical simp_thms)
  have opn: "lst_open_reader F (''staging/'' @ demo_id) (uw_staging demo_world) = (Inr ''abcd'', uw_staging demo_world)"
    unfolding lst_open_reader_def sbind_def lst_open_dir_def name using assms by (simp add: demo_world_def ok_def)
  have big: "scan 3 10 (pieces mebibyte ''abcd'') [] = None" by (simp add: scan_whole)
  have V: "uv_repository (service_verifier F probe 10) = pg_repository" "uv_max_upload_bytes (service_verifier F probe 10) = 10"
    "uv_staging (service_verifier F probe 10) = local_staging_store F" by (simp_all add: service_verifier_def)
  have R: "ur_get pg_repository = pg_get_session" "ur_claim pg_repository = pg_claim_verification"
    "ur_reject pg_repository = pg_reject" "st_open (local_staging_store F) = lst_open_reader F"
    "st_delete (local_staging_store F) = lst_delete F"
    by (simp_all add: pg_repository_def local_staging_store_def)
  have D: "ud_claim_time demo_draws = 1" "ud_final_time demo_draws = 2" by (simp_all add: demo_draws_def)
  obtain s2 where s2: "pg_reject 2 demo_id 2 ''size_limit_exceeded'' (?R ?c) = (Inr ?u2, s2)" using rej by blast
  have "finalize E (service_verifier F probe 10) demo_draws demo_id 1 demo_world =
      (case lst_delete F (''staging/'' @ demo_id) (uw_staging demo_world) of
          (Inl e, g) \<Rightarrow> (Inl e, demo_world\<lparr>uw_repo := s2, uw_staging := g\<rparr>)
        | (Inr _, g) \<Rightarrow> (Inr ?u2, demo_world\<lparr>uw_repo := s2, uw_staging := g\<rparr>))"
    unfolding finalize_def verify_session_def reject_staged_def Let_def V R D sbind_def on_repo_def on_staging_def
      get prod.case sum.case demo_uploaded_facts(2,3) claim s1
    using claim opn s2 big by (simp add: s1 ok_def split: sum.split prod.split)
  moreover have "us_state ?u2 = U_REJECTED" by (simp add: moved_def)
  ultimately show ?thesis by blast
qed

lemma demo_delete:
  "lst_delete F (''staging/'' @ demo_id) (uw_staging demo_world) =
     (let t = \<lparr>lst_dir = True, lst_files = Map.empty\<rparr> in
      case df_delete F (''staging/'' @ demo_id) of
        Some (Fails_before m) \<Rightarrow> fail OSError m (uw_staging demo_world)
      | Some (Fails_after m) \<Rightarrow> fail OSError m t | None \<Rightarrow> ok () t)"
proof -
  have name: "lst_name (''staging/'' @ demo_id) = Inr demo_id" by (simp only: lst_name_eq demo_id_canonical simp_thms)
  from lst_delete_file [OF demo_world_ok(2) this, of F] show ?thesis by (simp add: demo_world_def)
qed

text \<open>
  C32. What \<open>finalize\<close> returns is right, over PostgreSQL, the local staging directory and the local
  blob store. The session was in the requested version and UPLOADED or VERIFYING, its staged
  object is deleted and no other session or object is touched. VERIFIED: the staged bytes had
  exactly the declared size within the limit, the declared digest when there is one, the probe
  accepted them, and the blob row and the canonical store hold them under their SHA-256. REJECTED:
  one of the documented reasons applies to them and the canonical store is unchanged.
\<close>

theorem finalize_verdict:
  assumes "pg_inv (uw_repo w)" and "lst_inv (uw_staging w)" and "local_inv (uw_canonical w)"
    and "finalize E (service_verifier F probe limit) d sid v w = (Inr u', t)"
  shows "\<exists>u. mu_lookup (upload_abs (uw_repo w)) sid = Some u \<and> us_version u = v \<and>
     us_state u \<in> {U_UPLOADED, U_VERIFYING} \<and> same_identity u u' \<and>
     mu_lookup (upload_abs (uw_repo t)) = (mu_lookup (upload_abs (uw_repo w)))(sid \<mapsto> u') \<and>
     lst_held (uw_staging t) = (lst_held (uw_staging w))(us_staging_key u := None) \<and>
     ((us_state u' = U_VERIFIED \<and> us_verified_asset_id u' = Some (ud_asset_id d) \<and>
        (\<exists>x info c y. lst_held (uw_staging w) (us_staging_key u) = Some x \<and>
           int (length x) = us_expected_size_bytes u \<and> int (length x) \<le> limit \<and>
           (\<forall>h. us_expected_sha256 u = Some h \<longrightarrow> sha256_hex x = h) \<and> probe x = Inr info \<and>
           blob_map (pg_blobs (uw_repo t)) (sha256_hex x) = Some c \<and> us_verified_blob_id u' = Some (blob_id c) \<and>
           blob_size_bytes c = int (length x) \<and> blob_content_type c = mi_media_type info \<and>
           held_at (uw_canonical t) (blob_storage_key c) = Some y \<and> sha256_hex y = sha256_hex x)) \<or>
      (us_state u' = U_REJECTED \<and> uw_canonical t = uw_canonical w \<and>
        (\<exists>reason. us_rejection_reason u' = Some reason \<and>
           refuses (service_verifier F probe limit) u (lst_held (uw_staging w) (us_staging_key u)) reason)))"
proof -
  have "service.wok w" using assms(1-3) by (simp add: service.wok_def)
  from wp_value [OF service.finalize_decides [OF this] assms(4)]
  obtain u where u: "mu_lookup (upload_abs (uw_repo w)) sid = Some u" "us_version u = v"
      "us_state u \<in> {U_UPLOADED, U_VERIFYING}"
    and d: "service.decided F probe limit sid u (ud_asset_id d) u' w t" by blast
  have V: "uv_probe (service_verifier F probe limit) = probe" "uv_max_upload_bytes (service_verifier F probe limit) = limit"
    by (simp_all add: service_verifier_def)
  show ?thesis using u d
    unfolding service.decided_def service.recorded_def service.judged_def service.published_def approves_def V
    by (intro exI [of _ u]) blast
qed

definition demo_probe :: "string \<Rightarrow> media_info res" where
  "demo_probe = (\<lambda>_. new_MediaInfo ''audio/wav'' (PInt 1))"

theorem finalize_verdict_witness:
  "\<exists>u' t. finalize upload_env (service_verifier no_faults demo_probe 10) demo_draws demo_id 1 demo_world = (Inr u', t) \<and>
     same_identity demo_uploaded u' \<and> lst_held (uw_staging t) (''staging/'' @ demo_id) = None \<and>
     us_state u' = U_REJECTED"
proof -
  let ?V = "service_verifier no_faults demo_probe 10"
  obtain u' t where f: "finalize upload_env ?V demo_draws demo_id 1 demo_world = (Inr u', t)" "us_state u' = U_REJECTED"
  proof -
    have "df_read no_faults = (\<lambda>_. None)" "df_delete no_faults k = None" for k by (simp_all add: no_faults_def)
    note nf = this
    obtain u' s where u': "us_state u' = U_REJECTED"
      and f: "finalize upload_env ?V demo_draws demo_id 1 demo_world =
        (case lst_delete no_faults (''staging/'' @ demo_id) (uw_staging demo_world) of
          (Inl e, g) \<Rightarrow> (Inl e, demo_world\<lparr>uw_repo := s, uw_staging := g\<rparr>)
        | (Inr _, g) \<Rightarrow> (Inr u', demo_world\<lparr>uw_repo := s, uw_staging := g\<rparr>))"
      using demo_finalize [OF nf(1), of upload_env demo_probe] by blast
    show ?thesis using u' by (intro that) (unfold f demo_delete nf(2) ok_def Let_def option.case prod.case sum.case, simp_all)
  qed
  from finalize_verdict [OF demo_world_ok f(1)] obtain u where u: "mu_lookup (upload_abs (uw_repo demo_world)) demo_id = Some u"
    "same_identity u u'" "lst_held (uw_staging t) = (lst_held (uw_staging demo_world))(us_staging_key u := None)"
    by blast
  have "u = demo_uploaded" using u(1) demo_lookup by simp
  then have "lst_held (uw_staging t) (''staging/'' @ demo_id) = None" using u(3) demo_uploaded_facts(5) by simp
  then show ?thesis using f u(2) \<open>u = demo_uploaded\<close> by blast
qed







section \<open>Flaws\<close>

text \<open>
  The in-memory repository keys sessions by the text of their identifier, the staging key by
  the UUID it denotes: two spellings of one UUID are two sessions with one staging key. When the
  first expires, the janitor deletes what the second, still open, has staged.
\<close>

theorem shared_staging_key_loses_upload:
  assumes "new_UploadSession a = Inr a" and "new_UploadSession b = Inr b"
    and "us_state a = U_INITIATED" and "us_version a = 0" and "us_state b = U_INITIATED" and "us_version b = 0"
    and "us_session_id a \<noteq> us_session_id b"
    and "uuid_canonical (us_session_id a) = uuid_canonical (us_session_id b)"
    and "overdue now a" and "\<not> overdue now b"
  shows "\<exists>s. guarded_run (\<lambda>x s. snd (mu_do x s)) (\<lambda>x s. constructed x) [Up_create 0 a, Up_create 0 b] empty_mem_uploads = Some s \<and>
     mu_lookup s (us_session_id a) = Some a \<and> mu_lookup s (us_session_id b) = Some b \<and>
     (let w = \<lparr>uw_repo = s,
                uw_staging = snd (ms_write_stream (\<lambda>_. []) (us_session_id b) chunks \<lparr>ms_objects = Map.empty, ms_etags = Map.empty\<rparr>),
                uw_canonical = Map.empty\<rparr>;
          t = snd (janitor (double_verifier probe limit) now w)
      in ms_objects (uw_staging w) (us_staging_key b) = Some (concat chunks) \<and>
         mu_lookup (uw_repo t) (us_session_id b) = Some b \<and> us_state b \<in> open_states \<and>
         ms_objects (uw_staging t) (us_staging_key b) = None)"
proof -
  have va: "valid_session a" and vb: "valid_session b" using assms(1,2) by (simp_all add: new_UploadSession_eq)
  obtain c where c: "uuid_canonical (us_session_id b) = Inr c" "us_staging_key b = ''staging/'' @ c"
    "us_staging_key a = us_staging_key b"
    using va vb assms(8) by (auto simp: valid_session_def)
  let ?s1 = "snd (mu_do (Up_create 0 a) empty_mem_uploads)"
  let ?s = "snd (mu_do (Up_create 0 b) ?s1)"
  have run: "guarded_run (\<lambda>x s. snd (mu_do x s)) (\<lambda>x s. constructed x) [Up_create 0 a, Up_create 0 b] empty_mem_uploads = Some ?s"
    using assms(1,2) by simp
  have inv: "mu_inv ?s" by (rule upload_machine.run_inv [OF run mu_inv_empty])
  have s: "mu_sessions ?s = [(us_session_id a, a), (us_session_id b, b)]"
    using assms(3-7) by (simp add: mu_create_session_def empty_mem_uploads_def add_row_def ok_def)
  have sa: "mu_lookup ?s (us_session_id a) = Some a" and sb: "mu_lookup ?s (us_session_id b) = Some b"
    using assms(7) unfolding s by simp_all
  let ?g = "snd (ms_write_stream (\<lambda>_. []) (us_session_id b) chunks \<lparr>ms_objects = Map.empty, ms_etags = Map.empty\<rparr>)"
  have g: "ms_objects ?g = [us_staging_key b \<mapsto> concat chunks]"
    using c by (simp add: ms_write_stream_def staging_key_for_def ok_def)
  have "staging_key_ok (us_staging_key b)"
    using c uuid_canonical_idem by (auto simp: staging_key_ok_def)
  then have gi: "ms_inv ?g" using g by (simp add: ms_inv_def ms_validate_key_eq)
  let ?w = "\<lparr>uw_repo = ?s, uw_staging = ?g, uw_canonical = Map.empty\<rparr> :: (mem_uploads, mem_staging, mem_store) upload_world"
  have ok: "double.wok ?w" using inv gi by (simp add: double.wok_def mem_inv_def)
  obtain r t where j: "janitor (double_verifier probe limit) now ?w = (r, t)" by fastforce
  note sweeps = double.janitor_sweeps [OF ok, of now probe limit]
  obtain n where r: "r = Inr n" using wp_error [OF sweeps] j by (cases r) auto
  have t: "mu_lookup (uw_repo t) = (\<lambda>k. map_option (expire_if now) (mu_lookup (uw_repo ?w) k))"
    "ms_objects (uw_staging t) = (\<lambda>k. if k \<in> {us_staging_key u |u. \<exists>k. mu_lookup (uw_repo t) k = Some u \<and>
        us_state u \<in> terminal_states \<and> \<not> False} then None else ms_objects (uw_staging ?w) k)"
    using wp_value [OF sweeps j [unfolded r]] unfolding Let_def double.ended_keys_def by blast+
  have la: "mu_lookup (uw_repo t) (us_session_id a) = Some (expired_session a)"
    using sa assms(9) by (simp add: t(1) expire_if_def)
  have lb: "mu_lookup (uw_repo t) (us_session_id b) = Some b"
    using sb assms(10) by (simp add: t(1) expire_if_def)
  have ex: "us_staging_key b = us_staging_key (expired_session a)" "us_state (expired_session a) \<in> terminal_states"
    using c by (simp_all add: expired_session_def terminal_states_def)
  have "us_staging_key b \<in> {us_staging_key u |u. \<exists>k. mu_lookup (uw_repo t) k = Some u \<and>
      us_state u \<in> terminal_states \<and> \<not> False}" using ex la by blast
  then have "ms_objects (uw_staging t) (us_staging_key b) = None" unfolding t(2) by (rule if_P)
  then show ?thesis using run sa sb lb j g assms(5) by (simp add: open_states_def Let_def)
qed

theorem shared_staging_key_loses_upload_witness:
  "\<exists>s. guarded_run (\<lambda>x s. snd (mu_do x s)) (\<lambda>x s. constructed x)
         [Up_create 0 (demo_session demo_id 9), Up_create 0 (demo_session (hex_digits 32 7) 99)] empty_mem_uploads = Some s \<and>
       mu_lookup s demo_id = Some (demo_session demo_id 9)"
proof -
  have hex: "uuid_canonical (hex_digits 32 7) = Inr demo_id" using uuid_canonical_hex [of 7] by simp
  have "length demo_id = 36" by (simp add: uuid_str_def Let_def)
  then have ne: "us_session_id (demo_session demo_id 9) \<noteq> us_session_id (demo_session (hex_digits 32 7) 99)"
    using length_hex_digits [of 32 7] by (auto simp: demo_session_def)
  have new: "new_UploadSession (demo_session demo_id 9) = Inr (demo_session demo_id 9)"
    "new_UploadSession (demo_session (hex_digits 32 7) 99) = Inr (demo_session (hex_digits 32 7) 99)"
    by (rule demo_new) (rule new_UploadSession_ok, rule demo_valid, rule hex)
  have same: "uuid_canonical (us_session_id (demo_session demo_id 9)) =
      uuid_canonical (us_session_id (demo_session (hex_digits 32 7) 99))"
    using hex demo_id_canonical by (simp add: demo_session_def)
  have over: "overdue 50 (demo_session demo_id 9)" "\<not> overdue 50 (demo_session (hex_digits 32 7) 99)"
    by (simp_all add: overdue_def demo_session_def open_states_def)
  have st: "us_state (demo_session sid e) = U_INITIATED" "us_version (demo_session sid e) = 0" for sid e
    by (simp_all add: demo_session_def)
  have sid: "us_session_id (demo_session demo_id 9) = demo_id" by (simp add: demo_session_def)
  from shared_staging_key_loses_upload [OF new st st ne same over, unfolded sid] show ?thesis by blast
qed

text \<open>
  A probe that prints an integer duration too large for a float makes \<open>float\<close> raise
  \<open>OverflowError\<close>, which neither \<open>probe_path\<close> turns into the documented \<open>ValueError\<close> nor \<open>finalize\<close>
  treats as a rejected probe: the exception escapes and nothing is rejected or deleted.
\<close>

theorem overflowing_duration_escapes:
  assumes "to_float (PInt n) = Inl (Exc OverflowError m)"
    and "st_open (uv_staging V) (us_staging_key u) (uw_staging w) = (Inr x, uw_staging w)"
    and "us_expected_size_bytes u = int (length x)" and "int (length x) \<le> uv_max_upload_bytes V"
    and "us_expected_sha256 u = None"
    and "uv_probe V x = probe_path to_float
           (Inr (Inr (PDict [(PStr ''media_type'', PStr ''audio/wav''), (PStr ''duration_seconds'', PInt n)]), 0))"
  shows "verify_session E V d u sid v w = (Inl (Exc OverflowError m), w)"
proof -
  have e: "\<not> probe_rejected (Exc OverflowError m)" "\<not> instance_of_any (Exc OverflowError m) [KeyError, TypeError, ValueError]"
    by (simp_all add: probe_rejected_def instance_of_any_def instance_of_def issubclass_def numeral_eq_Suc)
  have "uv_probe V x = Inl (Exc OverflowError m)"
    using assms(1) e(2) by (simp add: assms(6) probe_path_def is_bool_def)
  then show ?thesis using assms(2-5) e(1)
    by (simp add: verify_session_def Let_def sbind_def on_staging_def scan_whole digest_mismatch_def)
qed

theorem overflowing_duration_escapes_witness:
  "let V = service_verifier no_faults (\<lambda>_. probe_path (\<lambda>_. Inl (Exc OverflowError []))
             (Inr (Inr (PDict [(PStr ''media_type'', PStr ''audio/wav''), (PStr ''duration_seconds'', PInt (10 ^ 400))]), 0))) 10
   in verify_session upload_env V demo_draws (demo_uploaded\<lparr>us_expected_size_bytes := 4\<rparr>) demo_id 2 demo_world =
        (Inl (Exc OverflowError []), demo_world)"
proof -
  let ?p = "probe_path (\<lambda>_. Inl (Exc OverflowError []))
    (Inr (Inr (PDict [(PStr ''media_type'', PStr ''audio/wav''), (PStr ''duration_seconds'', PInt (10 ^ 400))]), 0))"
  let ?V = "service_verifier no_faults (\<lambda>_. ?p) 10"
  let ?u = "demo_uploaded\<lparr>us_expected_size_bytes := 4\<rparr>"
  have name: "lst_name (''staging/'' @ demo_id) = Inr demo_id" by (simp only: lst_name_eq demo_id_canonical simp_thms)
  have "lst_open_reader no_faults (''staging/'' @ demo_id) (uw_staging demo_world) = (Inr ''abcd'', uw_staging demo_world)"
    unfolding lst_open_reader_def sbind_def lst_open_dir_def name by (simp add: demo_world_def ok_def no_faults_def)
  then have opn: "st_open (uv_staging ?V) (us_staging_key ?u) (uw_staging demo_world) = (Inr ''abcd'', uw_staging demo_world)"
    using demo_uploaded_facts(5) by (simp add: service_verifier_def local_staging_store_def)
  have size: "us_expected_size_bytes ?u = int (length ''abcd'')" "int (length ''abcd'') \<le> uv_max_upload_bytes ?V"
    by (simp_all add: service_verifier_def)
  have sha: "us_expected_sha256 ?u = None" by (simp add: demo_uploaded_def moved_def demo_session_def)
  have probe: "uv_probe ?V ''abcd'' = ?p" by (simp add: service_verifier_def)
  show ?thesis
    unfolding Let_def by (rule overflowing_duration_escapes [OF refl opn size sha probe])
qed

end
