(* ===== verification/CfValues.thy ===== *)
theory CfValues
  imports PyNumbers Json
begin

text \<open>
  What the ControlFoley modules share: the manifest validators and the canonical digest at the head
  of \<open>nano_aural_runtime_controlfoley/baseline.py\<close>.
\<close>

section \<open>Optional values in manifests\<close>

definition opt_str :: "string option \<Rightarrow> pyval" where
  "opt_str s = (case s of None \<Rightarrow> PNone | Some t \<Rightarrow> PStr t)"

definition opt_int :: "int option \<Rightarrow> pyval" where
  "opt_int n = (case n of None \<Rightarrow> PNone | Some i \<Rightarrow> PInt i)"

definition opt_float :: "rat option \<Rightarrow> pyval" where
  "opt_float q = (case q of None \<Rightarrow> PNone | Some x \<Rightarrow> PFloat (FFin x))"

section \<open>Manifest validators\<close>

text \<open>
  \<open>sorted\<close> of the keys of a mapping: strings among themselves, numbers among themselves; a mix
  of the two raises. (Keys that are tuples or sets, which JSON has not, are taken for a mix.)
\<close>

definition sorted_keys :: "pyval list \<Rightarrow> pyval list res" where
  "sorted_keys ks =
     (if length ks \<le> 1 then Inr ks
      else if list_all is_str ks then Inr (sort_key key_text ks)
      else if list_all numeric_value ks then Inr (sort_key num_value ks)
      else raise TypeError ''not supported between instances'')"

definition mapping_message :: "pyenv \<Rightarrow> string \<Rightarrow> string list \<Rightarrow> pyval list \<Rightarrow> pyval list \<Rightarrow> string" where
  "mapping_message E name keys missing extra =
     name @ '' keys must be exactly '' @ str_of E (PList (map PStr (sort keys))) @ ''; missing='' @
     str_of E (PList missing) @ '', extra='' @ str_of E (PList extra)"

definition mapping :: "pyenv \<Rightarrow> pyval \<Rightarrow> string \<Rightarrow> string list \<Rightarrow> (pyval \<times> pyval) list res" where
  "mapping E v name keys =
     (case v of
        PDict items \<Rightarrow>
          (let expected = map PStr keys; actual = map fst items;
               missing = filter (\<lambda>k. k \<notin> set actual) expected;
               extra = filter (\<lambda>k. k \<notin> set expected) actual
           in if missing \<noteq> [] \<or> extra \<noteq> []
              then after (sorted_keys missing) (\<lambda>m. after (sorted_keys extra) (\<lambda>x.
                     raise SchemaValidationError (mapping_message E name keys m x)))
              else Inr items)
      | _ \<Rightarrow> raise SchemaValidationError (name @ '' must be an object''))"

definition manifest_string :: "pyval \<Rightarrow> string \<Rightarrow> string res" where
  "manifest_string v name =
     (case v of
        PStr s \<Rightarrow> if strip s = [] then raise SchemaValidationError (name @ '' must be a non-empty string'') else Inr s
      | _ \<Rightarrow> raise SchemaValidationError (name @ '' must be a non-empty string''))"

definition integer_message :: "string \<Rightarrow> int \<Rightarrow> string" where
  "integer_message name minimum = name @ '' must be an integer >= '' @ str_int minimum"

definition manifest_integer :: "pyval \<Rightarrow> string \<Rightarrow> int \<Rightarrow> int res" where
  "manifest_integer v name minimum =
     (case v of
        PInt n \<Rightarrow> if n < minimum then raise SchemaValidationError (integer_message name minimum) else Inr n
      | _ \<Rightarrow> raise SchemaValidationError (integer_message name minimum))"

definition number_or_none :: "float_env \<Rightarrow> pyval \<Rightarrow> string \<Rightarrow> rat option res" where
  "number_or_none F v name =
     (if v = PNone then Inr None
      else if \<not> int_or_float v then raise SchemaValidationError (name @ '' must be a number or null'')
      else after (float_of F v) (\<lambda>f.
        case f of FFin q \<Rightarrow> Inr (Some q) | _ \<Rightarrow> raise SchemaValidationError (name @ '' must be finite'')))"

definition manifest_sha256 :: "pyenv \<Rightarrow> pyval \<Rightarrow> string" where
  "manifest_sha256 E v = sha256_hex (utf8 (json_dumps E v))"

section \<open>Facts\<close>

lemma update_new: "k \<notin> fst ` set al \<Longrightarrow> AList.update k v al = al @ [(k, v)]"
  by (induction al) auto

lemma mapping_ok: "mapping E v name keys = Inr items \<longleftrightarrow> v = PDict items \<and> same_keys items keys"
  by (auto simp: mapping_def same_keys_def Let_def after_eq_Inr filter_empty_conv split: pyval.splits)

lemma mapping_exact: "map fst items = map PStr keys \<Longrightarrow> mapping E (PDict items) name keys = Inr items"
  by (simp only: mapping_ok same_keys_def simp_thms)

lemma manifest_string_ok: "manifest_string v name = Inr s \<longleftrightarrow> v = PStr s \<and> strip s \<noteq> []"
  by (auto simp: manifest_string_def split: pyval.splits if_splits)

lemma manifest_integer_ok: "manifest_integer v name m = Inr n \<longleftrightarrow> v = PInt n \<and> m \<le> n"
  by (auto simp: manifest_integer_def split: pyval.splits if_splits)

lemma number_or_none_None: "number_or_none F PNone name = Inr None"
  and number_or_none_float: "number_or_none F (PFloat (FFin q)) name = Inr (Some q)"
  by (simp_all add: number_or_none_def int_or_float_def float_of_def)

lemma number_or_none_opt [simp]: "number_or_none F (opt_float q) name = Inr q"
  by (cases q) (simp_all add: opt_float_def number_or_none_None number_or_none_float)

lemma reject_if_ok: "reject_if r c m = Inr () \<longleftrightarrow> r = Inr False"
  by (cases r) (auto simp: reject_if_def)

lemma any_of_False: "any_of cs = Inr False \<longleftrightarrow> (\<forall>c \<in> set cs. c = Inr False)"
  by (induction cs) (auto simp: after_eq_Inr split: if_splits)

lemma any_of_append: "any_of (cs @ ds) = after (any_of cs) (\<lambda>b. if b then Inr True else any_of ds)"
proof (induction cs)
  case Nil
  then show ?case by simp
next
  case (Cons c cs)
  then show ?case by (cases c) auto
qed

lemma bad_number_False:
  "any_of (bad_number F v bad) = Inr False \<longleftrightarrow>
     int_or_float v \<and> isfinite F v = Inr True \<and> \<not> bad (num_value v)"
  by (auto simp: any_of_False bad_number_def after_eq_Inr)

lemma isfinite_float [simp]: "isfinite F (PFloat f) = Inr (finite_float f)"
  by (simp add: isfinite_def float_of_def)

lemma finite_float_iff: "finite_float f \<longleftrightarrow> (\<exists>q. f = FFin q)"
  by (auto simp: finite_float_def split: pyfloat.splits)

end
