(* ===== verification/Baseline.thy ===== *)
theory Baseline
  imports CfValues
begin

text \<open>
  The manifests of the ControlFoley baseline (\<open>nano_aural_runtime_controlfoley/baseline.py\<close>):
  fingerprints, the deployment, fixture and result manifests with their \<open>from_dict\<close> and
  \<open>to_dict\<close>, the environment record, the check of the materialised weights and the binding of a
  result to its sealed evidence. A manifest arrives as the value parsed from JSON.
\<close>

definition schema_error :: "string \<Rightarrow> 'a res" where
  "schema_error m = raise SchemaValidationError m"

section \<open>Fingerprints\<close>

record fingerprint =
  fp_status :: string
  fp_sha256 :: "string option"
  fp_size_bytes :: "int option"

definition verified :: "string \<Rightarrow> int \<Rightarrow> fingerprint" where
  "verified h n = \<lparr>fp_status = ''verified'', fp_sha256 = Some h, fp_size_bytes = Some n\<rparr>"

definition full_sha256 :: "string \<Rightarrow> bool" where
  "full_sha256 s = (length s = 64 \<and> list_all hex_lower s)"

definition fingerprint_from_dict :: "pyenv \<Rightarrow> pyval \<Rightarrow> string \<Rightarrow> fingerprint res" where
  "fingerprint_from_dict E v name =
     after (mapping E v name [''status'', ''sha256'', ''size_bytes'']) (\<lambda>d.
     after (manifest_string (dget d ''status'') (name @ ''.status'')) (\<lambda>status.
       let h = dget d ''sha256''; size = dget d ''size_bytes'' in
       if status = ''pending'' then
         (if h \<noteq> PNone \<or> size \<noteq> PNone
          then schema_error (name @ '' pending fingerprint must not contain a digest or size'')
          else Inr \<lparr>fp_status = status, fp_sha256 = None, fp_size_bytes = None\<rparr>)
       else if status \<noteq> ''verified'' then schema_error (name @ ''.status must be pending or verified'')
       else (case h of
         PStr s \<Rightarrow>
           if \<not> full_sha256 s \<or> length (remdups s) = 1
           then schema_error (name @ ''.sha256 must be a lowercase full SHA-256'')
           else after (manifest_integer size (name @ ''.size_bytes'') 0) (\<lambda>n.
             Inr \<lparr>fp_status = status, fp_sha256 = Some s, fp_size_bytes = Some n\<rparr>)
       | _ \<Rightarrow> schema_error (name @ ''.sha256 must be a lowercase full SHA-256''))))"

definition fingerprint_to_dict :: "fingerprint \<Rightarrow> pyval" where
  "fingerprint_to_dict f =
     PDict [(PStr ''status'', PStr (fp_status f)), (PStr ''sha256'', opt_str (fp_sha256 f)),
            (PStr ''size_bytes'', opt_int (fp_size_bytes f))]"

text \<open>The two ways a fingerprint is computed; reading a file may raise.\<close>

definition fingerprint_bytes :: "string \<Rightarrow> fingerprint" where
  "fingerprint_bytes content = verified (sha256_hex content) (int (length content))"

definition fingerprint_file :: "(string \<Rightarrow> string res) \<Rightarrow> string \<Rightarrow> fingerprint res" where
  "fingerprint_file read path = after (read path) (\<lambda>content. Inr (fingerprint_bytes content))"

definition fingerprint_text :: "string \<Rightarrow> fingerprint" where
  "fingerprint_text t = fingerprint_bytes (utf8 t)"

definition fingerprint_matches :: "fingerprint \<Rightarrow> fingerprint \<Rightarrow> string \<Rightarrow> string option" where
  "fingerprint_matches expected actual label =
     (if fp_status expected \<noteq> ''verified'' then Some (label @ '' fingerprint is pending'')
      else if expected \<noteq> actual then Some (label @ '' fingerprint does not match the manifest'')
      else None)"

section \<open>The deployment manifest\<close>

record external_weight =
  ew_relative_path :: string
  ew_fingerprint :: fingerprint

definition unsafe_relative :: "string \<Rightarrow> bool" where
  "unsafe_relative p = (startswith p ''/'' \<or> ''..'' \<in> set (split_on (CHR ''/'') p))"

definition weight_name :: "nat \<Rightarrow> string" where
  "weight_name i = ''deployment.external_weights['' @ str_int (int i) @ '']''"

definition weight_from_dict :: "pyenv \<Rightarrow> pyval \<Rightarrow> nat \<Rightarrow> external_weight res" where
  "weight_from_dict E v i =
     after (mapping E v (weight_name i) [''relative_path'', ''fingerprint'']) (\<lambda>d.
     after (manifest_string (dget d ''relative_path'') ''external weight relative_path'') (\<lambda>p.
       if unsafe_relative p then schema_error ''external weight paths must be safe relative paths''
       else after (fingerprint_from_dict E (dget d ''fingerprint'') ''external weight fingerprint'')
         (\<lambda>f. Inr \<lparr>ew_relative_path = p, ew_fingerprint = f\<rparr>)))"

definition weight_to_dict :: "external_weight \<Rightarrow> pyval" where
  "weight_to_dict w =
     PDict [(PStr ''relative_path'', PStr (ew_relative_path w)),
            (PStr ''fingerprint'', fingerprint_to_dict (ew_fingerprint w))]"

text \<open>\<open>tuple(f(item, index) for index, item in enumerate(values))\<close>.\<close>

fun from_items :: "(pyval \<Rightarrow> nat \<Rightarrow> 'a res) \<Rightarrow> nat \<Rightarrow> pyval list \<Rightarrow> 'a list res" where
  "from_items f i [] = Inr []"
| "from_items f i (v # vs) = after (f v i) (\<lambda>x. after (from_items f (Suc i) vs) (\<lambda>xs. Inr (x # xs)))"

record deployment_manifest =
  dm_schema_version :: int
  dm_deployment_id :: string
  dm_upstream_repository :: string
  dm_source_revision :: string
  dm_variant :: string
  dm_precision :: string
  dm_checkpoint_relative_path :: string
  dm_checkpoint :: fingerprint
  dm_external_weights :: "external_weight list"

definition supported_repository :: string where
  "supported_repository = ''https://github.com/xiaomi-research/controlfoley''"

definition supported_revision :: string where
  "supported_revision = ''6858cd12a48d141201e3266e7abe1f38357a133e''"

definition locked_deployment_id :: string where
  "locked_deployment_id = ''controlfoley-large44k-fp32-v1''"

definition locked_checkpoint_path :: string where
  "locked_checkpoint_path = ''weights/controlfoley.pth''"

definition external_weight_paths :: "string list" where
  "external_weight_paths =
     [''ext_weights/cav_mae_st.pth'', ''ext_weights/music_speech_audioset_epoch_15_esc_89.98.pt'',
      ''ext_weights/synchformer_state_dict.pth'', ''ext_weights/v1-44.pth'']"

definition deployment_keys :: "string list" where
  "deployment_keys =
     [''schema_version'', ''deployment_id'', ''upstream_repository'', ''source_revision'', ''variant'',
      ''precision'', ''checkpoint_relative_path'', ''checkpoint'', ''external_weights'']"

definition schema_check :: "bool \<Rightarrow> string \<Rightarrow> unit res" where
  "schema_check bad m = (if bad then schema_error m else Inr ())"

definition weights_from_value :: "pyenv \<Rightarrow> pyval \<Rightarrow> external_weight list res" where
  "weights_from_value E v =
     (case v of
        PList vs \<Rightarrow>
          after (from_items (weight_from_dict E) 0 vs) (\<lambda>ws.
          after (schema_check (sort (map ew_relative_path ws) \<noteq> sort external_weight_paths)
                   ''deployment must declare exactly the four official external weight paths'') (\<lambda>_.
          after (schema_check (card (set (map ew_relative_path ws)) \<noteq> length ws)
                   ''deployment external weight paths must be unique'') (\<lambda>_. Inr ws)))
      | _ \<Rightarrow> schema_error ''deployment.external_weights must be an array'')"

definition deployment_from_dict :: "pyenv \<Rightarrow> pyval \<Rightarrow> deployment_manifest res" where
  "deployment_from_dict E v =
     after (mapping E v ''deployment'' deployment_keys) (\<lambda>d.
     after (manifest_integer (dget d ''schema_version'') ''deployment.schema_version'' 1) (\<lambda>sv.
     after (schema_check (sv \<noteq> 1) ''unsupported deployment schema_version'') (\<lambda>_.
     after (manifest_string (dget d ''upstream_repository'') ''deployment.upstream_repository'') (\<lambda>repo.
     after (manifest_string (dget d ''source_revision'') ''deployment.source_revision'') (\<lambda>rev.
     after (schema_check (repo \<noteq> supported_repository)
              ''deployment uses an unsupported upstream repository'') (\<lambda>_.
     after (schema_check (rev \<noteq> supported_revision)
              ''deployment source revision must equal the supported lock'') (\<lambda>_.
     after (manifest_string (dget d ''variant'') ''deployment.variant'') (\<lambda>variant.
     after (manifest_string (dget d ''precision'') ''deployment.precision'') (\<lambda>precision.
     after (schema_check (variant \<noteq> ''large_44k'' \<or> precision \<noteq> ''fp32'')
              ''deployment variant/precision must equal the locked upstream defaults'') (\<lambda>_.
     after (manifest_string (dget d ''deployment_id'') ''deployment.deployment_id'') (\<lambda>i.
     after (schema_check (i \<noteq> locked_deployment_id)
              ''deployment id must identify the locked FP32 baseline'') (\<lambda>_.
     after (manifest_string (dget d ''checkpoint_relative_path'')
              ''deployment.checkpoint_relative_path'') (\<lambda>cp.
     after (schema_check (cp \<noteq> locked_checkpoint_path)
              ''deployment checkpoint path must be weights/controlfoley.pth'') (\<lambda>_.
     after (weights_from_value E (dget d ''external_weights'')) (\<lambda>ws.
     after (fingerprint_from_dict E (dget d ''checkpoint'') ''deployment.checkpoint'') (\<lambda>f.
       Inr \<lparr>dm_schema_version = sv, dm_deployment_id = i, dm_upstream_repository = repo,
            dm_source_revision = rev, dm_variant = variant, dm_precision = precision,
            dm_checkpoint_relative_path = cp, dm_checkpoint = f, dm_external_weights = ws\<rparr>))))))))))))))))"

definition deployment_to_dict :: "deployment_manifest \<Rightarrow> pyval" where
  "deployment_to_dict d =
     PDict [(PStr ''schema_version'', PInt (dm_schema_version d)),
            (PStr ''deployment_id'', PStr (dm_deployment_id d)),
            (PStr ''upstream_repository'', PStr (dm_upstream_repository d)),
            (PStr ''source_revision'', PStr (dm_source_revision d)),
            (PStr ''variant'', PStr (dm_variant d)), (PStr ''precision'', PStr (dm_precision d)),
            (PStr ''checkpoint_relative_path'', PStr (dm_checkpoint_relative_path d)),
            (PStr ''checkpoint'', fingerprint_to_dict (dm_checkpoint d)),
            (PStr ''external_weights'', PList (map weight_to_dict (dm_external_weights d)))]"

section \<open>The fixture manifest\<close>

record fixture_input =
  fi_role :: string
  fi_kind :: string
  fi_fingerprint :: fingerprint

definition fixture_input_name :: "nat \<Rightarrow> string" where
  "fixture_input_name i = ''fixture.inputs['' @ str_int (int i) @ '']''"

definition fixture_input_from_dict :: "pyenv \<Rightarrow> pyval \<Rightarrow> nat \<Rightarrow> fixture_input res" where
  "fixture_input_from_dict E v i =
     after (mapping E v (fixture_input_name i) [''role'', ''kind'', ''fingerprint'']) (\<lambda>d.
     after (manifest_string (dget d ''role'') ''fixture input role'') (\<lambda>r.
     after (manifest_string (dget d ''kind'') ''fixture input kind'') (\<lambda>k.
     after (fingerprint_from_dict E (dget d ''fingerprint'') ''fixture input fingerprint'') (\<lambda>f.
       Inr \<lparr>fi_role = r, fi_kind = k, fi_fingerprint = f\<rparr>))))"

definition fixture_input_to_dict :: "fixture_input \<Rightarrow> pyval" where
  "fixture_input_to_dict x =
     PDict [(PStr ''role'', PStr (fi_role x)), (PStr ''kind'', PStr (fi_kind x)),
            (PStr ''fingerprint'', fingerprint_to_dict (fi_fingerprint x))]"

record fixture_manifest =
  fx_schema_version :: int
  fx_fixture_id :: string
  fx_task :: string
  fx_duration_seconds :: rat
  fx_seed :: int
  fx_num_steps :: int
  fx_guidance_scale :: rat
  fx_inputs :: "fixture_input list"

text \<open>The inputs each task takes, in order; \<open>None\<close> for a text that is not a task.\<close>

definition task_inputs :: "string \<Rightarrow> (string \<times> string) list option" where
  "task_inputs t = map_of
     [(''V2A'', [(''video'', ''video'')]), (''TV2A'', [(''video'', ''video''), (''prompt'', ''text'')]),
      (''TC-V2A'', [(''video'', ''video''), (''prompt'', ''text'')]),
      (''AC-V2A'', [(''video'', ''video''), (''reference_audio'', ''audio'')]),
      (''T2A'', [(''prompt'', ''text'')])] t"

definition fixture_keys :: "string list" where
  "fixture_keys =
     [''schema_version'', ''fixture_id'', ''task'', ''duration_seconds'', ''seed'', ''num_steps'',
      ''guidance_scale'', ''inputs'']"

definition fixture_inputs_from_value :: "pyenv \<Rightarrow> string \<Rightarrow> pyval \<Rightarrow> fixture_input list res" where
  "fixture_inputs_from_value E task v =
     (case v of
        PList vs \<Rightarrow>
          if vs = [] then schema_error ''fixture.inputs must be a non-empty array''
          else after (from_items (fixture_input_from_dict E) 0 vs) (\<lambda>xs.
            after (schema_check (card (set (map fi_role xs)) \<noteq> length xs)
                     ''fixture input roles must be unique'') (\<lambda>_.
            after (schema_check (Some (map (\<lambda>x. (fi_role x, fi_kind x)) xs) \<noteq> task_inputs task)
                     (''fixture input roles/kinds must match '' @ task @ '' exactly'')) (\<lambda>_. Inr xs)))
      | _ \<Rightarrow> schema_error ''fixture.inputs must be a non-empty array'')"

definition fixture_from_dict :: "pyenv \<Rightarrow> float_env \<Rightarrow> pyval \<Rightarrow> fixture_manifest res" where
  "fixture_from_dict E F v =
     after (mapping E v ''fixture'' fixture_keys) (\<lambda>d.
     after (manifest_integer (dget d ''schema_version'') ''fixture.schema_version'' 1) (\<lambda>sv.
     after (schema_check (sv \<noteq> 1) ''unsupported fixture schema_version'') (\<lambda>_.
     after (manifest_string (dget d ''task'') ''fixture.task'') (\<lambda>task.
     after (schema_check (task_inputs task = None)
              ''fixture.task is not one of the supported baseline tasks'') (\<lambda>_.
     after (number_or_none F (dget d ''duration_seconds'') ''fixture.duration_seconds'') (\<lambda>duration.
     after (number_or_none F (dget d ''guidance_scale'') ''fixture.guidance_scale'') (\<lambda>guidance.
     after (schema_check (case duration of None \<Rightarrow> True | Some q \<Rightarrow> q \<le> 0)
              ''fixture.duration_seconds must be a positive number'') (\<lambda>_.
     after (schema_check (case guidance of None \<Rightarrow> True | Some q \<Rightarrow> q < 0)
              ''fixture.guidance_scale must be a non-negative number'') (\<lambda>_.
     after (fixture_inputs_from_value E task (dget d ''inputs'')) (\<lambda>xs.
     after (manifest_string (dget d ''fixture_id'') ''fixture.fixture_id'') (\<lambda>i.
     after (manifest_integer (dget d ''seed'') ''fixture.seed'' 0) (\<lambda>seed.
     after (manifest_integer (dget d ''num_steps'') ''fixture.num_steps'' 1) (\<lambda>steps.
       Inr \<lparr>fx_schema_version = sv, fx_fixture_id = i, fx_task = task,
            fx_duration_seconds = the duration, fx_seed = seed, fx_num_steps = steps,
            fx_guidance_scale = the guidance, fx_inputs = xs\<rparr>)))))))))))))"

definition fixture_to_dict :: "fixture_manifest \<Rightarrow> pyval" where
  "fixture_to_dict x =
     PDict [(PStr ''schema_version'', PInt (fx_schema_version x)),
            (PStr ''fixture_id'', PStr (fx_fixture_id x)), (PStr ''task'', PStr (fx_task x)),
            (PStr ''duration_seconds'', PFloat (FFin (fx_duration_seconds x))),
            (PStr ''seed'', PInt (fx_seed x)), (PStr ''num_steps'', PInt (fx_num_steps x)),
            (PStr ''guidance_scale'', PFloat (FFin (fx_guidance_scale x))),
            (PStr ''inputs'', PList (map fixture_input_to_dict (fx_inputs x)))]"

end
