(* ===== verification/BaselineResult.thy ===== *)
theory BaselineResult
  imports Baseline
begin

text \<open>
  The result manifest of the ControlFoley baseline (\<open>BaselineResultManifest\<close> and
  \<open>RepeatEvidence\<close>), the environment record inside it, \<open>verify_result_bindings\<close>, and the check of
  the host's prerequisites over what the file system and \<open>git\<close> report.
\<close>

section \<open>The environment record\<close>

definition environment_keys :: "string list" where
  "environment_keys =
     [''schema_version'', ''captured_at'', ''python_version'', ''platform'', ''torch'', ''cuda'']"

fun platform_items :: "(pyval \<times> pyval) list \<Rightarrow> (pyval \<times> pyval) list res" where
  "platform_items [] = Inr []"
| "platform_items ((k, v) # items) =
     after (manifest_string v (''environment.platform.'' @ key_text k)) (\<lambda>s.
     after (platform_items items) (\<lambda>ps. Inr ((k, PStr s) # ps)))"

definition true_bool :: "pyval \<Rightarrow> bool" where
  "true_bool v = (v = PBool True)"

definition validate_environment_manifest :: "pyenv \<Rightarrow> pyval \<Rightarrow> pyval res" where
  "validate_environment_manifest E v =
     after (mapping E v ''environment'' environment_keys) (\<lambda>d.
     after (manifest_integer (dget d ''schema_version'') ''environment.schema_version'' 1) (\<lambda>sv.
     after (schema_check (sv \<noteq> 1) ''unsupported environment schema_version'') (\<lambda>_.
     after (manifest_string (dget d ''captured_at'') ''environment.captured_at'') (\<lambda>_.
     after (manifest_string (dget d ''python_version'') ''environment.python_version'') (\<lambda>_.
     after (mapping E (dget d ''platform'') ''environment.platform''
              [''system'', ''release'', ''machine'']) (\<lambda>pd.
     after (mapping E (dget d ''torch'') ''environment.torch'' [''installed'', ''version'']) (\<lambda>td.
     after (mapping E (dget d ''cuda'') ''environment.cuda'' [''available'', ''device_count'']) (\<lambda>cd.
     after (schema_check (\<not> is_bool (dget td ''installed''))
              ''environment.torch.installed must be boolean'') (\<lambda>_.
     after (schema_check (dget td ''version'' \<noteq> PNone \<and> \<not> is_str (dget td ''version''))
              ''environment.torch.version must be string or null'') (\<lambda>_.
     after (schema_check (true_bool (dget td ''installed'') \<and> dget td ''version'' = PNone)
              ''installed torch must include its version'') (\<lambda>_.
     after (schema_check (\<not> is_bool (dget cd ''available''))
              ''environment.cuda.available must be boolean'') (\<lambda>_.
     after (manifest_integer (dget cd ''device_count'') ''environment.cuda.device_count'' 0) (\<lambda>n.
     after (schema_check (true_bool (dget cd ''available'') \<and> n < 1)
              ''available CUDA must report at least one device'') (\<lambda>_.
     after (platform_items pd) (\<lambda>ps.
       Inr (PDict [(PStr ''schema_version'', dget d ''schema_version''),
                   (PStr ''captured_at'', dget d ''captured_at''),
                   (PStr ''python_version'', dget d ''python_version''),
                   (PStr ''platform'', PDict ps), (PStr ''torch'', PDict td),
                   (PStr ''cuda'', PDict cd)]))))))))))))))))"

section \<open>Repeat evidence\<close>

type_synonym waveform = "(pyval \<times> int option) list"

text \<open>A measurement that may be absent: \<open>None\<close>, or an integer not below the minimum.\<close>

definition optional_integer :: "pyval \<Rightarrow> string \<Rightarrow> int \<Rightarrow> int option res" where
  "optional_integer v name m =
     (if v = PNone then Inr None else after (manifest_integer v name m) (\<lambda>n. Inr (Some n)))"

fun waveform_items :: "string \<Rightarrow> (pyval \<times> pyval) list \<Rightarrow> waveform res" where
  "waveform_items name [] = Inr []"
| "waveform_items name ((k, v) # items) =
     after (optional_integer v (name @ key_text k) 1) (\<lambda>n.
     after (waveform_items name items) (\<lambda>ws. Inr ((k, n) # ws)))"

definition waveform_from :: "pyenv \<Rightarrow> pyval \<Rightarrow> string \<Rightarrow> string \<Rightarrow> waveform res" where
  "waveform_from E v name item_name =
     after (mapping E v name [''channels'', ''samples'', ''sample_rate''])
       (\<lambda>d. waveform_items item_name d)"

definition waveform_to_dict :: "waveform \<Rightarrow> pyval" where
  "waveform_to_dict w = PDict (map (\<lambda>(k, n). (k, opt_int n)) w)"

record repeat_evidence =
  re_output :: fingerprint
  re_waveform :: waveform
  re_wall_time_seconds :: "rat option"
  re_peak_allocated_bytes :: "int option"
  re_peak_reserved_bytes :: "int option"

definition repeat_keys :: "string list" where
  "repeat_keys =
     [''output'', ''waveform'', ''wall_time_seconds'', ''peak_allocated_bytes'', ''peak_reserved_bytes'']"

definition repeat_name :: "nat \<Rightarrow> string" where
  "repeat_name i = ''result.repeat_evidence['' @ str_int (int i) @ '']''"

definition repeat_from_dict :: "pyenv \<Rightarrow> float_env \<Rightarrow> pyval \<Rightarrow> nat \<Rightarrow> repeat_evidence res" where
  "repeat_from_dict E F v i =
     after (mapping E v (repeat_name i) repeat_keys) (\<lambda>d.
     after (waveform_from E (dget d ''waveform'') ''repeat waveform'' ''repeat waveform.'') (\<lambda>w.
     after (number_or_none F (dget d ''wall_time_seconds'') ''repeat wall_time_seconds'') (\<lambda>t.
     after (optional_integer (dget d ''peak_allocated_bytes'') ''repeat peak_allocated_bytes'' 0) (\<lambda>a.
     after (optional_integer (dget d ''peak_reserved_bytes'') ''repeat peak_reserved_bytes'' 0) (\<lambda>r.
     after (fingerprint_from_dict E (dget d ''output'') ''repeat output'') (\<lambda>f.
       Inr \<lparr>re_output = f, re_waveform = w, re_wall_time_seconds = t,
            re_peak_allocated_bytes = a, re_peak_reserved_bytes = r\<rparr>))))))"

definition repeat_to_dict :: "repeat_evidence \<Rightarrow> pyval" where
  "repeat_to_dict e =
     PDict [(PStr ''output'', fingerprint_to_dict (re_output e)),
            (PStr ''waveform'', waveform_to_dict (re_waveform e)),
            (PStr ''wall_time_seconds'', opt_float (re_wall_time_seconds e)),
            (PStr ''peak_allocated_bytes'', opt_int (re_peak_allocated_bytes e)),
            (PStr ''peak_reserved_bytes'', opt_int (re_peak_reserved_bytes e))]"

section \<open>The result manifest\<close>

type_synonym metrics = "(string \<times> rat option) list"

definition metric_names :: "string list" where
  "metric_names =
     [''peak'', ''rms'', ''mae'', ''max_absolute_error'', ''waveform_cosine_similarity'',
      ''mel_spectrogram_distance'']"

fun metric_values :: "float_env \<Rightarrow> (pyval \<times> pyval) list \<Rightarrow> string \<Rightarrow> string list \<Rightarrow> metrics res" where
  "metric_values F d name [] = Inr []"
| "metric_values F d name (m # ms) =
     after (number_or_none F (dget d m) (name @ ''.'' @ m)) (\<lambda>q.
     after (metric_values F d name ms) (\<lambda>qs. Inr ((m, q) # qs)))"

definition metrics_from_dict :: "pyenv \<Rightarrow> float_env \<Rightarrow> pyval \<Rightarrow> string \<Rightarrow> metrics res" where
  "metrics_from_dict E F v name =
     after (mapping E v name metric_names) (\<lambda>d. metric_values F d name metric_names)"

definition metrics_to_dict :: "metrics \<Rightarrow> pyval" where
  "metrics_to_dict ms = PDict (map (\<lambda>(m, q). (PStr m, opt_float q)) ms)"

record result_manifest =
  rm_schema_version :: int
  rm_run_id :: string
  rm_fixture_id :: string
  rm_deployment_id :: string
  rm_deployment_manifest_sha256 :: string
  rm_fixture_manifest_sha256 :: string
  rm_source_revision :: string
  rm_checkpoint :: fingerprint
  rm_input_fingerprints :: "(string \<times> fingerprint) list"
  rm_parameters :: "(pyval \<times> pyval) list"
  rm_state :: string
  rm_environment :: pyval
  rm_waveform :: waveform
  rm_wall_time_seconds :: "rat option"
  rm_peak_allocated_bytes :: "int option"
  rm_peak_reserved_bytes :: "int option"
  rm_self_repeat_metrics :: metrics
  rm_self_repeat_thresholds :: metrics
  rm_repeat_evidence :: "repeat_evidence list"

definition result_keys :: "string list" where
  "result_keys =
     [''schema_version'', ''run_id'', ''fixture_id'', ''deployment_id'', ''deployment_manifest_sha256'',
      ''fixture_manifest_sha256'', ''source_revision'', ''checkpoint'', ''input_fingerprints'',
      ''parameters'', ''state'', ''environment'', ''waveform'', ''wall_time_seconds'',
      ''peak_allocated_bytes'', ''peak_reserved_bytes'', ''self_repeat_metrics'',
      ''self_repeat_thresholds'', ''repeat_evidence'']"

fun input_fingerprints_items :: "pyenv \<Rightarrow> (pyval \<times> pyval) list \<Rightarrow> (string \<times> fingerprint) list res" where
  "input_fingerprints_items E [] = Inr []"
| "input_fingerprints_items E ((k, v) # items) =
     after (manifest_string k ''result input role'') (\<lambda>r.
     after (fingerprint_from_dict E v ''result input fingerprint'') (\<lambda>f.
     after (input_fingerprints_items E items) (\<lambda>fs. Inr ((r, f) # fs))))"

definition input_fingerprints_from :: "pyenv \<Rightarrow> pyval \<Rightarrow> (string \<times> fingerprint) list res" where
  "input_fingerprints_from E v =
     (case v of
        PDict items \<Rightarrow>
          if items = [] then schema_error ''result.input_fingerprints must be a non-empty object''
          else input_fingerprints_items E items
      | _ \<Rightarrow> schema_error ''result.input_fingerprints must be a non-empty object'')"

definition has_path :: "pyenv \<Rightarrow> pyval \<Rightarrow> bool" where
  "has_path E v = (contains (pystr E v) ''/'' \<or> contains (pystr E v) [CHR 0x5C])"

definition parameters_from :: "pyenv \<Rightarrow> pyval \<Rightarrow> (pyval \<times> pyval) list res" where
  "parameters_from E v =
     (case v of
        PDict items \<Rightarrow>
          if list_ex (has_path E) (map snd items)
          then schema_error ''result.parameters must not contain file paths''
          else Inr items
      | _ \<Rightarrow> schema_error ''result.parameters must be a sanitized object'')"

definition repeats_from :: "pyenv \<Rightarrow> float_env \<Rightarrow> pyval \<Rightarrow> repeat_evidence list res" where
  "repeats_from E F v =
     (case v of PList vs \<Rightarrow> from_items (repeat_from_dict E F) 0 vs
      | _ \<Rightarrow> schema_error ''result.repeat_evidence must be an array'')"

definition absent :: "'a option \<Rightarrow> bool" where
  "absent x = (x = None)"

text \<open>The measurements of a result: all of them, and those a completed result must have.\<close>

definition core_absent :: "result_manifest \<Rightarrow> bool list" where
  "core_absent r =
     [absent (rm_wall_time_seconds r), absent (rm_peak_allocated_bytes r),
      absent (rm_peak_reserved_bytes r)]
     @ map (\<lambda>w. absent (snd w)) (rm_waveform r) @ map (\<lambda>m. absent (snd m)) (rm_self_repeat_metrics r)"

definition incomplete_evidence :: "repeat_evidence \<Rightarrow> bool" where
  "incomplete_evidence e =
     (fp_status (re_output e) \<noteq> ''verified''
      \<or> (case re_wall_time_seconds e of None \<Rightarrow> True | Some t \<Rightarrow> t \<le> 0)
      \<or> absent (re_peak_allocated_bytes e) \<or> absent (re_peak_reserved_bytes e)
      \<or> list_ex (\<lambda>w. absent (snd w)) (re_waveform e))"

definition result_state_checks :: "result_manifest \<Rightarrow> unit res" where
  "result_state_checks r =
     checks
       [schema_check (rm_state r = ''planned'' \<and>
          list_ex Not (core_absent r @ map (\<lambda>m. absent (snd m)) (rm_self_repeat_thresholds r)))
          ''planned results must not contain fabricated measurements'',
        schema_check (rm_state r = ''planned'' \<and> rm_repeat_evidence r \<noteq> [])
          ''planned results must not contain repeat evidence'',
        schema_check (rm_state r = ''completed'' \<and> list_ex id (core_absent r))
          ''completed results require waveform, timing, VRAM, and raw self-repeat metrics'',
        schema_check (rm_state r = ''completed'' \<and>
          (fp_status (rm_checkpoint r) \<noteq> ''verified'' \<or>
           list_ex (\<lambda>f. fp_status (snd f) \<noteq> ''verified'') (rm_input_fingerprints r)))
          ''completed results require verified checkpoint and input fingerprints'',
        schema_check (rm_state r = ''completed'' \<and> length (rm_repeat_evidence r) \<noteq> 2)
          ''completed results require exactly two repeat evidence records'',
        schema_check (rm_state r = ''completed'' \<and> list_ex incomplete_evidence (rm_repeat_evidence r))
          ''completed repeat evidence is incomplete'']"

definition result_digest :: "pyval \<Rightarrow> string \<Rightarrow> string \<Rightarrow> string res" where
  "result_digest v name m =
     after (manifest_string v name) (\<lambda>s. after (schema_check (\<not> full_sha256 s) m) (\<lambda>_. Inr s))"

text \<open>
  The identifiers are read last, when the record is built; the state checks look at no identifier,
  so they are made on the record with the identifiers still empty.
\<close>

definition result_body_from :: "pyenv \<Rightarrow> float_env \<Rightarrow> (pyval \<times> pyval) list \<Rightarrow> result_manifest res" where
  "result_body_from E F d =
     after (manifest_integer (dget d ''schema_version'') ''result.schema_version'' 1) (\<lambda>sv.
     after (schema_check (sv \<noteq> 1) ''unsupported result schema_version'') (\<lambda>_.
     after (manifest_string (dget d ''state'') ''result.state'') (\<lambda>state.
     after (schema_check (state \<notin> {''planned'', ''completed'', ''failed''})
              ''result.state must be planned, completed, or failed'') (\<lambda>_.
     after (manifest_string (dget d ''source_revision'') ''result.source_revision'') (\<lambda>rev.
     after (schema_check (rev \<noteq> supported_revision)
              ''result source revision must equal the supported lock'') (\<lambda>_.
     after (result_digest (dget d ''deployment_manifest_sha256'') ''result.deployment_manifest_sha256''
              ''result deployment_manifest_sha256 must be a full SHA-256'') (\<lambda>dh.
     after (result_digest (dget d ''fixture_manifest_sha256'') ''result.fixture_manifest_sha256''
              ''result fixture_manifest_sha256 must be a full SHA-256'') (\<lambda>fh.
     after (fingerprint_from_dict E (dget d ''checkpoint'') ''result.checkpoint'') (\<lambda>cp.
     after (input_fingerprints_from E (dget d ''input_fingerprints'')) (\<lambda>ins.
     after (parameters_from E (dget d ''parameters'')) (\<lambda>params.
     after (validate_environment_manifest E (dget d ''environment'')) (\<lambda>env.
     after (waveform_from E (dget d ''waveform'') ''result.waveform'' ''waveform.'') (\<lambda>wf.
     after (number_or_none F (dget d ''wall_time_seconds'') ''result.wall_time_seconds'') (\<lambda>wall.
     after (optional_integer (dget d ''peak_allocated_bytes'') ''result.peak_allocated_bytes'' 0) (\<lambda>al.
     after (optional_integer (dget d ''peak_reserved_bytes'') ''result.peak_reserved_bytes'' 0) (\<lambda>rs.
     after (metrics_from_dict E F (dget d ''self_repeat_metrics'') ''result.self_repeat_metrics'') (\<lambda>me.
     after (metrics_from_dict E F (dget d ''self_repeat_thresholds'') ''result.self_repeat_thresholds'') (\<lambda>th.
     after (repeats_from E F (dget d ''repeat_evidence'')) (\<lambda>ev.
       Inr \<lparr>rm_schema_version = sv, rm_run_id = [], rm_fixture_id = [], rm_deployment_id = [],
            rm_deployment_manifest_sha256 = dh, rm_fixture_manifest_sha256 = fh,
            rm_source_revision = rev, rm_checkpoint = cp, rm_input_fingerprints = ins,
            rm_parameters = params, rm_state = state, rm_environment = env, rm_waveform = wf,
            rm_wall_time_seconds = wall, rm_peak_allocated_bytes = al, rm_peak_reserved_bytes = rs,
            rm_self_repeat_metrics = me, rm_self_repeat_thresholds = th,
            rm_repeat_evidence = ev\<rparr>)))))))))))))))))))"

definition result_from_dict :: "pyenv \<Rightarrow> float_env \<Rightarrow> pyval \<Rightarrow> result_manifest res" where
  "result_from_dict E F v =
     after (mapping E v ''result'' result_keys) (\<lambda>d.
     after (result_body_from E F d) (\<lambda>r.
     after (result_state_checks r) (\<lambda>_.
     after (manifest_string (dget d ''run_id'') ''result.run_id'') (\<lambda>ri.
     after (manifest_string (dget d ''fixture_id'') ''result.fixture_id'') (\<lambda>xi.
     after (manifest_string (dget d ''deployment_id'') ''result.deployment_id'') (\<lambda>di.
       Inr (r\<lparr>rm_run_id := ri, rm_fixture_id := xi, rm_deployment_id := di\<rparr>)))))))"

definition result_to_dict :: "result_manifest \<Rightarrow> pyval" where
  "result_to_dict r =
     PDict [(PStr ''schema_version'', PInt (rm_schema_version r)), (PStr ''run_id'', PStr (rm_run_id r)),
            (PStr ''fixture_id'', PStr (rm_fixture_id r)),
            (PStr ''deployment_id'', PStr (rm_deployment_id r)),
            (PStr ''deployment_manifest_sha256'', PStr (rm_deployment_manifest_sha256 r)),
            (PStr ''fixture_manifest_sha256'', PStr (rm_fixture_manifest_sha256 r)),
            (PStr ''source_revision'', PStr (rm_source_revision r)),
            (PStr ''checkpoint'', fingerprint_to_dict (rm_checkpoint r)),
            (PStr ''input_fingerprints'',
               PDict (map (\<lambda>(k, f). (PStr k, fingerprint_to_dict f)) (rm_input_fingerprints r))),
            (PStr ''parameters'', PDict (rm_parameters r)), (PStr ''state'', PStr (rm_state r)),
            (PStr ''environment'', rm_environment r),
            (PStr ''waveform'', waveform_to_dict (rm_waveform r)),
            (PStr ''wall_time_seconds'', opt_float (rm_wall_time_seconds r)),
            (PStr ''peak_allocated_bytes'', opt_int (rm_peak_allocated_bytes r)),
            (PStr ''peak_reserved_bytes'', opt_int (rm_peak_reserved_bytes r)),
            (PStr ''self_repeat_metrics'', metrics_to_dict (rm_self_repeat_metrics r)),
            (PStr ''self_repeat_thresholds'', metrics_to_dict (rm_self_repeat_thresholds r)),
            (PStr ''repeat_evidence'', PList (map repeat_to_dict (rm_repeat_evidence r)))]"

section \<open>Binding a result to its evidence\<close>

text \<open>\<open>{item.role: item.fingerprint for item in inputs}\<close>.\<close>

definition fixture_inputs :: "fixture_manifest \<Rightarrow> (string \<times> fingerprint) list" where
  "fixture_inputs x =
     fold (\<lambda>i. AList.update (fi_role i) (fi_fingerprint i)) (fx_inputs x) []"

definition same_items :: "('k \<times> 'v) list \<Rightarrow> ('k \<times> 'v) list \<Rightarrow> bool" where
  "same_items xs ys = (length xs = length ys \<and> list_all (\<lambda>(k, v). map_of ys k = Some v) xs)"

definition bound_input :: "fixture_manifest \<Rightarrow> string \<Rightarrow> pyval" where
  "bound_input x role =
     (case map_of (fixture_inputs x) role of None \<Rightarrow> PNone | Some f \<Rightarrow> fingerprint_to_dict f)"

definition expected_parameters :: "deployment_manifest \<Rightarrow> fixture_manifest \<Rightarrow> (string \<times> pyval) list" where
  "expected_parameters d x =
     [(''task'', PStr (fx_task x)), (''variant'', PStr (dm_variant d)),
      (''precision'', PStr (dm_precision d)), (''video'', bound_input x ''video''),
      (''audio'', bound_input x ''reference_audio''),
      (''duration_seconds'', PFloat (FFin (fx_duration_seconds x))),
      (''cfg_strength'', PFloat (FFin (fx_guidance_scale x))), (''num_steps'', PInt (fx_num_steps x)),
      (''seed'', PInt (fx_seed x)), (''skip_video_composite'', PBool False),
      (''mask_away_clip'', PBool False),
      (''output'', PDict [(PStr ''path_redacted'', PBool True), (PStr ''repeat_specific'', PBool True)]),
      (''prompt'', bound_input x ''prompt''), (''negative_prompt'', PNone)]"

definition parameter_message :: "string \<Rightarrow> string" where
  "parameter_message name = ''result parameter '' @ name @ '' does not match sealed evidence''"

definition verify_result_bindings ::
  "pyenv \<Rightarrow> deployment_manifest \<Rightarrow> fixture_manifest \<Rightarrow> result_manifest \<Rightarrow> unit res"
where
  "verify_result_bindings E d x r =
     checks
       ([schema_check (rm_state r \<noteq> ''completed'')
           ''only completed baseline results can be binding-verified'',
         schema_check (rm_deployment_id r \<noteq> dm_deployment_id d \<or> rm_fixture_id r \<noteq> fx_fixture_id x)
           ''result identity does not match deployment/fixture'',
         schema_check (rm_source_revision r \<noteq> dm_source_revision d)
           ''result source revision does not match deployment'',
         schema_check (rm_deployment_manifest_sha256 r \<noteq> manifest_sha256 E (deployment_to_dict d))
           ''result deployment manifest fingerprint does not match'',
         schema_check (rm_fixture_manifest_sha256 r \<noteq> manifest_sha256 E (fixture_to_dict x))
           ''result fixture manifest fingerprint does not match'',
         schema_check (fp_status (dm_checkpoint d) \<noteq> ''verified'' \<or> rm_checkpoint r \<noteq> dm_checkpoint d)
           ''result checkpoint fingerprint does not match sealed deployment'',
         schema_check (list_ex (\<lambda>f. fp_status (snd f) \<noteq> ''verified'') (fixture_inputs x))
           ''fixture is not sealed'',
         schema_check (\<not> same_items (rm_input_fingerprints r) (fixture_inputs x))
           ''result inputs do not match sealed fixture'',
         schema_check (\<not> same_keys (rm_parameters r) (map fst (expected_parameters d x)))
           ''result parameters contain missing or unexpected fields'']
        @ map (\<lambda>(name, v). schema_check (\<not> py_eq (dget (rm_parameters r) name) v) (parameter_message name))
            (expected_parameters d x))"

section \<open>The host\<close>

text \<open>
  The part of the host the prerequisite check looks at: which paths are files and directories,
  the bytes of a file, what \<open>git\<close> prints (\<open>None\<close> when it cannot run or fails), and whether CUDA
  is available.
\<close>

record host =
  hp_is_dir :: "string \<Rightarrow> bool"
  hp_is_file :: "string \<Rightarrow> bool"
  hp_read :: "string \<Rightarrow> string res"
  hp_git :: "string \<Rightarrow> string list \<Rightarrow> string option"
  hp_cuda :: bool

definition path_join :: "string \<Rightarrow> string \<Rightarrow> string" where
  "path_join d r = (if startswith r ''/'' then r else d @ ''/'' @ r)"

definition check_weight :: "host \<Rightarrow> string \<Rightarrow> string \<times> fingerprint \<Rightarrow> string list res" where
  "check_weight H dir w =
     (let candidate = path_join dir (fst w) in
      if \<not> hp_is_file H candidate then Inr [''required weight is missing: '' @ fst w]
      else after (fingerprint_file (hp_read H) candidate) (\<lambda>actual.
        Inr (case fingerprint_matches (snd w) actual (''weight '' @ fst w) of
               None \<Rightarrow> [] | Some m \<Rightarrow> [m])))"

fun check_weights :: "host \<Rightarrow> string \<Rightarrow> (string \<times> fingerprint) list \<Rightarrow> string list res" where
  "check_weights H dir [] = Inr []"
| "check_weights H dir (w # ws) =
     after (check_weight H dir w) (\<lambda>rs. after (check_weights H dir ws) (\<lambda>rest. Inr (rs @ rest)))"

definition required_weights :: "deployment_manifest \<Rightarrow> (string \<times> fingerprint) list" where
  "required_weights d =
     (dm_checkpoint_relative_path d, dm_checkpoint d)
     # map (\<lambda>w. (ew_relative_path w, ew_fingerprint w)) (dm_external_weights d)"

definition validate_materialized_weights :: "host \<Rightarrow> deployment_manifest \<Rightarrow> string \<Rightarrow> string list res" where
  "validate_materialized_weights H d dir = check_weights H dir (required_weights d)"

definition rstrip_slash :: "string \<Rightarrow> string" where
  "rstrip_slash s = rev (dropWhile (\<lambda>c. c = CHR ''/'') (rev s))"

definition is_supported_origin :: "string \<Rightarrow> bool" where
  "is_supported_origin s =
     (rstrip_slash s \<in>
        {''https://github.com/xiaomi-research/controlfoley'',
         ''https://github.com/xiaomi-research/controlfoley.git'',
         ''git@github.com:xiaomi-research/controlfoley'',
         ''git@github.com:xiaomi-research/controlfoley.git'',
         ''ssh://git@github.com/xiaomi-research/controlfoley'',
         ''ssh://git@github.com/xiaomi-research/controlfoley.git''})"

definition git_revision :: "host \<Rightarrow> string \<Rightarrow> string option" where
  "git_revision H dir = map_option strip (hp_git H dir [''rev-parse'', ''HEAD''])"

definition git_output :: "host \<Rightarrow> string \<Rightarrow> string list \<Rightarrow> string option" where
  "git_output H dir args = map_option strip (hp_git H dir args)"

definition origin_diagnostic :: "string \<Rightarrow> string" where
  "origin_diagnostic s =
     ''ControlFoley source origin matches supported repository: '' @
     (if is_supported_origin s then ''True'' else ''False'')"

definition source_reasons :: "host \<Rightarrow> string option \<Rightarrow> string list \<times> string list" where
  "source_reasons H source =
     (case source of
        None \<Rightarrow> ([''CONTROLFOLEY_SOURCE_DIR is not set''], [])
      | Some dir \<Rightarrow>
          if \<not> hp_is_dir H dir then ([''ControlFoley source directory does not exist''], [])
          else
            ((if hp_is_file H (path_join dir ''demo.py'') then []
              else [''ControlFoley source directory is missing demo.py'']) @
             (case git_revision H dir of
                None \<Rightarrow> [''ControlFoley source revision cannot be read with git'']
              | Some r \<Rightarrow> if r \<noteq> supported_revision
                  then [''ControlFoley source revision does not match the supported lock''] else []) @
             (case git_output H dir [''status'', ''--porcelain''] of
                None \<Rightarrow> [''ControlFoley source dirty state cannot be read with git'']
              | Some dirty \<Rightarrow> if dirty \<noteq> [] then [''ControlFoley source tree is dirty''] else []) @
             (case git_output H dir [''remote'', ''get-url'', ''origin''] of
                None \<Rightarrow> [''ControlFoley source origin is unavailable'']
              | Some s \<Rightarrow> if is_supported_origin s then []
                  else [''ControlFoley source origin does not match the supported repository'']),
             (case git_output H dir [''remote'', ''get-url'', ''origin''] of
                None \<Rightarrow> [] | Some s \<Rightarrow> [origin_diagnostic s])))"

definition weights_reasons :: "host \<Rightarrow> string option \<Rightarrow> deployment_manifest option \<Rightarrow> string list res" where
  "weights_reasons H weights dep =
     (case weights of
        None \<Rightarrow> Inr [''CONTROLFOLEY_WEIGHTS_DIR is not set'']
      | Some dir \<Rightarrow>
          if \<not> hp_is_dir H dir then Inr [''ControlFoley weights directory does not exist'']
          else (case dep of None \<Rightarrow> Inr [] | Some d \<Rightarrow> validate_materialized_weights H d dir))"

record gpu_prerequisites =
  gp_available :: bool
  gp_reasons :: "string list"
  gp_diagnostics :: "string list"

definition detect_gpu_prerequisites ::
  "host \<Rightarrow> string option \<Rightarrow> string option \<Rightarrow> deployment_manifest option \<Rightarrow> gpu_prerequisites res"
where
  "detect_gpu_prerequisites H source weights dep =
     after (weights_reasons H weights dep) (\<lambda>ws.
       let reasons = fst (source_reasons H source) @ ws @ (if hp_cuda H then [] else [''CUDA is unavailable''])
       in Inr \<lparr>gp_available = (reasons = []), gp_reasons = reasons,
               gp_diagnostics = snd (source_reasons H source)\<rparr>)"

definition require_gpu_prerequisites ::
  "host \<Rightarrow> string option \<Rightarrow> string option \<Rightarrow> deployment_manifest option \<Rightarrow> gpu_prerequisites res"
where
  "require_gpu_prerequisites H source weights dep =
     after (detect_gpu_prerequisites H source weights dep) (\<lambda>p.
       if gp_available p then Inr p
       else raise GpuPrerequisitesUnavailable
              (''ControlFoley GPU prerequisites unavailable: '' @ join ''; '' (gp_reasons p)))"

end
