(* ===== verification/BaselineProps.thy ===== *)
theory BaselineProps
  imports BaselineResult
begin

text \<open>
  The theorems on the baseline manifests: what the parsers accept is well-formed, printing and
  parsing a manifest gives it back, a completed result carries all its evidence, a result is
  bound to one fixture, and a weights directory that passes holds the declared bytes.
\<close>

section \<open>Well-formed manifests\<close>

lemma schema_check_ok [simp]: "schema_check b m = Inr u \<longleftrightarrow> \<not> b"
  by (simp add: schema_check_def schema_error_def)

lemma schema_check_False [simp]: "schema_check False m = Inr ()"
  by simp

lemma schema_error_not_ok [simp]: "schema_error m \<noteq> Inr x"
  by (simp add: schema_error_def)

lemma dget_Nil: "dget [] k = PNone"
  and dget_Cons: "dget ((PStr a, v) # items) k = (if a = k then v else dget items k)"
  by (simp_all add: dget_def)

definition fingerprint_wf :: "fingerprint \<Rightarrow> bool" where
  "fingerprint_wf f \<longleftrightarrow>
     (fp_status f = ''pending'' \<and> fp_sha256 f = None \<and> fp_size_bytes f = None) \<or>
     (fp_status f = ''verified'' \<and>
      (\<exists>s n. fp_sha256 f = Some s \<and> length s = 64 \<and> list_all hex_lower s \<and> length (remdups s) \<noteq> 1 \<and>
             fp_size_bytes f = Some n \<and> 0 \<le> n))"

lemma fingerprint_from_dict_wf: "fingerprint_from_dict E v name = Inr f \<Longrightarrow> fingerprint_wf f"
  by (auto simp: fingerprint_from_dict_def fingerprint_wf_def full_sha256_def after_eq_Inr Let_def
        manifest_integer_ok split: if_splits pyval.splits)

lemma fingerprint_round_trip [simp]:
  assumes "fingerprint_wf f"
  shows "fingerprint_from_dict E (fingerprint_to_dict f) name = Inr f"
proof -
  have m: "mapping E (fingerprint_to_dict f) name [''status'', ''sha256'', ''size_bytes''] =
      Inr [(PStr ''status'', PStr (fp_status f)), (PStr ''sha256'', opt_str (fp_sha256 f)),
           (PStr ''size_bytes'', opt_int (fp_size_bytes f))]" (is "_ = Inr ?d")
    unfolding fingerprint_to_dict_def by (rule mapping_exact) simp
  have d: "dget ?d ''status'' = PStr (fp_status f)" "dget ?d ''sha256'' = opt_str (fp_sha256 f)"
    "dget ?d ''size_bytes'' = opt_int (fp_size_bytes f)"
    by (simp_all add: dget_Cons)
  have st: "manifest_string (PStr ''pending'') n = Inr ''pending''"
    "manifest_string (PStr ''verified'') n = Inr ''verified''" for n
    by (simp_all add: manifest_string_def strip_def is_space_def code_def)
  from assms show ?thesis
    unfolding fingerprint_wf_def fingerprint_from_dict_def m after_Inr d
    by (cases f) (auto simp: st opt_str_def opt_int_def manifest_integer_ok after_eq_Inr full_sha256_def)
qed

lemma from_items_round_trip:
  assumes "\<And>x i. x \<in> set xs \<Longrightarrow> f (g x) i = Inr x"
  shows "from_items f i (map g xs) = Inr xs"
  using assms by (induction xs arbitrary: i) auto

lemma from_items_all:
  assumes "from_items f i vs = Inr xs" and "\<And>v i x. f v i = Inr x \<Longrightarrow> P x"
  shows "list_all P xs"
  using assms(1) by (induction vs arbitrary: i xs) (auto simp: after_eq_Inr intro: assms(2))

definition weight_wf :: "external_weight \<Rightarrow> bool" where
  "weight_wf w \<longleftrightarrow> strip (ew_relative_path w) \<noteq> [] \<and> \<not> startswith (ew_relative_path w) ''/'' \<and>
     ''..'' \<notin> set (split_on (CHR ''/'') (ew_relative_path w)) \<and> fingerprint_wf (ew_fingerprint w)"

lemma weight_from_dict_wf: "weight_from_dict E v i = Inr w \<Longrightarrow> weight_wf w"
  by (auto simp: weight_from_dict_def weight_wf_def unsafe_relative_def after_eq_Inr manifest_string_ok
        split: if_splits dest: fingerprint_from_dict_wf)

lemma weight_round_trip:
  assumes "weight_wf w" shows "weight_from_dict E (weight_to_dict w) i = Inr w"
proof -
  have m: "mapping E (weight_to_dict w) name [''relative_path'', ''fingerprint''] =
      Inr [(PStr ''relative_path'', PStr (ew_relative_path w)),
           (PStr ''fingerprint'', fingerprint_to_dict (ew_fingerprint w))]" for name
    unfolding weight_to_dict_def by (rule mapping_exact) simp
  have s: "manifest_string (PStr (ew_relative_path w)) n = Inr (ew_relative_path w)" for n
    using assms by (simp add: manifest_string_ok weight_wf_def)
  show ?thesis
    using assms unfolding weight_from_dict_def m after_Inr
    by (simp add: dget_Cons s weight_wf_def unsafe_relative_def)
qed

definition deployment_wf :: "deployment_manifest \<Rightarrow> bool" where
  "deployment_wf d \<longleftrightarrow> dm_schema_version d = 1 \<and> dm_deployment_id d = locked_deployment_id \<and>
     dm_upstream_repository d = supported_repository \<and> dm_source_revision d = supported_revision \<and>
     dm_variant d = ''large_44k'' \<and> dm_precision d = ''fp32'' \<and>
     dm_checkpoint_relative_path d = locked_checkpoint_path \<and> fingerprint_wf (dm_checkpoint d) \<and>
     list_all weight_wf (dm_external_weights d) \<and>
     sort (map ew_relative_path (dm_external_weights d)) = sort external_weight_paths \<and>
     distinct (map ew_relative_path (dm_external_weights d))"

lemma weights_from_value_wf:
  "weights_from_value E v = Inr ws \<Longrightarrow>
     list_all weight_wf ws \<and> sort (map ew_relative_path ws) = sort external_weight_paths \<and>
     distinct (map ew_relative_path ws)"
  by (auto simp: weights_from_value_def after_eq_Inr card_distinct
        intro!: from_items_all [where P = weight_wf] weight_from_dict_wf split: pyval.splits
        intro: card_distinct)

lemma deployment_from_dict_wf: "deployment_from_dict E v = Inr d \<Longrightarrow> deployment_wf d"
  unfolding deployment_from_dict_def after_eq_Inr
  by (clarsimp simp: deployment_wf_def)
     (frule weights_from_value_wf, auto dest: fingerprint_from_dict_wf)


lemma card_image_set: "distinct (map f xs) \<Longrightarrow> card (f ` set xs) = length xs"
  using distinct_card [of "map f xs"] by simp

lemma weights_round_trip:
  assumes "deployment_wf d"
  shows "weights_from_value E (PList (map weight_to_dict (dm_external_weights d))) =
    Inr (dm_external_weights d)"
proof -
  have "from_items (weight_from_dict E) 0 (map weight_to_dict (dm_external_weights d)) =
      Inr (dm_external_weights d)"
    using assms by (intro from_items_round_trip weight_round_trip) (simp add: deployment_wf_def list_all_iff)
  with assms show ?thesis
    by (simp add: weights_from_value_def deployment_wf_def card_image_set)
qed

lemma strip_head:
  assumes "s = c # t" and "\<not> is_space c" and "s = u @ [e]" and "\<not> is_space e"
  shows "strip s = s"
proof -
  from assms have "dropWhile is_space s = s" by simp
  moreover from assms(3,4) have "dropWhile is_space (rev s) = rev s" by simp
  ultimately show ?thesis by (simp add: strip_def)
qed

lemma manifest_string_lit: "strip s \<noteq> [] \<Longrightarrow> manifest_string (PStr s) name = Inr s"
  by (simp add: manifest_string_ok)

lemma strip_Cons_keep: "\<not> is_space c \<Longrightarrow> strip (c # s) \<noteq> []"
  by (simp add: strip_def dropWhile_eq_Nil_conv)

text \<open>The locked texts are not blank.\<close>

lemma locked_texts:
  "strip supported_repository \<noteq> []" "strip supported_revision \<noteq> []" "strip locked_deployment_id \<noteq> []"
  "strip locked_checkpoint_path \<noteq> []" "strip ''large_44k'' \<noteq> []" "strip ''fp32'' \<noteq> []"
  unfolding supported_repository_def supported_revision_def locked_deployment_id_def
    locked_checkpoint_path_def
  by (rule strip_Cons_keep, simp add: is_space_def code_def)+

lemma deployment_round_trip_wf:
  assumes "deployment_wf d"
  shows "deployment_from_dict E (deployment_to_dict d) = Inr d"
proof -
  have m: "mapping E (deployment_to_dict d) ''deployment'' deployment_keys =
      Inr (case deployment_to_dict d of PDict items \<Rightarrow> items)"
    unfolding deployment_to_dict_def pyval.case deployment_keys_def by (rule mapping_exact) simp
  have f: "fingerprint_wf (dm_checkpoint d)" using assms by (simp add: deployment_wf_def)
  show ?thesis
    using assms locked_texts f weights_round_trip [OF assms]
    unfolding deployment_from_dict_def m after_Inr
    unfolding deployment_to_dict_def pyval.case
    by (simp add: dget_Cons manifest_string_lit deployment_wf_def manifest_integer_def)
qed

section \<open>Fixtures\<close>

definition fixture_input_wf :: "fixture_input \<Rightarrow> bool" where
  "fixture_input_wf x \<longleftrightarrow> strip (fi_role x) \<noteq> [] \<and> strip (fi_kind x) \<noteq> [] \<and> fingerprint_wf (fi_fingerprint x)"

lemma fixture_input_from_dict_wf: "fixture_input_from_dict E v i = Inr x \<Longrightarrow> fixture_input_wf x"
  by (auto simp: fixture_input_from_dict_def fixture_input_wf_def after_eq_Inr manifest_string_ok
        dest: fingerprint_from_dict_wf)

lemma fixture_input_round_trip:
  assumes "fixture_input_wf x" shows "fixture_input_from_dict E (fixture_input_to_dict x) i = Inr x"
proof -
  have m: "mapping E (fixture_input_to_dict x) name [''role'', ''kind'', ''fingerprint''] =
      Inr [(PStr ''role'', PStr (fi_role x)), (PStr ''kind'', PStr (fi_kind x)),
           (PStr ''fingerprint'', fingerprint_to_dict (fi_fingerprint x))]" for name
    unfolding fixture_input_to_dict_def by (rule mapping_exact) simp
  show ?thesis
    using assms unfolding fixture_input_from_dict_def m after_Inr
    by (simp add: dget_Cons manifest_string_lit fixture_input_wf_def)
qed

definition fixture_wf :: "fixture_manifest \<Rightarrow> bool" where
  "fixture_wf x \<longleftrightarrow> fx_schema_version x = 1 \<and> strip (fx_fixture_id x) \<noteq> [] \<and> strip (fx_task x) \<noteq> [] \<and>
     0 < fx_duration_seconds x \<and> 0 \<le> fx_guidance_scale x \<and> 0 \<le> fx_seed x \<and> 1 \<le> fx_num_steps x \<and>
     list_all fixture_input_wf (fx_inputs x) \<and> distinct (map fi_role (fx_inputs x)) \<and>
     fx_inputs x \<noteq> [] \<and>
     task_inputs (fx_task x) = Some (map (\<lambda>i. (fi_role i, fi_kind i)) (fx_inputs x))"

lemma fixture_inputs_from_value_wf:
  "fixture_inputs_from_value E task v = Inr xs \<Longrightarrow>
     list_all fixture_input_wf xs \<and> distinct (map fi_role xs) \<and> xs \<noteq> [] \<and>
     task_inputs task = Some (map (\<lambda>i. (fi_role i, fi_kind i)) xs)"
  apply (cases v) apply (auto simp: fixture_inputs_from_value_def after_eq_Inr split: if_splits
        intro!: from_items_all [where P = fixture_input_wf] fixture_input_from_dict_wf
        intro: card_distinct)
  subgoal for vs by (cases vs) (auto simp: after_eq_Inr)
  done

lemma fixture_from_dict_wf: "fixture_from_dict E F v = Inr x \<Longrightarrow> fixture_wf x"
  unfolding fixture_from_dict_def after_eq_Inr
  by (clarsimp simp: fixture_wf_def)
     (frule fixture_inputs_from_value_wf,
      auto simp: manifest_string_ok manifest_integer_ok split: option.splits)

lemma fixture_round_trip_wf:
  assumes "fixture_wf x"
  shows "fixture_from_dict E F (fixture_to_dict x) = Inr x"
proof -
  have m: "mapping E (fixture_to_dict x) ''fixture'' fixture_keys =
      Inr (case fixture_to_dict x of PDict items \<Rightarrow> items)"
    unfolding fixture_to_dict_def pyval.case fixture_keys_def by (rule mapping_exact) simp
  have "from_items (fixture_input_from_dict E) 0 (map fixture_input_to_dict (fx_inputs x)) =
      Inr (fx_inputs x)"
    using assms by (intro from_items_round_trip fixture_input_round_trip) (simp add: fixture_wf_def list_all_iff)
  then have i: "fixture_inputs_from_value E (fx_task x) (PList (map fixture_input_to_dict (fx_inputs x))) =
      Inr (fx_inputs x)"
    using assms by (simp add: fixture_inputs_from_value_def fixture_wf_def card_image_set)
  show ?thesis
    using assms i
    unfolding fixture_from_dict_def m after_Inr
    unfolding fixture_to_dict_def pyval.case
    by (simp add: dget_Cons manifest_string_lit fixture_wf_def manifest_integer_def number_or_none_float)
qed


section \<open>Results\<close>

lemma optional_integer_ok:
  "optional_integer v name m = Inr n \<longleftrightarrow> v = opt_int n \<and> (case n of None \<Rightarrow> True | Some k \<Rightarrow> m \<le> k)"
  by (auto simp: optional_integer_def opt_int_def after_eq_Inr manifest_integer_ok split: option.splits if_splits)

definition waveform_wf :: "waveform \<Rightarrow> bool" where
  "waveform_wf w \<longleftrightarrow> fst ` set w = PStr ` {''channels'', ''samples'', ''sample_rate''} \<and>
     list_all (\<lambda>x. case snd x of None \<Rightarrow> True | Some k \<Rightarrow> 1 \<le> k) w"

lemma waveform_items_ok:
  "waveform_items name items = Inr w \<longleftrightarrow>
     items = map (\<lambda>(k, n). (k, opt_int n)) w \<and>
     list_all (\<lambda>x. case snd x of None \<Rightarrow> True | Some k \<Rightarrow> 1 \<le> k) w"
proof (induction items arbitrary: w)
  case Nil
  then show ?case by auto
next
  case (Cons x items)
  then show ?case by (cases x; cases w) (auto simp: after_eq_Inr optional_integer_ok)
qed

lemma waveform_from_ok:
  "waveform_from E v name item = Inr w \<longleftrightarrow> v = waveform_to_dict w \<and> waveform_wf w"
proof -
  have keys: "same_keys (map (\<lambda>(k, n). (k, opt_int n)) w) [''channels'', ''samples'', ''sample_rate''] \<longleftrightarrow>
      fst ` set w = PStr ` {''channels'', ''samples'', ''sample_rate''}"
  proof -
    have "map fst (map (\<lambda>(k, n). (k, opt_int n)) w) = map fst w" by (induction w) auto
    then show ?thesis unfolding same_keys_def by simp
  qed
  show ?thesis
    unfolding waveform_from_def after_eq_Inr waveform_items_ok mapping_ok waveform_to_dict_def
      waveform_wf_def
    using keys by blast
qed

definition repeat_wf :: "repeat_evidence \<Rightarrow> bool" where
  "repeat_wf e \<longleftrightarrow> fingerprint_wf (re_output e) \<and> waveform_wf (re_waveform e) \<and>
     (case re_peak_allocated_bytes e of None \<Rightarrow> True | Some k \<Rightarrow> 0 \<le> k) \<and>
     (case re_peak_reserved_bytes e of None \<Rightarrow> True | Some k \<Rightarrow> 0 \<le> k)"

lemma repeat_from_dict_wf: "repeat_from_dict E F v i = Inr e \<Longrightarrow> repeat_wf e"
  unfolding repeat_from_dict_def after_eq_Inr
  by (clarsimp simp: repeat_wf_def optional_integer_ok waveform_from_ok fingerprint_from_dict_wf)

lemma repeat_round_trip:
  assumes "repeat_wf e" shows "repeat_from_dict E F (repeat_to_dict e) i = Inr e"
proof -
  have m: "mapping E (repeat_to_dict e) name repeat_keys =
      Inr (case repeat_to_dict e of PDict items \<Rightarrow> items)" for name
    unfolding repeat_to_dict_def pyval.case repeat_keys_def by (rule mapping_exact) simp
  have w: "waveform_from E (waveform_to_dict (re_waveform e)) a b = Inr (re_waveform e)" for a b
    using assms by (simp add: waveform_from_ok repeat_wf_def)
  have o: "optional_integer (opt_int (re_peak_allocated_bytes e)) a 0 = Inr (re_peak_allocated_bytes e)"
    "optional_integer (opt_int (re_peak_reserved_bytes e)) a 0 = Inr (re_peak_reserved_bytes e)" for a
    using assms by (simp_all add: optional_integer_ok repeat_wf_def)
  show ?thesis
    using assms unfolding repeat_from_dict_def m after_Inr
    unfolding repeat_to_dict_def pyval.case
    by (simp add: dget_Cons w o repeat_wf_def)
qed

lemma platform_items_ok:
  "platform_items items = Inr ps \<Longrightarrow> platform_items ps = Inr ps \<and> map fst ps = map fst items"
proof (induction items arbitrary: ps)
  case Nil
  then show ?case by simp
next
  case (Cons x items)
  then show ?case by (cases x) (auto simp: after_eq_Inr manifest_string_ok)
qed

text \<open>The environment record, in the form it is kept in.\<close>

definition environment_wf :: "pyval \<Rightarrow> bool" where
  "environment_wf v \<longleftrightarrow>
     (\<exists>ca pv ps td cd n. v = PDict [(PStr ''schema_version'', PInt 1), (PStr ''captured_at'', PStr ca),
          (PStr ''python_version'', PStr pv), (PStr ''platform'', PDict ps), (PStr ''torch'', PDict td),
          (PStr ''cuda'', PDict cd)] \<and> strip ca \<noteq> [] \<and> strip pv \<noteq> [] \<and>
        same_keys ps [''system'', ''release'', ''machine''] \<and>
        (\<forall>x \<in> set ps. \<exists>s. snd x = PStr s \<and> strip s \<noteq> []) \<and>
        same_keys td [''installed'', ''version''] \<and> is_bool (dget td ''installed'') \<and>
        (is_str (dget td ''version'') \<or> dget td ''version'' = PNone \<and> dget td ''installed'' \<noteq> PBool True) \<and>
        same_keys cd [''available'', ''device_count''] \<and> is_bool (dget cd ''available'') \<and>
        dget cd ''device_count'' = PInt n \<and> 0 \<le> n \<and> (dget cd ''available'' = PBool True \<longrightarrow> 1 \<le> n))"

lemma platform_items_same: "platform_items ps = Inr ps \<longleftrightarrow> (\<forall>x \<in> set ps. \<exists>s. snd x = PStr s \<and> strip s \<noteq> [])"
proof (induction ps)
  case (Cons x ps)
  then show ?case by (cases x) (auto simp: after_eq_Inr manifest_string_ok)
qed simp

lemma environment_from_wf:
  assumes "validate_environment_manifest E v = Inr e" shows "environment_wf e"
proof -
  from assms obtain d pd td cd n ps ca pv where
    d: "dget d ''schema_version'' = PInt 1" "dget d ''captured_at'' = PStr ca" "strip ca \<noteq> []"
       "dget d ''python_version'' = PStr pv" "strip pv \<noteq> []"
    and pd: "same_keys pd [''system'', ''release'', ''machine'']"
    and td: "same_keys td [''installed'', ''version'']"
    and cd: "same_keys cd [''available'', ''device_count'']"
    and t: "is_bool (dget td ''installed'')"
      "dget td ''version'' = PNone \<or> is_str (dget td ''version'')"
      "true_bool (dget td ''installed'') \<longrightarrow> dget td ''version'' \<noteq> PNone"
    and c: "is_bool (dget cd ''available'')" "dget cd ''device_count'' = PInt n" "0 \<le> n"
      "true_bool (dget cd ''available'') \<longrightarrow> \<not> n < 1"
    and ps: "platform_items pd = Inr ps"
    and e: "e = PDict [(PStr ''schema_version'', PInt 1), (PStr ''captured_at'', PStr ca),
                   (PStr ''python_version'', PStr pv), (PStr ''platform'', PDict ps),
                   (PStr ''torch'', PDict td), (PStr ''cuda'', PDict cd)]" (is "_ = PDict ?items")
    unfolding validate_environment_manifest_def after_eq_Inr mapping_ok manifest_integer_ok
      manifest_string_ok schema_check_ok
    by auto
  have "map fst ps = map fst pd" using platform_items_ok [OF ps] by simp
  with pd have pd': "same_keys ps [''system'', ''release'', ''machine'']" by (simp only: same_keys_def)
  have pi: "\<forall>x \<in> set ps. \<exists>s. snd x = PStr s \<and> strip s \<noteq> []"
    using platform_items_ok [OF ps] unfolding platform_items_same by blast
  have v: "is_str (dget td ''version'') \<or> dget td ''version'' = PNone \<and> dget td ''installed'' \<noteq> PBool True"
    using t by (auto simp: true_bool_def)
  have n: "dget cd ''available'' = PBool True \<longrightarrow> 1 \<le> n" using c by (auto simp: true_bool_def)
  show ?thesis
    unfolding environment_wf_def
    by (intro exI conjI, rule e) (rule d pd' pi td t(1) v cd c(1-3) n)+
qed

lemma environment_wf_iff: "validate_environment_manifest E v = Inr v \<longleftrightarrow> environment_wf v"
proof
  show "validate_environment_manifest E v = Inr v \<Longrightarrow> environment_wf v" by (rule environment_from_wf)
next
  assume "environment_wf v"
  then show "validate_environment_manifest E v = Inr v"
    unfolding environment_wf_def
  proof (elim exE conjE)
    fix ca pv ps td cd n
    assume v: "v = PDict [(PStr ''schema_version'', PInt 1), (PStr ''captured_at'', PStr ca),
          (PStr ''python_version'', PStr pv), (PStr ''platform'', PDict ps), (PStr ''torch'', PDict td),
          (PStr ''cuda'', PDict cd)]" (is "_ = PDict ?items")
      and s: "strip ca \<noteq> []" "strip pv \<noteq> []" and k: "same_keys ps [''system'', ''release'', ''machine'']"
        "same_keys td [''installed'', ''version'']" "same_keys cd [''available'', ''device_count'']"
      and p: "\<forall>x \<in> set ps. \<exists>s. snd x = PStr s \<and> strip s \<noteq> []"
      and t: "is_bool (dget td ''installed'')" "is_bool (dget cd ''available'')" "dget cd ''device_count'' = PInt n" "0 \<le> n"
        "is_str (dget td ''version'') \<or> dget td ''version'' = PNone \<and> dget td ''installed'' \<noteq> PBool True"
        "dget cd ''available'' = PBool True \<longrightarrow> 1 \<le> n"
    have m: "mapping E (PDict ?items) ''environment'' environment_keys = Inr ?items"
      unfolding environment_keys_def by (rule mapping_exact) simp
    have mm: "mapping E (PDict ps) n [''system'', ''release'', ''machine''] = Inr ps"
      "mapping E (PDict td) n [''installed'', ''version''] = Inr td"
      "mapping E (PDict cd) n [''available'', ''device_count''] = Inr cd" for n
      using k by (simp_all only: mapping_ok simp_thms)
    have nn: "is_str w \<Longrightarrow> w \<noteq> PNone" for w by auto
    show "validate_environment_manifest E v = Inr v"
      unfolding v validate_environment_manifest_def m after_Inr
      using s t p [folded platform_items_same] nn
      by (auto simp: dget_Cons mm manifest_integer_def manifest_string_lit true_bool_def)
  qed
qed

lemma environment_round_trip:
  "validate_environment_manifest E v = Inr e \<Longrightarrow> validate_environment_manifest E e = Inr e"
  unfolding environment_wf_iff by (rule environment_from_wf)

lemma metric_values_names: "metric_values F d name ms = Inr qs \<Longrightarrow> map fst qs = ms"
  by (induction ms arbitrary: qs) (auto simp: after_eq_Inr)

lemma metric_values_of:
  "(\<And>m q. (m, q) \<in> set qs \<Longrightarrow> dget d m = opt_float q) \<Longrightarrow> metric_values F d name (map fst qs) = Inr qs"
proof (induction qs)
  case Nil
  then show ?case by simp
next
  case (Cons x qs)
  obtain a b where x: "x = (a, b)" by (cases x)
  from Cons.prems x have d: "dget d a = opt_float b" by simp
  have "metric_values F d name (map fst qs) = Inr qs" by (rule Cons.IH) (simp add: Cons.prems)
  with d show ?case by (simp add: x)
qed

lemma dget_map:
  "distinct (map fst qs) \<Longrightarrow> (m, q) \<in> set qs \<Longrightarrow> dget (map (\<lambda>(m, q). (PStr m, f q)) qs) m = f q"
  by (induction qs) (auto simp: dget_Cons image_iff)

lemma metrics_from_dict_names: "metrics_from_dict E F v name = Inr qs \<Longrightarrow> map fst qs = metric_names"
  by (auto simp: metrics_from_dict_def after_eq_Inr dest: metric_values_names)

lemma metrics_round_trip:
  assumes "map fst qs = metric_names"
  shows "metrics_from_dict E F (metrics_to_dict qs) name = Inr qs"
proof -
  have dist: "distinct (map fst qs)" unfolding assms metric_names_def by simp
  have "map fst (map (\<lambda>(m, q). (PStr m, opt_float q)) qs) = map PStr (map fst qs)" by (induction qs) auto
  then have m: "mapping E (metrics_to_dict qs) name metric_names = Inr (map (\<lambda>(m, q). (PStr m, opt_float q)) qs)"
    unfolding metrics_to_dict_def assms by (rule mapping_exact)
  have "metric_values F (map (\<lambda>(m, q). (PStr m, opt_float q)) qs) name (map fst qs) = Inr qs"
    by (intro metric_values_of dget_map dist)
  with m show ?thesis by (simp add: metrics_from_dict_def assms)
qed

definition named_fingerprint_wf :: "string \<times> fingerprint \<Rightarrow> bool" where
  "named_fingerprint_wf x \<longleftrightarrow> strip (fst x) \<noteq> [] \<and> fingerprint_wf (snd x)"

lemma input_fingerprints_items_wf:
  "input_fingerprints_items E items = Inr fs \<Longrightarrow>
     list_all named_fingerprint_wf fs \<and> length fs = length items"
proof (induction items arbitrary: fs)
  case Nil
  then show ?case by simp
next
  case (Cons x items)
  then show ?case
    by (cases x) (auto simp: after_eq_Inr manifest_string_ok named_fingerprint_wf_def
          dest: fingerprint_from_dict_wf)
qed

lemma input_fingerprints_items_round_trip:
  "list_all named_fingerprint_wf fs \<Longrightarrow>
     input_fingerprints_items E (map (\<lambda>(k, f). (PStr k, fingerprint_to_dict f)) fs) = Inr fs"
  by (induction fs) (auto simp: named_fingerprint_wf_def manifest_string_lit)

definition result_wf :: "pyenv \<Rightarrow> result_manifest \<Rightarrow> bool" where
  "result_wf E r \<longleftrightarrow> rm_schema_version r = 1 \<and>
     rm_state r \<in> {''planned'', ''completed'', ''failed''} \<and> rm_source_revision r = supported_revision \<and>
     (\<forall>s \<in> {rm_deployment_manifest_sha256 r, rm_fixture_manifest_sha256 r}. length s = 64 \<and> list_all hex_lower s) \<and>
     fingerprint_wf (rm_checkpoint r) \<and> rm_input_fingerprints r \<noteq> [] \<and>
     list_all named_fingerprint_wf (rm_input_fingerprints r) \<and>
     (\<forall>v \<in> snd ` set (rm_parameters r). \<not> contains (pystr E v) ''/'' \<and> \<not> contains (pystr E v) [CHR 0x5C]) \<and>
     environment_wf (rm_environment r) \<and>
     waveform_wf (rm_waveform r) \<and>
     (case rm_peak_allocated_bytes r of None \<Rightarrow> True | Some k \<Rightarrow> 0 \<le> k) \<and>
     (case rm_peak_reserved_bytes r of None \<Rightarrow> True | Some k \<Rightarrow> 0 \<le> k) \<and>
     map fst (rm_self_repeat_metrics r) = metric_names \<and>
     map fst (rm_self_repeat_thresholds r) = metric_names \<and> list_all repeat_wf (rm_repeat_evidence r)"

lemma result_wf_code: "result_wf E r \<longleftrightarrow> rm_schema_version r = 1 \<and>
     rm_state r \<in> {''planned'', ''completed'', ''failed''} \<and> rm_source_revision r = supported_revision \<and>
     full_sha256 (rm_deployment_manifest_sha256 r) \<and> full_sha256 (rm_fixture_manifest_sha256 r) \<and>
     fingerprint_wf (rm_checkpoint r) \<and> rm_input_fingerprints r \<noteq> [] \<and>
     list_all named_fingerprint_wf (rm_input_fingerprints r) \<and>
     \<not> list_ex (has_path E) (map snd (rm_parameters r)) \<and>
     validate_environment_manifest E (rm_environment r) = Inr (rm_environment r) \<and>
     waveform_wf (rm_waveform r) \<and>
     (case rm_peak_allocated_bytes r of None \<Rightarrow> True | Some k \<Rightarrow> 0 \<le> k) \<and>
     (case rm_peak_reserved_bytes r of None \<Rightarrow> True | Some k \<Rightarrow> 0 \<le> k) \<and>
     map fst (rm_self_repeat_metrics r) = metric_names \<and>
     map fst (rm_self_repeat_thresholds r) = metric_names \<and> list_all repeat_wf (rm_repeat_evidence r)"
proof -
  have p: "\<not> list_ex (has_path E) (map snd ps) \<longleftrightarrow>
      (\<forall>v \<in> snd ` set ps. \<not> contains (pystr E v) ''/'' \<and> \<not> contains (pystr E v) [CHR 0x5C])" for ps
    by (auto simp: list_ex_iff has_path_def)
  have h: "full_sha256 a \<and> full_sha256 b \<and> X \<longleftrightarrow> (\<forall>s \<in> {a, b}. length s = 64 \<and> list_all hex_lower s) \<and> X" for a b X
    by (auto simp: full_sha256_def)
  show ?thesis unfolding result_wf_def environment_wf_iff p h ..
qed

lemma result_state_checks_ids:
  "result_state_checks (r\<lparr>rm_run_id := a, rm_fixture_id := b, rm_deployment_id := c\<rparr>) = result_state_checks r"
  by (simp add: result_state_checks_def core_absent_def)

lemma full_sha256_not_blank: "full_sha256 s \<Longrightarrow> strip s \<noteq> []"
  by (cases s) (auto simp: full_sha256_def intro!: strip_Cons_keep hex_lower_facts(7))

lemma result_digest_ok: "result_digest v name m = Inr s \<longleftrightarrow> v = PStr s \<and> full_sha256 s"
  by (auto simp: result_digest_def after_eq_Inr manifest_string_ok full_sha256_not_blank)

lemma input_fingerprints_from_wf:
  "input_fingerprints_from E v = Inr fs \<Longrightarrow> list_all named_fingerprint_wf fs \<and> fs \<noteq> []"
  by (cases v) (auto simp: input_fingerprints_from_def split: if_splits dest!: input_fingerprints_items_wf)

lemma parameters_from_ok: "parameters_from E v = Inr ps \<longleftrightarrow> v = PDict ps \<and> \<not> list_ex (has_path E) (map snd ps)"
  by (auto simp: parameters_from_def split: pyval.splits if_splits)

lemma repeats_from_wf: "repeats_from E F v = Inr es \<Longrightarrow> list_all repeat_wf es"
  by (cases v) (auto simp: repeats_from_def intro: from_items_all repeat_from_dict_wf)

lemma repeats_round_trip:
  "list_all repeat_wf es \<Longrightarrow> repeats_from E F (PList (map repeat_to_dict es)) = Inr es"
  by (simp add: repeats_from_def list_all_iff from_items_round_trip repeat_round_trip)

lemma result_body_wf: "result_body_from E F d = Inr r \<Longrightarrow> result_wf E r"
  unfolding result_body_from_def after_eq_Inr schema_check_ok manifest_integer_ok manifest_string_ok
    result_digest_ok waveform_from_ok optional_integer_ok parameters_from_ok sum.inject not_not
  apply (elim exE conjE)
  apply hypsubst
  apply (simp only: result_wf_code result_manifest.select_convs)
  apply (intro conjI)
  apply (assumption | rule refl TrueI not_False_eq_True [THEN iffD2, OF TrueI]
      | erule fingerprint_from_dict_wf environment_round_trip metrics_from_dict_names
      repeats_from_wf input_fingerprints_from_wf [THEN conjunct1] input_fingerprints_from_wf [THEN conjunct2])+
  done

lemma result_wf_ids:
  "result_wf E (r\<lparr>rm_run_id := a, rm_fixture_id := b, rm_deployment_id := c\<rparr>) = result_wf E r"
  by (simp add: result_wf_code)

lemma result_from_dict_wf:
  assumes "result_from_dict E F v = Inr r"
  shows "result_wf E r \<and> result_state_checks r = Inr () \<and> strip (rm_run_id r) \<noteq> [] \<and>
    strip (rm_fixture_id r) \<noteq> [] \<and> strip (rm_deployment_id r) \<noteq> []"
proof -
  from assms obtain d b ri xi di where "result_body_from E F d = Inr b" "result_state_checks b = Inr ()"
    "strip ri \<noteq> []" "strip xi \<noteq> []" "strip di \<noteq> []"
    "r = b\<lparr>rm_run_id := ri, rm_fixture_id := xi, rm_deployment_id := di\<rparr>"
    unfolding result_from_dict_def after_eq_Inr manifest_string_ok by auto
  then show ?thesis by (simp add: result_body_wf result_wf_ids result_state_checks_ids)
qed

lemma state_texts: "strip ''planned'' \<noteq> []" "strip ''completed'' \<noteq> []" "strip ''failed'' \<noteq> []"
  by (rule strip_Cons_keep, simp add: is_space_def code_def)+

lemma result_body_round_trip:
  assumes "result_wf E r"
  shows "result_body_from E F (case result_to_dict r of PDict items \<Rightarrow> items) =
    Inr (r\<lparr>rm_run_id := [], rm_fixture_id := [], rm_deployment_id := []\<rparr>)"
proof -
  note w = assms [unfolded result_wf_code]
  have st: "manifest_string (PStr (rm_state r)) n = Inr (rm_state r)" for n
    using w state_texts by (auto simp: manifest_string_ok)
  have dg: "result_digest (PStr (rm_deployment_manifest_sha256 r)) n m = Inr (rm_deployment_manifest_sha256 r)"
    "result_digest (PStr (rm_fixture_manifest_sha256 r)) n m = Inr (rm_fixture_manifest_sha256 r)" for n m
    using w by (simp_all add: result_digest_ok)
  have ins: "input_fingerprints_from E
      (PDict (map (\<lambda>(k, f). (PStr k, fingerprint_to_dict f)) (rm_input_fingerprints r))) =
      Inr (rm_input_fingerprints r)"
    using w by (simp add: input_fingerprints_from_def input_fingerprints_items_round_trip)
  have pf: "parameters_from E (PDict (rm_parameters r)) = Inr (rm_parameters r)"
    using w by (simp add: parameters_from_ok)
  have wf: "waveform_from E (waveform_to_dict (rm_waveform r)) a b = Inr (rm_waveform r)" for a b
    using w by (simp add: waveform_from_ok)
  have o: "optional_integer (opt_int (rm_peak_allocated_bytes r)) a 0 = Inr (rm_peak_allocated_bytes r)"
    "optional_integer (opt_int (rm_peak_reserved_bytes r)) a 0 = Inr (rm_peak_reserved_bytes r)" for a
    using w by (simp_all add: optional_integer_ok)
  have me: "metrics_from_dict E F (metrics_to_dict (rm_self_repeat_metrics r)) n = Inr (rm_self_repeat_metrics r)"
    "metrics_from_dict E F (metrics_to_dict (rm_self_repeat_thresholds r)) n = Inr (rm_self_repeat_thresholds r)" for n
    using w by (simp_all add: metrics_round_trip)
  have re: "repeats_from E F (PList (map repeat_to_dict (rm_repeat_evidence r))) = Inr (rm_repeat_evidence r)"
    using w by (simp add: repeats_round_trip)
  have sm: "rm_schema_version r = 1" "rm_state r \<in> {''planned'', ''completed'', ''failed''}"
    "rm_source_revision r = supported_revision" "fingerprint_wf (rm_checkpoint r)"
    "validate_environment_manifest E (rm_environment r) = Inr (rm_environment r)"
    using w by blast+
  have sr: "manifest_string (PStr supported_revision) n = Inr supported_revision" for n
    by (simp add: manifest_string_ok locked_texts)
  have si: "manifest_integer (PInt 1) n 1 = Inr 1" for n by (simp add: manifest_integer_ok)
  have sc: "schema_check (rm_state r \<noteq> ''planned'' \<and> rm_state r \<noteq> ''completed'' \<and>
      rm_state r \<noteq> ''failed'') m = Inr ()" for m
    using sm(2) by auto
  show ?thesis
    unfolding result_body_from_def result_to_dict_def pyval.case
    using sm(1,3) by (simp add: dget_Cons st dg ins pf wf o me re sr si sc sm(4,5)
        number_or_none_opt)
qed

lemma result_round_trip_of_wf:
  assumes "result_wf E r" "result_state_checks r = Inr ()" "strip (rm_run_id r) \<noteq> []"
    "strip (rm_fixture_id r) \<noteq> []" "strip (rm_deployment_id r) \<noteq> []"
  shows "result_from_dict E F (result_to_dict r) = Inr r"
proof -
  have m: "mapping E (result_to_dict r) ''result'' result_keys =
      Inr (case result_to_dict r of PDict items \<Rightarrow> items)"
    unfolding result_to_dict_def pyval.case result_keys_def by (rule mapping_exact) simp
  have ids: "dget (case result_to_dict r of PDict items \<Rightarrow> items) ''run_id'' = PStr (rm_run_id r)"
    "dget (case result_to_dict r of PDict items \<Rightarrow> items) ''fixture_id'' = PStr (rm_fixture_id r)"
    "dget (case result_to_dict r of PDict items \<Rightarrow> items) ''deployment_id'' = PStr (rm_deployment_id r)"
    by (simp_all add: result_to_dict_def dget_Cons)
  show ?thesis
    unfolding result_from_dict_def m after_Inr result_body_round_trip [OF assms(1)] ids
    using assms by (simp add: manifest_string_lit result_state_checks_ids)
qed

section \<open>Bindings\<close>

lemma py_eq_str: "py_eq w (PStr t) \<longleftrightarrow> w = PStr t"
  by (cases w) (auto simp: numeric_value_def split: pyfloat.splits elim: py_eq.elims)

lemma py_eq_number:
  assumes "py_eq w v" and "numeric_value v" shows "num_value w = num_value v"
proof (cases w)
  case (PFloat f)
  with assms show ?thesis by (cases f; cases v) (auto simp: numeric_value_def finite_float_def num_value_def
        split: if_splits pyfloat.splits)
qed (use assms in \<open>cases v; auto simp: numeric_value_def split: if_splits\<close>)+

lemma fixture_inputs_distinct:
  assumes "distinct (map fi_role (fx_inputs x))"
  shows "fixture_inputs x = map (\<lambda>i. (fi_role i, fi_fingerprint i)) (fx_inputs x)"
proof -
  have "distinct (map fi_role xs) \<Longrightarrow> set (map fi_role xs) \<inter> fst ` set acc = {} \<Longrightarrow>
      fold (\<lambda>i. AList.update (fi_role i) (fi_fingerprint i)) xs acc =
      acc @ map (\<lambda>i. (fi_role i, fi_fingerprint i)) xs" for xs acc
  proof (induction xs arbitrary: acc)
    case Nil
    then show ?case by simp
  next
    case (Cons i xs)
    have u: "AList.update (fi_role i) (fi_fingerprint i) acc = acc @ [(fi_role i, fi_fingerprint i)]"
      using Cons.prems by (intro update_new) auto
    with Cons show ?case by simp
  qed
  from this [OF assms, of "[]"] show ?thesis by (simp add: fixture_inputs_def)
qed


text \<open>Two mappings with the same keys that one mapping equals are equal.\<close>

lemma same_items_unique:
  assumes "same_items ins A" "same_items ins B" "map fst A = map fst B"
    and "distinct (map fst ins)" "distinct (map fst A)"
  shows "A = B"
proof -
  have sub: "fst ` set ins \<subseteq> fst ` set A"
    using assms(1) by (auto simp: same_items_def list_all_iff dest!: map_of_SomeD intro: rev_image_eqI)
  have "card (fst ` set ins) = card (fst ` set A)"
    using assms(1) by (simp add: same_items_def card_image_set [OF assms(4)] card_image_set [OF assms(5)])
  then have keys: "fst ` set ins = fst ` set A" by (intro card_subset_eq sub) auto
  have "map_of A k = map_of B k" if "k \<in> fst ` set A" for k
  proof -
    from that keys obtain v where "(k, v) \<in> set ins" by (metis imageE prod.collapse)
    with assms(1,2) show ?thesis unfolding same_items_def list_all_iff by fastforce
  qed
  moreover have "map fst A = map fst B \<Longrightarrow> distinct (map fst A) \<Longrightarrow>
      (\<forall>k \<in> fst ` set A. map_of A k = map_of B k) \<Longrightarrow> A = B" for A B :: "('a \<times> 'b) list"
  proof (induction A arbitrary: B)
    case Nil
    then show ?case by simp
  next
    case (Cons a A)
    then obtain b B' where B: "B = b # B'" by (cases B) auto
    from Cons.prems B have ab: "fst a = fst b" by simp
    moreover from Cons.prems(3) B ab have "snd a = snd b" by (cases a; cases b) auto
    moreover have "A = B'"
    proof (rule Cons.IH)
      show "\<forall>k \<in> fst ` set A. map_of A k = map_of B' k"
      proof
        fix k assume k: "k \<in> fst ` set A"
        from Cons.prems(2) have "fst a \<notin> fst ` set A" by simp
        with k have "k \<noteq> fst a" by blast
        moreover have "map_of (a # A) k = map_of (b # B') k"
          using bspec [OF Cons.prems(3), of k] k unfolding B by (simp only: list.set image_insert insert_iff simp_thms)
        ultimately show "map_of A k = map_of B' k" using ab by (cases a; cases b) (simp only: map_of.simps fun_upd_apply if_False prod.sel)
      qed
    qed (use Cons.prems B in auto)
    ultimately show ?case by (simp add: B prod_eq_iff)
  qed
  ultimately show ?thesis using assms(3,5) by blast
qed

lemma verify_result_bindings_facts:
  assumes "verify_result_bindings E d x r = Inr ()"
  shows "rm_state r = ''completed''" "rm_deployment_id r = dm_deployment_id d"
    "rm_fixture_id r = fx_fixture_id x" "rm_source_revision r = dm_source_revision d"
    "rm_checkpoint r = dm_checkpoint d" "same_items (rm_input_fingerprints r) (fixture_inputs x)"
    "(n, v) \<in> set (expected_parameters d x) \<Longrightarrow> py_eq (dget (rm_parameters r) n) v"
  using assms by (auto simp: verify_result_bindings_def checks_ok)

lemma bound_parameters:
  assumes "verify_result_bindings E d x r = Inr ()"
  shows "dget (rm_parameters r) ''task'' = PStr (fx_task x)"
    "dget (rm_parameters r) ''variant'' = PStr (dm_variant d)"
    "dget (rm_parameters r) ''precision'' = PStr (dm_precision d)"
    "num_value (dget (rm_parameters r) ''duration_seconds'') = fx_duration_seconds x"
    "num_value (dget (rm_parameters r) ''cfg_strength'') = fx_guidance_scale x"
    "num_value (dget (rm_parameters r) ''num_steps'') = of_int (fx_num_steps x)"
    "num_value (dget (rm_parameters r) ''seed'') = of_int (fx_seed x)"
proof -
  note p = verify_result_bindings_facts(7) [OF assms, unfolded expected_parameters_def]
  show "dget (rm_parameters r) ''task'' = PStr (fx_task x)"
    "dget (rm_parameters r) ''variant'' = PStr (dm_variant d)"
    "dget (rm_parameters r) ''precision'' = PStr (dm_precision d)"
    by (rule py_eq_str [THEN iffD1], rule p, simp)+
  note n = py_eq_number [OF p]
  show "num_value (dget (rm_parameters r) ''duration_seconds'') = fx_duration_seconds x"
    using n [of "''duration_seconds''" "PFloat (FFin (fx_duration_seconds x))"]
    by (simp add: numeric_value_def finite_float_def num_value_def [of "PFloat _"])
  show "num_value (dget (rm_parameters r) ''cfg_strength'') = fx_guidance_scale x"
    using n [of "''cfg_strength''" "PFloat (FFin (fx_guidance_scale x))"]
    by (simp add: numeric_value_def finite_float_def num_value_def [of "PFloat _"])
  show "num_value (dget (rm_parameters r) ''num_steps'') = of_int (fx_num_steps x)"
    using n [of "''num_steps''" "PInt (fx_num_steps x)"]
    by (simp add: numeric_value_def num_value_def [of "PInt _"])
  show "num_value (dget (rm_parameters r) ''seed'') = of_int (fx_seed x)"
    using n [of "''seed''" "PInt (fx_seed x)"]
    by (simp add: numeric_value_def num_value_def [of "PInt _"])
qed

lemma checked_weights:
  "check_weights H dir ws = Inr [] \<Longrightarrow> (p, f) \<in> set ws \<Longrightarrow>
     hp_is_file H (path_join dir p) \<and>
     (\<exists>content. hp_read H (path_join dir p) = Inr content \<and> f = fingerprint_bytes content)"
proof (induction ws)
  case Nil
  then show ?case by simp
next
  case (Cons w ws)
  then show ?case
    by (auto simp: after_eq_Inr check_weight_def Let_def fingerprint_file_def fingerprint_matches_def
        split: if_splits)
qed


section \<open>What the state checks leave\<close>

lemma result_state_checks_ok:
  "result_state_checks r = Inr () \<longleftrightarrow>
     \<not> (rm_state r = ''planned'' \<and>
        list_ex Not (core_absent r @ map (\<lambda>m. absent (snd m)) (rm_self_repeat_thresholds r))) \<and>
     \<not> (rm_state r = ''planned'' \<and> rm_repeat_evidence r \<noteq> []) \<and>
     \<not> (rm_state r = ''completed'' \<and> list_ex id (core_absent r)) \<and>
     \<not> (rm_state r = ''completed'' \<and> (fp_status (rm_checkpoint r) \<noteq> ''verified'' \<or>
          list_ex (\<lambda>f. fp_status (snd f) \<noteq> ''verified'') (rm_input_fingerprints r))) \<and>
     \<not> (rm_state r = ''completed'' \<and> length (rm_repeat_evidence r) \<noteq> 2) \<and>
     \<not> (rm_state r = ''completed'' \<and> list_ex incomplete_evidence (rm_repeat_evidence r))"
  by (simp only: result_state_checks_def checks_Cons_ok schema_check_ok checks.simps(1) simp_thms)

text \<open>
  The evidence of a result: a planned one carries no measurement and no repeat; a completed one
  carries every measurement, verified fingerprints, and two repeats, each verified, timed (above zero)
  and measured.
\<close>

definition evidence_wf :: "result_manifest \<Rightarrow> bool" where
  "evidence_wf r \<longleftrightarrow>
     (rm_state r = ''planned'' \<longrightarrow>
        rm_wall_time_seconds r = None \<and> rm_peak_allocated_bytes r = None \<and> rm_peak_reserved_bytes r = None \<and>
        snd ` set (rm_waveform r) \<subseteq> {None} \<and> snd ` set (rm_self_repeat_metrics r) \<subseteq> {None} \<and>
        snd ` set (rm_self_repeat_thresholds r) \<subseteq> {None} \<and> rm_repeat_evidence r = []) \<and>
     (rm_state r = ''completed'' \<longrightarrow>
        rm_wall_time_seconds r \<noteq> None \<and> rm_peak_allocated_bytes r \<noteq> None \<and> rm_peak_reserved_bytes r \<noteq> None \<and>
        None \<notin> snd ` set (rm_waveform r) \<and> None \<notin> snd ` set (rm_self_repeat_metrics r) \<and>
        fp_status (rm_checkpoint r) = ''verified'' \<and>
        (\<forall>f \<in> snd ` set (rm_input_fingerprints r). fp_status f = ''verified'') \<and>
        length (rm_repeat_evidence r) = 2 \<and>
        (\<forall>e \<in> set (rm_repeat_evidence r). fp_status (re_output e) = ''verified'' \<and>
           (\<exists>t > 0. re_wall_time_seconds e = Some t) \<and> re_peak_allocated_bytes e \<noteq> None \<and>
           re_peak_reserved_bytes e \<noteq> None \<and> None \<notin> snd ` set (re_waveform e)))"

lemma list_ex_absent: "list_ex (\<lambda>x. absent (snd x)) xs \<longleftrightarrow> None \<in> snd ` set xs"
  and list_ex_present: "list_ex (\<lambda>x. \<not> absent (snd x)) xs \<longleftrightarrow> \<not> snd ` set xs \<subseteq> {None}"
  by (force simp: list_ex_iff absent_def)+

lemma incomplete_evidence_iff:
  "\<not> incomplete_evidence e \<longleftrightarrow> fp_status (re_output e) = ''verified'' \<and>
     (\<exists>t > 0. re_wall_time_seconds e = Some t) \<and> re_peak_allocated_bytes e \<noteq> None \<and>
     re_peak_reserved_bytes e \<noteq> None \<and> None \<notin> snd ` set (re_waveform e)"
  unfolding incomplete_evidence_def list_ex_absent
  by (cases "re_wall_time_seconds e") (auto simp: absent_def not_le)

lemma core_absent_iff:
  "\<not> list_ex id (core_absent r) \<longleftrightarrow> rm_wall_time_seconds r \<noteq> None \<and> rm_peak_allocated_bytes r \<noteq> None \<and>
     rm_peak_reserved_bytes r \<noteq> None \<and> None \<notin> snd ` set (rm_waveform r) \<and> None \<notin> snd ` set (rm_self_repeat_metrics r)"
  "\<not> list_ex Not (core_absent r @ map (\<lambda>m. absent (snd m)) (rm_self_repeat_thresholds r)) \<longleftrightarrow>
     rm_wall_time_seconds r = None \<and> rm_peak_allocated_bytes r = None \<and> rm_peak_reserved_bytes r = None \<and>
     snd ` set (rm_waveform r) \<subseteq> {None} \<and> snd ` set (rm_self_repeat_metrics r) \<subseteq> {None} \<and>
     snd ` set (rm_self_repeat_thresholds r) \<subseteq> {None}"
proof -
  have m: "list_ex P (map f xs) \<longleftrightarrow> list_ex (\<lambda>x. P (f x)) xs" for P :: "bool \<Rightarrow> bool" and f and xs :: "(string \<times> rat option) list"
    by (induction xs) simp_all
  have w: "list_ex P (map f xs) \<longleftrightarrow> list_ex (\<lambda>x. P (f x)) xs" for P :: "bool \<Rightarrow> bool" and f and xs :: waveform
    by (induction xs) simp_all
  show "\<not> list_ex id (core_absent r) \<longleftrightarrow> rm_wall_time_seconds r \<noteq> None \<and> rm_peak_allocated_bytes r \<noteq> None \<and>
     rm_peak_reserved_bytes r \<noteq> None \<and> None \<notin> snd ` set (rm_waveform r) \<and> None \<notin> snd ` set (rm_self_repeat_metrics r)"
    unfolding core_absent_def list_ex_append m w id_apply list_ex_absent by (simp add: absent_def)
  show "\<not> list_ex Not (core_absent r @ map (\<lambda>m. absent (snd m)) (rm_self_repeat_thresholds r)) \<longleftrightarrow>
     rm_wall_time_seconds r = None \<and> rm_peak_allocated_bytes r = None \<and> rm_peak_reserved_bytes r = None \<and>
     snd ` set (rm_waveform r) \<subseteq> {None} \<and> snd ` set (rm_self_repeat_metrics r) \<subseteq> {None} \<and>
     snd ` set (rm_self_repeat_thresholds r) \<subseteq> {None}"
    unfolding core_absent_def list_ex_append m w list_ex_present by (simp add: absent_def) (simp only: conj_ac)
qed

lemma result_state_checks_iff: "result_state_checks r = Inr () \<longleftrightarrow> evidence_wf r"
proof -
  have e: "\<not> list_ex incomplete_evidence (rm_repeat_evidence r) \<longleftrightarrow> (\<forall>e \<in> set (rm_repeat_evidence r). \<not> incomplete_evidence e)"
    by (auto simp: list_ex_iff)
  have i: "\<not> list_ex (\<lambda>f. fp_status (snd f) \<noteq> ''verified'') (rm_input_fingerprints r) \<longleftrightarrow>
      (\<forall>f \<in> snd ` set (rm_input_fingerprints r). fp_status f = ''verified'')"
    by (auto simp: list_ex_iff)
  have "evidence_wf r \<longleftrightarrow>
     (rm_state r = ''planned'' \<longrightarrow>
        \<not> list_ex Not (core_absent r @ map (\<lambda>m. absent (snd m)) (rm_self_repeat_thresholds r)) \<and> rm_repeat_evidence r = []) \<and>
     (rm_state r = ''completed'' \<longrightarrow> \<not> list_ex id (core_absent r) \<and> fp_status (rm_checkpoint r) = ''verified'' \<and>
        \<not> list_ex (\<lambda>f. fp_status (snd f) \<noteq> ''verified'') (rm_input_fingerprints r) \<and>
        length (rm_repeat_evidence r) = 2 \<and> \<not> list_ex incomplete_evidence (rm_repeat_evidence r))"
    by (simp only: evidence_wf_def core_absent_iff e i incomplete_evidence_iff conj_assoc)
  then show ?thesis unfolding result_state_checks_ok by blast
qed

text \<open>What each reader accepts.\<close>

definition result_accepted :: "pyenv \<Rightarrow> result_manifest \<Rightarrow> bool" where
  "result_accepted E r \<longleftrightarrow> result_wf E r \<and> evidence_wf r \<and> strip (rm_run_id r) \<noteq> [] \<and>
     strip (rm_fixture_id r) \<noteq> [] \<and> strip (rm_deployment_id r) \<noteq> []"

lemma result_accepted_iff: "(\<exists>v. result_from_dict E F v = Inr r) \<longleftrightarrow> result_accepted E r"
  and result_accepted_prints: "result_accepted E r \<longleftrightarrow> result_from_dict E F (result_to_dict r) = Inr r"
proof -
  have a: "result_accepted E r" if "result_from_dict E F v = Inr r" for v
    using result_from_dict_wf [OF that] by (simp add: result_accepted_def result_state_checks_iff)
  have b: "result_from_dict E F (result_to_dict r) = Inr r" if "result_accepted E r"
    using that by (intro result_round_trip_of_wf) (simp_all add: result_accepted_def result_state_checks_iff)
  show "(\<exists>v. result_from_dict E F v = Inr r) \<longleftrightarrow> result_accepted E r"
    "result_accepted E r \<longleftrightarrow> result_from_dict E F (result_to_dict r) = Inr r"
    using a b by blast+
qed

section \<open>A concrete baseline\<close>

definition demo_cf_env :: pyenv where
  "demo_cf_env = \<lparr>float_repr = (\<lambda>_. ''1.0''), str_of = (\<lambda>_. ''1'')\<rparr>"

definition demo_floats :: float_env where
  "demo_floats = \<lparr>fl_of_int = (\<lambda>n. Inr (of_int n)), fl_add = (\<lambda>a b. FFin (a + b))\<rparr>"

definition demo_digest :: string where
  "demo_digest = concat (replicate 32 ''01'')"

definition demo_fingerprint :: fingerprint where
  "demo_fingerprint = verified demo_digest 3"

definition demo_cf_deployment :: deployment_manifest where
  "demo_cf_deployment =
     \<lparr>dm_schema_version = 1, dm_deployment_id = locked_deployment_id,
      dm_upstream_repository = supported_repository, dm_source_revision = supported_revision,
      dm_variant = ''large_44k'', dm_precision = ''fp32'',
      dm_checkpoint_relative_path = locked_checkpoint_path, dm_checkpoint = demo_fingerprint,
      dm_external_weights =
        map (\<lambda>p. \<lparr>ew_relative_path = p, ew_fingerprint = demo_fingerprint\<rparr>) external_weight_paths\<rparr>"

definition demo_fixture :: fixture_manifest where
  "demo_fixture =
     \<lparr>fx_schema_version = 1, fx_fixture_id = ''fixture'', fx_task = ''T2A'', fx_duration_seconds = 8,
      fx_seed = 42, fx_num_steps = 25, fx_guidance_scale = 4,
      fx_inputs = [\<lparr>fi_role = ''prompt'', fi_kind = ''text'', fi_fingerprint = demo_fingerprint\<rparr>]\<rparr>"

definition demo_environment :: pyval where
  "demo_environment =
     PDict [(PStr ''schema_version'', PInt 1), (PStr ''captured_at'', PStr ''now''),
            (PStr ''python_version'', PStr ''3''),
            (PStr ''platform'', PDict [(PStr ''system'', PStr ''s''), (PStr ''release'', PStr ''r''),
                                     (PStr ''machine'', PStr ''m'')]),
            (PStr ''torch'', PDict [(PStr ''installed'', PBool False), (PStr ''version'', PNone)]),
            (PStr ''cuda'', PDict [(PStr ''available'', PBool False), (PStr ''device_count'', PInt 0)])]"

definition demo_waveform :: waveform where
  "demo_waveform = [(PStr ''channels'', Some 1), (PStr ''samples'', Some 2), (PStr ''sample_rate'', Some 3)]"

definition demo_repeat :: repeat_evidence where
  "demo_repeat =
     \<lparr>re_output = demo_fingerprint, re_waveform = demo_waveform, re_wall_time_seconds = Some 1,
      re_peak_allocated_bytes = Some 1, re_peak_reserved_bytes = Some 1\<rparr>"

definition demo_cf_result :: result_manifest where
  "demo_cf_result =
     \<lparr>rm_schema_version = 1, rm_run_id = ''run'', rm_fixture_id = ''fixture'',
      rm_deployment_id = locked_deployment_id, rm_deployment_manifest_sha256 = demo_digest,
      rm_fixture_manifest_sha256 = demo_digest, rm_source_revision = supported_revision,
      rm_checkpoint = demo_fingerprint, rm_input_fingerprints = [(''prompt'', demo_fingerprint)],
      rm_parameters = [], rm_state = ''completed'', rm_environment = demo_environment,
      rm_waveform = demo_waveform, rm_wall_time_seconds = Some 1, rm_peak_allocated_bytes = Some 1,
      rm_peak_reserved_bytes = Some 1, rm_self_repeat_metrics = map (\<lambda>m. (m, Some 0)) metric_names,
      rm_self_repeat_thresholds = map (\<lambda>m. (m, None)) metric_names,
      rm_repeat_evidence = [demo_repeat, demo_repeat]\<rparr>"

lemma demo_digest_ok: "full_sha256 demo_digest" "length (remdups demo_digest) \<noteq> 1"
proof -
  have s: "set demo_digest = {CHR ''0'', CHR ''1''}" by (simp add: demo_digest_def)
  have "length demo_digest = 64" by (simp add: demo_digest_def length_concat sum_list_replicate)
  with s show "full_sha256 demo_digest"
    by (simp add: full_sha256_def list_all_iff hex_lower_def code_def)
  show "length (remdups demo_digest) \<noteq> 1" by (simp add: length_remdups_card_conv s)
qed

lemma demo_fingerprint_wf: "fingerprint_wf demo_fingerprint" and demo_verified: "fp_status demo_fingerprint = ''verified''"
  using demo_digest_ok by (simp_all add: fingerprint_wf_def demo_fingerprint_def verified_def full_sha256_def)

lemma strip_letter: "\<not> is_space c \<Longrightarrow> strip (c # s) = [] \<longleftrightarrow> False"
  by (simp add: strip_Cons_keep)

lemmas visible = strip_letter is_space_def code_def

lemma demo_cf_deployment_wf: "deployment_wf demo_cf_deployment"
proof -
  have "weight_wf \<lparr>ew_relative_path = p, ew_fingerprint = demo_fingerprint\<rparr>"
    if "p \<in> set external_weight_paths" for p
    using that demo_fingerprint_wf
    by (auto simp: external_weight_paths_def weight_wf_def visible unsafe_relative_def startswith_def)
  moreover have "distinct external_weight_paths" by (simp add: external_weight_paths_def)
  ultimately show ?thesis
    using demo_fingerprint_wf
    by (simp add: deployment_wf_def demo_cf_deployment_def list_all_iff comp_def)
qed

lemma demo_fixture_wf: "fixture_wf demo_fixture"
  using demo_fingerprint_wf
  by (simp add: fixture_wf_def demo_fixture_def fixture_input_wf_def visible task_inputs_def)

lemma demo_environment_ok:
  "validate_environment_manifest demo_cf_env demo_environment = Inr demo_environment"
proof -
  have k: "mapping E (PDict items) n ks = Inr items" if "map fst items = map PStr ks" for E items n ks
    by (rule mapping_exact [OF that])
  show ?thesis
    unfolding demo_environment_def validate_environment_manifest_def environment_keys_def
    by (simp add: k dget_Cons manifest_integer_def manifest_string_lit visible is_bool_def true_bool_def)
qed

lemma demo_waveform_wf: "waveform_wf demo_waveform"
  by (simp add: waveform_wf_def demo_waveform_def)

lemma demo_repeat_wf: "repeat_wf demo_repeat" and demo_repeat_complete: "\<not> incomplete_evidence demo_repeat"
  using demo_fingerprint_wf demo_waveform_wf demo_verified
  by (simp_all add: repeat_wf_def demo_repeat_def incomplete_evidence_def absent_def)
    (simp add: demo_waveform_def)

lemma demo_cf_result_parses:
  "result_from_dict demo_cf_env demo_floats (result_to_dict demo_cf_result) = Inr demo_cf_result"
proof (rule result_round_trip_of_wf)
  have n: "map (fst \<circ> (\<lambda>m. (m, q :: rat option))) ms = ms" for q ms by (induction ms) auto
  show "result_wf demo_cf_env demo_cf_result"
    unfolding result_wf_code demo_cf_result_def result_manifest.select_convs
    using demo_digest_ok(1) demo_fingerprint_wf demo_environment_ok demo_waveform_wf demo_repeat_wf
    by (simp add: named_fingerprint_wf_def visible n)
  have "\<not> list_ex id (core_absent demo_cf_result)"
    by (simp add: core_absent_def demo_cf_result_def absent_def demo_waveform_def metric_names_def)
  then show "result_state_checks demo_cf_result = Inr ()"
    unfolding result_state_checks_ok using demo_verified demo_repeat_complete
    by (simp add: demo_cf_result_def)
qed (simp_all add: demo_cf_result_def visible locked_texts)

section \<open>Properties\<close>

text \<open>
  C36. The readers accept exactly the well-formed manifests, whatever value is parsed, and print/parse is
  a round trip: a deployment, fixture or result comes out of \<open>from_dict\<close> for some value if and only if
  it is well formed (locked identities, full digests, the four weights, the task's inputs in order, the
  environment record; a completed result has every measurement, verified fingerprints and two
  complete repeats, a planned one has none), and if and only if parsing what \<open>to_dict\<close> prints gives it back.
\<close>

theorem manifests_round_trip:
  "((\<exists>v. deployment_from_dict E v = Inr d) \<longleftrightarrow> deployment_wf d) \<and>
   (deployment_wf d \<longleftrightarrow> deployment_from_dict E (deployment_to_dict d) = Inr d) \<and>
   ((\<exists>v. fixture_from_dict E F v = Inr x) \<longleftrightarrow> fixture_wf x) \<and>
   (fixture_wf x \<longleftrightarrow> fixture_from_dict E F (fixture_to_dict x) = Inr x) \<and>
   ((\<exists>v. result_from_dict E F v = Inr r) \<longleftrightarrow> result_accepted E r) \<and>
   (result_accepted E r \<longleftrightarrow> result_from_dict E F (result_to_dict r) = Inr r)"
  using deployment_from_dict_wf [of E _ d] deployment_round_trip_wf [of d E]
    fixture_from_dict_wf [of E F _ x] fixture_round_trip_wf [of x E F] result_accepted_iff [of E F r]
    result_accepted_prints [of E r F] by blast

theorem manifests_round_trip_witness:
  "deployment_from_dict demo_cf_env (deployment_to_dict demo_cf_deployment) = Inr demo_cf_deployment \<and>
   fixture_from_dict demo_cf_env demo_floats (fixture_to_dict demo_fixture) = Inr demo_fixture \<and>
   result_accepted demo_cf_env demo_cf_result \<and> rm_state demo_cf_result = ''completed''"
proof -
  have "rm_state demo_cf_result = ''completed''" by (simp add: demo_cf_result_def)
  then show ?thesis
    using manifests_round_trip [of demo_cf_env demo_cf_deployment demo_floats demo_fixture demo_cf_result]
      demo_cf_deployment_wf demo_fixture_wf demo_cf_result_parses by blast
qed

text \<open>
  A result binds to one fixture and one locked deployment: when the audit accepts the same
  result (a mapping of inputs has no repeated role) with two fixtures that parse, the fixtures are
  equal in every field, and the two deployments agree on identity, revision, checkpoint, variant
  and precision. No property of SHA-256 is used.
\<close>

theorem binding_pins_fixture:
  assumes "fixture_from_dict E F v = Inr x" and "fixture_from_dict E F v' = Inr x'"
    and "verify_result_bindings E d x r = Inr ()" and "verify_result_bindings E d' x' r = Inr ()"
    and "distinct (map fst (rm_input_fingerprints r))"
  shows "x = x' \<and> dm_deployment_id d = dm_deployment_id d' \<and>
    dm_source_revision d = dm_source_revision d' \<and> dm_checkpoint d = dm_checkpoint d' \<and>
    dm_variant d = dm_variant d' \<and> dm_precision d = dm_precision d'"
proof -
  note f = verify_result_bindings_facts [OF assms(3)] verify_result_bindings_facts [OF assms(4)]
  note p = bound_parameters [OF assms(3)] bound_parameters [OF assms(4)]
  have w: "fixture_wf x" "fixture_wf x'" using assms(1,2) fixture_from_dict_wf by blast+
  have task: "fx_task x = fx_task x'" using p(1,8) by simp
  with w have rk: "map (\<lambda>i. (fi_role i, fi_kind i)) (fx_inputs x) =
      map (\<lambda>i. (fi_role i, fi_kind i)) (fx_inputs x')" by (simp add: fixture_wf_def)
  have ks: "map fi_role (fx_inputs x) = map fi_role (fx_inputs x')"
    "map fi_kind (fx_inputs x) = map fi_kind (fx_inputs x')"
    using arg_cong [OF rk, of "map fst"] arg_cong [OF rk, of "map snd"] by (simp_all add: comp_def)
  have dx: "distinct (map fi_role (fx_inputs x))" "distinct (map fi_role (fx_inputs x'))"
    using w by (simp_all add: fixture_wf_def)
  have "fixture_inputs x = fixture_inputs x'"
    using f(6,13) assms(5) dx ks(1)
    by (intro same_items_unique [of "rm_input_fingerprints r"]) (simp_all add: fixture_inputs_distinct comp_def)
  then have "map snd (fixture_inputs x) = map snd (fixture_inputs x')" by simp
  then have fps: "map fi_fingerprint (fx_inputs x) = map fi_fingerprint (fx_inputs x')"
    using dx by (simp add: fixture_inputs_distinct comp_def)
  have "fx_inputs x = fx_inputs x'"
  proof (rule nth_equalityI)
    show len: "length (fx_inputs x) = length (fx_inputs x')" using map_eq_imp_length_eq [OF rk] .
    fix i assume "i < length (fx_inputs x)"
    with len ks fps show "fx_inputs x ! i = fx_inputs x' ! i"
      by (intro fixture_input.equality) (metis nth_map, metis nth_map, metis nth_map, simp)
  qed
  then have "x = x'"
    using w task f(3,10) p(4-7,11-14) by (intro fixture_manifest.equality) (simp_all add: fixture_wf_def)
  then show ?thesis using f(2,4,5,9,11,12) p(2,3,9,10) by simp
qed

definition bound_result :: result_manifest where
  "bound_result = demo_cf_result\<lparr>
     rm_deployment_manifest_sha256 := manifest_sha256 demo_cf_env (deployment_to_dict demo_cf_deployment),
     rm_fixture_manifest_sha256 := manifest_sha256 demo_cf_env (fixture_to_dict demo_fixture),
     rm_parameters := map (\<lambda>(n, v). (PStr n, v)) (expected_parameters demo_cf_deployment demo_fixture)\<rparr>"

lemma demo_bound_inputs: "fixture_inputs demo_fixture = [(''prompt'', demo_fingerprint)]"
  by (simp add: fixture_inputs_def demo_fixture_def)

lemma bound_result_ok: "verify_result_bindings demo_cf_env demo_cf_deployment demo_fixture bound_result = Inr ()"
proof -
  have e: "expected_parameters demo_cf_deployment demo_fixture =
     [(''task'', PStr ''T2A''), (''variant'', PStr ''large_44k''), (''precision'', PStr ''fp32''),
      (''video'', PNone), (''audio'', PNone), (''duration_seconds'', PFloat (FFin 8)),
      (''cfg_strength'', PFloat (FFin 4)), (''num_steps'', PInt 25), (''seed'', PInt 42),
      (''skip_video_composite'', PBool False), (''mask_away_clip'', PBool False),
      (''output'', PDict [(PStr ''path_redacted'', PBool True), (PStr ''repeat_specific'', PBool True)]),
      (''prompt'', fingerprint_to_dict demo_fingerprint), (''negative_prompt'', PNone)]"
    by (simp add: expected_parameters_def bound_input_def demo_bound_inputs)
       (simp add: demo_fixture_def demo_cf_deployment_def)
  have q: "py_eq (fingerprint_to_dict demo_fingerprint) (fingerprint_to_dict demo_fingerprint)"
    by (simp add: fingerprint_to_dict_def demo_fingerprint_def verified_def opt_str_def opt_int_def
        numeric_value_def)
  have g: "dget (rm_parameters bound_result) n = v"
    if "(n, v) \<in> set (expected_parameters demo_cf_deployment demo_fixture)" for n v
    using dget_map [OF _ that, of "\<lambda>v. v"] unfolding bound_result_def e by simp
  have "py_eq v v" if "(n, v) \<in> set (expected_parameters demo_cf_deployment demo_fixture)" for n v
    using that q unfolding e set_simps by (elim insertE) (simp_all add: numeric_value_def finite_float_def)
  with g have p: "checks (map (\<lambda>(name, v). schema_check (\<not> py_eq (dget (rm_parameters bound_result) name) v)
      (parameter_message name)) (expected_parameters demo_cf_deployment demo_fixture)) = Inr ()"
    unfolding checks_ok set_map by (intro ballI, elim imageE) (clarsimp split: prod.splits)
  have k: "same_keys (rm_parameters bound_result) (map fst (expected_parameters demo_cf_deployment demo_fixture))"
    unfolding same_keys_def bound_result_def e by simp
  show ?thesis
    unfolding verify_result_bindings_def demo_bound_inputs append.simps checks_Cons_ok schema_check_ok
    using p k demo_verified
    by (simp add: bound_result_def demo_cf_result_def demo_cf_deployment_def same_items_def)
      (simp add: demo_fixture_def)
qed

theorem binding_pins_fixture_witness:
  "fixture_from_dict demo_cf_env demo_floats (fixture_to_dict demo_fixture) = Inr demo_fixture \<and>
   verify_result_bindings demo_cf_env demo_cf_deployment demo_fixture bound_result = Inr () \<and>
   dm_checkpoint demo_cf_deployment = rm_checkpoint bound_result"
proof -
  note f = fixture_round_trip_wf [OF demo_fixture_wf, of demo_cf_env demo_floats]
  have "demo_fixture = demo_fixture \<and> dm_checkpoint demo_cf_deployment = dm_checkpoint demo_cf_deployment"
    using binding_pins_fixture [OF f f bound_result_ok bound_result_ok]
    by (simp add: bound_result_def demo_cf_result_def)
  then show ?thesis using f bound_result_ok by (simp add: bound_result_def demo_cf_result_def demo_cf_deployment_def)
qed

text \<open>
  The prerequisite check is as strict as it claims: when it lets a caller go on, the source
  tree is a directory at the supported revision with a clean status and a supported origin, CUDA is
  available, and every weight the deployment declares is a file whose bytes have exactly the
  declared size and SHA-256.
\<close>

theorem gpu_prerequisites_verified:
  assumes "require_gpu_prerequisites H source weights (Some d) = Inr p"
  shows "\<exists>src dir origin. source = Some src \<and> weights = Some dir \<and> hp_is_dir H src \<and> hp_is_dir H dir \<and>
    git_revision H src = Some supported_revision \<and>
    git_output H src [''status'', ''--porcelain''] = Some [] \<and>
    git_output H src [''remote'', ''get-url'', ''origin''] = Some origin \<and> is_supported_origin origin \<and>
    hp_cuda H \<and>
    (\<forall>(path, f) \<in> set (required_weights d). hp_is_file H (path_join dir path) \<and>
       (\<exists>content. hp_read H (path_join dir path) = Inr content \<and>
          fp_sha256 f = Some (sha256_hex content) \<and> fp_size_bytes f = Some (int (length content))))"
proof -
  from assms obtain ws where ws: "weights_reasons H weights (Some d) = Inr ws"
    and none: "fst (source_reasons H source) = []" "ws = []" "hp_cuda H"
    by (auto simp: require_gpu_prerequisites_def detect_gpu_prerequisites_def after_eq_Inr Let_def
        split: if_splits)
  from none(1) obtain src origin where s: "source = Some src" "hp_is_dir H src"
    "git_revision H src = Some supported_revision" "git_output H src [''status'', ''--porcelain''] = Some []"
    "git_output H src [''remote'', ''get-url'', ''origin''] = Some origin" "is_supported_origin origin"
    unfolding source_reasons_def by (simp split: option.splits if_splits)
  from ws none(2) obtain dir where w: "weights = Some dir" "hp_is_dir H dir"
    "check_weights H dir (required_weights d) = Inr []"
    by (auto simp: weights_reasons_def validate_materialized_weights_def split: option.splits if_splits)
  from checked_weights [OF w(3)] show ?thesis
    using s w(1,2) none(3) by (fastforce simp: fingerprint_bytes_def verified_def)
qed

definition demo_host :: host where
  "demo_host = \<lparr>hp_is_dir = (\<lambda>_. True), hp_is_file = (\<lambda>_. True), hp_read = (\<lambda>_. Inr ''abc''),
     hp_git = (\<lambda>_ args. Some (if args = [''rev-parse'', ''HEAD''] then supported_revision
                 else if args = [''status'', ''--porcelain''] then [] else supported_repository)),
     hp_cuda = True\<rparr>"

definition sealed_deployment :: deployment_manifest where
  "sealed_deployment = demo_cf_deployment\<lparr>dm_checkpoint := fingerprint_bytes ''abc'', dm_external_weights := []\<rparr>"

lemma not_space: "\<not> is_space CHR ''6''" "\<not> is_space CHR ''e''" "\<not> is_space CHR ''h''" "\<not> is_space CHR ''y''"
  by (simp_all add: is_space_def code_def)

lemma strip_supported: "strip supported_revision = supported_revision" "strip supported_repository = supported_repository"
proof -
  have "supported_revision = CHR ''6'' # tl supported_revision"
    "supported_revision = butlast supported_revision @ [CHR ''e'']"
    "supported_repository = CHR ''h'' # tl supported_repository"
    "supported_repository = butlast supported_repository @ [CHR ''y'']"
    by (simp_all add: supported_revision_def supported_repository_def)
  then show "strip supported_revision = supported_revision" "strip supported_repository = supported_repository"
    using strip_head not_space by blast+
qed

lemma demo_host_passes:
  "require_gpu_prerequisites demo_host (Some ''src'') (Some ''w'') (Some sealed_deployment) =
     Inr \<lparr>gp_available = True, gp_reasons = [], gp_diagnostics = [origin_diagnostic supported_repository]\<rparr>"
proof -
  have o: "is_supported_origin supported_repository"
    by (simp add: is_supported_origin_def supported_repository_def rstrip_slash_def)
  have w: "weights_reasons demo_host (Some ''w'') (Some sealed_deployment) = Inr []"
    by (simp add: weights_reasons_def demo_host_def validate_materialized_weights_def required_weights_def
        sealed_deployment_def check_weight_def fingerprint_file_def fingerprint_matches_def
        fingerprint_bytes_def verified_def)
  have s: "source_reasons demo_host (Some ''src'') = ([], [origin_diagnostic supported_repository])"
    using o by (simp add: source_reasons_def demo_host_def git_revision_def git_output_def strip_supported)
      (simp add: strip_def)
  show ?thesis
    by (simp add: require_gpu_prerequisites_def detect_gpu_prerequisites_def w s)
      (simp add: demo_host_def)
qed

theorem gpu_prerequisites_verified_witness:
  "hp_cuda demo_host \<and> git_revision demo_host ''src'' = Some supported_revision"
  using gpu_prerequisites_verified [OF demo_host_passes] by blast

end
