(* ===== verification/CfTasks.thy ===== *)
theory CfTasks
  imports RuntimeValues Baseline
begin

text \<open>
  The ControlFoley local request (\<open>nano_aural_runtime_controlfoley/tasks.py\<close>): the task kinds, the
  checks of \<open>ControlFoleyLocalRequest\<close>, and its passage through a \<open>ModelInvocation\<close>. A path is its
  text; what the file system does with it is a parameter.
\<close>

record file_env =
  fe_path :: "string \<Rightarrow> string"
  fe_resolve :: "string \<Rightarrow> string"
  fe_is_file :: "string \<Rightarrow> bool"
  fe_read :: "string \<Rightarrow> string res"

datatype task_kind = V2A | TV2A | TC_V2A | AC_V2A | T2A

fun task_value :: "task_kind \<Rightarrow> string" where
  "task_value V2A = ''V2A''"
| "task_value TV2A = ''TV2A''"
| "task_value TC_V2A = ''TC-V2A''"
| "task_value AC_V2A = ''AC-V2A''"
| "task_value T2A = ''T2A''"

text \<open>\<open>ControlFoleyTaskKind(value)\<close>.\<close>

definition task_of :: "pyval \<Rightarrow> task_kind res" where
  "task_of v =
     (case v of
        PStr s \<Rightarrow> (case find (\<lambda>k. task_value k = s) [V2A, TV2A, TC_V2A, AC_V2A, T2A] of
                    Some k \<Rightarrow> Inr k | None \<Rightarrow> raise ValueError s)
      | _ \<Rightarrow> raise ValueError ''is not a valid ControlFoleyTaskKind'')"

definition upstream_parity :: string where
  "upstream_parity = ''upstream_parity''"

definition experimental_staged :: string where
  "experimental_staged = ''experimental_staged_v1''"

record local_request =
  lr_task :: task_kind
  lr_video_path :: "string option"
  lr_reference_audio_path :: "string option"
  lr_prompt :: pyval
  lr_duration_seconds :: pyval
  lr_num_steps :: pyval
  lr_guidance_scale :: pyval
  lr_seed :: pyval

definition float_test :: "float_env \<Rightarrow> pyval \<Rightarrow> (rat \<Rightarrow> bool) \<Rightarrow> bool res" where
  "float_test F v p = after (float_of F v) (\<lambda>f. Inr (case f of FFin q \<Rightarrow> p q | _ \<Rightarrow> True))"

text \<open>Video, reference audio, prompt: which of them each task takes.\<close>

fun task_contract :: "task_kind \<Rightarrow> bool \<times> bool \<times> bool" where
  "task_contract V2A = (True, False, False)"
| "task_contract TV2A = (True, False, True)"
| "task_contract TC_V2A = (True, False, True)"
| "task_contract AC_V2A = (True, True, False)"
| "task_contract T2A = (False, False, True)"

definition existing_file :: "file_env \<Rightarrow> string option \<Rightarrow> bool" where
  "existing_file P p = (case p of None \<Rightarrow> True | Some x \<Rightarrow> fe_is_file P x)"

definition new_LocalRequest :: "file_env \<Rightarrow> float_env \<Rightarrow> local_request \<Rightarrow> local_request res" where
  "new_LocalRequest P F r =
     after (checks
       [reject_if (any_of
          [Inr (\<not> int_or_float (lr_duration_seconds r)),
           after (isfinite F (lr_duration_seconds r)) (\<lambda>b. Inr (\<not> b)),
           float_test F (lr_duration_seconds r) (\<lambda>q. q \<le> 0),
           Inr (lr_num_steps r \<noteq> PInt 25),
           Inr (\<not> int_or_float (lr_guidance_scale r)),
           after (isfinite F (lr_guidance_scale r)) (\<lambda>b. Inr (\<not> b)),
           float_test F (lr_guidance_scale r) (\<lambda>q. q \<noteq> 9 / 2)])
          ValueError ''duration must be finite/positive; steps and guidance use locked defaults'',
        require (case lr_seed r of PInt _ \<Rightarrow> True | _ \<Rightarrow> False) TypeError ''seed must be an integer'',
        require ((lr_video_path r \<noteq> None, lr_reference_audio_path r \<noteq> None, lr_prompt r \<noteq> PNone)
                   = task_contract (lr_task r))
          ValueError ''task inputs do not match the exact ControlFoley task contract'',
        require (existing_file P (lr_video_path r) \<and> existing_file P (lr_reference_audio_path r))
          ValueError ''local task input must be an existing regular file'',
        require (case lr_prompt r of PNone \<Rightarrow> True | PStr s \<Rightarrow> strip s \<noteq> [] | _ \<Rightarrow> False)
          ValueError ''prompt must be non-empty''])
       (\<lambda>_. Inr r)"

definition request_keys :: "string list" where
  "request_keys =
     [''task'', ''video_path'', ''reference_audio_path'', ''prompt'', ''duration_seconds'', ''num_steps'',
      ''guidance_scale'', ''seed'']"

definition request_inputs :: "file_env \<Rightarrow> local_request \<Rightarrow> pyval" where
  "request_inputs P r =
     PDict [(PStr ''task'', PStr (task_value (lr_task r))),
            (PStr ''video_path'', opt_str (map_option (fe_resolve P) (lr_video_path r))),
            (PStr ''reference_audio_path'', opt_str (map_option (fe_resolve P) (lr_reference_audio_path r))),
            (PStr ''prompt'', lr_prompt r), (PStr ''duration_seconds'', lr_duration_seconds r),
            (PStr ''num_steps'', lr_num_steps r), (PStr ''guidance_scale'', lr_guidance_scale r),
            (PStr ''seed'', lr_seed r)]"

definition to_invocation ::
  "pyenv \<Rightarrow> file_env \<Rightarrow> local_request \<Rightarrow> string \<Rightarrow> string \<Rightarrow> model_invocation res"
where
  "to_invocation E P r i operation =
     (if operation \<notin> {upstream_parity, experimental_staged}
      then raise ValueError ''unsupported ControlFoley operation''
      else new_ModelInvocation E (PStr i) (PStr operation) (request_inputs P r) (PDict []))"

definition path_value :: "pyenv \<Rightarrow> file_env \<Rightarrow> pyval \<Rightarrow> string option" where
  "path_value E P v = (if v = PNone then None else Some (fe_path P (pystr E v)))"

definition mapping_items :: "pyval \<Rightarrow> (pyval \<times> pyval) list" where
  "mapping_items v = (case v of PDict items \<Rightarrow> items | _ \<Rightarrow> [])"

definition from_invocation ::
  "pyenv \<Rightarrow> file_env \<Rightarrow> float_env \<Rightarrow> model_invocation \<Rightarrow> local_request res"
where
  "from_invocation E P F m =
     (let d = mapping_items (inv_inputs m) in
      if inv_operation m \<notin> {upstream_parity, experimental_staged}
      then raise ValueError ''unsupported ControlFoley operation''
      else if \<not> same_keys d request_keys
      then raise ValueError ''ControlFoley invocation has missing or unexpected fields''
      else after (task_of (dget d ''task'')) (\<lambda>k.
        new_LocalRequest P F
          \<lparr>lr_task = k, lr_video_path = path_value E P (dget d ''video_path''),
           lr_reference_audio_path = path_value E P (dget d ''reference_audio_path''),
           lr_prompt = dget d ''prompt'', lr_duration_seconds = dget d ''duration_seconds'',
           lr_num_steps = dget d ''num_steps'', lr_guidance_scale = dget d ''guidance_scale'',
           lr_seed = dget d ''seed''\<rparr>))"

lemma task_of_value: "task_of (PStr (task_value k)) = Inr k"
  by (cases k) (simp_all add: task_of_def)

lemma new_LocalRequest_ok:
  "new_LocalRequest P F r = Inr r' \<longleftrightarrow> r' = r \<and>
     int_or_float (lr_duration_seconds r) \<and> isfinite F (lr_duration_seconds r) = Inr True \<and>
     float_test F (lr_duration_seconds r) (\<lambda>q. q \<le> 0) = Inr False \<and> lr_num_steps r = PInt 25 \<and>
     int_or_float (lr_guidance_scale r) \<and> isfinite F (lr_guidance_scale r) = Inr True \<and>
     float_test F (lr_guidance_scale r) (\<lambda>q. q \<noteq> 9 / 2) = Inr False \<and>
     (\<exists>n. lr_seed r = PInt n) \<and>
     (lr_video_path r \<noteq> None, lr_reference_audio_path r \<noteq> None, lr_prompt r \<noteq> PNone) =
        task_contract (lr_task r) \<and>
     existing_file P (lr_video_path r) \<and> existing_file P (lr_reference_audio_path r) \<and>
     (lr_prompt r = PNone \<or> (\<exists>s. lr_prompt r = PStr s \<and> strip s \<noteq> []))"
  by (cases "lr_prompt r"; cases "lr_seed r")
     (auto simp: new_LocalRequest_def after_eq_Inr checks_Cons_ok reject_if_ok any_of_False)

end
