(* ===== verification/CacheValues.thy ===== *)
theory CacheValues
  imports CfTasks
begin

text \<open>
  The values of the ControlFoley L0/L1 cache (\<open>nano_aural_runtime_controlfoley/cache.py\<close>): the
  policy and the deployment fields it binds, the cache key with its canonical bytes and digest,
  entries and snapshots, and the strict reading of the GPU cache configuration.
\<close>

section \<open>Checked texts\<close>

definition ascii_alnum :: "char \<Rightarrow> bool" where
  "ascii_alnum c =
     (let n = code c in (48 \<le> n \<and> n \<le> 57) \<or> (65 \<le> n \<and> n \<le> 90) \<or> (97 \<le> n \<and> n \<le> 122))"

definition version_char :: "char \<Rightarrow> bool" where
  "version_char c = (ascii_alnum c \<or> c \<in> {CHR ''.'', CHR ''_'', CHR ''-''})"

definition safe_version_text :: "string \<Rightarrow> bool" where
  "safe_version_text s =
     (case s of [] \<Rightarrow> False | c # t \<Rightarrow> ascii_alnum c \<and> list_all version_char t \<and> length t \<le> 63)"

definition safe_version :: "string \<Rightarrow> string \<Rightarrow> unit res" where
  "safe_version s name =
     require (safe_version_text s) ValueError (name @ '' must be a safe short version identifier'')"

definition cache_sha256 :: "string \<Rightarrow> string \<Rightarrow> unit res" where
  "cache_sha256 s name =
     (if length s \<noteq> 64 \<or> s \<noteq> lower s then raise ValueError (name @ '' must be a lowercase full SHA-256'')
      else if int16 s = None then raise ValueError (name @ '' must be hexadecimal'')
      else Inr ())"

definition cache_git_revision :: "string \<Rightarrow> unit res" where
  "cache_git_revision s =
     (if length s \<noteq> 40 \<or> s \<noteq> lower s
      then raise ValueError ''source_revision must be a lowercase full git revision''
      else if int16 s = None then raise ValueError ''source_revision must be hexadecimal''
      else Inr ())"

definition validate_staged_backend_id :: "string \<Rightarrow> unit res" where
  "validate_staged_backend_id s =
     require (safe_version_text s) ValueError
       ''staged backend_id must be a 1-64 character ASCII identifier using letters, digits, dot, underscore, or hyphen''"

definition l0 :: string where "l0 = ''l0_metadata''"
definition l1 :: string where "l1 = ''l1_preprocess''"

definition cache_tier :: "string \<Rightarrow> unit res" where
  "cache_tier t = require (t \<in> {l0, l1}) ValueError ''unsupported cache tier''"

section \<open>The policy\<close>

record cache_policy =
  cp_preprocess_version :: string
  cp_code_version :: string
  cp_max_entries :: int
  cp_max_entry_bytes :: int
  cp_max_total_bytes :: int
  cp_ttl_seconds :: pyval
  cp_mode :: string

definition cache_mode :: string where
  "cache_mode = ''experimental_l0_l1''"

definition new_CachePolicy :: "float_env \<Rightarrow> cache_policy \<Rightarrow> cache_policy res" where
  "new_CachePolicy F p =
     after (checks
       [require (cp_mode p = cache_mode) ValueError ''unsupported ControlFoley cache mode'',
        safe_version (cp_preprocess_version p) ''preprocess_version'',
        safe_version (cp_code_version p) ''code_version'',
        require (0 < cp_max_entries p) ValueError ''max_entries must be a positive integer'',
        require (0 < cp_max_entry_bytes p) ValueError ''max_entry_bytes must be a positive integer'',
        require (0 < cp_max_total_bytes p) ValueError ''max_total_bytes must be a positive integer'',
        require (cp_max_entry_bytes p \<le> cp_max_total_bytes p) ValueError
          ''max_entry_bytes cannot exceed max_total_bytes'',
        reject_if (any_of (bad_number F (cp_ttl_seconds p) (\<lambda>q. q \<le> 0)))
          ValueError ''ttl_seconds must be finite and positive''])
       (\<lambda>_. Inr p)"

definition policy_fingerprint :: "pyenv \<Rightarrow> cache_policy \<Rightarrow> string" where
  "policy_fingerprint E p =
     manifest_sha256 E
       (PDict [(PStr ''schema_version'', PInt 1), (PStr ''mode'', PStr (cp_mode p)),
               (PStr ''preprocess_version'', PStr (cp_preprocess_version p)),
               (PStr ''code_version'', PStr (cp_code_version p))])"

definition policy_configuration :: "pyenv \<Rightarrow> cache_policy \<Rightarrow> (string \<times> string) list" where
  "policy_configuration E p =
     [(''cache_mode'', cp_mode p), (''cache_preprocess_version'', cp_preprocess_version p),
      (''cache_code_version'', cp_code_version p), (''cache_policy_fingerprint'', policy_fingerprint E p)]"

definition cached_configuration_keys :: "string list" where
  "cached_configuration_keys =
     [''cache_mode'', ''cache_preprocess_version'', ''cache_code_version'', ''cache_policy_fingerprint'']"

text \<open>A deployment's configuration is a frozen mapping: its keys are strings.\<close>

definition assert_configuration :: "pyenv \<Rightarrow> cache_policy \<Rightarrow> (pyval \<times> pyval) list \<Rightarrow> unit res" where
  "assert_configuration E p config =
     require (set (filter (\<lambda>k. startswith k ''cache_'') (map (\<lambda>x. key_text (fst x)) config)) =
                set cached_configuration_keys \<and>
              list_all (\<lambda>(n, v). dget config n = PStr v) (policy_configuration E p))
       ValueError ''cached deployment does not match the adapter cache policy''"

section \<open>The key\<close>

record cache_input =
  ci_role :: string
  ci_sha256 :: string
  ci_size_bytes :: int

definition new_CacheInput :: "string \<Rightarrow> string \<Rightarrow> int \<Rightarrow> cache_input res" where
  "new_CacheInput r h n =
     after (checks
       [require (r \<in> {''video'', ''reference_audio'', ''prompt''}) ValueError ''unsupported cache input role'',
        cache_sha256 h ''input sha256'',
        require (0 \<le> n) ValueError ''input size_bytes must be nonnegative''])
       (\<lambda>_. Inr \<lparr>ci_role = r, ci_sha256 = h, ci_size_bytes = n\<rparr>)"

definition cache_input_to_dict :: "cache_input \<Rightarrow> pyval" where
  "cache_input_to_dict i =
     PDict [(PStr ''role'', PStr (ci_role i)), (PStr ''sha256'', PStr (ci_sha256 i)),
            (PStr ''size_bytes'', PInt (ci_size_bytes i))]"

record cache_key =
  ck_inputs :: "cache_input list"
  ck_task :: string
  ck_duration_seconds :: pyval
  ck_num_steps :: pyval
  ck_guidance_scale :: pyval
  ck_seed :: pyval
  ck_preprocess_version :: string
  ck_code_version :: string
  ck_source_revision :: string
  ck_deployment_fingerprint :: string
  ck_deployment_manifest_sha256 :: string
  ck_checkpoint_sha256 :: string
  ck_variant :: string
  ck_precision :: string
  ck_backend_id :: string
  ck_operation :: string
  ck_schema_version :: int

definition cache_roles :: "string \<Rightarrow> string list option" where
  "cache_roles t = map_of
     [(''V2A'', [''video'']), (''TV2A'', [''prompt'', ''video'']), (''TC-V2A'', [''prompt'', ''video'']),
      (''AC-V2A'', [''reference_audio'', ''video'']), (''T2A'', [''prompt''])] t"

definition is_int :: "pyval \<Rightarrow> bool" where
  "is_int v = (case v of PInt _ \<Rightarrow> True | _ \<Rightarrow> False)"

definition new_CacheKey :: "float_env \<Rightarrow> cache_key \<Rightarrow> cache_key res" where
  "new_CacheKey F k =
     (let roles = map ci_role (ck_inputs k) in
      after (checks
       [require (ck_schema_version k = 1) ValueError ''unsupported cache key schema_version'',
        require (ck_operation k = experimental_staged) ValueError
          ''L0/L1 cache is available only for the experimental staged path'',
        require (card (set roles) = length roles \<and> roles = sort roles) ValueError
          ''cache input roles must be unique and canonical'',
        safe_version (ck_task k) ''task'',
        require (cache_roles (ck_task k) = Some roles) ValueError
          ''cache input roles do not match the exact task contract'',
        safe_version (ck_preprocess_version k) ''preprocess_version'',
        safe_version (ck_code_version k) ''code_version'',
        cache_git_revision (ck_source_revision k),
        cache_sha256 (ck_deployment_fingerprint k) ''deployment_fingerprint'',
        cache_sha256 (ck_deployment_manifest_sha256 k) ''deployment_manifest_sha256'',
        cache_sha256 (ck_checkpoint_sha256 k) ''checkpoint_sha256'',
        safe_version (ck_variant k) ''variant'',
        safe_version (ck_precision k) ''precision'',
        validate_staged_backend_id (ck_backend_id k),
        reject_if (any_of (bad_number F (ck_duration_seconds k) (\<lambda>q. q \<le> 0)
                           @ bad_number F (ck_guidance_scale k) (\<lambda>q. False)))
          ValueError ''cache parameters must be finite and valid'',
        require (is_int (ck_num_steps k) \<and> 0 < num_value (ck_num_steps k)) ValueError
          ''cache num_steps must be a positive integer'',
        require (is_int (ck_seed k)) TypeError ''cache seed must be an integer''])
       (\<lambda>_. Inr k))"

definition configuration_text :: "(pyval \<times> pyval) list \<Rightarrow> string \<Rightarrow> string res" where
  "configuration_text config name =
     (case dget config name of
        PStr s \<Rightarrow> if s = [] then raise ValueError (''cache deployment field '' @ name @ '' is invalid'') else Inr s
      | _ \<Rightarrow> raise ValueError (''cache deployment field '' @ name @ '' is invalid''))"

definition input_of_fingerprint :: "string \<Rightarrow> fingerprint \<Rightarrow> string \<Rightarrow> cache_input res" where
  "input_of_fingerprint role f m =
     (case (fp_sha256 f, fp_size_bytes f) of
        (Some h, Some n) \<Rightarrow> new_CacheInput role h n
      | _ \<Rightarrow> raise ValueError m)"

definition file_input :: "file_env \<Rightarrow> string option \<Rightarrow> string \<Rightarrow> string \<Rightarrow> cache_input list res" where
  "file_input P path role m =
     (case path of
        None \<Rightarrow> Inr []
      | Some p \<Rightarrow> after (fingerprint_file (fe_read P) p) (\<lambda>f.
                   after (input_of_fingerprint role f m) (\<lambda>i. Inr [i])))"

definition prompt_input :: "pyval \<Rightarrow> cache_input list res" where
  "prompt_input v =
     (case v of
        PNone \<Rightarrow> Inr []
      | PStr s \<Rightarrow> after (input_of_fingerprint ''prompt'' (fingerprint_text s)
                    ''prompt fingerprint is unavailable'') (\<lambda>i. Inr [i])
      | _ \<Rightarrow> raise TypeError ''encode'')"

definition request_cache_inputs :: "file_env \<Rightarrow> local_request \<Rightarrow> cache_input list res" where
  "request_cache_inputs P r =
     after (file_input P (lr_video_path r) ''video'' ''video input fingerprint is unavailable'') (\<lambda>a.
     after (file_input P (lr_reference_audio_path r) ''reference_audio''
              ''reference input fingerprint is unavailable'') (\<lambda>b.
     after (prompt_input (lr_prompt r)) (\<lambda>c. Inr (sort_key ci_role (a @ b @ c)))))"

definition cache_key_from_request ::
  "pyenv \<Rightarrow> file_env \<Rightarrow> float_env \<Rightarrow> cache_policy \<Rightarrow> local_request \<Rightarrow> (pyval \<times> pyval) list \<Rightarrow> string
     \<Rightarrow> cache_key res"
where
  "cache_key_from_request E P F p r config fp =
     after (assert_configuration E p config) (\<lambda>_.
     after (request_cache_inputs P r) (\<lambda>inputs.
     after (float_of F (lr_duration_seconds r)) (\<lambda>duration.
     after (float_of F (lr_guidance_scale r)) (\<lambda>guidance.
     after (configuration_text config ''source_revision'') (\<lambda>srev.
     after (configuration_text config ''deployment_manifest_sha256'') (\<lambda>manifest.
     after (configuration_text config ''checkpoint_sha256'') (\<lambda>checkpoint.
     after (configuration_text config ''variant'') (\<lambda>variant.
     after (configuration_text config ''precision'') (\<lambda>precision.
     after (configuration_text config ''staged_backend_id'') (\<lambda>backend.
       new_CacheKey F
         \<lparr>ck_inputs = inputs, ck_task = task_value (lr_task r), ck_duration_seconds = PFloat duration,
          ck_num_steps = lr_num_steps r, ck_guidance_scale = PFloat guidance, ck_seed = lr_seed r,
          ck_preprocess_version = cp_preprocess_version p, ck_code_version = cp_code_version p,
          ck_source_revision = srev, ck_deployment_fingerprint = fp,
          ck_deployment_manifest_sha256 = manifest, ck_checkpoint_sha256 = checkpoint,
          ck_variant = variant, ck_precision = precision, ck_backend_id = backend,
          ck_operation = experimental_staged, ck_schema_version = 1\<rparr>))))))))))"

text \<open>
  The value the canonical bytes are made of; \<open>_json_value\<close> turns tuples into lists. The numbers of
  a checked key convert to floats without an error.
\<close>

definition as_float :: "float_env \<Rightarrow> pyval \<Rightarrow> pyval" where
  "as_float F v = (case float_of F v of Inr f \<Rightarrow> PFloat f | Inl _ \<Rightarrow> v)"

definition cache_key_to_dict :: "float_env \<Rightarrow> cache_key \<Rightarrow> pyval" where
  "cache_key_to_dict F k =
     PDict [(PStr ''schema_version'', PInt (ck_schema_version k)), (PStr ''operation'', PStr (ck_operation k)),
            (PStr ''inputs'', PTuple (map cache_input_to_dict (ck_inputs k))), (PStr ''task'', PStr (ck_task k)),
            (PStr ''parameters'',
               PDict [(PStr ''duration_seconds'', as_float F (ck_duration_seconds k)),
                      (PStr ''num_steps'', ck_num_steps k),
                      (PStr ''guidance_scale'', as_float F (ck_guidance_scale k)), (PStr ''seed'', ck_seed k)]),
            (PStr ''preprocess_version'', PStr (ck_preprocess_version k)),
            (PStr ''code_version'', PStr (ck_code_version k)),
            (PStr ''source_revision'', PStr (ck_source_revision k)),
            (PStr ''deployment_fingerprint'', PStr (ck_deployment_fingerprint k)),
            (PStr ''deployment_manifest_sha256'', PStr (ck_deployment_manifest_sha256 k)),
            (PStr ''checkpoint_sha256'', PStr (ck_checkpoint_sha256 k)), (PStr ''variant'', PStr (ck_variant k)),
            (PStr ''precision'', PStr (ck_precision k)), (PStr ''backend_id'', PStr (ck_backend_id k))]"

fun json_value :: "pyenv \<Rightarrow> pyval \<Rightarrow> pyval"
  and json_values :: "pyenv \<Rightarrow> pyval list \<Rightarrow> pyval list"
  and json_items :: "pyenv \<Rightarrow> (pyval \<times> pyval) list \<Rightarrow> (pyval \<times> pyval) list \<Rightarrow> (pyval \<times> pyval) list"
where
  "json_value E (PDict items) = PDict (json_items E items [])"
| "json_value E (PTuple xs) = PList (json_values E xs)"
| "json_value E (PList xs) = PList (json_values E xs)"
| "json_value E v = v"
| "json_values E [] = []"
| "json_values E (x # xs) = json_value E x # json_values E xs"
| "json_items E [] acc = acc"
| "json_items E ((k, v) # items) acc =
     json_items E items (AList.update (PStr (pystr E k)) (json_value E v) acc)"

text \<open>
  \<open>ensure_ascii\<close> escapes the characters outside the space to the tilde; outside its strings the
  compact text has none of those, so the escape of the whole text is the escape of each string
  (the backslash escapes of the control characters are made before, and are ASCII).
\<close>

definition ascii_char :: "char \<Rightarrow> string" where
  "ascii_char c = (if code c < 127 then [c] else [CHR 0x5C, CHR ''u''] @ hex4 (code c))"

definition ascii_text :: "string \<Rightarrow> string" where
  "ascii_text s = concat (map ascii_char s)"

definition canonical_bytes :: "pyenv \<Rightarrow> float_env \<Rightarrow> cache_key \<Rightarrow> string" where
  "canonical_bytes E F k = utf8 (ascii_text (json_dumps E (json_value E (cache_key_to_dict F k))))"

definition cache_key_digest :: "pyenv \<Rightarrow> float_env \<Rightarrow> cache_key \<Rightarrow> string" where
  "cache_key_digest E F k = sha256_hex (canonical_bytes E F k)"

text \<open>\<open>a == b\<close> of two keys: field by field, numbers by value.\<close>

definition same_number :: "pyval \<Rightarrow> pyval \<Rightarrow> bool" where
  "same_number v w = py_eq v w"

definition cache_key_eq :: "cache_key \<Rightarrow> cache_key \<Rightarrow> bool" where
  "cache_key_eq a b =
     (same_number (ck_duration_seconds a) (ck_duration_seconds b) \<and>
      same_number (ck_num_steps a) (ck_num_steps b) \<and>
      same_number (ck_guidance_scale a) (ck_guidance_scale b) \<and> same_number (ck_seed a) (ck_seed b) \<and>
      a\<lparr>ck_duration_seconds := PNone, ck_num_steps := PNone, ck_guidance_scale := PNone, ck_seed := PNone\<rparr> =
      b\<lparr>ck_duration_seconds := PNone, ck_num_steps := PNone, ck_guidance_scale := PNone, ck_seed := PNone\<rparr>)"

section \<open>Entries and snapshots\<close>

record cache_entry =
  ce_tier :: string
  ce_key_digest :: string
  ce_deployment_fingerprint :: string
  ce_payload :: string
  ce_payload_sha256 :: string
  ce_expires_at :: pyfloat

definition new_CacheEntry :: "cache_entry \<Rightarrow> cache_entry res" where
  "new_CacheEntry e =
     after (checks
       [require (ce_tier e \<in> {l0, l1}) ValueError ''unsupported cache tier'',
        cache_sha256 (ce_key_digest e) ''key_digest'',
        cache_sha256 (ce_deployment_fingerprint e) ''deployment_fingerprint'',
        require (ce_payload e \<noteq> []) ValueError ''cache payload must be non-empty immutable bytes'',
        cache_sha256 (ce_payload_sha256 e) ''payload_sha256'',
        require (case ce_expires_at e of FFin q \<Rightarrow> 0 \<le> q | _ \<Rightarrow> False) ValueError
          ''cache expiry must be finite and nonnegative''])
       (\<lambda>_. Inr e)"

record cache_snapshot =
  cs_entries :: int
  cs_bytes_used :: int
  cs_evictions :: int

definition new_CacheSnapshot :: "int \<Rightarrow> int \<Rightarrow> int \<Rightarrow> cache_snapshot res" where
  "new_CacheSnapshot n b e =
     after (checks
       [require (0 \<le> n) ValueError ''entries must be a nonnegative integer'',
        require (0 \<le> b) ValueError ''bytes_used must be a nonnegative integer'',
        require (0 \<le> e) ValueError ''evictions must be a nonnegative integer''])
       (\<lambda>_. Inr \<lparr>cs_entries = n, cs_bytes_used = b, cs_evictions = e\<rparr>)"


section \<open>The GPU cache configuration\<close>

record dir_env = file_env +
  de_is_dir :: "string \<Rightarrow> bool"
  de_exists :: "string \<Rightarrow> bool"

text \<open>Parent and name of a normalised absolute path, and their join.\<close>

definition path_name :: "string \<Rightarrow> string" where
  "path_name p = last (split_on (CHR ''/'') p)"

definition path_parent :: "string \<Rightarrow> string" where
  "path_parent p = (case butlast (split_on (CHR ''/'') p) of [x] \<Rightarrow> ''/'' | xs \<Rightarrow> join ''/'' xs)"

definition path_child :: "string \<Rightarrow> string \<Rightarrow> string" where
  "path_child d n = (if n = [] then d else if d = ''/'' then d @ n else d @ ''/'' @ n)"

definition absolute_existing_path :: "dir_env \<Rightarrow> pyval \<Rightarrow> string \<Rightarrow> bool \<Rightarrow> string res" where
  "absolute_existing_path P v name directory =
     (case v of
        PStr s \<Rightarrow>
          let p = fe_path P s in
          if s = [] \<or> \<not> startswith p ''/'' then raise ValueError (name @ '' must be an absolute path'')
          else if directory \<and> \<not> de_is_dir P p
          then raise ValueError (name @ '' must be an existing directory'')
          else if \<not> directory \<and> \<not> fe_is_file P p
          then raise ValueError (name @ '' must be an existing regular file'')
          else Inr (fe_resolve P p)
      | _ \<Rightarrow> raise ValueError (name @ '' must be an absolute path''))"

definition absolute_output_path :: "dir_env \<Rightarrow> pyval \<Rightarrow> string res" where
  "absolute_output_path P v =
     (case v of
        PStr s \<Rightarrow>
          let p = fe_path P s in
          if s = [] then raise ValueError ''evidence_output must be an absolute new path''
          else if \<not> startswith p ''/'' \<or> de_exists P p \<or> \<not> de_is_dir P (path_parent p)
          then raise ValueError ''evidence_output must be an absolute new path in an existing directory''
          else Inr (path_child (fe_resolve P (path_parent p)) (path_name p))
      | _ \<Rightarrow> raise ValueError ''evidence_output must be an absolute new path'')"

definition ident_start :: "char \<Rightarrow> bool" where
  "ident_start c = (c = CHR ''_'' \<or> (ascii_alnum c \<and> \<not> (48 \<le> code c \<and> code c \<le> 57)))"

definition py_identifier :: "string \<Rightarrow> bool" where
  "py_identifier s =
     (case s of [] \<Rightarrow> False | c # t \<Rightarrow> ident_start c \<and> list_all (\<lambda>d. ascii_alnum d \<or> d = CHR ''_'') t)"

definition python_module :: "string \<Rightarrow> bool" where
  "python_module s =
     (let parts = split_on (CHR ''.'') s in list_all py_identifier parts \<and> length parts \<le> 16)"

fun task_keys :: "task_kind \<Rightarrow> string list" where
  "task_keys V2A = [''video'']"
| "task_keys TV2A = [''video'', ''prompt'']"
| "task_keys TC_V2A = [''video'', ''prompt'']"
| "task_keys AC_V2A = [''video'', ''audio'']"
| "task_keys T2A = [''prompt'']"

definition gpu_cache_keys :: "string list" where
  "gpu_cache_keys =
     [''deployment'', ''fixture'', ''source_dir'', ''weights_dir'', ''backend_module'', ''task'',
      ''preprocess_version'', ''code_version'', ''evidence_output'']"

record gpu_cache_configuration =
  gc_deployment :: string
  gc_fixture :: string
  gc_source_dir :: string
  gc_weights_dir :: string
  gc_backend_module :: string
  gc_task :: task_kind
  gc_preprocess_version :: string
  gc_code_version :: string
  gc_evidence_output :: string
  gc_video :: "string option"
  gc_audio :: "string option"
  gc_prompt :: "string option"

definition safe_version_value :: "pyval \<Rightarrow> string \<Rightarrow> string res" where
  "safe_version_value v name =
     (case v of
        PStr s \<Rightarrow> after (safe_version s name) (\<lambda>_. Inr s)
      | _ \<Rightarrow> raise ValueError (name @ '' must be a safe short version identifier''))"

definition prompt_value :: "pyval \<Rightarrow> string option res" where
  "prompt_value v =
     (case v of
        PNone \<Rightarrow> Inr None
      | PStr s \<Rightarrow>
          if strip s = [] \<or> CHR 0x00 \<in> set s \<or> CHR 0x0D \<in> set s
          then raise ValueError ''prompt must be non-empty text without control delimiters''
          else Inr (Some s)
      | _ \<Rightarrow> raise ValueError ''prompt must be non-empty text without control delimiters'')"

definition optional_path :: "dir_env \<Rightarrow> (pyval \<times> pyval) list \<Rightarrow> string list \<Rightarrow> string \<Rightarrow> string option res" where
  "optional_path P d keys name =
     (if name \<in> set keys
      then after (absolute_existing_path P (dget d name) name False) (\<lambda>p. Inr (Some p))
      else Inr None)"

definition gpu_task :: "(pyval \<times> pyval) list \<Rightarrow> task_kind res" where
  "gpu_task d = (case task_of (dget d ''task'') of Inr k \<Rightarrow> Inr k | Inl _ \<Rightarrow> raise ValueError ''GPU cache task is invalid'')"

definition gpu_cache_from_dict :: "dir_env \<Rightarrow> pyval \<Rightarrow> gpu_cache_configuration res" where
  "gpu_cache_from_dict P v =
     (case v of
        PDict d \<Rightarrow>
          after (gpu_task d) (\<lambda>k.
          after (require (same_keys d (gpu_cache_keys @ task_keys k)) ValueError
                   ''GPU cache configuration has missing or unexpected fields'') (\<lambda>_.
          after (case dget d ''backend_module'' of PStr s \<Rightarrow>
                   if python_module s then Inr s
                   else raise ValueError ''backend_module must be a safe dotted Python module name''
                 | _ \<Rightarrow> raise ValueError ''backend_module must be a safe dotted Python module name'') (\<lambda>backend.
          after (safe_version_value (dget d ''preprocess_version'') ''preprocess_version'') (\<lambda>pv.
          after (safe_version_value (dget d ''code_version'') ''code_version'') (\<lambda>cv.
          after (if ''prompt'' \<in> set (task_keys k) then prompt_value (dget d ''prompt'') else Inr None) (\<lambda>prompt.
          after (absolute_existing_path P (dget d ''deployment'') ''deployment'' False) (\<lambda>dep.
          after (absolute_existing_path P (dget d ''fixture'') ''fixture'' False) (\<lambda>fx.
          after (absolute_existing_path P (dget d ''source_dir'') ''source_dir'' True) (\<lambda>source.
          after (absolute_existing_path P (dget d ''weights_dir'') ''weights_dir'' True) (\<lambda>weights.
          after (absolute_output_path P (dget d ''evidence_output'')) (\<lambda>out.
          after (optional_path P d (task_keys k) ''video'') (\<lambda>video.
          after (optional_path P d (task_keys k) ''audio'') (\<lambda>audio.
            Inr \<lparr>gc_deployment = dep, gc_fixture = fx, gc_source_dir = source, gc_weights_dir = weights,
                 gc_backend_module = backend, gc_task = k, gc_preprocess_version = pv,
                 gc_code_version = cv, gc_evidence_output = out, gc_video = video, gc_audio = audio,
                 gc_prompt = prompt\<rparr>)))))))))))))
      | _ \<Rightarrow> raise ValueError ''GPU cache configuration must be an object'')"

end
