(* ===== verification/CacheStore.thy ===== *)
theory CacheStore
  imports CacheValues
begin

text \<open>
  \<open>ControlFoleyMemoryCacheStore\<close>: the bounded in-memory store, one function per method. The
  ordered dictionary is the list of its items, least recently used first. The clock is the
  sequence of the values it will return; \<open>ms_ticks\<close> counts the readings taken. Every method runs
  under the store's lock, so that each is one step of the store.
\<close>

section \<open>State\<close>

type_synonym identity = "string \<times> string"

record memory_store =
  ms_policy :: cache_policy
  ms_clock :: "nat \<Rightarrow> pyval res"
  ms_ticks :: nat
  ms_entries :: "(identity \<times> cache_entry) list"
  ms_bytes_used :: int
  ms_evictions :: int
  ms_closed :: bool
  ms_last_now :: "rat option"

definition new_MemoryStore :: "cache_policy \<Rightarrow> (nat \<Rightarrow> pyval res) \<Rightarrow> memory_store" where
  "new_MemoryStore p clock =
     \<lparr>ms_policy = p, ms_clock = clock, ms_ticks = 0, ms_entries = [], ms_bytes_used = 0,
      ms_evictions = 0, ms_closed = False, ms_last_now = None\<rparr>"

section \<open>Helpers\<close>

definition ensure_open :: "(memory_store, unit) sop" where
  "ensure_open s = (if ms_closed s then fail RuntimeError ''cache store is closed'' s else ok () s)"

definition clock_rejects :: "float_env \<Rightarrow> pyval \<Rightarrow> rat option \<Rightarrow> bool res" where
  "clock_rejects F v l =
     any_of (bad_number F v (\<lambda>q. q < 0)
             @ [Inr (case l of None \<Rightarrow> False | Some t \<Rightarrow> num_value v < t)])"

definition float_rat :: "float_env \<Rightarrow> pyval \<Rightarrow> rat res" where
  "float_rat F v = after (float_of F v) (\<lambda>f. case f of FFin q \<Rightarrow> Inr q | _ \<Rightarrow> Inr 0)"

definition now :: "float_env \<Rightarrow> (memory_store, rat) sop" where
  "now F s =
     (let s1 = s\<lparr>ms_ticks := ms_ticks s + 1\<rparr> in
      lift (ms_clock s (ms_ticks s)) s1 (\<lambda>v.
      lift (clock_rejects F v (ms_last_now s)) s1 (\<lambda>bad.
        if bad then fail RuntimeError ''cache monotonic clock is invalid'' s1
        else lift (float_rat F v) s1 (\<lambda>q. ok q (s1\<lparr>ms_last_now := Some q\<rparr>)))))"

definition payload_size :: "cache_entry \<Rightarrow> int" where
  "payload_size e = int (length (ce_payload e))"

definition remove_entry :: "identity \<Rightarrow> memory_store \<Rightarrow> memory_store" where
  "remove_entry i s =
     (case map_of (ms_entries s) i of
        None \<Rightarrow> s
      | Some e \<Rightarrow> s\<lparr>ms_entries := AList.delete i (ms_entries s),
                   ms_bytes_used := ms_bytes_used s - payload_size e\<rparr>)"

definition move_to_end :: "identity \<Rightarrow> memory_store \<Rightarrow> memory_store" where
  "move_to_end i s =
     (case map_of (ms_entries s) i of
        None \<Rightarrow> s
      | Some e \<Rightarrow> s\<lparr>ms_entries := AList.delete i (ms_entries s) @ [(i, e)]\<rparr>)"

definition over_limits :: "cache_policy \<Rightarrow> (identity \<times> cache_entry) list \<Rightarrow> int \<Rightarrow> bool" where
  "over_limits p es b = (int (length es) > cp_max_entries p \<or> b > cp_max_total_bytes p)"

text \<open>
  The eviction loop over items, bytes used and eviction count; \<open>popitem\<close> on an empty dictionary
  raises \<open>KeyError\<close>. The loop recurses on the list it pops from.
\<close>

fun evict_loop ::
  "cache_policy \<Rightarrow> (identity \<times> cache_entry) list \<Rightarrow> int \<Rightarrow> int
     \<Rightarrow> unit res \<times> (identity \<times> cache_entry) list \<times> int \<times> int"
where
  "evict_loop p [] b n =
     (if over_limits p [] b then (raise KeyError ''dictionary is empty'', [], b, n) else (Inr (), [], b, n))"
| "evict_loop p (x # es) b n =
     (if over_limits p (x # es) b then evict_loop p es (b - payload_size (snd x)) (n + 1)
      else (Inr (), x # es, b, n))"

definition evict_to_limits :: "(memory_store, unit) sop" where
  "evict_to_limits s =
     (case evict_loop (ms_policy s) (ms_entries s) (ms_bytes_used s) (ms_evictions s) of
        (r, es, b, n) \<Rightarrow> (r, s\<lparr>ms_entries := es, ms_bytes_used := b, ms_evictions := n\<rparr>))"

definition entry_expired :: "cache_entry \<Rightarrow> rat \<Rightarrow> bool" where
  "entry_expired e t = (case ce_expires_at e of FFin q \<Rightarrow> q \<le> t | _ \<Rightarrow> False)"

section \<open>Operations\<close>

definition get_entry :: "float_env \<Rightarrow> string \<Rightarrow> string \<Rightarrow> (memory_store, cache_entry option) sop" where
  "get_entry F tier digest s =
     lift (checks [cache_tier tier, cache_sha256 digest ''key_digest'']) s (\<lambda>_.
     sbind ensure_open (\<lambda>_ s.
       case map_of (ms_entries s) (tier, digest) of
         None \<Rightarrow> ok None s
       | Some e \<Rightarrow>
           sbind (now F) (\<lambda>t s.
             if entry_expired e t
             then ok None (remove_entry (tier, digest) s)
             else ok (Some e) (move_to_end (tier, digest) s)) s) s)"

definition expiry :: "float_env \<Rightarrow> cache_policy \<Rightarrow> rat \<Rightarrow> pyfloat res" where
  "expiry F p t =
     after (float_rat F (cp_ttl_seconds p)) (\<lambda>ttl. Inr (fl_add F t ttl))"

definition store_entry :: "identity \<Rightarrow> cache_entry \<Rightarrow> (memory_store, string) sop" where
  "store_entry i e s =
     sbind evict_to_limits (\<lambda>_ s.
       ok (if map_of (ms_entries s) i \<noteq> None then ''stored'' else ''rejected'') s)
       (s\<lparr>ms_entries := AList.update i e (ms_entries s),
          ms_bytes_used := ms_bytes_used s + payload_size e\<rparr>)"

definition put_if_absent ::
  "float_env \<Rightarrow> string \<Rightarrow> string \<Rightarrow> string \<Rightarrow> string \<Rightarrow> (memory_store, string) sop"
where
  "put_if_absent F tier digest fp payload s =
     lift (checks [cache_tier tier, cache_sha256 digest ''key_digest'',
                   cache_sha256 fp ''deployment_fingerprint'',
                   require (payload \<noteq> []) ValueError ''cache payload must be non-empty immutable bytes'']) s (\<lambda>_.
     if int (length payload) > cp_max_entry_bytes (ms_policy s) then ok ''rejected'' s
     else sbind ensure_open (\<lambda>_.
       sbind (now F) (\<lambda>t s.
         let i = (tier, digest); existing = map_of (ms_entries s) i in
         if (case existing of None \<Rightarrow> False | Some e \<Rightarrow> \<not> entry_expired e t)
         then ok ''present'' (move_to_end i s)
         else let s1 = (if existing \<noteq> None then remove_entry i s else s) in
           lift (after (expiry F (ms_policy s) t) (\<lambda>x.
                   new_CacheEntry
                     \<lparr>ce_tier = tier, ce_key_digest = digest, ce_deployment_fingerprint = fp,
                      ce_payload = payload, ce_payload_sha256 = sha256_hex payload, ce_expires_at = x\<rparr>)) s1
             (\<lambda>e. store_entry i e s1))) s)"

definition delete_entry :: "string \<Rightarrow> string \<Rightarrow> (memory_store, unit) sop" where
  "delete_entry tier digest s =
     lift (checks [cache_tier tier, cache_sha256 digest ''key_digest'']) s (\<lambda>_.
     sbind ensure_open (\<lambda>_ s. ok () (remove_entry (tier, digest) s)) s)"

definition store_invalidate_deployment :: "string \<Rightarrow> (memory_store, int) sop" where
  "store_invalidate_deployment fp s =
     lift (cache_sha256 fp ''deployment_fingerprint'') s (\<lambda>_.
     sbind ensure_open (\<lambda>_ s.
       let ids = map fst (filter (\<lambda>x. ce_deployment_fingerprint (snd x) = fp) (ms_entries s))
       in ok (int (length ids)) (fold remove_entry ids s)) s)"

definition store_invalidate_all :: "(memory_store, int) sop" where
  "store_invalidate_all =
     sbind ensure_open (\<lambda>_ s.
       ok (int (length (ms_entries s))) (s\<lparr>ms_entries := [], ms_bytes_used := 0\<rparr>))"

definition store_snapshot :: "float_env \<Rightarrow> (memory_store, cache_snapshot) sop" where
  "store_snapshot F =
     sbind ensure_open (\<lambda>_.
     sbind (now F) (\<lambda>t s.
       let s1 = fold remove_entry (map fst (filter (\<lambda>x. entry_expired (snd x) t) (ms_entries s))) s
       in lift (new_CacheSnapshot (int (length (ms_entries s1))) (ms_bytes_used s1) (ms_evictions s1)) s1
            (\<lambda>c. ok c s1)))"

definition store_close :: "(memory_store, unit) sop" where
  "store_close s = ok () (s\<lparr>ms_entries := [], ms_bytes_used := 0, ms_closed := True\<rparr>)"

end
