(* ===== verification/CacheInv.thy ===== *)
theory CacheInv
  imports CacheStore
begin

text \<open>
  The invariant of the in-memory cache store and what each operation does to it: limits, byte
  accounting and intact entries; the eviction loop ends and drops the shortest prefix; where the
  resident entries come from.
\<close>

section \<open>The invariant\<close>

definition total_size :: "(identity \<times> cache_entry) list \<Rightarrow> int" where
  "total_size es = sum_list (map (\<lambda>x. payload_size (snd x)) es)"

definition policy_limits :: "cache_policy \<Rightarrow> bool" where
  "policy_limits p \<longleftrightarrow> 0 < cp_max_entries p \<and> 0 < cp_max_entry_bytes p \<and> cp_max_entry_bytes p \<le> cp_max_total_bytes p"

definition entry_ok :: "cache_policy \<Rightarrow> identity \<times> cache_entry \<Rightarrow> bool" where
  "entry_ok p x \<longleftrightarrow> fst x = (ce_tier (snd x), ce_key_digest (snd x)) \<and> ce_payload (snd x) \<noteq> [] \<and>
     payload_size (snd x) \<le> cp_max_entry_bytes p \<and>
     ce_payload_sha256 (snd x) = sha256_hex (ce_payload (snd x)) \<and>
     sha256_text_ok (ce_deployment_fingerprint (snd x)) \<and> finite_float (ce_expires_at (snd x))"

definition store_inv :: "memory_store \<Rightarrow> bool" where
  "store_inv s \<longleftrightarrow> policy_limits (ms_policy s) \<and> distinct (map fst (ms_entries s)) \<and>
     ms_bytes_used s = total_size (ms_entries s) \<and> list_all (entry_ok (ms_policy s)) (ms_entries s) \<and>
     \<not> over_limits (ms_policy s) (ms_entries s) (ms_bytes_used s) \<and> 0 \<le> ms_evictions s \<and>
     (ms_closed s \<longrightarrow> ms_entries s = [])"

lemma total_size_simps [simp]:
  "total_size [] = 0" "total_size (x # es) = payload_size (snd x) + total_size es"
  "total_size (es @ fs) = total_size es + total_size fs"
  by (simp_all add: total_size_def)

lemma payload_size_nonneg [simp]: "0 \<le> payload_size e"
  by (simp add: payload_size_def)

lemma total_size_nonneg [simp]: "0 \<le> total_size es"
  by (induction es) simp_all

lemma cache_sha256_ok: "cache_sha256 h n = Inr () \<longleftrightarrow> sha256_text_ok h"
  by (auto simp: cache_sha256_def sha256_text_ok_def)

lemma cache_sha256_error: "cache_sha256 h n = Inl e \<Longrightarrow> \<not> sha256_text_ok h"
  using cache_sha256_ok [of h n] by auto

lemma new_CachePolicy_limits: "new_CachePolicy F p = Inr q \<Longrightarrow> q = p \<and> policy_limits p"
  by (auto simp: new_CachePolicy_def after_eq_Inr checks_Cons_ok policy_limits_def)

section \<open>Removing entries\<close>

lemma delete_filter: "AList.delete i es = filter (\<lambda>x. fst x \<noteq> i) es"
  by (induction es) auto

lemma total_size_delete:
  "distinct (map fst es) \<Longrightarrow> map_of es i = Some e \<Longrightarrow>
     total_size (AList.delete i es) = total_size es - payload_size e"
proof (induction es)
  case Nil
  then show ?case by simp
next
  case (Cons x es)
  then show ?case
    by (cases "fst x = i") (auto simp: map_of_eq_None_iff [symmetric] delete_filter
        intro!: arg_cong [where f = total_size] filter_True dest: map_of_SomeD)
qed

lemma total_size_filter_le: "total_size (filter P es) \<le> total_size es"
  by (induction es) (simp_all add: add_increasing)

lemma not_over_filter:
  assumes "\<not> over_limits p es (total_size es)"
  shows "\<not> over_limits p (filter P es) (total_size (filter P es))"
proof -
  have "int (length (filter P es)) \<le> int (length es)" by simp
  with total_size_filter_le [of P es] assms show ?thesis
    unfolding over_limits_def by linarith
qed

lemma remove_entry_simps [simp]:
  "ms_policy (remove_entry i s) = ms_policy s" "ms_clock (remove_entry i s) = ms_clock s"
  "ms_ticks (remove_entry i s) = ms_ticks s" "ms_evictions (remove_entry i s) = ms_evictions s"
  "ms_closed (remove_entry i s) = ms_closed s" "ms_last_now (remove_entry i s) = ms_last_now s"
  by (simp_all add: remove_entry_def split: option.splits)

lemma remove_entry_entries: "ms_entries (remove_entry i s) = filter (\<lambda>x. fst x \<noteq> i) (ms_entries s)"
proof (cases "map_of (ms_entries s) i")
  case None
  then have "filter (\<lambda>x. fst x \<noteq> i) (ms_entries s) = ms_entries s"
    by (intro filter_True) (auto simp: map_of_eq_None_iff)
  with None show ?thesis by (simp add: remove_entry_def)
qed (simp add: remove_entry_def delete_filter)

lemma remove_entry_inv:
  assumes "store_inv s" shows "store_inv (remove_entry i s)"
proof -
  have b: "ms_bytes_used (remove_entry i s) = total_size (ms_entries (remove_entry i s))"
    using assms by (auto simp: store_inv_def remove_entry_def total_size_delete split: option.splits)
  have "\<not> over_limits (ms_policy s) (filter (\<lambda>x. fst x \<noteq> i) (ms_entries s))
      (total_size (filter (\<lambda>x. fst x \<noteq> i) (ms_entries s)))"
    using assms by (intro not_over_filter) (clarsimp simp: store_inv_def)
  then show ?thesis
    using assms b
    by (auto simp: store_inv_def remove_entry_entries list_all_iff distinct_map_filter)
qed

lemma fold_remove_inv: "store_inv s \<Longrightarrow> store_inv (fold remove_entry is s)"
  by (induction "is" arbitrary: s) (simp_all add: remove_entry_inv)

lemma fold_remove_simps [simp]:
  "ms_policy (fold remove_entry is s) = ms_policy s" "ms_clock (fold remove_entry is s) = ms_clock s"
  "ms_ticks (fold remove_entry is s) = ms_ticks s" "ms_evictions (fold remove_entry is s) = ms_evictions s"
  "ms_closed (fold remove_entry is s) = ms_closed s" "ms_last_now (fold remove_entry is s) = ms_last_now s"
  by (induction "is" arbitrary: s) simp_all

lemma fold_remove_entries:
  "ms_entries (fold remove_entry is s) = filter (\<lambda>x. fst x \<notin> set is) (ms_entries s)"
  by (induction "is" arbitrary: s) (simp_all add: remove_entry_entries conj_commute)

text \<open>Removing the identities of the entries with a property leaves those without it.\<close>

lemma fold_remove_filter:
  assumes "distinct (map fst (ms_entries s))"
  shows "ms_entries (fold remove_entry (map fst (filter P (ms_entries s))) s) = filter (\<lambda>x. \<not> P x) (ms_entries s)"
  unfolding fold_remove_entries using assms
  by (intro filter_cong refl) (auto simp: distinct_map inj_on_def)

lemma move_to_end_simps [simp]:
  "ms_policy (move_to_end i s) = ms_policy s" "ms_clock (move_to_end i s) = ms_clock s"
  "ms_ticks (move_to_end i s) = ms_ticks s" "ms_evictions (move_to_end i s) = ms_evictions s"
  "ms_closed (move_to_end i s) = ms_closed s" "ms_last_now (move_to_end i s) = ms_last_now s"
  "ms_bytes_used (move_to_end i s) = ms_bytes_used s"
  by (simp_all add: move_to_end_def split: option.splits)

lemma move_to_end_set:
  assumes "distinct (map fst (ms_entries s))"
  shows "set (ms_entries (move_to_end i s)) = set (ms_entries s)"
    "length (ms_entries (move_to_end i s)) = length (ms_entries s)"
    "total_size (ms_entries (move_to_end i s)) = total_size (ms_entries s)"
    "distinct (map fst (ms_entries (move_to_end i s)))"
proof -
  have "set (filter (\<lambda>x. fst x \<noteq> i) es) \<union> {(i, e)} = set es \<and> Suc (length (filter (\<lambda>x. fst x \<noteq> i) es)) = length es"
    if "distinct (map fst es)" "map_of es i = Some e" for es :: "(identity \<times> cache_entry) list" and e
    using that
  proof (induction es)
    case Nil
    then show ?case by simp
  next
    case (Cons x es)
    show ?case
    proof (cases "fst x = i")
      case True
      with Cons.prems(1) have "i \<notin> fst ` set es" by simp
      then have "filter (\<lambda>x. fst x \<noteq> i) es = es" by (intro filter_True) blast
      with True Cons.prems show ?thesis by (cases x) auto
    next
      case False
      with Cons show ?thesis by (cases x) auto
    qed
  qed
  note f = this
  show "set (ms_entries (move_to_end i s)) = set (ms_entries s)"
    "length (ms_entries (move_to_end i s)) = length (ms_entries s)"
    using f assms by (auto simp: move_to_end_def delete_filter split: option.splits)
  show "total_size (ms_entries (move_to_end i s)) = total_size (ms_entries s)"
    using assms by (auto simp: move_to_end_def total_size_delete split: option.splits)
  show "distinct (map fst (ms_entries (move_to_end i s)))"
    using assms by (auto simp: move_to_end_def delete_filter distinct_map_filter split: option.splits)
qed

lemma move_to_end_inv: "store_inv s \<Longrightarrow> store_inv (move_to_end i s)"
  by (auto simp: store_inv_def over_limits_def move_to_end_set list_all_iff)
     (auto simp: move_to_end_def)


section \<open>Eviction\<close>

text \<open>
  The loop ends without an error and leaves the longest suffix within the limits: it drops \<open>k\<close>
  items, and every shorter prefix dropped would have left too much.
\<close>

lemma evict_loop_spec:
  assumes "policy_limits p"
  shows "\<exists>k \<le> length es. evict_loop p es (total_size es) n = (Inr (), drop k es, total_size (drop k es), n + int k) \<and>
     \<not> over_limits p (drop k es) (total_size (drop k es)) \<and>
     (\<forall>j < k. over_limits p (drop j es) (total_size (drop j es)))"
proof (induction es arbitrary: n)
  case Nil
  from assms have "\<not> over_limits p [] 0" by (simp add: over_limits_def policy_limits_def)
  then show ?case by simp
next
  case (Cons x es)
  show ?case
  proof (cases "over_limits p (x # es) (total_size (x # es))")
    case True
    from Cons.IH [of "n + 1"] obtain k where k: "k \<le> length es"
      "evict_loop p es (total_size es) (n + 1) = (Inr (), drop k es, total_size (drop k es), n + 1 + int k)"
      "\<not> over_limits p (drop k es) (total_size (drop k es))"
      "\<forall>j < k. over_limits p (drop j es) (total_size (drop j es))" by blast
    have "over_limits p (drop j (x # es)) (total_size (drop j (x # es)))" if "j < Suc k" for j
      using that True k(4) by (cases j) auto
    with True k show ?thesis by (intro exI [of _ "Suc k"]) (auto simp: algebra_simps)
  next
    case False
    then show ?thesis by (intro exI [of _ 0]) auto
  qed
qed

lemma total_size_drop_le: "total_size (drop k es) \<le> total_size es"
proof -
  have "total_size es = total_size (take k es) + total_size (drop k es)"
    by (simp add: total_size_simps(3) [symmetric] del: total_size_simps(3))
  then show ?thesis by simp
qed

section \<open>The clock\<close>

text \<open>\<open>same_content s t\<close>: nothing but the clock's bookkeeping differs.\<close>

definition same_content :: "memory_store \<Rightarrow> memory_store \<Rightarrow> bool" where
  "same_content s t \<longleftrightarrow> ms_policy t = ms_policy s \<and> ms_entries t = ms_entries s \<and>
     ms_bytes_used t = ms_bytes_used s \<and> ms_evictions t = ms_evictions s \<and> ms_closed t = ms_closed s"

lemma same_content_refl [simp]: "same_content s s"
  by (simp add: same_content_def)

lemma same_content_inv: "same_content s t \<Longrightarrow> store_inv t = store_inv s"
  by (simp add: same_content_def store_inv_def)

lemma now_wp:
  "wp (\<lambda>e t. same_content s t)
      (\<lambda>q t. same_content s t \<and> ms_last_now t = Some q)
      (now F s)"
  unfolding now_def Let_def wp_simps by (auto simp: same_content_def)

lemma ensure_open_wp:
  "wp (\<lambda>e t. t = s \<and> ms_closed s \<and> e = Exc RuntimeError ''cache store is closed'')
      (\<lambda>u t. t = s \<and> \<not> ms_closed s) (ensure_open s)"
  unfolding ensure_open_def wp_simps by simp

section \<open>Operations\<close>

text \<open>
  \<open>shrinks s t\<close>: every entry of \<open>t\<close> was in \<open>s\<close>. The operations other than \<open>put_if_absent\<close> keep
  the invariant and shrink; \<open>put_if_absent\<close> may add the entry it was given.
\<close>

definition shrinks :: "memory_store \<Rightarrow> memory_store \<Rightarrow> bool" where
  "shrinks s t \<longleftrightarrow> store_inv t \<and> ms_policy t = ms_policy s \<and> set (ms_entries t) \<subseteq> set (ms_entries s)"

lemma shrinks_content: "store_inv s \<Longrightarrow> same_content s t \<Longrightarrow> shrinks s t"
  by (simp add: shrinks_def same_content_inv) (simp add: same_content_def)

lemma shrinks_bytes: "shrinks s t \<Longrightarrow> ms_bytes_used t = total_size (ms_entries t)"
  by (simp add: shrinks_def store_inv_def)

lemma shrinks_remove: "shrinks s t \<Longrightarrow> shrinks s (remove_entry i t)"
  by (auto simp: shrinks_def remove_entry_inv remove_entry_entries)

lemma shrinks_fold_remove: "shrinks s t \<Longrightarrow> shrinks s (fold remove_entry is t)"
  by (auto simp: shrinks_def fold_remove_inv fold_remove_entries)

lemma shrinks_move:
  assumes "shrinks s t" shows "shrinks s (move_to_end i t)"
proof -
  have "distinct (map fst (ms_entries t))" using assms by (simp add: shrinks_def store_inv_def)
  with assms show ?thesis by (simp add: shrinks_def move_to_end_inv move_to_end_set(1))
qed

lemma shrinks_clear:
  "shrinks s t \<Longrightarrow> shrinks s (t\<lparr>ms_entries := [], ms_bytes_used := 0\<rparr>)"
  "shrinks s t \<Longrightarrow> shrinks s (t\<lparr>ms_entries := [], ms_bytes_used := 0, ms_closed := True\<rparr>)"
  by (auto simp: shrinks_def store_inv_def over_limits_def policy_limits_def)

text \<open>Rules for going through an operation one call at a time.\<close>

lemma lift_wp:
  "(\<And>e. r = Inl e \<Longrightarrow> X e s) \<Longrightarrow> (\<And>a. r = Inr a \<Longrightarrow> wp X V (k a)) \<Longrightarrow> wp X V (lift r s k)"
  by (simp add: wp_lift)

lemma sbind_wp:
  "wp X0 V0 (m s) \<Longrightarrow> (\<And>e t. X0 e t \<Longrightarrow> X e t) \<Longrightarrow> (\<And>a t. V0 a t \<Longrightarrow> wp X V (k a t)) \<Longrightarrow>
     wp X V (sbind m k s)"
  unfolding wp_sbind by (erule wp_mono) auto

lemma get_entry_wp:
  assumes "store_inv s"
  shows "wp (\<lambda>e t. shrinks s t)
      (\<lambda>r t. shrinks s t \<and>
         (\<forall>e. r = Some e \<longrightarrow> ((tier, digest), e) \<in> set (ms_entries s) \<and>
              (\<exists>q. ms_last_now t = Some q \<and> \<not> entry_expired e q)))
      (get_entry F tier digest s)"
  unfolding get_entry_def
  apply (rule lift_wp)
  using assms apply (simp add: shrinks_content)
  apply (rule sbind_wp [OF ensure_open_wp])
  using assms apply (simp add: shrinks_content)
  apply (clarsimp simp: wp_simps)
  apply (intro conjI impI)
  using assms apply (simp add: shrinks_content)
  apply (intro allI impI)
  apply (rule wp_mono [OF now_wp])
  using assms apply (auto simp: shrinks_content same_content_def dest: map_of_SomeD
      intro: shrinks_remove shrinks_move)
  done

lemma delete_entry_wp:
  assumes "store_inv s" shows "wp (\<lambda>e t. shrinks s t) (\<lambda>r t. shrinks s t) (delete_entry tier digest s)"
  unfolding delete_entry_def
  by (rule lift_wp, simp add: assms shrinks_content, rule sbind_wp [OF ensure_open_wp])
     (auto simp: assms shrinks_content wp_simps intro!: shrinks_remove)

lemma store_invalidate_deployment_wp:
  assumes "store_inv s"
  shows "wp (\<lambda>e t. shrinks s t \<and> (sha256_text_ok fp \<longrightarrow> ms_entries t = []))
      (\<lambda>n t. shrinks s t \<and> (\<forall>x \<in> set (ms_entries t). ce_deployment_fingerprint (snd x) \<noteq> fp))
      (store_invalidate_deployment fp s)"
proof -
  have d: "distinct (map fst (ms_entries s))" using assms by (simp add: store_inv_def)
  show ?thesis
    unfolding store_invalidate_deployment_def
    apply (rule lift_wp)
    using assms apply (auto simp: shrinks_content dest: cache_sha256_error)[1]
    apply (rule sbind_wp [OF ensure_open_wp])
    using assms apply (auto simp: shrinks_content store_inv_def)[1]
    using assms apply (auto simp: wp_simps Let_def shrinks_content fold_remove_filter [OF d] intro!: shrinks_fold_remove)
    done
qed

lemma store_invalidate_all_wp:
  assumes "store_inv s"
  shows "wp (\<lambda>e t. shrinks s t \<and> ms_entries t = []) (\<lambda>n t. shrinks s t \<and> ms_entries t = [])
      (store_invalidate_all s)"
  unfolding store_invalidate_all_def
  apply (rule sbind_wp [OF ensure_open_wp])
  using assms apply (auto simp: shrinks_content store_inv_def)[1]
  using assms apply (auto simp: wp_simps intro!: shrinks_clear shrinks_content)
  done

lemma store_snapshot_wp:
  assumes "store_inv s"
  shows "wp (\<lambda>e t. shrinks s t)
      (\<lambda>c t. shrinks s t \<and> cs_entries c = int (length (ms_entries t)) \<and> cs_bytes_used c = total_size (ms_entries t) \<and>
         cs_evictions c = ms_evictions t)
      (store_snapshot F s)"
  unfolding store_snapshot_def
  apply (rule sbind_wp [OF ensure_open_wp])
  using assms apply (simp add: shrinks_content)
  apply (rule sbind_wp [OF now_wp])
  using assms apply (simp add: shrinks_content)
  apply (simp only: Let_def)
  apply (rule lift_wp)
  using assms apply (simp add: shrinks_content shrinks_fold_remove)
  subgoal for u t q t' c
    using assms shrinks_fold_remove [OF shrinks_content [of s t']]
      shrinks_bytes [OF shrinks_fold_remove [OF shrinks_content [of s t']]]
    by (auto simp: wp_simps new_CacheSnapshot_def after_eq_Inr)
  done

lemma store_close_wp:
  assumes "store_inv s" shows "wp (\<lambda>e t. shrinks s t) (\<lambda>r t. shrinks s t \<and> ms_entries t = []) (store_close s)"
  using assms by (simp add: store_close_def wp_simps shrinks_clear shrinks_content)


text \<open>
  Storing a new entry within the entry limit: the loop keeps it, since alone it is within every
  limit, so the answer is always \<open>stored\<close>; what is dropped is the shortest prefix that brings the
  rest within the limits, and the eviction count grows by its length.
\<close>

lemma store_entry_spec:
  assumes inv: "store_inv s" and new: "map_of (ms_entries s) i = None"
    and ok: "entry_ok (ms_policy s) (i, e)" and op: "\<not> ms_closed s"
  shows "\<exists>k \<le> length (ms_entries s).
     store_entry i e s =
       ok ''stored'' (s\<lparr>ms_entries := drop k (ms_entries s) @ [(i, e)],
                       ms_bytes_used := total_size (drop k (ms_entries s) @ [(i, e)]),
                       ms_evictions := ms_evictions s + int k\<rparr>) \<and>
     store_inv (snd (store_entry i e s)) \<and>
     (\<forall>j < k. over_limits (ms_policy s) (drop j (ms_entries s) @ [(i, e)])
                (total_size (drop j (ms_entries s) @ [(i, e)])))"
proof -
  let ?p = "ms_policy s" and ?es = "ms_entries s" and ?fs = "ms_entries s @ [(i, e)]"
  have lim: "policy_limits ?p" and bytes: "ms_bytes_used s = total_size ?es"
    and dist: "distinct (map fst ?es)" and each: "list_all (entry_ok ?p) ?es" and ev: "0 \<le> ms_evictions s"
    using inv by (simp_all add: store_inv_def)
  have up: "AList.update i e ?es = ?fs" using new
    by (intro update_new) (simp add: map_of_eq_None_iff)
  obtain k where k: "k \<le> length ?fs"
    "evict_loop ?p ?fs (total_size ?fs) (ms_evictions s) =
       (Inr (), drop k ?fs, total_size (drop k ?fs), ms_evictions s + int k)"
    "\<not> over_limits ?p (drop k ?fs) (total_size (drop k ?fs))"
    "\<forall>j < k. over_limits ?p (drop j ?fs) (total_size (drop j ?fs))"
    using evict_loop_spec [OF lim] by blast
  have "\<not> over_limits ?p [(i, e)] (total_size [(i, e)])"
    using lim ok by (auto simp: over_limits_def policy_limits_def entry_ok_def)
  with k(4) have kl: "k \<le> length ?es" by (metis drop_append drop_all append_Nil diff_self_eq_0 drop_0 le_refl not_le_imp_less)
  then have d: "drop j ?fs = drop j ?es @ [(i, e)]" if "j \<le> k" for j using that by simp
  have run: "store_entry i e s =
       ok ''stored'' (s\<lparr>ms_entries := drop k ?es @ [(i, e)], ms_bytes_used := total_size (drop k ?es @ [(i, e)]),
                       ms_evictions := ms_evictions s + int k\<rparr>)"
    using k(2) d [of k] up new
    by (simp add: store_entry_def evict_to_limits_def bytes sbind_def map_of_append)
  have "distinct (map fst (drop k ?es @ [(i, e)]))"
    using dist new by (auto simp: drop_map [symmetric] map_of_eq_None_iff dest: in_set_dropD)
  moreover have "list_all (entry_ok ?p) (drop k ?es @ [(i, e)])"
    using each ok by (auto simp: list_all_iff dest: in_set_dropD)
  ultimately have "store_inv (snd (store_entry i e s))"
    using lim ev op k(3) d [of k] unfolding run by (simp add: store_inv_def)
  with run kl k(4) d show ?thesis by (intro exI [of _ k]) auto
qed


lemma new_CacheEntry_ok:
  "new_CacheEntry e = Inr e' \<Longrightarrow> e' = e \<and> ce_payload e \<noteq> [] \<and> sha256_text_ok (ce_deployment_fingerprint e) \<and>
     finite_float (ce_expires_at e)"
  by (auto simp: new_CacheEntry_def after_eq_Inr checks_Cons_ok cache_sha256_ok finite_float_def
      split: pyfloat.splits)

definition stores :: "float_env \<Rightarrow> memory_store \<Rightarrow> identity \<Rightarrow> string \<Rightarrow> string \<Rightarrow> memory_store \<Rightarrow> bool" where
  "stores F s i fp payload t \<longleftrightarrow> store_inv t \<and> ms_policy t = ms_policy s \<and>
     (\<exists>e k q x. ms_entries t = drop k (filter (\<lambda>x. fst x \<noteq> i) (ms_entries s)) @ [(i, e)] \<and>
        ce_payload e = payload \<and> ce_deployment_fingerprint e = fp \<and> ms_last_now t = Some q \<and>
        expiry F (ms_policy s) q = Inr x \<and> ce_expires_at e = x)"

definition keeps :: "memory_store \<Rightarrow> identity \<Rightarrow> memory_store \<Rightarrow> bool" where
  "keeps s i t \<longleftrightarrow> store_inv t \<and> ms_policy t = ms_policy s \<and> set (ms_entries t) = set (ms_entries s) \<and>
     (\<exists>e q. (i, e) \<in> set (ms_entries s) \<and> ms_last_now t = Some q \<and> \<not> entry_expired e q)"

lemma store_entry_stores:
  assumes "store_inv s" "\<not> ms_closed s" "i = (tier, digest)" "int (length payload) \<le> cp_max_entry_bytes (ms_policy s)"
    and e: "new_CacheEntry \<lparr>ce_tier = tier, ce_key_digest = digest, ce_deployment_fingerprint = fp,
       ce_payload = payload, ce_payload_sha256 = sha256_hex payload, ce_expires_at = x\<rparr> = Inr e"
    and new: "map_of (ms_entries s) i = None"
    and q: "ms_last_now s = Some q" "expiry F (ms_policy s) q = Inr x"
  shows "\<exists>t. store_entry i e s = ok ''stored'' t \<and> stores F s i fp payload t"
proof -
  note f = new_CacheEntry_ok [OF e]
  have ok: "entry_ok (ms_policy s) (i, e)" using f assms(3,4) by (auto simp: entry_ok_def payload_size_def)
  have same: "filter (\<lambda>x. fst x \<noteq> i) (ms_entries s) = ms_entries s"
    using new by (intro filter_True) (auto simp: map_of_eq_None_iff)
  from store_entry_spec [OF assms(1) new ok assms(2)] obtain k where
    r: "store_entry i e s = ok ''stored'' (s\<lparr>ms_entries := drop k (ms_entries s) @ [(i, e)],
                       ms_bytes_used := total_size (drop k (ms_entries s) @ [(i, e)]),
                       ms_evictions := ms_evictions s + int k\<rparr>)" (is "_ = ok _ ?t")
      and v: "store_inv (snd (store_entry i e s))" by blast
  have "stores F s i fp payload ?t"
    using v f q unfolding stores_def r same by auto
  with r show ?thesis by blast
qed

lemma put_if_absent_wp:
  assumes inv: "store_inv s"
  shows "wp (\<lambda>e t. shrinks s t)
      (\<lambda>r t. (r = ''rejected'' \<and> t = s \<and> cp_max_entry_bytes (ms_policy s) < int (length payload)) \<or>
             (r = ''present'' \<and> keeps s (tier, digest) t) \<or>
             (r = ''stored'' \<and> stores F s (tier, digest) fp payload t))
      (put_if_absent F tier digest fp payload s)"
proof -
  let ?i = "(tier, digest)"
  show ?thesis
    unfolding put_if_absent_def
    apply (rule lift_wp)
    using inv apply (simp add: shrinks_content)
    apply (subst wp_if)
    apply (intro conjI impI)
    apply (simp add: wp_simps)
    apply (rule sbind_wp [OF ensure_open_wp])
    using inv apply (simp add: shrinks_content)
    apply (rule sbind_wp [OF now_wp])
    using inv apply (simp add: shrinks_content)
    subgoal premises p for u v t q t'
    proof -
      from p have t: "same_content s t'" "\<not> ms_closed s" "ms_last_now t' = Some q"
        and size: "int (length payload) \<le> cp_max_entry_bytes (ms_policy s)" by auto
      then have it: "store_inv t'" using inv by (simp add: same_content_inv)
      have et: "ms_entries t' = ms_entries s" "ms_policy t' = ms_policy s" "\<not> ms_closed t'"
        using t by (simp_all add: same_content_def)
      have dist: "distinct (map fst (ms_entries s))" using inv by (simp add: store_inv_def)
      show ?thesis
      proof (cases "case map_of (ms_entries t') ?i of None \<Rightarrow> False | Some e \<Rightarrow> \<not> entry_expired e q")
        case True
        then obtain e where "map_of (ms_entries s) ?i = Some e" "\<not> entry_expired e q"
          using et by (auto split: option.splits)
        with True t et inv it dist have "keeps s ?i (move_to_end ?i t')"
          by (auto simp: keeps_def move_to_end_inv move_to_end_set(1) dest: map_of_SomeD)
        with True show ?thesis by (simp add: Let_def wp_simps)
      next
        case False
        define s1 where "s1 = (if map_of (ms_entries t') ?i \<noteq> None then remove_entry ?i t' else t')"
        have es1: "ms_entries s1 = filter (\<lambda>x. fst x \<noteq> ?i) (ms_entries s)"
        proof -
          have "s1 = remove_entry ?i t'" by (simp add: s1_def remove_entry_def)
          then show ?thesis by (simp add: remove_entry_entries et)
        qed
        have is1: "store_inv s1" "ms_policy s1 = ms_policy s" "\<not> ms_closed s1"
          using it et by (auto simp: s1_def remove_entry_inv)
        have new: "map_of (ms_entries s1) ?i = None"
          by (auto simp: es1 map_of_eq_None_iff)
        have ln: "ms_last_now s1 = Some q" using t by (simp add: s1_def)
        have sh: "shrinks s s1" using is1 es1 by (auto simp: shrinks_def)
        have st: "wp (\<lambda>e t. shrinks s t)
            (\<lambda>r t. (r = ''rejected'' \<and> t = s \<and> cp_max_entry_bytes (ms_policy s) < int (length payload)) \<or>
             (r = ''present'' \<and> keeps s ?i t) \<or> (r = ''stored'' \<and> stores F s ?i fp payload t))
            (lift (after (expiry F (ms_policy t') q) (\<lambda>x.
                   new_CacheEntry
                     \<lparr>ce_tier = tier, ce_key_digest = digest, ce_deployment_fingerprint = fp,
                      ce_payload = payload, ce_payload_sha256 = sha256_hex payload, ce_expires_at = x\<rparr>)) s1
             (\<lambda>e. store_entry ?i e s1))"
        proof (rule lift_wp)
          show "shrinks s s1" by (rule sh)
        next
          fix e
          assume "after (expiry F (ms_policy t') q) (\<lambda>x. new_CacheEntry
                     \<lparr>ce_tier = tier, ce_key_digest = digest, ce_deployment_fingerprint = fp,
                      ce_payload = payload, ce_payload_sha256 = sha256_hex payload, ce_expires_at = x\<rparr>) = Inr e"
          then obtain x where x: "expiry F (ms_policy s) q = Inr x" and entry: "new_CacheEntry
                     \<lparr>ce_tier = tier, ce_key_digest = digest, ce_deployment_fingerprint = fp,
                      ce_payload = payload, ce_payload_sha256 = sha256_hex payload, ce_expires_at = x\<rparr> = Inr e"
            by (auto simp: after_eq_Inr et)
          from store_entry_stores [OF is1(1,3) refl _ entry new ln, of F] size is1(2) x
          obtain t2 where "store_entry ?i e s1 = ok ''stored'' t2" "stores F s1 ?i fp payload t2" by auto
          then show "wp (\<lambda>e t. shrinks s t)
            (\<lambda>r t. (r = ''rejected'' \<and> t = s \<and> cp_max_entry_bytes (ms_policy s) < int (length payload)) \<or>
             (r = ''present'' \<and> keeps s ?i t) \<or> (r = ''stored'' \<and> stores F s ?i fp payload t))
            (store_entry ?i e s1)"
            by (simp add: wp_simps stores_def es1 is1(2))
        qed
        with False show ?thesis by (simp add: Let_def s1_def)
      qed
    qed
    done
qed


section \<open>The store as a machine\<close>

datatype cache_op =
    OpGet string string
  | OpPut string string string string
  | OpDelete string string
  | OpInvalidateDeployment string
  | OpInvalidateAll
  | OpSnapshot
  | OpClose

fun cache_step :: "float_env \<Rightarrow> cache_op \<Rightarrow> memory_store \<Rightarrow> memory_store" where
  "cache_step F (OpGet t d) s = snd (get_entry F t d s)"
| "cache_step F (OpPut t d fp x) s = snd (put_if_absent F t d fp x s)"
| "cache_step F (OpDelete t d) s = snd (delete_entry t d s)"
| "cache_step F (OpInvalidateDeployment fp) s = snd (store_invalidate_deployment fp s)"
| "cache_step F OpInvalidateAll s = snd (store_invalidate_all s)"
| "cache_step F OpSnapshot s = snd (store_snapshot F s)"
| "cache_step F OpClose s = snd (store_close s)"

text \<open>Where the entries after a step come from.\<close>

definition comes_from :: "cache_op \<Rightarrow> memory_store \<Rightarrow> identity \<times> cache_entry \<Rightarrow> bool" where
  "comes_from x s y \<longleftrightarrow> y \<in> set (ms_entries s) \<or>
     x = OpPut (fst (fst y)) (snd (fst y)) (ce_deployment_fingerprint (snd y)) (ce_payload (snd y))"

definition step_ok :: "cache_op \<Rightarrow> memory_store \<Rightarrow> memory_store \<Rightarrow> bool" where
  "step_ok x s t \<longleftrightarrow> store_inv t \<and> ms_policy t = ms_policy s \<and> (\<forall>y \<in> set (ms_entries t). comes_from x s y)"

lemma step_ok_shrinks: "shrinks s t \<Longrightarrow> step_ok x s t"
  by (auto simp: shrinks_def step_ok_def comes_from_def)

lemma step_ok_snd: "wp (\<lambda>e t. step_ok x s t) (\<lambda>r t. step_ok x s t) p \<Longrightarrow> step_ok x s (snd p)"
  by (simp add: wp_state)

lemma stores_step_ok: "store_inv s \<Longrightarrow> stores F s (a, b) fp p t \<Longrightarrow> step_ok (OpPut a b fp p) s t"
  using set_drop_subset
  by (fastforce simp: stores_def step_ok_def comes_from_def)

lemma keeps_step_ok: "keeps s i t \<Longrightarrow> step_ok x s t"
  by (auto simp: keeps_def step_ok_def comes_from_def)

lemma shrinks_snd: "wp (\<lambda>e t. shrinks s t \<and> X e t) (\<lambda>r t. shrinks s t \<and> V r t) p \<Longrightarrow> step_ok x s (snd p)"
  by (rule step_ok_snd, erule wp_mono) (auto intro: step_ok_shrinks)

lemma cache_step_ok:
  assumes i: "store_inv s" shows "step_ok x s (cache_step F x s)"
proof (cases x)
  case (OpGet t d)
  show ?thesis unfolding OpGet cache_step.simps
    by (rule step_ok_snd, rule wp_mono [OF get_entry_wp [OF i]]) (auto intro: step_ok_shrinks)
next
  case (OpPut a b fp p)
  show ?thesis unfolding OpPut cache_step.simps
  proof (rule step_ok_snd, rule wp_mono [OF put_if_absent_wp [OF i]])
    fix r t
    assume "r = ''rejected'' \<and> t = s \<and> cp_max_entry_bytes (ms_policy s) < int (length p) \<or>
       r = ''present'' \<and> keeps s (a, b) t \<or> r = ''stored'' \<and> stores F s (a, b) fp p t"
    moreover have "step_ok (OpPut a b fp p) s s" using i by (simp add: step_ok_shrinks shrinks_content)
    ultimately show "step_ok (OpPut a b fp p) s t"
      using keeps_step_ok stores_step_ok [OF i] by metis
  qed (rule step_ok_shrinks)
next
  case (OpDelete t d)
  show ?thesis unfolding OpDelete cache_step.simps
    by (rule step_ok_snd, rule wp_mono [OF delete_entry_wp [OF i]]) (auto intro: step_ok_shrinks)
next
  case (OpInvalidateDeployment fp)
  show ?thesis unfolding OpInvalidateDeployment cache_step.simps
    by (rule shrinks_snd, rule store_invalidate_deployment_wp [OF i])
next
  case OpInvalidateAll
  show ?thesis unfolding OpInvalidateAll cache_step.simps
    by (rule shrinks_snd, rule store_invalidate_all_wp [OF i])
next
  case OpSnapshot
  show ?thesis unfolding OpSnapshot cache_step.simps
    by (rule step_ok_snd, rule wp_mono [OF store_snapshot_wp [OF i]]) (auto intro: step_ok_shrinks)
next
  case OpClose
  show ?thesis unfolding OpClose cache_step.simps
    by (rule step_ok_snd, rule wp_mono [OF store_close_wp [OF i]]) (auto intro: step_ok_shrinks)
qed

fun store_run :: "float_env \<Rightarrow> cache_op list \<Rightarrow> memory_store \<Rightarrow> memory_store" where
  "store_run F [] s = s"
| "store_run F (x # xs) s = store_run F xs (cache_step F x s)"

lemma store_run_append: "store_run F (xs @ ys) s = store_run F ys (store_run F xs s)"
  by (induction xs arbitrary: s) simp_all

lemma store_run_inv: "store_inv s \<Longrightarrow> store_inv (store_run F xs s) \<and> ms_policy (store_run F xs s) = ms_policy s"
proof (induction xs arbitrary: s)
  case Nil
  then show ?case by simp
next
  case (Cons x xs)
  from cache_step_ok [OF Cons.prems, of x F] Cons.IH show ?case by (simp add: step_ok_def)
qed

text \<open>Every resident entry was there at the start or was put by one of the operations.\<close>

lemma resident_source:
  assumes "store_inv s" and "(i, e) \<in> set (ms_entries (store_run F xs s))"
  shows "(i, e) \<in> set (ms_entries s) \<or>
    OpPut (fst i) (snd i) (ce_deployment_fingerprint e) (ce_payload e) \<in> set xs"
  using assms
proof (induction xs arbitrary: s)
  case Nil
  then show ?case by simp
next
  case (Cons x xs)
  from cache_step_ok [OF Cons.prems(1), of x F] have st: "step_ok x s (cache_step F x s)" .
  then have "(i, e) \<in> set (ms_entries (cache_step F x s)) \<or>
      OpPut (fst i) (snd i) (ce_deployment_fingerprint e) (ce_payload e) \<in> set xs"
    using Cons by (simp add: step_ok_def)
  with st show ?case by (auto simp: step_ok_def comes_from_def)
qed

end
