(* ===== verification/CacheFacade.thy ===== *)
theory CacheFacade
  imports CacheStore RuntimeValues
begin

text \<open>
  The transaction and the facade of the ControlFoley cache (\<open>ControlFoleyCacheTransaction\<close>,
  \<open>ControlFoleyL0L1Cache\<close>) over any store with the methods of the \<open>ControlFoleyCacheStore\<close>
  protocol. A transaction is thread-local; the facade is shared, and its lock makes each of its
  sections one step. What other threads do between the two sections of \<open>begin\<close> is an argument.
\<close>

section \<open>Stores\<close>

text \<open>A store may answer with an object of another type, which the callers test for.\<close>

datatype 'a answer = Answer 'a | Alien

record 's cache_ops =
  co_get :: "string \<Rightarrow> string \<Rightarrow> ('s, cache_entry answer option) sop"
  co_put :: "string \<Rightarrow> string \<Rightarrow> string \<Rightarrow> string \<Rightarrow> ('s, string answer) sop"
  co_delete :: "string \<Rightarrow> string \<Rightarrow> ('s, unit) sop"
  co_invalidate_deployment :: "string \<Rightarrow> ('s, int) sop"
  co_invalidate_all :: "('s, int) sop"
  co_snapshot :: "('s, cache_snapshot answer) sop"
  co_close :: "('s, unit) sop"

definition fmap_sop :: "('a \<Rightarrow> 'b) \<Rightarrow> ('s, 'a) sop \<Rightarrow> ('s, 'b) sop" where
  "fmap_sop f m = sbind m (\<lambda>a s. ok (f a) s)"

definition memory_ops :: "float_env \<Rightarrow> memory_store cache_ops" where
  "memory_ops F =
     \<lparr>co_get = (\<lambda>t d. fmap_sop (map_option Answer) (get_entry F t d)),
      co_put = (\<lambda>t d fp x. fmap_sop Answer (put_if_absent F t d fp x)),
      co_delete = delete_entry, co_invalidate_deployment = store_invalidate_deployment,
      co_invalidate_all = store_invalidate_all, co_snapshot = fmap_sop Answer (store_snapshot F),
      co_close = store_close\<rparr>"

text \<open>\<open>except Exception\<close>: the handler runs on the state the call has left.\<close>

definition except_Exception :: "('s, 'a) sop \<Rightarrow> ('s, 'a) sop \<Rightarrow> ('s, 'a) sop" where
  "except_Exception m h s =
     (case m s of
        (Inl e, s') \<Rightarrow> if instance_of e Exception then h s' else (Inl e, s')
      | (Inr a, s') \<Rightarrow> (Inr a, s'))"

section \<open>The facade's state and its guarded calls\<close>

record 's cache_facade =
  fc_store :: 's
  fc_generation :: int
  fc_globally_disabled :: bool
  fc_disabled_deployments :: "string list"

definition new_cache :: "'s \<Rightarrow> 's cache_facade" where
  "new_cache store =
     \<lparr>fc_store = store, fc_generation = 0, fc_globally_disabled = False, fc_disabled_deployments = []\<rparr>"

definition on_store :: "('s, 'a) sop \<Rightarrow> ('s cache_facade, 'a) sop" where
  "on_store m c = (case m (fc_store c) of (r, s) \<Rightarrow> (r, c\<lparr>fc_store := s\<rparr>))"

definition is_disabled :: "'s cache_facade \<Rightarrow> string \<Rightarrow> bool" where
  "is_disabled c fp = (fc_globally_disabled c \<or> fp \<in> set (fc_disabled_deployments c))"

text \<open>What a call needs beside the facade: the text and float parameters, and the store's methods.\<close>

record 's cache_world =
  cw_py :: pyenv
  cw_fl :: float_env
  cw_ops :: "'s cache_ops"

definition world_digest :: "'s cache_world \<Rightarrow> cache_key \<Rightarrow> string" where
  "world_digest W k = cache_key_digest (cw_py W) (cw_fl W) k"

definition world_bytes :: "'s cache_world \<Rightarrow> cache_key \<Rightarrow> string" where
  "world_bytes W k = canonical_bytes (cw_py W) (cw_fl W) k"

definition facade_get_entry ::
  "'s cache_world \<Rightarrow> string \<Rightarrow> cache_key \<Rightarrow> ('s cache_facade, cache_entry answer option) sop"
where
  "facade_get_entry W tier k c =
     (if is_disabled c (ck_deployment_fingerprint k)
      then fail RuntimeError ''cache store is unavailable'' c
      else on_store (co_get (cw_ops W) tier (world_digest W k)) c)"

definition known_outcome :: "string answer \<Rightarrow> string" where
  "known_outcome a =
     (case a of
        Answer r \<Rightarrow> if r \<in> {''stored'', ''present'', ''rejected''} then r else ''fault''
      | Alien \<Rightarrow> ''fault'')"

definition safe_put :: "'s cache_world \<Rightarrow> string \<Rightarrow> cache_key \<Rightarrow> string \<Rightarrow> ('s cache_facade, string) sop" where
  "safe_put W tier k payload c =
     (if is_disabled c (ck_deployment_fingerprint k) then ok ''fault'' c
      else except_Exception
        (fmap_sop known_outcome
          (on_store (co_put (cw_ops W) tier (world_digest W k) (ck_deployment_fingerprint k) payload)))
        (ok ''fault'') c)"

definition safe_delete :: "'s cache_world \<Rightarrow> string \<Rightarrow> string \<Rightarrow> string \<Rightarrow> ('s cache_facade, unit) sop" where
  "safe_delete W tier digest fp c =
     (if is_disabled c fp then ok () c
      else except_Exception (on_store (co_delete (cw_ops W) tier digest)) (ok ()) c)"

definition known_snapshot :: "cache_snapshot answer \<Rightarrow> cache_snapshot option" where
  "known_snapshot a = (case a of Answer x \<Rightarrow> Some x | Alien \<Rightarrow> None)"

definition safe_snapshot :: "'s cache_world \<Rightarrow> ('s cache_facade, cache_snapshot option) sop" where
  "safe_snapshot W c =
     (if fc_globally_disabled c then ok None c
      else except_Exception (fmap_sop known_snapshot (on_store (co_snapshot (cw_ops W)))) (ok None) c)"

section \<open>Transactions\<close>

record cache_transaction =
  tx_key :: "cache_key option"
  tx_generation :: int
  tx_states :: "(string \<times> string) list"
  tx_payloads :: "(string \<times> string) list"
  tx_pending :: "(string \<times> string) list"
  tx_faults :: int
  tx_writes :: int
  tx_reason :: "string option"
  tx_store_disabled :: bool
  tx_complete :: bool

text \<open>An operation of a transaction works on the facade and on the transaction.\<close>

type_synonym ('s, 'a) tx_op = "('s cache_facade \<times> cache_transaction, 'a) sop"

definition on_cache :: "('s cache_facade, 'a) sop \<Rightarrow> ('s, 'a) tx_op" where
  "on_cache m ct = (case m (fst ct) of (r, c) \<Rightarrow> (r, (c, snd ct)))"

definition on_tx :: "(cache_transaction \<Rightarrow> cache_transaction) \<Rightarrow> ('s, unit) tx_op" where
  "on_tx f ct = ok () (fst ct, f (snd ct))"

definition set_tier :: "string \<Rightarrow> string \<Rightarrow> cache_transaction \<Rightarrow> cache_transaction" where
  "set_tier tier st t = t\<lparr>tx_states := AList.update tier st (tx_states t)\<rparr>"

definition add_fault :: "cache_transaction \<Rightarrow> cache_transaction" where
  "add_fault t = t\<lparr>tx_faults := tx_faults t + 1\<rparr>"

definition fault_reason :: "string \<Rightarrow> string" where
  "fault_reason r =
     (if r \<in> {''codec_fault'', ''store_fault'', ''key_unavailable'', ''limit_rejected''} then r else ''store_fault'')"

definition record_fault :: "string \<Rightarrow> cache_transaction \<Rightarrow> cache_transaction" where
  "record_fault r t = t\<lparr>tx_faults := tx_faults t + 1, tx_reason := Some (fault_reason r)\<rparr>"

definition valid_entry ::
  "'s cache_world \<Rightarrow> cache_key \<Rightarrow> string \<Rightarrow> string option \<Rightarrow> cache_entry \<Rightarrow> bool"
where
  "valid_entry W k tier expected e =
     (ce_tier e = tier \<and> ce_key_digest e = world_digest W k \<and>
      ce_deployment_fingerprint e = ck_deployment_fingerprint k \<and>
      sha256_hex (ce_payload e) = ce_payload_sha256 e \<and>
      (case expected of None \<Rightarrow> True | Some x \<Rightarrow> ce_payload e = x))"

definition corrupt_entry :: "'s cache_world \<Rightarrow> string \<Rightarrow> cache_key \<Rightarrow> ('s, unit) tx_op" where
  "corrupt_entry W tier k =
     sbind (on_tx (\<lambda>t. add_fault (set_tier tier ''corrupt'' t)))
       (\<lambda>_. on_cache (safe_delete W tier (world_digest W k) (ck_deployment_fingerprint k)))"

definition hit_entry :: "string \<Rightarrow> cache_entry \<Rightarrow> cache_transaction \<Rightarrow> cache_transaction" where
  "hit_entry tier e t =
     (set_tier tier ''hit'' t)\<lparr>tx_payloads := AList.update tier (ce_payload e) (tx_payloads t)\<rparr>"

text \<open>\<open>_read\<close>: the look-up, \<open>None\<close> when it raised; then the classification of what came back.\<close>

definition looked_up :: "'s cache_world \<Rightarrow> string \<Rightarrow> cache_key \<Rightarrow> ('s, cache_entry answer option option) tx_op" where
  "looked_up W tier k =
     except_Exception (fmap_sop Some (on_cache (facade_get_entry W tier k))) (ok None)"

definition tx_read :: "'s cache_world \<Rightarrow> cache_key \<Rightarrow> string \<Rightarrow> string option \<Rightarrow> ('s, unit) tx_op" where
  "tx_read W k tier expected =
     sbind (looked_up W tier k) (\<lambda>r.
       case r of
         None \<Rightarrow> on_tx (\<lambda>t. record_fault ''store_fault'' (set_tier tier ''miss'' t))
       | Some None \<Rightarrow> on_tx (set_tier tier ''miss'')
       | Some (Some Alien) \<Rightarrow> corrupt_entry W tier k
       | Some (Some (Answer e)) \<Rightarrow>
           if valid_entry W k tier expected e then on_tx (hit_entry tier e)
           else corrupt_entry W tier k)"

definition blank_transaction :: "cache_key option \<Rightarrow> int \<Rightarrow> string option \<Rightarrow> bool \<Rightarrow> cache_transaction" where
  "blank_transaction key generation reason disabled =
     \<lparr>tx_key = key, tx_generation = generation, tx_states = [(l0, ''unavailable''), (l1, ''unavailable'')],
      tx_payloads = [], tx_pending = [], tx_faults = (if reason = None then 0 else 1), tx_writes = 0,
      tx_reason = reason, tx_store_disabled = disabled, tx_complete = False\<rparr>"

definition stage_metadata :: "string \<Rightarrow> cache_transaction \<Rightarrow> cache_transaction" where
  "stage_metadata content t =
     (if map_of (tx_states t) l0 = Some ''hit'' then t
      else t\<lparr>tx_pending := AList.update l0 content (tx_pending t)\<rparr>)"

definition new_transaction ::
  "'s cache_world \<Rightarrow> cache_key option \<Rightarrow> int \<Rightarrow> string option \<Rightarrow> bool \<Rightarrow> ('s cache_facade, cache_transaction) sop"
where
  "new_transaction W key generation reason disabled c =
     (let t0 = blank_transaction key generation reason disabled in
      case key of
        None \<Rightarrow> ok t0 c
      | Some k \<Rightarrow>
          (case sbind (tx_read W k l0 (Some (world_bytes W k))) (\<lambda>_.
                sbind (tx_read W k l1 None) (\<lambda>_.
                  on_tx (stage_metadata (world_bytes W k)))) (c, t0) of
             (Inl e, ct) \<Rightarrow> (Inl e, fst ct)
           | (Inr u, ct) \<Rightarrow> ok (snd ct) (fst ct)))"

definition cached_preprocess :: "cache_transaction \<Rightarrow> string option" where
  "cached_preprocess t = map_of (tx_payloads t) l1"

definition reject_cached_preprocess :: "'s cache_world \<Rightarrow> ('s, unit) tx_op" where
  "reject_cached_preprocess W ct =
     (case tx_key (snd ct) of
        None \<Rightarrow> ok () ct
      | Some k \<Rightarrow>
          sbind (on_tx (\<lambda>t. add_fault ((set_tier l1 ''corrupt'' t)\<lparr>tx_payloads := AList.delete l1 (tx_payloads t)\<rparr>)))
            (\<lambda>_. on_cache (safe_delete W l1 (world_digest W k) (ck_deployment_fingerprint k))) ct)"

definition stage_preprocess :: "pyval \<Rightarrow> cache_transaction \<Rightarrow> cache_transaction" where
  "stage_preprocess payload t =
     (if tx_key t = None \<or> tx_complete t then t
      else case payload of
        PBytes x \<Rightarrow> if x = [] then record_fault ''codec_fault'' t
                    else t\<lparr>tx_pending := AList.update l1 x (tx_pending t)\<rparr>
      | _ \<Rightarrow> record_fault ''codec_fault'' t)"

definition abort :: "cache_transaction \<Rightarrow> cache_transaction" where
  "abort t = t\<lparr>tx_pending := [], tx_complete := True\<rparr>"

section \<open>Reports\<close>

definition count_states :: "string list \<Rightarrow> cache_transaction \<Rightarrow> int" where
  "count_states which t = int (length (filter (\<lambda>x. snd x \<in> set which) (tx_states t)))"

definition report_metadata :: "cache_transaction \<Rightarrow> cache_snapshot \<Rightarrow> pyval" where
  "report_metadata t s =
     PDict [(PStr ''schema_version'', PInt 1), (PStr ''namespace'', PStr ''controlfoley''),
            (PStr ''status'', PStr (if tx_faults t = 0 then ''ok'' else ''degraded'')),
            (PStr ''mode'', PStr cache_mode),
            (PStr ''levels'', PDict (map (\<lambda>(k, v). (PStr k, PStr v)) (tx_states t))),
            (PStr ''writes'', PInt (tx_writes t)), (PStr ''faults'', PInt (tx_faults t)),
            (PStr ''resident_entries'', PInt (cs_entries s)), (PStr ''evictions'', PInt (cs_evictions s)),
            (PStr ''reason'', opt_str (tx_reason t))]"

definition empty_snapshot :: cache_snapshot where
  "empty_snapshot = \<lparr>cs_entries = 0, cs_bytes_used = 0, cs_evictions = 0\<rparr>"

definition build_report :: "'s cache_world \<Rightarrow> cache_snapshot \<Rightarrow> ('s, cache_report) tx_op" where
  "build_report W snap ct =
     lift (new_CacheReport (cw_py W) (PInt (count_states [''hit''] (snd ct)))
             (PInt (count_states [''miss'', ''corrupt''] (snd ct))) (PInt (cs_bytes_used snap))
             (report_metadata (snd ct) snap)) ct
       (\<lambda>r. ok r ct)"

definition tx_report :: "'s cache_world \<Rightarrow> ('s, cache_report) tx_op" where
  "tx_report W ct =
     sbind (if tx_store_disabled (snd ct) then ok None else on_cache (safe_snapshot W)) (\<lambda>s.
       case s of
         Some snap \<Rightarrow> build_report W snap
       | None \<Rightarrow>
           sbind (on_tx (\<lambda>t. if tx_faults t = 0 then record_fault ''store_fault'' t else t))
             (\<lambda>_. build_report W empty_snapshot)) ct"

section \<open>Commit\<close>

definition count_outcome :: "string \<Rightarrow> cache_transaction \<Rightarrow> cache_transaction" where
  "count_outcome outcome t =
     (if outcome = ''stored'' then t\<lparr>tx_writes := tx_writes t + 1\<rparr>
      else if outcome = ''fault'' then record_fault ''store_fault'' t
      else if outcome = ''rejected'' then record_fault ''limit_rejected'' t
      else t)"

fun write_pending :: "'s cache_world \<Rightarrow> cache_key \<Rightarrow> (string \<times> string) list \<Rightarrow> ('s, unit) tx_op" where
  "write_pending W k [] = ok ()"
| "write_pending W k ((tier, payload) # ps) =
     sbind (on_cache (safe_put W tier k payload)) (\<lambda>outcome.
     sbind (on_tx (count_outcome outcome)) (\<lambda>_. write_pending W k ps))"

definition input_drift :: "string \<Rightarrow> ('s, 'a) tx_op" where
  "input_drift m = fail ControlFoleyCacheInputDrift m"

definition tx_commit :: "'s cache_world \<Rightarrow> cache_key option \<Rightarrow> ('s, cache_report) tx_op" where
  "tx_commit W current ct =
     (if tx_complete (snd ct) then tx_report W ct
      else case tx_key (snd ct) of
        None \<Rightarrow> sbind (on_tx (\<lambda>t. t\<lparr>tx_complete := True\<rparr>)) (\<lambda>_. tx_report W) ct
      | Some k \<Rightarrow>
          if (case current of None \<Rightarrow> True | Some k' \<Rightarrow> \<not> cache_key_eq k' k)
          then sbind (on_tx abort)
                 (\<lambda>_. input_drift ''ControlFoley cache inputs changed before commit'') ct
          else sbind (write_pending W k (tx_pending (snd ct))) (\<lambda>_.
               sbind (on_tx abort) (\<lambda>_. tx_report W)) ct)"

definition tx_invalidated :: "'s cache_world \<Rightarrow> ('s, cache_report) tx_op" where
  "tx_invalidated W =
     sbind (on_tx (\<lambda>t. (abort t)\<lparr>tx_reason := Some ''invalidated''\<rparr>)) (\<lambda>_. tx_report W)"

section \<open>The facade's operations\<close>

type_synonym configuration = "(pyval \<times> pyval) list"

definition key_for ::
  "'s cache_world \<Rightarrow> cache_policy \<Rightarrow> file_env \<Rightarrow> local_request \<Rightarrow> configuration \<Rightarrow> string \<Rightarrow> cache_key res"
where
  "key_for W p P r config fp = cache_key_from_request (cw_py W) P (cw_fl W) p r config fp"

definition disabled_transaction :: "'s cache_world \<Rightarrow> ('s cache_facade, cache_transaction) sop" where
  "disabled_transaction W c = new_transaction W None (fc_generation c) (Some ''store_fault'') True c"

definition keyless_transaction :: "'s cache_world \<Rightarrow> ('s cache_facade, cache_transaction) sop" where
  "keyless_transaction W c = new_transaction W None (fc_generation c) (Some ''key_unavailable'') False c"

definition begin_locked :: "'s cache_world \<Rightarrow> cache_key \<Rightarrow> string \<Rightarrow> ('s cache_facade, cache_transaction) sop" where
  "begin_locked W k fp c =
     (if is_disabled c fp then disabled_transaction W c
      else new_transaction W (Some k) (fc_generation c) None False c)"

definition cache_begin ::
  "'s cache_world \<Rightarrow> cache_policy \<Rightarrow> file_env \<Rightarrow> ('s cache_facade \<Rightarrow> 's cache_facade) \<Rightarrow> local_request
     \<Rightarrow> configuration \<Rightarrow> string \<Rightarrow> ('s cache_facade, cache_transaction) sop"
where
  "cache_begin W p P others r config fp c =
     (if is_disabled c fp then disabled_transaction W c
      else case key_for W p P r config fp of
        Inl e \<Rightarrow> if instance_of e Exception then keyless_transaction W (others c) else (Inl e, others c)
      | Inr k \<Rightarrow> except_Exception (begin_locked W k fp) (keyless_transaction W) (others c))"

definition cache_commit ::
  "'s cache_world \<Rightarrow> cache_policy \<Rightarrow> file_env \<Rightarrow> local_request \<Rightarrow> configuration \<Rightarrow> string
     \<Rightarrow> ('s, cache_report) tx_op"
where
  "cache_commit W p P r config fp ct =
     (if tx_key (snd ct) = None then tx_commit W None ct
      else case key_for W p P r config fp of
        Inl e \<Rightarrow>
          if instance_of e Exception
          then sbind (on_tx abort)
                 (\<lambda>_. input_drift ''ControlFoley cache inputs could not be revalidated'') ct
          else (Inl e, ct)
      | Inr k \<Rightarrow>
          if tx_generation (snd ct) \<noteq> fc_generation (fst ct) then tx_invalidated W ct
          else tx_commit W (Some k) ct)"

definition next_generation :: "'s cache_facade \<Rightarrow> 's cache_facade" where
  "next_generation c = c\<lparr>fc_generation := fc_generation c + 1\<rparr>"

definition cache_invalidate_deployment :: "'s cache_world \<Rightarrow> string \<Rightarrow> ('s cache_facade, int) sop" where
  "cache_invalidate_deployment W fp c =
     lift (cache_sha256 fp ''deployment_fingerprint'') c (\<lambda>_.
       let c1 = next_generation c in
       if fc_globally_disabled c1 then ok 0 c1
       else except_Exception (on_store (co_invalidate_deployment (cw_ops W) fp))
              (\<lambda>c2. ok 0 (c2\<lparr>fc_disabled_deployments := fp # fc_disabled_deployments c2\<rparr>)) c1)"

definition cache_invalidate_all :: "'s cache_world \<Rightarrow> ('s cache_facade, int) sop" where
  "cache_invalidate_all W c =
     (let c1 = next_generation c in
      if fc_globally_disabled c1 then ok 0 c1
      else except_Exception (on_store (co_invalidate_all (cw_ops W)))
             (\<lambda>c2. ok 0 (c2\<lparr>fc_globally_disabled := True\<rparr>)) c1)"

definition cache_close :: "'s cache_world \<Rightarrow> ('s cache_facade, unit) sop" where
  "cache_close W c =
     except_Exception (on_store (co_close (cw_ops W))) (ok ())
       ((next_generation c)\<lparr>fc_globally_disabled := True\<rparr>)"

end
