(* ===== verification/CacheContract.thy ===== *)
theory CacheContract
  imports CacheInv CacheFacade
begin

text \<open>
  What the cache facade relies on, as a locale, and what it guarantees whatever store fulfils it:
  no store exception reaches a request, a hit is a resident entry of the very key, a stale or
  drifted transaction publishes nothing. The in-memory store is an instance.
\<close>

section \<open>Going through an operation\<close>

lemma fmap_wp: "wp X (\<lambda>a t. V (f a) t) (m s) \<Longrightarrow> wp X V (fmap_sop f m s)"
  unfolding fmap_sop_def wp_sbind by (erule wp_mono) (simp_all add: wp_simps)

lemma except_Exception_wp:
  assumes "wp X0 V0 (m s)" and "\<And>a t. V0 a t \<Longrightarrow> V a t"
    and "\<And>e t. X0 e t \<Longrightarrow> instance_of e Exception \<Longrightarrow> wp X V (h t)"
    and "\<And>e t. X0 e t \<Longrightarrow> \<not> instance_of e Exception \<Longrightarrow> X e t"
  shows "wp X V (except_Exception m h s)"
proof (cases "m s")
  case (Pair r t)
  with assms(1) show ?thesis
    by (cases r) (auto simp: except_Exception_def wp_simps intro: assms(2-4))
qed

lemma on_store_wp:
  "wp (\<lambda>e t. X e (c\<lparr>fc_store := t\<rparr>)) (\<lambda>a t. V a (c\<lparr>fc_store := t\<rparr>)) (m (fc_store c)) \<Longrightarrow> wp X V (on_store m c)"
  by (auto simp: on_store_def wp_def split: prod.splits sum.splits)

lemma on_cache_wp:
  "wp (\<lambda>e c. X e (c, snd ct)) (\<lambda>a c. V a (c, snd ct)) (m (fst ct)) \<Longrightarrow> wp X V (on_cache m ct)"
  by (auto simp: on_cache_def wp_def split: prod.splits sum.splits)

lemma on_tx_wp: "V () (fst ct, f (snd ct)) \<Longrightarrow> wp X V (on_tx f ct)"
  by (simp add: on_tx_def wp_simps)

text \<open>A call of the store whose exceptions are caught and replaced by an answer.\<close>

lemma isolated_call:
  assumes "wp (\<lambda>e t. instance_of e Exception \<and> P t) R (m (fc_store c))"
    and "\<And>t. P t \<Longrightarrow> V x (c\<lparr>fc_store := t\<rparr>)" and "\<And>a t. R a t \<Longrightarrow> V (f a) (c\<lparr>fc_store := t\<rparr>)"
  shows "wp (\<lambda>e d. False) V (except_Exception (fmap_sop f (on_store m)) (ok x) c)"
  using assms
  by (auto simp: except_Exception_def fmap_sop_def sbind_def on_store_def wp_def ok_def
      split: prod.splits sum.splits)

lemma isolated_unit_call:
  assumes "wp (\<lambda>e t. instance_of e Exception \<and> P t) R (m (fc_store c))"
    and "\<And>t. P t \<Longrightarrow> wp (\<lambda>e d. False) V (h (c\<lparr>fc_store := t\<rparr>))" and "\<And>a t. R a t \<Longrightarrow> V a (c\<lparr>fc_store := t\<rparr>)"
  shows "wp (\<lambda>e d. False) V (except_Exception (on_store m) h c)"
proof (cases "m (fc_store c)")
  case (Pair r t)
  with assms show ?thesis by (cases r) (auto simp: except_Exception_def on_store_def wp_simps)
qed

text \<open>The facade's own fields stay as they are.\<close>

definition same_flags :: "'s cache_facade \<Rightarrow> 's cache_facade \<Rightarrow> bool" where
  "same_flags c d \<longleftrightarrow> fc_generation d = fc_generation c \<and>
     fc_globally_disabled d = fc_globally_disabled c \<and> fc_disabled_deployments d = fc_disabled_deployments c"

lemma same_flags_refl [simp]: "same_flags c c"
  and same_flags_store [simp]: "same_flags c (c\<lparr>fc_store := s\<rparr>)"
  and same_flags_trans: "same_flags c d \<Longrightarrow> same_flags d e \<Longrightarrow> same_flags c e"
  by (simp_all add: same_flags_def)

definition snapshot_ok :: "cache_snapshot \<Rightarrow> bool" where
  "snapshot_ok x \<longleftrightarrow> 0 \<le> cs_entries x \<and> 0 \<le> cs_bytes_used x \<and> 0 \<le> cs_evictions x"

text \<open>The entries that a put, or the writes of a commit, may add.\<close>

definition added :: "string \<Rightarrow> string \<Rightarrow> string \<Rightarrow> string \<Rightarrow> (identity \<times> cache_entry) set" where
  "added tier digest fp payload =
     {(i, e). i = (tier, digest) \<and> ce_payload e = payload \<and> ce_deployment_fingerprint e = fp}"

definition pending_entries :: "'s cache_world \<Rightarrow> cache_key \<Rightarrow> (string \<times> string) list \<Rightarrow> (identity \<times> cache_entry) set" where
  "pending_entries W k ps =
     (\<Union>(tier, payload) \<in> set ps. added tier (world_digest W k) (ck_deployment_fingerprint k) payload)"

lemma pending_entries_Cons [simp]:
  "pending_entries W k ((tier, payload) # ps) =
     added tier (world_digest W k) (ck_deployment_fingerprint k) payload \<union> pending_entries W k ps"
  and pending_entries_Nil [simp]: "pending_entries W k [] = {}"
  by (auto simp: pending_entries_def)

lemma union_trans: "A \<subseteq> B \<union> X \<Longrightarrow> B \<subseteq> C \<union> Y \<Longrightarrow> A \<subseteq> C \<union> (Y \<union> X)"
  and subset_union_trans: "A \<subseteq> B \<Longrightarrow> B \<subseteq> C \<union> Y \<Longrightarrow> A \<subseteq> C \<union> Y"
  by blast+

definition commit_adds :: "'s cache_world \<Rightarrow> cache_transaction \<Rightarrow> (identity \<times> cache_entry) set" where
  "commit_adds W t =
     (case tx_key t of None \<Rightarrow> {} | Some k \<Rightarrow> if tx_complete t then {} else pending_entries W k (tx_pending t))"

text \<open>When a commit refuses: the transaction is open and the key computed again is not its own.\<close>

definition tx_drifted :: "cache_transaction \<Rightarrow> cache_key option \<Rightarrow> bool" where
  "tx_drifted t current \<longleftrightarrow> \<not> tx_complete t \<and>
     (\<exists>k. tx_key t = Some k \<and> (case current of None \<Rightarrow> True | Some k' \<Rightarrow> \<not> cache_key_eq k' k))"

definition commit_refused ::
  "'s cache_world \<Rightarrow> cache_policy \<Rightarrow> file_env \<Rightarrow> local_request \<Rightarrow> configuration \<Rightarrow> string
     \<Rightarrow> 's cache_facade \<Rightarrow> cache_transaction \<Rightarrow> bool"
where
  "commit_refused W p P r config fp c t \<longleftrightarrow> tx_key t \<noteq> None \<and>
     (case key_for W p P r config fp of Inl _ \<Rightarrow> True
      | Inr k \<Rightarrow> tx_generation t = fc_generation c \<and> tx_drifted t (Some k))"

section \<open>The contract\<close>

locale cache_store_contract =
  fixes ops :: "'s cache_ops"
    and inv :: "'s \<Rightarrow> bool"
    and resident :: "'s \<Rightarrow> (identity \<times> cache_entry) set"
  assumes get_law: "inv s \<Longrightarrow>
      wp (\<lambda>e t. instance_of e Exception \<and> inv t \<and> resident t \<subseteq> resident s)
         (\<lambda>r t. inv t \<and> resident t \<subseteq> resident s \<and>
            (\<forall>e. r = Some (Answer e) \<longrightarrow> ((tier, digest), e) \<in> resident s))
         (co_get ops tier digest s)"
    and put_law: "inv s \<Longrightarrow>
      wp (\<lambda>e t. instance_of e Exception \<and> inv t \<and> resident t \<subseteq> resident s)
         (\<lambda>r t. inv t \<and> resident t \<subseteq> resident s \<union> added tier digest fp payload)
         (co_put ops tier digest fp payload s)"
    and delete_law: "inv s \<Longrightarrow>
      wp (\<lambda>e t. instance_of e Exception \<and> inv t \<and> resident t \<subseteq> resident s)
         (\<lambda>r t. inv t \<and> resident t \<subseteq> resident s) (co_delete ops tier digest s)"
    and invalidate_deployment_law: "inv s \<Longrightarrow>
      wp (\<lambda>e t. instance_of e Exception \<and> inv t) (\<lambda>r t. inv t) (co_invalidate_deployment ops fp s)"
    and invalidate_all_law: "inv s \<Longrightarrow>
      wp (\<lambda>e t. instance_of e Exception \<and> inv t) (\<lambda>r t. inv t) (co_invalidate_all ops s)"
    and snapshot_law: "inv s \<Longrightarrow>
      wp (\<lambda>e t. instance_of e Exception \<and> inv t \<and> resident t \<subseteq> resident s)
         (\<lambda>r t. inv t \<and> resident t \<subseteq> resident s \<and> (\<forall>x. r = Answer x \<longrightarrow> snapshot_ok x)) (co_snapshot ops s)"
    and close_law: "inv s \<Longrightarrow>
      wp (\<lambda>e t. instance_of e Exception \<and> inv t) (\<lambda>r t. inv t) (co_close ops s)"
begin

text \<open>\<open>settled c d\<close>: the store is sound, nothing was added to it, and the facade's fields are kept.\<close>

definition settled :: "'s cache_facade \<Rightarrow> 's cache_facade \<Rightarrow> bool" where
  "settled c d \<longleftrightarrow> inv (fc_store d) \<and> same_flags c d \<and> resident (fc_store d) \<subseteq> resident (fc_store c)"

lemma settled_refl: "inv (fc_store c) \<Longrightarrow> settled c c"
  and settled_inv: "settled c d \<Longrightarrow> inv (fc_store d)"
  and settled_trans: "settled c d \<Longrightarrow> settled d e \<Longrightarrow> settled c e"
  by (auto simp: settled_def intro: same_flags_trans)

lemma safe_delete_law:
  assumes "inv (fc_store c)" "cw_ops W = ops"
  shows "wp (\<lambda>e d. False) (\<lambda>r d. settled c d) (safe_delete W tier digest fp c)"
proof (cases "is_disabled c fp")
  case True
  with assms show ?thesis by (simp add: safe_delete_def wp_simps settled_refl)
next
  case False
  have "wp (\<lambda>e d. False) (\<lambda>r d. settled c d) (except_Exception (on_store (co_delete ops tier digest)) (ok ()) c)"
    by (rule isolated_unit_call, rule delete_law [OF assms(1)]) (auto simp: wp_simps settled_def)
  with False assms(2) show ?thesis by (simp add: safe_delete_def)
qed

lemma safe_snapshot_law:
  assumes "inv (fc_store c)" "cw_ops W = ops"
  shows "wp (\<lambda>e d. False) (\<lambda>r d. settled c d \<and> (\<forall>x. r = Some x \<longrightarrow> snapshot_ok x)) (safe_snapshot W c)"
proof (cases "fc_globally_disabled c")
  case True
  with assms show ?thesis by (simp add: safe_snapshot_def wp_simps settled_refl)
next
  case False
  have "wp (\<lambda>e d. False) (\<lambda>r d. settled c d \<and> (\<forall>x. r = Some x \<longrightarrow> snapshot_ok x))
      (except_Exception (fmap_sop known_snapshot (on_store (co_snapshot ops))) (ok None) c)"
    by (rule isolated_call, rule snapshot_law [OF assms(1)])
       (auto simp: settled_def known_snapshot_def split: answer.splits)
  with False assms(2) show ?thesis by (simp add: safe_snapshot_def)
qed

lemma safe_put_law:
  assumes "inv (fc_store c)" "cw_ops W = ops"
  shows "wp (\<lambda>e d. False) (\<lambda>r d. inv (fc_store d) \<and> same_flags c d \<and>
      resident (fc_store d) \<subseteq> resident (fc_store c) \<union> added tier (world_digest W k) (ck_deployment_fingerprint k) payload)
    (safe_put W tier k payload c)"
proof (cases "is_disabled c (ck_deployment_fingerprint k)")
  case True
  with assms show ?thesis by (simp add: safe_put_def wp_simps)
next
  case False
  have "wp (\<lambda>e d. False) (\<lambda>r d. inv (fc_store d) \<and> same_flags c d \<and>
      resident (fc_store d) \<subseteq> resident (fc_store c) \<union> added tier (world_digest W k) (ck_deployment_fingerprint k) payload)
      (except_Exception (fmap_sop known_outcome
        (on_store (co_put ops tier (world_digest W k) (ck_deployment_fingerprint k) payload))) (ok ''fault'') c)"
    by (rule isolated_call, rule put_law [OF assms(1)]) auto
  with False assms(2) show ?thesis by (simp add: safe_put_def)
qed

lemma looked_up_law:
  assumes "inv (fc_store (fst ct))" "cw_ops W = ops"
  shows "wp (\<lambda>e d. False)
      (\<lambda>r d. settled (fst ct) (fst d) \<and> snd d = snd ct \<and>
         (\<forall>e. r = Some (Some (Answer e)) \<longrightarrow> ((tier, world_digest W k), e) \<in> resident (fc_store (fst ct))))
      (looked_up W tier k ct)"
proof (cases "is_disabled (fst ct) (ck_deployment_fingerprint k)")
  case True
  with assms show ?thesis
    by (cases ct) (simp add: looked_up_def except_Exception_def fmap_sop_def sbind_def on_cache_def facade_get_entry_def
        fail_def raise_def wp_def ok_def settled_refl instance_of_def issubclass_def numeral_eq_Suc)
next
  case False
  with assms(2) get_law [OF assms(1), of tier "world_digest W k"] show ?thesis
    by (cases ct) (auto simp: looked_up_def except_Exception_def fmap_sop_def sbind_def on_cache_def
        facade_get_entry_def on_store_def wp_def ok_def settled_def split: prod.splits sum.splits)
qed

lemma corrupt_entry_law:
  assumes "inv (fc_store (fst ct))" "cw_ops W = ops"
  shows "wp (\<lambda>e d. False)
      (\<lambda>r d. settled (fst ct) (fst d) \<and> snd d = add_fault (set_tier tier ''corrupt'' (snd ct)))
      (corrupt_entry W tier k ct)"
  unfolding corrupt_entry_def
  by (rule sbind_wp [where ?X0.0 = "\<lambda>e d. False"], rule on_tx_wp [where V = "\<lambda>u d. d = (fst ct, add_fault (set_tier tier ''corrupt'' (snd ct)))"], simp, simp)
     (auto intro!: on_cache_wp wp_mono [OF safe_delete_law] simp: assms)

text \<open>What a read leaves: the facade settled, and a payload only from a valid resident entry.\<close>

definition read_outcome ::
  "'s cache_world \<Rightarrow> cache_key \<Rightarrow> string \<Rightarrow> string option \<Rightarrow> 's \<Rightarrow> cache_transaction \<Rightarrow> cache_transaction \<Rightarrow> bool"
where
  "read_outcome W k tier expected s t u \<longleftrightarrow>
     tx_key u = tx_key t \<and> tx_generation u = tx_generation t \<and> tx_pending u = tx_pending t \<and>
     tx_complete u = tx_complete t \<and> tx_store_disabled u = tx_store_disabled t \<and>
     (tx_payloads u = tx_payloads t \<and> map_of (tx_states u) tier \<noteq> Some ''hit'' \<or>
      (\<exists>e. ((tier, world_digest W k), e) \<in> resident s \<and> valid_entry W k tier expected e \<and>
         map_of (tx_states u) tier = Some ''hit'' \<and>
         tx_payloads u = AList.update tier (ce_payload e) (tx_payloads t)))"

lemma read_outcome_simps:
  "read_outcome W k tier x s t (add_fault (set_tier tier ''corrupt'' t))"
  "read_outcome W k tier x s t (set_tier tier ''miss'' t)"
  "read_outcome W k tier x s t (record_fault r (set_tier tier ''miss'' t))"
  "((tier, world_digest W k), e) \<in> resident s \<Longrightarrow> valid_entry W k tier x e \<Longrightarrow>
     read_outcome W k tier x s t (hit_entry tier e t)"
  by (auto simp: read_outcome_def add_fault_def set_tier_def record_fault_def hit_entry_def update_conv')

lemma tx_read_law:
  assumes "inv (fc_store (fst ct))" "cw_ops W = ops"
  shows "wp (\<lambda>e d. False)
      (\<lambda>r d. settled (fst ct) (fst d) \<and> read_outcome W k tier expected (fc_store (fst ct)) (snd ct) (snd d))
      (tx_read W k tier expected ct)"
  unfolding tx_read_def
proof (rule sbind_wp, rule looked_up_law [OF assms], simp)
  fix r d
  assume d: "settled (fst ct) (fst d) \<and> snd d = snd ct \<and>
     (\<forall>e. r = Some (Some (Answer e)) \<longrightarrow> ((tier, world_digest W k), e) \<in> resident (fc_store (fst ct)))"
  then have i: "inv (fc_store (fst d))" by (simp add: settled_def)
  have c: "wp (\<lambda>e d. False) (\<lambda>r u. settled (fst ct) (fst u) \<and>
        read_outcome W k tier expected (fc_store (fst ct)) (snd ct) (snd u)) (corrupt_entry W tier k d)"
    by (rule wp_mono [OF corrupt_entry_law [OF i assms(2)]])
       (use d in \<open>auto simp: read_outcome_simps intro: settled_trans\<close>)
  show "wp (\<lambda>e d. False)
      (\<lambda>r u. settled (fst ct) (fst u) \<and> read_outcome W k tier expected (fc_store (fst ct)) (snd ct) (snd u))
      ((case r of
         None \<Rightarrow> on_tx (\<lambda>t. record_fault ''store_fault'' (set_tier tier ''miss'' t))
       | Some None \<Rightarrow> on_tx (set_tier tier ''miss'')
       | Some (Some Alien) \<Rightarrow> corrupt_entry W tier k
       | Some (Some (Answer e)) \<Rightarrow>
           if valid_entry W k tier expected e then on_tx (hit_entry tier e)
           else corrupt_entry W tier k) d)"
    using c d by (auto intro!: on_tx_wp simp: read_outcome_simps split: option.splits answer.splits)
qed

text \<open>
  A new transaction: always returned; it carries the key and generation it was given, a cached
  preprocess payload only when a valid entry of exactly this key was resident, and at most the
  key's own canonical bytes to write.
\<close>

definition fresh_transaction ::
  "'s cache_world \<Rightarrow> cache_key \<Rightarrow> 's \<Rightarrow> cache_transaction \<Rightarrow> bool"
where
  "fresh_transaction W k s t \<longleftrightarrow> tx_key t = Some k \<and> \<not> tx_complete t \<and>
     (\<forall>x. cached_preprocess t = Some x \<longrightarrow>
        (\<exists>e. ((l1, world_digest W k), e) \<in> resident s \<and> valid_entry W k l1 None e \<and> ce_payload e = x)) \<and>
     (tx_pending t = [] \<or> tx_pending t = [(l0, world_bytes W k)])"

lemma l0_l1 [simp]: "l0 \<noteq> l1" "l1 \<noteq> l0"
  by (simp_all add: l0_def l1_def)

lemma fresh_transactionI:
  assumes "read_outcome W k l0 x s0 t0 t1" "read_outcome W k l1 None s t1 t2"
    and "t0 = blank_transaction (Some k) g r b" "resident s \<subseteq> resident s0"
  shows "fresh_transaction W k s0 (stage_metadata (world_bytes W k) t2)" "tx_generation t2 = g"
proof -
  have p: "tx_payloads t1 = [] \<or> (\<exists>y. tx_payloads t1 = [(l0, y)])" "tx_pending t2 = []" "\<not> tx_complete t2"
    "tx_key t2 = Some k" "tx_generation t2 = g"
    using assms(1-3) by (auto simp: read_outcome_def blank_transaction_def)
  then show "tx_generation t2 = g" by simp
  have "\<exists>e. ((l1, world_digest W k), e) \<in> resident s0 \<and> valid_entry W k l1 None e \<and> ce_payload e = y"
    if "map_of (tx_payloads t2) l1 = Some y" for y
    using that p(1) assms(2,4) by (auto simp: read_outcome_def update_conv')
  with p show "fresh_transaction W k s0 (stage_metadata (world_bytes W k) t2)"
    by (auto simp: fresh_transaction_def stage_metadata_def cached_preprocess_def)
qed

lemma new_transaction_law:
  assumes "inv (fc_store c)" "cw_ops W = ops"
  shows "wp (\<lambda>e d. False)
      (\<lambda>t d. settled c d \<and> fresh_transaction W k (fc_store c) t \<and> tx_generation t = generation)
      (new_transaction W (Some k) generation reason disabled c)"
proof -
  let ?t0 = "blank_transaction (Some k) generation reason disabled"
  have "wp (\<lambda>e d. False)
      (\<lambda>r d. settled c (fst d) \<and> fresh_transaction W k (fc_store c) (snd d) \<and> tx_generation (snd d) = generation)
      (sbind (tx_read W k l0 (Some (world_bytes W k))) (\<lambda>_.
                sbind (tx_read W k l1 None) (\<lambda>_. on_tx (stage_metadata (world_bytes W k)))) (c, ?t0))"
  proof (rule sbind_wp, rule tx_read_law)
    show "inv (fc_store (fst (c, ?t0)))" "cw_ops W = ops" using assms by simp_all
  next
    fix r :: unit and d
    assume d: "settled (fst (c, ?t0)) (fst d) \<and>
      read_outcome W k l0 (Some (world_bytes W k)) (fc_store (fst (c, ?t0))) (snd (c, ?t0)) (snd d)"
    show "wp (\<lambda>e d. False)
      (\<lambda>r d. settled c (fst d) \<and> fresh_transaction W k (fc_store c) (snd d) \<and> tx_generation (snd d) = generation)
      (sbind (tx_read W k l1 None) (\<lambda>_. on_tx (stage_metadata (world_bytes W k))) d)"
    proof (rule sbind_wp, rule tx_read_law)
      show "inv (fc_store (fst d))" "cw_ops W = ops" using assms d by (auto simp: settled_def)
    next
      fix u :: unit and d'
      assume d': "settled (fst d) (fst d') \<and> read_outcome W k l1 None (fc_store (fst d)) (snd d) (snd d')"
      show "wp (\<lambda>e d. False)
        (\<lambda>r d. settled c (fst d) \<and> fresh_transaction W k (fc_store c) (snd d) \<and> tx_generation (snd d) = generation)
        (on_tx (stage_metadata (world_bytes W k)) d')"
        using d d' fresh_transactionI [of W k "Some (world_bytes W k)" "fc_store c" ?t0 "snd d" "fc_store (fst d)" "snd d'"]
        by (intro on_tx_wp) (auto simp: settled_def stage_metadata_def intro: same_flags_trans)
    qed simp
  qed simp
  then show ?thesis
    by (auto simp: new_transaction_def Let_def wp_def ok_def split: prod.splits sum.splits)
qed

lemma keyless_law:
  "wp (\<lambda>e d. False) (\<lambda>t d. d = c \<and> tx_key t = None \<and> cached_preprocess t = None \<and> tx_generation t = g \<and> tx_reason t = r)
     (new_transaction W None g r b c)"
  by (simp add: new_transaction_def Let_def wp_simps blank_transaction_def cached_preprocess_def)

lemma build_report_law:
  assumes "snapshot_ok x"
  shows "wp (\<lambda>e d. False) (\<lambda>r d. d = ct) (build_report W x ct)"
  using assms
  by (auto simp: build_report_def wp_simps new_CacheReport_def snapshot_ok_def checks_ok counter_ok_eq
      after_def count_states_def split: sum.splits)
    (simp_all add: checks_Cons counter_ok_def)

definition same_work :: "cache_transaction \<Rightarrow> cache_transaction \<Rightarrow> bool" where
  "same_work t u \<longleftrightarrow> tx_key u = tx_key t \<and> tx_generation u = tx_generation t \<and> tx_pending u = tx_pending t \<and>
     tx_complete u = tx_complete t \<and> tx_payloads u = tx_payloads t \<and> tx_states u = tx_states t"

lemma tx_report_law:
  assumes "inv (fc_store (fst ct))" "cw_ops W = ops"
  shows "wp (\<lambda>e d. False) (\<lambda>r d. settled (fst ct) (fst d) \<and> same_work (snd ct) (snd d)) (tx_report W ct)"
  unfolding tx_report_def
proof (rule sbind_wp)
  show "wp (\<lambda>e d. False) (\<lambda>r d. settled (fst ct) (fst d) \<and> snd d = snd ct \<and> (\<forall>x. r = Some x \<longrightarrow> snapshot_ok x))
      ((if tx_store_disabled (snd ct) then ok None else on_cache (safe_snapshot W)) ct)"
    using assms by (auto simp: wp_simps settled_refl intro!: on_cache_wp wp_mono [OF safe_snapshot_law])
next
  fix r d assume d: "settled (fst ct) (fst d) \<and> snd d = snd ct \<and> (\<forall>x. r = Some x \<longrightarrow> snapshot_ok x)"
  have e: "snapshot_ok empty_snapshot" by (simp add: snapshot_ok_def empty_snapshot_def)
  show "wp (\<lambda>e d. False) (\<lambda>r d. settled (fst ct) (fst d) \<and> same_work (snd ct) (snd d))
     ((case r of
         Some snap \<Rightarrow> build_report W snap
       | None \<Rightarrow>
           sbind (on_tx (\<lambda>t. if tx_faults t = 0 then record_fault ''store_fault'' t else t))
             (\<lambda>_. build_report W empty_snapshot)) d)"
  proof (cases r)
    case None
    have "wp (\<lambda>e d. False) (\<lambda>r d. settled (fst ct) (fst d) \<and> same_work (snd ct) (snd d))
        (sbind (on_tx (\<lambda>t. if tx_faults t = 0 then record_fault ''store_fault'' t else t))
             (\<lambda>_. build_report W empty_snapshot) d)"
      unfolding sbind_def on_tx_def
      using d by (auto simp: ok_def same_work_def record_fault_def intro!: wp_mono [OF build_report_law [OF e]])
    with None show ?thesis by simp
  next
    case (Some x)
    with d show ?thesis by (auto simp: same_work_def intro!: wp_mono [OF build_report_law])
  qed
qed simp

lemma write_pending_law:
  assumes "cw_ops W = ops"
  shows "inv (fc_store (fst ct)) \<Longrightarrow>
    wp (\<lambda>e d. False) (\<lambda>r d. inv (fc_store (fst d)) \<and> same_flags (fst ct) (fst d) \<and>
       resident (fc_store (fst d)) \<subseteq> resident (fc_store (fst ct)) \<union> pending_entries W k ps)
      (write_pending W k ps ct)"
proof (induction ps arbitrary: ct)
  case Nil
  then show ?case by (simp add: wp_simps)
next
  case (Cons p ps)
  obtain tier payload where p: "p = (tier, payload)" by (cases p)
  have "wp (\<lambda>e d. False) (\<lambda>r d. inv (fc_store (fst d)) \<and> same_flags (fst ct) (fst d) \<and>
       resident (fc_store (fst d)) \<subseteq> resident (fc_store (fst ct)) \<union> pending_entries W k (p # ps))
    (sbind (on_cache (safe_put W tier k payload)) (\<lambda>outcome.
     sbind (on_tx (count_outcome outcome)) (\<lambda>_. write_pending W k ps)) ct)"
  proof (rule sbind_wp)
    show "wp (\<lambda>e d. False) (\<lambda>r d. inv (fc_store (fst d)) \<and> same_flags (fst ct) (fst d) \<and> snd d = snd ct \<and>
        resident (fc_store (fst d)) \<subseteq> resident (fc_store (fst ct)) \<union> added tier (world_digest W k) (ck_deployment_fingerprint k) payload)
        (on_cache (safe_put W tier k payload) ct)"
      by (rule on_cache_wp, rule wp_mono [OF safe_put_law [OF Cons.prems assms]]) auto
  next
    fix r d assume d: "inv (fc_store (fst d)) \<and> same_flags (fst ct) (fst d) \<and> snd d = snd ct \<and>
        resident (fc_store (fst d)) \<subseteq> resident (fc_store (fst ct)) \<union> added tier (world_digest W k) (ck_deployment_fingerprint k) payload"
    show "wp (\<lambda>e d. False) (\<lambda>r d. inv (fc_store (fst d)) \<and> same_flags (fst ct) (fst d) \<and>
       resident (fc_store (fst d)) \<subseteq> resident (fc_store (fst ct)) \<union> pending_entries W k (p # ps))
        (sbind (on_tx (count_outcome r)) (\<lambda>_. write_pending W k ps) d)"
      unfolding sbind_def on_tx_def ok_def using d
      by (simp add: p) (rule wp_mono [OF Cons.IH], simp_all, blast intro: same_flags_trans dest: union_trans)
  qed simp
  with p show ?case by simp
qed

lemma tx_commit_law:
  assumes "inv (fc_store (fst ct))" "cw_ops W = ops"
  shows "wp (\<lambda>e d. exc_class_of e = ControlFoleyCacheInputDrift \<and> fst d = fst ct \<and> snd d = abort (snd ct) \<and>
          tx_drifted (snd ct) current)
      (\<lambda>r d. inv (fc_store (fst d)) \<and> same_flags (fst ct) (fst d) \<and> tx_complete (snd d) \<and>
         \<not> tx_drifted (snd ct) current \<and>
         resident (fc_store (fst d)) \<subseteq> resident (fc_store (fst ct)) \<union> commit_adds W (snd ct))
      (tx_commit W current ct)" (is "wp ?X ?V _")
proof -
  have rep: "wp ?X ?V (tx_report W d)"
    if "inv (fc_store (fst d))" "same_flags (fst ct) (fst d)" "tx_complete (snd d)" "\<not> tx_drifted (snd ct) current"
      "resident (fc_store (fst d)) \<subseteq> resident (fc_store (fst ct)) \<union> commit_adds W (snd ct)" for d
    by (rule wp_mono [OF tx_report_law [OF that(1) assms(2)]])
       (use that in \<open>auto simp: settled_def same_work_def intro: same_flags_trans dest: subset_union_trans\<close>)
  show ?thesis
  proof (cases "tx_complete (snd ct)")
    case True
    with rep [OF assms(1) same_flags_refl] show ?thesis by (simp add: tx_commit_def tx_drifted_def)
  next
    case open_tx: False
    show ?thesis
    proof (cases "tx_key (snd ct)")
      case None
      with open_tx rep [of "(fst ct, (snd ct)\<lparr>tx_complete := True\<rparr>)"] assms show ?thesis
        by (simp add: tx_commit_def sbind_def on_tx_def ok_def tx_drifted_def)
    next
      case (Some k)
      show ?thesis
      proof (cases "tx_drifted (snd ct) current")
        case True
        with open_tx Some show ?thesis
          by (auto simp: tx_commit_def tx_drifted_def sbind_def on_tx_def ok_def input_drift_def fail_def raise_def wp_def)
      next
        case False
        have "wp ?X ?V (sbind (write_pending W k (tx_pending (snd ct))) (\<lambda>_. sbind (on_tx abort) (\<lambda>_. tx_report W)) ct)"
        proof (rule sbind_wp, rule write_pending_law [OF assms(2,1)], simp)
          fix r :: unit and d :: "'s cache_facade \<times> cache_transaction"
          assume "inv (fc_store (fst d)) \<and> same_flags (fst ct) (fst d) \<and>
            resident (fc_store (fst d)) \<subseteq> resident (fc_store (fst ct)) \<union> pending_entries W k (tx_pending (snd ct))"
          then show "wp ?X ?V (sbind (on_tx abort) (\<lambda>_. tx_report W) d)"
            using rep [of "(fst d, abort (snd d))"] False open_tx Some
            by (simp add: sbind_def on_tx_def ok_def abort_def commit_adds_def)
        qed
        with open_tx Some False show ?thesis by (auto simp: tx_commit_def tx_drifted_def split: option.splits)
      qed
    qed
  qed
qed

text \<open>
  \<open>begin\<close> always returns a transaction: one without a key, or a fresh one for the key of the request,
  reading the store as the other threads left it.
\<close>

lemma cache_begin_law:
  assumes "inv (fc_store c)" "inv (fc_store (others c))" "cw_ops W = ops"
    and "\<And>e. key_for W p P r config fp = Inl e \<Longrightarrow> instance_of e Exception"
  shows "wp (\<lambda>e d. False)
      (\<lambda>t d. (tx_key t = None \<and> cached_preprocess t = None \<and> (d = c \<or> d = others c)) \<or>
         (\<exists>k. key_for W p P r config fp = Inr k \<and> \<not> is_disabled (others c) fp \<and>
            fresh_transaction W k (fc_store (others c)) t \<and> tx_generation t = fc_generation (others c) \<and>
            settled (others c) d))
      (cache_begin W p P others r config fp c)"
proof (cases "is_disabled c fp")
  case True
  then show ?thesis
    by (simp add: cache_begin_def disabled_transaction_def) (rule wp_mono [OF keyless_law], auto)
next
  case False
  show ?thesis
  proof (cases "key_for W p P r config fp")
    case (Inl e)
    with False assms(4) show ?thesis
      by (simp add: cache_begin_def keyless_transaction_def) (rule wp_mono [OF keyless_law], auto)
  next
    case (Inr k)
    have "wp (\<lambda>e d. False)
      (\<lambda>t d. (tx_key t = None \<and> cached_preprocess t = None \<and> (d = c \<or> d = others c)) \<or>
         (\<not> is_disabled (others c) fp \<and>
            fresh_transaction W k (fc_store (others c)) t \<and> tx_generation t = fc_generation (others c) \<and>
            settled (others c) d)) (except_Exception (begin_locked W k fp) (keyless_transaction W) (others c))"
    proof (rule except_Exception_wp [where ?X0.0 = "\<lambda>e d. False"])
      show "wp (\<lambda>e d. False)
        (\<lambda>t d. (tx_key t = None \<and> cached_preprocess t = None \<and> (d = c \<or> d = others c)) \<or>
         (\<not> is_disabled (others c) fp \<and>
            fresh_transaction W k (fc_store (others c)) t \<and> tx_generation t = fc_generation (others c) \<and>
            settled (others c) d)) (begin_locked W k fp (others c))"
        unfolding begin_locked_def disabled_transaction_def wp_if
        by (intro conjI impI, rule wp_mono [OF keyless_law], auto,
            rule wp_mono [OF new_transaction_law [OF assms(2,3)]], auto)
    qed auto
    with False Inr show ?thesis by (simp add: cache_begin_def)
  qed
qed

text \<open>
  \<open>commit\<close> refuses exactly the drifted inputs and changes nothing then; otherwise it returns a
  report and adds to the store at most what the transaction has pending, under its key, and nothing
  when the transaction is older than the last invalidation.
\<close>

lemma cache_commit_law:
  assumes "inv (fc_store (fst ct))" "cw_ops W = ops"
    and "\<And>e. key_for W p P r config fp = Inl e \<Longrightarrow> instance_of e Exception"
  shows "wp (\<lambda>e d. exc_class_of e = ControlFoleyCacheInputDrift \<and> fst d = fst ct \<and> snd d = abort (snd ct) \<and>
          commit_refused W p P r config fp (fst ct) (snd ct))
      (\<lambda>rep d. inv (fc_store (fst d)) \<and> same_flags (fst ct) (fst d) \<and> tx_complete (snd d) \<and>
         \<not> commit_refused W p P r config fp (fst ct) (snd ct) \<and>
         resident (fc_store (fst d)) \<subseteq> resident (fc_store (fst ct)) \<union>
           (if tx_generation (snd ct) = fc_generation (fst ct) then commit_adds W (snd ct) else {}))
      (cache_commit W p P r config fp ct)"
proof (cases "tx_key (snd ct)")
  case None
  then show ?thesis
    unfolding cache_commit_def if_P [OF None]
    by (intro wp_mono [OF tx_commit_law [OF assms(1,2)]]) (auto simp: tx_drifted_def commit_refused_def commit_adds_def)
next
  case (Some k)
  show ?thesis
  proof (cases "key_for W p P r config fp")
    case (Inl e)
    with Some assms(3) show ?thesis
      by (auto simp: cache_commit_def commit_refused_def sbind_def on_tx_def ok_def input_drift_def fail_def raise_def wp_def)
  next
    case (Inr k')
    show ?thesis
    proof (cases "tx_generation (snd ct) = fc_generation (fst ct)")
      case True
      with Some Inr show ?thesis
        by (simp add: cache_commit_def commit_refused_def) (rule wp_mono [OF tx_commit_law [OF assms(1,2)]], auto)
    next
      case False
      have "wp (\<lambda>e d. False) (\<lambda>r d. settled (fst ct) (fst d) \<and> tx_complete (snd d)) (tx_invalidated W ct)"
        unfolding tx_invalidated_def sbind_def on_tx_def
        by (simp add: ok_def) (rule wp_mono [OF tx_report_law], auto simp: assms same_work_def abort_def)
      with Some Inr False show ?thesis
        by (simp add: cache_commit_def commit_refused_def) (erule wp_mono, auto simp: settled_def)
    qed
  qed
qed

text \<open>Invalidating and closing: never an exception beyond a malformed fingerprint, always a new generation.\<close>

lemma cache_invalidate_all_law:
  assumes "inv (fc_store c)" "cw_ops W = ops"
  shows "wp (\<lambda>e d. False) (\<lambda>r d. inv (fc_store d) \<and> fc_generation d = fc_generation c + 1) (cache_invalidate_all W c)"
proof -
  have "wp (\<lambda>e d. False) (\<lambda>r d. inv (fc_store d) \<and> fc_generation d = fc_generation c + 1)
      (except_Exception (on_store (co_invalidate_all ops))
             (\<lambda>c2. ok 0 (c2\<lparr>fc_globally_disabled := True\<rparr>)) (next_generation c))"
    by (rule isolated_unit_call, rule invalidate_all_law) (auto simp: assms next_generation_def wp_simps)
  with assms show ?thesis
    by (auto simp: cache_invalidate_all_def Let_def wp_simps next_generation_def)
qed

lemma cache_invalidate_deployment_law:
  assumes "inv (fc_store c)" "cw_ops W = ops"
  shows "wp (\<lambda>e d. d = c \<and> \<not> sha256_text_ok fp)
      (\<lambda>r d. inv (fc_store d) \<and> fc_generation d = fc_generation c + 1) (cache_invalidate_deployment W fp c)"
proof -
  have "wp (\<lambda>e d. False) (\<lambda>r d. inv (fc_store d) \<and> fc_generation d = fc_generation c + 1)
      (except_Exception (on_store (co_invalidate_deployment ops fp))
              (\<lambda>c2. ok 0 (c2\<lparr>fc_disabled_deployments := fp # fc_disabled_deployments c2\<rparr>)) (next_generation c))"
    by (rule isolated_unit_call, rule invalidate_deployment_law) (auto simp: assms next_generation_def wp_simps)
  then have "wp (\<lambda>e d. d = c \<and> \<not> sha256_text_ok fp)
      (\<lambda>r d. inv (fc_store d) \<and> fc_generation d = fc_generation c + 1)
      (except_Exception (on_store (co_invalidate_deployment ops fp))
              (\<lambda>c2. ok 0 (c2\<lparr>fc_disabled_deployments := fp # fc_disabled_deployments c2\<rparr>)) (next_generation c))"
    by (rule wp_mono) auto
  with assms show ?thesis unfolding cache_invalidate_deployment_def Let_def
    by (intro lift_wp) (auto simp: wp_simps next_generation_def dest: cache_sha256_error)
qed

lemma cache_close_law:
  assumes "inv (fc_store c)" "cw_ops W = ops"
  shows "wp (\<lambda>e d. False)
      (\<lambda>r d. inv (fc_store d) \<and> fc_generation d = fc_generation c + 1 \<and> fc_globally_disabled d) (cache_close W c)"
  unfolding cache_close_def assms(2)
  by (rule isolated_unit_call, rule close_law) (auto simp: assms(1) next_generation_def wp_simps)

end

section \<open>The in-memory store is an instance\<close>

definition mild :: "'a res \<Rightarrow> bool" where
  "mild r \<longleftrightarrow> (\<forall>e. r = Inl e \<longrightarrow> instance_of e Exception)"

lemma Exception_classes [simp]:
  "instance_of (Exc ValueError m) Exception" "instance_of (Exc TypeError m) Exception"
  "instance_of (Exc KeyError m) Exception" "instance_of (Exc RuntimeError m) Exception"
  "instance_of (Exc OverflowError m) Exception"
  by (simp_all add: instance_of_def issubclass_def numeral_eq_Suc)

lemma mild_simps [simp]: "mild (Inr a)" "mild (raise c m) \<longleftrightarrow> instance_of (Exc c m) Exception"
  by (simp_all add: mild_def raise_def)

lemma mild_require: "instance_of (Exc c m) Exception \<Longrightarrow> mild (require b c m)"
  by (simp add: require_def)

lemma mild_after: "mild r \<Longrightarrow> (\<And>a. r = Inr a \<Longrightarrow> mild (k a)) \<Longrightarrow> mild (after r k)"
  by (cases r) (auto simp: mild_def)

lemma mild_checks: "(\<And>c. c \<in> set cs \<Longrightarrow> mild c) \<Longrightarrow> mild (checks cs)"
  by (induction cs) (auto simp: checks_Cons mild_def split: sum.splits)

lemma mild_any_of: "(\<And>c. c \<in> set cs \<Longrightarrow> mild c) \<Longrightarrow> mild (any_of cs)"
  by (induction cs) (auto intro!: mild_after)

lemma mild_sha256: "mild (cache_sha256 h n)"
  by (simp add: cache_sha256_def)

lemma mild_tier: "mild (cache_tier t)"
  by (simp add: cache_tier_def mild_require)

definition quiet :: "float_env \<Rightarrow> memory_store \<Rightarrow> bool" where
  "quiet F s \<longleftrightarrow> (\<forall>n. mild (fl_of_int F n)) \<and> (\<forall>n. mild (ms_clock s n))"

lemma mild_float_of: "quiet F s \<Longrightarrow> mild (float_of F v)"
  by (auto simp: float_of_def quiet_def intro!: mild_after split: pyval.splits)

lemma mild_float_rat: "quiet F s \<Longrightarrow> mild (float_rat F v)"
  unfolding float_rat_def by (rule mild_after, erule mild_float_of) (simp split: pyfloat.splits)

lemma mild_bad_number: "quiet F s \<Longrightarrow> c \<in> set (bad_number F v p) \<Longrightarrow> mild c"
  by (auto simp: bad_number_def isfinite_def intro!: mild_after mild_float_of)

definition same_clock :: "memory_store \<Rightarrow> memory_store \<Rightarrow> bool" where
  "same_clock s t \<longleftrightarrow> ms_clock t = ms_clock s"

lemma same_clock_simps [simp]: "same_clock s s" "same_clock s (remove_entry i t) = same_clock s t"
  "same_clock s (move_to_end i t) = same_clock s t" "same_clock s (fold remove_entry is t) = same_clock s t"
  by (simp_all add: same_clock_def)

lemma quiet_same: "quiet F s \<Longrightarrow> same_clock s t \<Longrightarrow> quiet F t"
  by (simp add: quiet_def same_clock_def)

abbreviation tame :: "memory_store \<Rightarrow> 'a res \<times> memory_store \<Rightarrow> bool" where
  "tame s \<equiv> wp (\<lambda>e t. instance_of e Exception \<and> same_clock s t) (\<lambda>a t. same_clock s t)"

lemma tame_lift: "mild r \<Longrightarrow> same_clock s u \<Longrightarrow> (\<And>a. r = Inr a \<Longrightarrow> tame s (k a)) \<Longrightarrow> tame s (lift r u k)"
  by (rule lift_wp) (auto simp: mild_def)

lemma tame_sbind: "tame s (m u) \<Longrightarrow> (\<And>a t. same_clock s t \<Longrightarrow> tame s (k a t)) \<Longrightarrow> tame s (sbind m k u)"
  unfolding wp_sbind by (erule wp_mono) auto

lemma tame_ok: "same_clock s t \<Longrightarrow> tame s (ok a t)"
  and tame_fail: "same_clock s t \<Longrightarrow> instance_of (Exc c m) Exception \<Longrightarrow> tame s (fail c m t)"
  by (simp_all add: wp_simps)

lemma tame_ensure_open: "same_clock s t \<Longrightarrow> tame s (ensure_open t)"
  by (auto simp: ensure_open_def wp_simps)

lemma tame_now:
  assumes q: "quiet F s" and t: "same_clock s t" shows "tame s (now F t)"
proof -
  have c: "same_clock s (t\<lparr>ms_ticks := n\<rparr>)" "same_clock s (t\<lparr>ms_ticks := n, ms_last_now := l\<rparr>)" for n l
    using t by (simp_all add: same_clock_def)
  have "mild (ms_clock t n)" for n using q t by (simp add: quiet_def same_clock_def)
  moreover have "mild (clock_rejects F v l)" for v l
    unfolding clock_rejects_def using mild_bad_number [OF q] by (intro mild_any_of) auto
  ultimately show ?thesis
    unfolding now_def Let_def using mild_float_rat [OF q] c
    by (auto intro!: tame_lift tame_ok tame_fail)
qed

lemma tame_get:
  assumes "quiet F s" shows "tame s (get_entry F tier digest s)"
  unfolding get_entry_def
  by (rule tame_lift, rule mild_checks, use mild_tier mild_sha256 in force, simp,
      rule tame_sbind, rule tame_ensure_open, simp)
     (auto split: option.splits intro!: tame_ok tame_sbind tame_now [OF assms] simp: wp_simps)

lemma tame_delete: "tame s (delete_entry tier digest s)"
  unfolding delete_entry_def
  by (rule tame_lift, rule mild_checks, use mild_tier mild_sha256 in force, simp,
      rule tame_sbind, rule tame_ensure_open, simp) (auto intro!: tame_ok)

lemma tame_invalidate_deployment: "tame s (store_invalidate_deployment fp s)"
  unfolding store_invalidate_deployment_def
  by (rule tame_lift, rule mild_sha256, simp, rule tame_sbind, rule tame_ensure_open, simp)
     (auto simp: Let_def intro!: tame_ok)

lemma tame_invalidate_all: "tame s (store_invalidate_all s)"
  unfolding store_invalidate_all_def
  by (rule tame_sbind, rule tame_ensure_open, simp) (auto simp: same_clock_def wp_simps)

lemma tame_snapshot:
  assumes "quiet F s" shows "tame s (store_snapshot F s)"
  unfolding store_snapshot_def
  by (rule tame_sbind, rule tame_ensure_open, simp, rule tame_sbind, rule tame_now [OF assms])
     (auto simp: Let_def new_CacheSnapshot_def intro!: tame_lift tame_ok mild_after mild_checks mild_require)

lemma tame_close: "tame s (store_close s)"
  by (simp add: store_close_def wp_simps same_clock_def)

lemma tame_store_entry: "same_clock s t \<Longrightarrow> tame s (store_entry i e t)"
proof -
  assume t: "same_clock s t"
  have r: "r = Inr () \<or> (\<exists>m. r = raise KeyError m)" if "evict_loop p es b n = (r, x)" for p es b n r x
    using that by (induction p es b n rule: evict_loop.induct) (auto split: if_splits)
  have "tame s (evict_to_limits u)" if "same_clock s u" for u
    using that r by (fastforce simp: evict_to_limits_def wp_def same_clock_def raise_def split: prod.splits sum.splits)
  then show ?thesis using t unfolding store_entry_def
    by (intro tame_sbind) (auto simp: same_clock_def wp_simps)
qed

lemma tame_put:
  assumes "quiet F s" shows "tame s (put_if_absent F tier digest fp payload s)"
proof -
  have e: "mild (new_CacheEntry e)" for e
    unfolding new_CacheEntry_def by (auto intro!: mild_after mild_checks mild_require mild_sha256)
  have x: "mild (expiry F p t)" for p t
    unfolding expiry_def by (rule mild_after, rule mild_float_rat [OF assms]) simp
  have m: "mild (after (expiry F p t) (\<lambda>x. new_CacheEntry (f x)))" for p t f
    by (rule mild_after, rule x, rule e)
  show ?thesis
    unfolding put_if_absent_def
    by (rule tame_lift, rule mild_checks)
       (use mild_tier mild_sha256 in \<open>force simp: mild_require\<close>,
        auto simp: Let_def split: if_splits option.splits
        intro!: tame_ok tame_sbind tame_ensure_open tame_now [OF assms] tame_lift tame_store_entry m)
qed


definition mem_store_inv :: "float_env \<Rightarrow> memory_store \<Rightarrow> bool" where
  "mem_store_inv F s \<longleftrightarrow> store_inv s \<and> quiet F s"

text \<open>One law: the operation's own postcondition, its exceptions, and the clock kept.\<close>

lemma mem_law:
  assumes "mem_store_inv F s" "wp X V p" "tame s p" "\<And>e t. X e t \<Longrightarrow> shrinks s t \<and> X' e t" "\<And>a t. V a t \<Longrightarrow> store_inv t \<and> V' a t"
  shows "wp (\<lambda>e t. instance_of e Exception \<and> mem_store_inv F t \<and> set (ms_entries t) \<subseteq> set (ms_entries s))
    (\<lambda>a t. mem_store_inv F t \<and> V' a t) p"
proof -
  from assms(2,3) have "wp (\<lambda>e t. X e t \<and> instance_of e Exception \<and> same_clock s t) (\<lambda>a t. V a t \<and> same_clock s t) p"
    unfolding wp_conj ..
  then show ?thesis
    by (rule wp_mono)
       (use assms(1,4,5) in \<open>auto simp: mem_store_inv_def shrinks_def intro: quiet_same\<close>)
qed

lemma shrinks_facts: "shrinks s t \<Longrightarrow> store_inv t" "shrinks s t \<Longrightarrow> set (ms_entries t) \<subseteq> set (ms_entries s)"
  by (simp_all add: shrinks_def)

interpretation mem_cache: cache_store_contract "memory_ops F" "mem_store_inv F" "\<lambda>s. set (ms_entries s)" for F
proof
  fix s tier digest assume i: "mem_store_inv F s"
  then have v: "store_inv s" and q: "quiet F s" by (simp_all add: mem_store_inv_def)
  have "wp (\<lambda>e t. instance_of e Exception \<and> mem_store_inv F t \<and> set (ms_entries t) \<subseteq> set (ms_entries s))
    (\<lambda>a t. mem_store_inv F t \<and> set (ms_entries t) \<subseteq> set (ms_entries s) \<and>
       (\<forall>e. a = Some e \<longrightarrow> ((tier, digest), e) \<in> set (ms_entries s))) (get_entry F tier digest s)"
    by (rule mem_law [OF i get_entry_wp [OF v] tame_get [OF q]]) (auto simp: shrinks_def)
  then show "wp (\<lambda>e t. instance_of e Exception \<and> mem_store_inv F t \<and> set (ms_entries t) \<subseteq> set (ms_entries s))
    (\<lambda>r t. mem_store_inv F t \<and> set (ms_entries t) \<subseteq> set (ms_entries s) \<and>
       (\<forall>e. r = Some (Answer e) \<longrightarrow> ((tier, digest), e) \<in> set (ms_entries s)))
    (co_get (memory_ops F) tier digest s)"
    by (auto simp: memory_ops_def intro!: fmap_wp elim!: wp_mono)
next
  fix s tier digest fp payload assume i: "mem_store_inv F s"
  then have v: "store_inv s" and q: "quiet F s" by (simp_all add: mem_store_inv_def)
  have "wp (\<lambda>e t. instance_of e Exception \<and> mem_store_inv F t \<and> set (ms_entries t) \<subseteq> set (ms_entries s))
    (\<lambda>a t. mem_store_inv F t \<and> set (ms_entries t) \<subseteq> set (ms_entries s) \<union> added tier digest fp payload)
    (put_if_absent F tier digest fp payload s)"
    by (rule mem_law [OF i put_if_absent_wp [OF v] tame_put [OF q]])
       (use v in \<open>auto simp: keeps_def stores_def added_def dest!: in_set_dropD\<close>)
  then show "wp (\<lambda>e t. instance_of e Exception \<and> mem_store_inv F t \<and> set (ms_entries t) \<subseteq> set (ms_entries s))
    (\<lambda>r t. mem_store_inv F t \<and> set (ms_entries t) \<subseteq> set (ms_entries s) \<union> added tier digest fp payload)
    (co_put (memory_ops F) tier digest fp payload s)"
    by (auto simp: memory_ops_def intro!: fmap_wp elim!: wp_mono)
next
  fix s tier digest assume i: "mem_store_inv F s"
  then have v: "store_inv s" by (simp_all add: mem_store_inv_def)
  show "wp (\<lambda>e t. instance_of e Exception \<and> mem_store_inv F t \<and> set (ms_entries t) \<subseteq> set (ms_entries s))
    (\<lambda>r t. mem_store_inv F t \<and> set (ms_entries t) \<subseteq> set (ms_entries s)) (co_delete (memory_ops F) tier digest s)"
    using mem_law [OF i delete_entry_wp [OF v] tame_delete, where V' = "\<lambda>r t. set (ms_entries t) \<subseteq> set (ms_entries s)"]
    by (simp add: memory_ops_def shrinks_facts)
next
  fix s fp assume i: "mem_store_inv F s"
  then have v: "store_inv s" by (simp_all add: mem_store_inv_def)
  have "wp (\<lambda>e t. instance_of e Exception \<and> mem_store_inv F t \<and> set (ms_entries t) \<subseteq> set (ms_entries s))
    (\<lambda>r t. mem_store_inv F t \<and> True) (store_invalidate_deployment fp s)"
    by (rule mem_law [OF i store_invalidate_deployment_wp [OF v] tame_invalidate_deployment]) (auto simp: shrinks_facts)
  then show "wp (\<lambda>e t. instance_of e Exception \<and> mem_store_inv F t) (\<lambda>r t. mem_store_inv F t)
    (co_invalidate_deployment (memory_ops F) fp s)"
    by (auto simp: memory_ops_def elim!: wp_mono)
next
  fix s assume i: "mem_store_inv F s"
  then have v: "store_inv s" and q: "quiet F s" by (simp_all add: mem_store_inv_def)
  have "wp (\<lambda>e t. instance_of e Exception \<and> mem_store_inv F t \<and> set (ms_entries t) \<subseteq> set (ms_entries s))
    (\<lambda>r t. mem_store_inv F t \<and> True) (store_invalidate_all s)"
    by (rule mem_law [OF i store_invalidate_all_wp [OF v] tame_invalidate_all]) (auto simp: shrinks_facts)
  then show "wp (\<lambda>e t. instance_of e Exception \<and> mem_store_inv F t) (\<lambda>r t. mem_store_inv F t)
    (co_invalidate_all (memory_ops F) s)"
    by (auto simp: memory_ops_def elim!: wp_mono)
  have "wp (\<lambda>e t. instance_of e Exception \<and> mem_store_inv F t \<and> set (ms_entries t) \<subseteq> set (ms_entries s))
    (\<lambda>r t. mem_store_inv F t \<and> True) (store_close s)"
    by (rule mem_law [OF i store_close_wp [OF v] tame_close]) (auto simp: shrinks_facts)
  then show "wp (\<lambda>e t. instance_of e Exception \<and> mem_store_inv F t) (\<lambda>r t. mem_store_inv F t) (co_close (memory_ops F) s)"
    by (auto simp: memory_ops_def elim!: wp_mono)
  have "wp (\<lambda>e t. instance_of e Exception \<and> mem_store_inv F t \<and> set (ms_entries t) \<subseteq> set (ms_entries s))
    (\<lambda>r t. mem_store_inv F t \<and> set (ms_entries t) \<subseteq> set (ms_entries s) \<and> snapshot_ok r) (store_snapshot F s)"
    by (rule mem_law [OF i store_snapshot_wp [OF v] tame_snapshot [OF q]])
       (auto simp: shrinks_def snapshot_ok_def store_inv_def)
  then show "wp (\<lambda>e t. instance_of e Exception \<and> mem_store_inv F t \<and> set (ms_entries t) \<subseteq> set (ms_entries s))
    (\<lambda>r t. mem_store_inv F t \<and> set (ms_entries t) \<subseteq> set (ms_entries s) \<and> (\<forall>x. r = Answer x \<longrightarrow> snapshot_ok x))
    (co_snapshot (memory_ops F) s)"
    by (auto simp: memory_ops_def intro!: fmap_wp elim!: wp_mono)
qed

end
