(* ===== verification/CacheProps.thy ===== *)
theory CacheProps
  imports CacheContract
begin

text \<open>
  The theorems on the ControlFoley cache: limits and integrity of the store, eviction, expiry and
  invalidation, the isolation of requests from store faults, and what a hit and a commit may do.
\<close>

section \<open>A concrete cache\<close>

definition demo_policy :: cache_policy where
  "demo_policy = \<lparr>cp_preprocess_version = ''p1'', cp_code_version = ''c1'', cp_max_entries = 2,
     cp_max_entry_bytes = 8, cp_max_total_bytes = 10, cp_ttl_seconds = PInt 5, cp_mode = cache_mode\<rparr>"

definition demo_fl :: float_env where
  "demo_fl = \<lparr>fl_of_int = (\<lambda>n. Inr (of_int n)), fl_add = (\<lambda>a b. FFin (a + b))\<rparr>"

definition demo_sha :: string where
  "demo_sha = sha256_hex []"

definition demo_store :: memory_store where
  "demo_store = new_MemoryStore demo_policy (\<lambda>n. Inr (PInt (int n)))"

lemma demo_sha_ok [simp]: "cache_sha256 demo_sha n = Inr ()"
  by (simp add: cache_sha256_ok demo_sha_def)

lemma tier_l1 [simp]: "cache_tier l1 = Inr ()"
  by (simp add: cache_tier_def)

lemma demo_policy_ok: "new_CachePolicy demo_fl demo_policy = Inr demo_policy"
proof -
  have v: "safe_version_text ''p1''" "safe_version_text ''c1''"
    by (simp_all add: safe_version_text_def ascii_alnum_def version_char_def code_def)
  show ?thesis
    by (simp add: new_CachePolicy_def demo_policy_def safe_version_def v checks_Cons reject_if_def
        bad_number_def int_or_float_def isfinite_def float_of_def demo_fl_def finite_float_def num_value_def)
qed

lemma new_store_inv: "policy_limits p \<Longrightarrow> store_inv (new_MemoryStore p clock)"
  by (auto simp: store_inv_def new_MemoryStore_def over_limits_def policy_limits_def)

lemma demo_store_inv: "store_inv demo_store"
  unfolding demo_store_def using new_CachePolicy_limits [OF demo_policy_ok] by (intro new_store_inv) simp

section \<open>The store\<close>

text \<open>
  C37. Whatever operations a store made for a checked policy goes through, with whatever clock and
  whatever arguments (failing ones included), it holds at most the permitted number of entries, its
  byte count is exactly the sum of the resident payloads and within the total, every payload is within
  the entry limit and still has the digest recorded for it, and no key is stored twice.
\<close>

theorem cache_store_bounded:
  assumes "new_CachePolicy F p = Inr p"
  shows "let s = store_run F xs (new_MemoryStore p clock) in
    int (length (ms_entries s)) \<le> cp_max_entries p \<and>
    ms_bytes_used s = sum_list (map (\<lambda>x. int (length (ce_payload (snd x)))) (ms_entries s)) \<and>
    ms_bytes_used s \<le> cp_max_total_bytes p \<and> distinct (map fst (ms_entries s)) \<and>
    (\<forall>(i, e) \<in> set (ms_entries s). i = (ce_tier e, ce_key_digest e) \<and>
       int (length (ce_payload e)) \<le> cp_max_entry_bytes p \<and>
       ce_payload_sha256 e = sha256_hex (ce_payload e))"
proof -
  let ?s = "store_run F xs (new_MemoryStore p clock)"
  have l: "policy_limits p" using new_CachePolicy_limits [OF assms] by simp
  from store_run_inv [OF new_store_inv [OF l], of F xs clock]
  have i: "store_inv ?s" and p: "ms_policy ?s = p" by (simp_all add: new_MemoryStore_def)
  have t: "total_size es = sum_list (map (\<lambda>x. int (length (ce_payload (snd x)))) es)" for es
    by (simp add: total_size_def payload_size_def)
  show ?thesis
    using i unfolding Let_def store_inv_def p over_limits_def t list_all_iff entry_ok_def payload_size_def
    by auto
qed

theorem cache_store_bounded_witness:
  "int (length (ms_entries (store_run demo_fl [OpPut l1 demo_sha demo_sha ''abc''] demo_store))) \<le> 2"
  using cache_store_bounded [OF demo_policy_ok, of "[OpPut l1 demo_sha demo_sha ''abc'']" "\<lambda>n. Inr (PInt (int n))"]
  by (simp add: Let_def demo_store_def demo_policy_def)

text \<open>
  C38. The eviction loop always ends without the \<open>KeyError\<close> an empty dictionary would raise, and
  evicts as little as possible in the order of use: it drops a prefix of the least recently used
  entries, what is left is within both limits, and dropping any fewer would not have been.
\<close>

theorem eviction_is_minimal:
  assumes "new_CachePolicy F (ms_policy s) = Inr (ms_policy s)" and "ms_bytes_used s = total_size (ms_entries s)"
  shows "\<exists>k \<le> length (ms_entries s).
    evict_to_limits s = (Inr (), s\<lparr>ms_entries := drop k (ms_entries s),
      ms_bytes_used := total_size (drop k (ms_entries s)), ms_evictions := ms_evictions s + int k\<rparr>) \<and>
    \<not> over_limits (ms_policy s) (drop k (ms_entries s)) (total_size (drop k (ms_entries s))) \<and>
    (\<forall>j < k. over_limits (ms_policy s) (drop j (ms_entries s)) (total_size (drop j (ms_entries s))))"
  using evict_loop_spec [of "ms_policy s" "ms_entries s" "ms_evictions s"] new_CachePolicy_limits [OF assms(1)]
  by (auto simp: evict_to_limits_def assms(2))

theorem eviction_is_minimal_witness:
  "fst (evict_to_limits demo_store) = Inr ()"
  using eviction_is_minimal [of demo_fl demo_store] demo_policy_ok
  by (auto simp: demo_store_def new_MemoryStore_def)

text \<open>
  What was stored is what is read back: after a put that answers \<open>stored\<close>, a get of the same key
  whose clock reads \<open>q\<close> returns the very payload and deployment as long as \<open>q\<close> is before the entry's
  expiry (the put's own clock reading plus the policy's time to live), marks it most recently used,
  and from the expiry on returns nothing and removes it.
\<close>

theorem cache_put_then_get:
  assumes "store_inv s" and "put_if_absent F tier digest fp payload s = (Inr ''stored'', t)"
    and "now F t = (Inr q, u)"
  shows "\<exists>e x q0. ce_payload e = payload \<and> ce_deployment_fingerprint e = fp \<and> ms_last_now t = Some q0 \<and>
    expiry F (ms_policy s) q0 = Inr (FFin x) \<and>
    get_entry F tier digest t =
      (if x \<le> q then ok None (remove_entry (tier, digest) u) else ok (Some e) (move_to_end (tier, digest) u))"
proof -
  have c: "checks [cache_tier tier, cache_sha256 digest ''key_digest''] = Inr ()"
    using assms(2) by (auto simp: put_if_absent_def lift_eq_Inr checks_Cons_ok)
  from wp_value [OF put_if_absent_wp [OF assms(1)] assms(2)] have "stores F s (tier, digest) fp payload t" by simp
  then obtain e k q0 x where st: "store_inv t"
    "ms_entries t = drop k (filter (\<lambda>x. fst x \<noteq> (tier, digest)) (ms_entries s)) @ [((tier, digest), e)]"
    "ce_payload e = payload" "ce_deployment_fingerprint e = fp" "ms_last_now t = Some q0"
    "expiry F (ms_policy s) q0 = Inr x" "ce_expires_at e = x" by (auto simp: stores_def)
  have "((tier, digest), e) \<in> set (ms_entries t)" using st(2) by simp
  with st(1) have m: "map_of (ms_entries t) (tier, digest) = Some e" and f: "finite_float (ce_expires_at e)"
    and o: "\<not> ms_closed t"
    by (auto simp: store_inv_def list_all_iff entry_ok_def)
  from f st(7) obtain y where y: "x = FFin y" by (auto simp: finite_float_iff)
  have "get_entry F tier digest t =
      (if y \<le> q then ok None (remove_entry (tier, digest) u) else ok (Some e) (move_to_end (tier, digest) u))"
    using c m o assms(3) st(7) y
    by (simp add: get_entry_def ensure_open_def sbind_def ok_def entry_expired_def)
  with st(3-6) y show ?thesis by (intro exI [of _ e] exI [of _ y] exI [of _ q0]) simp
qed

lemma demo_put:
  "\<exists>t. ms_last_now t = Some 0 \<and> put_if_absent demo_fl l1 demo_sha demo_sha ''abc'' demo_store = (Inr ''stored'', t) \<and>
     now demo_fl t = (Inr 1, t\<lparr>ms_ticks := 2, ms_last_now := Some 1\<rparr>)"
proof -
  have n: "now demo_fl s = ok (of_nat (ms_ticks s)) (s\<lparr>ms_ticks := ms_ticks s + 1, ms_last_now := Some (of_nat (ms_ticks s))\<rparr>)"
    if "ms_clock s = (\<lambda>n. Inr (PInt (int n)))" "\<forall>l. ms_last_now s = Some l \<longrightarrow> l \<le> of_nat (ms_ticks s)" for s
    using that
    by (auto simp: now_def Let_def clock_rejects_def any_of_append bad_number_def int_or_float_def isfinite_def
        float_of_def demo_fl_def finite_float_def num_value_def float_rat_def split: option.splits)
  have e: "new_CacheEntry \<lparr>ce_tier = l1, ce_key_digest = demo_sha, ce_deployment_fingerprint = demo_sha,
      ce_payload = ''abc'', ce_payload_sha256 = sha256_hex ''abc'', ce_expires_at = FFin 5\<rparr> =
    Inr \<lparr>ce_tier = l1, ce_key_digest = demo_sha, ce_deployment_fingerprint = demo_sha,
      ce_payload = ''abc'', ce_payload_sha256 = sha256_hex ''abc'', ce_expires_at = FFin 5\<rparr>" (is "_ = Inr ?e")
    by (simp add: new_CacheEntry_def checks_Cons cache_sha256_ok [THEN iffD2, OF sha256_hex_ok])
  let ?t = "demo_store\<lparr>ms_ticks := 1, ms_last_now := Some 0, ms_entries := [((l1, demo_sha), ?e)], ms_bytes_used := 3\<rparr>"
  have p: "put_if_absent demo_fl l1 demo_sha demo_sha ''abc'' demo_store = (Inr ''stored'', ?t)"
    using n [of demo_store] e
    by (simp add: put_if_absent_def checks_Cons demo_store_def new_MemoryStore_def demo_policy_def ensure_open_def
        sbind_def ok_def expiry_def float_rat_def float_of_def demo_fl_def store_entry_def evict_to_limits_def
        over_limits_def payload_size_def Let_def)
  have "now demo_fl ?t = (Inr 1, ?t\<lparr>ms_ticks := 2, ms_last_now := Some 1\<rparr>)"
    using n [of ?t] by (simp add: demo_store_def new_MemoryStore_def ok_def)
  with p show ?thesis by (intro exI [of _ ?t]) simp
qed

theorem cache_put_then_get_witness:
  "\<exists>t e. fst (put_if_absent demo_fl l1 demo_sha demo_sha ''abc'' demo_store) = Inr ''stored'' \<and>
     fst (get_entry demo_fl l1 demo_sha t) = Inr (Some e) \<and> ce_payload e = ''abc''"
proof -
  obtain t where last: "ms_last_now t = Some 0" and t: "put_if_absent demo_fl l1 demo_sha demo_sha ''abc'' demo_store = (Inr ''stored'', t)"
    "now demo_fl t = (Inr 1, t\<lparr>ms_ticks := 2, ms_last_now := Some 1\<rparr>)" using demo_put by blast
  from cache_put_then_get [OF demo_store_inv t] obtain e x q0 where e: "ce_payload e = ''abc''"
    "ms_last_now t = Some q0" "expiry demo_fl (ms_policy demo_store) q0 = Inr (FFin x)"
    and g: "get_entry demo_fl l1 demo_sha t = (if x \<le> 1 then ok None (remove_entry (l1, demo_sha) (t\<lparr>ms_ticks := 2, ms_last_now := Some 1\<rparr>))
       else ok (Some e) (move_to_end (l1, demo_sha) (t\<lparr>ms_ticks := 2, ms_last_now := Some 1\<rparr>)))" by blast
  have "x = q0 + 5"
    using e(3) by (simp add: expiry_def float_rat_def float_of_def demo_fl_def demo_store_def new_MemoryStore_def demo_policy_def)
  moreover have "q0 = 0" using e(2) last by simp
  ultimately have "fst (get_entry demo_fl l1 demo_sha t) = Inr (Some e)" using g by simp
  with e(1) t(1) show ?thesis by (metis fst_conv)
qed


text \<open>
  Invalidating a deployment is final: whatever happens before and after it, an entry of that
  deployment found resident later was put by an operation after the invalidation, with exactly the
  resident key, deployment and bytes. (A put the store already had, an eviction or an expiry in
  between cannot bring an old entry back.)
\<close>

theorem invalidation_is_final:
  assumes "new_CachePolicy F p = Inr p"
    and "(i, e) \<in> set (ms_entries
           (store_run F (xs @ OpInvalidateDeployment fp # ys) (new_MemoryStore p clock)))"
    and "ce_deployment_fingerprint e = fp"
  shows "OpPut (fst i) (snd i) fp (ce_payload e) \<in> set ys"
proof -
  let ?s = "store_run F xs (new_MemoryStore p clock)" and ?t = "cache_step F (OpInvalidateDeployment fp)"
  have l: "policy_limits p" using new_CachePolicy_limits [OF assms(1)] by simp
  then have i: "store_inv ?s" using store_run_inv [OF new_store_inv [OF l]] by blast
  then have it: "store_inv (?t ?s)" using cache_step_ok [OF i, of "OpInvalidateDeployment fp"] by (simp add: step_ok_def)
  have ok: "list_all (entry_ok (ms_policy (?t ?s))) (ms_entries (?t ?s))" using it by (simp add: store_inv_def)
  have "wp (\<lambda>e t. sha256_text_ok fp \<longrightarrow> ms_entries t = [])
      (\<lambda>n t. \<forall>x \<in> set (ms_entries t). ce_deployment_fingerprint (snd x) \<noteq> fp) (store_invalidate_deployment fp ?s)"
    by (rule wp_mono [OF store_invalidate_deployment_wp [OF i]]) auto
  then have "(sha256_text_ok fp \<longrightarrow> ms_entries (?t ?s) = []) \<or>
      (\<forall>x \<in> set (ms_entries (?t ?s)). ce_deployment_fingerprint (snd x) \<noteq> fp)"
    by (cases "store_invalidate_deployment fp ?s"; cases "fst (store_invalidate_deployment fp ?s)")
       (simp_all add: wp_def)
  moreover have "sha256_text_ok (ce_deployment_fingerprint e)" if "(i, e) \<in> set (ms_entries (?t ?s))" for i e
    using ok that by (auto simp: list_all_iff entry_ok_def)
  ultimately have none: "(i, e) \<notin> set (ms_entries (?t ?s))" using assms(3) by fastforce
  have "(i, e) \<in> set (ms_entries (store_run F ys (?t ?s)))"
    using assms(2) by (simp add: store_run_append)
  from resident_source [OF it this] none assms(3) show ?thesis by simp
qed

theorem invalidation_is_final_witness:
  "\<exists>e. ((l1, demo_sha), e) \<in> set (ms_entries (store_run demo_fl
      [OpInvalidateDeployment demo_sha, OpPut l1 demo_sha demo_sha ''abc''] demo_store)) \<and>
    ce_payload e = ''abc''"
proof -
  have z: "cache_step demo_fl (OpInvalidateDeployment demo_sha) demo_store = demo_store"
    by (simp add: store_invalidate_deployment_def sbind_def ensure_open_def ok_def demo_store_def new_MemoryStore_def)
  obtain t where t: "put_if_absent demo_fl l1 demo_sha demo_sha ''abc'' demo_store = (Inr ''stored'', t)"
    using demo_put by blast
  from wp_value [OF put_if_absent_wp [OF demo_store_inv] t]
  have "stores demo_fl demo_store (l1, demo_sha) demo_sha ''abc'' t" by simp
  then obtain e k where "ms_entries t = drop k (filter (\<lambda>x. fst x \<noteq> (l1, demo_sha)) (ms_entries demo_store)) @ [((l1, demo_sha), e)]"
    "ce_payload e = ''abc''" "ce_deployment_fingerprint e = demo_sha"
    unfolding stores_def by blast
  then have e: "((l1, demo_sha), e) \<in> set (ms_entries t)" "ce_payload e = ''abc''" "ce_deployment_fingerprint e = demo_sha"
    by simp_all
  have r: "store_run demo_fl ([] @ OpInvalidateDeployment demo_sha # [OpPut l1 demo_sha demo_sha ''abc'']) demo_store = t"
    using z t by simp
  have "OpPut l1 demo_sha demo_sha (ce_payload e) \<in> set [OpPut l1 demo_sha demo_sha ''abc'']"
    using invalidation_is_final [OF demo_policy_ok, of "(l1, demo_sha)" e "[]" demo_sha] r e
    by (simp add: demo_store_def)
  with e r show ?thesis by auto
qed

section \<open>The facade\<close>

text \<open>
  C39. Store faults never reach a request, and a hit is never someone else's: whatever the in-memory
  store does (closed, a broken clock, an overflow), whatever other threads did to it meanwhile and
  whether or not the request's key can be computed, \<open>begin\<close> returns a transaction; it offers cached
  bytes only when the store held, under the digest of exactly this request's key and for its
  deployment, an entry with those bytes whose recorded SHA-256 they still have.
\<close>

theorem cache_begin_isolated:
  assumes "mem_store_inv F (fc_store c)" and "mem_store_inv F (fc_store (others c))" and "cw_ops W = memory_ops F"
    and "\<And>e. key_for W p P r config fp = Inl e \<Longrightarrow> instance_of e Exception"
  shows "\<exists>t d. cache_begin W p P others r config fp c = (Inr t, d) \<and>
    (\<forall>x. cached_preprocess t = Some x \<longrightarrow>
      (\<exists>k e. key_for W p P r config fp = Inr k \<and>
         ((l1, cache_key_digest (cw_py W) (cw_fl W) k), e) \<in> set (ms_entries (fc_store (others c))) \<and>
         ce_deployment_fingerprint e = ck_deployment_fingerprint k \<and> ce_payload e = x \<and>
         ce_payload_sha256 e = sha256_hex x))"
proof -
  let ?r = "cache_begin W p P others r config fp c"
  note law = mem_cache.cache_begin_law [where c = c and others = others and W = W and p = p and P = P
    and r = r and config = config and fp = fp, OF assms]
  obtain t d where r: "?r = (Inr t, d)"
    using law by (cases ?r; cases "fst ?r") (auto simp: wp_def)
  from wp_value [OF law r] consider "cached_preprocess t = None"
    | k where "key_for W p P r config fp = Inr k" "mem_cache.fresh_transaction W k (fc_store (others c)) t"
    by (simp, elim disjE exE conjE) metis+
  then show ?thesis
  proof cases
    case 1
    with r show ?thesis by simp
  next
    case 2
    then have "\<exists>e. ((l1, world_digest W k), e) \<in> set (ms_entries (fc_store (others c))) \<and>
        valid_entry W k l1 None e \<and> ce_payload e = x" if "cached_preprocess t = Some x" for x
      using that by (simp add: mem_cache.fresh_transaction_def)
    with r 2(1) show ?thesis
      by (intro exI [of _ t] exI [of _ d]) (fastforce simp: valid_entry_def world_digest_def)
  qed
qed

lemma demo_mem_store_inv: "mem_store_inv demo_fl demo_store"
  using demo_store_inv by (simp add: mem_store_inv_def quiet_def demo_fl_def demo_store_def new_MemoryStore_def)

definition demo_cache_world :: "memory_store cache_world" where
  "demo_cache_world = \<lparr>cw_py = \<lparr>float_repr = (\<lambda>_. ''1''), str_of = (\<lambda>_. [])\<rparr>, cw_fl = demo_fl, cw_ops = memory_ops demo_fl\<rparr>"

definition demo_files :: file_env where
  "demo_files = \<lparr>fe_path = id, fe_resolve = id, fe_is_file = (\<lambda>_. True), fe_read = (\<lambda>_. Inr ''bytes'')\<rparr>"

definition demo_request :: local_request where
  "demo_request = \<lparr>lr_task = T2A, lr_video_path = None, lr_reference_audio_path = None, lr_prompt = PStr ''rain'',
     lr_duration_seconds = PInt 8, lr_num_steps = PInt 25, lr_guidance_scale = PFloat (FFin (9 / 2)),
     lr_seed = PInt 42\<rparr>"

text \<open>A deployment without the cache fields: its key cannot be computed.\<close>

lemma demo_key_error:
  "key_for demo_cache_world demo_policy demo_files demo_request [] demo_sha =
     raise ValueError ''cached deployment does not match the adapter cache policy''"
  by (simp add: key_for_def cache_key_from_request_def assert_configuration_def policy_configuration_def
      cached_configuration_keys_def)

theorem cache_begin_isolated_witness:
  "\<exists>t. fst (cache_begin demo_cache_world demo_policy demo_files id demo_request [] demo_sha (new_cache demo_store)) = Inr t"
  using cache_begin_isolated [of demo_fl "new_cache demo_store" id demo_cache_world demo_policy demo_files demo_request "[]" demo_sha]
    demo_mem_store_inv demo_key_error
  by (auto simp: new_cache_def demo_cache_world_def raise_def)

text \<open>
  C40. Commit is fenced: it refuses, as a drift of the inputs, exactly when the transaction has a key and
  that key cannot be computed again, or, in the generation of the transaction and while it is open, comes
  out different; the cache is then exactly as it was and the transaction is closed with nothing left to
  write. Otherwise it returns a report and adds to the store at most the pending payloads of the open
  transaction, under its own key and deployment, and nothing after an invalidation or a close.
\<close>

theorem cache_commit_fenced:
  assumes "mem_store_inv F (fc_store c)" and "cw_ops W = memory_ops F"
    and "\<And>e. key_for W p P r config fp = Inl e \<Longrightarrow> instance_of e Exception"
  shows "case cache_commit W p P r config fp (c, t) of
      (Inl e, (d, u)) \<Rightarrow> commit_refused W p P r config fp c t \<and>
        exc_class_of e = ControlFoleyCacheInputDrift \<and> d = c \<and> tx_complete u \<and> tx_pending u = []
    | (Inr report, (d, u)) \<Rightarrow> \<not> commit_refused W p P r config fp c t \<and>
        tx_complete u \<and> store_inv (fc_store d) \<and> fc_generation d = fc_generation c \<and>
        set (ms_entries (fc_store d)) \<subseteq> set (ms_entries (fc_store c)) \<union>
          (if tx_generation t = fc_generation c then commit_adds W t else {})"
proof -
  have i: "mem_store_inv F (fc_store (fst (c, t)))" using assms(1) by simp
  note law = mem_cache.cache_commit_law [where W = W and p = p and P = P and r = r and config = config and fp = fp,
    OF i assms(2) assms(3)]
  from law show ?thesis
    by (cases "cache_commit W p P r config fp (c, t)"; cases "fst (cache_commit W p P r config fp (c, t))")
       (auto simp: wp_def abort_def same_flags_def mem_store_inv_def split: sum.splits)
qed

definition demo_key :: cache_key where
  "demo_key = \<lparr>ck_inputs = [], ck_task = ''T2A'', ck_duration_seconds = PInt 8, ck_num_steps = PInt 25,
     ck_guidance_scale = PInt 4, ck_seed = PInt 42, ck_preprocess_version = ''p1'', ck_code_version = ''c1'',
     ck_source_revision = [], ck_deployment_fingerprint = demo_sha, ck_deployment_manifest_sha256 = demo_sha,
     ck_checkpoint_sha256 = demo_sha, ck_variant = ''v'', ck_precision = ''fp32'', ck_backend_id = ''b'',
     ck_operation = experimental_staged, ck_schema_version = 1\<rparr>"

theorem cache_commit_fenced_witness:
  "\<exists>e u. cache_commit demo_cache_world demo_policy demo_files demo_request [] demo_sha
      (new_cache demo_store, blank_transaction (Some demo_key) 0 None False) = (Inl e, (new_cache demo_store, u)) \<and>
    exc_class_of e = ControlFoleyCacheInputDrift"
proof -
  let ?t = "blank_transaction (Some demo_key) 0 None False"
  let ?r = "cache_commit demo_cache_world demo_policy demo_files demo_request [] demo_sha (new_cache demo_store, ?t)"
  have k: "key_for demo_cache_world demo_policy demo_files demo_request [] demo_sha = Inl e \<Longrightarrow> instance_of e Exception" for e
    using demo_key_error by (auto simp: raise_def)
  have i: "mem_store_inv demo_fl (fc_store (new_cache demo_store))" "cw_ops demo_cache_world = memory_ops demo_fl"
    using demo_mem_store_inv by (simp_all add: new_cache_def demo_cache_world_def)
  note f = cache_commit_fenced [where t = ?t and W = demo_cache_world and p = demo_policy and P = demo_files
    and r = demo_request and config = "[]" and fp = demo_sha and c = "new_cache demo_store", OF i k]
  have "\<exists>e d. ?r = (Inl e, d)"
    using demo_key_error
    by (simp add: cache_commit_def blank_transaction_def raise_def sbind_def on_tx_def ok_def input_drift_def fail_def)
  then obtain e d u where r: "?r = (Inl e, (d, u))" by auto
  with f show ?thesis by auto
qed

end
