(* ===== verification/Spec2Isabelle.thy ===== *)
theory Spec2Isabelle
  imports RepositoryProps DomainProps RuntimeProps LeaseProps PublicationProps ServiceProps UploadProps BaselineProps CacheProps
begin

text \<open>
  A verification library for the Nano Aural Runtime, a runtime for audio generation models with a
  durable job service around it. Source paths below are relative to \<open>src/src\<close>.

  The parts of the program and their theories, bottom up:

  \<^item> Shared ground. \<open>Prelude\<close>: the exception classes with their inheritance, results
    (\<open>res\<close>: an exception or a value), explicit state passing (\<open>sop\<close>), the weakest-precondition
    style \<open>wp\<close> in which the operations are specified, lemmas on lists and maps. \<open>PyValues\<close>: Python
    values and the string functions used. \<open>Tables\<close>: relational tables as lists of rows and
    transactions. \<open>Sha256\<close>, \<open>Json\<close>, \<open>Uuid\<close>: what the program uses of \<open>hashlib\<close>, \<open>json\<close> and \<open>uuid\<close>.
  \<^item> Durable domain (\<open>nano_aural_runtime/durable/domain.py\<close>): \<open>Domain\<close>, \<open>DomainProps\<close>. The records
    of jobs, attempts, artifacts, blobs and assets with the checks of their constructors, and the
    canonical request hash, which does not depend on the order of items.
  \<^item> In-memory durable repository (\<open>durable/repository.py\<close>): \<open>Repository\<close> (one field per private
    dictionary, one function per method), \<open>RepositoryInv\<close> and \<open>RepositoryLife\<close> (the invariant, its
    preservation by every method, the forward order \<open>repo_le\<close>), \<open>RepositoryProps\<close>.
  \<^item> Runtime core (\<open>models.py\<close>, \<open>errors.py\<close>, \<open>session.py\<close>, \<open>runtime.py\<close>, \<open>adapters.py\<close>):
    \<open>RuntimeValues\<close>, \<open>RuntimeCore\<close> (sequential operations), \<open>RuntimeThreads\<close> (the step relation of
    concurrent callers of one session), \<open>RuntimeProps\<close>.
  \<^item> Lease queue (\<open>durable/queue.py\<close>): \<open>LeaseQueue\<close> (the tables and one transaction per method),
    \<open>LeaseInv\<close>, \<open>LeaseLife\<close>, \<open>LeaseProps\<close>: exclusive leases, fencing, bounded retries, reaping.
  \<^item> Publication repository (\<open>durable/publication.py\<close> with the triggers of
    \<open>durable/sql/0004_artifact_publications.sql\<close>): \<open>Publication\<close> (records, triggers, statements, one
    transaction per method), \<open>PublicationInv\<close> (what a statement may do to a row, the invariant),
    \<open>PublicationLife\<close> (the queue on the shared tables, the forward order), \<open>PublicationOps\<close> (the
    effect of each method), \<open>PublicationFinal\<close> and \<open>PublicationReturn\<close> (finalization: what it does
    and when it returns), \<open>PublicationMachine\<close> (queue and repository as one machine),
    \<open>PublicationProps\<close>.
  \<^item> Blob stores (\<open>durable/storage.py\<close>, \<open>durable/upload_transports.py\<close>): \<open>Storage\<close>, \<open>StorageProps\<close>
    with the locale \<open>blob_store\<close>, which both stores are interpreted in.
  \<^item> Attempt object stores (\<open>durable/artifact_storage.py\<close>): \<open>AttemptStore\<close> (keys, the store on
    files with its inventory journal and scan cursors, the store in memory), \<open>AttemptContract\<close> (the
    locale \<open>attempt_store\<close> with the laws of both), \<open>AttemptLocal\<close> (the invariant and the operations on
    files), \<open>AttemptScan\<close> (the pages of its journal, its interpretation), \<open>AttemptMem\<close> (the store in
    memory, its interpretation), \<open>AttemptList\<close> (listings, the two stores as machines and their
    relation), \<open>AttemptProps\<close>.
  \<^item> Artifact validation (\<open>durable/artifact_validation.py\<close>): \<open>ArtifactValidation\<close>, the specification
    of an output and the validator that streams it and checks size, media type and digest.
  \<^item> Publication service (\<open>durable/artifact_publication.py\<close>): \<open>PublicationService\<close> (the service
    \<open>publish\<close> and the orphan sweeper \<open>run_sweep\<close> over ledger, attempt store and blob store),
    \<open>ServiceSteps\<close> (a predicate kept by every call is kept by both programs: the locales
    \<open>stable_calls\<close> and \<open>stable_publish\<close>), \<open>ServiceSweep\<close> (what a sweep deletes and what it spares),
    \<open>ServicePublish\<close> (what a publication stores: the locale \<open>canonical_store\<close>, interpreted in both
    blob stores), \<open>ServiceProps\<close>.
  \<^item> Verified uploads (\<open>durable/uploads.py\<close>, \<open>durable/postgres_uploads.py\<close>): \<open>Uploads\<close> (values and
    staging stores), \<open>UploadRepos\<close> (both repositories), \<open>UploadVerify\<close> (verifier and janitor),
    \<open>UploadLife\<close>, \<open>UploadRefine\<close>, \<open>UploadRefine2\<close> (the PostgreSQL repository refines the in-memory
    one), \<open>UploadContract\<close>, \<open>UploadContract2\<close> (the contracts the verifier relies on and their
    interpretations), \<open>UploadProps\<close>.
  \<^item> ControlFoley manifests (\<open>nano_aural_runtime_controlfoley/baseline.py\<close>): \<open>CfValues\<close>, \<open>Baseline\<close>
    (fingerprints, deployment and fixture manifests), \<open>BaselineResult\<close> (result manifest, binding
    verification, host prerequisites), \<open>BaselineProps\<close>.
  \<^item> ControlFoley tasks and cache (\<open>tasks.py\<close>, \<open>cache.py\<close>): \<open>CfTasks\<close>, \<open>CacheValues\<close> (policy, key,
    entry), \<open>CacheStore\<close> (the bounded in-memory store), \<open>CacheFacade\<close> (transactions and the facade
    over any store), \<open>CacheInv\<close> (the invariant and the effect of each store operation),
    \<open>CacheContract\<close> (the locale \<open>cache_store_contract\<close> with the facade's laws, interpreted on the
    in-memory store), \<open>CacheProps\<close>.

  How the parts interact. The request of a client is validated and hashed by the domain; a job is
  created in a repository; the lease queue hands it to one worker at a time under an epoch; the
  worker runs the model through the runtime core; the publication service stages
  its outputs in an attempt object store, has them validated, copies them to a blob store under their
  SHA-256 and advances the ledger of the publication repository step by step; its finalization makes
  them artifacts of the succeeded job. The orphan sweeper goes through the ledger and
  the attempt store's inventory and deletes only objects that no open publication owns. Inputs enter through verified
  uploads, which promote staged bytes to blobs. The ControlFoley adapter reads its manifests and
  keeps the cache.

  Modelling decisions. A Python exception is a value carrying its class and message, so that
  \<open>except\<close> clauses are decided by the class hierarchy. A method that takes the object's lock, or a
  database transaction, is one atomic step; what other threads or transactions do in between is an
  argument (a function on the state, rows locked by others, clock readings). Time is an integer or a
  rational. Strings and bytes are lists of characters below 256. Floats are rationals with infinities
  and NaN; rounding (\<open>float_env\<close>) and the texts of floats (\<open>pyenv\<close>) are arguments.

  Bounds and fuel. No definition uses fuel: the loops of the source are recursive over lists or
  numbers, or have a measure (the pieces of a stream, the eviction loop, the resource tables).
  SHA-256 works on 32-bit words with wrap-around.

  What the theorems show is stated before each of them; they are the ones numbered C1 to C40, in
  the theories whose names end in \<open>Props\<close>. The other theories hold the invariants, the effect of
  each operation (lemmas ending in \<open>_wp\<close>) and the laws of the locales.

  Not modelled. The drivers of external programs and I/O: migrations and release recovery (they run
  PostgreSQL and \<open>pg_dump\<close>), the ControlFoley, Woosh and Stable Audio adapters' child processes,
  tensors and CUDA, HTTP servers and clients, the ComfyUI nodes, command lines, benchmarks and
  release tools. Not modelled yet, and next in order: the PostgreSQL
  repository, the workers that compose queue, runtime and publication, the application facade, and
  the condition cache.
\<close>

end
